(* ===== verification/Prelude.thy ===== *)
theory Prelude
  imports Main "HOL-Library.Word" "HOL-Library.Char_ord" "HOL-Library.List_Lexorder"
begin

text \<open>
  Shared ground of the development: the errors a component can raise and the result type that
  carries them, decimal numerals as JavaScript spells them, the character classes the source's
  regular expressions name, and the facts about newline-separated text that every signed body
  relies on.

  A JavaScript string is a list of code units; here it is HOL's \<open>string\<close>, whose
  characters are the code units below 256. Text outside Latin-1 is outside the model.
\<close>

named_theorems char_class \<open>characters a class admits or excludes\<close>
named_theorems line_simps \<open>splitting newline-separated text\<close>
named_theorems res_simps \<open>running the result monad\<close>

subsection \<open>Errors and results\<close>

text \<open>
  One constructor per class of error object the source throws. \<open>OutOfModel\<close> is not an
  error of the program: it marks a JavaScript value the model does not represent (decoded text
  beyond Latin-1).
\<close>

datatype js_error =
    PlainError string
  | FormatError string
  | SignedBodyError string
  | JsTypeError string
  | JsRangeError string
  | MissingKeyError string
  | OperationError
  | SyntaxError
  | OutOfModel

type_synonym 'a res = "js_error + 'a"

abbreviation Ok :: "'a \<Rightarrow> 'a res" where
  "Ok \<equiv> Inr"

abbreviation Throw :: "js_error \<Rightarrow> 'a res" where
  "Throw \<equiv> Inl"

definition bind_res :: "'a res \<Rightarrow> ('a \<Rightarrow> 'b res) \<Rightarrow> 'b res" where
  "bind_res r f = (case r of Inl e \<Rightarrow> Inl e | Inr x \<Rightarrow> f x)"

definition need :: "bool \<Rightarrow> js_error \<Rightarrow> unit res" where
  "need ok e = (if ok then Ok () else Throw e)"

definition opt_res :: "js_error \<Rightarrow> 'a option \<Rightarrow> 'a res" where
  "opt_res e x = (case x of None \<Rightarrow> Throw e | Some y \<Rightarrow> Ok y)"

fun map_res :: "('a \<Rightarrow> 'b res) \<Rightarrow> 'a list \<Rightarrow> 'b list res" where
  "map_res f [] = Ok []"
| "map_res f (x # xs) = bind_res (f x) (\<lambda>y. bind_res (map_res f xs) (\<lambda>ys. Ok (y # ys)))"

definition is_ok :: "'a res \<Rightarrow> bool" where
  "is_ok r = (case r of Inl _ \<Rightarrow> False | Inr _ \<Rightarrow> True)"

lemma bind_res_simps [simp, res_simps]:
  "bind_res (Inl e) f = Inl e"
  "bind_res (Inr x) f = f x"
  by (simp_all add: bind_res_def)

lemma bind_res_Ok [simp, res_simps]: "bind_res r f = Inr y \<longleftrightarrow> (\<exists>x. r = Inr x \<and> f x = Inr y)"
  by (cases r) simp_all

lemma bind_res_Throw: "bind_res r f = Inl e \<longleftrightarrow> r = Inl e \<or> (\<exists>x. r = Inr x \<and> f x = Inl e)"
  by (cases r) simp_all

lemma need_simps [simp, res_simps]:
  "need True e = Inr ()"
  "need False e = Inl e"
  "need ok e = Inr u \<longleftrightarrow> ok"
  by (simp_all add: need_def)

lemma opt_res_simps [simp, res_simps]:
  "opt_res e (Some x) = Inr x"
  "opt_res e None = Inl e"
  "opt_res e v = Inr y \<longleftrightarrow> v = Some y"
  by (simp_all add: opt_res_def split: option.splits)

lemma is_ok_iff [simp]: "is_ok r \<longleftrightarrow> (\<exists>x. r = Inr x)"
  by (cases r) (simp_all add: is_ok_def)

lemma map_res_length: "map_res f xs = Inr ys \<Longrightarrow> length ys = length xs"
  by (induction xs arbitrary: ys) auto

lemma map_res_nth:
  "map_res f xs = Inr ys \<Longrightarrow> i < length xs \<Longrightarrow> f (xs ! i) = Inr (ys ! i)"
  by (induction xs arbitrary: ys i) (auto simp: nth_Cons split: nat.splits)

lemma map_res_Ok: "(\<And>x. x \<in> set xs \<Longrightarrow> f x = Inr (g x)) \<Longrightarrow> map_res f xs = Inr (map g xs)"
  by (induction xs) auto

lemma map_res_set: "map_res f xs = Inr ys \<Longrightarrow> y \<in> set ys \<Longrightarrow> \<exists>x\<in>set xs. f x = Inr y"
  by (induction xs arbitrary: ys) auto

subsection \<open>Lists\<close>

text \<open>\<open>xs[xs.findIndex(p)] = y\<close>, where there is such an element.\<close>

fun replace_first :: "('a \<Rightarrow> bool) \<Rightarrow> 'a \<Rightarrow> 'a list \<Rightarrow> 'a list" where
  "replace_first p y [] = []"
| "replace_first p y (x # xs) = (if p x then y # xs else x # replace_first p y xs)"

lemma set_replace_first: "set (replace_first p y xs) \<subseteq> insert y (set xs)"
  by (induction xs) auto

subsection \<open>Characters\<close>

abbreviation nl :: char where
  "nl \<equiv> CHR 0x0A"

abbreviation code :: "char \<Rightarrow> nat" where
  "code c \<equiv> of_char c"

definition is_digit :: "char \<Rightarrow> bool" where
  "is_digit c \<longleftrightarrow> 48 \<le> code c \<and> code c \<le> 57"

definition is_lower :: "char \<Rightarrow> bool" where
  "is_lower c \<longleftrightarrow> 97 \<le> code c \<and> code c \<le> 122"

definition is_upper :: "char \<Rightarrow> bool" where
  "is_upper c \<longleftrightarrow> 65 \<le> code c \<and> code c \<le> 90"

definition is_lhex :: "char \<Rightarrow> bool" where
  "is_lhex c \<longleftrightarrow> is_digit c \<or> (97 \<le> code c \<and> code c \<le> 102)"

definition is_hex :: "char \<Rightarrow> bool" where
  "is_hex c \<longleftrightarrow> is_lhex c \<or> (65 \<le> code c \<and> code c \<le> 70)"

lemmas class_defs = is_digit_def is_lower_def is_upper_def is_lhex_def is_hex_def

lemma class_nl [simp, char_class]:
  "\<not> is_digit nl" "\<not> is_lower nl" "\<not> is_upper nl" "\<not> is_lhex nl" "\<not> is_hex nl"
  by (simp_all add: class_defs)

lemma digit_is_lhex: "is_digit c \<Longrightarrow> is_lhex c"
  by (simp add: is_lhex_def)

lemma list_all_no_nl: "list_all p s \<Longrightarrow> \<not> p nl \<Longrightarrow> nl \<notin> set s"
  by (auto simp: list_all_iff)

subsection \<open>Strings\<close>

definition starts_with :: "string \<Rightarrow> string \<Rightarrow> bool" where
  "starts_with s p \<longleftrightarrow> take (length p) s = p"

lemma starts_with_append [simp]: "starts_with (p @ s) p"
  by (simp add: starts_with_def)

lemma starts_with_iff: "starts_with s p \<longleftrightarrow> (\<exists>t. s = p @ t)"
  by (metis append_take_drop_id starts_with_append starts_with_def)

fun join :: "string \<Rightarrow> string list \<Rightarrow> string" where
  "join sep [] = ''''"
| "join sep [x] = x"
| "join sep (x # y # ys) = x @ sep @ join sep (y # ys)"

text \<open>\<open>s.padStart(n, c)\<close>.\<close>

definition pad_start :: "nat \<Rightarrow> char \<Rightarrow> string \<Rightarrow> string" where
  "pad_start n c s = replicate (n - length s) c @ s"

text \<open>\<open>s.slice(i, j)\<close> for \<open>0 \<le> i \<le> j\<close>.\<close>

definition slice :: "nat \<Rightarrow> nat \<Rightarrow> 'a list \<Rightarrow> 'a list" where
  "slice i j xs = take (j - i) (drop i xs)"

definition to_lower_char :: "char \<Rightarrow> char" where
  "to_lower_char c =
     (if is_upper c \<or> (192 \<le> code c \<and> code c \<le> 222 \<and> code c \<noteq> 215)
      then char_of (code c + 32) else c)"

text \<open>\<open>s.toLowerCase()\<close>, which on Latin-1 moves each capital by 32 and nothing else.\<close>

definition to_lower :: "string \<Rightarrow> string" where
  "to_lower s = map to_lower_char s"

lemma code_less_256 [simp]: "code c < 256"
proof -
  have "char_of (code c) = c" by simp
  then have "code (char_of (code c) :: char) = code c" by simp
  then have "code c mod 256 = code c" by (simp add: of_char_of)
  then show ?thesis by (simp add: mod_eq_self_iff_div_eq_0 del: mod_less)
qed

lemma to_lower_char_idem [simp]: "to_lower_char (to_lower_char c) = to_lower_char c"
proof -
  have "code (char_of (code c + 32) :: char) = code c + 32" if "code c \<le> 222"
    using that by (simp add: of_char_of)
  then show ?thesis
    by (auto simp: to_lower_char_def is_upper_def)
qed

lemma to_lower_idem [simp]: "to_lower (to_lower s) = to_lower s"
  by (simp add: to_lower_def)

lemma length_to_lower [simp]: "length (to_lower s) = length s"
  by (simp add: to_lower_def)

lemma to_lower_lhex [simp]: "list_all is_lhex s \<Longrightarrow> to_lower s = s"
  by (induction s) (auto simp: to_lower_def to_lower_char_def class_defs)

subsection \<open>Decimal numerals\<close>

definition digit :: "nat \<Rightarrow> char" where
  "digit d = char_of (48 + d)"

fun nat_str :: "nat \<Rightarrow> string" where
  "nat_str n = (if n < 10 then [digit n] else nat_str (n div 10) @ [digit (n mod 10)])"

declare nat_str.simps [simp del]

text \<open>\<open>String(n)\<close> of a safe integer.\<close>

definition int_str :: "int \<Rightarrow> string" where
  "int_str i = (if i < 0 then CHR ''-'' # nat_str (nat (- i)) else nat_str (nat i))"

definition digit_val :: "char \<Rightarrow> nat" where
  "digit_val c = code c - 48"

definition nat_of_str :: "string \<Rightarrow> nat" where
  "nat_of_str s = foldl (\<lambda>n c. 10 * n + digit_val c) 0 s"

lemma code_digit [simp]: "d < 10 \<Longrightarrow> code (digit d) = 48 + d"
  by (simp add: digit_def of_char_of)

lemma is_digit_digit [simp]: "d < 10 \<Longrightarrow> is_digit (digit d)"
  by (simp add: is_digit_def)

lemma digit_val_digit [simp]: "d < 10 \<Longrightarrow> digit_val (digit d) = d"
  by (simp add: digit_val_def)

lemma nat_str_digits: "list_all is_digit (nat_str n)"
  by (induction n rule: nat_str.induct) (simp add: nat_str.simps)

lemma nat_str_nonempty [simp]: "nat_str n \<noteq> []"
  by (subst nat_str.simps) simp

lemma nat_of_str_nat_str [simp]: "nat_of_str (nat_str n) = n"
proof (induction n rule: nat_str.induct)
  case (1 n)
  show ?case
    using 1 by (subst nat_str.simps) (simp add: nat_of_str_def)
qed

lemma nat_str_inj [simp]: "nat_str m = nat_str n \<longleftrightarrow> m = n"
  by (metis nat_of_str_nat_str)

lemma nat_str_no_nl [simp]: "nl \<notin> set (nat_str n)"
  using list_all_no_nl [OF nat_str_digits] by simp

lemma hd_nat_str_digit: "is_digit (hd (nat_str n))"
  using nat_str_digits [of n] by (cases "nat_str n") auto

lemma minus_not_digit [simp]: "\<not> is_digit (CHR ''-'')"
  by (simp add: is_digit_def)

lemma int_str_inj [simp]: "int_str i = int_str j \<longleftrightarrow> i = j"
proof -
  have "CHR ''-'' # nat_str m \<noteq> nat_str n" for m n
    by (metis hd_nat_str_digit list.sel(1) minus_not_digit)
  then show ?thesis
    by (auto simp: int_str_def split: if_splits) (metis)+
qed

lemma int_str_no_nl [simp]: "nl \<notin> set (int_str i)"
  by (simp add: int_str_def)

subsection \<open>Newline-separated text\<close>

text \<open>
  The facts that make \<open>key=value\<close> lines injective: two texts that agree, each a
  newline-free part followed by a newline, agree part by part.
\<close>

lemma sep_split [line_simps]:
  assumes "c \<notin> set a" and "c \<notin> set b"
  shows "a @ c # x = b @ c # y \<longleftrightarrow> a = b \<and> x = y"
  using assms
proof (induction a arbitrary: b)
  case Nil
  then show ?case by (cases b) auto
next
  case (Cons d a)
  then show ?case by (cases b) auto
qed

lemma sep_split_end:
  assumes "c \<notin> set a" and "c \<notin> set b"
  shows "a @ c # x \<noteq> b"
  using assms by auto

end
