(* ===== verification/JsValues.thy ===== *)
theory JsValues
  imports Prelude
begin

text \<open>
  JavaScript values that cross a trust boundary as data (a stored blob, an imported backup, a
  message payload) and the parts of the language's own library the source applies to them:
  property reads, truthiness, \<open>String(v)\<close>, \<open>JSON.stringify\<close> and \<open>JSON.parse\<close>.

  Numbers are the integers plus \<open>JNaN\<close>, which stands for the non-finite numbers; fractions
  are outside the model. The list of an object is its own properties in enumeration order.
\<close>

datatype jsval =
    JUndef
  | JNull
  | JBool bool
  | JNum int
  | JNaN
  | JStr string
  | JArr "jsval list"
  | JObj "(string \<times> jsval) list"

subsection \<open>Reading values\<close>

text \<open>Property read. The source reads properties of values it has already tested to be
  objects, or through \<open>?.\<close>; both give \<open>undefined\<close> where there is no such property.\<close>

fun js_get :: "jsval \<Rightarrow> string \<Rightarrow> jsval" where
  "js_get (JObj kvs) k = (case map_of kvs k of None \<Rightarrow> JUndef | Some v \<Rightarrow> v)"
| "js_get _ k = JUndef"

fun js_has :: "jsval \<Rightarrow> string \<Rightarrow> bool" where
  "js_has (JObj kvs) k = (k \<in> set (map fst kvs))"
| "js_has _ k = False"

text \<open>\<open>typeof v === 'object' && v !== null\<close>; arrays are objects.\<close>

fun is_object :: "jsval \<Rightarrow> bool" where
  "is_object (JObj _) = True"
| "is_object (JArr _) = True"
| "is_object _ = False"

fun is_nullish :: "jsval \<Rightarrow> bool" where
  "is_nullish JUndef = True"
| "is_nullish JNull = True"
| "is_nullish _ = False"

fun truthy :: "jsval \<Rightarrow> bool" where
  "truthy JUndef = False"
| "truthy JNull = False"
| "truthy (JBool b) = b"
| "truthy (JNum n) = (n \<noteq> 0)"
| "truthy JNaN = False"
| "truthy (JStr s) = (s \<noteq> [])"
| "truthy (JArr _) = True"
| "truthy (JObj _) = True"

fun the_str :: "jsval \<Rightarrow> string option" where
  "the_str (JStr s) = Some s"
| "the_str _ = None"

fun the_int :: "jsval \<Rightarrow> int option" where
  "the_int (JNum n) = Some n"
| "the_int _ = None"

text \<open>\<open>String(v)\<close>, as template literals apply it.\<close>

fun js_str :: "jsval \<Rightarrow> string" where
  "js_str JUndef = ''undefined''"
| "js_str JNull = ''null''"
| "js_str (JBool b) = (if b then ''true'' else ''false'')"
| "js_str (JNum n) = int_str n"
| "js_str JNaN = ''NaN''"
| "js_str (JStr s) = s"
| "js_str (JArr vs) = join '','' (map (\<lambda>v. if is_nullish v then '''' else js_str v) vs)"
| "js_str (JObj _) = ''[object Object]''"

text \<open>\<open>Number.isSafeInteger(v)\<close>.\<close>

definition max_safe_integer :: int where
  "max_safe_integer = 9007199254740991"

fun is_safe_integer :: "jsval \<Rightarrow> bool" where
  "is_safe_integer (JNum n) = (\<bar>n\<bar> \<le> max_safe_integer)"
| "is_safe_integer _ = False"

subsection \<open>Objects as association lists\<close>

fun obj_put :: "string \<Rightarrow> 'v \<Rightarrow> (string \<times> 'v) list \<Rightarrow> (string \<times> 'v) list" where
  "obj_put k v [] = [(k, v)]"
| "obj_put k v ((k', v') # kvs) = (if k = k' then (k, v) # kvs else (k', v') # obj_put k v kvs)"

definition obj_del :: "string \<Rightarrow> (string \<times> 'v) list \<Rightarrow> (string \<times> 'v) list" where
  "obj_del k kvs = filter (\<lambda>(k', _). k' \<noteq> k) kvs"

lemma map_of_obj_put [simp]: "map_of (obj_put k v kvs) = (map_of kvs)(k \<mapsto> v)"
  by (induction k v kvs rule: obj_put.induct) auto

lemma keys_obj_put: "fst ` set (obj_put k v kvs) = insert k (fst ` set kvs)"
  by (induction k v kvs rule: obj_put.induct) auto

lemma set_obj_put: "set (obj_put k v kvs) \<subseteq> insert (k, v) (set kvs)"
  by (induction k v kvs rule: obj_put.induct) auto

lemma distinct_obj_put:
  "distinct (map fst kvs) \<Longrightarrow> distinct (map fst (obj_put k v kvs))"
proof (induction k v kvs rule: obj_put.induct)
  case (2 k v k' v' kvs)
  then show ?case using keys_obj_put [of k v kvs] by auto
qed simp

lemma obj_put_fresh: "k \<notin> fst ` set kvs \<Longrightarrow> obj_put k v kvs = kvs @ [(k, v)]"
  by (induction k v kvs rule: obj_put.induct) auto

lemma map_of_obj_del [simp]: "map_of (obj_del k kvs) = (map_of kvs)(k := None)"
  by (induction kvs) (auto simp: obj_del_def)

lemma keys_obj_del: "fst ` set (obj_del k kvs) = fst ` set kvs - {k}"
  by (auto simp: obj_del_def image_iff)

lemma distinct_obj_del: "distinct (map fst kvs) \<Longrightarrow> distinct (map fst (obj_del k kvs))"
  by (induction kvs) (auto simp: obj_del_def)

text \<open>Later entries of a literal replace earlier ones, in place.\<close>

definition obj_of_list :: "(string \<times> 'v) list \<Rightarrow> (string \<times> 'v) list" where
  "obj_of_list kvs = fold (\<lambda>(k, v) ob. obj_put k v ob) kvs []"

lemma obj_of_list_distinct: "distinct (map fst kvs) \<Longrightarrow> obj_of_list kvs = kvs"
proof -
  have "distinct (map fst (acc @ kvs)) \<Longrightarrow> fold (\<lambda>(k, v) ob. obj_put k v ob) kvs acc = acc @ kvs" for acc
  proof (induction kvs arbitrary: acc)
    case (Cons kv kvs)
    obtain k v where kv: "kv = (k, v)" by (cases kv)
    have "obj_put k v acc = acc @ [(k, v)]"
      using Cons.prems kv by (intro obj_put_fresh) auto
    then show ?case
      using Cons.IH [of "acc @ [(k, v)]"] Cons.prems kv by simp
  qed simp
  from this [of "[]"] show "distinct (map fst kvs) \<Longrightarrow> obj_of_list kvs = kvs"
    by (simp add: obj_of_list_def)
qed

subsection \<open>JSON text\<close>

abbreviation quote :: char where
  "quote \<equiv> CHR 0x22"

abbreviation bslash :: char where
  "bslash \<equiv> CHR 0x5C"

definition hex_digit :: "nat \<Rightarrow> char" where
  "hex_digit n = (if n < 10 then char_of (48 + n) else char_of (87 + n))"

definition json_escape :: "char \<Rightarrow> string" where
  "json_escape c =
     (if c = quote then [bslash, quote]
      else if c = bslash then [bslash, bslash]
      else if code c = 8 then [bslash, CHR ''b'']
      else if code c = 9 then [bslash, CHR ''t'']
      else if code c = 10 then [bslash, CHR ''n'']
      else if code c = 12 then [bslash, CHR ''f'']
      else if code c = 13 then [bslash, CHR ''r'']
      else if code c < 32
        then [bslash, CHR ''u'', CHR ''0'', CHR ''0'', hex_digit (code c div 16), hex_digit (code c mod 16)]
      else [c])"

text \<open>\<open>JSON.stringify\<close> of a string.\<close>

definition json_quote :: "string \<Rightarrow> string" where
  "json_quote s = quote # concat (map json_escape s) @ [quote]"

text \<open>\<open>JSON.stringify\<close> of any other value. An undefined member of an object is left out;
  an undefined element of an array, and every non-finite number, is \<open>null\<close>.\<close>

fun json_text :: "jsval \<Rightarrow> string" where
  "json_text JUndef = ''null''"
| "json_text JNull = ''null''"
| "json_text (JBool b) = (if b then ''true'' else ''false'')"
| "json_text (JNum n) = int_str n"
| "json_text JNaN = ''null''"
| "json_text (JStr s) = json_quote s"
| "json_text (JArr vs) = CHR ''['' # join '','' (map json_text vs) @ '']''"
| "json_text (JObj kvs) =
     CHR ''{'' # join '',''
       (map (\<lambda>(k, v). json_quote k @ CHR '':'' # json_text v) (filter (\<lambda>(k, v). v \<noteq> JUndef) kvs))
       @ ''}''"

definition json_stringify :: "jsval \<Rightarrow> string option" where
  "json_stringify v = (if v = JUndef then None else Some (json_text v))"

end
