(* ===== verification/Json.thy ===== *)
theory Json
  imports JsValues
begin

text \<open>
  \<open>JSON.parse\<close> on the texts the model represents (integers, Latin-1 strings), and the round
  trip through \<open>JSON.stringify\<close>. Fractions and exponents are valid JSON the value type
  cannot hold, so the parser answers \<open>None\<close> for them.
\<close>

subsection \<open>The parser\<close>

definition is_ws :: "char \<Rightarrow> bool" where
  "is_ws c \<longleftrightarrow> code c = 32 \<or> code c = 9 \<or> code c = 10 \<or> code c = 13"

definition skip_ws :: "string \<Rightarrow> string" where
  "skip_ws s = dropWhile is_ws s"

definition hex_val :: "char \<Rightarrow> nat option" where
  "hex_val c =
     (if is_digit c then Some (code c - 48)
      else if 97 \<le> code c \<and> code c \<le> 102 then Some (code c - 87)
      else if 65 \<le> code c \<and> code c \<le> 70 then Some (code c - 55)
      else None)"

definition simple_escape :: "char \<Rightarrow> char option" where
  "simple_escape e =
     (if e = quote then Some quote
      else if e = bslash then Some bslash
      else if e = CHR ''/'' then Some (CHR ''/'')
      else if e = CHR ''b'' then Some (char_of (8 :: nat))
      else if e = CHR ''t'' then Some (char_of (9 :: nat))
      else if e = CHR ''n'' then Some (char_of (10 :: nat))
      else if e = CHR ''f'' then Some (char_of (12 :: nat))
      else if e = CHR ''r'' then Some (char_of (13 :: nat))
      else None)"

text \<open>A \<open>\u\<close> escape below 256; larger code units are outside the model.\<close>

definition unicode_escape :: "char \<Rightarrow> char \<Rightarrow> char \<Rightarrow> char \<Rightarrow> char option" where
  "unicode_escape a b c d =
     (if hex_val a = Some 0 \<and> hex_val b = Some 0
      then (case (hex_val c, hex_val d) of
              (Some h, Some l) \<Rightarrow> Some (char_of (16 * h + l))
            | _ \<Rightarrow> None)
      else None)"

text \<open>The characters of a string literal, its opening quote already read.\<close>

fun p_str :: "string \<Rightarrow> (string \<times> string) option" where
  "p_str [] = None"
| "p_str (c # cs) =
     (if c = quote then Some ([], cs)
      else if c = bslash then
        (case cs of
           [] \<Rightarrow> None
         | e # ds \<Rightarrow>
             if e = CHR ''u'' then
               (case ds of
                  h1 # h2 # h3 # h4 # r \<Rightarrow>
                    (case unicode_escape h1 h2 h3 h4 of
                       None \<Rightarrow> None
                     | Some x \<Rightarrow> map_option (\<lambda>(t, r'). (x # t, r')) (p_str r))
                | _ \<Rightarrow> None)
             else
               (case simple_escape e of
                  None \<Rightarrow> None
                | Some x \<Rightarrow> map_option (\<lambda>(t, r'). (x # t, r')) (p_str ds)))
      else if code c < 32 then None
      else map_option (\<lambda>(t, r'). (c # t, r')) (p_str cs))"

definition expect :: "char \<Rightarrow> string \<Rightarrow> string option" where
  "expect c s = (case skip_ws s of [] \<Rightarrow> None | x # r \<Rightarrow> if x = c then Some r else None)"

definition num_tail_ok :: "string \<Rightarrow> bool" where
  "num_tail_ok s = (case s of [] \<Rightarrow> True | c # _ \<Rightarrow> c \<noteq> CHR ''.'' \<and> c \<noteq> CHR ''e'' \<and> c \<noteq> CHR ''E'')"

definition p_nat :: "string \<Rightarrow> (nat \<times> string) option" where
  "p_nat s =
     (let ds = takeWhile is_digit s; r = dropWhile is_digit s
      in if ds = [] \<or> (1 < length ds \<and> hd ds = CHR ''0'') \<or> \<not> num_tail_ok r then None
         else Some (nat_of_str ds, r))"

definition p_num :: "string \<Rightarrow> (int \<times> string) option" where
  "p_num s =
     (case s of
        [] \<Rightarrow> None
      | c # cs \<Rightarrow>
          if c = CHR ''-'' then map_option (\<lambda>(n, r). (- int n, r)) (p_nat cs)
          else map_option (\<lambda>(n, r). (int n, r)) (p_nat s))"

text \<open>Values, array elements and object members. The first argument bounds the nesting; a text
  is never nested more deeply than it is long.\<close>

fun p_val :: "nat \<Rightarrow> string \<Rightarrow> (jsval \<times> string) option"
  and p_arr :: "nat \<Rightarrow> string \<Rightarrow> (jsval list \<times> string) option"
  and p_obj :: "nat \<Rightarrow> string \<Rightarrow> ((string \<times> jsval) list \<times> string) option" where
  "p_val 0 s0 = None"
| "p_val (Suc n) s0 =
     (let s = skip_ws s0
      in if starts_with s ''null'' then Some (JNull, drop 4 s)
         else if starts_with s ''true'' then Some (JBool True, drop 4 s)
         else if starts_with s ''false'' then Some (JBool False, drop 5 s)
         else
           (case s of
              [] \<Rightarrow> None
            | c # cs \<Rightarrow>
                if c = quote then map_option (\<lambda>(t, r). (JStr t, r)) (p_str cs)
                else if c = CHR ''['' then
                  (case expect (CHR '']'') cs of
                     Some r \<Rightarrow> Some (JArr [], r)
                   | None \<Rightarrow> map_option (\<lambda>(vs, r). (JArr vs, r)) (p_arr n cs))
                else if c = CHR ''{'' then
                  (case expect (CHR ''}'') cs of
                     Some r \<Rightarrow> Some (JObj [], r)
                   | None \<Rightarrow> map_option (\<lambda>(kvs, r). (JObj (obj_of_list kvs), r)) (p_obj n cs))
                else map_option (\<lambda>(i, r). (JNum i, r)) (p_num s)))"
| "p_arr 0 s = None"
| "p_arr (Suc n) s =
     (case p_val n s of
        None \<Rightarrow> None
      | Some (v, r) \<Rightarrow>
          (case expect (CHR '','') r of
             Some r' \<Rightarrow> map_option (\<lambda>(vs, r''). (v # vs, r'')) (p_arr n r')
           | None \<Rightarrow> map_option (\<lambda>r'. ([v], r')) (expect (CHR '']'') r)))"
| "p_obj 0 s = None"
| "p_obj (Suc n) s =
     (case expect quote s of
        None \<Rightarrow> None
      | Some q \<Rightarrow>
          (case p_str q of
             None \<Rightarrow> None
           | Some (k, r) \<Rightarrow>
               (case expect (CHR '':'') r of
                  None \<Rightarrow> None
                | Some r' \<Rightarrow>
                    (case p_val n r' of
                       None \<Rightarrow> None
                     | Some (v, r'') \<Rightarrow>
                         (case expect (CHR '','') r'' of
                            Some r3 \<Rightarrow> map_option (\<lambda>(kvs, r4). ((k, v) # kvs, r4)) (p_obj n r3)
                          | None \<Rightarrow> map_option (\<lambda>r3. ([(k, v)], r3)) (expect (CHR ''}'') r''))))))"

definition json_parse :: "string \<Rightarrow> jsval option" where
  "json_parse s =
     (case p_val (Suc (length s)) s of
        Some (v, r) \<Rightarrow> if skip_ws r = [] then Some v else None
      | None \<Rightarrow> None)"

subsection \<open>Strings round-trip\<close>

lemma hex_val_digit: "n < 16 \<Longrightarrow> hex_val (hex_digit n) = Some n"
  by (auto simp: hex_val_def hex_digit_def is_digit_def of_char_of)

lemma unicode_escape_zero:
  "n < 256 \<Longrightarrow>
   unicode_escape (CHR ''0'') (CHR ''0'') (hex_digit (n div 16)) (hex_digit (n mod 16)) = Some (char_of n)"
  by (simp add: unicode_escape_def hex_val_digit) (simp add: hex_val_def is_digit_def)

lemma char_of_code [simp]: "code c = n \<Longrightarrow> char_of n = c"
  by auto

lemma p_str_escape: "p_str (json_escape c @ s) = map_option (\<lambda>(t, r). (c # t, r)) (p_str s)"
proof -
  consider "c = quote" | "c = bslash" | "code c \<in> {8, 9, 10, 12, 13}" |
      "code c < 32" "code c \<notin> {8, 9, 10, 12, 13}" "c \<noteq> quote" "c \<noteq> bslash" |
      "32 \<le> code c" "c \<noteq> quote" "c \<noteq> bslash"
    by fastforce
  then show ?thesis
  proof cases
    case 3
    then have "c \<noteq> quote" "c \<noteq> bslash" by auto
    with 3 show ?thesis
      by (auto simp: json_escape_def simple_escape_def)
  next
    case 4
    then show ?thesis
      using unicode_escape_zero [of "code c"] by (simp add: json_escape_def)
  next
    case 5
    then show ?thesis by (simp add: json_escape_def)
  qed (simp_all add: json_escape_def simple_escape_def)
qed

lemma p_str_quote: "p_str (concat (map json_escape s) @ quote # r) = Some (s, r)"
proof (induction s)
  case (Cons c s)
  have "p_str (json_escape c @ (concat (map json_escape s) @ quote # r)) = Some (c # s, r)"
    by (simp only: p_str_escape Cons.IH) simp
  then show ?case by simp
qed simp

subsection \<open>Values round-trip\<close>

text \<open>Values JSON carries without loss: no undefined, no non-finite number, and objects with
  distinct keys (as every JavaScript object has).\<close>

fun js_pure :: "jsval \<Rightarrow> bool" where
  "js_pure JUndef = False"
| "js_pure JNaN = False"
| "js_pure (JArr vs) = (\<forall>v\<in>set vs. js_pure v)"
| "js_pure (JObj kvs) = (distinct (map fst kvs) \<and> (\<forall>(k, v)\<in>set kvs. js_pure v))"
| "js_pure _ = True"

definition tail_ok :: "string \<Rightarrow> bool" where
  "tail_ok r \<longleftrightarrow> (case r of [] \<Rightarrow> True | c # _ \<Rightarrow> c = CHR '','' \<or> c = CHR '']'' \<or> c = CHR ''}'' \<or> is_ws c)"

lemma tail_ok_simps [simp]:
  "tail_ok []" "tail_ok (CHR '','' # r)" "tail_ok (CHR '']'' # r)" "tail_ok (CHR ''}'' # r)"
  by (simp_all add: tail_ok_def)

lemma tail_ok_facts:
  assumes "tail_ok r"
  shows "takeWhile is_digit r = []" "dropWhile is_digit r = r" "num_tail_ok r"
  using assms by (auto simp: tail_ok_def num_tail_ok_def is_digit_def is_ws_def split: list.splits)

lemma nat_str_leading: "1 < length (nat_str n) \<Longrightarrow> hd (nat_str n) \<noteq> CHR ''0''"
proof (induction n rule: nat_str.induct)
  case (1 n)
  show ?case
  proof (cases "n < 10")
    case True
    then show ?thesis using "1.prems" by (simp add: nat_str.simps)
  next
    case False
    have "hd (nat_str (n div 10)) \<noteq> CHR ''0''"
    proof (cases "n div 10 < 10")
      case True
      have "digit (n div 10) \<noteq> CHR ''0''"
      proof
        assume "digit (n div 10) = CHR ''0''"
        then have "code (digit (n div 10)) = (48 :: nat)" by simp
        with True False show False by simp
      qed
      with True show ?thesis by (simp add: nat_str.simps)
    next
      case False': False
      have "nat_str (n div 10) = nat_str (n div 10 div 10) @ [digit (n div 10 mod 10)]"
        using False' by (subst nat_str.simps) simp
      then have "1 < length (nat_str (n div 10))"
        by (simp add: Suc_lessI)
      with "1.IH" [OF False] show ?thesis by simp
    qed
    with False show ?thesis by (subst nat_str.simps) simp
  qed
qed

lemma takeWhile_digits:
  assumes "list_all p ds" and "takeWhile p r = []"
  shows "takeWhile p (ds @ r) = ds" and "dropWhile p (ds @ r) = r"
  using assms by (auto simp: list_all_iff takeWhile_append dropWhile_append3)
    (metis dropWhile_append2 dropWhile_eq_Nil_conv self_append_conv2 takeWhile_dropWhile_id)

lemma p_nat_str: "tail_ok r \<Longrightarrow> p_nat (nat_str n @ r) = Some (n, r)"
  using tail_ok_facts [of r] nat_str_leading [of n]
    takeWhile_digits [OF nat_str_digits [of n], of r]
  by (auto simp: p_nat_def Let_def)

lemma p_num_str: "tail_ok r \<Longrightarrow> p_num (int_str i @ r) = Some (i, r)"
proof -
  assume r: "tail_ok r"
  show ?thesis
  proof (cases "i < 0")
    case True
    with r show ?thesis by (simp add: p_num_def int_str_def p_nat_str)
  next
    case False
    have "hd (nat_str (nat i)) \<noteq> CHR ''-''"
      using hd_nat_str_digit [of "nat i"] minus_not_digit by metis
    moreover obtain c cs where "nat_str (nat i) = c # cs"
      by (cases "nat_str (nat i)") simp_all
    ultimately show ?thesis
      using False r p_nat_str [of r "nat i"] by (simp add: p_num_def int_str_def)
  qed
qed

text \<open>What the first character of a JSON text can be.\<close>

definition starts_value :: "char \<Rightarrow> bool" where
  "starts_value c \<longleftrightarrow>
     \<not> is_ws c \<and> c \<noteq> CHR '']'' \<and> c \<noteq> CHR ''}'' \<and> c \<noteq> CHR '','' \<and> c \<noteq> CHR '':''"

lemma is_digit_starts_value: "is_digit c \<Longrightarrow> starts_value c"
  by (auto simp: starts_value_def is_digit_def is_ws_def)

lemma int_str_head: "\<exists>c cs. int_str i = c # cs \<and> (is_digit c \<or> c = CHR ''-'')"
proof (cases "i < 0")
  case False
  then show ?thesis
    using hd_nat_str_digit [of "nat i"] nat_str_nonempty [of "nat i"]
    by (cases "nat_str (nat i)") (simp_all add: int_str_def)
qed (simp add: int_str_def)

lemma json_text_head: "\<exists>c cs. json_text v = c # cs \<and> starts_value c"
proof (cases v)
  case (JNum i)
  then show ?thesis
    using int_str_head [of i] is_digit_starts_value by (force simp: starts_value_def is_ws_def)
qed (auto simp: starts_value_def is_ws_def json_quote_def)

lemma skip_ws_text [simp]: "skip_ws (json_text v @ r) = json_text v @ r"
  using json_text_head [of v] by (auto simp: skip_ws_def starts_value_def)

lemma expect_text: "c \<in> {CHR '']'', CHR ''}'', CHR '',''} \<Longrightarrow> expect c (json_text v @ r) = None"
  using json_text_head [of v] skip_ws_text [of v r]
  by (auto simp: expect_def starts_value_def)

lemma expect_here [simp]: "\<not> is_ws c \<Longrightarrow> expect d (c # r) = (if c = d then Some r else None)"
  by (simp add: expect_def skip_ws_def)

lemma not_ws [simp]:
  "\<not> is_ws (CHR '','')" "\<not> is_ws (CHR '']'')" "\<not> is_ws (CHR ''}'')" "\<not> is_ws (CHR '':'')"
  "\<not> is_ws quote" "\<not> is_ws (CHR ''['')" "\<not> is_ws (CHR ''{'')"
  by (simp_all add: is_ws_def)

lemma join_Cons: "join sep (x # xs) = (if xs = [] then x else x @ sep @ join sep xs)"
  by (cases xs) simp_all

text \<open>One round of nesting: if values below the bound parse back, so do the elements of an
  array and the members of an object.\<close>

lemma p_arr_text:
  assumes val: "\<And>v r. js_pure v \<Longrightarrow> size v < n \<Longrightarrow> tail_ok r \<Longrightarrow> p_val n (json_text v @ r) = Some (v, r)"
    and arr: "\<And>vs r. vs \<noteq> [] \<Longrightarrow> \<forall>v\<in>set vs. js_pure v \<and> size v + length vs < n \<Longrightarrow>
      p_arr n (join '','' (map json_text vs) @ CHR '']'' # r) = Some (vs, r)"
    and vs: "vs \<noteq> []" "\<forall>v\<in>set vs. js_pure v \<and> size v + length vs < Suc n"
  shows "p_arr (Suc n) (join '','' (map json_text vs) @ CHR '']'' # r) = Some (vs, r)"
proof (cases vs)
  case (Cons v ws)
  with vs(2) have v: "js_pure v" "size v < n" by auto
  show ?thesis
  proof (cases "ws = []")
    case True
    then show ?thesis
      using val [OF v, of "CHR '']'' # r"] Cons by simp
  next
    case False
    have "\<forall>w\<in>set ws. js_pure w \<and> size w + length ws < n"
      using vs(2) Cons by auto
    then show ?thesis
      using val [OF v, of "CHR '','' # join '','' (map json_text ws) @ CHR '']'' # r"]
        arr [OF False] Cons False by (simp add: join_Cons)
  qed
qed (use vs in simp)

definition member_text :: "string \<times> jsval \<Rightarrow> string" where
  "member_text = (\<lambda>(k, v). json_quote k @ CHR '':'' # json_text v)"

lemma p_obj_text:
  assumes val: "\<And>v r. js_pure v \<Longrightarrow> size v < n \<Longrightarrow> tail_ok r \<Longrightarrow> p_val n (json_text v @ r) = Some (v, r)"
    and obj: "\<And>kvs r. kvs \<noteq> [] \<Longrightarrow> \<forall>(k, v)\<in>set kvs. js_pure v \<and> size v + length kvs < n \<Longrightarrow>
      p_obj n (join '','' (map member_text kvs) @ CHR ''}'' # r) = Some (kvs, r)"
    and kvs: "kvs \<noteq> []" "\<forall>(k, v)\<in>set kvs. js_pure v \<and> size v + length kvs < Suc n"
  shows "p_obj (Suc n) (join '','' (map member_text kvs) @ CHR ''}'' # r) = Some (kvs, r)"
proof (cases kvs)
  case (Cons kv ms)
  obtain k v where kv: "kv = (k, v)" by (cases kv)
  with Cons kvs(2) have v: "js_pure v" "size v < n" by auto
  show ?thesis
  proof (cases "ms = []")
    case True
    then show ?thesis
      using val [OF v, of "CHR ''}'' # r"] Cons kv
      by (simp add: member_text_def json_quote_def p_str_quote)
  next
    case False
    have "\<forall>(k, v)\<in>set ms. js_pure v \<and> size v + length ms < n"
      using kvs(2) Cons by auto
    then show ?thesis
      using val [OF v, of "CHR '','' # join '','' (map member_text ms) @ CHR ''}'' # r"]
        obj [OF False] Cons kv False
      by (simp add: join_Cons member_text_def json_quote_def p_str_quote)
  qed
qed (use kvs in simp)

lemma size_arr_bound: "v \<in> set vs \<Longrightarrow> size v + length vs \<le> size_list size vs"
proof (induction vs)
  case (Cons w vs)
  have "length vs \<le> size_list size vs" by (induction vs) auto
  with Cons show ?case by auto
qed simp

lemma size_obj_bound: "(k, v) \<in> set kvs \<Longrightarrow> size v + length kvs \<le> size_list (size_prod (\<lambda>_. 0) size) kvs"
proof (induction kvs)
  case (Cons w kvs)
  have "length kvs \<le> size_list (size_prod (\<lambda>_. 0) size) kvs" by (induction kvs) auto
  with Cons show ?case by auto
qed simp

lemma pure_not_undef: "js_pure v \<Longrightarrow> v \<noteq> JUndef"
  by auto

lemma json_text_obj_pure:
  "js_pure (JObj kvs) \<Longrightarrow> json_text (JObj kvs) = CHR ''{'' # join '','' (map member_text kvs) @ ''}''"
proof -
  assume "js_pure (JObj kvs)"
  then have "filter (\<lambda>(k, v). v \<noteq> JUndef) kvs = kvs"
    by (auto intro!: filter_True dest: pure_not_undef)
  then show ?thesis by (simp add: member_text_def)
qed

lemma not_word_start:
  assumes "c \<notin> {CHR ''n'', CHR ''t'', CHR ''f''}"
  shows "\<not> starts_with (c # s) ''null''" "\<not> starts_with (c # s) ''true''" "\<not> starts_with (c # s) ''false''"
  using assms by (simp_all add: starts_with_def)

lemma p_val_text:
  "(js_pure v \<longrightarrow> size v < n \<longrightarrow> tail_ok r \<longrightarrow> p_val n (json_text v @ r) = Some (v, r)) \<and>
   (vs \<noteq> [] \<longrightarrow> (\<forall>v\<in>set vs. js_pure v \<and> size v + length vs < n) \<longrightarrow>
      p_arr n (join '','' (map json_text vs) @ CHR '']'' # r) = Some (vs, r)) \<and>
   (kvs \<noteq> [] \<longrightarrow> (\<forall>(k, v)\<in>set kvs. js_pure v \<and> size v + length kvs < n) \<longrightarrow>
      p_obj n (join '','' (map member_text kvs) @ CHR ''}'' # r) = Some (kvs, r))"
proof (induction n arbitrary: v r vs kvs)
  case 0
  show ?case by (cases vs; cases kvs) auto
next
  case (Suc n)
  note IHv = Suc.IH [THEN conjunct1, rule_format]
  note IHa = Suc.IH [THEN conjunct2, THEN conjunct1, rule_format]
  note IHo = Suc.IH [THEN conjunct2, THEN conjunct2, rule_format]
  have val: "p_val (Suc n) (json_text v @ r) = Some (v, r)"
    if v: "js_pure v" "size v < Suc n" "tail_ok r"
  proof (cases v)
    case (JNum i)
    obtain c cs where c: "int_str i = c # cs" "is_digit c \<or> c = CHR ''-''"
      using int_str_head by blast
    then have "c \<notin> {CHR ''n'', CHR ''t'', CHR ''f'', quote, CHR ''['', CHR ''{''}"
      by (auto simp: is_digit_def)
    then show ?thesis
      using JNum c skip_ws_text [of v r] p_num_str [OF v(3), of i]
      by (simp add: not_word_start)
  next
    case (JStr s)
    then show ?thesis
      using skip_ws_text [of v r] by (simp add: json_quote_def p_str_quote not_word_start)
  next
    case (JArr ws)
    have "p_arr n (join '','' (map json_text ws) @ CHR '']'' # r) = Some (ws, r)" if "ws \<noteq> []"
      using that v JArr size_arr_bound [of _ ws] by (intro IHa) (auto, fastforce)
    moreover have "expect (CHR '']'') (join '','' (map json_text ws) @ CHR '']'' # r) = None" if "ws \<noteq> []"
      using that by (cases ws) (auto simp: join_Cons expect_text)
    ultimately show ?thesis
      using JArr skip_ws_text [of v r] by (cases "ws = []") (simp_all add: not_word_start)
  next
    case (JObj ms)
    have t: "json_text v = CHR ''{'' # join '','' (map member_text ms) @ ''}''"
      using json_text_obj_pure v(1) JObj by blast
    have "p_obj n (join '','' (map member_text ms) @ CHR ''}'' # r) = Some (ms, r)" if "ms \<noteq> []"
      using that v JObj size_obj_bound [of _ _ ms] by (intro IHo) (auto, fastforce)
    moreover have "expect (CHR ''}'') (join '','' (map member_text ms) @ CHR ''}'' # r) = None" if "ms \<noteq> []"
      using that by (cases ms) (auto simp: join_Cons member_text_def json_quote_def)
    moreover have "obj_of_list ms = ms"
      using v(1) JObj by (simp add: obj_of_list_distinct)
    ultimately show ?thesis
      using JObj t skip_ws_text [of v r] by (cases "ms = []") (simp_all add: not_word_start)
  qed (use v skip_ws_text [of v r] in \<open>simp_all add: starts_with_def split: if_splits\<close>)
  show ?case
    using val p_arr_text [of n vs r] p_obj_text [of n kvs r] IHv IHa IHo
    by blast
qed

text \<open>The bound \<open>json_parse\<close> starts with is enough: a text is longer than its value is large.\<close>

lemma length_join_ge:
  "(\<And>x. x \<in> set xs \<Longrightarrow> f x < length (g x)) \<Longrightarrow> xs \<noteq> [] \<Longrightarrow>
   size_list f xs < Suc (length (join '','' (map g xs)))"
proof (induction xs)
  case (Cons x xs)
  then show ?case by (cases "xs = []") (fastforce simp: join_Cons)+
qed simp

lemma json_text_size: "js_pure v \<Longrightarrow> size v < length (json_text v)"
proof (induction v)
  case (JNum i)
  then show ?case using int_str_head [of i] by auto
next
  case (JArr vs)
  then show ?case
    using length_join_ge [of vs size json_text] by (cases "vs = []") auto
next
  case (JObj kvs)
  have "size_prod (\<lambda>_. 0) size kv < length (member_text kv)" if "kv \<in> set kvs" for kv
    using JObj that by (cases kv) (fastforce simp: member_text_def json_quote_def)
  then show ?case
    using length_join_ge [of kvs "size_prod (\<lambda>_. 0) size" member_text] json_text_obj_pure [OF JObj.prems]
    by (cases "kvs = []") auto
qed (simp_all add: json_quote_def)

theorem json_parse_text: "js_pure v \<Longrightarrow> json_parse (json_text v) = Some v"
proof -
  assume v: "js_pure v"
  have "p_val (Suc (length (json_text v))) (json_text v @ []) = Some (v, [])"
    using p_val_text v json_text_size [OF v] by (meson less_SucI tail_ok_simps(1))
  then show ?thesis by (simp add: json_parse_def skip_ws_def)
qed

corollary json_text_inj: "js_pure v \<Longrightarrow> js_pure w \<Longrightarrow> json_text v = json_text w \<longleftrightarrow> v = w"
  by (metis json_parse_text option.inject)

lemma js_pure_json_stringify: "js_pure v \<Longrightarrow> json_stringify v = Some (json_text v)"
  by (auto simp: json_stringify_def)

end
