(* ===== verification/Interfaces.thy ===== *)
theory Interfaces
  imports Prelude
begin

text \<open>
  The contracts components rely on, as locales. Each is interpreted on the model's own
  definitions in the theory that provides them; the clients' lemmas are proved here once.
\<close>

subsection \<open>Encodings\<close>

text \<open>An encoder and a decoder that undoes it on the values it is meant for.\<close>

locale codec =
  fixes enc :: "'a \<Rightarrow> 'b"
    and dec :: "'b \<Rightarrow> 'a res"
    and valid :: "'a \<Rightarrow> bool"
  assumes dec_enc: "valid x \<Longrightarrow> dec (enc x) = Inr x"
begin

lemma enc_inj: "valid x \<Longrightarrow> valid y \<Longrightarrow> enc x = enc y \<longleftrightarrow> x = y"
  by (metis dec_enc sum.inject(2))

lemma dec_enc_iff: "valid x \<Longrightarrow> dec (enc x) = Inr y \<longleftrightarrow> y = x"
  by (auto simp: dec_enc)

end

text \<open>A codec whose decoder takes one spelling per value only.\<close>

locale canonical_codec = codec +
  assumes enc_dec: "dec y = Inr x \<Longrightarrow> enc x = y"
    and dec_valid: "dec y = Inr x \<Longrightarrow> valid x"
begin

lemma dec_iff: "dec y = Inr x \<longleftrightarrow> valid x \<and> y = enc x"
  using enc_dec dec_valid dec_enc by metis

lemma one_spelling: "dec y = Inr x \<Longrightarrow> dec z = Inr x \<Longrightarrow> y = z"
  using enc_dec by metis

end

subsection \<open>Suites\<close>

text \<open>
  The shape the two registries of \<open>composite.js\<close> and \<open>kem.js\<close> give every suite. The
  envelope and signature layers use a suite through these laws only: a key pair derived from a
  usable secret key signs what it verifies, and opens what is encapsulated to it.
\<close>

locale signature_suite =
  fixes public :: "'k \<Rightarrow> 'p res"
    and sign :: "'m \<Rightarrow> 'k \<Rightarrow> 'r \<Rightarrow> 's res"
    and verify :: "'s \<Rightarrow> 'm \<Rightarrow> 'p \<Rightarrow> bool"
    and usable :: "'k \<Rightarrow> bool"
  assumes public_ok: "usable k \<Longrightarrow> \<exists>p. public k = Inr p"
    and sign_verifies: "usable k \<Longrightarrow> public k = Inr p \<Longrightarrow> \<exists>s. sign m k r = Inr s \<and> verify s m p"
begin

lemma sign_then_verify: "usable k \<Longrightarrow> public k = Inr p \<Longrightarrow> sign m k r = Inr s \<Longrightarrow> verify s m p"
  by (metis sign_verifies sum.inject(2))

lemma sign_ok: "usable k \<Longrightarrow> \<exists>s. sign m k r = Inr s"
  using public_ok sign_verifies by blast

end

locale kem_suite =
  fixes public :: "'k \<Rightarrow> 'p res"
    and encapsulate :: "'p \<Rightarrow> 'r \<Rightarrow> ('c \<times> 'x) res"
    and decapsulate :: "'c \<Rightarrow> 'k \<Rightarrow> 'x res"
    and usable :: "'k \<Rightarrow> bool"
    and fresh :: "'r \<Rightarrow> bool"
  assumes public_ok: "usable k \<Longrightarrow> \<exists>p. public k = Inr p"
    and decapsulates: "usable k \<Longrightarrow> fresh r \<Longrightarrow> public k = Inr p \<Longrightarrow>
      \<exists>c x. encapsulate p r = Inr (c, x) \<and> decapsulate c k = Inr x"
begin

lemma same_key:
  "usable k \<Longrightarrow> fresh r \<Longrightarrow> public k = Inr p \<Longrightarrow> encapsulate p r = Inr (c, x) \<Longrightarrow> decapsulate c k = Inr x"
  by (metis decapsulates prod.inject sum.inject(2))

end

subsection \<open>Signed bodies\<close>

text \<open>
  A builder of the text one kind of signature covers. It fails or gives a text that opens with
  its own context line, and equal texts come from statements that are the same.
\<close>

locale signed_body =
  fixes build :: "'f \<Rightarrow> string res"
    and header :: string
    and context_tag :: string
    and same :: "'f \<Rightarrow> 'f \<Rightarrow> bool"
  assumes tagged: "build f = Inr b \<Longrightarrow> \<exists>t. b = header @ context_tag @ nl # t"
    and one_line: "nl \<notin> set context_tag"
    and committed: "build f = Inr b \<Longrightarrow> build g = Inr b \<Longrightarrow> same f g"
begin

lemma disjoint_from:
  assumes "build f = Inr b" and "c \<noteq> context_tag" and "nl \<notin> set c"
  shows "b \<noteq> header @ c @ nl # t"
  using tagged [OF assms(1)] assms(2,3) one_line by (auto simp: sep_split)

end

subsection \<open>Machines with an invariant\<close>

text \<open>A deterministic machine whose every step keeps a property of its state.\<close>

locale guarded_machine =
  fixes step :: "'e \<Rightarrow> 's \<Rightarrow> 's"
    and inv :: "'s \<Rightarrow> bool"
  assumes step_inv: "inv s \<Longrightarrow> inv (step e s)"
begin

lemma run_inv: "inv s \<Longrightarrow> inv (fold step es s)"
  by (induction es arbitrary: s) (simp_all add: step_inv)

end

end
