(* ===== verification/Primitives.thy ===== *)
theory Primitives
  imports Prelude
begin

text \<open>
  The cryptographic code the repository calls and does not contain: noble's ML-DSA, ML-KEM,
  P-384, SHA-2, HKDF and Argon2id, and WebCrypto's AES-GCM. It is a parameter, a record of
  functions that every definition using it takes as an argument. What the code relies on of it
  is stated as the named hypotheses below; each is documented behaviour of the library.
  Randomness is an explicit argument of the operations that draw it.
\<close>

type_synonym bytes = "8 word list"

text \<open>A number stored into a \<open>Uint8Array\<close>.\<close>

definition byte :: "nat \<Rightarrow> 8 word" where
  "byte n = word_of_nat n"

lemma unat_byte [simp]: "unat (byte n) = n mod 256"
  by (simp add: byte_def unat_of_nat)

lemma byte_unat [simp]: "byte (unat b) = b"
  by (simp add: byte_def)

lemma unat_less_256 [simp]: "unat (b :: 8 word) < 256"
  using unsigned_less [of b] by simp

lemma byte_eq_iff: "byte m = byte n \<longleftrightarrow> m mod 256 = n mod 256"
  by (metis byte_unat unat_byte byte_def take_bit_eq_mod unsigned_of_nat word_of_nat_eq_iff)

record prims =
  \<comment> \<open>digests and key derivation\<close>
  sha384 :: "bytes \<Rightarrow> bytes"
  sha512 :: "bytes \<Rightarrow> bytes"
  hkdf_sha384 :: "bytes \<Rightarrow> bytes \<Rightarrow> bytes \<Rightarrow> nat \<Rightarrow> bytes"
  argon2id :: "bytes \<Rightarrow> bytes \<Rightarrow> int \<Rightarrow> int \<Rightarrow> int \<Rightarrow> nat \<Rightarrow> bytes"
  \<comment> \<open>AES-GCM: key, iv, associated data, then the text; opening fails on a bad tag\<close>
  aes_seal :: "bytes \<Rightarrow> bytes \<Rightarrow> bytes \<Rightarrow> bytes \<Rightarrow> bytes"
  aes_open :: "bytes \<Rightarrow> bytes \<Rightarrow> bytes \<Rightarrow> bytes \<Rightarrow> bytes option"
  \<comment> \<open>ML-DSA-65: keys from a seed; signing takes message, secret key, context, randomness;
    verification throws (\<open>None\<close>) on arguments it cannot parse\<close>
  mldsa_pk :: "bytes \<Rightarrow> bytes"
  mldsa_sk :: "bytes \<Rightarrow> bytes"
  mldsa_sign :: "bytes \<Rightarrow> bytes \<Rightarrow> bytes \<Rightarrow> bytes \<Rightarrow> bytes"
  mldsa_verify :: "bytes \<Rightarrow> bytes \<Rightarrow> bytes \<Rightarrow> bytes \<Rightarrow> bool option"
  \<comment> \<open>P-384: scalars, uncompressed points, low-S DER signatures, compressed shared points\<close>
  p384_valid :: "bytes \<Rightarrow> bool"
  p384_pub :: "bytes \<Rightarrow> bytes"
  p384_sign :: "bytes \<Rightarrow> bytes \<Rightarrow> bytes \<Rightarrow> bytes"
  p384_verify :: "bytes \<Rightarrow> bytes \<Rightarrow> bytes \<Rightarrow> bool option"
  p384_shared :: "bytes \<Rightarrow> bytes \<Rightarrow> bytes option"
  \<comment> \<open>ML-KEM-768: keys from a seed; encapsulation throws on a key that fails the modulus check\<close>
  mlkem_pk :: "bytes \<Rightarrow> bytes"
  mlkem_sk :: "bytes \<Rightarrow> bytes"
  mlkem_encaps :: "bytes \<Rightarrow> bytes \<Rightarrow> (bytes \<times> bytes) option"
  mlkem_decaps :: "bytes \<Rightarrow> bytes \<Rightarrow> bytes"

subsection \<open>What the code relies on\<close>

definition digest_laws :: "prims \<Rightarrow> bool" where
  "digest_laws P \<longleftrightarrow> (\<forall>m. length (sha384 P m) = 48) \<and> (\<forall>m. length (sha512 P m) = 64)"

text \<open>The derivation functions give as many bytes as they are asked for.\<close>

definition kdf_laws :: "prims \<Rightarrow> bool" where
  "kdf_laws P \<longleftrightarrow>
     (\<forall>ikm salt info n. length (hkdf_sha384 P ikm salt info n) = n) \<and>
     (\<forall>pw salt m t p n. length (argon2id P pw salt m t p n) = n)"

text \<open>AES-GCM opens what it sealed; a sealed text holds at least its tag. It refuses a text
  presented under other associated data, and one presented with another key.\<close>

definition aead_correct :: "prims \<Rightarrow> bool" where
  "aead_correct P \<longleftrightarrow>
     (\<forall>k iv aad m. aes_open P k iv aad (aes_seal P k iv aad m) = Some m \<and> aes_seal P k iv aad m \<noteq> [])"

definition aead_binding :: "prims \<Rightarrow> bool" where
  "aead_binding P \<longleftrightarrow>
     (\<forall>k iv aad aad' m. aad \<noteq> aad' \<longrightarrow> aes_open P k iv aad' (aes_seal P k iv aad m) = None)"

definition aead_key_binding :: "prims \<Rightarrow> bool" where
  "aead_key_binding P \<longleftrightarrow>
     (\<forall>k k' iv aad aad' m. k \<noteq> k' \<longrightarrow> aes_open P k' iv aad' (aes_seal P k iv aad m) = None)"

text \<open>FIPS 204 and FIPS 186-5 sizes and correctness, with SEC1 uncompressed points and DER
  signatures of 8 to 104 bytes.\<close>

definition signature_laws :: "prims \<Rightarrow> bool" where
  "signature_laws P \<longleftrightarrow>
     (\<forall>s. length s = 32 \<longrightarrow> length (mldsa_pk P s) = 1952) \<and>
     (\<forall>s m c r. length s = 32 \<longrightarrow> length (mldsa_sign P m (mldsa_sk P s) c r) = 3309 \<and>
        mldsa_verify P (mldsa_sign P m (mldsa_sk P s) c r) m (mldsa_pk P s) c = Some True) \<and>
     (\<forall>d. p384_valid P d \<longrightarrow> length (p384_pub P d) = 97 \<and> hd (p384_pub P d) = 4) \<and>
     (\<forall>d m r. p384_valid P d \<longrightarrow>
        8 \<le> length (p384_sign P m d r) \<and> length (p384_sign P m d r) \<le> 104 \<and>
        p384_verify P (p384_sign P m d r) m (p384_pub P d) = Some True)"

text \<open>FIPS 203 sizes and correctness, and the symmetry of Diffie-Hellman.\<close>

definition kem_laws :: "prims \<Rightarrow> bool" where
  "kem_laws P \<longleftrightarrow>
     (\<forall>d. p384_valid P d \<longrightarrow> length (p384_pub P d) = 97 \<and> hd (p384_pub P d) = 4) \<and>
     (\<forall>d e. p384_valid P d \<longrightarrow> p384_valid P e \<longrightarrow>
        p384_shared P d (p384_pub P e) = p384_shared P e (p384_pub P d) \<and>
        p384_shared P d (p384_pub P e) \<noteq> None) \<and>
     (\<forall>z. length z = 64 \<longrightarrow> length (mlkem_pk P z) = 1184) \<and>
     (\<forall>z r. length z = 64 \<longrightarrow>
        (\<exists>c k. mlkem_encaps P (mlkem_pk P z) r = Some (c, k) \<and> length c = 1088 \<and>
           mlkem_decaps P c (mlkem_sk P z) = k))"

lemma digest_lengths [simp]:
  "digest_laws P \<Longrightarrow> length (sha384 P m) = 48"
  "digest_laws P \<Longrightarrow> length (sha512 P m) = 64"
  by (simp_all add: digest_laws_def)

lemma kdf_lengths [simp]:
  "kdf_laws P \<Longrightarrow> length (hkdf_sha384 P ikm salt info n) = n"
  "kdf_laws P \<Longrightarrow> length (argon2id P pw salt m t p n) = n"
  by (simp_all add: kdf_laws_def)

lemma aead_open_seal [simp]:
  "aead_correct P \<Longrightarrow> aes_open P k iv aad (aes_seal P k iv aad m) = Some m"
  "aead_correct P \<Longrightarrow> aes_seal P k iv aad m \<noteq> []"
  by (simp_all add: aead_correct_def)

lemma aead_other_key:
  "aead_key_binding P \<Longrightarrow> k \<noteq> k' \<Longrightarrow> aes_open P k' iv aad' (aes_seal P k iv aad m) = None"
  by (simp add: aead_key_binding_def)

lemma aead_other_aad:
  "aead_binding P \<Longrightarrow> aad \<noteq> aad' \<Longrightarrow> aes_open P k iv aad' (aes_seal P k iv aad m) = None"
  by (simp add: aead_binding_def)

subsection \<open>A concrete instance\<close>

text \<open>
  Functions that satisfy every hypothesis above, for the witnesses: they show the hypotheses
  hold together. They are of no cryptographic value.
\<close>

definition fit :: "nat \<Rightarrow> bytes \<Rightarrow> bytes" where
  "fit n xs = take n (xs @ replicate n 0)"

lemma length_fit [simp]: "length (fit n xs) = n"
  by (simp add: fit_def)

text \<open>A prefix-free spelling of a byte string: every byte marked, then an end mark.\<close>

definition frame :: "bytes \<Rightarrow> bytes" where
  "frame xs = concat (map (\<lambda>b. [1, b]) xs) @ [0]"

lemma frame_prefix_free: "frame xs @ s = frame ys @ t \<longleftrightarrow> xs = ys \<and> s = t"
proof (induction xs arbitrary: ys)
  case Nil
  then show ?case by (cases ys) (auto simp: frame_def)
next
  case (Cons x xs)
  then show ?case by (cases ys) (auto simp: frame_def)
qed

definition demo_open :: "bytes \<Rightarrow> bytes \<Rightarrow> bytes \<Rightarrow> bytes \<Rightarrow> bytes option" where
  "demo_open k iv aad c =
     (let h = frame k @ frame iv @ frame aad
      in if take (length h) c = h then Some (drop (length h) c) else None)"

definition demo_prims :: prims where
  "demo_prims = \<lparr>
     sha384 = (\<lambda>m. fit 48 (rev m)),
     sha512 = fit 64,
     hkdf_sha384 = (\<lambda>ikm salt info n. fit n (ikm @ salt @ info)),
     argon2id = (\<lambda>pw salt m t p n. fit n (pw @ salt)),
     aes_seal = (\<lambda>k iv aad m. frame k @ frame iv @ frame aad @ m),
     aes_open = demo_open,
     mldsa_pk = fit 1952,
     mldsa_sk = (\<lambda>s. s),
     mldsa_sign = (\<lambda>m sk c r. fit 3309 (fit 1952 sk @ fit 64 c @ m)),
     mldsa_verify = (\<lambda>sig m pk c. Some (sig = fit 3309 (fit 1952 pk @ fit 64 c @ m))),
     p384_valid = (\<lambda>d. length d = 48),
     p384_pub = (\<lambda>d. 4 # fit 48 d @ fit 48 d),
     p384_sign = (\<lambda>m d r. fit 104 (fit 48 d @ m)),
     p384_verify = (\<lambda>sig m pt. Some (sig = fit 104 (fit 48 (tl pt) @ m))),
     p384_shared = (\<lambda>d pt. Some (2 # fit 48 (map2 (+) (fit 48 d) (fit 48 (tl pt))))),
     mlkem_pk = (\<lambda>z. replicate 1120 0 @ fit 64 z),
     mlkem_sk = fit 64,
     mlkem_encaps = (\<lambda>ek r. Some (fit 1088 (drop 1120 ek @ r), fit 32 (drop 1120 ek))),
     mlkem_decaps = (\<lambda>c dk. fit 32 dk)\<rparr>"

lemma fit_fit [simp]: "m \<le> n \<Longrightarrow> fit m (fit n xs) = fit m xs"
  by (simp add: fit_def min_def take_append)

lemma fit_exact [simp]: "length xs = n \<Longrightarrow> fit n xs = xs"
  by (simp add: fit_def)

lemma fit_append_exact [simp]: "length xs = n \<Longrightarrow> fit n (xs @ ys) = xs"
  by (simp add: fit_def)

lemma demo_digest: "digest_laws demo_prims"
  by (simp add: digest_laws_def demo_prims_def)

lemma demo_kdf: "kdf_laws demo_prims"
  by (simp add: kdf_laws_def demo_prims_def)

lemma frame_nonempty [simp]: "frame xs \<noteq> []"
  by (simp add: frame_def)

lemma demo_aead: "aead_correct demo_prims"
  by (simp add: aead_correct_def demo_prims_def demo_open_def)

lemma demo_binding: "aead_binding demo_prims" "aead_key_binding demo_prims"
proof -
  have "demo_open k' iv aad' (frame k @ frame iv @ frame aad @ m) = None"
    if "aad \<noteq> aad' \<or> k \<noteq> k'" for k k' iv aad aad' m
  proof (rule ccontr)
    let ?h = "frame k' @ frame iv @ frame aad'"
    let ?c = "frame k @ frame iv @ frame aad @ m"
    assume "demo_open k' iv aad' ?c \<noteq> None"
    then have "take (length ?h) ?c = ?h"
      by (simp add: demo_open_def Let_def split: if_splits)
    then obtain t where "?c = ?h @ t"
      by (metis append_take_drop_id)
    then show False using that by (simp add: frame_prefix_free)
  qed
  then show "aead_binding demo_prims" "aead_key_binding demo_prims"
    by (simp_all add: aead_binding_def aead_key_binding_def demo_prims_def)
qed

lemma take_fit_append [simp]: "n = m \<Longrightarrow> fit n (fit m xs @ ys) = fit m xs"
  by (simp add: fit_def)

lemma map2_add_commute: "map2 (+) xs ys = map2 (+) ys (xs :: bytes)"
  by (induction xs ys rule: list_induct2') (simp_all add: add.commute)

lemma demo_signature: "signature_laws demo_prims"
  by (simp add: signature_laws_def demo_prims_def)

lemma demo_kem: "kem_laws demo_prims"
proof -
  have "fit 32 (fit 64 z) = fit 32 z" for z by simp
  moreover have "map2 (+) d e = map2 (+) e d" for d e :: bytes
    by (rule map2_add_commute)
  ultimately show ?thesis by (simp add: kem_laws_def demo_prims_def)
qed

end
