(* ===== verification/Encoding.thy ===== *)
theory Encoding
  imports Json Interfaces Primitives
begin

unbundle bit_operations_syntax

text \<open>
  \<open>packages/crypto-core/src/encoding.js\<close>: UTF-8, hex, base64, SHA-384 digests and canonical
  JSON. Decoders take any JavaScript value, since they are handed fields of stored blobs, and
  refuse what is not a string of the right shape.
\<close>

subsection \<open>UTF-8\<close>

text \<open>\<open>ENC.encode\<close> (\<open>TextEncoder\<close>) on code units below 256.\<close>

definition utf8_char :: "char \<Rightarrow> bytes" where
  "utf8_char c =
     (let n = code c in
      if n < 128 then [byte n] else [byte (192 + n div 64), byte (128 + n mod 64)])"

definition utf8 :: "string \<Rightarrow> bytes" where
  "utf8 s = concat (map utf8_char s)"

text \<open>\<open>DEC.decode\<close> (\<open>TextDecoder\<close>) on bytes that spell Latin-1 text; any other bytes
  decode to characters the model does not have.\<close>

fun utf8_decode :: "bytes \<Rightarrow> string option" where
  "utf8_decode [] = Some []"
| "utf8_decode (b # bs) =
     (if unat b < 128 then map_option ((#) (char_of (unat b))) (utf8_decode bs)
      else
        (case bs of
           c # cs \<Rightarrow>
             if 194 \<le> unat b \<and> unat b \<le> 195 \<and> 128 \<le> unat c \<and> unat c < 192
             then map_option ((#) (char_of ((unat b - 192) * 64 + (unat c - 128)))) (utf8_decode cs)
             else None
         | [] \<Rightarrow> None))"

definition dec_text :: "bytes \<Rightarrow> string res" where
  "dec_text bs = opt_res OutOfModel (utf8_decode bs)"

lemma utf8_decode_char: "utf8_decode (utf8_char c @ bs) = map_option ((#) c) (utf8_decode bs)"
proof (cases "code c < 128")
  case True
  then show ?thesis by (simp add: utf8_char_def)
next
  case False
  have n: "code c < 256" by simp
  have 1: "192 + code c div 64 < 256" and 2: "128 + code c mod 64 < 256" using n by linarith+
  have 3: "194 \<le> 192 + code c div 64" "192 + code c div 64 \<le> 195" using False n by linarith+
  have 4: "code c div 64 * 64 + code c mod 64 = code c" by simp
  show ?thesis
    using False 1 2 3 4 by (simp add: utf8_char_def Let_def)
qed

lemma utf8_decode_utf8: "utf8_decode (utf8 s) = Some s"
  by (induction s) (simp_all add: utf8_def utf8_decode_char)

interpretation utf: codec utf8 dec_text "\<lambda>_. True"
  by unfold_locales (simp add: dec_text_def utf8_decode_utf8)

lemma utf8_inj [simp]: "utf8 s = utf8 t \<longleftrightarrow> s = t"
  by (rule utf.enc_inj) simp_all

lemma utf8_append: "utf8 (s @ t) = utf8 s @ utf8 t"
  by (simp add: utf8_def)

subsection \<open>Hex\<close>

text \<open>The table \<open>_HEX\<close> and \<open>toHex\<close>: two lowercase digits per byte.\<close>

definition hex_byte :: "8 word \<Rightarrow> string" where
  "hex_byte b = [hex_digit (unat b div 16), hex_digit (unat b mod 16)]"

definition toHex :: "bytes \<Rightarrow> string" where
  "toHex bs = concat (map hex_byte bs)"

definition hex_error :: js_error where
  "hex_error = PlainError ''fromHex: expected a non-empty, even-length hex string''"

definition hex_value :: "char \<Rightarrow> nat" where
  "hex_value c = (case hex_val c of Some n \<Rightarrow> n | None \<Rightarrow> 0)"

text \<open>The decoding loop, \<open>parseInt(hex.substr(i * 2, 2), 16)\<close> for each pair.\<close>

fun hex_pairs :: "string \<Rightarrow> bytes" where
  "hex_pairs (a # b # r) = byte (16 * hex_value a + hex_value b) # hex_pairs r"
| "hex_pairs _ = []"

fun fromHex :: "jsval \<Rightarrow> bytes res" where
  "fromHex (JStr h) =
     (if h = [] \<or> length h mod 2 \<noteq> 0 \<or> \<not> list_all is_hex h then Throw hex_error
      else Ok (hex_pairs h))"
| "fromHex _ = Throw hex_error"

lemma hex_digit_facts:
  assumes "n < 16"
  shows "is_lhex (hex_digit n)" "is_hex (hex_digit n)" "hex_value (hex_digit n) = n"
  using assms by (auto simp: hex_value_def hex_val_digit)
    (auto simp: hex_digit_def class_defs of_char_of)

lemma byte_nibbles: "unat (b :: 8 word) div 16 < 16" "unat b mod 16 < 16"
  using unat_less_256 [of b] by linarith+

lemma toHex_Nil [simp]: "toHex [] = []"
  by (simp add: toHex_def)

lemma toHex_Cons: "toHex (b # bs) = hex_byte b @ toHex bs"
  by (simp add: toHex_def)

lemma toHex_append: "toHex (as @ bs) = toHex as @ toHex bs"
  by (simp add: toHex_def)

lemma length_toHex [simp]: "length (toHex bs) = 2 * length bs"
  by (induction bs) (simp_all add: toHex_Cons hex_byte_def)

lemma toHex_lhex: "list_all is_lhex (toHex bs)"
  by (induction bs) (simp_all add: toHex_Cons hex_byte_def hex_digit_facts byte_nibbles)

lemma toHex_hex: "list_all is_hex (toHex bs)"
  using toHex_lhex [of bs] by (simp add: list_all_iff is_hex_def)

lemma hex_pairs_toHex [simp]: "hex_pairs (toHex bs) = bs"
  by (induction bs) (simp_all add: toHex_Cons hex_byte_def hex_digit_facts byte_nibbles)

lemma toHex_empty_iff [simp]: "toHex bs = [] \<longleftrightarrow> bs = []"
  using length_toHex [of bs] by (metis length_0_conv mult_eq_0_iff zero_neq_numeral)

lemma fromHex_toHex [simp]: "bs \<noteq> [] \<Longrightarrow> fromHex (JStr (toHex bs)) = Inr bs"
  by (simp add: toHex_hex)

interpretation hex: codec "\<lambda>bs. JStr (toHex bs)" fromHex "\<lambda>bs. bs \<noteq> []"
  by unfold_locales (rule fromHex_toHex)

lemma toHex_inj: "toHex as = toHex bs \<longleftrightarrow> as = bs"
  by (metis hex_pairs_toHex)

text \<open>Decoding loses nothing but the case of the digits.\<close>

lemma is_hex_lower:
  assumes "is_hex c"
  shows "hex_value c < 16" "hex_digit (hex_value c) = to_lower_char c"
  using assms
  by (auto simp: hex_value_def hex_val_def hex_digit_def to_lower_char_def class_defs)

lemma toHex_hex_pairs:
  "length h mod 2 = 0 \<Longrightarrow> list_all is_hex h \<Longrightarrow> toHex (hex_pairs h) = to_lower h"
proof (induction h rule: hex_pairs.induct)
  case (1 a b r)
  have "hex_value a < 16" "hex_value b < 16"
    using 1 is_hex_lower by auto
  then have "unat (byte (16 * hex_value a + hex_value b) :: 8 word) = 16 * hex_value a + hex_value b"
    by simp
  then show ?case
    using 1 is_hex_lower \<open>hex_value b < 16\<close> by (simp add: toHex_Cons hex_byte_def to_lower_def mod2_Suc_Suc)
qed (simp_all add: to_lower_def)

lemma hex_pairs_nonempty: "h \<noteq> [] \<Longrightarrow> length h mod 2 = 0 \<Longrightarrow> hex_pairs h \<noteq> []"
  by (cases h rule: hex_pairs.cases) simp_all

lemma fromHex_Ok:
  assumes "fromHex v = Inr bs"
  obtains h where "v = JStr h" and "toHex bs = to_lower h" and "bs \<noteq> []"
proof -
  from assms obtain h where h: "v = JStr h" "h \<noteq> []" "length h mod 2 = 0" "list_all is_hex h" "bs = hex_pairs h"
    by (cases v) (simp_all split: if_splits)
  show thesis
    using that [of h] h toHex_hex_pairs [OF h(3,4)] hex_pairs_nonempty [OF h(2,3)] by simp
qed

declare fromHex.simps [simp del]

end
