(* ===== verification/Composite.thy ===== *)
theory Composite
  imports Encoding Interfaces
begin

text \<open>
  \<open>packages/crypto-core/src/composite.js\<close>: the composite signature ML-DSA-65 + ECDSA-P384.
  Both halves sign the message \<open>M'\<close>, which commits to the suite's label, the application
  context and the message's digest; a signature is valid only if both halves verify.
\<close>

subsection \<open>Bytes as JavaScript hands them over\<close>

text \<open>An argument checked with \<open>isUint8Array\<close>: \<open>None\<close> is any value that is not one.\<close>

type_synonym buffer = "bytes option"

definition isBytes :: "buffer \<Rightarrow> nat option \<Rightarrow> bool" where
  "isBytes b len =
     (case b of None \<Rightarrow> False
      | Some bs \<Rightarrow> (case len of None \<Rightarrow> True | Some n \<Rightarrow> length bs = n))"

subsection \<open>Sizes and labels\<close>

definition composite_prefix :: bytes where
  "composite_prefix = utf8 ''CompositeAlgorithmSignatures2025''"

abbreviation ml_pk :: nat where "ml_pk \<equiv> 1952"
abbreviation ml_sig :: nat where "ml_sig \<equiv> 3309"
abbreviation ml_seed :: nat where "ml_seed \<equiv> 32"
abbreviation p384_point :: nat where "p384_point \<equiv> 97"
abbreviation p384_scalar :: nat where "p384_scalar \<equiv> 48"
abbreviation der_min :: nat where "der_min \<equiv> 8"
abbreviation der_max :: nat where "der_max \<equiv> 104"

definition MLDSA65_P384_SIG_ALG :: string where
  "MLDSA65_P384_SIG_ALG = ''MLDSA65-ECDSA-P384-SHA512''"

definition p384_label :: bytes where
  "p384_label = utf8 ''COMPSIG-MLDSA65-ECDSA-P384-SHA512''"

record suite_lengths =
  len_publicKey :: nat
  len_secretKey :: nat
  len_signature :: nat

definition MLDSA65_P384_LENGTHS :: suite_lengths where
  "MLDSA65_P384_LENGTHS =
     \<lparr>len_publicKey = ml_pk + p384_point, len_secretKey = ml_seed + p384_scalar, len_signature = ml_sig + der_max\<rparr>"

lemma composite_lengths [simp]:
  "len_publicKey MLDSA65_P384_LENGTHS = 2049"
  "len_secretKey MLDSA65_P384_LENGTHS = 80"
  "len_signature MLDSA65_P384_LENGTHS = 3413"
  by (simp_all add: MLDSA65_P384_LENGTHS_def)

subsection \<open>What both halves sign\<close>

definition messageFor :: "prims \<Rightarrow> bytes \<Rightarrow> buffer \<Rightarrow> buffer \<Rightarrow> bytes res" where
  "messageFor P label msg ctx =
     (if \<not> isBytes msg None \<or> \<not> isBytes ctx None
      then Throw (JsTypeError ''compositeMessage: bytes expected'')
      else if 255 < length (the ctx)
      then Throw (JsRangeError ''compositeMessage: context longer than 255 bytes'')
      else Ok (composite_prefix @ label @ [byte (length (the ctx))] @ the ctx @ sha512 P (the msg)))"

definition mldsa65P384Message :: "prims \<Rightarrow> buffer \<Rightarrow> buffer \<Rightarrow> bytes res" where
  "mldsa65P384Message P msg ctx = messageFor P p384_label msg ctx"

definition mlSign :: "prims \<Rightarrow> bytes \<Rightarrow> bytes \<Rightarrow> bytes \<Rightarrow> bytes \<Rightarrow> bytes" where
  "mlSign P m seed label rnd = mldsa_sign P m (mldsa_sk P seed) label rnd"

definition mlVerify :: "prims \<Rightarrow> bytes \<Rightarrow> bytes \<Rightarrow> bytes \<Rightarrow> bytes \<Rightarrow> bool option" where
  "mlVerify P sig m pk label = mldsa_verify P sig m pk label"

subsection \<open>Keys\<close>

text \<open>The secret key is the ML-DSA seed and the P-384 scalar, drawn independently.\<close>

definition p384Halves :: "prims \<Rightarrow> buffer \<Rightarrow> (bytes \<times> bytes) res" where
  "p384Halves P sk =
     (if \<not> isBytes sk (Some (len_secretKey MLDSA65_P384_LENGTHS))
      then Throw (JsRangeError ''composite secret key must be 80 bytes'')
      else let scalar = drop ml_seed (the sk)
        in if \<not> p384_valid P scalar
           then Throw (JsRangeError ''composite secret key: P-384 scalar out of range'')
           else Ok (take ml_seed (the sk), scalar))"

definition mldsa65P384PublicKey :: "prims \<Rightarrow> buffer \<Rightarrow> bytes res" where
  "mldsa65P384PublicKey P sk =
     bind_res (p384Halves P sk) (\<lambda>(seed, scalar). Ok (mldsa_pk P seed @ p384_pub P scalar))"

text \<open>\<open>keygen(sk?)\<close>: the drawn seed and scalar are used when no key is passed. The result is
  the public and the secret key.\<close>

definition mldsa65P384Keygen :: "prims \<Rightarrow> bytes \<times> bytes \<Rightarrow> bytes option \<Rightarrow> (bytes \<times> bytes) res" where
  "mldsa65P384Keygen P drawn sk =
     (let copy = (case sk of None \<Rightarrow> fst drawn @ snd drawn | Some k \<Rightarrow> k)
      in bind_res (mldsa65P384PublicKey P (Some copy)) (\<lambda>pk. Ok (pk, copy)))"

subsection \<open>Signing and verifying\<close>

text \<open>The last argument is the randomness that hedges the two halves.\<close>

definition mldsa65P384Sign :: "prims \<Rightarrow> buffer \<Rightarrow> buffer \<Rightarrow> buffer \<Rightarrow> bytes \<times> bytes \<Rightarrow> bytes res" where
  "mldsa65P384Sign P msg sk ctx rnd =
     bind_res (p384Halves P sk) (\<lambda>(seed, scalar).
     bind_res (mldsa65P384Message P msg ctx) (\<lambda>m.
       let ecSig = p384_sign P m scalar (snd rnd)
       in Ok (mlSign P m seed p384_label (fst rnd) @ ecSig)))"

text \<open>The body of the \<open>try\<close>: \<open>None\<close> where a call inside it throws.\<close>

definition verify_body :: "prims \<Rightarrow> bytes \<Rightarrow> buffer \<Rightarrow> bytes \<Rightarrow> buffer \<Rightarrow> bool option" where
  "verify_body P sig msg pk ctx =
     (let point = drop ml_pk pk
      in if point ! 0 \<noteq> 4 then Some False
         else case mldsa65P384Message P msg ctx of
             Inl _ \<Rightarrow> None
           | Inr m \<Rightarrow>
               (case mlVerify P (take ml_sig sig) m (take ml_pk pk) p384_label of
                  Some True \<Rightarrow> p384_verify P (drop ml_sig sig) m point
                | r \<Rightarrow> r))"

definition mldsa65P384Verify :: "prims \<Rightarrow> buffer \<Rightarrow> buffer \<Rightarrow> buffer \<Rightarrow> buffer \<Rightarrow> bool" where
  "mldsa65P384Verify P sig msg pk ctx =
     (if \<not> isBytes sig None then False
      else if length (the sig) < ml_sig + der_min \<or> ml_sig + der_max < length (the sig) then False
      else if \<not> isBytes pk (Some (len_publicKey MLDSA65_P384_LENGTHS)) then False
      else verify_body P (the sig) msg (the pk) ctx = Some True)"

subsection \<open>The registry\<close>

record sig_suite =
  ss_alg :: string
  ss_lengths :: suite_lengths
  ss_publicKey :: "buffer \<Rightarrow> bytes res"
  ss_keygen :: "bytes \<times> bytes \<Rightarrow> bytes option \<Rightarrow> (bytes \<times> bytes) res"
  ss_sign :: "buffer \<Rightarrow> buffer \<Rightarrow> buffer \<Rightarrow> bytes \<times> bytes \<Rightarrow> bytes res"
  ss_verify :: "buffer \<Rightarrow> buffer \<Rightarrow> buffer \<Rightarrow> buffer \<Rightarrow> bool"

definition SIGNATURE_SUITES :: "prims \<Rightarrow> string \<Rightarrow> sig_suite option" where
  "SIGNATURE_SUITES P = [MLDSA65_P384_SIG_ALG \<mapsto>
     \<lparr>ss_alg = MLDSA65_P384_SIG_ALG,
      ss_lengths = MLDSA65_P384_LENGTHS,
      ss_publicKey = mldsa65P384PublicKey P,
      ss_keygen = mldsa65P384Keygen P,
      ss_sign = mldsa65P384Sign P,
      ss_verify = mldsa65P384Verify P\<rparr>]"

subsection \<open>Facts\<close>

definition composite_usable :: "prims \<Rightarrow> bytes \<Rightarrow> bool" where
  "composite_usable P sk \<longleftrightarrow> length sk = 80 \<and> p384_valid P (drop 32 sk)"

lemma isBytes_Some [simp]: "isBytes (Some bs) len \<longleftrightarrow> (case len of None \<Rightarrow> True | Some n \<Rightarrow> length bs = n)"
  by (simp add: isBytes_def)

lemma isBytes_None [simp]: "\<not> isBytes None len"
  by (simp add: isBytes_def)

lemma halves_ok: "p384Halves P (Some sk) = Inr h \<longleftrightarrow> composite_usable P sk \<and> h = (take 32 sk, drop 32 sk)"
  by (auto simp: p384Halves_def composite_usable_def Let_def split: if_splits)

lemma public_key_ok:
  "mldsa65P384PublicKey P (Some sk) = Inr pk \<longleftrightarrow>
   composite_usable P sk \<and> pk = mldsa_pk P (take 32 sk) @ p384_pub P (drop 32 sk)"
  by (auto simp: mldsa65P384PublicKey_def halves_ok)

lemma public_key_length:
  "signature_laws P \<Longrightarrow> mldsa65P384PublicKey P (Some sk) = Inr pk \<Longrightarrow> length pk = 2049"
  by (auto simp: public_key_ok composite_usable_def signature_laws_def)

lemma message_ok:
  "mldsa65P384Message P (Some m) (Some c) = Inr x \<longleftrightarrow>
   length c \<le> 255 \<and> x = composite_prefix @ p384_label @ [byte (length c)] @ c @ sha512 P m"
  by (auto simp: mldsa65P384Message_def messageFor_def)

text \<open>\<open>M'\<close> commits to the context and to the message's digest.\<close>

lemma message_commits:
  assumes "mldsa65P384Message P (Some m) (Some c) = Inr x"
    and "mldsa65P384Message P (Some m') (Some c') = Inr x"
  shows "c = c' \<and> sha512 P m = sha512 P m'"
proof -
  have "length c \<le> 255" "length c' \<le> 255" "byte (length c) = byte (length c')"
    and t: "c @ sha512 P m = c' @ sha512 P m'"
    using assms by (auto simp: message_ok)
  then have "length c = length c'" by (simp add: byte_eq_iff)
  with t show ?thesis by simp
qed

text \<open>What a valid signature is: sizes, one point encoding, and both halves.\<close>

lemma composite_verify_iff:
  "mldsa65P384Verify P (Some sig) (Some m) (Some pk) (Some c) \<longleftrightarrow>
     3317 \<le> length sig \<and> length sig \<le> 3413 \<and> length pk = 2049 \<and> drop 1952 pk ! 0 = 4 \<and>
     (\<exists>x. mldsa65P384Message P (Some m) (Some c) = Inr x \<and>
        mldsa_verify P (take 3309 sig) x (take 1952 pk) p384_label = Some True \<and>
        p384_verify P (drop 3309 sig) x (drop 1952 pk) = Some True)"
  by (auto simp: mldsa65P384Verify_def verify_body_def mlVerify_def Let_def
      split: sum.splits option.splits bool.splits)

lemma composite_sign_ok:
  "mldsa65P384Sign P (Some m) (Some sk) (Some c) rnd = Inr sig \<longleftrightarrow>
     composite_usable P sk \<and>
     (\<exists>x. mldsa65P384Message P (Some m) (Some c) = Inr x \<and>
        sig = mldsa_sign P x (mldsa_sk P (take 32 sk)) p384_label (fst rnd) @ p384_sign P x (drop 32 sk) (snd rnd))"
  by (auto simp: mldsa65P384Sign_def halves_ok mlSign_def Let_def)

lemma composite_sign_verify:
  assumes P: "signature_laws P" and sk: "composite_usable P sk" and c: "length c \<le> 255"
    and pk: "mldsa65P384PublicKey P (Some sk) = Inr pk"
  shows "\<exists>sig. mldsa65P384Sign P (Some m) (Some sk) (Some c) rnd = Inr sig \<and>
    mldsa65P384Verify P (Some sig) (Some m) (Some pk) (Some c) \<and> 3317 \<le> length sig \<and> length sig \<le> 3413"
proof -
  obtain x where x: "mldsa65P384Message P (Some m) (Some c) = Inr x"
    using c by (simp add: message_ok)
  let ?s = "take 32 sk" and ?d = "drop 32 sk"
  have len: "length ?s = 32" "p384_valid P ?d" using sk by (simp_all add: composite_usable_def)
  have ml: "length (mldsa_pk P ?s) = 1952" "length (mldsa_sign P x (mldsa_sk P ?s) p384_label (fst rnd)) = 3309"
    "mldsa_verify P (mldsa_sign P x (mldsa_sk P ?s) p384_label (fst rnd)) x (mldsa_pk P ?s) p384_label = Some True"
    using P len(1) by (simp_all add: signature_laws_def)
  have ec: "length (p384_pub P ?d) = 97" "hd (p384_pub P ?d) = 4"
    "8 \<le> length (p384_sign P x ?d (snd rnd))" "length (p384_sign P x ?d (snd rnd)) \<le> 104"
    "p384_verify P (p384_sign P x ?d (snd rnd)) x (p384_pub P ?d) = Some True"
    using P len(2) by (simp_all add: signature_laws_def)
  have "p384_pub P ?d ! 0 = 4" using ec(1,2) by (metis hd_conv_nth list.size(3) zero_neq_numeral)
  then show ?thesis
    using sk pk x ml ec by (simp add: composite_sign_ok composite_verify_iff public_key_ok)
qed

interpretation composite: signature_suite
  "\<lambda>sk. mldsa65P384PublicKey P (Some sk)"
  "\<lambda>m sk rnd. mldsa65P384Sign P (Some m) (Some sk) (Some []) rnd"
  "\<lambda>sig m pk. mldsa65P384Verify P (Some sig) (Some m) (Some pk) (Some [])"
  "\<lambda>sk. signature_laws P \<and> composite_usable P sk" for P
proof
  fix k p m r
  assume k: "signature_laws P \<and> composite_usable P k"
  then show "\<exists>p. mldsa65P384PublicKey P (Some k) = Inr p" by (simp add: public_key_ok)
  assume p: "mldsa65P384PublicKey P (Some k) = Inr p"
  show "\<exists>s. mldsa65P384Sign P (Some m) (Some k) (Some []) r = Inr s \<and>
      mldsa65P384Verify P (Some s) (Some m) (Some p) (Some [])"
    using composite_sign_verify [OF _ _ _ p, of "[]" m r] k by auto
qed

end
