(* ===== verification/Base64.thy ===== *)
theory Base64
  imports Encoding
begin

unbundle bit_operations_syntax

text \<open>
  \<open>toB64\<close> and \<open>fromB64\<close> of \<open>packages/crypto-core/src/encoding.js\<close>, with the
  platform's \<open>btoa\<close> and \<open>atob\<close> they call. The decoder takes one spelling of each byte
  string, which is what lets a signature commit to a ciphertext in its string form.
\<close>

subsection \<open>The alphabet\<close>

definition b64_alphabet :: string where
  "b64_alphabet = ''ABCDEFGHIJKLMNOPQRSTUVWXYZabcdefghijklmnopqrstuvwxyz0123456789+/''"

definition b64_char :: "nat \<Rightarrow> char" where
  "b64_char n = b64_alphabet ! n"

text \<open>The table \<open>_B64_VALUES\<close>: a character's position in the alphabet.\<close>

definition b64_value :: "char \<Rightarrow> nat" where
  "b64_value c = length (takeWhile (\<lambda>d. d \<noteq> c) b64_alphabet)"

definition is_b64 :: "char \<Rightarrow> bool" where
  "is_b64 c \<longleftrightarrow> c \<in> set b64_alphabet"

abbreviation pad_char :: char where
  "pad_char \<equiv> CHR ''=''"

subsection \<open>btoa and atob\<close>

text \<open>\<open>btoa\<close> on a binary string: three bytes become four characters.\<close>

fun b64_groups :: "bytes \<Rightarrow> string" where
  "b64_groups [] = []"
| "b64_groups [a] =
     (let n = unat a in [b64_char (n div 4), b64_char (n mod 4 * 16), pad_char, pad_char])"
| "b64_groups [a, b] =
     (let n = unat a * 256 + unat b in
      [b64_char (n div 1024), b64_char (n div 16 mod 64), b64_char (n mod 16 * 4), pad_char])"
| "b64_groups (a # b # c # r) =
     (let n = unat a * 65536 + unat b * 256 + unat c in
      [b64_char (n div 262144), b64_char (n div 4096 mod 64), b64_char (n div 64 mod 64), b64_char (n mod 64)]
      @ b64_groups r)"

definition btoa :: "string \<Rightarrow> string" where
  "btoa s = b64_groups (map (\<lambda>c. byte (code c)) s)"

text \<open>\<open>b64.endsWith('==') ? 2 : b64.endsWith('=') ? 1 : 0\<close>.\<close>

definition pad_length :: "string \<Rightarrow> nat" where
  "pad_length s =
     (if 2 \<le> length s \<and> drop (length s - 2) s = [pad_char, pad_char] then 2
      else if s \<noteq> [] \<and> last s = pad_char then 1 else 0)"

definition unpadded :: "string \<Rightarrow> string" where
  "unpadded s = take (length s - pad_length s) s"

text \<open>\<open>atob\<close> on what the checks let through: the padding is dropped, complete bytes are
  read off, and the bits that do not fill a byte are discarded.\<close>

fun b64_bytes :: "string \<Rightarrow> bytes" where
  "b64_bytes (p # q # r # s # t) =
     (let n = b64_value p * 262144 + b64_value q * 4096 + b64_value r * 64 + b64_value s in
      [byte (n div 65536), byte (n div 256 mod 256), byte (n mod 256)] @ b64_bytes t)"
| "b64_bytes [p, q, r] =
     (let n = b64_value p * 4096 + b64_value q * 64 + b64_value r in [byte (n div 1024), byte (n div 4 mod 256)])"
| "b64_bytes [p, q] = (let n = b64_value p * 64 + b64_value q in [byte (n div 16)])"
| "b64_bytes _ = []"

definition atob :: "string \<Rightarrow> string" where
  "atob s = map (\<lambda>b. char_of (unat b)) (b64_bytes (unpadded s))"

subsection \<open>toB64 and fromB64\<close>

abbreviation b64_slice :: nat where
  "b64_slice \<equiv> 8192"

text \<open>The binary string is built a slice at a time, the argument limit of
  \<open>String.fromCharCode.apply\<close>.\<close>

function b64_binary :: "bytes \<Rightarrow> string" where
  "b64_binary bs =
     (if bs = [] then [] else map (\<lambda>b. char_of (unat b)) (take b64_slice bs) @ b64_binary (drop b64_slice bs))"
  by pat_completeness auto
termination
  by (relation "measure length") auto

declare b64_binary.simps [simp del]

definition toB64 :: "bytes \<Rightarrow> string" where
  "toB64 bs = btoa (b64_binary bs)"

definition b64_shape_error :: js_error where
  "b64_shape_error = PlainError ''fromB64: expected a non-empty, padded, canonical base64 string''"

definition b64_bits_error :: js_error where
  "b64_bits_error = PlainError ''fromB64: non-canonical base64 (unused trailing bits are set)''"

text \<open>The pattern \<open>_B64_ONLY\<close>: the alphabet, then at most two padding characters.\<close>

definition b64_only :: "string \<Rightarrow> bool" where
  "b64_only s \<longleftrightarrow> list_all is_b64 (unpadded s)"

fun fromB64 :: "jsval \<Rightarrow> bytes res" where
  "fromB64 (JStr s) =
     (if s = [] \<or> length s mod 4 \<noteq> 0 \<or> \<not> b64_only s then Throw b64_shape_error
      else
        (let pad = pad_length s;
             last_value = b64_value (s ! (length s - pad - 1))
         in if pad \<noteq> 0 \<and> last_value AND (if pad = 2 then 15 else 3) \<noteq> 0 then Throw b64_bits_error
            else Ok (map (\<lambda>c. byte (code c)) (atob s))))"
| "fromB64 _ = Throw b64_shape_error"

subsection \<open>The alphabet is a bijection\<close>

lemma length_alphabet [simp]: "length b64_alphabet = 64"
  by (simp add: b64_alphabet_def)

lemma distinct_alphabet: "distinct b64_alphabet"
  by (simp add: b64_alphabet_def)

lemma b64_value_char [simp]: "n < 64 \<Longrightarrow> b64_value (b64_char n) = n"
proof -
  assume n: "n < 64"
  have "takeWhile (\<lambda>d. d \<noteq> b64_alphabet ! n) b64_alphabet = take n b64_alphabet"
    using n distinct_alphabet by (intro takeWhile_eq_take_P_nth) (auto simp: nth_eq_iff_index_eq)
  then show ?thesis using n by (simp add: b64_value_def b64_char_def)
qed

lemma first_index: "x \<in> set xs \<Longrightarrow>
  length (takeWhile (\<lambda>d. d \<noteq> x) xs) < length xs \<and> xs ! length (takeWhile (\<lambda>d. d \<noteq> x) xs) = x"
  by (induction xs) auto

lemma b64_char_value [simp]: "is_b64 c \<Longrightarrow> b64_char (b64_value c) = c"
  using first_index [of c b64_alphabet] by (simp add: is_b64_def b64_char_def b64_value_def)

lemma b64_value_less: "is_b64 c \<Longrightarrow> b64_value c < 64"
  using first_index [of c b64_alphabet] by (simp add: is_b64_def b64_value_def)

lemma is_b64_char [simp]: "n < 64 \<Longrightarrow> is_b64 (b64_char n)"
  by (simp add: is_b64_def b64_char_def)

lemma pad_not_b64 [simp]: "\<not> is_b64 pad_char"
  by (simp add: is_b64_def b64_alphabet_def)

subsection \<open>Slices and padding\<close>

lemma b64_binary_eq: "b64_binary bs = map (\<lambda>b. char_of (unat b)) bs"
proof (induction bs rule: b64_binary.induct)
  case (1 bs)
  show ?case
  proof (cases "bs = []")
    case False
    have "b64_binary bs = map (\<lambda>b. char_of (unat b)) (take b64_slice bs @ drop b64_slice bs)"
      by (subst b64_binary.simps) (simp only: map_append 1 [OF False] False if_False)
    then show ?thesis by (simp only: append_take_drop_id)
  qed (simp add: b64_binary.simps)
qed

lemma byte_code_char [simp]: "byte (code (char_of (unat b) :: char)) = b"
  by (simp add: of_char_of)

lemma toB64_groups: "toB64 bs = b64_groups bs"
  by (simp add: toB64_def btoa_def b64_binary_eq comp_def)

lemma pad_length_le: "pad_length s \<le> 2"
  by (simp add: pad_length_def)

lemma pad_length_two [simp]: "pad_length (t @ [pad_char, pad_char]) = 2"
  by (simp add: pad_length_def)

lemma pad_length_last: "t \<noteq> [] \<Longrightarrow> last t \<noteq> pad_char \<Longrightarrow> pad_length t = 0"
  by (cases t rule: rev_cases) (auto simp: pad_length_def nth_append Cons_nth_drop_Suc drop_append)

lemma pad_length_one: "t = [] \<or> last t \<noteq> pad_char \<Longrightarrow> pad_length (t @ [pad_char]) = 1"
  by (cases t rule: rev_cases) (auto simp: pad_length_def)

lemma pad_length_append:
  assumes "list_all is_b64 t" and "k \<le> 2"
  shows "pad_length (t @ replicate k pad_char) = k"
proof -
  have last: "t = [] \<or> last t \<noteq> pad_char"
    using assms(1) pad_not_b64 by (metis last_in_set list_all_iff)
  have "k = 0 \<or> k = 1 \<or> k = 2" using assms(2) by linarith
  then show ?thesis
  proof (elim disjE)
    assume "k = 0"
    with last pad_length_last [of t] show ?thesis by (cases "t = []") (simp_all add: pad_length_def)
  next
    assume "k = 1"
    with last pad_length_one [of t] show ?thesis by simp
  next
    assume "k = 2"
    with pad_length_two [of t] show ?thesis by (simp add: numeral_2_eq_2)
  qed
qed

lemma unpadded_append:
  "list_all is_b64 t \<Longrightarrow> k \<le> 2 \<Longrightarrow> unpadded (t @ replicate k pad_char) = t"
  by (simp add: unpadded_def pad_length_append)

lemma padded_split: "s = unpadded s @ replicate (pad_length s) pad_char"
proof (cases "2 \<le> length s \<and> drop (length s - 2) s = [pad_char, pad_char]")
  case True
  then have "pad_length s = 2" and "s = take (length s - 2) s @ [pad_char, pad_char]"
    by (simp_all add: pad_length_def) (metis append_take_drop_id)
  then show ?thesis by (simp add: unpadded_def numeral_2_eq_2)
next
  case False
  note two = this
  show ?thesis
  proof (cases "s \<noteq> [] \<and> last s = pad_char")
    case True
    then have "pad_length s = 1" and "s = butlast s @ [pad_char]"
      using two append_butlast_last_id [of s] by (auto simp: pad_length_def)
    then show ?thesis by (simp add: unpadded_def butlast_conv_take)
  next
    case False
    then have "pad_length s = 0" using two by (auto simp: pad_length_def)
    then show ?thesis by (simp add: unpadded_def)
  qed
qed

subsection \<open>Groups of four characters\<close>

lemma horner:
  fixes q :: nat
  assumes "c < m"
  shows "(q * m + c) div m = q" and "(q * m + c) mod m = c"
  using assms by simp_all

text \<open>Three bytes and four sextets are the same number written in base 256 and in base 64.\<close>

lemma three_bytes:
  fixes a b c :: nat
  assumes "b < 256" "c < 256"
  defines "n \<equiv> a * 65536 + b * 256 + c"
  shows "n div 65536 = a" "n div 256 mod 256 = b" "n mod 256 = c"
proof -
  have n: "n = (a * 256 + b) * 256 + c" by (simp add: n_def)
  have "n div 65536 = n div 256 div 256" by (simp flip: div_mult2_eq)
  then show "n div 65536 = a" "n div 256 mod 256 = b" "n mod 256 = c"
    by (simp_all only: n horner assms)
qed

lemma four_sextets:
  fixes p q r s :: nat
  assumes "q < 64" "r < 64" "s < 64"
  defines "n \<equiv> p * 262144 + q * 4096 + r * 64 + s"
  shows "n div 262144 = p" "n div 4096 mod 64 = q" "n div 64 mod 64 = r" "n mod 64 = s"
proof -
  have n: "n = ((p * 64 + q) * 64 + r) * 64 + s" by (simp add: n_def)
  have "n div 262144 = n div 64 div 64 div 64" "n div 4096 = n div 64 div 64"
    by (simp_all flip: div_mult2_eq)
  then show "n div 262144 = p" "n div 4096 mod 64 = q" "n div 64 mod 64 = r" "n mod 64 = s"
    by (simp_all only: n horner assms)
qed

lemma sextets_sum:
  fixes n :: nat
  shows "n div 262144 * 262144 + n div 4096 mod 64 * 4096 + n div 64 mod 64 * 64 + n mod 64 = n"
proof -
  have e: "n div 262144 = n div 64 div 64 div 64" "n div 4096 = n div 64 div 64"
    by (simp_all flip: div_mult2_eq)
  have 1: "n div 64 * 64 + n mod 64 = n" by (rule div_mult_mod_eq)
  have 2: "n div 64 div 64 * 64 + n div 64 mod 64 = n div 64" by (rule div_mult_mod_eq)
  have 3: "n div 64 div 64 div 64 * 64 + n div 64 div 64 mod 64 = n div 64 div 64" by (rule div_mult_mod_eq)
  show ?thesis unfolding e using 1 2 3 by linarith
qed

lemma bytes_sum:
  fixes n :: nat
  shows "n div 65536 * 65536 + n div 256 mod 256 * 256 + n mod 256 = n"
proof -
  have e: "n div 65536 = n div 256 div 256" by (simp flip: div_mult2_eq)
  have 1: "n div 256 * 256 + n mod 256 = n" by (rule div_mult_mod_eq)
  have 2: "n div 256 div 256 * 256 + n div 256 mod 256 = n div 256" by (rule div_mult_mod_eq)
  show ?thesis unfolding e using 1 2 by linarith
qed

subsection \<open>Encoding then decoding, and back\<close>

lemma and_masks: "(x :: nat) AND 15 = x mod 16" "(x :: nat) AND 3 = x mod 4"
  using take_bit_eq_mask [of 4 x] take_bit_eq_mask [of 2 x]
  by (simp_all add: take_bit_eq_mod mask_eq_exp_minus_1)

definition pad_bits_zero :: "nat \<Rightarrow> string \<Rightarrow> bool" where
  "pad_bits_zero k t \<longleftrightarrow> (k = 1 \<longrightarrow> b64_value (last t) mod 4 = 0) \<and> (k = 2 \<longrightarrow> b64_value (last t) mod 16 = 0)"

definition b64_wf :: "nat \<Rightarrow> string \<Rightarrow> bool" where
  "b64_wf k t \<longleftrightarrow> list_all is_b64 t \<and> k \<le> 2 \<and> (length t + k) mod 4 = 0 \<and> pad_bits_zero k t"

lemma groups_of_bytes:
  "\<exists>t k. b64_groups bs = t @ replicate k pad_char \<and> b64_wf k t \<and> b64_bytes t = bs"
proof (induction bs rule: b64_groups.induct)
  case 1
  show ?case by (rule exI [of _ "[]"], rule exI [of _ 0]) (simp add: b64_wf_def pad_bits_zero_def)
next
  case (2 a)
  define n where "n = unat a"
  have n: "n < 256" "n div 4 < 64" "n mod 4 * 16 < 64" by (simp_all add: n_def less_mult_imp_div_less)
  have "n div 4 * 64 + n mod 4 * 16 = n * 16" using div_mult_mod_eq [of n 4] by linarith
  then have "(n div 4 * 64 + n mod 4 * 16) div 16 = n" by simp
  then show ?case
    using n by (intro exI [of _ "[b64_char (n div 4), b64_char (n mod 4 * 16)]"] exI [of _ 2])
      (simp add: b64_wf_def pad_bits_zero_def numeral_2_eq_2 flip: n_def, simp add: n_def)
next
  case (3 a b)
  define n where "n = unat a * 256 + unat b"
  have "n < 65536"
    unfolding n_def using unat_less_256 [of a] unat_less_256 [of b] by linarith
  moreover have ab: "n div 256 = unat a" "n mod 256 = unat b"
    unfolding n_def using unat_less_256 [of b] by (simp_all add: horner)
  ultimately have lt: "n div 1024 < 64" "n div 16 mod 64 < 64" "n mod 16 * 4 < 64" by linarith+
  have e: "n div 1024 = n div 16 div 64" by (simp flip: div_mult2_eq)
  have "n div 1024 * 4096 + n div 16 mod 64 * 64 + n mod 16 * 4 = n * 4"
    unfolding e using div_mult_mod_eq [of n 16] div_mult_mod_eq [of "n div 16" 64] by linarith
  moreover have "n * 4 div 1024 = unat a" "n * 4 div 4 mod 256 = unat b"
    using ab by simp_all
  ultimately show ?case
    using lt by (intro exI [of _ "[b64_char (n div 1024), b64_char (n div 16 mod 64), b64_char (n mod 16 * 4)]"]
        exI [of _ 1]) (simp add: b64_wf_def pad_bits_zero_def Let_def flip: n_def)
next
  case (4 a b c r)
  then obtain t k where t: "b64_groups r = t @ replicate k pad_char" "b64_wf k t" "b64_bytes t = r"
    by blast
  define n where "n = unat a * 65536 + unat b * 256 + unat c"
  note bs = three_bytes [of "unat b" "unat c" "unat a", folded n_def, OF unat_less_256 unat_less_256]
  have lt: "n div 262144 < 64"
    unfolding n_def using unat_less_256 [of a] unat_less_256 [of b] unat_less_256 [of c] by linarith
  let ?q = "[b64_char (n div 262144), b64_char (n div 4096 mod 64), b64_char (n div 64 mod 64), b64_char (n mod 64)]"
  have "b64_wf k (?q @ t)"
    using t(2) lt by (cases "t = []") (auto simp: b64_wf_def pad_bits_zero_def)
  moreover have "b64_bytes (?q @ t) = a # b # c # r"
    using lt t(3) bs by (simp add: Let_def sextets_sum)
  moreover have "b64_groups (a # b # c # r) = (?q @ t) @ replicate k pad_char"
    using t(1) by (simp add: Let_def n_def)
  ultimately show ?case by blast
qed

lemma bytes_of_groups: "b64_wf k t \<Longrightarrow> b64_groups (b64_bytes t) = t @ replicate k pad_char"
proof (induction t rule: b64_bytes.induct)
  case (1 p q r s t)
  define n where "n = b64_value p * 262144 + b64_value q * 4096 + b64_value r * 64 + b64_value s"
  have v: "b64_value p < 64" "b64_value q < 64" "b64_value r < 64" "b64_value s < 64"
    using 1 by (simp_all add: b64_wf_def b64_value_less)
  have "b64_wf k t" using 1 by (cases "t = []") (auto simp: b64_wf_def pad_bits_zero_def)
  note IH = "1.IH" [OF n_def this]
  have "n div 65536 < 256" unfolding n_def using v by linarith
  then have u: "n div 65536 mod 256 = n div 65536" by simp
  show ?case
    using 1 IH four_sextets [OF v(2,3,4), of "b64_value p", folded n_def]
    by (simp add: Let_def u bytes_sum b64_wf_def flip: n_def)
next
  case (2 p q r)
  define n where "n = b64_value p * 4096 + b64_value q * 64 + b64_value r"
  have k: "k = 1" using 2 by (auto simp: b64_wf_def) presburger
  have v: "b64_value p < 64" "b64_value q < 64" "b64_value r < 64" "b64_value r mod 4 = 0"
    using 2 k by (simp_all add: b64_wf_def b64_value_less pad_bits_zero_def)
  obtain m where m: "b64_value r = 4 * m" "m < 16" using v(3,4) by (auto elim!: dvdE simp: mod_eq_0_iff_dvd)
  define h where "h = b64_value p * 1024 + b64_value q * 16 + m"
  have n: "n = h * 4" "h < 65536" unfolding n_def h_def using m v by simp_all
  have h: "h = (b64_value p * 64 + b64_value q) * 16 + m" by (simp add: h_def)
  have e: "h div 1024 = h div 16 div 64" by (simp flip: div_mult2_eq)
  have "h div 16 = b64_value p * 64 + b64_value q" "h mod 16 = m" by (simp_all only: h horner m)
  then have "h div 1024 = b64_value p" "h div 16 mod 64 = b64_value q" "h mod 16 = m"
    using v(2) unfolding e by (simp_all add: horner)
  moreover have "b64_bytes [p, q, r] = [byte (h div 256), byte (h mod 256)]"
    using n by (simp add: Let_def flip: n_def)
  moreover have "unat (byte (h div 256)) * 256 + unat (byte (h mod 256)) = h"
    using n by (simp add: unat_byte less_mult_imp_div_less div_mult_mod_eq)
  ultimately have eq: "b64_groups (b64_bytes [p, q, r]) =
      [b64_char (b64_value p), b64_char (b64_value q), b64_char (m * 4), pad_char]"
    by (simp only: b64_groups.simps Let_def)
  have "b64_char (m * 4) = r"
    using 2 m b64_char_value [of r] by (simp add: b64_wf_def mult.commute)
  then show ?case unfolding eq using 2 k by (simp add: b64_wf_def)
next
  case (3 p q)
  define n where "n = b64_value p * 64 + b64_value q"
  have k: "k = 2" using 3 by (auto simp: b64_wf_def) presburger
  have v: "b64_value p < 64" "b64_value q < 64" "b64_value q mod 16 = 0"
    using 3 k by (simp_all add: b64_wf_def b64_value_less pad_bits_zero_def)
  obtain m where m: "b64_value q = 16 * m" "m < 4" using v(2,3) by (auto elim!: dvdE simp: mod_eq_0_iff_dvd)
  have n: "n div 16 = b64_value p * 4 + m" unfolding n_def m by simp
  then have lt: "n div 16 < 256" using v m by linarith
  have "b64_char (m * 16) = q"
    using 3 m b64_char_value [of q] by (simp add: b64_wf_def mult.commute)
  with lt show ?case
    using 3 k m n by (simp add: Let_def b64_wf_def numeral_2_eq_2 mult.commute horner flip: n_def)
qed (auto simp: b64_wf_def dest: dvd_imp_le)

lemma char_of_code_byte: "map (\<lambda>c. byte (code c)) (map (\<lambda>b. char_of (unat b)) bs) = bs"
  by (induction bs) simp_all

lemma fromB64_wf:
  assumes wf: "b64_wf k t" and ne: "t \<noteq> []"
  shows "fromB64 (JStr (t @ replicate k pad_char)) = Inr (b64_bytes t)"
proof -
  let ?s = "t @ replicate k pad_char"
  have t: "list_all is_b64 t" "k \<le> 2" "(length t + k) mod 4 = 0" "pad_bits_zero k t"
    using wf by (simp_all add: b64_wf_def)
  have u: "unpadded ?s = t" "pad_length ?s = k"
    using t by (simp_all only: unpadded_append pad_length_append)
  have "?s ! (length ?s - k - 1) = last t"
    using ne by (simp add: nth_append last_conv_nth)
  moreover have "k = 0 \<or> k = 1 \<or> k = 2" using t(2) by linarith
  ultimately show ?thesis
    using t u ne unfolding fromB64.simps b64_only_def atob_def Let_def u char_of_code_byte
    by (auto simp: pad_bits_zero_def and_masks)
qed

lemma fromB64_OkE:
  assumes "fromB64 v = Inr bs"
  obtains k t where "v = JStr (t @ replicate k pad_char)" "b64_wf k t" "t \<noteq> []" "bs = b64_bytes t"
proof -
  from assms obtain s where s: "v = JStr s" "s \<noteq> []" "length s mod 4 = 0" "b64_only s"
      "pad_length s \<noteq> 0 \<longrightarrow> b64_value (s ! (length s - pad_length s - 1)) AND (if pad_length s = 2 then 15 else 3) = 0"
      "bs = map (\<lambda>c. byte (code c)) (atob s)"
    by (cases v) (auto simp: Let_def split: if_splits)
  define k t where "k = pad_length s" and "t = unpadded s"
  have st: "s = t @ replicate k pad_char"
    unfolding k_def t_def by (rule padded_split)
  have k: "k \<le> 2" unfolding k_def by (rule pad_length_le)
  have len: "length s = length t + k" by (simp add: st)
  have ne: "t \<noteq> []"
  proof
    assume "t = []"
    with len s(2,3) k show False by (cases s) auto
  qed
  have "s ! (length s - k - 1) = last t"
    unfolding st using ne by (simp add: nth_append last_conv_nth)
  then have "pad_bits_zero k t"
    using s(5) by (auto simp: pad_bits_zero_def and_masks simp flip: k_def)
  then have "b64_wf k t"
    using s(3,4) k len by (simp add: b64_wf_def b64_only_def flip: t_def)
  moreover have "bs = b64_bytes t"
    unfolding s(6) atob_def t_def char_of_code_byte ..
  ultimately show thesis using that [of t k] st s(1) ne by simp
qed

lemma b64_bytes_nonempty: "b64_wf k t \<Longrightarrow> t \<noteq> [] \<Longrightarrow> b64_bytes t \<noteq> []"
  by (cases t rule: b64_bytes.cases) (auto simp: b64_wf_def Let_def dest: dvd_imp_le)

interpretation b64: canonical_codec "\<lambda>bs. JStr (toB64 bs)" fromB64 "\<lambda>bs. bs \<noteq> []"
proof
  fix bs :: bytes
  assume "bs \<noteq> []"
  obtain t k where t: "b64_groups bs = t @ replicate k pad_char" "b64_wf k t" "b64_bytes t = bs"
    using groups_of_bytes by blast
  with \<open>bs \<noteq> []\<close> have "t \<noteq> []" by auto
  then show "fromB64 (JStr (toB64 bs)) = Inr bs"
    using fromB64_wf [OF t(2)] t by (simp add: toB64_groups)
next
  fix v bs
  assume "fromB64 v = Inr bs"
  then show "JStr (toB64 bs) = v" "bs \<noteq> []"
    by (auto elim!: fromB64_OkE simp: toB64_groups bytes_of_groups b64_bytes_nonempty)
qed

lemma fromB64_toB64 [simp]: "bs \<noteq> [] \<Longrightarrow> fromB64 (JStr (toB64 bs)) = Inr bs"
  by (rule b64.dec_enc)

declare fromB64.simps [simp del]

end
