(* ===== verification/Canonical.thy ===== *)
theory Canonical
  imports Json Base64 Primitives
begin

text \<open>
  The rest of \<open>packages/crypto-core/src/encoding.js\<close>: the digests that go into signed
  bodies and identifiers, and \<open>canonicalJson\<close>, the JSON whose bytes depend on the value
  alone. Its reading is \<open>js_norm\<close>, the value JSON can carry with every object's keys sorted:
  the text is injective on normal forms, and parses back to the normal form.
\<close>

subsection \<open>Digests\<close>

definition sha384HexBytes :: "prims \<Rightarrow> bytes \<Rightarrow> string" where
  "sha384HexBytes P bs = toHex (sha384 P bs)"

definition sha384Hex :: "prims \<Rightarrow> string \<Rightarrow> string" where
  "sha384Hex P s = sha384HexBytes P (utf8 s)"

definition sha384HexOfFile :: "prims \<Rightarrow> bytes \<Rightarrow> string" where
  "sha384HexOfFile P bs = toHex (sha384 P bs)"

text \<open>Two different byte strings with one digest: what a commitment by hash does not exclude.\<close>

definition sha384_collision :: "prims \<Rightarrow> bytes \<Rightarrow> bytes \<Rightarrow> bool" where
  "sha384_collision P x y \<longleftrightarrow> x \<noteq> y \<and> sha384 P x = sha384 P y"

lemma sha384Hex_eq: "sha384Hex P s = sha384Hex P t \<longleftrightarrow> s = t \<or> sha384_collision P (utf8 s) (utf8 t)"
  by (auto simp: sha384Hex_def sha384HexBytes_def toHex_inj sha384_collision_def)

lemma length_sha384Hex: "digest_laws P \<Longrightarrow> length (sha384HexBytes P bs) = 96"
  by (simp add: sha384HexBytes_def)

lemma sha384Hex_lhex: "list_all is_lhex (sha384HexBytes P bs)"
  by (simp add: sha384HexBytes_def toHex_lhex)

lemma sha384Hex_no_nl [simp]: "nl \<notin> set (sha384HexBytes P bs)" "nl \<notin> set (sha384Hex P s)"
  using list_all_no_nl [OF sha384Hex_lhex] by (simp_all add: sha384Hex_def)

subsection \<open>canonicalJson\<close>

text \<open>\<open>Object.keys(value).sort()\<close> orders the keys by code unit; with the keys of an object
  distinct, reading each key's value in that order is the list sorted by key.\<close>

fun canonicalJson :: "jsval \<Rightarrow> string" where
  "canonicalJson JNull = ''null''"
| "canonicalJson JUndef = ''null''"
| "canonicalJson (JArr vs) = CHR ''['' # join '','' (map canonicalJson vs) @ '']''"
| "canonicalJson (JObj kvs) =
     CHR ''{'' # join '',''
       (map (\<lambda>(k, v). json_quote k @ CHR '':'' # canonicalJson v) (sort_key fst kvs)) @ ''}''"
| "canonicalJson (JBool b) = json_text (JBool b)"
| "canonicalJson (JNum n) = json_text (JNum n)"
| "canonicalJson JNaN = json_text JNaN"
| "canonicalJson (JStr s) = json_text (JStr s)"

text \<open>Every object of a JavaScript value has distinct keys.\<close>

fun js_wf :: "jsval \<Rightarrow> bool" where
  "js_wf (JArr vs) = (\<forall>v\<in>set vs. js_wf v)"
| "js_wf (JObj kvs) = (distinct (map fst kvs) \<and> (\<forall>(k, v)\<in>set kvs. js_wf v))"
| "js_wf _ = True"

text \<open>What a value says once written canonically.\<close>

fun js_norm :: "jsval \<Rightarrow> jsval" where
  "js_norm JUndef = JNull"
| "js_norm JNaN = JNull"
| "js_norm (JArr vs) = JArr (map js_norm vs)"
| "js_norm (JObj kvs) = JObj (sort_key fst (map (\<lambda>(k, v). (k, js_norm v)) kvs))"
| "js_norm v = v"

text \<open>The value the other side of a JSON transport holds: members that are undefined are gone.\<close>

definition js_transport :: "jsval \<Rightarrow> jsval option" where
  "js_transport v = json_parse (json_text v)"

lemma sort_key_fst_map: "sort_key fst (map (\<lambda>(k, v). (k, f v)) kvs) = map (\<lambda>(k, v). (k, f v)) (sort_key fst kvs)"
proof -
  have ins: "insort_key fst (k, f v) (map (\<lambda>(k, v). (k, f v)) l) = map (\<lambda>(k, v). (k, f v)) (insort_key fst (k, v) l)"
    for k v l by (induction l) auto
  show ?thesis by (induction kvs) (auto simp: ins sort_key_def)
qed

lemma js_norm_not_undef [simp]: "js_norm v \<noteq> JUndef"
  by (cases v) simp_all

lemma canonicalJson_norm: "canonicalJson v = json_text (js_norm v)"
proof (induction v rule: canonicalJson.induct)
  case (4 kvs)
  let ?l = "map (\<lambda>(k, v). (k, js_norm v)) (sort_key fst kvs)"
  have f: "filter (\<lambda>(k, v). v \<noteq> JUndef) ?l = ?l"
    by (rule filter_True) auto
  have "map (\<lambda>(k, v). json_quote k @ CHR '':'' # canonicalJson v) (sort_key fst kvs) =
      map (\<lambda>(k, v). json_quote k @ CHR '':'' # json_text v) ?l"
    using 4 by (auto intro!: map_cong)
  then show ?case
    by (simp only: canonicalJson.simps js_norm.simps json_text.simps sort_key_fst_map f)
next
  case (3 vs)
  then have "map canonicalJson vs = map (json_text \<circ> js_norm) vs" by simp
  then show ?case by (simp only: canonicalJson.simps js_norm.simps json_text.simps map_map)
qed simp_all

lemma map_fst_values: "map fst (map (\<lambda>(k, v). (k, f v)) kvs) = map fst kvs"
  by (induction kvs) auto

lemma map_fst_sort_key: "map fst (sort_key fst kvs) = sort (map fst kvs)"
proof -
  have ins: "map fst (insort_key fst x l) = insort (fst x) (map fst l)" for x and l :: "('a \<times> 'b) list"
    by (induction l) auto
  show ?thesis by (induction kvs) (simp_all add: ins sort_key_def)
qed

lemma js_norm_pure: "js_wf v \<Longrightarrow> js_pure (js_norm v)"
proof (induction v rule: js_norm.induct)
  case (4 kvs)
  then have "distinct (map fst (sort_key fst (map (\<lambda>(k, v). (k, js_norm v)) kvs)))"
    by (simp only: map_fst_sort_key map_fst_values distinct_sort js_wf.simps)
  then show ?case
    using 4 by auto
qed auto

lemma js_pure_wf: "js_pure v \<Longrightarrow> js_wf v"
  by (induction v rule: js_wf.induct) auto

lemma js_norm_idem [simp]: "js_norm (js_norm v) = js_norm v"
proof (induction v rule: js_norm.induct)
  case (4 kvs)
  let ?n = "\<lambda>kvs. map (\<lambda>(k, v). (k, js_norm v)) kvs"
  have "?n (sort_key fst (?n kvs)) = sort_key fst (?n kvs)"
    using 4 by (auto intro!: map_idI)
  then show ?case by (simp add: sort_key_id_if_sorted)
qed simp_all

lemma canonicalJson_parses: "js_wf v \<Longrightarrow> json_parse (canonicalJson v) = Some (js_norm v)"
  by (simp add: canonicalJson_norm json_parse_text js_norm_pure)

lemma canonicalJson_inj:
  "js_wf v \<Longrightarrow> js_wf w \<Longrightarrow> canonicalJson v = canonicalJson w \<longleftrightarrow> js_norm v = js_norm w"
  by (metis canonicalJson_norm json_text_inj js_norm_pure)

lemma sort_key_map_of:
  assumes "distinct (map fst kvs)"
  shows "sort_key fst kvs = map (\<lambda>k. (k, the (map_of kvs k))) (sort (map fst kvs))"
proof -
  have "(fst x, the (map_of kvs (fst x))) = x" if "x \<in> set kvs" for x
    using assms that by (cases x) simp
  then have "map (\<lambda>x. (fst x, the (map_of kvs (fst x)))) (sort_key fst kvs) = sort_key fst kvs"
    by (intro map_idI) simp
  then show ?thesis by (simp add: comp_def flip: map_fst_sort_key)
qed

lemma sort_key_perm:
  assumes "distinct (map fst kvs)" and "distinct (map fst kvs')" and "set kvs = set kvs'"
  shows "sort_key fst kvs = sort_key fst kvs'"
proof -
  have "map_of kvs = map_of kvs'" using assms by (simp add: map_of_inject_set)
  moreover have "sort (map fst kvs) = sort (map fst kvs')"
    using assms by (intro sorted_distinct_set_unique) (simp_all only: sorted_sort distinct_sort set_sort set_map)
  ultimately show ?thesis using assms by (simp only: sort_key_map_of)
qed

text \<open>The text does not depend on the order an object was built in.\<close>

lemma canonicalJson_order:
  "distinct (map fst kvs) \<Longrightarrow> distinct (map fst kvs') \<Longrightarrow> set kvs = set kvs' \<Longrightarrow>
   canonicalJson (JObj kvs) = canonicalJson (JObj kvs')"
  using sort_key_perm [of kvs kvs'] by (simp only: canonicalJson.simps)

end
