(* ===== verification/Kem.thy ===== *)
theory Kem
  imports Composite Canonical
begin

text \<open>
  \<open>packages/crypto-core/src/kem.js\<close>: the hybrid KEM, ETSI TS 103 744 CatKDF over P-384 ECDH
  and ML-KEM-768. The derived key commits to the whole exchange: both public keys and both
  ciphertexts are in the context, each behind its length.
\<close>

subsection \<open>ETSI formatting\<close>

definition be32 :: "nat \<Rightarrow> bytes" where
  "be32 n = [byte (n div 16777216), byte (n div 65536 mod 256), byte (n div 256 mod 256), byte (n mod 256)]"

definition lengthPrefixed :: "bytes list \<Rightarrow> bytes" where
  "lengthPrefixed vs = concat (map (\<lambda>v. be32 (length v) @ v) vs)"

definition etsiMessage :: "bytes \<Rightarrow> bytes list \<Rightarrow> bytes" where
  "etsiMessage cid vs = cid @ lengthPrefixed vs"

definition etsiContextSha384 :: "prims \<Rightarrow> bytes list \<Rightarrow> bytes" where
  "etsiContextSha384 P vs = sha384 P (lengthPrefixed vs)"

text \<open>The named arguments of \<open>catKdfHkdfSha384\<close>; the source defaults \<open>psk\<close>, \<open>info\<close> and
  \<open>label\<close> to the empty string.\<close>

record catkdf_args =
  ck_psk :: bytes
  ck_k1 :: bytes
  ck_k2 :: bytes
  ck_MA :: bytes
  ck_MB :: bytes
  ck_info :: bytes
  ck_label :: bytes
  ck_length :: nat

definition catKdfHkdfSha384 :: "prims \<Rightarrow> catkdf_args \<Rightarrow> bytes" where
  "catKdfHkdfSha384 P a =
     hkdf_sha384 P (ck_psk a @ ck_k1 a @ ck_k2 a) (ck_label a)
       (etsiContextSha384 P [ck_info a, ck_MA a, ck_MB a]) (ck_length a)"

subsection \<open>The suite\<close>

definition CATKDF_KEM_ALG :: string where
  "CATKDF_KEM_ALG = ''HKDFwSHA384_P384_ML-KEM-768_CatKDF''"

definition catkdf_cid :: bytes where
  "catkdf_cid = [0x22, 0x21]"

definition catkdf_info :: bytes where
  "catkdf_info = utf8 (''Kryptolog/'' @ CATKDF_KEM_ALG @ ''/AES-GCM/v5'')"

abbreviation mlkem_seed :: nat where "mlkem_seed \<equiv> 64"

record kem_lengths =
  kl_publicKey :: nat
  kl_secretKey :: nat
  kl_cipherText :: nat
  kl_key :: nat

definition CATKDF_LENGTHS :: kem_lengths where
  "CATKDF_LENGTHS =
     \<lparr>kl_publicKey = p384_point + 1184, kl_secretKey = p384_scalar + mlkem_seed,
      kl_cipherText = p384_point + 1088, kl_key = 32\<rparr>"

lemma catkdf_lengths [simp]:
  "kl_publicKey CATKDF_LENGTHS = 1281"
  "kl_secretKey CATKDF_LENGTHS = 112"
  "kl_cipherText CATKDF_LENGTHS = 1185"
  "kl_key CATKDF_LENGTHS = 32"
  by (simp_all add: CATKDF_LENGTHS_def)

definition need_bytes :: "buffer \<Rightarrow> nat \<Rightarrow> string \<Rightarrow> unit res" where
  "need_bytes b n what =
     (if \<not> isBytes b None \<or> length (the b) \<noteq> n
      then Throw (JsRangeError (what @ '' must be '' @ nat_str n @ '' bytes'')) else Ok ())"

definition uncompressedPoint :: "bytes \<Rightarrow> string \<Rightarrow> bytes res" where
  "uncompressedPoint bs what =
     (if bs ! 0 \<noteq> 4 then Throw (JsRangeError (what @ '' must be an uncompressed P-384 point'')) else Ok bs)"

definition catkdfHalves :: "prims \<Rightarrow> buffer \<Rightarrow> (bytes \<times> bytes) res" where
  "catkdfHalves P sk =
     bind_res (need_bytes sk (kl_secretKey CATKDF_LENGTHS) ''CatKDF secret key'') (\<lambda>_.
       let scalar = take p384_scalar (the sk)
       in if \<not> p384_valid P scalar
          then Throw (JsRangeError ''CatKDF secret key: P-384 scalar out of range'')
          else Ok (scalar, drop p384_scalar (the sk)))"

text \<open>The x-coordinate of the shared point; the library refuses a point off the curve.\<close>

definition ecdhX :: "prims \<Rightarrow> bytes \<Rightarrow> bytes \<Rightarrow> bytes res" where
  "ecdhX P scalar point =
     bind_res (opt_res (PlainError ''bad point'') (p384_shared P scalar point)) (\<lambda>s. Ok (drop 1 s))"

record transcript =
  tr_P1 :: bytes
  tr_P2 :: bytes
  tr_R1 :: bytes
  tr_R2 :: bytes

definition catkdfKey :: "prims \<Rightarrow> transcript \<Rightarrow> bytes \<Rightarrow> bytes \<Rightarrow> bytes" where
  "catkdfKey P t k1 k2 = catKdfHkdfSha384 P
     \<lparr>ck_psk = [], ck_k1 = k1, ck_k2 = k2,
      ck_MA = etsiMessage catkdf_cid [[], tr_P1 t, tr_P2 t],
      ck_MB = etsiMessage catkdf_cid [[], tr_R1 t, tr_R2 t],
      ck_info = catkdf_info, ck_label = [], ck_length = kl_key CATKDF_LENGTHS\<rparr>"

definition catkdfPublicKey :: "prims \<Rightarrow> buffer \<Rightarrow> bytes res" where
  "catkdfPublicKey P sk =
     bind_res (catkdfHalves P sk) (\<lambda>(scalar, seed). Ok (p384_pub P scalar @ mlkem_pk P seed))"

definition catkdfKeygen :: "prims \<Rightarrow> bytes \<times> bytes \<Rightarrow> bytes option \<Rightarrow> (bytes \<times> bytes) res" where
  "catkdfKeygen P drawn sk =
     (let copy = (case sk of None \<Rightarrow> fst drawn @ snd drawn | Some k \<Rightarrow> k)
      in bind_res (catkdfPublicKey P (Some copy)) (\<lambda>pk. Ok (pk, copy)))"

text \<open>The randomness is the ephemeral scalar and ML-KEM's. The result is ciphertext and key.\<close>

definition catkdfEncapsulate :: "prims \<Rightarrow> buffer \<Rightarrow> bytes \<times> bytes \<Rightarrow> (bytes \<times> bytes) res" where
  "catkdfEncapsulate P pk rnd =
     bind_res (need_bytes pk (kl_publicKey CATKDF_LENGTHS) ''CatKDF public key'') (\<lambda>_.
     bind_res (uncompressedPoint (take p384_point (the pk)) ''CatKDF public key'') (\<lambda>P1.
       let P2 = drop p384_point (the pk);
           ephemeral = fst rnd
       in bind_res (ecdhX P ephemeral P1) (\<lambda>k1.
         let R1 = p384_pub P ephemeral
         in bind_res (opt_res (PlainError ''ML-KEM.encapsulate: wrong publicKey modulus'') (mlkem_encaps P P2 (snd rnd)))
              (\<lambda>(R2, k2). Ok (R1 @ R2, catkdfKey P \<lparr>tr_P1 = P1, tr_P2 = P2, tr_R1 = R1, tr_R2 = R2\<rparr> k1 k2)))))"

definition catkdfDecapsulate :: "prims \<Rightarrow> buffer \<Rightarrow> buffer \<Rightarrow> bytes res" where
  "catkdfDecapsulate P ct sk =
     bind_res (need_bytes ct (kl_cipherText CATKDF_LENGTHS) ''CatKDF ciphertext'') (\<lambda>_.
     bind_res (catkdfHalves P sk) (\<lambda>(scalar, seed).
     bind_res (uncompressedPoint (take p384_point (the ct)) ''CatKDF ciphertext'') (\<lambda>R1.
       let R2 = drop p384_point (the ct);
           P2 = mlkem_pk P seed;
           dk = mlkem_sk P seed;
           P1 = p384_pub P scalar
       in bind_res (ecdhX P scalar R1) (\<lambda>k1.
            Ok (catkdfKey P \<lparr>tr_P1 = P1, tr_P2 = P2, tr_R1 = R1, tr_R2 = R2\<rparr> k1 (mlkem_decaps P R2 dk))))))"

record kem_suite_ops =
  ks_alg :: string
  ks_lengths :: kem_lengths
  ks_publicKey :: "buffer \<Rightarrow> bytes res"
  ks_keygen :: "bytes \<times> bytes \<Rightarrow> bytes option \<Rightarrow> (bytes \<times> bytes) res"
  ks_encapsulate :: "buffer \<Rightarrow> bytes \<times> bytes \<Rightarrow> (bytes \<times> bytes) res"
  ks_decapsulate :: "buffer \<Rightarrow> buffer \<Rightarrow> bytes res"

definition KEM_SUITES :: "prims \<Rightarrow> string \<Rightarrow> kem_suite_ops option" where
  "KEM_SUITES P = [CATKDF_KEM_ALG \<mapsto>
     \<lparr>ks_alg = CATKDF_KEM_ALG,
      ks_lengths = CATKDF_LENGTHS,
      ks_publicKey = catkdfPublicKey P,
      ks_keygen = catkdfKeygen P,
      ks_encapsulate = catkdfEncapsulate P,
      ks_decapsulate = catkdfDecapsulate P\<rparr>]"

subsection \<open>Formatting is injective\<close>

lemma be32_inj:
  assumes "m < 4294967296" "n < 4294967296" and "be32 m = be32 n"
  shows "m = n"
proof -
  have s: "k div 16777216 * 16777216 + k div 65536 mod 256 * 65536 + k div 256 mod 256 * 256 + k mod 256 = k" for k :: nat
  proof -
    have e: "k div 16777216 = k div 256 div 256 div 256" "k div 65536 = k div 256 div 256"
      by (simp_all flip: div_mult2_eq)
    have 1: "k div 256 * 256 + k mod 256 = k" by (rule div_mult_mod_eq)
    have 2: "k div 256 div 256 * 256 + k div 256 mod 256 = k div 256" by (rule div_mult_mod_eq)
    have 3: "k div 256 div 256 div 256 * 256 + k div 256 div 256 mod 256 = k div 256 div 256" by (rule div_mult_mod_eq)
    show ?thesis unfolding e using 1 2 3 by linarith
  qed
  have h: "k div 16777216 mod 256 = k div 16777216" if "k < 4294967296" for k :: nat
    using that by (simp add: less_mult_imp_div_less)
  have "m div 16777216 = n div 16777216" "m div 65536 mod 256 = n div 65536 mod 256"
    "m div 256 mod 256 = n div 256 mod 256" "m mod 256 = n mod 256"
    using assms(3) h [OF assms(1)] h [OF assms(2)] by (simp_all add: be32_def byte_eq_iff)
  then show ?thesis using s [of m] s [of n] by metis
qed

lemma length_be32 [simp]: "length (be32 n) = 4"
  by (simp add: be32_def)

definition short :: "bytes \<Rightarrow> bool" where
  "short v \<longleftrightarrow> length v < 4294967296"

lemma lengthPrefixed_inj:
  "list_all short vs \<Longrightarrow> list_all short ws \<Longrightarrow> lengthPrefixed vs = lengthPrefixed ws \<longleftrightarrow> vs = ws"
proof (induction vs arbitrary: ws)
  case Nil
  then show ?case by (cases ws) (auto simp: lengthPrefixed_def be32_def)
next
  case (Cons v vs)
  show ?case
  proof (cases ws)
    case Nil
    then show ?thesis by (auto simp: lengthPrefixed_def be32_def)
  next
    case ws: (Cons w ws')
    have "lengthPrefixed (v # vs) = lengthPrefixed ws \<longleftrightarrow>
        be32 (length v) = be32 (length w) \<and> v @ lengthPrefixed vs = w @ lengthPrefixed ws'"
      by (simp add: ws lengthPrefixed_def)
    also have "\<dots> \<longleftrightarrow> v = w \<and> lengthPrefixed vs = lengthPrefixed ws'"
    proof
      assume "be32 (length v) = be32 (length w) \<and> v @ lengthPrefixed vs = w @ lengthPrefixed ws'"
      moreover from this have "length v = length w"
        using Cons.prems ws by (intro be32_inj) (auto simp: short_def)
      ultimately show "v = w \<and> lengthPrefixed vs = lengthPrefixed ws'" by simp
    qed auto
    finally show ?thesis using Cons ws by auto
  qed
qed

lemma etsiMessage_inj:
  "list_all short vs \<Longrightarrow> list_all short ws \<Longrightarrow> etsiMessage cid vs = etsiMessage cid ws \<longleftrightarrow> vs = ws"
  by (simp add: etsiMessage_def lengthPrefixed_inj)

subsection \<open>The context commits to the exchange\<close>

definition kem_transcript_bytes :: "transcript \<Rightarrow> bytes" where
  "kem_transcript_bytes t = lengthPrefixed
     [catkdf_info, etsiMessage catkdf_cid [[], tr_P1 t, tr_P2 t], etsiMessage catkdf_cid [[], tr_R1 t, tr_R2 t]]"

definition transcript_sized :: "transcript \<Rightarrow> bool" where
  "transcript_sized t \<longleftrightarrow> length (tr_P1 t) = 97 \<and> length (tr_P2 t) = 1184 \<and> length (tr_R1 t) = 97 \<and> length (tr_R2 t) = 1088"

lemma length_catkdf_info [simp]: "length catkdf_info = 55"
  by (simp add: catkdf_info_def CATKDF_KEM_ALG_def utf8_def utf8_char_def)

lemma catkdfKey_eq:
  "catkdfKey P t k1 k2 = hkdf_sha384 P (k1 @ k2) [] (sha384 P (kem_transcript_bytes t)) 32"
  by (simp add: catkdfKey_def catKdfHkdfSha384_def etsiContextSha384_def kem_transcript_bytes_def)

lemma kem_transcript_inj:
  assumes "transcript_sized t" "transcript_sized u" and "kem_transcript_bytes t = kem_transcript_bytes u"
  shows "t = u"
proof -
  let ?m = "\<lambda>a b. etsiMessage catkdf_cid [[], a, b]"
  have len: "length (?m a b) = 14 + length a + length b" for a b
    by (simp add: etsiMessage_def catkdf_cid_def lengthPrefixed_def)
  have "?m (tr_P1 t) (tr_P2 t) = ?m (tr_P1 u) (tr_P2 u)" "?m (tr_R1 t) (tr_R2 t) = ?m (tr_R1 u) (tr_R2 u)"
    using assms lengthPrefixed_inj by (auto simp: kem_transcript_bytes_def short_def len transcript_sized_def)
  then show ?thesis
    using assms(1,2) by (auto simp: etsiMessage_inj short_def transcript_sized_def)
qed

subsection \<open>Decapsulation\<close>

definition catkdf_usable :: "prims \<Rightarrow> bytes \<Rightarrow> bool" where
  "catkdf_usable P sk \<longleftrightarrow> length sk = 112 \<and> p384_valid P (take 48 sk)"

lemma need_bytes_ok [simp]: "need_bytes (Some b) n what = Inr u \<longleftrightarrow> length b = n"
  by (simp add: need_bytes_def)

lemma need_bytes_unit: "length b = n \<Longrightarrow> need_bytes (Some b) n what = Inr ()"
  by simp

lemma catkdfHalves_ok: "catkdfHalves P (Some sk) = Inr h \<longleftrightarrow> catkdf_usable P sk \<and> h = (take 48 sk, drop 48 sk)"
  by (auto simp: catkdfHalves_def catkdf_usable_def Let_def split: if_splits)

lemma catkdfPublicKey_ok:
  "catkdfPublicKey P (Some sk) = Inr pk \<longleftrightarrow>
   catkdf_usable P sk \<and> pk = p384_pub P (take 48 sk) @ mlkem_pk P (drop 48 sk)"
  by (auto simp: catkdfPublicKey_def catkdfHalves_ok)

lemma uncompressedPoint_ok [simp]: "uncompressedPoint bs what = Inr v \<longleftrightarrow> bs ! 0 = 4 \<and> v = bs"
  by (auto simp: uncompressedPoint_def)

lemma kem_point:
  assumes "kem_laws P" and "p384_valid P d"
  shows "length (p384_pub P d) = 97" "p384_pub P d ! 0 = 4"
proof -
  have l: "length (p384_pub P d) = 97" "hd (p384_pub P d) = 4" using assms by (simp_all add: kem_laws_def)
  then show "length (p384_pub P d) = 97" by simp
  have "p384_pub P d \<noteq> []" using l(1) by auto
  then show "p384_pub P d ! 0 = 4" using l(2) by (simp add: hd_conv_nth)
qed

lemma catkdf_public_length:
  assumes "kem_laws P" and "catkdfPublicKey P (Some sk) = Inr pk"
  shows "length pk = 1281"
proof -
  have "catkdf_usable P sk" and pk: "pk = p384_pub P (take 48 sk) @ mlkem_pk P (drop 48 sk)"
    using assms(2) by (simp_all add: catkdfPublicKey_ok)
  then have "p384_valid P (take 48 sk)" "length (drop 48 sk) = 64" by (simp_all add: catkdf_usable_def)
  then have "length (mlkem_pk P (drop 48 sk)) = 1184" "length (p384_pub P (take 48 sk)) = 97"
    using assms(1) kem_point(1) by (simp_all add: kem_laws_def)
  then show ?thesis by (simp add: pk)
qed

text \<open>Encapsulating to the public key of a usable secret key succeeds, with a ciphertext and
  key of the suite's sizes, and decapsulating gives the same key.\<close>

lemma catkdf_roundtrip:
  assumes P: "kem_laws P" and sk: "catkdf_usable P sk" and e: "p384_valid P e"
    and pk: "catkdfPublicKey P (Some sk) = Inr pk"
  shows "\<exists>c x. catkdfEncapsulate P (Some pk) (e, r) = Inr (c, x) \<and>
    catkdfDecapsulate P (Some c) (Some sk) = Inr x \<and> length c = 1185"
proof -
  define d z where "d = take 48 sk" and "z = drop 48 sk"
  have d: "p384_valid P d" and z: "length z = 64" and skl: "length sk = 112"
    using sk by (simp_all add: d_def z_def catkdf_usable_def)
  have pk': "pk = p384_pub P d @ mlkem_pk P z" using pk by (simp add: catkdfPublicKey_ok d_def z_def)
  note pd = kem_point [OF P d] and pe = kem_point [OF P e]
  have lz: "length (mlkem_pk P z) = 1184" using P z by (simp add: kem_laws_def)
  obtain s where s: "p384_shared P e (p384_pub P d) = Some s" "p384_shared P d (p384_pub P e) = Some s"
    using P d e unfolding kem_laws_def by (metis not_None_eq)
  obtain c k where ck: "mlkem_encaps P (mlkem_pk P z) r = Some (c, k)" "length c = 1088"
      "mlkem_decaps P c (mlkem_sk P z) = k"
    using P z unfolding kem_laws_def by blast
  let ?t = "\<lparr>tr_P1 = p384_pub P d, tr_P2 = mlkem_pk P z, tr_R1 = p384_pub P e, tr_R2 = c\<rparr>"
  have "catkdfEncapsulate P (Some pk) (e, r) = Inr (p384_pub P e @ c, catkdfKey P ?t (drop 1 s) k)"
    using pd lz s ck by (simp add: catkdfEncapsulate_def pk' ecdhX_def Let_def)
  moreover have "catkdfDecapsulate P (Some (p384_pub P e @ c)) (Some sk) = Inr (catkdfKey P ?t (drop 1 s) k)"
    using pe ck s skl d by (auto simp: catkdfDecapsulate_def catkdfHalves_ok ecdhX_def Let_def
        catkdf_usable_def simp flip: d_def z_def)
  ultimately show ?thesis using pe ck by auto
qed

interpretation catkdf: kem_suite
  "\<lambda>sk. catkdfPublicKey P (Some sk)"
  "\<lambda>pk rnd. catkdfEncapsulate P (Some pk) rnd"
  "\<lambda>c sk. catkdfDecapsulate P (Some c) (Some sk)"
  "\<lambda>sk. kem_laws P \<and> catkdf_usable P sk"
  "\<lambda>rnd. p384_valid P (fst rnd)" for P
proof
  fix k p :: bytes and r :: "bytes \<times> bytes"
  assume k: "kem_laws P \<and> catkdf_usable P k"
  then show "\<exists>p. catkdfPublicKey P (Some k) = Inr p" by (simp add: catkdfPublicKey_ok)
  assume "p384_valid P (fst r)" and "catkdfPublicKey P (Some k) = Inr p"
  then show "\<exists>c x. catkdfEncapsulate P (Some p) r = Inr (c, x) \<and> catkdfDecapsulate P (Some c) (Some k) = Inr x"
    using catkdf_roundtrip [of P k "fst r" p "snd r"] k by auto
qed

lemma catkdf_key_length: "kdf_laws P \<Longrightarrow> length (catkdfKey P t k1 k2) = 32"
  by (simp add: catkdfKey_eq)

lemma encapsulate_key_length:
  "kdf_laws P \<Longrightarrow> catkdfEncapsulate P pk r = Inr (c, x) \<Longrightarrow> length x = 32"
  by (auto simp: catkdfEncapsulate_def Let_def catkdf_key_length split: prod.splits)

lemma decapsulate_key_length:
  "kdf_laws P \<Longrightarrow> catkdfDecapsulate P c sk = Inr x \<Longrightarrow> length x = 32"
  by (auto simp: catkdfDecapsulate_def Let_def catkdf_key_length split: prod.splits)

end
