(* ===== verification/Pqc.thy ===== *)
theory Pqc
  imports Kem
begin

text \<open>
  \<open>packages/crypto-core/src/pqc.js\<close>: the format markers, the suites in use, key ids, hybrid
  signatures over text, and the KEM envelope. Every envelope names its format, its algorithm and
  the key it is sealed to, and the three are the associated data of its ciphertext.
\<close>

subsection \<open>The suites in use\<close>

definition FORMAT_VERSION :: int where
  "FORMAT_VERSION = 5"

definition SIGNATURE_ALG :: string where
  "SIGNATURE_ALG = MLDSA65_P384_SIG_ALG"

definition KEM_ALG :: string where
  "KEM_ALG = CATKDF_KEM_ALG"

definition KEM_ENVELOPE_ALG :: string where
  "KEM_ENVELOPE_ALG = KEM_ALG @ ''-A256GCM''"

definition SIGNATURE_SUITE :: "prims \<Rightarrow> sig_suite" where
  "SIGNATURE_SUITE P = the (SIGNATURE_SUITES P SIGNATURE_ALG)"

definition KEM_SUITE :: "prims \<Rightarrow> kem_suite_ops" where
  "KEM_SUITE P = the (KEM_SUITES P KEM_ALG)"

subsection \<open>Formats\<close>

text \<open>\<open>v ?? d\<close>, spelled into a message.\<close>

definition or_else :: "jsval \<Rightarrow> string \<Rightarrow> string" where
  "or_else v d = (if is_nullish v then d else js_str v)"

definition not_an_envelope :: "string \<Rightarrow> js_error" where
  "not_an_envelope what = FormatError (what @ '': not an envelope'')"

definition assertFormat :: "jsval \<Rightarrow> string \<Rightarrow> string \<Rightarrow> unit res" where
  "assertFormat env alg what =
     (if \<not> is_object env then Throw (not_an_envelope what)
      else if js_get env ''v'' \<noteq> JNum FORMAT_VERSION then Throw (FormatError
        (what @ '': format '' @ or_else (js_get env ''v'') ''unversioned'' @ '' is not supported '' @
         ''(this client reads format '' @ int_str FORMAT_VERSION @ ''). It was written by an '' @
         ''older Kryptolog version and cannot be opened.''))
      else if js_get env ''alg'' \<noteq> JStr alg then Throw (FormatError
        (what @ '': unsupported algorithm '' @ or_else (js_get env ''alg'') ''(none)''))
      else Ok ())"

definition formatAad :: "string \<Rightarrow> jsval \<Rightarrow> bytes" where
  "formatAad alg kid = utf8
     (''Kryptolog envelope'' @ nl # ''v='' @ int_str FORMAT_VERSION @ nl # ''alg='' @ alg
      @ (if kid = JUndef then '''' else nl # ''kid='' @ js_str kid))"

subsection \<open>Key ids\<close>

definition KEY_ID_HEX_LENGTH :: nat where
  "KEY_ID_HEX_LENGTH = 32"

definition key_id_domain :: bytes where
  "key_id_domain = utf8
     (''Kryptolog encryption key id v'' @ int_str FORMAT_VERSION @ nl # ''alg='' @ KEM_ALG @ [nl])"

definition encryptionKeyId :: "prims \<Rightarrow> jsval \<Rightarrow> string res" where
  "encryptionKeyId P publicKeyHex =
     bind_res (fromHex publicKeyHex) (\<lambda>key.
       Ok (take KEY_ID_HEX_LENGTH (sha384HexBytes P (key_id_domain @ key))))"

fun isEncryptionKeyId :: "jsval \<Rightarrow> bool" where
  "isEncryptionKeyId (JStr s) = (length s = KEY_ID_HEX_LENGTH \<and> list_all is_lhex s)"
| "isEncryptionKeyId _ = False"

subsection \<open>Keys\<close>

text \<open>WebCrypto's import of a raw AES key takes the three AES sizes.\<close>

definition import_aes :: "bytes \<Rightarrow> bytes res" where
  "import_aes key = (if length key \<in> {16, 24, 32} then Ok key else Throw (PlainError ''DataError''))"

definition importKemKey :: "bytes \<Rightarrow> bytes res" where
  "importKemKey key = import_aes key"

record hex_pair =
  hp_publicKey :: string
  hp_seed :: string

definition generateIdentityKeyPair :: "prims \<Rightarrow> bytes \<times> bytes \<Rightarrow> hex_pair res" where
  "generateIdentityKeyPair P drawn =
     bind_res (ss_keygen (SIGNATURE_SUITE P) drawn None)
       (\<lambda>(pk, sk). Ok \<lparr>hp_publicKey = toHex pk, hp_seed = toHex sk\<rparr>)"

definition generateEncryptionKeyPair :: "prims \<Rightarrow> bytes \<times> bytes \<Rightarrow> hex_pair res" where
  "generateEncryptionKeyPair P drawn =
     bind_res (ks_keygen (KEM_SUITE P) drawn None)
       (\<lambda>(pk, sk). Ok \<lparr>hp_publicKey = toHex pk, hp_seed = toHex sk\<rparr>)"

definition identityPublicKeyOf :: "prims \<Rightarrow> jsval \<Rightarrow> string res" where
  "identityPublicKeyOf P seedHex =
     bind_res (fromHex seedHex) (\<lambda>s. bind_res (ss_publicKey (SIGNATURE_SUITE P) (Some s)) (\<lambda>pk. Ok (toHex pk)))"

definition encryptionPublicKeyOf :: "prims \<Rightarrow> jsval \<Rightarrow> string res" where
  "encryptionPublicKeyOf P seedHex =
     bind_res (fromHex seedHex) (\<lambda>s. bind_res (ks_publicKey (KEM_SUITE P) (Some s)) (\<lambda>pk. Ok (toHex pk)))"

subsection \<open>Signatures\<close>

definition signMessage :: "prims \<Rightarrow> string \<Rightarrow> jsval \<Rightarrow> bytes \<times> bytes \<Rightarrow> string res" where
  "signMessage P msg seedHex rnd =
     bind_res (fromHex seedHex) (\<lambda>sk.
     bind_res (ss_sign (SIGNATURE_SUITE P) (Some (utf8 msg)) (Some sk) (Some []) rnd) (\<lambda>sig. Ok (toB64 sig)))"

text \<open>\<open>try \<dots> catch { return false }\<close>.\<close>

definition or_false :: "bool res \<Rightarrow> bool" where
  "or_false r = (case r of Inl _ \<Rightarrow> False | Inr b \<Rightarrow> b)"

definition verifySignature :: "prims \<Rightarrow> string \<Rightarrow> jsval \<Rightarrow> jsval \<Rightarrow> bool" where
  "verifySignature P msg signatureB64 publicKeyHex = or_false
     (bind_res (fromB64 signatureB64) (\<lambda>sig.
      bind_res (fromHex publicKeyHex) (\<lambda>pk.
        Ok (ss_verify (SIGNATURE_SUITE P) (Some sig) (Some (utf8 msg)) (Some pk) (Some [])))))"

subsection \<open>The KEM envelope\<close>

text \<open>The randomness is the KEM's and the 12-byte iv.\<close>

definition kemSeal :: "prims \<Rightarrow> (bytes \<times> bytes) \<times> bytes \<Rightarrow> bytes \<Rightarrow> jsval \<Rightarrow> string \<Rightarrow> jsval res" where
  "kemSeal P rnd plaintext publicKeyHex field =
     bind_res (encryptionKeyId P publicKeyHex) (\<lambda>kid.
     bind_res (fromHex publicKeyHex) (\<lambda>pk.
     bind_res (ks_encapsulate (KEM_SUITE P) (Some pk) (fst rnd)) (\<lambda>(cipherText, key).
       let iv = snd rnd
       in bind_res (importKemKey key) (\<lambda>k.
         let sealed = aes_seal P k iv (formatAad KEM_ENVELOPE_ALG (JStr kid)) plaintext
         in Ok (JObj (obj_of_list
              [(''v'', JNum FORMAT_VERSION), (''alg'', JStr KEM_ENVELOPE_ALG), (''kid'', JStr kid),
               (''kem'', JStr (toB64 cipherText)), (''iv'', JStr (toB64 iv)), (field, JStr (toB64 sealed))]))))))"

definition kemOpen :: "prims \<Rightarrow> jsval \<Rightarrow> jsval \<Rightarrow> string \<Rightarrow> string \<Rightarrow> bytes res" where
  "kemOpen P env seedHex field what =
     bind_res (assertFormat env KEM_ENVELOPE_ALG what) (\<lambda>_.
     if \<not> isEncryptionKeyId (js_get env ''kid'')
     then Throw (FormatError (what @ '': missing or malformed key id''))
     else
       bind_res (fromB64 (js_get env ''kem'')) (\<lambda>cipherText.
       bind_res (fromHex seedHex) (\<lambda>sk.
       bind_res (ks_decapsulate (KEM_SUITE P) (Some cipherText) (Some sk)) (\<lambda>key.
       bind_res (fromB64 (js_get env ''iv'')) (\<lambda>iv.
       bind_res (importKemKey key) (\<lambda>k.
       bind_res (fromB64 (js_get env field)) (\<lambda>sealed.
         opt_res OperationError
           (aes_open P k iv (formatAad KEM_ENVELOPE_ALG (js_get env ''kid'')) sealed))))))))"

definition encryptMessage :: "prims \<Rightarrow> (bytes \<times> bytes) \<times> bytes \<Rightarrow> string \<Rightarrow> jsval \<Rightarrow> jsval res" where
  "encryptMessage P rnd msg publicKeyHex = kemSeal P rnd (utf8 msg) publicKeyHex ''content''"

definition decryptMessage :: "prims \<Rightarrow> jsval \<Rightarrow> jsval \<Rightarrow> string res" where
  "decryptMessage P encryptedData seedHex =
     bind_res (kemOpen P encryptedData seedHex ''content'' ''KEM envelope'') dec_text"

subsection \<open>Facts\<close>

lemma signature_suite_eq [simp]:
  "SIGNATURE_SUITE P =
     \<lparr>ss_alg = MLDSA65_P384_SIG_ALG, ss_lengths = MLDSA65_P384_LENGTHS, ss_publicKey = mldsa65P384PublicKey P,
      ss_keygen = mldsa65P384Keygen P, ss_sign = mldsa65P384Sign P, ss_verify = mldsa65P384Verify P\<rparr>"
  by (simp add: SIGNATURE_SUITE_def SIGNATURE_SUITES_def SIGNATURE_ALG_def)

lemma kem_suite_eq [simp]:
  "KEM_SUITE P =
     \<lparr>ks_alg = CATKDF_KEM_ALG, ks_lengths = CATKDF_LENGTHS, ks_publicKey = catkdfPublicKey P,
      ks_keygen = catkdfKeygen P, ks_encapsulate = catkdfEncapsulate P, ks_decapsulate = catkdfDecapsulate P\<rparr>"
  by (simp add: KEM_SUITE_def KEM_SUITES_def KEM_ALG_def)

lemma assertFormat_ok [simp]:
  "assertFormat env alg what = Inr u \<longleftrightarrow>
   is_object env \<and> js_get env ''v'' = JNum FORMAT_VERSION \<and> js_get env ''alg'' = JStr alg"
  by (simp add: assertFormat_def)

lemma assertFormat_error:
  assumes "assertFormat env alg what = Inl e"
  shows "\<exists>msg. e = FormatError msg"
  using assms by (auto simp: assertFormat_def not_an_envelope_def split: if_splits)

lemma import_aes_ok [simp]: "import_aes key = Inr k \<longleftrightarrow> length key \<in> {16, 24, 32} \<and> k = key"
  by (auto simp: import_aes_def)

lemma encryptionKeyId_toHex:
  "bs \<noteq> [] \<Longrightarrow> encryptionKeyId P (JStr (toHex bs)) = Inr (take 32 (sha384HexBytes P (key_id_domain @ bs)))"
  using fromHex_toHex [of bs] by (simp add: encryptionKeyId_def KEY_ID_HEX_LENGTH_def del: fromHex.simps)

lemma encryptionKeyId_shape:
  assumes "digest_laws P" and "encryptionKeyId P v = Inr kid"
  shows "isEncryptionKeyId (JStr kid)"
proof -
  obtain m where kid: "kid = take 32 (sha384HexBytes P m)"
    using assms(2) by (auto simp: encryptionKeyId_def KEY_ID_HEX_LENGTH_def)
  have "list_all is_lhex kid"
    using sha384Hex_lhex [of P m] by (simp add: kid list_all_iff) (meson in_set_takeD)
  then show ?thesis
    using length_sha384Hex [OF assms(1)] by (simp add: kid KEY_ID_HEX_LENGTH_def)
qed

lemma isEncryptionKeyId_no_nl: "isEncryptionKeyId (JStr k) \<Longrightarrow> nl \<notin> set k"
  using list_all_no_nl [of is_lhex k] by simp

text \<open>The associated data tells envelopes apart: by algorithm, and by key id.\<close>

lemma formatAad_inj:
  assumes "nl \<notin> set a" "nl \<notin> set b"
  shows "formatAad a (JStr k) = formatAad b (JStr l) \<longleftrightarrow> a = b \<and> k = l"
    and "formatAad a (JStr k) \<noteq> formatAad b JUndef"
  using sep_split [OF assms, of "''kid='' @ k" "''kid='' @ l"] sep_split_end [OF assms, of "''kid='' @ k"]
  by (auto simp: formatAad_def)

text \<open>The object kemSeal builds, for the two field names in use.\<close>

definition kem_envelope :: "prims \<Rightarrow> bytes \<Rightarrow> bytes \<Rightarrow> bytes \<Rightarrow> string \<Rightarrow> string \<Rightarrow> bytes \<Rightarrow> jsval" where
  "kem_envelope P cipherText key iv kid field plaintext = JObj
     [(''v'', JNum FORMAT_VERSION), (''alg'', JStr KEM_ENVELOPE_ALG), (''kid'', JStr kid),
      (''kem'', JStr (toB64 cipherText)), (''iv'', JStr (toB64 iv)),
      (field, JStr (toB64 (aes_seal P key iv (formatAad KEM_ENVELOPE_ALG (JStr kid)) plaintext)))]"

definition payload_field :: "string \<Rightarrow> bool" where
  "payload_field f \<longleftrightarrow> f = ''content'' \<or> f = ''encKey''"

lemma kem_envelope_fields [simp]:
  assumes "payload_field field"
  shows "is_object (kem_envelope P c key iv kid field m)"
    "js_get (kem_envelope P c key iv kid field m) ''v'' = JNum FORMAT_VERSION"
    "js_get (kem_envelope P c key iv kid field m) ''alg'' = JStr KEM_ENVELOPE_ALG"
    "js_get (kem_envelope P c key iv kid field m) ''kid'' = JStr kid"
    "js_get (kem_envelope P c key iv kid field m) ''kem'' = JStr (toB64 c)"
    "js_get (kem_envelope P c key iv kid field m) ''iv'' = JStr (toB64 iv)"
    "js_get (kem_envelope P c key iv kid field m) field =
       JStr (toB64 (aes_seal P key iv (formatAad KEM_ENVELOPE_ALG (JStr kid)) m))"
  using assms by (auto simp: kem_envelope_def payload_field_def)

text \<open>What a client relies on of the primitives for envelopes.\<close>

definition envelope_laws :: "prims \<Rightarrow> bool" where
  "envelope_laws P \<longleftrightarrow> kem_laws P \<and> aead_correct P \<and> kdf_laws P \<and> digest_laws P"

lemma demo_envelope: "envelope_laws demo_prims"
  by (simp add: envelope_laws_def demo_kem demo_aead demo_kdf demo_digest)

lemma kemSeal_ok:
  assumes P: "envelope_laws P" and sk: "catkdf_usable P sk" and e: "p384_valid P (fst (fst rnd))"
    and pk: "catkdfPublicKey P (Some sk) = Inr pk" and f: "payload_field field"
  shows "\<exists>c key kid. kemSeal P rnd m (JStr (toHex pk)) field = Inr (kem_envelope P c key (snd rnd) kid field m) \<and>
    catkdfDecapsulate P (Some c) (Some sk) = Inr key \<and> c \<noteq> [] \<and> length key = 32 \<and>
    encryptionKeyId P (JStr (toHex pk)) = Inr kid"
proof -
  have laws: "kem_laws P" "kdf_laws P" using P by (simp_all add: envelope_laws_def)
  have pkl: "pk \<noteq> []" using catkdf_public_length [OF laws(1) pk] by auto
  obtain kid where kid: "encryptionKeyId P (JStr (toHex pk)) = Inr kid"
    using encryptionKeyId_toHex [OF pkl] by blast
  obtain c key where ck: "catkdfEncapsulate P (Some pk) (fst rnd) = Inr (c, key)"
      "catkdfDecapsulate P (Some c) (Some sk) = Inr key" "length c = 1185"
    using catkdf_roundtrip [OF laws(1) sk e pk, of "snd (fst rnd)"] by auto
  have "length key = 32" using encapsulate_key_length [OF laws(2) ck(1)] .
  moreover have "c \<noteq> []" using ck(3) by auto
  moreover have "kemSeal P rnd m (JStr (toHex pk)) field = Inr (kem_envelope P c key (snd rnd) kid field m)"
    using kid ck(1) f \<open>length key = 32\<close> fromHex_toHex [OF pkl]
    by (auto simp: kemSeal_def importKemKey_def Let_def kem_envelope_def payload_field_def obj_of_list_distinct)
  ultimately show ?thesis using kid ck(2) by blast
qed

lemma kemOpen_envelope:
  assumes key: "catkdfDecapsulate P (Some c) (Some sk) = Inr key" "length key = 32"
    and ne: "c \<noteq> []" "iv \<noteq> []" "sk \<noteq> []" and kid: "isEncryptionKeyId (JStr kid)"
    and P: "aead_correct P" and f: "payload_field field"
  shows "kemOpen P (kem_envelope P c key iv kid field m) (JStr (toHex sk)) field what = Inr m"
  using assms b64.dec_enc fromHex_toHex [OF ne(3)]
  by (simp add: kemOpen_def importKemKey_def)

text \<open>Sealing to a key and opening with its seed gives the plaintext back.\<close>

lemma kem_seal_open:
  assumes P: "envelope_laws P" and sk: "catkdf_usable P sk" and e: "p384_valid P (fst (fst rnd))"
    and pk: "catkdfPublicKey P (Some sk) = Inr pk" and f: "payload_field field" and iv: "snd rnd \<noteq> []"
  shows "\<exists>env. kemSeal P rnd m (JStr (toHex pk)) field = Inr env \<and>
    kemOpen P env (JStr (toHex sk)) field what = Inr m"
proof -
  obtain c key kid where s: "kemSeal P rnd m (JStr (toHex pk)) field = Inr (kem_envelope P c key (snd rnd) kid field m)"
      "catkdfDecapsulate P (Some c) (Some sk) = Inr key" "c \<noteq> []" "length key = 32"
      "encryptionKeyId P (JStr (toHex pk)) = Inr kid"
    using kemSeal_ok [OF P sk e pk f] by blast
  have "sk \<noteq> []" using sk by (auto simp: catkdf_usable_def)
  moreover have "isEncryptionKeyId (JStr kid)"
    using encryptionKeyId_shape [OF _ s(5)] P by (simp add: envelope_laws_def)
  ultimately show ?thesis
    using kemOpen_envelope [OF s(2,4,3) iv] s(1) P f by (auto simp: envelope_laws_def)
qed

text \<open>Rewriting the key id of an envelope makes its tag fail.\<close>

definition with_kid :: "string \<Rightarrow> jsval \<Rightarrow> jsval" where
  "with_kid k env = (case env of JObj kvs \<Rightarrow> JObj (obj_put ''kid'' (JStr k) kvs) | v \<Rightarrow> v)"

lemma with_kid_fields [simp]:
  "is_object env \<Longrightarrow> is_object (with_kid k env)"
  "js_get env ''v'' = v \<Longrightarrow> v \<noteq> JUndef \<Longrightarrow> js_get (with_kid k env) x = (if x = ''kid'' then JStr k else js_get env x)"
  by (cases env; auto simp: with_kid_def)+

lemma KEM_ENVELOPE_ALG_no_nl: "nl \<notin> set KEM_ENVELOPE_ALG"
  by (simp add: KEM_ENVELOPE_ALG_def KEM_ALG_def CATKDF_KEM_ALG_def)

text \<open>Under another key id it opens with no seed at all, neither the key's own nor another's.\<close>

lemma kemOpen_other_kid_any:
  assumes ne: "iv \<noteq> []" and kid: "kid \<noteq> kid'" and f: "payload_field field"
    and P: "aead_correct P" "aead_binding P" "aead_key_binding P"
  shows "\<exists>e. kemOpen P (with_kid kid' (kem_envelope P c key iv kid field m)) seed field what = Inl e"
proof (rule ccontr)
  let ?env = "kem_envelope P c key iv kid field m"
  assume "\<not> ?thesis"
  then obtain x where x: "kemOpen P (with_kid kid' ?env) seed field what = Inr x"
    by (cases "kemOpen P (with_kid kid' ?env) seed field what") auto
  have get: "js_get (with_kid kid' ?env) k = (if k = ''kid'' then JStr kid' else js_get ?env k)" for k
    using f by (intro with_kid_fields(2) [OF kem_envelope_fields(2)]) simp_all
  have fields: "field \<noteq> ''kid''" using f by (auto simp: payload_field_def)
  have "formatAad KEM_ENVELOPE_ALG (JStr kid) \<noteq> formatAad KEM_ENVELOPE_ALG (JStr kid')"
    using kid formatAad_inj(1) [OF KEM_ENVELOPE_ALG_no_nl KEM_ENVELOPE_ALG_no_nl] by simp
  then have "aes_open P k iv (formatAad KEM_ENVELOPE_ALG (JStr kid'))
      (aes_seal P key iv (formatAad KEM_ENVELOPE_ALG (JStr kid)) m) = None" for k
    using P(2,3) by (cases "k = key") (auto simp: aead_binding_def aead_key_binding_def)
  then show False
    using x get fields ne P(1) f b64.dec_enc
    by (auto simp: kemOpen_def importKemKey_def import_aes_def simp del: fromHex.simps fromB64.simps split: if_splits)
qed

text \<open>An envelope that opens carries the current markers and a well-formed key id.\<close>

lemma kemOpen_markers:
  "kemOpen P env seed field what = Inr m \<Longrightarrow>
   is_object env \<and> js_get env ''v'' = JNum FORMAT_VERSION \<and> js_get env ''alg'' = JStr KEM_ENVELOPE_ALG \<and>
   isEncryptionKeyId (js_get env ''kid'')"
  by (simp add: kemOpen_def split: if_splits)

subsection \<open>Signatures over text\<close>

lemma or_false_iff [simp]: "or_false r \<longleftrightarrow> r = Inr True"
  by (cases r) (simp_all add: or_false_def)

lemma verifySignature_iff:
  "verifySignature P msg sig pk \<longleftrightarrow>
     (\<exists>s k. fromB64 sig = Inr s \<and> fromHex pk = Inr k \<and> mldsa65P384Verify P (Some s) (Some (utf8 msg)) (Some k) (Some []))"
  by (simp add: verifySignature_def)

lemma sign_verifies_text:
  assumes P: "signature_laws P" and sk: "composite_usable P sk" and pk: "mldsa65P384PublicKey P (Some sk) = Inr pk"
  shows "\<exists>sig. signMessage P msg (JStr (toHex sk)) rnd = Inr sig \<and>
    verifySignature P msg (JStr sig) (JStr (toHex pk))"
proof -
  obtain s where s: "mldsa65P384Sign P (Some (utf8 msg)) (Some sk) (Some []) rnd = Inr s"
      "mldsa65P384Verify P (Some s) (Some (utf8 msg)) (Some pk) (Some [])"
    using composite.sign_verifies pk P sk by blast
  have ne: "sk \<noteq> []" "pk \<noteq> []" "s \<noteq> []"
    using sk public_key_length [OF P pk] s(2) by (auto simp: composite_usable_def composite_verify_iff)
  then show ?thesis
    using s b64.dec_enc [of s] fromHex_toHex by (simp add: signMessage_def verifySignature_iff)
qed

end
