(* ===== verification/Identity.thy ===== *)
theory Identity
  imports Pqc
begin

text \<open>
  \<open>packages/crypto-core/src/identity.js\<close>: an identity's address is the SHA-384 of its public
  key under a prefix naming the format and the algorithm. A verifier checks the key it was
  given against the address before it verifies anything.
\<close>

definition address_domain :: bytes where
  "address_domain = utf8
     (''Kryptolog address v'' @ int_str FORMAT_VERSION @ nl # ''alg='' @ SIGNATURE_ALG @ [nl])"

definition ADDRESS_HEX_LENGTH :: nat where
  "ADDRESS_HEX_LENGTH = 96"

definition IDENTITY_KEY_HEX_LENGTH :: nat where
  "IDENTITY_KEY_HEX_LENGTH = len_publicKey MLDSA65_P384_LENGTHS * 2"

fun isAddress :: "jsval \<Rightarrow> bool" where
  "isAddress (JStr s) = (length s = ADDRESS_HEX_LENGTH \<and> list_all is_lhex s)"
| "isAddress _ = False"

fun is_identity_key :: "jsval \<Rightarrow> bool" where
  "is_identity_key (JStr s) = (length s = IDENTITY_KEY_HEX_LENGTH \<and> list_all is_lhex s)"
| "is_identity_key _ = False"

definition addressOf :: "prims \<Rightarrow> jsval \<Rightarrow> string res" where
  "addressOf P publicKey =
     (if \<not> is_identity_key publicKey
      then Throw (JsTypeError (''addressOf: an identity public key is '' @ nat_str IDENTITY_KEY_HEX_LENGTH @
        '' lowercase hex characters''))
      else bind_res (fromHex publicKey) (\<lambda>key. Ok (sha384HexBytes P (address_domain @ key))))"

definition isAddressOf :: "prims \<Rightarrow> jsval \<Rightarrow> jsval \<Rightarrow> bool" where
  "isAddressOf P address publicKey \<longleftrightarrow>
     isAddress address \<and> or_false (bind_res (addressOf P publicKey) (\<lambda>a. Ok (JStr a = address)))"

definition verifyIdentitySignature :: "prims \<Rightarrow> jsval \<Rightarrow> jsval \<Rightarrow> string \<Rightarrow> jsval \<Rightarrow> bool" where
  "verifyIdentitySignature P address publicKey msg signature =
     (if \<not> isAddressOf P address publicKey then False
      else or_false
        (bind_res (fromB64 signature) (\<lambda>sig.
         bind_res (fromHex publicKey) (\<lambda>pk.
           Ok (ss_verify (SIGNATURE_SUITE P) (Some sig) (Some (utf8 msg)) (Some pk) (Some []))))))"

subsection \<open>Addresses\<close>

lemma isAddress_no_nl: "isAddress (JStr s) \<Longrightarrow> nl \<notin> set s"
  using list_all_no_nl [of is_lhex s] by simp

lemma isAddress_str: "isAddress v \<Longrightarrow> \<exists>s. v = JStr s \<and> nl \<notin> set s \<and> length s = 96"
  by (cases v) (auto simp: ADDRESS_HEX_LENGTH_def dest: list_all_no_nl)

lemma is_identity_key_bytes:
  assumes "is_identity_key v"
  obtains bs where "v = JStr (toHex bs)" "fromHex v = Inr bs" "length bs = 2049" "bs \<noteq> []"
proof -
  from assms obtain s where s: "v = JStr s" "length s = 4098" "list_all is_lhex s"
    by (cases v) (simp_all add: IDENTITY_KEY_HEX_LENGTH_def)
  have hex: "list_all is_hex s" using s(3) by (simp add: list_all_iff is_hex_def)
  have eq: "toHex (hex_pairs s) = s" using toHex_hex_pairs [OF _ hex] s by simp
  have "s \<noteq> []" using s(2) by auto
  moreover have "length (hex_pairs s) = 2049" using length_toHex [of "hex_pairs s"] s(2) by (simp only: eq)
  moreover have "hex_pairs s \<noteq> []" using calculation(2) by auto
  ultimately show thesis
    using that [of "hex_pairs s"] fromHex_toHex [of "hex_pairs s"] s(1) by (simp add: eq)
qed

lemma identity_key_toHex: "length bs = 2049 \<Longrightarrow> is_identity_key (JStr (toHex bs))"
  by (simp add: IDENTITY_KEY_HEX_LENGTH_def toHex_lhex)

lemma addressOf_key:
  assumes "length bs = 2049"
  shows "addressOf P (JStr (toHex bs)) = Inr (sha384HexBytes P (address_domain @ bs))"
proof -
  have "bs \<noteq> []" using assms by auto
  then show ?thesis
    using identity_key_toHex [OF assms] by (simp add: addressOf_def del: is_identity_key.simps)
qed

lemma addressOf_Ok:
  assumes "addressOf P v = Inr a"
  obtains bs where "v = JStr (toHex bs)" "length bs = 2049" "a = sha384HexBytes P (address_domain @ bs)"
proof -
  have "is_identity_key v" using assms by (simp add: addressOf_def split: if_splits)
  then obtain bs where "v = JStr (toHex bs)" "length bs = 2049" by (rule is_identity_key_bytes)
  then show thesis using that addressOf_key [of bs P] assms by simp
qed

lemma addressOf_isAddress: "digest_laws P \<Longrightarrow> addressOf P v = Inr a \<Longrightarrow> isAddress (JStr a)"
  by (auto elim!: addressOf_Ok simp: ADDRESS_HEX_LENGTH_def length_sha384Hex sha384Hex_lhex)

lemma isAddressOf_iff: "isAddressOf P a v \<longleftrightarrow> isAddress a \<and> (\<exists>s. a = JStr s \<and> addressOf P v = Inr s)"
  by (auto simp: isAddressOf_def)

lemma isAddressOf_addressOf: "digest_laws P \<Longrightarrow> addressOf P v = Inr a \<Longrightarrow> isAddressOf P (JStr a) v"
  using addressOf_isAddress [of P v a] by (simp add: isAddressOf_iff)

text \<open>Two keys with one address are the same key, or an explicit SHA-384 collision.\<close>

definition key_collision :: "prims \<Rightarrow> jsval \<Rightarrow> jsval \<Rightarrow> bool" where
  "key_collision P v w \<longleftrightarrow>
     (\<exists>x y. v = JStr (toHex x) \<and> w = JStr (toHex y) \<and> sha384_collision P (address_domain @ x) (address_domain @ y))"

lemma address_binds_key:
  assumes "isAddressOf P a v" and "isAddressOf P a w"
  shows "v = w \<or> key_collision P v w"
proof -
  obtain s where "addressOf P v = Inr s" "addressOf P w = Inr s"
    using assms by (auto simp: isAddressOf_iff)
  then obtain x y where "v = JStr (toHex x)" "w = JStr (toHex y)"
      "sha384HexBytes P (address_domain @ x) = sha384HexBytes P (address_domain @ y)"
    by (metis addressOf_Ok)
  then show ?thesis
    by (cases "x = y") (auto simp: key_collision_def sha384_collision_def sha384HexBytes_def toHex_inj)
qed

subsection \<open>Verification\<close>

text \<open>A signature verified as an address is a composite signature, both halves, under a key
  that hashes to that address.\<close>

lemma verifyIdentitySignature_iff:
  "verifyIdentitySignature P a v msg sig \<longleftrightarrow>
     isAddressOf P a v \<and>
     (\<exists>s bs. fromB64 sig = Inr s \<and> v = JStr (toHex bs) \<and> length bs = 2049 \<and>
        mldsa65P384Verify P (Some s) (Some (utf8 msg)) (Some bs) (Some []))"
proof (cases "isAddressOf P a v")
  case True
  then obtain bs where bs: "v = JStr (toHex bs)" "length bs = 2049"
    by (auto simp: isAddressOf_iff elim: addressOf_Ok)
  then have "bs \<noteq> []" by auto
  then show ?thesis
    using True bs by (auto simp: verifyIdentitySignature_def toHex_inj)
qed (simp add: verifyIdentitySignature_def)

definition own_identity :: "prims \<Rightarrow> bytes \<Rightarrow> bytes \<Rightarrow> string \<Rightarrow> bool" where
  "own_identity P sk pk a \<longleftrightarrow>
     composite_usable P sk \<and> mldsa65P384PublicKey P (Some sk) = Inr pk \<and> addressOf P (JStr (toHex pk)) = Inr a"

lemma own_signature_verifies:
  assumes P: "signature_laws P" "digest_laws P" and own: "own_identity P sk pk a"
  shows "\<exists>sig. signMessage P msg (JStr (toHex sk)) rnd = Inr sig \<and>
    verifyIdentitySignature P (JStr a) (JStr (toHex pk)) msg (JStr sig)"
proof -
  have sk: "composite_usable P sk" "mldsa65P384PublicKey P (Some sk) = Inr pk" "addressOf P (JStr (toHex pk)) = Inr a"
    using own by (simp_all add: own_identity_def)
  obtain sig where sig: "signMessage P msg (JStr (toHex sk)) rnd = Inr sig"
      "verifySignature P msg (JStr sig) (JStr (toHex pk))"
    using sign_verifies_text [OF P(1) sk(1,2)] by blast
  have len: "length pk = 2049" using public_key_length [OF P(1) sk(2)] .
  then have "pk \<noteq> []" by auto
  then show ?thesis
    using sig len isAddressOf_addressOf [OF P(2) sk(3)]
    by (auto simp: verifySignature_iff verifyIdentitySignature_iff toHex_inj)
qed

lemma own_identity_exists:
  assumes "signature_laws P" and "composite_usable P sk"
  shows "\<exists>pk a. own_identity P sk pk a"
proof -
  obtain pk where pk: "mldsa65P384PublicKey P (Some sk) = Inr pk"
    using assms composite.public_ok by blast
  then show ?thesis
    using addressOf_key [OF public_key_length [OF assms(1) pk]] assms by (auto simp: own_identity_def)
qed

end
