(* ===== verification/Account.thy ===== *)
theory Account
  imports Identity
begin

text \<open>
  \<open>packages/crypto-core/src/account.js\<close>: what a vault holds for one identity. A stored account
  is untrusted data; \<open>parseAccount\<close> derives everything again from the seeds and refuses what
  disagrees. Rotation retires the current encryption key, which stays to read with.
\<close>

subsection \<open>Accounts\<close>

record enc_key =
  ek_alg :: string
  ek_kid :: string
  ek_seed :: string
  ek_publicKey :: string
  ek_createdAt :: int

record retired_key = enc_key +
  rk_retiredAt :: int

record account =
  acc_id :: string
  acc_name :: string
  acc_createdAt :: int
  acc_identity :: hex_pair
  acc_encryption :: enc_key
  acc_retired :: "retired_key list"

definition MAX_RETIRED_ENCRYPTION_KEYS :: nat where
  "MAX_RETIRED_ENCRYPTION_KEYS = 32"

definition LEGACY_FIELDS :: "string list" where
  "LEGACY_FIELDS = [''mldsa'', ''mlkem'', ''dilithium'', ''kyber'']"

definition seed_pattern :: "nat \<Rightarrow> string \<Rightarrow> bool" where
  "seed_pattern secretKeyLength s \<longleftrightarrow> length s = secretKeyLength * 2 \<and> list_all is_lhex s"

definition identity_seed_re :: "string \<Rightarrow> bool" where
  "identity_seed_re = seed_pattern (len_secretKey MLDSA65_P384_LENGTHS)"

definition encryption_seed_re :: "string \<Rightarrow> bool" where
  "encryption_seed_re = seed_pattern (kl_secretKey CATKDF_LENGTHS)"

definition encryptionRecord :: "prims \<Rightarrow> hex_pair \<Rightarrow> int \<Rightarrow> enc_key res" where
  "encryptionRecord P pair createdAt =
     bind_res (encryptionKeyId P (JStr (hp_publicKey pair))) (\<lambda>kid.
       Ok \<lparr>ek_alg = KEM_ALG, ek_kid = kid, ek_seed = hp_seed pair, ek_publicKey = hp_publicKey pair, ek_createdAt = createdAt\<rparr>)"

text \<open>The drawn bytes are the identity's two halves and the encryption key's two halves.\<close>

definition generateAccount :: "prims \<Rightarrow> (bytes \<times> bytes) \<times> (bytes \<times> bytes) \<Rightarrow> int \<Rightarrow> string \<Rightarrow> account res" where
  "generateAccount P drawn now name =
     bind_res (generateIdentityKeyPair P (fst drawn)) (\<lambda>identity.
     bind_res (addressOf P (JStr (hp_publicKey identity))) (\<lambda>aid.
     bind_res (generateEncryptionKeyPair P (snd drawn)) (\<lambda>pair.
     bind_res (encryptionRecord P pair now) (\<lambda>enc.
       Ok \<lparr>acc_id = aid, acc_name = name, acc_createdAt = now, acc_identity = identity,
           acc_encryption = enc, acc_retired = []\<rparr>))))"

subsection \<open>Validation\<close>

definition or_default :: "jsval \<Rightarrow> jsval \<Rightarrow> jsval" where
  "or_default v d = (if is_nullish v then d else v)"

text \<open>\<open>Number.isFinite(v) ? v : d\<close>.\<close>

definition finite_or :: "jsval \<Rightarrow> int \<Rightarrow> int" where
  "finite_or v d = (case v of JNum n \<Rightarrow> n | _ \<Rightarrow> d)"

definition str_or_empty :: "jsval \<Rightarrow> string" where
  "str_or_empty v = (case v of JStr s \<Rightarrow> s | _ \<Rightarrow> [])"

definition array_of :: "jsval \<Rightarrow> jsval list option" where
  "array_of v = (case v of JArr vs \<Rightarrow> Some vs | _ \<Rightarrow> None)"

text \<open>The pattern is tested on the seed's string; deriving from a seed that is not a string
  throws, so the returned seed is one.\<close>

definition checkPair :: "jsval \<Rightarrow> string \<Rightarrow> (string \<Rightarrow> bool) \<Rightarrow> (jsval \<Rightarrow> string res) \<Rightarrow> hex_pair res" where
  "checkPair half what pattern derive =
     (if \<not> is_object half \<or> \<not> pattern (js_str (or_default (js_get half ''seed'') (JStr [])))
      then Throw (FormatError (''account: missing or malformed '' @ what @ '' seed''))
      else
        bind_res (derive (js_get half ''seed'')) (\<lambda>publicKey.
          if js_get half ''publicKey'' \<noteq> JUndef \<and> js_get half ''publicKey'' \<noteq> JStr publicKey
          then Throw (FormatError (''account: the stored '' @ what @ '' public key is not its seed's''))
          else Ok \<lparr>hp_publicKey = publicKey, hp_seed = js_str (js_get half ''seed'')\<rparr>))"

definition checkEncryptionKey :: "prims \<Rightarrow> jsval \<Rightarrow> string \<Rightarrow> enc_key res" where
  "checkEncryptionKey P r what =
     bind_res (checkPair r what encryption_seed_re (encryptionPublicKeyOf P)) (\<lambda>pair.
       if js_get r ''alg'' \<noteq> JStr KEM_ALG
       then Throw (FormatError (''account: '' @ what @ '' is not a '' @ KEM_ALG @ '' key''))
       else
         bind_res (encryptionKeyId P (JStr (hp_publicKey pair))) (\<lambda>kid.
           if js_get r ''kid'' \<noteq> JUndef \<and> js_get r ''kid'' \<noteq> JStr kid
           then Throw (FormatError (''account: the stored '' @ what @ '' id is not its key's''))
           else Ok \<lparr>ek_alg = KEM_ALG, ek_kid = kid, ek_seed = hp_seed pair, ek_publicKey = hp_publicKey pair,
                    ek_createdAt = finite_or (js_get r ''createdAt'') 0\<rparr>))"

definition OLDER :: "string \<Rightarrow> js_error" where
  "OLDER what = FormatError
     (''This identity was created by an older Kryptolog version ('' @ what @ '') and cannot be used by this one.'')"

definition retire :: "enc_key \<Rightarrow> int \<Rightarrow> retired_key" where
  "retire k at =
     \<lparr>ek_alg = ek_alg k, ek_kid = ek_kid k, ek_seed = ek_seed k, ek_publicKey = ek_publicKey k,
      ek_createdAt = ek_createdAt k, rk_retiredAt = at\<rparr>"

fun check_retired :: "prims \<Rightarrow> string list \<Rightarrow> jsval list \<Rightarrow> retired_key list res" where
  "check_retired P kids [] = Ok []"
| "check_retired P kids (r # rs) =
     bind_res (checkEncryptionKey P r ''retired encryption key'') (\<lambda>key.
       if ek_kid key \<in> set kids then Throw (FormatError ''account: an encryption key appears twice'')
       else bind_res (check_retired P (ek_kid key # kids) rs) (\<lambda>keys.
         Ok (retire key (finite_or (js_get r ''retiredAt'') 0) # keys)))"

definition parseAccount :: "prims \<Rightarrow> int \<Rightarrow> jsval \<Rightarrow> account res" where
  "parseAccount P now v =
     (if \<not> is_object v then Throw (FormatError ''account: not an account'')
      else if list_ex (js_has v) LEGACY_FIELDS then Throw (OLDER ''ML-DSA-44 / ML-KEM-768 keys'')
      else if is_object (js_get v ''encryption'') \<and> \<not> js_has (js_get v ''encryption'') ''alg''
      then Throw (OLDER ''ML-DSA-65 + Ed25519 / X-Wing keys'')
      else
        bind_res (checkPair (js_get v ''identity'') ''identity'' identity_seed_re (identityPublicKeyOf P)) (\<lambda>identity.
        bind_res (checkEncryptionKey P (js_get v ''encryption'') ''encryption key'') (\<lambda>enc.
          case array_of (or_default (js_get v ''retiredEncryption'') (JArr [])) of
            None \<Rightarrow> Throw (FormatError ''account: malformed list of retired encryption keys'')
          | Some rs \<Rightarrow>
              if MAX_RETIRED_ENCRYPTION_KEYS < length rs
              then Throw (FormatError ''account: malformed list of retired encryption keys'')
              else
                bind_res (check_retired P [ek_kid enc] rs) (\<lambda>retired.
                bind_res (addressOf P (JStr (hp_publicKey identity))) (\<lambda>aid.
                  if js_get v ''id'' \<noteq> JUndef \<and> js_get v ''id'' \<noteq> JStr aid
                  then Throw (FormatError ''account: the stored id is not its identity key's address'')
                  else Ok \<lparr>acc_id = aid,
                           acc_name = str_or_empty (js_get v ''name''),
                           acc_createdAt = finite_or (js_get v ''createdAt'') now,
                           acc_identity = identity, acc_encryption = enc, acc_retired = retired\<rparr>)))))"

subsection \<open>Keys by id\<close>

definition account_keys :: "account \<Rightarrow> enc_key list" where
  "account_keys a = acc_encryption a # map enc_key.truncate (acc_retired a)"

definition encryptionKeyFor :: "account \<Rightarrow> jsval \<Rightarrow> enc_key option" where
  "encryptionKeyFor a kid = find (\<lambda>key. JStr (ek_kid key) = kid) (account_keys a)"

definition missing_key :: "jsval \<Rightarrow> js_error" where
  "missing_key kid = MissingKeyError
     (''This was encrypted to a key ('' @ or_else kid ''(none)'' @ '') this account no longer holds.'')"

definition encryptionSeedFor :: "account \<Rightarrow> jsval \<Rightarrow> string res" where
  "encryptionSeedFor a env =
     (case encryptionKeyFor a (js_get env ''kid'') of
        None \<Rightarrow> Throw (missing_key (js_get env ''kid''))
      | Some key \<Rightarrow> Ok (ek_seed key))"

subsection \<open>Rotation\<close>

text \<open>\<open>clock\<close> is the time parsing defaults to; \<open>now\<close> is the operation's own argument.\<close>

definition rotateAccountEncryptionKey :: "prims \<Rightarrow> int \<Rightarrow> bytes \<times> bytes \<Rightarrow> jsval \<Rightarrow> int \<Rightarrow> account res" where
  "rotateAccountEncryptionKey P clock drawn v now =
     bind_res (parseAccount P clock v) (\<lambda>current.
       if MAX_RETIRED_ENCRYPTION_KEYS \<le> length (acc_retired current)
       then Throw (FormatError
         (''This identity already keeps '' @ nat_str MAX_RETIRED_ENCRYPTION_KEYS @ '' retired encryption keys; '' @
          ''destroy one before rotating again.''))
       else
         bind_res (generateEncryptionKeyPair P drawn) (\<lambda>pair.
         bind_res (encryptionRecord P pair now) (\<lambda>enc.
           Ok (current\<lparr>acc_encryption := enc,
                       acc_retired := retire (acc_encryption current) now # acc_retired current\<rparr>))))"

definition destroyRetiredEncryptionKey :: "prims \<Rightarrow> int \<Rightarrow> jsval \<Rightarrow> string \<Rightarrow> account res" where
  "destroyRetiredEncryptionKey P clock v kid =
     bind_res (parseAccount P clock v) (\<lambda>current.
       if ek_kid (acc_encryption current) = kid
       then Throw (FormatError ''The current encryption key cannot be destroyed.'')
       else if \<not> list_ex (\<lambda>key. ek_kid key = kid) (acc_retired current)
       then Throw (FormatError (''No retired encryption key '' @ kid @ '' on this identity.''))
       else Ok (current\<lparr>acc_retired := filter (\<lambda>key. ek_kid key \<noteq> kid) (acc_retired current)\<rparr>))"

definition revertAccountEncryptionKeyRotation :: "prims \<Rightarrow> int \<Rightarrow> jsval \<Rightarrow> string \<Rightarrow> int \<Rightarrow> account res" where
  "revertAccountEncryptionKeyRotation P clock v newKid now =
     bind_res (parseAccount P clock v) (\<lambda>current.
       case acc_retired current of
         previous # older \<Rightarrow>
           if ek_kid (acc_encryption current) \<noteq> newKid
           then Throw (FormatError ''There is no rotation to undo for this key.'')
           else Ok (current\<lparr>acc_encryption := enc_key.truncate previous,
                            acc_retired := retire (acc_encryption current) now # older\<rparr>)
       | [] \<Rightarrow> Throw (FormatError ''There is no rotation to undo for this key.''))"

subsection \<open>Accounts as stored\<close>

definition enc_key_fields :: "'a enc_key_scheme \<Rightarrow> (string \<times> jsval) list" where
  "enc_key_fields k =
     [(''alg'', JStr (ek_alg k)), (''kid'', JStr (ek_kid k)), (''seed'', JStr (ek_seed k)),
      (''publicKey'', JStr (ek_publicKey k)), (''createdAt'', JNum (ek_createdAt k))]"

definition retired_js :: "retired_key \<Rightarrow> jsval" where
  "retired_js k = JObj (enc_key_fields k @ [(''retiredAt'', JNum (rk_retiredAt k))])"

definition account_js :: "account \<Rightarrow> jsval" where
  "account_js a = JObj
     [(''id'', JStr (acc_id a)), (''name'', JStr (acc_name a)), (''createdAt'', JNum (acc_createdAt a)),
      (''identity'', JObj [(''seed'', JStr (hp_seed (acc_identity a))), (''publicKey'', JStr (hp_publicKey (acc_identity a)))]),
      (''encryption'', JObj (enc_key_fields (acc_encryption a))),
      (''retiredEncryption'', JArr (map retired_js (acc_retired a)))]"

subsection \<open>The invariant\<close>

definition key_ok :: "prims \<Rightarrow> 'a enc_key_scheme \<Rightarrow> bool" where
  "key_ok P k \<longleftrightarrow>
     ek_alg k = KEM_ALG \<and> encryption_seed_re (ek_seed k) \<and>
     encryptionPublicKeyOf P (JStr (ek_seed k)) = Inr (ek_publicKey k) \<and>
     encryptionKeyId P (JStr (ek_publicKey k)) = Inr (ek_kid k)"

definition account_kids :: "account \<Rightarrow> string list" where
  "account_kids a = ek_kid (acc_encryption a) # map ek_kid (acc_retired a)"

definition account_ok :: "prims \<Rightarrow> account \<Rightarrow> bool" where
  "account_ok P a \<longleftrightarrow>
     identity_seed_re (hp_seed (acc_identity a)) \<and>
     identityPublicKeyOf P (JStr (hp_seed (acc_identity a))) = Inr (hp_publicKey (acc_identity a)) \<and>
     addressOf P (JStr (hp_publicKey (acc_identity a))) = Inr (acc_id a) \<and>
     key_ok P (acc_encryption a) \<and> list_all (key_ok P) (acc_retired a) \<and>
     distinct (account_kids a) \<and> length (acc_retired a) \<le> MAX_RETIRED_ENCRYPTION_KEYS"

lemma key_ok_retire [simp]: "key_ok P (retire k t) \<longleftrightarrow> key_ok P k"
  by (simp add: key_ok_def retire_def)

lemma key_ok_truncate [simp]: "key_ok P (enc_key.truncate k) \<longleftrightarrow> key_ok P k"
  by (simp add: key_ok_def enc_key.defs)

lemma retire_fields [simp]:
  "ek_kid (retire k t) = ek_kid k" "ek_seed (retire k t) = ek_seed k" "rk_retiredAt (retire k t) = t"
  "enc_key.truncate (retire k t) = k" "enc_key.truncate (k :: enc_key) = k"
  by (simp_all add: retire_def enc_key.defs)

lemma truncate_kid [simp]: "ek_kid (enc_key.truncate k) = ek_kid k" "ek_seed (enc_key.truncate k) = ek_seed k"
  by (simp_all add: enc_key.defs)

lemma kids_of_keys: "map ek_kid (account_keys a) = account_kids a"
  by (simp add: account_keys_def account_kids_def comp_def)

subsection \<open>Parsing establishes the invariant\<close>

lemma derive_from_string:
  "identityPublicKeyOf P v = Inr pk \<Longrightarrow> \<exists>s. v = JStr s"
  "encryptionPublicKeyOf P v = Inr pk \<Longrightarrow> \<exists>s. v = JStr s"
  by (auto simp: identityPublicKeyOf_def encryptionPublicKeyOf_def elim: fromHex_Ok)

lemma checkPair_ok:
  assumes "checkPair half what pat derive = Inr p" and "\<And>v pk. derive v = Inr pk \<Longrightarrow> \<exists>s. v = JStr s"
  shows "is_object half" "js_get half ''seed'' = JStr (hp_seed p)" "pat (hp_seed p)"
    "derive (JStr (hp_seed p)) = Inr (hp_publicKey p)"
proof -
  obtain pk where d: "is_object half" "pat (js_str (or_default (js_get half ''seed'') (JStr [])))"
      "derive (js_get half ''seed'') = Inr pk" "p = \<lparr>hp_publicKey = pk, hp_seed = js_str (js_get half ''seed'')\<rparr>"
    using assms(1) by (auto simp: checkPair_def split: if_splits)
  moreover obtain s where "js_get half ''seed'' = JStr s" using assms(2) [OF d(3)] by blast
  ultimately show "is_object half" "js_get half ''seed'' = JStr (hp_seed p)" "pat (hp_seed p)"
    "derive (JStr (hp_seed p)) = Inr (hp_publicKey p)"
    by (simp_all add: or_default_def)
qed

lemma checkPair_intro:
  assumes "is_object half" "js_get half ''seed'' = JStr s" "pat s" "derive (JStr s) = Inr pk" "js_get half ''publicKey'' = JStr pk"
  shows "checkPair half what pat derive = Inr \<lparr>hp_publicKey = pk, hp_seed = s\<rparr>"
  using assms by (simp add: checkPair_def or_default_def)

lemma checkEncryptionKey_ok:
  assumes "checkEncryptionKey P r what = Inr k"
  shows "key_ok P k" "is_object r" "js_get r ''alg'' = JStr KEM_ALG"
proof -
  obtain pair kid where c: "checkPair r what encryption_seed_re (encryptionPublicKeyOf P) = Inr pair"
      "js_get r ''alg'' = JStr KEM_ALG" "encryptionKeyId P (JStr (hp_publicKey pair)) = Inr kid"
      "k = \<lparr>ek_alg = KEM_ALG, ek_kid = kid, ek_seed = hp_seed pair, ek_publicKey = hp_publicKey pair,
            ek_createdAt = finite_or (js_get r ''createdAt'') 0\<rparr>"
    using assms by (auto simp: checkEncryptionKey_def split: if_splits)
  then show "key_ok P k" "is_object r" "js_get r ''alg'' = JStr KEM_ALG"
    using checkPair_ok [OF c(1) derive_from_string(2)] by (simp_all add: key_ok_def)
qed

lemma check_retired_ok:
  "check_retired P kids rs = Inr keys \<Longrightarrow>
   list_all (key_ok P) keys \<and> length keys = length rs \<and> distinct (map ek_kid keys) \<and> set kids \<inter> ek_kid ` set keys = {}"
proof (induction P kids rs arbitrary: keys rule: check_retired.induct)
  case (2 P kids r rs)
  then obtain k ks where k: "checkEncryptionKey P r ''retired encryption key'' = Inr k" "ek_kid k \<notin> set kids"
      "check_retired P (ek_kid k # kids) rs = Inr ks" "keys = retire k (finite_or (js_get r ''retiredAt'') 0) # ks"
    by (auto split: if_splits)
  then show ?case using "2.IH" [OF k(2,3)] checkEncryptionKey_ok(1) [OF k(1)] by auto
qed simp

lemma parse_ok:
  assumes "parseAccount P now v = Inr a"
  shows "account_ok P a"
proof -
  obtain identity enc rs retired aid where c:
      "checkPair (js_get v ''identity'') ''identity'' identity_seed_re (identityPublicKeyOf P) = Inr identity"
      "checkEncryptionKey P (js_get v ''encryption'') ''encryption key'' = Inr enc"
      "length rs \<le> MAX_RETIRED_ENCRYPTION_KEYS" "check_retired P [ek_kid enc] rs = Inr retired"
      "addressOf P (JStr (hp_publicKey identity)) = Inr aid"
      "acc_id a = aid" "acc_identity a = identity" "acc_encryption a = enc" "acc_retired a = retired"
    using assms by (auto simp: parseAccount_def not_less split: if_splits option.splits)
  then show ?thesis
    using checkPair_ok [OF c(1) derive_from_string(1)] checkEncryptionKey_ok(1) [OF c(2)] check_retired_ok [OF c(4)]
    by (simp add: account_ok_def account_kids_def)
qed

text \<open>An account the code built parses back to itself, whatever the clock.\<close>

lemma checkEncryptionKey_js:
  assumes "key_ok P k" and "is_object r" and "\<And>f v. (f, v) \<in> set (enc_key_fields k) \<Longrightarrow> js_get r f = v"
  shows "checkEncryptionKey P r what = Inr (enc_key.truncate k)"
proof -
  have g: "js_get r ''seed'' = JStr (ek_seed k)" "js_get r ''publicKey'' = JStr (ek_publicKey k)"
    "js_get r ''alg'' = JStr (ek_alg k)" "js_get r ''kid'' = JStr (ek_kid k)" "js_get r ''createdAt'' = JNum (ek_createdAt k)"
    by (rule assms(3), simp add: enc_key_fields_def)+
  have "checkPair r what encryption_seed_re (encryptionPublicKeyOf P) = Inr \<lparr>hp_publicKey = ek_publicKey k, hp_seed = ek_seed k\<rparr>"
    using assms(1,2) g by (intro checkPair_intro) (simp_all add: key_ok_def)
  then show ?thesis
    using assms(1) g by (simp add: checkEncryptionKey_def key_ok_def finite_or_def enc_key.defs)
qed

lemma check_retired_js:
  "list_all (key_ok P) ks \<Longrightarrow> distinct (map ek_kid ks) \<Longrightarrow> set kids \<inter> ek_kid ` set ks = {} \<Longrightarrow>
   check_retired P kids (map retired_js ks) = Inr ks"
proof (induction ks arbitrary: kids)
  case (Cons k ks)
  have "checkEncryptionKey P (retired_js k) ''retired encryption key'' = Inr (enc_key.truncate k)"
    using Cons.prems by (intro checkEncryptionKey_js) (auto simp: retired_js_def enc_key_fields_def)
  moreover have "js_get (retired_js k) ''retiredAt'' = JNum (rk_retiredAt k)"
    by (simp add: retired_js_def enc_key_fields_def)
  moreover have "retire (enc_key.truncate k) (rk_retiredAt k) = k"
    by (simp add: retire_def enc_key.defs)
  moreover have "check_retired P (ek_kid k # kids) (map retired_js ks) = Inr ks"
    using Cons.prems by (intro Cons.IH) auto
  ultimately show ?case using Cons.prems by (auto simp: finite_or_def)
qed simp

lemma account_js_fields [simp]:
  "is_object (account_js a)"
  "js_get (account_js a) ''id'' = JStr (acc_id a)"
  "js_get (account_js a) ''name'' = JStr (acc_name a)"
  "js_get (account_js a) ''createdAt'' = JNum (acc_createdAt a)"
  "js_get (account_js a) ''identity'' =
     JObj [(''seed'', JStr (hp_seed (acc_identity a))), (''publicKey'', JStr (hp_publicKey (acc_identity a)))]"
  "js_get (account_js a) ''encryption'' = JObj (enc_key_fields (acc_encryption a))"
  "js_get (account_js a) ''retiredEncryption'' = JArr (map retired_js (acc_retired a))"
  "\<not> list_ex (js_has (account_js a)) LEGACY_FIELDS"
  by (simp_all add: account_js_def LEGACY_FIELDS_def)

lemma parse_account_js:
  assumes "account_ok P a"
  shows "parseAccount P now (account_js a) = Inr a"
proof -
  have ok: "key_ok P (acc_encryption a)" "list_all (key_ok P) (acc_retired a)" "distinct (map ek_kid (acc_retired a))"
    "set [ek_kid (acc_encryption a)] \<inter> ek_kid ` set (acc_retired a) = {}"
    using assms by (auto simp: account_ok_def account_kids_def)
  have "checkPair (js_get (account_js a) ''identity'') ''identity'' identity_seed_re (identityPublicKeyOf P) =
      Inr \<lparr>hp_publicKey = hp_publicKey (acc_identity a), hp_seed = hp_seed (acc_identity a)\<rparr>"
    using assms by (intro checkPair_intro) (simp_all add: account_ok_def)
  moreover have "checkEncryptionKey P (js_get (account_js a) ''encryption'') ''encryption key'' = Inr (acc_encryption a)"
  proof -
    have "checkEncryptionKey P (js_get (account_js a) ''encryption'') ''encryption key'' = Inr (enc_key.truncate (acc_encryption a))"
      by (rule checkEncryptionKey_js [OF ok(1)]) (auto simp: enc_key_fields_def)
    then show ?thesis by (simp only: retire_fields)
  qed
  moreover have "check_retired P [ek_kid (acc_encryption a)] (map retired_js (acc_retired a)) = Inr (acc_retired a)"
    by (rule check_retired_js [OF ok(2,3,4)])
  moreover have "js_has (JObj (enc_key_fields (acc_encryption a))) ''alg''"
    by (simp add: enc_key_fields_def)
  ultimately show ?thesis
    using assms by (simp add: parseAccount_def account_ok_def or_default_def finite_or_def array_of_def str_or_empty_def)
qed

subsection \<open>Keys by id\<close>

lemma find_distinct:
  "distinct (map f xs) \<Longrightarrow> find (\<lambda>x. f x = k) xs = Some x \<longleftrightarrow> x \<in> set xs \<and> f x = k"
  by (induction xs) auto

lemma encryptionKeyFor_iff:
  assumes "account_ok P a"
  shows "encryptionKeyFor a (JStr kid) = Some k \<longleftrightarrow> k \<in> set (account_keys a) \<and> ek_kid k = kid"
  using find_distinct [of ek_kid "account_keys a" kid k] assms
  by (simp add: encryptionKeyFor_def kids_of_keys account_ok_def)

lemma encryptionKeyFor_None: "encryptionKeyFor a (JStr kid) = None \<longleftrightarrow> kid \<notin> set (account_kids a)"
  by (auto simp: encryptionKeyFor_def find_None_iff kids_of_keys [symmetric])

lemma encryptionKeyFor_no_string: "the_str v = None \<Longrightarrow> encryptionKeyFor a v = None"
  by (auto simp: encryptionKeyFor_def find_None_iff)

lemma encryptionSeedFor_ok:
  "account_ok P a \<Longrightarrow> encryptionSeedFor a env = Inr s \<longleftrightarrow>
   (\<exists>k\<in>set (account_keys a). js_get env ''kid'' = JStr (ek_kid k) \<and> s = ek_seed k)"
proof (cases "js_get env ''kid''")
  case (JStr kid)
  assume a: "account_ok P a"
  have "encryptionSeedFor a env = Inr s \<longleftrightarrow> (\<exists>k. encryptionKeyFor a (JStr kid) = Some k \<and> s = ek_seed k)"
    by (auto simp: encryptionSeedFor_def JStr split: option.splits)
  then show ?thesis using JStr encryptionKeyFor_iff [OF a, of kid] by auto
qed (simp_all add: encryptionSeedFor_def encryptionKeyFor_no_string)

lemma encryptionSeedFor_missing:
  "js_get env ''kid'' = JStr kid \<Longrightarrow> kid \<notin> set (account_kids a) \<Longrightarrow>
   encryptionSeedFor a env = Inl (missing_key (JStr kid))"
  using encryptionKeyFor_None [of a kid] by (simp add: encryptionSeedFor_def)

subsection \<open>New accounts\<close>

lemma catkdf_drawn:
  assumes P: "envelope_laws P" and d: "length (fst drawn) = 48" "p384_valid P (fst drawn)" "length (snd drawn) = 64"
  shows "\<exists>pair kid. generateEncryptionKeyPair P drawn = Inr pair \<and> encryption_seed_re (hp_seed pair) \<and>
    encryptionPublicKeyOf P (JStr (hp_seed pair)) = Inr (hp_publicKey pair) \<and>
    encryptionKeyId P (JStr (hp_publicKey pair)) = Inr kid"
proof -
  let ?sk = "fst drawn @ snd drawn"
  have sk: "catkdf_usable P ?sk" using d by (simp add: catkdf_usable_def)
  then obtain pk where pk: "catkdfPublicKey P (Some ?sk) = Inr pk" by (simp add: catkdfPublicKey_ok)
  have ne: "pk \<noteq> []" "?sk \<noteq> []"
    using catkdf_public_length [OF _ pk] P d by (auto simp: envelope_laws_def)
  have "encryption_seed_re (toHex ?sk)"
    using d by (simp add: encryption_seed_re_def seed_pattern_def toHex_lhex)
  then show ?thesis
    using pk ne encryptionKeyId_toHex [OF ne(1), of P]
    by (simp add: generateEncryptionKeyPair_def catkdfKeygen_def encryptionPublicKeyOf_def Let_def)
qed

lemma identity_drawn:
  assumes P: "signature_laws P" and d: "length (fst drawn) = 32" "length (snd drawn) = 48" "p384_valid P (snd drawn)"
  shows "\<exists>pair a. generateIdentityKeyPair P drawn = Inr pair \<and> identity_seed_re (hp_seed pair) \<and>
    identityPublicKeyOf P (JStr (hp_seed pair)) = Inr (hp_publicKey pair) \<and> addressOf P (JStr (hp_publicKey pair)) = Inr a"
proof -
  let ?sk = "fst drawn @ snd drawn"
  have sk: "composite_usable P ?sk" using d by (simp add: composite_usable_def)
  then obtain pk where pk: "mldsa65P384PublicKey P (Some ?sk) = Inr pk" by (simp add: public_key_ok)
  have ne: "?sk \<noteq> []" using d by auto
  have "identity_seed_re (toHex ?sk)"
    using d by (simp add: identity_seed_re_def seed_pattern_def toHex_lhex)
  then show ?thesis
    using pk ne addressOf_key [OF public_key_length [OF P pk], of P]
    by (simp add: generateIdentityKeyPair_def mldsa65P384Keygen_def identityPublicKeyOf_def Let_def)
qed

definition good_identity_draw :: "prims \<Rightarrow> bytes \<times> bytes \<Rightarrow> bool" where
  "good_identity_draw P d \<longleftrightarrow> length (fst d) = 32 \<and> length (snd d) = 48 \<and> p384_valid P (snd d)"

definition good_encryption_draw :: "prims \<Rightarrow> bytes \<times> bytes \<Rightarrow> bool" where
  "good_encryption_draw P d \<longleftrightarrow> length (fst d) = 48 \<and> p384_valid P (fst d) \<and> length (snd d) = 64"

lemma new_record:
  assumes "envelope_laws P" and "good_encryption_draw P d"
  shows "\<exists>pair k. generateEncryptionKeyPair P d = Inr pair \<and> encryptionRecord P pair now = Inr k \<and> key_ok P k"
  using catkdf_drawn [OF assms(1)] assms(2)
  by (fastforce simp: good_encryption_draw_def encryptionRecord_def key_ok_def)

lemma generate_ok:
  assumes "signature_laws P" "envelope_laws P" "good_identity_draw P (fst d)" "good_encryption_draw P (snd d)"
  shows "\<exists>a. generateAccount P d now name = Inr a \<and> account_ok P a \<and> acc_name a = name"
proof -
  obtain pair a where i: "generateIdentityKeyPair P (fst d) = Inr pair" "identity_seed_re (hp_seed pair)"
      "identityPublicKeyOf P (JStr (hp_seed pair)) = Inr (hp_publicKey pair)"
      "addressOf P (JStr (hp_publicKey pair)) = Inr a"
    using identity_drawn [OF assms(1), of "fst d"] assms(3) by (auto simp: good_identity_draw_def)
  obtain epair k where "generateEncryptionKeyPair P (snd d) = Inr epair" "encryptionRecord P epair now = Inr k" "key_ok P k"
    using new_record [OF assms(2,4)] by blast
  then show ?thesis
    using i by (simp add: generateAccount_def account_ok_def account_kids_def)
qed

subsection \<open>Rotation, destruction, undoing\<close>

text \<open>The result of a rotation in terms of the account it was asked of.\<close>

lemma rotate_result:
  assumes "account_ok P a" and "rotateAccountEncryptionKey P clock d (account_js a) now = Inr b"
  shows "length (acc_retired a) < MAX_RETIRED_ENCRYPTION_KEYS"
    "\<exists>k. b = a\<lparr>acc_encryption := k, acc_retired := retire (acc_encryption a) now # acc_retired a\<rparr>"
  using assms parse_account_js [OF assms(1), of clock]
  by (auto simp: rotateAccountEncryptionKey_def not_le split: if_splits)

lemma rotate_succeeds:
  assumes "account_ok P a" "envelope_laws P" "good_encryption_draw P d" "length (acc_retired a) < MAX_RETIRED_ENCRYPTION_KEYS"
  shows "\<exists>k. key_ok P k \<and> rotateAccountEncryptionKey P clock d (account_js a) now =
    Inr (a\<lparr>acc_encryption := k, acc_retired := retire (acc_encryption a) now # acc_retired a\<rparr>)"
proof -
  obtain pair k where "generateEncryptionKeyPair P d = Inr pair" "encryptionRecord P pair now = Inr k" "key_ok P k"
    using new_record [OF assms(2,3)] by blast
  then show ?thesis
    using parse_account_js [OF assms(1), of clock] assms(4) by (auto simp: rotateAccountEncryptionKey_def)
qed

lemma rotate_full:
  assumes "account_ok P a" and "length (acc_retired a) = MAX_RETIRED_ENCRYPTION_KEYS"
  shows "\<exists>m. rotateAccountEncryptionKey P clock d (account_js a) now = Inl (FormatError m)"
  using parse_account_js [OF assms(1), of clock] assms(2) by (simp add: rotateAccountEncryptionKey_def)

text \<open>Every key the account could read with, it can still read with.\<close>

lemma rotate_keeps_keys:
  assumes "account_ok P a" and "rotateAccountEncryptionKey P clock d (account_js a) now = Inr b"
  shows "set (account_keys a) \<subseteq> set (account_keys b)" "acc_id b = acc_id a" "acc_identity b = acc_identity a"
  using rotate_result(2) [OF assms] by (auto simp: account_keys_def)

lemma rotate_account_ok:
  assumes "account_ok P a" "rotateAccountEncryptionKey P clock d (account_js a) now = Inr b"
    and "key_ok P (acc_encryption b)" and "ek_kid (acc_encryption b) \<notin> set (account_kids a)"
  shows "account_ok P b"
  using rotate_result [OF assms(1,2)] assms by (auto simp: account_ok_def account_kids_def comp_def)

lemma destroy_result:
  assumes "account_ok P a"
  shows "destroyRetiredEncryptionKey P clock (account_js a) kid = Inr b \<longleftrightarrow>
    kid \<in> ek_kid ` set (acc_retired a) \<and> b = a\<lparr>acc_retired := filter (\<lambda>k. ek_kid k \<noteq> kid) (acc_retired a)\<rparr>"
  using parse_account_js [OF assms, of clock] assms
  by (auto simp: destroyRetiredEncryptionKey_def list_ex_iff account_ok_def account_kids_def)

lemma distinct_map_filter: "distinct (map f xs) \<Longrightarrow> distinct (map f (filter p xs))"
  by (induction xs) auto

lemma destroy_account_ok:
  assumes "account_ok P a" "destroyRetiredEncryptionKey P clock (account_js a) kid = Inr b"
  shows "account_ok P b" "set (account_kids b) = set (account_kids a) - {kid}" "acc_encryption b = acc_encryption a"
proof -
  have b: "kid \<in> ek_kid ` set (acc_retired a)" "b = a\<lparr>acc_retired := filter (\<lambda>k. ek_kid k \<noteq> kid) (acc_retired a)\<rparr>"
    using assms destroy_result by blast+
  have d: "distinct (map ek_kid (filter (\<lambda>k. ek_kid k \<noteq> kid) (acc_retired a)))"
    using assms(1) by (intro distinct_map_filter) (simp add: account_ok_def account_kids_def)
  have "length (filter (\<lambda>k. ek_kid k \<noteq> kid) (acc_retired a)) \<le> MAX_RETIRED_ENCRYPTION_KEYS"
    using assms(1) length_filter_le by (metis account_ok_def le_trans)
  then show "account_ok P b" "set (account_kids b) = set (account_kids a) - {kid}" "acc_encryption b = acc_encryption a"
    using assms(1) b d by (auto simp: account_ok_def account_kids_def list_all_iff)
qed

lemma destroy_current:
  "account_ok P a \<Longrightarrow> \<exists>m. destroyRetiredEncryptionKey P clock (account_js a) (ek_kid (acc_encryption a)) = Inl (FormatError m)"
  using parse_account_js [of P a clock] by (simp add: destroyRetiredEncryptionKey_def)

lemma revert_result:
  assumes "account_ok P a"
  shows "revertAccountEncryptionKeyRotation P clock (account_js a) newKid now = Inr b \<longleftrightarrow>
    ek_kid (acc_encryption a) = newKid \<and>
    (\<exists>prev older. acc_retired a = prev # older \<and>
       b = a\<lparr>acc_encryption := enc_key.truncate prev, acc_retired := retire (acc_encryption a) now # older\<rparr>)"
  using parse_account_js [OF assms, of clock]
  by (auto simp: revertAccountEncryptionKeyRotation_def split: list.splits)

text \<open>Undoing destroys nothing: the account holds the same keys.\<close>

lemma revert_account_ok:
  assumes "account_ok P a" "revertAccountEncryptionKeyRotation P clock (account_js a) newKid now = Inr b"
  shows "account_ok P b" "set (account_keys b) = set (account_keys a)"
proof -
  obtain prev older where "acc_retired a = prev # older"
      "b = a\<lparr>acc_encryption := enc_key.truncate prev, acc_retired := retire (acc_encryption a) now # older\<rparr>"
    using assms revert_result by blast
  then show "account_ok P b" "set (account_keys b) = set (account_keys a)"
    using assms(1) by (auto simp: account_ok_def account_kids_def account_keys_def)
qed

lemma revert_after_rotate:
  assumes a: "account_ok P a" and b: "rotateAccountEncryptionKey P clock d (account_js a) now = Inr b" "account_ok P b"
  shows "\<exists>c. revertAccountEncryptionKeyRotation P clock' (account_js b) (ek_kid (acc_encryption b)) now' = Inr c \<and>
    acc_encryption c = acc_encryption a \<and> acc_retired c = retire (acc_encryption b) now' # acc_retired a"
  using rotate_result(2) [OF a b(1)] revert_result [OF b(2)] by fastforce

subsection \<open>Stored accounts read back\<close>

lemma account_js_pure: "js_pure (account_js a)"
proof -
  have "js_pure (retired_js k)" for k by (simp add: retired_js_def enc_key_fields_def)
  then show ?thesis by (auto simp: account_js_def enc_key_fields_def)
qed

lemma parse_accounts_js: "list_all (account_ok P) xs \<Longrightarrow> map_res (parseAccount P now) (map account_js xs) = Inr xs"
  by (induction xs) (simp_all add: parse_account_js)

subsection \<open>A rotation under a fresh key\<close>

text \<open>The id of the key these draws give.\<close>

definition new_kid :: "prims \<Rightarrow> bytes \<times> bytes \<Rightarrow> string" where
  "new_kid P d = (case bind_res (generateEncryptionKeyPair P d) (\<lambda>pair. encryptionRecord P pair 0) of Inr k \<Rightarrow> ek_kid k | Inl _ \<Rightarrow> [])"

lemma rotated_ok:
  assumes P: "envelope_laws P" and d: "good_encryption_draw P d" and a: "account_ok P a" and f: "new_kid P d \<notin> set (account_kids a)"
    and b: "rotateAccountEncryptionKey P clock d (account_js a) now = Inr b"
  shows "account_ok P b"
proof -
  obtain pair k where k: "generateEncryptionKeyPair P d = Inr pair" "encryptionRecord P pair now = Inr k" "key_ok P k"
    using new_record [OF P d] by blast
  have "acc_encryption b = k"
    using b k parse_account_js [OF a, of clock] by (auto simp: rotateAccountEncryptionKey_def split: if_splits)
  moreover have "new_kid P d = ek_kid k"
    using k(1,2) by (auto simp: new_kid_def encryptionRecord_def)
  ultimately show ?thesis using rotate_account_ok [OF a b] k(3) f by simp
qed

end
