(* ===== verification/Vault.thy ===== *)
theory Vault
  imports Pqc
begin

text \<open>
  \<open>packages/crypto-core/src/vault.js\<close>: the vault key derived with Argon2id under parameters
  that travel in the blob, the AES-GCM seal whose associated data is those parameters, and the
  rule for the password. A password is its code units; derivation is a primitive.
\<close>

subsection \<open>The key-derivation descriptor\<close>

definition VAULT_KDF_ALG :: string where
  "VAULT_KDF_ALG = ''argon2id''"

definition VAULT_KDF_PARAMS :: "(string \<times> jsval) list" where
  "VAULT_KDF_PARAMS = [(''m'', JNum (46 * 1024)), (''t'', JNum 1), (''p'', JNum 1)]"

definition KDF_BOUNDS :: "(string \<times> int \<times> int) list" where
  "KDF_BOUNDS = [(''m'', 8 * 1024, 1024 * 1024), (''t'', 1, 16), (''p'', 1, 4)]"

definition vault_key_bits :: nat where
  "vault_key_bits = 256"

definition newVaultKdf :: "bytes \<Rightarrow> jsval" where
  "newVaultKdf random = JObj ((''alg'', JStr VAULT_KDF_ALG) # VAULT_KDF_PARAMS @ [(''salt'', JStr (toB64 random))])"

fun in_bounds :: "jsval \<Rightarrow> int \<Rightarrow> int \<Rightarrow> bool" where
  "in_bounds (JNum n) lo hi = (lo \<le> n \<and> n \<le> hi)"
| "in_bounds _ lo hi = False"

fun check_bounds :: "jsval \<Rightarrow> (string \<times> int \<times> int) list \<Rightarrow> unit res" where
  "check_bounds kdf [] = Ok ()"
| "check_bounds kdf ((name, lo, hi) # bounds) =
     (if \<not> in_bounds (js_get kdf name) lo hi
      then Throw (FormatError (''vault KDF: parameter '' @ name @ ''='' @ js_str (js_get kdf name) @ '' is out of range''))
      else check_bounds kdf bounds)"

definition checkKdf :: "jsval \<Rightarrow> bytes res" where
  "checkKdf kdf =
     (if \<not> truthy kdf \<or> js_get kdf ''alg'' \<noteq> JStr VAULT_KDF_ALG
      then Throw (FormatError (''vault KDF: unsupported algorithm '' @ or_else (js_get kdf ''alg'') ''(none)''))
      else
        bind_res (check_bounds kdf KDF_BOUNDS) (\<lambda>_.
        bind_res (fromB64 (js_get kdf ''salt'')) (\<lambda>salt.
          if length salt < 16 then Throw (FormatError ''vault KDF: salt too short'') else Ok salt)))"

definition kdf_param :: "jsval \<Rightarrow> string \<Rightarrow> int" where
  "kdf_param kdf name = (case js_get kdf name of JNum n \<Rightarrow> n | _ \<Rightarrow> 0)"

definition deriveVaultKeyBits :: "prims \<Rightarrow> string \<Rightarrow> jsval \<Rightarrow> bytes res" where
  "deriveVaultKeyBits P password kdf =
     bind_res (checkKdf kdf) (\<lambda>salt.
       Ok (argon2id P (utf8 password) salt (kdf_param kdf ''m'') (kdf_param kdf ''t'') (kdf_param kdf ''p'')
         (vault_key_bits div 8)))"

definition importVaultKey :: "bytes \<Rightarrow> bytes res" where
  "importVaultKey keyBytes = import_aes keyBytes"

definition deriveKey :: "prims \<Rightarrow> string \<Rightarrow> jsval \<Rightarrow> bytes res" where
  "deriveKey P password kdf = bind_res (deriveVaultKeyBits P password kdf) importVaultKey"

subsection \<open>Blobs\<close>

definition assertVaultFormat :: "jsval \<Rightarrow> unit res" where
  "assertVaultFormat blob =
     (if \<not> is_object blob then Throw (FormatError ''vault: not a vault blob'')
      else if js_get blob ''v'' \<noteq> JNum FORMAT_VERSION
      then Throw (FormatError
        (''This vault or backup was created by an older Kryptolog version '' @
         ''(format '' @ or_else (js_get blob ''v'') ''< 3'' @ '') and cannot be opened by this one.''))
      else Ok ())"

definition vaultKdfOf :: "jsval \<Rightarrow> jsval res" where
  "vaultKdfOf blob = bind_res (assertVaultFormat blob) (\<lambda>_. Ok (js_get blob ''kdf''))"

fun is_array :: "jsval \<Rightarrow> bool" where
  "is_array (JArr _) = True"
| "is_array _ = False"

definition isEncryptedVaultBlob :: "jsval \<Rightarrow> bool" where
  "isEncryptedVaultBlob ob \<longleftrightarrow>
     truthy ob \<and> is_object ob \<and> \<not> is_array (js_get ob ''accounts'') \<and>
     the_str (js_get ob ''iv'') \<noteq> None \<and> the_str (js_get ob ''data'') \<noteq> None \<and>
     (js_get ob ''kdf'' \<noteq> JUndef \<or> the_str (js_get ob ''salt'') \<noteq> None)"

definition vaultAad :: "jsval \<Rightarrow> bytes" where
  "vaultAad kdf = utf8
     (''Kryptolog vault'' @ nl # ''v='' @ int_str FORMAT_VERSION @ nl # ''kdf='' @ canonicalJson kdf)"

text \<open>\<open>ENC.encode(JSON.stringify(data))\<close>; the encoder reads an absent argument as empty.\<close>

definition stringified :: "jsval \<Rightarrow> bytes" where
  "stringified data = (case json_stringify data of None \<Rightarrow> [] | Some s \<Rightarrow> utf8 s)"

definition seal :: "prims \<Rightarrow> bytes \<Rightarrow> jsval \<Rightarrow> bytes \<Rightarrow> jsval \<Rightarrow> jsval" where
  "seal P iv data key kdf = JObj
     [(''v'', JNum FORMAT_VERSION), (''kdf'', kdf), (''iv'', JStr (toB64 iv)),
      (''data'', JStr (toB64 (aes_seal P key iv (vaultAad kdf) (stringified data))))]"

definition openSealed :: "prims \<Rightarrow> jsval \<Rightarrow> bytes \<Rightarrow> jsval res" where
  "openSealed P blob key =
     bind_res (fromB64 (js_get blob ''iv'')) (\<lambda>iv.
     bind_res (fromB64 (js_get blob ''data'')) (\<lambda>sealed.
     bind_res (opt_res OperationError (aes_open P key iv (vaultAad (js_get blob ''kdf'')) sealed)) (\<lambda>m.
     bind_res (dec_text m) (\<lambda>s. opt_res SyntaxError (json_parse s)))))"

text \<open>\<open>try \<dots> catch { throw new Error(\<dots>) }\<close>.\<close>

definition rethrow :: "string \<Rightarrow> 'a res \<Rightarrow> 'a res" where
  "rethrow msg r = (case r of Inl _ \<Rightarrow> Throw (PlainError msg) | Inr x \<Rightarrow> Ok x)"

definition encryptVault :: "prims \<Rightarrow> bytes \<times> bytes \<Rightarrow> jsval \<Rightarrow> string \<Rightarrow> jsval res" where
  "encryptVault P rnd data password =
     (let kdf = newVaultKdf (fst rnd)
      in bind_res (deriveKey P password kdf) (\<lambda>key. Ok (seal P (snd rnd) data key kdf)))"

definition decryptVault :: "prims \<Rightarrow> jsval \<Rightarrow> string \<Rightarrow> jsval res" where
  "decryptVault P blob password =
     bind_res (vaultKdfOf blob) (\<lambda>kdf.
     bind_res (deriveKey P password kdf) (\<lambda>key.
       rethrow ''Incorrect password or corrupted data'' (openSealed P blob key)))"

definition encryptVaultWithKey :: "prims \<Rightarrow> bytes \<Rightarrow> jsval \<Rightarrow> bytes \<Rightarrow> jsval \<Rightarrow> jsval res" where
  "encryptVaultWithKey P iv data key kdf = bind_res (checkKdf kdf) (\<lambda>_. Ok (seal P iv data key kdf))"

definition decryptVaultWithKey :: "prims \<Rightarrow> jsval \<Rightarrow> bytes \<Rightarrow> jsval res" where
  "decryptVaultWithKey P blob key =
     bind_res (assertVaultFormat blob) (\<lambda>_.
       rethrow ''Decryption failed with cached key'' (openSealed P blob key))"

subsection \<open>The password rule\<close>

definition VAULT_PASSWORD_MIN_LENGTH :: nat where
  "VAULT_PASSWORD_MIN_LENGTH = 12"

definition COMMON :: "string list" where
  "COMMON =
     [''passwordpassword'', ''password1234'', ''password12345'', ''password123456'',
      ''123456789012'', ''1234567890123'', ''12345678901234'', ''qwertyuiopas'',
      ''azertyuiopqs'', ''qwertyqwerty'', ''azertyazerty'', ''iloveyouiloveyou'',
      ''motdepasse123'', ''motdepassemotdepasse'', ''administrator'', ''letmeinletmein'']"

text \<open>The loop of \<open>isSequence\<close>: the step so far, the previous character, the rest.\<close>

fun sequence_from :: "int option \<Rightarrow> char \<Rightarrow> string \<Rightarrow> bool" where
  "sequence_from step prev [] = True"
| "sequence_from step prev (c # s) =
     (let d = int (code c) - int (code prev)
      in if 1 < \<bar>d\<bar> then False
         else case step of
             None \<Rightarrow> sequence_from (Some d) c s
           | Some st \<Rightarrow> if d \<noteq> st then False else sequence_from step c s)"

fun isSequence :: "string \<Rightarrow> bool" where
  "isSequence [] = True"
| "isSequence (c # s) = sequence_from None c s"

text \<open>The three refusals, each a message to the user in the source.\<close>

datatype password_problem = Too_short | Too_repetitive | Too_common

definition vaultPasswordProblem :: "jsval \<Rightarrow> password_problem option" where
  "vaultPasswordProblem password =
     (let pw = (case password of JStr s \<Rightarrow> s | _ \<Rightarrow> [])
      in if length pw < VAULT_PASSWORD_MIN_LENGTH then Some Too_short
         else if length (remdups pw) < 5 then Some Too_repetitive
         else if to_lower pw \<in> set COMMON \<or> isSequence (to_lower pw) then Some Too_common
         else None)"

fun problem_text :: "password_problem \<Rightarrow> string" where
  "problem_text Too_short = ''Use at least 12 characters - a short phrase of several words is ideal.''"
| "problem_text Too_repetitive = ''Use more varied characters: this password repeats too few of them.''"
| "problem_text Too_common = ''This password is among the first an attacker would try. Choose another.''"

subsection \<open>Facts about the descriptor\<close>

lemma in_bounds_param: "in_bounds (js_get kdf n) lo hi \<longleftrightarrow> js_get kdf n = JNum (kdf_param kdf n) \<and> lo \<le> kdf_param kdf n \<and> kdf_param kdf n \<le> hi"
  by (cases "js_get kdf n") (auto simp: kdf_param_def)

lemma check_bounds_ok:
  "check_bounds kdf bs = Inr u \<longleftrightarrow> (\<forall>(n, lo, hi)\<in>set bs. in_bounds (js_get kdf n) lo hi)"
  by (induction kdf bs rule: check_bounds.induct) auto

lemma checkKdf_ok:
  assumes "checkKdf kdf = Inr salt"
  shows "js_get kdf ''alg'' = JStr VAULT_KDF_ALG" "fromB64 (js_get kdf ''salt'') = Inr salt" "16 \<le> length salt"
    "8192 \<le> kdf_param kdf ''m'' \<and> kdf_param kdf ''m'' \<le> 1048576"
    "1 \<le> kdf_param kdf ''t'' \<and> kdf_param kdf ''t'' \<le> 16" "1 \<le> kdf_param kdf ''p'' \<and> kdf_param kdf ''p'' \<le> 4"
  using assms
  by (auto simp: checkKdf_def check_bounds_ok KDF_BOUNDS_def in_bounds_param not_less split: if_splits)

lemma newVaultKdf_ok: "length salt = 16 \<Longrightarrow> checkKdf (newVaultKdf salt) = Inr salt"
proof -
  assume "length salt = 16"
  then have "salt \<noteq> []" "length salt = 16" by auto
  then show ?thesis
    by (simp add: checkKdf_def newVaultKdf_def VAULT_KDF_PARAMS_def KDF_BOUNDS_def)
qed

lemma deriveKey_new:
  assumes "kdf_laws P" "length salt = 16"
  shows "deriveKey P pw (newVaultKdf salt) =
    Inr (argon2id P (utf8 pw) salt 47104 1 1 32)"
  using assms newVaultKdf_ok [OF assms(2)]
  by (simp add: deriveKey_def deriveVaultKeyBits_def importVaultKey_def import_aes_def vault_key_bits_def
      kdf_param_def newVaultKdf_def VAULT_KDF_PARAMS_def)

text \<open>No key is derived with parameters outside the bounds.\<close>

lemma derive_in_bounds:
  assumes "deriveVaultKeyBits P pw kdf = Inr k"
  shows "\<exists>salt m t p. k = argon2id P (utf8 pw) salt m t p 32 \<and> 16 \<le> length salt \<and>
    8192 \<le> m \<and> m \<le> 1048576 \<and> 1 \<le> t \<and> t \<le> 16 \<and> 1 \<le> p \<and> p \<le> 4"
proof -
  obtain salt where s: "checkKdf kdf = Inr salt"
      "k = argon2id P (utf8 pw) salt (kdf_param kdf ''m'') (kdf_param kdf ''t'') (kdf_param kdf ''p'') 32"
    using assms by (auto simp: deriveVaultKeyBits_def vault_key_bits_def)
  then show ?thesis using checkKdf_ok [OF s(1)] by blast
qed

subsection \<open>Sealing and opening\<close>

lemma seal_fields [simp]:
  "is_object (seal P iv d key kdf)"
  "js_get (seal P iv d key kdf) ''v'' = JNum FORMAT_VERSION"
  "js_get (seal P iv d key kdf) ''kdf'' = kdf"
  "js_get (seal P iv d key kdf) ''iv'' = JStr (toB64 iv)"
  "js_get (seal P iv d key kdf) ''data'' = JStr (toB64 (aes_seal P key iv (vaultAad kdf) (stringified d)))"
  by (simp_all add: seal_def)

lemma assertVaultFormat_ok [simp]:
  "assertVaultFormat blob = Inr u \<longleftrightarrow> is_object blob \<and> js_get blob ''v'' = JNum FORMAT_VERSION"
  by (simp add: assertVaultFormat_def)

lemma vault_format_seal [simp]: "assertVaultFormat (seal P iv d key kdf) = Inr ()"
  by simp

lemma rethrow_simps [simp]: "rethrow m (Inl e) = Inl (PlainError m)" "rethrow m (Inr x) = Inr x"
  by (simp_all add: rethrow_def)

lemma openSealed_seal:
  assumes "aead_correct P" "iv \<noteq> []" "js_pure d"
  shows "openSealed P (seal P iv d key kdf) key = Inr d"
  using assms js_pure_json_stringify [OF assms(3)] utf.dec_enc
  by (simp add: openSealed_def stringified_def json_parse_text)

lemma vault_roundtrip:
  assumes P: "aead_correct P" "kdf_laws P" and r: "length (fst rnd) = 16" "snd rnd \<noteq> []" and d: "js_pure d"
  shows "\<exists>blob. encryptVault P rnd d pw = Inr blob \<and> decryptVault P blob pw = Inr d"
  using deriveKey_new [OF P(2) r(1), of pw] openSealed_seal [OF P(1) r(2) d]
  by (simp add: encryptVault_def decryptVault_def Let_def vaultKdfOf_def)

lemma vault_wrong_password:
  assumes P: "aead_correct P" "aead_key_binding P" "kdf_laws P" and r: "length (fst rnd) = 16" "snd rnd \<noteq> []"
    and differ: "argon2id P (utf8 pw) (fst rnd) 47104 1 1 32 \<noteq> argon2id P (utf8 pw') (fst rnd) 47104 1 1 32"
    and blob: "encryptVault P rnd d pw = Inr blob"
  shows "decryptVault P blob pw' = Inl (PlainError ''Incorrect password or corrupted data'')"
proof -
  have "blob = seal P (snd rnd) d (argon2id P (utf8 pw) (fst rnd) 47104 1 1 32) (newVaultKdf (fst rnd))"
    using blob deriveKey_new [OF P(3) r(1)] by (simp add: encryptVault_def Let_def)
  then show ?thesis
    using P r differ deriveKey_new [OF P(3) r(1), of pw']
    by (simp add: decryptVault_def vaultKdfOf_def openSealed_def aead_other_key opt_res_def)
qed

text \<open>The descriptor is bound to the ciphertext: rewriting it makes the blob fail.\<close>

definition with_kdf :: "jsval \<Rightarrow> jsval \<Rightarrow> jsval" where
  "with_kdf kdf blob = (case blob of JObj kvs \<Rightarrow> JObj (obj_put ''kdf'' kdf kvs) | v \<Rightarrow> v)"

lemma vaultAad_inj: "vaultAad k = vaultAad l \<longleftrightarrow> canonicalJson k = canonicalJson l"
  by (simp add: vaultAad_def)

lemma vault_kdf_tampered:
  assumes P: "aead_correct P" "aead_binding P" and iv: "iv \<noteq> []" and k: "canonicalJson kdf \<noteq> canonicalJson kdf'"
  shows "decryptVaultWithKey P (with_kdf kdf' (seal P iv d key kdf)) key =
    Inl (PlainError ''Decryption failed with cached key'')"
proof -
  have "vaultAad kdf \<noteq> vaultAad kdf'" using k by (simp add: vaultAad_inj)
  then show ?thesis
    using P iv
    by (simp add: decryptVaultWithKey_def assertVaultFormat_def openSealed_def with_kdf_def seal_def aead_other_aad opt_res_def)
qed

lemma seal_is_encrypted_blob: "kdf \<noteq> JUndef \<Longrightarrow> isEncryptedVaultBlob (seal P iv d key kdf)"
  by (simp add: isEncryptedVaultBlob_def seal_def)

lemma plain_vault_is_not: "js_get ob ''accounts'' = JArr xs \<Longrightarrow> \<not> isEncryptedVaultBlob ob"
  by (simp add: isEncryptedVaultBlob_def)

subsection \<open>The password rule\<close>

text \<open>A sequence: every character a fixed step of -1, 0 or 1 from the one before it.\<close>

definition steps_by :: "int \<Rightarrow> string \<Rightarrow> bool" where
  "steps_by d s \<longleftrightarrow> (\<forall>i. Suc i < length s \<longrightarrow> int (code (s ! Suc i)) = int (code (s ! i)) + d)"

lemma steps_by_Cons: "steps_by d (a # b # s) \<longleftrightarrow> int (code b) = int (code a) + d \<and> steps_by d (b # s)"
  by (auto simp: steps_by_def nth_Cons split: nat.splits)

lemma steps_by_short: "steps_by d []" "steps_by d [a]"
  by (simp_all add: steps_by_def)

lemma sequence_from_Some: "sequence_from (Some d) a s \<longleftrightarrow> \<bar>d\<bar> \<le> 1 \<and> steps_by d (a # s) \<or> s = []"
proof (induction s arbitrary: a)
  case (Cons b s)
  show ?case
  proof (cases "s = []")
    case True
    then show ?thesis by (auto simp: Let_def steps_by_Cons steps_by_short)
  next
    case False
    then show ?thesis using Cons.IH [of b] by (auto simp: Let_def steps_by_Cons)
  qed
qed simp

lemma isSequence_iff: "isSequence s \<longleftrightarrow> (\<exists>d. \<bar>d\<bar> \<le> 1 \<and> steps_by d s)"
proof (cases s rule: isSequence.cases)
  case (2 a t)
  have step: "(\<exists>d. \<bar>d\<bar> \<le> 1 \<and> y = x + d \<and> Q d) \<longleftrightarrow> \<not> 1 < \<bar>y - x\<bar> \<and> Q (y - x)" for x y :: int and Q
    by (auto intro: exI [of _ "y - x"])
  show ?thesis
  proof (cases t)
    case Nil
    then show ?thesis using 2 by (auto simp: steps_by_short intro!: exI [of _ 0])
  next
    case (Cons b u)
    then show ?thesis
      using 2 by (auto simp: Let_def steps_by_Cons sequence_from_Some steps_by_short step)
  qed
qed (auto simp: steps_by_short intro!: exI [of _ 0])

lemma password_accepted_iff:
  "vaultPasswordProblem (JStr pw) = None \<longleftrightarrow>
     12 \<le> length pw \<and> 5 \<le> card (set pw) \<and> to_lower pw \<notin> set COMMON \<and>
     (\<nexists>d. \<bar>d\<bar> \<le> 1 \<and> steps_by d (to_lower pw))"
  by (auto simp: vaultPasswordProblem_def Let_def VAULT_PASSWORD_MIN_LENGTH_def isSequence_iff length_remdups_card_conv)

lemma password_not_a_string: "the_str v = None \<Longrightarrow> vaultPasswordProblem v = Some Too_short"
  by (cases v) (simp_all add: vaultPasswordProblem_def VAULT_PASSWORD_MIN_LENGTH_def)

subsection \<open>Sealing under a password\<close>

text \<open>Draws good enough to seal under: a salt and an iv.\<close>

definition strong_rnd :: "bytes \<times> bytes \<Rightarrow> bool" where
  "strong_rnd rnd \<longleftrightarrow> length (fst rnd) = 16 \<and> snd rnd \<noteq> []"

lemma deriveBits_new:
  assumes "length salt = 16"
  shows "deriveVaultKeyBits P pw (newVaultKdf salt) = Inr (argon2id P (utf8 pw) salt 47104 1 1 32)"
  using newVaultKdf_ok [OF assms]
  by (simp add: deriveVaultKeyBits_def vault_key_bits_def kdf_param_def newVaultKdf_def VAULT_KDF_PARAMS_def)

text \<open>The key a password gives under a fresh descriptor.\<close>

abbreviation new_key :: "prims \<Rightarrow> bytes \<times> bytes \<Rightarrow> string \<Rightarrow> bytes" where
  "new_key P rnd pw \<equiv> argon2id P (utf8 pw) (fst rnd) 47104 1 1 32"

text \<open>A sealed blob as a file: it reads back, is known for what it is, and opens.\<close>

lemma sealed_file:
  assumes P: "aead_correct P" "kdf_laws P" and r: "strong_rnd rnd" and d: "js_pure d"
  shows "\<exists>blob. encryptVault P rnd d pp = Inr blob \<and> js_pure blob \<and> isEncryptedVaultBlob blob \<and> decryptVault P blob pp = Inr d"
proof -
  have s16: "length (fst rnd) = 16" "snd rnd \<noteq> []" using r by (simp_all add: strong_rnd_def)
  obtain blob where b: "encryptVault P rnd d pp = Inr blob" "decryptVault P blob pp = Inr d"
    using vault_roundtrip [OF P s16 d] by blast
  have e: "blob = seal P (snd rnd) d (new_key P rnd pp) (newVaultKdf (fst rnd))"
    using b(1) deriveKey_new [OF P(2) s16(1)] by (simp add: encryptVault_def Let_def)
  have "newVaultKdf (fst rnd) \<noteq> JUndef" "js_pure (newVaultKdf (fst rnd))"
    by (simp_all add: newVaultKdf_def VAULT_KDF_PARAMS_def)
  then show ?thesis using b e seal_is_encrypted_blob by (auto simp: seal_def)
qed

end
