(* ===== verification/Acts.thy ===== *)
theory Acts
  imports Prelude
begin

text \<open>
  Operations that keep a state: functions from a state to a result and a state. What an operation
  wrote before it threw stays written. The extension's worker and the web client's vault service
  are both written in them.
\<close>

subsection \<open>Operations\<close>

type_synonym ('s, 'a) act = "'s \<Rightarrow> 'a res \<times> 's"

definition ret :: "'a \<Rightarrow> ('s, 'a) act" where
  "ret x = (\<lambda>s. (Ok x, s))"

definition fail :: "js_error \<Rightarrow> ('s, 'a) act" where
  "fail e = (\<lambda>s. (Throw e, s))"

definition andThen :: "('s, 'a) act \<Rightarrow> ('a \<Rightarrow> ('s, 'b) act) \<Rightarrow> ('s, 'b) act" where
  "andThen m f = (\<lambda>s. case m s of (Inl e, t) \<Rightarrow> (Inl e, t) | (Inr x, t) \<Rightarrow> f x t)"

definition reads :: "('s \<Rightarrow> 'a) \<Rightarrow> ('s, 'a) act" where
  "reads f = (\<lambda>s. (Ok (f s), s))"

definition updates :: "('s \<Rightarrow> 's) \<Rightarrow> ('s, unit) act" where
  "updates f = (\<lambda>s. (Ok (), f s))"

definition lift_res :: "'a res \<Rightarrow> ('s, 'a) act" where
  "lift_res r = (\<lambda>s. (r, s))"

definition guards :: "bool \<Rightarrow> js_error \<Rightarrow> ('s, unit) act" where
  "guards ok e = (if ok then ret () else fail e)"

lemma act_simps [simp]:
  "ret x s = (Inr x, s)" "fail e s = (Inl e, s)" "reads f s = (Inr (f s), s)"
  "updates g s = (Inr (), g s)" "lift_res r s = (r, s)"
  by (simp_all add: ret_def fail_def reads_def updates_def lift_res_def)

lemma guards_simps [simp]:
  "guards True e s = (Inr (), s)" "guards False e s = (Inl e, s)"
  by (simp_all add: guards_def)

lemma andThen_apply: "andThen m f s = (case m s of (Inl e, t) \<Rightarrow> (Inl e, t) | (Inr x, t) \<Rightarrow> f x t)"
  by (simp add: andThen_def)

lemma andThen_simps [simp]:
  "m s = (Inr x, t) \<Longrightarrow> andThen m f s = f x t"
  "m s = (Inl e, t) \<Longrightarrow> andThen m f s = (Inl e, t)"
  by (simp_all add: andThen_def)

lemma andThen_Ok:
  "andThen m f s = (Inr y, u) \<longleftrightarrow> (\<exists>x t. m s = (Inr x, t) \<and> f x t = (Inr y, u))"
  by (auto simp: andThen_def split: prod.splits sum.splits)

definition catches :: "('s, 'a) act \<Rightarrow> (js_error \<Rightarrow> ('s, 'a) act) \<Rightarrow> ('s, 'a) act" where
  "catches m h = (\<lambda>s. case m s of (Inl e, t) \<Rightarrow> h e t | (Inr x, t) \<Rightarrow> (Inr x, t))"

text \<open>\<open>error.message\<close>.\<close>

fun err_msg :: "js_error \<Rightarrow> string" where
  "err_msg (PlainError m) = m"
| "err_msg (FormatError m) = m"
| "err_msg (SignedBodyError m) = m"
| "err_msg (JsTypeError m) = m"
| "err_msg (JsRangeError m) = m"
| "err_msg (MissingKeyError m) = m"
| "err_msg OperationError = []"
| "err_msg SyntaxError = ''JSON''"
| "err_msg OutOfModel = []"

end
