(* ===== verification/TkState.thy ===== *)
theory TkState
  imports Account Vault Acts
begin

text \<open>
  The state of the TrustKeys extension's service worker (\<open>trustkeys/src/background/state.js\<close>):
  the unlocked vault and its key, the approval queue, the tracked windows, and the two
  \<open>chrome.storage\<close> areas the worker reads and writes. Operations are functions from a state
  to a result and a state.
\<close>

subsection \<open>The vault\<close>

text \<open>The two per-site maps are objects keyed by origin; a site counts when its value is truthy.
  Written out, an undefined active id is left out, as \<open>JSON.stringify\<close> does.\<close>

record vault =
  v_accounts :: "account list"
  v_active :: jsval
  v_permissions :: "(string \<times> jsval) list"
  v_autoSign :: "(string \<times> jsval) list option"

definition empty_vault :: vault where
  "empty_vault = \<lparr>v_accounts = [], v_active = JNull, v_permissions = [], v_autoSign = Some []\<rparr>"

definition vault_js :: "vault \<Rightarrow> jsval" where
  "vault_js v = JObj
     ([(''accounts'', JArr (map account_js (v_accounts v)))]
      @ (if v_active v = JUndef then [] else [(''activeAccountId'', v_active v)])
      @ [(''permissions'', JObj (v_permissions v))]
      @ (case v_autoSign v of None \<Rightarrow> [] | Some a \<Rightarrow> [(''autoSignSites'', JObj a)]))"

definition site_on :: "(string \<times> jsval) list \<Rightarrow> string \<Rightarrow> bool" where
  "site_on sites origin = (case map_of sites origin of None \<Rightarrow> False | Some v \<Rightarrow> truthy v)"

subsection \<open>Requests waiting for the user\<close>

text \<open>
  What an approval does, in place of the callback the source stores. The callback also holds
  the sender's reply function, here the number of the message it answers.
\<close>

datatype approval_action =
    Do_connect string
  | Do_sign jsval
  | Do_decrypt jsval
  | Do_unwrap jsval
  | Do_decrypt_many jsval
  | Do_unwrap_many jsval
  | Do_rotate string string int

record request =
  rq_type :: string
  rq_origin :: string
  rq_data :: jsval
  rq_channel :: nat
  rq_action :: approval_action

record pending_rotation =
  pn_origin :: string
  pn_newKid :: string
  pn_at :: int

subsection \<open>The state\<close>

text \<open>The approval queue keeps insertion order, as a Map does. The last four fields are Chrome's:
  \<open>chrome.storage.local\<close>'s \<open>vaultData\<close>, \<open>chrome.storage.session\<close>, the origins whose host
  permission is granted, and the registered content scripts with the origin each matches.\<close>

record tk_state =
  st_isLocked :: bool
  st_hasPassword :: bool
  st_vault :: "vault option"
  st_vaultKey :: "bytes option"
  st_vaultKeyBytes :: "bytes option"
  st_vaultKdf :: "jsval option"
  st_pending :: "(string \<times> request) list"
  st_pendingRotation :: "pending_rotation option"
  st_popupWindow :: "int option"
  st_approvalWindow :: "int option"
  st_vaultData :: "jsval option"
  st_session :: "(string \<times> jsval) list"
  st_hostPermissions :: "string list"
  st_scripts :: "(string \<times> string) list"

definition initial_state :: "jsval option \<Rightarrow> (string \<times> jsval) list \<Rightarrow> string list \<Rightarrow> (string \<times> string) list \<Rightarrow> tk_state" where
  "initial_state stored session hosts scripts =
     \<lparr>st_isLocked = True, st_hasPassword = False, st_vault = None, st_vaultKey = None,
      st_vaultKeyBytes = None, st_vaultKdf = None, st_pending = [], st_pendingRotation = None,
      st_popupWindow = None, st_approvalWindow = None, st_vaultData = stored, st_session = session,
      st_hostPermissions = hosts, st_scripts = scripts\<rparr>"

type_synonym 'a tk = "(tk_state, 'a) act"

subsection \<open>Accessors\<close>

definition requireUnlocked :: "unit tk" where
  "requireUnlocked = (\<lambda>s. if st_isLocked s then (Throw (PlainError ''Locked''), s) else (Ok (), s))"

text \<open>\<open>state.vault\<close> where the source reads through it: a null vault throws.\<close>

definition null_vault :: js_error where
  "null_vault = JsTypeError ''Cannot read properties of null''"

definition the_vault :: "vault tk" where
  "the_vault = (\<lambda>s. (opt_res null_vault (st_vault s), s))"

definition active_of :: "vault \<Rightarrow> account option" where
  "active_of v = find (\<lambda>a. JStr (acc_id a) = v_active v) (v_accounts v)"

definition activeAccount :: "account option tk" where
  "activeAccount = andThen the_vault (\<lambda>v. ret (active_of v))"

definition requireActiveAccount :: "account tk" where
  "requireActiveAccount = andThen activeAccount (\<lambda>a. lift_res (opt_res (PlainError ''No active account'') a))"

definition requireConnectedOrigin :: "string option \<Rightarrow> string tk" where
  "requireConnectedOrigin origin =
     (case origin of
        None \<Rightarrow> fail (PlainError ''Site not connected'')
      | Some og \<Rightarrow>
          if og = [] then fail (PlainError ''Site not connected'')
          else andThen the_vault (\<lambda>v.
            if site_on (v_permissions v) og then ret og else fail (PlainError ''Site not connected'')))"

subsection \<open>Facts\<close>

lemma requireUnlocked_ok: "requireUnlocked s = (Inr u, t) \<longleftrightarrow> \<not> st_isLocked s \<and> t = s"
  by (auto simp: requireUnlocked_def)

lemma the_vault_ok: "the_vault s = (Inr v, t) \<longleftrightarrow> st_vault s = Some v \<and> t = s"
  by (auto simp: the_vault_def)

lemma active_of_mem: "active_of v = Some a \<Longrightarrow> a \<in> set (v_accounts v) \<and> v_active v = JStr (acc_id a)"
  unfolding active_of_def by (auto simp: find_Some_iff)

lemma activeAccount_ok:
  "activeAccount s = (Inr r, t) \<longleftrightarrow> (\<exists>v. st_vault s = Some v \<and> r = active_of v) \<and> t = s"
  by (auto simp: activeAccount_def andThen_Ok the_vault_ok)

lemma requireActiveAccount_ok:
  "requireActiveAccount s = (Inr a, t) \<longleftrightarrow> (\<exists>v. st_vault s = Some v \<and> active_of v = Some a) \<and> t = s"
  by (auto simp: requireActiveAccount_def andThen_Ok activeAccount_ok)

lemma requireConnectedOrigin_ok:
  "requireConnectedOrigin origin s = (Inr og, t) \<longleftrightarrow>
   origin = Some og \<and> og \<noteq> [] \<and> (\<exists>v. st_vault s = Some v \<and> site_on (v_permissions v) og) \<and> t = s"
  by (auto simp: requireConnectedOrigin_def andThen_Ok the_vault_ok split: option.splits if_splits)

text \<open>An accessor changes nothing, whether it throws or not.\<close>

lemma accessors_read_only:
  "snd (requireUnlocked s) = s" "snd (the_vault s) = s" "snd (activeAccount s) = s"
  "snd (requireActiveAccount s) = s" "snd (requireConnectedOrigin origin s) = s"
  by (auto simp: requireUnlocked_def the_vault_def activeAccount_def requireActiveAccount_def
      requireConnectedOrigin_def andThen_def split: option.splits sum.splits prod.splits)

end
