(* ===== verification/TkVault.thy ===== *)
theory TkVault
  imports TkState
begin

text \<open>
  Saving, unlocking and locking the extension's vault: \<open>saveVault\<close> of \<open>background/utils.js\<close>,
  \<open>background/session.js\<close> and \<open>background/handlers/auth.js\<close>. The clock and every draw of
  randomness are arguments. \<open>chrome.storage\<close> keeps what it is given.
\<close>

subsection \<open>Idle sessions\<close>

definition IDLE_TIMEOUT_MS :: int where
  "IDLE_TIMEOUT_MS = 60 * 60 * 1000"

definition SESSION_KEYS :: "string list" where
  "SESSION_KEYS = [''vaultKeyHex'', ''vaultKdf'', ''lastActive'']"

fun isExpired :: "jsval \<Rightarrow> int \<Rightarrow> bool" where
  "isExpired (JNum lastActive) now = (IDLE_TIMEOUT_MS \<le> now - lastActive)"
| "isExpired JNaN now = False"
| "isExpired _ now = True"

definition session_get :: "string \<Rightarrow> tk_state \<Rightarrow> jsval" where
  "session_get k s = js_get (JObj (st_session s)) k"

definition session_set :: "(string \<times> jsval) list \<Rightarrow> tk_state \<Rightarrow> tk_state" where
  "session_set kvs s = s\<lparr>st_session := fold (\<lambda>(k, v) ob. obj_put k v ob) kvs (st_session s)\<rparr>"

definition session_remove :: "string list \<Rightarrow> tk_state \<Rightarrow> tk_state" where
  "session_remove ks s = s\<lparr>st_session := fold obj_del ks (st_session s)\<rparr>"

definition persistSession :: "int \<Rightarrow> tk_state \<Rightarrow> tk_state" where
  "persistSession now s =
     (case (st_vaultKeyBytes s, st_vaultKdf s) of
        (Some kb, Some kdf) \<Rightarrow>
          session_set [(''vaultKeyHex'', JStr (toHex kb)), (''vaultKdf'', kdf), (''lastActive'', JNum now)] s
      | _ \<Rightarrow> s)"

definition clearSession :: "tk_state \<Rightarrow> tk_state" where
  "clearSession s = session_remove SESSION_KEYS s"

text \<open>The cached key bytes and descriptor; a failed read counts as no session.\<close>

definition readSession :: "int \<Rightarrow> tk_state \<Rightarrow> (bytes \<times> jsval) option \<times> tk_state" where
  "readSession now s =
     (if \<not> truthy (session_get ''vaultKeyHex'' s) \<or> \<not> truthy (session_get ''vaultKdf'' s) then (None, s)
      else if isExpired (session_get ''lastActive'' s) now then (None, clearSession s)
      else case fromHex (session_get ''vaultKeyHex'' s) of
          Inl _ \<Rightarrow> (None, s)
        | Inr kb \<Rightarrow> (Some (kb, session_get ''vaultKdf'' s), s))"

definition touchActivity :: "int \<Rightarrow> tk_state \<Rightarrow> tk_state" where
  "touchActivity now s = (if st_isLocked s then s else session_set [(''lastActive'', JNum now)] s)"

definition shouldIdleLock :: "int \<Rightarrow> tk_state \<Rightarrow> bool" where
  "shouldIdleLock now s = (\<not> st_isLocked s \<and> isExpired (session_get ''lastActive'' s) now)"

subsection \<open>Saving\<close>

definition writeVault :: "prims \<Rightarrow> bytes \<Rightarrow> bytes \<Rightarrow> jsval \<Rightarrow> unit tk" where
  "writeVault P iv key kdf =
     andThen the_vault (\<lambda>v.
     andThen (lift_res (encryptVaultWithKey P iv (vault_js v) key kdf)) (\<lambda>blob.
       updates (\<lambda>s. s\<lparr>st_vaultData := Some blob, st_hasPassword := True\<rparr>)))"

text \<open>The randomness is the new salt and the iv.\<close>

definition saveVault :: "prims \<Rightarrow> bytes \<times> bytes \<Rightarrow> int \<Rightarrow> string \<Rightarrow> unit tk" where
  "saveVault P rnd now password = (\<lambda>s.
     if st_vault s = None then (Ok (), s)
     else
       (let kdf = newVaultKdf (fst rnd)
        in andThen (lift_res (deriveVaultKeyBits P password kdf)) (\<lambda>keyBytes.
           andThen (lift_res (importVaultKey keyBytes)) (\<lambda>key.
           andThen (writeVault P (snd rnd) key kdf) (\<lambda>_.
             updates (\<lambda>s. persistSession now
               (s\<lparr>st_vaultKey := Some key, st_vaultKeyBytes := Some keyBytes, st_vaultKdf := Some kdf\<rparr>))))) s))"

definition saveVaultWithSessionKey :: "prims \<Rightarrow> bytes \<Rightarrow> unit tk" where
  "saveVaultWithSessionKey P iv = (\<lambda>s.
     if st_vault s = None then (Ok (), s)
     else case (st_vaultKey s, st_vaultKdf s) of
         (Some key, Some kdf) \<Rightarrow> writeVault P iv key kdf s
       | _ \<Rightarrow> (Throw (PlainError ''Vault is locked''), s))"

subsection \<open>Setting a password, unlocking, locking\<close>

definition refuse_weak :: "jsval \<Rightarrow> unit tk" where
  "refuse_weak password =
     (case vaultPasswordProblem password of
        None \<Rightarrow> ret ()
      | Some p \<Rightarrow> fail (PlainError (problem_text p)))"

definition setupPassword :: "prims \<Rightarrow> bytes \<times> bytes \<Rightarrow> int \<Rightarrow> jsval \<Rightarrow> unit tk" where
  "setupPassword P rnd now password =
     andThen (\<lambda>s. guards (\<not> st_hasPassword s) (PlainError ''Password already set'') s) (\<lambda>_.
     andThen (refuse_weak password) (\<lambda>_.
     andThen (updates (\<lambda>s. s\<lparr>st_vault := Some empty_vault\<rparr>)) (\<lambda>_.
     andThen (saveVault P rnd now (js_str password)) (\<lambda>_.
       updates (\<lambda>s. s\<lparr>st_isLocked := False\<rparr>)))))"

text \<open>A decrypted vault, read. The blob is authenticated and written by \<open>writeVault\<close> alone, so
  a vault of another shape than \<open>vault_js\<close> gives is outside the model.\<close>

definition sites_of :: "jsval \<Rightarrow> (string \<times> jsval) list res" where
  "sites_of v = (if \<not> truthy v then Ok [] else case v of JObj kvs \<Rightarrow> Ok kvs | _ \<Rightarrow> Throw OutOfModel)"

definition decode_vault :: "prims \<Rightarrow> int \<Rightarrow> jsval \<Rightarrow> vault res" where
  "decode_vault P now js =
     (case array_of (js_get js ''accounts'') of
        None \<Rightarrow> Throw OutOfModel
      | Some xs \<Rightarrow>
          bind_res (map_res (parseAccount P now) xs) (\<lambda>accounts.
          bind_res (sites_of (js_get js ''permissions'')) (\<lambda>permissions.
          bind_res (sites_of (js_get js ''autoSignSites'')) (\<lambda>autoSign.
            Ok \<lparr>v_accounts = accounts, v_active = js_get js ''activeAccountId'',
                v_permissions = permissions, v_autoSign = Some autoSign\<rparr>))))"

definition openVault :: "prims \<Rightarrow> int \<Rightarrow> jsval \<Rightarrow> bytes \<Rightarrow> jsval \<Rightarrow> unit tk" where
  "openVault P now vaultData keyBytes kdf =
     andThen (lift_res (importVaultKey keyBytes)) (\<lambda>key.
     andThen (lift_res (decryptVaultWithKey P vaultData key)) (\<lambda>js.
     andThen (lift_res (decode_vault P now js)) (\<lambda>v.
       updates (\<lambda>s. s\<lparr>st_vault := Some v, st_vaultKey := Some key, st_vaultKeyBytes := Some keyBytes,
                      st_vaultKdf := Some kdf, st_isLocked := False\<rparr>))))"

definition stored_vault :: "tk_state \<Rightarrow> jsval option" where
  "stored_vault s = (case st_vaultData s of None \<Rightarrow> None | Some d \<Rightarrow> if truthy d then Some d else None)"

definition unlock :: "prims \<Rightarrow> int \<Rightarrow> string \<Rightarrow> bool tk" where
  "unlock P now password =
     andThen (\<lambda>s. (opt_res (PlainError ''No vault found'') (stored_vault s), s)) (\<lambda>vaultData.
       catches
         (andThen (lift_res (vaultKdfOf vaultData)) (\<lambda>kdf.
          andThen (lift_res (deriveVaultKeyBits P password kdf)) (\<lambda>keyBytes.
          andThen (openVault P now vaultData keyBytes kdf) (\<lambda>_. ret True))))
         (\<lambda>e. case e of FormatError m \<Rightarrow> fail e | _ \<Rightarrow> ret False))"

definition lock :: "tk_state \<Rightarrow> tk_state" where
  "lock s = s\<lparr>st_vault := None, st_pendingRotation := None, st_isLocked := True, st_vaultKey := None,
              st_vaultKeyBytes := None, st_vaultKdf := None\<rparr>"

definition unlockWithSession :: "prims \<Rightarrow> int \<Rightarrow> string \<Rightarrow> bool tk" where
  "unlockWithSession P now password =
     andThen (unlock P now password) (\<lambda>success.
     andThen (updates (\<lambda>s. if success then persistSession now s else s)) (\<lambda>_. ret success))"

definition restoreSession :: "prims \<Rightarrow> int \<Rightarrow> bool tk" where
  "restoreSession P now = (\<lambda>s.
     case readSession now s of
       (None, t) \<Rightarrow> (Ok False, t)
     | (Some (keyBytes, kdf), t) \<Rightarrow>
         (case stored_vault t of
            None \<Rightarrow> (Ok False, t)
          | Some vaultData \<Rightarrow>
              catches (andThen (openVault P now vaultData keyBytes kdf) (\<lambda>_. ret True))
                (\<lambda>_. andThen (updates clearSession) (\<lambda>_. ret False)) t))"

definition lockWithSession :: "tk_state \<Rightarrow> tk_state" where
  "lockWithSession s = clearSession (lock s)"

text \<open>The alarm of \<open>background/index.js\<close>.\<close>

definition idle_alarm :: "int \<Rightarrow> tk_state \<Rightarrow> tk_state" where
  "idle_alarm now s = (if shouldIdleLock now s then lockWithSession s else s)"

subsection \<open>The invariant of an unlocked vault\<close>

definition pure_sites :: "(string \<times> jsval) list \<Rightarrow> bool" where
  "pure_sites kvs \<longleftrightarrow> js_pure (JObj kvs)"

definition vault_ok :: "prims \<Rightarrow> vault \<Rightarrow> bool" where
  "vault_ok P v \<longleftrightarrow>
     list_all (account_ok P) (v_accounts v) \<and> (v_active v = JUndef \<or> js_pure (v_active v)) \<and>
     pure_sites (v_permissions v) \<and> (\<exists>a. v_autoSign v = Some a \<and> pure_sites a)"

text \<open>The blob on disk is this vault, sealed under this key and descriptor.\<close>

definition sealed_as :: "prims \<Rightarrow> jsval \<Rightarrow> vault \<Rightarrow> bytes \<Rightarrow> jsval \<Rightarrow> bool" where
  "sealed_as P blob v key kdf \<longleftrightarrow> (\<exists>iv. iv \<noteq> [] \<and> blob = seal P iv (vault_js v) key kdf)"

definition unlocked_with :: "prims \<Rightarrow> tk_state \<Rightarrow> vault \<Rightarrow> bytes \<Rightarrow> jsval \<Rightarrow> bool" where
  "unlocked_with P s v key kdf \<longleftrightarrow>
     \<not> st_isLocked s \<and> st_vault s = Some v \<and> st_vaultKey s = Some key \<and> st_vaultKeyBytes s = Some key \<and>
     st_vaultKdf s = Some kdf \<and> length key = 32 \<and> (\<exists>salt. checkKdf kdf = Inr salt) \<and> vault_ok P v \<and>
     (\<exists>blob. st_vaultData s = Some blob \<and> sealed_as P blob v key kdf)"

definition locked_clean :: "tk_state \<Rightarrow> bool" where
  "locked_clean s \<longleftrightarrow>
     st_isLocked s \<and> st_vault s = None \<and> st_vaultKey s = None \<and> st_vaultKeyBytes s = None \<and>
     st_vaultKdf s = None \<and> st_pendingRotation s = None"

subsection \<open>A saved vault reads back\<close>

lemma vault_js_pure: "vault_ok P v \<Longrightarrow> js_pure (vault_js v)"
  by (auto simp: vault_ok_def vault_js_def pure_sites_def account_js_pure)

lemma vault_js_fields [simp]:
  "js_get (vault_js v) ''accounts'' = JArr (map account_js (v_accounts v))"
  "js_get (vault_js v) ''activeAccountId'' = v_active v"
  "js_get (vault_js v) ''permissions'' = JObj (v_permissions v)"
  "v_autoSign v = Some a \<Longrightarrow> js_get (vault_js v) ''autoSignSites'' = JObj a"
  by (auto simp: vault_js_def split: option.splits)

lemma decode_vault_js: "vault_ok P v \<Longrightarrow> decode_vault P now (vault_js v) = Inr v"
  by (auto simp: decode_vault_def array_of_def sites_of_def vault_ok_def parse_accounts_js)

lemma decrypt_sealed:
  assumes "aead_correct P" "vault_ok P v" "sealed_as P blob v key kdf"
  shows "decryptVaultWithKey P blob key = Inr (vault_js v)"
  using assms openSealed_seal vault_js_pure by (auto simp: sealed_as_def decryptVaultWithKey_def)

lemma openVault_sealed:
  assumes "aead_correct P" "vault_ok P v" "sealed_as P blob v key kdf" "length key = 32"
  shows "openVault P now blob key kdf' s =
    (Inr (), s\<lparr>st_vault := Some v, st_vaultKey := Some key, st_vaultKeyBytes := Some key, st_vaultKdf := Some kdf', st_isLocked := False\<rparr>)"
  using decrypt_sealed [OF assms(1-3)] decode_vault_js [OF assms(2)] assms(4)
  by (simp add: openVault_def importVaultKey_def import_aes_def andThen_apply)

subsection \<open>The cached session\<close>

lemma session_get_set:
  "session_get ''vaultKeyHex'' (persistSession t0 s) = (case (st_vaultKeyBytes s, st_vaultKdf s) of
     (Some kb, Some kdf) \<Rightarrow> JStr (toHex kb) | _ \<Rightarrow> session_get ''vaultKeyHex'' s)"
  "session_get ''vaultKdf'' (persistSession t0 s) = (case (st_vaultKeyBytes s, st_vaultKdf s) of
     (Some kb, Some kdf) \<Rightarrow> kdf | _ \<Rightarrow> session_get ''vaultKdf'' s)"
  "session_get ''lastActive'' (persistSession t0 s) = (case (st_vaultKeyBytes s, st_vaultKdf s) of
     (Some kb, Some kdf) \<Rightarrow> JNum t0 | _ \<Rightarrow> session_get ''lastActive'' s)"
  by (auto simp: session_get_def persistSession_def session_set_def split: option.splits)

text \<open>The session cache holds this key since this time.\<close>

definition cached :: "tk_state \<Rightarrow> bytes \<Rightarrow> jsval \<Rightarrow> int \<Rightarrow> bool" where
  "cached s key kdf at \<longleftrightarrow>
     session_get ''vaultKeyHex'' s = JStr (toHex key) \<and> session_get ''vaultKdf'' s = kdf \<and>
     session_get ''lastActive'' s = JNum at"

lemma persist_cached:
  "st_vaultKeyBytes s = Some key \<Longrightarrow> st_vaultKdf s = Some kdf \<Longrightarrow> cached (persistSession at s) key kdf at"
  by (simp add: cached_def session_get_set)

subsection \<open>Every operation keeps the invariant\<close>

definition session_only :: "tk_state \<Rightarrow> tk_state \<Rightarrow> bool" where
  "session_only s t \<longleftrightarrow> t = s\<lparr>st_session := st_session t\<rparr>"

lemma session_only_ops:
  "session_only s (session_set kvs s)" "session_only s (session_remove ks s)" "session_only s (persistSession now s)"
  "session_only s (clearSession s)" "session_only s (snd (readSession now s))" "session_only s (touchActivity now s)"
  by (auto simp: session_only_def session_set_def session_remove_def persistSession_def clearSession_def
      readSession_def touchActivity_def split: option.splits sum.splits)

lemma session_only_ok:
  assumes "session_only s t"
  shows "unlocked_with P t v key kdf = unlocked_with P s v key kdf" "locked_clean t = locked_clean s"
proof -
  show *: "unlocked_with P t v key kdf = unlocked_with P s v key kdf" for v key kdf
    by (subst (1) assms [unfolded session_only_def]) (simp add: unlocked_with_def)
  show **: "locked_clean t = locked_clean s"
    by (subst (1) assms [unfolded session_only_def]) (simp add: locked_clean_def)
qed

lemma lock_clean: "locked_clean (lock s)" "locked_clean (lockWithSession s)"
proof -
  show l: "locked_clean (lock s)" by (simp add: lock_def locked_clean_def)
  show "locked_clean (lockWithSession s)"
    unfolding lockWithSession_def using session_only_ok(2) [OF session_only_ops(4)] l by simp
qed

text \<open>Writing the vault puts on disk what the worker holds.\<close>

lemma encryptVaultWithKey_ok:
  "checkKdf kdf = Inr salt \<Longrightarrow> encryptVaultWithKey P iv js key kdf = Inr (seal P iv js key kdf)"
  by (simp add: encryptVaultWithKey_def)

lemma writeVault_ok:
  assumes "st_vault s = Some v" "checkKdf kdf = Inr salt"
  shows "writeVault P iv key kdf s =
    (Inr (), s\<lparr>st_vaultData := Some (seal P iv (vault_js v) key kdf), st_hasPassword := True\<rparr>)"
  using assms by (simp add: writeVault_def andThen_apply the_vault_def encryptVaultWithKey_ok)

text \<open>The vault in memory changed and the rest of the session did not: what \<open>saveVaultWithSessionKey\<close> needs.\<close>

definition session_of :: "tk_state \<Rightarrow> bytes \<Rightarrow> jsval \<Rightarrow> bool" where
  "session_of s key kdf \<longleftrightarrow>
     \<not> st_isLocked s \<and> st_vaultKey s = Some key \<and> st_vaultKeyBytes s = Some key \<and> st_vaultKdf s = Some kdf \<and>
     length key = 32 \<and> (\<exists>salt. checkKdf kdf = Inr salt)"

lemma unlocked_session: "unlocked_with P s v key kdf \<Longrightarrow> session_of s key kdf"
  by (simp add: unlocked_with_def session_of_def)

lemma saveVaultWithSessionKey_ok:
  assumes "session_of s key kdf" "st_vault s = Some v" "vault_ok P v" "iv \<noteq> []"
  defines "t \<equiv> s\<lparr>st_vaultData := Some (seal P iv (vault_js v) key kdf), st_hasPassword := True\<rparr>"
  shows "saveVaultWithSessionKey P iv s = (Inr (), t)" "unlocked_with P t v key kdf"
proof -
  show "saveVaultWithSessionKey P iv s = (Inr (), t)"
    using assms writeVault_ok by (auto simp: saveVaultWithSessionKey_def session_of_def)
  show "unlocked_with P t v key kdf"
    using assms by (auto simp: unlocked_with_def session_of_def sealed_as_def)
qed

lemma saveVault_ok:
  assumes P: "kdf_laws P" and r: "strong_rnd rnd" and v: "st_vault s = Some v"
  shows "saveVault P rnd now pw s =
    (Inr (), persistSession now
      (s\<lparr>st_vaultData := Some (seal P (snd rnd) (vault_js v) (new_key P rnd pw) (newVaultKdf (fst rnd))),
         st_hasPassword := True, st_vaultKey := Some (new_key P rnd pw), st_vaultKeyBytes := Some (new_key P rnd pw),
         st_vaultKdf := Some (newVaultKdf (fst rnd))\<rparr>))"
proof -
  have s16: "length (fst rnd) = 16" using r by (simp add: strong_rnd_def)
  have "writeVault P (snd rnd) (new_key P rnd pw) (newVaultKdf (fst rnd)) s =
      (Inr (), s\<lparr>st_vaultData := Some (seal P (snd rnd) (vault_js v) (new_key P rnd pw) (newVaultKdf (fst rnd))),
         st_hasPassword := True\<rparr>)"
    by (rule writeVault_ok [OF v newVaultKdf_ok [OF s16]])
  then show ?thesis
    using P v deriveBits_new [OF s16, of P pw]
    by (simp add: saveVault_def Let_def andThen_apply importVaultKey_def import_aes_def)
qed

lemma saveVault_unlocked:
  assumes P: "kdf_laws P" and r: "strong_rnd rnd" and v: "st_vault s = Some v" "vault_ok P v" and open_now: "\<not> st_isLocked s"
  shows "\<exists>t. saveVault P rnd now pw s = (Inr (), t) \<and>
    unlocked_with P t v (new_key P rnd pw) (newVaultKdf (fst rnd)) \<and> cached t (new_key P rnd pw) (newVaultKdf (fst rnd)) now"
proof -
  let ?key = "new_key P rnd pw"
  let ?kdf = "newVaultKdf (fst rnd)"
  let ?t = "s\<lparr>st_vaultData := Some (seal P (snd rnd) (vault_js v) ?key ?kdf), st_hasPassword := True,
     st_vaultKey := Some ?key, st_vaultKeyBytes := Some ?key, st_vaultKdf := Some ?kdf\<rparr>"
  have "unlocked_with P ?t v ?key ?kdf"
    using assms newVaultKdf_ok [of "fst rnd"]
    by (auto simp: unlocked_with_def sealed_as_def strong_rnd_def)
  moreover have "cached (persistSession now ?t) ?key ?kdf now" by (rule persist_cached) simp_all
  ultimately show ?thesis
    using saveVault_ok [OF P r v(1)] session_only_ok(1) [OF session_only_ops(3)] by auto
qed

lemma empty_vault_ok [simp]: "vault_ok P empty_vault"
  by (simp add: vault_ok_def empty_vault_def pure_sites_def)

text \<open>A password can be set once, only an acceptable one, and the worker is then unlocked on an
  empty vault sealed under it.\<close>

lemma setupPassword_twice: "st_hasPassword s \<Longrightarrow> setupPassword P rnd now pw s = (Inl (PlainError ''Password already set''), s)"
  by (simp add: setupPassword_def andThen_apply)

lemma setupPassword_weak:
  "\<not> st_hasPassword s \<Longrightarrow> vaultPasswordProblem pw = Some p \<Longrightarrow>
   setupPassword P rnd now pw s = (Inl (PlainError (problem_text p)), s)"
  by (simp add: setupPassword_def refuse_weak_def andThen_apply)

lemma setupPassword_ok:
  assumes "kdf_laws P" "strong_rnd rnd" "\<not> st_hasPassword s" "vaultPasswordProblem (JStr pw) = None"
  shows "\<exists>t. setupPassword P rnd now (JStr pw) s = (Inr (), t) \<and>
    unlocked_with P t empty_vault (new_key P rnd pw) (newVaultKdf (fst rnd)) \<and>
    cached t (new_key P rnd pw) (newVaultKdf (fst rnd)) now"
proof -
  let ?s = "s\<lparr>st_vault := Some empty_vault\<rparr>"
  let ?key = "new_key P rnd pw"
  let ?kdf = "newVaultKdf (fst rnd)"
  let ?u = "?s\<lparr>st_vaultData := Some (seal P (snd rnd) (vault_js empty_vault) ?key ?kdf), st_hasPassword := True,
     st_vaultKey := Some ?key, st_vaultKeyBytes := Some ?key, st_vaultKdf := Some ?kdf\<rparr>"
  obtain x where x: "persistSession now ?u = ?u\<lparr>st_session := x\<rparr>"
    using session_only_ops(3) [of ?u now] unfolding session_only_def by blast
  have "setupPassword P rnd now (JStr pw) s = (Inr (), ?u\<lparr>st_session := x, st_isLocked := False\<rparr>)"
    using assms(3,4) saveVault_ok [OF assms(1,2), of ?s empty_vault now pw] x
    by (simp add: setupPassword_def refuse_weak_def andThen_apply)
  moreover have "unlocked_with P (?u\<lparr>st_session := x, st_isLocked := False\<rparr>) empty_vault ?key ?kdf"
    using assms(1,2) newVaultKdf_ok [of "fst rnd"] by (auto simp: unlocked_with_def sealed_as_def strong_rnd_def)
  moreover have "cached (?u\<lparr>st_session := x, st_isLocked := False\<rparr>) ?key ?kdf now"
    using persist_cached [of ?u ?key ?kdf now] x by (simp add: cached_def session_get_def)
  ultimately show ?thesis by blast
qed

subsection \<open>Locking and opening again\<close>

definition opened_as :: "tk_state \<Rightarrow> vault \<Rightarrow> bytes \<Rightarrow> jsval \<Rightarrow> tk_state" where
  "opened_as s v key kdf =
     s\<lparr>st_vault := Some v, st_vaultKey := Some key, st_vaultKeyBytes := Some key, st_vaultKdf := Some kdf, st_isLocked := False\<rparr>"

text \<open>What is on disk is this vault, sealed under this key.\<close>

definition on_disk :: "prims \<Rightarrow> tk_state \<Rightarrow> vault \<Rightarrow> bytes \<Rightarrow> jsval \<Rightarrow> bool" where
  "on_disk P s v key kdf \<longleftrightarrow>
     vault_ok P v \<and> length key = 32 \<and> (\<exists>salt. checkKdf kdf = Inr salt) \<and>
     (\<exists>blob. st_vaultData s = Some blob \<and> sealed_as P blob v key kdf)"

lemma unlocked_on_disk: "unlocked_with P s v key kdf \<Longrightarrow> on_disk P s v key kdf"
  by (simp add: unlocked_with_def on_disk_def)

lemma on_disk_lock [simp]: "on_disk P (lockWithSession s) v key kdf = on_disk P s v key kdf"
  by (simp add: on_disk_def lockWithSession_def lock_def clearSession_def session_remove_def)

lemma opened_unlocked: "on_disk P s v key kdf \<Longrightarrow> unlocked_with P (opened_as s v key kdf) v key kdf"
  by (simp add: on_disk_def opened_as_def unlocked_with_def)

lemma sealed_stored:
  "st_vaultData s = Some blob \<Longrightarrow> sealed_as P blob v key kdf \<Longrightarrow> stored_vault s = Some blob"
  by (auto simp: stored_vault_def sealed_as_def seal_def)

lemma sealed_kdf: "sealed_as P blob v key kdf \<Longrightarrow> vaultKdfOf blob = Inr kdf"
  by (auto simp: sealed_as_def vaultKdfOf_def)

lemma stored_apply: "stored_vault s = Some d \<Longrightarrow> (opt_res e (stored_vault s), s) = (Inr d, s)"
  by simp

lemma unlock_password:
  assumes P: "aead_correct P" and d: "on_disk P s v key kdf" and pw: "deriveVaultKeyBits P pw kdf = Inr key"
  shows "unlock P now pw s = (Inr True, opened_as s v key kdf)"
proof -
  obtain blob where b: "st_vaultData s = Some blob" "sealed_as P blob v key kdf" "vault_ok P v" "length key = 32"
    using d by (auto simp: on_disk_def)
  show ?thesis
    using sealed_stored [OF b(1,2)] sealed_kdf [OF b(2)] openVault_sealed [OF P b(3,2,4), of now kdf s] pw
    by (simp add: unlock_def andThen_apply catches_def opened_as_def)
qed

text \<open>Another key opens nothing: the reply is false, the worker stays as it was.\<close>

lemma unlock_wrong_password:
  assumes P: "aead_correct P" "aead_key_binding P" "kdf_laws P" and d: "on_disk P s v key kdf"
    and pw: "deriveVaultKeyBits P pw kdf = Inr key'" "key' \<noteq> key"
  shows "unlock P now pw s = (Inr False, s)"
proof -
  obtain blob iv where b: "st_vaultData s = Some blob" "blob = seal P iv (vault_js v) key kdf" "iv \<noteq> []"
    using d by (auto simp: on_disk_def sealed_as_def)
  have sealed: "sealed_as P blob v key kdf" using b by (auto simp: sealed_as_def)
  have "length key' = 32" using pw(1) P(3) by (auto simp: deriveVaultKeyBits_def vault_key_bits_def)
  moreover have "decryptVaultWithKey P blob key' = Inl (PlainError ''Decryption failed with cached key'')"
    using P b pw(2) by (simp add: decryptVaultWithKey_def openSealed_def aead_other_key opt_res_def)
  ultimately have "openVault P now blob key' kdf s = (Inl (PlainError ''Decryption failed with cached key''), s)"
    by (simp add: openVault_def importVaultKey_def import_aes_def andThen_apply)
  then show ?thesis
    using sealed_stored [OF b(1) sealed] sealed_kdf [OF sealed] pw(1)
    by (simp add: unlock_def andThen_apply catches_def)
qed

text \<open>A restarted worker resumes from the cached key within the hour, and not after it.\<close>

lemma touch_cached: "cached s key kdf at \<Longrightarrow> \<not> st_isLocked s \<Longrightarrow> cached (touchActivity now s) key kdf now"
  by (simp add: cached_def touchActivity_def session_set_def session_get_def)

lemma cached_truthy: "on_disk P s v key kdf \<Longrightarrow> truthy (JStr (toHex key)) \<and> truthy kdf"
proof -
  assume d: "on_disk P s v key kdf"
  then obtain salt where "checkKdf kdf = Inr salt" "length key = 32" by (auto simp: on_disk_def)
  then show ?thesis by (cases kdf; cases key) (auto simp: checkKdf_def toHex_def hex_byte_def split: if_splits)
qed

lemma restore_within:
  assumes P: "aead_correct P" and d: "on_disk P s v key kdf" and c: "cached s key kdf at" and t: "now - at < IDLE_TIMEOUT_MS"
  shows "restoreSession P now s = (Inr True, opened_as s v key kdf)"
proof -
  obtain blob where b: "st_vaultData s = Some blob" "sealed_as P blob v key kdf" "vault_ok P v" "length key = 32"
    using d by (auto simp: on_disk_def)
  have "readSession now s = (Some (key, kdf), s)"
    using c t cached_truthy [OF d] by (simp add: readSession_def cached_def)
  then show ?thesis
    using sealed_stored [OF b(1,2)] openVault_sealed [OF P b(3,2,4), of now kdf s]
    by (simp add: restoreSession_def andThen_apply catches_def opened_as_def)
qed

lemma restore_expired:
  assumes "cached s key kdf at" "IDLE_TIMEOUT_MS \<le> now - at" "truthy (JStr (toHex key))" "truthy kdf"
  shows "restoreSession P now s = (Inr False, clearSession s)"
  using assms by (simp add: restoreSession_def readSession_def cached_def)

lemma cleared_gone: "session_get ''vaultKeyHex'' (clearSession s) = JUndef"
  by (simp add: session_get_def clearSession_def session_remove_def SESSION_KEYS_def)

lemma idle_alarm_locks:
  "cached s key kdf at \<Longrightarrow> \<not> st_isLocked s \<Longrightarrow> IDLE_TIMEOUT_MS \<le> now - at \<Longrightarrow> idle_alarm now s = lockWithSession s"
  "cached s key kdf at \<Longrightarrow> now - at < IDLE_TIMEOUT_MS \<Longrightarrow> idle_alarm now s = s"
  by (simp_all add: idle_alarm_def shouldIdleLock_def cached_def)

text \<open>Opening keeps the invariant whatever is stored: on failure nothing moved.\<close>

lemma openVault_fail: "openVault P now d kb kdf s = (Inl e, t) \<Longrightarrow> t = s"
  by (auto simp: openVault_def andThen_def split: sum.splits prod.splits)

lemma unlock_false_same: "unlock P now pw s = (Inr False, t) \<Longrightarrow> t = s"
  by (auto simp: unlock_def andThen_def catches_def openVault_def split: sum.splits prod.splits option.splits js_error.splits)

lemma unlock_error_same: "unlock P now pw s = (Inl e, t) \<Longrightarrow> t = s"
  by (auto simp: unlock_def andThen_def catches_def openVault_def split: sum.splits prod.splits option.splits js_error.splits)

end
