(* ===== verification/TkAccounts.thy ===== *)
theory TkAccounts
  imports TkVault
begin

text \<open>
  \<open>trustkeys/src/background/handlers/accounts.js\<close>: the identities of the extension's vault, their
  export as a backup and the import that merges one. Values from a message are \<open>jsval\<close>.
\<close>

subsection \<open>Creating, listing, choosing\<close>

definition set_vault :: "vault \<Rightarrow> unit tk" where
  "set_vault v = updates (\<lambda>s. s\<lparr>st_vault := Some v\<rparr>)"

definition createAccount :: "prims \<Rightarrow> (bytes \<times> bytes) \<times> (bytes \<times> bytes) \<Rightarrow> bytes \<Rightarrow> int \<Rightarrow> string \<Rightarrow> jsval tk" where
  "createAccount P drawn iv now name =
     andThen requireUnlocked (\<lambda>_.
     andThen (lift_res (generateAccount P drawn now name)) (\<lambda>account.
     andThen the_vault (\<lambda>v.
     andThen (set_vault (v\<lparr>v_accounts := v_accounts v @ [account],
                           v_active := (if truthy (v_active v) then v_active v else JStr (acc_id account))\<rparr>)) (\<lambda>_.
     andThen (saveVaultWithSessionKey P iv) (\<lambda>_.
       ret (JObj [(''id'', JStr (acc_id account)), (''name'', JStr (acc_name account))]))))))"

definition account_row :: "vault \<Rightarrow> account \<Rightarrow> jsval" where
  "account_row v a = JObj [(''id'', JStr (acc_id a)), (''name'', JStr (acc_name a)), (''active'', JBool (JStr (acc_id a) = v_active v))]"

definition getAccounts :: "jsval list tk" where
  "getAccounts =
     andThen requireUnlocked (\<lambda>_. andThen the_vault (\<lambda>v. ret (map (account_row v) (v_accounts v))))"

definition setActiveAccount :: "prims \<Rightarrow> bytes \<Rightarrow> jsval \<Rightarrow> unit tk" where
  "setActiveAccount P iv aid =
     andThen requireUnlocked (\<lambda>_.
     andThen the_vault (\<lambda>v.
     andThen (set_vault (v\<lparr>v_active := aid\<rparr>)) (\<lambda>_. saveVaultWithSessionKey P iv)))"

text \<open>The four fields a page may read; the dashboard (no origin) also gets the retired keys' ids
  and dates.\<close>

definition retired_row :: "retired_key \<Rightarrow> jsval" where
  "retired_row k = JObj [(''kid'', JStr (ek_kid k)), (''createdAt'', JNum (ek_createdAt k)), (''retiredAt'', JNum (rk_retiredAt k))]"

definition account_view :: "account \<Rightarrow> (string \<times> jsval) list" where
  "account_view a =
     [(''name'', JStr (acc_name a)), (''address'', JStr (acc_id a)),
      (''identityPublicKey'', JStr (hp_publicKey (acc_identity a))),
      (''encryptionPublicKey'', JStr (ek_publicKey (acc_encryption a)))]"

definition getActiveAccount :: "string option \<Rightarrow> jsval tk" where
  "getActiveAccount checkOrigin =
     andThen requireUnlocked (\<lambda>_.
     andThen the_vault (\<lambda>v.
       let external = (case checkOrigin of None \<Rightarrow> False | Some og \<Rightarrow> og \<noteq> [])
       in if external \<and> \<not> site_on (v_permissions v) (the checkOrigin)
          then fail (PlainError ''Not Connected'')
          else andThen requireActiveAccount (\<lambda>a.
            ret (JObj (if external then account_view a
                 else account_view a @ [(''retiredEncryption'', JArr (map retired_row (acc_retired a)))])))))"

subsection \<open>Backups\<close>

definition accountForExport :: "account tk" where
  "accountForExport =
     andThen the_vault (\<lambda>v.
       case active_of v of
         Some a \<Rightarrow> ret a
       | None \<Rightarrow> (case v_accounts v of
            a # _ \<Rightarrow> ret a
          | [] \<Rightarrow> fail (PlainError ''No active account to export'')))"

text \<open>What \<open>TextEncoder.encode\<close> reads of an argument: an absent one is empty.\<close>

definition text_arg :: "jsval \<Rightarrow> string" where
  "text_arg v = (if v = JUndef then [] else js_str v)"

definition confirm_password :: "prims \<Rightarrow> jsval \<Rightarrow> unit tk" where
  "confirm_password P password =
     andThen (\<lambda>s. (opt_res (PlainError ''No vault found'') (stored_vault s), s)) (\<lambda>vaultData.
     andThen (lift_res (decryptVault P vaultData (text_arg password))) (\<lambda>_. ret ()))"

definition portable_vault :: "account \<Rightarrow> jsval" where
  "portable_vault a = JObj [(''accounts'', JArr [account_js a]), (''activeAccountId'', JStr (acc_id a))]"

definition exportEncryptedVault :: "prims \<Rightarrow> bytes \<times> bytes \<Rightarrow> jsval \<Rightarrow> jsval \<Rightarrow> string tk" where
  "exportEncryptedVault P rnd password passphrase =
     andThen requireUnlocked (\<lambda>_.
     andThen (guards (truthy passphrase) (PlainError ''Backup passphrase required'')) (\<lambda>_.
     andThen (refuse_weak passphrase) (\<lambda>_.
     andThen (confirm_password P password) (\<lambda>_.
     andThen accountForExport (\<lambda>a.
     andThen (lift_res (encryptVault P rnd (portable_vault a) (text_arg passphrase))) (\<lambda>blob.
       ret (json_text blob)))))))"

definition exportActiveAccount :: "prims \<Rightarrow> jsval \<Rightarrow> account tk" where
  "exportActiveAccount P password =
     andThen requireUnlocked (\<lambda>_. andThen (confirm_password P password) (\<lambda>_. accountForExport))"

subsection \<open>Importing\<close>

definition parsed_import :: "jsval \<Rightarrow> jsval res" where
  "parsed_import vaultObj =
     (case vaultObj of
        JStr s \<Rightarrow> opt_res (PlainError ''Invalid import format (not JSON)'') (json_parse s)
      | v \<Rightarrow> Ok v)"

definition decrypted_import :: "prims \<Rightarrow> jsval \<Rightarrow> jsval \<Rightarrow> jsval \<Rightarrow> jsval res" where
  "decrypted_import P imported password passphrase =
     (if \<not> isEncryptedVaultBlob imported \<and> is_array (js_get imported ''accounts'') then Ok imported
      else
        let secret = (if truthy passphrase then passphrase else password)
        in if \<not> truthy secret then Throw (PlainError ''Backup passphrase required for encrypted .kvault file'')
           else decryptVault P imported (text_arg secret))"

definition read_import :: "prims \<Rightarrow> jsval \<Rightarrow> jsval \<Rightarrow> jsval \<Rightarrow> jsval res" where
  "read_import P vaultObj password passphrase =
     bind_res (parsed_import vaultObj) (\<lambda>i. decrypted_import P i password passphrase)"

definition import_accounts :: "prims \<Rightarrow> int \<Rightarrow> jsval \<Rightarrow> account list res" where
  "import_accounts P now d =
     (if is_nullish d then Throw null_vault
      else case array_of (js_get d ''accounts'') of
          None \<Rightarrow> Throw (PlainError ''Invalid vault data: missing accounts'')
        | Some xs \<Rightarrow> map_res (parseAccount P now) xs)"

text \<open>The set of known ids is taken once, before the loop.\<close>

definition merge_accounts :: "account list \<Rightarrow> account list \<Rightarrow> account list" where
  "merge_accounts existing imported =
     (let existingIds = map acc_id existing
      in existing @ filter (\<lambda>a. acc_id a \<notin> set existingIds) imported)"

text \<open>Into no vault at all, the import is the vault; its per-site maps are read as objects.\<close>

definition import_vault :: "jsval \<Rightarrow> account list \<Rightarrow> vault option \<Rightarrow> vault res" where
  "import_vault d accounts existing =
     (case existing of
        Some v \<Rightarrow> Ok (v\<lparr>v_accounts := merge_accounts (v_accounts v) accounts\<rparr>)
      | None \<Rightarrow>
          bind_res (sites_of (js_get d ''permissions'')) (\<lambda>permissions.
          bind_res (sites_of (js_get d ''autoSignSites'')) (\<lambda>autoSign.
            Ok \<lparr>v_accounts = accounts, v_active = js_get d ''activeAccountId'', v_permissions = permissions,
                v_autoSign = (if js_get d ''autoSignSites'' = JUndef then None else Some autoSign)\<rparr>)))"

definition importVault :: "prims \<Rightarrow> bytes \<times> bytes \<Rightarrow> int \<Rightarrow> jsval \<Rightarrow> jsval \<Rightarrow> jsval \<Rightarrow> unit tk" where
  "importVault P rnd now vaultObj password passphrase =
     andThen (lift_res (read_import P vaultObj password passphrase)) (\<lambda>d.
     andThen (lift_res (import_accounts P now d)) (\<lambda>accounts.
     andThen (\<lambda>s. (import_vault d accounts (st_vault s), s)) (\<lambda>v.
     andThen (set_vault v) (\<lambda>_.
     andThen (updates (\<lambda>s. s\<lparr>st_hasPassword := True, st_isLocked := False\<rparr>)) (\<lambda>_.
       if truthy password then saveVault P rnd now (text_arg password)
       else saveVaultWithSessionKey P (snd rnd))))))"

subsection \<open>Deleting\<close>

fun remove_first :: "('a \<Rightarrow> bool) \<Rightarrow> 'a list \<Rightarrow> 'a list" where
  "remove_first p [] = []"
| "remove_first p (x # xs) = (if p x then xs else x # remove_first p xs)"

definition without_account :: "jsval \<Rightarrow> vault \<Rightarrow> vault" where
  "without_account aid v =
     (let rest = remove_first (\<lambda>a. JStr (acc_id a) = aid) (v_accounts v)
      in v\<lparr>v_accounts := rest,
           v_active := (if v_active v = aid
                        then (case rest of a # _ \<Rightarrow> JStr (acc_id a) | [] \<Rightarrow> JNull)
                        else v_active v)\<rparr>)"

definition deleteAccount :: "prims \<Rightarrow> bytes \<Rightarrow> jsval \<Rightarrow> unit tk" where
  "deleteAccount P iv aid =
     andThen requireUnlocked (\<lambda>_.
     andThen the_vault (\<lambda>v.
     andThen (guards (list_ex (\<lambda>a. JStr (acc_id a) = aid) (v_accounts v)) (PlainError ''Account not found'')) (\<lambda>_.
     andThen (set_vault (without_account aid v)) (\<lambda>_. saveVaultWithSessionKey P iv))))"

subsection \<open>Facts\<close>

lemma unlocked_facts:
  assumes "unlocked_with P s v key kdf"
  shows "st_vault s = Some v" "\<not> st_isLocked s" "requireUnlocked s = (Inr (), s)" "the_vault s = (Inr v, s)" "vault_ok P v"
  using assms by (simp_all add: unlocked_with_def requireUnlocked_def the_vault_def)

text \<open>Every operation that changes the vault ends the same way: the changed vault is saved under
  the session's key.\<close>

definition saved :: "prims \<Rightarrow> bytes \<Rightarrow> tk_state \<Rightarrow> vault \<Rightarrow> bytes \<Rightarrow> jsval \<Rightarrow> tk_state" where
  "saved P iv s v key kdf =
     s\<lparr>st_vault := Some v, st_vaultData := Some (seal P iv (vault_js v) key kdf), st_hasPassword := True\<rparr>"

lemma set_vault_apply [simp]: "set_vault v s = (Inr (), s\<lparr>st_vault := Some v\<rparr>)"
  by (simp add: set_vault_def)

lemma set_and_save:
  assumes s: "unlocked_with P s v key kdf" and w: "vault_ok P w" and iv: "iv \<noteq> []"
  shows "saveVaultWithSessionKey P iv (s\<lparr>st_vault := Some w\<rparr>) = (Inr (), saved P iv s w key kdf)"
    and "unlocked_with P (saved P iv s w key kdf) w key kdf"
proof -
  have *: "session_of (s\<lparr>st_vault := Some w\<rparr>) key kdf" using unlocked_session [OF s] by (simp add: session_of_def)
  show "saveVaultWithSessionKey P iv (s\<lparr>st_vault := Some w\<rparr>) = (Inr (), saved P iv s w key kdf)"
    using saveVaultWithSessionKey_ok(1) [OF * _ w iv] by (simp add: saved_def)
  show "unlocked_with P (saved P iv s w key kdf) w key kdf"
    using saveVaultWithSessionKey_ok(2) [OF * _ w iv] by (simp add: saved_def)
qed

lemma vault_ok_accounts: "vault_ok P v \<Longrightarrow> list_all (account_ok P) xs \<Longrightarrow> vault_ok P (v\<lparr>v_accounts := xs\<rparr>)"
  by (simp add: vault_ok_def)

lemma vault_ok_active: "vault_ok P v \<Longrightarrow> x = JUndef \<or> js_pure x \<Longrightarrow> vault_ok P (v\<lparr>v_active := x\<rparr>)"
  by (simp add: vault_ok_def)

lemma vault_ok_accountsD: "vault_ok P v \<Longrightarrow> list_all (account_ok P) (v_accounts v)"
  by (simp add: vault_ok_def)

lemma set_remove_first: "set (remove_first p xs) \<subseteq> set xs"
  by (induction xs) auto

lemma remove_first_keeps: "x \<in> set xs \<Longrightarrow> \<not> p x \<Longrightarrow> x \<in> set (remove_first p xs)"
  by (induction xs) auto

lemma length_remove_first: "list_ex p xs \<Longrightarrow> length (remove_first p xs) = length xs - 1"
  by (induction xs) (auto simp: list_ex_iff Suc_diff_le neq_Nil_conv dest!: split_list)

lemma without_ok: "vault_ok P v \<Longrightarrow> vault_ok P (without_account aid v)"
  using set_remove_first [of "\<lambda>a. JStr (acc_id a) = aid" "v_accounts v"]
  by (auto simp: vault_ok_def without_account_def Let_def list_all_iff split: list.splits)

subsection \<open>The operations on an unlocked vault\<close>

definition with_account :: "account \<Rightarrow> vault \<Rightarrow> vault" where
  "with_account a v =
     v\<lparr>v_accounts := v_accounts v @ [a], v_active := (if truthy (v_active v) then v_active v else JStr (acc_id a))\<rparr>"

lemma with_account_ok: "vault_ok P v \<Longrightarrow> account_ok P a \<Longrightarrow> vault_ok P (with_account a v)"
  by (simp add: vault_ok_def with_account_def)

lemma createAccount_ok:
  assumes s: "unlocked_with P s v key kdf" and iv: "iv \<noteq> []"
    and a: "generateAccount P drawn now name = Inr a" "account_ok P a"
  shows "createAccount P drawn iv now name s =
      (Inr (JObj [(''id'', JStr (acc_id a)), (''name'', JStr (acc_name a))]), saved P iv s (with_account a v) key kdf)"
    and "unlocked_with P (saved P iv s (with_account a v) key kdf) (with_account a v) key kdf"
  using unlocked_facts [OF s] set_and_save [OF s with_account_ok [OF _ a(2)] iv, of v] a(1)
  by (simp_all add: createAccount_def andThen_apply with_account_def)

lemma setActiveAccount_ok:
  assumes s: "unlocked_with P s v key kdf" and iv: "iv \<noteq> []" and x: "aid = JUndef \<or> js_pure aid"
  shows "setActiveAccount P iv aid s = (Inr (), saved P iv s (v\<lparr>v_active := aid\<rparr>) key kdf)"
    and "unlocked_with P (saved P iv s (v\<lparr>v_active := aid\<rparr>) key kdf) (v\<lparr>v_active := aid\<rparr>) key kdf"
  using unlocked_facts [OF s] set_and_save [OF s vault_ok_active [OF _ x] iv, of v]
  by (simp_all add: setActiveAccount_def andThen_apply)

lemma deleteAccount_ok:
  assumes s: "unlocked_with P s v key kdf" and iv: "iv \<noteq> []" and x: "\<exists>a\<in>set (v_accounts v). JStr (acc_id a) = aid"
  shows "deleteAccount P iv aid s = (Inr (), saved P iv s (without_account aid v) key kdf)"
    and "unlocked_with P (saved P iv s (without_account aid v) key kdf) (without_account aid v) key kdf"
  using unlocked_facts [OF s] set_and_save [OF s without_ok iv, of v aid] x
  by (simp_all add: deleteAccount_def andThen_apply list_ex_iff)

lemma deleteAccount_unknown:
  assumes s: "unlocked_with P s v key kdf" and x: "\<forall>a\<in>set (v_accounts v). JStr (acc_id a) \<noteq> aid"
  shows "deleteAccount P iv aid s = (Inl (PlainError ''Account not found''), s)"
proof -
  have "\<not> list_ex (\<lambda>a. JStr (acc_id a) = aid) (v_accounts v)" using x by (simp add: list_ex_iff)
  then show ?thesis using unlocked_facts [OF s] by (simp add: deleteAccount_def andThen_apply)
qed

text \<open>A vault points at an account it holds, or holds none.\<close>

definition points_at_own :: "vault \<Rightarrow> bool" where
  "points_at_own v \<longleftrightarrow> (\<exists>a\<in>set (v_accounts v). v_active v = JStr (acc_id a)) \<or> (v_accounts v = [] \<and> \<not> truthy (v_active v))"

lemma deletion_keeps_pointing: "points_at_own v \<Longrightarrow> points_at_own (without_account aid v)"
proof -
  assume v: "points_at_own v"
  let ?p = "\<lambda>a. JStr (acc_id a) = aid"
  let ?rest = "remove_first ?p (v_accounts v)"
  have acc: "v_accounts (without_account aid v) = ?rest" by (simp add: without_account_def Let_def)
  show ?thesis
  proof (cases "v_active v = aid")
    case True
    then show ?thesis by (auto simp: points_at_own_def without_account_def Let_def split: list.splits)
  next
    case False
    then have act: "v_active (without_account aid v) = v_active v" by (simp add: without_account_def Let_def)
    show ?thesis
    proof (cases "v_accounts v = []")
      case True
      then show ?thesis using v acc act by (simp add: points_at_own_def)
    next
      case nonempty: False
      then obtain a where a: "a \<in> set (v_accounts v)" "v_active v = JStr (acc_id a)"
        using v by (auto simp: points_at_own_def)
      then have "a \<in> set ?rest" using False by (intro remove_first_keeps) auto
      then show ?thesis using a acc act by (auto simp: points_at_own_def)
    qed
  qed
qed

lemma creation_keeps_pointing: "points_at_own v \<Longrightarrow> points_at_own (with_account a v)"
  by (auto simp: points_at_own_def with_account_def)

lemma pointing_active: "points_at_own v \<Longrightarrow> v_accounts v \<noteq> [] \<Longrightarrow> \<exists>a. active_of v = Some a"
  unfolding points_at_own_def active_of_def
  by (cases "find (\<lambda>a. JStr (acc_id a) = v_active v) (v_accounts v)") (auto simp: find_None_iff)

text \<open>Choosing an account checks nothing: a vault can be left pointing at no account.\<close>

lemma choosing_unknown:
  assumes "unlocked_with P s v key kdf" "iv \<noteq> []" "js_pure aid" "v_accounts v \<noteq> []"
    "\<forall>a\<in>set (v_accounts v). JStr (acc_id a) \<noteq> aid"
  shows "\<exists>t w. setActiveAccount P iv aid s = (Inr (), t) \<and> st_vault t = Some w \<and> \<not> points_at_own w"
  using setActiveAccount_ok(1) [OF assms(1,2), of aid] assms(3-5)
  by (auto simp: saved_def points_at_own_def)

subsection \<open>Backups that come back\<close>

lemma merge_accounts_set:
  "set (merge_accounts xs ys) = set xs \<union> {a \<in> set ys. acc_id a \<notin> acc_id ` set xs}"
  by (auto simp: merge_accounts_def Let_def)

lemma merge_prefix: "take (length xs) (merge_accounts xs ys) = xs"
  by (simp add: merge_accounts_def Let_def)

lemma merge_ids: "acc_id ` set (merge_accounts xs ys) = acc_id ` set xs \<union> acc_id ` set ys"
  by (auto simp: merge_accounts_set)

lemma merge_ok:
  "list_all (account_ok P) xs \<Longrightarrow> list_all (account_ok P) ys \<Longrightarrow> list_all (account_ok P) (merge_accounts xs ys)"
  by (auto simp: list_all_iff merge_accounts_set)

text \<open>Whatever is imported, an account enters the vault only as \<open>parseAccount\<close> gives it.\<close>

lemma import_accounts_ok:
  assumes "import_accounts P now d = Inr xs"
  shows "list_all (account_ok P) xs"
  using assms map_res_set [of "parseAccount P now"] parse_ok
  by (fastforce simp: import_accounts_def list_all_iff split: if_splits option.splits)

lemma importVault_session:
  assumes s: "unlocked_with P s v key kdf" and iv: "snd rnd \<noteq> []"
    and d: "read_import P ob password passphrase = Inr d"
      "import_accounts P now d = Inr xs"
    and pw: "\<not> truthy password"
  defines "w \<equiv> v\<lparr>v_accounts := merge_accounts (v_accounts v) xs\<rparr>"
  shows "\<exists>t. importVault P rnd now ob password passphrase s = (Inr (), t) \<and> unlocked_with P t w key kdf \<and>
    st_session t = st_session s"
proof -
  have w: "vault_ok P w"
    using vault_ok_accounts [OF unlocked_facts(5) [OF s]] merge_ok [OF vault_ok_accountsD [OF unlocked_facts(5) [OF s]] import_accounts_ok [OF d(2)]]
    by (simp add: w_def)
  let ?s = "s\<lparr>st_hasPassword := True\<rparr>"
  have eq: "s\<lparr>st_vault := Some w, st_hasPassword := True, st_isLocked := False\<rparr> = ?s\<lparr>st_vault := Some w\<rparr>"
    using unlocked_facts(2) [OF s] by simp
  have "unlocked_with P ?s v key kdf"
    using s by (simp add: unlocked_with_def)
  note * = set_and_save [OF this w iv]
  show ?thesis
    using d pw unlocked_facts(1) [OF s] *(1) *(2)
    by (simp add: importVault_def andThen_apply import_vault_def w_def [symmetric] eq) (simp add: saved_def)
qed

text \<open>An import that names a password seals the merged vault under it, whatever it was.\<close>

lemma importVault_password:
  assumes P: "kdf_laws P" and r: "strong_rnd rnd" and s: "unlocked_with P s v key kdf"
    and d: "read_import P ob password passphrase = Inr d"
      "import_accounts P now d = Inr xs"
    and pw: "truthy password"
  defines "w \<equiv> v\<lparr>v_accounts := merge_accounts (v_accounts v) xs\<rparr>"
  shows "\<exists>t. importVault P rnd now ob password passphrase s = (Inr (), t) \<and>
    unlocked_with P t w (new_key P rnd (text_arg password)) (newVaultKdf (fst rnd)) \<and>
    cached t (new_key P rnd (text_arg password)) (newVaultKdf (fst rnd)) now"
proof -
  have w: "vault_ok P w"
    using vault_ok_accounts [OF unlocked_facts(5) [OF s]] merge_ok [OF vault_ok_accountsD [OF unlocked_facts(5) [OF s]] import_accounts_ok [OF d(2)]]
    by (simp add: w_def)
  let ?u = "s\<lparr>st_vault := Some w, st_hasPassword := True, st_isLocked := False\<rparr>"
  obtain t where "saveVault P rnd now (text_arg password) ?u = (Inr (), t)"
      "unlocked_with P t w (new_key P rnd (text_arg password)) (newVaultKdf (fst rnd))"
      "cached t (new_key P rnd (text_arg password)) (newVaultKdf (fst rnd)) now"
    using saveVault_unlocked [OF P r _ w, of ?u] by auto
  then show ?thesis
    using d pw unlocked_facts(1) [OF s]
    by (simp add: importVault_def andThen_apply import_vault_def w_def [symmetric])
qed

text \<open>A backup of the active account, opened with its passphrase, gives that account back.\<close>

lemma portable_pure: "js_pure (portable_vault a)"
  by (simp add: portable_vault_def account_js_pure)

lemma portable_accounts: "account_ok P a \<Longrightarrow> import_accounts P now (portable_vault a) = Inr [a]"
  by (simp add: import_accounts_def portable_vault_def array_of_def parse_account_js)

lemma exported_blob:
  assumes "aead_correct P" "kdf_laws P" "strong_rnd rnd"
  shows "\<exists>blob. encryptVault P rnd (portable_vault a) pp = Inr blob \<and> js_pure blob \<and> isEncryptedVaultBlob blob \<and>
    decryptVault P blob pp = Inr (portable_vault a)"
  using sealed_file [OF assms portable_pure] .

text \<open>Exporting asks for the vault's password, which only opens the stored vault.\<close>

lemma export_ok:
  assumes P: "aead_correct P" "kdf_laws P" and r: "strong_rnd rnd" and s: "unlocked_with P s v key kdf"
    and pw: "deriveVaultKeyBits P pw kdf = Inr key"
    and pp: "vaultPasswordProblem (JStr pp) = None" and a: "active_of v = Some a"
  shows "\<exists>blob. exportEncryptedVault P rnd (JStr pw) (JStr pp) s = (Inr (json_text blob), s) \<and>
    js_pure blob \<and> isEncryptedVaultBlob blob \<and> decryptVault P blob pp = Inr (portable_vault a)"
proof -
  obtain b0 where b0: "st_vaultData s = Some b0" "sealed_as P b0 v key kdf" "length key = 32"
    using s by (auto simp: unlocked_with_def)
  have "deriveKey P pw kdf = Inr key" using pw b0(3) by (simp add: deriveKey_def importVaultKey_def import_aes_def)
  moreover have "openSealed P b0 key = Inr (vault_js v)"
    using openSealed_seal [OF P(1)] vault_js_pure [OF unlocked_facts(5) [OF s]] b0(2) by (auto simp: sealed_as_def)
  ultimately have "decryptVault P b0 pw = Inr (vault_js v)" by (simp add: decryptVault_def sealed_kdf [OF b0(2)])
  then have c: "confirm_password P (JStr pw) s = (Inr (), s)"
    using sealed_stored [OF b0(1,2)] by (simp add: confirm_password_def andThen_apply text_arg_def)
  have "pp \<noteq> []" using pp by (auto simp: password_accepted_iff)
  moreover obtain blob where "encryptVault P rnd (portable_vault a) pp = Inr blob" "js_pure blob" "isEncryptedVaultBlob blob"
      "decryptVault P blob pp = Inr (portable_vault a)"
    using exported_blob [OF P r] by blast
  ultimately have "exportEncryptedVault P rnd (JStr pw) (JStr pp) s = (Inr (json_text blob), s)"
      "js_pure blob" "isEncryptedVaultBlob blob" "decryptVault P blob pp = Inr (portable_vault a)"
    using c pp a unlocked_facts [OF s]
    by (simp_all add: exportEncryptedVault_def andThen_apply refuse_weak_def accountForExport_def text_arg_def)
  then show ?thesis by blast
qed

lemma export_import:
  assumes P: "aead_correct P" "kdf_laws P" and r: "strong_rnd rnd" "strong_rnd rnd'"
    and s: "unlocked_with P s v key kdf" "deriveVaultKeyBits P pw kdf = Inr key" "active_of v = Some a"
    and pp: "vaultPasswordProblem (JStr pp) = None"
    and t: "unlocked_with P t w key' kdf'"
  shows "\<exists>file u. exportEncryptedVault P rnd (JStr pw) (JStr pp) s = (Inr file, s) \<and>
    importVault P rnd' now (JStr file) JUndef (JStr pp) t = (Inr (), u) \<and>
    unlocked_with P u (w\<lparr>v_accounts := merge_accounts (v_accounts w) [a]\<rparr>) key' kdf'"
proof -
  obtain blob where b: "exportEncryptedVault P rnd (JStr pw) (JStr pp) s = (Inr (json_text blob), s)"
      "js_pure blob" "isEncryptedVaultBlob blob" "decryptVault P blob pp = Inr (portable_vault a)"
    using export_ok [OF P r(1) s(1,2) pp s(3)] by blast
  have "pp \<noteq> []" using pp by (auto simp: password_accepted_iff)
  then have d: "read_import P (JStr (json_text blob)) JUndef (JStr pp) = Inr (portable_vault a)"
    using b(2-4) by (simp add: read_import_def parsed_import_def json_parse_text decrypted_import_def text_arg_def)
  have a: "account_ok P a"
    using vault_ok_accountsD [OF unlocked_facts(5) [OF s(1)]] active_of_mem [OF s(3)] by (auto simp: list_all_iff)
  have "snd rnd' \<noteq> []" using r(2) by (simp add: strong_rnd_def)
  then obtain u where "importVault P rnd' now (JStr (json_text blob)) JUndef (JStr pp) t = (Inr (), u)"
      "unlocked_with P u (w\<lparr>v_accounts := merge_accounts (v_accounts w) [a]\<rparr>) key' kdf'"
    using importVault_session [OF t _ d portable_accounts [OF a], of rnd' now] by auto
  then show ?thesis using b(1) by blast
qed

text \<open>A page reads four public fields of the account, never a seed.\<close>

lemma page_view:
  assumes "getActiveAccount (Some og) s = (Inr r, t)" and "og \<noteq> []"
  shows "\<exists>v a. st_vault s = Some v \<and> site_on (v_permissions v) og \<and> active_of v = Some a \<and> \<not> st_isLocked s \<and>
    r = JObj (account_view a) \<and> t = s"
  using assms
  by (auto simp: getActiveAccount_def andThen_Ok requireUnlocked_ok the_vault_ok requireActiveAccount_ok Let_def split: if_splits)

end
