(* ===== verification/TkApprovals.thy ===== *)
theory TkApprovals
  imports TkState Interfaces
begin

text \<open>
  \<open>trustkeys/src/background/approvals.js\<close> and the tracked windows of \<open>utils.js\<close>: requests
  that wait for the user. A request is settled by an approval, a refusal, its timeout, the
  dismissal of the window, a full queue, or a window that would not open. What Chrome answers
  (focus, the last focused window, a new window's id) is an argument.
\<close>

subsection \<open>Windows\<close>

record window_world =
  ww_focus :: "int \<Rightarrow> bool"
  ww_last :: "(int \<times> int \<times> int) option"
  ww_create :: "(int \<times> int) option \<Rightarrow> int option option"

datatype window_slot = Popup_window | Approval_window

fun get_slot :: "window_slot \<Rightarrow> tk_state \<Rightarrow> int option" where
  "get_slot Popup_window s = st_popupWindow s"
| "get_slot Approval_window s = st_approvalWindow s"

fun set_slot :: "window_slot \<Rightarrow> int option \<Rightarrow> tk_state \<Rightarrow> tk_state" where
  "set_slot Popup_window w s = s\<lparr>st_popupWindow := w\<rparr>"
| "set_slot Approval_window w s = s\<lparr>st_approvalWindow := w\<rparr>"

text \<open>Below the toolbar, inset from the right edge of the last focused window, whose left,
  width and top are given.\<close>

definition window_position :: "window_world \<Rightarrow> (int \<times> int) option" where
  "window_position w = map_option (\<lambda>(left, width, top). (left + width - 360 - 20, top + 80)) (ww_last w)"

text \<open>Positioned first, unpositioned if Chrome refuses the position.\<close>

fun try_create :: "window_world \<Rightarrow> window_slot \<Rightarrow> (int \<times> int) option list \<Rightarrow> tk_state \<Rightarrow> bool \<times> tk_state" where
  "try_create w slot [] s = (False, s)"
| "try_create w slot (p # ps) s =
     (case ww_create w p of
        Some wid \<Rightarrow> (True, set_slot slot wid s)
      | None \<Rightarrow> try_create w slot ps s)"

definition create_attempts :: "window_world \<Rightarrow> (int \<times> int) option list" where
  "create_attempts w = (case window_position w of None \<Rightarrow> [None] | Some p \<Rightarrow> [Some p, None])"

definition openTrackedWindow :: "window_world \<Rightarrow> window_slot \<Rightarrow> tk_state \<Rightarrow> bool \<times> tk_state" where
  "openTrackedWindow w slot s =
     (case get_slot slot s of
        Some wid \<Rightarrow>
          if ww_focus w wid then (True, s)
          else try_create w slot (create_attempts w) (set_slot slot None s)
      | None \<Rightarrow> try_create w slot (create_attempts w) s)"

definition launchPopup :: "window_world \<Rightarrow> tk_state \<Rightarrow> bool \<times> tk_state" where
  "launchPopup w s = openTrackedWindow w Popup_window s"

subsection \<open>The queue\<close>

definition MAX_PENDING_PER_ORIGIN :: nat where "MAX_PENDING_PER_ORIGIN = 3"
definition MAX_PENDING_TOTAL :: nat where "MAX_PENDING_TOTAL = 10"
definition APPROVAL_TIMEOUT_MS :: int where "APPROVAL_TIMEOUT_MS = 3 * 60 * 1000"

definition pendingForOrigin :: "string \<Rightarrow> tk_state \<Rightarrow> nat" where
  "pendingForOrigin origin s = length (filter (\<lambda>(_, rq). rq_origin rq = origin) (st_pending s))"

text \<open>Which of its two callbacks a request's settlement calls.\<close>

datatype settlement =
    Approve request
  | Refuse request string

text \<open>\<open>finish()\<close>: the first to settle a request takes it off the queue; later calls do nothing.\<close>

definition settle :: "string \<Rightarrow> (request \<Rightarrow> settlement) \<Rightarrow> tk_state \<Rightarrow> settlement option \<times> tk_state" where
  "settle rid how s =
     (case map_of (st_pending s) rid of
        None \<Rightarrow> (None, s)
      | Some rq \<Rightarrow> (Some (how rq), s\<lparr>st_pending := obj_del rid (st_pending s)\<rparr>))"

text \<open>\<open>requestApproval\<close> up to the moment it waits for the window: the caps, then the entry.\<close>

definition requestApproval_begin :: "string \<Rightarrow> request \<Rightarrow> tk_state \<Rightarrow> settlement option \<times> tk_state" where
  "requestApproval_begin rid rq s =
     (if MAX_PENDING_TOTAL \<le> length (st_pending s)
      then (Some (Refuse rq ''Too many approval requests are already waiting''), s)
      else if MAX_PENDING_PER_ORIGIN \<le> pendingForOrigin (rq_origin rq) s
      then (Some (Refuse rq (''Too many pending approvals for '' @ rq_origin rq)), s)
      else (None, s\<lparr>st_pending := obj_put rid rq (st_pending s)\<rparr>))"

text \<open>And from the window's answer on.\<close>

definition requestApproval_window :: "string \<Rightarrow> bool \<Rightarrow> tk_state \<Rightarrow> settlement option \<times> tk_state" where
  "requestApproval_window rid opened s =
     (if opened then (None, s)
      else settle rid (\<lambda>rq. Refuse rq ''Could not open the approval window'') s)"

definition requestApproval :: "window_world \<Rightarrow> string \<Rightarrow> request \<Rightarrow> tk_state \<Rightarrow> settlement option \<times> tk_state" where
  "requestApproval w rid rq s =
     (case requestApproval_begin rid rq s of
        (Some r, t) \<Rightarrow> (Some r, t)
      | (None, t) \<Rightarrow>
          (case openTrackedWindow w Approval_window t of
             (opened, u) \<Rightarrow> requestApproval_window rid opened u))"

definition approval_timeout :: "string \<Rightarrow> tk_state \<Rightarrow> settlement option \<times> tk_state" where
  "approval_timeout rid s = settle rid (\<lambda>rq. Refuse rq ''Approval timed out'') s"

definition nextApprovalId :: "tk_state \<Rightarrow> string option" where
  "nextApprovalId s = (case st_pending s of [] \<Rightarrow> None | (rid, _) # _ \<Rightarrow> Some rid)"

definition peekApproval :: "jsval \<Rightarrow> tk_state \<Rightarrow> (string \<times> request) option" where
  "peekApproval requestId s =
     (case (if truthy requestId then the_str requestId else nextApprovalId s) of
        None \<Rightarrow> None
      | Some rid \<Rightarrow> map_option (\<lambda>rq. (rid, rq)) (map_of (st_pending s) rid))"

text \<open>The reply is whether the request was there, and the next one waiting.\<close>

definition settleApproval :: "string \<Rightarrow> bool \<Rightarrow> tk_state \<Rightarrow> (settlement option \<times> (bool \<times> string option)) \<times> tk_state" where
  "settleApproval rid approved s =
     (case settle rid (\<lambda>rq. if approved then Approve rq else Refuse rq ''Rejected'') s of
        (None, t) \<Rightarrow> ((None, (False, nextApprovalId t)), t)
      | (Some r, t) \<Rightarrow> ((Some r, (True, nextApprovalId t)), t))"

definition rejectAllApprovals :: "string \<Rightarrow> tk_state \<Rightarrow> (string \<times> settlement) list \<times> tk_state" where
  "rejectAllApprovals reason s =
     (map (\<lambda>(rid, rq). (rid, Refuse rq reason)) (st_pending s), s\<lparr>st_pending := []\<rparr>)"

definition handleWindowClosed :: "int \<Rightarrow> tk_state \<Rightarrow> (string \<times> settlement) list \<times> tk_state" where
  "handleWindowClosed wid s =
     (let t = (if st_popupWindow s = Some wid then s\<lparr>st_popupWindow := None\<rparr> else s)
      in if st_approvalWindow t \<noteq> Some wid then ([], t)
         else rejectAllApprovals ''Approval window closed'' (t\<lparr>st_approvalWindow := None\<rparr>))"

subsection \<open>The queue as a machine\<close>

text \<open>
  The events that reach the queue, in any order. A request's id is \<open>crypto.randomUUID()\<close>,
  which does not repeat: a second request under an id already issued is not an event of the
  machine. The log is the sequence of settlements; a settled request's callback has been called.
\<close>

datatype approval_event =
    Ev_request string request
  | Ev_window string bool
  | Ev_timeout string
  | Ev_settle string bool
  | Ev_closed int

record approval_run =
  ar_state :: tk_state
  ar_issued :: "string list"
  ar_log :: "(string \<times> settlement) list"

definition log_one :: "string \<Rightarrow> settlement option \<times> tk_state \<Rightarrow> approval_run \<Rightarrow> approval_run" where
  "log_one rid out r = r\<lparr>ar_state := snd out, ar_log := ar_log r @ (case fst out of None \<Rightarrow> [] | Some x \<Rightarrow> [(rid, x)])\<rparr>"

fun approval_step :: "approval_event \<Rightarrow> approval_run \<Rightarrow> approval_run" where
  "approval_step (Ev_request rid rq) r =
     (if rid \<in> set (ar_issued r) then r
      else log_one rid (requestApproval_begin rid rq (ar_state r)) (r\<lparr>ar_issued := rid # ar_issued r\<rparr>))"
| "approval_step (Ev_window rid ok) r = log_one rid (requestApproval_window rid ok (ar_state r)) r"
| "approval_step (Ev_timeout rid) r = log_one rid (approval_timeout rid (ar_state r)) r"
| "approval_step (Ev_settle rid ok) r =
     (case settleApproval rid ok (ar_state r) of ((x, _), t) \<Rightarrow> log_one rid (x, t) r)"
| "approval_step (Ev_closed wid) r =
     (case handleWindowClosed wid (ar_state r) of (xs, t) \<Rightarrow> r\<lparr>ar_state := t, ar_log := ar_log r @ xs\<rparr>)"

definition queue_ok :: "tk_state \<Rightarrow> bool" where
  "queue_ok s \<longleftrightarrow>
     distinct (map fst (st_pending s)) \<and> length (st_pending s) \<le> MAX_PENDING_TOTAL \<and>
     (\<forall>origin. pendingForOrigin origin s \<le> MAX_PENDING_PER_ORIGIN)"

definition run_ok :: "approval_run \<Rightarrow> bool" where
  "run_ok r \<longleftrightarrow>
     queue_ok (ar_state r) \<and> distinct (map fst (ar_log r)) \<and>
     set (map fst (st_pending (ar_state r))) \<inter> set (map fst (ar_log r)) = {} \<and>
     set (map fst (st_pending (ar_state r))) \<union> set (map fst (ar_log r)) = set (ar_issued r)"

subsection \<open>Facts\<close>

lemma length_obj_del: "length (filter p (obj_del k xs)) \<le> length (filter p xs)"
  by (induction xs) (auto simp: obj_del_def)

lemma queue_ok_del: "queue_ok s \<Longrightarrow> queue_ok (s\<lparr>st_pending := obj_del rid (st_pending s)\<rparr>)"
proof -
  assume q: "queue_ok s"
  have "length (obj_del rid (st_pending s)) \<le> length (st_pending s)"
    using length_obj_del [of "\<lambda>_. True"] by simp
  moreover have "pendingForOrigin og (s\<lparr>st_pending := obj_del rid (st_pending s)\<rparr>) \<le> pendingForOrigin og s" for og
    using length_obj_del by (simp add: pendingForOrigin_def)
  ultimately show ?thesis
    using q distinct_obj_del [of "st_pending s" rid] unfolding queue_ok_def by (simp, meson le_trans)
qed

lemma map_of_None_keys: "map_of xs k = None \<longleftrightarrow> k \<notin> set (map fst xs)"
  by (simp add: map_of_eq_None_iff)

lemma settle_cases:
  obtains "settle rid how s = (None, s)" "rid \<notin> set (map fst (st_pending s))"
  | rq where "settle rid how s = (Some (how rq), s\<lparr>st_pending := obj_del rid (st_pending s)\<rparr>)"
      "rid \<in> set (map fst (st_pending s))" "map_of (st_pending s) rid = Some rq"
proof (cases "map_of (st_pending s) rid")
  case None
  then show thesis using that(1) map_of_None_keys [of "st_pending s" rid] by (simp add: settle_def)
next
  case (Some rq)
  then have "rid \<in> set (map fst (st_pending s))"
    using map_of_None_keys [of "st_pending s" rid] by simp
  then show thesis using that(2) Some by (simp add: settle_def)
qed

lemma run_ok_settle:
  assumes "run_ok r"
  shows "run_ok (log_one rid (settle rid how (ar_state r)) r)"
  using assms
  by (cases rule: settle_cases [of rid how "ar_state r"])
    (auto simp: run_ok_def log_one_def queue_ok_del keys_obj_del)

lemma run_ok_noop: "run_ok r \<Longrightarrow> run_ok (log_one rid (None, ar_state r) r)"
  by (simp add: run_ok_def log_one_def)

lemma pendingForOrigin_put:
  "rid \<notin> set (map fst (st_pending s)) \<Longrightarrow>
   pendingForOrigin og (s\<lparr>st_pending := obj_put rid rq (st_pending s)\<rparr>) =
     pendingForOrigin og s + (if rq_origin rq = og then 1 else 0)"
  by (simp add: pendingForOrigin_def obj_put_fresh)

lemma run_ok_begin:
  assumes r: "run_ok r" and new: "rid \<notin> set (ar_issued r)"
  shows "run_ok (log_one rid (requestApproval_begin rid rq (ar_state r)) (r\<lparr>ar_issued := rid # ar_issued r\<rparr>))"
proof -
  let ?s = "ar_state r"
  have fresh: "rid \<notin> set (map fst (st_pending ?s))" "rid \<notin> set (map fst (ar_log r))"
    using r new unfolding run_ok_def by blast+
  show ?thesis
  proof (cases "requestApproval_begin rid rq ?s")
    case (Pair out t)
    consider e where "out = Some e" "t = ?s"
      | "out = None" "t = ?s\<lparr>st_pending := obj_put rid rq (st_pending ?s)\<rparr>"
        "length (st_pending ?s) < MAX_PENDING_TOTAL" "pendingForOrigin (rq_origin rq) ?s < MAX_PENDING_PER_ORIGIN"
      using Pair by (auto simp: requestApproval_begin_def not_le split: if_splits)
    then show ?thesis
    proof cases
      case 1
      then show ?thesis using r fresh Pair by (auto simp: run_ok_def log_one_def)
    next
      case 2
      have "queue_ok t"
        using r 2 fresh(1) pendingForOrigin_put [OF fresh(1)]
        by (auto simp: queue_ok_def run_ok_def obj_put_fresh)
      then show ?thesis
        using r fresh Pair 2 by (auto simp: run_ok_def log_one_def obj_put_fresh)
    qed
  qed
qed

lemma queue_ok_slots [simp]:
  "queue_ok (s\<lparr>st_popupWindow := w\<rparr>) = queue_ok s" "queue_ok (s\<lparr>st_approvalWindow := w\<rparr>) = queue_ok s"
  by (simp_all add: queue_ok_def pendingForOrigin_def)

lemma queue_ok_empty: "queue_ok (s\<lparr>st_pending := []\<rparr>)"
  by (simp add: queue_ok_def pendingForOrigin_def)

lemma map_fst_refused [simp]: "map fst (map (\<lambda>(rid, rq). (rid, Refuse rq m)) xs) = map fst xs"
  by (induction xs) auto

lemma handleWindowClosed_cases:
  obtains t where "handleWindowClosed wid s = ([], t)" "st_pending t = st_pending s" "queue_ok t = queue_ok s"
  | t where "handleWindowClosed wid s = (map (\<lambda>(rid, rq). (rid, Refuse rq ''Approval window closed'')) (st_pending s), t)"
      "st_pending t = []"
proof (cases "st_approvalWindow s = Some wid")
  case True
  let ?t = "s\<lparr>st_popupWindow := (if st_popupWindow s = Some wid then None else st_popupWindow s),
      st_approvalWindow := None, st_pending := []\<rparr>"
  show thesis
    by (rule that(2) [of ?t]) (use True in \<open>simp_all add: handleWindowClosed_def rejectAllApprovals_def Let_def\<close>)
next
  case False
  let ?t = "if st_popupWindow s = Some wid then s\<lparr>st_popupWindow := None\<rparr> else s"
  show thesis
    by (rule that(1) [of ?t]) (use False in \<open>simp_all add: handleWindowClosed_def Let_def\<close>)
qed

lemma run_ok_closed:
  assumes "run_ok r"
  shows "run_ok (approval_step (Ev_closed wid) r)"
proof (cases rule: handleWindowClosed_cases [of wid "ar_state r"])
  case (1 t)
  then show ?thesis using assms by (simp add: run_ok_def)
next
  case (2 t)
  have "queue_ok t" using 2(2) by (simp add: queue_ok_def pendingForOrigin_def)
  moreover have "distinct (map fst (st_pending (ar_state r)))"
    using assms by (simp add: run_ok_def queue_ok_def)
  ultimately show ?thesis
    using 2 assms unfolding run_ok_def approval_step.simps 2(1) prod.case
    by (simp add: Int_commute Un_commute del: map_map)
qed

lemma approval_step_ok: "run_ok r \<Longrightarrow> run_ok (approval_step e r)"
proof (cases e)
  case (Ev_request rid rq)
  assume "run_ok r"
  then show ?thesis using Ev_request run_ok_begin by simp
next
  case (Ev_window rid ok)
  assume "run_ok r"
  then show ?thesis
    using Ev_window run_ok_settle run_ok_noop by (simp add: requestApproval_window_def)
next
  case (Ev_timeout rid)
  assume "run_ok r"
  then show ?thesis using Ev_timeout run_ok_settle by (simp add: approval_timeout_def)
next
  case (Ev_settle rid ok)
  assume r: "run_ok r"
  let ?how = "\<lambda>rq. if ok then Approve rq else Refuse rq ''Rejected''"
  have "approval_step (Ev_settle rid ok) r = log_one rid (settle rid ?how (ar_state r)) r"
    by (auto simp: settleApproval_def split: prod.splits option.splits)
  then show ?thesis using run_ok_settle [OF r] Ev_settle by simp
next
  case (Ev_closed wid)
  assume "run_ok r"
  then show ?thesis using Ev_closed run_ok_closed by simp
qed

interpretation approvals: guarded_machine approval_step run_ok
  by unfold_locales (rule approval_step_ok)

definition run_approvals :: "approval_event list \<Rightarrow> approval_run \<Rightarrow> approval_run" where
  "run_approvals es r = fold approval_step es r"

definition start_run :: "tk_state \<Rightarrow> approval_run" where
  "start_run s = \<lparr>ar_state = s, ar_issued = map fst (st_pending s), ar_log = []\<rparr>"

lemma start_run_ok: "queue_ok s \<Longrightarrow> run_ok (start_run s)"
  by (simp add: run_ok_def start_run_def)

lemma queue_always_ok: "queue_ok s \<Longrightarrow> queue_ok (ar_state (run_approvals es (start_run s)))"
  using approvals.run_inv [OF start_run_ok] by (simp add: run_approvals_def run_ok_def)

lemma settled_at_most_once: "queue_ok s \<Longrightarrow> distinct (map fst (ar_log (run_approvals es (start_run s))))"
  using approvals.run_inv [OF start_run_ok] by (simp add: run_approvals_def run_ok_def)

lemma waiting_or_settled:
  "queue_ok s \<Longrightarrow> rid \<in> set (ar_issued (run_approvals es (start_run s))) \<Longrightarrow>
   (rid \<in> set (map fst (st_pending (ar_state (run_approvals es (start_run s)))))) \<noteq>
   (rid \<in> set (map fst (ar_log (run_approvals es (start_run s)))))"
  using approvals.run_inv [OF start_run_ok, of s es] unfolding run_approvals_def run_ok_def by blast

text \<open>A timeout leaves nothing waiting under its id, and settled requests stay settled.\<close>

lemma settle_removes: "rid \<notin> set (map fst (st_pending (snd (settle rid how s))))"
  by (cases rule: settle_cases [of rid how s]) (auto simp: keys_obj_del)

lemma log_grows: "set (ar_log r) \<subseteq> set (ar_log (approval_step e r))"
  by (cases e) (auto simp: log_one_def split: prod.splits option.splits)

lemma log_grows_run: "set (ar_log r) \<subseteq> set (ar_log (run_approvals es r))"
proof (induction es arbitrary: r)
  case (Cons e es)
  then show ?case using log_grows [of r e] by (fastforce simp: run_approvals_def)
qed (simp add: run_approvals_def)

lemma run_append: "run_approvals (es @ fs) r = run_approvals fs (run_approvals es r)"
  by (simp add: run_approvals_def)

lemma timeout_settles:
  assumes "queue_ok s" and "rid \<in> set (ar_issued (run_approvals es (start_run s)))"
  shows "rid \<in> set (map fst (ar_log (run_approvals (es @ Ev_timeout rid # fs) (start_run s))))"
proof -
  let ?r = "run_approvals es (start_run s)"
  let ?t = "approval_step (Ev_timeout rid) ?r"
  have t: "?t = run_approvals (es @ [Ev_timeout rid]) (start_run s)"
    by (simp add: run_approvals_def)
  have "rid \<in> set (ar_issued ?t)"
    using assms(2) by (simp add: log_one_def)
  moreover have "rid \<notin> set (map fst (st_pending (ar_state ?t)))"
    using settle_removes by (simp add: log_one_def approval_timeout_def)
  ultimately have "rid \<in> set (map fst (ar_log ?t))"
    using waiting_or_settled [OF assms(1), of rid "es @ [Ev_timeout rid]"] unfolding t by blast
  moreover have "run_approvals (es @ Ev_timeout rid # fs) (start_run s) = run_approvals fs ?t"
    by (simp add: run_approvals_def)
  ultimately show ?thesis
    using image_mono [OF log_grows_run [of ?t fs], of fst] by auto
qed

text \<open>Only the user's approval approves.\<close>

lemma approve_step:
  "(rid, Approve rq) \<in> set (ar_log (approval_step e r)) \<Longrightarrow> (rid, Approve rq) \<notin> set (ar_log r) \<Longrightarrow> e = Ev_settle rid True"
  by (cases e)
    (auto simp: log_one_def requestApproval_begin_def requestApproval_window_def approval_timeout_def settle_def
      settleApproval_def handleWindowClosed_def rejectAllApprovals_def Let_def split: if_splits option.splits)

lemma approved_by_user:
  "(rid, Approve rq) \<in> set (ar_log (run_approvals es r)) \<Longrightarrow> (rid, Approve rq) \<notin> set (ar_log r) \<Longrightarrow>
   Ev_settle rid True \<in> set es"
proof (induction es arbitrary: r)
  case (Cons e es)
  then show ?case
    using approve_step [of rid rq e r] by (cases "(rid, Approve rq) \<in> set (ar_log (approval_step e r))")
      (auto simp: run_approvals_def)
qed (simp add: run_approvals_def)

text \<open>Closing the approval window empties the queue and refuses all it held, in order.\<close>

lemma window_closed_refuses:
  "st_approvalWindow s = Some wid \<Longrightarrow>
   handleWindowClosed wid s =
     (map (\<lambda>(rid, rq). (rid, Refuse rq ''Approval window closed'')) (st_pending s),
      s\<lparr>st_popupWindow := (if st_popupWindow s = Some wid then None else st_popupWindow s),
        st_approvalWindow := None, st_pending := []\<rparr>)"
  by (simp add: handleWindowClosed_def rejectAllApprovals_def Let_def)

text \<open>Opening a tracked window touches its own slot only, and reports a window exactly when
  one was focused or created.\<close>

lemma set_slot_queue [simp]: "st_pending (set_slot slot w s) = st_pending s"
  by (cases slot) simp_all

lemma try_create_queue: "st_pending (snd (try_create w slot ps s)) = st_pending s"
  by (induction w slot ps s rule: try_create.induct) (auto split: option.splits)

lemma openTrackedWindow_queue: "st_pending (snd (openTrackedWindow w slot s)) = st_pending s"
  by (cases slot) (auto simp: openTrackedWindow_def try_create_queue split: option.splits)

lemma position_refused_still_opens:
  "get_slot slot s = None \<Longrightarrow> ww_create w None = Some wid \<Longrightarrow> fst (openTrackedWindow w slot s)"
  by (auto simp: openTrackedWindow_def create_attempts_def split: option.splits)

end
