(* ===== verification/TkConnect.thy ===== *)
theory TkConnect
  imports TkAccounts TkApprovals
begin

text \<open>
  \<open>trustkeys/src/background/handlers/connection.js\<close> and the sender checks of
  \<open>background/utils.js\<close>: which sites may use the keys, and the content scripts injected into
  them. Chrome is a parameter: its URL parser, the active tab, the windows. What it stores (host
  permissions, registered scripts) is in the state.
\<close>

subsection \<open>Origins\<close>

record parsed_url =
  url_protocol :: string
  url_hostname :: string
  url_origin :: string

type_synonym url_parser = "string \<Rightarrow> parsed_url option"

definition isDevOrigin :: "url_parser \<Rightarrow> string \<Rightarrow> bool" where
  "isDevOrigin U origin =
     (case U origin of
        None \<Rightarrow> False
      | Some url \<Rightarrow> url_protocol url = ''http:'' \<and> (url_hostname url = ''localhost'' \<or> url_hostname url = ''127.0.0.1''))"

definition isAllowedTrustedOrigin :: "url_parser \<Rightarrow> string \<Rightarrow> bool" where
  "isAllowedTrustedOrigin U origin =
     (if origin = [] then False
      else if isDevOrigin U origin then True
      else starts_with origin ''https://'')"

definition hasHostPermission :: "string \<Rightarrow> tk_state \<Rightarrow> bool" where
  "hasHostPermission origin s \<longleftrightarrow> origin \<in> set (st_hostPermissions s)"

subsection \<open>Replies\<close>

definition ok_reply :: "(string \<times> jsval) list \<Rightarrow> jsval" where
  "ok_reply kvs = JObj ((''success'', JBool True) # kvs)"

definition err_reply :: "string \<Rightarrow> jsval" where
  "err_reply m = JObj [(''success'', JBool False), (''error'', JStr m)]"

text \<open>A raw handler answers now, or leaves its answer to the queue (\<open>None\<close>). A refused request
  is answered by its reject callback, the same in every handler.\<close>

definition queued :: "settlement option \<Rightarrow> jsval option" where
  "queued out = (case out of Some (Refuse rq m) \<Rightarrow> Some (err_reply m) | _ \<Rightarrow> None)"

definition ask_user :: "window_world \<Rightarrow> string \<Rightarrow> request \<Rightarrow> jsval option tk" where
  "ask_user w rid rq = (\<lambda>s. case requestApproval w rid rq s of (out, t) \<Rightarrow> (Ok (queued out), t))"

subsection \<open>Connecting\<close>

text \<open>An absent origin is null, and \<open>permissions[null]\<close> is the entry named \<open>null\<close>.\<close>

definition handleCheckConnection :: "string option \<Rightarrow> jsval tk" where
  "handleCheckConnection origin = (\<lambda>s.
     if st_isLocked s
     then (Ok (ok_reply [(''connected'', JBool False), (''error'', JStr ''Locked'')]), s)
     else andThen the_vault (\<lambda>v.
            ret (ok_reply [(''connected'',
              JBool (site_on (v_permissions v) (case origin of None \<Rightarrow> ''null'' | Some og \<Rightarrow> og)))])) s)"

definition handleConnect :: "window_world \<Rightarrow> string \<Rightarrow> nat \<Rightarrow> string \<Rightarrow> jsval option tk" where
  "handleConnect w rid channel origin = (\<lambda>s.
     if st_isLocked s
     then (Ok (Some (err_reply ''Locked - Please unlock extension'')), snd (launchPopup w s))
     else andThen the_vault (\<lambda>v.
       if site_on (v_permissions v) origin then ret (Some (ok_reply []))
       else ask_user w rid \<lparr>rq_type = ''CONNECT'', rq_origin = origin, rq_data = JObj [(''origin'', JStr origin)],
              rq_channel = channel, rq_action = Do_connect origin\<rparr>) s)"

definition permit :: "string \<Rightarrow> vault \<Rightarrow> vault" where
  "permit origin v = v\<lparr>v_permissions := obj_put origin (JBool True) (v_permissions v)\<rparr>"

text \<open>The callback of an approved connection.\<close>

definition approve_connect :: "prims \<Rightarrow> bytes \<Rightarrow> string \<Rightarrow> jsval tk" where
  "approve_connect P iv origin =
     andThen the_vault (\<lambda>v.
     andThen (set_vault (permit origin v)) (\<lambda>_.
     andThen (saveVaultWithSessionKey P iv) (\<lambda>_. ret (ok_reply []))))"

subsection \<open>Content scripts\<close>

definition is_alnum :: "char \<Rightarrow> bool" where
  "is_alnum c \<longleftrightarrow> is_digit c \<or> is_lower c \<or> is_upper c"

definition originToScriptId :: "string \<Rightarrow> string" where
  "originToScriptId origin = ''tk_'' @ map (\<lambda>c. if is_alnum c then c else CHR ''_'') origin"

definition script_ids :: "string \<Rightarrow> string list" where
  "script_ids origin = [originToScriptId origin @ ''_main'', originToScriptId origin @ ''_isolated'']"

text \<open>Chrome refuses to register an id twice, and to unregister an id it does not have; the
  source ignores both refusals.\<close>

definition registerOriginScripts :: "url_parser \<Rightarrow> string \<Rightarrow> tk_state \<Rightarrow> tk_state" where
  "registerOriginScripts U origin s =
     (if isDevOrigin U origin then s
      else if \<not> hasHostPermission origin s then s
      else if list_ex (\<lambda>(sid, _). sid \<in> set (script_ids origin)) (st_scripts s) then s
      else s\<lparr>st_scripts := st_scripts s @ map (\<lambda>sid. (sid, origin @ ''/*'')) (script_ids origin)\<rparr>)"

definition unregister :: "string list \<Rightarrow> tk_state \<Rightarrow> tk_state" where
  "unregister ids s =
     (if set ids \<subseteq> fst ` set (st_scripts s)
      then s\<lparr>st_scripts := filter (\<lambda>(sid, _). sid \<notin> set ids) (st_scripts s)\<rparr> else s)"

definition unregisterOriginScripts :: "string \<Rightarrow> tk_state \<Rightarrow> tk_state" where
  "unregisterOriginScripts origin s = unregister (script_ids origin) s"

definition forget_site :: "string \<Rightarrow> vault \<Rightarrow> vault" where
  "forget_site origin v =
     v\<lparr>v_permissions := obj_del origin (v_permissions v), v_autoSign := map_option (obj_del origin) (v_autoSign v)\<rparr>"

text \<open>The trusted origins whose host permission was revoked, in the order of the loop.\<close>

definition revoked_sites :: "url_parser \<Rightarrow> tk_state \<Rightarrow> vault \<Rightarrow> string list" where
  "revoked_sites U s v =
     filter (\<lambda>og. \<not> isDevOrigin U og \<and> \<not> hasHostPermission og s) (map fst (v_permissions v))"

definition stale_script :: "string list \<Rightarrow> string \<Rightarrow> bool" where
  "stale_script origins sid \<longleftrightarrow>
     starts_with sid ''tk_'' \<and> \<not> list_ex (\<lambda>og. starts_with sid (originToScriptId og)) origins"

definition clean_scripts :: "string list \<Rightarrow> tk_state \<Rightarrow> tk_state" where
  "clean_scripts origins s =
     fold (\<lambda>(sid, _) t. if stale_script origins sid then unregister [sid] t else t) (st_scripts s) s"

definition syncDynamicScripts :: "url_parser \<Rightarrow> prims \<Rightarrow> bytes \<Rightarrow> unit tk" where
  "syncDynamicScripts U P iv = (\<lambda>s.
     case st_vault s of
       None \<Rightarrow> (Ok (), s)
     | Some v \<Rightarrow>
         (let gone = revoked_sites U s v;
              kept = fold forget_site gone v
          in andThen (set_vault kept) (\<lambda>_.
             andThen (if gone \<noteq> [] then saveVaultWithSessionKey P iv else ret ()) (\<lambda>_.
             let origins = map fst (v_permissions kept)
             in updates (\<lambda>t. clean_scripts origins (fold (registerOriginScripts U) origins t)))) s))"

subsection \<open>Trusted sites\<close>

definition getTrustedSites :: "url_parser \<Rightarrow> tk_state \<Rightarrow> jsval" where
  "getTrustedSites U s =
     (case st_vault s of
        None \<Rightarrow> JArr []
      | Some v \<Rightarrow> JArr (map (\<lambda>og.
          let isDefault = isDevOrigin U og
          in JObj [(''origin'', JStr og), (''isDefault'', JBool isDefault),
                   (''autoSign'', JBool (isDefault \<or> site_on (case v_autoSign v of None \<Rightarrow> [] | Some a \<Rightarrow> a) og))])
          (map fst (v_permissions v))))"

text \<open>The tab's reload is outside the model.\<close>

definition handleAddTrustedSite :: "url_parser \<Rightarrow> prims \<Rightarrow> bytes \<Rightarrow> string \<Rightarrow> jsval tk" where
  "handleAddTrustedSite U P iv origin = (\<lambda>s.
     if origin = [] then (Ok (err_reply ''Origin required''), s)
     else if st_isLocked s then (Ok (err_reply ''Vault is locked''), s)
     else if \<not> isAllowedTrustedOrigin U origin then (Ok (err_reply ''Only HTTPS sites can be trusted''), s)
     else if \<not> isDevOrigin U origin \<and> \<not> hasHostPermission origin s
     then (Ok (err_reply ''Host permission not granted for this site''), s)
     else andThen the_vault (\<lambda>v.
          andThen (set_vault (permit origin v)) (\<lambda>_.
          andThen (saveVaultWithSessionKey P iv) (\<lambda>_.
          andThen (updates (registerOriginScripts U origin)) (\<lambda>_. ret (ok_reply []))))) s)"

definition handleRemoveTrustedSite :: "url_parser \<Rightarrow> prims \<Rightarrow> bytes \<Rightarrow> string \<Rightarrow> jsval tk" where
  "handleRemoveTrustedSite U P iv origin = (\<lambda>s.
     if origin = [] then (Ok (err_reply ''Origin required''), s)
     else if st_isLocked s then (Ok (err_reply ''Vault is locked''), s)
     else if isDevOrigin U origin then (Ok (err_reply ''Cannot remove dev default origins''), s)
     else andThen the_vault (\<lambda>v.
          andThen (set_vault (forget_site origin v)) (\<lambda>_.
          andThen (saveVaultWithSessionKey P iv) (\<lambda>_.
          andThen (updates (unregisterOriginScripts origin)) (\<lambda>_.
          andThen (updates (\<lambda>s. s\<lparr>st_hostPermissions := filter (\<lambda>og. og \<noteq> origin) (st_hostPermissions s)\<rparr>)) (\<lambda>_.
            ret (ok_reply [])))))) s)"

definition grant_autosign :: "string \<Rightarrow> bool \<Rightarrow> vault \<Rightarrow> vault" where
  "grant_autosign origin enabled v =
     (let sites = (case v_autoSign v of None \<Rightarrow> [] | Some a \<Rightarrow> a)
      in v\<lparr>v_autoSign := Some (if enabled then obj_put origin (JBool True) sites else obj_del origin sites)\<rparr>)"

definition handleSetSiteAutoSign :: "prims \<Rightarrow> bytes \<Rightarrow> string \<Rightarrow> bool \<Rightarrow> jsval tk" where
  "handleSetSiteAutoSign P iv origin enabled = (\<lambda>s.
     if st_isLocked s then (Ok (err_reply ''Vault is locked''), s)
     else andThen the_vault (\<lambda>v.
       if origin = [] \<or> \<not> site_on (v_permissions v) origin then ret (err_reply ''Unknown site'')
       else andThen (set_vault (grant_autosign origin enabled v)) (\<lambda>_.
            andThen (saveVaultWithSessionKey P iv) (\<lambda>_. ret (ok_reply [])))) s)"

subsection \<open>Authorizing the current tab\<close>

definition PENDING_GRANT_KEY :: string where
  "PENDING_GRANT_KEY = ''tk_pending_site_grant''"

definition PENDING_GRANT_TTL_MS :: int where
  "PENDING_GRANT_TTL_MS = 2 * 60 * 1000"

text \<open>The active tab as Chrome gives it: its URL and its id.\<close>

definition activeTabOrigin :: "url_parser \<Rightarrow> (string \<times> jsval) option \<Rightarrow> (string \<times> jsval) option" where
  "activeTabOrigin U tab =
     (case tab of
        None \<Rightarrow> None
      | Some (url, tabId) \<Rightarrow>
          if url = [] then None else map_option (\<lambda>u. (url_origin u, tabId)) (U url))"

definition js_put :: "string \<Rightarrow> jsval \<Rightarrow> jsval \<Rightarrow> jsval" where
  "js_put k x v = (case v of JObj kvs \<Rightarrow> JObj (obj_put k x kvs) | w \<Rightarrow> w)"

definition trustTabOrigin :: "url_parser \<Rightarrow> prims \<Rightarrow> bytes \<Rightarrow> string \<Rightarrow> jsval tk" where
  "trustTabOrigin U P iv origin = (\<lambda>s.
     if \<not> st_isLocked s \<and> (\<exists>v. st_vault s = Some v \<and> site_on (v_permissions v) origin)
     then (Ok (ok_reply [(''origin'', JStr origin)]), s)
     else andThen (handleAddTrustedSite U P iv origin) (\<lambda>r. ret (js_put ''origin'' (JStr origin) r)) s)"

definition handleExpectSiteGrant :: "url_parser \<Rightarrow> (string \<times> jsval) option \<Rightarrow> int \<Rightarrow> jsval tk" where
  "handleExpectSiteGrant U tab now = (\<lambda>s.
     if st_isLocked s then (Ok (err_reply ''Vault is locked''), s)
     else case activeTabOrigin U tab of
         None \<Rightarrow> (Ok (err_reply ''No active tab or URL not accessible''), s)
       | Some (origin, tabId) \<Rightarrow>
           if \<not> isAllowedTrustedOrigin U origin then (Ok (err_reply ''Only HTTPS sites can be trusted''), s)
           else (Ok (ok_reply [(''origin'', JStr origin)]),
                 session_set [(PENDING_GRANT_KEY, JObj [(''origin'', JStr origin), (''tabId'', tabId),
                   (''expires'', JNum (now + PENDING_GRANT_TTL_MS))])] s))"

definition handleAuthorizeCurrentTab :: "url_parser \<Rightarrow> prims \<Rightarrow> bytes \<Rightarrow> (string \<times> jsval) option \<Rightarrow> jsval tk" where
  "handleAuthorizeCurrentTab U P iv tab = (\<lambda>s.
     case activeTabOrigin U tab of
       None \<Rightarrow> (Ok (err_reply ''No active tab or URL not accessible''), s)
     | Some (origin, tabId) \<Rightarrow> trustTabOrigin U P iv origin (session_remove [PENDING_GRANT_KEY] s))"

text \<open>\<open>pending.expires < Date.now()\<close>.\<close>

fun grant_expired :: "jsval \<Rightarrow> int \<Rightarrow> bool" where
  "grant_expired (JNum e) now = (e < now)"
| "grant_expired _ now = False"

definition handlePermissionsAdded :: "url_parser \<Rightarrow> prims \<Rightarrow> bytes \<Rightarrow> int \<Rightarrow> string list \<Rightarrow> jsval tk" where
  "handlePermissionsAdded U P iv now granted = (\<lambda>s.
     let pending = session_get PENDING_GRANT_KEY s;
         origin = js_str (js_get pending ''origin'')
     in if \<not> truthy pending then (Ok JNull, s)
        else if grant_expired (js_get pending ''expires'') now then (Ok JNull, session_remove [PENDING_GRANT_KEY] s)
        else if origin @ ''/*'' \<notin> set granted then (Ok JNull, s)
        else trustTabOrigin U P iv origin (session_remove [PENDING_GRANT_KEY] s))"

subsection \<open>What each operation does to the vault\<close>

lemma site_on_permit [simp]: "site_on (v_permissions (permit og v)) x \<longleftrightarrow> x = og \<or> site_on (v_permissions v) x"
  by (simp add: permit_def site_on_def)

lemma site_on_forget [simp]:
  "site_on (v_permissions (forget_site og v)) x \<longleftrightarrow> x \<noteq> og \<and> site_on (v_permissions v) x"
  by (simp add: forget_site_def site_on_def)

lemma pure_sites_put: "pure_sites kvs \<Longrightarrow> pure_sites (obj_put k (JBool b) kvs)"
proof -
  assume p: "pure_sites kvs"
  have "\<forall>(k', v)\<in>set (obj_put k (JBool b) kvs). js_pure v"
    using p unfolding pure_sites_def by (induction k "JBool b" kvs rule: obj_put.induct) auto
  then show ?thesis using p distinct_obj_put by (auto simp: pure_sites_def)
qed

lemma pure_sites_del: "pure_sites kvs \<Longrightarrow> pure_sites (obj_del k kvs)"
  using distinct_obj_del by (auto simp: pure_sites_def obj_del_def)

lemma permit_ok: "vault_ok P v \<Longrightarrow> vault_ok P (permit og v)"
  by (simp add: vault_ok_def permit_def pure_sites_put)

lemma forget_ok: "vault_ok P v \<Longrightarrow> vault_ok P (forget_site og v)"
  by (auto simp: vault_ok_def forget_site_def pure_sites_del)

lemma grant_ok: "vault_ok P v \<Longrightarrow> vault_ok P (grant_autosign og b v)"
  by (auto simp: vault_ok_def grant_autosign_def Let_def pure_sites_put pure_sites_del)

text \<open>Silent signing is granted to connected sites only.\<close>

definition autosign_sites :: "vault \<Rightarrow> (string \<times> jsval) list" where
  "autosign_sites v = (case v_autoSign v of None \<Rightarrow> [] | Some a \<Rightarrow> a)"

definition autosign_connected :: "vault \<Rightarrow> bool" where
  "autosign_connected v \<longleftrightarrow> (\<forall>og. site_on (autosign_sites v) og \<longrightarrow> site_on (v_permissions v) og)"

lemma autosign_kept:
  "autosign_connected empty_vault"
  "autosign_connected v \<Longrightarrow> autosign_connected (permit og v)"
  "autosign_connected v \<Longrightarrow> autosign_connected (forget_site og v)"
  "autosign_connected v \<Longrightarrow> b \<longrightarrow> site_on (v_permissions v) og \<Longrightarrow> autosign_connected (grant_autosign og b v)"
  by (auto simp: autosign_connected_def autosign_sites_def empty_vault_def site_on_def permit_def forget_site_def
      grant_autosign_def Let_def split: option.splits if_splits)

lemma forget_all:
  "site_on (v_permissions (fold forget_site gone v)) x \<longleftrightarrow> x \<notin> set gone \<and> site_on (v_permissions v) x"
  by (induction gone arbitrary: v) auto

lemma forget_all_keys: "set (map fst (v_permissions (fold forget_site gone v))) = set (map fst (v_permissions v)) - set gone"
proof (induction gone arbitrary: v)
  case (Cons g gone)
  have "set (map fst (v_permissions (forget_site g v))) = set (map fst (v_permissions v)) - {g}"
    by (simp add: forget_site_def keys_obj_del)
  then show ?case using Cons by auto
qed simp

lemma forget_all_ok:
  "vault_ok P v \<Longrightarrow> vault_ok P (fold forget_site gone v)"
  "autosign_connected v \<Longrightarrow> autosign_connected (fold forget_site gone v)"
  by (induction gone arbitrary: v) (auto intro: forget_ok autosign_kept)

subsection \<open>Chrome's own areas\<close>

text \<open>Registering and unregistering touch the scripts alone.\<close>

definition scripts_only :: "tk_state \<Rightarrow> tk_state \<Rightarrow> bool" where
  "scripts_only s t \<longleftrightarrow> (\<exists>x. t = s\<lparr>st_scripts := x\<rparr>)"

lemma scripts_only_trans: "scripts_only s t \<Longrightarrow> scripts_only t u \<Longrightarrow> scripts_only s u"
  by (auto simp: scripts_only_def)

lemma scripts_only_refl [simp]: "scripts_only s s"
  unfolding scripts_only_def by (rule exI [of _ "st_scripts s"]) simp

lemma scripts_only_set: "scripts_only s (s\<lparr>st_scripts := x\<rparr>)"
  by (auto simp: scripts_only_def)

lemma scripts_only_ops:
  "scripts_only s (registerOriginScripts U og s)" "scripts_only s (unregister ids s)" "scripts_only s (unregisterOriginScripts og s)"
  by (simp_all add: registerOriginScripts_def unregister_def unregisterOriginScripts_def scripts_only_set)

lemma scripts_only_fold: "(\<And>x u. scripts_only u (f x u)) \<Longrightarrow> scripts_only s (fold f xs s)"
proof (induction xs arbitrary: s)
  case (Cons x xs)
  then show ?case using scripts_only_trans [of s "f x s"] by simp
qed simp

lemma scripts_only_clean: "scripts_only s (clean_scripts origins s)"
  unfolding clean_scripts_def by (rule scripts_only_fold) (auto simp: scripts_only_ops)

lemma scripts_only_ok:
  assumes "scripts_only s t"
  shows "unlocked_with P t v key kdf = unlocked_with P s v key kdf" "st_hostPermissions t = st_hostPermissions s"
    "st_vault t = st_vault s" "st_pending t = st_pending s" "st_session t = st_session s"
  using assms by (auto simp: scripts_only_def unlocked_with_def)

subsection \<open>Each handler on an unlocked vault\<close>

lemma approve_connect_ok:
  assumes s: "unlocked_with P s v key kdf" and iv: "iv \<noteq> []"
  shows "approve_connect P iv og s = (Inr (ok_reply []), saved P iv s (permit og v) key kdf)"
    and "unlocked_with P (saved P iv s (permit og v) key kdf) (permit og v) key kdf"
  using unlocked_facts [OF s] set_and_save [OF s permit_ok iv, of v og]
  by (simp_all add: approve_connect_def andThen_apply)

text \<open>A site is added only over HTTPS (or a development origin) and with its host permission.\<close>

lemma addSite_accepts:
  assumes "handleAddTrustedSite U P iv og s = (Inr (ok_reply []), t)"
  shows "og \<noteq> [] \<and> \<not> st_isLocked s \<and>
    (isDevOrigin U og \<or> (starts_with og ''https://'' \<and> hasHostPermission og s))"
  using assms
  by (auto simp: handleAddTrustedSite_def isAllowedTrustedOrigin_def ok_reply_def err_reply_def split: if_splits)

lemma addSite_ok:
  assumes s: "unlocked_with P s v key kdf" and iv: "iv \<noteq> []" and og: "og \<noteq> []" "isAllowedTrustedOrigin U og"
    "isDevOrigin U og \<or> hasHostPermission og s"
  shows "\<exists>t. handleAddTrustedSite U P iv og s = (Inr (ok_reply []), t) \<and> unlocked_with P t (permit og v) key kdf"
proof -
  note save = set_and_save [OF s permit_ok [OF unlocked_facts(5) [OF s], of og] iv]
  have "handleAddTrustedSite U P iv og s =
      (Inr (ok_reply []), registerOriginScripts U og (saved P iv s (permit og v) key kdf))"
    using unlocked_facts [OF s] save(1) og by (auto simp: handleAddTrustedSite_def andThen_apply)
  then show ?thesis using save(2) scripts_only_ok(1) [OF scripts_only_ops(1)] by blast
qed

text \<open>A refusal leaves everything as it was.\<close>

lemma addSite_refuses:
  assumes "\<not> (isDevOrigin U og \<or> (starts_with og ''https://'' \<and> hasHostPermission og s))"
  shows "\<exists>m. handleAddTrustedSite U P iv og s = (Inr (err_reply m), s)"
  using assms by (auto simp: handleAddTrustedSite_def isAllowedTrustedOrigin_def)

lemma hosts_update [simp]:
  "unlocked_with P (s\<lparr>st_hostPermissions := hs\<rparr>) v key kdf = unlocked_with P s v key kdf"
  by (simp add: unlocked_with_def)

text \<open>Removing a site revokes all it had: the trust, the silent signing, Chrome's permission.\<close>

lemma removeSite_ok:
  assumes s: "unlocked_with P s v key kdf" and iv: "iv \<noteq> []" and og: "og \<noteq> []" "\<not> isDevOrigin U og"
  shows "\<exists>t. handleRemoveTrustedSite U P iv og s = (Inr (ok_reply []), t) \<and>
    unlocked_with P t (forget_site og v) key kdf \<and> \<not> hasHostPermission og t"
proof -
  note save = set_and_save [OF s forget_ok [OF unlocked_facts(5) [OF s], of og] iv]
  let ?u = "unregisterOriginScripts og (saved P iv s (forget_site og v) key kdf)"
  have "handleRemoveTrustedSite U P iv og s =
      (Inr (ok_reply []), ?u\<lparr>st_hostPermissions := filter (\<lambda>x. x \<noteq> og) (st_hostPermissions ?u)\<rparr>)"
    using unlocked_facts [OF s] save(1) og by (simp add: handleRemoveTrustedSite_def andThen_apply)
  then show ?thesis using save(2) scripts_only_ok(1) [OF scripts_only_ops(3)] by (simp add: hasHostPermission_def)
qed

lemma forget_revokes: "\<not> site_on (v_permissions (forget_site og v)) og" "\<not> site_on (autosign_sites (forget_site og v)) og"
  by (auto simp: site_on_def forget_site_def autosign_sites_def split: option.splits)

lemma autosign_ok:
  assumes s: "unlocked_with P s v key kdf" and iv: "iv \<noteq> []" and og: "og \<noteq> []" "site_on (v_permissions v) og"
  shows "handleSetSiteAutoSign P iv og b s = (Inr (ok_reply []), saved P iv s (grant_autosign og b v) key kdf)"
    and "unlocked_with P (saved P iv s (grant_autosign og b v) key kdf) (grant_autosign og b v) key kdf"
  using unlocked_facts [OF s] set_and_save [OF s grant_ok iv, of v og b] og
  by (simp_all add: handleSetSiteAutoSign_def andThen_apply)

lemma autosign_unknown:
  assumes s: "unlocked_with P s v key kdf" and og: "\<not> site_on (v_permissions v) og"
  shows "handleSetSiteAutoSign P iv og b s = (Inr (err_reply ''Unknown site''), s)"
  using unlocked_facts [OF s] og by (simp add: handleSetSiteAutoSign_def andThen_apply)

text \<open>Trust never outlives the grant: after the synchronisation every trusted site is a
  development origin or has its host permission.\<close>

definition trust_granted :: "url_parser \<Rightarrow> tk_state \<Rightarrow> vault \<Rightarrow> bool" where
  "trust_granted U s v \<longleftrightarrow>
     (\<forall>og\<in>set (map fst (v_permissions v)). isDevOrigin U og \<or> hasHostPermission og s)"

lemma kept_granted: "trust_granted U s (fold forget_site (revoked_sites U s v) v)"
  unfolding trust_granted_def forget_all_keys by (auto simp: revoked_sites_def)

lemma sync_ok:
  fixes U :: url_parser
  assumes s: "unlocked_with P s v key kdf" and iv: "iv \<noteq> []"
  defines "kept \<equiv> fold forget_site (revoked_sites U s v) v"
  shows "\<exists>t. syncDynamicScripts U P iv s = (Inr (), t) \<and> unlocked_with P t kept key kdf \<and> trust_granted U t kept \<and>
    st_session t = st_session s"
proof -
  let ?gone = "revoked_sites U s v"
  let ?origins = "map fst (v_permissions kept)"
  let ?f = "\<lambda>t. clean_scripts ?origins (fold (registerOriginScripts U) ?origins t)"
  have f: "scripts_only t (?f t)" for t
    by (rule scripts_only_trans [OF scripts_only_fold scripts_only_clean]) (rule scripts_only_ops)
  have ok: "vault_ok P kept" using forget_all_ok(1) [OF unlocked_facts(5) [OF s]] by (simp add: kept_def)
  let ?t = "if ?gone \<noteq> [] then saved P iv s kept key kdf else s\<lparr>st_vault := Some kept\<rparr>"
  have "syncDynamicScripts U P iv s = (Inr (), ?f ?t)"
    using unlocked_facts [OF s] set_and_save(1) [OF s ok iv]
    by (simp add: syncDynamicScripts_def Let_def andThen_apply kept_def)
  moreover have "unlocked_with P ?t kept key kdf"
    using set_and_save(2) [OF s ok iv] s by (auto simp: kept_def unlocked_with_def)
  moreover have "st_hostPermissions ?t = st_hostPermissions s" "st_session ?t = st_session s" by (simp_all add: saved_def)
  ultimately have "syncDynamicScripts U P iv s = (Inr (), ?f ?t)" "unlocked_with P (?f ?t) kept key kdf"
      "st_hostPermissions (?f ?t) = st_hostPermissions s" "st_session (?f ?t) = st_session s"
    using scripts_only_ok [OF f] by auto
  moreover have "trust_granted U s kept" unfolding kept_def by (rule kept_granted)
  ultimately show ?thesis by (auto simp: trust_granted_def hasHostPermission_def)
qed

lemma saveVault_pending: "st_pending (snd (saveVaultWithSessionKey P iv s)) = st_pending s"
  by (auto simp: saveVaultWithSessionKey_def writeVault_def andThen_def the_vault_def split: option.splits sum.splits prod.splits)

lemma sync_pending: "st_pending (snd (syncDynamicScripts U P iv s)) = st_pending s"
proof -
  have f: "st_pending (clean_scripts os (fold (registerOriginScripts U) os t)) = st_pending t" for os t
    by (rule scripts_only_ok(4) [OF scripts_only_trans [OF scripts_only_fold scripts_only_clean]]) (rule scripts_only_ops)
  show ?thesis
  proof (cases "st_vault s")
    case (Some v)
    let ?kept = "fold forget_site (revoked_sites U s v) v"
    show ?thesis
      using saveVault_pending [of P iv "s\<lparr>st_vault := Some ?kept\<rparr>"]
      by (cases "saveVaultWithSessionKey P iv (s\<lparr>st_vault := Some ?kept\<rparr>)")
        (simp add: syncDynamicScripts_def Some Let_def andThen_apply f split: sum.splits)
  qed (simp add: syncDynamicScripts_def)
qed

text \<open>Only a grant the popup announced, for that origin and in time, completes an authorization.\<close>

lemma grant_unannounced:
  assumes "\<not> truthy (session_get PENDING_GRANT_KEY s)
    \<or> grant_expired (js_get (session_get PENDING_GRANT_KEY s) ''expires'') now
    \<or> js_str (js_get (session_get PENDING_GRANT_KEY s) ''origin'') @ ''/*'' \<notin> set granted"
  shows "\<exists>t. handlePermissionsAdded U P iv now granted s = (Inr JNull, t) \<and> session_only s t"
  using assms session_only_ops(2) [of s] by (auto simp: handlePermissionsAdded_def Let_def session_only_def)

text \<open>Two origins can share their script ids.\<close>

lemma script_ids_collide: "script_ids ''https://a-b.com'' = script_ids ''https://a.b.com''"
  by (simp add: script_ids_def originToScriptId_def is_alnum_def class_defs)

end
