(* ===== verification/Bodies.thy ===== *)
theory Bodies
  imports Identity
begin

text \<open>
  The first part of \<open>packages/crypto-core/src/signing.js\<close>: the exact text each kind of
  signature covers. Every body opens with its context line and is a sequence of
  \<open>label=value\<close> lines; the checks on the values make the text say one thing only.
\<close>

subsection \<open>Domain separation\<close>

definition CTX_LOGIN :: string where "CTX_LOGIN = ''login''"
definition CTX_CONTENT :: string where "CTX_CONTENT = ''content''"
definition CTX_MULTISIG_APPROVAL :: string where "CTX_MULTISIG_APPROVAL = ''multisig-approval''"
definition CTX_MESSAGE :: string where "CTX_MESSAGE = ''message''"
definition CTX_KEY_ATTESTATION :: string where "CTX_KEY_ATTESTATION = ''key-attestation''"
definition CTX_ACCOUNT_DELETION :: string where "CTX_ACCOUNT_DELETION = ''account-deletion''"
definition CTX_CONVERSATION_ERASE :: string where "CTX_CONVERSATION_ERASE = ''conversation-erase''"
definition CTX_KEY_ROTATION :: string where "CTX_KEY_ROTATION = ''key-rotation''"

definition SIGNING_CONTEXT :: "string list" where
  "SIGNING_CONTEXT = [CTX_LOGIN, CTX_CONTENT, CTX_MULTISIG_APPROVAL, CTX_MESSAGE, CTX_KEY_ATTESTATION,
     CTX_ACCOUNT_DELETION, CTX_CONVERSATION_ERASE, CTX_KEY_ROTATION]"

lemmas ctx_defs = CTX_LOGIN_def CTX_CONTENT_def CTX_MULTISIG_APPROVAL_def CTX_MESSAGE_def
  CTX_KEY_ATTESTATION_def CTX_ACCOUNT_DELETION_def CTX_CONVERSATION_ERASE_def CTX_KEY_ROTATION_def

definition ds_header :: string where
  "ds_header = ''Kryptolog Signed Message v1''"

definition domainSeparate :: "string \<Rightarrow> string \<Rightarrow> string" where
  "domainSeparate ctx body = ds_header @ nl # ''context='' @ ctx @ nl # body"

definition MESSAGE_SIGNING_PREFIX :: string where
  "MESSAGE_SIGNING_PREFIX = domainSeparate CTX_MESSAGE []"

subsection \<open>Checks on identifiers\<close>

definition is_id_char :: "char \<Rightarrow> bool" where
  "is_id_char c \<longleftrightarrow> is_upper c \<or> is_lower c \<or> is_digit c \<or> c = CHR ''_'' \<or> c = CHR ''-''"

definition is_hex_text :: "string \<Rightarrow> bool" where
  "is_hex_text s \<longleftrightarrow> s \<noteq> [] \<and> list_all is_lhex s"

definition is_host_char :: "char \<Rightarrow> bool" where
  "is_host_char c \<longleftrightarrow> is_lower c \<or> is_digit c \<or> c = CHR ''.'' \<or> c = CHR ''-''"

text \<open>The part of \<open>ORIGIN_RE\<close> after the scheme. A colon is not a host character, so the
  longest run of host characters is the only way to match.\<close>

definition host_and_port :: "string \<Rightarrow> bool" where
  "host_and_port s \<longleftrightarrow>
     takeWhile is_host_char s \<noteq> [] \<and>
     (case dropWhile is_host_char s of [] \<Rightarrow> True
      | c # port \<Rightarrow> c = CHR '':'' \<and> 1 \<le> length port \<and> length port \<le> 5 \<and> list_all is_digit port)"

definition origin_text :: "string \<Rightarrow> bool" where
  "origin_text s \<longleftrightarrow>
     (starts_with s ''https://'' \<and> host_and_port (drop 8 s)) \<or>
     (starts_with s ''http://'' \<and> host_and_port (drop 7 s))"

fun isCanonicalOrigin :: "jsval \<Rightarrow> bool" where
  "isCanonicalOrigin (JStr s) = origin_text s"
| "isCanonicalOrigin _ = False"

fun isSignedIdentifier :: "jsval \<Rightarrow> bool" where
  "isSignedIdentifier (JStr s) = (1 \<le> length s \<and> length s \<le> 64 \<and> list_all is_id_char s)"
| "isSignedIdentifier _ = False"

fun is_hex_string :: "jsval \<Rightarrow> bool" where
  "is_hex_string (JStr s) = is_hex_text s"
| "is_hex_string _ = False"

definition isCount :: "jsval \<Rightarrow> bool" where
  "isCount v \<longleftrightarrow> is_safe_integer v \<and> (case v of JNum n \<Rightarrow> 0 \<le> n | _ \<Rightarrow> False)"

definition need_body :: "bool \<Rightarrow> string \<Rightarrow> unit res" where
  "need_body ok what = need ok (SignedBodyError (''signed body: invalid '' @ what))"

subsection \<open>Lines\<close>

text \<open>The template \<open>a=\<dots>\nb=\<dots>\<close> as its list of labels and values.\<close>

definition kv_lines :: "(string \<times> string) list \<Rightarrow> string" where
  "kv_lines kvs = join [nl] (map (\<lambda>(l, v). l @ CHR ''='' # v) kvs)"

subsection \<open>The bodies\<close>

text \<open>\<open>messageSigningBody\<close>'s argument object.\<close>

record message_fields =
  mf_from :: jsval
  mf_conv :: jsval
  mf_sid :: jsval
  mf_ct :: jsval
  mf_gid :: jsval
  mf_keys :: jsval
  mf_ts :: jsval
  mf_seq :: jsval

definition canonicalCiphertext :: "jsval \<Rightarrow> string" where
  "canonicalCiphertext ct =
     (if is_object ct then js_str (js_get ct ''iv'') @ CHR ''.'' # js_str (js_get ct ''content'') else js_str ct)"

definition keys_digest :: "prims \<Rightarrow> jsval \<Rightarrow> string" where
  "keys_digest P keys = sha384Hex P (canonicalJson (if is_nullish keys then JNull else keys))"

definition messageSigningBody :: "prims \<Rightarrow> message_fields \<Rightarrow> string res" where
  "messageSigningBody P m =
     bind_res (need_body (isAddress (mf_from m)) ''sender'') (\<lambda>_.
     bind_res (need_body (isAddress (mf_conv m) \<or> isSignedIdentifier (mf_conv m)) ''conversation'') (\<lambda>_.
     bind_res (need_body (mf_gid m = JStr [] \<or> is_nullish (mf_gid m) \<or> isSignedIdentifier (mf_gid m)) ''group id'') (\<lambda>_.
     bind_res (need_body (isSignedIdentifier (mf_sid m)) ''session id'') (\<lambda>_.
     bind_res (need_body (isCount (mf_ts m)) ''timestamp'') (\<lambda>_.
     bind_res (need_body (isCount (mf_seq m)) ''sequence number'') (\<lambda>_.
       Ok (domainSeparate CTX_MESSAGE (kv_lines
         [(''from'', js_str (mf_from m)),
          (''conv'', js_str (mf_conv m)),
          (''gid'', if is_nullish (mf_gid m) then [] else js_str (mf_gid m)),
          (''sid'', js_str (mf_sid m)),
          (''ts'', js_str (mf_ts m)),
          (''seq'', js_str (mf_seq m)),
          (''keysh'', keys_digest P (mf_keys m)),
          (if is_nullish (mf_ct m) then (''redacted'', ''1'')
           else (''ct'', canonicalCiphertext (mf_ct m)))]))))))))"

record login_fields =
  lf_nonce :: jsval
  lf_origin :: jsval
  lf_deployment :: jsval
  lf_encryptionKey :: jsval

text \<open>The pattern is tested on the value's string, whatever the value is.\<close>

definition login_key_ok :: "jsval \<Rightarrow> bool" where
  "login_key_ok k \<longleftrightarrow> is_nullish k \<or> k = JStr [] \<or> is_hex_text (js_str k)"

definition loginChallengeBody :: "login_fields \<Rightarrow> string res" where
  "loginChallengeBody f =
     bind_res (need_body (is_hex_string (lf_nonce f)) ''nonce'') (\<lambda>_.
     bind_res (need_body (isCanonicalOrigin (lf_origin f)) ''origin'') (\<lambda>_.
     bind_res (need_body (isSignedIdentifier (lf_deployment f)) ''deployment'') (\<lambda>_.
     bind_res (need_body (login_key_ok (lf_encryptionKey f)) ''encryption key'') (\<lambda>_.
       Ok (domainSeparate CTX_LOGIN (''Sign in to Kryptolog'' @ nl # kv_lines
         [(''origin'', js_str (lf_origin f)),
          (''deployment'', js_str (lf_deployment f)),
          (''nonce'', js_str (lf_nonce f)),
          (''encryption-key-alg'', if truthy (lf_encryptionKey f) then KEM_ALG else []),
          (''encryption-key'', if truthy (lf_encryptionKey f) then js_str (lf_encryptionKey f) else [])]))))))"

text \<open>The redaction keys are the list of strings every caller passes; the source's default
  is the empty list.\<close>

record deletion_fields =
  df_nonce :: jsval
  df_mode :: jsval
  df_redactionKeys :: "string list"
  df_origin :: jsval
  df_deployment :: jsval

definition redactions_digest :: "prims \<Rightarrow> string list \<Rightarrow> string" where
  "redactions_digest P ks = sha384Hex P (canonicalJson (JArr (map JStr (sort ks))))"

definition accountDeletionBody :: "prims \<Rightarrow> deletion_fields \<Rightarrow> string res" where
  "accountDeletionBody P f =
     bind_res (need_body (is_hex_string (df_nonce f)) ''nonce'') (\<lambda>_.
     bind_res (need_body (df_mode f = JStr ''leave'' \<or> df_mode f = JStr ''erase'') ''mode'') (\<lambda>_.
     bind_res (need_body (isCanonicalOrigin (df_origin f)) ''origin'') (\<lambda>_.
     bind_res (need_body (isSignedIdentifier (df_deployment f)) ''deployment'') (\<lambda>_.
       Ok (domainSeparate CTX_ACCOUNT_DELETION (kv_lines
         [(''origin'', js_str (df_origin f)),
          (''deployment'', js_str (df_deployment f)),
          (''nonce'', js_str (df_nonce f)),
          (''mode'', js_str (df_mode f)),
          (''redactions'', redactions_digest P (df_redactionKeys f))]))))))"

record erase_fields =
  ef_nonce :: jsval
  ef_kind :: jsval
  ef_conversation :: jsval
  ef_redactionKeys :: "string list"
  ef_origin :: jsval
  ef_deployment :: jsval

definition erase_target_ok :: "erase_fields \<Rightarrow> bool" where
  "erase_target_ok f \<longleftrightarrow>
     (ef_kind f = JStr ''dm'' \<and> isAddress (ef_conversation f)) \<or>
     (ef_kind f = JStr ''group'' \<and> isSignedIdentifier (ef_conversation f))"

definition conversationEraseBody :: "prims \<Rightarrow> erase_fields \<Rightarrow> string res" where
  "conversationEraseBody P f =
     bind_res (need_body (is_hex_string (ef_nonce f)) ''nonce'') (\<lambda>_.
     bind_res (need_body (erase_target_ok f) ''conversation'') (\<lambda>_.
     bind_res (need_body (isCanonicalOrigin (ef_origin f)) ''origin'') (\<lambda>_.
     bind_res (need_body (isSignedIdentifier (ef_deployment f)) ''deployment'') (\<lambda>_.
       Ok (domainSeparate CTX_CONVERSATION_ERASE (kv_lines
         [(''origin'', js_str (ef_origin f)),
          (''deployment'', js_str (ef_deployment f)),
          (''nonce'', js_str (ef_nonce f)),
          (''conversation'', js_str (ef_kind f) @ CHR '':'' # js_str (ef_conversation f)),
          (''redactions'', redactions_digest P (ef_redactionKeys f))]))))))"

record attestation_fields =
  af_address :: jsval
  af_encryptionPublicKey :: jsval

definition encryptionKeyAttestationBody :: "attestation_fields \<Rightarrow> string res" where
  "encryptionKeyAttestationBody f =
     bind_res (need_body (isAddress (af_address f)) ''address'') (\<lambda>_.
     bind_res (need_body (is_hex_string (af_encryptionPublicKey f)) ''encryption key'') (\<lambda>_.
       Ok (domainSeparate CTX_KEY_ATTESTATION (kv_lines
         [(''address'', js_str (af_address f)),
          (''encryption-alg'', KEM_ALG),
          (''encryption'', js_str (af_encryptionPublicKey f))]))))"

record rotation_fields =
  rf_address :: jsval
  rf_oldKid :: jsval
  rf_newKid :: jsval
  rf_ts :: jsval

definition keyRotationBody :: "rotation_fields \<Rightarrow> string res" where
  "keyRotationBody f =
     bind_res (need_body (isAddress (rf_address f)) ''address'') (\<lambda>_.
     bind_res (need_body (isEncryptionKeyId (rf_oldKid f)) ''old key id'') (\<lambda>_.
     bind_res (need_body (isEncryptionKeyId (rf_newKid f)) ''new key id'') (\<lambda>_.
     bind_res (need_body (rf_oldKid f \<noteq> rf_newKid f) ''rotation (the same key twice)'') (\<lambda>_.
     bind_res (need_body (isCount (rf_ts f)) ''timestamp'') (\<lambda>_.
       Ok (domainSeparate CTX_KEY_ROTATION (kv_lines
         [(''address'', js_str (rf_address f)),
          (''old-kid'', js_str (rf_oldKid f)),
          (''new-kid'', js_str (rf_newKid f)),
          (''new-alg'', KEM_ALG),
          (''ts'', js_str (rf_ts f))])))))))"

text \<open>Its arguments are interpolated as they come.\<close>

definition multisigApprovalMessage :: "string \<Rightarrow> string \<Rightarrow> string \<Rightarrow> string" where
  "multisigApprovalMessage workflowId secretId ciphertextSha384Hex = domainSeparate CTX_MULTISIG_APPROVAL
     (kv_lines [(''workflow'', workflowId), (''secret'', secretId), (''ct'', ciphertextSha384Hex)])"

subsection \<open>Lines are injective\<close>

definition label_ok :: "string \<Rightarrow> bool" where
  "label_ok l \<longleftrightarrow> CHR ''='' \<notin> set l \<and> nl \<notin> set l"

lemma kv_lines_Cons:
  "kv_lines (kv # kvs) =
     (if kvs = [] then fst kv @ CHR ''='' # snd kv else fst kv @ CHR ''='' # snd kv @ nl # kv_lines kvs)"
  by (simp add: kv_lines_def join_Cons case_prod_unfold)

lemma kv_lines_inj:
  assumes "length xs = length ys" "list_all (label_ok \<circ> fst) xs" "list_all (label_ok \<circ> fst) ys"
    and "\<forall>v\<in>snd ` set (butlast xs). nl \<notin> set v" "\<forall>v\<in>snd ` set (butlast ys). nl \<notin> set v"
    and "kv_lines xs = kv_lines ys"
  shows "xs = ys"
  using assms
proof (induction xs ys rule: list_induct2)
  case (Cons x xs y ys)
  have eq: "CHR ''='' \<notin> set (fst x)" "CHR ''='' \<notin> set (fst y)" "nl \<notin> set (fst x)" "nl \<notin> set (fst y)"
    using Cons.prems(1,2) by (simp_all add: label_ok_def)
  show ?case
  proof (cases "xs = []")
    case True
    then show ?thesis
      using Cons.prems(5) Cons.hyps eq by (simp add: kv_lines_Cons sep_split prod_eq_iff)
  next
    case False
    then have "ys \<noteq> []" using Cons.hyps by auto
    have v: "nl \<notin> set (snd x)" "nl \<notin> set (snd y)"
      using Cons.prems(3,4) False \<open>ys \<noteq> []\<close> by simp_all
    have "fst x = fst y \<and> snd x = snd y \<and> kv_lines xs = kv_lines ys"
      using Cons.prems(5) False \<open>ys \<noteq> []\<close> eq v by (simp add: kv_lines_Cons sep_split)
    then show ?thesis
      using Cons.IH Cons.prems(1-4) False \<open>ys \<noteq> []\<close> by (simp add: prod_eq_iff)
  qed
qed simp

lemma domainSeparate_inj:
  "nl \<notin> set c \<Longrightarrow> nl \<notin> set d \<Longrightarrow> domainSeparate c a = domainSeparate d b \<longleftrightarrow> c = d \<and> a = b"
  by (simp add: domainSeparate_def sep_split)

lemma context_no_nl: "c \<in> set SIGNING_CONTEXT \<Longrightarrow> nl \<notin> set c"
  by (auto simp: SIGNING_CONTEXT_def ctx_defs)

text \<open>No body of one context is a body of another.\<close>

lemma contexts_disjoint:
  "c \<in> set SIGNING_CONTEXT \<Longrightarrow> d \<in> set SIGNING_CONTEXT \<Longrightarrow> c \<noteq> d \<Longrightarrow> domainSeparate c a \<noteq> domainSeparate d b"
  by (simp add: domainSeparate_inj context_no_nl)

subsection \<open>Checked values hold no line break\<close>

lemma need_body_ok [simp]: "need_body ok what = Inr u \<longleftrightarrow> ok"
  by (simp add: need_body_def)

lemma need_body_True [simp]: "need_body True what = Inr ()"
  by (simp add: need_body_def)

lemma not_id_nl [simp, char_class]: "\<not> is_id_char nl" "\<not> is_host_char nl"
  by (simp_all add: is_id_char_def is_host_char_def)

lemma host_and_port_no_nl:
  assumes "host_and_port s"
  shows "nl \<notin> set s"
proof
  assume "nl \<in> set s"
  moreover have "nl \<notin> set (takeWhile is_host_char s)"
    using set_takeWhileD [of nl is_host_char s] by auto
  ultimately have "nl \<in> set (dropWhile is_host_char s)"
    using takeWhile_dropWhile_id [of is_host_char s] by (metis Un_iff set_append)
  then show False
    using assms by (auto simp: host_and_port_def list_all_iff split: list.splits)
qed

lemma origin_no_nl:
  assumes "origin_text s"
  shows "nl \<notin> set s"
proof -
  consider t where "s = ''https://'' @ t" "host_and_port t" | t where "s = ''http://'' @ t" "host_and_port t"
    using assms by (auto simp: origin_text_def starts_with_iff)
  then show ?thesis by cases (auto simp: host_and_port_no_nl)
qed

lemma hex_text_no_nl: "is_hex_text s \<Longrightarrow> nl \<notin> set s"
  by (auto simp: is_hex_text_def list_all_iff)

lemma checked_text:
  "isAddress v \<Longrightarrow> \<exists>s. v = JStr s \<and> nl \<notin> set s"
  "isSignedIdentifier v \<Longrightarrow> \<exists>s. v = JStr s \<and> nl \<notin> set s"
  "isCanonicalOrigin v \<Longrightarrow> \<exists>s. v = JStr s \<and> nl \<notin> set s"
  "is_hex_string v \<Longrightarrow> \<exists>s. v = JStr s \<and> nl \<notin> set s"
  "isEncryptionKeyId v \<Longrightarrow> \<exists>s. v = JStr s \<and> nl \<notin> set s"
  by (cases v; auto dest: list_all_no_nl origin_no_nl hex_text_no_nl)+

lemma isCount_num: "isCount v \<Longrightarrow> \<exists>n. v = JNum n \<and> 0 \<le> n"
  by (cases v) (simp_all add: isCount_def)

lemma digest_no_nl [simp]: "nl \<notin> set (keys_digest P k)" "nl \<notin> set (redactions_digest P ks)"
  by (simp_all add: keys_digest_def redactions_digest_def)

lemma KEM_ALG_no_nl [simp]: "nl \<notin> set KEM_ALG"
  by (simp add: KEM_ALG_def CATKDF_KEM_ALG_def)

end
