(* ===== verification/SignedBodies.thy ===== *)
theory SignedBodies
  imports Bodies
begin

text \<open>
  Each body is a commitment: two statements with one text are the same statement, up to an
  explicit SHA-384 collision where the text holds a digest. Every builder is an interpretation
  of \<open>signed_body\<close>, so a text of one context is never a text of another.
\<close>

subsection \<open>One-line values\<close>

definition one_line :: "jsval \<Rightarrow> bool" where
  "one_line v \<longleftrightarrow> (\<exists>s. v = JStr s \<and> nl \<notin> set s)"

lemma one_line_checked [intro]:
  "isAddress v \<Longrightarrow> one_line v"
  "isSignedIdentifier v \<Longrightarrow> one_line v"
  "isCanonicalOrigin v \<Longrightarrow> one_line v"
  "is_hex_string v \<Longrightarrow> one_line v"
  "isEncryptionKeyId v \<Longrightarrow> one_line v"
  by (simp_all add: one_line_def checked_text)

lemma one_line_str: "nl \<notin> set s \<Longrightarrow> one_line (JStr s)"
  by (simp add: one_line_def)

lemma one_line_js_str: "one_line v \<Longrightarrow> nl \<notin> set (js_str v)"
  by (auto simp: one_line_def)

lemma one_line_inj: "one_line v \<Longrightarrow> one_line w \<Longrightarrow> js_str v = js_str w \<Longrightarrow> v = w"
  by (auto simp: one_line_def)

lemma count_js_str: "isCount v \<Longrightarrow> nl \<notin> set (js_str v)"
  by (auto dest!: isCount_num)

lemma count_inj: "isCount v \<Longrightarrow> isCount w \<Longrightarrow> js_str v = js_str w \<Longrightarrow> v = w"
  by (auto dest!: isCount_num)

text \<open>Labels as the templates have them, and no line break before the last value.\<close>

definition lines_ok :: "(string \<times> string) list \<Rightarrow> bool" where
  "lines_ok kvs \<longleftrightarrow> list_all (label_ok \<circ> fst) kvs \<and> (\<forall>v\<in>snd ` set (butlast kvs). nl \<notin> set v)"

lemma lines_inj:
  "kv_lines xs = kv_lines ys \<Longrightarrow> length xs = length ys \<Longrightarrow> lines_ok xs \<Longrightarrow> lines_ok ys \<Longrightarrow> xs = ys"
  using kv_lines_inj by (simp add: lines_ok_def)

lemma body_inj:
  "domainSeparate c (kv_lines xs) = domainSeparate c (kv_lines ys) \<Longrightarrow> length xs = length ys \<Longrightarrow>
   lines_ok xs \<Longrightarrow> lines_ok ys \<Longrightarrow> xs = ys"
  by (rule lines_inj) (simp_all add: domainSeparate_def)

definition ds_prefix :: string where
  "ds_prefix = ds_header @ nl # ''context=''"

lemma domainSeparate_prefix: "domainSeparate c body = ds_prefix @ c @ nl # body"
  by (simp add: domainSeparate_def ds_prefix_def)

lemma ctx_lines [simp]:
  "nl \<notin> set CTX_LOGIN" "nl \<notin> set CTX_MESSAGE" "nl \<notin> set CTX_KEY_ATTESTATION" "nl \<notin> set CTX_ACCOUNT_DELETION"
  "nl \<notin> set CTX_CONVERSATION_ERASE" "nl \<notin> set CTX_KEY_ROTATION" "nl \<notin> set CTX_MULTISIG_APPROVAL" "nl \<notin> set CTX_CONTENT"
  by (simp_all add: ctx_defs)

subsection \<open>Chat messages\<close>

definition same_keys :: "prims \<Rightarrow> jsval \<Rightarrow> jsval \<Rightarrow> bool" where
  "same_keys P k l \<longleftrightarrow>
     canonicalJson k = canonicalJson l \<or> sha384_collision P (utf8 (canonicalJson k)) (utf8 (canonicalJson l))"

text \<open>Both redacted, or both present with the same canonical ciphertext.\<close>

definition same_ct :: "jsval \<Rightarrow> jsval \<Rightarrow> bool" where
  "same_ct c d \<longleftrightarrow>
     (is_nullish c \<and> is_nullish d) \<or>
     (\<not> is_nullish c \<and> \<not> is_nullish d \<and> canonicalCiphertext c = canonicalCiphertext d)"

definition or_empty :: "jsval \<Rightarrow> string" where
  "or_empty v = (if is_nullish v then [] else js_str v)"

definition same_message :: "prims \<Rightarrow> message_fields \<Rightarrow> message_fields \<Rightarrow> bool" where
  "same_message P m n \<longleftrightarrow>
     mf_from m = mf_from n \<and> mf_conv m = mf_conv n \<and> or_empty (mf_gid m) = or_empty (mf_gid n) \<and>
     mf_sid m = mf_sid n \<and> mf_ts m = mf_ts n \<and> mf_seq m = mf_seq n \<and>
     same_keys P (mf_keys m) (mf_keys n) \<and> same_ct (mf_ct m) (mf_ct n)"

lemma canonicalJson_nullish: "canonicalJson (if is_nullish k then JNull else k) = canonicalJson k"
  by (cases k) simp_all

lemma keys_digest_eq: "keys_digest P k = keys_digest P l \<longleftrightarrow> same_keys P k l"
  unfolding keys_digest_def sha384Hex_eq canonicalJson_nullish same_keys_def by simp

definition message_checks :: "message_fields \<Rightarrow> bool" where
  "message_checks m \<longleftrightarrow>
     isAddress (mf_from m) \<and> (isAddress (mf_conv m) \<or> isSignedIdentifier (mf_conv m)) \<and>
     (mf_gid m = JStr [] \<or> is_nullish (mf_gid m) \<or> isSignedIdentifier (mf_gid m)) \<and>
     isSignedIdentifier (mf_sid m) \<and> isCount (mf_ts m) \<and> isCount (mf_seq m)"

definition message_lines :: "prims \<Rightarrow> message_fields \<Rightarrow> (string \<times> string) list" where
  "message_lines P m =
     [(''from'', js_str (mf_from m)), (''conv'', js_str (mf_conv m)), (''gid'', or_empty (mf_gid m)),
      (''sid'', js_str (mf_sid m)), (''ts'', js_str (mf_ts m)), (''seq'', js_str (mf_seq m)),
      (''keysh'', keys_digest P (mf_keys m)),
      (if is_nullish (mf_ct m) then (''redacted'', ''1'') else (''ct'', canonicalCiphertext (mf_ct m)))]"

lemma messageSigningBody_ok:
  "messageSigningBody P m = Inr b \<longleftrightarrow> message_checks m \<and> b = domainSeparate CTX_MESSAGE (kv_lines (message_lines P m))"
  by (auto simp: messageSigningBody_def message_checks_def message_lines_def or_empty_def)

lemma message_values_one_line:
  assumes "message_checks m"
  shows "one_line (mf_from m)" "one_line (mf_conv m)" "one_line (mf_sid m)" "nl \<notin> set (or_empty (mf_gid m))"
  using assms one_line_js_str [OF one_line_checked(2), of "mf_gid m"]
  by (auto simp: message_checks_def or_empty_def)

lemma message_lines_ok:
  assumes "message_checks m"
  shows "lines_ok (message_lines P m)"
  using message_values_one_line [OF assms] assms one_line_js_str count_js_str
  by (auto simp: lines_ok_def message_lines_def label_ok_def message_checks_def)

lemma messageSigningBody_commits:
  assumes "messageSigningBody P m = Inr b" and "messageSigningBody P n = Inr b"
  shows "same_message P m n"
proof -
  have c: "message_checks m" "message_checks n" using assms by (simp_all add: messageSigningBody_ok)
  have "domainSeparate CTX_MESSAGE (kv_lines (message_lines P m)) = domainSeparate CTX_MESSAGE (kv_lines (message_lines P n))"
    using assms by (simp add: messageSigningBody_ok)
  then have l: "message_lines P m = message_lines P n"
    by (rule body_inj) (simp_all add: message_lines_ok c, simp add: message_lines_def)
  have "isCount (mf_ts m)" "isCount (mf_ts n)" "isCount (mf_seq m)" "isCount (mf_seq n)"
    using c by (simp_all add: message_checks_def)
  then show ?thesis
    using l message_values_one_line [OF c(1)] message_values_one_line [OF c(2)]
    by (auto simp: message_lines_def same_message_def same_ct_def keys_digest_eq
        intro: one_line_inj count_inj split: if_splits)
qed

interpretation message_body: signed_body "messageSigningBody P" ds_prefix CTX_MESSAGE "same_message P" for P
  by unfold_locales (auto simp: messageSigningBody_ok domainSeparate_prefix intro: messageSigningBody_commits)

text \<open>Well-formed key maps that share a digest say the same, or exhibit a collision.\<close>

lemma same_keys_values:
  "js_wf k \<Longrightarrow> js_wf l \<Longrightarrow> same_keys P k l \<Longrightarrow>
   js_norm k = js_norm l \<or> sha384_collision P (utf8 (canonicalJson k)) (utf8 (canonicalJson l))"
  by (auto simp: same_keys_def canonicalJson_inj)

text \<open>The ciphertext of an envelope whose two fields are base64 is signed in one form only.\<close>

lemma b64_no_dot: "CHR ''.'' \<notin> set (toB64 bs)"
proof -
  obtain t k where t: "toB64 bs = t @ replicate k pad_char" "b64_wf k t"
    using groups_of_bytes [of bs] by (auto simp: toB64_groups)
  have "\<not> is_b64 (CHR ''.'')" by (simp add: is_b64_def b64_alphabet_def)
  then show ?thesis using t by (auto simp: b64_wf_def list_all_iff)
qed

definition b64_envelope :: "bytes \<Rightarrow> bytes \<Rightarrow> jsval" where
  "b64_envelope iv c = JObj [(''v'', JNum FORMAT_VERSION), (''alg'', JStr ''A256GCM''), (''iv'', JStr (toB64 iv)), (''content'', JStr (toB64 c))]"

lemma toB64_inj: "bs \<noteq> [] \<Longrightarrow> cs \<noteq> [] \<Longrightarrow> toB64 bs = toB64 cs \<longleftrightarrow> bs = cs"
  by (metis fromB64_toB64 sum.inject(2))

lemma same_ct_envelope:
  assumes "iv \<noteq> []" "c \<noteq> []" "iv' \<noteq> []" "c' \<noteq> []"
  shows "same_ct (b64_envelope iv c) (b64_envelope iv' c') \<longleftrightarrow> iv = iv' \<and> c = c'"
  using assms sep_split [OF b64_no_dot b64_no_dot]
  by (auto simp: same_ct_def b64_envelope_def canonicalCiphertext_def toB64_inj)

subsection \<open>Login\<close>

definition same_login :: "login_fields \<Rightarrow> login_fields \<Rightarrow> bool" where
  "same_login f g \<longleftrightarrow>
     lf_nonce f = lf_nonce g \<and> lf_origin f = lf_origin g \<and> lf_deployment f = lf_deployment g \<and>
     truthy (lf_encryptionKey f) = truthy (lf_encryptionKey g) \<and>
     (truthy (lf_encryptionKey f) \<longrightarrow> js_str (lf_encryptionKey f) = js_str (lf_encryptionKey g))"

definition login_checks :: "login_fields \<Rightarrow> bool" where
  "login_checks f \<longleftrightarrow>
     is_hex_string (lf_nonce f) \<and> isCanonicalOrigin (lf_origin f) \<and> isSignedIdentifier (lf_deployment f) \<and>
     login_key_ok (lf_encryptionKey f)"

definition login_lines :: "login_fields \<Rightarrow> (string \<times> string) list" where
  "login_lines f =
     [(''origin'', js_str (lf_origin f)), (''deployment'', js_str (lf_deployment f)), (''nonce'', js_str (lf_nonce f)),
      (''encryption-key-alg'', if truthy (lf_encryptionKey f) then KEM_ALG else []),
      (''encryption-key'', if truthy (lf_encryptionKey f) then js_str (lf_encryptionKey f) else [])]"

lemma loginChallengeBody_ok:
  "loginChallengeBody f = Inr b \<longleftrightarrow>
   login_checks f \<and> b = domainSeparate CTX_LOGIN (''Sign in to Kryptolog'' @ nl # kv_lines (login_lines f))"
  by (auto simp: loginChallengeBody_def login_checks_def login_lines_def)

lemma login_values_one_line:
  assumes "login_checks f"
  shows "one_line (lf_nonce f)" "one_line (lf_origin f)" "one_line (lf_deployment f)"
  using assms by (auto simp: login_checks_def)

lemma login_lines_ok:
  assumes "login_checks f"
  shows "lines_ok (login_lines f)"
  using login_values_one_line [OF assms] one_line_js_str by (auto simp: lines_ok_def login_lines_def label_ok_def)

lemma KEM_ALG_nonempty [simp]: "KEM_ALG \<noteq> []" "[] \<noteq> KEM_ALG"
  by (simp_all add: KEM_ALG_def CATKDF_KEM_ALG_def)

lemma loginChallengeBody_commits:
  assumes "loginChallengeBody f = Inr b" and "loginChallengeBody g = Inr b"
  shows "same_login f g"
proof -
  have c: "login_checks f" "login_checks g" using assms by (simp_all add: loginChallengeBody_ok)
  have "kv_lines (login_lines f) = kv_lines (login_lines g)"
    using assms by (simp add: loginChallengeBody_ok domainSeparate_def)
  then have "login_lines f = login_lines g"
    by (rule lines_inj) (simp_all add: login_lines_ok c, simp add: login_lines_def)
  then show ?thesis
    using login_values_one_line [OF c(1)] login_values_one_line [OF c(2)]
    by (auto simp: login_lines_def same_login_def intro: one_line_inj split: if_splits)
qed

interpretation login_body: signed_body loginChallengeBody ds_prefix CTX_LOGIN same_login
  by unfold_locales (auto simp: loginChallengeBody_ok domainSeparate_prefix intro: loginChallengeBody_commits)

subsection \<open>Account deletion and conversation erase\<close>

text \<open>The same multiset of redaction keys: the order they were collected in does not matter.\<close>

definition redactions_json :: "string list \<Rightarrow> string" where
  "redactions_json ks = canonicalJson (JArr (map JStr (sort ks)))"

definition same_redactions :: "prims \<Rightarrow> string list \<Rightarrow> string list \<Rightarrow> bool" where
  "same_redactions P ks ls \<longleftrightarrow>
     sort ks = sort ls \<or> sha384_collision P (utf8 (redactions_json ks)) (utf8 (redactions_json ls))"

lemma redactions_json_inj: "redactions_json ks = redactions_json ls \<longleftrightarrow> sort ks = sort ls"
proof -
  have wf: "js_wf (JArr (map JStr l))" and norm: "js_norm (JArr (map JStr l)) = JArr (map JStr l)" for l
    by simp_all
  have "redactions_json ks = redactions_json ls \<longleftrightarrow> JArr (map JStr (sort ks)) = JArr (map JStr (sort ls))"
    unfolding redactions_json_def canonicalJson_inj [OF wf wf] norm ..
  then show ?thesis by (auto dest: map_injective simp: inj_def)
qed

lemma redactions_digest_eq: "redactions_digest P ks = redactions_digest P ls \<longleftrightarrow> same_redactions P ks ls"
  unfolding redactions_digest_def same_redactions_def redactions_json_inj [symmetric]
  by (simp add: sha384Hex_eq redactions_json_def)

definition same_deletion :: "prims \<Rightarrow> deletion_fields \<Rightarrow> deletion_fields \<Rightarrow> bool" where
  "same_deletion P f g \<longleftrightarrow>
     df_nonce f = df_nonce g \<and> df_mode f = df_mode g \<and> df_origin f = df_origin g \<and>
     df_deployment f = df_deployment g \<and> same_redactions P (df_redactionKeys f) (df_redactionKeys g)"

definition deletion_checks :: "deletion_fields \<Rightarrow> bool" where
  "deletion_checks f \<longleftrightarrow>
     is_hex_string (df_nonce f) \<and> (df_mode f = JStr ''leave'' \<or> df_mode f = JStr ''erase'') \<and>
     isCanonicalOrigin (df_origin f) \<and> isSignedIdentifier (df_deployment f)"

definition deletion_lines :: "prims \<Rightarrow> deletion_fields \<Rightarrow> (string \<times> string) list" where
  "deletion_lines P f =
     [(''origin'', js_str (df_origin f)), (''deployment'', js_str (df_deployment f)), (''nonce'', js_str (df_nonce f)),
      (''mode'', js_str (df_mode f)), (''redactions'', redactions_digest P (df_redactionKeys f))]"

lemma accountDeletionBody_ok:
  "accountDeletionBody P f = Inr b \<longleftrightarrow>
   deletion_checks f \<and> b = domainSeparate CTX_ACCOUNT_DELETION (kv_lines (deletion_lines P f))"
  by (auto simp: accountDeletionBody_def deletion_checks_def deletion_lines_def)

lemma deletion_values_one_line:
  assumes "deletion_checks f"
  shows "one_line (df_nonce f)" "one_line (df_origin f)" "one_line (df_deployment f)" "one_line (df_mode f)"
  using assms by (auto simp: deletion_checks_def intro!: one_line_str)

lemma deletion_lines_ok: "deletion_checks f \<Longrightarrow> lines_ok (deletion_lines P f)"
  using deletion_values_one_line [of f] one_line_js_str by (auto simp: lines_ok_def deletion_lines_def label_ok_def)

lemma accountDeletionBody_commits:
  assumes "accountDeletionBody P f = Inr b" and "accountDeletionBody P g = Inr b"
  shows "same_deletion P f g"
proof -
  have c: "deletion_checks f" "deletion_checks g" using assms by (simp_all add: accountDeletionBody_ok)
  have "domainSeparate CTX_ACCOUNT_DELETION (kv_lines (deletion_lines P f)) =
      domainSeparate CTX_ACCOUNT_DELETION (kv_lines (deletion_lines P g))"
    using assms by (simp add: accountDeletionBody_ok)
  then have "deletion_lines P f = deletion_lines P g"
    by (rule body_inj) (simp_all add: deletion_lines_ok c, simp add: deletion_lines_def)
  then show ?thesis
    using deletion_values_one_line [OF c(1)] deletion_values_one_line [OF c(2)]
    by (auto simp: deletion_lines_def same_deletion_def redactions_digest_eq intro: one_line_inj)
qed

interpretation deletion_body: signed_body "accountDeletionBody P" ds_prefix CTX_ACCOUNT_DELETION "same_deletion P" for P
  by unfold_locales (auto simp: accountDeletionBody_ok domainSeparate_prefix intro: accountDeletionBody_commits)

definition same_erase :: "prims \<Rightarrow> erase_fields \<Rightarrow> erase_fields \<Rightarrow> bool" where
  "same_erase P f g \<longleftrightarrow>
     ef_nonce f = ef_nonce g \<and> ef_kind f = ef_kind g \<and> ef_conversation f = ef_conversation g \<and>
     ef_origin f = ef_origin g \<and> ef_deployment f = ef_deployment g \<and>
     same_redactions P (ef_redactionKeys f) (ef_redactionKeys g)"

definition erase_checks :: "erase_fields \<Rightarrow> bool" where
  "erase_checks f \<longleftrightarrow>
     is_hex_string (ef_nonce f) \<and> erase_target_ok f \<and> isCanonicalOrigin (ef_origin f) \<and>
     isSignedIdentifier (ef_deployment f)"

definition erase_target :: "erase_fields \<Rightarrow> string" where
  "erase_target f = js_str (ef_kind f) @ CHR '':'' # js_str (ef_conversation f)"

definition erase_lines :: "prims \<Rightarrow> erase_fields \<Rightarrow> (string \<times> string) list" where
  "erase_lines P f =
     [(''origin'', js_str (ef_origin f)), (''deployment'', js_str (ef_deployment f)), (''nonce'', js_str (ef_nonce f)),
      (''conversation'', erase_target f), (''redactions'', redactions_digest P (ef_redactionKeys f))]"

lemma conversationEraseBody_ok:
  "conversationEraseBody P f = Inr b \<longleftrightarrow>
   erase_checks f \<and> b = domainSeparate CTX_CONVERSATION_ERASE (kv_lines (erase_lines P f))"
  by (auto simp: conversationEraseBody_def erase_checks_def erase_lines_def erase_target_def)

lemma erase_values_one_line:
  assumes "erase_checks f"
  shows "one_line (ef_nonce f)" "one_line (ef_origin f)" "one_line (ef_deployment f)" "one_line (ef_conversation f)"
    "ef_kind f = JStr ''dm'' \<or> ef_kind f = JStr ''group''"
  using assms by (auto simp: erase_checks_def erase_target_ok_def)

lemma erase_target_facts:
  assumes "erase_checks f"
  shows "nl \<notin> set (erase_target f)"
  using erase_values_one_line [OF assms] one_line_js_str by (auto simp: erase_target_def)

text \<open>The kind has no colon, so the first colon separates it from the conversation.\<close>

lemma erase_target_inj:
  assumes "erase_checks f" "erase_checks g" and "erase_target f = erase_target g"
  shows "ef_kind f = ef_kind g \<and> ef_conversation f = ef_conversation g"
  using assms(3) erase_values_one_line [OF assms(1)] erase_values_one_line [OF assms(2)]
  by (auto simp: erase_target_def intro: one_line_inj)

lemma erase_lines_ok: "erase_checks f \<Longrightarrow> lines_ok (erase_lines P f)"
  using erase_values_one_line [of f] erase_target_facts [of f] one_line_js_str
  by (auto simp: lines_ok_def erase_lines_def label_ok_def)

lemma conversationEraseBody_commits:
  assumes "conversationEraseBody P f = Inr b" and "conversationEraseBody P g = Inr b"
  shows "same_erase P f g"
proof -
  have c: "erase_checks f" "erase_checks g" using assms by (simp_all add: conversationEraseBody_ok)
  have "domainSeparate CTX_CONVERSATION_ERASE (kv_lines (erase_lines P f)) =
      domainSeparate CTX_CONVERSATION_ERASE (kv_lines (erase_lines P g))"
    using assms by (simp add: conversationEraseBody_ok)
  then have "erase_lines P f = erase_lines P g"
    by (rule body_inj) (simp_all add: erase_lines_ok c, simp add: erase_lines_def)
  then show ?thesis
    using erase_values_one_line [OF c(1)] erase_values_one_line [OF c(2)] erase_target_inj [OF c]
    by (auto simp: erase_lines_def same_erase_def redactions_digest_eq intro: one_line_inj)
qed

interpretation erase_body: signed_body "conversationEraseBody P" ds_prefix CTX_CONVERSATION_ERASE "same_erase P" for P
  by unfold_locales (auto simp: conversationEraseBody_ok domainSeparate_prefix intro: conversationEraseBody_commits)

subsection \<open>Key attestation and rotation\<close>

definition attestation_lines :: "attestation_fields \<Rightarrow> (string \<times> string) list" where
  "attestation_lines f =
     [(''address'', js_str (af_address f)), (''encryption-alg'', KEM_ALG), (''encryption'', js_str (af_encryptionPublicKey f))]"

lemma encryptionKeyAttestationBody_ok:
  "encryptionKeyAttestationBody f = Inr b \<longleftrightarrow>
   isAddress (af_address f) \<and> is_hex_string (af_encryptionPublicKey f) \<and>
   b = domainSeparate CTX_KEY_ATTESTATION (kv_lines (attestation_lines f))"
  by (auto simp: encryptionKeyAttestationBody_def attestation_lines_def)

lemma attestation_lines_ok: "isAddress (af_address f) \<Longrightarrow> lines_ok (attestation_lines f)"
  using one_line_js_str [OF one_line_checked(1)] by (auto simp: lines_ok_def attestation_lines_def label_ok_def)

lemma encryptionKeyAttestationBody_commits:
  assumes "encryptionKeyAttestationBody f = Inr b" and "encryptionKeyAttestationBody g = Inr b"
  shows "f = g"
proof -
  have c: "isAddress (af_address f)" "isAddress (af_address g)" "is_hex_string (af_encryptionPublicKey f)"
    "is_hex_string (af_encryptionPublicKey g)"
    using assms by (simp_all add: encryptionKeyAttestationBody_ok)
  have "domainSeparate CTX_KEY_ATTESTATION (kv_lines (attestation_lines f)) =
      domainSeparate CTX_KEY_ATTESTATION (kv_lines (attestation_lines g))"
    using assms by (simp add: encryptionKeyAttestationBody_ok)
  then have "attestation_lines f = attestation_lines g"
    by (rule body_inj) (simp_all add: attestation_lines_ok c, simp add: attestation_lines_def)
  then have "js_str (af_address f) = js_str (af_address g)"
    "js_str (af_encryptionPublicKey f) = js_str (af_encryptionPublicKey g)"
    by (simp_all add: attestation_lines_def)
  then have "af_address f = af_address g" "af_encryptionPublicKey f = af_encryptionPublicKey g"
    using c by (auto intro: one_line_inj)
  then show ?thesis by simp
qed

interpretation attestation_body: signed_body encryptionKeyAttestationBody ds_prefix CTX_KEY_ATTESTATION "(=)"
  by unfold_locales
    (auto simp: encryptionKeyAttestationBody_ok domainSeparate_prefix intro: encryptionKeyAttestationBody_commits)

definition rotation_checks :: "rotation_fields \<Rightarrow> bool" where
  "rotation_checks f \<longleftrightarrow>
     isAddress (rf_address f) \<and> isEncryptionKeyId (rf_oldKid f) \<and> isEncryptionKeyId (rf_newKid f) \<and>
     rf_oldKid f \<noteq> rf_newKid f \<and> isCount (rf_ts f)"

definition rotation_lines :: "rotation_fields \<Rightarrow> (string \<times> string) list" where
  "rotation_lines f =
     [(''address'', js_str (rf_address f)), (''old-kid'', js_str (rf_oldKid f)), (''new-kid'', js_str (rf_newKid f)),
      (''new-alg'', KEM_ALG), (''ts'', js_str (rf_ts f))]"

lemma keyRotationBody_ok:
  "keyRotationBody f = Inr b \<longleftrightarrow> rotation_checks f \<and> b = domainSeparate CTX_KEY_ROTATION (kv_lines (rotation_lines f))"
  by (auto simp: keyRotationBody_def rotation_checks_def rotation_lines_def)

lemma rotation_values_one_line:
  assumes "rotation_checks f"
  shows "one_line (rf_address f)" "one_line (rf_oldKid f)" "one_line (rf_newKid f)"
  using assms by (auto simp: rotation_checks_def)

lemma rotation_lines_ok: "rotation_checks f \<Longrightarrow> lines_ok (rotation_lines f)"
  using rotation_values_one_line [of f] one_line_js_str by (auto simp: lines_ok_def rotation_lines_def label_ok_def)

lemma keyRotationBody_commits:
  assumes "keyRotationBody f = Inr b" and "keyRotationBody g = Inr b"
  shows "f = g"
proof -
  have c: "rotation_checks f" "rotation_checks g" using assms by (simp_all add: keyRotationBody_ok)
  have "domainSeparate CTX_KEY_ROTATION (kv_lines (rotation_lines f)) =
      domainSeparate CTX_KEY_ROTATION (kv_lines (rotation_lines g))"
    using assms by (simp add: keyRotationBody_ok)
  then have l: "rotation_lines f = rotation_lines g"
    by (rule body_inj) (simp_all add: rotation_lines_ok c, simp add: rotation_lines_def)
  have "rf_address f = rf_address g" "rf_oldKid f = rf_oldKid g" "rf_newKid f = rf_newKid g"
    using l rotation_values_one_line [OF c(1)] rotation_values_one_line [OF c(2)]
    by (simp_all add: rotation_lines_def one_line_inj)
  moreover have "rf_ts f = rf_ts g"
    using l c count_inj by (simp add: rotation_lines_def rotation_checks_def)
  ultimately show ?thesis by simp
qed

interpretation rotation_body: signed_body keyRotationBody ds_prefix CTX_KEY_ROTATION "(=)"
  by unfold_locales (auto simp: keyRotationBody_ok domainSeparate_prefix intro: keyRotationBody_commits)

subsection \<open>Multisig approvals\<close>

text \<open>With identifiers that hold no line break, the approval names one workflow, one secret and
  one ciphertext digest.\<close>

definition multisig_lines :: "string \<Rightarrow> string \<Rightarrow> string \<Rightarrow> (string \<times> string) list" where
  "multisig_lines w s c = [(''workflow'', w), (''secret'', s), (''ct'', c)]"

lemma multisigApprovalMessage_inj:
  assumes "nl \<notin> set w" "nl \<notin> set s" "nl \<notin> set w'" "nl \<notin> set s'"
    and "multisigApprovalMessage w s c = multisigApprovalMessage w' s' c'"
  shows "w = w' \<and> s = s' \<and> c = c'"
proof -
  have ok: "lines_ok (multisig_lines a b d)" if "nl \<notin> set a" "nl \<notin> set b" for a b d
    using that by (simp add: lines_ok_def multisig_lines_def label_ok_def)
  have "multisig_lines w s c = multisig_lines w' s' c'"
    by (rule body_inj [of CTX_MULTISIG_APPROVAL])
      (use assms(5) in \<open>simp_all add: ok assms(1-4)\<close>, simp_all add: multisigApprovalMessage_def multisig_lines_def)
  then show ?thesis by (simp add: multisig_lines_def)
qed

end
