(* ===== verification/Signing.thy ===== *)
theory Signing
  imports SignedBodies
begin

text \<open>
  The second part of \<open>packages/crypto-core/src/signing.js\<close>: attesting an encryption key,
  rotating it, walking a chain of rotations, the safety number, and the transfer passphrase.
\<close>

subsection \<open>Attestations\<close>

definition attestEncryptionKey :: "prims \<Rightarrow> attestation_fields \<Rightarrow> jsval \<Rightarrow> bytes \<times> bytes \<Rightarrow> string res" where
  "attestEncryptionKey P f seedHex rnd =
     bind_res (encryptionKeyAttestationBody f) (\<lambda>body. signMessage P body seedHex rnd)"

record attestation_claim =
  ac_address :: jsval
  ac_identityPublicKey :: jsval
  ac_encryptionPublicKey :: jsval
  ac_attestation :: jsval

definition verifyEncryptionKeyAttestation :: "prims \<Rightarrow> attestation_claim \<Rightarrow> bool" where
  "verifyEncryptionKeyAttestation P c =
     (if \<not> truthy (ac_encryptionPublicKey c) \<or> \<not> truthy (ac_attestation c) then False
      else case encryptionKeyAttestationBody
          \<lparr>af_address = ac_address c, af_encryptionPublicKey = ac_encryptionPublicKey c\<rparr> of
        Inl _ \<Rightarrow> False
      | Inr body \<Rightarrow>
          verifyIdentitySignature P (ac_address c) (ac_identityPublicKey c) body (ac_attestation c))"

subsection \<open>Rotations\<close>

definition signKeyRotation :: "prims \<Rightarrow> rotation_fields \<Rightarrow> jsval \<Rightarrow> bytes \<times> bytes \<Rightarrow> string res" where
  "signKeyRotation P rot seedHex rnd = bind_res (keyRotationBody rot) (\<lambda>body. signMessage P body seedHex rnd)"

definition rotation_statement :: "jsval \<Rightarrow> jsval \<Rightarrow> rotation_fields" where
  "rotation_statement address r =
     \<lparr>rf_address = address, rf_oldKid = js_get r ''old_kid'', rf_newKid = js_get r ''new_kid'', rf_ts = js_get r ''ts''\<rparr>"

definition verifyKeyRotation :: "prims \<Rightarrow> jsval \<Rightarrow> jsval \<Rightarrow> jsval \<Rightarrow> bool" where
  "verifyKeyRotation P address publicKey r =
     (if \<not> truthy r \<or> js_get r ''alg'' \<noteq> JStr KEM_ALG then False
      else case keyRotationBody (rotation_statement address r) of
        Inl _ \<Rightarrow> False
      | Inr body \<Rightarrow> verifyIdentitySignature P address publicKey body (js_get r ''signature''))"

text \<open>The map from a record's old key id to the record: the last record wins.\<close>

definition by_old :: "jsval list \<Rightarrow> string \<Rightarrow> jsval option" where
  "by_old rs kid = map_of (rev (map (\<lambda>r. (js_get r ''old_kid'', r)) rs)) (JStr kid)"

lemma by_old_mem: "by_old rs kid = Some r \<Longrightarrow> r \<in> set rs \<and> js_get r ''old_kid'' = JStr kid"
  by (auto simp: by_old_def dest!: map_of_SomeD)

text \<open>
  The loop of \<open>rotationChain\<close>. Key ids are strings; the id a verified record names next is one,
  so the last case is not reached. \<open>None\<close> is the \<open>null\<close> result.
\<close>

function rotation_walk :: "prims \<Rightarrow> jsval \<Rightarrow> jsval \<Rightarrow> jsval list \<Rightarrow> string \<Rightarrow> string \<Rightarrow> jsval list \<Rightarrow> jsval list option" where
  "rotation_walk P address publicKey rs kid toKid chain =
     (if kid = toKid then Some chain
      else case by_old rs kid of
        None \<Rightarrow> None
      | Some next_rec \<Rightarrow>
          if next_rec \<in> set chain then None
          else if \<not> verifyKeyRotation P address publicKey next_rec then None
          else (case js_get next_rec ''new_kid'' of
              JStr k \<Rightarrow> rotation_walk P address publicKey rs k toKid (chain @ [next_rec])
            | _ \<Rightarrow> None))"
  by pat_completeness auto

termination
proof (relation "measure (\<lambda>(_, _, _, rs, _, _, chain). card (set rs - set chain))", simp, clarsimp)
  fix rs kid chain r
  assume "by_old rs kid = Some r" "r \<notin> set chain"
  then have "set rs - insert r (set chain) \<subset> set rs - set chain"
    using by_old_mem by blast
  then show "card (set rs - insert r (set chain)) < card (set rs - set chain)"
    by (simp add: psubset_card_mono)
qed

declare rotation_walk.simps [simp del]

text \<open>\<open>rotations ?? []\<close>, then \<open>.map\<close>: anything that is not a list of non-null values throws.\<close>

definition rotation_records :: "jsval \<Rightarrow> jsval list res" where
  "rotation_records v =
     (if is_nullish v then Ok []
      else case v of
        JArr rs \<Rightarrow> if list_ex is_nullish rs then Throw (JsTypeError ''Cannot read properties of null'') else Ok rs
      | _ \<Rightarrow> Throw (JsTypeError ''map is not a function''))"

definition rotationChain :: "prims \<Rightarrow> jsval \<Rightarrow> jsval \<Rightarrow> jsval \<Rightarrow> string \<Rightarrow> string \<Rightarrow> jsval list option res" where
  "rotationChain P address publicKey rotations fromKid toKid =
     bind_res (rotation_records rotations) (\<lambda>rs. Ok (rotation_walk P address publicKey rs fromKid toKid []))"

subsection \<open>Safety numbers\<close>

definition parse_hex :: "string \<Rightarrow> nat" where
  "parse_hex s = foldl (\<lambda>n c. 16 * n + hex_value c) 0 s"

definition fingerprint_group :: "string \<Rightarrow> nat \<Rightarrow> string" where
  "fingerprint_group hex i = pad_start 5 (CHR ''0'') (nat_str (parse_hex (slice (i * 5) (i * 5 + 5) hex) mod 100000))"

definition fingerprint_text :: "string \<Rightarrow> string \<Rightarrow> string" where
  "fingerprint_text address publicKey =
     ''Kryptolog safety number v5'' @ nl #
     kv_lines [(''address'', address), (''encryption-alg'', KEM_ALG), (''encryption'', publicKey)]"

definition keyFingerprint :: "prims \<Rightarrow> string \<Rightarrow> string \<Rightarrow> string" where
  "keyFingerprint P address publicKey =
     (let hex = sha384Hex P (fingerprint_text address publicKey)
      in join '' '' (map (fingerprint_group hex) [0..<12]))"

subsection \<open>The transfer passphrase\<close>

definition b32_alphabet :: string where
  "b32_alphabet = ''0123456789ABCDEFGHJKMNPQRSTVWXYZ''"

fun nat_bin :: "nat \<Rightarrow> string" where
  "nat_bin n = (if n < 2 then [digit n] else nat_bin (n div 2) @ [digit (n mod 2)])"

declare nat_bin.simps [simp del]

definition parse_bin :: "string \<Rightarrow> nat" where
  "parse_bin s = foldl (\<lambda>n c. 2 * n + digit_val c) 0 s"

definition pad_end :: "nat \<Rightarrow> char \<Rightarrow> string \<Rightarrow> string" where
  "pad_end n c s = s @ replicate (n - length s) c"

function in_groups :: "nat \<Rightarrow> 'a list \<Rightarrow> 'a list list" where
  "in_groups n xs = (if xs = [] \<or> n = 0 then [] else take n xs # in_groups n (drop n xs))"
  by pat_completeness auto
termination
  by (relation "measure (\<lambda>(n, xs). length xs)") auto

declare in_groups.simps [simp del]

definition b32_char :: "string \<Rightarrow> char" where
  "b32_char chunk = b32_alphabet ! parse_bin (pad_end 5 (CHR ''0'') chunk)"

definition generateTransferCode :: "bytes \<Rightarrow> string" where
  "generateTransferCode random =
     (let bits = concat (map (\<lambda>b. pad_start 8 (CHR ''0'') (nat_bin (unat b))) random);
          out = map b32_char (in_groups 5 bits)
      in join ''-'' (in_groups 4 out))"

subsection \<open>Attestations and rotations verify\<close>

lemma own_isAddress: "digest_laws P \<Longrightarrow> own_identity P sk pk a \<Longrightarrow> isAddress (JStr a)"
  unfolding own_identity_def using addressOf_isAddress by blast

lemma own_attestation_verifies:
  assumes P: "signature_laws P" "digest_laws P" and own: "own_identity P sk pk a"
    and ek: "is_hex_text ek"
  shows "\<exists>sig. attestEncryptionKey P \<lparr>af_address = JStr a, af_encryptionPublicKey = JStr ek\<rparr> (JStr (toHex sk)) rnd = Inr sig \<and>
    verifyEncryptionKeyAttestation P
      \<lparr>ac_address = JStr a, ac_identityPublicKey = JStr (toHex pk), ac_encryptionPublicKey = JStr ek, ac_attestation = JStr sig\<rparr>"
proof -
  let ?f = "\<lparr>af_address = JStr a, af_encryptionPublicKey = JStr ek\<rparr>"
  have "isAddress (JStr a)"
    using own_isAddress [OF P(2) own] .
  then obtain body where body: "encryptionKeyAttestationBody ?f = Inr body"
    using ek by (auto simp: encryptionKeyAttestationBody_ok)
  obtain sig where sig: "signMessage P body (JStr (toHex sk)) rnd = Inr sig"
      "verifyIdentitySignature P (JStr a) (JStr (toHex pk)) body (JStr sig)"
    using own_signature_verifies [OF P own] by blast
  then obtain s where "fromB64 (JStr sig) = Inr s" by (auto simp: verifyIdentitySignature_iff)
  then have "sig \<noteq> []" by (auto simp: fromB64.simps)
  moreover have "ek \<noteq> []" using ek by (simp add: is_hex_text_def)
  ultimately show ?thesis
    using sig body by (simp add: attestEncryptionKey_def verifyEncryptionKeyAttestation_def)
qed

text \<open>What a verified attestation establishes.\<close>

lemma verified_attestation:
  assumes "verifyEncryptionKeyAttestation P c"
  shows "isAddressOf P (ac_address c) (ac_identityPublicKey c) \<and> is_hex_string (ac_encryptionPublicKey c) \<and>
    (\<exists>body. encryptionKeyAttestationBody
       \<lparr>af_address = ac_address c, af_encryptionPublicKey = ac_encryptionPublicKey c\<rparr> = Inr body \<and>
       verifyIdentitySignature P (ac_address c) (ac_identityPublicKey c) body (ac_attestation c))"
  using assms
  by (auto simp: verifyEncryptionKeyAttestation_def encryptionKeyAttestationBody_ok verifyIdentitySignature_iff
      split: if_splits sum.splits)

lemma verified_rotation:
  assumes "verifyKeyRotation P a v r"
  shows "js_get r ''alg'' = JStr KEM_ALG" "rotation_checks (rotation_statement a r)"
    "\<exists>body. keyRotationBody (rotation_statement a r) = Inr body \<and>
       verifyIdentitySignature P a v body (js_get r ''signature'')"
  using assms by (auto simp: verifyKeyRotation_def keyRotationBody_ok split: if_splits sum.splits)

lemma verified_rotation_kids:
  assumes "verifyKeyRotation P a v r"
  obtains k l where "js_get r ''old_kid'' = JStr k" "js_get r ''new_kid'' = JStr l" "k \<noteq> l"
proof -
  have "isEncryptionKeyId (js_get r ''old_kid'')" "isEncryptionKeyId (js_get r ''new_kid'')"
    "js_get r ''old_kid'' \<noteq> js_get r ''new_kid''"
    using verified_rotation(2) [OF assms] by (simp_all add: rotation_checks_def rotation_statement_def)
  then show thesis
    using that checked_text(5) by metis
qed

lemma own_rotation_verifies:
  assumes P: "signature_laws P" "digest_laws P" and own: "own_identity P sk pk a"
    and kids: "isEncryptionKeyId (JStr k)" "isEncryptionKeyId (JStr l)" "k \<noteq> l"
    and ts: "0 \<le> ts" "ts \<le> max_safe_integer"
  shows "\<exists>sig. signKeyRotation P \<lparr>rf_address = JStr a, rf_oldKid = JStr k, rf_newKid = JStr l, rf_ts = JNum ts\<rparr>
      (JStr (toHex sk)) rnd = Inr sig \<and>
    verifyKeyRotation P (JStr a) (JStr (toHex pk))
      (JObj [(''old_kid'', JStr k), (''new_kid'', JStr l), (''alg'', JStr KEM_ALG), (''ts'', JNum ts), (''signature'', JStr sig)])"
proof -
  let ?f = "\<lparr>rf_address = JStr a, rf_oldKid = JStr k, rf_newKid = JStr l, rf_ts = JNum ts\<rparr>"
  have "isAddress (JStr a)"
    using own_isAddress [OF P(2) own] .
  then have "rotation_checks ?f"
    using kids ts by (simp add: rotation_checks_def isCount_def)
  then obtain body where body: "keyRotationBody ?f = Inr body" by (simp add: keyRotationBody_ok)
  obtain sig where "signMessage P body (JStr (toHex sk)) rnd = Inr sig"
      "verifyIdentitySignature P (JStr a) (JStr (toHex pk)) body (JStr sig)"
    using own_signature_verifies [OF P own] by blast
  then show ?thesis
    using body by (simp add: signKeyRotation_def verifyKeyRotation_def rotation_statement_def)
qed

subsection \<open>Chains\<close>

text \<open>A list of records that lead from one key id to another, each verified.\<close>

fun linked :: "prims \<Rightarrow> jsval \<Rightarrow> jsval \<Rightarrow> string \<Rightarrow> jsval list \<Rightarrow> string \<Rightarrow> bool" where
  "linked P a v k [] l \<longleftrightarrow> k = l"
| "linked P a v k (r # rs) l \<longleftrightarrow>
     js_get r ''old_kid'' = JStr k \<and> verifyKeyRotation P a v r \<and>
     (\<exists>m. js_get r ''new_kid'' = JStr m \<and> linked P a v m rs l)"

lemma rotation_walk_linked:
  "rotation_walk P a v rs kid toKid chain = Some chain' \<Longrightarrow> distinct chain \<Longrightarrow>
   \<exists>tail. chain' = chain @ tail \<and> linked P a v kid tail toKid \<and> set tail \<subseteq> set rs \<and> distinct chain'"
proof (induction P a v rs kid toKid chain rule: rotation_walk.induct)
  case (1 P a v rs kid toKid chain)
  show ?case
  proof (cases "kid = toKid")
    case True
    then show ?thesis using "1.prems" by (simp add: rotation_walk.simps)
  next
    case False
    obtain r k where r: "by_old rs kid = Some r" "r \<notin> set chain" "verifyKeyRotation P a v r"
        "js_get r ''new_kid'' = JStr k" "rotation_walk P a v rs k toKid (chain @ [r]) = Some chain'"
      using "1.prems"(1) False
      by (auto simp: rotation_walk.simps [of P a v rs kid] split: option.splits if_splits jsval.splits)
    then obtain tail where "chain' = (chain @ [r]) @ tail" "linked P a v k tail toKid" "set tail \<subseteq> set rs" "distinct chain'"
      using "1.IH" [OF False r(1,2) _ r(4)] "1.prems"(2) by auto
    then show ?thesis using r by_old_mem [OF r(1)] by (intro exI [of _ "r # tail"]) auto
  qed
qed

text \<open>A chain of distinct records, one per key id, is found.\<close>


lemma rotation_walk_complete:
  assumes "linked P a v kid tail toKid" and "\<forall>r\<in>set tail. by_old rs (the (the_str (js_get r ''old_kid''))) = Some r"
    and "distinct (chain @ tail)" and "toKid \<notin> the ` the_str ` (\<lambda>r. js_get r ''old_kid'') ` set tail"
  shows "rotation_walk P a v rs kid toKid chain = Some (chain @ tail)"
  using assms
proof (induction tail arbitrary: kid chain)
  case Nil
  then show ?case by (simp add: rotation_walk.simps)
next
  case (Cons r tail)
  then obtain m where r: "js_get r ''old_kid'' = JStr kid" "verifyKeyRotation P a v r" "js_get r ''new_kid'' = JStr m"
      "linked P a v m tail toKid"
    by auto
  have "by_old rs kid = Some r" "r \<notin> set chain" "kid \<noteq> toKid" using Cons.prems r(1) by auto
  then have "rotation_walk P a v rs kid toKid chain = rotation_walk P a v rs m toKid (chain @ [r])"
    using r by (simp add: rotation_walk.simps [of P a v rs kid])
  also have "\<dots> = Some ((chain @ [r]) @ tail)"
    using Cons.prems r(4) by (intro Cons.IH) auto
  finally show ?case by simp
qed

lemma rotation_chain_length:
  assumes "rotation_walk P a v rs kid toKid [] = Some chain"
  shows "length chain \<le> length rs"
proof -
  obtain tail where "chain = tail" "set tail \<subseteq> set rs" "distinct chain"
    using rotation_walk_linked [OF assms] by auto
  then show ?thesis
    using card_mono [of "set rs" "set chain"] card_length [of rs] by (simp add: distinct_card)
qed

subsection \<open>The shape of a safety number\<close>

lemma length_nat_str_le: "n < 10 ^ Suc k \<Longrightarrow> length (nat_str n) \<le> Suc k"
proof (induction k arbitrary: n)
  case (Suc k)
  have "n div 10 < 10 ^ Suc k" using Suc.prems by (simp add: less_mult_imp_div_less)
  then show ?case using Suc.IH [of "n div 10"] by (subst nat_str.simps) simp
qed (simp add: nat_str.simps)

lemma fingerprint_group_shape:
  "length (fingerprint_group hex i) = 5 \<and> list_all is_digit (fingerprint_group hex i)"
proof -
  let ?n = "parse_hex (slice (i * 5) (i * 5 + 5) hex) mod 100000"
  have "length (nat_str ?n) \<le> Suc 4" by (rule length_nat_str_le) simp
  moreover have "list_all is_digit (replicate k (CHR ''0''))" for k
    by (simp add: list_all_iff is_digit_def)
  ultimately show ?thesis
    using nat_str_digits [of ?n] by (simp add: fingerprint_group_def pad_start_def)
qed

lemma keyFingerprint_shape:
  "\<exists>gs. keyFingerprint P a k = join '' '' gs \<and> length gs = 12 \<and> (\<forall>g\<in>set gs. length g = 5 \<and> list_all is_digit g)"
  by (intro exI [of _ "map (fingerprint_group (sha384Hex P (fingerprint_text a k))) [0..<12]"])
    (auto simp: keyFingerprint_def Let_def fingerprint_group_shape)

text \<open>The statement summarised names one address and one key.\<close>

lemma fingerprint_text_inj:
  assumes "nl \<notin> set a" "nl \<notin> set b" and "fingerprint_text a k = fingerprint_text b l"
  shows "a = b \<and> k = l"
proof -
  let ?l = "\<lambda>a k. [(''address'', a), (''encryption-alg'', KEM_ALG), (''encryption'', k)]"
  have "lines_ok (?l c k)" if "nl \<notin> set c" for c k
    using that by (simp add: lines_ok_def label_ok_def)
  moreover have "kv_lines (?l a k) = kv_lines (?l b l)" using assms(3) by (simp add: fingerprint_text_def)
  ultimately have "?l a k = ?l b l" using assms(1,2) by (intro lines_inj) simp_all
  then show ?thesis by simp
qed

subsection \<open>The transfer passphrase keeps every bit\<close>

definition is_bit :: "char \<Rightarrow> bool" where
  "is_bit c \<longleftrightarrow> c = CHR ''0'' \<or> c = CHR ''1''"

lemma bit_zeros: "list_all is_bit (replicate k (CHR ''0''))"
  by (simp add: list_all_iff is_bit_def)

lemma digit_bit: "d < 2 \<Longrightarrow> is_bit (digit d)"
  by (auto simp: is_bit_def digit_def less_2_cases_iff)

lemma nat_bin_bits: "list_all is_bit (nat_bin n)"
  by (induction n rule: nat_bin.induct) (simp add: nat_bin.simps digit_bit)

lemma parse_bin_snoc [simp]: "parse_bin (s @ [c]) = 2 * parse_bin s + digit_val c"
  by (simp add: parse_bin_def)

lemma parse_bin_nat_bin: "parse_bin (nat_bin n) = n"
  by (induction n rule: nat_bin.induct) (subst nat_bin.simps, simp add: parse_bin_def)

lemma parse_bin_pad: "parse_bin (pad_start n (CHR ''0'') s) = parse_bin s"
proof -
  have "parse_bin (replicate k (CHR ''0'') @ s) = parse_bin s" for k
    by (induction k) (simp_all add: parse_bin_def digit_val_def)
  then show ?thesis by (simp add: pad_start_def)
qed

lemma bit_val: "is_bit c \<Longrightarrow> digit_val c < 2" "is_bit c \<Longrightarrow> is_bit d \<Longrightarrow> digit_val c = digit_val d \<Longrightarrow> c = d"
  by (auto simp: is_bit_def digit_val_def)

lemma parse_bin_less: "list_all is_bit s \<Longrightarrow> parse_bin s < 2 ^ length s"
proof (induction s rule: rev_induct)
  case (snoc c s)
  then show ?case using bit_val(1) [of c] by simp
qed (simp add: parse_bin_def)

lemma parse_bin_inj:
  "length s = length t \<Longrightarrow> list_all is_bit s \<Longrightarrow> list_all is_bit t \<Longrightarrow> parse_bin s = parse_bin t \<Longrightarrow> s = t"
proof (induction s arbitrary: t rule: rev_induct)
  case (snoc c s)
  then obtain u d where t: "t = u @ [d]" by (cases t rule: rev_cases) auto
  have b: "digit_val c < 2" "digit_val d < 2" using snoc.prems t bit_val(1) by auto
  have "2 * parse_bin s + digit_val c = 2 * parse_bin u + digit_val d" using snoc.prems t by simp
  then have "parse_bin s = parse_bin u \<and> digit_val c = digit_val d" using b by arith
  then show ?case using snoc t bit_val(2) by auto
qed simp

definition byte_bits :: "8 word \<Rightarrow> string" where
  "byte_bits b = pad_start 8 (CHR ''0'') (nat_bin (unat b))"

lemma length_nat_bin: "n < 2 ^ Suc k \<Longrightarrow> length (nat_bin n) \<le> Suc k"
proof (induction k arbitrary: n)
  case (Suc k)
  have "n div 2 < 2 ^ Suc k" using Suc.prems by (simp add: less_mult_imp_div_less)
  then show ?case using Suc.IH [of "n div 2"] by (subst nat_bin.simps) simp
qed (simp add: nat_bin.simps)

lemma byte_bits_facts: "length (byte_bits b) = 8" "list_all is_bit (byte_bits b)" "byte (parse_bin (byte_bits b)) = b"
proof -
  have "length (nat_bin (unat b)) \<le> Suc 7" by (rule length_nat_bin) simp
  then show "length (byte_bits b) = 8" by (simp add: byte_bits_def pad_start_def)
  show "list_all is_bit (byte_bits b)" using nat_bin_bits bit_zeros by (simp add: byte_bits_def pad_start_def)
  show "byte (parse_bin (byte_bits b)) = b" by (simp add: byte_bits_def parse_bin_pad parse_bin_nat_bin)
qed

definition all_bits :: "bytes \<Rightarrow> string" where
  "all_bits bs = concat (map byte_bits bs)"

lemma all_bits_facts: "length (all_bits bs) = 8 * length bs" "list_all is_bit (all_bits bs)"
  by (induction bs) (simp_all add: all_bits_def byte_bits_facts)

lemma all_bits_inj: "length bs = length cs \<Longrightarrow> all_bits bs = all_bits cs \<Longrightarrow> bs = cs"
proof (induction bs cs rule: list_induct2)
  case (Cons b bs c cs)
  then have "byte_bits b = byte_bits c" "all_bits bs = all_bits cs"
    by (simp_all add: all_bits_def byte_bits_facts)
  then show ?case using Cons.IH byte_bits_facts(3) by metis
qed simp

text \<open>Groups, and the characters they become, determine the text they were cut from.\<close>

lemma in_groups_unfold: "0 < n \<Longrightarrow> xs \<noteq> [] \<Longrightarrow> in_groups n xs = take n xs # in_groups n (drop n xs)"
  by (simp add: in_groups.simps)

lemma in_groups_Nil [simp]: "in_groups n [] = []"
  by (simp add: in_groups.simps)

lemma concat_in_groups: "0 < n \<Longrightarrow> concat (in_groups n xs) = xs"
proof (induction n xs rule: in_groups.induct)
  case (1 n xs)
  then show ?case by (cases "xs = []") (simp_all add: in_groups_unfold)
qed

lemma b32_alphabet_distinct: "distinct b32_alphabet" "length b32_alphabet = 32" "CHR ''-'' \<notin> set b32_alphabet"
  by (simp_all add: b32_alphabet_def)

lemma b32_char_chunk:
  assumes "length s \<le> 5" "list_all is_bit s"
  shows "length (pad_end 5 (CHR ''0'') s) = 5" "list_all is_bit (pad_end 5 (CHR ''0'') s)"
    "parse_bin (pad_end 5 (CHR ''0'') s) < 32"
proof -
  show l: "length (pad_end 5 (CHR ''0'') s) = 5" using assms by (simp add: pad_end_def)
  show b: "list_all is_bit (pad_end 5 (CHR ''0'') s)"
    using assms(2) bit_zeros by (simp add: pad_end_def)
  show "parse_bin (pad_end 5 (CHR ''0'') s) < 32" using parse_bin_less [OF b] l by simp
qed

lemma b32_char_inj:
  assumes "length s = length t" "length s \<le> 5" "list_all is_bit s" "list_all is_bit t" "b32_char s = b32_char t"
  shows "s = t"
proof -
  have t: "length t \<le> 5" using assms by simp
  note cs = b32_char_chunk [OF assms(2,3)] and ct = b32_char_chunk [OF t assms(4)]
  have "parse_bin (pad_end 5 (CHR ''0'') s) = parse_bin (pad_end 5 (CHR ''0'') t)"
    using assms(5) cs(3) ct(3) b32_alphabet_distinct by (simp add: b32_char_def nth_eq_iff_index_eq)
  then have "pad_end 5 (CHR ''0'') s = pad_end 5 (CHR ''0'') t"
    using cs ct by (intro parse_bin_inj) simp_all
  then show ?thesis using assms(1) by (simp add: pad_end_def)
qed

lemma b32_groups_inj:
  "length xs = length ys \<Longrightarrow> list_all is_bit xs \<Longrightarrow> list_all is_bit ys \<Longrightarrow>
   map b32_char (in_groups 5 xs) = map b32_char (in_groups 5 ys) \<Longrightarrow> xs = ys"
proof (induction "5 :: nat" xs arbitrary: ys rule: in_groups.induct)
  case (1 xs)
  show ?case
  proof (cases "xs = []")
    case False
    then have ys: "ys \<noteq> []" using "1.prems"(1) by auto
    have "list_all is_bit (take 5 l) \<and> list_all is_bit (drop 5 l)" if "list_all is_bit l" for l
      using that by (metis append_take_drop_id list_all_append)
    then have b: "list_all is_bit (take 5 xs)" "list_all is_bit (drop 5 xs)"
      "list_all is_bit (take 5 ys)" "list_all is_bit (drop 5 ys)"
      using "1.prems" by blast+
    have eq: "b32_char (take 5 xs) = b32_char (take 5 ys)"
      "map b32_char (in_groups 5 (drop 5 xs)) = map b32_char (in_groups 5 (drop 5 ys))"
      using "1.prems"(4) False ys by (simp_all add: in_groups_unfold)
    have "take 5 xs = take 5 ys"
      using b eq(1) "1.prems"(1) by (intro b32_char_inj) simp_all
    moreover have "drop 5 xs = drop 5 ys"
      using "1.hyps" False b eq(2) "1.prems"(1) by simp
    ultimately show ?thesis by (metis append_take_drop_id)
  qed (use 1 in simp)
qed

lemma b32_char_mem: "length s \<le> 5 \<Longrightarrow> list_all is_bit s \<Longrightarrow> b32_char s \<in> set b32_alphabet"
  using b32_char_chunk(3) [of s] b32_alphabet_distinct(2) by (simp add: b32_char_def)

lemma b32_groups_alphabet: "list_all is_bit xs \<Longrightarrow> set (map b32_char (in_groups 5 xs)) \<subseteq> set b32_alphabet"
proof (induction "5 :: nat" xs rule: in_groups.induct)
  case (1 xs)
  have "list_all is_bit (take 5 xs)" "list_all is_bit (drop 5 xs)"
    using "1.prems" by (metis append_take_drop_id list_all_append)+
  then show ?case using 1 b32_char_mem by (cases "xs = []") (simp_all add: in_groups_unfold)
qed

text \<open>Removing the dashes gives the characters back.\<close>

lemma join_dash_filter:
  "\<forall>g\<in>set gs. CHR ''-'' \<notin> set g \<Longrightarrow> filter (\<lambda>c. c \<noteq> CHR ''-'') (join ''-'' gs) = concat gs"
  by (induction "''-''" gs rule: join.induct) (auto simp: filter_id_conv)

lemma in_groups_set: "g \<in> set (in_groups n xs) \<Longrightarrow> set g \<subseteq> set xs"
  by (metis concat_in_groups UN_upper in_groups.simps empty_iff list.set(1) neq0_conv set_concat)

lemma transfer_code_characters:
  "filter (\<lambda>c. c \<noteq> CHR ''-'') (generateTransferCode bs) = map b32_char (in_groups 5 (all_bits bs))"
proof -
  let ?out = "map b32_char (in_groups 5 (all_bits bs))"
  have "CHR ''-'' \<notin> set ?out"
    using b32_groups_alphabet [OF all_bits_facts(2)] b32_alphabet_distinct(3) by blast
  then have "\<forall>g\<in>set (in_groups 4 ?out). CHR ''-'' \<notin> set g" using in_groups_set by blast
  moreover have "generateTransferCode bs = join ''-'' (in_groups 4 ?out)"
    by (simp add: generateTransferCode_def Let_def all_bits_def byte_bits_def [abs_def])
  ultimately show ?thesis by (simp add: join_dash_filter concat_in_groups)
qed

lemma transfer_code_inj:
  "length bs = length cs \<Longrightarrow> generateTransferCode bs = generateTransferCode cs \<Longrightarrow> bs = cs"
  by (metis all_bits_facts all_bits_inj b32_groups_inj transfer_code_characters)

end
