(* ===== verification/Aead.thy ===== *)
theory Aead
  imports Pqc
begin

text \<open>
  \<open>packages/crypto-core/src/aead.js\<close>: AES-GCM under session and content keys, the wrapped
  session key, and file chunks, whose associated data is their position.
\<close>

subsection \<open>Envelopes\<close>

definition AEAD_ALG :: string where
  "AEAD_ALG = ''A256GCM''"

definition importAesKey :: "jsval \<Rightarrow> bytes res" where
  "importAesKey keyHex = bind_res (fromHex keyHex) import_aes"

definition generateSessionKey :: "bytes \<Rightarrow> string" where
  "generateSessionKey random = toHex random"

definition generateSymmetricKey :: "bytes \<Rightarrow> string" where
  "generateSymmetricKey = generateSessionKey"

definition aeadEncrypt :: "prims \<Rightarrow> bytes \<Rightarrow> string \<Rightarrow> jsval \<Rightarrow> string \<Rightarrow> jsval res" where
  "aeadEncrypt P iv plaintext keyHex field =
     bind_res (importAesKey keyHex) (\<lambda>key.
       let encrypted = aes_seal P key iv (formatAad AEAD_ALG JUndef) (utf8 plaintext)
       in Ok (JObj (obj_of_list
            [(''v'', JNum FORMAT_VERSION), (''alg'', JStr AEAD_ALG), (''iv'', JStr (toB64 iv)),
             (field, JStr (toB64 encrypted))])))"

definition aeadDecrypt :: "prims \<Rightarrow> jsval \<Rightarrow> jsval \<Rightarrow> string \<Rightarrow> string res" where
  "aeadDecrypt P env keyHex field =
     bind_res (assertFormat env AEAD_ALG ''AES-GCM envelope'') (\<lambda>_.
     bind_res (importAesKey keyHex) (\<lambda>key.
     bind_res (fromB64 (js_get env ''iv'')) (\<lambda>iv.
     bind_res (fromB64 (js_get env field)) (\<lambda>sealed.
     bind_res (opt_res OperationError (aes_open P key iv (formatAad AEAD_ALG JUndef) sealed)) dec_text))))"

definition wrapSessionKey :: "prims \<Rightarrow> (bytes \<times> bytes) \<times> bytes \<Rightarrow> jsval \<Rightarrow> jsval \<Rightarrow> jsval res" where
  "wrapSessionKey P rnd sessionKeyHex publicKeyHex =
     bind_res (fromHex sessionKeyHex) (\<lambda>key. kemSeal P rnd key publicKeyHex ''encKey'')"

definition unwrapSessionKey :: "prims \<Rightarrow> jsval \<Rightarrow> jsval \<Rightarrow> string res" where
  "unwrapSessionKey P wrappedKey seedHex =
     bind_res (kemOpen P wrappedKey seedHex ''encKey'' ''wrapped key'') (\<lambda>key. Ok (toHex key))"

definition encryptWithSessionKey :: "prims \<Rightarrow> bytes \<Rightarrow> string \<Rightarrow> jsval \<Rightarrow> jsval res" where
  "encryptWithSessionKey P iv msg keyHex = aeadEncrypt P iv msg keyHex ''content''"

definition decryptWithSessionKey :: "prims \<Rightarrow> jsval \<Rightarrow> jsval \<Rightarrow> string res" where
  "decryptWithSessionKey P env keyHex = aeadDecrypt P env keyHex ''content''"

definition encryptSymmetric :: "prims \<Rightarrow> bytes \<Rightarrow> string \<Rightarrow> jsval \<Rightarrow> jsval res" where
  "encryptSymmetric P iv content keyHex = aeadEncrypt P iv content keyHex ''ciphertext''"

definition decryptSymmetric :: "prims \<Rightarrow> jsval \<Rightarrow> jsval \<Rightarrow> string res" where
  "decryptSymmetric P env keyHex = aeadDecrypt P env keyHex ''ciphertext''"

subsection \<open>File chunks\<close>

definition chunkAad :: "jsval \<Rightarrow> jsval \<Rightarrow> string" where
  "chunkAad secretId chunkIndex =
     ''Kryptolog/chunk/v1'' @ nl # ''secret='' @ js_str secretId @ nl # ''index='' @ js_str chunkIndex"

definition aadBytes :: "jsval \<Rightarrow> string \<Rightarrow> bytes res" where
  "aadBytes aad fn =
     (case aad of
        JStr (c # s) \<Rightarrow> Ok (utf8 (c # s))
      | _ \<Rightarrow> Throw (PlainError
          (fn @ '': aad is required - build it with chunkAad(secretId, chunkIndex) (audit M-2)'')))"

definition encryptChunk :: "prims \<Rightarrow> bytes \<Rightarrow> bytes \<Rightarrow> jsval \<Rightarrow> jsval \<Rightarrow> jsval res" where
  "encryptChunk P iv chunkBytes keyHex aad =
     bind_res (aadBytes aad ''encryptChunk'') (\<lambda>ad.
     bind_res (importAesKey keyHex) (\<lambda>key.
       Ok (JObj [(''iv'', JStr (toB64 iv)), (''ciphertext'', JStr (toB64 (aes_seal P key iv ad chunkBytes)))])))"

definition decryptChunk :: "prims \<Rightarrow> jsval \<Rightarrow> jsval \<Rightarrow> jsval \<Rightarrow> jsval \<Rightarrow> bytes res" where
  "decryptChunk P ivB64 ciphertextB64 keyHex aad =
     bind_res (aadBytes aad ''decryptChunk'') (\<lambda>ad.
     bind_res (importAesKey keyHex) (\<lambda>key.
     bind_res (fromB64 ivB64) (\<lambda>iv.
     bind_res (fromB64 ciphertextB64) (\<lambda>sealed.
       opt_res OperationError (aes_open P key iv ad sealed)))))"

subsection \<open>Facts\<close>

definition aes_key_ok :: "bytes \<Rightarrow> bool" where
  "aes_key_ok key \<longleftrightarrow> length key \<in> {16, 24, 32}"

lemma import_toHex: "aes_key_ok key \<Longrightarrow> importAesKey (JStr (toHex key)) = Inr key"
proof -
  assume k: "aes_key_ok key"
  then have "key \<noteq> []" by (auto simp: aes_key_ok_def)
  then show ?thesis using k by (simp add: importAesKey_def import_aes_def aes_key_ok_def)
qed

definition aead_field :: "string \<Rightarrow> bool" where
  "aead_field f \<longleftrightarrow> f = ''content'' \<or> f = ''ciphertext''"

lemma aead_roundtrip:
  assumes "aead_correct P" "aes_key_ok key" "iv \<noteq> []" "aead_field f"
  shows "\<exists>env. aeadEncrypt P iv msg (JStr (toHex key)) f = Inr env \<and> aeadDecrypt P env (JStr (toHex key)) f = Inr msg"
  using assms utf.dec_enc
  by (auto simp: aeadEncrypt_def aeadDecrypt_def import_toHex aead_field_def Let_def obj_of_list_distinct)

text \<open>Opening under another key fails the tag.\<close>

lemma aead_wrong_key:
  assumes "aead_correct P" "aead_key_binding P" "aes_key_ok key" "aes_key_ok key'" "key \<noteq> key'" "iv \<noteq> []" "aead_field f"
    and "aeadEncrypt P iv msg (JStr (toHex key)) f = Inr env"
  shows "aeadDecrypt P env (JStr (toHex key')) f = Inl OperationError"
  using assms
  by (auto simp: aeadEncrypt_def aeadDecrypt_def import_toHex aead_field_def Let_def obj_of_list_distinct
      aead_other_key assertFormat_def opt_res_def)

text \<open>A symmetric envelope is not a wrapped key, nor the other way round.\<close>

lemma algs_differ: "AEAD_ALG \<noteq> KEM_ENVELOPE_ALG"
  by (simp add: AEAD_ALG_def KEM_ENVELOPE_ALG_def KEM_ALG_def CATKDF_KEM_ALG_def)

lemma envelopes_not_confused:
  "aeadEncrypt P iv msg k f = Inr env \<Longrightarrow> aead_field f \<Longrightarrow> \<exists>e. kemOpen P env seed f what = Inl (FormatError e)"
  "payload_field g \<Longrightarrow> \<exists>e. aeadDecrypt P (kem_envelope P c key iv kid g m) k g = Inl (FormatError e)"
  using algs_differ
  by (auto simp: aeadEncrypt_def aeadDecrypt_def kemOpen_def assertFormat_def aead_field_def Let_def obj_of_list_distinct)

lemma session_key_roundtrip:
  assumes P: "envelope_laws P" and sk: "catkdf_usable P sk" and e: "p384_valid P (fst (fst rnd))"
    and pk: "catkdfPublicKey P (Some sk) = Inr pk" and iv: "snd rnd \<noteq> []" and key: "key \<noteq> []"
  shows "\<exists>w. wrapSessionKey P rnd (JStr (toHex key)) (JStr (toHex pk)) = Inr w \<and>
    unwrapSessionKey P w (JStr (toHex sk)) = Inr (toHex key)"
proof -
  have f: "payload_field ''encKey''" by (simp add: payload_field_def)
  obtain w where "kemSeal P rnd key (JStr (toHex pk)) ''encKey'' = Inr w"
      "kemOpen P w (JStr (toHex sk)) ''encKey'' ''wrapped key'' = Inr key"
    using kem_seal_open [OF P sk e pk f iv] by blast
  then show ?thesis using key by (simp add: wrapSessionKey_def unwrapSessionKey_def)
qed

subsection \<open>A chunk opens at its own place only\<close>

lemma chunkAad_inj:
  assumes "nl \<notin> set (js_str s)" "nl \<notin> set (js_str s')" and "chunkAad s i = chunkAad s' i'"
  shows "js_str s = js_str s' \<and> js_str i = js_str i'"
  using assms by (simp add: chunkAad_def sep_split)

lemma aadBytes_chunk [simp]: "aadBytes (JStr (chunkAad s i)) fn = Inr (utf8 (chunkAad s i))"
  by (simp add: aadBytes_def chunkAad_def)

lemma chunk_roundtrip:
  assumes "aead_correct P" "aes_key_ok key" "iv \<noteq> []"
  shows "\<exists>c. encryptChunk P iv m (JStr (toHex key)) (JStr (chunkAad s i)) = Inr c \<and>
    decryptChunk P (js_get c ''iv'') (js_get c ''ciphertext'') (JStr (toHex key)) (JStr (chunkAad s i)) = Inr m"
  using assms by (simp add: encryptChunk_def decryptChunk_def import_toHex)

lemma chunk_misplaced:
  assumes P: "aead_correct P" "aead_binding P" and key: "aes_key_ok key" and iv: "iv \<noteq> []"
    and ids: "nl \<notin> set (js_str s)" "nl \<notin> set (js_str s')"
    and other: "js_str s \<noteq> js_str s' \<or> js_str i \<noteq> js_str i'"
    and c: "encryptChunk P iv m (JStr (toHex key)) (JStr (chunkAad s i)) = Inr c"
  shows "decryptChunk P (js_get c ''iv'') (js_get c ''ciphertext'') (JStr (toHex key)) (JStr (chunkAad s' i')) =
    Inl OperationError"
proof -
  have "chunkAad s i \<noteq> chunkAad s' i'" using chunkAad_inj [OF ids] other by auto
  then have "utf8 (chunkAad s i) \<noteq> utf8 (chunkAad s' i')" by simp
  then show ?thesis
    using P key iv c by (auto simp: encryptChunk_def decryptChunk_def import_toHex aead_other_aad opt_res_def)
qed

lemma chunk_needs_aad:
  "aad = JStr [] \<or> the_str aad = None \<Longrightarrow>
   (\<exists>e. encryptChunk P iv m k aad = Inl (PlainError e)) \<and> (\<exists>e. decryptChunk P a b k aad = Inl (PlainError e))"
  by (cases aad) (auto simp: encryptChunk_def decryptChunk_def aadBytes_def split: list.splits)

end
