(* ===== verification/TkCrypto.thy ===== *)
theory TkCrypto
  imports TkConnect Signing Aead
begin

text \<open>
  \<open>trustkeys/src/background/handlers/crypto.js\<close> and \<open>handlers/rotation.js\<close>: what a page may ask to
  be signed, encrypted or decrypted, what the user must approve first, and the rotation of the
  encryption key. A request is a \<open>jsval\<close> object; the sender is what Chrome attaches to it.
\<close>

subsection \<open>The world around a message\<close>

text \<open>What the worker reads of Chrome, the clock and the random source while it handles one message.\<close>

record tk_env =
  te_prims :: prims
  te_now :: int
  te_requestId :: string
  te_channel :: nat
  te_save :: "bytes \<times> bytes"
  te_identity :: "bytes \<times> bytes"
  te_encryption :: "bytes \<times> bytes"
  te_sign :: "bytes \<times> bytes"
  te_sign2 :: "bytes \<times> bytes"
  te_kem :: "(bytes \<times> bytes) \<times> bytes"
  te_key :: bytes
  te_windows :: window_world
  te_urls :: url_parser
  te_tab :: "(string \<times> jsval) option"
  te_runtimeId :: string
  te_base :: "string option"
  te_devAutoSign :: bool

record sender =
  sn_id :: string
  sn_url :: string
  sn_origin :: string

definition EXTENSION_PAGE :: string where
  "EXTENSION_PAGE = ''index.html''"

text \<open>The extension's own pages: Chrome's id and a URL on the extension's origin. An absent URL or
  origin is the empty string.\<close>

definition isInternalSender :: "tk_env \<Rightarrow> sender \<Rightarrow> bool" where
  "isInternalSender E sn =
     (if sn_id sn \<noteq> te_runtimeId E \<or> sn_url sn = [] then False
      else case te_base E of
          None \<Rightarrow> False
        | Some base \<Rightarrow> base \<noteq> [] \<and> starts_with (sn_url sn) (base @ EXTENSION_PAGE))"

definition getSenderOrigin :: "sender \<Rightarrow> string option" where
  "getSenderOrigin sn = (if sn_origin sn = [] then None else Some (sn_origin sn))"

definition origin_js :: "string option \<Rightarrow> jsval" where
  "origin_js origin = (case origin of None \<Rightarrow> JNull | Some og \<Rightarrow> JStr og)"

subsection \<open>Signing for a page\<close>

definition CONTEXT_PREFIX :: string where
  "CONTEXT_PREFIX = butlast (domainSeparate [] [])"

definition contextOf :: "jsval \<Rightarrow> string option" where
  "contextOf message =
     (case message of
        JStr m \<Rightarrow>
          if starts_with m CONTEXT_PREFIX
          then Some (takeWhile (\<lambda>c. c \<noteq> nl) (drop (length CONTEXT_PREFIX) m))
          else None
      | _ \<Rightarrow> None)"

definition asked :: "tk_env \<Rightarrow> string \<Rightarrow> string \<Rightarrow> jsval \<Rightarrow> approval_action \<Rightarrow> jsval option tk" where
  "asked E type origin data act =
     ask_user (te_windows E) (te_requestId E)
       \<lparr>rq_type = type, rq_origin = origin, rq_data = data, rq_channel = te_channel E, rq_action = act\<rparr>"

definition requestSignature :: "tk_env \<Rightarrow> sender \<Rightarrow> string \<Rightarrow> jsval \<Rightarrow> jsval \<Rightarrow> jsval option tk" where
  "requestSignature E sn kind details body =
     andThen (requireConnectedOrigin (getSenderOrigin sn)) (\<lambda>origin.
     andThen requireActiveAccount (\<lambda>account.
       asked E ''SIGN'' origin
         (JObj [(''origin'', JStr origin), (''kind'', JStr kind), (''details'', details),
                (''account'', JStr (acc_name account)), (''message'', body)])
         (Do_sign body)))"

text \<open>\<open>signMessage\<close> of what a message carries: the text encoder reads an absent text as empty.\<close>

definition sign_value :: "tk_env \<Rightarrow> jsval \<Rightarrow> account \<Rightarrow> jsval res" where
  "sign_value E body a =
     bind_res (signMessage (te_prims E) (text_arg body) (JStr (hp_seed (acc_identity a))) (te_sign E)) (\<lambda>sig.
       Ok (ok_reply [(''signature'', JStr sig)]))"

definition no_active :: jsval where
  "no_active = err_reply ''No active account''"

text \<open>The callback of an approved signature: the account active now signs.\<close>

definition approve_sign :: "tk_env \<Rightarrow> jsval \<Rightarrow> jsval tk" where
  "approve_sign E body =
     andThen activeAccount (\<lambda>active.
       case active of None \<Rightarrow> ret no_active | Some a \<Rightarrow> lift_res (sign_value E body a))"

definition handleSign :: "tk_env \<Rightarrow> sender \<Rightarrow> jsval \<Rightarrow> jsval option tk" where
  "handleSign E sn request =
     (let message = js_get request ''message''
      in andThen requireUnlocked (\<lambda>_.
         if isInternalSender E sn
         then andThen requireActiveAccount (\<lambda>account.
              andThen (lift_res (sign_value E message account)) (\<lambda>r. ret (Some r)))
         else case contextOf message of
             None \<Rightarrow> requestSignature E sn ''text'' (JObj []) message
           | Some context \<Rightarrow>
               if context \<noteq> CTX_CONTENT
               then ret (Some (err_reply
                 (''TrustKeys does not sign \"'' @ context @ ''\" bodies through sign(); use the dedicated API'')))
               else requestSignature E sn ''content''
                 (JObj [(''text'', JStr (drop (length CONTEXT_PREFIX + length context + 1) (js_str message)))]) message))"

definition handleSignLogin :: "tk_env \<Rightarrow> sender \<Rightarrow> jsval \<Rightarrow> jsval option tk" where
  "handleSignLogin E sn request =
     andThen requireUnlocked (\<lambda>_.
     andThen requireActiveAccount (\<lambda>account.
     andThen (lift_res (loginChallengeBody
        \<lparr>lf_nonce = js_get request ''nonce'', lf_origin = origin_js (getSenderOrigin sn),
         lf_deployment = js_get request ''deployment'',
         lf_encryptionKey = JStr (ek_publicKey (acc_encryption account))\<rparr>)) (\<lambda>body.
       requestSignature E sn ''login'' (JObj [(''deployment'', js_get request ''deployment'')]) (JStr body))))"

text \<open>\<open>/^(dm|group):[0-9]{1,20}$/\<close>.\<close>

definition redaction_key :: "string \<Rightarrow> bool" where
  "redaction_key k \<longleftrightarrow>
     (\<exists>p\<in>set [''dm:'', ''group:'']. starts_with k p \<and>
        (let d = drop (length p) k in 1 \<le> length d \<and> length d \<le> 20 \<and> list_all is_digit d))"

definition MAX_REDACTIONS :: nat where
  "MAX_REDACTIONS = 1000"

text \<open>The list of keys, checked. An element that is no string but whose text matches the pattern
  (an array holding one key) is outside the model.\<close>

definition redaction_list :: "jsval \<Rightarrow> string list res" where
  "redaction_list v =
     (case array_of (or_default v (JArr [])) of
        None \<Rightarrow> Throw (PlainError ''Invalid redaction list'')
      | Some ks \<Rightarrow>
          if MAX_REDACTIONS < length ks \<or> \<not> list_all (\<lambda>k. redaction_key (js_str k)) ks
          then Throw (PlainError ''Invalid redaction list'')
          else map_res (\<lambda>k. opt_res OutOfModel (the_str k)) ks)"

definition handleSignAccountDeletion :: "tk_env \<Rightarrow> sender \<Rightarrow> jsval \<Rightarrow> jsval option tk" where
  "handleSignAccountDeletion E sn request =
     andThen requireUnlocked (\<lambda>_.
     andThen (lift_res (redaction_list (js_get request ''redactionKeys''))) (\<lambda>keys.
     andThen (lift_res (accountDeletionBody (te_prims E)
        \<lparr>df_nonce = js_get request ''nonce'', df_mode = js_get request ''mode'', df_redactionKeys = keys,
         df_origin = origin_js (getSenderOrigin sn), df_deployment = js_get request ''deployment''\<rparr>)) (\<lambda>body.
     andThen requireActiveAccount (\<lambda>account.
       requestSignature E sn ''account-deletion''
         (JObj [(''mode'', js_get request ''mode''), (''redactions'', JNum (int (length keys))),
                (''deployment'', js_get request ''deployment''), (''address'', JStr (acc_id account))])
         (JStr body)))))"

definition handleSignConversationErase :: "tk_env \<Rightarrow> sender \<Rightarrow> jsval \<Rightarrow> jsval option tk" where
  "handleSignConversationErase E sn request =
     andThen requireUnlocked (\<lambda>_.
     andThen (lift_res (redaction_list (js_get request ''redactionKeys''))) (\<lambda>keys.
     andThen (lift_res (conversationEraseBody (te_prims E)
        \<lparr>ef_nonce = js_get request ''nonce'', ef_kind = js_get request ''kind'',
         ef_conversation = js_get request ''conversation'', ef_redactionKeys = keys,
         ef_origin = origin_js (getSenderOrigin sn), ef_deployment = js_get request ''deployment''\<rparr>)) (\<lambda>body.
       requestSignature E sn ''conversation-erase''
         (JObj [(''conversationKind'', js_get request ''kind''), (''conversation'', js_get request ''conversation''),
                (''redactions'', JNum (int (length keys))), (''deployment'', js_get request ''deployment'')])
         (JStr body))))"

definition handleSignMultisigApproval :: "tk_env \<Rightarrow> sender \<Rightarrow> jsval \<Rightarrow> jsval option tk" where
  "handleSignMultisigApproval E sn request =
     (let workflowId = js_get request ''workflowId''; secretId = js_get request ''secretId'';
          ct = js_get request ''ciphertextSha384''
      in andThen requireUnlocked (\<lambda>_.
         andThen (guards (is_safe_integer workflowId \<and> is_safe_integer secretId \<and>
             (\<exists>h. ct = JStr h \<and> length h = 96 \<and> list_all is_lhex h))
           (PlainError ''Invalid workflow approval request'')) (\<lambda>_.
           requestSignature E sn ''multisig-approval''
             (JObj [(''workflowId'', workflowId), (''secretId'', secretId), (''ciphertextSha384'', ct)])
             (JStr (multisigApprovalMessage (js_str workflowId) (js_str secretId) (js_str ct))))))"

text \<open>Chat messages: silently for the extension's pages, a development origin of a development
  build, or a site the user granted it; otherwise asked about each time.\<close>

definition silent_allowed :: "tk_env \<Rightarrow> sender \<Rightarrow> vault \<Rightarrow> bool" where
  "silent_allowed E sn v \<longleftrightarrow>
     isInternalSender E sn \<or>
     (te_devAutoSign E \<and> (case getSenderOrigin sn of None \<Rightarrow> False | Some og \<Rightarrow> isDevOrigin (te_urls E) og)) \<or>
     (case getSenderOrigin sn of None \<Rightarrow> False | Some og \<Rightarrow> site_on (autosign_sites v) og)"

definition handleSignMessage :: "tk_env \<Rightarrow> sender \<Rightarrow> jsval \<Rightarrow> jsval option tk" where
  "handleSignMessage E sn request =
     (let message = js_get request ''message''; internal = isInternalSender E sn
      in andThen requireUnlocked (\<lambda>_.
         if \<not> (\<exists>m. message = JStr m \<and> starts_with m MESSAGE_SIGNING_PREFIX)
         then ret (Some (err_reply ''signMessage only signs message-context payloads''))
         else andThen the_vault (\<lambda>v.
           if \<not> internal \<and> (case getSenderOrigin sn of None \<Rightarrow> True | Some og \<Rightarrow> \<not> site_on (v_permissions v) og)
           then ret (Some (err_reply ''Site not connected''))
           else if \<not> silent_allowed E sn v
           then requestSignature E sn ''message'' (JObj []) message
           else case active_of v of
               None \<Rightarrow> ret (Some no_active)
             | Some a \<Rightarrow> andThen (lift_res (sign_value E message a)) (\<lambda>r. ret (Some r)))))"

text \<open>The account's own key, named by the extension and signed without a window.\<close>

definition own_attestation :: "account \<Rightarrow> string \<Rightarrow> attestation_fields" where
  "own_attestation a publicKey = \<lparr>af_address = JStr (acc_id a), af_encryptionPublicKey = JStr publicKey\<rparr>"

definition handleGetKeyAttestation :: "tk_env \<Rightarrow> bool \<Rightarrow> string option \<Rightarrow> jsval tk" where
  "handleGetKeyAttestation E isInternal senderOrigin =
     andThen requireUnlocked (\<lambda>_.
     andThen (if isInternal then ret [] else requireConnectedOrigin senderOrigin) (\<lambda>_.
     andThen requireActiveAccount (\<lambda>account.
     andThen (lift_res (attestEncryptionKey (te_prims E) (own_attestation account (ek_publicKey (acc_encryption account)))
        (JStr (hp_seed (acc_identity account))) (te_sign E))) (\<lambda>attestation.
       ret (ok_reply [(''attestation'', JStr attestation)])))))"

subsection \<open>Encrypting\<close>

definition handleEncrypt :: "tk_env \<Rightarrow> jsval \<Rightarrow> jsval tk" where
  "handleEncrypt E request =
     andThen (if truthy (js_get request ''publicKey'') then ret (js_get request ''publicKey'')
              else andThen requireUnlocked (\<lambda>_. andThen requireActiveAccount (\<lambda>account.
                ret (JStr (ek_publicKey (acc_encryption account)))))) (\<lambda>pubKey.
     andThen (lift_res (encryptMessage (te_prims E) (te_kem E) (text_arg (js_get request ''message'')) pubKey)) (\<lambda>result.
       ret (ok_reply [(''result'', result)])))"

definition handleGenerateSessionKey :: "tk_env \<Rightarrow> jsval tk" where
  "handleGenerateSessionKey E = ret (ok_reply [(''key'', JStr (generateSessionKey (te_key E)))])"

definition handleWrapSessionKey :: "tk_env \<Rightarrow> jsval \<Rightarrow> jsval tk" where
  "handleWrapSessionKey E request =
     andThen (guards (truthy (js_get request ''sessionKey'') \<and> truthy (js_get request ''publicKey''))
       (PlainError ''Missing sessionKey or publicKey'')) (\<lambda>_.
     andThen (lift_res (wrapSessionKey (te_prims E) (te_kem E) (js_get request ''sessionKey'') (js_get request ''publicKey''))) (\<lambda>w.
       ret (ok_reply [(''wrappedKey'', w)])))"

end
