(* ===== verification/AccountOpen.thy ===== *)
theory AccountOpen
  imports Account Aead
begin

text \<open>
  Opening an envelope with an account: \<open>encryptionSeedFor\<close> picks the key its id names, and the
  envelope is opened with it. The extension's callbacks and the web client's vault do the same; what
  an account can open before and after its keys change is proved here for both.
\<close>

text \<open>One envelope, under whichever of the account's keys it names.\<close>

definition open_data :: "prims \<Rightarrow> account \<Rightarrow> jsval \<Rightarrow> string res" where
  "open_data P a env = bind_res (encryptionSeedFor a env) (\<lambda>s. decryptMessage P env (JStr s))"

definition open_key :: "prims \<Rightarrow> account \<Rightarrow> jsval \<Rightarrow> string res" where
  "open_key P a env = bind_res (encryptionSeedFor a env) (\<lambda>s. unwrapSessionKey P env (JStr s))"

text \<open>Per item, a failure is null.\<close>

definition or_null :: "string res \<Rightarrow> jsval" where
  "or_null r = (case r of Inl _ \<Rightarrow> JNull | Inr s \<Rightarrow> JStr s)"

subsection \<open>Opening with more keys\<close>

lemma open_more_keys:
  assumes "account_ok P a" "account_ok P b" "set (account_keys a) \<subseteq> set (account_keys b)"
  shows "open_data P a env = Inr m \<Longrightarrow> open_data P b env = Inr m" "open_key P a env = Inr k \<Longrightarrow> open_key P b env = Inr k"
proof -
  have "encryptionSeedFor a env = Inr x \<Longrightarrow> encryptionSeedFor b env = Inr x" for x
    using encryptionSeedFor_ok [OF assms(1)] encryptionSeedFor_ok [OF assms(2)] assms(3) by blast
  then show "open_data P a env = Inr m \<Longrightarrow> open_data P b env = Inr m" "open_key P a env = Inr k \<Longrightarrow> open_key P b env = Inr k"
    by (auto simp: open_data_def open_key_def bind_res_def split: sum.splits)
qed

subsection \<open>Destroying\<close>

text \<open>An envelope under any other key of the account still opens.\<close>

lemma destroyed_others_open:
  assumes a: "account_ok P a" and b: "destroyRetiredEncryptionKey P clock (account_js a) kid = Inr b"
    and m: "open_data P a env = Inr m" and other: "js_get env ''kid'' \<noteq> JStr kid"
  shows "open_data P b env = Inr m"
proof -
  note r = destroy_account_ok [OF a b]
  have eq: "b = a\<lparr>acc_retired := filter (\<lambda>k. ek_kid k \<noteq> kid) (acc_retired a)\<rparr>" using destroy_result [OF a] b by blast
  have keys: "k \<in> set (account_keys b)" if "k \<in> set (account_keys a)" "ek_kid k \<noteq> kid" for k
    using that by (auto simp: eq account_keys_def)
  obtain seed where "encryptionSeedFor a env = Inr seed" "decryptMessage P env (JStr seed) = Inr m"
    using m by (auto simp: open_data_def bind_res_def split: sum.splits)
  moreover from this have "encryptionSeedFor b env = Inr seed"
    using other keys unfolding encryptionSeedFor_ok [OF a] encryptionSeedFor_ok [OF r(1)] by metis
  ultimately show ?thesis by (simp add: open_data_def)
qed

lemma destroyed_key_gone:
  assumes a: "account_ok P a" and b: "destroyRetiredEncryptionKey P clock (account_js a) kid = Inr b"
    and env: "js_get env ''kid'' = JStr kid"
  shows "open_data P b env = Inl (missing_key (JStr kid))"
  using encryptionSeedFor_missing [OF env, of b] destroy_account_ok(2) [OF a b] by (simp add: open_data_def)

subsection \<open>Sealing to an account\<close>

lemma key_ok_seed:
  assumes "key_ok P k"
  obtains sk pk where "ek_seed k = toHex sk" "ek_publicKey k = toHex pk" "catkdf_usable P sk" "catkdfPublicKey P (Some sk) = Inr pk"
proof -
  have k: "encryption_seed_re (ek_seed k)" "encryptionPublicKeyOf P (JStr (ek_seed k)) = Inr (ek_publicKey k)"
    using assms by (simp_all add: key_ok_def)
  obtain sk where sk: "fromHex (JStr (ek_seed k)) = Inr sk" using k(2) by (auto simp: encryptionPublicKeyOf_def)
  obtain h where "JStr (ek_seed k) = JStr h" "toHex sk = to_lower h" using sk by (auto elim: fromHex_Ok)
  then have "ek_seed k = toHex sk" using k(1) by (simp add: encryption_seed_re_def seed_pattern_def)
  moreover obtain pk where "catkdfPublicKey P (Some sk) = Inr pk" "ek_publicKey k = toHex pk"
    using k(2) sk by (auto simp: encryptionPublicKeyOf_def)
  ultimately show thesis using that catkdfPublicKey_ok by blast
qed

text \<open>An envelope sealed to one of the account's keys: which it is, and that the key's seed opens it.\<close>

lemma sealed_to_key:
  assumes P: "envelope_laws P" and a: "account_ok P a" "k \<in> set (account_keys a)"
    and r: "p384_valid P (fst (fst rnd))" "snd rnd \<noteq> []" and f: "payload_field f"
  obtains c key sk where "kemSeal P rnd m (JStr (ek_publicKey k)) f = Inr (kem_envelope P c key (snd rnd) (ek_kid k) f m)"
    "encryptionSeedFor a (kem_envelope P c key (snd rnd) (ek_kid k) f m) = Inr (ek_seed k)"
    "\<And>what. kemOpen P (kem_envelope P c key (snd rnd) (ek_kid k) f m) (JStr (ek_seed k)) f what = Inr m"
    "ek_seed k = toHex sk" "catkdfDecapsulate P (Some c) (Some sk) = Inr key" "c \<noteq> []" "length key = 32" "sk \<noteq> []"
    "isEncryptionKeyId (JStr (ek_kid k))"
proof -
  have k: "key_ok P k" using a by (auto simp: account_ok_def account_keys_def list_all_iff)
  obtain sk pk where sk: "ek_seed k = toHex sk" "ek_publicKey k = toHex pk" "catkdf_usable P sk" "catkdfPublicKey P (Some sk) = Inr pk"
    using key_ok_seed [OF k] .
  obtain c key where env: "kemSeal P rnd m (JStr (toHex pk)) f = Inr (kem_envelope P c key (snd rnd) (ek_kid k) f m)"
      "catkdfDecapsulate P (Some c) (Some sk) = Inr key" "c \<noteq> []" "length key = 32"
    using kemSeal_ok [OF P sk(3) r(1) sk(4) f, of m] k sk(2) by (auto simp: key_ok_def)
  have L: "aead_correct P" "digest_laws P" using P by (simp_all add: envelope_laws_def)
  have ne: "sk \<noteq> []" using sk(3) by (auto simp: catkdf_usable_def)
  have kid: "isEncryptionKeyId (JStr (ek_kid k))" using encryptionKeyId_shape [OF L(2)] k by (auto simp: key_ok_def)
  have "encryptionSeedFor a (kem_envelope P c key (snd rnd) (ek_kid k) f m) = Inr (ek_seed k)"
    using encryptionSeedFor_ok [OF a(1)] a(2) f by auto
  moreover have "kemOpen P (kem_envelope P c key (snd rnd) (ek_kid k) f m) (JStr (ek_seed k)) f what = Inr m" for what
    using kemOpen_envelope [OF env(2,4,3) r(2) ne kid L(1) f] sk(1) by simp
  ultimately show thesis using that env sk(1,2) ne kid by metis
qed

lemma sealed_opens:
  assumes P: "envelope_laws P" "aead_binding P" "aead_key_binding P" and a: "account_ok P a" "k \<in> set (account_keys a)"
    and r: "p384_valid P (fst (fst rnd))" "snd rnd \<noteq> []"
  shows "\<exists>env. encryptMessage P rnd m (JStr (ek_publicKey k)) = Inr env \<and> open_data P a env = Inr m \<and>
    (\<forall>kid b. kid \<noteq> ek_kid k \<longrightarrow> (\<exists>e. open_data P b (with_kid kid env) = Inl e))"
proof -
  have f: "payload_field ''content''" by (simp add: payload_field_def)
  obtain c key where e: "kemSeal P rnd (utf8 m) (JStr (ek_publicKey k)) ''content'' = Inr (kem_envelope P c key (snd rnd) (ek_kid k) ''content'' (utf8 m))"
    "encryptionSeedFor a (kem_envelope P c key (snd rnd) (ek_kid k) ''content'' (utf8 m)) = Inr (ek_seed k)"
    "\<And>what. kemOpen P (kem_envelope P c key (snd rnd) (ek_kid k) ''content'' (utf8 m)) (JStr (ek_seed k)) ''content'' what = Inr (utf8 m)"
    using sealed_to_key [OF P(1) a r f, of "utf8 m"] by metis
  have L: "aead_correct P" using P(1) by (simp add: envelope_laws_def)
  let ?env = "kem_envelope P c key (snd rnd) (ek_kid k) ''content'' (utf8 m)"
  have "\<exists>x. open_data P b (with_kid kid ?env) = Inl x" if other: "kid \<noteq> ek_kid k" for kid b
  proof (cases "encryptionSeedFor b (with_kid kid ?env)")
    case (Inr seed)
    obtain x where "kemOpen P (with_kid kid ?env) (JStr seed) ''content'' ''KEM envelope'' = Inl x"
      using kemOpen_other_kid_any [OF r(2) other [symmetric] f L P(2,3)] by blast
    then show ?thesis using Inr by (simp add: open_data_def decryptMessage_def)
  qed (simp add: open_data_def)
  then show ?thesis using e utf.dec_enc by (auto simp: encryptMessage_def open_data_def decryptMessage_def)
qed

text \<open>The same for a wrapped session key.\<close>

lemma wrapped_opens:
  assumes P: "envelope_laws P" and a: "account_ok P a" "k \<in> set (account_keys a)"
    and r: "p384_valid P (fst (fst rnd))" "snd rnd \<noteq> []" and m: "m \<noteq> []"
  shows "\<exists>c key. wrapSessionKey P rnd (JStr (toHex m)) (JStr (ek_publicKey k)) = Inr (kem_envelope P c key (snd rnd) (ek_kid k) ''encKey'' m) \<and>
    open_key P a (kem_envelope P c key (snd rnd) (ek_kid k) ''encKey'' m) = Inr (toHex m)"
proof -
  have f: "payload_field ''encKey''" by (simp add: payload_field_def)
  obtain c key where e: "kemSeal P rnd m (JStr (ek_publicKey k)) ''encKey'' = Inr (kem_envelope P c key (snd rnd) (ek_kid k) ''encKey'' m)"
    "encryptionSeedFor a (kem_envelope P c key (snd rnd) (ek_kid k) ''encKey'' m) = Inr (ek_seed k)"
    "\<And>what. kemOpen P (kem_envelope P c key (snd rnd) (ek_kid k) ''encKey'' m) (JStr (ek_seed k)) ''encKey'' what = Inr m"
    using sealed_to_key [OF P a r f, of m] by metis
  then show ?thesis using fromHex_toHex [OF m]
    by (intro exI [of _ c] exI [of _ key]) (simp add: wrapSessionKey_def open_key_def unwrapSessionKey_def)
qed

subsection \<open>Signing for an account\<close>

lemma account_identity:
  assumes "account_ok P a"
  obtains sk pk where "hp_seed (acc_identity a) = toHex sk" "hp_publicKey (acc_identity a) = toHex pk" "own_identity P sk pk (acc_id a)"
proof -
  have a: "identity_seed_re (hp_seed (acc_identity a))"
      "identityPublicKeyOf P (JStr (hp_seed (acc_identity a))) = Inr (hp_publicKey (acc_identity a))"
      "addressOf P (JStr (hp_publicKey (acc_identity a))) = Inr (acc_id a)"
    using assms by (simp_all add: account_ok_def)
  obtain sk where sk: "fromHex (JStr (hp_seed (acc_identity a))) = Inr sk"
    using a(2) by (auto simp: identityPublicKeyOf_def)
  obtain h where "JStr (hp_seed (acc_identity a)) = JStr h" "toHex sk = to_lower h" using sk by (auto elim: fromHex_Ok)
  then have seed: "hp_seed (acc_identity a) = toHex sk"
    using a(1) by (simp add: identity_seed_re_def seed_pattern_def)
  obtain pk where pk: "mldsa65P384PublicKey P (Some sk) = Inr pk" "hp_publicKey (acc_identity a) = toHex pk"
    using a(2) sk by (auto simp: identityPublicKeyOf_def)
  have "composite_usable P sk" using pk(1) by (simp add: public_key_ok)
  then show thesis using that seed pk a(3) by (simp add: own_identity_def)
qed

lemma account_signature:
  assumes P: "signature_laws P" "digest_laws P" and a: "account_ok P a"
  shows "\<exists>sig. signMessage P msg (JStr (hp_seed (acc_identity a))) rnd = Inr sig \<and>
    verifyIdentitySignature P (JStr (acc_id a)) (JStr (hp_publicKey (acc_identity a))) msg (JStr sig)"
proof -
  obtain sk pk where o: "hp_seed (acc_identity a) = toHex sk" "hp_publicKey (acc_identity a) = toHex pk" "own_identity P sk pk (acc_id a)"
    using account_identity [OF a] .
  show ?thesis using own_signature_verifies [OF P o(3), of msg rnd] o(1,2) by simp
qed

end
