(* ===== verification/TkRotation.thy ===== *)
theory TkRotation
  imports TkCrypto AccountOpen
begin

text \<open>
  The decryption handlers of \<open>handlers/crypto.js\<close>, the key rotation of \<open>handlers/rotation.js\<close>, and
  the callbacks an approval runs. A callback that throws answers nobody: \<open>approvals.js\<close> does not
  await it.
\<close>

subsection \<open>Asking to decrypt\<close>

text \<open>\<open>v?.length\<close>.\<close>

fun items_length :: "jsval \<Rightarrow> jsval" where
  "items_length (JArr vs) = JNum (int (length vs))"
| "items_length (JStr s) = JNum (int (length s))"
| "items_length v = js_get v ''length''"

definition decrypt_request :: "tk_env \<Rightarrow> sender \<Rightarrow> string \<Rightarrow> jsval \<Rightarrow> approval_action \<Rightarrow> jsval option tk" where
  "decrypt_request E sn kind count act =
     andThen requireUnlocked (\<lambda>_.
     andThen (requireConnectedOrigin (getSenderOrigin sn)) (\<lambda>origin.
       asked E ''DECRYPT'' origin
         (JObj [(''origin'', JStr origin), (''kind'', JStr kind), (''count'', count)]) act))"

definition handleDecrypt :: "tk_env \<Rightarrow> sender \<Rightarrow> jsval \<Rightarrow> jsval option tk" where
  "handleDecrypt E sn request =
     decrypt_request E sn ''data'' (JNum 1) (Do_decrypt (js_get request ''data''))"

definition handleUnwrapSessionKey :: "tk_env \<Rightarrow> sender \<Rightarrow> jsval \<Rightarrow> jsval option tk" where
  "handleUnwrapSessionKey E sn request =
     decrypt_request E sn ''session-keys'' (JNum 1) (Do_unwrap (js_get request ''wrappedKey''))"

definition handleDecryptMany :: "tk_env \<Rightarrow> sender \<Rightarrow> jsval \<Rightarrow> jsval option tk" where
  "handleDecryptMany E sn request =
     decrypt_request E sn ''data'' (items_length (js_get request ''items'')) (Do_decrypt_many (js_get request ''items''))"

definition handleUnwrapManySessionKeys :: "tk_env \<Rightarrow> sender \<Rightarrow> jsval \<Rightarrow> jsval option tk" where
  "handleUnwrapManySessionKeys E sn request =
     decrypt_request E sn ''session-keys'' (items_length (js_get request ''wrappedKeys''))
       (Do_unwrap_many (js_get request ''wrappedKeys''))"

subsection \<open>The callbacks\<close>

definition with_active :: "(account \<Rightarrow> jsval res) \<Rightarrow> jsval tk" where
  "with_active f =
     andThen activeAccount (\<lambda>active. case active of None \<Rightarrow> ret no_active | Some a \<Rightarrow> lift_res (f a))"

definition approve_decrypt :: "prims \<Rightarrow> jsval \<Rightarrow> jsval tk" where
  "approve_decrypt P data =
     with_active (\<lambda>a. bind_res (open_data P a data) (\<lambda>m. Ok (ok_reply [(''decrypted'', JStr m)])))"

definition approve_unwrap :: "prims \<Rightarrow> jsval \<Rightarrow> jsval tk" where
  "approve_unwrap P wrapped =
     with_active (\<lambda>a. case open_key P a wrapped of
       Inr k \<Rightarrow> Ok (ok_reply [(''sessionKey'', JStr k)])
     | Inl e \<Rightarrow> Ok (err_reply (''Unwrap failed: '' @ err_msg e)))"

definition many :: "string \<Rightarrow> string \<Rightarrow> (jsval \<Rightarrow> string res) \<Rightarrow> jsval \<Rightarrow> jsval" where
  "many field what open_one items =
     (case array_of items of
        None \<Rightarrow> err_reply (what @ '': Invalid input'')
      | Some xs \<Rightarrow> ok_reply [(field, JArr (map (\<lambda>x. or_null (open_one x)) xs))])"

definition approve_decrypt_many :: "prims \<Rightarrow> jsval \<Rightarrow> jsval tk" where
  "approve_decrypt_many P items =
     with_active (\<lambda>a. Ok (many ''results'' ''Batch decrypt failed'' (open_data P a) items))"

definition approve_unwrap_many :: "prims \<Rightarrow> jsval \<Rightarrow> jsval tk" where
  "approve_unwrap_many P items =
     with_active (\<lambda>a. Ok (many ''sessionKeys'' ''Batch unwrap failed'' (open_key P a) items))"

subsection \<open>Rotating\<close>

definition UNDO_WINDOW_MS :: int where "UNDO_WINDOW_MS = 5 * 60 * 1000"
definition CLOCK_SKEW_MS :: int where "CLOCK_SKEW_MS = 10 * 60 * 1000"

text \<open>An account in the place of the one with its id. It was taken from the list, so there is one.\<close>

definition put_account :: "account \<Rightarrow> vault \<Rightarrow> vault" where
  "put_account a v = v\<lparr>v_accounts := replace_first (\<lambda>b. acc_id b = acc_id a) a (v_accounts v)\<rparr>"

definition replaceActive :: "prims \<Rightarrow> bytes \<Rightarrow> account \<Rightarrow> unit tk" where
  "replaceActive P iv a =
     andThen the_vault (\<lambda>v.
     andThen (set_vault (put_account a v)) (\<lambda>_. saveVaultWithSessionKey P iv))"

definition handleRotateEncryptionKey :: "tk_env \<Rightarrow> sender \<Rightarrow> jsval \<Rightarrow> jsval option tk" where
  "handleRotateEncryptionKey E sn request =
     andThen requireUnlocked (\<lambda>_.
     andThen (requireConnectedOrigin (getSenderOrigin sn)) (\<lambda>origin.
     case js_get request ''ts'' of
       JNum ts \<Rightarrow>
         if \<not> is_safe_integer (JNum ts) \<or> ts < 0 \<or> CLOCK_SKEW_MS < \<bar>te_now E - ts\<bar>
         then fail (PlainError ''Invalid rotation timestamp'')
         else andThen requireActiveAccount (\<lambda>account.
           asked E ''SIGN'' origin
             (JObj [(''origin'', JStr origin), (''kind'', JStr ''key-rotation''),
                    (''details'', JObj [(''address'', JStr (acc_id account)), (''retired'', JNum (int (length (acc_retired account))))]),
                    (''account'', JStr (acc_name account)),
                    (''message'', JStr (''A new encryption key is created in TrustKeys and published by the site. '' @
                       ''The current one is kept, retired, to read older history.''))])
             (Do_rotate origin (acc_id account) ts))
     | _ \<Rightarrow> fail (PlainError ''Invalid rotation timestamp'')))"

definition rotation_of :: "account \<Rightarrow> account \<Rightarrow> int \<Rightarrow> rotation_fields" where
  "rotation_of old new ts =
     \<lparr>rf_address = JStr (acc_id old), rf_oldKid = JStr (ek_kid (acc_encryption old)),
      rf_newKid = JStr (ek_kid (acc_encryption new)), rf_ts = JNum ts\<rparr>"

text \<open>Saved, and the undo remembered, before anything is signed.\<close>

definition approve_rotate :: "tk_env \<Rightarrow> string \<Rightarrow> string \<Rightarrow> int \<Rightarrow> jsval tk" where
  "approve_rotate E origin asked_id ts =
     (let P = te_prims E
      in andThen activeAccount (\<lambda>active.
         case active of
           None \<Rightarrow> ret (err_reply ''The active account changed'')
         | Some a \<Rightarrow>
             if acc_id a \<noteq> asked_id then ret (err_reply ''The active account changed'')
             else
               andThen (lift_res (rotateAccountEncryptionKey P (te_now E) (te_encryption E) (account_js a) ts)) (\<lambda>rotated.
               andThen (replaceActive P (snd (te_save E)) rotated) (\<lambda>_.
               andThen (updates (\<lambda>s. s\<lparr>st_pendingRotation := Some
                  \<lparr>pn_origin = origin, pn_newKid = ek_kid (acc_encryption rotated), pn_at = te_now E\<rparr>\<rparr>)) (\<lambda>_.
               andThen (lift_res (attestEncryptionKey P (own_attestation a (ek_publicKey (acc_encryption rotated)))
                  (JStr (hp_seed (acc_identity a))) (te_sign E))) (\<lambda>attestation.
               andThen (lift_res (signKeyRotation P (rotation_of a rotated ts) (JStr (hp_seed (acc_identity a))) (te_sign2 E))) (\<lambda>signature.
                 ret (ok_reply [(''result'', JObj
                   [(''encryptionPublicKey'', JStr (ek_publicKey (acc_encryption rotated))),
                    (''oldKid'', JStr (ek_kid (acc_encryption a))), (''newKid'', JStr (ek_kid (acc_encryption rotated))),
                    (''attestation'', JStr attestation), (''signature'', JStr signature)])]))))))))"

text \<open>Only the rotation just made, by the site that asked for it, within the window.\<close>

definition may_undo :: "tk_env \<Rightarrow> string \<Rightarrow> jsval \<Rightarrow> pending_rotation option \<Rightarrow> bool" where
  "may_undo E origin newKid pending \<longleftrightarrow>
     (\<exists>p. pending = Some p \<and> pn_origin p = origin \<and> JStr (pn_newKid p) = newKid \<and> te_now E - pn_at p \<le> UNDO_WINDOW_MS)"

definition handleRevertEncryptionKeyRotation :: "tk_env \<Rightarrow> string \<Rightarrow> jsval \<Rightarrow> jsval tk" where
  "handleRevertEncryptionKeyRotation E origin request =
     (let P = te_prims E; newKid = js_get request ''newKid''
      in andThen requireUnlocked (\<lambda>_.
         andThen (\<lambda>s. guards (may_undo E origin newKid (st_pendingRotation s))
           (PlainError ''There is no rotation from this site to undo'') s) (\<lambda>_.
         andThen (updates (\<lambda>s. s\<lparr>st_pendingRotation := None\<rparr>)) (\<lambda>_.
         andThen requireActiveAccount (\<lambda>account.
         andThen (lift_res (revertAccountEncryptionKeyRotation P (te_now E) (account_js account) (js_str newKid) (te_now E))) (\<lambda>reverted.
         andThen (replaceActive P (snd (te_save E)) reverted) (\<lambda>_. ret (ok_reply []))))))))"

definition handleDestroyRetiredEncryptionKey :: "tk_env \<Rightarrow> jsval \<Rightarrow> jsval tk" where
  "handleDestroyRetiredEncryptionKey E request =
     (let P = te_prims E; kid = js_get request ''kid''
      in andThen requireUnlocked (\<lambda>_.
         andThen requireActiveAccount (\<lambda>account.
         andThen (lift_res (case the_str kid of
             Some k \<Rightarrow> destroyRetiredEncryptionKey P (te_now E) (account_js account) k
           | None \<Rightarrow> Throw (FormatError (''No retired encryption key '' @ js_str kid @ '' on this identity.'')))) (\<lambda>rest.
         andThen (replaceActive P (snd (te_save E)) rest) (\<lambda>_. ret (ok_reply []))))))"

subsection \<open>Running an approval\<close>

fun run_action :: "tk_env \<Rightarrow> approval_action \<Rightarrow> jsval tk" where
  "run_action E (Do_connect origin) = approve_connect (te_prims E) (snd (te_save E)) origin"
| "run_action E (Do_sign body) = approve_sign E body"
| "run_action E (Do_decrypt data) = approve_decrypt (te_prims E) data"
| "run_action E (Do_unwrap wrapped) = approve_unwrap (te_prims E) wrapped"
| "run_action E (Do_decrypt_many items) = approve_decrypt_many (te_prims E) items"
| "run_action E (Do_unwrap_many items) = approve_unwrap_many (te_prims E) items"
| "run_action E (Do_rotate origin aid ts) = approve_rotate E origin aid ts"

text \<open>What the asker receives of a settlement: \<open>None\<close> is no answer at all.\<close>

definition run_settlement :: "tk_env \<Rightarrow> settlement \<Rightarrow> tk_state \<Rightarrow> (nat \<times> jsval) option \<times> tk_state" where
  "run_settlement E x s =
     (case x of
        Refuse rq m \<Rightarrow> (Some (rq_channel rq, err_reply m), s)
      | Approve rq \<Rightarrow>
          (case run_action E (rq_action rq) s of
             (Inr r, t) \<Rightarrow> (Some (rq_channel rq, r), t)
           | (Inl _, t) \<Rightarrow> (None, t)))"

end
