(* ===== verification/TkDispatch.thy ===== *)
theory TkDispatch
  imports TkRotation
begin

text \<open>
  \<open>trustkeys/src/background/index.js\<close>: the table of message types with its gating flags, the
  wrapper that checks the sender and answers, the listeners of Chrome's own events, and the
  relay of the content script (\<open>content/index.js\<close>). A message or an event is handled to its end
  before the next one.
\<close>

subsection \<open>The table\<close>

datatype origin_policy = No_origin | As_sender | Required | UnlessInternal

record msg_context =
  cx_request :: jsval
  cx_sender :: sender
  cx_isInternal :: bool
  cx_origin :: "string option"

text \<open>A handler's own reply, and the replies it makes to the messages it settles.\<close>

type_synonym reply = "jsval option \<times> (nat \<times> jsval) list"

record entry =
  en_internal :: bool
  en_origin :: origin_policy
  en_raw :: bool
  en_fn :: "tk_env \<Rightarrow> msg_context \<Rightarrow> reply tk"

definition plain :: "jsval tk \<Rightarrow> reply tk" where
  "plain m = andThen m (\<lambda>r. ret (Some r, []))"

definition done_reply :: "'a tk \<Rightarrow> reply tk" where
  "done_reply m = plain (andThen m (\<lambda>_. ret (ok_reply [])))"

definition pending_answer :: "jsval option tk \<Rightarrow> reply tk" where
  "pending_answer m = andThen m (\<lambda>r. ret (r, []))"

definition field :: "msg_context \<Rightarrow> string \<Rightarrow> jsval" where
  "field c k = js_get (cx_request c) k"

text \<open>A site named in a message: absent or empty reads as no site; a truthy value that is no
  string is outside the model.\<close>

definition site_arg :: "jsval \<Rightarrow> string tk" where
  "site_arg v = (if \<not> truthy v then ret [] else lift_res (opt_res OutOfModel (the_str v)))"

definition name_arg :: "jsval \<Rightarrow> string tk" where
  "name_arg v = lift_res (opt_res OutOfModel (the_str v))"

definition get_status :: "jsval tk" where
  "get_status = reads (\<lambda>s. ok_reply [(''isLocked'', JBool (st_isLocked s)), (''hasPassword'', JBool (st_hasPassword s))])"

definition setup_password :: "tk_env \<Rightarrow> jsval \<Rightarrow> jsval tk" where
  "setup_password E password =
     andThen (setupPassword (te_prims E) (te_save E) (te_now E) password) (\<lambda>_.
     andThen (unlockWithSession (te_prims E) (te_now E) (text_arg password)) (\<lambda>_. ret (ok_reply [])))"

definition unlock_message :: "tk_env \<Rightarrow> jsval \<Rightarrow> jsval tk" where
  "unlock_message E password =
     andThen (unlockWithSession (te_prims E) (te_now E) (text_arg password)) (\<lambda>success.
     andThen (if success then syncDynamicScripts (te_urls E) (te_prims E) (snd (te_save E)) else ret ()) (\<lambda>_.
       ret (JObj [(''success'', JBool success)])))"

definition pending_view :: "string \<times> request \<Rightarrow> jsval" where
  "pending_view p = JObj [(''id'', JStr (fst p)), (''type'', JStr (rq_type (snd p))), (''data'', rq_data (snd p))]"

definition get_pending :: "jsval \<Rightarrow> jsval tk" where
  "get_pending requestId = reads (\<lambda>s.
     case peekApproval requestId s of
       Some p \<Rightarrow> ok_reply [(''request'', pending_view p)]
     | None \<Rightarrow> err_reply ''Request not found'')"

text \<open>The settlement runs the request's callback, which answers the request's own channel.\<close>

definition resolved :: "bool \<Rightarrow> string option \<Rightarrow> jsval" where
  "resolved found next =
     JObj [(''success'', JBool found), (''next'', case next of None \<Rightarrow> JNull | Some rid \<Rightarrow> JStr rid)]"

definition resolve_request :: "tk_env \<Rightarrow> jsval \<Rightarrow> jsval \<Rightarrow> reply tk" where
  "resolve_request E requestId approved = (\<lambda>s.
     case the_str requestId of
       None \<Rightarrow> (Ok (Some (resolved False (nextApprovalId s)), []), s)
     | Some rid \<Rightarrow>
         (case settleApproval rid (truthy approved) s of
            ((None, (found, next)), t) \<Rightarrow> (Ok (Some (resolved found next), []), t)
          | ((Some x, (found, next)), t) \<Rightarrow>
              (case run_settlement E x t of
                 (None, u) \<Rightarrow> (Ok (Some (resolved found next), []), u)
               | (Some r, u) \<Rightarrow> (Ok (Some (resolved found next), [r]), u))))"

definition import_keys :: "tk_env \<Rightarrow> jsval \<Rightarrow> jsval tk" where
  "import_keys E request =
     (let vaultObj = (if truthy (js_get request ''accounts'') then JObj [(''accounts'', js_get request ''accounts'')]
                      else js_get request ''data'');
          password = js_get request ''password''
      in (\<lambda>s.
        if \<not> truthy vaultObj then (Ok (err_reply ''No vault data received''), s)
        else if \<not> truthy password \<and> st_isLocked s then (Ok (err_reply ''Session locked''), s)
        else andThen getAccounts (\<lambda>existing.
             andThen (importVault (te_prims E) (te_save E) (te_now E) vaultObj password (js_get request ''passphrase'')) (\<lambda>_.
             andThen getAccounts (\<lambda>merged.
               ret (ok_reply [(''count'', JNum (int (length merged) - int (length existing)))])))) s))"

definition active_view :: "string option \<Rightarrow> jsval tk" where
  "active_view origin = andThen (getActiveAccount origin) (\<lambda>v. ret (ok_reply [(''account'', v)]))"

definition handler :: "bool \<Rightarrow> origin_policy \<Rightarrow> bool \<Rightarrow> (tk_env \<Rightarrow> msg_context \<Rightarrow> reply tk) \<Rightarrow> entry" where
  "handler internal origin raw fn = \<lparr>en_internal = internal, en_origin = origin, en_raw = raw, en_fn = fn\<rparr>"

abbreviation internal_only :: "(tk_env \<Rightarrow> msg_context \<Rightarrow> reply tk) \<Rightarrow> entry" where
  "internal_only fn \<equiv> handler True No_origin False fn"

abbreviation raw_page :: "(tk_env \<Rightarrow> sender \<Rightarrow> jsval \<Rightarrow> jsval option tk) \<Rightarrow> entry" where
  "raw_page h \<equiv> handler False No_origin True (\<lambda>E c. pending_answer (h E (cx_sender c) (cx_request c)))"

definition HANDLERS :: "(string \<times> entry) list" where
  "HANDLERS =
    [(''GET_STATUS'', internal_only (\<lambda>E c. plain get_status)),
     (''SETUP_PASSWORD'', internal_only (\<lambda>E c. plain (setup_password E (field c ''password'')))),
     (''UNLOCK'', internal_only (\<lambda>E c. plain (unlock_message E (field c ''password'')))),
     (''DESTROY_RETIRED_ENCRYPTION_KEY'', internal_only (\<lambda>E c. plain (handleDestroyRetiredEncryptionKey E (cx_request c)))),
     (''LOCK'', internal_only (\<lambda>E c. done_reply (updates lockWithSession))),
     (''CHECK_CONNECTION'', handler False As_sender False (\<lambda>E c. plain (handleCheckConnection (cx_origin c)))),
     (''HANDSHAKE'', handler False No_origin False (\<lambda>E c. plain (ret (ok_reply [(''extensionId'', JStr (te_runtimeId E))])))),
     (''CONNECT'', handler False Required True (\<lambda>E c.
        pending_answer (handleConnect (te_windows E) (te_requestId E) (te_channel E) (the (cx_origin c))))),
     (''GET_PENDING_REQUEST'', internal_only (\<lambda>E c. plain (get_pending (field c ''requestId'')))),
     (''RESOLVE_REQUEST'', internal_only (\<lambda>E c. resolve_request E (field c ''requestId'') (field c ''approved''))),
     (''GET_TRUSTED_SITES'', internal_only (\<lambda>E c. plain (reads (\<lambda>s. ok_reply [(''sites'', getTrustedSites (te_urls E) s)])))),
     (''ADD_TRUSTED_SITE'', internal_only (\<lambda>E c. plain (andThen (site_arg (field c ''origin''))
        (handleAddTrustedSite (te_urls E) (te_prims E) (snd (te_save E)))))),
     (''REMOVE_TRUSTED_SITE'', internal_only (\<lambda>E c. plain (andThen (site_arg (field c ''origin''))
        (handleRemoveTrustedSite (te_urls E) (te_prims E) (snd (te_save E)))))),
     (''SET_SITE_AUTOSIGN'', internal_only (\<lambda>E c. plain (andThen (site_arg (field c ''origin''))
        (\<lambda>og. handleSetSiteAutoSign (te_prims E) (snd (te_save E)) og (truthy (field c ''enabled'')))))),
     (''EXPECT_SITE_GRANT'', internal_only (\<lambda>E c. plain (handleExpectSiteGrant (te_urls E) (te_tab E) (te_now E)))),
     (''AUTHORIZE_CURRENT_TAB'', internal_only (\<lambda>E c.
        plain (handleAuthorizeCurrentTab (te_urls E) (te_prims E) (snd (te_save E)) (te_tab E)))),
     (''CREATE_ACCOUNT'', internal_only (\<lambda>E c. plain (andThen (name_arg (field c ''name'')) (\<lambda>name.
        andThen (createAccount (te_prims E) (te_identity E, te_encryption E) (snd (te_save E)) (te_now E) name) (\<lambda>a.
          ret (ok_reply [(''account'', a)])))))),
     (''GET_ACCOUNTS'', internal_only (\<lambda>E c. plain (andThen getAccounts (\<lambda>rows. ret (ok_reply [(''accounts'', JArr rows)]))))),
     (''SET_ACTIVE_ACCOUNT'', internal_only (\<lambda>E c. done_reply (setActiveAccount (te_prims E) (snd (te_save E)) (field c ''id'')))),
     (''GET_ACTIVE_ACCOUNT'', handler False UnlessInternal False (\<lambda>E c. plain (active_view (cx_origin c)))),
     (''DELETE_ACCOUNT'', internal_only (\<lambda>E c. done_reply (deleteAccount (te_prims E) (snd (te_save E)) (field c ''id'')))),
     (''EXPORT_KEYS'', internal_only (\<lambda>E c. plain (andThen (exportActiveAccount (te_prims E) (field c ''password'')) (\<lambda>a.
        ret (ok_reply [(''accounts'', JArr [account_js a])]))))),
     (''EXPORT_KEYS_ENCRYPTED'', internal_only (\<lambda>E c.
        plain (andThen (exportEncryptedVault (te_prims E) (te_save E) (field c ''password'') (field c ''passphrase'')) (\<lambda>b.
          ret (ok_reply [(''blob'', JStr b)]))))),
     (''IMPORT_KEYS'', internal_only (\<lambda>E c. plain (import_keys E (cx_request c)))),
     (''SIGN'', raw_page handleSign),
     (''SIGN_LOGIN'', raw_page handleSignLogin),
     (''SIGN_ACCOUNT_DELETION'', raw_page handleSignAccountDeletion),
     (''SIGN_CONVERSATION_ERASE'', raw_page handleSignConversationErase),
     (''SIGN_MULTISIG_APPROVAL'', raw_page handleSignMultisigApproval),
     (''ROTATE_ENCRYPTION_KEY'', raw_page handleRotateEncryptionKey),
     (''REVERT_ENCRYPTION_KEY_ROTATION'', handler False Required False (\<lambda>E c.
        plain (handleRevertEncryptionKeyRotation E (the (cx_origin c)) (cx_request c)))),
     (''SIGN_MESSAGE'', raw_page handleSignMessage),
     (''GET_KEY_ATTESTATION'', handler False UnlessInternal False (\<lambda>E c.
        plain (handleGetKeyAttestation E (cx_isInternal c) (cx_origin c)))),
     (''ENCRYPT'', handler False No_origin False (\<lambda>E c. plain (handleEncrypt E (cx_request c)))),
     (''DECRYPT'', raw_page handleDecrypt),
     (''GENERATE_SESSION_KEY'', handler False No_origin False (\<lambda>E c. plain (handleGenerateSessionKey E))),
     (''WRAP_SESSION_KEY'', handler False No_origin False (\<lambda>E c. plain (handleWrapSessionKey E (cx_request c)))),
     (''UNWRAP_SESSION_KEY'', raw_page handleUnwrapSessionKey),
     (''UNWRAP_MANY_SESSION_KEYS'', raw_page handleUnwrapManySessionKeys),
     (''DECRYPT_MANY'', raw_page handleDecryptMany)]"

definition INTERNAL_ONLY_TYPES :: "string list" where
  "INTERNAL_ONLY_TYPES = map fst (filter (\<lambda>(_, e). en_internal e) HANDLERS)"

subsection \<open>Dispatch\<close>

text \<open>What the table finds under a name it does not hold but every object inherits: a value with
  no flags whose \<open>fn\<close> is no function.\<close>

definition inherited_names :: "string list" where
  "inherited_names =
     [''constructor'', ''hasOwnProperty'', ''isPrototypeOf'', ''propertyIsEnumerable'', ''toLocaleString'',
      ''toString'', ''valueOf'', ''__proto__'', ''__defineGetter__'', ''__defineSetter__'',
      ''__lookupGetter__'', ''__lookupSetter__'']"

text \<open>The origin a handler is given, or \<open>None\<close> when it must have one and has none.\<close>

definition resolve_origin :: "entry \<Rightarrow> bool \<Rightarrow> sender \<Rightarrow> string option option" where
  "resolve_origin e isInternal sn =
     (if en_origin e = No_origin then Some None
      else
        let origin = (if en_origin e = UnlessInternal \<and> isInternal then None else getSenderOrigin sn);
            mustHave = (en_origin e = Required \<or> (en_origin e = UnlessInternal \<and> \<not> isInternal))
        in if mustHave \<and> origin = None then None else Some origin)"

definition run_entry :: "tk_env \<Rightarrow> sender \<Rightarrow> jsval \<Rightarrow> bool \<Rightarrow> entry \<Rightarrow> reply tk" where
  "run_entry E sn request isInternal e =
     (if en_internal e \<and> \<not> isInternal then fail (PlainError ''Unauthorized: Internal use only'')
      else case resolve_origin e isInternal sn of
          None \<Rightarrow> ret (Some (err_reply ''Unknown sender origin''), [])
        | Some origin \<Rightarrow>
            en_fn e E \<lparr>cx_request = request, cx_sender = sn, cx_isInternal = isInternal, cx_origin = origin\<rparr>)"

definition look_up :: "jsval \<Rightarrow> string \<Rightarrow> (tk_env \<Rightarrow> sender \<Rightarrow> bool \<Rightarrow> reply tk)" where
  "look_up request name = (\<lambda>E sn isInternal.
     case map_of HANDLERS name of
       Some e \<Rightarrow> run_entry E sn request isInternal e
     | None \<Rightarrow>
         if name \<in> set inherited_names then fail (JsTypeError ''entry.fn is not a function'')
         else ret (Some (err_reply (''Unknown message type: '' @ name)), []))"

definition handle_message :: "tk_env \<Rightarrow> sender \<Rightarrow> jsval \<Rightarrow> reply tk" where
  "handle_message E sn request =
     (let isInternal = isInternalSender E sn
      in andThen (updates (if isInternal then touchActivity (te_now E) else id)) (\<lambda>_.
         if is_nullish request then fail null_vault
         else look_up request (js_str (js_get request ''type'')) E sn isInternal))"

text \<open>Whatever a handler throws before it has answered is its answer.\<close>

definition dispatch :: "tk_env \<Rightarrow> sender \<Rightarrow> jsval \<Rightarrow> tk_state \<Rightarrow> (nat \<times> jsval) list \<times> tk_state" where
  "dispatch E sn request s =
     (case handle_message E sn request s of
        (Inl e, t) \<Rightarrow> ([(te_channel E, err_reply (err_msg e))], t)
      | (Inr (None, others), t) \<Rightarrow> (others, t)
      | (Inr (Some r, others), t) \<Rightarrow> ((te_channel E, r) # others, t))"

subsection \<open>Chrome's events\<close>

definition refusals :: "tk_env \<Rightarrow> (string \<times> settlement) list \<Rightarrow> tk_state \<Rightarrow> (nat \<times> jsval) list" where
  "refusals E xs s = concat (map (\<lambda>(_, x). case fst (run_settlement E x s) of None \<Rightarrow> [] | Some r \<Rightarrow> [r]) xs)"

text \<open>A worker that starts again: everything in memory is gone, the stored session may resume.\<close>

definition restart :: "tk_env \<Rightarrow> tk_state \<Rightarrow> tk_state" where
  "restart E s =
     (let fresh = initial_state (st_vaultData s) (st_session s) (st_hostPermissions s) (st_scripts s);
          s0 = fresh\<lparr>st_hasPassword := stored_vault s \<noteq> None\<rparr>
      in case restoreSession (te_prims E) (te_now E) s0 of
           (Inr True, t) \<Rightarrow> snd (syncDynamicScripts (te_urls E) (te_prims E) (snd (te_save E)) t)
         | (_, t) \<Rightarrow> t)"

datatype tk_event =
    Message sender jsval
  | Approval_timeout string
  | Window_removed int
  | Permissions_added "string list"
  | Idle_alarm
  | Worker_restart

fun handle_event :: "tk_env \<Rightarrow> tk_event \<Rightarrow> tk_state \<Rightarrow> (nat \<times> jsval) list \<times> tk_state" where
  "handle_event E (Message sn request) s = dispatch E sn request s"
| "handle_event E (Approval_timeout rid) s =
     (case approval_timeout rid s of
        (None, t) \<Rightarrow> ([], t)
      | (Some x, t) \<Rightarrow> (refusals E [(rid, x)] t, t))"
| "handle_event E (Window_removed wid) s =
     (case handleWindowClosed wid s of (xs, t) \<Rightarrow> (refusals E xs t, t))"
| "handle_event E (Permissions_added granted) s =
     ([], snd (handlePermissionsAdded (te_urls E) (te_prims E) (snd (te_save E)) (te_now E) granted s))"
| "handle_event E Idle_alarm s = ([], idle_alarm (te_now E) s)"
| "handle_event E Worker_restart s = ([], restart E s)"

subsection \<open>The content script's relay\<close>

text \<open>The message types a page can name, the worker's type each becomes, and the fields that cross.\<close>

definition RELAY :: "(string \<times> string \<times> string list) list" where
  "RELAY =
    [(''TRUSTKEYS_GET_ACCOUNT'', ''GET_ACTIVE_ACCOUNT'', []),
     (''TRUSTKEYS_SIGN'', ''SIGN'', [''message'']),
     (''TRUSTKEYS_SIGN_LOGIN'', ''SIGN_LOGIN'', [''nonce'', ''deployment'']),
     (''TRUSTKEYS_SIGN_ACCOUNT_DELETION'', ''SIGN_ACCOUNT_DELETION'', [''nonce'', ''mode'', ''redactionKeys'', ''deployment'']),
     (''TRUSTKEYS_SIGN_CONVERSATION_ERASE'', ''SIGN_CONVERSATION_ERASE'',
        [''nonce'', ''kind'', ''conversation'', ''redactionKeys'', ''deployment'']),
     (''TRUSTKEYS_SIGN_MULTISIG_APPROVAL'', ''SIGN_MULTISIG_APPROVAL'', [''workflowId'', ''secretId'', ''ciphertextSha384'']),
     (''TRUSTKEYS_ROTATE_ENCRYPTION_KEY'', ''ROTATE_ENCRYPTION_KEY'', [''ts'']),
     (''TRUSTKEYS_REVERT_ENCRYPTION_KEY_ROTATION'', ''REVERT_ENCRYPTION_KEY_ROTATION'', [''newKid'']),
     (''TRUSTKEYS_SIGN_MESSAGE'', ''SIGN_MESSAGE'', [''message'']),
     (''TRUSTKEYS_GET_KEY_ATTESTATION'', ''GET_KEY_ATTESTATION'', []),
     (''TRUSTKEYS_ENCRYPT'', ''ENCRYPT'', [''message'', ''publicKey'']),
     (''TRUSTKEYS_DECRYPT'', ''DECRYPT'', [''data'']),
     (''TRUSTKEYS_CONNECT'', ''CONNECT'', []),
     (''TRUSTKEYS_CHECK_CONNECTION'', ''CHECK_CONNECTION'', []),
     (''TRUSTKEYS_HANDSHAKE'', ''HANDSHAKE'', []),
     (''TRUSTKEYS_GENERATE_SESSION_KEY'', ''GENERATE_SESSION_KEY'', []),
     (''TRUSTKEYS_WRAP_SESSION_KEY'', ''WRAP_SESSION_KEY'', [''sessionKey'', ''publicKey'']),
     (''TRUSTKEYS_UNWRAP_SESSION_KEY'', ''UNWRAP_SESSION_KEY'', [''wrappedKey'']),
     (''TRUSTKEYS_UNWRAP_MANY_SESSION_KEYS'', ''UNWRAP_MANY_SESSION_KEYS'', [''wrappedKeys'']),
     (''TRUSTKEYS_DECRYPT_MANY'', ''DECRYPT_MANY'', [''items''])]"

text \<open>The worker's message for a page's, or none. The two connection messages also carry the
  page's own location, which the worker does not read.\<close>

definition relay :: "string \<Rightarrow> jsval \<Rightarrow> jsval option" where
  "relay location data =
     (if js_get data ''source'' \<noteq> JStr ''TRUSTKEYS_PAGE'' then None
      else case the_str (js_get data ''type'') of
          None \<Rightarrow> None
        | Some t \<Rightarrow>
            map_option (\<lambda>(type, names).
              JObj ((''type'', JStr type)
                    # (if type = ''CONNECT'' \<or> type = ''CHECK_CONNECTION'' then [(''origin'', JStr location)] else [])
                    @ map (\<lambda>k. (k, js_get data k)) names)) (map_of RELAY t))"

end
