(* ===== verification/TkPages.thy ===== *)
theory TkPages
  imports TkDispatch
begin

text \<open>
  What a page can bring about. A page's message changes nothing of the vault, the keys, the
  stored data or the trusted sites, one exception apart (undoing its own rotation); it can only
  put requests before the user. Those it puts are honest, unless what is to be signed came as an
  array: a signature request is never for a login, a deletion or an erasure at another site, nor
  for a key statement.
\<close>

named_theorems asking \<open>composing operations that only ask the user\<close>

subsection \<open>Operations that only ask\<close>

text \<open>Nothing but the queue and the tracked windows differs.\<close>

definition core_of :: "tk_state \<Rightarrow> tk_state" where
  "core_of s = s\<lparr>st_pending := [], st_popupWindow := None, st_approvalWindow := None\<rparr>"

definition same_core :: "tk_state \<Rightarrow> tk_state \<Rightarrow> bool" where
  "same_core s t \<longleftrightarrow> core_of s = core_of t"

lemma same_core_refl [simp]: "same_core s s"
  by (simp add: same_core_def)

lemma same_core_trans: "same_core s t \<Longrightarrow> same_core t u \<Longrightarrow> same_core s u"
  by (simp add: same_core_def)

lemma same_core_ups:
  "same_core s (s\<lparr>st_pending := q\<rparr>)" "same_core s (s\<lparr>st_popupWindow := w\<rparr>)" "same_core s (s\<lparr>st_approvalWindow := w\<rparr>)"
  by (simp_all add: same_core_def core_of_def)

lemma same_core_fields:
  assumes "same_core s t"
  shows "st_vault t = st_vault s" "st_isLocked t = st_isLocked s" "st_vaultKey t = st_vaultKey s"
    "st_vaultKeyBytes t = st_vaultKeyBytes s" "st_vaultKdf t = st_vaultKdf s" "st_vaultData t = st_vaultData s"
    "st_session t = st_session s" "st_hasPassword t = st_hasPassword s" "st_pendingRotation t = st_pendingRotation s"
    "st_hostPermissions t = st_hostPermissions s" "st_scripts t = st_scripts s"
proof -
  have eq: "f (core_of t) = f (core_of s)" for f :: "tk_state \<Rightarrow> 'b"
    using assms by (simp add: same_core_def)
  note core_of_def [simp]
  show "st_vault t = st_vault s" using eq [of st_vault] by simp
  show "st_isLocked t = st_isLocked s" using eq [of st_isLocked] by simp
  show "st_vaultKey t = st_vaultKey s" using eq [of st_vaultKey] by simp
  show "st_vaultKeyBytes t = st_vaultKeyBytes s" using eq [of st_vaultKeyBytes] by simp
  show "st_vaultKdf t = st_vaultKdf s" using eq [of st_vaultKdf] by simp
  show "st_vaultData t = st_vaultData s" using eq [of st_vaultData] by simp
  show "st_session t = st_session s" using eq [of st_session] by simp
  show "st_hasPassword t = st_hasPassword s" using eq [of st_hasPassword] by simp
  show "st_pendingRotation t = st_pendingRotation s" using eq [of st_pendingRotation] by simp
  show "st_hostPermissions t = st_hostPermissions s" using eq [of st_hostPermissions] by simp
  show "st_scripts t = st_scripts s" using eq [of st_scripts] by simp
qed

subsection \<open>The bounds of the queue\<close>

lemma length_obj_put: "length (filter p (obj_put k v kvs)) \<le> length (filter p kvs) + (if p (k, v) then 1 else 0)"
  by (induction k v kvs rule: obj_put.induct) auto

lemma queue_ok_put:
  assumes "queue_ok s" "length (st_pending s) < MAX_PENDING_TOTAL" "pendingForOrigin (rq_origin rq) s < MAX_PENDING_PER_ORIGIN"
  shows "queue_ok (s\<lparr>st_pending := obj_put rid rq (st_pending s)\<rparr>)"
proof -
  have "length (obj_put rid rq (st_pending s)) \<le> MAX_PENDING_TOTAL"
    using length_obj_put [of "\<lambda>_. True" rid rq "st_pending s"] assms(2) by simp
  moreover have "pendingForOrigin og (s\<lparr>st_pending := obj_put rid rq (st_pending s)\<rparr>) \<le> MAX_PENDING_PER_ORIGIN" for og
    using length_obj_put [of "\<lambda>(_, r). rq_origin r = og" rid rq "st_pending s"] assms(1,3)
    by (auto simp: pendingForOrigin_def queue_ok_def split: if_splits) (metis (no_types, lifting) le_trans pendingForOrigin_def)
  ultimately show ?thesis using assms(1) distinct_obj_put by (auto simp: queue_ok_def)
qed

lemma queue_ok_pending: "st_pending t = st_pending s \<Longrightarrow> queue_ok t = queue_ok s"
  by (simp add: queue_ok_def pendingForOrigin_def)

lemma queue_ok_settle: "queue_ok s \<Longrightarrow> queue_ok (snd (settle rid how s))"
  by (cases rule: settle_cases [of rid how s]) (simp_all add: queue_ok_del)

lemma queue_ok_request: "queue_ok s \<Longrightarrow> queue_ok (snd (requestApproval w rid rq s))"
proof -
  assume s: "queue_ok s"
  let ?t = "s\<lparr>st_pending := obj_put rid rq (st_pending s)\<rparr>"
  let ?o = "openTrackedWindow w Approval_window ?t"
  show ?thesis
  proof (cases "requestApproval_begin rid rq s = (None, ?t)")
    case True
    then have "queue_ok ?t"
      using s by (intro queue_ok_put) (auto simp: requestApproval_begin_def not_le split: if_splits)
    then have "queue_ok (snd ?o)" using queue_ok_pending [OF openTrackedWindow_queue] by simp
    moreover have "requestApproval w rid rq s = requestApproval_window rid (fst ?o) (snd ?o)"
      using True by (simp add: requestApproval_def split: prod.splits)
    ultimately show ?thesis using queue_ok_settle by (simp add: requestApproval_window_def)
  next
    case False
    then show ?thesis using s by (auto simp: requestApproval_begin_def requestApproval_def split: if_splits)
  qed
qed

text \<open>Every request it adds to the queue satisfies Q, and the queue keeps its bounds.\<close>

definition asks_only :: "(request \<Rightarrow> bool) \<Rightarrow> 'a tk \<Rightarrow> bool" where
  "asks_only Q m \<longleftrightarrow>
     (\<forall>s. same_core s (snd (m s)) \<and> (queue_ok s \<longrightarrow> queue_ok (snd (m s))) \<and>
          (\<forall>x\<in>set (st_pending (snd (m s))). x \<in> set (st_pending s) \<or> Q (snd x)))"

lemma asks_onlyI:
  assumes "\<And>s. same_core s (snd (m s))" and "\<And>s. queue_ok s \<Longrightarrow> queue_ok (snd (m s))"
    and "\<And>s x. x \<in> set (st_pending (snd (m s))) \<Longrightarrow> x \<in> set (st_pending s) \<or> Q (snd x)"
  shows "asks_only Q m"
  using assms by (auto simp: asks_only_def)

lemma asks_then:
  assumes m: "asks_only Q m" and f: "\<And>x s. fst (m s) = Inr x \<Longrightarrow> asks_only Q (f x)"
  shows "asks_only Q (andThen m f)"
proof -
  have "same_core s (snd (andThen m f s)) \<and> (queue_ok s \<longrightarrow> queue_ok (snd (andThen m f s))) \<and>
      (\<forall>x\<in>set (st_pending (snd (andThen m f s))). x \<in> set (st_pending s) \<or> Q (snd x))" for s
  proof -
    obtain r t where mt: "m s = (r, t)" by (cases "m s")
    have t: "same_core s t" "queue_ok s \<longrightarrow> queue_ok t" "\<forall>x\<in>set (st_pending t). x \<in> set (st_pending s) \<or> Q (snd x)"
      using m mt by (auto simp: asks_only_def dest: spec [of _ s])
    show ?thesis
    proof (cases r)
      case (Inr y)
      then have "same_core t (snd (f y t))" "queue_ok t \<longrightarrow> queue_ok (snd (f y t))"
          "\<forall>x\<in>set (st_pending (snd (f y t))). x \<in> set (st_pending t) \<or> Q (snd x)"
        using f [of s y] mt by (simp_all add: asks_only_def)
      then show ?thesis using Inr mt t same_core_trans [of s t] by auto
    qed (use mt t in simp)
  qed
  then show ?thesis by (simp add: asks_only_def)
qed

lemma asks_read_only: "(\<And>s. snd (m s) = s) \<Longrightarrow> asks_only Q m"
  by (rule asks_onlyI) auto

lemma asks_basic [asking]:
  "asks_only Q (ret x)" "asks_only Q (fail e)" "asks_only Q (lift_res r)" "asks_only Q (reads g)" "asks_only Q (guards b e)"
  "asks_only Q requireUnlocked" "asks_only Q the_vault" "asks_only Q activeAccount" "asks_only Q requireActiveAccount"
  "asks_only Q (requireConnectedOrigin og)"
  by (rule asks_read_only, simp add: accessors_read_only guards_def ret_def fail_def)+

lemma try_create_core: "same_core s (snd (try_create w slot ps s))"
proof (induction w slot ps s rule: try_create.induct)
  case (2 w slot p ps s)
  then show ?case by (cases slot) (auto simp: same_core_ups split: option.splits)
qed simp

lemma openTrackedWindow_core: "same_core s (snd (openTrackedWindow w slot s))"
proof -
  have "same_core s (set_slot slot None s)" by (cases slot) (simp_all add: same_core_ups)
  then show ?thesis
    using try_create_core same_core_trans by (auto simp: openTrackedWindow_def split: option.splits)
qed

lemma settle_core: "same_core s (snd (settle rid how s))"
  by (cases rule: settle_cases [of rid how s]) (simp_all add: same_core_ups)

lemma settle_pending: "set (st_pending (snd (settle rid how s))) \<subseteq> set (st_pending s)"
  by (cases rule: settle_cases [of rid how s]) (auto simp: obj_del_def)

lemma requestApproval_core: "same_core s (snd (requestApproval w rid rq s))"
  and requestApproval_pending: "set (st_pending (snd (requestApproval w rid rq s))) \<subseteq> insert (rid, rq) (set (st_pending s))"
proof -
  let ?t = "s\<lparr>st_pending := obj_put rid rq (st_pending s)\<rparr>"
  let ?o = "openTrackedWindow w Approval_window ?t"
  have b: "requestApproval_begin rid rq s = (None, ?t) \<or> (\<exists>r. requestApproval_begin rid rq s = (Some r, s))"
    by (auto simp: requestApproval_begin_def)
  have o: "same_core s (snd ?o)" "set (st_pending (snd ?o)) \<subseteq> insert (rid, rq) (set (st_pending s))"
    using same_core_trans [OF same_core_ups(1) openTrackedWindow_core] openTrackedWindow_queue [of w Approval_window ?t]
      set_obj_put [of rid rq "st_pending s"]
    by simp_all
  have r: "same_core s (snd (requestApproval_window rid ok u)) \<and>
      set (st_pending (snd (requestApproval_window rid ok u))) \<subseteq> insert (rid, rq) (set (st_pending s))"
    if "same_core s u" "set (st_pending u) \<subseteq> insert (rid, rq) (set (st_pending s))" for ok u
    using that same_core_trans [OF that(1) settle_core] subset_trans [OF settle_pending that(2)]
    by (simp add: requestApproval_window_def)
  have "same_core s (snd (requestApproval w rid rq s)) \<and>
      set (st_pending (snd (requestApproval w rid rq s))) \<subseteq> insert (rid, rq) (set (st_pending s))"
  proof (cases "requestApproval_begin rid rq s = (None, ?t)")
    case True
    then have "requestApproval w rid rq s = requestApproval_window rid (fst ?o) (snd ?o)"
      by (simp add: requestApproval_def split: prod.splits)
    then show ?thesis using r [OF o] by simp
  next
    case False
    then show ?thesis using b by (auto simp: requestApproval_def)
  qed
  then show "same_core s (snd (requestApproval w rid rq s))"
    and "set (st_pending (snd (requestApproval w rid rq s))) \<subseteq> insert (rid, rq) (set (st_pending s))"
    by blast+
qed

lemma ask_user_state: "snd (ask_user w rid rq s) = snd (requestApproval w rid rq s)"
  by (simp add: ask_user_def split: prod.splits)

lemma asks_ask_user: "Q rq \<Longrightarrow> asks_only Q (ask_user w rid rq)"
  using requestApproval_core queue_ok_request requestApproval_pending [of w rid rq] by (intro asks_onlyI) (fastforce simp: ask_user_state)+

lemma asks_asked: "Q \<lparr>rq_type = type, rq_origin = og, rq_data = d, rq_channel = te_channel E, rq_action = act\<rparr> \<Longrightarrow>
  asks_only Q (asked E type og d act)"
  by (simp add: asked_def asks_ask_user)

lemma connected_origin_is: "fst (requireConnectedOrigin o' s) = Inr og \<Longrightarrow> o' = Some og"
  using requireConnectedOrigin_ok [of o' s og "snd (requireConnectedOrigin o' s)"] by (metis prod.collapse)

subsection \<open>Honest signature requests\<close>

text \<open>A request to sign a text: whatever login, deletion or erasure the text states is one at the
  asking site, and the text is no statement about a key.\<close>

definition honest_text :: "prims \<Rightarrow> string \<Rightarrow> string \<Rightarrow> bool" where
  "honest_text P origin body \<longleftrightarrow>
     (\<forall>f. loginChallengeBody f = Inr body \<longrightarrow> lf_origin f = JStr origin) \<and>
     (\<forall>f. accountDeletionBody P f = Inr body \<longrightarrow> df_origin f = JStr origin) \<and>
     (\<forall>f. conversationEraseBody P f = Inr body \<longrightarrow> ef_origin f = JStr origin) \<and>
     (\<forall>f. encryptionKeyAttestationBody f \<noteq> Inr body) \<and> (\<forall>f. keyRotationBody f \<noteq> Inr body)"

text \<open>What an approval signs is the text the encoder makes of the value the message carried. An
  array is the one value whose text \<open>contextOf\<close> does not see: it is left out here.\<close>

definition honest_request :: "prims \<Rightarrow> request \<Rightarrow> bool" where
  "honest_request P rq \<longleftrightarrow>
     (\<forall>body. rq_action rq = Do_sign body \<longrightarrow> (\<forall>vs. body \<noteq> JArr vs) \<longrightarrow> honest_text P (rq_origin rq) (text_arg body))"

lemma text_arg_str [simp]: "text_arg (JStr m) = m"
  by (simp add: text_arg_def)

lemma prefix_eq: "CONTEXT_PREFIX = ds_prefix"
proof -
  have "domainSeparate [] [] = ds_prefix @ [nl]" by (simp add: domainSeparate_prefix)
  then show ?thesis by (simp add: CONTEXT_PREFIX_def)
qed

text \<open>A value that is neither a string nor an array is read as one line, so it states nothing.\<close>

lemma contextOf_value:
  assumes "\<And>m. v \<noteq> JStr m" and "\<And>vs. v \<noteq> JArr vs"
  shows "contextOf (JStr (text_arg v)) = None"
proof -
  have "nl \<notin> set (text_arg v)" using assms by (cases v) (auto simp: text_arg_def)
  moreover have "nl \<in> set CONTEXT_PREFIX" by (simp add: prefix_eq ds_prefix_def)
  ultimately show ?thesis by (auto simp: contextOf_def starts_with_iff)
qed

text \<open>The context a text claims is the one its builder put there.\<close>

lemma contextOf_body: "nl \<notin> set c \<Longrightarrow> contextOf (JStr (ds_prefix @ c @ nl # t)) = Some c"
proof -
  assume "nl \<notin> set c"
  then have "takeWhile (\<lambda>c. c \<noteq> nl) (c @ nl # t) = c" by (induction c) auto
  then show ?thesis by (simp add: contextOf_def prefix_eq)
qed

lemma built_context:
  "loginChallengeBody lf = Inr b \<Longrightarrow> contextOf (JStr b) = Some CTX_LOGIN"
  "accountDeletionBody P df = Inr b \<Longrightarrow> contextOf (JStr b) = Some CTX_ACCOUNT_DELETION"
  "conversationEraseBody P ef = Inr b \<Longrightarrow> contextOf (JStr b) = Some CTX_CONVERSATION_ERASE"
  "encryptionKeyAttestationBody af = Inr b \<Longrightarrow> contextOf (JStr b) = Some CTX_KEY_ATTESTATION"
  "keyRotationBody rf = Inr b \<Longrightarrow> contextOf (JStr b) = Some CTX_KEY_ROTATION"
  using login_body.tagged [of lf b] deletion_body.tagged [of P df b] erase_body.tagged [of P ef b]
    attestation_body.tagged [of af b] rotation_body.tagged [of rf b] contextOf_body
  by auto

text \<open>A text of no context, or of one these five bodies do not have, is honest anywhere.\<close>

definition reserved_contexts :: "string list" where
  "reserved_contexts = [CTX_LOGIN, CTX_ACCOUNT_DELETION, CTX_CONVERSATION_ERASE, CTX_KEY_ATTESTATION, CTX_KEY_ROTATION]"

lemma honest_other: "\<forall>c\<in>set reserved_contexts. contextOf (JStr body) \<noteq> Some c \<Longrightarrow> honest_text P origin body"
  unfolding honest_text_def reserved_contexts_def using built_context by (auto dest: built_context)

lemma ctx_distinct:
  "distinct [CTX_LOGIN, CTX_ACCOUNT_DELETION, CTX_CONVERSATION_ERASE, CTX_KEY_ATTESTATION, CTX_KEY_ROTATION,
     CTX_MULTISIG_APPROVAL, CTX_MESSAGE, CTX_CONTENT]"
  by (simp add: ctx_defs)

lemma built_in_context:
  assumes "contextOf (JStr body) = Some c"
  shows "loginChallengeBody lf = Inr body \<Longrightarrow> c = CTX_LOGIN" "accountDeletionBody P df = Inr body \<Longrightarrow> c = CTX_ACCOUNT_DELETION"
    "conversationEraseBody P ef = Inr body \<Longrightarrow> c = CTX_CONVERSATION_ERASE"
    "encryptionKeyAttestationBody af = Inr body \<Longrightarrow> c = CTX_KEY_ATTESTATION" "keyRotationBody rf = Inr body \<Longrightarrow> c = CTX_KEY_ROTATION"
  using assms built_context(1) [of lf body] built_context(2) [of P df body] built_context(3) [of P ef body]
    built_context(4) [of af body] built_context(5) [of rf body] by auto

lemma honest_built:
  "loginChallengeBody lf = Inr body \<Longrightarrow> lf_origin lf = JStr origin \<Longrightarrow> honest_text P origin body"
  "accountDeletionBody P df = Inr body \<Longrightarrow> df_origin df = JStr origin \<Longrightarrow> honest_text P origin body"
  "conversationEraseBody P ef = Inr body \<Longrightarrow> ef_origin ef = JStr origin \<Longrightarrow> honest_text P origin body"
proof -
  assume a: "loginChallengeBody lf = Inr body" "lf_origin lf = JStr origin"
  have "lf_origin f = JStr origin" if "loginChallengeBody f = Inr body" for f
    using loginChallengeBody_commits [OF a(1) that] a(2) by (simp add: same_login_def)
  then show "honest_text P origin body"
    using built_in_context [OF built_context(1) [OF a(1)]] ctx_distinct unfolding honest_text_def by fastforce
next
  assume a: "accountDeletionBody P df = Inr body" "df_origin df = JStr origin"
  have "df_origin f = JStr origin" if "accountDeletionBody P f = Inr body" for f
    using accountDeletionBody_commits [OF a(1) that] a(2) by (simp add: same_deletion_def)
  then show "honest_text P origin body"
    using built_in_context [OF built_context(2) [OF a(1)]] ctx_distinct unfolding honest_text_def by fastforce
next
  assume a: "conversationEraseBody P ef = Inr body" "ef_origin ef = JStr origin"
  have "ef_origin f = JStr origin" if "conversationEraseBody P f = Inr body" for f
    using conversationEraseBody_commits [OF a(1) that] a(2) by (simp add: same_erase_def)
  then show "honest_text P origin body"
    using built_in_context [OF built_context(3) [OF a(1)]] ctx_distinct unfolding honest_text_def by fastforce
qed

subsection \<open>Every handler a page can reach\<close>

abbreviation honest_asks :: "prims \<Rightarrow> 'a tk \<Rightarrow> bool" where
  "honest_asks P \<equiv> asks_only (honest_request P)"

lemma honest_no_sign: "(\<And>b. act \<noteq> Do_sign b) \<Longrightarrow> honest_request P \<lparr>rq_type = ty, rq_origin = og, rq_data = d, rq_channel = c, rq_action = act\<rparr>"
  by (simp add: honest_request_def)

lemma requestSignature_asks:
  assumes "\<And>og. getSenderOrigin sn = Some og \<Longrightarrow> (\<And>vs. body \<noteq> JArr vs) \<Longrightarrow> honest_text P og (text_arg body)"
  shows "honest_asks P (requestSignature E sn kind details body)"
  unfolding requestSignature_def
proof (rule asks_then [OF asks_basic(10)], rule asks_then [OF asks_basic(9)], rule asks_asked)
  fix og s account s'
  assume "fst (requireConnectedOrigin (getSenderOrigin sn) s) = Inr og"
  then have "getSenderOrigin sn = Some og" by (rule connected_origin_is)
  then show "honest_request P \<lparr>rq_type = ''SIGN'', rq_origin = og,
      rq_data = JObj [(''origin'', JStr og), (''kind'', JStr kind), (''details'', details), (''account'', JStr (acc_name account)), (''message'', body)],
      rq_channel = te_channel E, rq_action = Do_sign body\<rparr>"
    using assms by (simp add: honest_request_def)
qed

lemma handleSign_asks: "honest_asks P (handleSign E sn request)"
proof -
  let ?m = "js_get request ''message''"
  have q: "honest_asks P (requestSignature E sn k d ?m)" if "contextOf ?m = None \<or> contextOf ?m = Some CTX_CONTENT" for k d
  proof (rule requestSignature_asks)
    fix og assume arr: "?m \<noteq> JArr vs" for vs
    show "honest_text P og (text_arg ?m)"
    proof (cases "\<exists>m. ?m = JStr m")
      case True
      then show ?thesis using that ctx_distinct by (intro honest_other) (auto simp: reserved_contexts_def)
    next
      case False
      then show ?thesis using contextOf_value [of ?m] arr by (intro honest_other) auto
    qed
  qed
  show ?thesis
    unfolding handleSign_def Let_def
    by (rule asks_then [OF asks_basic(6)]) (auto intro!: asks_then asking q split: option.splits)
qed

lemma origin_js_Some [simp]: "origin_js (Some og) = JStr og"
  by (simp add: origin_js_def)

lemma handleSignLogin_asks: "honest_asks P (handleSignLogin E sn request)"
  unfolding handleSignLogin_def
  by (intro asks_then asking requestSignature_asks) (auto intro!: honest_built(1))

lemma handleSignAccountDeletion_asks: "honest_asks (te_prims E) (handleSignAccountDeletion E sn request)"
  unfolding handleSignAccountDeletion_def
  by (intro asks_then asking requestSignature_asks) (auto intro!: honest_built(2))

lemma handleSignConversationErase_asks: "honest_asks (te_prims E) (handleSignConversationErase E sn request)"
  unfolding handleSignConversationErase_def
  by (intro asks_then asking requestSignature_asks) (auto intro!: honest_built(3))

lemma multisig_context: "contextOf (JStr (multisigApprovalMessage w x c)) = Some CTX_MULTISIG_APPROVAL"
  using contextOf_body [of CTX_MULTISIG_APPROVAL] by (simp add: multisigApprovalMessage_def domainSeparate_prefix)

lemma handleSignMultisigApproval_asks: "honest_asks P (handleSignMultisigApproval E sn request)"
  unfolding handleSignMultisigApproval_def Let_def
  by (intro asks_then asking requestSignature_asks honest_other)
    (use ctx_distinct in \<open>auto simp: multisig_context reserved_contexts_def\<close>)

lemma message_prefix_context:
  assumes "starts_with m MESSAGE_SIGNING_PREFIX"
  shows "contextOf (JStr m) = Some CTX_MESSAGE"
proof -
  obtain t where "m = MESSAGE_SIGNING_PREFIX @ t" using assms by (auto simp: starts_with_iff)
  moreover have "MESSAGE_SIGNING_PREFIX = ds_prefix @ CTX_MESSAGE @ [nl]"
    by (simp add: MESSAGE_SIGNING_PREFIX_def domainSeparate_prefix)
  ultimately have "m = ds_prefix @ CTX_MESSAGE @ nl # t" by simp
  then show ?thesis using contextOf_body [of CTX_MESSAGE t] by simp
qed

lemma handleSignMessage_asks: "honest_asks P (handleSignMessage E sn request)"
proof -
  let ?m = "js_get request ''message''"
  have q: "honest_asks P (requestSignature E sn k d (JStr m))" if "starts_with m MESSAGE_SIGNING_PREFIX" for k d m
    using message_prefix_context [OF that] ctx_distinct
    by (intro requestSignature_asks honest_other) (auto simp: reserved_contexts_def)
  show ?thesis
    unfolding handleSignMessage_def Let_def
    by (rule asks_then [OF asks_basic(6)]) (auto intro!: asks_then asking q split: option.splits)
qed

lemma decrypt_request_asks: "(\<And>b. act \<noteq> Do_sign b) \<Longrightarrow> honest_asks P (decrypt_request E sn kind count act)"
  unfolding decrypt_request_def
  by (intro asks_then asking asks_asked honest_no_sign)

lemma decrypt_handlers_ask:
  "honest_asks P (handleDecrypt E sn request)" "honest_asks P (handleUnwrapSessionKey E sn request)"
  "honest_asks P (handleDecryptMany E sn request)" "honest_asks P (handleUnwrapManySessionKeys E sn request)"
  by (simp_all add: handleDecrypt_def handleUnwrapSessionKey_def handleDecryptMany_def handleUnwrapManySessionKeys_def
      decrypt_request_asks)

lemma handleRotate_asks: "honest_asks P (handleRotateEncryptionKey E sn request)"
  unfolding handleRotateEncryptionKey_def
  by (intro asks_then asking)
    (auto intro!: asks_then asking asks_asked honest_no_sign split: jsval.splits)

lemma launchPopup_asks: "asks_only Q (\<lambda>s. (r, snd (launchPopup w s)))"
  using openTrackedWindow_core openTrackedWindow_queue queue_ok_pending [OF openTrackedWindow_queue]
  by (intro asks_onlyI) (auto simp: launchPopup_def)

lemma asks_if: "(\<And>s. b s \<Longrightarrow> asks_only Q (f s)) \<Longrightarrow> (\<And>s. \<not> b s \<Longrightarrow> asks_only Q (g s)) \<Longrightarrow> asks_only Q (\<lambda>s. if b s then f s s else g s s)"
  by (auto simp: asks_only_def)

lemma handleConnect_asks: "honest_asks P (handleConnect w rid ch og)"
proof -
  have "honest_asks P (andThen the_vault (\<lambda>v. if site_on (v_permissions v) og then ret (Some (ok_reply []))
      else ask_user w rid \<lparr>rq_type = ''CONNECT'', rq_origin = og, rq_data = JObj [(''origin'', JStr og)],
              rq_channel = ch, rq_action = Do_connect og\<rparr>))"
    by (intro asks_then asking) (auto intro!: asking asks_ask_user honest_no_sign)
  then show ?thesis
    using launchPopup_asks [of "honest_request P"] by (auto simp: handleConnect_def asks_only_def)
qed

lemma getActiveAccount_asks: "asks_only Q (getActiveAccount og)"
  unfolding getActiveAccount_def Let_def
  by (intro asks_then asking) (auto intro!: asks_then asking)

lemma handleCheckConnection_asks: "asks_only Q (handleCheckConnection og)"
proof -
  have "asks_only Q (andThen the_vault (\<lambda>v. ret (ok_reply [(''connected'', JBool (site_on (v_permissions v) (case og of None \<Rightarrow> ''null'' | Some og \<Rightarrow> og)))])))"
    by (intro asks_then asking)
  then show ?thesis by (auto simp: handleCheckConnection_def asks_only_def)
qed

lemma handleGetKeyAttestation_asks: "asks_only Q (handleGetKeyAttestation E b og)"
  unfolding handleGetKeyAttestation_def by (intro asks_then asking) (auto intro: asking)

lemma handleEncrypt_asks: "asks_only Q (handleEncrypt E request)"
  unfolding handleEncrypt_def by (intro asks_then asking) (auto intro!: asks_then asking)

lemma handleWrap_asks: "asks_only Q (handleWrapSessionKey E request)" "asks_only Q (handleGenerateSessionKey E)"
  unfolding handleWrapSessionKey_def handleGenerateSessionKey_def by (intro asks_then asking)+

subsection \<open>A page's message\<close>

lemma plain_asks: "asks_only Q m \<Longrightarrow> asks_only Q (plain m)" "asks_only Q n \<Longrightarrow> asks_only Q (pending_answer n)"
  by (simp_all add: plain_def pending_answer_def asks_then asking)

lemmas page_handlers =
  handleSign_asks handleSignLogin_asks handleSignAccountDeletion_asks handleSignConversationErase_asks
  handleSignMultisigApproval_asks handleSignMessage_asks decrypt_handlers_ask handleRotate_asks handleConnect_asks
  getActiveAccount_asks handleCheckConnection_asks handleGetKeyAttestation_asks handleEncrypt_asks handleWrap_asks

text \<open>Every entry of the table that a page may call, the undoing of a rotation apart.\<close>

lemma asks_handshake: "asks_only Q (plain (ret x))"
  by (intro plain_asks asking)

lemma active_view_asks: "asks_only Q (active_view og)"
  unfolding active_view_def by (intro asks_then asking getActiveAccount_asks)

lemma page_table:
  "list_all (\<lambda>(name, e). en_internal e \<or> name = ''REVERT_ENCRYPTION_KEY_ROTATION'' \<or> honest_asks (te_prims E) (en_fn e E c)) HANDLERS"
  unfolding HANDLERS_def handler_def list.pred_inject prod.case entry.simps
  by (simp add: plain_asks page_handlers active_view_asks asks_handshake)

lemma page_entry:
  assumes "(name, e) \<in> set HANDLERS" "\<not> en_internal e" "name \<noteq> ''REVERT_ENCRYPTION_KEY_ROTATION''"
  shows "honest_asks (te_prims E) (en_fn e E c)"
  using page_table [of E c] assms unfolding list_all_iff by blast

lemma table_lookup: "map_of HANDLERS name = Some e \<Longrightarrow> (name, e) \<in> set HANDLERS"
  by (rule map_of_SomeD)

lemma page_message:
  assumes page: "\<not> isInternalSender E sn" and name: "js_str (js_get request ''type'') \<noteq> ''REVERT_ENCRYPTION_KEY_ROTATION''"
  shows "honest_asks (te_prims E) (handle_message E sn request)"
proof -
  let ?n = "js_str (js_get request ''type'')"
  have run: "honest_asks (te_prims E) (run_entry E sn request False e)" if "map_of HANDLERS ?n = Some e" for e
    using page_entry [OF table_lookup [OF that] _ name]
    by (auto simp: run_entry_def intro: asking split: option.splits)
  have "honest_asks (te_prims E) (look_up request ?n E sn False)"
    using run by (auto simp: look_up_def intro: asking split: option.splits)
  moreover have "honest_asks (te_prims E) (updates id)" by (rule asks_read_only) simp
  ultimately show ?thesis
    using page by (auto simp: handle_message_def Let_def intro!: asks_then asking)
qed

lemma dispatch_state: "snd (dispatch E sn request s) = snd (handle_message E sn request s)"
  by (auto simp: dispatch_def split: prod.splits sum.splits option.splits)

lemma page_step:
  assumes "\<not> isInternalSender E sn" "js_str (js_get request ''type'') \<noteq> ''REVERT_ENCRYPTION_KEY_ROTATION''"
  shows "same_core s (snd (dispatch E sn request s))"
  using page_message [OF assms] by (simp add: dispatch_state asks_only_def)

subsection \<open>The queue, whatever happens\<close>

text \<open>Operations that keep the queue's bounds and add only requests that satisfy Q.\<close>

definition tidy :: "(request \<Rightarrow> bool) \<Rightarrow> 'a tk \<Rightarrow> bool" where
  "tidy Q m \<longleftrightarrow>
     (\<forall>s. (queue_ok s \<longrightarrow> queue_ok (snd (m s))) \<and>
          (\<forall>x\<in>set (st_pending (snd (m s))). x \<in> set (st_pending s) \<or> Q (snd x)))"

lemma tidy_then:
  assumes m: "tidy Q m" and f: "\<And>x. tidy Q (f x)"
  shows "tidy Q (andThen m f)"
proof -
  have "(queue_ok s \<longrightarrow> queue_ok (snd (andThen m f s))) \<and>
      (\<forall>x\<in>set (st_pending (snd (andThen m f s))). x \<in> set (st_pending s) \<or> Q (snd x))" for s
  proof -
    obtain r t where mt: "m s = (r, t)" by (cases "m s")
    have "(queue_ok s \<longrightarrow> queue_ok t) \<and> (\<forall>x\<in>set (st_pending t). x \<in> set (st_pending s) \<or> Q (snd x))"
      using m mt by (auto simp: tidy_def dest: spec [of _ s])
    moreover have "(queue_ok t \<longrightarrow> queue_ok (snd (f y t))) \<and> (\<forall>x\<in>set (st_pending (snd (f y t))). x \<in> set (st_pending t) \<or> Q (snd x))" for y
      using f [of y] by (auto simp: tidy_def)
    ultimately show ?thesis using mt by (cases r) fastforce+
  qed
  then show ?thesis by (simp add: tidy_def)
qed

lemma tidy_same: "(\<And>s. st_pending (snd (m s)) = st_pending s) \<Longrightarrow> tidy Q m"
  by (simp add: tidy_def queue_ok_def pendingForOrigin_def)

lemma tidy_state: "(\<And>s. snd (m s) = s) \<Longrightarrow> tidy Q m"
  by (rule tidy_same) simp

named_theorems tidying \<open>operations that leave the queue alone\<close>

lemma tidy_basic [tidying]:
  "tidy Q (ret x)" "tidy Q (fail e)" "tidy Q (lift_res r)" "tidy Q (reads g)" "tidy Q (guards b e)"
  "tidy Q requireUnlocked" "tidy Q the_vault" "tidy Q activeAccount" "tidy Q requireActiveAccount"
  "tidy Q (requireConnectedOrigin og)" "tidy Q (set_vault v)"
  by (rule tidy_same, simp add: accessors_read_only guards_def ret_def fail_def)+

lemma tidy_page: "asks_only Q m \<Longrightarrow> tidy Q m"
  by (simp add: asks_only_def tidy_def)

text \<open>Saving and what surrounds it never touch the queue.\<close>

lemma pending_of_ops [simp]:
  "st_pending (session_set kvs s) = st_pending s" "st_pending (session_remove ks s) = st_pending s"
  "st_pending (persistSession now s) = st_pending s" "st_pending (clearSession s) = st_pending s"
  "st_pending (touchActivity now s) = st_pending s" "st_pending (snd (readSession now s)) = st_pending s"
  "st_pending (lockWithSession s) = st_pending s"
  by (auto simp: session_set_def session_remove_def persistSession_def clearSession_def touchActivity_def readSession_def
      lockWithSession_def lock_def split: option.splits sum.splits)

lemma tidy_updates [tidying]: "(\<And>s. st_pending (g s) = st_pending s) \<Longrightarrow> tidy Q (updates g)"
  by (rule tidy_same) simp

lemma tidy_writeVault [tidying]: "tidy Q (writeVault P iv key kdf)"
  unfolding writeVault_def by (intro tidy_then tidying) simp

lemma tidy_save [tidying]: "tidy Q (saveVaultWithSessionKey P iv)"
  using tidy_writeVault [of Q P iv] by (auto simp: tidy_def saveVaultWithSessionKey_def split: option.splits)

lemma tidy_cond: "tidy Q m \<Longrightarrow> tidy Q (\<lambda>s. if b s then (r s, s) else m s)"
  by (simp add: tidy_def)

lemma tidy_saveVault [tidying]: "tidy Q (saveVault P rnd now pw)"
  unfolding saveVault_def Let_def by (rule tidy_cond) (intro tidy_then tidying; simp)

lemma tidy_openVault [tidying]: "tidy Q (openVault P now d kb kdf)"
  unfolding openVault_def by (intro tidy_then tidying) simp

lemma tidy_catches [tidying]: "tidy Q m \<Longrightarrow> (\<And>e. tidy Q (h e)) \<Longrightarrow> tidy Q (catches m h)"
  by (fastforce simp: tidy_def catches_def split: prod.splits sum.splits)

end
