(* ===== verification/TkInvariant.thy ===== *)
theory TkInvariant
  imports TkPages
begin

text \<open>
  The invariant of the whole extension, kept by every message and every event: locked, the worker
  holds no vault and no key; unlocked, it holds exactly the vault that is on disk, under the key
  and descriptor that open it; a cached session opens that same vault; the queue is within its
  bounds and every signature it asks for is honest.
\<close>

subsection \<open>The invariant\<close>

definition no_session :: "tk_state \<Rightarrow> bool" where
  "no_session s \<longleftrightarrow> \<not> truthy (session_get ''vaultKeyHex'' s) \<or> \<not> truthy (session_get ''vaultKdf'' s)"

definition session_holds :: "tk_state \<Rightarrow> bytes \<Rightarrow> jsval \<Rightarrow> bool" where
  "session_holds s key kdf \<longleftrightarrow>
     session_get ''vaultKeyHex'' s = JStr (toHex key) \<and> session_get ''vaultKdf'' s = kdf"

definition session_fits :: "tk_state \<Rightarrow> bytes \<Rightarrow> jsval \<Rightarrow> bool" where
  "session_fits s key kdf \<longleftrightarrow> no_session s \<or> session_holds s key kdf"

definition world_ok :: "prims \<Rightarrow> tk_state \<Rightarrow> bool" where
  "world_ok P s \<longleftrightarrow>
     (locked_clean s \<and> st_vaultData s = None \<and> no_session s) \<or>
     (\<exists>v key kdf. on_disk P s v key kdf \<and> session_fits s key kdf \<and> (locked_clean s \<or> unlocked_with P s v key kdf))"

lemma world_cases:
  assumes "world_ok P s"
  obtains (empty) "locked_clean s" "st_vaultData s = None" "no_session s"
  | (locked) v key kdf where "locked_clean s" "on_disk P s v key kdf" "session_fits s key kdf"
  | (unlocked) v key kdf where "unlocked_with P s v key kdf" "session_fits s key kdf"
proof -
  consider "locked_clean s \<and> st_vaultData s = None \<and> no_session s"
    | v key kdf where "on_disk P s v key kdf" "session_fits s key kdf" "locked_clean s \<or> unlocked_with P s v key kdf"
    using assms unfolding world_ok_def by blast
  then show thesis
  proof cases
    case 1
    then show ?thesis using empty by blast
  next
    case (2 v key kdf)
    then show ?thesis using locked [of v key kdf] unlocked [of v key kdf] by blast
  qed
qed

lemma world_unlocked: "unlocked_with P s v key kdf \<Longrightarrow> session_fits s key kdf \<Longrightarrow> world_ok P s"
  using unlocked_on_disk unfolding world_ok_def by blast

lemma world_locked: "locked_clean s \<Longrightarrow> on_disk P s v key kdf \<Longrightarrow> session_fits s key kdf \<Longrightarrow> world_ok P s"
  unfolding world_ok_def by blast

lemma world_lock_state:
  assumes "world_ok P s"
  shows "st_isLocked s \<longleftrightarrow> st_vault s = None" "st_isLocked s \<Longrightarrow> locked_clean s"
    "\<not> st_isLocked s \<Longrightarrow> \<exists>v key kdf. unlocked_with P s v key kdf \<and> session_fits s key kdf"
  using assms by (auto elim!: world_cases simp: locked_clean_def unlocked_with_def)

text \<open>It speaks of these fields only.\<close>

lemma world_fields:
  assumes "st_vault t = st_vault s" "st_isLocked t = st_isLocked s" "st_vaultKey t = st_vaultKey s"
    "st_vaultKeyBytes t = st_vaultKeyBytes s" "st_vaultKdf t = st_vaultKdf s" "st_vaultData t = st_vaultData s"
    "st_pendingRotation t = st_pendingRotation s"
    "session_get ''vaultKeyHex'' t = session_get ''vaultKeyHex'' s" "session_get ''vaultKdf'' t = session_get ''vaultKdf'' s"
  shows "world_ok P t = world_ok P s"
  using assms
  by (simp add: world_ok_def locked_clean_def no_session_def session_fits_def session_holds_def on_disk_def unlocked_with_def)

lemma world_updates [simp]:
  "world_ok P (s\<lparr>st_scripts := x\<rparr>) = world_ok P s" "world_ok P (s\<lparr>st_hostPermissions := h\<rparr>) = world_ok P s"
  by (rule world_fields; simp add: session_get_def)+

lemma world_core: "same_core s t \<Longrightarrow> world_ok P t = world_ok P s"
  by (rule world_fields) (simp_all add: same_core_fields session_get_def)

subsection \<open>Operations that keep it\<close>

text \<open>An operation keeps the world in order, the queue within bounds, and asks honestly.\<close>

definition sound :: "prims \<Rightarrow> 'a tk \<Rightarrow> bool" where
  "sound P m \<longleftrightarrow> (\<forall>s. world_ok P s \<longrightarrow> world_ok P (snd (m s))) \<and> tidy (honest_request P) m"

lemma sound_then: "sound P m \<Longrightarrow> (\<And>x. sound P (f x)) \<Longrightarrow> sound P (andThen m f)"
proof -
  assume m: "sound P m" and f: "\<And>x. sound P (f x)"
  have "world_ok P (snd (andThen m f s))" if "world_ok P s" for s
  proof -
    obtain r t where mt: "m s = (r, t)" by (cases "m s")
    then have "world_ok P t" using m that by (auto simp: sound_def dest: spec [of _ s])
    then show ?thesis using mt f by (cases r) (auto simp: sound_def)
  qed
  moreover have "tidy (honest_request P) (andThen m f)" using m f by (intro tidy_then) (auto simp: sound_def)
  ultimately show ?thesis by (simp add: sound_def)
qed

lemma sound_page: "honest_asks P m \<Longrightarrow> sound P m"
proof -
  assume m: "honest_asks P m"
  have "world_ok P (snd (m s))" if "world_ok P s" for s
  proof -
    have "same_core s (snd (m s))" using m by (simp add: asks_only_def)
    then show ?thesis using that by (simp add: world_core)
  qed
  then show ?thesis using tidy_page [OF m] by (simp add: sound_def)
qed

lemma sound_state: "(\<And>s. snd (m s) = s) \<Longrightarrow> sound P m"
  by (intro sound_page asks_read_only)

named_theorems keeping \<open>operations that keep the invariant\<close>

lemma sound_basic [keeping]:
  "sound P (ret x)" "sound P (fail e)" "sound P (lift_res r)" "sound P (reads g)" "sound P (guards b e)"
  "sound P requireUnlocked" "sound P the_vault" "sound P activeAccount" "sound P requireActiveAccount"
  "sound P (requireConnectedOrigin og)"
  by (intro sound_page asking)+

text \<open>The shape of every change: read the vault, change it, save it.\<close>

definition change_vault :: "prims \<Rightarrow> bytes \<Rightarrow> (vault \<Rightarrow> vault) \<Rightarrow> unit tk" where
  "change_vault P iv f = andThen the_vault (\<lambda>v. andThen (set_vault (f v)) (\<lambda>_. saveVaultWithSessionKey P iv))"

lemma andThen_assoc: "andThen (andThen m f) g = andThen m (\<lambda>x. andThen (f x) g)"
  by (rule ext) (simp add: andThen_def split: prod.splits sum.splits)

lemma session_fits_saved [simp]: "session_fits (saved P iv s w key kdf) key' kdf' = session_fits s key' kdf'"
  by (simp add: session_fits_def no_session_def session_holds_def session_get_def saved_def)

lemma sound_change:
  assumes iv: "iv \<noteq> []" and f: "\<And>v. vault_ok P v \<Longrightarrow> vault_ok P (f v)"
  shows "sound P (change_vault P iv f)"
proof -
  have "world_ok P (snd (change_vault P iv f s))" if "world_ok P s" for s
    using that
  proof (cases rule: world_cases)
    case (unlocked v key kdf)
    have "vault_ok P (f v)" using f unlocked_facts(5) [OF unlocked(1)] by blast
    note save = set_and_save [OF unlocked(1) this iv]
    have "change_vault P iv f s = (Inr (), saved P iv s (f v) key kdf)"
      using unlocked_facts [OF unlocked(1)] save(1) by (simp add: change_vault_def andThen_apply)
    then show ?thesis using world_unlocked [OF save(2)] unlocked(2) by simp
  qed (use that in \<open>auto simp: change_vault_def andThen_apply the_vault_def locked_clean_def\<close>)
  moreover have "tidy (honest_request P) (change_vault P iv f)"
    unfolding change_vault_def by (intro tidy_then tidying)
  ultimately show ?thesis by (simp add: sound_def)
qed

lemma change_then:
  "andThen the_vault (\<lambda>v. andThen (set_vault (f v)) (\<lambda>_. andThen (saveVaultWithSessionKey P iv) k)) = andThen (change_vault P iv f) k"
  by (simp add: change_vault_def andThen_assoc)

lemma sound_cond: "sound P m \<Longrightarrow> sound P (\<lambda>s. if b s then (r s, s) else m s)"
  by (simp add: sound_def tidy_def)

lemma sound_updates:
  "(\<And>s. world_ok P s \<Longrightarrow> world_ok P (g s)) \<Longrightarrow> (\<And>s. st_pending (g s) = st_pending s) \<Longrightarrow> sound P (updates g)"
  by (simp add: sound_def tidy_updates)

lemma sound_if [keeping]: "sound P m \<Longrightarrow> sound P n \<Longrightarrow> sound P (if b then m else n)"
  by simp

subsection \<open>Accounts\<close>

lemma createAccount_sound:
  assumes "signature_laws P" "envelope_laws P" "good_identity_draw P (fst d)" "good_encryption_draw P (snd d)" "iv \<noteq> []"
  shows "sound P (createAccount P d iv now name)"
proof -
  obtain a where a: "generateAccount P d now name = Inr a" "account_ok P a"
    using generate_ok [OF assms(1-4)] by blast
  have "createAccount P d iv now name =
      andThen requireUnlocked (\<lambda>_. andThen (change_vault P iv (with_account a))
        (\<lambda>_. ret (JObj [(''id'', JStr (acc_id a)), (''name'', JStr (acc_name a))])))"
    by (rule ext) (simp add: createAccount_def a(1) andThen_def change_vault_def with_account_def
        requireUnlocked_def split: prod.splits sum.splits)
  then show ?thesis
    using with_account_ok a(2) by (simp, intro sound_then keeping sound_change assms(5)) blast
qed

lemma getAccounts_sound [keeping]: "sound P getAccounts"
  unfolding getAccounts_def by (intro sound_then keeping)

lemma setActiveAccount_sound: "iv \<noteq> [] \<Longrightarrow> aid = JUndef \<or> js_pure aid \<Longrightarrow> sound P (setActiveAccount P iv aid)"
  unfolding setActiveAccount_def change_vault_def [symmetric]
  by (intro sound_then keeping sound_change vault_ok_active)

lemma deleteAccount_sound: "iv \<noteq> [] \<Longrightarrow> sound P (deleteAccount P iv aid)"
proof -
  assume iv: "iv \<noteq> []"
  let ?found = "\<lambda>v. list_ex (\<lambda>a. JStr (acc_id a) = aid) (v_accounts v)"
  have "world_ok P (snd (deleteAccount P iv aid s))" if w: "world_ok P s" for s
    using w
  proof (cases rule: world_cases)
    case (unlocked v key kdf)
    show ?thesis
    proof (cases "?found v")
      case True
      then show ?thesis
        using deleteAccount_ok [OF unlocked(1) iv, of aid] unlocked(2) world_unlocked by (auto simp: list_ex_iff)
    next
      case False
      then have "deleteAccount P iv aid s = (Inl (PlainError ''Account not found''), s)"
        by (intro deleteAccount_unknown [OF unlocked(1)]) (simp add: list_ex_iff)
      then show ?thesis using w by simp
    qed
  qed (use w in \<open>auto simp: deleteAccount_def andThen_apply requireUnlocked_def locked_clean_def\<close>)
  moreover have "tidy (honest_request P) (deleteAccount P iv aid)"
    unfolding deleteAccount_def by (intro tidy_then tidying)
  ultimately show ?thesis by (simp add: sound_def)
qed

lemma asks_refuse_weak [asking]: "asks_only Q (refuse_weak pw)"
  by (rule asks_read_only) (simp add: refuse_weak_def split: option.splits)

lemma asks_confirm [asking]: "asks_only Q (confirm_password P pw)"
  by (rule asks_read_only) (simp add: confirm_password_def andThen_def split: prod.splits sum.splits)

lemma asks_accountForExport [asking]: "asks_only Q accountForExport"
  unfolding accountForExport_def by (intro asks_then asking) (auto intro: asking split: option.splits list.splits)

lemma export_sound [keeping]:
  "sound P (exportEncryptedVault P' rnd pw pp)" "sound P (exportActiveAccount P' pw)"
  unfolding exportEncryptedVault_def exportActiveAccount_def by (intro sound_page asks_then asking)+

lemma importVault_unlocked:
  assumes "kdf_laws P" "strong_rnd rnd" and w: "unlocked_with P s v key kdf" "session_fits s key kdf"
  shows "world_ok P (snd (importVault P rnd now ob pw pp s))"
proof -
  have iv: "snd rnd \<noteq> []" using assms(2) by (simp add: strong_rnd_def)
  have same: "world_ok P s" using world_unlocked [OF w] .
  show ?thesis
  proof (cases "read_import P ob pw pp")
    case (Inl e)
    then show ?thesis using same by (simp add: importVault_def andThen_apply)
  next
    case d: (Inr d)
    show ?thesis
    proof (cases "import_accounts P now d")
      case (Inl e)
      then show ?thesis using same d by (simp add: importVault_def andThen_apply)
    next
      case xs: (Inr xs)
      show ?thesis
      proof (cases "truthy pw")
        case True
        obtain t v' key' kdf' where "importVault P rnd now ob pw pp s = (Inr (), t)" "unlocked_with P t v' key' kdf'" "cached t key' kdf' now"
          using importVault_password [OF assms(1,2) w(1) d xs True] by blast
        then show ?thesis by (auto intro!: world_unlocked simp: session_fits_def session_holds_def cached_def)
      next
        case False
        obtain t v' where "importVault P rnd now ob pw pp s = (Inr (), t)" "unlocked_with P t v' key kdf" "st_session t = st_session s"
          using importVault_session [OF w(1) iv d xs False] by blast
        then show ?thesis
          using w(2) by (auto intro!: world_unlocked simp: session_fits_def session_holds_def no_session_def session_get_def)
      qed
    qed
  qed
qed

lemma tidy_importVault: "tidy Q (importVault P rnd now ob pw pp)"
proof -
  have "tidy Q (\<lambda>s. (import_vault d xs (st_vault s), s))" for d xs by (rule tidy_state) simp
  then show ?thesis
    unfolding importVault_def by (intro tidy_then tidying) (auto intro: tidying)
qed

lemma import_keys_sound:
  assumes "te_prims E = P" "kdf_laws P" "strong_rnd (te_save E)"
  shows "sound P (import_keys E request)"
proof -
  let ?imp = "\<lambda>ob. importVault P (te_save E) (te_now E) ob (js_get request ''password'') (js_get request ''passphrase'')"
  let ?m = "\<lambda>ob. andThen getAccounts (\<lambda>existing. andThen (?imp ob) (\<lambda>_. andThen getAccounts (\<lambda>merged.
      ret (ok_reply [(''count'', JNum (int (length merged) - int (length existing)))]))))"
  have "world_ok P (snd (?m ob s))" if w: "world_ok P s" for ob s
    using w
  proof (cases rule: world_cases)
    case (unlocked v key kdf)
    have k: "sound P (andThen getAccounts (\<lambda>merged. ret (ok_reply [(''count'', JNum (int (length merged) - int n))])))" for n
      by (intro sound_then keeping)
    have "getAccounts s = (Inr (map (account_row v) (v_accounts v)), s)"
      using unlocked_facts [OF unlocked(1)] by (simp add: getAccounts_def andThen_apply)
    moreover have "world_ok P (snd (andThen (?imp ob) (\<lambda>_. andThen getAccounts (\<lambda>merged.
        ret (ok_reply [(''count'', JNum (int (length merged) - int n))]))) s))" for n
      using importVault_unlocked [OF assms(2,3) unlocked, of "te_now E" ob "js_get request ''password''" "js_get request ''passphrase''"] k [of n]
      by (auto simp: sound_def andThen_apply split: prod.splits sum.splits)
    ultimately show ?thesis by (simp add: andThen_apply)
  qed (use w in \<open>auto simp: getAccounts_def andThen_apply requireUnlocked_def locked_clean_def\<close>)
  moreover have "tidy (honest_request P) (?m ob)" for ob
    using getAccounts_sound by (intro tidy_then tidying tidy_importVault) (simp add: sound_def)+
  ultimately have m: "sound P (?m ob)" for ob by (simp add: sound_def)
  show ?thesis
    unfolding import_keys_def Let_def assms(1) by (rule sound_cond, rule sound_cond, rule m)
qed

subsection \<open>Sites\<close>

lemma scripts_world: "scripts_only s t \<Longrightarrow> world_ok P t = world_ok P s"
  by (auto simp: scripts_only_def)

lemma sound_scripts: "(\<And>s. scripts_only s (g s)) \<Longrightarrow> sound P (updates g)"
proof (rule sound_updates)
  fix s assume g: "\<And>s. scripts_only s (g s)"
  show "world_ok P s \<Longrightarrow> world_ok P (g s)" using scripts_world [OF g] by simp
  show "st_pending (g s) = st_pending s" by (rule scripts_only_ok(4) [OF g])
qed

lemma approve_connect_sound: "iv \<noteq> [] \<Longrightarrow> sound P (approve_connect P iv og)"
  unfolding approve_connect_def change_then by (intro sound_then keeping sound_change permit_ok)

lemma addSite_sound: "iv \<noteq> [] \<Longrightarrow> sound P (handleAddTrustedSite U P iv og)"
  unfolding handleAddTrustedSite_def change_then
  by (intro sound_cond sound_then keeping sound_change permit_ok sound_scripts scripts_only_ops)

lemma removeSite_sound: "iv \<noteq> [] \<Longrightarrow> sound P (handleRemoveTrustedSite U P iv og)"
  unfolding handleRemoveTrustedSite_def change_then
  by (intro sound_cond sound_then keeping sound_change forget_ok sound_scripts scripts_only_ops sound_updates)
    simp_all

lemma autosign_sound:
  assumes iv: "iv \<noteq> []"
  shows "sound P (handleSetSiteAutoSign P iv og b)"
proof -
  let ?m = "andThen the_vault (\<lambda>v. if og = [] \<or> \<not> site_on (v_permissions v) og then ret (err_reply ''Unknown site'')
       else andThen (set_vault (grant_autosign og b v)) (\<lambda>_. andThen (saveVaultWithSessionKey P iv) (\<lambda>_. ret (ok_reply []))))"
  have "world_ok P (snd (?m s))" if w: "world_ok P s" for s
    using w
  proof (cases rule: world_cases)
    case (unlocked v key kdf)
    show ?thesis
      using unlocked_facts [OF unlocked(1)] w set_and_save [OF unlocked(1) grant_ok iv, of v og b] unlocked(2)
        world_unlocked [of P "saved P iv s (grant_autosign og b v) key kdf"]
      by (auto simp: andThen_apply)
  qed (use w in \<open>auto simp: andThen_apply the_vault_def locked_clean_def\<close>)
  moreover have "tidy (honest_request P) ?m" by (intro tidy_then tidying) (auto intro!: tidy_then tidying)
  ultimately have "sound P ?m" by (simp add: sound_def)
  then show ?thesis unfolding handleSetSiteAutoSign_def by (rule sound_cond)
qed

lemma session_world:
  assumes "k \<noteq> ''vaultKeyHex''" "k \<noteq> ''vaultKdf''"
  shows "world_ok P (session_set [(k, x)] s) = world_ok P s" "world_ok P (session_remove [k] s) = world_ok P s"
  by (rule world_fields; use assms in \<open>simp add: session_set_def session_remove_def session_get_def\<close>)+

lemma grant_key_other: "PENDING_GRANT_KEY \<noteq> ''vaultKeyHex''" "PENDING_GRANT_KEY \<noteq> ''vaultKdf''"
  by (simp_all add: PENDING_GRANT_KEY_def)

lemma trustTab_sound: "iv \<noteq> [] \<Longrightarrow> sound P (trustTabOrigin U P iv og)"
  unfolding trustTabOrigin_def by (intro sound_cond sound_then keeping addSite_sound)

lemma sound_before:
  assumes "sound P m" "\<And>s. world_ok P (g s) = world_ok P s" "\<And>s. st_pending (g s) = st_pending s"
  shows "sound P (\<lambda>s. m (g s))"
proof -
  have "queue_ok s \<longrightarrow> queue_ok (g s)" for s using queue_ok_pending assms(3) by blast
  then show ?thesis using assms unfolding sound_def tidy_def by fastforce
qed

lemma expectGrant_sound: "sound P (handleExpectSiteGrant U tab now)"
proof -
  have "world_ok P (session_set [(PENDING_GRANT_KEY, x)] s) = world_ok P s" for x s
    by (rule session_world(1) [OF grant_key_other])
  then show ?thesis
    by (auto simp: sound_def tidy_def handleExpectSiteGrant_def queue_ok_def pendingForOrigin_def split: option.splits)
qed

lemma removed_grant_sound:
  assumes "iv \<noteq> []"
  shows "sound P (\<lambda>s. trustTabOrigin U P iv og (session_remove [PENDING_GRANT_KEY] s))"
  by (rule sound_before [OF trustTab_sound [OF assms] session_world(2) [OF grant_key_other]]) simp

lemma authorizeTab_sound: "iv \<noteq> [] \<Longrightarrow> sound P (handleAuthorizeCurrentTab U P iv tab)"
  using removed_grant_sound [of iv P U]
  by (cases "activeTabOrigin U tab") (auto simp: handleAuthorizeCurrentTab_def sound_def tidy_def)

lemma permissionsAdded_sound: "iv \<noteq> [] \<Longrightarrow> sound P (handlePermissionsAdded U P iv now granted)"
proof -
  assume iv: "iv \<noteq> []"
  have "world_ok P (session_remove [PENDING_GRANT_KEY] s) = world_ok P s" for s
    by (rule session_world(2) [OF grant_key_other])
  then show ?thesis
    using removed_grant_sound [OF iv, of P U]
    by (auto simp: sound_def tidy_def handlePermissionsAdded_def Let_def queue_ok_def pendingForOrigin_def)
qed

lemma sync_sound:
  assumes iv: "iv \<noteq> []"
  shows "sound P (syncDynamicScripts U P iv)"
proof -
  have "world_ok P (snd (syncDynamicScripts U P iv s))" if w: "world_ok P s" for s
  proof (cases "st_vault s")
    case None
    then show ?thesis using w by (simp add: syncDynamicScripts_def)
  next
    case (Some v)
    then obtain key kdf where u: "unlocked_with P s v key kdf" "session_fits s key kdf"
      using w by (auto elim!: world_cases simp: locked_clean_def unlocked_with_def)
    obtain t where t: "syncDynamicScripts U P iv s = (Inr (), t)" "unlocked_with P t (fold forget_site (revoked_sites U s v) v) key kdf"
        "st_session t = st_session s"
      using sync_ok [OF u(1) iv] by blast
    then have "session_fits t key kdf"
      using u(2) by (simp add: session_fits_def no_session_def session_holds_def session_get_def)
    then show ?thesis using t world_unlocked by auto
  qed
  then show ?thesis by (simp add: sound_def tidy_same sync_pending)
qed

subsection \<open>Locking and unlocking\<close>

lemma session_gone: "no_session (lockWithSession s)"
proof -
  have "session_get ''vaultKeyHex'' (clearSession (lock s)) = JUndef"
    by (simp add: session_get_def clearSession_def session_remove_def SESSION_KEYS_def)
  then show ?thesis by (simp add: no_session_def lockWithSession_def)
qed

lemma lock_data [simp]: "st_vaultData (lockWithSession s) = st_vaultData s"
  by (simp add: lockWithSession_def lock_def clearSession_def session_remove_def)

lemma lock_world: "world_ok P s \<Longrightarrow> world_ok P (lockWithSession s)"
  using lock_clean(2) [of s] session_gone [of s]
  by (elim world_cases) (auto simp: world_ok_def session_fits_def dest: unlocked_on_disk)

lemma touch_world: "world_ok P (touchActivity now s) = world_ok P s"
proof -
  have "world_ok P (session_set [(''lastActive'', JNum now)] s) = world_ok P s" by (rule session_world(1)) simp_all
  then show ?thesis by (simp add: touchActivity_def)
qed

lemma idle_world: "world_ok P s \<Longrightarrow> world_ok P (idle_alarm now s)"
  by (simp add: idle_alarm_def lock_world)

text \<open>The laws the invariant rests on, together.\<close>

definition tk_laws :: "prims \<Rightarrow> bool" where
  "tk_laws P \<longleftrightarrow> aead_correct P \<and> aead_key_binding P \<and> kdf_laws P \<and> signature_laws P \<and> envelope_laws P"

text \<open>Unlocking either leaves everything as it was or opens what is on disk.\<close>

lemma unlock_world:
  assumes P: "tk_laws P" and w: "world_ok P s"
  shows "(\<exists>m. unlock P now pw s = (Inl m, s)) \<or> unlock P now pw s = (Inr False, s) \<or>
    (\<exists>v key kdf. unlock P now pw s = (Inr True, opened_as s v key kdf) \<and> on_disk P s v key kdf \<and> session_fits s key kdf)"
proof -
  have "?thesis" if d: "on_disk P s v key kdf" "session_fits s key kdf" for v key kdf
  proof -
    obtain salt where "checkKdf kdf = Inr salt" using d(1) by (auto simp: on_disk_def)
    then obtain key' where key': "deriveVaultKeyBits P pw kdf = Inr key'" by (simp add: deriveVaultKeyBits_def)
    show ?thesis
    proof (cases "key' = key")
      case True
      then show ?thesis using unlock_password [of P s v key kdf pw now] P d key' by (auto simp: tk_laws_def)
    next
      case False
      then show ?thesis using unlock_wrong_password [of P s v key kdf pw key' now] P d key' by (auto simp: tk_laws_def)
    qed
  qed
  moreover have "\<exists>m. unlock P now pw s = (Inl m, s)" if "st_vaultData s = None"
    using that by (simp add: unlock_def stored_vault_def andThen_apply)
  ultimately show ?thesis using w unlocked_on_disk by (elim world_cases) blast+
qed

lemma opened_world:
  assumes "on_disk P s v key kdf"
  shows "world_ok P (persistSession now (opened_as s v key kdf))"
proof -
  have "unlocked_with P (persistSession now (opened_as s v key kdf)) v key kdf"
    using opened_unlocked [OF assms] session_only_ok(1) [OF session_only_ops(3)] by blast
  moreover have "cached (persistSession now (opened_as s v key kdf)) key kdf now"
    by (rule persist_cached) (simp_all add: opened_as_def)
  ultimately show ?thesis
    by (auto intro!: world_unlocked simp: session_fits_def session_holds_def cached_def)
qed

lemma tidy_unlock: "tidy Q (unlock P now pw)"
proof -
  have "tidy Q (\<lambda>s. (opt_res (PlainError ''No vault found'') (stored_vault s), s))" by (rule tidy_state) simp
  then show ?thesis
    unfolding unlock_def by (intro tidy_then tidying) (auto intro: tidying split: js_error.splits)
qed

lemma unlockWithSession_sound:
  assumes P: "tk_laws P"
  shows "sound P (unlockWithSession P now pw)"
proof -
  have "world_ok P (snd (unlockWithSession P now pw s))" if "world_ok P s" for s
    using unlock_world [OF P that, of now pw] that opened_world
    by (auto simp: unlockWithSession_def andThen_apply)
  moreover have "tidy (honest_request P) (unlockWithSession P now pw)"
    unfolding unlockWithSession_def by (intro tidy_then tidying tidy_unlock) simp
  ultimately show ?thesis by (simp add: sound_def)
qed

lemma tidy_refuse_weak [tidying]: "tidy Q (refuse_weak pw)"
  by (rule tidy_page [OF asks_refuse_weak])

lemma setupPassword_sound:
  assumes P: "tk_laws P" and r: "strong_rnd rnd"
  shows "sound P (setupPassword P rnd now pw)"
proof -
  have k: "kdf_laws P" using P by (simp add: tk_laws_def)
  have "world_ok P (snd (setupPassword P rnd now pw s))" if w: "world_ok P s" for s
  proof (cases "st_hasPassword s")
    case True
    then show ?thesis using w by (simp add: setupPassword_twice)
  next
    case False
    show ?thesis
    proof (cases "vaultPasswordProblem pw")
      case None
      then obtain p where p: "pw = JStr p" using password_not_a_string by (cases pw) force+
      obtain t where "setupPassword P rnd now pw s = (Inr (), t)" "unlocked_with P t empty_vault (new_key P rnd p) (newVaultKdf (fst rnd))"
          "cached t (new_key P rnd p) (newVaultKdf (fst rnd)) now"
        using setupPassword_ok [OF k r False] None p by blast
      then show ?thesis by (auto intro!: world_unlocked simp: session_fits_def session_holds_def cached_def)
    qed (use w False in \<open>simp add: setupPassword_weak\<close>)
  qed
  moreover have "tidy (honest_request P) (setupPassword P rnd now pw)"
  proof -
    have "tidy (honest_request P) (\<lambda>s. guards (\<not> st_hasPassword s) (PlainError ''Password already set'') s)"
      by (rule tidy_state) (simp add: guards_def)
    then show ?thesis unfolding setupPassword_def by (intro tidy_then tidying) auto
  qed
  ultimately show ?thesis by (simp add: sound_def)
qed

subsection \<open>Rotating\<close>

text \<open>The id of the key drawn for a rotation is not one the vault already holds.\<close>

definition fresh_key :: "prims \<Rightarrow> bytes \<times> bytes \<Rightarrow> tk_state \<Rightarrow> bool" where
  "fresh_key P d s \<longleftrightarrow> (\<forall>v. st_vault s = Some v \<longrightarrow> (\<forall>a\<in>set (v_accounts v). new_kid P d \<notin> set (account_kids a)))"

lemma put_account_ok: "vault_ok P v \<Longrightarrow> account_ok P a \<Longrightarrow> vault_ok P (put_account a v)"
  using set_replace_first [of "\<lambda>b. acc_id b = acc_id a" a "v_accounts v"]
  by (auto simp: vault_ok_def put_account_def list_all_iff)

lemma replaceActive_sound: "iv \<noteq> [] \<Longrightarrow> account_ok P a \<Longrightarrow> sound P (replaceActive P iv a)"
  unfolding replaceActive_def change_vault_def [symmetric] by (intro sound_change put_account_ok)

lemma active_ok: "vault_ok P v \<Longrightarrow> active_of v = Some a \<Longrightarrow> account_ok P a"
  using active_of_mem [of v a] by (auto simp: vault_ok_def list_all_iff)

lemma pendingRotation_world:
  "world_ok P s \<Longrightarrow> \<not> st_isLocked s \<Longrightarrow> world_ok P (s\<lparr>st_pendingRotation := x\<rparr>)"
  "world_ok P s \<Longrightarrow> world_ok P (s\<lparr>st_pendingRotation := None\<rparr>)"
  by (auto simp: world_ok_def locked_clean_def unlocked_with_def on_disk_def session_fits_def session_holds_def
      no_session_def session_get_def)

text \<open>What Chrome and the random source give while one message is handled.\<close>

definition env_ok :: "prims \<Rightarrow> tk_env \<Rightarrow> bool" where
  "env_ok P E \<longleftrightarrow>
     te_prims E = P \<and> strong_rnd (te_save E) \<and> good_identity_draw P (te_identity E) \<and> good_encryption_draw P (te_encryption E)"

lemma env_facts:
  assumes "env_ok P E"
  shows "te_prims E = P" "strong_rnd (te_save E)" "snd (te_save E) \<noteq> []"
  using assms by (simp_all add: env_ok_def strong_rnd_def)

lemma tidy_activeAccount_case [tidying]:
  "tidy Q m \<Longrightarrow> (\<And>a. tidy Q (f a)) \<Longrightarrow> tidy Q (case x of None \<Rightarrow> m | Some a \<Rightarrow> f a)"
  by (simp split: option.splits)

lemma tidy_if_else [tidying]: "tidy Q m \<Longrightarrow> tidy Q n \<Longrightarrow> tidy Q (if b then m else n)"
  by simp

lemma tidy_replaceActive [tidying]: "tidy Q (replaceActive P iv a)"
  unfolding replaceActive_def by (intro tidy_then tidying)

lemma tidy_approve_rotate: "tidy Q (approve_rotate E og aid ts)"
  unfolding approve_rotate_def Let_def by (intro tidy_then tidying) simp_all

text \<open>An approved rotation: refused because the active account changed, failed before it changed
  anything, or done, saved and remembered for its undoing.\<close>

lemma approve_rotate_cases:
  assumes P: "tk_laws P" and E: "env_ok P E" and s: "unlocked_with P s v key kdf" and f: "fresh_key P (te_encryption E) s"
  obtains (refused) r where "approve_rotate E og aid ts s = (r, s)"
  | (rotated) a b r where "active_of v = Some a" "acc_id a = aid" "account_ok P b"
      "rotateAccountEncryptionKey P (te_now E) (te_encryption E) (account_js a) ts = Inr b"
      "approve_rotate E og aid ts s = (r, (saved P (snd (te_save E)) s (put_account b v) key kdf)\<lparr>st_pendingRotation :=
         Some \<lparr>pn_origin = og, pn_newKid = ek_kid (acc_encryption b), pn_at = te_now E\<rparr>\<rparr>)"
proof -
  note uf = unlocked_facts [OF s]
  have act: "activeAccount s = (Inr (active_of v), s)" using uf by (simp add: activeAccount_def andThen_apply)
  show thesis
  proof (cases "active_of v")
    case None
    then show thesis using refused act by (simp add: approve_rotate_def Let_def andThen_apply)
  next
    case (Some a)
    have a: "account_ok P a" "a \<in> set (v_accounts v)" using active_ok [OF uf(5) Some] active_of_mem [OF Some] by auto
    show thesis
    proof (cases "acc_id a = aid")
      case False
      then show thesis using refused act Some by (simp add: approve_rotate_def Let_def andThen_apply)
    next
      case True
      show thesis
      proof (cases "rotateAccountEncryptionKey P (te_now E) (te_encryption E) (account_js a) ts")
        case (Inl e)
        then show thesis using refused act Some True env_facts(1) [OF E] by (simp add: approve_rotate_def Let_def andThen_apply)
      next
        case (Inr b)
        have "new_kid P (te_encryption E) \<notin> set (account_kids a)" using f uf(1) a(2) by (simp add: fresh_key_def)
        then have b: "account_ok P b"
          using rotated_ok [OF _ _ a(1) _ Inr] P E by (simp add: tk_laws_def env_ok_def)
        let ?w = "put_account b v"
        note save = set_and_save [OF s put_account_ok [OF uf(5) b] env_facts(3) [OF E]]
        have rep: "replaceActive P (snd (te_save E)) b s = (Inr (), saved P (snd (te_save E)) s ?w key kdf)"
          using uf save(1) by (simp add: replaceActive_def andThen_apply)
        let ?u = "(saved P (snd (te_save E)) s ?w key kdf)\<lparr>st_pendingRotation :=
           Some \<lparr>pn_origin = og, pn_newKid = ek_kid (acc_encryption b), pn_at = te_now E\<rparr>\<rparr>"
        have "snd (approve_rotate E og aid ts s) = ?u"
          using act Some True Inr env_facts(1) [OF E] rep
          by (simp add: approve_rotate_def Let_def andThen_apply split: sum.splits)
        then have "approve_rotate E og aid ts s = (fst (approve_rotate E og aid ts s), ?u)" by (metis prod.collapse)
        then show thesis using rotated Some True b Inr by blast
      qed
    qed
  qed
qed

lemma approve_rotate_world:
  assumes P: "tk_laws P" and E: "env_ok P E" and w: "world_ok P s" and f: "fresh_key P (te_encryption E) s"
  shows "world_ok P (snd (approve_rotate E og aid ts s))"
  using w
proof (cases rule: world_cases)
  case (unlocked v key kdf)
  show ?thesis
  proof (cases rule: approve_rotate_cases [OF P E unlocked(1) f, of og aid ts])
    case (1 r)
    then show ?thesis using w by simp
  next
    case rotated: (2 a b r)
    have "vault_ok P (put_account b v)" using put_account_ok [OF unlocked_facts(5) [OF unlocked(1)] rotated(3)] .
    note save = set_and_save(2) [OF unlocked(1) this env_facts(3) [OF E]]
    have "world_ok P (saved P (snd (te_save E)) s (put_account b v) key kdf)"
      using world_unlocked [OF save] unlocked(2) by simp
    then show ?thesis
      using rotated(5) pendingRotation_world(1) unlocked_facts(2) [OF save] by simp
  qed
qed (use w in \<open>auto simp: approve_rotate_def Let_def activeAccount_def andThen_apply the_vault_def locked_clean_def\<close>)

lemma with_active_asks: "asks_only Q (with_active f)"
  unfolding with_active_def by (intro asks_then asking) (auto intro: asking split: option.splits)

lemma approve_sign_asks: "asks_only Q (approve_sign E body)"
  unfolding approve_sign_def by (intro asks_then asking) (auto intro: asking split: option.splits)

lemmas approve_defs = approve_decrypt_def approve_unwrap_def approve_decrypt_many_def approve_unwrap_many_def

lemma approve_basic_sound:
  assumes E: "env_ok P E"
  shows "sound P (approve_connect (te_prims E) (snd (te_save E)) og)" "sound P (with_active h)" "sound P (approve_sign E body)"
  using approve_connect_sound env_facts [OF E] by (simp_all add: sound_page with_active_asks approve_sign_asks)

lemma run_action_world:
  assumes P: "tk_laws P" and E: "env_ok P E" and w: "world_ok P s" and f: "fresh_key P (te_encryption E) s"
  shows "world_ok P (snd (run_action E act s))"
  using approve_basic_sound [OF E] w approve_rotate_world [OF P E w f]
  by (cases act) (simp_all add: sound_def approve_defs)

lemma run_action_tidy:
  assumes E: "env_ok P E"
  shows "tidy (honest_request P) (run_action E act)"
  using approve_basic_sound [OF E] tidy_approve_rotate by (cases act) (simp_all add: sound_def approve_defs)

text \<open>Undoing and destroying edit the active account in place.\<close>

definition edit_active :: "prims \<Rightarrow> bytes \<Rightarrow> (account \<Rightarrow> account res) \<Rightarrow> jsval tk" where
  "edit_active P iv f =
     andThen requireActiveAccount (\<lambda>a. andThen (lift_res (f a)) (\<lambda>b.
     andThen (replaceActive P iv b) (\<lambda>_. ret (ok_reply []))))"

lemma edit_active_ok:
  assumes s: "unlocked_with P s v key kdf" and iv: "iv \<noteq> []" and a: "active_of v = Some a" and b: "f a = Inr b" "account_ok P b"
  shows "edit_active P iv f s = (Inr (ok_reply []), saved P iv s (put_account b v) key kdf)"
    and "unlocked_with P (saved P iv s (put_account b v) key kdf) (put_account b v) key kdf"
  using unlocked_facts [OF s] set_and_save [OF s put_account_ok [OF _ b(2)] iv, of v] a b(1)
  by (simp_all add: edit_active_def replaceActive_def requireActiveAccount_def activeAccount_def andThen_apply)

lemma edit_active_sound:
  assumes iv: "iv \<noteq> []" and f: "\<And>a b. account_ok P a \<Longrightarrow> f a = Inr b \<Longrightarrow> account_ok P b"
  shows "sound P (edit_active P iv f)"
proof -
  have "world_ok P (snd (edit_active P iv f s))" if w: "world_ok P s" for s
    using w
  proof (cases rule: world_cases)
    case (unlocked v key kdf)
    note uf = unlocked_facts [OF unlocked(1)]
    have nothing: "edit_active P iv f s = (r, s) \<Longrightarrow> ?thesis" for r using w by simp
    show ?thesis
    proof (cases "active_of v")
      case None
      then show ?thesis
        using uf w by (simp add: edit_active_def requireActiveAccount_def activeAccount_def andThen_apply)
    next
      case (Some a)
      show ?thesis
      proof (cases "f a")
        case (Inl e)
        then show ?thesis
          using Some uf w by (simp add: edit_active_def requireActiveAccount_def activeAccount_def andThen_apply)
      next
        case (Inr b)
        have "account_ok P b" using f active_ok [OF uf(5) Some] Inr by blast
        then show ?thesis
          using edit_active_ok [of P s v key kdf, OF unlocked(1) iv Some, of f b] Inr unlocked(2) world_unlocked by auto
      qed
    qed
  qed (use w in \<open>auto simp: edit_active_def requireActiveAccount_def activeAccount_def andThen_apply the_vault_def locked_clean_def\<close>)
  moreover have "tidy (honest_request P) (edit_active P iv f)" unfolding edit_active_def by (intro tidy_then tidying)
  ultimately show ?thesis by (simp add: sound_def)
qed

lemma revert_sound:
  assumes E: "env_ok P E"
  shows "sound P (handleRevertEncryptionKeyRotation E og request)"
proof -
  let ?k = "js_str (js_get request ''newKid'')"
  have "sound P (updates (\<lambda>s. s\<lparr>st_pendingRotation := None\<rparr>))" by (rule sound_updates) (simp_all add: pendingRotation_world)
  moreover have "sound P (\<lambda>s. guards (b s) e s)" for b e by (rule sound_state) (simp add: guards_def)
  moreover have "sound P (edit_active P (snd (te_save E)) (\<lambda>a. revertAccountEncryptionKeyRotation P (te_now E) (account_js a) ?k (te_now E)))"
    using env_facts(3) [OF E] revert_account_ok(1) by (intro edit_active_sound)
  ultimately show ?thesis
    unfolding handleRevertEncryptionKeyRotation_def Let_def env_facts(1) [OF E] edit_active_def [symmetric]
    by (intro sound_then sound_basic(6))
qed

lemma destroy_sound:
  assumes E: "env_ok P E"
  shows "sound P (handleDestroyRetiredEncryptionKey E request)"
  unfolding handleDestroyRetiredEncryptionKey_def Let_def env_facts(1) [OF E] edit_active_def [symmetric]
  using env_facts(3) [OF E] destroy_account_ok(1)
  by (intro sound_then keeping edit_active_sound) (auto split: option.splits)

subsection \<open>Answering an approval\<close>

lemma settle_world:
  assumes "world_ok P s" "fresh_key P d s"
  shows "world_ok P (snd (settle rid how s))" "fresh_key P d (snd (settle rid how s))"
  using assms settle_core [of s rid how] by (simp_all add: world_core same_core_fields fresh_key_def)

lemma run_settlement_state:
  "snd (run_settlement E x s) = (case x of Refuse rq m \<Rightarrow> s | Approve rq \<Rightarrow> snd (run_action E (rq_action rq) s))"
  by (cases x) (auto simp: run_settlement_def split: prod.splits sum.splits)

lemma run_settlement_world:
  assumes "tk_laws P" "env_ok P E" "world_ok P s" "fresh_key P (te_encryption E) s"
  shows "world_ok P (snd (run_settlement E x s))"
  using run_action_world [OF assms] assms(3) by (cases x) (simp_all add: run_settlement_state)

lemma run_settlement_tidy:
  assumes "env_ok P E"
  shows "queue_ok s \<Longrightarrow> queue_ok (snd (run_settlement E x s))"
    "y \<in> set (st_pending (snd (run_settlement E x s))) \<Longrightarrow> y \<in> set (st_pending s) \<or> honest_request P (snd y)"
  using run_action_tidy [OF assms] by (cases x; simp add: run_settlement_state tidy_def)+

lemma resolve_state:
  "snd (resolve_request E requestId approved s) =
     (case the_str requestId of
        None \<Rightarrow> s
      | Some rid \<Rightarrow>
          (case settle rid (\<lambda>rq. if truthy approved then Approve rq else Refuse rq ''Rejected'') s of
             (None, t) \<Rightarrow> t
           | (Some x, t) \<Rightarrow> snd (run_settlement E x t)))"
  by (auto simp: resolve_request_def settleApproval_def split: option.splits prod.splits)

lemma resolve_world:
  assumes P: "tk_laws P" "env_ok P E" and w: "world_ok P s" "fresh_key P (te_encryption E) s"
  shows "world_ok P (snd (resolve_request E requestId approved s))"
proof (cases "the_str requestId")
  case (Some rid)
  let ?how = "\<lambda>rq. if truthy approved then Approve rq else Refuse rq ''Rejected''"
  obtain x t where xt: "settle rid ?how s = (x, t)" by (cases "settle rid ?how s")
  have "world_ok P t" "fresh_key P (te_encryption E) t" using settle_world [OF w, of rid ?how] xt by auto
  then show ?thesis using run_settlement_world [OF P] xt Some by (auto simp: resolve_state split: option.splits)
qed (simp add: resolve_state w)

lemma resolve_tidy:
  assumes E: "env_ok P E"
  shows "tidy (honest_request P) (resolve_request E requestId approved)"
proof -
  have "(queue_ok s \<longrightarrow> queue_ok (snd (resolve_request E requestId approved s))) \<and>
      (\<forall>y\<in>set (st_pending (snd (resolve_request E requestId approved s))). y \<in> set (st_pending s) \<or> honest_request P (snd y))" for s
  proof (cases "the_str requestId")
    case (Some rid)
    let ?how = "\<lambda>rq. if truthy approved then Approve rq else Refuse rq ''Rejected''"
    obtain x t where xt: "settle rid ?how s = (x, t)" by (cases "settle rid ?how s")
    have t: "queue_ok s \<Longrightarrow> queue_ok t" "set (st_pending t) \<subseteq> set (st_pending s)"
      using queue_ok_settle [of s rid ?how] settle_pending [of rid ?how s] xt by auto
    show ?thesis
    proof (cases x)
      case None
      then show ?thesis using t xt Some by (auto simp: resolve_state)
    next
      case (Some y)
      then show ?thesis
        using t xt \<open>the_str requestId = Some rid\<close> run_settlement_tidy(1) [OF E, of t y] run_settlement_tidy(2) [OF E, of _ y t]
        by (simp add: resolve_state) blast
    qed
  qed (simp add: resolve_state)
  then show ?thesis by (simp add: tidy_def)
qed

subsection \<open>The table\<close>

lemma plain_sound: "sound P m \<Longrightarrow> sound P (plain m)" "sound P n \<Longrightarrow> sound P (done_reply n)"
  by (simp_all add: plain_def done_reply_def sound_then keeping)

lemma reads_sound: "sound P (plain (reads g))"
  by (intro plain_sound keeping)

lemma arg_sound [keeping]: "sound P (site_arg v)" "sound P (name_arg v)"
  by (auto simp: site_arg_def name_arg_def intro: keeping)

lemma setup_password_sound: "tk_laws P \<Longrightarrow> env_ok P E \<Longrightarrow> sound P (setup_password E pw)"
  unfolding setup_password_def using env_facts [of P E]
  by (intro sound_then keeping) (simp_all add: setupPassword_sound unlockWithSession_sound)

lemma unlock_message_sound: "tk_laws P \<Longrightarrow> env_ok P E \<Longrightarrow> sound P (unlock_message E pw)"
  unfolding unlock_message_def using env_facts [of P E]
  by (intro sound_then keeping) (simp_all add: unlockWithSession_sound sync_sound)

lemma create_sound:
  assumes "tk_laws P" "env_ok P E"
  shows "sound P (plain (andThen (name_arg n) (\<lambda>name. andThen (createAccount (te_prims E) (te_identity E, te_encryption E) (snd (te_save E)) (te_now E) name)
    (\<lambda>a. ret (ok_reply [(''account'', a)])))))"
  using assms env_facts [OF assms(2)]
  by (intro plain_sound sound_then keeping) (auto intro!: createAccount_sound simp: tk_laws_def env_ok_def)

definition pure_or_absent :: "jsval \<Rightarrow> bool" where
  "pure_or_absent v \<longleftrightarrow> v = JUndef \<or> js_pure v"

lemma field_pure: "js_pure r \<Longrightarrow> pure_or_absent (js_get r k)"
  by (cases r) (auto simp: pure_or_absent_def split: option.splits dest!: map_of_SomeD)

lemma internal_sound:
  assumes P: "tk_laws P" and E: "env_ok P E"
  shows "sound P (plain (andThen (site_arg v) (handleAddTrustedSite (te_urls E) (te_prims E) (snd (te_save E)))))"
    "sound P (plain (andThen (site_arg v) (handleRemoveTrustedSite (te_urls E) (te_prims E) (snd (te_save E)))))"
    "sound P (plain (andThen (site_arg v) (\<lambda>og. handleSetSiteAutoSign (te_prims E) (snd (te_save E)) og b)))"
    "sound P (plain (handleExpectSiteGrant (te_urls E) (te_tab E) (te_now E)))"
    "sound P (plain (handleAuthorizeCurrentTab (te_urls E) (te_prims E) (snd (te_save E)) (te_tab E)))"
    "sound P (plain (andThen getAccounts (\<lambda>rows. ret (ok_reply [(''accounts'', JArr rows)]))))"
    "pure_or_absent x \<Longrightarrow> sound P (done_reply (setActiveAccount (te_prims E) (snd (te_save E)) x))"
    "sound P (done_reply (deleteAccount (te_prims E) (snd (te_save E)) v))"
    "sound P (plain (andThen (exportActiveAccount (te_prims E) v) (\<lambda>a. ret (ok_reply [(''accounts'', JArr [account_js a])]))))"
    "sound P (plain (andThen (exportEncryptedVault (te_prims E) (te_save E) v w) (\<lambda>b. ret (ok_reply [(''blob'', JStr b)]))))"
    "sound P (plain (import_keys E r))" "sound P (plain (setup_password E v))" "sound P (plain (unlock_message E v))"
    "sound P (plain (handleDestroyRetiredEncryptionKey E r))" "sound P (done_reply (updates lockWithSession))"
    "sound P (plain get_status)" "sound P (plain (get_pending v))"
    "sound P (plain (handleRevertEncryptionKeyRotation E og r))"
proof -
  note e = env_facts [OF E]
  note k = plain_sound sound_then keeping
  show "sound P (plain (andThen (site_arg v) (handleAddTrustedSite (te_urls E) (te_prims E) (snd (te_save E)))))"
    "sound P (plain (andThen (site_arg v) (handleRemoveTrustedSite (te_urls E) (te_prims E) (snd (te_save E)))))"
    "sound P (plain (andThen (site_arg v) (\<lambda>og. handleSetSiteAutoSign (te_prims E) (snd (te_save E)) og b)))"
    "sound P (plain (handleExpectSiteGrant (te_urls E) (te_tab E) (te_now E)))"
    "sound P (plain (handleAuthorizeCurrentTab (te_urls E) (te_prims E) (snd (te_save E)) (te_tab E)))"
    unfolding e(1) using e(3)
    by (intro k addSite_sound removeSite_sound autosign_sound expectGrant_sound authorizeTab_sound; assumption)+
  show "sound P (plain (andThen getAccounts (\<lambda>rows. ret (ok_reply [(''accounts'', JArr rows)]))))"
    "sound P (done_reply (deleteAccount (te_prims E) (snd (te_save E)) v))"
    "sound P (plain (andThen (exportActiveAccount (te_prims E) v) (\<lambda>a. ret (ok_reply [(''accounts'', JArr [account_js a])]))))"
    "sound P (plain (andThen (exportEncryptedVault (te_prims E) (te_save E) v w) (\<lambda>b. ret (ok_reply [(''blob'', JStr b)]))))"
    unfolding e(1) using e(3) by (intro k deleteAccount_sound; assumption)+
  show "pure_or_absent x \<Longrightarrow> sound P (done_reply (setActiveAccount (te_prims E) (snd (te_save E)) x))"
    unfolding e(1) using e(3) by (intro k setActiveAccount_sound) (simp_all add: pure_or_absent_def)
  show "sound P (plain (import_keys E r))"
    using P e by (intro plain_sound import_keys_sound) (simp_all add: tk_laws_def)
  show "sound P (plain (setup_password E v))" "sound P (plain (unlock_message E v))"
    using P E by (simp_all add: plain_sound setup_password_sound unlock_message_sound)
  show "sound P (plain (handleDestroyRetiredEncryptionKey E r))" "sound P (plain (handleRevertEncryptionKeyRotation E og r))"
    using E by (simp_all add: plain_sound destroy_sound revert_sound)
  show "sound P (done_reply (updates lockWithSession))"
    by (intro plain_sound sound_updates lock_world) (simp_all add: pending_of_ops)
  show "sound P (plain get_status)" "sound P (plain (get_pending v))"
    unfolding get_status_def get_pending_def by (rule reads_sound)+
qed

lemmas page_sound =
  page_handlers(1-6,7-10,11,12) [THEN plain_asks(2), THEN sound_page]
  page_handlers(14-18) [THEN plain_asks(1), THEN sound_page]
  active_view_asks [THEN plain_asks(1), THEN sound_page]
  asks_handshake [THEN sound_page]

lemma table_sound:
  assumes P: "tk_laws P" and E: "env_ok P E" and c: "js_pure (cx_request c)"
  shows "list_all (\<lambda>(name, e). name = ''RESOLVE_REQUEST'' \<or> sound P (en_fn e E c)) HANDLERS"
proof -
  have p: "P = te_prims E" using env_facts(1) [OF E] by simp
  have f: "pure_or_absent (field c k)" for k using field_pure [OF c] by (simp add: field_def)
  note i = internal_sound [OF P E, unfolded p] create_sound [OF P E, unfolded p]
  show ?thesis
    unfolding p HANDLERS_def handler_def list.pred_inject prod.case entry.simps
    by (simp add: i f page_sound reads_sound)
qed

lemma table_entry:
  assumes "tk_laws P" "env_ok P E" "js_pure (cx_request c)" "map_of HANDLERS name = Some e" "name \<noteq> ''RESOLVE_REQUEST''"
  shows "sound P (en_fn e E c)"
  using table_sound [OF assms(1-3)] table_lookup [OF assms(4)] assms(5) unfolding list_all_iff by blast

lemma run_entry_sound:
  assumes "\<And>c. cx_request c = request \<Longrightarrow> sound P (en_fn e E c)"
  shows "sound P (run_entry E sn request b e)"
  using assms by (auto simp: run_entry_def intro: keeping split: option.splits)

lemma resolve_entry:
  "map_of HANDLERS ''RESOLVE_REQUEST'' =
     Some (internal_only (\<lambda>E c. resolve_request E (field c ''requestId'') (field c ''approved'')))"
  by (simp add: HANDLERS_def)

lemma look_up_resolve:
  "look_up request ''RESOLVE_REQUEST'' E sn b =
     (if b then resolve_request E (js_get request ''requestId'') (js_get request ''approved'')
      else fail (PlainError ''Unauthorized: Internal use only''))"
  by (simp add: look_up_def resolve_entry run_entry_def handler_def resolve_origin_def field_def)

lemma look_up_world:
  assumes P: "tk_laws P" and E: "env_ok P E" and r: "js_pure request" and w: "world_ok P s" "fresh_key P (te_encryption E) s"
  shows "world_ok P (snd (look_up request name E sn b s))" and "tidy (honest_request P) (look_up request name E sn b)"
proof -
  have *: "sound P (look_up request name E sn b)" if "name \<noteq> ''RESOLVE_REQUEST''"
    using table_entry [OF P E _ _ that] r
    by (auto simp: look_up_def intro!: keeping run_entry_sound split: option.splits)
  have "world_ok P (snd (look_up request name E sn b s)) \<and> tidy (honest_request P) (look_up request name E sn b)"
  proof (cases "name = ''RESOLVE_REQUEST''")
    case True
    then show ?thesis
      using resolve_world [OF P E w] resolve_tidy [OF E] w(1) by (simp add: look_up_resolve tidy_basic)
  qed (use * w(1) in \<open>simp add: sound_def\<close>)
  then show "world_ok P (snd (look_up request name E sn b s))" "tidy (honest_request P) (look_up request name E sn b)" by auto
qed

lemma touch_fields: "fresh_key P d (touchActivity now s) = fresh_key P d s"
  by (simp add: fresh_key_def touchActivity_def session_set_def)

lemma dispatch_world:
  assumes P: "tk_laws P" and E: "env_ok P E" and r: "js_pure request" and w: "world_ok P s" "fresh_key P (te_encryption E) s"
  shows "world_ok P (snd (dispatch E sn request s))"
proof -
  let ?s = "if isInternalSender E sn then touchActivity (te_now E) s else s"
  have "world_ok P ?s" "fresh_key P (te_encryption E) ?s" using w by (simp_all add: touch_world touch_fields)
  then show ?thesis
    using look_up_world(1) [OF P E r] by (auto simp: dispatch_state handle_message_def Let_def andThen_apply)
qed

lemma dispatch_queue:
  assumes P: "tk_laws P" and E: "env_ok P E" and r: "js_pure request"
  shows "tidy (honest_request P) (handle_message E sn request)"
proof -
  have "tidy (honest_request P) (look_up request name E sn b)" for name b
  proof (cases "name = ''RESOLVE_REQUEST''")
    case True
    then show ?thesis using resolve_tidy [OF E] by (simp add: look_up_resolve tidy_basic)
  next
    case False
    then have "sound P (look_up request name E sn b)"
      using table_entry [OF P E _ _ False] r
      by (auto simp: look_up_def intro!: keeping run_entry_sound split: option.splits)
    then show ?thesis by (simp add: sound_def)
  qed
  then show ?thesis
    unfolding handle_message_def Let_def by (intro tidy_then tidying) (simp_all add: pending_of_ops tidy_basic)
qed

subsection \<open>Every event\<close>

lemma clear_world: "world_ok P s \<Longrightarrow> world_ok P (clearSession s)"
proof -
  have n: "no_session (clearSession s)"
    using cleared_gone [of s] by (simp add: no_session_def)
  have eq: "locked_clean (clearSession s) = locked_clean s" "unlocked_with P (clearSession s) v key kdf = unlocked_with P s v key kdf"
    for v key kdf
    using session_only_ok [OF session_only_ops(4)] by blast+
  have d: "on_disk P (clearSession s) v key kdf = on_disk P s v key kdf" "st_vaultData (clearSession s) = st_vaultData s" for v key kdf
    by (simp_all add: on_disk_def clearSession_def session_remove_def)
  assume "world_ok P s"
  then show ?thesis unfolding world_ok_def eq d using n session_fits_def by blast
qed

lemma restore_world:
  assumes P: "tk_laws P" and w: "world_ok P s"
  shows "world_ok P (snd (restoreSession P now s))"
proof -
  have c: "world_ok P (clearSession s)" by (rule clear_world [OF w])
  consider "readSession now s = (None, s)" | "readSession now s = (None, clearSession s)"
    | kb kdf where "readSession now s = (Some (kb, kdf), s)" "\<not> no_session s" "fromHex (session_get ''vaultKeyHex'' s) = Inr kb"
        "session_get ''vaultKdf'' s = kdf"
  proof -
    have r: "no_session s \<Longrightarrow> readSession now s = (None, s)"
      "\<not> no_session s \<Longrightarrow> isExpired (session_get ''lastActive'' s) now \<Longrightarrow> readSession now s = (None, clearSession s)"
      "\<not> no_session s \<Longrightarrow> \<not> isExpired (session_get ''lastActive'' s) now \<Longrightarrow> fromHex (session_get ''vaultKeyHex'' s) = Inl e \<Longrightarrow>
         readSession now s = (None, s)"
      "\<not> no_session s \<Longrightarrow> \<not> isExpired (session_get ''lastActive'' s) now \<Longrightarrow> fromHex (session_get ''vaultKeyHex'' s) = Inr kb \<Longrightarrow>
         readSession now s = (Some (kb, session_get ''vaultKdf'' s), s)" for e kb
      by (simp_all add: readSession_def no_session_def)
    show thesis
    proof (cases "fromHex (session_get ''vaultKeyHex'' s)")
      case (Inl e)
      then show thesis using r(1-3) that(1,2) by blast
    next
      case (Inr kb)
      then show thesis using r(1,2,4) that by blast
    qed
  qed
  then show ?thesis
  proof cases
    case (3 kb kdf)
    have *: ?thesis if d: "on_disk P s v key k" "session_fits s key k" for v key k
    proof -
      obtain blob where b: "st_vaultData s = Some blob" "sealed_as P blob v key k" "vault_ok P v" "length key = 32"
        using d(1) by (auto simp: on_disk_def)
      have h: "session_holds s key k" using d(2) 3(2) by (simp add: session_fits_def)
      have "key \<noteq> []" using b(4) by auto
      then have "kb = key" "kdf = k" using h 3(3,4) fromHex_toHex [of key] by (simp_all add: session_holds_def)
      then have "restoreSession P now s = (Inr True, opened_as s v key k)"
        using 3(1) sealed_stored [OF b(1,2)] openVault_sealed [OF _ b(3,2,4), of now k s] P
        by (simp add: restoreSession_def andThen_apply catches_def opened_as_def tk_laws_def)
      moreover have "session_fits (opened_as s v key k) key k"
        using d(2) by (simp add: session_fits_def session_holds_def no_session_def session_get_def opened_as_def)
      ultimately show ?thesis using world_unlocked [OF opened_unlocked [OF d(1)]] by simp
    qed
    show ?thesis
      using w * unlocked_on_disk 3(2) by (elim world_cases) blast+
  qed (use w c in \<open>simp_all add: restoreSession_def\<close>)
qed

text \<open>A worker started again, before it looks for a session.\<close>

definition restarted :: "tk_state \<Rightarrow> tk_state" where
  "restarted s =
     (initial_state (st_vaultData s) (st_session s) (st_hostPermissions s) (st_scripts s))\<lparr>st_hasPassword := stored_vault s \<noteq> None\<rparr>"

lemma restarted_world: "world_ok P s \<Longrightarrow> world_ok P (restarted s)"
proof -
  have l: "locked_clean (restarted s)" by (simp add: restarted_def initial_state_def locked_clean_def)
  have eq: "on_disk P (restarted s) v key kdf = on_disk P s v key kdf" "session_fits (restarted s) key kdf = session_fits s key kdf"
    "no_session (restarted s) = no_session s" "st_vaultData (restarted s) = st_vaultData s" for v key kdf
    by (simp_all add: restarted_def initial_state_def on_disk_def session_fits_def session_holds_def no_session_def session_get_def)
  assume "world_ok P s"
  then show ?thesis
  proof (cases rule: world_cases)
    case empty
    then show ?thesis using l eq by (simp add: world_ok_def)
  next
    case (locked v key kdf)
    then show ?thesis using world_locked [OF l] eq by blast
  next
    case (unlocked v key kdf)
    then show ?thesis using world_locked [OF l] eq unlocked_on_disk [OF unlocked(1)] by blast
  qed
qed

lemma restart_eq:
  "restart E s =
     (case restoreSession (te_prims E) (te_now E) (restarted s) of
        (Inr True, t) \<Rightarrow> snd (syncDynamicScripts (te_urls E) (te_prims E) (snd (te_save E)) t)
      | (_, t) \<Rightarrow> t)"
  by (simp add: restart_def restarted_def Let_def)

lemma restart_world:
  assumes P: "tk_laws P" and E: "env_ok P E" and w: "world_ok P s"
  shows "world_ok P (restart E s)"
proof -
  have r: "world_ok P (snd (restoreSession P (te_now E) (restarted s)))"
    by (rule restore_world [OF P restarted_world [OF w]])
  then show ?thesis
    using sync_sound [OF env_facts(3) [OF E], of P "te_urls E"]
    by (auto simp: restart_eq env_facts(1) [OF E] sound_def split: prod.splits sum.splits bool.splits)
qed

lemma restart_queue: "st_pending (restart E s) = []"
proof -
  have o: "st_pending (snd (openVault P now d kb kdf u)) = st_pending u" for P now d kb kdf u
    by (auto simp: openVault_def andThen_def split: prod.splits sum.splits)
  have "st_pending (snd (restoreSession P now u)) = st_pending u" for P now u
    using o [of P now]
    by (auto simp: restoreSession_def catches_def andThen_def readSession_def pending_of_ops
        split: prod.splits sum.splits option.splits if_splits) (metis snd_conv pending_of_ops(4))+
  then have "st_pending (snd (restoreSession P now (restarted s))) = []" for P now
    by (simp add: restarted_def initial_state_def)
  then show ?thesis
    using sync_pending by (auto simp: restart_eq split: prod.splits sum.splits bool.splits) (metis snd_conv)+
qed

subsection \<open>The extension as a machine\<close>

definition queue_honest :: "prims \<Rightarrow> tk_state \<Rightarrow> bool" where
  "queue_honest P s \<longleftrightarrow> (\<forall>x\<in>set (st_pending s). honest_request P (snd x))"

definition extension_ok :: "prims \<Rightarrow> tk_state \<Rightarrow> bool" where
  "extension_ok P s \<longleftrightarrow> world_ok P s \<and> queue_ok s \<and> queue_honest P s"

fun event_ok :: "tk_event \<Rightarrow> bool" where
  "event_ok (Message sn request) = js_pure request"
| "event_ok _ = True"

text \<open>An event whose draws could not have been drawn, or whose key id repeats one in the vault, is
  none of the machine's.\<close>

definition extension_step :: "prims \<Rightarrow> tk_env \<times> tk_event \<Rightarrow> tk_state \<Rightarrow> tk_state" where
  "extension_step P x s =
     (if env_ok P (fst x) \<and> fresh_key P (te_encryption (fst x)) s \<and> event_ok (snd x)
      then snd (handle_event (fst x) (snd x) s) else s)"

lemma tidy_ok:
  assumes "tidy (honest_request P) m" "queue_ok s" "queue_honest P s"
  shows "queue_ok (snd (m s))" "queue_honest P (snd (m s))"
  using assms by (auto simp: tidy_def queue_honest_def)

lemma settled_ok:
  "extension_ok P s \<Longrightarrow> extension_ok P (snd (settle rid how s))"
proof -
  assume s: "extension_ok P s"
  have "set (st_pending (snd (settle rid how s))) \<subseteq> set (st_pending s)" by (rule settle_pending)
  then show ?thesis
    using s settle_core [of s rid how] queue_ok_settle [of s rid how]
    by (auto simp: extension_ok_def world_core queue_honest_def)
qed

lemma closed_ok: "extension_ok P s \<Longrightarrow> extension_ok P (snd (handleWindowClosed wid s))"
proof -
  assume s: "extension_ok P s"
  have "same_core s (snd (handleWindowClosed wid s))"
    by (auto simp: handleWindowClosed_def rejectAllApprovals_def Let_def same_core_def core_of_def)
  moreover have "st_pending (snd (handleWindowClosed wid s)) = st_pending s \<or> st_pending (snd (handleWindowClosed wid s)) = []"
    by (auto simp: handleWindowClosed_def rejectAllApprovals_def Let_def)
  ultimately show ?thesis
    using s queue_ok_pending
    by (auto simp: extension_ok_def world_core queue_honest_def queue_ok_def pendingForOrigin_def)
qed

lemma extension_step_ok:
  assumes P: "tk_laws P" and s: "extension_ok P s"
  shows "extension_ok P (extension_step P x s)"
proof -
  obtain E ev where x: "x = (E, ev)" by (cases x)
  have w: "world_ok P s" "queue_ok s" "queue_honest P s" using s by (simp_all add: extension_ok_def)
  have "extension_ok P (snd (handle_event E ev s))" if E: "env_ok P E" "fresh_key P (te_encryption E) s" "event_ok ev"
  proof (cases ev)
    case (Message sn request)
    then have r: "js_pure request" using E(3) by simp
    show ?thesis
      using dispatch_world [OF P E(1) r w(1) E(2)] tidy_ok [OF dispatch_queue [OF P E(1) r] w(2,3)] Message
      by (simp add: extension_ok_def dispatch_state)
  next
    case (Approval_timeout rid)
    then show ?thesis
      using settled_ok [OF s, of rid] by (auto simp: approval_timeout_def split: prod.splits option.splits) (metis snd_conv)+
  next
    case (Window_removed wid)
    then show ?thesis using closed_ok [OF s, of wid] by (auto split: prod.splits)
  next
    case (Permissions_added granted)
    let ?m = "handlePermissionsAdded (te_urls E) P (snd (te_save E)) (te_now E) granted"
    have m: "sound P ?m" using permissionsAdded_sound env_facts(3) [OF E(1)] by blast
    then have "world_ok P (snd (?m s))" using w(1) by (simp add: sound_def)
    moreover have "queue_ok (snd (?m s))" "queue_honest P (snd (?m s))"
      using m w(2,3) tidy_ok [of P ?m s] by (simp_all add: sound_def)
    ultimately show ?thesis
      using Permissions_added env_facts(1) [OF E(1)] by (simp add: extension_ok_def)
  next
    case Idle_alarm
    have p: "st_pending (idle_alarm (te_now E) s) = st_pending s" by (simp add: idle_alarm_def pending_of_ops)
    show ?thesis
      using w idle_world [OF w(1)] Idle_alarm p queue_ok_pending [OF p] by (simp add: extension_ok_def queue_honest_def)
  next
    case Worker_restart
    then show ?thesis
      using restart_world [OF P E(1) w(1)] restart_queue [of E s]
      by (simp add: extension_ok_def queue_honest_def queue_ok_def pendingForOrigin_def)
  qed
  then show ?thesis using s by (simp add: x extension_step_def)
qed

interpretation extension: guarded_machine "extension_step P" "\<lambda>s. tk_laws P \<longrightarrow> extension_ok P s" for P
  by unfold_locales (simp add: extension_step_ok)

text \<open>A fresh installation is where every run starts.\<close>

lemma fresh_install_ok: "extension_ok P (initial_state None [] hosts scripts)"
  by (simp add: extension_ok_def world_ok_def initial_state_def locked_clean_def no_session_def session_get_def
      queue_ok_def pendingForOrigin_def queue_honest_def)

lemma run_ok_all: "tk_laws P \<Longrightarrow> extension_ok P (fold (extension_step P) events (initial_state None [] hosts scripts))"
  using extension.run_inv [of P "initial_state None [] hosts scripts" events] fresh_install_ok by simp

text \<open>Primitives that satisfy the laws exist.\<close>

lemma demo_laws: "tk_laws demo_prims"
  using demo_aead demo_binding demo_kdf demo_signature demo_envelope by (simp add: tk_laws_def)

end
