(* ===== verification/TkAnswers.thy ===== *)
theory TkAnswers
  imports TkInvariant
begin

text \<open>
  Who asks, who is answered, and what is signed without asking: every request a page's message
  puts before the user carries the origin Chrome attached to it; every message is answered, now
  or when its request is settled; and a page obtains a signature without a window only over a
  chat message, from a site the user granted that to.
\<close>

subsection \<open>What an operation yields\<close>

definition yields :: "('a \<Rightarrow> tk_state \<Rightarrow> bool) \<Rightarrow> 'a tk \<Rightarrow> bool" where
  "yields Q m \<longleftrightarrow> (\<forall>s x t. m s = (Inr x, t) \<longrightarrow> Q x t)"

named_theorems yielding \<open>composing what operations yield\<close>

lemma yields_then [yielding]: "(\<And>x. yields Q (f x)) \<Longrightarrow> yields Q (andThen m f)"
  by (auto simp: yields_def andThen_Ok)

lemma yields_ret: "(\<And>t. Q x t) \<Longrightarrow> yields Q (ret x)"
  by (simp add: yields_def)

lemma yields_fail [yielding]: "yields Q (fail e)"
  by (simp add: yields_def)

lemma yieldsD: "yields Q m \<Longrightarrow> m s = (Inr x, t) \<Longrightarrow> Q x t"
  by (simp add: yields_def)

lemma yields_if [yielding]: "yields Q m \<Longrightarrow> yields Q n \<Longrightarrow> yields Q (if b then m else n)"
  by simp

lemma yields_state_if [yielding]: "yields Q m \<Longrightarrow> yields Q n \<Longrightarrow> yields Q (\<lambda>s. if b s then m s else n s)"
  by (auto simp: yields_def split: if_splits)

subsection \<open>A message is answered or waits\<close>

text \<open>Without a reply of its own, a message left a request that will answer it.\<close>

definition waiting :: "tk_env \<Rightarrow> jsval option \<Rightarrow> tk_state \<Rightarrow> bool" where
  "waiting E r t \<longleftrightarrow>
     r \<noteq> None \<or> (\<exists>rq. map_of (st_pending t) (te_requestId E) = Some rq \<and> rq_channel rq = te_channel E)"

lemma waiting_ret [yielding]: "yields (waiting E) (ret (Some r))"
  by (simp add: yields_def waiting_def)

lemma requestApproval_waits:
  assumes "requestApproval w rid rq s = (out, t)"
  shows "(\<exists>m. out = Some (Refuse rq m)) \<or> (out = None \<and> map_of (st_pending t) rid = Some rq)"
proof -
  let ?t = "s\<lparr>st_pending := obj_put rid rq (st_pending s)\<rparr>"
  let ?o = "openTrackedWindow w Approval_window ?t"
  have p: "st_pending (snd ?o) = obj_put rid rq (st_pending s)" using openTrackedWindow_queue [of w Approval_window ?t] by simp
  show ?thesis
  proof (cases "fst (requestApproval_begin rid rq s)")
    case None
    then have "requestApproval w rid rq s = requestApproval_window rid (fst ?o) (snd ?o)"
      by (auto simp: requestApproval_begin_def requestApproval_def split: if_splits prod.splits)
    then show ?thesis
      using assms p by (auto simp: requestApproval_window_def settle_def split: if_splits)
  next
    case (Some x)
    then show ?thesis
      using assms by (auto simp: requestApproval_begin_def requestApproval_def split: if_splits)
  qed
qed

lemma waiting_ask [yielding]: "rq_channel rq = te_channel E \<Longrightarrow> yields (waiting E) (ask_user w (te_requestId E) rq)"
  using requestApproval_waits [of w "te_requestId E" rq]
  by (fastforce simp: yields_def waiting_def ask_user_def queued_def split: prod.splits)

lemma waiting_asked [yielding]: "yields (waiting E) (asked E type og d act)"
  unfolding asked_def by (rule waiting_ask) simp

lemma waiting_signature [yielding]: "yields (waiting E) (requestSignature E sn kind details body)"
  unfolding requestSignature_def by (intro yielding)

lemma waiting_decrypt [yielding]: "yields (waiting E) (decrypt_request E sn kind count act)"
  unfolding decrypt_request_def by (intro yielding)

lemma waiting_handlers:
  "yields (waiting E) (handleSign E sn request)" "yields (waiting E) (handleSignLogin E sn request)"
  "yields (waiting E) (handleSignAccountDeletion E sn request)" "yields (waiting E) (handleSignConversationErase E sn request)"
  "yields (waiting E) (handleSignMultisigApproval E sn request)" "yields (waiting E) (handleSignMessage E sn request)"
  "yields (waiting E) (handleRotateEncryptionKey E sn request)" "yields (waiting E) (handleDecrypt E sn request)"
  "yields (waiting E) (handleUnwrapSessionKey E sn request)" "yields (waiting E) (handleDecryptMany E sn request)"
  "yields (waiting E) (handleUnwrapManySessionKeys E sn request)"
  unfolding handleSign_def handleSignLogin_def handleSignAccountDeletion_def handleSignConversationErase_def
    handleSignMultisigApproval_def handleSignMessage_def handleRotateEncryptionKey_def handleDecrypt_def
    handleUnwrapSessionKey_def handleDecryptMany_def handleUnwrapManySessionKeys_def Let_def
  by (auto intro!: yielding split: option.splits jsval.splits)

lemma waiting_connect: "yields (waiting E) (handleConnect w (te_requestId E) (te_channel E) og)"
proof -
  have "yields (waiting E) (\<lambda>s. (Inr (Some (err_reply m)), g s))" for m g by (simp add: yields_def waiting_def)
  moreover have "yields (waiting E) (andThen the_vault (\<lambda>v.
      if site_on (v_permissions v) og then ret (Some (ok_reply []))
      else ask_user w (te_requestId E) \<lparr>rq_type = ''CONNECT'', rq_origin = og, rq_data = JObj [(''origin'', JStr og)],
             rq_channel = te_channel E, rq_action = Do_connect og\<rparr>))"
    by (intro yielding) simp
  ultimately show ?thesis unfolding handleConnect_def by (rule yields_state_if)
qed

abbreviation replied :: "tk_env \<Rightarrow> reply \<Rightarrow> tk_state \<Rightarrow> bool" where
  "replied E r t \<equiv> waiting E (fst r) t"

lemma replied_plain: "yields (replied E) (plain m)" "yields (replied E) (done_reply n)"
  by (auto simp: plain_def done_reply_def yields_def andThen_Ok waiting_def)

lemma replied_raw: "yields (waiting E) m \<Longrightarrow> yields (replied E) (pending_answer m)"
  by (auto simp: pending_answer_def yields_def andThen_Ok)

lemma replied_resolve: "yields (replied E) (resolve_request E rid ok)"
  by (auto simp: yields_def resolve_request_def waiting_def split: option.splits prod.splits)

lemma replied_table: "list_all (\<lambda>(name, e). yields (replied E) (en_fn e E c)) HANDLERS"
  unfolding HANDLERS_def handler_def list.pred_inject prod.case entry.simps
  by (simp add: replied_plain replied_raw replied_resolve waiting_handlers waiting_connect)

lemma replied_message: "yields (replied E) (handle_message E sn request)"
proof -
  have "yields (replied E) (en_fn e E c)" if "map_of HANDLERS name = Some e" for name e c
    using replied_table [of E c] table_lookup [OF that] unfolding list_all_iff by blast
  then have "yields (replied E) (run_entry E sn r b e)" if "map_of HANDLERS name = Some e" for name e r b
    using that by (auto simp: run_entry_def waiting_def intro!: yielding yields_ret split: option.splits)
  then have "yields (replied E) (look_up r name E sn b)" for r name b
    by (auto simp: look_up_def waiting_def intro!: yielding yields_ret split: option.splits)
  then show ?thesis
    unfolding handle_message_def Let_def by (intro yielding)
qed

lemma dispatch_replies:
  assumes "dispatch E sn request s = (rs, t)"
  shows "(\<exists>r. (te_channel E, r) \<in> set rs) \<or> waiting E None t"
  using assms yieldsD [OF replied_message, of E sn request s]
  by (auto simp: dispatch_def split: prod.splits sum.splits option.splits)

text \<open>When its time is up, a request answers its message.\<close>

lemma timeout_answers:
  "waiting E None t \<Longrightarrow>
   handle_event F (Approval_timeout (te_requestId E)) t =
     ([(te_channel E, err_reply ''Approval timed out'')], t\<lparr>st_pending := obj_del (te_requestId E) (st_pending t)\<rparr>)"
  by (auto simp: waiting_def approval_timeout_def settle_def refusals_def run_settlement_def)

text \<open>An approval given while the vault is locked runs a callback that throws: the request is off
  the queue and its message is never answered.\<close>

lemma locked_approval_unanswered: "st_vault s = None \<Longrightarrow> run_settlement E (Approve rq) s = (None, s)"
  by (cases "rq_action rq")
    (simp_all add: run_settlement_def approve_connect_def approve_sign_def approve_defs with_active_def approve_rotate_def Let_def
      activeAccount_def the_vault_def andThen_apply)

subsection \<open>Whose request it is\<close>

definition from_sender :: "tk_env \<Rightarrow> sender \<Rightarrow> request \<Rightarrow> bool" where
  "from_sender E sn rq \<longleftrightarrow> getSenderOrigin sn = Some (rq_origin rq) \<and> rq_channel rq = te_channel E"

lemma sender_signature: "asks_only (from_sender E sn) (requestSignature E sn kind details body)"
  unfolding requestSignature_def
  by (rule asks_then [OF asks_basic(10)], rule asks_then [OF asks_basic(9)], rule asks_asked)
    (auto simp: from_sender_def dest: connected_origin_is)

lemma sender_decrypt: "asks_only (from_sender E sn) (decrypt_request E sn kind count act)"
  unfolding decrypt_request_def
  by (rule asks_then [OF asks_basic(6)], rule asks_then [OF asks_basic(10)], rule asks_asked)
    (auto simp: from_sender_def dest: connected_origin_is)

lemma sender_rotate: "asks_only (from_sender E sn) (handleRotateEncryptionKey E sn request)"
  unfolding handleRotateEncryptionKey_def
  by (rule asks_then [OF asks_basic(6)], rule asks_then [OF asks_basic(10)])
    (auto intro!: asks_then asking asks_asked simp: from_sender_def split: jsval.splits dest: connected_origin_is)

lemma sender_handlers:
  "asks_only (from_sender E sn) (handleSign E sn request)" "asks_only (from_sender E sn) (handleSignLogin E sn request)"
  "asks_only (from_sender E sn) (handleSignAccountDeletion E sn request)"
  "asks_only (from_sender E sn) (handleSignConversationErase E sn request)"
  "asks_only (from_sender E sn) (handleSignMultisigApproval E sn request)"
  "asks_only (from_sender E sn) (handleSignMessage E sn request)"
  "asks_only (from_sender E sn) (handleDecrypt E sn request)" "asks_only (from_sender E sn) (handleUnwrapSessionKey E sn request)"
  "asks_only (from_sender E sn) (handleDecryptMany E sn request)"
  "asks_only (from_sender E sn) (handleUnwrapManySessionKeys E sn request)"
  unfolding handleSign_def handleSignLogin_def handleSignAccountDeletion_def handleSignConversationErase_def
    handleSignMultisigApproval_def handleSignMessage_def handleDecrypt_def
    handleUnwrapSessionKey_def handleDecryptMany_def handleUnwrapManySessionKeys_def Let_def
  by (auto intro!: asks_then asking sender_signature sender_decrypt split: option.splits)

lemma sender_connect:
  assumes "getSenderOrigin sn = Some og"
  shows "asks_only (from_sender E sn) (handleConnect w rid (te_channel E) og)"
proof -
  have "asks_only (from_sender E sn) (andThen the_vault (\<lambda>v. if site_on (v_permissions v) og then ret (Some (ok_reply []))
      else ask_user w rid \<lparr>rq_type = ''CONNECT'', rq_origin = og, rq_data = JObj [(''origin'', JStr og)],
              rq_channel = te_channel E, rq_action = Do_connect og\<rparr>))"
    using assms by (intro asks_then asking) (auto intro!: asking asks_ask_user simp: from_sender_def)
  then show ?thesis
    using launchPopup_asks [of "from_sender E sn"] by (auto simp: handleConnect_def asks_only_def)
qed

lemma sender_table:
  "list_all (\<lambda>(name, e). en_internal e \<or> name = ''REVERT_ENCRYPTION_KEY_ROTATION'' \<or> name = ''CONNECT'' \<or>
     asks_only (from_sender E (cx_sender c)) (en_fn e E c)) HANDLERS"
  unfolding HANDLERS_def handler_def list.pred_inject prod.case entry.simps
  by (simp add: plain_asks sender_handlers sender_rotate getActiveAccount_asks handleCheckConnection_asks
      handleGetKeyAttestation_asks handleEncrypt_asks handleWrap_asks active_view_asks asks_handshake)

lemma connect_entry:
  "map_of HANDLERS ''CONNECT'' =
     Some (handler False Required True (\<lambda>E c.
        pending_answer (handleConnect (te_windows E) (te_requestId E) (te_channel E) (the (cx_origin c)))))"
  by (simp add: HANDLERS_def)

lemma sender_look_up:
  assumes "name \<noteq> ''REVERT_ENCRYPTION_KEY_ROTATION''"
  shows "asks_only (from_sender E sn) (look_up request name E sn False)"
proof (cases "name = ''CONNECT''")
  case True
  have "asks_only (from_sender E sn) (pending_answer (handleConnect (te_windows E) (te_requestId E) (te_channel E) og))"
    if "getSenderOrigin sn = Some og" for og
    using sender_connect [OF that] by (rule plain_asks(2))
  then show ?thesis
    using True connect_entry
    by (auto simp: look_up_def run_entry_def handler_def resolve_origin_def Let_def intro: asking split: option.splits)
next
  case False
  have "asks_only (from_sender E (cx_sender c)) (en_fn e E c)" if "map_of HANDLERS name = Some e" "\<not> en_internal e" for e c
    using sender_table [of E c] table_lookup [OF that(1)] that(2) False assms unfolding list_all_iff by blast
  then have "asks_only (from_sender E sn) (en_fn e E c)" if "map_of HANDLERS name = Some e" "\<not> en_internal e" "cx_sender c = sn" for e c
    using that by blast
  then have "asks_only (from_sender E sn) (run_entry E sn request False e)" if "map_of HANDLERS name = Some e" for e
    using that by (auto simp: run_entry_def intro: asking split: option.splits)
  then show ?thesis
    by (auto simp: look_up_def intro: asking split: option.splits)
qed

lemma page_asks_as_itself:
  assumes page: "\<not> isInternalSender E sn" and name: "js_str (js_get request ''type'') \<noteq> ''REVERT_ENCRYPTION_KEY_ROTATION''"
    and x: "x \<in> set (st_pending (snd (dispatch E sn request s)))" "x \<notin> set (st_pending s)"
  shows "from_sender E sn (snd x) \<and> honest_request (te_prims E) (snd x)"
proof -
  have "asks_only (from_sender E sn) (updates id)" by (rule asks_read_only) simp
  then have "asks_only (from_sender E sn) (handle_message E sn request)"
    using sender_look_up [OF name, of E sn request] page by (auto simp: handle_message_def Let_def intro!: asks_then asking)
  then show ?thesis
    using page_message [OF page name] x by (auto simp: asks_only_def dispatch_state)
qed

subsection \<open>Signatures without a window\<close>

abbreviation no_signature :: "jsval \<Rightarrow> bool" where
  "no_signature r \<equiv> js_get r ''signature'' = JUndef"

abbreviation quiet :: "jsval option tk \<Rightarrow> bool" where
  "quiet \<equiv> yields (\<lambda>r t. \<forall>x. r = Some x \<longrightarrow> no_signature x)"

lemma no_signature_replies [simp]: "no_signature (err_reply m)" "k \<noteq> ''signature'' \<Longrightarrow> no_signature (ok_reply [(k, v)])" "no_signature (ok_reply [])"
  by (simp_all add: err_reply_def ok_reply_def)

lemma quiet_ret: "no_signature x \<Longrightarrow> quiet (ret (Some x))"
  by (simp add: yields_def)

lemma quiet_ask [yielding]: "quiet (ask_user w rid rq)"
  by (auto simp: yields_def ask_user_def queued_def split: prod.splits option.splits settlement.splits)

lemma quiet_asked [yielding]: "quiet (asked E type og d act)"
  unfolding asked_def by (intro yielding)

lemma quiet_signature [yielding]: "quiet (requestSignature E sn kind details body)"
  unfolding requestSignature_def by (intro yielding)

lemma quiet_handlers:
  "quiet (handleSignLogin E sn request)" "quiet (handleSignAccountDeletion E sn request)"
  "quiet (handleSignConversationErase E sn request)" "quiet (handleSignMultisigApproval E sn request)"
  "quiet (handleRotateEncryptionKey E sn request)" "quiet (handleDecrypt E sn request)"
  "quiet (handleUnwrapSessionKey E sn request)" "quiet (handleDecryptMany E sn request)"
  "quiet (handleUnwrapManySessionKeys E sn request)"
  unfolding handleSignLogin_def handleSignAccountDeletion_def handleSignConversationErase_def
    handleSignMultisigApproval_def handleRotateEncryptionKey_def handleDecrypt_def decrypt_request_def
    handleUnwrapSessionKey_def handleDecryptMany_def handleUnwrapManySessionKeys_def Let_def
  by (auto intro!: yielding split: option.splits jsval.splits)

lemma quiet_sign: "\<not> isInternalSender E sn \<Longrightarrow> quiet (handleSign E sn request)"
  unfolding handleSign_def Let_def by (auto intro!: yielding quiet_ret split: option.splits)

lemma quiet_connect: "quiet (handleConnect w rid ch og)"
proof -
  have "quiet (\<lambda>s. (Inr (Some (err_reply m)), g s))" for m g by (simp add: yields_def)
  moreover have "quiet (andThen the_vault (\<lambda>v.
      if site_on (v_permissions v) og then ret (Some (ok_reply []))
      else ask_user w rid \<lparr>rq_type = ''CONNECT'', rq_origin = og, rq_data = JObj [(''origin'', JStr og)],
             rq_channel = ch, rq_action = Do_connect og\<rparr>))"
    by (intro yielding quiet_ret) simp
  ultimately show ?thesis unfolding handleConnect_def by (rule yields_state_if)
qed

abbreviation mute :: "jsval tk \<Rightarrow> bool" where
  "mute \<equiv> yields (\<lambda>r t. no_signature r)"

lemma mute_ret: "no_signature x \<Longrightarrow> mute (ret x)"
  by (simp add: yields_def)

lemma mute_handlers:
  "mute (handleCheckConnection og)" "mute (active_view og)" "mute (handleRevertEncryptionKeyRotation E site request)"
  "mute (handleGetKeyAttestation E b og)" "mute (handleEncrypt E request)" "mute (handleGenerateSessionKey E)"
  "mute (handleWrapSessionKey E request)"
proof -
  have "mute (\<lambda>s. (Inr (ok_reply [(''connected'', x), (''error'', y)]), s))" for x y by (simp add: yields_def ok_reply_def)
  then show "mute (handleCheckConnection og)"
    unfolding handleCheckConnection_def by (intro yields_state_if yielding mute_ret no_signature_replies(2)) simp_all
qed (auto simp: active_view_def handleRevertEncryptionKeyRotation_def handleGetKeyAttestation_def handleEncrypt_def
      handleGenerateSessionKey_def handleWrapSessionKey_def Let_def intro!: yielding mute_ret)

abbreviation silent :: "reply tk \<Rightarrow> bool" where
  "silent \<equiv> yields (\<lambda>r t. (\<forall>x. fst r = Some x \<longrightarrow> no_signature x) \<and> snd r = [])"

lemma silent_plain: "mute m \<Longrightarrow> silent (plain m)" "quiet n \<Longrightarrow> silent (pending_answer n)"
  by (auto simp: plain_def pending_answer_def yields_def andThen_Ok)

lemma silent_table:
  "list_all (\<lambda>(name, e). en_internal e \<or> name = ''SIGN_MESSAGE'' \<or>
     (\<not> isInternalSender E (cx_sender c) \<longrightarrow> silent (en_fn e E c))) HANDLERS"
  unfolding HANDLERS_def handler_def list.pred_inject prod.case entry.simps
  by (simp add: silent_plain mute_handlers quiet_handlers quiet_sign quiet_connect mute_ret)

lemma silent_look_up:
  assumes "\<not> isInternalSender E sn" "name \<noteq> ''SIGN_MESSAGE''"
  shows "silent (look_up request name E sn False)"
proof -
  have "silent (en_fn e E c)" if "map_of HANDLERS name = Some e" "\<not> en_internal e" "cx_sender c = sn" for e c
    using silent_table [of E c] table_lookup [OF that(1)] that(2,3) assms unfolding list_all_iff by blast
  then have "silent (run_entry E sn request False e)" if "map_of HANDLERS name = Some e" for e
    using that by (auto simp: run_entry_def intro!: yielding yields_ret split: option.splits)
  then show ?thesis
    by (auto simp: look_up_def intro!: yielding yields_ret split: option.splits)
qed

lemma sign_message_entry: "map_of HANDLERS ''SIGN_MESSAGE'' = Some (raw_page handleSignMessage)"
  by (simp add: HANDLERS_def)

text \<open>The one silent signature: an unlocked vault, a chat message, a connected site that was
  granted it (or a development origin of a development build).\<close>

definition silently_signed :: "tk_env \<Rightarrow> sender \<Rightarrow> jsval \<Rightarrow> tk_state \<Rightarrow> jsval \<Rightarrow> bool" where
  "silently_signed E sn request s r \<longleftrightarrow>
     (\<exists>m v og a. \<not> st_isLocked s \<and> js_get request ''message'' = JStr m \<and> starts_with m MESSAGE_SIGNING_PREFIX \<and>
        st_vault s = Some v \<and> getSenderOrigin sn = Some og \<and> site_on (v_permissions v) og \<and>
        (site_on (autosign_sites v) og \<or> (te_devAutoSign E \<and> isDevOrigin (te_urls E) og)) \<and>
        active_of v = Some a \<and> sign_value E (JStr m) a = Inr r)"

lemma sign_message_silently:
  assumes page: "\<not> isInternalSender E sn" and r: "handleSignMessage E sn request s = (Inr (Some r), t)" "\<not> no_signature r"
  shows "silently_signed E sn request s r"
proof -
  have ul: "\<not> st_isLocked s" using r(1) by (auto simp: handleSignMessage_def Let_def andThen_Ok requireUnlocked_ok)
  have ru: "requireUnlocked s = (Inr (), s)" using ul by (simp add: requireUnlocked_def)
  obtain m where m: "js_get request ''message'' = JStr m" "starts_with m MESSAGE_SIGNING_PREFIX"
    using r ru by (auto simp: handleSignMessage_def Let_def andThen_apply split: if_splits)
  obtain v where v: "st_vault s = Some v"
    using r(1) ru m by (cases "st_vault s") (auto simp: handleSignMessage_def Let_def andThen_apply the_vault_def)
  have tv: "the_vault s = (Inr v, s)" using v by (simp add: the_vault_def)
  obtain og where og: "getSenderOrigin sn = Some og" "site_on (v_permissions v) og"
    using r ru m tv page by (auto simp: handleSignMessage_def Let_def andThen_apply split: if_splits option.splits)
  have sil: "silent_allowed E sn v"
  proof (rule ccontr)
    assume "\<not> silent_allowed E sn v"
    then have "requestSignature E sn ''message'' (JObj []) (JStr m) s = (Inr (Some r), t)"
      using r(1) ru m tv page og by (simp add: handleSignMessage_def Let_def andThen_apply)
    then show False using yieldsD [OF quiet_signature] r(2) by blast
  qed
  obtain a where a: "active_of v = Some a"
    using r ru m tv page og sil by (cases "active_of v") (auto simp: handleSignMessage_def Let_def andThen_apply no_active_def)
  have "sign_value E (JStr m) a = Inr r"
    using r(1) ru m tv page og sil a by (auto simp: handleSignMessage_def Let_def andThen_apply split: sum.splits)
  then show ?thesis
    using ul m v og sil a page unfolding silently_signed_def silent_allowed_def by auto
qed

lemma page_signature:
  assumes page: "\<not> isInternalSender E sn" and r: "(te_channel E, r) \<in> set (fst (dispatch E sn request s))" "\<not> no_signature r"
  shows "js_str (js_get request ''type'') = ''SIGN_MESSAGE'' \<and> silently_signed E sn request s r"
proof -
  let ?n = "js_str (js_get request ''type'')"
  have n: "\<not> is_nullish request"
    using r by (auto simp: dispatch_def handle_message_def Let_def andThen_apply)
  have h: "handle_message E sn request s = look_up request ?n E sn False s"
    using page n by (simp add: handle_message_def Let_def andThen_apply)
  obtain x others t where x: "look_up request ?n E sn False s = (Inr (x, others), t)" "x = Some r \<or> (te_channel E, r) \<in> set others"
    using r h by (auto simp: dispatch_def split: prod.splits sum.splits option.splits)
  have name: "?n = ''SIGN_MESSAGE''"
  proof (rule ccontr)
    assume "?n \<noteq> ''SIGN_MESSAGE''"
    then show False using yieldsD [OF silent_look_up [OF page] x(1)] x(2) r(2) by auto
  qed
  have "handleSignMessage E sn request s = (Inr x, t) \<and> others = []"
    using x(1) unfolding name
    by (auto simp: look_up_def sign_message_entry run_entry_def handler_def resolve_origin_def pending_answer_def andThen_Ok)
  then show ?thesis
    using sign_message_silently [OF page _ r(2), of request s t] x(2) name by auto
qed

subsection \<open>The extension's own messages\<close>

lemma internal_entry:
  assumes "name \<in> set INTERNAL_ONLY_TYPES"
  obtains e where "map_of HANDLERS name = Some e" "en_internal e"
proof -
  have d: "distinct (map fst HANDLERS)" by (simp add: HANDLERS_def)
  obtain e where "(name, e) \<in> set HANDLERS" "en_internal e" using assms by (auto simp: INTERNAL_ONLY_TYPES_def)
  then show thesis using that map_of_is_SomeI [OF d] by blast
qed

lemma internal_refused:
  assumes "name \<in> set INTERNAL_ONLY_TYPES" "js_get request ''type'' = JStr name" "\<not> isInternalSender E sn"
  shows "dispatch E sn request s = ([(te_channel E, err_reply ''Unauthorized: Internal use only'')], s)"
proof -
  obtain e where "map_of HANDLERS name = Some e" "en_internal e" using internal_entry [OF assms(1)] .
  moreover have "\<not> is_nullish request" using assms(2) by (cases request) auto
  ultimately show ?thesis
    using assms(2,3) by (simp add: dispatch_def handle_message_def Let_def andThen_apply look_up_def run_entry_def)
qed

lemma internal_names: "INTERNAL_ONLY_TYPES =
  [''GET_STATUS'', ''SETUP_PASSWORD'', ''UNLOCK'', ''DESTROY_RETIRED_ENCRYPTION_KEY'', ''LOCK'', ''GET_PENDING_REQUEST'',
   ''RESOLVE_REQUEST'', ''GET_TRUSTED_SITES'', ''ADD_TRUSTED_SITE'', ''REMOVE_TRUSTED_SITE'', ''SET_SITE_AUTOSIGN'',
   ''EXPECT_SITE_GRANT'', ''AUTHORIZE_CURRENT_TAB'', ''CREATE_ACCOUNT'', ''GET_ACCOUNTS'', ''SET_ACTIVE_ACCOUNT'',
   ''DELETE_ACCOUNT'', ''EXPORT_KEYS'', ''EXPORT_KEYS_ENCRYPTED'', ''IMPORT_KEYS'']"
  by (simp add: INTERNAL_ONLY_TYPES_def HANDLERS_def handler_def)

lemma relay_types: "list_all (\<lambda>(_, t, _). t \<notin> set INTERNAL_ONLY_TYPES \<and> t \<in> fst ` set HANDLERS) RELAY"
  unfolding internal_names by (simp add: RELAY_def HANDLERS_def)

lemma relayed:
  assumes "relay location data = Some m"
  shows "\<exists>t. js_get m ''type'' = JStr t \<and> t \<notin> set INTERNAL_ONLY_TYPES \<and> t \<in> fst ` set HANDLERS"
proof -
  obtain a t names where "map_of RELAY a = Some (t, names)" and m: "js_get m ''type'' = JStr t"
    using assms by (auto simp: relay_def split: if_splits option.splits)
  then have "t \<notin> set INTERNAL_ONLY_TYPES \<and> t \<in> fst ` set HANDLERS"
    using relay_types unfolding list_all_iff by (auto dest!: map_of_SomeD)
  then show ?thesis using m by blast
qed

subsection \<open>What an account signs\<close>

text \<open>Signing for an account of a sound vault never fails, and what it signs verifies as its address.\<close>

lemma account_signs:
  assumes P: "signature_laws P" "digest_laws P" and E: "te_prims E = P" and a: "account_ok P a"
  shows "\<exists>sig. sign_value E body a = Inr (ok_reply [(''signature'', JStr sig)]) \<and>
    verifyIdentitySignature P (JStr (acc_id a)) (JStr (hp_publicKey (acc_identity a))) (text_arg body) (JStr sig)"
  using account_signature [OF P a, of "text_arg body" "te_sign E"] E by (auto simp: sign_value_def)

end
