(* ===== verification/TkSigning.thy ===== *)
theory TkSigning
  imports TkAnswers
begin

text \<open>
  What is signed without asking, whatever the reply is called. Signing runs two primitives, the
  ML-DSA and the P-384 signature; a page's message whose handling does not depend on them signed
  nothing. Only two of the page's messages depend on them: a chat message the user let the site
  have signed silently, and the attestation of the account's own encryption key.
\<close>

subsection \<open>The same world with another signing function\<close>

definition resigned ::
  "(bytes \<Rightarrow> bytes \<Rightarrow> bytes \<Rightarrow> bytes \<Rightarrow> bytes) \<Rightarrow> (bytes \<Rightarrow> bytes \<Rightarrow> bytes \<Rightarrow> bytes) \<Rightarrow> prims \<Rightarrow> prims" where
  "resigned ml ec P = P\<lparr>mldsa_sign := ml, p384_sign := ec\<rparr>"

definition resigning ::
  "(bytes \<Rightarrow> bytes \<Rightarrow> bytes \<Rightarrow> bytes \<Rightarrow> bytes) \<Rightarrow> (bytes \<Rightarrow> bytes \<Rightarrow> bytes \<Rightarrow> bytes) \<Rightarrow> tk_env \<Rightarrow> tk_env" where
  "resigning ml ec E = E\<lparr>te_prims := resigned ml ec (te_prims E)\<rparr>"

named_theorems unsigned \<open>operations that do not sign\<close>

lemma resigned_prims [unsigned]:
  "sha384 (resigned ml ec P) = sha384 P" "sha512 (resigned ml ec P) = sha512 P" "hkdf_sha384 (resigned ml ec P) = hkdf_sha384 P"
  "argon2id (resigned ml ec P) = argon2id P" "aes_seal (resigned ml ec P) = aes_seal P" "aes_open (resigned ml ec P) = aes_open P"
  "mldsa_pk (resigned ml ec P) = mldsa_pk P" "mldsa_sk (resigned ml ec P) = mldsa_sk P" "mldsa_verify (resigned ml ec P) = mldsa_verify P"
  "p384_valid (resigned ml ec P) = p384_valid P" "p384_pub (resigned ml ec P) = p384_pub P" "p384_verify (resigned ml ec P) = p384_verify P"
  "p384_shared (resigned ml ec P) = p384_shared P" "mlkem_pk (resigned ml ec P) = mlkem_pk P" "mlkem_sk (resigned ml ec P) = mlkem_sk P"
  "mlkem_encaps (resigned ml ec P) = mlkem_encaps P" "mlkem_decaps (resigned ml ec P) = mlkem_decaps P"
  by (simp_all add: resigned_def)

lemma resigning_env [unsigned]:
  "te_prims (resigning ml ec E) = resigned ml ec (te_prims E)" "te_now (resigning ml ec E) = te_now E"
  "te_requestId (resigning ml ec E) = te_requestId E" "te_channel (resigning ml ec E) = te_channel E"
  "te_save (resigning ml ec E) = te_save E" "te_kem (resigning ml ec E) = te_kem E" "te_key (resigning ml ec E) = te_key E"
  "te_windows (resigning ml ec E) = te_windows E" "te_urls (resigning ml ec E) = te_urls E"
  "te_runtimeId (resigning ml ec E) = te_runtimeId E" "te_base (resigning ml ec E) = te_base E"
  "te_devAutoSign (resigning ml ec E) = te_devAutoSign E"
  by (simp_all add: resigning_def)

text \<open>Signing with primitives that sign nothing gives an empty signature, never a real one.\<close>

lemma signed_by_nothing:
  "signMessage (resigned (\<lambda>_ _ _ _. []) (\<lambda>_ _ _. []) P) msg seed rnd = Inr sig \<Longrightarrow> sig = []"
  by (auto simp: signMessage_def mldsa65P384Sign_def mlSign_def resigned_def Let_def toB64_def btoa_def b64_binary.simps [of "[]"] split: prod.splits)

subsection \<open>Nothing else signs\<close>

lemma unsigned_digests [unsigned]:
  "sha384Hex (resigned ml ec P) = sha384Hex P" "sha384HexBytes (resigned ml ec P) = sha384HexBytes P"
  "redactions_digest (resigned ml ec P) = redactions_digest P" "addressOf (resigned ml ec P) = addressOf P"
  by (unfold sha384Hex_def sha384HexBytes_def redactions_digest_def addressOf_def unsigned) (rule refl)+

lemma unsigned_bodies [unsigned]:
  "accountDeletionBody (resigned ml ec P) = accountDeletionBody P"
  "conversationEraseBody (resigned ml ec P) = conversationEraseBody P"
  by (unfold accountDeletionBody_def conversationEraseBody_def unsigned) (rule refl)+

lemma unsigned_composite [unsigned]:
  "p384Halves (resigned ml ec P) = p384Halves P"
  by (unfold p384Halves_def unsigned) (rule refl)

lemma unsigned_composite_keys [unsigned]:
  "mldsa65P384PublicKey (resigned ml ec P) = mldsa65P384PublicKey P"
  "mldsa65P384Keygen (resigned ml ec P) = mldsa65P384Keygen P"
  by (unfold mldsa65P384PublicKey_def mldsa65P384Keygen_def unsigned) (rule refl)+

lemma unsigned_kem [unsigned]:
  "catkdfHalves (resigned ml ec P) = catkdfHalves P" "ecdhX (resigned ml ec P) = ecdhX P"
  "catKdfHkdfSha384 (resigned ml ec P) = catKdfHkdfSha384 P" "etsiContextSha384 (resigned ml ec P) = etsiContextSha384 P"
  by (unfold catkdfHalves_def ecdhX_def catKdfHkdfSha384_def etsiContextSha384_def unsigned) (rule refl)+

lemma unsigned_kem_keys [unsigned]:
  "catkdfKey (resigned ml ec P) = catkdfKey P" "catkdfPublicKey (resigned ml ec P) = catkdfPublicKey P"
  by (unfold catkdfKey_def catkdfPublicKey_def unsigned) (rule refl)+

lemma unsigned_kem_suite [unsigned]:
  "catkdfEncapsulate (resigned ml ec P) = catkdfEncapsulate P" "catkdfDecapsulate (resigned ml ec P) = catkdfDecapsulate P"
  "catkdfKeygen (resigned ml ec P) = catkdfKeygen P"
  by (unfold catkdfEncapsulate_def catkdfDecapsulate_def catkdfKeygen_def unsigned) (rule refl)+

lemma unsigned_pqc [unsigned]:
  "KEM_SUITE (resigned ml ec P) = KEM_SUITE P"
  "encryptionPublicKeyOf (resigned ml ec P) = encryptionPublicKeyOf P" "encryptionKeyId (resigned ml ec P) = encryptionKeyId P"
  by (unfold KEM_SUITE_def KEM_SUITES_def encryptionPublicKeyOf_def encryptionKeyId_def unsigned) (rule refl)+

lemma unsigned_identity [unsigned]: "identityPublicKeyOf (resigned ml ec P) = identityPublicKeyOf P"
  by (simp add: fun_eq_iff identityPublicKeyOf_def unsigned)

lemma unsigned_seals [unsigned]:
  "kemSeal (resigned ml ec P) = kemSeal P" "encryptMessage (resigned ml ec P) = encryptMessage P"
  "wrapSessionKey (resigned ml ec P) = wrapSessionKey P" "encryptVaultWithKey (resigned ml ec P) = encryptVaultWithKey P"
  by (unfold kemSeal_def encryptMessage_def wrapSessionKey_def encryptVaultWithKey_def seal_def unsigned) (rule refl)+

lemma unsigned_keys [unsigned]: "checkEncryptionKey (resigned ml ec P) = checkEncryptionKey P"
  by (unfold checkEncryptionKey_def unsigned) (rule refl)+

lemma unsigned_retired [unsigned]: "check_retired (resigned ml ec P) = check_retired P"
proof (intro ext)
  fix kids rs
  show "check_retired (resigned ml ec P) kids rs = check_retired P kids rs"
  proof (induction rs arbitrary: kids)
    case (Cons r rs)
    then show ?case by (simp only: check_retired.simps unsigned cong: if_cong)
  qed simp
qed

lemma unsigned_accounts [unsigned]:
  "parseAccount (resigned ml ec P) = parseAccount P"
  by (unfold parseAccount_def unsigned) (rule refl)+

lemma unsigned_revert [unsigned]:
  "revertAccountEncryptionKeyRotation (resigned ml ec P) = revertAccountEncryptionKeyRotation P"
  by (unfold revertAccountEncryptionKeyRotation_def unsigned) (rule refl)+

lemma unsigned_writing [unsigned]: "writeVault (resigned ml ec P) = writeVault P"
  by (unfold writeVault_def unsigned) (rule refl)+

lemma unsigned_saving [unsigned]: "saveVaultWithSessionKey (resigned ml ec P) = saveVaultWithSessionKey P"
  by (unfold saveVaultWithSessionKey_def unsigned) (rule refl)+

lemma unsigned_replacing [unsigned]: "replaceActive (resigned ml ec P) = replaceActive P"
  by (unfold replaceActive_def unsigned) (rule refl)+

subsection \<open>The handlers a page can reach\<close>

lemma unsigned_sender [unsigned]: "isInternalSender (resigning ml ec E) sn = isInternalSender E sn"
  by (unfold isInternalSender_def unsigned) (rule refl)

lemma unsigned_asking [unsigned]:
  "requestSignature (resigning ml ec E) = requestSignature E" "decrypt_request (resigning ml ec E) = decrypt_request E"
  "asked (resigning ml ec E) = asked E"
  by (unfold requestSignature_def decrypt_request_def asked_def unsigned) (rule refl)+

lemma unsigned_requests [unsigned]:
  "handleSignLogin (resigning ml ec E) = handleSignLogin E"
  "handleSignAccountDeletion (resigning ml ec E) = handleSignAccountDeletion E"
  "handleSignConversationErase (resigning ml ec E) = handleSignConversationErase E"
  "handleSignMultisigApproval (resigning ml ec E) = handleSignMultisigApproval E"
  "handleRotateEncryptionKey (resigning ml ec E) = handleRotateEncryptionKey E"
  "handleDecrypt (resigning ml ec E) = handleDecrypt E" "handleDecryptMany (resigning ml ec E) = handleDecryptMany E"
  "handleUnwrapSessionKey (resigning ml ec E) = handleUnwrapSessionKey E"
  "handleUnwrapManySessionKeys (resigning ml ec E) = handleUnwrapManySessionKeys E"
  by (unfold handleSignLogin_def handleSignAccountDeletion_def handleSignConversationErase_def handleSignMultisigApproval_def
      handleRotateEncryptionKey_def handleDecrypt_def handleDecryptMany_def handleUnwrapSessionKey_def
      handleUnwrapManySessionKeys_def unsigned) (rule refl)+

lemma unsigned_answers [unsigned]:
  "handleEncrypt (resigning ml ec E) = handleEncrypt E" "handleGenerateSessionKey (resigning ml ec E) = handleGenerateSessionKey E"
  "handleWrapSessionKey (resigning ml ec E) = handleWrapSessionKey E"
  "handleRevertEncryptionKeyRotation (resigning ml ec E) = handleRevertEncryptionKeyRotation E"
  by (unfold handleEncrypt_def handleGenerateSessionKey_def handleWrapSessionKey_def handleRevertEncryptionKeyRotation_def
      may_undo_def Let_def unsigned) (rule refl)+

lemma unsigned_sign: "\<not> isInternalSender E sn \<Longrightarrow> handleSign (resigning ml ec E) sn request = handleSign E sn request"
  unfolding handleSign_def unsigned by simp

definition signs_silently :: "string \<Rightarrow> bool" where
  "signs_silently name \<longleftrightarrow> name = ''SIGN_MESSAGE'' \<or> name = ''GET_KEY_ATTESTATION''"

lemma unsigned_table:
  "list_all (\<lambda>(name, e). en_internal e \<or> signs_silently name \<or>
     (\<not> isInternalSender E (cx_sender c) \<longrightarrow> en_fn e (resigning ml ec E) c = en_fn e E c)) HANDLERS"
  unfolding HANDLERS_def handler_def list.pred_inject prod.case entry.simps
  by (simp add: unsigned unsigned_sign signs_silently_def)

lemma unsigned_look_up:
  assumes "\<not> isInternalSender E sn" and "\<not> signs_silently name"
  shows "look_up request name (resigning ml ec E) sn False = look_up request name E sn False"
proof (cases "map_of HANDLERS name")
  case (Some e)
  have "en_fn e (resigning ml ec E) c = en_fn e E c" if "\<not> en_internal e" "cx_sender c = sn" for c
    using unsigned_table [of E c ml ec] table_lookup [OF Some] that assms unfolding list_all_iff by blast
  then show ?thesis using Some by (auto simp: look_up_def run_entry_def split: option.splits)
qed (simp add: look_up_def)

lemma unsigned_dispatch:
  assumes "\<not> isInternalSender E sn" and "\<not> signs_silently (js_str (js_get request ''type''))"
  shows "dispatch (resigning ml ec E) sn request s = dispatch E sn request s"
  using assms unfolding dispatch_def handle_message_def unsigned by (simp add: unsigned_look_up)

subsection \<open>The two that sign\<close>

lemma attestation_entry:
  "map_of HANDLERS ''GET_KEY_ATTESTATION'' = Some (handler False UnlessInternal False (\<lambda>E c.
     plain (handleGetKeyAttestation E (cx_isInternal c) (cx_origin c))))"
  by (simp add: HANDLERS_def)

text \<open>A reply, or what was thrown.\<close>

definition answer_of :: "jsval res \<Rightarrow> jsval" where
  "answer_of r = (case r of Inl e \<Rightarrow> err_reply (err_msg e) | Inr x \<Rightarrow> x)"

lemma refuses_nullish:
  "is_nullish request \<Longrightarrow> dispatch (resigning ml ec E) sn request s = dispatch E sn request s"
  unfolding dispatch_def handle_message_def unsigned by simp

lemma raw_dispatch:
  assumes "\<not> isInternalSender E sn" "js_str (js_get request ''type'') = ''SIGN_MESSAGE''" "\<not> is_nullish request"
  shows "dispatch E sn request s =
    (case handleSignMessage E sn request s of
       (Inl e, t) \<Rightarrow> ([(te_channel E, err_reply (err_msg e))], t)
     | (Inr None, t) \<Rightarrow> ([], t)
     | (Inr (Some r), t) \<Rightarrow> ([(te_channel E, r)], t))"
  using assms sign_message_entry
  by (auto simp: dispatch_def handle_message_def Let_def andThen_apply look_up_def run_entry_def handler_def resolve_origin_def
      pending_answer_def split: sum.splits prod.splits option.splits)

lemma attestation_dispatch:
  assumes "\<not> isInternalSender E sn" "js_str (js_get request ''type'') = ''GET_KEY_ATTESTATION''" "\<not> is_nullish request"
    and "getSenderOrigin sn = Some og"
  shows "dispatch E sn request s =
    (case handleGetKeyAttestation E False (Some og) s of
       (Inl e, t) \<Rightarrow> ([(te_channel E, err_reply (err_msg e))], t)
     | (Inr r, t) \<Rightarrow> ([(te_channel E, r)], t))"
  using assms attestation_entry
  by (auto simp: dispatch_def handle_message_def Let_def andThen_apply look_up_def run_entry_def handler_def resolve_origin_def
      plain_def split: sum.splits prod.splits option.splits)

lemma attestation_unknown:
  assumes "\<not> isInternalSender E sn" "js_str (js_get request ''type'') = ''GET_KEY_ATTESTATION''" "\<not> is_nullish request"
    and "getSenderOrigin sn = None"
  shows "dispatch E sn request s = ([(te_channel E, err_reply ''Unknown sender origin'')], s)"
  using assms attestation_entry
  by (auto simp: dispatch_def handle_message_def Let_def andThen_apply look_up_def run_entry_def handler_def resolve_origin_def)

text \<open>The chat message: whatever stops it short of the signature does not depend on the primitives.\<close>

lemma message_unsigned:
  assumes page: "\<not> isInternalSender E sn"
    and differ: "handleSignMessage (resigning ml ec E) sn request s \<noteq> handleSignMessage E sn request s"
  shows "\<exists>m v og a. \<not> st_isLocked s \<and> js_get request ''message'' = JStr m \<and> starts_with m MESSAGE_SIGNING_PREFIX \<and>
    st_vault s = Some v \<and> getSenderOrigin sn = Some og \<and> site_on (v_permissions v) og \<and>
    (site_on (autosign_sites v) og \<or> (te_devAutoSign E \<and> isDevOrigin (te_urls E) og)) \<and> active_of v = Some a \<and>
    handleSignMessage E sn request s = (case sign_value E (JStr m) a of Inl e \<Rightarrow> (Inl e, s) | Inr r \<Rightarrow> (Inr (Some r), s))"
proof -
  note d = handleSignMessage_def Let_def unsigned_sender unsigned_asking(1) page
  have ul: "\<not> st_isLocked s" using differ by (auto simp: d andThen_apply requireUnlocked_def)
  then have ru: "requireUnlocked s = (Inr (), s)" by (simp add: requireUnlocked_def)
  obtain m where m: "js_get request ''message'' = JStr m" "starts_with m MESSAGE_SIGNING_PREFIX"
    using differ ru by (auto simp: d andThen_apply split: if_splits)
  obtain v where v: "st_vault s = Some v"
    using differ ru m by (cases "st_vault s") (auto simp: d andThen_apply the_vault_def)
  then have tv: "the_vault s = (Inr v, s)" by (simp add: the_vault_def)
  obtain og where og: "getSenderOrigin sn = Some og" "site_on (v_permissions v) og"
    using differ ru m tv by (auto simp: d andThen_apply split: if_splits option.splits)
  have same: "silent_allowed (resigning ml ec E) sn v = silent_allowed E sn v"
    by (unfold silent_allowed_def unsigned) (rule refl)
  have sil: "silent_allowed E sn v"
    using differ ru m tv og same by (auto simp: d andThen_apply split: if_splits)
  obtain a where a: "active_of v = Some a"
    using differ ru m tv og same sil by (cases "active_of v") (auto simp: d andThen_apply)
  have "handleSignMessage E sn request s = (case sign_value E (JStr m) a of Inl e \<Rightarrow> (Inl e, s) | Inr r \<Rightarrow> (Inr (Some r), s))"
    using ru m tv og sil a by (simp add: d andThen_apply split: sum.splits)
  then show ?thesis using ul m v og sil a page unfolding silent_allowed_def by auto
qed

lemma attestation_unsigned:
  assumes "handleGetKeyAttestation (resigning ml ec E) False (Some og) s \<noteq> handleGetKeyAttestation E False (Some og) s"
  shows "\<exists>v a. \<not> st_isLocked s \<and> st_vault s = Some v \<and> site_on (v_permissions v) og \<and> active_of v = Some a \<and>
    handleGetKeyAttestation E False (Some og) s =
      (case attestEncryptionKey (te_prims E) (own_attestation a (ek_publicKey (acc_encryption a)))
          (JStr (hp_seed (acc_identity a))) (te_sign E) of
         Inl e \<Rightarrow> (Inl e, s) | Inr t \<Rightarrow> (Inr (ok_reply [(''attestation'', JStr t)]), s))"
proof -
  note d = handleGetKeyAttestation_def andThen_apply
  have ul: "\<not> st_isLocked s" using assms by (auto simp: d requireUnlocked_def)
  then have ru: "requireUnlocked s = (Inr (), s)" by (simp add: requireUnlocked_def)
  obtain rc t where rc: "requireConnectedOrigin (Some og) s = (rc, t)" by fastforce
  obtain og' where og': "rc = Inr og'" using assms ru rc by (cases rc) (auto simp: d)
  then obtain v where v: "t = s" "st_vault s = Some v" "site_on (v_permissions v) og"
    using rc by (auto simp: requireConnectedOrigin_ok)
  obtain ra u where ra: "requireActiveAccount s = (ra, u)" by fastforce
  obtain a where a: "ra = Inr a" using assms ru rc ra og' v(1) by (cases ra) (auto simp: d)
  then have "u = s" "active_of v = Some a" using ra v(2) by (auto simp: requireActiveAccount_ok)
  then show ?thesis using ul ru rc ra og' a v by (auto simp: d split: sum.splits)
qed

lemma silent_signatures:
  assumes page: "\<not> isInternalSender E sn" and differ: "dispatch (resigning ml ec E) sn request s \<noteq> dispatch E sn request s"
  shows "(\<exists>m v og a. js_str (js_get request ''type'') = ''SIGN_MESSAGE'' \<and> \<not> st_isLocked s \<and>
      js_get request ''message'' = JStr m \<and> starts_with m MESSAGE_SIGNING_PREFIX \<and>
      st_vault s = Some v \<and> getSenderOrigin sn = Some og \<and> site_on (v_permissions v) og \<and>
      (site_on (autosign_sites v) og \<or> (te_devAutoSign E \<and> isDevOrigin (te_urls E) og)) \<and> active_of v = Some a \<and>
      dispatch E sn request s = ([(te_channel E, answer_of (sign_value E (JStr m) a))], s)) \<or>
    (\<exists>v og a. js_str (js_get request ''type'') = ''GET_KEY_ATTESTATION'' \<and> \<not> st_isLocked s \<and>
      st_vault s = Some v \<and> getSenderOrigin sn = Some og \<and> site_on (v_permissions v) og \<and> active_of v = Some a \<and>
      dispatch E sn request s = ([(te_channel E, answer_of (bind_res
        (attestEncryptionKey (te_prims E) (own_attestation a (ek_publicKey (acc_encryption a))) (JStr (hp_seed (acc_identity a))) (te_sign E))
        (\<lambda>t. Ok (ok_reply [(''attestation'', JStr t)]))))], s))"
proof -
  let ?n = "js_str (js_get request ''type'')" and ?R = "resigning ml ec E"
  have n: "\<not> is_nullish request" using refuses_nullish differ by metis
  have page': "\<not> isInternalSender ?R sn" using page by (simp add: unsigned_sender)
  have "signs_silently ?n" using unsigned_dispatch [OF page] differ by metis
  then consider "?n = ''SIGN_MESSAGE''" | "?n = ''GET_KEY_ATTESTATION''" by (auto simp: signs_silently_def)
  then show ?thesis
  proof cases
    case 1
    then have "handleSignMessage ?R sn request s \<noteq> handleSignMessage E sn request s"
      using differ raw_dispatch [OF page 1 n] raw_dispatch [OF page' 1 n, unfolded resigning_env(4)] by auto
    from message_unsigned [OF page this] 1 raw_dispatch [OF page 1 n, of s] show ?thesis
      by (fastforce simp: answer_of_def split: sum.splits)
  next
    case 2
    obtain og where og: "getSenderOrigin sn = Some og"
      using differ attestation_unknown [OF page 2 n] attestation_unknown [OF page' 2 n, unfolded resigning_env(4)]
      by (cases "getSenderOrigin sn") auto
    then have "handleGetKeyAttestation ?R False (Some og) s \<noteq> handleGetKeyAttestation E False (Some og) s"
      using differ attestation_dispatch [OF page 2 n] attestation_dispatch [OF page' 2 n, unfolded resigning_env(4)] by auto
    from attestation_unsigned [OF this] 2 og attestation_dispatch [OF page 2 n og, of s] show ?thesis
      by (fastforce simp: answer_of_def split: sum.splits)
  qed
qed

end
