(* ===== verification/TkHistory.thy ===== *)
theory TkHistory
  imports TkInvariant
begin

text \<open>
  What rotating, undoing and destroying encryption keys do to history: whatever the active account
  could open before a rotation or an undo, it opens after; destruction loses the destroyed key's
  envelopes alone.
\<close>

subsection \<open>Rotating\<close>

lemma active_put:
  assumes "active_of v = Some a" "acc_id b = acc_id a"
  shows "active_of (put_account b v) = Some b"
proof -
  have act: "v_active v = JStr (acc_id a)" using active_of_mem [OF assms(1)] by simp
  have "find (\<lambda>a. JStr (acc_id a) = v_active v) xs = Some a \<Longrightarrow>
      find (\<lambda>a. JStr (acc_id a) = v_active v) (replace_first (\<lambda>c. acc_id c = acc_id b) b xs) = Some b" for xs
    by (induction xs) (auto simp: act assms(2))
  then show ?thesis using assms(1) by (simp add: active_of_def put_account_def)
qed

lemma approved_rotation_history:
  assumes P: "tk_laws P" and E: "env_ok P E" and s: "unlocked_with P s v key kdf" and f: "fresh_key P (te_encryption E) s"
    and a: "active_of v = Some a" and r: "approve_rotate E og aid ts s = (r, t)"
  shows "\<exists>w b. unlocked_with P t w key kdf \<and> active_of w = Some b \<and> acc_id b = acc_id a \<and>
    set (account_keys a) \<subseteq> set (account_keys b) \<and> account_ok P b"
proof (cases rule: approve_rotate_cases [OF P E s f, of og aid ts])
  case (1 x)
  then show ?thesis using r s a active_ok [OF unlocked_facts(5) [OF s] a] by auto
next
  case (2 c b x)
  have c: "c = a" using 2(1) a by simp
  have a_ok: "account_ok P a" by (rule active_ok [OF unlocked_facts(5) [OF s] a])
  note keep = rotate_keeps_keys [OF a_ok 2(4) [unfolded c]]
  have w: "vault_ok P (put_account b v)" using put_account_ok [OF unlocked_facts(5) [OF s] 2(3)] .
  note save = set_and_save(2) [OF s w env_facts(3) [OF E]]
  have "unlocked_with P (u\<lparr>st_pendingRotation := p\<rparr>) x key kdf = unlocked_with P u x key kdf" for u x p
    by (simp add: unlocked_with_def)
  then have "unlocked_with P t (put_account b v) key kdf" using save 2(5) r by auto
  then show ?thesis using active_put [OF a, of b] keep 2(3) by auto
qed

text \<open>The rotated account seals under a key it did not have, and its own retired key is the old one.\<close>

lemma rotated_current:
  assumes "account_ok P a" "rotateAccountEncryptionKey P clock d (account_js a) now = Inr b"
  shows "hd (acc_retired b) = retire (acc_encryption a) now" "length (acc_retired b) = Suc (length (acc_retired a))"
  using rotate_result(2) [OF assms] by auto

subsection \<open>Undoing\<close>

lemma undo_cases:
  assumes E: "env_ok P E" and s: "unlocked_with P s v key kdf"
  obtains (refused) "st_vault (snd (handleRevertEncryptionKeyRotation E og request s)) = Some v"
  | (undone) a b where "may_undo E og (js_get request ''newKid'') (st_pendingRotation s)" "active_of v = Some a"
      "revertAccountEncryptionKeyRotation P (te_now E) (account_js a) (js_str (js_get request ''newKid'')) (te_now E) = Inr b"
      "account_ok P a"
      "st_vault (snd (handleRevertEncryptionKeyRotation E og request s)) = Some (put_account b v)"
proof -
  let ?k = "js_get request ''newKid''"
  let ?s = "s\<lparr>st_pendingRotation := None\<rparr>"
  let ?f = "\<lambda>a. revertAccountEncryptionKeyRotation P (te_now E) (account_js a) (js_str ?k) (te_now E)"
  have ul: "requireUnlocked s = (Inr (), s)" by (rule unlocked_facts(3) [OF s])
  have s': "unlocked_with P ?s v key kdf" using s by (simp add: unlocked_with_def)
  have run: "handleRevertEncryptionKeyRotation E og request s =
      (if may_undo E og ?k (st_pendingRotation s) then edit_active P (snd (te_save E)) ?f ?s
       else (Inl (PlainError ''There is no rotation from this site to undo''), s))"
    using ul env_facts(1) [OF E]
    by (simp add: handleRevertEncryptionKeyRotation_def Let_def andThen_apply edit_active_def guards_def)
  show thesis
  proof (cases "may_undo E og ?k (st_pendingRotation s)")
    case False
    then show thesis using refused run unlocked_facts(1) [OF s] by simp
  next
    case True
    show thesis
    proof (cases "active_of v")
      case None
      then show thesis using refused run True unlocked_facts(1,4) [OF s']
        by (simp add: edit_active_def requireActiveAccount_def activeAccount_def andThen_apply)
    next
      case (Some a)
      have a: "account_ok P a" by (rule active_ok [OF unlocked_facts(5) [OF s] Some])
      show thesis
      proof (cases "?f a")
        case (Inl e)
        then show thesis using refused run True Some unlocked_facts(1,4) [OF s']
          by (simp add: edit_active_def requireActiveAccount_def activeAccount_def andThen_apply)
      next
        case (Inr b)
        have "account_ok P b" by (rule revert_account_ok(1) [OF a Inr])
        then show thesis
          using undone [OF True Some Inr a] run True edit_active_ok(1) [OF s' env_facts(3) [OF E] Some, of ?f b] Inr
          by (simp add: saved_def)
      qed
    qed
  qed
qed

lemma revert_entry:
  "map_of HANDLERS ''REVERT_ENCRYPTION_KEY_ROTATION'' =
     Some (handler False Required False (\<lambda>E c. plain (handleRevertEncryptionKeyRotation E (the (cx_origin c)) (cx_request c))))"
  by (simp add: HANDLERS_def)

lemma snd_plain: "snd (plain m s) = snd (m s)"
  by (simp add: plain_def andThen_def split: prod.splits sum.splits)

lemma page_revert:
  assumes page: "\<not> isInternalSender E sn" and name: "js_str (js_get request ''type'') = ''REVERT_ENCRYPTION_KEY_ROTATION''"
  shows "snd (dispatch E sn request s) = s \<or>
    (\<exists>og. getSenderOrigin sn = Some og \<and> snd (dispatch E sn request s) = snd (handleRevertEncryptionKeyRotation E og request s))"
  using page name
  by (auto simp: dispatch_state handle_message_def Let_def andThen_apply look_up_def revert_entry run_entry_def handler_def
      resolve_origin_def snd_plain split: option.splits)

lemma page_undo_keeps:
  assumes E: "env_ok P E" and s: "unlocked_with P s v key kdf" and page: "\<not> isInternalSender E sn"
    and name: "js_str (js_get request ''type'') = ''REVERT_ENCRYPTION_KEY_ROTATION''"
  shows "st_vault (snd (dispatch E sn request s)) = Some v \<or>
    (\<exists>p a b. st_pendingRotation s = Some p \<and> getSenderOrigin sn = Some (pn_origin p) \<and> te_now E - pn_at p \<le> UNDO_WINDOW_MS \<and>
       active_of v = Some a \<and> st_vault (snd (dispatch E sn request s)) = Some (put_account b v) \<and>
       set (account_keys b) = set (account_keys a) \<and> acc_id b = acc_id a \<and> acc_identity b = acc_identity a)"
proof -
  have same: "st_vault s = Some v" by (rule unlocked_facts(1) [OF s])
  consider "snd (dispatch E sn request s) = s"
    | og where "getSenderOrigin sn = Some og" "snd (dispatch E sn request s) = snd (handleRevertEncryptionKeyRotation E og request s)"
    using page_revert [OF page name] by blast
  then show ?thesis
  proof cases
    case (2 og)
    show ?thesis
    proof (cases rule: undo_cases [OF E s, of og request])
      case 1
      then show ?thesis using 2 by simp
    next
      case (2 a b)
      have "acc_id b = acc_id a \<and> acc_identity b = acc_identity a"
        using revert_result [OF 2(4), of "te_now E"] 2(3) by auto
      then show ?thesis
        using 2 \<open>getSenderOrigin sn = Some og\<close> revert_account_ok(2) [OF 2(4,3)]
          \<open>snd (dispatch E sn request s) = snd (handleRevertEncryptionKeyRotation E og request s)\<close>
        by (auto simp: may_undo_def)
    qed
  qed (use same in simp)
qed

end
