(* ===== verification/TkDemo.thy ===== *)
theory TkDemo
  imports TkSigning TkHistory
begin

text \<open>
  A concrete world for the witnesses: an unlocked vault of one account and one connected site,
  under the demonstration primitives, with what Chrome and the random source answer.
\<close>

definition demo_account :: account where
  "demo_account =
     (case generateAccount demo_prims ((replicate 32 0, replicate 48 0), (replicate 48 0, replicate 64 0)) 0 ''Alice'' of
        Inr a \<Rightarrow> a
      | Inl _ \<Rightarrow> \<lparr>acc_id = [], acc_name = [], acc_createdAt = 0, acc_identity = \<lparr>hp_publicKey = [], hp_seed = []\<rparr>,
                  acc_encryption = \<lparr>ek_alg = [], ek_kid = [], ek_seed = [], ek_publicKey = [], ek_createdAt = 0\<rparr>,
                  acc_retired = []\<rparr>)"

definition demo_site :: string where
  "demo_site = ''https://a.example''"

definition demo_vault :: vault where
  "demo_vault = \<lparr>v_accounts = [demo_account], v_active = JStr (acc_id demo_account),
     v_permissions = [(demo_site, JBool True)], v_autoSign = Some []\<rparr>"

definition demo_password :: string where
  "demo_password = ''a short phrase of words''"

definition demo_rnd :: "bytes \<times> bytes" where
  "demo_rnd = (replicate 16 0, [1])"

definition demo_key :: bytes where
  "demo_key = new_key demo_prims demo_rnd demo_password"

definition demo_descriptor :: jsval where
  "demo_descriptor = newVaultKdf (fst demo_rnd)"

definition demo_state :: tk_state where
  "demo_state = (initial_state (Some (seal demo_prims [1] (vault_js demo_vault) demo_key demo_descriptor)) [] [demo_site] [])
     \<lparr>st_isLocked := False, st_hasPassword := True, st_vault := Some demo_vault, st_vaultKey := Some demo_key,
      st_vaultKeyBytes := Some demo_key, st_vaultKdf := Some demo_descriptor\<rparr>"

definition demo_windows :: window_world where
  "demo_windows = \<lparr>ww_focus = (\<lambda>_. False), ww_last = None, ww_create = (\<lambda>_. Some (Some 1))\<rparr>"

text \<open>A parser that knows HTTPS sites and localhost.\<close>

definition demo_urls :: url_parser where
  "demo_urls = (\<lambda>og.
     if og = ''http://localhost'' then Some \<lparr>url_protocol = ''http:'', url_hostname = ''localhost'', url_origin = og\<rparr>
     else if starts_with og ''https://'' then Some \<lparr>url_protocol = ''https:'', url_hostname = drop 8 og, url_origin = og\<rparr>
     else None)"

definition demo_env :: tk_env where
  "demo_env = \<lparr>te_prims = demo_prims, te_now = 0, te_requestId = ''r1'', te_channel = 7, te_save = demo_rnd,
     te_identity = (replicate 32 1, replicate 48 1), te_encryption = (replicate 48 1, replicate 64 1),
     te_sign = ([], []), te_sign2 = ([], []), te_kem = ((replicate 48 2, []), [1]), te_key = replicate 32 0,
     te_windows = demo_windows, te_urls = demo_urls, te_tab = None, te_runtimeId = ''ext'',
     te_base = Some ''chrome-extension://ext/'', te_devAutoSign = False\<rparr>"

definition demo_page :: sender where
  "demo_page = \<lparr>sn_id = ''ext'', sn_url = demo_site @ ''/app'', sn_origin = demo_site\<rparr>"

definition demo_dashboard :: sender where
  "demo_dashboard = \<lparr>sn_id = ''ext'', sn_url = ''chrome-extension://ext/index.html'', sn_origin = ''chrome-extension://ext''\<rparr>"

lemma demo_env_fields [simp]:
  "te_prims demo_env = demo_prims" "te_now demo_env = 0" "te_requestId demo_env = ''r1''" "te_channel demo_env = 7"
  "te_save demo_env = demo_rnd" "te_windows demo_env = demo_windows" "te_urls demo_env = demo_urls"
  "te_tab demo_env = None" "te_devAutoSign demo_env = False" "te_sign demo_env = ([], [])"
  by (simp_all add: demo_env_def)

lemma demo_state_fields [simp]:
  "st_isLocked demo_state = False" "st_vault demo_state = Some demo_vault" "st_vaultKey demo_state = Some demo_key"
  "st_vaultKeyBytes demo_state = Some demo_key" "st_vaultKdf demo_state = Some demo_descriptor" "st_pending demo_state = []"
  "st_pendingRotation demo_state = None" "st_popupWindow demo_state = None" "st_approvalWindow demo_state = None"
  "st_session demo_state = []" "st_hostPermissions demo_state = [demo_site]" "st_scripts demo_state = []"
  "st_hasPassword demo_state = True"
  by (simp_all add: demo_state_def initial_state_def)

subsection \<open>It is a possible world\<close>

lemma demo_account_ok: "account_ok demo_prims demo_account"
proof -
  obtain a where "generateAccount demo_prims ((replicate 32 0, replicate 48 0), (replicate 48 0, replicate 64 0)) 0 ''Alice'' = Inr a"
      "account_ok demo_prims a"
    using generate_ok [OF demo_signature demo_envelope,
        of "((replicate 32 0, replicate 48 0), (replicate 48 0, replicate 64 0))" 0 "''Alice''"]
    by (auto simp: good_identity_draw_def good_encryption_draw_def demo_prims_def)
  then show ?thesis by (simp add: demo_account_def)
qed

lemma demo_vault_ok: "vault_ok demo_prims demo_vault"
  using demo_account_ok by (simp add: vault_ok_def demo_vault_def pure_sites_def)

lemma demo_key_length: "length demo_key = 32"
  using demo_kdf by (simp add: demo_key_def)

lemma demo_kdf_ok: "checkKdf demo_descriptor = Inr (replicate 16 0)"
  using newVaultKdf_ok [of "fst demo_rnd"] by (simp add: demo_descriptor_def demo_rnd_def)

lemma demo_strong: "strong_rnd demo_rnd"
  by (simp add: strong_rnd_def demo_rnd_def)

lemma demo_unlocked: "unlocked_with demo_prims demo_state demo_vault demo_key demo_descriptor"
  using demo_vault_ok demo_key_length demo_kdf_ok
  by (auto simp: unlocked_with_def demo_state_def sealed_as_def initial_state_def)

lemma demo_password_opens: "deriveVaultKeyBits demo_prims demo_password demo_descriptor = Inr demo_key"
  using deriveBits_new [of "fst demo_rnd" demo_prims demo_password]
  by (simp add: demo_key_def demo_descriptor_def demo_rnd_def)

lemma demo_active: "active_of demo_vault = Some demo_account"
  by (simp add: active_of_def demo_vault_def)

lemma demo_connected: "site_on (v_permissions demo_vault) demo_site"
  by (simp add: site_on_def demo_vault_def)

lemma demo_page_external: "\<not> isInternalSender demo_env demo_page" "getSenderOrigin demo_page = Some demo_site"
  by (simp_all add: isInternalSender_def demo_env_def demo_page_def demo_site_def EXTENSION_PAGE_def getSenderOrigin_def starts_with_def)

lemma demo_dashboard_internal: "isInternalSender demo_env demo_dashboard"
  by (simp add: isInternalSender_def demo_env_def demo_dashboard_def EXTENSION_PAGE_def starts_with_def)

text \<open>The page asks for a signature: the request waits, in a window that opened.\<close>

definition demo_request :: request where
  "demo_request = \<lparr>rq_type = ''SIGN'', rq_origin = demo_site,
     rq_data = JObj [(''origin'', JStr demo_site), (''kind'', JStr ''text''), (''details'', JObj []),
                     (''account'', JStr (acc_name demo_account)), (''message'', JStr ''hello'')],
     rq_channel = 7, rq_action = Do_sign (JStr ''hello'')\<rparr>"

definition demo_waiting :: tk_state where
  "demo_waiting = demo_state\<lparr>st_pending := [(''r1'', demo_request)], st_approvalWindow := Some 1\<rparr>"

definition demo_sign :: jsval where
  "demo_sign = JObj [(''type'', JStr ''SIGN''), (''message'', JStr ''hello'')]"

lemma demo_sign_waits: "dispatch demo_env demo_page demo_sign demo_state = ([], demo_waiting)"
proof -
  have conn: "requireConnectedOrigin (Some demo_site) demo_state = (Inr demo_site, demo_state)"
    using demo_connected by (simp add: requireConnectedOrigin_ok demo_site_def)
  have act: "requireActiveAccount demo_state = (Inr demo_account, demo_state)"
    using demo_active by (simp add: requireActiveAccount_ok)
  have ul: "requireUnlocked demo_state = (Inr (), demo_state)" by (simp add: requireUnlocked_ok)
  have ask: "ask_user demo_windows ''r1'' demo_request demo_state = (Inr None, demo_waiting)"
    by (simp add: ask_user_def requestApproval_def requestApproval_begin_def requestApproval_window_def openTrackedWindow_def
        create_attempts_def window_position_def queued_def demo_windows_def demo_waiting_def pendingForOrigin_def
        MAX_PENDING_TOTAL_def MAX_PENDING_PER_ORIGIN_def)
  have "contextOf (JStr ''hello'') = None"
    by (simp add: contextOf_def prefix_eq starts_with_def ds_prefix_def ds_header_def)
  then have sign: "handleSign demo_env demo_page demo_sign demo_state = (Inr None, demo_waiting)"
    using demo_page_external conn act ul ask
    by (simp add: handleSign_def Let_def demo_sign_def andThen_apply requestSignature_def asked_def demo_request_def)
  have "map_of HANDLERS ''SIGN'' = Some (raw_page handleSign)" by (simp add: HANDLERS_def)
  then show ?thesis
    using demo_page_external(1) sign
    by (simp add: dispatch_def handle_message_def Let_def andThen_apply look_up_def run_entry_def handler_def resolve_origin_def
        pending_answer_def) (simp add: demo_sign_def look_up_def run_entry_def handler_def resolve_origin_def andThen_apply pending_answer_def)
qed

lemma demo_env_ok: "env_ok demo_prims demo_env"
  using demo_strong by (simp add: env_ok_def demo_env_def good_identity_draw_def good_encryption_draw_def)
    (simp add: demo_prims_def)

text \<open>The same vault with silent signing granted to the site, and a chat message to sign.\<close>

definition demo_granted :: tk_state where
  "demo_granted = demo_state\<lparr>st_vault := Some (grant_autosign demo_site True demo_vault)\<rparr>"

definition demo_chat :: jsval where
  "demo_chat = JObj [(''type'', JStr ''SIGN_MESSAGE''), (''message'', JStr (MESSAGE_SIGNING_PREFIX @ ''hello''))]"

lemma demo_chat_signed:
  "\<exists>sig. sig \<noteq> [] \<and> dispatch demo_env demo_page demo_chat demo_granted = ([(7, ok_reply [(''signature'', JStr sig)])], demo_granted)"
proof -
  let ?w = "grant_autosign demo_site True demo_vault"
  let ?m = "MESSAGE_SIGNING_PREFIX @ ''hello''"
  obtain sig where sig: "sign_value demo_env (JStr ?m) demo_account = Inr (ok_reply [(''signature'', JStr sig)])"
      "verifyIdentitySignature demo_prims (JStr (acc_id demo_account)) (JStr (hp_publicKey (acc_identity demo_account))) (text_arg (JStr ?m)) (JStr sig)"
    using account_signs [OF demo_signature demo_digest demo_env_fields(1) demo_account_ok] by blast
  have ne: "sig \<noteq> []" using sig(2) by (auto simp: verifyIdentitySignature_iff fromB64.simps)
  have w: "active_of ?w = Some demo_account" "site_on (v_permissions ?w) demo_site" "site_on (autosign_sites ?w) demo_site"
    using demo_active demo_connected by (simp_all add: grant_autosign_def active_of_def autosign_sites_def site_on_def demo_vault_def)
  have s: "requireUnlocked demo_granted = (Inr (), demo_granted)" "the_vault demo_granted = (Inr ?w, demo_granted)"
    by (simp_all add: demo_granted_def requireUnlocked_ok the_vault_ok)
  have "starts_with ?m MESSAGE_SIGNING_PREFIX" by (simp add: starts_with_def)
  then have "handleSignMessage demo_env demo_page demo_chat demo_granted = (Inr (Some (ok_reply [(''signature'', JStr sig)])), demo_granted)"
    using demo_page_external s w sig(1)
    by (simp add: handleSignMessage_def Let_def demo_chat_def andThen_apply silent_allowed_def)
  then have "dispatch demo_env demo_page demo_chat demo_granted = ([(7, ok_reply [(''signature'', JStr sig)])], demo_granted)"
    using demo_page_external(1) sign_message_entry
    by (simp add: dispatch_def handle_message_def Let_def andThen_apply look_up_def run_entry_def handler_def resolve_origin_def
        pending_answer_def) (simp add: demo_chat_def look_up_def run_entry_def handler_def resolve_origin_def andThen_apply pending_answer_def)
  then show ?thesis using ne by blast
qed

text \<open>Two draws of an encryption key give two key ids.\<close>

lemma take_toHex: "take (2 * n) (toHex bs) = toHex (take n bs)"
  by (induction bs arbitrary: n) (simp_all add: toHex_def hex_byte_def take_Cons split: nat.splits)

lemma demo_record:
  assumes "length (fst d) = 48" "length (snd d) = 64"
  shows "\<exists>pair k. generateEncryptionKeyPair demo_prims d = Inr pair \<and> encryptionRecord demo_prims pair now = Inr k \<and>
    ek_kid k = toHex (take 16 (rev (snd d)))"
proof -
  let ?sk = "fst d @ snd d"
  let ?pk = "p384_pub demo_prims (fst d) @ mlkem_pk demo_prims (snd d)"
  have sk: "catkdf_usable demo_prims ?sk" using assms by (simp add: catkdf_usable_def demo_prims_def)
  then have pk: "catkdfPublicKey demo_prims (Some ?sk) = Inr ?pk" using assms by (simp add: catkdfPublicKey_ok)
  have "take 32 (sha384HexBytes demo_prims (key_id_domain @ ?pk)) = take (2 * 16) (toHex (sha384 demo_prims (key_id_domain @ ?pk)))"
    by (simp add: sha384HexBytes_def)
  also have "\<dots> = toHex (take 16 (rev (snd d)))"
    unfolding take_toHex using assms(2) by (simp add: demo_prims_def fit_def)
  finally have "encryptionKeyId demo_prims (JStr (toHex ?pk)) = Inr (toHex (take 16 (rev (snd d))))"
    using encryptionKeyId_toHex [of ?pk demo_prims] by (simp add: demo_prims_def)
  then show ?thesis
    using pk by (simp add: generateEncryptionKeyPair_def catkdfKeygen_def encryptionRecord_def Let_def)
qed

lemma demo_kids: "account_kids demo_account = [toHex (replicate 16 0)]"
proof -
  obtain pair k where k: "generateEncryptionKeyPair demo_prims (replicate 48 0, replicate 64 0) = Inr pair"
      "encryptionRecord demo_prims pair 0 = Inr k" "ek_kid k = toHex (replicate 16 0)"
    using demo_record [of "(replicate 48 0, replicate 64 0)" 0] by auto
  obtain a where a: "generateAccount demo_prims ((replicate 32 0, replicate 48 0), (replicate 48 0, replicate 64 0)) 0 ''Alice'' = Inr a"
    using generate_ok [OF demo_signature demo_envelope,
        of "((replicate 32 0, replicate 48 0), (replicate 48 0, replicate 64 0))" 0 "''Alice''"]
    by (auto simp: good_identity_draw_def good_encryption_draw_def demo_prims_def)
  then have "acc_encryption a = k" "acc_retired a = []"
    using k by (auto simp: generateAccount_def)
  then show ?thesis using a k(3) by (simp add: demo_account_def account_kids_def)
qed

lemma demo_fresh: "fresh_key demo_prims (te_encryption demo_env) demo_state"
proof -
  have d: "te_encryption demo_env = (replicate 48 1, replicate 64 1)" by (simp add: demo_env_def)
  obtain pair k where "generateEncryptionKeyPair demo_prims (te_encryption demo_env) = Inr pair"
      "encryptionRecord demo_prims pair 0 = Inr k" "ek_kid k = toHex (replicate 16 1)"
    using demo_record [of "te_encryption demo_env" 0] by (auto simp: d)
  then have "new_kid demo_prims (te_encryption demo_env) = toHex (replicate 16 1)" by (simp add: new_kid_def)
  moreover have "toHex (replicate 16 1) \<noteq> toHex (replicate 16 0)" by (simp add: toHex_inj)
  ultimately show ?thesis using demo_kids by (simp add: fresh_key_def demo_vault_def)
qed

end
