(* ===== verification/TkProperties.thy ===== *)
theory TkProperties
  imports TkDemo
begin

text \<open>
  What the TrustKeys extension guarantees, one theorem each, with a witness at the demonstration
  world where it has hypotheses.
\<close>

section \<open>The extension as a whole\<close>

text \<open>C1: Whatever messages arrive and whatever Chrome reports, in any order and from a fresh
  installation on: locked, the worker holds neither vault nor key; unlocked, it holds exactly the
  vault that is on disk, under the key and descriptor that open it; a cached session opens that
  vault; the queue is within its bounds and asks only for honest signatures.\<close>

theorem extension_always_ok:
  assumes "tk_laws P"
  shows "extension_ok P (fold (extension_step P) events (initial_state None [] hosts scripts))"
  using run_ok_all [OF assms] .

theorem extension_always_ok_witness:
  "extension_ok demo_prims (fold (extension_step demo_prims)
     [(demo_env, Message demo_dashboard (JObj [(''type'', JStr ''SETUP_PASSWORD''), (''password'', JStr demo_password)])),
      (demo_env, Idle_alarm), (demo_env, Worker_restart)] (initial_state None [] [demo_site] []))"
  using extension_always_ok [OF demo_laws] .

text \<open>C3: A page's message changes nothing but the queue and the windows: not the vault, its keys,
  the stored blob, the session, the host permissions nor the injected scripts. The undoing of its
  own rotation is the one exception.\<close>

theorem page_message_touches_nothing:
  assumes "\<not> isInternalSender E sn" and "js_str (js_get request ''type'') \<noteq> ''REVERT_ENCRYPTION_KEY_ROTATION''"
    and "snd (dispatch E sn request s) = t"
  shows "st_vault t = st_vault s \<and> st_isLocked t = st_isLocked s \<and> st_vaultKey t = st_vaultKey s \<and>
    st_vaultKeyBytes t = st_vaultKeyBytes s \<and> st_vaultKdf t = st_vaultKdf s \<and> st_vaultData t = st_vaultData s \<and>
    st_session t = st_session s \<and> st_hasPassword t = st_hasPassword s \<and> st_pendingRotation t = st_pendingRotation s \<and>
    st_hostPermissions t = st_hostPermissions s \<and> st_scripts t = st_scripts s"
  using same_core_fields [OF page_step [OF assms(1,2), of s]] assms(3) by simp

theorem page_message_touches_nothing_witness:
  "\<exists>t. snd (dispatch demo_env demo_page (JObj [(''type'', JStr ''CONNECT'')]) demo_state) = t \<and>
     st_vault t = Some demo_vault \<and> st_vaultKey t = Some demo_key"
  using page_message_touches_nothing [OF demo_page_external(1), of "JObj [(''type'', JStr ''CONNECT'')]" demo_state]
  by (simp add: demo_state_def)

text \<open>Undoing destroys nothing: it needs a rotation the same site made within the last five
  minutes, and the account it edits keeps its address, its identity and every encryption key.\<close>

theorem page_undo_destroys_nothing:
  assumes "env_ok P E" and "unlocked_with P s v key kdf" and "\<not> isInternalSender E sn"
    and "js_str (js_get request ''type'') = ''REVERT_ENCRYPTION_KEY_ROTATION''"
  shows "st_vault (snd (dispatch E sn request s)) = Some v \<or>
    (\<exists>p a b. st_pendingRotation s = Some p \<and> getSenderOrigin sn = Some (pn_origin p) \<and>
       te_now E - pn_at p \<le> 5 * 60 * 1000 \<and> active_of v = Some a \<and>
       st_vault (snd (dispatch E sn request s)) = Some (put_account b v) \<and>
       set (account_keys b) = set (account_keys a) \<and> acc_id b = acc_id a \<and> acc_identity b = acc_identity a)"
  using page_undo_keeps [OF assms] unfolding UNDO_WINDOW_MS_def .

theorem page_undo_destroys_nothing_witness:
  "\<exists>w. st_vault (snd (dispatch demo_env demo_page (JObj [(''type'', JStr ''REVERT_ENCRYPTION_KEY_ROTATION'')]) demo_state)) = Some w \<and>
     (w = demo_vault \<or> (\<exists>b. w = put_account b demo_vault \<and> set (account_keys b) = set (account_keys demo_account)))"
  using page_undo_destroys_nothing [OF demo_env_ok demo_unlocked demo_page_external(1),
      of "JObj [(''type'', JStr ''REVERT_ENCRYPTION_KEY_ROTATION'')]"] demo_active by auto

text \<open>C4: Every request a page's message puts before the user is shown as, and permitted to, the
  origin Chrome attached to that page; and the text it asks to have signed, as the encoder reads
  what the message carries, states no login, deletion or erasure at another site and nothing about
  a key, unless the message carries an array.\<close>

theorem page_asks_only_for_itself:
  assumes "\<not> isInternalSender E sn" and "js_str (js_get request ''type'') \<noteq> ''REVERT_ENCRYPTION_KEY_ROTATION''"
    and "(rid, rq) \<in> set (st_pending (snd (dispatch E sn request s)))" and "(rid, rq) \<notin> set (st_pending s)"
  shows "getSenderOrigin sn = Some (rq_origin rq) \<and> rq_channel rq = te_channel E \<and>
    (\<forall>body. rq_action rq = Do_sign body \<longrightarrow> (\<forall>vs. body \<noteq> JArr vs) \<longrightarrow>
       (\<forall>f. loginChallengeBody f = Inr (text_arg body) \<longrightarrow> lf_origin f = JStr (rq_origin rq)) \<and>
       (\<forall>f. accountDeletionBody (te_prims E) f = Inr (text_arg body) \<longrightarrow> df_origin f = JStr (rq_origin rq)) \<and>
       (\<forall>f. conversationEraseBody (te_prims E) f = Inr (text_arg body) \<longrightarrow> ef_origin f = JStr (rq_origin rq)) \<and>
       (\<forall>f. encryptionKeyAttestationBody f \<noteq> Inr (text_arg body)) \<and> (\<forall>f. keyRotationBody f \<noteq> Inr (text_arg body)))"
  using page_asks_as_itself [OF assms] by (simp add: from_sender_def honest_request_def honest_text_def)

theorem page_asks_only_for_itself_witness:
  "\<exists>rq. (''r1'', rq) \<in> set (st_pending (snd (dispatch demo_env demo_page demo_sign demo_state))) \<and>
     rq_origin rq = demo_site \<and> rq_channel rq = 7 \<and> rq_action rq = Do_sign (JStr ''hello'') \<and>
     (\<forall>f. keyRotationBody f \<noteq> Inr ''hello'')"
proof -
  have q: "(''r1'', demo_request) \<in> set (st_pending (snd (dispatch demo_env demo_page demo_sign demo_state)))"
    by (simp add: demo_sign_waits demo_waiting_def)
  have act: "rq_action demo_request = Do_sign (JStr ''hello'')" by (simp add: demo_request_def)
  show ?thesis
    using page_asks_only_for_itself [OF demo_page_external(1) _ q] demo_page_external(2) q act
    by (intro exI [of _ demo_request]) (auto simp: demo_sign_def)
qed

text \<open>The vault-control messages are the extension's own: from a page each is refused and
  changes nothing.\<close>

theorem internal_messages_refused_to_pages:
  assumes "name \<in> set INTERNAL_ONLY_TYPES" and "js_get request ''type'' = JStr name" and "\<not> isInternalSender E sn"
  shows "dispatch E sn request s = ([(te_channel E, err_reply ''Unauthorized: Internal use only'')], s)"
  using internal_refused [OF assms] .

theorem internal_messages_refused_to_pages_witness:
  "dispatch demo_env demo_page
     (JObj [(''type'', JStr ''RESOLVE_REQUEST''), (''requestId'', JStr ''r1''), (''approved'', JBool True)]) demo_waiting =
     ([(7, err_reply ''Unauthorized: Internal use only'')], demo_waiting)"
  using internal_messages_refused_to_pages [of "''RESOLVE_REQUEST''", OF _ _ demo_page_external(1)] by (simp add: internal_names)

text \<open>The content script's relay never carries a page's message to one of the extension's own
  types, and every type it names is one the worker knows.\<close>

theorem relay_names_page_types:
  assumes "relay location data = Some m"
  shows "\<exists>t. js_get m ''type'' = JStr t \<and> t \<notin> set INTERNAL_ONLY_TYPES \<and> t \<in> fst ` set HANDLERS"
  using relayed [OF assms] .

theorem relay_names_page_types_witness:
  "\<exists>m t. relay demo_site (JObj [(''source'', JStr ''TRUSTKEYS_PAGE''), (''type'', JStr ''TRUSTKEYS_SIGN''), (''message'', JStr ''m'')]) = Some m \<and>
     js_get m ''type'' = JStr t \<and> t \<notin> set INTERNAL_ONLY_TYPES"
proof -
  let ?d = "JObj [(''source'', JStr ''TRUSTKEYS_PAGE''), (''type'', JStr ''TRUSTKEYS_SIGN''), (''message'', JStr ''m'')]"
  obtain m where m: "relay demo_site ?d = Some m" by (simp add: relay_def RELAY_def)
  then show ?thesis using relay_names_page_types [OF m] by blast
qed

text \<open>C17: No message is left without an answer: the worker replies to it, or leaves a request on
  the queue whose timeout, if nothing settles it before, replies to it.\<close>

theorem every_message_answered:
  "(\<exists>r. (te_channel E, r) \<in> set (fst (dispatch E sn request s))) \<or>
   (\<exists>r. (te_channel E, r) \<in> set (fst (handle_event F (Approval_timeout (te_requestId E)) (snd (dispatch E sn request s)))))"
  using dispatch_replies [of E sn request s "fst (dispatch E sn request s)" "snd (dispatch E sn request s)"]
    timeout_answers [of E "snd (dispatch E sn request s)" F] by auto

text \<open>C10: Without a window a page has two things signed and no more. Whatever a page's message is, how
  it is handled does not depend on the signing primitives at all, unless it is one of these. A
  \<open>SIGN_MESSAGE\<close> over a text of the message context, to an unlocked vault, from a connected site
  the user granted silent signing to (or, in a development build, from any connected development
  origin): the reply is the active account's signature of that text. A \<open>GET_KEY_ATTESTATION\<close> to
  an unlocked vault from a connected site, granted or not: the reply is the active account's
  attestation of its own current encryption key. Neither changes the worker's state.\<close>

theorem two_silent_signatures:
  assumes "\<not> isInternalSender E sn"
  shows "(\<forall>ml ec. dispatch (resigning ml ec E) sn request s = dispatch E sn request s) \<or>
    (\<exists>m v og a. js_str (js_get request ''type'') = ''SIGN_MESSAGE'' \<and> \<not> st_isLocked s \<and>
      js_get request ''message'' = JStr m \<and> starts_with m MESSAGE_SIGNING_PREFIX \<and>
      st_vault s = Some v \<and> getSenderOrigin sn = Some og \<and> site_on (v_permissions v) og \<and>
      (site_on (autosign_sites v) og \<or> (te_devAutoSign E \<and> isDevOrigin (te_urls E) og)) \<and> active_of v = Some a \<and>
      dispatch E sn request s = ([(te_channel E, answer_of (sign_value E (JStr m) a))], s)) \<or>
    (\<exists>v og a. js_str (js_get request ''type'') = ''GET_KEY_ATTESTATION'' \<and> \<not> st_isLocked s \<and>
      st_vault s = Some v \<and> getSenderOrigin sn = Some og \<and> site_on (v_permissions v) og \<and> active_of v = Some a \<and>
      dispatch E sn request s = ([(te_channel E, answer_of (bind_res
        (attestEncryptionKey (te_prims E) (own_attestation a (ek_publicKey (acc_encryption a))) (JStr (hp_seed (acc_identity a))) (te_sign E))
        (\<lambda>t. Ok (ok_reply [(''attestation'', JStr t)]))))], s))"
  using silent_signatures [OF assms] by blast

theorem two_silent_signatures_witness:
  "\<exists>v m. st_vault demo_granted = Some v \<and> site_on (autosign_sites v) demo_site \<and> active_of v = Some demo_account \<and>
     js_get demo_chat ''message'' = JStr m \<and>
     dispatch demo_env demo_page demo_chat demo_granted = ([(7, answer_of (sign_value demo_env (JStr m) demo_account))], demo_granted)"
proof -
  obtain sig where d: "sig \<noteq> []" "dispatch demo_env demo_page demo_chat demo_granted = ([(7, ok_reply [(''signature'', JStr sig)])], demo_granted)"
    using demo_chat_signed by blast
  let ?R = "resigning (\<lambda>_ _ _ _. []) (\<lambda>_ _ _. []) demo_env" and ?r = "ok_reply [(''signature'', JStr sig)]"
  have "dispatch ?R demo_page demo_chat demo_granted \<noteq> dispatch demo_env demo_page demo_chat demo_granted"
  proof
    assume eq: "dispatch ?R demo_page demo_chat demo_granted = dispatch demo_env demo_page demo_chat demo_granted"
    have page: "\<not> isInternalSender ?R demo_page" using demo_page_external(1) by (simp add: unsigned_sender)
    have r: "(te_channel ?R, ?r) \<in> set (fst (dispatch ?R demo_page demo_chat demo_granted))" "js_get ?r ''signature'' \<noteq> JUndef"
      using d(2) eq by (simp_all add: resigning_env ok_reply_def)
    obtain m a where "sign_value ?R (JStr m) a = Inr ?r"
      using page_signature [OF page r] unfolding silently_signed_def by blast
    then have "sig = []" using signed_by_nothing by (fastforce simp: sign_value_def resigning_env ok_reply_def)
    then show False using d(1) by simp
  qed
  moreover have "js_str (js_get demo_chat ''type'') = ''SIGN_MESSAGE''" "active_of (grant_autosign demo_site True demo_vault) = Some demo_account"
      "st_vault demo_granted = Some (grant_autosign demo_site True demo_vault)"
    using demo_active by (simp_all add: demo_chat_def demo_granted_def grant_autosign_def active_of_def demo_vault_def)
  ultimately show ?thesis
    using two_silent_signatures [OF demo_page_external(1), of demo_chat demo_granted] demo_page_external(2) by auto
qed

text \<open>Every approval of a run of the queue is one the user gave, whatever windows open, close
  or fail to, and whatever times out.\<close>

theorem only_the_user_approves:
  assumes "(rid, Approve rq) \<in> set (ar_log (run_approvals events (start_run s)))"
  shows "Ev_settle rid True \<in> set events"
  using approved_by_user [OF assms] by (simp add: start_run_def)

theorem only_the_user_approves_witness:
  "Ev_settle ''r1'' True \<in> set [Ev_window ''r1'' True, Ev_settle ''r1'' True]"
  using only_the_user_approves [of "''r1''" demo_request "[Ev_window ''r1'' True, Ev_settle ''r1'' True]" demo_waiting]
  by (simp add: run_approvals_def start_run_def log_one_def requestApproval_window_def settleApproval_def settle_def demo_waiting_def)

text \<open>C18: The queue never holds more than ten requests, nor more than three of one origin; every
  request ever registered is either waiting or settled, never both, and is settled at most once.\<close>

theorem settled_exactly_once:
  assumes "queue_ok s" and "run_approvals events (start_run s) = r"
  shows "length (st_pending (ar_state r)) \<le> 10 \<and> (\<forall>origin. pendingForOrigin origin (ar_state r) \<le> 3) \<and>
    distinct (map fst (ar_log r)) \<and>
    (\<forall>rid\<in>set (ar_issued r). (rid \<in> fst ` set (st_pending (ar_state r))) \<noteq> (rid \<in> fst ` set (ar_log r)))"
  using queue_always_ok [OF assms(1), of events] settled_at_most_once [OF assms(1), of events]
    waiting_or_settled [OF assms(1), of _ events] assms(2)
  by (simp add: queue_ok_def MAX_PENDING_TOTAL_def MAX_PENDING_PER_ORIGIN_def)

lemma demo_waiting_ok: "queue_ok demo_waiting"
  by (simp add: queue_ok_def demo_waiting_def pendingForOrigin_def MAX_PENDING_TOTAL_def MAX_PENDING_PER_ORIGIN_def)

theorem settled_exactly_once_witness:
  "distinct (map fst (ar_log (run_approvals [Ev_timeout ''r1'', Ev_settle ''r1'' True, Ev_closed 1] (start_run demo_waiting))))"
  using settled_exactly_once [OF demo_waiting_ok refl] by blast

text \<open>Dismissing the approval window refuses every request it was asking about, each to its
  own asker, in order, and runs none of them.\<close>

theorem dismissed_window_refuses_all:
  assumes "st_approvalWindow s = Some wid"
  shows "fst (handle_event E (Window_removed wid) s) =
      map (\<lambda>(_, rq). (rq_channel rq, err_reply ''Approval window closed'')) (st_pending s) \<and>
    st_pending (snd (handle_event E (Window_removed wid) s)) = [] \<and> st_vault (snd (handle_event E (Window_removed wid) s)) = st_vault s"
  using window_closed_refuses [OF assms]
  by (simp add: refusals_def run_settlement_def comp_def case_prod_beta concat_map_singleton)

theorem dismissed_window_refuses_all_witness:
  "fst (handle_event demo_env (Window_removed 1) demo_waiting) = [(7, err_reply ''Approval window closed'')]"
  using dismissed_window_refuses_all [of demo_waiting 1 demo_env] by (simp add: demo_waiting_def demo_request_def)

section \<open>The vault and its session\<close>

text \<open>C26: Locking drops the vault, its key, the key's descriptor and a rotation held for undoing from
  memory, and the cached key from the session storage; it keeps what is stored on disk and, as it
  stands, every request that waits for the user. The password opens the same vault again, with
  those requests still waiting.\<close>

theorem lock_then_unlock:
  assumes "tk_laws P" and "unlocked_with P s v key kdf" and "deriveVaultKeyBits P pw kdf = Inr key"
  shows "st_vault (lockWithSession s) = None \<and> st_vaultKey (lockWithSession s) = None \<and>
    st_vaultKeyBytes (lockWithSession s) = None \<and> st_vaultKdf (lockWithSession s) = None \<and>
    st_pendingRotation (lockWithSession s) = None \<and> st_isLocked (lockWithSession s) \<and>
    session_get ''vaultKeyHex'' (lockWithSession s) = JUndef \<and>
    st_vaultData (lockWithSession s) = st_vaultData s \<and> st_pending (lockWithSession s) = st_pending s \<and>
    (\<exists>t. unlockWithSession P now pw (lockWithSession s) = (Inr True, t) \<and> unlocked_with P t v key kdf \<and> cached t key kdf now \<and>
       st_pending t = st_pending s)"
proof -
  let ?l = "lockWithSession s"
  have d: "on_disk P ?l v key kdf" using unlocked_on_disk [OF assms(2)] by simp
  note o = unlock_password [OF _ d assms(3), of now]
  have "cached (persistSession now (opened_as ?l v key kdf)) key kdf now"
    by (rule persist_cached) (simp_all add: opened_as_def)
  moreover have "unlocked_with P (persistSession now (opened_as ?l v key kdf)) v key kdf"
    using opened_unlocked [OF d] session_only_ok(1) [OF session_only_ops(3)] by blast
  moreover have "st_pending (persistSession now (opened_as ?l v key kdf)) = st_pending s"
    by (simp add: opened_as_def)
  moreover have "st_vaultData ?l = st_vaultData s"
    by (simp add: lockWithSession_def lock_def clearSession_def session_remove_def)
  ultimately show ?thesis
    using o assms(1) lock_clean(2) [of s] cleared_gone [of "lock s"]
    by (simp add: unlockWithSession_def andThen_apply tk_laws_def locked_clean_def lockWithSession_def [of s, symmetric])
qed

theorem lock_then_unlock_witness:
  "st_vault demo_waiting = Some demo_vault \<and> st_vault (lockWithSession demo_waiting) = None \<and>
   st_pending (lockWithSession demo_waiting) = [(''r1'', demo_request)] \<and>
   (\<exists>t. unlockWithSession demo_prims 5 demo_password (lockWithSession demo_waiting) = (Inr True, t) \<and> st_vault t = Some demo_vault \<and>
      st_pending t = [(''r1'', demo_request)])"
proof -
  have w: "st_vault demo_waiting = Some demo_vault" "st_pending demo_waiting = [(''r1'', demo_request)]" by (simp_all add: demo_waiting_def)
  have "unlocked_with demo_prims demo_waiting demo_vault demo_key demo_descriptor"
    using demo_unlocked by (simp add: unlocked_with_def demo_waiting_def sealed_as_def)
  from lock_then_unlock [OF demo_laws this demo_password_opens] w show ?thesis by (auto simp: unlocked_with_def)
qed

text \<open>A password that derives another key is answered false and changes nothing: neither
  what is stored, nor what is locked.\<close>

theorem wrong_password_changes_nothing:
  assumes "tk_laws P" and "on_disk P s v key kdf"
    and "deriveVaultKeyBits P pw kdf = Inr key'" and "key' \<noteq> key"
  shows "unlockWithSession P now pw s = (Inr False, s)"
  using unlock_wrong_password [OF _ _ _ assms(2-4), of now] assms(1)
  by (simp add: unlockWithSession_def andThen_apply tk_laws_def)

lemma demo_other_key:
  "deriveVaultKeyBits demo_prims ''another'' demo_descriptor = Inr (new_key demo_prims demo_rnd ''another'')"
  "new_key demo_prims demo_rnd ''another'' \<noteq> demo_key"
proof -
  show "deriveVaultKeyBits demo_prims ''another'' demo_descriptor = Inr (new_key demo_prims demo_rnd ''another'')"
    using deriveBits_new [of "fst demo_rnd" demo_prims "''another''"] by (simp add: demo_descriptor_def demo_rnd_def)
  have "new_key demo_prims demo_rnd ''another'' ! 1 \<noteq> demo_key ! 1"
    by (simp add: demo_key_def demo_prims_def demo_rnd_def demo_password_def fit_def utf8_def utf8_char_def byte_def)
  then show "new_key demo_prims demo_rnd ''another'' \<noteq> demo_key" by metis
qed

theorem wrong_password_changes_nothing_witness:
  "unlockWithSession demo_prims 5 ''another'' (lockWithSession demo_state) = (Inr False, lockWithSession demo_state)"
proof -
  have "on_disk demo_prims (lockWithSession demo_state) demo_vault demo_key demo_descriptor"
    using unlocked_on_disk [OF demo_unlocked] by simp
  then show ?thesis using wrong_password_changes_nothing [OF demo_laws _ demo_other_key] by blast
qed

text \<open>C27: The unlocked session lives an hour past the user's last act and no longer: within it a
  worker that starts again resumes the vault and the alarm leaves it be; after it the alarm locks,
  and a worker that starts again stays locked and forgets the key.\<close>

theorem session_lives_an_hour:
  assumes "tk_laws P" and "unlocked_with P s v key kdf" and "cached s key kdf at"
  shows "(now - at < 60 * 60 * 1000 \<longrightarrow> idle_alarm now s = s \<and>
        (\<exists>t. restoreSession P now (lock s) = (Inr True, t) \<and> unlocked_with P t v key kdf)) \<and>
    (60 * 60 * 1000 \<le> now - at \<longrightarrow> idle_alarm now s = lockWithSession s \<and>
        restoreSession P now (lock s) = (Inr False, clearSession (lock s)) \<and>
        session_get ''vaultKeyHex'' (clearSession (lock s)) = JUndef)"
proof -
  have d: "on_disk P (lock s) v key kdf" and c: "cached (lock s) key kdf at"
    using unlocked_on_disk [OF assms(2)] assms(3) by (simp_all add: on_disk_def lock_def cached_def session_get_def)
  show ?thesis
    using restore_within [OF _ d c, of now] opened_unlocked [OF d] idle_alarm_locks [OF assms(3), of now] assms(1)
      unlocked_facts(2) [OF assms(2)] restore_expired [OF c, of now P] cached_truthy [OF d] cleared_gone [of "lock s"]
    by (auto simp: IDLE_TIMEOUT_MS_def tk_laws_def)
qed

theorem session_lives_an_hour_witness:
  "\<exists>t. restoreSession demo_prims 3599999 (lock (persistSession 0 demo_state)) = (Inr True, t) \<and> st_vault t = Some demo_vault \<and>
     idle_alarm 3600000 (persistSession 0 demo_state) = lockWithSession (persistSession 0 demo_state)"
proof -
  have c: "cached (persistSession 0 demo_state) demo_key demo_descriptor 0" by (rule persist_cached) simp_all
  have "unlocked_with demo_prims (persistSession 0 demo_state) demo_vault demo_key demo_descriptor"
    using demo_unlocked session_only_ok(1) [OF session_only_ops(3)] by blast
  then show ?thesis
    using session_lives_an_hour [OF demo_laws _ c, of demo_vault 3599999] session_lives_an_hour [OF demo_laws _ c, of demo_vault 3600000]
    by (auto simp: unlocked_with_def)
qed

text \<open>A password is set once and only an acceptable one: then the worker is unlocked on an
  empty vault, sealed under the key of that password and the descriptor stored beside it;
  otherwise nothing changes.\<close>

theorem password_set_once:
  assumes "tk_laws P" and "strong_rnd rnd"
  shows "if \<not> st_hasPassword s \<and> vaultPasswordProblem (JStr pw) = None
    then \<exists>t. setupPassword P rnd now (JStr pw) s = (Inr (), t) \<and>
      unlocked_with P t empty_vault (new_key P rnd pw) (newVaultKdf (fst rnd))
    else \<exists>e. setupPassword P rnd now (JStr pw) s = (Inl e, s)"
proof (cases "st_hasPassword s")
  case True
  then show ?thesis using setupPassword_twice [of s P rnd now "JStr pw"] by simp
next
  case False
  show ?thesis
  proof (cases "vaultPasswordProblem (JStr pw)")
    case None
    then show ?thesis using False setupPassword_ok [OF _ assms(2) False None, of P now] assms(1) by (auto simp: tk_laws_def)
  next
    case (Some p)
    then show ?thesis using False setupPassword_weak [OF False Some, of P rnd now] by simp
  qed
qed

theorem password_set_once_witness:
  "\<exists>t. setupPassword demo_prims demo_rnd 0 (JStr demo_password) (initial_state None [] [] []) = (Inr (), t) \<and>
     st_vault t = Some empty_vault"
proof -
  have "vaultPasswordProblem (JStr demo_password) = None" by code_simp
  then show ?thesis
    using password_set_once [OF demo_laws demo_strong, of "initial_state None [] [] []" demo_password 0]
    by (auto simp: initial_state_def unlocked_with_def)
qed

text \<open>C30: A backup comes back: the encrypted export of the active account, imported under its passphrase
  into any unlocked vault, adds that account, with all its keys, behind the accounts the vault and
  its disk hold, if none of them has its id; if one has, the import leaves the vault as it was.\<close>

theorem backup_round_trip:
  assumes "tk_laws P" and "strong_rnd rnd" and "strong_rnd rnd'" and "unlocked_with P s v key kdf"
    and "deriveVaultKeyBits P pw kdf = Inr key" and "active_of v = Some a" and "vaultPasswordProblem (JStr pp) = None"
    and "unlocked_with P t w key' kdf'"
  shows "\<exists>file u. exportEncryptedVault P rnd (JStr pw) (JStr pp) s = (Inr file, s) \<and>
    importVault P rnd' now (JStr file) JUndef (JStr pp) t = (Inr (), u) \<and>
    (if acc_id a \<in> acc_id ` set (v_accounts w) then unlocked_with P u w key' kdf'
     else unlocked_with P u (w\<lparr>v_accounts := v_accounts w @ [a]\<rparr>) key' kdf')"
proof -
  have "merge_accounts (v_accounts w) [a] = (if acc_id a \<in> acc_id ` set (v_accounts w) then v_accounts w else v_accounts w @ [a])"
    by (simp add: merge_accounts_def)
  moreover have "w\<lparr>v_accounts := v_accounts w\<rparr> = w" by simp
  ultimately show ?thesis
    using export_import [OF _ _ assms(2-8), of now] assms(1)
    by (cases "acc_id a \<in> acc_id ` set (v_accounts w)") (simp_all add: tk_laws_def)
qed

theorem backup_round_trip_witness:
  "\<exists>t file u w. setupPassword demo_prims demo_rnd 0 (JStr demo_password) (initial_state None [] [] []) = (Inr (), t) \<and>
     st_vault t = Some empty_vault \<and> v_accounts empty_vault = [] \<and>
     exportEncryptedVault demo_prims demo_rnd (JStr demo_password) (JStr demo_password) demo_state = (Inr file, demo_state) \<and>
     importVault demo_prims demo_rnd 0 (JStr file) JUndef (JStr demo_password) t = (Inr (), u) \<and>
     st_vault u = Some w \<and> v_accounts w = [demo_account]"
proof -
  have pw: "vaultPasswordProblem (JStr demo_password) = None" by code_simp
  obtain t where t: "setupPassword demo_prims demo_rnd 0 (JStr demo_password) (initial_state None [] [] []) = (Inr (), t)"
      "unlocked_with demo_prims t empty_vault (new_key demo_prims demo_rnd demo_password) (newVaultKdf (fst demo_rnd))"
    using setupPassword_ok [OF _ demo_strong, of demo_prims "initial_state None [] [] []" demo_password 0] demo_laws pw
    by (auto simp: initial_state_def tk_laws_def)
  have e: "v_accounts empty_vault = []" by (simp add: empty_vault_def)
  obtain blob u where "exportEncryptedVault demo_prims demo_rnd (JStr demo_password) (JStr demo_password) demo_state = (Inr blob, demo_state)"
      "importVault demo_prims demo_rnd 0 (JStr blob) JUndef (JStr demo_password) t = (Inr (), u)"
      "unlocked_with demo_prims u (empty_vault\<lparr>v_accounts := [demo_account]\<rparr>) (new_key demo_prims demo_rnd demo_password) (newVaultKdf (fst demo_rnd))"
    using backup_round_trip [OF demo_laws demo_strong demo_strong demo_unlocked demo_password_opens demo_active pw t(2), of 0] e by auto
  then show ?thesis using t e unlocked_facts(1) by fastforce
qed

section \<open>Keys and accounts\<close>

text \<open>C20: An approved rotation loses no history: the vault it saves has the same active address,
  and whatever envelope the account opened before, it opens after.\<close>

theorem rotation_keeps_history:
  assumes "tk_laws P" and "env_ok P E" and "unlocked_with P s v key kdf" and "fresh_key P (te_encryption E) s"
    and "active_of v = Some a" and "approve_rotate E og aid ts s = (r, t)"
  shows "\<exists>w b. unlocked_with P t w key kdf \<and> active_of w = Some b \<and> acc_id b = acc_id a \<and>
    (\<forall>env m. open_data P a env = Inr m \<longrightarrow> open_data P b env = Inr m) \<and>
    (\<forall>env k. open_key P a env = Inr k \<longrightarrow> open_key P b env = Inr k)"
  using approved_rotation_history [OF assms] open_more_keys [OF active_ok [OF unlocked_facts(5) [OF assms(3)] assms(5)]]
  by blast

theorem rotation_keeps_history_witness:
  "\<exists>r t w b. approve_rotate demo_env demo_site (acc_id demo_account) 0 demo_state = (r, t) \<and>
     st_vault t = Some w \<and> active_of w = Some b \<and> acc_id b = acc_id demo_account \<and>
     (\<forall>env m. open_data demo_prims demo_account env = Inr m \<longrightarrow> open_data demo_prims b env = Inr m)"
proof -
  obtain r t where r: "approve_rotate demo_env demo_site (acc_id demo_account) 0 demo_state = (r, t)" by fastforce
  then show ?thesis
    using rotation_keeps_history [OF demo_laws demo_env_ok demo_unlocked demo_fresh demo_active r] unlocked_facts(1) by blast
qed

text \<open>Destroying a retired key loses what only that key opens, and nothing else: an envelope
  naming it no longer opens, and every other envelope opens as before.\<close>

theorem destruction_loses_one_key:
  assumes "account_ok P a" and "destroyRetiredEncryptionKey P clock (account_js a) kid = Inr b"
  shows "kid \<noteq> ek_kid (acc_encryption a) \<and> set (account_kids b) = set (account_kids a) - {kid} \<and>
    (\<forall>env. js_get env ''kid'' = JStr kid \<longrightarrow> open_data P b env = Inl (missing_key (JStr kid))) \<and>
    (\<forall>env m. js_get env ''kid'' \<noteq> JStr kid \<longrightarrow> open_data P a env = Inr m \<longrightarrow> open_data P b env = Inr m)"
  using destroyed_key_gone [OF assms] destroyed_others_open [OF assms] destroy_account_ok(2) [OF assms]
    destroy_current [OF assms(1), of clock] assms(2) by auto

lemma demo_two_keys:
  "\<exists>k. account_ok demo_prims (demo_account\<lparr>acc_retired := [k]\<rparr>) \<and> ek_kid k \<noteq> ek_kid (acc_encryption demo_account)"
proof -
  obtain pair k where k: "encryptionRecord demo_prims pair 0 = Inr k" "ek_kid k = toHex (replicate 16 1)" "key_ok demo_prims k"
    using demo_record [of "te_encryption demo_env" 0] new_record [OF demo_envelope, of "te_encryption demo_env" 0] demo_env_ok
    by (fastforce simp: demo_env_def env_ok_def)
  let ?b = "demo_account\<lparr>acc_retired := [retire k 0]\<rparr>"
  have kid: "ek_kid (acc_encryption demo_account) = toHex (replicate 16 0)" "acc_retired demo_account = []"
    using demo_kids by (simp_all add: account_kids_def)
  have "toHex (replicate 16 1) \<noteq> toHex (replicate 16 0)" by (simp add: toHex_inj)
  then have "account_ok demo_prims ?b" "ek_kid (retire k 0) \<noteq> ek_kid (acc_encryption demo_account)"
    using demo_account_ok k kid by (auto simp: account_ok_def account_kids_def MAX_RETIRED_ENCRYPTION_KEYS_def)
  then show ?thesis by blast
qed

theorem destruction_loses_one_key_witness:
  "\<exists>a b kid. destroyRetiredEncryptionKey demo_prims 0 (account_js a) kid = Inr b \<and> kid \<in> set (account_kids a) \<and>
     kid \<notin> set (account_kids b)"
proof -
  obtain k where k: "account_ok demo_prims (demo_account\<lparr>acc_retired := [k]\<rparr>)" "ek_kid k \<noteq> ek_kid (acc_encryption demo_account)"
    using demo_two_keys by blast
  let ?a = "demo_account\<lparr>acc_retired := [k]\<rparr>"
  have d: "destroyRetiredEncryptionKey demo_prims 0 (account_js ?a) (ek_kid k) = Inr (?a\<lparr>acc_retired := []\<rparr>)"
    using destroy_result [OF k(1), of 0 "ek_kid k"] by simp
  have "ek_kid k \<in> set (account_kids ?a)" by (simp add: account_kids_def)
  moreover have "ek_kid k \<notin> set (account_kids (?a\<lparr>acc_retired := []\<rparr>))"
    using destruction_loses_one_key [OF k(1) d] by blast
  ultimately show ?thesis using d by blast
qed

text \<open>After an account is deleted the vault still points at one of its own accounts, or at
  none when none is left; deleting one it does not hold changes nothing.\<close>

theorem deletion_never_leaves_a_gone_account:
  assumes "unlocked_with P s v key kdf" and "iv \<noteq> []" and "points_at_own v" and "deleteAccount P iv aid s = (r, t)"
  shows "\<exists>w. unlocked_with P t w key kdf \<and> points_at_own w \<and> (\<forall>a\<in>set (v_accounts w). a \<in> set (v_accounts v)) \<and>
    (w = v \<longleftrightarrow> (\<forall>a\<in>set (v_accounts v). JStr (acc_id a) \<noteq> aid))"
proof (cases "\<exists>a\<in>set (v_accounts v). JStr (acc_id a) = aid")
  case True
  have "length (v_accounts (without_account aid v)) < length (v_accounts v)"
    using True length_remove_first [of "\<lambda>a. JStr (acc_id a) = aid" "v_accounts v"]
    by (cases "v_accounts v") (auto simp: without_account_def list_ex_iff Let_def)
  then have "without_account aid v \<noteq> v" by auto
  moreover have "set (v_accounts (without_account aid v)) \<subseteq> set (v_accounts v)"
    using set_remove_first [of "\<lambda>a. JStr (acc_id a) = aid" "v_accounts v"] by (simp add: without_account_def Let_def)
  moreover have "unlocked_with P t (without_account aid v) key kdf"
    using deleteAccount_ok [OF assms(1,2) True] assms(4) by simp
  ultimately show ?thesis
    using deletion_keeps_pointing [OF assms(3)] True by blast
next
  case False
  then show ?thesis using deleteAccount_unknown [OF assms(1)] assms by auto
qed

theorem deletion_never_leaves_a_gone_account_witness:
  "\<exists>w. st_vault (snd (deleteAccount demo_prims [1] (JStr (acc_id demo_account)) demo_state)) = Some w \<and> points_at_own w \<and> w \<noteq> demo_vault"
proof -
  obtain r t where d: "deleteAccount demo_prims [1] (JStr (acc_id demo_account)) demo_state = (r, t)" by fastforce
  have "points_at_own demo_vault" by (simp add: points_at_own_def demo_vault_def)
  then obtain w where w: "unlocked_with demo_prims t w demo_key demo_descriptor" "points_at_own w"
      "(w = demo_vault) = (\<forall>a\<in>set (v_accounts demo_vault). JStr (acc_id a) \<noteq> JStr (acc_id demo_account))"
    using deletion_never_leaves_a_gone_account [OF demo_unlocked _ _ d] by auto
  have "w \<noteq> demo_vault" using w(3) by (simp add: demo_vault_def)
  then show ?thesis using d w(2) unlocked_facts(1) [OF w(1)] by simp
qed

text \<open>An approved signature is the active account's, over the very text that was asked for, and
  verifies as its address; it reaches the asker and changes nothing.\<close>

theorem approved_signature_verifies:
  assumes "tk_laws P" and "te_prims E = P" and "unlocked_with P s v key kdf" and "active_of v = Some a"
    and "rq_action rq = Do_sign (JStr body)"
  shows "\<exists>sig. run_settlement E (Approve rq) s = (Some (rq_channel rq, ok_reply [(''signature'', JStr sig)]), s) \<and>
    verifyIdentitySignature P (JStr (acc_id a)) (JStr (hp_publicKey (acc_identity a))) body (JStr sig)"
proof -
  have laws: "signature_laws P" "digest_laws P" using assms(1) by (simp_all add: tk_laws_def envelope_laws_def)
  show ?thesis
    using account_signs [OF laws assms(2) active_ok [OF unlocked_facts(5) [OF assms(3)] assms(4)], of "JStr body"]
      unlocked_facts(4) [OF assms(3)] assms(4,5)
    by (auto simp: run_settlement_def approve_sign_def activeAccount_def andThen_apply text_arg_def)
qed

theorem approved_signature_verifies_witness:
  "\<exists>sig. run_settlement demo_env (Approve demo_request) demo_state = (Some (7, ok_reply [(''signature'', JStr sig)]), demo_state) \<and>
     verifyIdentitySignature demo_prims (JStr (acc_id demo_account)) (JStr (hp_publicKey (acc_identity demo_account))) ''hello'' (JStr sig)"
  using approved_signature_verifies [OF demo_laws demo_env_fields(1) demo_unlocked demo_active, of demo_request "''hello''"]
  by (simp add: demo_request_def)

text \<open>A page that is not connected learns nothing of the account, and a connected one exactly
  four public fields: no seed, no retired key.\<close>

theorem page_sees_public_fields:
  assumes "getActiveAccount (Some og) s = (Inr r, t)" and "og \<noteq> []"
  shows "t = s \<and> \<not> st_isLocked s \<and> (\<exists>v a. st_vault s = Some v \<and> site_on (v_permissions v) og \<and> active_of v = Some a \<and>
    r = JObj [(''name'', JStr (acc_name a)), (''address'', JStr (acc_id a)),
              (''identityPublicKey'', JStr (hp_publicKey (acc_identity a))),
              (''encryptionPublicKey'', JStr (ek_publicKey (acc_encryption a)))])"
  using page_view [OF assms] unfolding account_view_def by blast

theorem page_sees_public_fields_witness:
  "\<exists>r. getActiveAccount (Some demo_site) demo_state = (Inr r, demo_state) \<and> js_get r ''address'' = JStr (acc_id demo_account)"
proof -
  have s: "requireUnlocked demo_state = (Inr (), demo_state)" "the_vault demo_state = (Inr demo_vault, demo_state)"
      "requireActiveAccount demo_state = (Inr demo_account, demo_state)"
    using demo_active by (simp_all add: requireUnlocked_ok the_vault_ok requireActiveAccount_ok)
  have ne: "demo_site \<noteq> []" by (simp add: demo_site_def)
  then obtain r where r: "getActiveAccount (Some demo_site) demo_state = (Inr r, demo_state)"
    using s demo_connected by (simp add: getActiveAccount_def Let_def andThen_apply)
  then show ?thesis using page_sees_public_fields [OF r ne] demo_active by auto
qed

section \<open>Trusted sites\<close>

text \<open>A site is trusted exactly when the vault is unlocked and the site is a development origin,
  or an HTTPS one whose host permission Chrome already holds; then it is connected and saved, and
  otherwise nothing changes.\<close>

theorem trust_needs_the_grant:
  assumes "unlocked_with P s v key kdf" and "iv \<noteq> []"
  shows "if og \<noteq> [] \<and> (isDevOrigin U og \<or> (starts_with og ''https://'' \<and> og \<in> set (st_hostPermissions s)))
    then \<exists>t. handleAddTrustedSite U P iv og s = (Inr (ok_reply []), t) \<and> unlocked_with P t (permit og v) key kdf \<and>
      site_on (v_permissions (permit og v)) og
    else \<exists>m. handleAddTrustedSite U P iv og s = (Inr (err_reply m), s)"
proof (cases "og \<noteq> [] \<and> (isDevOrigin U og \<or> (starts_with og ''https://'' \<and> hasHostPermission og s))")
  case True
  then have "isAllowedTrustedOrigin U og" "isDevOrigin U og \<or> hasHostPermission og s" by (auto simp: isAllowedTrustedOrigin_def)
  then show ?thesis using True addSite_ok [OF assms, of og U] by (auto simp: hasHostPermission_def)
next
  case False
  then have "\<exists>m. handleAddTrustedSite U P iv og s = (Inr (err_reply m), s)"
    using addSite_refuses [of U og s P iv] by (cases "og = []") (auto simp: handleAddTrustedSite_def)
  then show ?thesis using False by (auto simp: hasHostPermission_def)
qed

theorem trust_needs_the_grant_witness:
  "(\<exists>t. handleAddTrustedSite demo_urls demo_prims [1] demo_site demo_state = (Inr (ok_reply []), t) \<and>
     st_vault t = Some (permit demo_site demo_vault)) \<and>
   (\<exists>m. handleAddTrustedSite demo_urls demo_prims [1] ''https://b.example'' demo_state = (Inr (err_reply m), demo_state))"
proof
  show "\<exists>t. handleAddTrustedSite demo_urls demo_prims [1] demo_site demo_state = (Inr (ok_reply []), t) \<and>
      st_vault t = Some (permit demo_site demo_vault)"
    using trust_needs_the_grant [OF demo_unlocked, of "[1]" demo_site demo_urls] unlocked_facts(1)
    by (fastforce simp: demo_site_def starts_with_def)
  show "\<exists>m. handleAddTrustedSite demo_urls demo_prims [1] ''https://b.example'' demo_state = (Inr (err_reply m), demo_state)"
    using trust_needs_the_grant [OF demo_unlocked, of "[1]" "''https://b.example''" demo_urls]
    by (simp add: isDevOrigin_def demo_urls_def demo_site_def starts_with_def)
qed

text \<open>Removing a site revokes all of it: the connection, the silent signing and the host
  permission; every other site keeps what it had.\<close>

theorem removal_revokes:
  assumes "unlocked_with P s v key kdf" and "iv \<noteq> []" and "og \<noteq> []" and "\<not> isDevOrigin U og"
  shows "\<exists>t w. handleRemoveTrustedSite U P iv og s = (Inr (ok_reply []), t) \<and> unlocked_with P t w key kdf \<and>
    \<not> site_on (v_permissions w) og \<and> \<not> site_on (autosign_sites w) og \<and> og \<notin> set (st_hostPermissions t) \<and>
    (\<forall>x. x \<noteq> og \<longrightarrow> site_on (v_permissions w) x = site_on (v_permissions v) x)"
proof -
  obtain t where "handleRemoveTrustedSite U P iv og s = (Inr (ok_reply []), t)" "unlocked_with P t (forget_site og v) key kdf"
      "\<not> hasHostPermission og t"
    using removeSite_ok [OF assms] by blast
  moreover have "\<forall>x. x \<noteq> og \<longrightarrow> site_on (v_permissions (forget_site og v)) x = site_on (v_permissions v) x" by simp
  ultimately show ?thesis using forget_revokes [of og v] unfolding hasHostPermission_def by blast
qed

theorem removal_revokes_witness:
  "\<exists>t w. handleRemoveTrustedSite demo_urls demo_prims [1] demo_site demo_state = (Inr (ok_reply []), t) \<and>
     st_vault t = Some w \<and> \<not> site_on (v_permissions w) demo_site"
  using removal_revokes [OF demo_unlocked, of "[1]" demo_site demo_urls] unlocked_facts(1)
  by (fastforce simp: demo_site_def isDevOrigin_def demo_urls_def starts_with_def)

text \<open>After the reconciliation that follows every unlock, no site is trusted whose host
  permission is gone, development origins apart, and the vault on disk agrees.\<close>

theorem trust_never_outlives_the_grant:
  assumes "unlocked_with P s v key kdf" and "iv \<noteq> []"
  shows "\<exists>t w. syncDynamicScripts U P iv s = (Inr (), t) \<and> unlocked_with P t w key kdf \<and>
    (\<forall>og\<in>set (map fst (v_permissions w)). isDevOrigin U og \<or> og \<in> set (st_hostPermissions t)) \<and>
    (\<forall>og. site_on (v_permissions w) og \<longrightarrow> site_on (v_permissions v) og)"
proof -
  obtain t where t: "syncDynamicScripts U P iv s = (Inr (), t)"
      "unlocked_with P t (fold forget_site (revoked_sites U s v) v) key kdf"
      "trust_granted U t (fold forget_site (revoked_sites U s v) v)"
    using sync_ok [OF assms, of U] by blast
  then show ?thesis using forget_all [of "revoked_sites U s v" v] by (auto simp: trust_granted_def hasHostPermission_def)
qed

theorem trust_never_outlives_the_grant_witness:
  "\<exists>t w. syncDynamicScripts demo_urls demo_prims [1] (demo_state\<lparr>st_hostPermissions := []\<rparr>) = (Inr (), t) \<and>
     st_vault t = Some w \<and> (\<forall>og\<in>set (map fst (v_permissions w)). isDevOrigin demo_urls og \<or> og \<in> set (st_hostPermissions t))"
proof -
  have "unlocked_with demo_prims (demo_state\<lparr>st_hostPermissions := []\<rparr>) demo_vault demo_key demo_descriptor"
    using demo_unlocked by (simp add: unlocked_with_def)
  then show ?thesis using trust_never_outlives_the_grant [of demo_prims _ demo_vault demo_key demo_descriptor "[1]" demo_urls] unlocked_facts(1)
    by blast
qed

section \<open>What the code does not keep\<close>

text \<open>C35: A reserved text sent as an array of one string is no string to \<open>contextOf\<close>: a connected
  page's request to sign it is put before the user as plain text, and the approval signs the
  reserved text itself, which verifies as the user's own statement.\<close>

theorem array_hides_a_reserved_text:
  assumes "tk_laws P" and "te_prims E = P" and "unlocked_with P s v key kdf" and "active_of v = Some a"
    and "\<not> isInternalSender E sn" and "js_get request ''message'' = JArr [JStr body]"
    and "rq_action rq = Do_sign (JArr [JStr body])"
  shows "handleSign E sn request s = requestSignature E sn ''text'' (JObj []) (JArr [JStr body]) s \<and>
    (\<exists>sig. run_settlement E (Approve rq) s = (Some (rq_channel rq, ok_reply [(''signature'', JStr sig)]), s) \<and>
       verifyIdentitySignature P (JStr (acc_id a)) (JStr (hp_publicKey (acc_identity a))) body (JStr sig))"
proof -
  have laws: "signature_laws P" "digest_laws P" using assms(1) by (simp_all add: tk_laws_def envelope_laws_def)
  have arg: "text_arg (JArr [JStr body]) = body" by (simp add: text_arg_def)
  have "handleSign E sn request s = requestSignature E sn ''text'' (JObj []) (JArr [JStr body]) s"
    using assms(5,6) unlocked_facts(3) [OF assms(3)] by (simp add: handleSign_def Let_def andThen_apply contextOf_def)
  then show ?thesis
    using account_signs [OF laws assms(2) active_ok [OF unlocked_facts(5) [OF assms(3)] assms(4)], of "JArr [JStr body]"]
      unlocked_facts(4) [OF assms(3)] assms(4,7) arg
    by (auto simp: run_settlement_def approve_sign_def activeAccount_def andThen_apply)
qed

definition demo_login :: login_fields where
  "demo_login = \<lparr>lf_nonce = JStr ''0123456789abcdef'', lf_origin = JStr ''https://bank.example'',
     lf_deployment = JStr ''main'', lf_encryptionKey = JUndef\<rparr>"

theorem array_hides_a_reserved_text_witness:
  "\<exists>body sig. loginChallengeBody demo_login = Inr body \<and>
     handleSign demo_env demo_page (JObj [(''message'', JArr [JStr body])]) demo_state =
       requestSignature demo_env demo_page ''text'' (JObj []) (JArr [JStr body]) demo_state \<and>
     verifyIdentitySignature demo_prims (JStr (acc_id demo_account)) (JStr (hp_publicKey (acc_identity demo_account))) body (JStr sig)"
proof -
  have "login_checks demo_login" by code_simp
  then obtain body where b: "loginChallengeBody demo_login = Inr body" using loginChallengeBody_ok by blast
  show ?thesis
    using array_hides_a_reserved_text [OF demo_laws demo_env_fields(1) demo_unlocked demo_active demo_page_external(1),
        of "JObj [(''message'', JArr [JStr body])]" body "demo_request\<lparr>rq_action := Do_sign (JArr [JStr body])\<rparr>"] b
    by auto
qed

text \<open>C36: An approval given while the vault is locked takes its request off the queue and answers
  nobody: no reply now, and none later, for nothing waits under its id.\<close>

theorem approval_while_locked_never_answers:
  assumes "st_vault s = None" and "map_of (st_pending s) rid = Some rq"
  shows "resolve_request E (JStr rid) (JBool True) s =
      (Inr (Some (resolved True (nextApprovalId (s\<lparr>st_pending := obj_del rid (st_pending s)\<rparr>))), []),
       s\<lparr>st_pending := obj_del rid (st_pending s)\<rparr>) \<and>
    fst (handle_event F (Approval_timeout rid) (s\<lparr>st_pending := obj_del rid (st_pending s)\<rparr>)) = []"
  using assms locked_approval_unanswered [of "s\<lparr>st_pending := obj_del rid (st_pending s)\<rparr>" E rq]
  by (simp add: resolve_request_def settleApproval_def settle_def approval_timeout_def map_of_obj_del)

theorem approval_while_locked_never_answers_witness:
  "\<exists>t. resolve_request demo_env (JStr ''r1'') (JBool True) (lockWithSession demo_waiting) = (Inr (Some (resolved True None), []), t) \<and>
     st_pending t = []"
  using approval_while_locked_never_answers [of "lockWithSession demo_waiting" "''r1''" demo_request demo_env]
  by (simp add: pending_of_ops demo_waiting_def obj_del_def nextApprovalId_def lockWithSession_def clearSession_def session_remove_def lock_def)

end
