(* ===== verification/MsgScope.thy ===== *)
theory MsgScope
  imports Signing Aead
begin

text \<open>
  Conversations as the web client sees them: \<open>context/messenger/sessionScope.js\<close> (which
  conversation a delivered message belongs to and whether it may bring a session key),
  \<open>services/identityKeys.js\<close> (the identity key an address names, kept for the whole page) and
  \<open>context/messenger/verifyMessage.js\<close> (whether the message was signed by its sender for the
  place it was delivered to).

  A row is a message as the API answers it. Addresses are strings or missing; the channel id
  and the sender's user record are whatever the server sent. \<open>row_at\<close> is
  \<open>Date.parse(created_at)\<close>, \<open>None\<close> for a date that does not parse.
\<close>

record chat_row =
  row_id :: string
  row_sender :: "string option"
  row_recipient :: "string option"
  row_channel :: jsval
  row_user :: jsval
  row_content :: string
  row_at :: "int option"

datatype chat_mode = Dm | Group

text \<open>\<open>a === b\<close> of two values that came from different texts: never true of objects.\<close>

definition strict_eq :: "jsval \<Rightarrow> jsval \<Rightarrow> bool" where
  "strict_eq a b \<longleftrightarrow> a = b \<and> \<not> is_object a \<and> a \<noteq> JNaN"

lemma strict_eq_str [simp]: "strict_eq v (JStr s) \<longleftrightarrow> v = JStr s" "strict_eq (JStr s) v \<longleftrightarrow> v = JStr s"
  by (auto simp: strict_eq_def)

subsection \<open>Scopes\<close>

definition sessionKeyId :: "string \<Rightarrow> jsval \<Rightarrow> string" where
  "sessionKeyId conv sid = conv @ CHR '':'' # js_str sid"

definition dmConversationId :: "string option \<Rightarrow> string" where
  "dmConversationId address = (case address of None \<Rightarrow> [] | Some a \<Rightarrow> to_lower a)"

definition groupConversationId :: "jsval \<Rightarrow> string" where
  "groupConversationId channelId = ''group_'' @ js_str channelId"

definition conversationIdForMessage :: "'a chat_row_scheme \<Rightarrow> string \<Rightarrow> chat_mode \<Rightarrow> string" where
  "conversationIdForMessage m me mode =
     (case mode of
        Group \<Rightarrow> groupConversationId (row_channel m)
      | Dm \<Rightarrow>
          (let from = dmConversationId (row_sender m)
           in if from = to_lower me then dmConversationId (row_recipient m) else from))"

definition mayAdoptSession :: "'a chat_row_scheme \<Rightarrow> bool option \<Rightarrow> chat_mode \<Rightarrow> string \<Rightarrow> bool" where
  "mayAdoptSession m verified mode me \<longleftrightarrow>
     verified = Some True \<and>
     (let from = dmConversationId (row_sender m)
      in case mode of
           Group \<Rightarrow> from \<noteq> []
         | Dm \<Rightarrow> from = to_lower me \<or> dmConversationId (row_recipient m) = to_lower me)"

text \<open>A key id names one conversation and one session: no conversation id in use holds a
  colon.\<close>

lemma sessionKeyId_inj:
  "CHR '':'' \<notin> set c \<Longrightarrow> CHR '':'' \<notin> set d \<Longrightarrow>
   sessionKeyId c x = sessionKeyId d y \<longleftrightarrow> c = d \<and> js_str x = js_str y"
  by (simp add: sessionKeyId_def sep_split)

subsection \<open>Identity keys\<close>

text \<open>
  The cache of checked keys, by address. \<open>fetch\<close> is the user record the server answers for an
  address, \<open>None\<close> where the request fails. Lookups in flight are shared in the source; with one
  answer per address that only saves requests.
\<close>

type_synonym key_cache = "string \<rightharpoonup> jsval"

definition bound :: "prims \<Rightarrow> string \<Rightarrow> jsval \<Rightarrow> jsval option" where
  "bound P address key = (if isAddressOf P (JStr address) key then Some key else None)"

definition remember :: "key_cache \<Rightarrow> string \<Rightarrow> jsval option \<Rightarrow> key_cache" where
  "remember cache addr key = (case key of None \<Rightarrow> cache | Some k \<Rightarrow> cache(addr \<mapsto> k))"

definition identityKeyFor ::
  "prims \<Rightarrow> (string \<Rightarrow> jsval option) \<Rightarrow> key_cache \<Rightarrow> string \<Rightarrow> jsval \<Rightarrow> key_cache \<times> jsval option" where
  "identityKeyFor P fetch cache address hint =
     (let addr = to_lower address
      in if addr = [] then (cache, None)
         else case cache addr of
           Some key \<Rightarrow> (cache, Some key)
         | None \<Rightarrow>
             (case bound P addr (js_get hint ''identity_public_key'') of
                Some embedded \<Rightarrow> (remember cache addr (Some embedded), Some embedded)
              | None \<Rightarrow>
                  (case fetch addr of
                     None \<Rightarrow> (cache, None)
                   | Some user \<Rightarrow>
                       (let key = bound P addr (js_get user ''identity_public_key'')
                        in (remember cache addr key, key)))))"

text \<open>Every cached key hashes to the address it is cached under.\<close>

definition cache_ok :: "prims \<Rightarrow> key_cache \<Rightarrow> bool" where
  "cache_ok P cache \<longleftrightarrow> (\<forall>a k. cache a = Some k \<longrightarrow> isAddressOf P (JStr a) k)"

lemma cache_ok_empty [simp]: "cache_ok P Map.empty"
  by (simp add: cache_ok_def)

lemma bound_Some [simp]: "bound P a k = Some k' \<longleftrightarrow> isAddressOf P (JStr a) k \<and> k' = k"
  by (auto simp: bound_def)

lemma remember_ok: "cache_ok P cache \<Longrightarrow> cache_ok P (remember cache a (bound P a k))"
  by (auto simp: remember_def cache_ok_def bound_def)

lemma remember_Some_ok: "cache_ok P cache \<Longrightarrow> isAddressOf P (JStr a) k \<Longrightarrow> cache_ok P (cache(a \<mapsto> k))"
  by (simp add: cache_ok_def)

lemma identityKeyFor_ok:
  assumes "cache_ok P cache" and "identityKeyFor P fetch cache a hint = (cache', key)"
  shows "cache_ok P cache'" and "key = Some k \<Longrightarrow> isAddressOf P (JStr (to_lower a)) k"
    and "cache \<subseteq>\<^sub>m cache'"
  using assms
  by (auto simp: identityKeyFor_def Let_def remember_def remember_Some_ok map_le_def
      cache_ok_def split: if_splits option.splits)

text \<open>The first key checked for an address is the one answered from then on.\<close>

lemma identityKeyFor_cached:
  "cache (to_lower a) = Some k \<Longrightarrow> to_lower a \<noteq> [] \<Longrightarrow> identityKeyFor P fetch cache a hint = (cache, Some k)"
  by (simp add: identityKeyFor_def)

subsection \<open>Verification\<close>

text \<open>The place a message claims, checked against the place it was delivered to: \<open>None\<close> for a
  message that names another kind of conversation.\<close>

definition delivered_to :: "'a chat_row_scheme \<Rightarrow> jsval \<Rightarrow> chat_mode \<Rightarrow> jsval option" where
  "delivered_to m payload mode =
     (let gid = js_get payload ''gid''
      in case mode of
           Group \<Rightarrow> if \<not> truthy gid \<or> \<not> strict_eq gid (row_channel m) then None else Some (row_channel m)
         | Dm \<Rightarrow> if truthy gid then None else Some (JStr (dmConversationId (row_recipient m))))"

definition or_blank :: "jsval \<Rightarrow> jsval" where
  "or_blank v = (if truthy v then v else JStr [])"

definition signed_message :: "string \<Rightarrow> jsval \<Rightarrow> jsval \<Rightarrow> message_fields" where
  "signed_message from conv payload =
     \<lparr>mf_from = JStr from, mf_conv = conv, mf_sid = js_get payload ''sid'', mf_ct = js_get payload ''ct'',
      mf_gid = or_blank (js_get payload ''gid''), mf_keys = js_get payload ''keys'',
      mf_ts = js_get payload ''ts'', mf_seq = js_get payload ''seq''\<rparr>"

definition verifyMessageAuthenticity ::
  "prims \<Rightarrow> (string \<Rightarrow> jsval option) \<Rightarrow> key_cache \<Rightarrow> 'a chat_row_scheme \<Rightarrow> jsval \<Rightarrow> chat_mode \<Rightarrow> key_cache \<times> bool option" where
  "verifyMessageAuthenticity P fetch cache m payload mode =
     (if \<not> truthy payload \<or> \<not> truthy (js_get payload ''sig'') then (cache, None)
      else
        (let from = dmConversationId (row_sender m)
         in case delivered_to m payload mode of
              None \<Rightarrow> (cache, Some False)
            | Some conv \<Rightarrow>
                (case messageSigningBody P (signed_message from conv payload) of
                   Inl _ \<Rightarrow> (cache, Some False)
                 | Inr body \<Rightarrow>
                     (case identityKeyFor P fetch cache from (row_user m) of
                        (cache', None) \<Rightarrow> (cache', Some False)
                      | (cache', Some key) \<Rightarrow>
                          (cache', Some (verifyIdentitySignature P (JStr from) key body (js_get payload ''sig'')))))))"

text \<open>What a verified message proves: a signature, by a key of the sender's address, over the
  body naming that sender, the place of delivery and the payload.\<close>

definition authentic :: "prims \<Rightarrow> 'a chat_row_scheme \<Rightarrow> jsval \<Rightarrow> chat_mode \<Rightarrow> bool" where
  "authentic P m payload mode \<longleftrightarrow>
     (\<exists>conv body key.
        delivered_to m payload mode = Some conv \<and>
        messageSigningBody P (signed_message (dmConversationId (row_sender m)) conv payload) = Inr body \<and>
        verifyIdentitySignature P (JStr (dmConversationId (row_sender m))) key body (js_get payload ''sig''))"

lemma verified_authentic:
  "verifyMessageAuthenticity P fetch cache m payload mode = (cache', Some True) \<Longrightarrow> authentic P m payload mode"
  by (auto simp: verifyMessageAuthenticity_def authentic_def Let_def split: if_splits option.splits sum.splits prod.splits)

lemma verify_cache_ok:
  assumes "cache_ok P cache" and "verifyMessageAuthenticity P fetch cache m payload mode = (cache', v)"
  shows "cache_ok P cache'" and "cache \<subseteq>\<^sub>m cache'"
  using assms
  by (auto simp: verifyMessageAuthenticity_def Let_def split: if_splits option.splits sum.splits prod.splits
      dest: identityKeyFor_ok(1) identityKeyFor_ok(3))

lemma unsigned_message:
  "\<not> truthy (js_get payload ''sig'') \<Longrightarrow> verifyMessageAuthenticity P fetch cache m payload mode = (cache, None)"
  by (simp add: verifyMessageAuthenticity_def)

text \<open>The checked fields of an authentic message.\<close>

lemma authentic_fields:
  assumes "authentic P m payload mode"
  shows "isAddress (JStr (dmConversationId (row_sender m)))"
    and "isSignedIdentifier (js_get payload ''sid'')"
    and "isCount (js_get payload ''ts'')" and "isCount (js_get payload ''seq'')"
  using assms by (auto simp: authentic_def messageSigningBody_def signed_message_def)

lemma authentic_place:
  assumes "authentic P m payload mode"
  shows "mode = Dm \<Longrightarrow> \<not> truthy (js_get payload ''gid'')"
    and "mode = Dm \<Longrightarrow> isAddress (JStr (dmConversationId (row_recipient m))) \<or>
           isSignedIdentifier (JStr (dmConversationId (row_recipient m)))"
    and "mode = Group \<Longrightarrow> js_get payload ''gid'' = row_channel m \<and> truthy (row_channel m) \<and>
           (isAddress (row_channel m) \<or> isSignedIdentifier (row_channel m))"
  using assms
  by (auto simp: authentic_def delivered_to_def messageSigningBody_def signed_message_def Let_def strict_eq_def
      split: if_splits)

text \<open>A payload is authentic in one kind of conversation only.\<close>

lemma authentic_one_kind: "authentic P m payload Dm \<Longrightarrow> \<not> authentic P m' payload Group"
  using authentic_place(1) [of P m payload Dm] authentic_place(3) [of P m' payload Group] by auto

lemma lhex_no_colon [simp]: "\<not> is_lhex (CHR '':'')" "\<not> is_id_char (CHR '':'')"
  by (simp_all add: class_defs is_id_char_def)

lemma address_no_colon: "isAddress (JStr s) \<Longrightarrow> CHR '':'' \<notin> set s"
  by (auto simp: list_all_iff)

end
