(* ===== verification/MsgFresh.thy ===== *)
theory MsgFresh
  imports MsgScope
begin

text \<open>
  \<open>context/messenger/freshness.js\<close>: replays, reordering and gaps among the verified messages
  of a session. What earlier calls have seen is kept per (conversation, session, sender).
\<close>

datatype verdict = Replayed | Skew | Reordered | Gap

definition MAX_CLOCK_SKEW_MS :: int where
  "MAX_CLOCK_SKEW_MS = 10 * 60 * 1000"

text \<open>A message after verification, as \<open>processMessages\<close> prepares it.\<close>

record chat_msg = chat_row +
  verified :: "bool option"
  redacted :: bool
  plainText :: "string option"
  sessionPayload :: "jsval option"
  freshness :: "verdict option"

text \<open>\<open>maxAt\<close> is \<open>None\<close> for the initial minus infinity.\<close>

record seen_state =
  ids :: "int \<rightharpoonup> string"
  maxSeq :: int
  maxAt :: "int option"

definition unseen :: seen_state where
  "unseen = \<lparr>ids = Map.empty, maxSeq = -1, maxAt = None\<rparr>"

type_synonym seen = "string \<rightharpoonup> seen_state"
type_synonym verdicts = "string \<rightharpoonup> verdict"

definition the_state :: "seen \<Rightarrow> string \<Rightarrow> seen_state" where
  "the_state seen key = (case seen key of None \<Rightarrow> unseen | Some st \<Rightarrow> st)"

definition count_of :: "jsval \<Rightarrow> int" where
  "count_of v = (case v of JNum n \<Rightarrow> n | _ \<Rightarrow> 0)"

definition late_or_first :: "seen_state \<Rightarrow> int \<Rightarrow> bool" where
  "late_or_first st at = (case maxAt st of None \<Rightarrow> True | Some x \<Rightarrow> x \<le> at)"

text \<open>\<open>verdicts.set(id, verdicts.get(id) ?? v)\<close>.\<close>

definition put_unless :: "verdicts \<Rightarrow> string \<Rightarrow> verdict \<Rightarrow> verdicts" where
  "put_unless vs i v = (case vs i of None \<Rightarrow> vs(i \<mapsto> v) | Some _ \<Rightarrow> vs)"

definition skewed :: "int option \<Rightarrow> int \<Rightarrow> bool" where
  "skewed at ts = (case at of None \<Rightarrow> False | Some a \<Rightarrow> \<bar>ts - a\<bar> > MAX_CLOCK_SKEW_MS)"

definition judge_order :: "seen_state \<Rightarrow> bool \<Rightarrow> string \<Rightarrow> int \<Rightarrow> int option \<Rightarrow> verdicts \<Rightarrow> seen_state \<times> verdicts" where
  "judge_order st new i seq at vs =
     (case at of
        None \<Rightarrow> (st, vs)
      | Some a \<Rightarrow>
          if \<not> late_or_first st a then (st, vs)
          else
            (st\<lparr>maxSeq := max (maxSeq st) seq, maxAt := Some a\<rparr>,
             if 0 \<le> maxSeq st \<and> seq \<le> maxSeq st \<and> new then put_unless vs i Reordered
             else if 0 \<le> maxSeq st \<and> maxSeq st + 1 < seq then put_unless vs i Gap
             else vs))"

text \<open>One verified message of a session whose state is \<open>st\<close>.\<close>

definition judge :: "seen_state \<Rightarrow> string \<Rightarrow> int \<Rightarrow> int \<Rightarrow> int option \<Rightarrow> verdicts \<Rightarrow> seen_state \<times> verdicts" where
  "judge st i ts seq at vs =
     (let firstId = ids st seq
      in if firstId \<noteq> None \<and> firstId \<noteq> Some i then (st, vs(i \<mapsto> Replayed))
         else
           judge_order (st\<lparr>ids := (ids st)(seq \<mapsto> i)\<rparr>) (firstId = None) i seq at
             (if skewed at ts then vs(i \<mapsto> Skew) else vs))"

definition session_key :: "string \<Rightarrow> jsval \<Rightarrow> string option \<Rightarrow> string" where
  "session_key conv sid sender = conv @ CHR '':'' # js_str sid @ CHR '':'' # dmConversationId sender"

definition judged :: "chat_msg \<Rightarrow> bool" where
  "judged m \<longleftrightarrow> verified m = Some True \<and>
     (case sessionPayload m of None \<Rightarrow> False
      | Some p \<Rightarrow> isCount (js_get p ''ts'') \<and> isCount (js_get p ''seq''))"

definition msg_key :: "(chat_msg \<Rightarrow> string) \<Rightarrow> chat_msg \<Rightarrow> string" where
  "msg_key conversationOf m = session_key (conversationOf m) (js_get (the (sessionPayload m)) ''sid'') (row_sender m)"

definition msg_seq :: "chat_msg \<Rightarrow> int" where
  "msg_seq m = count_of (js_get (the (sessionPayload m)) ''seq'')"

definition msg_ts :: "chat_msg \<Rightarrow> int" where
  "msg_ts m = count_of (js_get (the (sessionPayload m)) ''ts'')"

definition assess_one :: "(chat_msg \<Rightarrow> string) \<Rightarrow> chat_msg \<Rightarrow> seen \<times> verdicts \<Rightarrow> seen \<times> verdicts" where
  "assess_one conversationOf m sv =
     (if \<not> judged m then sv
      else
        (let key = msg_key conversationOf m;
             (st, vs) = judge (the_state (fst sv) key) (row_id m) (msg_ts m) (msg_seq m) (row_at m) (snd sv)
         in ((fst sv)(key \<mapsto> st), vs)))"

definition assessFreshness :: "(chat_msg \<Rightarrow> string) \<Rightarrow> chat_msg list \<Rightarrow> seen \<Rightarrow> seen \<times> verdicts" where
  "assessFreshness conversationOf messages seen = fold (assess_one conversationOf) messages (seen, Map.empty)"

subsection \<open>One message\<close>

text \<open>The id first accepted for a position of a session stays the one accepted.\<close>

lemma judge_order_ids [simp]: "ids (fst (judge_order st new i seq at vs)) = ids st"
  by (auto simp: judge_order_def split: option.splits)

lemma judge_order_keeps: "vs j = Some v \<Longrightarrow> snd (judge_order st new i seq at vs) j = Some v"
  by (auto simp: judge_order_def put_unless_def split: option.splits)

lemma judge_order_other: "j \<noteq> i \<Longrightarrow> snd (judge_order st new i seq at vs) j = vs j"
  by (auto simp: judge_order_def put_unless_def split: option.splits)

lemma judge_ids_grow: "ids st \<subseteq>\<^sub>m ids (fst (judge st i ts seq at vs))"
  by (auto simp: judge_def Let_def map_le_def)

lemma judge_keeps_flag: "vs j \<noteq> None \<Longrightarrow> snd (judge st i ts seq at vs) j \<noteq> None"
  using judge_order_keeps [of "vs(i \<mapsto> Skew)"] judge_order_keeps [of vs]
  by (cases "j = i") (fastforce simp: judge_def Let_def)+

lemma judge_replay:
  "ids st seq = Some j \<Longrightarrow> j \<noteq> i \<Longrightarrow> judge st i ts seq at vs = (st, vs(i \<mapsto> Replayed))"
  by (simp add: judge_def)

lemma judge_skew:
  assumes "skewed at ts"
  shows "snd (judge st i ts seq at vs) i \<noteq> None"
  using assms judge_order_keeps [of "vs(i \<mapsto> Skew)" i Skew] by (auto simp: judge_def Let_def)

lemma judge_accepts: "ids (fst (judge st i ts seq at vs)) seq = Some i \<or> snd (judge st i ts seq at vs) i = Some Replayed"
  by (auto simp: judge_def Let_def)

text \<open>A message that is next in line, in time and at its sender's clock raises nothing.\<close>

lemma judge_next:
  assumes "ids st seq = None" and "\<not> skewed (Some a) ts" and "late_or_first st a"
    and "maxSeq st < 0 \<or> seq = maxSeq st + 1"
  shows "judge st i ts seq (Some a) vs = (st\<lparr>ids := (ids st)(seq \<mapsto> i), maxSeq := max (maxSeq st) seq, maxAt := Some a\<rparr>, vs)"
  using assms by (auto simp: judge_def judge_order_def late_or_first_def)

subsection \<open>Runs\<close>

definition accepted :: "seen \<Rightarrow> string \<Rightarrow> int \<Rightarrow> string option" where
  "accepted seen key seq = ids (the_state seen key) seq"

lemma the_state_upd [simp]: "the_state (seen(k \<mapsto> st)) j = (if j = k then st else the_state seen j)"
  by (simp add: the_state_def)

lemma assess_one_accepted:
  assumes "accepted (fst sv) key seq = Some i"
  shows "accepted (fst (assess_one c m sv)) key seq = Some i"
  using assms judge_ids_grow
  by (auto simp: assess_one_def accepted_def Let_def map_le_def dom_def split: prod.splits)
     (metis fst_conv)

lemma assess_one_flag: "snd sv j \<noteq> None \<Longrightarrow> snd (assess_one c m sv) j \<noteq> None"
  using judge_keeps_flag [of "snd sv" j] by (auto simp: assess_one_def Let_def split: prod.splits) (metis snd_conv option.distinct(1))

lemma assess_fold_accepted:
  "accepted (fst sv) key seq = Some i \<Longrightarrow> accepted (fst (fold (assess_one c) ms sv)) key seq = Some i"
  by (induction ms arbitrary: sv) (simp_all add: assess_one_accepted)

lemma assess_fold_flag: "snd sv j \<noteq> None \<Longrightarrow> snd (fold (assess_one c) ms sv) j \<noteq> None"
  by (induction ms arbitrary: sv) (simp_all add: assess_one_flag del: not_None_eq)

lemma assess_one_replay:
  assumes "judged m" and "accepted (fst sv) (msg_key c m) (msg_seq m) = Some j" and "j \<noteq> row_id m"
  shows "snd (assess_one c m sv) (row_id m) = Some Replayed"
  using assms by (simp add: assess_one_def accepted_def judge_replay Let_def)

lemma assess_one_accepts:
  assumes "judged m"
  shows "accepted (fst (assess_one c m sv)) (msg_key c m) (msg_seq m) = Some (row_id m) \<or>
    snd (assess_one c m sv) (row_id m) = Some Replayed"
  using assms judge_accepts [of "the_state (fst sv) (msg_key c m)" "row_id m" "msg_ts m" "msg_seq m" "row_at m" "snd sv"]
  by (auto simp: assess_one_def accepted_def Let_def split: prod.splits)

text \<open>Over any list, a judged message is flagged, or its id is the one accepted at its place.\<close>

lemma assess_fold_judged:
  assumes "m \<in> set ms" and "judged m"
  shows "accepted (fst (fold (assess_one c) ms sv)) (msg_key c m) (msg_seq m) = Some (row_id m) \<or>
    snd (fold (assess_one c) ms sv) (row_id m) \<noteq> None"
  using assms(1)
proof (induction ms arbitrary: sv)
  case (Cons n ms)
  show ?case
  proof (cases "m \<in> set ms")
    case True
    then show ?thesis using Cons.IH by simp
  next
    case False
    then have "m = n" using Cons.prems by simp
    then show ?thesis
      using assess_one_accepts [OF assms(2), of c sv] assess_fold_accepted [of "assess_one c m sv"]
        assess_fold_flag [of "assess_one c m sv" "row_id m" c ms]
      by (auto simp del: not_None_eq)
  qed
qed simp

lemma assessed:
  assumes "assessFreshness c ms seen = (seen', vs)"
  shows "accepted seen k q = Some i \<Longrightarrow> accepted seen' k q = Some i"
    and "m \<in> set ms \<Longrightarrow> judged m \<Longrightarrow> accepted seen' (msg_key c m) (msg_seq m) = Some (row_id m) \<or> vs (row_id m) \<noteq> None"
  using assms assess_fold_accepted [of "(seen, Map.empty)" k q i c ms]
    assess_fold_judged [of m ms c "(seen, Map.empty)"]
  by (simp_all add: assessFreshness_def)

text \<open>A message whose clock is far from its delivery is flagged, whatever came before.\<close>

lemma assess_one_skew:
  assumes "judged m" and "skewed (row_at m) (msg_ts m)"
  shows "snd (assess_one c m sv) (row_id m) \<noteq> None"
  using assms judge_skew [OF assms(2), of "the_state (fst sv) (msg_key c m)" "row_id m" "msg_seq m" "snd sv"]
  by (auto simp: assess_one_def Let_def split: prod.splits)

lemma assess_fold_skew:
  assumes "m \<in> set ms" and "judged m" and "skewed (row_at m) (msg_ts m)"
  shows "snd (fold (assess_one c) ms sv) (row_id m) \<noteq> None"
  using assms(1)
proof (induction ms arbitrary: sv)
  case (Cons n ms)
  then show ?case
    using assess_one_skew [OF assms(2,3), of c sv] assess_fold_flag [of "assess_one c n sv" "row_id m" c ms]
    by (cases "m \<in> set ms") auto
qed simp

subsection \<open>Honest sessions raise nothing\<close>

text \<open>The messages of one sender's session, in the order they were sent: positions \<open>n\<close>,
  \<open>n + 1\<close>, \dots, each delivered no earlier than the one before and near its sender's clock.\<close>

fun in_order :: "(chat_msg \<Rightarrow> string) \<Rightarrow> string \<Rightarrow> int \<Rightarrow> int \<Rightarrow> chat_msg list \<Rightarrow> bool" where
  "in_order c key n t [] = True"
| "in_order c key n t (m # ms) \<longleftrightarrow>
     judged m \<and> msg_key c m = key \<and> msg_seq m = n \<and>
     (\<exists>a\<ge>t. row_at m = Some a \<and> \<not> skewed (Some a) (msg_ts m) \<and> in_order c key (n + 1) a ms)"

definition ready :: "seen_state \<Rightarrow> int \<Rightarrow> int \<Rightarrow> bool" where
  "ready st n t \<longleftrightarrow> (\<forall>k. ids st k \<noteq> None \<longrightarrow> k < n) \<and> (maxSeq st < 0 \<or> maxSeq st = n - 1) \<and>
     (\<forall>x. maxAt st = Some x \<longrightarrow> x \<le> t)"

lemma ready_unseen: "ready unseen n t"
  by (simp add: ready_def unseen_def)

lemma in_order_quiet:
  assumes "in_order c key n t ms" and "ready (the_state seen key) n t" and "0 \<le> n"
  shows "snd (fold (assess_one c) ms (seen, vs)) = vs"
  using assms
proof (induction ms arbitrary: n t seen)
  case (Cons m ms)
  let ?st = "the_state seen key"
  obtain a where m: "judged m" "msg_key c m = key" "msg_seq m = n" "row_at m = Some a" "t \<le> a"
      "\<not> skewed (Some a) (msg_ts m)" "in_order c key (n + 1) a ms"
    using Cons.prems(1) by auto
  let ?st' = "?st\<lparr>ids := (ids ?st)(n \<mapsto> row_id m), maxSeq := max (maxSeq ?st) n, maxAt := Some a\<rparr>"
  have fresh: "ids ?st n = None" and pos: "maxSeq ?st < 0 \<or> n = maxSeq ?st + 1" and late: "late_or_first ?st a"
    using Cons.prems(2) m(5) by (auto simp: ready_def late_or_first_def split: option.splits)
  have step: "assess_one c m (seen, vs) = (seen(key \<mapsto> ?st'), vs)"
    using m judge_next [OF fresh m(6) late pos, of "row_id m" vs] by (simp add: assess_one_def)
  have "ready ?st' (n + 1) a"
    unfolding ready_def
  proof (intro conjI allI impI)
    fix k assume "ids ?st' k \<noteq> None"
    then show "k < n + 1"
      using Cons.prems(2) by (cases "k = n") (auto simp: ready_def intro: less_trans)
  qed (use Cons.prems(3) pos in auto)
  then show ?case
    using Cons.IH [of "n + 1" a "seen(key \<mapsto> ?st')"] m(7) Cons.prems(3) step by (simp del: fun_upd_apply)
qed simp

lemma in_order_no_verdict:
  "in_order c key 0 t ms \<Longrightarrow> seen key = None \<Longrightarrow> snd (assessFreshness c ms seen) = Map.empty"
  by (simp add: assessFreshness_def in_order_quiet [of c key 0 t] the_state_def ready_unseen)

text \<open>A position left out is seen: the next message after it, if it is the newest, says so.\<close>

lemma judge_gap:
  assumes "0 \<le> maxSeq st" "maxSeq st + 1 < seq" "late_or_first st a" "ids st seq = None \<or> ids st seq = Some i"
  shows "snd (judge st i ts seq (Some a) vs) i \<noteq> None"
  using assms by (auto simp: judge_def judge_order_def late_or_first_def put_unless_def split: option.splits)

end
