(* ===== verification/TrustStore.thy ===== *)
theory TrustStore
  imports MsgScope
begin

text \<open>
  \<open>services/trustedKeys.js\<close> of the web client: the encryption keys this device has accepted for
  each contact, the contacts it has seen attested, and the gates every send goes through.

  A store is the value \<open>JSON.parse\<close> finds under its name in \<open>localStorage\<close>, \<open>JNull\<close> where
  there is none or it does not parse; writing always succeeds. Timestamps are numbers. Names of
  \<open>Object.prototype\<close> (\<open>constructor\<close>) are no addresses and are not looked up.
\<close>

record trust_stores =
  trusted_keys :: jsval
  attested_contacts :: jsval

record contact =
  ct_address :: "string option"
  ct_username :: string
  ct_encryptionKey :: jsval
  ct_attestation :: jsval
  ct_identityKey :: jsval

definition load :: "jsval \<Rightarrow> (string \<times> jsval) list" where
  "load v = (case v of JObj kvs \<Rightarrow> filter (\<lambda>(address, _). isAddress (JStr address)) kvs | _ \<Rightarrow> [])"

definition norm_address :: "string option \<Rightarrow> string" where
  "norm_address address = (case address of None \<Rightarrow> [] | Some a \<Rightarrow> to_lower a)"

text \<open>\<open>load(store)[address]\<close> as a condition: the record, where there is a truthy one.\<close>

definition record_of :: "jsval \<Rightarrow> string \<Rightarrow> jsval option" where
  "record_of store a =
     (case map_of (load store) a of None \<Rightarrow> None | Some r \<Rightarrow> if truthy r then Some r else None)"

subsection \<open>Trust on first use\<close>

datatype key_state = New | Unchanged | Changed

definition checkContactKey :: "trust_stores \<Rightarrow> string option \<Rightarrow> jsval \<Rightarrow> key_state" where
  "checkContactKey S address key =
     (if \<not> truthy key then Unchanged
      else case record_of (trusted_keys S) (norm_address address) of
        None \<Rightarrow> New
      | Some r \<Rightarrow> if strict_eq (js_get r ''key'') key then Unchanged else Changed)"

definition pinnedKeyOf :: "trust_stores \<Rightarrow> string option \<Rightarrow> jsval" where
  "pinnedKeyOf S address =
     (case map_of (load (trusted_keys S)) (norm_address address) of
        None \<Rightarrow> JNull
      | Some r \<Rightarrow> if is_nullish (js_get r ''key'') then JNull else js_get r ''key'')"

text \<open>The record written for a key: the first sighting keeps its date.\<close>

definition sighting :: "(string \<times> jsval) list \<Rightarrow> string \<Rightarrow> jsval \<Rightarrow> int \<Rightarrow> jsval" where
  "sighting kvs a key now =
     (let first = js_get (case map_of kvs a of None \<Rightarrow> JUndef | Some r \<Rightarrow> r) ''firstSeen''
      in JObj [(''key'', key), (''firstSeen'', if truthy first then first else JNum now), (''updatedAt'', JNum now)])"

definition put_sighting :: "jsval \<Rightarrow> string \<Rightarrow> jsval \<Rightarrow> int \<Rightarrow> jsval" where
  "put_sighting store a key now = JObj (obj_put a (sighting (load store) a key now) (load store))"

definition trustContactKey :: "trust_stores \<Rightarrow> int \<Rightarrow> string option \<Rightarrow> jsval \<Rightarrow> trust_stores" where
  "trustContactKey S now address key =
     (if \<not> truthy key then S
      else S\<lparr>trusted_keys := put_sighting (trusted_keys S) (norm_address address) key now\<rparr>)"

definition updated_at :: "jsval \<Rightarrow> int" where
  "updated_at r = (case js_get r ''updatedAt'' of JNum n \<Rightarrow> n | _ \<Rightarrow> 0)"

definition recentContacts :: "trust_stores \<Rightarrow> nat \<Rightarrow> string list" where
  "recentContacts S limit =
     map fst (take limit (sort_key (\<lambda>(_, r). - updated_at r) (load (trusted_keys S))))"

definition label :: "contact \<Rightarrow> string" where
  "label c =
     (if ct_username c \<noteq> [] then ct_username c
      else case ct_address c of None \<Rightarrow> ''undefined...'' | Some a \<Rightarrow> take 12 a @ ''...'')"

definition pinContactKey :: "trust_stores \<Rightarrow> int \<Rightarrow> contact \<Rightarrow> trust_stores \<times> key_state" where
  "pinContactKey S now c =
     (let st = checkContactKey S (ct_address c) (ct_encryptionKey c)
      in (if st = New then trustContactKey S now (ct_address c) (ct_encryptionKey c) else S, st))"

definition assertKeyUnchanged :: "trust_stores \<Rightarrow> int \<Rightarrow> contact \<Rightarrow> trust_stores \<times> unit res" where
  "assertKeyUnchanged S now c =
     (let (S', st) = pinContactKey S now c
      in (S', need (st \<noteq> Changed) (PlainError
        (label c @ CHR 0x27 # ''s encryption key changed. Nothing was sent: compare '' @
         ''the safety number in the conversation and confirm the new key first.''))))"

subsection \<open>Stores in a backup\<close>

definition exportTrustStores :: "trust_stores \<Rightarrow> jsval" where
  "exportTrustStores S =
     JObj [(''keys'', JObj (load (trusted_keys S))), (''attested'', JObj (load (attested_contacts S)))]"

definition isRecord :: "jsval \<Rightarrow> bool" where
  "isRecord r \<longleftrightarrow> is_object r \<and> the_str (js_get r ''key'') \<noteq> None"

definition merge_record :: "string \<times> jsval \<Rightarrow> (string \<times> jsval) list \<Rightarrow> (string \<times> jsval) list" where
  "merge_record e kvs =
     (let a = to_lower (fst e)
      in if isAddress (JStr a) \<and> isRecord (snd e) \<and>
            (case map_of kvs a of None \<Rightarrow> True | Some r \<Rightarrow> \<not> truthy r)
         then obj_put a (snd e) kvs else kvs)"

definition entries_of :: "jsval \<Rightarrow> (string \<times> jsval) list" where
  "entries_of v = (case v of JObj kvs \<Rightarrow> kvs | _ \<Rightarrow> [])"

definition merge_store :: "jsval \<Rightarrow> jsval \<Rightarrow> jsval" where
  "merge_store store incoming =
     (if \<not> is_object incoming then store
      else JObj (fold merge_record (entries_of incoming) (load store)))"

definition importTrustStores :: "trust_stores \<Rightarrow> jsval \<Rightarrow> trust_stores" where
  "importTrustStores S data =
     (if \<not> is_object data then S
      else \<lparr>trusted_keys = merge_store (trusted_keys S) (js_get data ''keys''),
            attested_contacts = merge_store (attested_contacts S) (js_get data ''attested'')\<rparr>)"

subsection \<open>Attestations\<close>

datatype attestation = Verified | Unattested | Invalid | Downgraded

definition attestationStatus :: "prims \<Rightarrow> contact \<Rightarrow> attestation" where
  "attestationStatus P c =
     (if \<not> truthy (ct_encryptionKey c) \<or> \<not> truthy (ct_attestation c) then Unattested
      else if \<not> truthy (ct_identityKey c) then Unattested
      else if verifyEncryptionKeyAttestation P
          \<lparr>ac_address = JStr (norm_address (ct_address c)), ac_identityPublicKey = ct_identityKey c,
           ac_encryptionPublicKey = ct_encryptionKey c, ac_attestation = ct_attestation c\<rparr>
        then Verified else Invalid)"

definition rememberAttested :: "trust_stores \<Rightarrow> int \<Rightarrow> string option \<Rightarrow> jsval \<Rightarrow> trust_stores" where
  "rememberAttested S now address key =
     (let a = norm_address address
      in if a = [] then S
         else S\<lparr>attested_contacts := put_sighting (attested_contacts S) a key now\<rparr>)"

definition wasEverAttested :: "trust_stores \<Rightarrow> string option \<Rightarrow> bool" where
  "wasEverAttested S address \<longleftrightarrow> record_of (attested_contacts S) (norm_address address) \<noteq> None"

definition attestationVerdict :: "prims \<Rightarrow> trust_stores \<Rightarrow> int \<Rightarrow> contact \<Rightarrow> trust_stores \<times> attestation" where
  "attestationVerdict P S now c =
     (let status = attestationStatus P c
      in if status = Verified then (rememberAttested S now (ct_address c) (ct_encryptionKey c), Verified)
         else if status = Unattested \<and> wasEverAttested S (ct_address c) then (S, Downgraded)
         else (S, status))"

definition refusal :: "contact \<Rightarrow> attestation \<Rightarrow> string" where
  "refusal c v =
     (case v of
        Verified \<Rightarrow> []
      | Unattested \<Rightarrow> ''No key attestation for '' @ label c @ '': their encryption key is not '' @
          ''signed by their identity, so it cannot be told apart from a substituted one - do not send.''
      | Invalid \<Rightarrow> ''Key verification failed for '' @ label c @ '': their encryption key does not match '' @
          ''their identity signature. The directory may be serving a substituted key - do not send.''
      | Downgraded \<Rightarrow> ''Key verification downgraded for '' @ label c @ '': they were previously attested, '' @
          ''and their key is now served with no attestation at all. That is what a key swap by omission '' @
          ''looks like - verify their safety number out of band before sending.'')"

definition assertSafeRecipient :: "prims \<Rightarrow> trust_stores \<Rightarrow> int \<Rightarrow> contact \<Rightarrow> trust_stores \<times> attestation res" where
  "assertSafeRecipient P S now c =
     (let (S', v) = attestationVerdict P S now c
      in (S', if v = Verified then Ok v else Throw (PlainError (refusal c v))))"

subsection \<open>What the stores keep\<close>

definition pin :: "trust_stores \<Rightarrow> string \<Rightarrow> jsval option" where
  "pin S a = map_option (\<lambda>r. js_get r ''key'') (record_of (trusted_keys S) a)"

declare isAddress.simps [simp del]

lemma load_JObj [simp]: "load (JObj kvs) = filter (\<lambda>(a, _). isAddress (JStr a)) kvs"
  by (simp add: load_def)

lemma map_of_addresses:
  "map_of (filter (\<lambda>(a, _). isAddress (JStr a)) kvs) a = (if isAddress (JStr a) then map_of kvs a else None)"
  by (induction kvs) auto

lemma load_addresses: "map_of (load v) a = Some r \<Longrightarrow> isAddress (JStr a)"
  by (auto simp: load_def map_of_addresses split: jsval.splits if_splits)

lemma load_idem [simp]: "load (JObj (load v)) = load v"
  by (auto simp: load_def split: jsval.splits)

lemma record_of_load: "record_of store a = Some r \<longleftrightarrow> map_of (load store) a = Some r \<and> truthy r"
  by (auto simp: record_of_def split: option.splits)

lemma record_of_address: "record_of store a \<noteq> None \<Longrightarrow> isAddress (JStr a)"
  using load_addresses [of store a] by (auto simp: record_of_load)

lemma sighting_fields [simp]:
  "truthy (sighting kvs a key now)" "js_get (sighting kvs a key now) ''key'' = key"
  by (simp_all add: sighting_def Let_def)

lemma record_of_put:
  "record_of (put_sighting store a key now) b =
     (if b = a then (if isAddress (JStr a) then Some (sighting (load store) a key now) else None)
      else record_of store b)"
proof -
  have "map_of (load store) b = None" if "\<not> isAddress (JStr b)" using load_addresses that by fastforce
  then show ?thesis
    by (auto simp: record_of_def put_sighting_def map_of_addresses)
qed

lemma checkContactKey_iff:
  assumes "truthy key"
  shows "checkContactKey S a key = New \<longleftrightarrow> pin S (norm_address a) = None"
    and "checkContactKey S a key = Changed \<longleftrightarrow> (\<exists>k. pin S (norm_address a) = Some k \<and> \<not> strict_eq k key)"
    and "checkContactKey S a key = Unchanged \<longleftrightarrow> (\<exists>k. pin S (norm_address a) = Some k \<and> strict_eq k key)"
  using assms by (auto simp: checkContactKey_def pin_def split: option.splits)

lemma pin_trust:
  "pin (trustContactKey S now a key) b =
     (if truthy key \<and> b = norm_address a then (if isAddress (JStr b) then Some key else None) else pin S b)"
  by (auto simp: trustContactKey_def pin_def record_of_put)

text \<open>Checking a contact pins only an address that had no pin.\<close>

lemma pin_pinContactKey:
  "pin S b = Some k \<Longrightarrow> pin (fst (pinContactKey S now c)) b = Some k"
proof (cases "checkContactKey S (ct_address c) (ct_encryptionKey c) = New \<and> truthy (ct_encryptionKey c)")
  case True
  moreover assume "pin S b = Some k"
  ultimately show ?thesis
    by (auto simp: pinContactKey_def Let_def pin_trust checkContactKey_iff)
qed (auto simp: pinContactKey_def Let_def pin_trust)

lemma pin_assert: "fst (assertKeyUnchanged S now c) = fst (pinContactKey S now c)"
  by (simp add: assertKeyUnchanged_def case_prod_unfold Let_def)

lemma assertKeyUnchanged_ok:
  "snd (assertKeyUnchanged S now c) = Inr () \<longleftrightarrow> checkContactKey S (ct_address c) (ct_encryptionKey c) \<noteq> Changed"
  by (simp add: assertKeyUnchanged_def pinContactKey_def case_prod_unfold Let_def)

lemma trusted_keys_attested [simp]:
  "trusted_keys (rememberAttested S now a key) = trusted_keys S"
  "trusted_keys (fst (attestationVerdict P S now c)) = trusted_keys S"
  "trusted_keys (fst (assertSafeRecipient P S now c)) = trusted_keys S"
  by (simp_all add: rememberAttested_def attestationVerdict_def assertSafeRecipient_def Let_def case_prod_unfold)

lemma merge_record_keeps:
  "map_of kvs a = Some r \<Longrightarrow> truthy r \<Longrightarrow> map_of (merge_record e kvs) a = Some r"
  by (auto simp: merge_record_def Let_def)

lemma merge_fold_keeps:
  "map_of kvs a = Some r \<Longrightarrow> truthy r \<Longrightarrow> map_of (fold merge_record es kvs) a = Some r"
  by (induction es arbitrary: kvs) (simp_all add: merge_record_keeps)

lemma merge_store_keeps: "record_of store a = Some r \<Longrightarrow> record_of (merge_store store v) a = Some r"
  using merge_fold_keeps [of "load store" a r "entries_of v"] load_addresses [of store a r]
  by (auto simp: merge_store_def record_of_load map_of_addresses)

text \<open>An import never replaces a record this device has.\<close>

lemma import_keeps:
  "record_of (trusted_keys S) a = Some r \<Longrightarrow> record_of (trusted_keys (importTrustStores S data)) a = Some r"
  "record_of (attested_contacts S) a = Some r \<Longrightarrow> record_of (attested_contacts (importTrustStores S data)) a = Some r"
  by (simp_all add: importTrustStores_def merge_store_keeps)

lemma pin_import: "pin S a = Some k \<Longrightarrow> pin (importTrustStores S data) a = Some k"
  by (auto simp: pin_def intro: import_keeps)

subsection \<open>What passes the gates\<close>

lemma assertSafeRecipient_iff:
  "snd (assertSafeRecipient P S now c) = Inr v \<longleftrightarrow> v = Verified \<and> attestationStatus P c = Verified"
  by (auto simp: assertSafeRecipient_def attestationVerdict_def Let_def case_prod_unfold)

lemma verified_contact:
  assumes "attestationStatus P c = Verified"
  shows "truthy (ct_encryptionKey c)" and "isAddress (JStr (norm_address (ct_address c)))"
    and "isAddressOf P (JStr (norm_address (ct_address c))) (ct_identityKey c)"
  using assms
  by (auto simp: attestationStatus_def verifyEncryptionKeyAttestation_def verifyIdentitySignature_iff isAddressOf_iff
      split: if_splits sum.splits)

lemma wasEverAttested_after:
  assumes "attestationStatus P c = Verified"
  shows "wasEverAttested (fst (attestationVerdict P S now c)) (ct_address c)"
proof -
  have a: "isAddress (JStr (norm_address (ct_address c)))" using verified_contact(2) [OF assms] .
  then have "norm_address (ct_address c) \<noteq> []" using isAddress_str by fastforce
  then show ?thesis
    using a assms by (simp add: attestationVerdict_def rememberAttested_def wasEverAttested_def Let_def record_of_put)
qed

lemma wasEverAttested_stays:
  assumes "wasEverAttested S a"
  shows "wasEverAttested (fst (attestationVerdict P S now c)) a"
    and "wasEverAttested (fst (pinContactKey S now c)) a"
    and "wasEverAttested (importTrustStores S data) a"
proof -
  show "wasEverAttested (fst (attestationVerdict P S now c)) a"
    using assms record_of_address [of "attested_contacts S" "norm_address a"]
    by (auto simp: attestationVerdict_def rememberAttested_def wasEverAttested_def Let_def record_of_put simp del: not_None_eq)
  show "wasEverAttested (fst (pinContactKey S now c)) a"
    using assms by (simp add: wasEverAttested_def pinContactKey_def trustContactKey_def Let_def)
  show "wasEverAttested (importTrustStores S data) a"
    using assms import_keeps(2) by (fastforce simp: wasEverAttested_def)
qed

subsection \<open>Runs without the user\<close>

text \<open>What the program does to the stores on its own: look at a record (all that
  \<open>assertSafeRecipient\<close> does, which is the only gate of the multisig dialogs and of the group
  names), gate a direct message or a group member, restore a backup. Only \<open>trustContactKey\<close> from
  the confirmation panel is the user's.\<close>

datatype trust_event =
    Look int contact
  | Gate int contact
  | Restore jsval

definition trust_step :: "prims \<Rightarrow> trust_event \<Rightarrow> trust_stores \<Rightarrow> trust_stores" where
  "trust_step P e S =
     (case e of
        Look now c \<Rightarrow> fst (attestationVerdict P S now c)
      | Gate now c \<Rightarrow>
          (let (S', ok) = assertSafeRecipient P S now c
           in case ok of Inl _ \<Rightarrow> S' | Inr _ \<Rightarrow> fst (assertKeyUnchanged S' now c))
      | Restore data \<Rightarrow> importTrustStores S data)"

lemma pin_step: "pin S a = Some k \<Longrightarrow> pin (trust_step P e S) a = Some k"
proof (cases e)
  case (Gate now c)
  moreover assume "pin S a = Some k"
  moreover have "pin (fst (assertSafeRecipient P S now c)) a = pin S a" by (simp add: pin_def)
  ultimately show ?thesis
    by (auto simp: trust_step_def case_prod_unfold Let_def pin_assert pin_pinContactKey split: sum.splits)
qed (auto simp: trust_step_def pin_import, simp add: pin_def)

interpretation pinned: guarded_machine "trust_step P" "\<lambda>S. pin S a = Some k" for P a k
  by unfold_locales (rule pin_step)

lemma attested_step: "wasEverAttested S a \<Longrightarrow> wasEverAttested (trust_step P e S) a"
  by (cases e)
     (auto simp: trust_step_def case_prod_unfold Let_def pin_assert wasEverAttested_stays assertSafeRecipient_def split: sum.splits)

interpretation seen_attested: guarded_machine "trust_step P" "\<lambda>S. wasEverAttested S a" for P a
  by unfold_locales (rule attested_step)

text \<open>Whether a send to this contact would go through.\<close>

definition send_allowed :: "prims \<Rightarrow> trust_stores \<Rightarrow> int \<Rightarrow> contact \<Rightarrow> bool" where
  "send_allowed P S now c \<longleftrightarrow>
     is_ok (snd (assertSafeRecipient P S now c)) \<and>
     is_ok (snd (assertKeyUnchanged (fst (assertSafeRecipient P S now c)) now c))"

lemma send_allowed_iff:
  "send_allowed P S now c \<longleftrightarrow> attestationStatus P c = Verified \<and>
     (case pin S (norm_address (ct_address c)) of None \<Rightarrow> True | Some k \<Rightarrow> strict_eq k (ct_encryptionKey c))"
proof (cases "attestationStatus P c = Verified")
  case True
  let ?S = "fst (assertSafeRecipient P S now c)"
  have "pin ?S a = pin S a" for a by (simp add: pin_def)
  then show ?thesis
    using True checkContactKey_iff(2) [OF verified_contact(1) [OF True], of ?S "ct_address c"]
    by (auto simp: send_allowed_def assertSafeRecipient_iff assertKeyUnchanged_ok split: option.splits)
qed (auto simp: send_allowed_def assertSafeRecipient_iff)

text \<open>A send that goes through leaves the key pinned.\<close>

lemma send_pins:
  assumes "send_allowed P S now c"
  shows "\<exists>k. pin (trust_step P (Gate now c) S) (norm_address (ct_address c)) = Some k \<and>
           (strict_eq k (ct_encryptionKey c) \<or> k = ct_encryptionKey c)"
proof -
  let ?a = "norm_address (ct_address c)" and ?S = "fst (assertSafeRecipient P S now c)"
  have v: "attestationStatus P c = Verified" using assms by (simp add: send_allowed_iff)
  have step: "trust_step P (Gate now c) S = fst (pinContactKey ?S now c)"
    using v by (simp add: trust_step_def case_prod_unfold Let_def pin_assert assertSafeRecipient_def attestationVerdict_def)
  have pin: "pin ?S ?a = pin S ?a" by (simp add: pin_def)
  show ?thesis
  proof (cases "pin S ?a")
    case None
    then have "checkContactKey ?S (ct_address c) (ct_encryptionKey c) = New"
      using checkContactKey_iff(1) [OF verified_contact(1) [OF v]] pin by simp
    then show ?thesis
      using verified_contact(1,2) [OF v] by (simp add: step pinContactKey_def pin_trust)
  next
    case (Some k)
    then show ?thesis
      using assms pin_pinContactKey [of ?S ?a k now c] pin by (simp add: step send_allowed_iff)
  qed
qed

end
