(* ===== verification/MsgSessions.thy ===== *)
theory MsgSessions
  imports MsgFresh TrustStore
begin

text \<open>
  \<open>context/messenger/useMessageSessions.js\<close>: the session keys of the open page and the two
  pipelines that fill them, \<open>processMessages\<close> for a page of history and
  \<open>handleManualDecrypt\<close> for one message, with the live handlers of
  \<open>context/MessengerContext.jsx\<close> that only read them.

  The custody provider (vault or extension) is two functions of the model: what it answers for
  a batch of wrapped keys (\<open>None\<close> where it rejects) and for one. Each call runs to its end, and
  React has rendered, before the next begins, so \<open>sessionKeys\<close> and its ref are one map.
\<close>

record session_state =
  sessionKeys :: "string \<rightharpoonup> jsval"
  activeSessionIds :: "string \<rightharpoonup> string"
  freshnessSeen :: seen
  keyCache :: key_cache

record messenger_env =
  me_prims :: prims
  me_address :: string
  me_fetch :: "string \<Rightarrow> jsval option"
  me_unwrapMany :: "jsval list \<Rightarrow> jsval list option"
  me_unwrap :: "jsval \<Rightarrow> jsval option"

abbreviation myAddr :: "messenger_env \<Rightarrow> string" where
  "myAddr E \<equiv> to_lower (me_address E)"

definition invalidateGroupSession :: "jsval \<Rightarrow> session_state \<Rightarrow> session_state" where
  "invalidateGroupSession channelId st =
     st\<lparr>activeSessionIds := (activeSessionIds st)(groupConversationId channelId := None)\<rparr>"

subsection \<open>Parsing and verifying\<close>

definition mode_version :: "chat_mode \<Rightarrow> int" where
  "mode_version mode = (case mode of Dm \<Rightarrow> 1 | Group \<Rightarrow> 2)"

definition parsed_content :: "string \<Rightarrow> jsval" where
  "parsed_content s = (case json_parse s of None \<Rightarrow> JNull | Some v \<Rightarrow> v)"

definition is_session_payload :: "chat_mode \<Rightarrow> jsval \<Rightarrow> bool" where
  "is_session_payload mode p \<longleftrightarrow>
     truthy p \<and> js_get p ''v'' = JNum (mode_version mode) \<and> truthy (js_get p ''sid'')"

definition prepare :: "messenger_env \<Rightarrow> chat_mode \<Rightarrow> key_cache \<Rightarrow> chat_row \<Rightarrow> key_cache \<times> chat_msg" where
  "prepare E mode cache m =
     (let p = parsed_content (row_content m);
          (cache', v) = verifyMessageAuthenticity (me_prims E) (me_fetch E) cache m p mode;
          payload = (if is_session_payload mode p then Some p else None)
      in (cache', chat_row.extend m
           \<lparr>verified = v, redacted = (payload \<noteq> None \<and> is_nullish (js_get p ''ct'')),
            plainText = None, sessionPayload = payload, freshness = None\<rparr>))"

fun prepare_all :: "messenger_env \<Rightarrow> chat_mode \<Rightarrow> key_cache \<Rightarrow> chat_row list \<Rightarrow> key_cache \<times> chat_msg list" where
  "prepare_all E mode cache [] = (cache, [])"
| "prepare_all E mode cache (m # ms) =
     (let (cache', x) = prepare E mode cache m; (cache'', xs) = prepare_all E mode cache' ms
      in (cache'', x # xs))"

definition convOf :: "messenger_env \<Rightarrow> chat_mode \<Rightarrow> 'a chat_row_scheme \<Rightarrow> string" where
  "convOf E mode m = conversationIdForMessage m (myAddr E) mode"

definition mark :: "verdicts \<Rightarrow> chat_msg \<Rightarrow> chat_msg" where
  "mark vs m = (case vs (row_id m) of None \<Rightarrow> m | Some v \<Rightarrow> m\<lparr>freshness := Some v\<rparr>)"

subsection \<open>Decrypting with the keys at hand\<close>

definition key_of :: "messenger_env \<Rightarrow> chat_mode \<Rightarrow> chat_msg \<Rightarrow> string" where
  "key_of E mode m = sessionKeyId (convOf E mode m) (js_get (the (sessionPayload m)) ''sid'')"

definition decrypt_one :: "messenger_env \<Rightarrow> chat_mode \<Rightarrow> (string \<rightharpoonup> jsval) \<Rightarrow> chat_msg \<Rightarrow> chat_msg" where
  "decrypt_one E mode keys m =
     (case sessionPayload m of
        None \<Rightarrow> m
      | Some p \<Rightarrow>
          if plainText m \<noteq> None then m
          else case keys (key_of E mode m) of
            None \<Rightarrow> m
          | Some key \<Rightarrow>
              if redacted m then m
              else case decryptWithSessionKey (me_prims E) (js_get p ''ct'') key of
                Inl _ \<Rightarrow> m
              | Inr t \<Rightarrow> m\<lparr>plainText := Some t\<rparr>)"

subsection \<open>Adopting keys\<close>

definition key_blob :: "messenger_env \<Rightarrow> chat_mode \<Rightarrow> 'a chat_row_scheme \<Rightarrow> jsval \<Rightarrow> jsval" where
  "key_blob E mode m p =
     (let keys = js_get p ''keys''
      in case mode of
           Dm \<Rightarrow> if dmConversationId (row_sender m) = myAddr E then js_get keys ''sender'' else js_get keys ''recip''
         | Group \<Rightarrow> js_get keys (myAddr E))"

text \<open>\<open>keysToUnwrap\<close> after one more message. Key ids hold a colon, so its keys enumerate in the
  order they were put.\<close>

definition collect :: "messenger_env \<Rightarrow> chat_mode \<Rightarrow> (string \<rightharpoonup> jsval) \<Rightarrow> chat_msg \<Rightarrow> (string \<times> jsval) list \<Rightarrow> (string \<times> jsval) list" where
  "collect E mode keys m wanted =
     (case sessionPayload m of
        None \<Rightarrow> wanted
      | Some p \<Rightarrow>
          if \<not> truthy (js_get p ''keys'') then wanted
          else if keys (key_of E mode m) \<noteq> None \<or> key_of E mode m \<in> fst ` set wanted then wanted
          else if \<not> mayAdoptSession m (verified m) mode (myAddr E) then wanted
          else if truthy (key_blob E mode m p) then wanted @ [(key_of E mode m, key_blob E mode m p)]
          else wanted)"

definition adopt :: "string list \<Rightarrow> jsval list \<Rightarrow> (string \<rightharpoonup> jsval) \<Rightarrow> (string \<rightharpoonup> jsval)" where
  "adopt ks unwrapped keys =
     fold (\<lambda>(i, k) m. if truthy k then m(i \<mapsto> k) else m) (zip ks unwrapped) keys"

definition processMessages ::
  "messenger_env \<Rightarrow> chat_mode \<Rightarrow> chat_row list \<Rightarrow> session_state \<Rightarrow> session_state \<times> chat_msg list" where
  "processMessages E mode rawMsgs st =
     (let (cache, prepared) = prepare_all E mode (keyCache st) rawMsgs;
          (seen, vs) = assessFreshness (convOf E mode) prepared (freshnessSeen st);
          st1 = st\<lparr>keyCache := cache, freshnessSeen := seen\<rparr>;
          processed = map (decrypt_one E mode (sessionKeys st)) (map (mark vs) prepared);
          wanted = fold (collect E mode (sessionKeys st)) processed []
      in if wanted = [] then (st1, processed)
         else case me_unwrapMany E (map snd wanted) of
           None \<Rightarrow> (st1, processed)
         | Some unwrapped \<Rightarrow>
             (let keys = adopt (map fst wanted) unwrapped (sessionKeys st)
              in (st1\<lparr>sessionKeys := keys\<rparr>, map (decrypt_one E mode keys) processed)))"

subsection \<open>Decrypting by hand\<close>

definition set_plain :: "string \<Rightarrow> string \<Rightarrow> chat_msg \<Rightarrow> chat_msg" where
  "set_plain i t m = (if row_id m = i then m\<lparr>plainText := Some t\<rparr> else m)"

definition unread :: "chat_msg \<Rightarrow> bool" where
  "unread m \<longleftrightarrow> (plainText m = None \<or> plainText m = Some []) \<and> row_content m \<noteq> []"

definition decrypt_sibling :: "messenger_env \<Rightarrow> chat_mode \<Rightarrow> string \<Rightarrow> jsval \<Rightarrow> chat_msg \<Rightarrow> chat_msg" where
  "decrypt_sibling E mode keyId key m =
     (let p = parsed_content (row_content m)
      in if unread m \<and> is_session_payload mode p \<and> sessionKeyId (convOf E mode m) (js_get p ''sid'') = keyId
         then (case decryptWithSessionKey (me_prims E) (js_get p ''ct'') key of
             Inl _ \<Rightarrow> m
           | Inr t \<Rightarrow> m\<lparr>plainText := Some t\<rparr>)
         else m)"

definition handleManualDecrypt ::
  "messenger_env \<Rightarrow> chat_mode \<Rightarrow> chat_row \<Rightarrow> session_state \<Rightarrow> chat_msg list \<Rightarrow> session_state \<times> chat_msg list" where
  "handleManualDecrypt E mode msg st opened =
     (let p = parsed_content (row_content msg)
      in if \<not> is_session_payload mode p then (st, opened)
         else
           (let keyId = sessionKeyId (convOf E mode msg) (js_get p ''sid'')
            in case sessionKeys st keyId of
                 Some key \<Rightarrow>
                   (case decryptWithSessionKey (me_prims E) (js_get p ''ct'') key of
                      Inl _ \<Rightarrow> (st, opened)
                    | Inr t \<Rightarrow> (st, map (set_plain (row_id msg) t) opened))
               | None \<Rightarrow>
                   (let (cache, v) = verifyMessageAuthenticity (me_prims E) (me_fetch E) (keyCache st) msg p mode;
                        st1 = st\<lparr>keyCache := cache\<rparr>;
                        blob = (if truthy (js_get p ''keys'') then key_blob E mode msg p else JNull)
                    in if \<not> mayAdoptSession msg v mode (myAddr E) \<or> \<not> truthy blob then (st1, opened)
                       else case me_unwrap E blob of
                         None \<Rightarrow> (st1, opened)
                       | Some key \<Rightarrow>
                           if \<not> truthy key then (st1, opened)
                           else (st1\<lparr>sessionKeys := (sessionKeys st)(keyId \<mapsto> key)\<rparr>,
                                 map (decrypt_sibling E mode keyId key) opened))))"

subsection \<open>Live messages\<close>

text \<open>The message \<open>handleIncomingMessage\<close> (and its group twin) adds to the open conversation.
  Decryption and verification share one \<open>try\<close>: a failed decryption skips the verification.\<close>

definition incoming :: "messenger_env \<Rightarrow> chat_mode \<Rightarrow> chat_row \<Rightarrow> session_state \<Rightarrow> session_state \<times> chat_msg" where
  "incoming E mode msg st =
     (let p = parsed_content (row_content msg);
          shown = (\<lambda>v t. chat_row.extend msg
            \<lparr>verified = v, redacted = False, plainText = t, sessionPayload = None, freshness = None\<rparr>)
      in if \<not> is_session_payload mode p then (st, shown None None)
         else
           (let opening = (case sessionKeys st (sessionKeyId (convOf E mode msg) (js_get p ''sid'')) of
                  None \<Rightarrow> Inr None
                | Some key \<Rightarrow> bind_res (decryptWithSessionKey (me_prims E) (js_get p ''ct'') key) (\<lambda>t. Ok (Some t)))
            in case opening of
                 Inl _ \<Rightarrow> (st, shown None None)
               | Inr t \<Rightarrow>
                   (let (cache, v) = verifyMessageAuthenticity (me_prims E) (me_fetch E) (keyCache st) msg p mode
                    in (st\<lparr>keyCache := cache\<rparr>, shown v t))))"

definition add_incoming :: "chat_msg \<Rightarrow> chat_msg list \<Rightarrow> chat_msg list" where
  "add_incoming m messages = (if row_id m \<in> row_id ` set messages then messages else messages @ [m])"

subsection \<open>Messages keep what was verified\<close>

definition sound_msg :: "messenger_env \<Rightarrow> chat_mode \<Rightarrow> chat_msg \<Rightarrow> bool" where
  "sound_msg E mode m \<longleftrightarrow>
     (verified m = Some True \<longrightarrow> authentic (me_prims E) m (parsed_content (row_content m)) mode) \<and>
     (\<forall>p. sessionPayload m = Some p \<longrightarrow> p = parsed_content (row_content m) \<and> is_session_payload mode p)"

lemma row_of_extend [simp]:
  "chat_row.truncate (chat_row.extend m x) = m" "row_id (chat_row.extend m x) = row_id m"
  "row_sender (chat_row.extend m x) = row_sender m" "row_recipient (chat_row.extend m x) = row_recipient m"
  "row_channel (chat_row.extend m x) = row_channel m" "row_content (chat_row.extend m x) = row_content m"
  "row_at (chat_row.extend m x) = row_at m" "row_user (chat_row.extend m x) = row_user m"
  "chat_row.more (chat_row.extend m x) = x"
  by (simp_all add: chat_row.defs)

lemma authentic_row: "authentic P (chat_row.extend m x) p mode \<longleftrightarrow> authentic P m p mode"
  by (cases mode) (simp_all add: authentic_def delivered_to_def Let_def)

lemma authentic_truncate: "authentic P (chat_row.truncate m) p mode \<longleftrightarrow> authentic P m p mode"
  by (cases mode) (simp_all add: authentic_def delivered_to_def Let_def chat_row.defs)

lemma convOf_truncate [simp]: "convOf E mode (chat_row.truncate m) = convOf E mode m"
  by (cases mode) (simp_all add: convOf_def conversationIdForMessage_def Let_def chat_row.defs)

lemma mayAdopt_truncate [simp]: "mayAdoptSession (chat_row.truncate m) v mode me = mayAdoptSession m v mode me"
  by (cases mode) (simp_all add: mayAdoptSession_def Let_def chat_row.defs)

lemma truncate_fields [simp]:
  "row_content (chat_row.truncate m) = row_content m" "row_id (chat_row.truncate m) = row_id m"
  by (simp_all add: chat_row.defs)

lemma msg_fields [simp]:
  "verified (chat_row.extend m \<lparr>verified = v, redacted = r, plainText = t, sessionPayload = p, freshness = f\<rparr>) = v"
  "redacted (chat_row.extend m \<lparr>verified = v, redacted = r, plainText = t, sessionPayload = p, freshness = f\<rparr>) = r"
  "plainText (chat_row.extend m \<lparr>verified = v, redacted = r, plainText = t, sessionPayload = p, freshness = f\<rparr>) = t"
  "sessionPayload (chat_row.extend m \<lparr>verified = v, redacted = r, plainText = t, sessionPayload = p, freshness = f\<rparr>) = p"
  "freshness (chat_row.extend m \<lparr>verified = v, redacted = r, plainText = t, sessionPayload = p, freshness = f\<rparr>) = f"
  by (simp_all add: chat_row.defs)

lemma prepare_sound:
  assumes "prepare E mode cache m = (cache', x)"
  shows "chat_row.truncate x = m" "sound_msg E mode x" "plainText x = None" "freshness x = None"
  using assms verified_authentic
  by (auto simp: prepare_def Let_def sound_msg_def authentic_row split: prod.splits if_splits)

lemma prepare_cache_ok:
  "cache_ok (me_prims E) cache \<Longrightarrow> prepare E mode cache m = (cache', x) \<Longrightarrow> cache_ok (me_prims E) cache'"
  using verify_cache_ok(1) by (auto simp: prepare_def Let_def split: prod.splits)

lemma prepare_all_Cons:
  assumes "prepare_all E mode cache (m # ms) = (cache'', ys)"
  obtains cache' x xs where "prepare E mode cache m = (cache', x)" "prepare_all E mode cache' ms = (cache'', xs)" "ys = x # xs"
  using assms by (auto simp: Let_def split: prod.splits)

lemma prepare_all_sound:
  assumes "prepare_all E mode cache ms = (cache', xs)"
  shows "map chat_row.truncate xs = ms \<and> (\<forall>x\<in>set xs. sound_msg E mode x \<and> plainText x = None \<and> freshness x = None) \<and>
    (cache_ok (me_prims E) cache \<longrightarrow> cache_ok (me_prims E) cache')"
  using assms
proof (induction ms arbitrary: cache cache' xs)
  case (Cons m ms)
  from Cons.prems obtain c x ys where
    x: "prepare E mode cache m = (c, x)" "prepare_all E mode c ms = (cache', ys)" "xs = x # ys"
    by (rule prepare_all_Cons)
  show ?case
    using Cons.IH [OF x(2)] prepare_sound [OF x(1)] prepare_cache_ok [OF _ x(1)] x(3) by simp
qed simp

text \<open>Marking and decrypting leave everything but the mark and the text as it was.\<close>

lemma chat_msg_updates [simp]:
  "chat_row.truncate (m\<lparr>freshness := f\<rparr>) = chat_row.truncate m"
  "chat_row.truncate (m\<lparr>plainText := t\<rparr>) = chat_row.truncate m"
  by (simp_all add: chat_row.defs)

lemma sound_msg_upd [simp]:
  "sound_msg E mode (m\<lparr>freshness := f\<rparr>) = sound_msg E mode m"
  "sound_msg E mode (m\<lparr>plainText := t\<rparr>) = sound_msg E mode m"
  by (cases mode; simp add: sound_msg_def authentic_def delivered_to_def Let_def)+

lemma mark_keeps [simp]:
  "chat_row.truncate (mark vs m) = chat_row.truncate m" "sound_msg E mode (mark vs m) = sound_msg E mode m"
  "verified (mark vs m) = verified m" "sessionPayload (mark vs m) = sessionPayload m" "plainText (mark vs m) = plainText m"
  "row_id (mark vs m) = row_id m" "redacted (mark vs m) = redacted m"
  by (simp_all add: mark_def split: option.splits)

lemma mark_freshness: "freshness (mark vs m) = (case vs (row_id m) of None \<Rightarrow> freshness m | Some v \<Rightarrow> Some v)"
  by (simp add: mark_def split: option.splits)

lemma decrypt_one_keeps [simp]:
  "chat_row.truncate (decrypt_one E mode keys m) = chat_row.truncate m"
  "sound_msg E mode' (decrypt_one E mode keys m) = sound_msg E mode' m"
  "verified (decrypt_one E mode keys m) = verified m" "sessionPayload (decrypt_one E mode keys m) = sessionPayload m"
  "freshness (decrypt_one E mode keys m) = freshness m" "row_id (decrypt_one E mode keys m) = row_id m"
  by (simp_all add: decrypt_one_def split: option.splits sum.splits)

subsection \<open>Where a key comes from\<close>

text \<open>A delivered row may bring the key cached under \<open>k\<close>, wrapped as \<open>blob\<close>, when it is signed
  for that conversation and session and carries that blob for us.\<close>

definition carries :: "messenger_env \<Rightarrow> chat_mode \<Rightarrow> chat_row \<Rightarrow> string \<Rightarrow> jsval \<Rightarrow> bool" where
  "carries E mode m k blob \<longleftrightarrow>
     (let p = parsed_content (row_content m)
      in authentic (me_prims E) m p mode \<and> mayAdoptSession m (Some True) mode (myAddr E) \<and>
         k = sessionKeyId (convOf E mode m) (js_get p ''sid'') \<and>
         truthy (js_get p ''keys'') \<and> blob = key_blob E mode m p)"

text \<open>What the custody answers for one wrapped key: asked alone, or at its place in a batch.\<close>

definition custody_answers :: "messenger_env \<Rightarrow> jsval \<Rightarrow> jsval \<Rightarrow> bool" where
  "custody_answers E blob key \<longleftrightarrow>
     me_unwrap E blob = Some key \<or>
     (\<exists>bs us n. me_unwrapMany E bs = Some us \<and> n < length bs \<and> n < length us \<and> bs ! n = blob \<and> us ! n = key)"

definition brings :: "messenger_env \<Rightarrow> chat_mode \<Rightarrow> chat_row \<Rightarrow> string \<Rightarrow> jsval \<Rightarrow> bool" where
  "brings E mode m k key \<longleftrightarrow> (\<exists>blob. carries E mode m k blob \<and> custody_answers E blob key)"

lemma key_blob_truncate [simp]: "key_blob E mode (chat_row.truncate m) p = key_blob E mode m p"
  by (cases mode) (simp_all add: key_blob_def Let_def chat_row.defs)

lemma collect_wanted:
  assumes "(k, b) \<in> set (fold (collect E mode keys) ms wanted)" and "\<forall>m\<in>set ms. sound_msg E mode m"
  shows "(k, b) \<in> set wanted \<or> (keys k = None \<and> (\<exists>m\<in>set ms. carries E mode (chat_row.truncate m) k b))"
  using assms
proof (induction ms arbitrary: wanted)
  case (Cons m ms)
  then have m: "sound_msg E mode m" by simp
  consider "(k, b) \<in> set (collect E mode keys m wanted)" | "keys k = None" "\<exists>m\<in>set ms. carries E mode (chat_row.truncate m) k b"
    using Cons.IH [of "collect E mode keys m wanted"] Cons.prems by auto
  then show ?case
  proof cases
    case 1
    then have "(k, b) \<in> set wanted \<or> (keys k = None \<and> carries E mode (chat_row.truncate m) k b)"
      using m by (auto simp: collect_def carries_def Let_def sound_msg_def key_of_def authentic_truncate
          mayAdoptSession_def [of m] split: option.splits if_splits)
    then show ?thesis by auto
  qed auto
qed simp

lemma adopt_fold:
  "fold (\<lambda>(i, u) m. if truthy u then m(i \<mapsto> u) else m) zs keys k = Some key \<Longrightarrow>
     keys k = Some key \<or> (k, key) \<in> set zs"
  "k \<notin> fst ` set zs \<Longrightarrow> fold (\<lambda>(i, u) m. if truthy u then m(i \<mapsto> u) else m) zs keys k = keys k"
proof (induction zs arbitrary: keys)
  case (Cons z zs)
  obtain i u where z: "z = (i, u)" by (cases z)
  {
    case 1 then show ?case
      using Cons.IH(1) [of "if truthy u then keys(i \<mapsto> u) else keys"] z by (auto split: if_splits)
  next
    case 2 then show ?case
      using Cons.IH(2) [of "if truthy u then keys(i \<mapsto> u) else keys"] z by auto
  }
qed simp_all

text \<open>A key comes out of a batch at the place its wrapped form went in.\<close>

lemma adopt_Some:
  assumes "adopt (map fst wanted) us keys k = Some key"
  shows "keys k = Some key \<or>
    (\<exists>n b. n < length wanted \<and> n < length us \<and> wanted ! n = (k, b) \<and> map snd wanted ! n = b \<and> us ! n = key)"
  using adopt_fold(1) [of "zip (map fst wanted) us" keys k key] assms
  by (auto simp: adopt_def in_set_zip prod_eq_iff)

lemma adopt_other: "k \<notin> set ks \<Longrightarrow> adopt ks us keys k = keys k"
  by (auto simp: adopt_def intro!: adopt_fold(2) dest: set_zip_leftD)

lemma processed_sound:
  assumes "processMessages E mode raw st = (st', ms)"
  shows "map chat_row.truncate ms = raw" and "\<forall>m\<in>set ms. sound_msg E mode m"
  using assms prepare_all_sound [of E mode "keyCache st" raw]
  by (auto simp: processMessages_def Let_def comp_def split: prod.splits if_splits option.splits)

lemma processed_cache:
  "processMessages E mode raw st = (st', ms) \<Longrightarrow> cache_ok (me_prims E) (keyCache st) \<Longrightarrow> cache_ok (me_prims E) (keyCache st')"
  using prepare_all_sound [of E mode "keyCache st" raw]
  by (auto simp: processMessages_def Let_def split: prod.splits if_splits option.splits)

lemma processMessages_cases:
  assumes "processMessages E mode raw st = (st', ms)"
  obtains cache prepared seen vs processed wanted where
    "prepare_all E mode (keyCache st) raw = (cache, prepared)"
    "assessFreshness (convOf E mode) prepared (freshnessSeen st) = (seen, vs)"
    "processed = map (decrypt_one E mode (sessionKeys st)) (map (mark vs) prepared)"
    "wanted = fold (collect E mode (sessionKeys st)) processed []"
    "keyCache st' = cache" "freshnessSeen st' = seen" "activeSessionIds st' = activeSessionIds st"
    "(sessionKeys st' = sessionKeys st \<and> ms = processed) \<or>
     (\<exists>us. me_unwrapMany E (map snd wanted) = Some us \<and> wanted \<noteq> [] \<and>
        sessionKeys st' = adopt (map fst wanted) us (sessionKeys st) \<and>
        ms = map (decrypt_one E mode (sessionKeys st')) processed)"
proof -
  obtain cache prepared where pr: "prepare_all E mode (keyCache st) raw = (cache, prepared)" by fastforce
  obtain seen vs where f: "assessFreshness (convOf E mode) prepared (freshnessSeen st) = (seen, vs)" by fastforce
  show thesis
    by (rule that [OF pr f refl refl])
       (use assms in \<open>auto simp: processMessages_def Let_def pr f split: if_splits option.splits\<close>)
qed

lemma wanted_brought:
  assumes "prepare_all E mode cache raw = (cache', prepared)"
    and "processed = map (decrypt_one E mode keys) (map (mark vs) prepared)"
    and "(k, b) \<in> set (fold (collect E mode keys) processed [])"
  shows "keys k = None" and "\<exists>m\<in>set raw. carries E mode m k b"
proof -
  have pr: "map chat_row.truncate prepared = raw" "\<forall>x\<in>set prepared. sound_msg E mode x"
    using prepare_all_sound [OF assms(1)] by auto
  have "\<forall>m\<in>set processed. sound_msg E mode m" using assms(2) pr(2) by simp
  then have *: "keys k = None" "\<exists>m\<in>set processed. carries E mode (chat_row.truncate m) k b"
    using collect_wanted [OF assms(3)] by auto
  show "keys k = None" by (rule *(1))
  have "set (map chat_row.truncate processed) = set raw"
    using pr(1) assms(2) by (simp add: comp_def flip: pr(1))
  then show "\<exists>m\<in>set raw. carries E mode m k b" using *(2) by (metis imageI image_set)
qed

lemma processed_keys:
  assumes "processMessages E mode raw st = (st', ms)"
  shows "sessionKeys st' k = Some key \<Longrightarrow>
      sessionKeys st k = Some key \<or> (sessionKeys st k = None \<and> (\<exists>m\<in>set raw. brings E mode m k key))"
    and "sessionKeys st k = Some key \<Longrightarrow> sessionKeys st' k = Some key"
proof -
  from assms obtain cache prepared seen vs processed wanted where
    pr: "prepare_all E mode (keyCache st) raw = (cache, prepared)"
    and eqs: "processed = map (decrypt_one E mode (sessionKeys st)) (map (mark vs) prepared)"
      "wanted = fold (collect E mode (sessionKeys st)) processed []"
    and out: "sessionKeys st' = sessionKeys st \<or> (\<exists>us. me_unwrapMany E (map snd wanted) = Some us \<and>
        sessionKeys st' = adopt (map fst wanted) us (sessionKeys st))"
    by (rule processMessages_cases) blast
  note w = wanted_brought [OF pr eqs(1), folded eqs(2)]
  {
    assume new: "sessionKeys st' k = Some key" and old: "sessionKeys st k \<noteq> Some key"
    then obtain us where us: "me_unwrapMany E (map snd wanted) = Some us" "adopt (map fst wanted) us (sessionKeys st) k = Some key"
      using out by auto
    obtain n b where n: "n < length wanted" "n < length us" "wanted ! n = (k, b)" "map snd wanted ! n = b" "us ! n = key"
      using adopt_Some [OF us(2)] old by blast
    then have "custody_answers E b key" using us(1) unfolding custody_answers_def by (metis length_map)
    moreover have "(k, b) \<in> set wanted" using n(1,3) nth_mem by metis
    ultimately have "sessionKeys st k = None \<and> (\<exists>m\<in>set raw. brings E mode m k key)" using w unfolding brings_def by blast
  }
  then show "sessionKeys st' k = Some key \<Longrightarrow>
      sessionKeys st k = Some key \<or> (sessionKeys st k = None \<and> (\<exists>m\<in>set raw. brings E mode m k key))" by blast
  show "sessionKeys st k = Some key \<Longrightarrow> sessionKeys st' k = Some key"
    using out w(1) [of k] adopt_other [of k "map fst wanted" _ "sessionKeys st"] by fastforce
qed

lemma manual_keys:
  assumes "handleManualDecrypt E mode m st opened = (st', opened')"
  shows "sessionKeys st' k = Some key \<Longrightarrow> sessionKeys st k = Some key \<or> (sessionKeys st k = None \<and> brings E mode m k key)"
    and "sessionKeys st k = Some key \<Longrightarrow> sessionKeys st' k = Some key"
    and "freshnessSeen st' = freshnessSeen st"
    and "cache_ok (me_prims E) (keyCache st) \<Longrightarrow> cache_ok (me_prims E) (keyCache st')"
proof -
  obtain cache v where v: "verifyMessageAuthenticity (me_prims E) (me_fetch E) (keyCache st) m (parsed_content (row_content m)) mode = (cache, v)"
    by fastforce
  note defs = handleManualDecrypt_def Let_def v
  have adopt: "v = Some True \<Longrightarrow> authentic (me_prims E) m (parsed_content (row_content m)) mode"
    using verified_authentic [of "me_prims E" "me_fetch E" "keyCache st" m _ mode cache] v by simp
  have may: "mayAdoptSession m v mode (myAddr E) \<Longrightarrow> v = Some True" by (simp add: mayAdoptSession_def)
  show "sessionKeys st' k = Some key \<Longrightarrow> sessionKeys st k = Some key \<or> (sessionKeys st k = None \<and> brings E mode m k key)"
    using assms adopt may
    by (auto simp: defs brings_def carries_def custody_answers_def split: if_splits option.splits sum.splits)
  show "sessionKeys st k = Some key \<Longrightarrow> sessionKeys st' k = Some key"
    using assms by (auto simp: defs split: if_splits option.splits sum.splits)
  show "freshnessSeen st' = freshnessSeen st"
    using assms by (auto simp: defs split: if_splits option.splits sum.splits)
  show "cache_ok (me_prims E) (keyCache st) \<Longrightarrow> cache_ok (me_prims E) (keyCache st')"
    using assms verify_cache_ok(1) [OF _ v] by (auto simp: defs split: if_splits option.splits sum.splits)
qed

lemma incoming_keeps:
  assumes "incoming E mode m st = (st', x)"
  shows "sessionKeys st' = sessionKeys st" and "freshnessSeen st' = freshnessSeen st" and "freshness x = None"
    and "cache_ok (me_prims E) (keyCache st) \<Longrightarrow> cache_ok (me_prims E) (keyCache st')"
proof -
  obtain cache v where v: "verifyMessageAuthenticity (me_prims E) (me_fetch E) (keyCache st) m (parsed_content (row_content m)) mode = (cache, v)"
    by fastforce
  show "sessionKeys st' = sessionKeys st" "freshnessSeen st' = freshnessSeen st" "freshness x = None"
    using assms by (auto simp: incoming_def Let_def v split: if_splits option.splits sum.splits)
  show "cache_ok (me_prims E) (keyCache st) \<Longrightarrow> cache_ok (me_prims E) (keyCache st')"
    using assms verify_cache_ok(1) [OF _ v] by (auto simp: incoming_def Let_def v split: if_splits option.splits sum.splits)
qed

subsection \<open>The page as a machine\<close>

datatype msg_event =
    History chat_mode "chat_row list"
  | Open_one chat_mode chat_row "chat_msg list"
  | Live chat_mode chat_row
  | Members_changed jsval

definition msg_step :: "messenger_env \<Rightarrow> msg_event \<Rightarrow> session_state \<Rightarrow> session_state" where
  "msg_step E e st =
     (case e of
        History mode rows \<Rightarrow> fst (processMessages E mode rows st)
      | Open_one mode m opened \<Rightarrow> fst (handleManualDecrypt E mode m st opened)
      | Live mode m \<Rightarrow> fst (incoming E mode m st)
      | Members_changed channel \<Rightarrow> invalidateGroupSession channel st)"

lemma invalidate_keeps [simp]:
  "sessionKeys (invalidateGroupSession c st) = sessionKeys st"
  "freshnessSeen (invalidateGroupSession c st) = freshnessSeen st"
  "keyCache (invalidateGroupSession c st) = keyCache st"
  by (simp_all add: invalidateGroupSession_def)

text \<open>Every key of the cache was brought by a message signed for the conversation it is cached
  under; the cache of identity keys holds only keys of their addresses.\<close>

definition keys_backed :: "messenger_env \<Rightarrow> session_state \<Rightarrow> bool" where
  "keys_backed E st \<longleftrightarrow>
     cache_ok (me_prims E) (keyCache st) \<and>
     (\<forall>k key. sessionKeys st k = Some key \<longrightarrow> (\<exists>mode m. brings E mode m k key))"

lemma msg_step_keys:
  assumes "sessionKeys (msg_step E e st) k = Some key"
  shows "sessionKeys st k = Some key \<or> (\<exists>mode m. brings E mode m k key)"
proof (cases e)
  case (History mode rows)
  then show ?thesis
    using assms processed_keys(1) [of E mode rows st "fst (processMessages E mode rows st)" _ k key]
    by (auto simp: msg_step_def) (metis prod.collapse)
next
  case (Open_one mode m opened)
  then show ?thesis
    using assms manual_keys(1) [of E mode m st opened "fst (handleManualDecrypt E mode m st opened)" _ k key]
    by (auto simp: msg_step_def) (metis prod.collapse)
next
  case (Live mode m)
  then show ?thesis
    using assms incoming_keeps(1) [of E mode m st "fst (incoming E mode m st)"]
    by (auto simp: msg_step_def) (metis prod.collapse)
qed (use assms in \<open>simp add: msg_step_def\<close>)

lemma msg_step_cache:
  assumes "cache_ok (me_prims E) (keyCache st)"
  shows "cache_ok (me_prims E) (keyCache (msg_step E e st))"
proof (cases e)
  case (History mode rows)
  then show ?thesis using assms processed_cache [OF prod.collapse [symmetric]] by (simp add: msg_step_def)
next
  case (Open_one mode m opened)
  then show ?thesis using assms manual_keys(4) [OF prod.collapse [symmetric]] by (simp add: msg_step_def)
next
  case (Live mode m)
  then show ?thesis using assms incoming_keeps(4) [OF prod.collapse [symmetric]] by (simp add: msg_step_def)
qed (use assms in \<open>simp add: msg_step_def\<close>)

lemma msg_step_backed: "keys_backed E st \<Longrightarrow> keys_backed E (msg_step E e st)"
  unfolding keys_backed_def using msg_step_cache msg_step_keys by metis

interpretation page: guarded_machine "msg_step E" "keys_backed E" for E
  by unfold_locales (rule msg_step_backed)

lemma msg_step_accepted:
  "accepted (freshnessSeen st) key q = Some i \<Longrightarrow> accepted (freshnessSeen (msg_step E e st)) key q = Some i"
proof (cases e)
  case (History mode rows)
  assume a: "accepted (freshnessSeen st) key q = Some i"
  obtain st' ms where p: "processMessages E mode rows st = (st', ms)" by fastforce
  from p obtain prepared vs where "assessFreshness (convOf E mode) prepared (freshnessSeen st) = (freshnessSeen st', vs)"
    by (rule processMessages_cases) blast
  then show ?thesis using assessed(1) a p History by (simp add: msg_step_def)
qed (use manual_keys(3) incoming_keeps(2) in \<open>auto simp: msg_step_def\<close>, (metis prod.collapse)+)

interpretation positions: guarded_machine "msg_step E" "\<lambda>st. accepted (freshnessSeen st) key q = Some i" for E key q i
  by unfold_locales (rule msg_step_accepted)

lemma msg_step_keeps_key: "sessionKeys st k = Some key \<Longrightarrow> sessionKeys (msg_step E e st) k = Some key"
  using processed_keys(2) [OF prod.collapse [symmetric]] manual_keys(2) [OF prod.collapse [symmetric]]
    incoming_keeps(1) [OF prod.collapse [symmetric]]
  by (cases e) (auto simp: msg_step_def)

interpretation held: guarded_machine "msg_step E" "\<lambda>st. sessionKeys st k = Some key" for E k key
  by unfold_locales (rule msg_step_keeps_key)

end
