(* ===== verification/MsgSend.thy ===== *)
theory MsgSend
  imports MsgSessions
begin

text \<open>
  The sending half of \<open>context/MessengerContext.jsx\<close>: the gates before every send, when a
  session is reused and when a new one is minted, and the signed message that is posted.

  What one send draws and is answered is an argument: the clock, the fresh session id and key,
  the randomness of each wrap, the custody's signature (\<open>None\<close> where the user or the provider
  refuses) and whether the server took the message. The lists of the sidebar are not modelled.
\<close>

record send_state =
  sessions :: session_state
  sendState :: "string \<rightharpoonup> int \<times> int"
  dmSessionKeys :: "string \<rightharpoonup> string"
  groupSessionMembers :: "string \<rightharpoonup> string"
  trust :: trust_stores

record send_input =
  in_now :: int
  in_sid :: string
  in_key :: bytes
  in_wraps :: "string \<Rightarrow> (bytes \<times> bytes) \<times> bytes"
  in_iv :: bytes
  in_sign :: "string \<Rightarrow> string option"
  in_posted :: bool
  in_ownKey :: jsval

definition SESSION_MAX_MESSAGES :: int where
  "SESSION_MAX_MESSAGES = 100"

definition SESSION_MAX_AGE_MS :: int where
  "SESSION_MAX_AGE_MS = 24 * 60 * 60 * 1000"

subsection \<open>The life of a session\<close>

definition sessionUsable :: "send_state \<Rightarrow> int \<Rightarrow> string \<Rightarrow> bool" where
  "sessionUsable S now keyId =
     (case sendState S keyId of
        None \<Rightarrow> False
      | Some (next, startedAt) \<Rightarrow> next < SESSION_MAX_MESSAGES \<and> now - startedAt < SESSION_MAX_AGE_MS)"

definition startSession :: "send_state \<Rightarrow> int \<Rightarrow> string \<Rightarrow> send_state" where
  "startSession S now keyId = S\<lparr>sendState := (sendState S)(keyId \<mapsto> (0, now))\<rparr>"

text \<open>\<open>sendStateRef.current[keyId].next++\<close>: the position before it is raised.\<close>

definition seq_of :: "send_state \<Rightarrow> string \<Rightarrow> int" where
  "seq_of S keyId = (case sendState S keyId of None \<Rightarrow> 0 | Some (next, _) \<Rightarrow> next)"

definition nextSeq :: "send_state \<Rightarrow> string \<Rightarrow> send_state" where
  "nextSeq S keyId =
     (case sendState S keyId of
        None \<Rightarrow> S
      | Some (next, startedAt) \<Rightarrow> S\<lparr>sendState := (sendState S)(keyId \<mapsto> (next + 1, startedAt))\<rparr>)"

definition abandonSession :: "send_state \<Rightarrow> string \<Rightarrow> string \<Rightarrow> send_state" where
  "abandonSession S conv keyId =
     S\<lparr>sendState := (sendState S)(keyId := None),
       sessions := (sessions S)\<lparr>activeSessionIds := (activeSessionIds (sessions S))(conv := None)\<rparr>\<rparr>"

text \<open>A session id with its key becomes the one the conversation sends under.\<close>

definition put_session :: "send_state \<Rightarrow> string \<Rightarrow> string \<Rightarrow> jsval \<Rightarrow> send_state" where
  "put_session S conv sid key =
     S\<lparr>sessions := (sessions S)
        \<lparr>sessionKeys := (sessionKeys (sessions S))(sessionKeyId conv (JStr sid) \<mapsto> key),
         activeSessionIds := (activeSessionIds (sessions S))(conv \<mapsto> sid)\<rparr>\<rparr>"

definition current_session :: "send_state \<Rightarrow> int \<Rightarrow> string \<Rightarrow> (string \<times> jsval) option" where
  "current_session S now conv =
     (case activeSessionIds (sessions S) conv of
        None \<Rightarrow> None
      | Some sid \<Rightarrow>
          (case sessionKeys (sessions S) (sessionKeyId conv (JStr sid)) of
             None \<Rightarrow> None
           | Some key \<Rightarrow> if sessionUsable S now (sessionKeyId conv (JStr sid)) then Some (sid, key) else None))"

subsection \<open>Sign and post\<close>

definition message_payload ::
  "int \<Rightarrow> string \<Rightarrow> jsval \<Rightarrow> int \<Rightarrow> int \<Rightarrow> jsval \<Rightarrow> jsval \<Rightarrow> string \<Rightarrow> jsval" where
  "message_payload v sid gid ts seq keys ct sig =
     JObj ([(''v'', JNum v), (''sid'', JStr sid)] @ (if gid = JUndef then [] else [(''gid'', gid)]) @
       [(''ts'', JNum ts), (''seq'', JNum seq), (''keys'', keys), (''ct'', ct), (''sig'', JStr sig)])"

definition sign_and_post ::
  "messenger_env \<Rightarrow> send_input \<Rightarrow> int \<Rightarrow> string \<Rightarrow> jsval \<Rightarrow> jsval \<Rightarrow> string \<Rightarrow> jsval \<Rightarrow> jsval \<Rightarrow> string \<Rightarrow>
   send_state \<Rightarrow> send_state \<times> string res" where
  "sign_and_post E i v conv convField gid sid key keyPayload msg S =
     (let P = me_prims E; keyId = sessionKeyId conv (JStr sid); seq = seq_of S keyId; S1 = nextSeq S keyId
      in case encryptWithSessionKey P (in_iv i) msg key of
           Inl e \<Rightarrow> (S1, Throw e)
         | Inr ct \<Rightarrow>
             (case messageSigningBody P
                 \<lparr>mf_from = JStr (myAddr E), mf_conv = convField, mf_sid = JStr sid, mf_ct = ct, mf_gid = gid,
                  mf_keys = keyPayload, mf_ts = JNum (in_now i), mf_seq = JNum seq\<rparr> of
                Inl e \<Rightarrow> (S1, Throw e)
              | Inr body \<Rightarrow>
                  (case in_sign i body of
                     None \<Rightarrow> (S1, Throw (PlainError ''User rejected request''))
                   | Some sig \<Rightarrow>
                       if in_posted i
                       then (S1, Ok (json_text (message_payload v sid gid (in_now i) seq keyPayload ct sig)))
                       else (if keyPayload \<noteq> JNull then abandonSession S1 conv keyId else S1,
                             Throw (PlainError ''Fetch failed'')))))"

subsection \<open>Direct messages\<close>

definition wrapped_for :: "jsval \<Rightarrow> jsval \<Rightarrow> string" where
  "wrapped_for theirs mine = js_str theirs @ CHR ''|'' # (if is_nullish mine then [] else js_str mine)"

definition wrap_for_both :: "prims \<Rightarrow> send_input \<Rightarrow> jsval \<Rightarrow> jsval \<Rightarrow> jsval res" where
  "wrap_for_both P i theirs mine =
     (let key = JStr (generateSessionKey (in_key i))
      in bind_res (wrapSessionKey P (in_wraps i ''recip'') key theirs) (\<lambda>recip.
         bind_res (if truthy mine then wrapSessionKey P (in_wraps i ''sender'') key mine else Ok JNull) (\<lambda>sender.
           Ok (JObj [(''recip'', recip), (''sender'', sender)]))))"

text \<open>The session a send goes under, and the keys that travel with it: none where the
  conversation's session is still good for both keys.\<close>

definition dm_session ::
  "messenger_env \<Rightarrow> send_input \<Rightarrow> string \<Rightarrow> jsval \<Rightarrow> send_state \<Rightarrow> (send_state \<times> string \<times> jsval \<times> jsval) res" where
  "dm_session E i their theirKey S =
     (let wrappedFor = wrapped_for theirKey (in_ownKey i)
      in case (case current_session S (in_now i) their of
                 Some (sid, key) \<Rightarrow>
                   if dmSessionKeys S (sessionKeyId their (JStr sid)) = Some wrappedFor then Some (sid, key) else None
               | None \<Rightarrow> None) of
           Some (sid, key) \<Rightarrow> Ok (S, sid, key, JNull)
         | None \<Rightarrow>
             (let sid = in_sid i; keyId = sessionKeyId their (JStr sid); key = JStr (generateSessionKey (in_key i))
              in bind_res (wrap_for_both (me_prims E) i theirKey (in_ownKey i)) (\<lambda>keys.
                   Ok (startSession
                         (put_session (S\<lparr>dmSessionKeys := (dmSessionKeys S)(keyId \<mapsto> wrappedFor)\<rparr>) their sid key)
                         (in_now i) keyId,
                       sid, key, keys))))"

definition sendMessage ::
  "messenger_env \<Rightarrow> send_input \<Rightarrow> string \<Rightarrow> contact \<Rightarrow> send_state \<Rightarrow> send_state \<times> string res" where
  "sendMessage E i msg partner S =
     (if \<not> truthy (ct_encryptionKey partner) then (S, Throw (PlainError ''Recipient has no public key''))
      else case ct_address partner of
        None \<Rightarrow> (S, Throw (JsTypeError ''Cannot read properties of undefined''))
      | Some a \<Rightarrow>
          (let (T1, safe) = assertSafeRecipient (me_prims E) (trust S) (in_now i) partner
           in case safe of
                Inl e \<Rightarrow> (S\<lparr>trust := T1\<rparr>, Throw e)
              | Inr _ \<Rightarrow>
                  (let (T2, same) = assertKeyUnchanged T1 (in_now i) partner; S2 = S\<lparr>trust := T2\<rparr>
                   in case same of
                        Inl e \<Rightarrow> (S2, Throw e)
                      | Inr _ \<Rightarrow>
                          (case dm_session E i (to_lower a) (ct_encryptionKey partner) S2 of
                             Inl e \<Rightarrow> (S2, Throw e)
                           | Inr (S3, sid, key, keys) \<Rightarrow>
                               sign_and_post E i 1 (to_lower a) (JStr (to_lower a)) JUndef sid key keys msg S3))))"

subsection \<open>Groups\<close>

record group_member =
  gm_address :: string
  gm_user :: contact

definition member_contact :: "group_member \<Rightarrow> contact" where
  "member_contact m = (gm_user m)\<lparr>ct_address := Some (gm_address m)\<rparr>"

datatype gate = Safe | Excluded_attestation | Excluded_changed | Not_wrappable

definition gate_member :: "messenger_env \<Rightarrow> int \<Rightarrow> trust_stores \<Rightarrow> group_member \<Rightarrow> trust_stores \<times> gate" where
  "gate_member E now T m =
     (if \<not> truthy (ct_encryptionKey (gm_user m)) then (T, Not_wrappable)
      else
        (let (T1, v) = attestationVerdict (me_prims E) T now (member_contact m)
         in if v \<noteq> Verified then (T1, Excluded_attestation)
            else if gm_address m = myAddr E then (T1, Safe)
            else
              (let (T2, st) = pinContactKey T1 now (member_contact m)
               in (T2, if st = Changed then Excluded_changed else Safe))))"

fun gateGroupMembers :: "messenger_env \<Rightarrow> int \<Rightarrow> trust_stores \<Rightarrow> group_member list \<Rightarrow> trust_stores \<times> (group_member \<times> gate) list" where
  "gateGroupMembers E now T [] = (T, [])"
| "gateGroupMembers E now T (m # ms) =
     (let (T1, g) = gate_member E now T m; (T2, gs) = gateGroupMembers E now T1 ms
      in (T2, (m, g) # gs))"

definition safe_members :: "(group_member \<times> gate) list \<Rightarrow> group_member list" where
  "safe_members gs = map fst (filter (\<lambda>(_, g). g = Safe) gs)"

definition safe_set :: "group_member list \<Rightarrow> string" where
  "safe_set safe =
     join '','' (sort (map (\<lambda>m. gm_address m @ CHR '':'' # js_str (ct_encryptionKey (gm_user m))) safe))"

fun wrap_for_members :: "prims \<Rightarrow> send_input \<Rightarrow> group_member list \<Rightarrow> (string \<times> jsval) list \<Rightarrow> (string \<times> jsval) list res" where
  "wrap_for_members P i [] acc = Ok acc"
| "wrap_for_members P i (m # ms) acc =
     bind_res (wrapSessionKey P (in_wraps i (gm_address m)) (JStr (generateSessionKey (in_key i)))
       (ct_encryptionKey (gm_user m))) (\<lambda>w.
     wrap_for_members P i ms (obj_put (gm_address m) w acc))"

definition group_session ::
  "messenger_env \<Rightarrow> send_input \<Rightarrow> string \<Rightarrow> group_member list \<Rightarrow> send_state \<Rightarrow> (send_state \<times> string \<times> jsval \<times> jsval) res" where
  "group_session E i conv safe S =
     (case (case current_session S (in_now i) conv of
              Some (sid, key) \<Rightarrow>
                if groupSessionMembers S (sessionKeyId conv (JStr sid)) = Some (safe_set safe) then Some (sid, key) else None
            | None \<Rightarrow> None) of
        Some (sid, key) \<Rightarrow> Ok (S, sid, key, JNull)
      | None \<Rightarrow>
          (let sid = in_sid i; keyId = sessionKeyId conv (JStr sid); key = JStr (generateSessionKey (in_key i))
           in bind_res (wrap_for_members (me_prims E) i safe []) (\<lambda>keys.
                Ok (startSession
                      (put_session (S\<lparr>groupSessionMembers := (groupSessionMembers S)(keyId \<mapsto> safe_set safe)\<rparr>) conv sid key)
                      (in_now i) keyId,
                    sid, key, JObj keys))))"

definition sendGroupMessage ::
  "messenger_env \<Rightarrow> send_input \<Rightarrow> string \<Rightarrow> jsval \<Rightarrow> group_member list \<Rightarrow> send_state \<Rightarrow> send_state \<times> string res" where
  "sendGroupMessage E i msg channelId members S =
     (let (T, gs) = gateGroupMembers E (in_now i) (trust S) members; S1 = S\<lparr>trust := T\<rparr>;
          conv = groupConversationId channelId
      in case group_session E i conv (safe_members gs) S1 of
           Inl e \<Rightarrow> (S1, Throw e)
         | Inr (S2, sid, key, keys) \<Rightarrow> sign_and_post E i 2 conv channelId channelId sid key keys msg S2)"

subsection \<open>What is posted\<close>

lemma sign_and_post_ok:
  "snd (sign_and_post E i v conv convField gid sid key keys msg S) = Inr c \<longleftrightarrow>
     in_posted i \<and> (\<exists>ct body sig.
       encryptWithSessionKey (me_prims E) (in_iv i) msg key = Inr ct \<and>
       messageSigningBody (me_prims E)
         \<lparr>mf_from = JStr (myAddr E), mf_conv = convField, mf_sid = JStr sid, mf_ct = ct, mf_gid = gid,
          mf_keys = keys, mf_ts = JNum (in_now i), mf_seq = JNum (seq_of S (sessionKeyId conv (JStr sid)))\<rparr> = Inr body \<and>
       in_sign i body = Some sig \<and>
       c = json_text (message_payload v sid gid (in_now i) (seq_of S (sessionKeyId conv (JStr sid))) keys ct sig))"
  by (auto simp: sign_and_post_def Let_def split: sum.splits option.splits if_splits)

lemma sign_and_post_state:
  "snd (sign_and_post E i v conv convField gid sid key keys msg S) = Inr c \<Longrightarrow>
   fst (sign_and_post E i v conv convField gid sid key keys msg S) = nextSeq S (sessionKeyId conv (JStr sid))"
  by (auto simp: sign_and_post_def Let_def split: sum.splits option.splits if_splits)

text \<open>A refused signature leaves the session as if the message had gone.\<close>

lemma sign_and_post_refused:
  assumes "in_sign i = (\<lambda>_. None)"
  shows "fst (sign_and_post E i v conv convField gid sid key keys msg S) = nextSeq S (sessionKeyId conv (JStr sid))"
  using assms by (auto simp: sign_and_post_def Let_def split: sum.splits)

text \<open>The session a direct message goes under is within its life.\<close>

definition counted :: "send_state \<Rightarrow> bool" where
  "counted S \<longleftrightarrow> (\<forall>k next t. sendState S k = Some (next, t) \<longrightarrow> 0 \<le> next)"

lemma current_session_usable:
  "current_session S now conv = Some (sid, key) \<Longrightarrow>
     sessionUsable S now (sessionKeyId conv (JStr sid)) \<and> sessionKeys (sessions S) (sessionKeyId conv (JStr sid)) = Some key \<and>
     activeSessionIds (sessions S) conv = Some sid"
  by (auto simp: current_session_def split: option.splits if_splits)

lemma fresh_session [simp]:
  "sendState (startSession S now k) k = Some (0, now)" "seq_of (startSession S now k) k = 0"
  by (simp_all add: startSession_def seq_of_def)

lemma dm_session_cases:
  assumes "dm_session E i their theirKey S = Inr (S', sid, key, keys)"
  obtains (Reused) "S' = S" "keys = JNull" "current_session S (in_now i) their = Some (sid, key)"
      "dmSessionKeys S (sessionKeyId their (JStr sid)) = Some (wrapped_for theirKey (in_ownKey i))"
  | (Minted) "sid = in_sid i" "key = JStr (generateSessionKey (in_key i))"
      "wrap_for_both (me_prims E) i theirKey (in_ownKey i) = Inr keys"
      "S' = startSession (put_session (S\<lparr>dmSessionKeys := (dmSessionKeys S)
         (sessionKeyId their (JStr sid) \<mapsto> wrapped_for theirKey (in_ownKey i))\<rparr>) their sid key)
         (in_now i) (sessionKeyId their (JStr sid))"
  using assms by (auto simp: dm_session_def Let_def split: option.splits if_splits)

lemma dm_session_usable:
  assumes "dm_session E i their theirKey S = Inr (S', sid, key, keys)"
  shows "sessionUsable S' (in_now i) (sessionKeyId their (JStr sid))"
  using assms
proof (cases rule: dm_session_cases)
  case Reused
  then show ?thesis using current_session_usable by blast
next
  case Minted
  then show ?thesis by (simp add: sessionUsable_def SESSION_MAX_MESSAGES_def SESSION_MAX_AGE_MS_def)
qed

lemma usable_seq:
  "sessionUsable S now k \<Longrightarrow> counted S \<Longrightarrow> 0 \<le> seq_of S k \<and> seq_of S k < SESSION_MAX_MESSAGES"
  by (auto simp: sessionUsable_def seq_of_def counted_def split: option.splits)

text \<open>A posted direct message passed both gates and went under a usable session.\<close>

lemma sendMessage_ok:
  assumes "snd (sendMessage E i msg partner S) = Inr c"
  obtains a T S' sid key keys where
    "ct_address partner = Some a" "send_allowed (me_prims E) (trust S) (in_now i) partner"
    "T = fst (assertKeyUnchanged (fst (assertSafeRecipient (me_prims E) (trust S) (in_now i) partner)) (in_now i) partner)"
    "dm_session E i (to_lower a) (ct_encryptionKey partner) (S\<lparr>trust := T\<rparr>) = Inr (S', sid, key, keys)"
    "sendMessage E i msg partner S = sign_and_post E i 1 (to_lower a) (JStr (to_lower a)) JUndef sid key keys msg S'"
proof -
  let ?safe = "assertSafeRecipient (me_prims E) (trust S) (in_now i) partner"
  let ?same = "assertKeyUnchanged (fst ?safe) (in_now i) partner"
  obtain a where a: "ct_address partner = Some a" and key: "truthy (ct_encryptionKey partner)"
    using assms by (auto simp: sendMessage_def split: if_splits option.splits)
  obtain v where v: "snd ?safe = Inr v"
    using assms a key by (cases "snd ?safe") (auto simp: sendMessage_def case_prod_unfold Let_def)
  obtain u where u: "snd ?same = Inr u"
    using assms a key v by (cases "snd ?same") (auto simp: sendMessage_def case_prod_unfold Let_def)
  obtain S' sid k keys where s: "dm_session E i (to_lower a) (ct_encryptionKey partner) (S\<lparr>trust := fst ?same\<rparr>) = Inr (S', sid, k, keys)"
    using assms a key v u
    by (cases "dm_session E i (to_lower a) (ct_encryptionKey partner) (S\<lparr>trust := fst ?same\<rparr>)")
       (auto simp: sendMessage_def case_prod_unfold Let_def)
  show thesis
  proof (rule that [OF a _ refl s])
    show "send_allowed (me_prims E) (trust S) (in_now i) partner" using v u by (simp add: send_allowed_def)
    show "sendMessage E i msg partner S = sign_and_post E i 1 (to_lower a) (JStr (to_lower a)) JUndef sid k keys msg S'"
      using a key v u s by (simp add: sendMessage_def case_prod_unfold Let_def)
  qed
qed

text \<open>The signature has no part in choosing the session.\<close>

lemma unsigned_wrap [simp]: "wrap_for_both P (i\<lparr>in_sign := f\<rparr>) k l = wrap_for_both P i k l"
  by (simp add: wrap_for_both_def Let_def split: if_split)

lemma unsigned_input [simp]:
  "dm_session E (i\<lparr>in_sign := f\<rparr>) their k S = dm_session E i their k S"
  by (simp add: dm_session_def Let_def split: option.split)

lemma dm_session_trust:
  "current_session (S\<lparr>trust := T\<rparr>) now their = current_session S now their"
  by (simp add: current_session_def sessionUsable_def split: option.splits)

lemma gated_trust:
  assumes "send_allowed P T now c"
  shows "trust_step P (Gate now c) T = fst (assertKeyUnchanged (fst (assertSafeRecipient P T now c)) now c)"
  using assms by (auto simp: send_allowed_def trust_step_def case_prod_unfold Let_def)

lemma sendMessage_path:
  assumes "snd (sendMessage E (i\<lparr>in_sign := f\<rparr>) msg partner S) = Inr c"
  obtains a T S' sid key keys where
    "ct_address partner = Some a" "T = trust_step (me_prims E) (Gate (in_now i) partner) (trust S)"
    "dm_session E i (to_lower a) (ct_encryptionKey partner) (S\<lparr>trust := T\<rparr>) = Inr (S', sid, key, keys)"
    "\<forall>g. sendMessage E (i\<lparr>in_sign := g\<rparr>) msg partner S =
       sign_and_post E (i\<lparr>in_sign := g\<rparr>) 1 (to_lower a) (JStr (to_lower a)) JUndef sid key keys msg S'"
proof -
  let ?safe = "assertSafeRecipient (me_prims E) (trust S) (in_now i) partner"
  let ?same = "assertKeyUnchanged (fst ?safe) (in_now i) partner"
  obtain a S' sid key keys where a: "ct_address partner = Some a" and ok: "send_allowed (me_prims E) (trust S) (in_now i) partner"
    and s: "dm_session E i (to_lower a) (ct_encryptionKey partner) (S\<lparr>trust := fst ?same\<rparr>) = Inr (S', sid, key, keys)"
    using assms by (elim sendMessage_ok) simp
  have k: "truthy (ct_encryptionKey partner)"
    using ok verified_contact(1) by (auto simp: send_allowed_iff)
  obtain v u where "snd ?safe = Inr v" "snd ?same = Inr u" using ok by (auto simp: send_allowed_def)
  then show thesis
    using that [OF a _ s] a k s gated_trust [OF ok] by (simp add: sendMessage_def case_prod_unfold Let_def)
qed

lemma minted_is_reused:
  assumes S': "S' = startSession (put_session S0 their sid key) now (sessionKeyId their (JStr sid))"
    and w: "dmSessionKeys S0 (sessionKeyId their (JStr sid)) = Some (wrapped_for theirKey (in_ownKey i))"
    and age: "in_now i - now < SESSION_MAX_AGE_MS"
  shows "dm_session E i their theirKey ((nextSeq S' (sessionKeyId their (JStr sid)))\<lparr>trust := T\<rparr>) =
    Inr ((nextSeq S' (sessionKeyId their (JStr sid)))\<lparr>trust := T\<rparr>, sid, key, JNull)"
    and "seq_of ((nextSeq S' (sessionKeyId their (JStr sid)))\<lparr>trust := T\<rparr>) (sessionKeyId their (JStr sid)) = 1"
  using age w
  by (simp_all add: S' dm_session_def current_session_def sessionUsable_def nextSeq_def startSession_def put_session_def
      seq_of_def SESSION_MAX_MESSAGES_def)

lemma refused_then_keyless:
  assumes fresh: "\<And>a. ct_address partner = Some a \<Longrightarrow> current_session S (in_now i) (to_lower a) = None"
    and signed: "snd (sendMessage E (i\<lparr>in_sign := f\<rparr>) msg partner S) = Inr c0"
    and later: "in_ownKey j = in_ownKey i" "in_now j - in_now i < SESSION_MAX_AGE_MS"
    and second: "snd (sendMessage E j msg' partner (fst (sendMessage E (i\<lparr>in_sign := \<lambda>_. None\<rparr>) msg partner S))) = Inr c"
  shows "\<exists>ct sig. c = json_text (message_payload 1 (in_sid i) JUndef (in_now j) 1 JNull ct sig)"
proof -
  from signed obtain a T S' sid key keys where a: "ct_address partner = Some a"
    and "T = trust_step (me_prims E) (Gate (in_now i) partner) (trust S)"
    and s: "dm_session E i (to_lower a) (ct_encryptionKey partner) (S\<lparr>trust := T\<rparr>) = Inr (S', sid, key, keys)"
    and send: "\<forall>g. sendMessage E (i\<lparr>in_sign := g\<rparr>) msg partner S =
       sign_and_post E (i\<lparr>in_sign := g\<rparr>) 1 (to_lower a) (JStr (to_lower a)) JUndef sid key keys msg S'"
    by (rule sendMessage_path)
  let ?k = "sessionKeyId (to_lower a) (JStr sid)" and ?S1 = "fst (sendMessage E (i\<lparr>in_sign := \<lambda>_. None\<rparr>) msg partner S)"
  have S1: "?S1 = nextSeq S' ?k" using sign_and_post_refused [of "i\<lparr>in_sign := \<lambda>_. None\<rparr>"] by (simp add: send)
  from second obtain T2 S2 sid2 key2 keys2 where
    s2: "dm_session E j (to_lower a) (ct_encryptionKey partner) (?S1\<lparr>trust := T2\<rparr>) = Inr (S2, sid2, key2, keys2)"
    and send2: "sendMessage E j msg' partner ?S1 =
       sign_and_post E j 1 (to_lower a) (JStr (to_lower a)) JUndef sid2 key2 keys2 msg' S2"
    using a by (elim sendMessage_ok) simp
  from s show ?thesis
  proof (cases rule: dm_session_cases)
    case Reused
    then show ?thesis using fresh [OF a] by (simp add: dm_session_trust)
  next
    case Minted
    have w: "dmSessionKeys ((S\<lparr>trust := T\<rparr>)\<lparr>dmSessionKeys := (dmSessionKeys (S\<lparr>trust := T\<rparr>))
        (?k \<mapsto> wrapped_for (ct_encryptionKey partner) (in_ownKey i))\<rparr>) ?k =
        Some (wrapped_for (ct_encryptionKey partner) (in_ownKey j))"
      using later(1) by simp
    note reuse = minted_is_reused [OF Minted(4) w later(2)]
    have "sid2 = sid \<and> keys2 = JNull \<and> S2 = (nextSeq S' ?k)\<lparr>trust := T2\<rparr>"
      using s2 reuse(1) later(1) by (auto simp: S1)
    moreover have "seq_of ((nextSeq S' ?k)\<lparr>trust := T2\<rparr>) ?k = 1" using reuse(2) later(1) by simp
    ultimately show ?thesis
      using second Minted(1) unfolding send2 sign_and_post_ok by auto
  qed
qed

subsection \<open>Who a group message is wrapped to\<close>

lemma gate_member_safe:
  assumes "gate_member E now T m = (T', Safe)"
  shows "attestationStatus (me_prims E) (member_contact m) = Verified"
    and "gm_address m \<noteq> myAddr E \<Longrightarrow> send_allowed (me_prims E) T now (member_contact m)"
proof -
  have v: "attestationStatus (me_prims E) (member_contact m) = Verified"
    using assms by (auto simp: gate_member_def attestationVerdict_def Let_def split: if_splits prod.splits)
  then show "attestationStatus (me_prims E) (member_contact m) = Verified" .
  assume "gm_address m \<noteq> myAddr E"
  then have "checkContactKey (fst (attestationVerdict (me_prims E) T now (member_contact m)))
      (ct_address (member_contact m)) (ct_encryptionKey (member_contact m)) \<noteq> Changed"
    using assms v by (auto simp: gate_member_def pinContactKey_def Let_def case_prod_unfold split: if_splits)
  then show "send_allowed (me_prims E) T now (member_contact m)"
    using v by (simp add: send_allowed_def assertKeyUnchanged_ok assertSafeRecipient_def case_prod_unfold Let_def
        attestationVerdict_def)
qed

lemma wrap_members_keys:
  assumes "wrap_for_members P i ms acc = Inr keys"
  shows "fst ` set keys = fst ` set acc \<union> gm_address ` set ms"
  using assms
proof (induction ms arbitrary: acc)
  case (Cons m ms)
  then obtain w where "wrap_for_members P i ms (obj_put (gm_address m) w acc) = Inr keys" by auto
  from Cons.IH [OF this] show ?case by (simp add: keys_obj_put insert_commute Un_commute)
qed simp

end
