(* ===== verification/MsgRoundtrip.thy ===== *)
theory MsgRoundtrip
  imports MsgSend
begin

text \<open>
  The two halves of the messenger together: what \<open>sendMessage\<close> posts, delivered to the partner's
  client as a row, comes out of \<open>processMessages\<close> verified, readable and with nothing to report.
\<close>

subsection \<open>The post is JSON the partner parses back\<close>

lemma aead_envelope_shape:
  assumes "aeadEncrypt P iv msg k f = Inr ct" and "aead_field f"
  shows "js_pure ct" and "is_object ct"
  using assms by (auto simp: aeadEncrypt_def aead_field_def Let_def obj_of_list_distinct)

lemma wrap_pure: "wrapSessionKey P rnd k pk = Inr w \<Longrightarrow> js_pure w"
  by (auto simp: wrapSessionKey_def kemSeal_def Let_def obj_of_list_distinct)

lemma wrap_for_both_pure: "wrap_for_both P i theirs mine = Inr keys \<Longrightarrow> js_pure keys"
  by (auto simp: wrap_for_both_def Let_def wrap_pure split: if_splits)

lemma message_payload_pure:
  "js_pure keys \<Longrightarrow> js_pure ct \<Longrightarrow> js_pure (message_payload v sid JUndef ts seq keys ct sig)"
  by (simp add: message_payload_def)

lemma message_payload_fields [simp]:
  "truthy (message_payload v sid JUndef ts seq keys ct sig)"
  "js_get (message_payload v sid JUndef ts seq keys ct sig) ''v'' = JNum v"
  "js_get (message_payload v sid JUndef ts seq keys ct sig) ''sid'' = JStr sid"
  "js_get (message_payload v sid JUndef ts seq keys ct sig) ''gid'' = JUndef"
  "js_get (message_payload v sid JUndef ts seq keys ct sig) ''ts'' = JNum ts"
  "js_get (message_payload v sid JUndef ts seq keys ct sig) ''seq'' = JNum seq"
  "js_get (message_payload v sid JUndef ts seq keys ct sig) ''keys'' = keys"
  "js_get (message_payload v sid JUndef ts seq keys ct sig) ''ct'' = ct"
  "js_get (message_payload v sid JUndef ts seq keys ct sig) ''sig'' = JStr sig"
  by (simp_all add: message_payload_def)

lemma no_gid_body:
  "messageSigningBody P \<lparr>mf_from = f, mf_conv = c, mf_sid = s, mf_ct = t, mf_gid = JUndef, mf_keys = k, mf_ts = x, mf_seq = q\<rparr> =
   messageSigningBody P \<lparr>mf_from = f, mf_conv = c, mf_sid = s, mf_ct = t, mf_gid = JStr [], mf_keys = k, mf_ts = x, mf_seq = q\<rparr>"
  by (simp add: messageSigningBody_def)

subsection \<open>A posted message and where it arrives\<close>

text \<open>A message of one sender: its fields, and a signature by a key of the sender's address.\<close>

record posted =
  po_from :: string
  po_to :: string
  po_sid :: string
  po_ts :: int
  po_seq :: int
  po_keys :: jsval
  po_ct :: jsval
  po_sig :: string

definition po_payload :: "posted \<Rightarrow> jsval" where
  "po_payload m = message_payload 1 (po_sid m) JUndef (po_ts m) (po_seq m) (po_keys m) (po_ct m) (po_sig m)"

definition po_fields :: "posted \<Rightarrow> message_fields" where
  "po_fields m =
     \<lparr>mf_from = JStr (po_from m), mf_conv = JStr (po_to m), mf_sid = JStr (po_sid m), mf_ct = po_ct m, mf_gid = JUndef,
      mf_keys = po_keys m, mf_ts = JNum (po_ts m), mf_seq = JNum (po_seq m)\<rparr>"

definition well_posted :: "prims \<Rightarrow> jsval \<Rightarrow> posted \<Rightarrow> bool" where
  "well_posted P pk m \<longleftrightarrow>
     js_pure (po_keys m) \<and> js_pure (po_ct m) \<and> is_object (po_ct m) \<and>
     (\<exists>body. messageSigningBody P (po_fields m) = Inr body \<and>
        verifyIdentitySignature P (JStr (po_from m)) pk body (JStr (po_sig m)))"

text \<open>The row the partner's API answers for it.\<close>

definition row_of :: "string \<Rightarrow> int \<Rightarrow> jsval \<Rightarrow> posted \<Rightarrow> chat_row" where
  "row_of i at user m =
     \<lparr>row_id = i, row_sender = Some (po_from m), row_recipient = Some (po_to m), row_channel = JNull,
      row_user = user, row_content = json_text (po_payload m), row_at = Some at\<rparr>"

lemma row_of_fields [simp]:
  "row_id (row_of i at user m) = i" "row_sender (row_of i at user m) = Some (po_from m)"
  "row_recipient (row_of i at user m) = Some (po_to m)" "row_user (row_of i at user m) = user"
  "row_content (row_of i at user m) = json_text (po_payload m)" "row_at (row_of i at user m) = Some at"
  by (simp_all add: row_of_def)

lemma address_lower: "isAddress (JStr a) \<Longrightarrow> to_lower a = a"
  by (simp add: isAddress.simps)

lemma well_posted_facts:
  assumes "well_posted P pk m"
  shows "isAddress (JStr (po_from m))" "isAddressOf P (JStr (po_from m)) pk"
    "isCount (JNum (po_ts m))" "isCount (JNum (po_seq m))" "isSignedIdentifier (JStr (po_sid m))"
    "parsed_content (json_text (po_payload m)) = po_payload m" "is_session_payload Dm (po_payload m)"
  using assms json_parse_text message_payload_pure
  by (auto simp: well_posted_def messageSigningBody_def po_fields_def verifyIdentitySignature_iff parsed_content_def
      po_payload_def is_session_payload_def mode_version_def isSignedIdentifier.simps)

lemma signed_back:
  "messageSigningBody P (signed_message f (JStr (po_to m)) (po_payload m)) =
   messageSigningBody P ((po_fields m)\<lparr>mf_from := JStr f\<rparr>)"
  by (simp add: signed_message_def po_payload_def po_fields_def or_blank_def no_gid_body)

text \<open>The recipient verifies it, whatever user record comes with it, when the key is already
  known or the record carries it.\<close>

lemma well_posted_verifies:
  assumes m: "well_posted P pk m" and b: "to_lower (po_to m) = po_to m"
    and key: "cache (po_from m) = Some pk \<or> (cache (po_from m) = None \<and> js_get user ''identity_public_key'' = pk)"
  shows "\<exists>cache'. verifyMessageAuthenticity P fetch cache (row_of i at user m) (po_payload m) Dm = (cache', Some True) \<and>
    cache' (po_from m) = Some pk"
proof -
  note f = well_posted_facts [OF m]
  have a: "to_lower (po_from m) = po_from m" "po_from m \<noteq> []"
    using f(1) isAddress_str [OF f(1)] by (auto simp: address_lower)
  obtain body where body: "messageSigningBody P (po_fields m) = Inr body"
      "verifyIdentitySignature P (JStr (po_from m)) pk body (JStr (po_sig m))"
    using m by (auto simp: well_posted_def)
  have sig: "po_sig m \<noteq> []"
    using body(2) by (auto simp: verifyIdentitySignature_iff fromB64.simps)
  have "delivered_to (row_of i at user m) (po_payload m) Dm = Some (JStr (po_to m))"
    by (simp add: delivered_to_def po_payload_def dmConversationId_def b)
  moreover have "messageSigningBody P (signed_message (po_from m) (JStr (po_to m)) (po_payload m)) = Inr body"
    using body(1) by (simp add: signed_back po_fields_def)
  moreover have "\<exists>c. identityKeyFor P fetch cache (po_from m) user = (c, Some pk) \<and> c (po_from m) = Some pk"
    using key f(2) a by (auto simp: identityKeyFor_def Let_def bound_def remember_def)
  moreover have "truthy (po_payload m)" "js_get (po_payload m) ''sig'' = JStr (po_sig m)" by (simp_all add: po_payload_def)
  ultimately show ?thesis
    using body(2) a sig by (auto simp: verifyMessageAuthenticity_def dmConversationId_def)
qed

subsection \<open>Processed\<close>

text \<open>A message that is next of its session, near its clock: no verdict.\<close>

definition next_in_line :: "seen_state \<Rightarrow> int \<Rightarrow> int \<Rightarrow> int \<Rightarrow> bool" where
  "next_in_line st seq ts at \<longleftrightarrow>
     ids st seq = None \<and> \<not> skewed (Some at) ts \<and> late_or_first st at \<and> (maxSeq st < 0 \<or> seq = maxSeq st + 1)"

lemma next_in_line_first: "\<bar>ts - at\<bar> \<le> MAX_CLOCK_SKEW_MS \<Longrightarrow> next_in_line unseen seq ts at"
  by (simp add: next_in_line_def unseen_def skewed_def late_or_first_def)

lemma next_in_line_quiet:
  assumes "judged x" "row_at x = Some at" "next_in_line (the_state seen (msg_key c x)) (msg_seq x) (msg_ts x) at"
  shows "snd (assessFreshness c [x] seen) = Map.empty"
  using assms judge_next [of "the_state seen (msg_key c x)" "msg_seq x" at "msg_ts x" "row_id x" Map.empty]
  by (simp add: assessFreshness_def assess_one_def next_in_line_def Let_def)

lemma key_of_plain [simp]: "key_of E mode (x\<lparr>plainText := t\<rparr>) = key_of E mode x"
  by (cases mode) (simp_all add: key_of_def convOf_def conversationIdForMessage_def Let_def)

text \<open>What the recipient's client holds before: the identity key, and the session key or its
  own wrap of it.\<close>

definition opens :: "prims \<Rightarrow> jsval \<Rightarrow> jsval \<Rightarrow> string \<Rightarrow> bool" where
  "opens P ct key msg \<longleftrightarrow> decryptWithSessionKey P ct key = Inr msg"

lemma received:
  assumes m: "well_posted P pk m" and E: "me_prims E = P" "myAddr E = po_to m" "po_from m \<noteq> po_to m"
    and pk: "keyCache st (po_from m) = Some pk \<or> (keyCache st (po_from m) = None \<and> js_get user ''identity_public_key'' = pk)"
    and key: "sessionKeys st (sessionKeyId (po_from m) (JStr (po_sid m))) = Some key \<or>
      (sessionKeys st (sessionKeyId (po_from m) (JStr (po_sid m))) = None \<and>
       truthy (po_keys m) \<and> truthy (js_get (po_keys m) ''recip'') \<and> truthy key \<and>
       me_unwrapMany E [js_get (po_keys m) ''recip''] = Some [key])"
    and op: "opens P (po_ct m) key msg"
    and line: "next_in_line (the_state (freshnessSeen st) (session_key (po_from m) (JStr (po_sid m)) (Some (po_from m))))
      (po_seq m) (po_ts m) at"
  shows "\<exists>st' x. processMessages E Dm [row_of i at user m] st = (st', [x]) \<and>
    verified x = Some True \<and> plainText x = Some msg \<and> freshness x = None \<and> row_id x = i \<and>
    sessionKeys st' (sessionKeyId (po_from m) (JStr (po_sid m))) = Some key"
proof -
  note f = well_posted_facts [OF m]
  have low: "to_lower (po_from m) = po_from m" "to_lower (po_to m) = po_to m"
    using address_lower [OF f(1)] E(2) by (simp_all flip: E(2))
  obtain cache where v: "verifyMessageAuthenticity P (me_fetch E) (keyCache st) (row_of i at user m) (po_payload m) Dm = (cache, Some True)"
    using well_posted_verifies [OF m low(2), where cache = "keyCache st" and user = user] pk by blast
  let ?x = "chat_row.extend (row_of i at user m)
    \<lparr>verified = Some True, redacted = False, plainText = None, sessionPayload = Some (po_payload m), freshness = None\<rparr>"
  have ct: "\<not> is_nullish (po_ct m)" using m by (cases "po_ct m") (auto simp: well_posted_def)
  have prep: "prepare E Dm (keyCache st) (row_of i at user m) = (cache, ?x)"
    using v f(6,7) ct by (simp add: prepare_def E(1) po_payload_def)
  have conv: "convOf E Dm ?x = po_from m"
    using low E by (simp add: convOf_def conversationIdForMessage_def dmConversationId_def Let_def)
  have "judged ?x" using f(3,4) by (simp add: judged_def po_payload_def)
  moreover have "msg_key (convOf E Dm) ?x = session_key (po_from m) (JStr (po_sid m)) (Some (po_from m))"
    "msg_seq ?x = po_seq m" "msg_ts ?x = po_ts m"
    using conv by (simp_all add: msg_key_def msg_seq_def msg_ts_def po_payload_def count_of_def)
  ultimately have quiet: "snd (assessFreshness (convOf E Dm) [?x] (freshnessSeen st)) = Map.empty"
    using next_in_line_quiet [of ?x at] line by simp
  then obtain seen where seen: "assessFreshness (convOf E Dm) [?x] (freshnessSeen st) = (seen, Map.empty)"
    by (metis prod.collapse)
  have keyId: "key_of E Dm ?x = sessionKeyId (po_from m) (JStr (po_sid m))"
    using conv by (simp add: key_of_def po_payload_def)
  have dec: "decrypt_one E Dm ks ?x = ?x\<lparr>plainText := Some msg\<rparr>" if "ks (key_of E Dm ?x) = Some key" for ks
    using that op by (simp add: decrypt_one_def po_payload_def opens_def E(1))
  from key show ?thesis
  proof
    assume k: "sessionKeys st (sessionKeyId (po_from m) (JStr (po_sid m))) = Some key"
    then have "collect E Dm (sessionKeys st) (?x\<lparr>plainText := Some msg\<rparr>) [] = []"
      using keyId by (simp add: collect_def)
    then show ?thesis
      using k keyId dec by (simp add: processMessages_def prep seen mark_def Let_def)
  next
    assume k: "sessionKeys st (sessionKeyId (po_from m) (JStr (po_sid m))) = None \<and>
       truthy (po_keys m) \<and> truthy (js_get (po_keys m) ''recip'') \<and> truthy key \<and>
       me_unwrapMany E [js_get (po_keys m) ''recip''] = Some [key]"
    have idle: "decrypt_one E Dm (sessionKeys st) ?x = ?x"
      using k keyId by (simp add: decrypt_one_def)
    have "mayAdoptSession ?x (Some True) Dm (myAddr E)"
      using low E by (simp add: mayAdoptSession_def dmConversationId_def Let_def)
    then have "collect E Dm (sessionKeys st) ?x [] = [(key_of E Dm ?x, js_get (po_keys m) ''recip'')]"
      using k keyId low E by (simp add: collect_def key_blob_def Let_def po_payload_def dmConversationId_def)
    then show ?thesis
      using k dec [of "(sessionKeys st)(key_of E Dm ?x \<mapsto> key)"]
      by (simp add: processMessages_def prep seen mark_def idle adopt_def Let_def) (simp add: keyId)
  qed
qed

subsection \<open>Sent\<close>

text \<open>A custody holding one identity seed, and one holding one encryption seed: what the vault's
  \<open>signMessage\<close> and \<open>unwrapManySessionKeys\<close> answer when nothing is refused.\<close>

definition custody_sign :: "prims \<Rightarrow> bytes \<Rightarrow> bytes \<times> bytes \<Rightarrow> string \<Rightarrow> string option" where
  "custody_sign P sk rnd body = (case signMessage P body (JStr (toHex sk)) rnd of Inl _ \<Rightarrow> None | Inr s \<Rightarrow> Some s)"

definition custody_unwrap :: "prims \<Rightarrow> bytes \<Rightarrow> jsval list \<Rightarrow> jsval list option" where
  "custody_unwrap P sk ws =
     Some (map (\<lambda>w. case unwrapSessionKey P w (JStr (toHex sk)) of Inl _ \<Rightarrow> JNull | Inr k \<Rightarrow> JStr k) ws)"

text \<open>The draws of a first message that are good enough to be used.\<close>

definition good_draws :: "prims \<Rightarrow> send_input \<Rightarrow> bool" where
  "good_draws P i \<longleftrightarrow> length (in_key i) = 32 \<and> in_iv i \<noteq> [] \<and>
     p384_valid P (fst (fst (in_wraps i ''recip''))) \<and> snd (in_wraps i ''recip'') \<noteq> []"

definition reads_with :: "prims \<Rightarrow> bytes \<Rightarrow> jsval \<Rightarrow> bool" where
  "reads_with P sk key \<longleftrightarrow>
     catkdf_usable P sk \<and> (\<exists>pk. catkdfPublicKey P (Some sk) = Inr pk \<and> key = JStr (toHex pk))"

lemma wrapped_recipient:
  assumes P: "envelope_laws P" and d: "good_draws P i" and r: "reads_with P sk theirs"
    and w: "wrap_for_both P i theirs mine = Inr keys"
  shows "truthy keys" and "custody_unwrap P sk [js_get keys ''recip''] = Some [JStr (toHex (in_key i))]"
    and "truthy (js_get keys ''recip'')"
proof -
  obtain pk where pk: "catkdfPublicKey P (Some sk) = Inr pk" "theirs = JStr (toHex pk)" "catkdf_usable P sk"
    using r by (auto simp: reads_with_def)
  have ne: "in_key i \<noteq> []" using d by (auto simp: good_draws_def)
  obtain v where v: "wrapSessionKey P (in_wraps i ''recip'') (JStr (toHex (in_key i))) (JStr (toHex pk)) = Inr v"
      "unwrapSessionKey P v (JStr (toHex sk)) = Inr (toHex (in_key i))"
    using session_key_roundtrip [OF P pk(3) _ pk(1) _ ne, of "in_wraps i ''recip''"] d by (auto simp: good_draws_def)
  have keys: "truthy keys \<and> js_get keys ''recip'' = v"
    using w v(1) pk(2) by (auto simp: wrap_for_both_def Let_def generateSessionKey_def)
  then show "truthy keys" "custody_unwrap P sk [js_get keys ''recip''] = Some [JStr (toHex (in_key i))]"
    by (simp_all add: custody_unwrap_def v(2))
  show "truthy (js_get keys ''recip'')"
    using keys v(2) by (cases v) (auto simp: unwrapSessionKey_def kemOpen_def assertFormat_def or_else_def)
qed

lemma first_message:
  assumes P: "signature_laws P" "envelope_laws P" and E: "me_prims E = P" "myAddr E = a"
    and own: "own_identity P sk pk a" and sign: "in_sign i = custody_sign P sk rnd"
    and d: "good_draws P i" and r: "reads_with P bk (ct_encryptionKey partner)"
    and fresh: "\<And>b. ct_address partner = Some b \<Longrightarrow> current_session S (in_now i) (to_lower b) = None"
    and sent: "snd (sendMessage E i msg partner S) = Inr c"
  shows "\<exists>m b. ct_address partner = Some b \<and> c = json_text (po_payload m) \<and> well_posted P (JStr (toHex pk)) m \<and>
    po_from m = a \<and> po_to m = to_lower b \<and> po_sid m = in_sid i \<and> po_ts m = in_now i \<and> po_seq m = 0 \<and>
    opens P (po_ct m) (JStr (toHex (in_key i))) msg \<and> truthy (po_keys m) \<and> truthy (js_get (po_keys m) ''recip'') \<and>
    custody_unwrap P bk [js_get (po_keys m) ''recip''] = Some [JStr (toHex (in_key i))]"
proof -
  from sent obtain b T S' sid key keys where b: "ct_address partner = Some b"
    and s: "dm_session E i (to_lower b) (ct_encryptionKey partner) (S\<lparr>trust := T\<rparr>) = Inr (S', sid, key, keys)"
    and post: "sendMessage E i msg partner S = sign_and_post E i 1 (to_lower b) (JStr (to_lower b)) JUndef sid key keys msg S'"
    by (rule sendMessage_ok)
  from s have mint: "sid = in_sid i \<and> key = JStr (toHex (in_key i)) \<and>
      wrap_for_both P i (ct_encryptionKey partner) (in_ownKey i) = Inr keys \<and>
      seq_of S' (sessionKeyId (to_lower b) (JStr sid)) = 0"
  proof (cases rule: dm_session_cases)
    case Reused
    then show ?thesis using fresh [OF b] by (simp add: dm_session_trust)
  qed (simp add: E generateSessionKey_def)
  have q: "seq_of S' (sessionKeyId (to_lower b) (JStr (in_sid i))) = 0" using mint by auto
  from sent obtain ct body sig where ct: "encryptWithSessionKey P (in_iv i) msg (JStr (toHex (in_key i))) = Inr ct"
    and body: "messageSigningBody P \<lparr>mf_from = JStr a, mf_conv = JStr (to_lower b), mf_sid = JStr (in_sid i), mf_ct = ct,
        mf_gid = JUndef, mf_keys = keys, mf_ts = JNum (in_now i), mf_seq = JNum 0\<rparr> = Inr body"
    and sig: "in_sign i body = Some sig"
    and c: "c = json_text (message_payload 1 (in_sid i) JUndef (in_now i) 0 keys ct sig)"
    unfolding post sign_and_post_ok using q by (auto simp: mint E)
  have keys: "wrap_for_both P i (ct_encryptionKey partner) (in_ownKey i) = Inr keys" using mint by simp
  have dg: "digest_laws P" and aead: "aead_correct P" using P(2) by (simp_all add: envelope_laws_def)
  have "verifyIdentitySignature P (JStr a) (JStr (toHex pk)) body (JStr sig)"
    using own_signature_verifies [OF P(1) dg own, of body rnd] sig
    by (auto simp: sign custody_sign_def split: sum.splits)
  moreover have shape: "js_pure ct" "is_object ct"
    using aead_envelope_shape [of P "in_iv i" msg _ "''content''" ct] ct by (simp_all add: encryptWithSessionKey_def aead_field_def)
  moreover have "aes_key_ok (in_key i)" "in_iv i \<noteq> []" using d by (simp_all add: good_draws_def aes_key_ok_def)
  then have "opens P ct (JStr (toHex (in_key i))) msg"
    using aead_roundtrip [OF aead, of "in_key i" "in_iv i" "''content''" msg] ct
    by (auto simp: opens_def decryptWithSessionKey_def encryptWithSessionKey_def aead_field_def)
  ultimately show ?thesis
    using wrapped_recipient [OF P(2) d r keys] wrap_for_both_pure [OF keys] b body
    by (intro exI [of _ "\<lparr>po_from = a, po_to = to_lower b, po_sid = in_sid i, po_ts = in_now i, po_seq = 0,
          po_keys = keys, po_ct = ct, po_sig = sig\<rparr>"] exI [of _ b])
       (auto simp: c po_payload_def well_posted_def po_fields_def)
qed

text \<open>And it goes out: to a contact the gates let through, a first message is posted.\<close>

definition own_key_ok :: "prims \<Rightarrow> send_input \<Rightarrow> bool" where
  "own_key_ok P i \<longleftrightarrow>
     \<not> truthy (in_ownKey i) \<or>
     ((\<exists>sk. reads_with P sk (in_ownKey i)) \<and> p384_valid P (fst (fst (in_wraps i ''sender''))) \<and> snd (in_wraps i ''sender'') \<noteq> [])"

lemma wrap_ok:
  assumes "envelope_laws P" "reads_with P sk key" "p384_valid P (fst (fst rnd))" "snd rnd \<noteq> []" "k \<noteq> []"
  shows "\<exists>w. wrapSessionKey P rnd (JStr (toHex k)) key = Inr w"
proof -
  obtain pk where "catkdf_usable P sk" "catkdfPublicKey P (Some sk) = Inr pk" "key = JStr (toHex pk)"
    using assms(2) by (auto simp: reads_with_def)
  then show ?thesis using session_key_roundtrip [OF assms(1) _ assms(3) _ assms(4,5), of sk pk] by blast
qed

lemma wrap_for_both_ok:
  assumes P: "envelope_laws P" and d: "good_draws P i" and r: "reads_with P sk theirs" and o: "own_key_ok P i"
  shows "\<exists>keys. wrap_for_both P i theirs (in_ownKey i) = Inr keys"
proof -
  have ne: "in_key i \<noteq> []" using d by (auto simp: good_draws_def)
  obtain w where w: "wrapSessionKey P (in_wraps i ''recip'') (JStr (toHex (in_key i))) theirs = Inr w"
    using wrap_ok [OF P r _ _ ne, of "in_wraps i ''recip''"] d by (auto simp: good_draws_def)
  show ?thesis
  proof (cases "truthy (in_ownKey i)")
    case True
    then obtain mk v where "reads_with P mk (in_ownKey i)"
        "wrapSessionKey P (in_wraps i ''sender'') (JStr (toHex (in_key i))) (in_ownKey i) = Inr v"
      using o wrap_ok [OF P _ _ _ ne, of _ "in_ownKey i" "in_wraps i ''sender''"] by (fastforce simp: own_key_ok_def)
    then show ?thesis using w True by (simp add: wrap_for_both_def generateSessionKey_def)
  qed (simp add: w wrap_for_both_def generateSessionKey_def)
qed

lemma posted_if:
  assumes P: "signature_laws P" "envelope_laws P" and E: "me_prims E = P" "myAddr E = a"
    and own: "own_identity P sk pk a" and sign: "in_sign i = custody_sign P sk rnd"
    and b: "ct_address partner = Some b" and ok: "send_allowed P (trust S) (in_now i) partner"
    and s: "\<And>T. \<exists>S'. dm_session E i (to_lower b) (ct_encryptionKey partner) (S\<lparr>trust := T\<rparr>) = Inr (S', sid, JStr (toHex k), keys) \<and>
      seq_of S' (sessionKeyId (to_lower b) (JStr sid)) = q"
    and k: "aes_key_ok k" "in_iv i \<noteq> []"
    and i: "isSignedIdentifier (JStr sid)" "isCount (JNum (in_now i))" "isCount (JNum q)" "in_posted i"
  shows "\<exists>c. snd (sendMessage E i msg partner S) = Inr c"
proof -
  let ?safe = "assertSafeRecipient P (trust S) (in_now i) partner"
  let ?same = "assertKeyUnchanged (fst ?safe) (in_now i) partner"
  have v: "attestationStatus P partner = Verified" using ok by (simp add: send_allowed_iff)
  have conv: "isAddress (JStr (to_lower b))" using verified_contact(2) [OF v] b by (simp add: norm_address_def)
  obtain x y where xy: "snd ?safe = Inr x" "snd ?same = Inr y" using ok by (auto simp: send_allowed_def)
  obtain S' where s': "dm_session E i (to_lower b) (ct_encryptionKey partner) (S\<lparr>trust := fst ?same\<rparr>) =
      Inr (S', sid, JStr (toHex k), keys)" and q: "seq_of S' (sessionKeyId (to_lower b) (JStr sid)) = q"
    using s by blast
  have dg: "digest_laws P" and aead: "aead_correct P" using P(2) by (simp_all add: envelope_laws_def)
  obtain ct where ct: "encryptWithSessionKey P (in_iv i) msg (JStr (toHex k)) = Inr ct"
    using aead_roundtrip [OF aead k, of "''content''" msg] by (auto simp: encryptWithSessionKey_def aead_field_def)
  have from_ok: "isAddress (JStr a)" using own addressOf_isAddress [OF dg, of "JStr (toHex pk)" a] by (simp add: own_identity_def)
  have "\<exists>body. messageSigningBody P \<lparr>mf_from = JStr a, mf_conv = JStr (to_lower b), mf_sid = JStr sid, mf_ct = ct,
        mf_gid = JUndef, mf_keys = keys, mf_ts = JNum (in_now i), mf_seq = JNum q\<rparr> = Inr body"
    using from_ok conv i by (auto simp: messageSigningBody_def simp del: isSignedIdentifier.simps)
  then obtain body where body: "messageSigningBody P \<lparr>mf_from = JStr a, mf_conv = JStr (to_lower b), mf_sid = JStr sid,
        mf_ct = ct, mf_gid = JUndef, mf_keys = keys, mf_ts = JNum (in_now i), mf_seq = JNum q\<rparr> = Inr body"
    by blast
  obtain sig where "signMessage P body (JStr (toHex sk)) rnd = Inr sig"
    using own_signature_verifies [OF P(1) dg own] by blast
  then have sig: "in_sign i body = Some sig" by (simp add: sign custody_sign_def)
  have "sendMessage E i msg partner S =
      sign_and_post E i 1 (to_lower b) (JStr (to_lower b)) JUndef sid (JStr (toHex k)) keys msg S'"
    using verified_contact(1) [OF v] b xy s' by (simp add: sendMessage_def case_prod_unfold Let_def E)
  then show ?thesis
    using sign_and_post_ok [of E i 1 "to_lower b" "JStr (to_lower b)" JUndef sid "JStr (toHex k)" keys msg S'] ct body sig q i(4)
    by (auto simp: E)
qed

lemma first_message_posted:
  assumes P: "signature_laws P" "envelope_laws P" and E: "me_prims E = P" "myAddr E = a"
    and own: "own_identity P sk pk a" and sign: "in_sign i = custody_sign P sk rnd"
    and d: "good_draws P i" "own_key_ok P i" and r: "reads_with P bk (ct_encryptionKey partner)"
    and b: "ct_address partner = Some b" and fresh: "current_session S (in_now i) (to_lower b) = None"
    and ok: "send_allowed P (trust S) (in_now i) partner"
    and i: "isSignedIdentifier (JStr (in_sid i))" "isCount (JNum (in_now i))" "in_posted i"
  shows "\<exists>c. snd (sendMessage E i msg partner S) = Inr c"
proof -
  obtain keys where keys: "wrap_for_both P i (ct_encryptionKey partner) (in_ownKey i) = Inr keys"
    using wrap_for_both_ok [OF P(2) d(1) r d(2)] by blast
  have "\<exists>S'. dm_session E i (to_lower b) (ct_encryptionKey partner) (S\<lparr>trust := T\<rparr>) =
      Inr (S', in_sid i, JStr (toHex (in_key i)), keys) \<and> seq_of S' (sessionKeyId (to_lower b) (JStr (in_sid i))) = 0" for T
    using keys fresh by (simp add: dm_session_def dm_session_trust E Let_def generateSessionKey_def)
  moreover have "aes_key_ok (in_key i)" "in_iv i \<noteq> []" using d(1) by (simp_all add: good_draws_def aes_key_ok_def)
  moreover have "isCount (JNum 0)" by (simp add: isCount_def max_safe_integer_def)
  ultimately show ?thesis
    using posted_if [OF P E own sign b ok, of "in_sid i" "in_key i" keys 0] i by blast
qed

end
