(* ===== verification/MsgClaims.thy ===== *)
theory MsgClaims
  imports MsgRoundtrip
begin

text \<open>
  Lemmas behind the messenger's properties: which delivered row a cached key came from, what a
  replay meets in history and live, whom a group key is wrapped to, and how long a session lasts.
\<close>

subsection \<open>The row a key came from\<close>

definition event_rows :: "msg_event \<Rightarrow> (chat_mode \<times> chat_row) set" where
  "event_rows e =
     (case e of
        History mode rows \<Rightarrow> Pair mode ` set rows
      | Open_one mode m _ \<Rightarrow> {(mode, m)}
      | _ \<Rightarrow> {})"

lemma msg_step_keys_from:
  assumes "sessionKeys (msg_step E e st) k = Some key" and "sessionKeys st k = None"
  shows "\<exists>(mode, m)\<in>event_rows e. brings E mode m k key"
proof (cases e)
  case (History mode rows)
  then show ?thesis
    using assms processed_keys(1) [of E mode rows st "fst (processMessages E mode rows st)" _ k key]
    by (auto simp: msg_step_def event_rows_def) (metis option.distinct(1) prod.collapse)
next
  case (Open_one mode m opened)
  then show ?thesis
    using assms manual_keys(1) [of E mode m st opened "fst (handleManualDecrypt E mode m st opened)" _ k key]
    by (auto simp: msg_step_def event_rows_def) (metis option.distinct(1) prod.collapse)
next
  case (Live mode m)
  then show ?thesis
    using assms incoming_keeps(1) [of E mode m st "fst (incoming E mode m st)"]
    by (auto simp: msg_step_def) (metis option.distinct(1) prod.collapse)
qed (use assms in \<open>simp add: msg_step_def\<close>)

lemma run_keys_from:
  assumes "sessionKeys (fold (msg_step E) es st) k = Some key" and "sessionKeys st k = None"
  shows "\<exists>e\<in>set es. \<exists>(mode, m)\<in>event_rows e. brings E mode m k key"
  using assms
proof (induction es arbitrary: st)
  case (Cons e es)
  show ?case
  proof (cases "sessionKeys (msg_step E e st) k")
    case None
    then show ?thesis using Cons by auto
  next
    case (Some key')
    then have "key' = key" using held.run_inv [OF Some, of E es] Cons.prems(1) by simp
    then show ?thesis using msg_step_keys_from [OF Some Cons.prems(2)] by auto
  qed
qed simp

subsection \<open>Replays\<close>

lemma upd_same [simp]:
  "judged (m\<lparr>freshness := f\<rparr>) = judged m" "judged (m\<lparr>plainText := t\<rparr>) = judged m"
  "msg_seq (m\<lparr>freshness := f\<rparr>) = msg_seq m" "msg_seq (m\<lparr>plainText := t\<rparr>) = msg_seq m"
  "convOf E mode (m\<lparr>freshness := f\<rparr>) = convOf E mode m" "convOf E mode (m\<lparr>plainText := t\<rparr>) = convOf E mode m"
  "msg_key (convOf E mode) (m\<lparr>freshness := f\<rparr>) = msg_key (convOf E mode) m"
  "msg_key (convOf E mode) (m\<lparr>plainText := t\<rparr>) = msg_key (convOf E mode) m"
  by (cases mode; simp add: judged_def msg_seq_def msg_key_def convOf_def conversationIdForMessage_def Let_def)+

lemma mark_same [simp]:
  "row_content (mark vs m) = row_content m" "judged (mark vs m) = judged m" "msg_seq (mark vs m) = msg_seq m"
  "msg_key (convOf E mode) (mark vs m) = msg_key (convOf E mode) m"
  by (simp_all add: mark_def split: option.splits)

lemma decrypt_one_same [simp]:
  "row_content (decrypt_one E' mode' ks m) = row_content m" "judged (decrypt_one E' mode' ks m) = judged m" "msg_seq (decrypt_one E' mode' ks m) = msg_seq m"
  "msg_key (convOf E mode) (decrypt_one E' mode' ks m) = msg_key (convOf E mode) m"
  by (simp_all add: decrypt_one_def split: option.splits sum.splits)

lemma processed_freshness:
  assumes "processMessages E mode raw st = (st', ms)" and "m \<in> set ms" and "judged m"
  shows "accepted (freshnessSeen st') (msg_key (convOf E mode) m) (msg_seq m) = Some (row_id m) \<or> freshness m \<noteq> None"
    and "accepted (freshnessSeen st) (msg_key (convOf E mode) m) (msg_seq m) = Some j \<Longrightarrow> j \<noteq> row_id m \<Longrightarrow> freshness m \<noteq> None"
proof -
  from assms(1) obtain cache prepared seen vs processed where
    pr: "prepare_all E mode (keyCache st) raw = (cache, prepared)"
    and f: "assessFreshness (convOf E mode) prepared (freshnessSeen st) = (seen, vs)"
    and ms: "processed = map (decrypt_one E mode (sessionKeys st)) (map (mark vs) prepared)"
      "ms = processed \<or> ms = map (decrypt_one E mode (sessionKeys st')) processed"
    and seen: "freshnessSeen st' = seen"
    by (rule processMessages_cases) blast
  obtain x where x: "x \<in> set prepared" "m = decrypt_one E mode (sessionKeys st) (mark vs x) \<or>
      m = decrypt_one E mode (sessionKeys st') (decrypt_one E mode (sessionKeys st) (mark vs x))"
    using assms(2) ms by auto
  have same: "judged x = judged m" "row_id x = row_id m" "msg_seq x = msg_seq m"
      "msg_key (convOf E mode) x = msg_key (convOf E mode) m" "freshness m = freshness (mark vs x)"
    using x(2) by auto
  show "accepted (freshnessSeen st') (msg_key (convOf E mode) m) (msg_seq m) = Some (row_id m) \<or> freshness m \<noteq> None"
    using assessed(2) [OF f x(1)] assms(3) same seen by (auto simp: mark_freshness)
  assume j: "accepted (freshnessSeen st) (msg_key (convOf E mode) m) (msg_seq m) = Some j" "j \<noteq> row_id m"
  then have "accepted seen (msg_key (convOf E mode) m) (msg_seq m) = Some j" using assessed(1) [OF f] by blast
  then show "freshness m \<noteq> None"
    using assessed(2) [OF f x(1)] assms(3) same j(2) by (auto simp: mark_freshness)
qed

text \<open>A verified message verifies again, under any id, while its key is cached.\<close>

lemma verified_again:
  assumes "verifyMessageAuthenticity P f cache m p mode = (cache', Some True)" and "cache' \<subseteq>\<^sub>m cache2"
  shows "verifyMessageAuthenticity P f cache2 (m\<lparr>row_id := j\<rparr>) p mode = (cache2, Some True)"
proof -
  let ?from = "dmConversationId (row_sender m)"
  obtain conv body key where c: "truthy p" "truthy (js_get p ''sig'')" "delivered_to m p mode = Some conv"
      "messageSigningBody P (signed_message ?from conv p) = Inr body"
      "identityKeyFor P f cache ?from (row_user m) = (cache', Some key)"
      "verifyIdentitySignature P (JStr ?from) key body (js_get p ''sig'')"
    using assms(1) by (auto simp: verifyMessageAuthenticity_def Let_def split: if_splits option.splits sum.splits prod.splits)
  have low: "to_lower ?from = ?from" by (simp add: dmConversationId_def split: option.splits)
  have "cache' ?from = Some key \<and> ?from \<noteq> []"
    using c(5) by (auto simp: identityKeyFor_def Let_def remember_def bound_def low split: if_splits option.splits)
  then have "cache2 ?from = Some key" "?from \<noteq> []" using assms(2) by (auto simp: map_le_def dom_def)
  then have "identityKeyFor P f cache2 ?from (row_user m) = (cache2, Some key)"
    using low by (simp add: identityKeyFor_def)
  moreover have "delivered_to (m\<lparr>row_id := j\<rparr>) p mode = Some conv"
  proof -
    have "delivered_to (m\<lparr>row_id := j\<rparr>) p mode = delivered_to m p mode"
      by (cases mode) (simp_all add: delivered_to_def Let_def)
    then show ?thesis using c(3) by simp
  qed
  ultimately show ?thesis using c by (simp add: verifyMessageAuthenticity_def)
qed

lemma prepared_verified:
  assumes "prepare_all E mode cache ms = (cache', xs)" and "x \<in> set xs" and "verified x = Some True"
    and "cache_ok (me_prims E) cache"
  shows "\<exists>c c'. verifyMessageAuthenticity (me_prims E) (me_fetch E) c (chat_row.truncate x)
      (parsed_content (row_content x)) mode = (c', Some True) \<and> c' \<subseteq>\<^sub>m cache'"
  using assms
proof (induction ms arbitrary: cache xs)
  case (Cons m ms)
  from Cons.prems(1) obtain c y ys where
    y: "prepare E mode cache m = (c, y)" "prepare_all E mode c ms = (cache', ys)" "xs = y # ys"
    by (rule prepare_all_Cons)
  have c: "cache_ok (me_prims E) c" using prepare_cache_ok [OF Cons.prems(4) y(1)] .
  have grow: "prepare_all E mode d ns = (d', zs) \<Longrightarrow> cache_ok (me_prims E) d \<Longrightarrow> d \<subseteq>\<^sub>m d'" for d d' ns zs
  proof (induction ns arbitrary: d zs)
    case (Cons n ns)
    from Cons.prems(1) obtain e z zs' where z: "prepare E mode d n = (e, z)" "prepare_all E mode e ns = (d', zs')"
      by (rule prepare_all_Cons)
    have "d \<subseteq>\<^sub>m e" using z(1) verify_cache_ok(2) [OF Cons.prems(2)] by (auto simp: prepare_def Let_def split: prod.splits)
    then show ?case using Cons.IH [OF z(2) prepare_cache_ok [OF Cons.prems(2) z(1)]] map_le_trans by blast
  qed simp
  show ?case
  proof (cases "x = y")
    case True
    then have "verifyMessageAuthenticity (me_prims E) (me_fetch E) cache (chat_row.truncate x)
        (parsed_content (row_content x)) mode = (c, Some True)"
      using y(1) Cons.prems(3) by (auto simp: prepare_def Let_def split: prod.splits)
    then show ?thesis using grow [OF y(2) c] by blast
  next
    case False
    then show ?thesis using Cons.IH [OF y(2) _ Cons.prems(3) c] Cons.prems(2) y(3) by auto
  qed
qed simp

text \<open>A plaintext came from the key now cached for the message's own conversation and session.\<close>

lemma decrypted_with:
  assumes "plainText (decrypt_one E mode keys m) = Some t" and "plainText m = None"
  shows "\<exists>p key. sessionPayload m = Some p \<and> keys (key_of E mode m) = Some key \<and>
    decryptWithSessionKey (me_prims E) (js_get p ''ct'') key = Inr t"
  using assms by (auto simp: decrypt_one_def split: option.splits if_splits sum.splits)

lemma processed_live_again:
  assumes "processMessages E mode raw st = (st', ms)" and "m \<in> set ms" and "verified m = Some True"
    and "plainText m = Some t" and "cache_ok (me_prims E) (keyCache st)"
  shows "\<exists>x. incoming E mode ((chat_row.truncate m)\<lparr>row_id := j\<rparr>) st' = (st', x) \<and>
    row_id x = j \<and> verified x = Some True \<and> plainText x = Some t \<and> freshness x = None"
proof -
  from assms(1) obtain cache prepared seen vs processed where
    pr: "prepare_all E mode (keyCache st) raw = (cache, prepared)"
    and ms: "processed = map (decrypt_one E mode (sessionKeys st)) (map (mark vs) prepared)"
      "ms = processed \<or> ms = map (decrypt_one E mode (sessionKeys st')) processed"
    and cache: "keyCache st' = cache"
    by (rule processMessages_cases) blast
  obtain x where x: "x \<in> set prepared" "m = decrypt_one E mode (sessionKeys st) (mark vs x) \<or>
      m = decrypt_one E mode (sessionKeys st') (decrypt_one E mode (sessionKeys st) (mark vs x))"
    using assms(2) ms by auto
  have base: "plainText x = None" "sound_msg E mode m" "verified x = verified m" "sessionPayload x = sessionPayload m"
      "chat_row.truncate x = chat_row.truncate m" "row_content x = row_content m"
    using prepare_all_sound [OF pr] x truncate_fields(1) [of x] truncate_fields(1) [of m] by auto
  have conv: "key_of E mode (mark vs x) = key_of E mode m" "key_of E mode (decrypt_one E mode ks (mark vs x)) = key_of E mode m" for ks
    using base(4,5) convOf_truncate [of E mode] by (metis convOf_truncate decrypt_one_keeps(1,4) key_of_def mark_keeps(1,4))+
  have "\<exists>p key. sessionPayload m = Some p \<and> sessionKeys st' (key_of E mode m) = Some key \<and>
      decryptWithSessionKey (me_prims E) (js_get p ''ct'') key = Inr t"
  proof (cases "plainText (decrypt_one E mode (sessionKeys st) (mark vs x)) = None")
    case True
    then have "m = decrypt_one E mode (sessionKeys st') (decrypt_one E mode (sessionKeys st) (mark vs x))"
      using x(2) assms(4) by auto
    then show ?thesis using decrypted_with [of E mode "sessionKeys st'" _ t, OF _ True] assms(4) conv by auto
  next
    case False
    then obtain u where u: "plainText (decrypt_one E mode (sessionKeys st) (mark vs x)) = Some u" by blast
    then have "u = t" using x(2) assms(4) by (auto simp: decrypt_one_def split: option.splits)
    then obtain p key where "sessionPayload m = Some p" "sessionKeys st (key_of E mode m) = Some key"
        "decryptWithSessionKey (me_prims E) (js_get p ''ct'') key = Inr t"
      using decrypted_with [OF u] base(1,4) conv by auto
    then show ?thesis using processed_keys(2) [OF assms(1)] by blast
  qed
  then obtain p key where p: "sessionPayload m = Some p" "sessionKeys st' (key_of E mode m) = Some key"
      "decryptWithSessionKey (me_prims E) (js_get p ''ct'') key = Inr t"
    by blast
  have pc: "p = parsed_content (row_content m)" "is_session_payload mode p"
    using base(2) p(1) by (auto simp: sound_msg_def)
  obtain c c' where v: "verifyMessageAuthenticity (me_prims E) (me_fetch E) c (chat_row.truncate m) p mode = (c', Some True)"
      "c' \<subseteq>\<^sub>m cache"
    using prepared_verified [OF pr x(1) _ assms(5)] base assms(3) pc(1) by auto
  let ?m = "(chat_row.truncate m)\<lparr>row_id := j\<rparr>"
  have again: "verifyMessageAuthenticity (me_prims E) (me_fetch E) cache ?m p mode = (cache, Some True)"
    by (rule verified_again [OF v])
  have "convOf E mode ?m = convOf E mode m"
    by (cases mode) (simp_all add: convOf_def conversationIdForMessage_def Let_def chat_row.defs)
  then have "sessionKeyId (convOf E mode ?m) (js_get p ''sid'') = key_of E mode m"
    using p(1) by (simp add: key_of_def)
  then show ?thesis
    using p(2,3) pc again cache by (simp add: incoming_def Let_def)
qed

subsection \<open>Groups\<close>

lemma gate_member_pins:
  "pin T b = Some k \<Longrightarrow> pin (fst (gate_member E now T m)) b = Some k"
proof -
  assume p: "pin T b = Some k"
  have "pin (fst (attestationVerdict (me_prims E) T now c)) b = Some k" for c
    using p by (simp add: pin_def)
  then show ?thesis using p pin_pinContactKey by (simp add: gate_member_def Let_def case_prod_unfold)
qed

text \<open>What a gate does to the trust stores is a look at the contact or the gate of a direct message;
  a member let through, ourselves apart, is pinned.\<close>

lemma gate_member_step:
  "fst (gate_member E now T m) = T \<or> fst (gate_member E now T m) = trust_step (me_prims E) (Look now (member_contact m)) T \<or>
   fst (gate_member E now T m) = trust_step (me_prims E) (Gate now (member_contact m)) T"
  by (auto simp: gate_member_def trust_step_def assertSafeRecipient_def pin_assert attestationVerdict_def Let_def case_prod_unfold)

lemma gate_member_pinned:
  assumes "gate_member E now T m = (T', Safe)" and "gm_address m \<noteq> myAddr E"
  shows "T' = trust_step (me_prims E) (Gate now (member_contact m)) T"
    and "pin T' (to_lower (gm_address m)) = Some (ct_encryptionKey (gm_user m))"
proof -
  have v: "attestationStatus (me_prims E) (member_contact m) = Verified" using gate_member_safe(1) [OF assms(1)] .
  show T': "T' = trust_step (me_prims E) (Gate now (member_contact m)) T"
    using assms v verified_contact(1) [OF v]
    by (auto simp: gate_member_def trust_step_def assertSafeRecipient_def pin_assert attestationVerdict_def Let_def case_prod_unfold
        split: if_splits)
  show "pin T' (to_lower (gm_address m)) = Some (ct_encryptionKey (gm_user m))"
    using send_pins [OF gate_member_safe(2) [OF assms]] by (auto simp: T' norm_address_def member_contact_def strict_eq_def)
qed

lemma gate_all_Cons:
  assumes "gateGroupMembers E now T (m # ms) = (T2, gs)"
  obtains T1 g gs' where "gate_member E now T m = (T1, g)" "gateGroupMembers E now T1 ms = (T2, gs')" "gs = (m, g) # gs'"
  using assms by (auto split: prod.splits)

lemma gate_all_members: "gateGroupMembers E now T ms = (T', gs) \<Longrightarrow> map fst gs = ms"
  by (induction ms arbitrary: T gs) (auto elim!: gate_all_Cons simp del: gateGroupMembers.simps(2))

lemma gate_all_safe:
  assumes "gateGroupMembers E now T ms = (T', gs)" and "(m, Safe) \<in> set gs"
  shows "\<exists>T0. gate_member E now T0 m = (fst (gate_member E now T0 m), Safe) \<and> (\<forall>b k. pin T b = Some k \<longrightarrow> pin T0 b = Some k)"
  using assms
proof (induction ms arbitrary: T gs)
  case (Cons n ns)
  from Cons.prems(1) obtain T1 g gs' where
    g: "gate_member E now T n = (T1, g)" and gs': "gateGroupMembers E now T1 ns = (T', gs')" and gs: "gs = (n, g) # gs'"
    by (rule gate_all_Cons)
  show ?case
  proof (cases "(m, Safe) \<in> set gs'")
    case True
    have "pin T b = Some k \<longrightarrow> pin T1 b = Some k" for b k using gate_member_pins [of T b k E now n] g by simp
    then show ?thesis using Cons.IH [OF gs' True] by blast
  next
    case False
    then have "m = n" "g = Safe" using Cons.prems(2) gs by auto
    then show ?thesis using g by (metis fst_conv)
  qed
qed simp

lemma gate_all_pins: "gateGroupMembers E now T ms = (T', gs) \<Longrightarrow> pin T b = Some k \<Longrightarrow> pin T' b = Some k"
proof (induction ms arbitrary: T gs)
  case (Cons m ms)
  from Cons.prems(1) obtain T1 g gs' where "gate_member E now T m = (T1, g)" "gateGroupMembers E now T1 ms = (T', gs')"
    by (rule gate_all_Cons)
  then show ?case using Cons.IH gate_member_pins [OF Cons.prems(2), of E now m] by simp
qed simp

lemma gate_all_pinned:
  assumes "gateGroupMembers E now T ms = (T', gs)" and "(m, Safe) \<in> set gs" and "gm_address m \<noteq> myAddr E"
  shows "pin T' (to_lower (gm_address m)) = Some (ct_encryptionKey (gm_user m))"
  using assms(1,2)
proof (induction ms arbitrary: T gs)
  case (Cons n ns)
  from Cons.prems(1) obtain T1 g gs' where g: "gate_member E now T n = (T1, g)"
    and gs': "gateGroupMembers E now T1 ns = (T', gs')" "gs = (n, g) # gs'"
    by (rule gate_all_Cons)
  show ?case
  proof (cases "(m, Safe) \<in> set gs'")
    case True
    then show ?thesis using Cons.IH [OF gs'(1)] by blast
  next
    case False
    then have "gate_member E now T m = (T1, Safe)" using Cons.prems(2) gs'(2) g by auto
    then show ?thesis using gate_all_pins [OF gs'(1)] gate_member_pinned(2) assms(3) by blast
  qed
qed simp

text \<open>The members a group message may be wrapped to.\<close>

definition vouched :: "messenger_env \<Rightarrow> trust_stores \<Rightarrow> group_member \<Rightarrow> bool" where
  "vouched E T m \<longleftrightarrow>
     attestationStatus (me_prims E) (member_contact m) = Verified \<and>
     (gm_address m \<noteq> myAddr E \<longrightarrow>
       (\<forall>k. pin T (to_lower (gm_address m)) = Some k \<longrightarrow> k = ct_encryptionKey (gm_user m)))"

lemma member_contact_fields [simp]:
  "ct_address (member_contact m) = Some (gm_address m)" "ct_encryptionKey (member_contact m) = ct_encryptionKey (gm_user m)"
  by (simp_all add: member_contact_def)

lemma safe_vouched:
  assumes "gateGroupMembers E now T ms = (T', gs)" and "m \<in> set (safe_members gs)"
  shows "m \<in> set ms" and "vouched E T m"
proof -
  have m: "(m, Safe) \<in> set gs" using assms(2) by (auto simp: safe_members_def)
  then have "fst (m, Safe) \<in> set (map fst gs)" by (metis image_eqI list.set_map)
  then show "m \<in> set ms" using gate_all_members [OF assms(1)] by simp
  obtain T0 where T0: "gate_member E now T0 m = (fst (gate_member E now T0 m), Safe)"
      "\<And>b k. pin T b = Some k \<Longrightarrow> pin T0 b = Some k"
    using gate_all_safe [OF assms(1) m] by blast
  show "vouched E T m"
    unfolding vouched_def
  proof (intro conjI impI allI)
    show "attestationStatus (me_prims E) (member_contact m) = Verified" using gate_member_safe(1) [OF T0(1)] .
    fix k assume a: "gm_address m \<noteq> myAddr E" and k: "pin T (to_lower (gm_address m)) = Some k"
    then show "k = ct_encryptionKey (gm_user m)"
      using gate_member_safe(2) [OF T0(1) a] T0(2) [OF k] by (auto simp: send_allowed_iff norm_address_def strict_eq_def)
  qed
qed

text \<open>Each entry of the keys is the fresh session key wrapped to the very key of a safe member.\<close>

lemma wrapped_entry:
  assumes "wrap_for_members P i ms acc = Inr keys" and "map_of keys a = Some w"
  shows "map_of acc a = Some w \<or>
    (\<exists>m\<in>set ms. gm_address m = a \<and>
       wrapSessionKey P (in_wraps i a) (JStr (generateSessionKey (in_key i))) (ct_encryptionKey (gm_user m)) = Inr w)"
  using assms
proof (induction ms arbitrary: acc)
  case (Cons m ms)
  then obtain v where "wrapSessionKey P (in_wraps i (gm_address m)) (JStr (generateSessionKey (in_key i))) (ct_encryptionKey (gm_user m)) = Inr v"
      "wrap_for_members P i ms (obj_put (gm_address m) v acc) = Inr keys"
    by auto
  then show ?case using Cons.IH Cons.prems(2) by (fastforce split: if_splits)
qed simp

definition sealed_to :: "messenger_env \<Rightarrow> send_input \<Rightarrow> group_member \<Rightarrow> jsval \<Rightarrow> bool" where
  "sealed_to E i m w \<longleftrightarrow>
     wrapSessionKey (me_prims E) (in_wraps i (gm_address m)) (JStr (generateSessionKey (in_key i)))
       (ct_encryptionKey (gm_user m)) = Inr w"

lemma sign_and_post_trust [simp]: "trust (fst (sign_and_post E i v conv f gid sid key keys msg S)) = trust S"
  by (auto simp: sign_and_post_def Let_def nextSeq_def abandonSession_def split: sum.splits option.splits)

lemma group_session_trust: "group_session E i conv safe S = Inr (S', sid, key, keys) \<Longrightarrow> trust S' = trust S"
  by (auto simp: group_session_def Let_def startSession_def put_session_def split: option.splits if_splits)

lemma wrap_members_pure:
  "wrap_for_members P i ms acc = Inr kvs \<Longrightarrow> js_pure (JObj acc) \<Longrightarrow> js_pure (JObj kvs)"
proof (induction ms arbitrary: acc)
  case (Cons m ms)
  then obtain w where w: "wrapSessionKey P (in_wraps i (gm_address m)) (JStr (generateSessionKey (in_key i))) (ct_encryptionKey (gm_user m)) = Inr w"
      "wrap_for_members P i ms (obj_put (gm_address m) w acc) = Inr kvs"
    by auto
  have "js_pure (JObj (obj_put (gm_address m) w acc))"
    using Cons.prems(2) wrap_pure [OF w(1)] set_obj_put [of "gm_address m" w acc] distinct_obj_put by fastforce
  then show ?case using Cons.IH w(2) by blast
qed simp

lemma posted_parses:
  assumes "snd (sign_and_post E i v conv convField gid sid key keys msg S) = Inr c" and "js_pure keys" and "js_pure gid"
  shows "\<exists>seq ct sig. parsed_content c = message_payload v sid gid (in_now i) seq keys ct sig"
proof -
  obtain seq ct sig where c: "c = json_text (message_payload v sid gid (in_now i) seq keys ct sig)"
      and ct: "encryptWithSessionKey (me_prims E) (in_iv i) msg key = Inr ct"
    using assms(1) unfolding sign_and_post_ok by blast
  have "js_pure ct" using aead_envelope_shape(1) [of "me_prims E" "in_iv i" msg key "''content''" ct] ct
    by (simp add: encryptWithSessionKey_def aead_field_def)
  then have "js_pure (message_payload v sid gid (in_now i) seq keys ct sig)"
    using assms(2,3) by (cases "gid = JUndef") (simp_all add: message_payload_def)
  then show ?thesis using json_parse_text c by (auto simp: parsed_content_def)
qed

lemma group_keys_vouched:
  assumes "snd (sendGroupMessage E i msg channel members S) = Inr c"
  shows "\<exists>keys. js_get (parsed_content c) ''keys'' = keys \<and>
    (\<forall>a. js_get keys a \<noteq> JUndef \<longrightarrow>
      (\<exists>m\<in>set members. gm_address m = a \<and> vouched E (trust S) m \<and> sealed_to E i m (js_get keys a) \<and>
        (a \<noteq> myAddr E \<longrightarrow> pin (trust (fst (sendGroupMessage E i msg channel members S))) (to_lower a) =
          Some (ct_encryptionKey (gm_user m)))))"
proof -
  obtain T gs where g: "gateGroupMembers E (in_now i) (trust S) members = (T, gs)" by fastforce
  let ?S = "S\<lparr>trust := T\<rparr>"
  obtain S' sid key keys where s: "group_session E i (groupConversationId channel) (safe_members gs) ?S = Inr (S', sid, key, keys)"
    and send: "sendGroupMessage E i msg channel members S = sign_and_post E i 2 (groupConversationId channel) channel channel sid key keys msg S'"
    using assms g by (cases "group_session E i (groupConversationId channel) (safe_members gs) ?S") (auto simp: sendGroupMessage_def Let_def)
  have T: "trust (fst (sendGroupMessage E i msg channel members S)) = T" using group_session_trust [OF s] by (simp add: send)
  have "\<exists>m\<in>set members. gm_address m = a \<and> vouched E (trust S) m \<and> sealed_to E i m (js_get keys a) \<and>
      (a \<noteq> myAddr E \<longrightarrow> pin T (to_lower a) = Some (ct_encryptionKey (gm_user m)))" if a: "js_get keys a \<noteq> JUndef" for a
  proof -
    have "keys = JNull \<or> (\<exists>kvs. keys = JObj kvs \<and> wrap_for_members (me_prims E) i (safe_members gs) [] = Inr kvs)"
      using s by (auto simp: group_session_def Let_def split: option.splits if_splits)
    then obtain kvs w where kvs: "keys = JObj kvs" "wrap_for_members (me_prims E) i (safe_members gs) [] = Inr kvs"
        "map_of kvs a = Some w" "js_get keys a = w"
      using a by (auto split: option.splits)
    obtain m where m: "m \<in> set (safe_members gs)" "gm_address m = a" "sealed_to E i m w"
      using wrapped_entry [OF kvs(2,3)] by (auto simp: sealed_to_def)
    have "(m, Safe) \<in> set gs" using m(1) by (auto simp: safe_members_def)
    then show ?thesis using safe_vouched [OF g m(1)] gate_all_pinned [OF g] m(2,3) kvs(4) by blast
  qed
  moreover have "js_get (parsed_content c) ''keys'' = keys"
  proof -
    have "js_pure (JObj kvs)" if "wrap_for_members (me_prims E) i (safe_members gs) [] = Inr kvs" for kvs
      using wrap_members_pure [OF that] by simp
    then have "js_pure keys"
      using s by (auto simp: group_session_def Let_def split: option.splits if_splits simp del: js_pure.simps(4))
    moreover have "js_pure channel"
      using assms unfolding send sign_and_post_ok
      by (cases channel) (auto simp: messageSigningBody_def isAddress.simps isSignedIdentifier.simps)
    ultimately obtain seq ct sig where "parsed_content c = message_payload 2 sid channel (in_now i) seq keys ct sig"
      using posted_parses assms unfolding send by blast
    then show ?thesis by (simp add: message_payload_def)
  qed
  ultimately show ?thesis unfolding T by blast
qed

subsection \<open>The life of a session\<close>

lemma nextSeq_counted: "counted S \<Longrightarrow> counted (nextSeq S k)"
  by (auto simp: counted_def nextSeq_def split: option.splits)

lemma dm_session_counted:
  assumes "dm_session E i their k S = Inr (S', sid, key, keys)" and "counted S"
  shows "counted S'"
  using assms(1)
proof (cases rule: dm_session_cases)
  case Minted
  then show ?thesis using assms(2) by (auto simp: counted_def startSession_def put_session_def)
qed (simp add: assms(2))

lemma session_position:
  assumes "snd (sendMessage E i msg partner S) = Inr c" and "counted S"
  shows "\<exists>a sid seq keys ct sig started. ct_address partner = Some a \<and>
    c = json_text (message_payload 1 sid JUndef (in_now i) seq keys ct sig) \<and> 0 \<le> seq \<and> seq < SESSION_MAX_MESSAGES \<and>
    sendState (fst (sendMessage E i msg partner S)) (sessionKeyId (to_lower a) (JStr sid)) = Some (seq + 1, started) \<and>
    in_now i - started < SESSION_MAX_AGE_MS \<and> counted (fst (sendMessage E i msg partner S))"
proof -
  from assms(1) obtain a T S' sid key keys where a: "ct_address partner = Some a"
    and s: "dm_session E i (to_lower a) (ct_encryptionKey partner) (S\<lparr>trust := T\<rparr>) = Inr (S', sid, key, keys)"
    and post: "sendMessage E i msg partner S = sign_and_post E i 1 (to_lower a) (JStr (to_lower a)) JUndef sid key keys msg S'"
    by (rule sendMessage_ok)
  let ?k = "sessionKeyId (to_lower a) (JStr sid)"
  have S': "counted S'" "sessionUsable S' (in_now i) ?k"
    using dm_session_counted [OF s] dm_session_usable [OF s] assms(2) by (simp_all add: counted_def)
  obtain n started where st: "sendState S' ?k = Some (n, started)" "n < SESSION_MAX_MESSAGES" "in_now i - started < SESSION_MAX_AGE_MS"
    using S'(2) by (auto simp: sessionUsable_def split: option.splits)
  have after: "fst (sendMessage E i msg partner S) = nextSeq S' ?k"
    using assms(1) sign_and_post_state unfolding post by blast
  have "0 \<le> n" using S'(1) st(1) by (auto simp: counted_def)
  moreover obtain ct sig where "c = json_text (message_payload 1 sid JUndef (in_now i) n keys ct sig)"
    using assms(1) st(1) unfolding post sign_and_post_ok by (auto simp: seq_of_def)
  moreover have "sendState (nextSeq S' ?k) ?k = Some (n + 1, started)" using st(1) by (simp add: nextSeq_def)
  ultimately show ?thesis using a st nextSeq_counted [OF S'(1)] unfolding after by blast
qed

subsection \<open>A posted message in the recipient's history\<close>

lemma prepared_row:
  assumes m: "well_posted P pk m" and E: "me_prims E = P" "myAddr E = po_to m"
    and pk: "cache (po_from m) = Some pk \<or> (cache (po_from m) = None \<and> js_get user ''identity_public_key'' = pk)"
  shows "\<exists>cache' x. prepare_all E Dm cache [row_of i at user m] = (cache', [x]) \<and> judged x \<and> cache' (po_from m) = Some pk \<and>
    sessionPayload x = Some (po_payload m) \<and> row_id x = i \<and> row_sender x = Some (po_from m) \<and> row_recipient x = Some (po_to m)"
proof -
  have "to_lower (po_to m) = po_to m" by (simp flip: E(2))
  then obtain cache' where v: "verifyMessageAuthenticity P (me_fetch E) cache (row_of i at user m) (po_payload m) Dm = (cache', Some True)"
      "cache' (po_from m) = Some pk"
    using well_posted_verifies [OF m, where cache = cache and user = user] pk by blast
  show ?thesis
    using v well_posted_facts [OF m] by (simp add: prepare_def E(1) judged_def po_payload_def)
qed

lemma processed_row:
  assumes m: "well_posted P pk m" and E: "me_prims E = P" "myAddr E = po_to m" "po_from m \<noteq> po_to m"
    and pk: "keyCache st (po_from m) = Some pk \<or> (keyCache st (po_from m) = None \<and> js_get user ''identity_public_key'' = pk)"
  shows "\<exists>st' x. processMessages E Dm [row_of i at user m] st = (st', [x]) \<and> judged x \<and> row_id x = i \<and>
    msg_seq x = po_seq m \<and> msg_key (convOf E Dm) x = session_key (po_from m) (JStr (po_sid m)) (Some (po_from m)) \<and>
    keyCache st' (po_from m) = Some pk"
proof -
  obtain st' ms where p: "processMessages E Dm [row_of i at user m] st = (st', ms)" by fastforce
  obtain cache' x where x: "prepare_all E Dm (keyCache st) [row_of i at user m] = (cache', [x])" "judged x"
      "sessionPayload x = Some (po_payload m)" "row_id x = i" "row_sender x = Some (po_from m)" "row_recipient x = Some (po_to m)"
      "cache' (po_from m) = Some pk"
    using prepared_row [OF m E(1,2), where cache = "keyCache st" and user = user] pk by blast
  from p obtain y where "ms = [y]" and y: "judged y = judged x" "row_id y = row_id x" "msg_seq y = msg_seq x"
      "msg_key (convOf E Dm) y = msg_key (convOf E Dm) x" "keyCache st' = cache'"
  proof (rule processMessages_cases)
    fix cache prepared seen vs processed wanted
    assume "prepare_all E Dm (keyCache st) [row_of i at user m] = (cache, prepared)"
      "processed = map (decrypt_one E Dm (sessionKeys st)) (map (mark vs) prepared)" "keyCache st' = cache"
      "sessionKeys st' = sessionKeys st \<and> ms = processed \<or>
       (\<exists>us. me_unwrapMany E (map snd wanted) = Some us \<and> wanted \<noteq> [] \<and>
          sessionKeys st' = adopt (map fst wanted) us (sessionKeys st) \<and>
          ms = map (decrypt_one E Dm (sessionKeys st')) processed)"
    then show thesis using that x(1) by auto
  qed
  have "to_lower (po_from m) = po_from m" using address_lower [OF well_posted_facts(1) [OF m]] .
  then have "msg_key (convOf E Dm) x = session_key (po_from m) (JStr (po_sid m)) (Some (po_from m))" "msg_seq x = po_seq m"
    using x(3,5,6) E by (simp_all add: msg_key_def msg_seq_def count_of_def po_payload_def convOf_def
        conversationIdForMessage_def dmConversationId_def Let_def)
  then show ?thesis using p y x(2,4,7) \<open>ms = [y]\<close> by auto
qed

end
