(* ===== verification/MsgDemo.thy ===== *)
theory MsgDemo
  imports MsgClaims
begin

text \<open>
  A concrete pair of correspondents under the demonstration primitives, at which the messenger's
  properties are applied: Alice writes to Bob, whose contact record carries his attestation.
\<close>

definition alice_seed :: bytes where
  "alice_seed = replicate 80 0"

definition bob_seed :: bytes where
  "bob_seed = replicate 80 1"

definition identity_key :: "bytes \<Rightarrow> bytes" where
  "identity_key sk = (case mldsa65P384PublicKey demo_prims (Some sk) of Inl _ \<Rightarrow> [] | Inr pk \<Rightarrow> pk)"

definition address_from :: "bytes \<Rightarrow> string" where
  "address_from sk = (case addressOf demo_prims (JStr (toHex (identity_key sk))) of Inl _ \<Rightarrow> [] | Inr a \<Rightarrow> a)"

definition kem_seed :: bytes where
  "kem_seed = replicate 112 0"

definition kem_key :: bytes where
  "kem_key = (case catkdfPublicKey demo_prims (Some kem_seed) of Inl _ \<Rightarrow> [] | Inr pk \<Rightarrow> pk)"

abbreviation "alice \<equiv> address_from alice_seed"
abbreviation "bob \<equiv> address_from bob_seed"

definition bob_attests :: "bytes \<Rightarrow> string" where
  "bob_attests k =
     (case attestEncryptionKey demo_prims \<lparr>af_address = JStr bob, af_encryptionPublicKey = JStr (toHex k)\<rparr>
         (JStr (toHex bob_seed)) ([], []) of Inl _ \<Rightarrow> [] | Inr s \<Rightarrow> s)"

definition bob_contact :: contact where
  "bob_contact = \<lparr>ct_address = Some bob, ct_username = ''Bob'', ct_encryptionKey = JStr (toHex kem_key),
     ct_attestation = JStr (bob_attests kem_key), ct_identityKey = JStr (toHex (identity_key bob_seed))\<rparr>"

text \<open>Bob again, with another encryption key, attested as well.\<close>

definition bob_renewed :: contact where
  "bob_renewed = bob_contact\<lparr>ct_encryptionKey := JStr (toHex [1]), ct_attestation := JStr (bob_attests [1])\<rparr>"

definition empty_sessions :: session_state where
  "empty_sessions = \<lparr>sessionKeys = Map.empty, activeSessionIds = Map.empty, freshnessSeen = Map.empty, keyCache = Map.empty\<rparr>"

definition empty_send :: send_state where
  "empty_send = \<lparr>sessions = empty_sessions, sendState = Map.empty, dmSessionKeys = Map.empty,
     groupSessionMembers = Map.empty, trust = \<lparr>trusted_keys = JNull, attested_contacts = JNull\<rparr>\<rparr>"

definition alice_env :: messenger_env where
  "alice_env = \<lparr>me_prims = demo_prims, me_address = alice, me_fetch = (\<lambda>_. None),
     me_unwrapMany = (\<lambda>_. None), me_unwrap = (\<lambda>_. None)\<rparr>"

definition bob_env :: messenger_env where
  "bob_env = \<lparr>me_prims = demo_prims, me_address = bob, me_fetch = (\<lambda>_. None),
     me_unwrapMany = custody_unwrap demo_prims kem_seed, me_unwrap = (\<lambda>_. None)\<rparr>"

definition demo_input :: send_input where
  "demo_input = \<lparr>in_now = 0, in_sid = ''s1'', in_key = replicate 32 0, in_wraps = (\<lambda>_. ((replicate 48 0, []), [1])),
     in_iv = [1], in_sign = custody_sign demo_prims alice_seed ([], []), in_posted = True, in_ownKey = JNull\<rparr>"

definition alice_user :: jsval where
  "alice_user = JObj [(''identity_public_key'', JStr (toHex (identity_key alice_seed)))]"

subsection \<open>It is a possible world\<close>

lemma seeds_usable: "composite_usable demo_prims alice_seed" "composite_usable demo_prims bob_seed"
  by (simp_all add: composite_usable_def alice_seed_def bob_seed_def demo_prims_def)

lemma owned: "composite_usable demo_prims sk \<Longrightarrow> own_identity demo_prims sk (identity_key sk) (address_from sk)"
  using own_identity_exists [OF demo_signature, of sk] by (auto simp: own_identity_def identity_key_def address_from_def)

lemma address_shape: "composite_usable demo_prims sk \<Longrightarrow> isAddress (JStr (address_from sk))"
  using owned [of sk] addressOf_isAddress [OF demo_digest, of "JStr (toHex (identity_key sk))" "address_from sk"]
  by (simp add: own_identity_def)

lemma my_addresses [simp]: "to_lower alice = alice" "to_lower bob = bob"
  using address_shape [OF seeds_usable(1)] address_shape [OF seeds_usable(2)] by (simp_all add: address_lower)

lemma kem_key_ok: "catkdf_usable demo_prims kem_seed" "catkdfPublicKey demo_prims (Some kem_seed) = Inr kem_key"
proof -
  show u: "catkdf_usable demo_prims kem_seed" by (simp add: catkdf_usable_def kem_seed_def demo_prims_def)
  then show "catkdfPublicKey demo_prims (Some kem_seed) = Inr kem_key"
    using demo_kem catkdf.public_ok [of demo_prims kem_seed] by (auto simp: kem_key_def)
qed

lemma bob_reads: "reads_with demo_prims kem_seed (ct_encryptionKey bob_contact)"
  using kem_key_ok by (simp add: reads_with_def bob_contact_def)

lemma demo_draws: "good_draws demo_prims demo_input" "own_key_ok demo_prims demo_input"
  by (simp_all add: good_draws_def own_key_ok_def demo_input_def demo_prims_def)

lemma address_from_eq:
  assumes "length sk = 80"
  shows "address_from sk = toHex (rev (drop 32 sk))"
proof -
  have u: "composite_usable demo_prims sk" using assms by (simp add: composite_usable_def demo_prims_def)
  have k: "identity_key sk = fit 1952 (take 32 sk) @ 4 # drop 32 sk @ drop 32 sk"
    using assms public_key_ok [of demo_prims sk "identity_key sk"] owned [OF u]
    by (simp add: own_identity_def demo_prims_def)
  have "length (identity_key sk) = 2049" using assms by (simp add: k)
  then have "address_from sk = sha384HexBytes demo_prims (address_domain @ identity_key sk)"
    by (simp add: address_from_def addressOf_key)
  then show ?thesis
    using assms by (simp add: sha384HexBytes_def demo_prims_def k)
qed

lemma alice_not_bob: "alice \<noteq> bob"
  by (simp add: address_from_eq alice_seed_def bob_seed_def toHex_inj)

lemma attested_by_bob:
  assumes "k \<noteq> []"
  shows "attestationStatus demo_prims (bob_contact\<lparr>ct_encryptionKey := JStr (toHex k), ct_attestation := JStr (bob_attests k)\<rparr>) = Verified"
proof -
  let ?f = "\<lparr>af_address = JStr bob, af_encryptionPublicKey = JStr (toHex k)\<rparr>"
  have hex: "is_hex_string (JStr (toHex k))" using assms by (simp add: is_hex_text_def toHex_lhex)
  obtain body where body: "encryptionKeyAttestationBody ?f = Inr body"
    using address_shape [OF seeds_usable(2)] hex by (auto simp: encryptionKeyAttestationBody_def simp del: is_hex_string.simps)
  obtain sig where sig: "signMessage demo_prims body (JStr (toHex bob_seed)) ([], []) = Inr sig"
      "verifyIdentitySignature demo_prims (JStr bob) (JStr (toHex (identity_key bob_seed))) body (JStr sig)"
    using own_signature_verifies [OF demo_signature demo_digest owned [OF seeds_usable(2)]] by blast
  have "bob_attests k = sig" using body sig(1) by (simp add: bob_attests_def attestEncryptionKey_def)
  moreover have "sig \<noteq> []" using sig(2) by (auto simp: verifyIdentitySignature_iff fromB64.simps)
  moreover have "identity_key bob_seed \<noteq> []"
    using sig(2) by (auto simp: verifyIdentitySignature_iff toHex_inj)
  ultimately show ?thesis
    using body sig(2) assms
    by (simp add: attestationStatus_def bob_contact_def norm_address_def verifyEncryptionKeyAttestation_def)
qed

lemma kem_key_length: "length kem_key \<noteq> length [1]" "kem_key \<noteq> []"
  using catkdf_public_length [OF demo_kem kem_key_ok(2)] by auto

lemma bob_verified: "attestationStatus demo_prims bob_contact = Verified"
proof -
  have "bob_contact = bob_contact\<lparr>ct_encryptionKey := JStr (toHex kem_key), ct_attestation := JStr (bob_attests kem_key)\<rparr>"
    by (simp add: bob_contact_def)
  then show ?thesis using attested_by_bob [OF kem_key_length(2)] by metis
qed

lemma bob_renewed_verified: "attestationStatus demo_prims bob_renewed = Verified"
  unfolding bob_renewed_def by (rule attested_by_bob) simp

lemma bob_keys: "ct_encryptionKey bob_renewed \<noteq> ct_encryptionKey bob_contact" "ct_address bob_renewed = ct_address bob_contact"
proof -
  have "kem_key \<noteq> [1]" using kem_key_length(1) by metis
  then show "ct_encryptionKey bob_renewed \<noteq> ct_encryptionKey bob_contact"
    using toHex_inj [of "[1]" kem_key] unfolding bob_renewed_def bob_contact_def contact.simps jsval.simps by metis
  show "ct_address bob_renewed = ct_address bob_contact" by (simp add: bob_renewed_def)
qed

lemma send_allowed_bob: "send_allowed demo_prims (trust empty_send) 0 bob_contact"
  using bob_verified by (simp add: send_allowed_iff empty_send_def pin_def record_of_def load_def)

subsection \<open>The message\<close>

lemma demo_fields [simp]:
  "me_prims alice_env = demo_prims" "me_address alice_env = alice" "me_prims bob_env = demo_prims" "me_address bob_env = bob"
  "in_sign demo_input = custody_sign demo_prims alice_seed ([], [])" "in_now demo_input = 0" "in_sid demo_input = ''s1''"
  "in_posted demo_input" "ct_address bob_contact = Some bob" "me_unwrapMany bob_env = custody_unwrap demo_prims kem_seed"
  "in_ownKey demo_input = JNull"
  by (simp_all add: alice_env_def bob_env_def demo_input_def bob_contact_def)

lemma demo_sid: "isSignedIdentifier (JStr ''s1'')"
  by (simp add: is_id_char_def is_lower_def is_digit_def)

lemma demo_now: "isCount (JNum 0)"
  by (simp add: isCount_def max_safe_integer_def)

lemma empty_fields [simp]:
  "current_session empty_send now conv = None" "sessionKeys empty_sessions = Map.empty"
  "freshnessSeen empty_sessions = Map.empty" "keyCache empty_sessions = Map.empty"
  "js_get alice_user ''identity_public_key'' = JStr (toHex (identity_key alice_seed))"
  by (simp_all add: current_session_def empty_send_def empty_sessions_def alice_user_def)

lemma demo_posted: "\<exists>c. snd (sendMessage alice_env demo_input msg bob_contact empty_send) = Inr c"
  by (rule first_message_posted [OF demo_signature demo_envelope _ _ owned [OF seeds_usable(1)] _ demo_draws bob_reads])
     (simp_all add: send_allowed_bob demo_sid demo_now del: isSignedIdentifier.simps)

lemma demo_message:
  "\<exists>m. snd (sendMessage alice_env demo_input msg bob_contact empty_send) = Inr (json_text (po_payload m)) \<and>
     well_posted demo_prims (JStr (toHex (identity_key alice_seed))) m \<and> po_from m = alice \<and> po_to m = bob \<and>
     po_sid m = ''s1'' \<and> po_ts m = 0 \<and> po_seq m = 0 \<and> opens demo_prims (po_ct m) (JStr (toHex (in_key demo_input))) msg \<and>
     truthy (po_keys m) \<and> truthy (js_get (po_keys m) ''recip'') \<and>
     custody_unwrap demo_prims kem_seed [js_get (po_keys m) ''recip''] = Some [JStr (toHex (in_key demo_input))]"
proof -
  obtain c where c: "snd (sendMessage alice_env demo_input msg bob_contact empty_send) = Inr c"
    using demo_posted by blast
  show ?thesis
    using first_message [OF demo_signature demo_envelope _ _ owned [OF seeds_usable(1)] _ demo_draws(1) bob_reads _ c] c by auto
qed

subsection \<open>Delivered, and delivered again under another id\<close>

definition demo_row :: "string \<Rightarrow> string \<Rightarrow> chat_row" where
  "demo_row i c = \<lparr>row_id = i, row_sender = Some alice, row_recipient = Some bob, row_channel = JNull,
     row_user = alice_user, row_content = c, row_at = Some 0\<rparr>"

lemma demo_row_of: "po_from m = alice \<Longrightarrow> po_to m = bob \<Longrightarrow> row_of i 0 alice_user m = demo_row i (json_text (po_payload m))"
  by (simp add: row_of_def demo_row_def)

lemma demo_twice:
  "\<exists>c st1 x1 st2 x2. snd (sendMessage alice_env demo_input ''hi'' bob_contact empty_send) = Inr c \<and>
     processMessages bob_env Dm [demo_row ''m1'' c] empty_sessions = (st1, [x1]) \<and> judged x1 \<and> freshness x1 = None \<and>
     row_id x1 = ''m1'' \<and> plainText x1 = Some ''hi'' \<and> verified x1 = Some True \<and>
     processMessages bob_env Dm [demo_row ''m2'' c] st1 = (st2, [x2]) \<and> judged x2 \<and> row_id x2 = ''m2'' \<and>
     msg_seq x2 = msg_seq x1 \<and> msg_key (convOf bob_env Dm) x2 = msg_key (convOf bob_env Dm) x1"
proof -
  let ?pk = "JStr (toHex (identity_key alice_seed))" and ?key = "JStr (toHex (in_key demo_input))"
  obtain m where c: "snd (sendMessage alice_env demo_input ''hi'' bob_contact empty_send) = Inr (json_text (po_payload m))"
    and m: "well_posted demo_prims ?pk m" "po_from m = alice" "po_to m = bob"
      "po_sid m = ''s1''" "po_ts m = 0" "po_seq m = 0" "opens demo_prims (po_ct m) ?key ''hi''"
      "truthy (po_keys m)" "truthy (js_get (po_keys m) ''recip'')"
      "custody_unwrap demo_prims kem_seed [js_get (po_keys m) ''recip''] = Some [?key]"
    using demo_message [of "''hi''"] by blast
  have key: "truthy ?key" by (simp add: demo_input_def)
  have line: "next_in_line unseen 0 0 0" by (simp add: next_in_line_first MAX_CLOCK_SKEW_MS_def)
  obtain st1 x1 where p1: "processMessages bob_env Dm [row_of ''m1'' 0 alice_user m] empty_sessions = (st1, [x1])"
      "freshness x1 = None" "row_id x1 = ''m1''" "plainText x1 = Some ''hi''" "verified x1 = Some True"
    using received [OF m(1), of bob_env empty_sessions alice_user ?key "''hi''" 0 "''m1''"]
      m key line alice_not_bob by (auto simp: the_state_def)
  obtain st1' y where "processMessages bob_env Dm [row_of ''m1'' 0 alice_user m] empty_sessions = (st1', [y])" "judged y"
      "msg_seq y = po_seq m" "msg_key (convOf bob_env Dm) y = session_key (po_from m) (JStr (po_sid m)) (Some (po_from m))"
      "keyCache st1' (po_from m) = Some ?pk"
    using processed_row [OF m(1), of bob_env empty_sessions alice_user "''m1''" 0] m alice_not_bob by auto
  then have y: "judged x1" "msg_seq x1 = po_seq m" "keyCache st1 (po_from m) = Some ?pk"
      "msg_key (convOf bob_env Dm) x1 = session_key (po_from m) (JStr (po_sid m)) (Some (po_from m))"
    using p1(1) by auto
  obtain st2 x2 where p2: "processMessages bob_env Dm [row_of ''m2'' 0 alice_user m] st1 = (st2, [x2])" "judged x2" "row_id x2 = ''m2''"
      "msg_seq x2 = po_seq m" "msg_key (convOf bob_env Dm) x2 = session_key (po_from m) (JStr (po_sid m)) (Some (po_from m))"
    using processed_row [OF m(1), of bob_env st1 alice_user "''m2''" 0] y(3) m alice_not_bob by auto
  show ?thesis
    using c p1 p2 y by (metis demo_row_of m(2,3))
qed

text \<open>Bob's client adopts the session key Alice minted from her first row.\<close>

lemma demo_adopted:
  "\<exists>c. snd (sendMessage alice_env demo_input ''hi'' bob_contact empty_send) = Inr c \<and>
     sessionKeys (fold (msg_step bob_env) [History Dm [demo_row ''m1'' c]] empty_sessions) (sessionKeyId alice (JStr ''s1'')) =
       Some (JStr (toHex (in_key demo_input)))"
proof -
  let ?key = "JStr (toHex (in_key demo_input))"
  obtain m where c: "snd (sendMessage alice_env demo_input ''hi'' bob_contact empty_send) = Inr (json_text (po_payload m))"
    and m: "well_posted demo_prims (JStr (toHex (identity_key alice_seed))) m" "po_from m = alice" "po_to m = bob"
      "po_sid m = ''s1''" "po_ts m = 0" "po_seq m = 0" "opens demo_prims (po_ct m) ?key ''hi''"
      "truthy (po_keys m)" "truthy (js_get (po_keys m) ''recip'')"
      "custody_unwrap demo_prims kem_seed [js_get (po_keys m) ''recip''] = Some [?key]"
    using demo_message [of "''hi''"] by blast
  have key: "truthy ?key" by (simp add: demo_input_def)
  have line: "next_in_line unseen 0 0 0" by (simp add: next_in_line_first MAX_CLOCK_SKEW_MS_def)
  obtain st1 x1 where "processMessages bob_env Dm [row_of ''m1'' 0 alice_user m] empty_sessions = (st1, [x1])"
      "sessionKeys st1 (sessionKeyId alice (JStr ''s1'')) = Some ?key"
    using received [OF m(1), of bob_env empty_sessions alice_user ?key "''hi''" 0 "''m1''"]
      m key line alice_not_bob by (auto simp: the_state_def)
  then show ?thesis using c by (auto simp: msg_step_def demo_row_of m(2,3))
qed

subsection \<open>A refused first signature, and the next message\<close>

definition demo_refused :: send_state where
  "demo_refused = fst (sendMessage alice_env (demo_input\<lparr>in_sign := \<lambda>_. None\<rparr>) ''hi'' bob_contact empty_send)"

lemma allowed_again:
  assumes "send_allowed P T now c" and "ct_encryptionKey c = JStr k"
  shows "send_allowed P (trust_step P (Gate now c) T) later c"
proof -
  obtain k' where "pin (trust_step P (Gate now c) T) (norm_address (ct_address c)) = Some k'" "k' = ct_encryptionKey c"
    using send_pins [OF assms(1)] by (auto simp: strict_eq_def)
  then show ?thesis using assms by (simp add: send_allowed_iff)
qed

lemma demo_next_posted: "\<exists>c. snd (sendMessage alice_env demo_input ''again'' bob_contact demo_refused) = Inr c"
proof -
  let ?k = "sessionKeyId bob (JStr ''s1'')" and ?T = "trust_step demo_prims (Gate 0 bob_contact) (trust empty_send)"
  let ?S0 = "empty_send\<lparr>trust := ?T, dmSessionKeys := (dmSessionKeys empty_send)
      (?k \<mapsto> wrapped_for (ct_encryptionKey bob_contact) (in_ownKey demo_input))\<rparr>"
  let ?S' = "startSession (put_session ?S0 bob ''s1'' (JStr (toHex (in_key demo_input)))) 0 ?k"
  have "demo_input\<lparr>in_sign := custody_sign demo_prims alice_seed ([], [])\<rparr> = demo_input" by (simp add: demo_input_def)
  then obtain c0 where "snd (sendMessage alice_env (demo_input\<lparr>in_sign := custody_sign demo_prims alice_seed ([], [])\<rparr>) ''hi'' bob_contact empty_send) = Inr c0"
    using demo_posted [of "''hi''"] by auto
  then obtain a T S' sid key keys where a: "ct_address bob_contact = Some a" and T: "T = ?T"
    and s: "dm_session alice_env demo_input (to_lower a) (ct_encryptionKey bob_contact) (empty_send\<lparr>trust := T\<rparr>) = Inr (S', sid, key, keys)"
    and send: "\<forall>g. sendMessage alice_env (demo_input\<lparr>in_sign := g\<rparr>) ''hi'' bob_contact empty_send =
       sign_and_post alice_env (demo_input\<lparr>in_sign := g\<rparr>) 1 (to_lower a) (JStr (to_lower a)) JUndef sid key keys ''hi'' S'"
    by (rule sendMessage_path) simp
  from a have a: "a = bob" by simp
  from s have mint: "sid = ''s1'' \<and> S' = ?S'"
  proof (cases rule: dm_session_cases)
    case Minted
    then show ?thesis by (simp add: a T generateSessionKey_def)
  qed (simp add: dm_session_trust)
  have refused: "demo_refused = nextSeq ?S' ?k"
    using sign_and_post_refused [of "demo_input\<lparr>in_sign := \<lambda>_. None\<rparr>"] mint by (simp add: demo_refused_def send a)
  note reuse = minted_is_reused [of ?S' ?S0 bob "''s1''" "JStr (toHex (in_key demo_input))" 0
      "ct_encryptionKey bob_contact" demo_input, OF refl _]
  have key: "aes_key_ok (in_key demo_input)" "in_iv demo_input \<noteq> []" by (simp_all add: demo_input_def aes_key_ok_def)
  have one: "isCount (JNum 1)" by (simp add: isCount_def max_safe_integer_def)
  have trust: "trust demo_refused = ?T" by (simp add: refused nextSeq_def startSession_def put_session_def split: option.splits)
  have allowed: "send_allowed demo_prims (trust demo_refused) (in_now demo_input) bob_contact"
    unfolding trust by (rule allowed_again [OF send_allowed_bob]) (simp add: bob_contact_def)
  show ?thesis
    by (rule posted_if [OF demo_signature demo_envelope _ _ owned [OF seeds_usable(1)] _ _ allowed, where b = bob and
          k = "in_key demo_input" and sid = "''s1''" and keys = JNull and q = 1])
       (use reuse key one demo_sid demo_now in \<open>simp_all add: refused SESSION_MAX_AGE_MS_def del: isSignedIdentifier.simps\<close>)
qed

subsection \<open>A group of one other member\<close>

definition bob_member :: group_member where
  "bob_member = \<lparr>gm_address = bob, gm_user = bob_contact\<rparr>"

lemma bob_member_contact: "member_contact bob_member = bob_contact"
  by (simp add: member_contact_def bob_member_def bob_contact_def)

lemma bob_member_address [simp]: "gm_address bob_member = bob"
  by (simp add: bob_member_def)

lemma gate_safe_if:
  assumes "send_allowed (me_prims E) T now (member_contact m)"
  shows "snd (gate_member E now T m) = Safe"
proof -
  have v: "attestationStatus (me_prims E) (member_contact m) = Verified" using assms by (simp add: send_allowed_iff)
  have "checkContactKey (fst (attestationVerdict (me_prims E) T now (member_contact m)))
      (ct_address (member_contact m)) (ct_encryptionKey (member_contact m)) \<noteq> Changed"
    using assms v by (simp add: send_allowed_def assertKeyUnchanged_ok assertSafeRecipient_def case_prod_unfold Let_def
        attestationVerdict_def del: member_contact_fields)
  then show ?thesis
    using v verified_contact(1) [OF v] by (simp add: gate_member_def pinContactKey_def Let_def case_prod_unfold attestationVerdict_def)
qed

lemma demo_group_posted:
  "\<exists>c. snd (sendGroupMessage alice_env demo_input ''hi'' (JStr ''g1'') [bob_member] empty_send) = Inr c \<and>
     js_get (js_get (parsed_content c) ''keys'') bob \<noteq> JUndef"
proof -
  let ?conv = "groupConversationId (JStr ''g1'')"
  obtain T where g: "gateGroupMembers alice_env 0 (trust empty_send) [bob_member] = (T, [(bob_member, Safe)])"
    using gate_safe_if [of alice_env "trust empty_send" 0 bob_member] send_allowed_bob
    by (cases "gate_member alice_env 0 (trust empty_send) bob_member") (simp add: bob_member_contact)
  obtain w where w: "wrap_for_members demo_prims demo_input [bob_member] [] = Inr [(bob, w)]"
    using wrap_ok [OF demo_envelope bob_reads, of "in_wraps demo_input bob" "in_key demo_input"]
    by (auto simp: bob_member_def generateSessionKey_def demo_input_def demo_prims_def)
  have "current_session (empty_send\<lparr>trust := T\<rparr>) 0 ?conv = None" by (simp add: dm_session_trust)
  then obtain S' where s: "group_session alice_env demo_input ?conv [bob_member] (empty_send\<lparr>trust := T\<rparr>) =
      Inr (S', ''s1'', JStr (toHex (in_key demo_input)), JObj [(bob, w)])" "seq_of S' (sessionKeyId ?conv (JStr ''s1'')) = 0"
    using w by (simp add: group_session_def Let_def generateSessionKey_def)
  obtain ct where ct: "encryptWithSessionKey demo_prims (in_iv demo_input) ''hi'' (JStr (toHex (in_key demo_input))) = Inr ct"
    using aead_roundtrip [OF demo_aead, of "in_key demo_input" "in_iv demo_input" "''content''" "''hi''"]
    by (auto simp: encryptWithSessionKey_def aead_field_def demo_input_def aes_key_ok_def)
  have "isSignedIdentifier (JStr ''g1'')" by (simp add: is_id_char_def is_lower_def is_digit_def)
  then obtain body where body: "messageSigningBody demo_prims \<lparr>mf_from = JStr alice, mf_conv = JStr ''g1'', mf_sid = JStr ''s1'',
        mf_ct = ct, mf_gid = JStr ''g1'', mf_keys = JObj [(bob, w)], mf_ts = JNum 0, mf_seq = JNum 0\<rparr> = Inr body"
    using address_shape [OF seeds_usable(1)] demo_sid demo_now
    by (auto simp: messageSigningBody_def simp del: isSignedIdentifier.simps)
  obtain sig where "signMessage demo_prims body (JStr (toHex alice_seed)) ([], []) = Inr sig"
    using own_signature_verifies [OF demo_signature demo_digest owned [OF seeds_usable(1)]] by blast
  then have sig: "custody_sign demo_prims alice_seed ([], []) body = Some sig" by (simp add: custody_sign_def)
  have "sendGroupMessage alice_env demo_input ''hi'' (JStr ''g1'') [bob_member] empty_send =
      sign_and_post alice_env demo_input 2 ?conv (JStr ''g1'') (JStr ''g1'') ''s1'' (JStr (toHex (in_key demo_input)))
        (JObj [(bob, w)]) ''hi'' S'"
    using s(1) by (simp add: sendGroupMessage_def g safe_members_def del: gateGroupMembers.simps)
  then obtain c where c: "snd (sendGroupMessage alice_env demo_input ''hi'' (JStr ''g1'') [bob_member] empty_send) = Inr c"
      "snd (sign_and_post alice_env demo_input 2 ?conv (JStr ''g1'') (JStr ''g1'') ''s1'' (JStr (toHex (in_key demo_input)))
        (JObj [(bob, w)]) ''hi'' S') = Inr c"
    using sign_and_post_ok [of alice_env demo_input 2 ?conv "JStr ''g1''" "JStr ''g1''" "''s1''"
        "JStr (toHex (in_key demo_input))" "JObj [(bob, w)]" "''hi''" S'] ct body sig s(2)
    by auto
  have pure: "js_pure (JObj [(bob, w)])" using wrap_members_pure [OF w] by simp
  then obtain seq ct' sig' where "parsed_content c = message_payload 2 ''s1'' (JStr ''g1'') (in_now demo_input) seq (JObj [(bob, w)]) ct' sig'"
    using posted_parses [OF c(2)] by auto
  then show ?thesis using c(1) pure pure_not_undef [of w] by (auto simp: message_payload_def)
qed

end
