(* ===== verification/MsgProperties.thy ===== *)
theory MsgProperties
  imports MsgDemo
begin

text \<open>The properties of the web client's messenger, each applied at Alice and Bob.\<close>

text \<open>C5: A first message to a contact the gates let through is posted, and the partner's client,
  given it as a row within ten minutes of the sender's clock, shows it verified, readable and
  with no warning. The partner knows nothing of the session beforehand.\<close>

theorem message_reaches_its_reader:
  assumes "signature_laws P" "envelope_laws P"
    and "me_prims EA = P" "own_identity P sk pk (myAddr EA)" "in_sign i = custody_sign P sk rnd"
    and "good_draws P i" "own_key_ok P i" "isSignedIdentifier (JStr (in_sid i))" "isCount (JNum (in_now i))" "in_posted i"
    and "ct_address partner = Some (myAddr EB)" "reads_with P bk (ct_encryptionKey partner)"
    and "send_allowed P (trust S) (in_now i) partner" "current_session S (in_now i) (myAddr EB) = None"
    and "me_prims EB = P" "me_unwrapMany EB = custody_unwrap P bk" "myAddr EA \<noteq> myAddr EB"
    and "sessionKeys st (sessionKeyId (myAddr EA) (JStr (in_sid i))) = None"
    and "freshnessSeen st (session_key (myAddr EA) (JStr (in_sid i)) (Some (myAddr EA))) = None"
    and "keyCache st (myAddr EA) = None" "js_get user ''identity_public_key'' = JStr (toHex pk)"
    and "\<bar>in_now i - at\<bar> \<le> MAX_CLOCK_SKEW_MS"
  shows "\<exists>c st' x. snd (sendMessage EA i msg partner S) = Inr c \<and>
    processMessages EB Dm [\<lparr>row_id = n, row_sender = Some (myAddr EA), row_recipient = Some (myAddr EB), row_channel = JNull,
      row_user = user, row_content = c, row_at = Some at\<rparr>] st = (st', [x]) \<and>
    verified x = Some True \<and> plainText x = Some msg \<and> freshness x = None"
proof -
  obtain c where c: "snd (sendMessage EA i msg partner S) = Inr c"
    using first_message_posted [OF assms(1-3) refl assms(4-7,12,11) _ assms(13,8-10)] assms(14) by auto
  obtain m where m: "c = json_text (po_payload m)" "well_posted P (JStr (toHex pk)) m" "po_from m = myAddr EA"
      "po_to m = myAddr EB" "po_sid m = in_sid i" "po_ts m = in_now i" "po_seq m = 0"
      "opens P (po_ct m) (JStr (toHex (in_key i))) msg" "truthy (po_keys m)" "truthy (js_get (po_keys m) ''recip'')"
      "custody_unwrap P bk [js_get (po_keys m) ''recip''] = Some [JStr (toHex (in_key i))]"
    using first_message [OF assms(1-3) refl assms(4-6,12) _ c] assms(11,14) by auto
  have key: "truthy (JStr (toHex (in_key i)))" using assms(6) by (auto simp: good_draws_def)
  show ?thesis
    using received [OF m(2) assms(15), of st user "JStr (toHex (in_key i))" msg at n] m key assms(16-22) c next_in_line_first [of "in_now i" at]
    by (fastforce simp: row_of_def the_state_def)
qed

theorem message_reaches_its_reader_witness:
  "\<exists>c st' x. snd (sendMessage alice_env demo_input ''hi'' bob_contact empty_send) = Inr c \<and>
    processMessages bob_env Dm [\<lparr>row_id = ''m1'', row_sender = Some alice, row_recipient = Some bob, row_channel = JNull,
      row_user = alice_user, row_content = c, row_at = Some 0\<rparr>] empty_sessions = (st', [x]) \<and>
    verified x = Some True \<and> plainText x = Some ''hi'' \<and> freshness x = None"
  using message_reaches_its_reader [OF demo_signature demo_envelope, of alice_env alice_seed "identity_key alice_seed"
      demo_input "([], [])" bob_contact bob_env kem_seed empty_send empty_sessions alice_user 0 "''hi''" "''m1''"]
    owned [OF seeds_usable(1)] demo_draws bob_reads send_allowed_bob demo_sid demo_now alice_not_bob
  by (simp add: MAX_CLOCK_SKEW_MS_def del: isSignedIdentifier.simps)

text \<open>C7: Every session key the page adopts came in a delivered row signed, by a key of its
  sender's address, for the very conversation and session the key is cached under, and is what the
  custody answers for the wrapped key that row carries for us; a direct message brings one only if
  we are an end of it; and a key once cached is never replaced.\<close>

theorem session_keys_only_from_signed_rows:
  assumes "sessionKeys (fold (msg_step E) es st) k = Some key"
  shows "sessionKeys st k = Some key \<or>
    (sessionKeys st k = None \<and>
     (\<exists>e\<in>set es. \<exists>(mode, m)\<in>event_rows e. let p = parsed_content (row_content m) in
        authentic (me_prims E) m p mode \<and> k = sessionKeyId (convOf E mode m) (js_get p ''sid'') \<and>
        custody_answers E (key_blob E mode m p) key \<and>
        (mode = Dm \<longrightarrow> dmConversationId (row_sender m) = myAddr E \<or> dmConversationId (row_recipient m) = myAddr E)))"
proof (cases "sessionKeys st k")
  case None
  then show ?thesis
    using run_keys_from [OF assms None] by (fastforce simp: brings_def carries_def mayAdoptSession_def Let_def)
next
  case (Some key')
  then show ?thesis using held.run_inv [OF Some, of E es] assms by simp
qed

theorem session_keys_only_from_signed_rows_witness:
  "\<exists>c key. snd (sendMessage alice_env demo_input ''hi'' bob_contact empty_send) = Inr c \<and>
     sessionKeys (fold (msg_step bob_env) [History Dm [demo_row ''m1'' c]] empty_sessions) (sessionKeyId alice (JStr ''s1'')) = Some key \<and>
     key = JStr (toHex (in_key demo_input)) \<and>
     custody_answers bob_env (js_get (js_get (parsed_content c) ''keys'') ''recip'') key"
proof -
  obtain c where c: "snd (sendMessage alice_env demo_input ''hi'' bob_contact empty_send) = Inr c"
      "sessionKeys (fold (msg_step bob_env) [History Dm [demo_row ''m1'' c]] empty_sessions) (sessionKeyId alice (JStr ''s1'')) =
        Some (JStr (toHex (in_key demo_input)))"
    using demo_adopted by blast
  from session_keys_only_from_signed_rows [OF c(2)] c show ?thesis
    by (auto simp: event_rows_def key_blob_def demo_row_def dmConversationId_def Let_def alice_not_bob)
qed

text \<open>C9: A message shown without a warning holds its place: after any further events, another
  message of history with the same sender, session and position but another id is flagged.\<close>

theorem replay_is_flagged:
  assumes "processMessages E mode raw st = (st1, ms1)" "m1 \<in> set ms1" "judged m1" "freshness m1 = None"
    and "processMessages E mode' raw' (fold (msg_step E) es st1) = (st2, ms2)" "m2 \<in> set ms2" "judged m2"
    and "msg_key (convOf E mode') m2 = msg_key (convOf E mode) m1" "msg_seq m2 = msg_seq m1" "row_id m2 \<noteq> row_id m1"
  shows "freshness m2 \<noteq> None"
proof -
  have "accepted (freshnessSeen st1) (msg_key (convOf E mode) m1) (msg_seq m1) = Some (row_id m1)"
    using processed_freshness(1) [OF assms(1-3)] assms(4) by simp
  then have "accepted (freshnessSeen (fold (msg_step E) es st1)) (msg_key (convOf E mode') m2) (msg_seq m2) = Some (row_id m1)"
    unfolding assms(8,9) by (rule positions.run_inv)
  then show ?thesis using processed_freshness(2) [OF assms(5-7)] assms(10) by metis
qed

theorem replay_is_flagged_witness:
  "\<exists>c st1 x1 st2 x2. processMessages bob_env Dm [demo_row ''m1'' c] empty_sessions = (st1, [x1]) \<and> freshness x1 = None \<and>
     processMessages bob_env Dm [demo_row ''m2'' c] st1 = (st2, [x2]) \<and> freshness x2 \<noteq> None"
proof -
  obtain c st1 x1 st2 x2 where d: "processMessages bob_env Dm [demo_row ''m1'' c] empty_sessions = (st1, [x1])" "judged x1"
      "freshness x1 = None" "row_id x1 = ''m1''" "processMessages bob_env Dm [demo_row ''m2'' c] st1 = (st2, [x2])" "judged x2"
      "row_id x2 = ''m2''" "msg_seq x2 = msg_seq x1" "msg_key (convOf bob_env Dm) x2 = msg_key (convOf bob_env Dm) x1"
    using demo_twice by blast
  have "freshness x2 \<noteq> None"
    using replay_is_flagged [OF d(1) _ d(2,3), of Dm _ "[]" st2 "[x2]" x2] d by simp
  then show ?thesis using d by blast
qed

text \<open>C25: The same replay delivered live is not flagged: a message of history that verified and
  could be read, pushed again under a new id, is shown verified, readable and without a warning.
  The live handlers never consult the positions already seen.\<close>

theorem live_replay_goes_unmarked:
  assumes "processMessages E mode raw st = (st', ms)" "m \<in> set ms" "verified m = Some True" "plainText m = Some t"
    and "cache_ok (me_prims E) (keyCache st)" and "j \<notin> row_id ` set shown"
  shows "\<exists>x. incoming E mode ((chat_row.truncate m)\<lparr>row_id := j\<rparr>) st' = (st', x) \<and> x \<in> set (add_incoming x shown) \<and>
    row_id x = j \<and> verified x = Some True \<and> plainText x = Some t \<and> freshness x = None"
  using processed_live_again [OF assms(1-5), of j] assms(6) by (auto simp: add_incoming_def)

theorem live_replay_goes_unmarked_witness:
  "\<exists>c st1 x1 x. processMessages bob_env Dm [demo_row ''m1'' c] empty_sessions = (st1, [x1]) \<and> plainText x1 = Some ''hi'' \<and>
     incoming bob_env Dm ((chat_row.truncate x1)\<lparr>row_id := ''m2''\<rparr>) st1 = (st1, x) \<and> x \<in> set (add_incoming x [x1]) \<and>
     row_id x = ''m2'' \<and> verified x = Some True \<and> plainText x = Some ''hi'' \<and> freshness x = None"
proof -
  obtain c st1 x1 where d: "processMessages bob_env Dm [demo_row ''m1'' c] empty_sessions = (st1, [x1])"
      "plainText x1 = Some ''hi''" "verified x1 = Some True" "row_id x1 = ''m1''"
    using demo_twice by blast
  show ?thesis
    using live_replay_goes_unmarked [OF d(1) _ d(3,2), of "''m2''" "[x1]"] d by auto
qed

text \<open>C22: Once a message has gone out to a contact, then after anything the program does on its own
  (looking at records, gating direct and group messages, restoring backups) the gate of direct
  messages and that of group members let the same address through only with the very same
  encryption key. \<open>assertSafeRecipient\<close> alone, which the multisig dialogs and the group names ask,
  lets every attested key through, the same or not.\<close>

theorem new_key_needs_the_user:
  assumes "send_allowed P S now c" and "T = fold (trust_step P) es (trust_step P (Gate now c) S)"
  shows "(\<forall>later d. send_allowed P T later d \<longrightarrow> norm_address (ct_address d) = norm_address (ct_address c) \<longrightarrow>
      ct_encryptionKey d = ct_encryptionKey c) \<and>
    (\<forall>E later m. me_prims E = P \<longrightarrow> snd (gate_member E later T m) = Safe \<longrightarrow> gm_address m \<noteq> myAddr E \<longrightarrow>
      to_lower (gm_address m) = norm_address (ct_address c) \<longrightarrow> ct_encryptionKey (gm_user m) = ct_encryptionKey c) \<and>
    (\<forall>later d. is_ok (snd (assertSafeRecipient P T later d)) \<longleftrightarrow> attestationStatus P d = Verified)"
proof -
  obtain k where k: "pin (trust_step P (Gate now c) S) (norm_address (ct_address c)) = Some k" "k = ct_encryptionKey c"
    using send_pins [OF assms(1)] by (auto simp: strict_eq_def)
  have held: "pin T (norm_address (ct_address c)) = Some (ct_encryptionKey c)"
    using pinned.run_inv [OF k(1), of P es] k(2) assms(2) by simp
  have same: "ct_encryptionKey d = ct_encryptionKey c"
    if "send_allowed P T later d" "norm_address (ct_address d) = norm_address (ct_address c)" for later d
    using that held by (auto simp: send_allowed_iff strict_eq_def)
  have "send_allowed P T later (member_contact m)"
    if "me_prims E = P" "snd (gate_member E later T m) = Safe" "gm_address m \<noteq> myAddr E" for E later m
    using gate_member_safe(2) [of E later T m] that by (metis prod.collapse)
  then show ?thesis using same assertSafeRecipient_iff by (fastforce simp: norm_address_def)
qed

theorem new_key_needs_the_user_witness:
  "let T = trust_step demo_prims (Restore JNull) (trust_step demo_prims (Gate 0 bob_contact) (trust empty_send)) in
   attestationStatus demo_prims bob_renewed = Verified \<and> is_ok (snd (assertSafeRecipient demo_prims T 1 bob_renewed)) \<and>
   \<not> send_allowed demo_prims T 1 bob_renewed \<and>
   snd (gate_member alice_env 1 T \<lparr>gm_address = bob, gm_user = bob_renewed\<rparr>) \<noteq> Safe"
proof -
  let ?T = "trust_step demo_prims (Restore JNull) (trust_step demo_prims (Gate 0 bob_contact) (trust empty_send))"
  have T: "?T = fold (trust_step demo_prims) [Restore JNull] (trust_step demo_prims (Gate 0 bob_contact) (trust empty_send))" by simp
  note p = new_key_needs_the_user [OF send_allowed_bob T]
  have "\<not> send_allowed demo_prims ?T 1 bob_renewed" using p bob_keys by metis
  moreover have "is_ok (snd (assertSafeRecipient demo_prims ?T 1 bob_renewed))" using p bob_renewed_verified by blast
  moreover have "to_lower bob = norm_address (ct_address bob_contact)" by (simp add: norm_address_def bob_contact_def)
  then have "snd (gate_member alice_env 1 ?T \<lparr>gm_address = bob, gm_user = bob_renewed\<rparr>) \<noteq> Safe"
    using p bob_keys alice_not_bob by (metis demo_fields(1,2) group_member.select_convs my_addresses(1))
  ultimately show ?thesis using bob_renewed_verified by simp
qed

text \<open>C34: If the user refuses the signature of the message that mints a session, the session stays
  in use: the next message to the same contact goes out under it at position one, carrying no
  key, although the key was never delivered.\<close>

theorem refused_signature_strands_the_session:
  assumes "ct_address partner = Some a" and "current_session S (in_now i) (to_lower a) = None"
    and "snd (sendMessage E (i\<lparr>in_sign := f\<rparr>) msg partner S) = Inr c0"
    and "in_ownKey j = in_ownKey i" "in_now j - in_now i < SESSION_MAX_AGE_MS"
    and "snd (sendMessage E j msg' partner (fst (sendMessage E (i\<lparr>in_sign := \<lambda>_. None\<rparr>) msg partner S))) = Inr c"
  shows "\<exists>ct sig. c = json_text (message_payload 1 (in_sid i) JUndef (in_now j) 1 JNull ct sig)"
  using refused_then_keyless [OF _ assms(3-6)] assms(1,2) by simp

theorem refused_signature_strands_the_session_witness:
  "\<exists>c ct sig. snd (sendMessage alice_env demo_input ''again'' bob_contact demo_refused) = Inr c \<and>
     c = json_text (message_payload 1 ''s1'' JUndef 0 1 JNull ct sig)"
proof -
  obtain c where c: "snd (sendMessage alice_env demo_input ''again'' bob_contact demo_refused) = Inr c"
    using demo_next_posted by blast
  have "demo_input\<lparr>in_sign := custody_sign demo_prims alice_seed ([], [])\<rparr> = demo_input" by (simp add: demo_input_def)
  then obtain c0 where c0: "snd (sendMessage alice_env (demo_input\<lparr>in_sign := custody_sign demo_prims alice_seed ([], [])\<rparr>)
      ''hi'' bob_contact empty_send) = Inr c0"
    using demo_posted [of "''hi''"] by auto
  show ?thesis
    using refused_signature_strands_the_session [OF _ _ c0, of bob demo_input "''again''" c] c
    by (simp add: SESSION_MAX_AGE_MS_def flip: demo_refused_def)
qed

text \<open>C24: Every key a group message carries is its session key wrapped to the encryption key of a
  member of the channel named by the entry, whose identity attests that key; and, ourselves apart,
  it is the key this device had pinned for the member if it had pinned any, and the one it has
  pinned afterwards.\<close>

theorem group_keys_only_for_vouched_members:
  assumes "snd (sendGroupMessage E i msg channel members S) = Inr c"
    and "js_get (js_get (parsed_content c) ''keys'') a \<noteq> JUndef"
  shows "\<exists>m\<in>set members. gm_address m = a \<and> attestationStatus (me_prims E) (member_contact m) = Verified \<and>
    wrapSessionKey (me_prims E) (in_wraps i a) (JStr (generateSessionKey (in_key i))) (ct_encryptionKey (gm_user m)) =
      Inr (js_get (js_get (parsed_content c) ''keys'') a) \<and>
    (a \<noteq> myAddr E \<longrightarrow>
      (\<forall>k. pin (trust S) (to_lower a) = Some k \<longrightarrow> k = ct_encryptionKey (gm_user m)) \<and>
      pin (trust (fst (sendGroupMessage E i msg channel members S))) (to_lower a) = Some (ct_encryptionKey (gm_user m)))"
  using group_keys_vouched [OF assms(1)] assms(2) by (fastforce simp: vouched_def sealed_to_def)

theorem group_keys_only_for_vouched_members_witness:
  "\<exists>c. snd (sendGroupMessage alice_env demo_input ''hi'' (JStr ''g1'') [bob_member] empty_send) = Inr c \<and>
     wrapSessionKey demo_prims (in_wraps demo_input bob) (JStr (generateSessionKey (in_key demo_input))) (JStr (toHex kem_key)) =
       Inr (js_get (js_get (parsed_content c) ''keys'') bob) \<and>
     pin (trust empty_send) bob = None \<and>
     pin (trust (fst (sendGroupMessage alice_env demo_input ''hi'' (JStr ''g1'') [bob_member] empty_send))) bob = Some (JStr (toHex kem_key))"
proof -
  obtain c where c: "snd (sendGroupMessage alice_env demo_input ''hi'' (JStr ''g1'') [bob_member] empty_send) = Inr c"
      "js_get (js_get (parsed_content c) ''keys'') bob \<noteq> JUndef"
    using demo_group_posted by blast
  have "gm_user bob_member = bob_contact" "ct_encryptionKey bob_contact = JStr (toHex kem_key)" "pin (trust empty_send) bob = None"
    by (simp_all add: bob_member_def bob_contact_def empty_send_def pin_def record_of_def load_def)
  then show ?thesis using group_keys_only_for_vouched_members [OF c] c(1) alice_not_bob by auto
qed

text \<open>A direct message goes out at a position below one hundred of a session started less
  than a day before, and the session's counter is raised past it, so no position is used twice.\<close>

theorem session_within_bounds:
  assumes "snd (sendMessage E i msg partner S) = Inr c" and "counted S"
  shows "\<exists>a sid seq keys ct sig started. ct_address partner = Some a \<and>
    c = json_text (message_payload 1 sid JUndef (in_now i) seq keys ct sig) \<and> 0 \<le> seq \<and> seq < SESSION_MAX_MESSAGES \<and>
    sendState (fst (sendMessage E i msg partner S)) (sessionKeyId (to_lower a) (JStr sid)) = Some (seq + 1, started) \<and>
    in_now i - started < SESSION_MAX_AGE_MS \<and> counted (fst (sendMessage E i msg partner S))"
  using session_position [OF assms] .

theorem session_within_bounds_witness:
  "\<exists>c sid seq keys ct sig. snd (sendMessage alice_env demo_input ''hi'' bob_contact empty_send) = Inr c \<and>
     c = json_text (message_payload 1 sid JUndef 0 seq keys ct sig) \<and> 0 \<le> seq \<and> seq < 100"
proof -
  obtain c where c: "snd (sendMessage alice_env demo_input ''hi'' bob_contact empty_send) = Inr c"
    using demo_posted by blast
  have "counted empty_send" by (simp add: counted_def empty_send_def)
  from session_within_bounds [OF c this] show ?thesis
    using c unfolding SESSION_MAX_MESSAGES_def demo_fields by blast
qed

end
