(* ===== verification/WebVault.thy ===== *)
theory WebVault
  imports AccountOpen Vault Acts TrustStore
begin

text \<open>
  \<open>services/vault.js\<close> of the web client: the vault service that holds the user's accounts when no
  extension does. The vault lies encrypted in \<open>localStorage\<close>; what stays in memory is its public
  part, and for a while the derived key and the seed that signs messages.

  Operations run to their end before the next one starts. The clock and the draws of randomness are
  arguments; \<open>localStorage\<close> is a map from names to texts that keeps what it is given, the pinned
  contact keys apart, which are the stores of \<open>trustedKeys.js\<close>. A password argument that is not
  there is \<open>None\<close>.
\<close>

subsection \<open>State\<close>

record full_vault =
  fv_accounts :: "account list"
  fv_active :: jsval

record retired_view =
  rv_kid :: string
  rv_createdAt :: int
  rv_retiredAt :: int

text \<open>What \<open>_sanitize\<close> leaves of an account.\<close>

record public_account =
  pa_id :: string
  pa_name :: string
  pa_createdAt :: int
  pa_identityKey :: string
  pa_encryptionKey :: string
  pa_kid :: string
  pa_retired :: "retired_view list"

record public_vault =
  pv_accounts :: "public_account list"
  pv_active :: jsval

record web_state =
  ws_vault :: "public_vault option"
  ws_isLocked :: bool
  ws_cachedKey :: "bytes option"
  ws_cachedKdf :: "jsval option"
  ws_cacheTimer :: "int option"
  ws_signingKey :: "string option"
  ws_cacheTTL :: int
  ws_storage :: "string \<rightharpoonup> string"
  ws_trust :: trust_stores

type_synonym 'a web = "(web_state, 'a) act"

text \<open>The clock and the draws of one operation: a salt and an iv, an identity key and an encryption
  key, and two signatures.\<close>

record web_env =
  we_prims :: prims
  we_now :: int
  we_save :: "bytes \<times> bytes"
  we_identity :: "bytes \<times> bytes"
  we_encryption :: "bytes \<times> bytes"
  we_sign :: "bytes \<times> bytes"
  we_sign2 :: "bytes \<times> bytes"

subsection \<open>Storage\<close>

definition set_item :: "string \<Rightarrow> string \<Rightarrow> web_state \<Rightarrow> web_state" where
  "set_item k t s = s\<lparr>ws_storage := (ws_storage s)(k \<mapsto> t)\<rparr>"

definition remove_item :: "string \<Rightarrow> web_state \<Rightarrow> web_state" where
  "remove_item k s = s\<lparr>ws_storage := (ws_storage s)(k := None)\<rparr>"

text \<open>\<open>localStorage.getItem(k)\<close> as a condition: an item that is there and not empty.\<close>

definition item :: "string \<Rightarrow> web_state \<Rightarrow> string option" where
  "item k s = (case ws_storage s k of None \<Rightarrow> None | Some t \<Rightarrow> if t = [] then None else Some t)"

definition hasVault :: "web_state \<Rightarrow> bool" where
  "hasVault s \<longleftrightarrow> item ''kryptolog_vault'' s \<noteq> None"

subsection \<open>The key cache\<close>

text \<open>\<open>parseInt(s, 10)\<close>, for a numeral within the safe integers; \<open>None\<close> is \<open>NaN\<close>.\<close>

definition parse_int :: "string \<Rightarrow> int option" where
  "parse_int s =
     (let t = dropWhile (\<lambda>c. c = CHR '' '' \<or> (9 \<le> code c \<and> code c \<le> 13) \<or> code c = 160) s;
          negative = (t \<noteq> [] \<and> hd t = CHR ''-'');
          u = (if t \<noteq> [] \<and> hd t \<in> {CHR ''-'', CHR ''+''} then tl t else t);
          ds = takeWhile is_digit u;
          n = foldl (\<lambda>acc c. 10 * acc + int (code c - 48)) 0 ds
      in if ds = [] then None else Some (if negative then - n else n))"

text \<open>The constructor, on what \<open>localStorage\<close> holds.\<close>

definition web_initial :: "(string \<rightharpoonup> string) \<Rightarrow> trust_stores \<Rightarrow> web_state" where
  "web_initial storage contacts =
     (let saved = (case storage ''kryptolog_key_cache_ttl'' of
            None \<Rightarrow> Some 0
          | Some t \<Rightarrow> if t = [] then Some 0 else parse_int t)
      in \<lparr>ws_vault = None, ws_isLocked = True, ws_cachedKey = None, ws_cachedKdf = None, ws_cacheTimer = None,
          ws_signingKey = None, ws_cacheTTL = (case saved of None \<Rightarrow> 0 | Some n \<Rightarrow> n),
          ws_storage = storage, ws_trust = contacts\<rparr>)"

definition hasCachedKey :: "web_state \<Rightarrow> bool" where
  "hasCachedKey s \<longleftrightarrow> ws_cachedKey s \<noteq> None \<and> ws_cachedKdf s \<noteq> None"

definition clearKeyCache :: "web_state \<Rightarrow> web_state" where
  "clearKeyCache s = s\<lparr>ws_cachedKey := None, ws_cachedKdf := None, ws_signingKey := None, ws_cacheTimer := None\<rparr>"

text \<open>The timer is the time it fires at; setting it again replaces it.\<close>

definition touchCache :: "int \<Rightarrow> web_state \<Rightarrow> web_state" where
  "touchCache now s =
     (if ws_cacheTTL s = 0 \<or> ws_cachedKey s = None then s else s\<lparr>ws_cacheTimer := Some (now + ws_cacheTTL s)\<rparr>)"

definition cacheKey :: "int \<Rightarrow> bytes \<Rightarrow> jsval \<Rightarrow> web_state \<Rightarrow> web_state" where
  "cacheKey now key kdf s =
     (if ws_cacheTTL s = 0 then s else touchCache now (s\<lparr>ws_cachedKey := Some key, ws_cachedKdf := Some kdf\<rparr>))"

definition setCacheTTL :: "int \<Rightarrow> web_state \<Rightarrow> web_state" where
  "setCacheTTL ms s =
     (let t = set_item ''kryptolog_key_cache_ttl'' (int_str ms) (s\<lparr>ws_cacheTTL := ms\<rparr>)
      in if ms = 0 then clearKeyCache t else t)"

text \<open>The timeout's callback.\<close>

definition cache_timeout :: "int \<Rightarrow> web_state \<Rightarrow> web_state" where
  "cache_timeout now s =
     (case ws_cacheTimer s of None \<Rightarrow> s | Some at \<Rightarrow> if at \<le> now then clearKeyCache s else s)"

subsection \<open>The full vault\<close>

definition retired_view_of :: "retired_key \<Rightarrow> retired_view" where
  "retired_view_of k = \<lparr>rv_kid = ek_kid k, rv_createdAt = ek_createdAt k, rv_retiredAt = rk_retiredAt k\<rparr>"

definition sanitize :: "account \<Rightarrow> public_account" where
  "sanitize a =
     \<lparr>pa_id = acc_id a, pa_name = acc_name a, pa_createdAt = acc_createdAt a,
      pa_identityKey = hp_publicKey (acc_identity a), pa_encryptionKey = ek_publicKey (acc_encryption a),
      pa_kid = ek_kid (acc_encryption a), pa_retired = map retired_view_of (acc_retired a)\<rparr>"

definition sanitize_vault :: "full_vault \<Rightarrow> public_vault" where
  "sanitize_vault v = \<lparr>pv_accounts = map sanitize (fv_accounts v), pv_active = fv_active v\<rparr>"

definition full_fields :: "full_vault \<Rightarrow> (string \<times> jsval) list" where
  "full_fields v =
     (''accounts'', JArr (map account_js (fv_accounts v)))
       # (if fv_active v = JUndef then [] else [(''activeAccountId'', fv_active v)])"

definition full_js :: "full_vault \<Rightarrow> jsval" where
  "full_js v = JObj (full_fields v)"

text \<open>\<open>_normalizeVault\<close>, and the two fields the service reads. The blob is authenticated and written
  by this service alone: a vault without a list of accounts is outside the model.\<close>

definition normalizeVault :: "prims \<Rightarrow> int \<Rightarrow> jsval \<Rightarrow> full_vault res" where
  "normalizeVault P now js =
     (case array_of (js_get js ''accounts'') of
        None \<Rightarrow> Throw OutOfModel
      | Some xs \<Rightarrow>
          bind_res (map_res (parseAccount P now) xs) (\<lambda>accounts.
            Ok \<lparr>fv_accounts = accounts, fv_active = js_get js ''activeAccountId''\<rparr>))"

definition given :: "string \<Rightarrow> string option \<Rightarrow> string res" where
  "given msg password =
     (case password of None \<Rightarrow> Throw (PlainError msg) | Some p \<Rightarrow> if p = [] then Throw (PlainError msg) else Ok p)"

definition stored_text :: "string web" where
  "stored_text = (\<lambda>s. (opt_res (PlainError ''No vault found'') (item ''kryptolog_vault'' s), s))"

definition parse_json :: "string \<Rightarrow> jsval res" where
  "parse_json t = opt_res SyntaxError (json_parse t)"

text \<open>The \<open>try\<close> block of the cached key; whatever fails in it drops the cache.\<close>

definition open_cached :: "prims \<Rightarrow> int \<Rightarrow> jsval \<Rightarrow> web_state \<Rightarrow> full_vault option" where
  "open_cached P now encrypted s =
     (if hasCachedKey s then
        (case bind_res (decryptVaultWithKey P encrypted (the (ws_cachedKey s))) (normalizeVault P now) of
           Inl _ \<Rightarrow> None | Inr v \<Rightarrow> Some v)
      else None)"

definition open_with_password :: "prims \<Rightarrow> int \<Rightarrow> jsval \<Rightarrow> string \<Rightarrow> full_vault web" where
  "open_with_password P now encrypted password =
     andThen (lift_res (vaultKdfOf encrypted)) (\<lambda>kdf.
     andThen (lift_res (deriveKey P password kdf)) (\<lambda>key.
     andThen (lift_res (decryptVaultWithKey P encrypted key)) (\<lambda>js.
     andThen (updates (cacheKey now key kdf)) (\<lambda>_. lift_res (normalizeVault P now js)))))"

definition getFullVault :: "prims \<Rightarrow> int \<Rightarrow> string option \<Rightarrow> full_vault web" where
  "getFullVault P now password =
     andThen stored_text (\<lambda>t.
     andThen (lift_res (parse_json t)) (\<lambda>encrypted s.
       case open_cached P now encrypted s of
         Some v \<Rightarrow> (Ok v, touchCache now s)
       | None \<Rightarrow>
           andThen (lift_res (given ''Password required'' password)) (open_with_password P now encrypted)
             (if hasCachedKey s then clearKeyCache s else s)))"

definition save :: "prims \<Rightarrow> bytes \<times> bytes \<Rightarrow> int \<Rightarrow> full_vault \<Rightarrow> string option \<Rightarrow> unit web" where
  "save P rnd now v password = (\<lambda>s.
     if hasCachedKey s then
       andThen (lift_res (encryptVaultWithKey P (snd rnd) (full_js v) (the (ws_cachedKey s)) (the (ws_cachedKdf s)))) (\<lambda>blob.
         updates (\<lambda>s. set_item ''kryptolog_vault'' (json_text blob) (touchCache now s))) s
     else
       andThen (lift_res (given ''Password required to save'' password)) (\<lambda>pw.
       andThen (lift_res (encryptVault P rnd (full_js v) pw)) (\<lambda>blob.
       andThen (lift_res (deriveKey P pw (js_get blob ''kdf''))) (\<lambda>key.
         updates (\<lambda>s. set_item ''kryptolog_vault'' (json_text blob) (cacheKey now key (js_get blob ''kdf'') s))))) s)"

definition put_memory :: "full_vault \<Rightarrow> web_state \<Rightarrow> web_state" where
  "put_memory v s = s\<lparr>ws_vault := Some (sanitize_vault v)\<rparr>"

definition update_memory :: "(public_vault \<Rightarrow> public_vault) \<Rightarrow> unit web" where
  "update_memory f = updates (\<lambda>s. s\<lparr>ws_vault := map_option f (ws_vault s)\<rparr>)"

subsection \<open>Setting up, unlocking, locking\<close>

text \<open>\<open>vaultBiometrics.js\<close>; \<open>setup\<close> calls it.\<close>

definition disableBiometrics :: "web_state \<Rightarrow> web_state" where
  "disableBiometrics s = remove_item ''kryptolog_bio_fallback_key'' (remove_item ''kryptolog_biometrics'' s)"

definition password_js :: "string option \<Rightarrow> jsval" where
  "password_js password = (case password of None \<Rightarrow> JNull | Some p \<Rightarrow> JStr p)"

definition requireStrongPassword :: "string option \<Rightarrow> unit web" where
  "requireStrongPassword password =
     (case vaultPasswordProblem (password_js password) of None \<Rightarrow> ret () | Some p \<Rightarrow> fail (PlainError (problem_text p)))"

definition web_setup :: "web_env \<Rightarrow> string \<Rightarrow> string option \<Rightarrow> public_account web" where
  "web_setup E name password =
     andThen (\<lambda>s. guards (\<not> hasVault s) (PlainError ''Vault already exists'') s) (\<lambda>_.
     andThen (requireStrongPassword password) (\<lambda>_.
     andThen (updates disableBiometrics) (\<lambda>_.
     andThen (lift_res (generateAccount (we_prims E) (we_identity E, we_encryption E) (we_now E) name)) (\<lambda>a.
     let v = \<lparr>fv_accounts = [a], fv_active = JStr (acc_id a)\<rparr>
     in andThen (save (we_prims E) (we_save E) (we_now E) v password) (\<lambda>_.
        andThen (updates (\<lambda>s. (put_memory v s)\<lparr>ws_isLocked := False\<rparr>)) (\<lambda>_. ret (sanitize a)))))))"

text \<open>Does the password open the vault? Asked of the stored blob, never of the cache.\<close>

definition verifyPassword :: "prims \<Rightarrow> string option \<Rightarrow> web_state \<Rightarrow> bool" where
  "verifyPassword P password s =
     (case (given [] password, item ''kryptolog_vault'' s) of
        (Inr pw, Some t) \<Rightarrow>
          is_ok (bind_res (parse_json t) (\<lambda>encrypted.
                 bind_res (vaultKdfOf encrypted) (\<lambda>kdf.
                 bind_res (deriveKey P pw kdf) (\<lambda>key. decryptVaultWithKey P encrypted key))))
      | _ \<Rightarrow> False)"

definition unlock_result :: "prims \<Rightarrow> int \<Rightarrow> string \<Rightarrow> string \<Rightarrow> (bytes \<times> jsval \<times> full_vault) res" where
  "unlock_result P now password t =
     bind_res (parse_json t) (\<lambda>encrypted.
     bind_res (vaultKdfOf encrypted) (\<lambda>kdf.
     bind_res (deriveKey P password kdf) (\<lambda>key.
     bind_res (decryptVaultWithKey P encrypted key) (\<lambda>js.
     bind_res (normalizeVault P now js) (\<lambda>v. Ok (key, kdf, v))))))"

definition web_unlock :: "prims \<Rightarrow> int \<Rightarrow> string \<Rightarrow> bool web" where
  "web_unlock P now password =
     andThen stored_text (\<lambda>t.
       catches
         (andThen (lift_res (unlock_result P now password t)) (\<lambda>(key, kdf, v).
          andThen (updates (\<lambda>s. (put_memory v (cacheKey now key kdf s))\<lparr>ws_isLocked := False\<rparr>)) (\<lambda>_. ret True)))
         (\<lambda>e. case e of FormatError m \<Rightarrow> fail e | _ \<Rightarrow> ret False))"

definition web_lock :: "web_state \<Rightarrow> web_state" where
  "web_lock s = clearKeyCache (s\<lparr>ws_vault := None, ws_isLocked := True, ws_signingKey := None\<rparr>)"

definition requireOpen :: "unit web" where
  "requireOpen = (\<lambda>s. guards (\<not> ws_isLocked s) (PlainError ''Vault locked'') s)"

subsection \<open>Accounts\<close>

definition full_active :: "full_vault \<Rightarrow> account option" where
  "full_active v = find (\<lambda>a. JStr (acc_id a) = fv_active v) (fv_accounts v)"

definition web_activeAccount :: "web_state \<Rightarrow> public_account option" where
  "web_activeAccount s =
     (case ws_vault s of
        None \<Rightarrow> None
      | Some m \<Rightarrow> if ws_isLocked s then None else find (\<lambda>a. JStr (pa_id a) = pv_active m) (pv_accounts m))"

definition public_row :: "public_vault \<Rightarrow> public_account \<Rightarrow> jsval" where
  "public_row m a = JObj
     [(''id'', JStr (pa_id a)), (''name'', JStr (pa_name a)), (''isActive'', JBool (JStr (pa_id a) = pv_active m)),
      (''createdAt'', JNum (pa_createdAt a)), (''identityPublicKey'', JStr (pa_identityKey a)),
      (''encryptionPublicKey'', JStr (pa_encryptionKey a))]"

definition web_accounts :: "web_state \<Rightarrow> jsval list" where
  "web_accounts s =
     (case ws_vault s of None \<Rightarrow> [] | Some m \<Rightarrow> if ws_isLocked s then [] else map (public_row m) (pv_accounts m))"

definition addAccount :: "web_env \<Rightarrow> string \<Rightarrow> string option \<Rightarrow> public_account web" where
  "addAccount E name password =
     andThen requireOpen (\<lambda>_.
     andThen (getFullVault (we_prims E) (we_now E) password) (\<lambda>v.
     andThen (lift_res (generateAccount (we_prims E) (we_identity E, we_encryption E) (we_now E) name)) (\<lambda>a.
     andThen (save (we_prims E) (we_save E) (we_now E) (v\<lparr>fv_accounts := fv_accounts v @ [a]\<rparr>) password) (\<lambda>_.
     andThen (update_memory (\<lambda>m. m\<lparr>pv_accounts := pv_accounts m @ [sanitize a]\<rparr>)) (\<lambda>_. ret (sanitize a))))))"

definition switchAccount :: "web_env \<Rightarrow> string \<Rightarrow> string option \<Rightarrow> public_account web" where
  "switchAccount E aid password =
     andThen requireOpen (\<lambda>_.
     andThen (getFullVault (we_prims E) (we_now E) password) (\<lambda>v.
     andThen (lift_res (opt_res (PlainError ''Account not found'') (find (\<lambda>a. acc_id a = aid) (fv_accounts v)))) (\<lambda>a.
     andThen (save (we_prims E) (we_save E) (we_now E) (v\<lparr>fv_active := JStr aid\<rparr>) password) (\<lambda>_.
     andThen (update_memory (\<lambda>m. m\<lparr>pv_active := JStr aid\<rparr>)) (\<lambda>_. ret (sanitize a))))))"

text \<open>The active account passes to another one first, in memory before anything is saved.\<close>

definition hand_over :: "string \<Rightarrow> full_vault \<Rightarrow> full_vault web" where
  "hand_over aid v =
     (if fv_active v \<noteq> JStr aid then ret v
      else case find (\<lambda>a. acc_id a \<noteq> aid) (fv_accounts v) of
          None \<Rightarrow> fail (JsTypeError ''other is undefined'')
        | Some b \<Rightarrow>
            andThen (update_memory (\<lambda>m. m\<lparr>pv_active := JStr (acc_id b)\<rparr>)) (\<lambda>_.
              ret (v\<lparr>fv_active := JStr (acc_id b)\<rparr>)))"

definition web_deleteAccount :: "web_env \<Rightarrow> string \<Rightarrow> string option \<Rightarrow> unit web" where
  "web_deleteAccount E aid password =
     andThen requireOpen (\<lambda>_.
     andThen (getFullVault (we_prims E) (we_now E) password) (\<lambda>v.
     andThen (guards (1 < length (fv_accounts v)) (PlainError ''Cannot delete last account'')) (\<lambda>_.
     andThen (hand_over aid v) (\<lambda>w.
     andThen (save (we_prims E) (we_save E) (we_now E)
       (w\<lparr>fv_accounts := filter (\<lambda>a. acc_id a \<noteq> aid) (fv_accounts w)\<rparr>) password) (\<lambda>_.
       update_memory (\<lambda>m. m\<lparr>pv_accounts := filter (\<lambda>a. pa_id a \<noteq> aid) (pv_accounts m)\<rparr>))))))"

definition wipeVault :: "web_state \<Rightarrow> web_state" where
  "wipeVault s =
     (clearKeyCache (disableBiometrics (remove_item ''kryptolog_vault'' s)))\<lparr>ws_vault := None, ws_isLocked := True\<rparr>"

subsection \<open>Private-key operations\<close>

definition with_active_full :: "web_env \<Rightarrow> string option \<Rightarrow> string \<Rightarrow> (account \<Rightarrow> 'a res) \<Rightarrow> 'a web" where
  "with_active_full E password missing f =
     andThen requireOpen (\<lambda>_.
     andThen (getFullVault (we_prims E) (we_now E) password) (\<lambda>v.
     andThen (lift_res (opt_res (PlainError missing) (full_active v))) (\<lambda>a. lift_res (f a))))"

definition identity_seed :: "account \<Rightarrow> string" where
  "identity_seed a = hp_seed (acc_identity a)"

definition web_sign :: "web_env \<Rightarrow> string \<Rightarrow> string option \<Rightarrow> string web" where
  "web_sign E message password =
     with_active_full E password ''Active account not found in vault''
       (\<lambda>a. signMessage (we_prims E) message (JStr (identity_seed a)) (we_sign E))"

definition web_decrypt :: "web_env \<Rightarrow> jsval \<Rightarrow> string option \<Rightarrow> string web" where
  "web_decrypt E env password =
     with_active_full E password ''Active account not found in vault'' (\<lambda>a. open_data (we_prims E) a env)"

definition or_failed :: "string res \<Rightarrow> string" where
  "or_failed r = (case r of Inl _ \<Rightarrow> ''Error: Decryption Failed'' | Inr m \<Rightarrow> m)"

definition web_decryptMany :: "web_env \<Rightarrow> jsval list \<Rightarrow> string option \<Rightarrow> string list web" where
  "web_decryptMany E envs password =
     with_active_full E password ''Active account not found in vault''
       (\<lambda>a. Ok (map (\<lambda>env. or_failed (open_data (we_prims E) a env)) envs))"

definition web_unwrapSessionKey :: "web_env \<Rightarrow> jsval \<Rightarrow> string option \<Rightarrow> string web" where
  "web_unwrapSessionKey E wrapped password =
     with_active_full E password ''Active account not found'' (\<lambda>a. open_key (we_prims E) a wrapped)"

definition web_unwrapMany :: "web_env \<Rightarrow> jsval list \<Rightarrow> string option \<Rightarrow> jsval list web" where
  "web_unwrapMany E wrapped password =
     with_active_full E password ''Active account not found''
       (\<lambda>a. Ok (map (\<lambda>w. or_null (open_key (we_prims E) a w)) wrapped))"

text \<open>One chat message. The first call keeps the seed, the later ones sign with it.\<close>

definition prime_signingKey :: "web_env \<Rightarrow> string option \<Rightarrow> string web" where
  "prime_signingKey E password =
     andThen (getFullVault (we_prims E) (we_now E) password) (\<lambda>v.
     andThen (lift_res (opt_res (PlainError ''Active account not found in vault'') (full_active v))) (\<lambda>a.
     andThen (updates (\<lambda>s. s\<lparr>ws_signingKey := Some (identity_seed a)\<rparr>)) (\<lambda>_. ret (identity_seed a))))"

definition web_signMessage :: "web_env \<Rightarrow> string \<Rightarrow> string option \<Rightarrow> string web" where
  "web_signMessage E body password =
     andThen requireOpen (\<lambda>_.
     andThen (\<lambda>s. case ws_signingKey s of Some k \<Rightarrow> (Ok k, s) | None \<Rightarrow> prime_signingKey E password s) (\<lambda>k.
       lift_res (signMessage (we_prims E) body (JStr k) (we_sign E))))"

end
