(* ===== verification/WebBackup.thy ===== *)
theory WebBackup
  imports WebVault Signing
begin

text \<open>
  The methods the web client's vault service takes from \<open>services/vaultRotation.js\<close>,
  \<open>services/vaultBackup.js\<close> and \<open>services/vaultBiometrics.js\<close>, with the WebAuthn calls of
  \<open>crypto-core/src/webauthn.js\<close>. The browser's authenticator is a parameter.
\<close>

subsection \<open>Replacing the encryption key\<close>

definition replace_active :: "account \<Rightarrow> full_vault \<Rightarrow> full_vault" where
  "replace_active b v = v\<lparr>fv_accounts := replace_first (\<lambda>a. JStr (acc_id a) = fv_active v) b (fv_accounts v)\<rparr>"

definition put_public :: "account \<Rightarrow> public_vault \<Rightarrow> public_vault" where
  "put_public b m = m\<lparr>pv_accounts := map (\<lambda>a. if pa_id a = acc_id b then sanitize b else a) (pv_accounts m)\<rparr>"

definition withActiveAccount :: "web_env \<Rightarrow> string option \<Rightarrow> (account \<Rightarrow> (account \<times> 'r) res) \<Rightarrow> 'r web" where
  "withActiveAccount E password change =
     andThen requireOpen (\<lambda>_.
     andThen (getFullVault (we_prims E) (we_now E) password) (\<lambda>v.
     andThen (lift_res (opt_res (PlainError ''Active account not found in vault'') (full_active v))) (\<lambda>a.
     andThen (lift_res (change a)) (\<lambda>(b, r).
     andThen (save (we_prims E) (we_save E) (we_now E) (replace_active b v) password) (\<lambda>_.
     andThen (update_memory (put_public b)) (\<lambda>_. ret r))))))"

record published =
  pb_encryptionPublicKey :: string
  pb_oldKid :: string
  pb_newKid :: string
  pb_attestation :: string
  pb_signature :: string

definition rotate_change :: "web_env \<Rightarrow> int \<Rightarrow> account \<Rightarrow> (account \<times> published) res" where
  "rotate_change E ts a =
     (let P = we_prims E; seed = JStr (identity_seed a)
      in bind_res (rotateAccountEncryptionKey P (we_now E) (we_encryption E) (account_js a) ts) (\<lambda>b.
         bind_res (attestEncryptionKey P
           \<lparr>af_address = JStr (acc_id a), af_encryptionPublicKey = JStr (ek_publicKey (acc_encryption b))\<rparr> seed (we_sign E)) (\<lambda>att.
         bind_res (signKeyRotation P
           \<lparr>rf_address = JStr (acc_id a), rf_oldKid = JStr (ek_kid (acc_encryption a)),
            rf_newKid = JStr (ek_kid (acc_encryption b)), rf_ts = JNum ts\<rparr> seed (we_sign2 E)) (\<lambda>sig.
           Ok (b, \<lparr>pb_encryptionPublicKey = ek_publicKey (acc_encryption b), pb_oldKid = ek_kid (acc_encryption a),
                   pb_newKid = ek_kid (acc_encryption b), pb_attestation = att, pb_signature = sig\<rparr>)))))"

definition web_rotateEncryptionKey :: "web_env \<Rightarrow> string option \<Rightarrow> int \<Rightarrow> published web" where
  "web_rotateEncryptionKey E password ts = withActiveAccount E password (rotate_change E ts)"

definition web_revertRotation :: "web_env \<Rightarrow> string option \<Rightarrow> string \<Rightarrow> unit web" where
  "web_revertRotation E password newKid =
     withActiveAccount E password (\<lambda>a.
       bind_res (revertAccountEncryptionKeyRotation (we_prims E) (we_now E) (account_js a) newKid (we_now E)) (\<lambda>b. Ok (b, ())))"

definition web_destroyRetired :: "web_env \<Rightarrow> string option \<Rightarrow> string \<Rightarrow> unit web" where
  "web_destroyRetired E password kid =
     withActiveAccount E password (\<lambda>a.
       bind_res (destroyRetiredEncryptionKey (we_prims E) (we_now E) (account_js a) kid) (\<lambda>b. Ok (b, ())))"

subsection \<open>Backups\<close>

text \<open>\<open>JSON.stringify(v, null, 2)\<close>: the text of a value at an indentation.\<close>

fun json_pretty :: "nat \<Rightarrow> jsval \<Rightarrow> string" where
  "json_pretty d (JArr vs) =
     (if vs = [] then ''[]''
      else let pad = nl # replicate (2 * Suc d) CHR '' ''
           in CHR ''['' # pad @ join ('','' @ pad) (map (json_pretty (Suc d)) vs) @ nl # replicate (2 * d) CHR '' '' @ '']'')"
| "json_pretty d (JObj kvs) =
     (let members = filter (\<lambda>(k, v). v \<noteq> JUndef) kvs; pad = nl # replicate (2 * Suc d) CHR '' ''
      in if members = [] then ''{}''
         else CHR ''{'' # pad
           @ join ('','' @ pad) (map (\<lambda>(k, v). json_quote k @ '': '' @ json_pretty (Suc d) v) members)
           @ nl # replicate (2 * d) CHR '' '' @ ''}'')"
| "json_pretty d v = json_text v"

text \<open>\<open>{ ...fullVault, trustStore: exportTrustStores() }\<close>.\<close>

definition backup_js :: "full_vault \<Rightarrow> trust_stores \<Rightarrow> jsval" where
  "backup_js v S = JObj (full_fields v @ [(''trustStore'', exportTrustStores S)])"

definition exportVault :: "web_env \<Rightarrow> string option \<Rightarrow> string web" where
  "exportVault E password =
     andThen requireOpen (\<lambda>_.
     andThen (getFullVault (we_prims E) (we_now E) password) (\<lambda>v.
       reads (\<lambda>s. json_pretty 0 (backup_js v (ws_trust s)))))"

text \<open>The draws are the backup's own salt and iv.\<close>

definition exportEncryptedBlob :: "web_env \<Rightarrow> string option \<Rightarrow> string option \<Rightarrow> string web" where
  "exportEncryptedBlob E passphrase vaultPassword =
     andThen requireOpen (\<lambda>_.
     andThen (lift_res (given ''Transfer passphrase required'' passphrase)) (\<lambda>pp.
     andThen (requireStrongPassword passphrase) (\<lambda>_.
     andThen (getFullVault (we_prims E) (we_now E) vaultPassword) (\<lambda>v s.
       andThen (lift_res (encryptVault (we_prims E) (we_save E) (backup_js v (ws_trust s)) pp)) (\<lambda>blob.
         ret (json_text blob)) s))))"

definition chosen_active :: "jsval \<Rightarrow> account list \<Rightarrow> jsval" where
  "chosen_active wanted accounts =
     (if truthy wanted \<and> list_ex (\<lambda>a. JStr (acc_id a) = wanted) accounts then wanted
      else case accounts of [] \<Rightarrow> JUndef | a # _ \<Rightarrow> JStr (acc_id a))"

text \<open>What a backup file holds, before anything is changed.\<close>

definition backup_accounts :: "jsval \<Rightarrow> jsval list res" where
  "backup_accounts d =
     (if isEncryptedVaultBlob d then Throw (PlainError ''This is an encrypted .kvault backup - enter its passphrase'')
      else if is_nullish d then Throw (JsTypeError ''Cannot read properties of null'')
      else case array_of (js_get d ''accounts'') of
          None \<Rightarrow> Throw (PlainError ''Invalid vault file: no accounts found'')
        | Some [] \<Rightarrow> Throw (PlainError ''Invalid vault file: no accounts found'')
        | Some xs \<Rightarrow> Ok xs)"

definition open_imported :: "full_vault \<Rightarrow> jsval \<Rightarrow> web_state \<Rightarrow> web_state" where
  "open_imported v d s =
     (put_memory v (s\<lparr>ws_trust := importTrustStores (ws_trust s) (js_get d ''trustStore'')\<rparr>))\<lparr>ws_isLocked := False\<rparr>"

definition importNewVault :: "web_env \<Rightarrow> string \<Rightarrow> string option \<Rightarrow> public_account web" where
  "importNewVault E jsonString password =
     andThen (\<lambda>s. guards (\<not> hasVault s)
       (PlainError ''A vault already exists on this device. Import accounts from Settings instead.'') s) (\<lambda>_.
     andThen (requireStrongPassword password) (\<lambda>_.
     andThen (lift_res (opt_res (PlainError ''Invalid file: not valid JSON'') (json_parse jsonString))) (\<lambda>d.
     andThen (lift_res (backup_accounts d)) (\<lambda>raws.
     andThen (updates disableBiometrics) (\<lambda>_.
     andThen (lift_res (map_res (parseAccount (we_prims E) (we_now E)) raws)) (\<lambda>accounts.
     let v = \<lparr>fv_accounts = accounts, fv_active = chosen_active (js_get d ''activeAccountId'') accounts\<rparr>
     in andThen (save (we_prims E) (we_save E) (we_now E) v password) (\<lambda>_.
        andThen (updates (open_imported v d)) (\<lambda>_.
          lift_res (case full_active v of None \<Rightarrow> Throw (JsTypeError ''account is undefined'') | Some a \<Rightarrow> Ok (sanitize a))))))))))"

definition importEncryptedBlob :: "web_env \<Rightarrow> string \<Rightarrow> string \<Rightarrow> string option \<Rightarrow> public_account web" where
  "importEncryptedBlob E blobString passphrase newLocalPassword =
     andThen (\<lambda>s. guards (\<not> hasVault s)
       (PlainError ''A vault already exists on this device. Import from the Vault Manager while signed in.'') s) (\<lambda>_.
     andThen (requireStrongPassword newLocalPassword) (\<lambda>_.
     andThen (lift_res (opt_res (PlainError ''Invalid transfer data'') (json_parse blobString))) (\<lambda>encrypted.
     andThen (lift_res (decryptVault (we_prims E) encrypted passphrase)) (\<lambda>d.
       importNewVault E (json_text d) newLocalPassword))))"

text \<open>Merging a backup into the vault: an account already held is replaced by the backup's.\<close>

definition put_imported :: "account \<Rightarrow> account list \<Rightarrow> account list" where
  "put_imported a accounts =
     (if list_ex (\<lambda>b. acc_id b = acc_id a) accounts then replace_first (\<lambda>b. acc_id b = acc_id a) a accounts
      else accounts @ [a])"

fun merge_raw :: "prims \<Rightarrow> int \<Rightarrow> jsval list \<Rightarrow> account list \<Rightarrow> account list res" where
  "merge_raw P now [] accounts = Ok accounts"
| "merge_raw P now (r # rs) accounts =
     bind_res (parseAccount P now r) (\<lambda>a. merge_raw P now rs (put_imported a accounts))"

definition backup_data :: "prims \<Rightarrow> string \<Rightarrow> string option \<Rightarrow> jsval res" where
  "backup_data P jsonString passphrase =
     bind_res (parse_json jsonString) (\<lambda>parsed.
       if isEncryptedVaultBlob parsed then
         bind_res (given ''This is an encrypted .kvault backup - enter its passphrase'' passphrase) (decryptVault P parsed)
       else Ok parsed)"

definition imported_list :: "jsval \<Rightarrow> jsval list res" where
  "imported_list d =
     (if is_nullish d then Throw (JsTypeError ''Cannot read properties of null'')
      else opt_res (PlainError ''Invalid vault format'') (array_of (js_get d ''accounts'')))"

definition web_importVault :: "web_env \<Rightarrow> string \<Rightarrow> string option \<Rightarrow> string option \<Rightarrow> nat web" where
  "web_importVault E jsonString password passphrase =
     andThen requireOpen (\<lambda>_.
       catches
         (andThen (lift_res (backup_data (we_prims E) jsonString passphrase)) (\<lambda>d.
          andThen (lift_res (imported_list d)) (\<lambda>raws.
          andThen (getFullVault (we_prims E) (we_now E) password) (\<lambda>v.
          andThen (lift_res (merge_raw (we_prims E) (we_now E) raws (fv_accounts v))) (\<lambda>accounts.
            if raws = [] then ret 0
            else
              andThen (save (we_prims E) (we_save E) (we_now E) (v\<lparr>fv_accounts := accounts\<rparr>) password) (\<lambda>_.
              andThen (updates (\<lambda>s. put_memory (v\<lparr>fv_accounts := accounts\<rparr>)
                (s\<lparr>ws_trust := importTrustStores (ws_trust s) (js_get d ''trustStore'')\<rparr>))) (\<lambda>_. ret (length raws))))))))
         (\<lambda>e. fail (PlainError (''Import failed: '' @ err_msg e))))"

subsection \<open>The authenticator\<close>

text \<open>
  \<open>navigator.credentials\<close>: whether it is there, what creating a credential for a user name and a PRF
  salt answers (its id and the PRF output, where the device has one), and what asking a credential for a
  salt answers. A refusal is \<open>None\<close>.
\<close>

record authenticator =
  au_supported :: bool
  au_create :: "string \<Rightarrow> bytes \<Rightarrow> (string \<times> bytes option) option"
  au_get :: "bytes \<Rightarrow> bytes \<Rightarrow> bytes option option"

definition no_prf :: js_error where
  "no_prf = PlainError
     (''This device doesn'' @ CHR 0x27 # ''t support hardware-bound biometric keys (WebAuthn PRF), '' @
      ''so biometric unlock isn'' @ CHR 0x27 # ''t available here. You can still unlock with your password.'')"

text \<open>The credential's id, the PRF key and the salt, the last two in hexadecimal.\<close>

definition registerBiometricCredential :: "authenticator \<Rightarrow> bytes \<Rightarrow> string \<Rightarrow> (string \<times> string \<times> string) res" where
  "registerBiometricCredential A prfSalt username =
     bind_res (opt_res (PlainError ''NotAllowedError'') (au_create A username prfSalt)) (\<lambda>(cid, prf).
     bind_res (opt_res no_prf prf) (\<lambda>k. Ok (cid, toHex k, toHex prfSalt)))"

definition fromBase64Url :: "string \<Rightarrow> bytes res" where
  "fromBase64Url s =
     (let base64 = map (\<lambda>c. if c = CHR ''-'' then CHR ''+'' else if c = CHR ''_'' then CHR ''/'' else c) s;
          padded = base64 @ replicate ((length base64 + 3) div 4 * 4 - length base64) CHR ''=''
      in if \<not> list_all is_b64 (unpadded padded) \<or> length (unpadded padded) mod 4 = 1
         then Throw (PlainError ''InvalidCharacterError'')
         else Ok (map (\<lambda>c. byte (code c)) (atob padded)))"

definition getBiometricKey :: "authenticator \<Rightarrow> jsval \<Rightarrow> jsval \<Rightarrow> jsval \<Rightarrow> string res" where
  "getBiometricKey A credentialId prfSaltHex mode =
     (if mode \<noteq> JStr ''prf'' then Throw (PlainError
        (''This biometric credential uses an unsupported legacy mode. Please disable '' @
         ''and re-enable biometric unlock to use a hardware-bound key.''))
      else
        bind_res (if truthy prfSaltHex then fromHex prfSaltHex else Ok (replicate 32 (byte 1))) (\<lambda>salt.
        bind_res (opt_res (JsTypeError ''str.replace is not a function'') (the_str credentialId)) (\<lambda>cid.
        bind_res (fromBase64Url cid) (\<lambda>raw.
        bind_res (opt_res (PlainError ''NotAllowedError'') (au_get A raw salt)) (\<lambda>prf.
        bind_res (opt_res (PlainError
          (''Biometric auth succeeded but PRF key was not returned. '' @
           ''Your device may not support hardware-bound biometrics.'')) prf) (\<lambda>k. Ok (toHex k)))))))"

subsection \<open>Biometric unlock\<close>

definition hasBiometrics :: "web_state \<Rightarrow> bool" where
  "hasBiometrics s \<longleftrightarrow> item ''kryptolog_biometrics'' s \<noteq> None"

definition prefs_js :: "string \<Rightarrow> string \<Rightarrow> jsval \<Rightarrow> jsval" where
  "prefs_js cid prfSalt encryptedPass = JObj
     [(''mode'', JStr ''prf''), (''credentialId'', JStr cid), (''encryptedPass'', encryptedPass), (''prfSalt'', JStr prfSalt)]"

text \<open>The draws are the PRF salt and the iv the password is sealed with.\<close>

definition enableBiometrics :: "web_env \<Rightarrow> authenticator \<Rightarrow> bytes \<times> bytes \<Rightarrow> string option \<Rightarrow> string web" where
  "enableBiometrics E A rnd password =
     andThen (\<lambda>s. guards (verifyPassword (we_prims E) password s)
       (PlainError ''Your vault password is required to enable biometric unlock.'') s) (\<lambda>_.
     andThen (guards (au_supported A) (PlainError ''Biometrics not supported on this device/browser.'')) (\<lambda>_.
     andThen (getFullVault (we_prims E) (we_now E) password) (\<lambda>v.
     let name = (case full_active v of None \<Rightarrow> ''Kryptolog User'' | Some a \<Rightarrow> acc_name a)
     in andThen (lift_res (registerBiometricCredential A (fst rnd) name)) (\<lambda>(cid, prfKey, prfSalt).
        andThen (lift_res (given [] password)) (\<lambda>pw.
        andThen (lift_res (encryptSymmetric (we_prims E) (snd rnd) pw (JStr prfKey))) (\<lambda>sealed.
        andThen (updates (\<lambda>s. set_item ''kryptolog_biometrics'' (json_text (prefs_js cid prfSalt sealed))
          (remove_item ''kryptolog_bio_fallback_key'' s))) (\<lambda>_. ret ''prf'')))))))"

definition prefs_mode :: "jsval \<Rightarrow> jsval" where
  "prefs_mode prefs = (if truthy (js_get prefs ''mode'') then js_get prefs ''mode'' else JStr ''prf'')"

definition recoverPassword :: "prims \<Rightarrow> authenticator \<Rightarrow> web_state \<Rightarrow> string res" where
  "recoverPassword P A s =
     bind_res (opt_res (PlainError ''Biometrics not set up.'') (item ''kryptolog_biometrics'' s)) (\<lambda>t.
     bind_res (parse_json t) (\<lambda>prefs.
     bind_res (getBiometricKey A (js_get prefs ''credentialId'') (js_get prefs ''prfSalt'') (prefs_mode prefs)) (\<lambda>key.
     bind_res (decryptSymmetric P (js_get prefs ''encryptedPass'') (JStr key)) (\<lambda>password.
       if password = [] then Throw (PlainError ''Biometric decryption failed.'') else Ok password))))"

definition biometricMode :: "web_state \<Rightarrow> jsval" where
  "biometricMode s =
     (case item ''kryptolog_biometrics'' s of
        None \<Rightarrow> JNull
      | Some t \<Rightarrow> (case json_parse t of None \<Rightarrow> JNull | Some prefs \<Rightarrow> prefs_mode prefs))"

end
