(* ===== verification/WebClient.thy ===== *)
theory WebClient
  imports WebBackup
begin

text \<open>
  The web client around the vault: \<open>services/api.js\<close>, \<open>utils/paging.js\<close> and the custody half of
  \<open>context/PQCContext.jsx\<close>, which sends every private-key operation to the extension or to the
  vault and asks the user for the vault password.

  What lies outside is a parameter: the network, the extension's page API, the password box, the
  authenticator and the draws of randomness, each a step of an outside world. Operations run to
  their end; a rerender's effect runs where its cause is.
\<close>

subsection \<open>The client and its outside\<close>

record web_request =
  rq_method :: string
  rq_url :: string
  rq_token :: "jsval option"
  rq_body :: "jsval option"

text \<open>A response's status, and what \<open>res.json()\<close> gives, unless it rejects.\<close>

record web_response =
  rs_status :: int
  rs_json :: "jsval option"

record draws =
  dr_env :: web_env
  dr_seal :: "(bytes \<times> bytes) \<times> bytes"
  dr_bytes :: bytes

record 'w outside =
  ou_prims :: prims
  ou_base :: string
  ou_origin :: string
  ou_fetch :: "web_request \<Rightarrow> ('w, web_response) act"
  ou_extension :: "string \<Rightarrow> jsval list \<Rightarrow> ('w, jsval) act"
  ou_has :: "string \<Rightarrow> bool"
  ou_prompt :: "string \<Rightarrow> ('w, string) act"
  ou_authenticator :: authenticator
  ou_draw :: "'w \<Rightarrow> draws \<times> 'w"

text \<open>The two contexts' state: the session of \<open>AuthContext\<close>, a user and a token, and what
  \<open>PQCContext\<close> keeps.\<close>

record 'w client =
  cl_vault :: web_state
  cl_session :: "(jsval \<times> jsval) option"
  cl_account :: "string option"
  cl_identityKey :: "string option"
  cl_encryptionKey :: "string option"
  cl_extension :: bool
  cl_hasLocalVault :: bool
  cl_biometrics :: bool
  cl_world :: 'w

type_synonym ('w, 'a) op = "('w client, 'a) act"

definition in_world :: "('w, 'a) act \<Rightarrow> ('w, 'a) op" where
  "in_world m = (\<lambda>s. case m (cl_world s) of (r, w) \<Rightarrow> (r, s\<lparr>cl_world := w\<rparr>))"

definition drawn :: "'w outside \<Rightarrow> ('w, draws) op" where
  "drawn O' = (\<lambda>s. case ou_draw O' (cl_world s) of (d, w) \<Rightarrow>
     (Ok (d\<lparr>dr_env := (dr_env d)\<lparr>we_prims := ou_prims O'\<rparr>\<rparr>), s\<lparr>cl_world := w\<rparr>))"

definition on_vault :: "'a web \<Rightarrow> ('w, 'a) op" where
  "on_vault m = (\<lambda>s. case m (cl_vault s) of (r, v) \<Rightarrow> (r, s\<lparr>cl_vault := v\<rparr>))"

definition in_vault :: "'w outside \<Rightarrow> (web_env \<Rightarrow> 'a web) \<Rightarrow> ('w, 'a) op" where
  "in_vault O' m = andThen (drawn O') (\<lambda>d. on_vault (m (dr_env d)))"

definition ext :: "'w outside \<Rightarrow> string \<Rightarrow> jsval list \<Rightarrow> ('w, jsval) op" where
  "ext O' name args = in_world (ou_extension O' name args)"

definition map_op :: "('a \<Rightarrow> 'b) \<Rightarrow> ('w, 'a) op \<Rightarrow> ('w, 'b) op" where
  "map_op f m = andThen m (\<lambda>x. ret (f x))"

subsection \<open>The session\<close>

definition authLogin :: "jsval \<Rightarrow> jsval \<Rightarrow> 'w client \<Rightarrow> 'w client" where
  "authLogin user token s = s\<lparr>cl_session := Some (user, token)\<rparr>"

text \<open>Logging out, and the effect that a change of \<open>authType\<close> runs.\<close>

definition authLogout :: "'w client \<Rightarrow> 'w client" where
  "authLogout s =
     (if cl_session s = None then s
      else s\<lparr>cl_session := None, cl_account := None, cl_identityKey := None, cl_encryptionKey := None,
             cl_vault := clearKeyCache (cl_vault s)\<rparr>)"

definition updateUser :: "jsval \<Rightarrow> 'w client \<Rightarrow> 'w client" where
  "updateUser user s = s\<lparr>cl_session := map_option (\<lambda>(_, token). (user, token)) (cl_session s)\<rparr>"

definition tab_hidden :: "'w client \<Rightarrow> 'w client" where
  "tab_hidden s = s\<lparr>cl_vault := clearKeyCache (cl_vault s)\<rparr>"

subsection \<open>Requests\<close>

definition describe_one :: "jsval \<Rightarrow> string" where
  "describe_one d =
     (let msg = (if truthy (js_get d ''msg'') then js_str (js_get d ''msg'') else ''invalid value'');
          field = (case js_get d ''loc'' of
              JArr parts \<Rightarrow> join ''.'' (map (\<lambda>p. if is_nullish p then [] else js_str p) (filter (\<lambda>p. p \<noteq> JStr ''body'') parts))
            | _ \<Rightarrow> [])
      in if field = [] then msg else field @ '': '' @ msg)"

definition describeDetail :: "jsval \<Rightarrow> string option" where
  "describeDetail detail =
     (case detail of
        JStr t \<Rightarrow> Some t
      | JArr ds \<Rightarrow> Some (join ''; '' (filter (\<lambda>t. t \<noteq> []) (map describe_one ds)))
      | _ \<Rightarrow> None)"

definition rs_ok :: "web_response \<Rightarrow> bool" where
  "rs_ok r \<longleftrightarrow> 200 \<le> rs_status r \<and> rs_status r \<le> 299"

definition plain_fetch :: "'w outside \<Rightarrow> string \<Rightarrow> string \<Rightarrow> jsval option \<Rightarrow> ('w, web_response) op" where
  "plain_fetch O' verb url body =
     in_world (ou_fetch O' \<lparr>rq_method = verb, rq_url = url, rq_token = None, rq_body = body\<rparr>)"

text \<open>\<open>apiFetch\<close> with \<open>raw: true\<close>. The handler of a 401 is the session's logout.\<close>

definition apiRaw :: "'w outside \<Rightarrow> string \<Rightarrow> string \<Rightarrow> jsval option \<Rightarrow> ('w, web_response) op" where
  "apiRaw O' verb url body =
     (if body \<noteq> None \<and> the_str (the body) \<noteq> None then
        fail (JsTypeError ''apiFetch encodes the body for you - pass the object, not JSON.stringify(...)'')
      else
        andThen (\<lambda>s. in_world (ou_fetch O'
          \<lparr>rq_method = verb, rq_url = url, rq_token = map_option snd (cl_session s), rq_body = body\<rparr>) s) (\<lambda>r.
        andThen (updates (\<lambda>s. if rs_status r = 401 then authLogout s else s)) (\<lambda>_. ret r)))"

definition api_error :: "web_response \<Rightarrow> js_error" where
  "api_error r =
     (let err = (case rs_json r of None \<Rightarrow> JObj [] | Some v \<Rightarrow> v);
          fallback = ''Request failed: '' @ int_str (rs_status r)
      in if is_nullish err then JsTypeError ''Cannot read properties of null''
         else case describeDetail (js_get err ''detail'') of
             None \<Rightarrow> PlainError fallback
           | Some t \<Rightarrow> PlainError (if t = [] then fallback else t))"

definition apiFetch :: "'w outside \<Rightarrow> string \<Rightarrow> string \<Rightarrow> jsval option \<Rightarrow> ('w, jsval) op" where
  "apiFetch O' verb url body =
     andThen (apiRaw O' verb url body) (\<lambda>r.
       if \<not> rs_ok r then fail (api_error r)
       else if rs_status r = 204 then ret JNull
       else ret (case rs_json r of None \<Rightarrow> JNull | Some v \<Rightarrow> v))"

subsection \<open>Paging\<close>

definition PAGE_SIZE :: nat where
  "PAGE_SIZE = 100"

definition MAX_PAGES :: nat where
  "MAX_PAGES = 500"

definition pageUrl :: "string \<Rightarrow> nat \<Rightarrow> nat \<Rightarrow> string" where
  "pageUrl url limit offset =
     url @ (if CHR ''?'' \<in> set url then ''&'' else ''?'') @ ''limit='' @ nat_str limit @ ''&offset='' @ nat_str offset"

text \<open>The loop of \<open>fetchAllPages\<close>, with the number of pages it may still ask for.\<close>

fun fetch_pages :: "(nat \<Rightarrow> nat \<Rightarrow> ('s, jsval) act) \<Rightarrow> nat \<Rightarrow> nat \<Rightarrow> nat \<Rightarrow> jsval list \<Rightarrow> ('s, jsval list) act" where
  "fetch_pages fetchPage pageSize 0 page found = ret found"
| "fetch_pages fetchPage pageSize (Suc n) page found =
     andThen (fetchPage pageSize (page * pageSize)) (\<lambda>rows.
       case array_of rows of
         None \<Rightarrow> ret found
       | Some xs \<Rightarrow>
           if length xs < pageSize then ret (found @ xs)
           else fetch_pages fetchPage pageSize n (Suc page) (found @ xs))"

definition fetchAllPages :: "(nat \<Rightarrow> nat \<Rightarrow> ('s, jsval) act) \<Rightarrow> nat \<Rightarrow> ('s, jsval list) act" where
  "fetchAllPages fetchPage pageSize = fetch_pages fetchPage pageSize MAX_PAGES 0 []"

subsection \<open>Asking for the password\<close>

text \<open>\<open>None\<close> is the \<open>null\<close> that leaves the work to the cached key.\<close>

definition prompt_user :: "'w outside \<Rightarrow> string \<Rightarrow> ('w, string option) op" where
  "prompt_user O' message = map_op Some (in_world (ou_prompt O' message))"

definition requestPassword :: "'w outside \<Rightarrow> string \<Rightarrow> bool \<Rightarrow> ('w, string option) op" where
  "requestPassword O' message forcePrompt = (\<lambda>s.
     if \<not> forcePrompt \<and> hasCachedKey (cl_vault s) then (Ok None, s)
     else if cl_biometrics s \<and> \<not> forcePrompt then
       (case recoverPassword (ou_prims O') (ou_authenticator O') (cl_vault s) of
          Inr p \<Rightarrow> (Ok (Some p), s)
        | Inl _ \<Rightarrow> prompt_user O' message s)
     else prompt_user O' message s)"

definition not_ready :: js_error where
  "not_ready = PlainError ''PQC Provider not ready (Locked or Missing)''"

definition withCustody ::
  "'w outside \<Rightarrow> ('w, 'a) op \<Rightarrow> (string option \<Rightarrow> ('w, 'a) op) \<Rightarrow> string option \<Rightarrow> bool \<Rightarrow> ('w, 'a) op" where
  "withCustody O' viaExtension viaVault prompt forcePrompt = (\<lambda>s.
     if cl_extension s then viaExtension s
     else if \<not> ws_isLocked (cl_vault s) then
       (case prompt of
          None \<Rightarrow> viaVault None s
        | Some ask \<Rightarrow> andThen (requestPassword O' ask forcePrompt) viaVault s)
     else (Throw not_ready, s))"

definition adoptIdentity :: "'w outside \<Rightarrow> string \<Rightarrow> string \<Rightarrow> ('w, unit) op" where
  "adoptIdentity O' identityKey encryptionKey =
     andThen (lift_res (addressOf (ou_prims O') (JStr identityKey))) (\<lambda>a.
       updates (\<lambda>s. s\<lparr>cl_account := Some a, cl_identityKey := Some identityKey, cl_encryptionKey := Some encryptionKey\<rparr>))"

subsection \<open>Private-key operations\<close>

definition pqc_generateSessionKey :: "'w outside \<Rightarrow> ('w, jsval) op" where
  "pqc_generateSessionKey O' =
     withCustody O' (ext O' ''generateSessionKey'' [])
       (\<lambda>_. andThen (drawn O') (\<lambda>d. ret (JStr (generateSessionKey (dr_bytes d))))) None False"

definition pqc_wrapSessionKey :: "'w outside \<Rightarrow> jsval \<Rightarrow> jsval \<Rightarrow> ('w, jsval) op" where
  "pqc_wrapSessionKey O' sessionKey publicKey =
     withCustody O' (ext O' ''wrapSessionKey'' [sessionKey, publicKey])
       (\<lambda>_. andThen (drawn O') (\<lambda>d. lift_res (wrapSessionKey (ou_prims O') (dr_seal d) sessionKey publicKey))) None False"

definition pqc_unwrapSessionKey :: "'w outside \<Rightarrow> jsval \<Rightarrow> ('w, jsval) op" where
  "pqc_unwrapSessionKey O' wrappedKey =
     withCustody O' (ext O' ''unwrapSessionKey'' [wrappedKey])
       (\<lambda>password. map_op JStr (in_vault O' (\<lambda>E. web_unwrapSessionKey E wrappedKey password)))
       (Some ''Enter password to unwrap session key:'') False"

text \<open>Without the batch call the extension is asked key by key.\<close>

fun ext_each :: "'w outside \<Rightarrow> string \<Rightarrow> jsval list \<Rightarrow> ('w, jsval list) op" where
  "ext_each O' name [] = ret []"
| "ext_each O' name (x # xs) =
     andThen (ext O' name [x]) (\<lambda>y. andThen (ext_each O' name xs) (\<lambda>ys. ret (y # ys)))"

definition pqc_unwrapMany :: "'w outside \<Rightarrow> jsval list \<Rightarrow> ('w, jsval) op" where
  "pqc_unwrapMany O' wrappedKeys =
     withCustody O'
       (if ou_has O' ''unwrapManySessionKeys'' then ext O' ''unwrapManySessionKeys'' [JArr wrappedKeys]
        else map_op JArr (ext_each O' ''unwrapSessionKey'' wrappedKeys))
       (\<lambda>password. map_op JArr (in_vault O' (\<lambda>E. web_unwrapMany E wrappedKeys password)))
       (Some ''Enter password to unlock session keys (Batch):'') False"

text \<open>An empty key is no key.\<close>

definition some_key :: "string option \<Rightarrow> string option" where
  "some_key k = (case k of None \<Rightarrow> None | Some t \<Rightarrow> if t = [] then None else Some t)"

definition pqc_encrypt :: "'w outside \<Rightarrow> string \<Rightarrow> string option \<Rightarrow> ('w, jsval) op" where
  "pqc_encrypt O' content publicKey = (\<lambda>s.
     let target = (case some_key publicKey of None \<Rightarrow> cl_encryptionKey s | k \<Rightarrow> k)
     in if cl_extension s then
          ext O' ''encrypt'' [JStr content, case target of None \<Rightarrow> JNull | Some k \<Rightarrow> JStr k] s
        else if some_key publicKey = None \<and> ws_isLocked (cl_vault s) then (Throw not_ready, s)
        else case some_key target of
            None \<Rightarrow> (Throw (PlainError ''No encryption key available''), s)
          | Some k \<Rightarrow>
              andThen (drawn O') (\<lambda>d. lift_res (encryptMessage (ou_prims O') (dr_seal d) content (JStr k))) s)"

definition pqc_sign :: "'w outside \<Rightarrow> string \<Rightarrow> ('w, jsval) op" where
  "pqc_sign O' message =
     withCustody O' (ext O' ''sign'' [JStr message])
       (\<lambda>password. map_op JStr (in_vault O' (\<lambda>E. web_sign E message password)))
       (Some ''Enter password to sign document:'') False"

text \<open>A signature over a body that is built first; building it may throw.\<close>

definition sign_body :: "'w outside \<Rightarrow> string res \<Rightarrow> string option \<Rightarrow> ('w, jsval) op" where
  "sign_body O' body password =
     andThen (lift_res body) (\<lambda>b. map_op JStr (in_vault O' (\<lambda>E. web_sign E b password)))"

definition deletion_args :: "deletion_fields \<Rightarrow> jsval" where
  "deletion_args f = JObj
     [(''nonce'', df_nonce f), (''mode'', df_mode f), (''redactionKeys'', JArr (map JStr (df_redactionKeys f))),
      (''deployment'', df_deployment f)]"

definition signDeletion :: "'w outside \<Rightarrow> deletion_fields \<Rightarrow> ('w, jsval) op" where
  "signDeletion O' f =
     withCustody O' (ext O' ''signAccountDeletion'' [deletion_args f])
       (sign_body O' (accountDeletionBody (ou_prims O') f))
       (Some ''Enter your vault password to confirm deleting this account:'') True"

definition erase_args :: "erase_fields \<Rightarrow> jsval" where
  "erase_args f = JObj
     [(''nonce'', ef_nonce f), (''kind'', ef_kind f), (''conversation'', ef_conversation f),
      (''redactionKeys'', JArr (map JStr (ef_redactionKeys f))), (''deployment'', ef_deployment f)]"

definition signConversationErase :: "'w outside \<Rightarrow> erase_fields \<Rightarrow> ('w, jsval) op" where
  "signConversationErase O' f =
     withCustody O' (ext O' ''signConversationErase'' [erase_args f])
       (sign_body O' (conversationEraseBody (ou_prims O') f))
       (Some ''Enter your vault password to confirm erasing your messages in this conversation:'') True"

definition signApproval :: "'w outside \<Rightarrow> jsval \<Rightarrow> jsval \<Rightarrow> string \<Rightarrow> ('w, jsval) op" where
  "signApproval O' workflowId secretId digest =
     withCustody O'
       (ext O' ''signMultisigApproval''
         [JObj [(''workflowId'', workflowId), (''secretId'', secretId), (''ciphertextSha384'', JStr digest)]])
       (sign_body O' (Ok (multisigApprovalMessage (js_str workflowId) (js_str secretId) digest)))
       (Some ''Enter password to approve this workflow:'') False"

definition pqc_signMessage :: "'w outside \<Rightarrow> string \<Rightarrow> ('w, jsval) op" where
  "pqc_signMessage O' body = (\<lambda>s.
     withCustody O' (ext O' ''signMessage'' [JStr body])
       (\<lambda>password. map_op JStr (in_vault O' (\<lambda>E. web_signMessage E body password)))
       (if ws_signingKey (cl_vault s) \<noteq> None then None else Some ''Enter password to enable secure messaging:'') False s)"

definition pqc_decrypt :: "'w outside \<Rightarrow> jsval \<Rightarrow> ('w, jsval) op" where
  "pqc_decrypt O' env =
     withCustody O' (ext O' ''decrypt'' [env])
       (\<lambda>password. map_op JStr (in_vault O' (\<lambda>E. web_decrypt E env password)))
       (Some ''Enter password to decrypt data:'') False"

definition failed_text :: jsval where
  "failed_text = JStr ''Error: Decryption Failed''"

fun ext_decrypts :: "'w outside \<Rightarrow> jsval list \<Rightarrow> ('w, jsval list) op" where
  "ext_decrypts O' [] = ret []"
| "ext_decrypts O' (x # xs) =
     andThen (catches (ext O' ''decrypt'' [x]) (\<lambda>_. ret failed_text)) (\<lambda>y.
     andThen (ext_decrypts O' xs) (\<lambda>ys. ret (y # ys)))"

definition decryptManyViaExtension :: "'w outside \<Rightarrow> jsval list \<Rightarrow> ('w, jsval) op" where
  "decryptManyViaExtension O' envs =
     (if ou_has O' ''decryptMany'' then
        andThen (ext O' ''decryptMany'' [JArr envs]) (\<lambda>r.
          lift_res (case array_of r of
              None \<Rightarrow> Throw (JsTypeError ''results.map is not a function'')
            | Some rs \<Rightarrow> Ok (JArr (map (\<lambda>r. if r = JNull then failed_text else r) rs))))
      else map_op JArr (ext_decrypts O' envs))"

definition pqc_decryptMany :: "'w outside \<Rightarrow> jsval list \<Rightarrow> ('w, jsval) op" where
  "pqc_decryptMany O' envs =
     withCustody O' (decryptManyViaExtension O' envs)
       (\<lambda>password. map_op (\<lambda>ts. JArr (map JStr ts)) (in_vault O' (\<lambda>E. web_decryptMany E envs password)))
       (Some (''Enter password to decrypt '' @ nat_str (length envs) @ '' messages:'')) False"

end
