(* ===== verification/WebFlows.thy ===== *)
theory WebFlows
  imports WebClient
begin

text \<open>
  The flows of \<open>context/PQCContext.jsx\<close> over the custody operations: signing in, the accounts of
  the local vault, replacing the encryption key and moving every held key onto the new one, and
  erasing an account or a conversation in signed rounds.
\<close>

subsection \<open>Endpoints\<close>

definition NONCE :: "'w outside \<Rightarrow> string \<Rightarrow> string" where
  "NONCE O' address = ou_base O' @ ''/auth/nonce/'' @ address"

definition LOGIN :: "'w outside \<Rightarrow> string" where
  "LOGIN O' = ou_base O' @ ''/auth/login''"

definition REDACTABLE :: "'w outside \<Rightarrow> string" where
  "REDACTABLE O' = ou_base O' @ ''/account/redactable-messages''"

definition DELETE_ACCOUNT :: "'w outside \<Rightarrow> string" where
  "DELETE_ACCOUNT O' = ou_base O' @ ''/account/delete''"

definition ROTATE_KEY :: "'w outside \<Rightarrow> string" where
  "ROTATE_KEY O' = ou_base O' @ ''/account/encryption-key/rotate''"

definition STALE_WRAPS :: "'w outside \<Rightarrow> nat \<Rightarrow> nat \<Rightarrow> string" where
  "STALE_WRAPS O' offset limit =
     ou_base O' @ ''/account/encryption-key/stale-wraps?offset='' @ nat_str offset @ ''&limit='' @ nat_str limit"

definition REWRAP :: "'w outside \<Rightarrow> string" where
  "REWRAP O' = ou_base O' @ ''/account/encryption-key/wraps''"

definition CONV_REDACTABLE :: "'w outside \<Rightarrow> string \<Rightarrow> string \<Rightarrow> string" where
  "CONV_REDACTABLE O' kind conversation =
     ou_base O' @ ''/conversations/'' @ kind @ ''/'' @ conversation @ ''/redactable-messages''"

definition CONV_ERASE :: "'w outside \<Rightarrow> string \<Rightarrow> string \<Rightarrow> string" where
  "CONV_ERASE O' kind conversation = ou_base O' @ ''/conversations/'' @ kind @ ''/'' @ conversation @ ''/erase''"

subsection \<open>Signing in\<close>

text \<open>A nonce and the deployment it comes with. \<open>await nonceRes.json()\<close> rejects for a body that is
  not JSON; destructuring null throws.\<close>

definition json_of :: "web_response \<Rightarrow> jsval res" where
  "json_of r =
     (case rs_json r of
        None \<Rightarrow> Throw SyntaxError
      | Some v \<Rightarrow> if is_nullish v then Throw (JsTypeError ''Cannot destructure property'') else Ok v)"

definition fetch_nonce :: "'w outside \<Rightarrow> string \<Rightarrow> ('w, jsval \<times> jsval) op" where
  "fetch_nonce O' address =
     andThen (plain_fetch O' ''GET'' (NONCE O' address) None) (\<lambda>r.
     andThen (guards (rs_ok r) (PlainError ''Failed to fetch nonce'')) (\<lambda>_.
     andThen (lift_res (json_of r)) (\<lambda>v. ret (js_get v ''nonce'', js_get v ''deployment''))))"

text \<open>\<open>null\<close> fields stay in the posted object, \<open>undefined\<close> ones drop out of its JSON.\<close>

definition opt_js :: "string option \<Rightarrow> jsval" where
  "opt_js t = (case t of None \<Rightarrow> JNull | Some x \<Rightarrow> JStr x)"

definition or_undef :: "jsval \<Rightarrow> jsval" where
  "or_undef v = (if truthy v then v else JUndef)"

definition login_error :: "web_response \<Rightarrow> js_error" where
  "login_error r =
     (let detail = (case rs_json r of None \<Rightarrow> JUndef | Some v \<Rightarrow> js_get v ''detail'')
      in PlainError (if truthy detail then js_str detail else ''Login failed ('' @ int_str (rs_status r) @ '')''))"

text \<open>The code the screen reads beside the message.\<close>

definition login_code :: "web_response \<Rightarrow> string option" where
  "login_code r =
     (if rs_status r = 403 then Some ''INVITE_REQUIRED''
      else if rs_status r = 410 then Some ''ACCOUNT_DELETED'' else None)"

definition login_request ::
  "string \<Rightarrow> string \<Rightarrow> jsval \<Rightarrow> login_fields \<Rightarrow> jsval \<Rightarrow> jsval \<Rightarrow> string option \<Rightarrow> jsval" where
  "login_request address identityKey signature f attestation username inviteCode = JObj
     [(''address'', JStr address), (''identity_public_key'', JStr identityKey), (''signature'', signature),
      (''nonce'', lf_nonce f), (''origin'', lf_origin f), (''deployment'', lf_deployment f),
      (''encryption_public_key'', lf_encryptionKey f), (''encryption_key_attestation'', or_undef attestation),
      (''username'', username), (''invite_code'', or_undef (opt_js inviteCode))]"

text \<open>\<open>signLogin\<close> and \<open>attestFn\<close> are the custody path's.\<close>

definition performServerLogin ::
  "'w outside \<Rightarrow> string \<Rightarrow> string \<Rightarrow> (login_fields \<Rightarrow> ('w, jsval) op) \<Rightarrow> jsval \<Rightarrow> string option \<Rightarrow>
     (attestation_fields \<Rightarrow> ('w, jsval) op) \<Rightarrow> ('w, jsval) op" where
  "performServerLogin O' identityKey encryptionKey signLogin username inviteCode attestFn =
     andThen (lift_res (addressOf (ou_prims O') (JStr identityKey))) (\<lambda>address.
     andThen (fetch_nonce O' address) (\<lambda>(nonce, deployment).
     let f = \<lparr>lf_nonce = nonce, lf_origin = JStr (ou_origin O'), lf_deployment = deployment,
              lf_encryptionKey = JStr encryptionKey\<rparr>
     in andThen (signLogin f) (\<lambda>signature.
        andThen (if encryptionKey = [] then ret JNull
                 else attestFn \<lparr>af_address = JStr address, af_encryptionPublicKey = JStr encryptionKey\<rparr>) (\<lambda>attestation.
        andThen (plain_fetch O' ''POST'' (LOGIN O')
          (Some (login_request address identityKey signature f attestation username inviteCode))) (\<lambda>r.
          if rs_ok r then
            andThen (lift_res (json_of r)) (\<lambda>data.
            andThen (updates (authLogin (js_get data ''user'') (js_get data ''access_token''))) (\<lambda>_.
              ret (js_get data ''user'')))
          else fail (login_error r))))))"

definition vaultSignLogin :: "'w outside \<Rightarrow> string option \<Rightarrow> login_fields \<Rightarrow> ('w, jsval) op" where
  "vaultSignLogin O' password f = sign_body O' (loginChallengeBody f) password"

definition vaultAttest :: "'w outside \<Rightarrow> string option \<Rightarrow> attestation_fields \<Rightarrow> ('w, jsval) op" where
  "vaultAttest O' password f = sign_body O' (encryptionKeyAttestationBody f) password"

definition vault_login :: "'w outside \<Rightarrow> string option \<Rightarrow> public_account \<Rightarrow> string \<Rightarrow> string option \<Rightarrow> ('w, jsval) op" where
  "vault_login O' password a username inviteCode =
     andThen (adoptIdentity O' (pa_identityKey a) (pa_encryptionKey a)) (\<lambda>_.
       performServerLogin O' (pa_identityKey a) (pa_encryptionKey a) (vaultSignLogin O' password) (JStr username)
         inviteCode (vaultAttest O' password))"

definition active_now :: "('w, public_account) op" where
  "active_now = (\<lambda>s. (opt_res (JsTypeError ''Cannot read properties of null'') (web_activeAccount (cl_vault s)), s))"

definition vault_unlock :: "'w outside \<Rightarrow> string \<Rightarrow> ('w, bool) op" where
  "vault_unlock O' password = in_vault O' (\<lambda>E. web_unlock (we_prims E) (we_now E) password)"

definition loginLocalVault :: "'w outside \<Rightarrow> string \<Rightarrow> string option \<Rightarrow> ('w, jsval) op" where
  "loginLocalVault O' password inviteCode =
     andThen (vault_unlock O' password) (\<lambda>success.
     andThen (guards success (PlainError ''Incorrect password'')) (\<lambda>_.
     andThen active_now (\<lambda>a. vault_login O' (Some password) a (pa_name a) inviteCode)))"

text \<open>A vault that was made or brought in, then the sign-in with it.\<close>

definition login_new_vault :: "'w outside \<Rightarrow> string option \<Rightarrow> (public_account \<Rightarrow> string) \<Rightarrow> string option \<Rightarrow>
    ('w, public_account) op \<Rightarrow> ('w, jsval) op" where
  "login_new_vault O' password name inviteCode making =
     andThen making (\<lambda>a.
     andThen (updates (\<lambda>s. s\<lparr>cl_hasLocalVault := True\<rparr>)) (\<lambda>_. vault_login O' password a (name a) inviteCode))"

definition createLocalVault :: "'w outside \<Rightarrow> string \<Rightarrow> string option \<Rightarrow> string option \<Rightarrow> ('w, jsval) op" where
  "createLocalVault O' name password inviteCode =
     login_new_vault O' password (\<lambda>_. name) inviteCode (in_vault O' (\<lambda>E. web_setup E name password))"

definition importLocalVault :: "'w outside \<Rightarrow> string \<Rightarrow> string option \<Rightarrow> string option \<Rightarrow> ('w, jsval) op" where
  "importLocalVault O' json password inviteCode =
     login_new_vault O' password pa_name inviteCode (in_vault O' (\<lambda>E. importNewVault E json password))"

definition receiveVault :: "'w outside \<Rightarrow> string \<Rightarrow> string \<Rightarrow> string option \<Rightarrow> string option \<Rightarrow> ('w, jsval) op" where
  "receiveVault O' blob passphrase password inviteCode =
     login_new_vault O' password pa_name inviteCode (in_vault O' (\<lambda>E. importEncryptedBlob E blob passphrase password))"

definition loginTrustKeys :: "'w outside \<Rightarrow> string option \<Rightarrow> ('w, jsval) op" where
  "loginTrustKeys O' inviteCode =
     andThen (\<lambda>s. guards (cl_extension s) (PlainError ''Extension not found'') s) (\<lambda>_.
     andThen (ext O' ''connect'' []) (\<lambda>connected.
     andThen (guards (truthy connected) (PlainError ''Connection request rejected.'')) (\<lambda>_.
     andThen (if ou_has O' ''handshake'' then ext O' ''handshake'' [] else ret JUndef) (\<lambda>_.
     andThen (ext O' ''getAccount'' []) (\<lambda>acc.
       case (js_get acc ''identityPublicKey'', js_get acc ''encryptionPublicKey'') of
         (JStr identityKey, JStr encryptionKey) \<Rightarrow>
           andThen (adoptIdentity O' identityKey encryptionKey) (\<lambda>_.
             performServerLogin O' identityKey encryptionKey
               (\<lambda>f. ext O' ''signLogin'' [JObj [(''nonce'', lf_nonce f), (''deployment'', lf_deployment f)]])
               (js_get acc ''name'') inviteCode (\<lambda>_. ext O' ''getKeyAttestation'' []))
       | _ \<Rightarrow> fail OutOfModel)))))"

definition unlockWithBiometrics :: "'w outside \<Rightarrow> ('w, jsval) op" where
  "unlockWithBiometrics O' = (\<lambda>s.
     andThen (lift_res (recoverPassword (ou_prims O') (ou_authenticator O') (cl_vault s))) (\<lambda>password.
     andThen (vault_unlock O' password) (\<lambda>success.
       if \<not> success then
         andThen (updates (\<lambda>s. s\<lparr>cl_vault := disableBiometrics (cl_vault s), cl_biometrics := False\<rparr>)) (\<lambda>_.
           fail (PlainError (''Biometric unlock no longer matches this vault, so it has been turned off. '' @
             ''Sign in with your password, then enable it again.'')))
       else andThen active_now (\<lambda>a. vault_login O' (Some password) a (pa_name a) None))) s)"

definition manageBiometrics :: "'w outside \<Rightarrow> bytes \<times> bytes \<Rightarrow> bool \<Rightarrow> ('w, jsval) op" where
  "manageBiometrics O' rnd enable =
     (if enable then
        andThen (requestPassword O' ''Enter password to ENABLE FaceID/TouchID:'' True) (\<lambda>password.
        andThen (in_vault O' (\<lambda>E. enableBiometrics E (ou_authenticator O') rnd password)) (\<lambda>mode.
        andThen (updates (\<lambda>s. s\<lparr>cl_biometrics := True\<rparr>)) (\<lambda>_. ret (JStr mode))))
      else
        andThen (updates (\<lambda>s. s\<lparr>cl_vault := disableBiometrics (cl_vault s), cl_biometrics := False\<rparr>)) (\<lambda>_. ret JUndef))"

subsection \<open>The accounts of the local vault\<close>

definition addVaultAccount :: "'w outside \<Rightarrow> string \<Rightarrow> ('w, public_account) op" where
  "addVaultAccount O' name =
     andThen (requestPassword O' ''Enter password to create new account:'' False) (\<lambda>password.
       in_vault O' (\<lambda>E. addAccount E name password))"

definition switchVaultAccount :: "'w outside \<Rightarrow> string \<Rightarrow> ('w, public_account) op" where
  "switchVaultAccount O' aid =
     andThen (requestPassword O' ''Enter password to switch account:'' False) (\<lambda>password.
     andThen (in_vault O' (\<lambda>E. switchAccount E aid password)) (\<lambda>a.
     andThen (adoptIdentity O' (pa_identityKey a) (pa_encryptionKey a)) (\<lambda>_.
     andThen (updates authLogout) (\<lambda>_. ret a))))"

text \<open>Takes on the vault's active account, when there is one.\<close>

definition adopt_active :: "'w outside \<Rightarrow> ('w, unit) op" where
  "adopt_active O' = (\<lambda>s. (case web_activeAccount (cl_vault s) of
       None \<Rightarrow> ret ()
     | Some a \<Rightarrow> adoptIdentity O' (pa_identityKey a) (pa_encryptionKey a)) s)"

definition deleteVaultAccount :: "'w outside \<Rightarrow> string \<Rightarrow> ('w, unit) op" where
  "deleteVaultAccount O' aid =
     andThen (requestPassword O' ''Enter password to DELETE account:'' False) (\<lambda>password.
     andThen (in_vault O' (\<lambda>E. web_deleteAccount E aid password)) (\<lambda>_. adopt_active O'))"

definition pqc_exportVault :: "'w outside \<Rightarrow> ('w, string) op" where
  "pqc_exportVault O' =
     andThen (requestPassword O' ''Enter password to EXPORT vault:'' False) (\<lambda>password.
       in_vault O' (\<lambda>E. exportVault E password))"

definition pqc_importVault :: "'w outside \<Rightarrow> string \<Rightarrow> string option \<Rightarrow> ('w, nat) op" where
  "pqc_importVault O' json passphrase =
     andThen (requestPassword O' ''Enter password to IMPORT vault:'' False) (\<lambda>password.
       in_vault O' (\<lambda>E. web_importVault E json password passphrase))"

definition pqc_exportEncryptedVault :: "'w outside \<Rightarrow> string option \<Rightarrow> ('w, string) op" where
  "pqc_exportEncryptedVault O' passphrase =
     andThen (requestPassword O' ''Enter your vault password to export:'' False) (\<lambda>password.
       in_vault O' (\<lambda>E. exportEncryptedBlob E passphrase password))"

definition discardOldVault :: "'w client \<Rightarrow> 'w client" where
  "discardOldVault s = s\<lparr>cl_vault := wipeVault (cl_vault s), cl_hasLocalVault := False\<rparr>"

definition vaultHoldsCurrentIdentity :: "'w client \<Rightarrow> bool" where
  "vaultHoldsCurrentIdentity s \<longleftrightarrow>
     (let held = (case web_activeAccount (cl_vault s) of None \<Rightarrow> [] | Some a \<Rightarrow> to_lower (pa_id a))
      in held \<noteq> [] \<and> held = (case cl_account s of None \<Rightarrow> [] | Some a \<Rightarrow> to_lower a))"

definition forgetLocalIdentity :: "'w outside \<Rightarrow> string option \<Rightarrow> ('w, string) op" where
  "forgetLocalIdentity O' given_password = (\<lambda>s.
     if \<not> vaultHoldsCurrentIdentity s then (Ok ''none'', s)
     else if 1 < length (web_accounts (cl_vault s)) then
       andThen active_now (\<lambda>a.
       andThen (case given_password of
           Some pw \<Rightarrow> ret (Some pw)
         | None \<Rightarrow> requestPassword O' ''Enter your vault password to remove this identity:'' False) (\<lambda>pw.
       andThen (in_vault O' (\<lambda>E. web_deleteAccount E (pa_id a) pw)) (\<lambda>_.
       andThen (adopt_active O') (\<lambda>_. ret ''identity'')))) s
     else
       (Ok ''vault'', s\<lparr>cl_vault := wipeVault (cl_vault s), cl_hasLocalVault := False, cl_biometrics := False\<rparr>))"

end
