(* ===== verification/WebRounds.thy ===== *)
theory WebRounds
  imports WebFlows
begin

text \<open>
  The flows of \<open>context/PQCContext.jsx\<close> that go in rounds with the server: erasing an account or a
  conversation (a page-wise read of what must be re-signed, a signed request, again until the server
  says done), and replacing the encryption key and re-wrapping every held key to the new one.
\<close>

subsection \<open>Reading a round\<close>

definition REDACTION_ROUND :: nat where
  "REDACTION_ROUND = 1000"

definition MAX_REDACTION_ROUNDS :: nat where
  "MAX_REDACTION_ROUNDS = 50"

text \<open>The loop, over the request for one page at a limit and an offset. It ends because a page as long as the
  limit, and not empty, has brought it nearer the round.\<close>

function read_round :: "(nat \<Rightarrow> nat \<Rightarrow> ('s, jsval) act) \<Rightarrow> jsval list \<Rightarrow> ('s, jsval list) act" where
  "read_round fetchPage rows s =
     (if length rows < REDACTION_ROUND then
        let limit = min PAGE_SIZE (REDACTION_ROUND - length rows)
        in case fetchPage limit (length rows) s of
            (Inl e, t) \<Rightarrow> (Inl e, t)
          | (Inr got, t) \<Rightarrow>
              (case array_of got of
                 None \<Rightarrow> (Ok rows, t)
               | Some xs \<Rightarrow>
                   if xs = [] then (Ok rows, t)
                   else if length xs < limit then (Ok (rows @ xs), t)
                   else read_round fetchPage (rows @ xs) t)
      else (Ok rows, s))"
  by pat_completeness auto
termination
  by (relation "measure (\<lambda>(_, rows, _). REDACTION_ROUND - length rows)") (auto simp: neq_Nil_conv)

declare read_round.simps [simp del]

definition readRedactionRound :: "'w outside \<Rightarrow> string \<Rightarrow> ('w, jsval list) op" where
  "readRedactionRound O' manifestUrl =
     read_round (\<lambda>limit offset. apiFetch O' ''GET'' (pageUrl manifestUrl limit offset) None) []"

subsection \<open>Signing a round\<close>

definition redaction_body :: "'w outside \<Rightarrow> string option \<Rightarrow> jsval \<Rightarrow> string res" where
  "redaction_body O' account row = messageSigningBody (ou_prims O')
     \<lparr>mf_from = opt_js account, mf_conv = js_get row ''conv'', mf_sid = js_get row ''sid'', mf_ct = JNull,
      mf_gid = js_get row ''gid'', mf_keys = js_get row ''keys'', mf_ts = js_get row ''ts'', mf_seq = js_get row ''seq''\<rparr>"

record redaction =
  rd_key :: jsval
  rd_signature :: jsval

definition signRedaction :: "'w outside \<Rightarrow> jsval \<Rightarrow> ('w, redaction) op" where
  "signRedaction O' row = (\<lambda>s.
     if is_nullish row then (Throw (JsTypeError ''Cannot read properties of null''), s)
     else andThen (lift_res (redaction_body O' (cl_account s) row)) (\<lambda>body.
          andThen (pqc_signMessage O' body) (\<lambda>sig. ret \<lparr>rd_key = js_get row ''key'', rd_signature = sig\<rparr>)) s)"

text \<open>\<open>Promise.all\<close> over the rows, one after the other.\<close>

fun signRedactions :: "'w outside \<Rightarrow> jsval list \<Rightarrow> ('w, redaction list) op" where
  "signRedactions O' [] = ret []"
| "signRedactions O' (row # rows) =
     andThen (signRedaction O' row) (\<lambda>r. andThen (signRedactions O' rows) (\<lambda>rs. ret (r # rs)))"

subsection \<open>One signed round\<close>

text \<open>The summary, or \<open>None\<close> for more to redact first.\<close>

definition roundOutcome :: "web_response \<Rightarrow> redaction list \<Rightarrow> string \<Rightarrow> jsval option res" where
  "roundOutcome res redactions what =
     (let summary = (case rs_json res of None \<Rightarrow> JNull | Some v \<Rightarrow> v)
      in if rs_ok res then
           Ok (Some (if truthy summary then summary
                     else JObj [(''redacted'', JNum (int (length redactions))), (''kept'', JNum 0)]))
         else if rs_status res = 409 \<and> js_get summary ''status'' = JStr ''redacting'' then Ok None
         else if rs_status res = 429 then Throw (PlainError
           (''Too many requests while erasing. Everything removed so far is gone for good - '' @
            ''wait a minute and start again to continue where it stopped.''))
         else Throw (PlainError (if truthy (js_get summary ''detail'') then js_str (js_get summary ''detail'')
                                 else what @ '' failed ('' @ int_str (rs_status res) @ '')'')))"

text \<open>The signed set is made of the keys' texts; a key that is not a text is outside the model.\<close>

definition key_texts :: "redaction list \<Rightarrow> string list res" where
  "key_texts rs = map_res (\<lambda>r. opt_res OutOfModel (the_str (rd_key r))) rs"

definition redactions_js :: "redaction list \<Rightarrow> jsval" where
  "redactions_js rs = JArr (map (\<lambda>r. JObj [(''key'', rd_key r), (''signature'', rd_signature r)]) rs)"

definition session_address :: "'w client \<Rightarrow> string" where
  "session_address s = (case cl_account s of None \<Rightarrow> ''null'' | Some a \<Rightarrow> a)"

definition deletion_request :: "deletion_fields \<Rightarrow> jsval \<Rightarrow> redaction list \<Rightarrow> jsval" where
  "deletion_request f signature redactions = JObj
     [(''mode'', df_mode f), (''nonce'', df_nonce f), (''origin'', df_origin f), (''deployment'', df_deployment f),
      (''signature'', signature), (''redactions'', redactions_js redactions)]"

definition submitDeletion :: "'w outside \<Rightarrow> string \<Rightarrow> redaction list \<Rightarrow> ('w, jsval option) op" where
  "submitDeletion O' mode redactions =
     andThen (\<lambda>s. fetch_nonce O' (session_address s) s) (\<lambda>(nonce, deployment).
     andThen (lift_res (key_texts redactions)) (\<lambda>keys.
     let f = \<lparr>df_nonce = nonce, df_mode = JStr mode, df_redactionKeys = keys,
              df_origin = JStr (ou_origin O'), df_deployment = deployment\<rparr>
     in andThen (signDeletion O' f) (\<lambda>signature.
        andThen (apiRaw O' ''POST'' (DELETE_ACCOUNT O') (Some (deletion_request f signature redactions))) (\<lambda>res.
          lift_res (roundOutcome res redactions ''Deletion'')))))"

definition erase_request :: "erase_fields \<Rightarrow> jsval \<Rightarrow> redaction list \<Rightarrow> jsval" where
  "erase_request f signature redactions = JObj
     [(''nonce'', ef_nonce f), (''origin'', ef_origin f), (''deployment'', ef_deployment f),
      (''signature'', signature), (''redactions'', redactions_js redactions)]"

definition submitErase :: "'w outside \<Rightarrow> string \<Rightarrow> string \<Rightarrow> redaction list \<Rightarrow> ('w, jsval option) op" where
  "submitErase O' kind conversation redactions =
     andThen (\<lambda>s. fetch_nonce O' (session_address s) s) (\<lambda>(nonce, deployment).
     andThen (lift_res (key_texts redactions)) (\<lambda>keys.
     let f = \<lparr>ef_nonce = nonce, ef_kind = JStr kind, ef_conversation = JStr conversation, ef_redactionKeys = keys,
              ef_origin = JStr (ou_origin O'), ef_deployment = deployment\<rparr>
     in andThen (signConversationErase O' f) (\<lambda>signature.
        andThen (apiRaw O' ''POST'' (CONV_ERASE O' kind conversation) (Some (erase_request f signature redactions))) (\<lambda>res.
          lift_res (roundOutcome res redactions ''Erasing'')))))"

subsection \<open>Rounds until the server is done\<close>

text \<open>The loop of \<open>runErase\<close>, with the number of rounds that are left.\<close>

fun erase_rounds ::
  "('s, 'row list) act \<Rightarrow> ('row list \<Rightarrow> ('s, 'r list) act) \<Rightarrow> ('r list \<Rightarrow> ('s, jsval option) act) \<Rightarrow> nat \<Rightarrow> ('s, jsval) act" where
  "erase_rounds readRound signAll submitRound 0 =
     fail (PlainError ''Could not finish erasing: the server keeps asking for more redactions.'')"
| "erase_rounds readRound signAll submitRound (Suc n) =
     andThen readRound (\<lambda>rows.
     andThen (signAll rows) (\<lambda>redactions.
     andThen (submitRound redactions) (\<lambda>summary.
       case summary of
         Some v \<Rightarrow> ret v
       | None \<Rightarrow>
           if rows = [] then
             fail (PlainError ''Could not finish erasing: the server is holding messages this app cannot redact.'')
           else erase_rounds readRound signAll submitRound n)))"

definition runErase :: "'w outside \<Rightarrow> string \<Rightarrow> (redaction list \<Rightarrow> ('w, jsval option) op) \<Rightarrow> ('w, jsval) op" where
  "runErase O' manifestUrl submitRound =
     erase_rounds (readRedactionRound O' manifestUrl) (signRedactions O') submitRound MAX_REDACTION_ROUNDS"

definition eraseConversation :: "'w outside \<Rightarrow> string \<Rightarrow> string \<Rightarrow> ('w, jsval) op" where
  "eraseConversation O' kind conversation =
     runErase O' (CONV_REDACTABLE O' kind conversation) (submitErase O' kind conversation)"

definition deleteServerAccount :: "'w outside \<Rightarrow> string \<Rightarrow> bool \<Rightarrow> ('w, jsval) op" where
  "deleteServerAccount O' mode forgetVault =
     andThen (if mode \<noteq> ''erase'' then
                map_op (\<lambda>r. case r of None \<Rightarrow> JNull | Some v \<Rightarrow> v) (submitDeletion O' mode [])
              else runErase O' (REDACTABLE O') (submitDeletion O' mode)) (\<lambda>summary.
     andThen (if forgetVault \<and> mode = ''erase'' then map_op (\<lambda>_. ()) (forgetLocalIdentity O' None) else ret ()) (\<lambda>_.
     andThen (updates authLogout) (\<lambda>_. ret summary)))"

subsection \<open>Replacing the encryption key\<close>

definition published_js :: "published \<Rightarrow> jsval" where
  "published_js p = JObj
     [(''encryptionPublicKey'', JStr (pb_encryptionPublicKey p)), (''oldKid'', JStr (pb_oldKid p)),
      (''newKid'', JStr (pb_newKid p)), (''attestation'', JStr (pb_attestation p)), (''signature'', JStr (pb_signature p))]"

definition rotateKeyLocally :: "'w outside \<Rightarrow> int \<Rightarrow> ('w, jsval) op" where
  "rotateKeyLocally O' ts =
     withCustody O' (ext O' ''rotateEncryptionKey'' [JObj [(''ts'', JNum ts)]])
       (\<lambda>password. map_op published_js (in_vault O' (\<lambda>E. web_rotateEncryptionKey E password ts)))
       (Some ''Enter your vault password to replace your encryption key:'') True"

definition revertKeyLocally :: "'w outside \<Rightarrow> jsval \<Rightarrow> ('w, unit) op" where
  "revertKeyLocally O' newKid =
     withCustody O' (map_op (\<lambda>_. ()) (ext O' ''revertEncryptionKeyRotation'' [JObj [(''newKid'', newKid)]]))
       (\<lambda>password. andThen (lift_res (opt_res OutOfModel (the_str newKid))) (\<lambda>kid.
          in_vault O' (\<lambda>E. web_revertRotation E password kid)))
       (Some ''Enter your vault password to undo the key replacement:'') False"

definition pqc_destroyRetired :: "'w outside \<Rightarrow> string \<Rightarrow> ('w, unit) op" where
  "pqc_destroyRetired O' kid = (\<lambda>s.
     if cl_extension s then (Throw (PlainError (''Manage the extension'' @ CHR 0x27 # ''s keys from TrustKeys itself.'')), s)
     else andThen (requestPassword O' ''Enter your vault password to destroy this key for good:'' True) (\<lambda>password.
            in_vault O' (\<lambda>E. web_destroyRetired E password kid)) s)"

definition listRetiredEncryptionKeys :: "'w client \<Rightarrow> retired_view list" where
  "listRetiredEncryptionKeys s =
     (if cl_extension s then []
      else case web_activeAccount (cl_vault s) of None \<Rightarrow> [] | Some a \<Rightarrow> pa_retired a)"

subsection \<open>Moving what the account holds\<close>

definition REWRAP_PAGE :: nat where
  "REWRAP_PAGE = 100"

text \<open>\<open>JSON.parse(w.encrypted_key)\<close>, or null.\<close>

definition parsed_wrap :: "jsval \<Rightarrow> jsval" where
  "parsed_wrap w =
     (if is_nullish w then JNull
      else case json_parse (js_str (js_get w ''encrypted_key'')) of None \<Rightarrow> JNull | Some e \<Rightarrow> e)"

text \<open>\<open>e && has in e\<close>.\<close>

definition has_member :: "string \<Rightarrow> jsval \<Rightarrow> bool res" where
  "has_member has e =
     (if \<not> truthy e then Ok False
      else if is_object e then Ok (js_has e has)
      else Throw (JsTypeError ''Cannot use 'in' operator''))"

text \<open>The values opened so far, by place; a batch fills in its own.\<close>

type_synonym opened = "(string \<times> jsval) option list"

fun place_results :: "string \<Rightarrow> nat list \<Rightarrow> jsval list \<Rightarrow> opened \<Rightarrow> opened" where
  "place_results has [] vs op = op"
| "place_results has (i # is) [] op = place_results has is [] (op[i := Some (has, JUndef)])"
| "place_results has (i # is) (v # vs) op = place_results has is vs (op[i := Some (has, v)])"

definition open_batch :: "string \<Rightarrow> (jsval list \<Rightarrow> ('w, jsval) op) \<Rightarrow> jsval list \<Rightarrow> opened \<Rightarrow> ('w, opened) op" where
  "open_batch has unseal envelopes op =
     andThen (lift_res (map_res (has_member has) envelopes)) (\<lambda>members.
       let at = filter (\<lambda>i. members ! i) [0..<length envelopes]
       in if at = [] then ret op
          else andThen (unseal (map (\<lambda>i. envelopes ! i) at)) (\<lambda>results.
            lift_res (if is_nullish results then Throw (JsTypeError ''Cannot read properties of null'')
                      else Ok (place_results has at (case array_of results of None \<Rightarrow> [] | Some vs \<Rightarrow> vs) op))))"

text \<open>\<open>FILE_KEY.test(value ?? '')\<close>: the text of 32 bytes.\<close>

definition is_file_key :: "jsval \<Rightarrow> bool" where
  "is_file_key v \<longleftrightarrow> (let t = js_str (or_default v (JStr [])) in length t = 64 \<and> list_all is_lhex t)"

definition reseal_one :: "'w outside \<Rightarrow> string \<Rightarrow> (string \<times> jsval) option \<Rightarrow> ('w, jsval) op" where
  "reseal_one O' publicKey got =
     (case got of
        Some (has, value) \<Rightarrow>
          if is_file_key value then
            (if has = ''encKey'' then pqc_wrapSessionKey O' value (JStr publicKey)
             else pqc_encrypt O' (js_str value) (Some publicKey))
          else ret JNull
      | None \<Rightarrow> ret JNull)"

text \<open>The items to hand back, and how many could not be opened.\<close>

fun reseal_all :: "'w outside \<Rightarrow> string \<Rightarrow> (jsval \<times> (string \<times> jsval) option) list \<Rightarrow> ('w, jsval list \<times> nat) op" where
  "reseal_all O' publicKey [] = ret ([], 0)"
| "reseal_all O' publicKey ((row, got) # rest) =
     andThen (reseal_one O' publicKey got) (\<lambda>resealed.
     andThen (reseal_all O' publicKey rest) (\<lambda>(items, unread).
       ret (if truthy resealed
            then (JObj [(''kind'', js_get row ''kind''), (''id'', js_get row ''id''), (''encrypted_key'', JStr (json_text resealed))] # items, unread)
            else (items, Suc unread))))"

text \<open>One turn of the loop, from the number of unreadable envelopes: whether it was the last, how many keys
  moved, how many were found unreadable.\<close>

definition rewrap_page :: "'w outside \<Rightarrow> string \<Rightarrow> jsval list \<Rightarrow> ('w, bool \<times> nat \<times> nat) op" where
  "rewrap_page O' publicKey page =
     (let envelopes = map parsed_wrap page
      in andThen (open_batch ''encKey'' (pqc_unwrapMany O') envelopes (replicate (length page) None)) (\<lambda>op.
         andThen (open_batch ''content'' (pqc_decryptMany O') envelopes op) (\<lambda>op.
         andThen (reseal_all O' publicKey (zip page op)) (\<lambda>(items, unread).
         andThen (if items = [] then ret JNull
                  else apiFetch O' ''PUT'' (REWRAP O') (Some (JObj [(''items'', JArr items)]))) (\<lambda>_.
           ret (length page < REWRAP_PAGE \<and> items = [], length items, unread))))))"

definition rewrap_turn :: "'w outside \<Rightarrow> string \<Rightarrow> nat \<Rightarrow> ('w, bool \<times> nat \<times> nat) op" where
  "rewrap_turn O' publicKey unreadable =
     andThen (apiFetch O' ''GET'' (STALE_WRAPS O' unreadable REWRAP_PAGE) None) (\<lambda>page.
       case page of
         JArr rows \<Rightarrow> if rows = [] then ret (True, 0, 0) else rewrap_page O' publicKey rows
       | JStr t \<Rightarrow> if t = [] then ret (True, 0, 0) else fail (JsTypeError ''page.map is not a function'')
       | _ \<Rightarrow> fail (JsTypeError ''page.map is not a function''))"

text \<open>The loop has no bound of its own: it turns while there is fuel.\<close>

fun rewrapStaleKeys :: "nat \<Rightarrow> 'w outside \<Rightarrow> string \<Rightarrow> nat \<Rightarrow> nat \<Rightarrow> 'w client \<Rightarrow> ((nat \<times> nat) res \<times> 'w client) option" where
  "rewrapStaleKeys 0 O' publicKey unreadable rewrapped s = None"
| "rewrapStaleKeys (Suc n) O' publicKey unreadable rewrapped s =
     (case rewrap_turn O' publicKey unreadable s of
        (Inl e, t) \<Rightarrow> Some (Throw e, t)
      | (Inr (stop, moved, unread), t) \<Rightarrow>
          if stop then Some (Ok (rewrapped + moved, unreadable + unread), t)
          else rewrapStaleKeys n O' publicKey (unreadable + unread) (rewrapped + moved) t)"

definition rotate_request :: "jsval \<Rightarrow> int \<Rightarrow> jsval" where
  "rotate_request published ts = JObj
     [(''encryption_public_key'', js_get published ''encryptionPublicKey''),
      (''encryption_key_attestation'', js_get published ''attestation''), (''ts'', JNum ts),
      (''signature'', js_get published ''signature'')]"

definition rotate_refusal :: "web_response \<Rightarrow> string" where
  "rotate_refusal r =
     (let detail = (case rs_json r of None \<Rightarrow> JUndef | Some v \<Rightarrow> js_get v ''detail'')
      in if truthy detail then js_str detail else ''HTTP '' @ int_str (rs_status r))"

text \<open>Up to the server's yes. What follows it is \<open>rewrapStaleKeys\<close> on the published key.\<close>

definition publish_rotation :: "'w outside \<Rightarrow> jsval \<Rightarrow> int \<Rightarrow> ('w, string) op" where
  "publish_rotation O' published ts =
     andThen (catches (apiRaw O' ''POST'' (ROTATE_KEY O') (Some (rotate_request published ts)))
       (\<lambda>e. fail (PlainError (''The new key is on this device, but the server did not confirm it ('' @ err_msg e @
              ''). Sign in again to publish it.'')))) (\<lambda>r.
     if \<not> rs_ok r then
       if rs_json r = Some JNull \<or> rs_json r = Some JUndef then fail (JsTypeError ''Cannot read properties of null'')
       else if 400 \<le> rs_status r \<and> rs_status r < 500 then
         andThen (revertKeyLocally O' (js_get published ''newKid'')) (\<lambda>_.
           fail (PlainError (''The server refused the new key: '' @ rotate_refusal r)))
       else fail (PlainError (''The new key is on this device, but the server failed ('' @ rotate_refusal r @
              ''). Sign in again to publish it.''))
     else
       andThen (lift_res (opt_res SyntaxError (rs_json r))) (\<lambda>user.
       andThen (lift_res (opt_res OutOfModel (the_str (js_get published ''encryptionPublicKey'')))) (\<lambda>key.
       andThen (updates (\<lambda>s. (updateUser user s)\<lparr>cl_encryptionKey := Some key\<rparr>)) (\<lambda>_. ret key))))"

definition pqc_rotateEncryptionKey :: "nat \<Rightarrow> 'w outside \<Rightarrow> int \<Rightarrow> 'w client \<Rightarrow> ((jsval \<times> nat \<times> nat) res \<times> 'w client) option" where
  "pqc_rotateEncryptionKey fuel O' ts s =
     (case andThen (rotateKeyLocally O' ts) (\<lambda>published.
             andThen (publish_rotation O' published ts) (\<lambda>key. ret (published, key))) s of
        (Inl e, t) \<Rightarrow> Some (Throw e, t)
      | (Inr (published, key), t) \<Rightarrow>
          map_option (\<lambda>(r, u). (bind_res r (\<lambda>n. Ok (published, n)), u)) (rewrapStaleKeys fuel O' key 0 0 t))"

end
