(* ===== verification/WebMachine.thy ===== *)
theory WebMachine
  imports WebBackup
begin

text \<open>
  The vault service as a machine: every operation of \<open>vault.js\<close> and the methods merged onto it as
  one event, with the invariant that each of them keeps. The blob in storage opens with the key in
  memory, the public vault in memory is the stored vault's public part, and a locked service holds
  neither vault nor key.
\<close>

subsection \<open>The invariant\<close>

definition full_ok :: "prims \<Rightarrow> full_vault \<Rightarrow> bool" where
  "full_ok P v \<longleftrightarrow> list_all (account_ok P) (fv_accounts v) \<and> (\<exists>a\<in>set (fv_accounts v). fv_active v = JStr (acc_id a))"

definition sealed_full :: "prims \<Rightarrow> web_state \<Rightarrow> full_vault \<Rightarrow> bytes \<Rightarrow> jsval \<Rightarrow> bool" where
  "sealed_full P s v key kdf \<longleftrightarrow>
     full_ok P v \<and> length key = 32 \<and> (\<exists>salt. checkKdf kdf = Inr salt) \<and> js_pure kdf \<and>
     (\<exists>iv. iv \<noteq> [] \<and> ws_storage s ''kryptolog_vault'' = Some (json_text (seal P iv (full_js v) key kdf)))"

definition cache_fits :: "web_state \<Rightarrow> bytes \<Rightarrow> jsval \<Rightarrow> bool" where
  "cache_fits s key kdf \<longleftrightarrow>
     (ws_cachedKey s = None \<and> ws_cachedKdf s = None) \<or> (ws_cachedKey s = Some key \<and> ws_cachedKdf s = Some kdf)"

definition clean :: "web_state \<Rightarrow> bool" where
  "clean s \<longleftrightarrow> ws_vault s = None \<and> ws_signingKey s = None"

text \<open>The public vault shows the full one: the same ids in the same order, and under each id the
  public part of the account found under it. A backup may hold an account twice.\<close>

definition mirrors :: "public_vault \<Rightarrow> full_vault \<Rightarrow> bool" where
  "mirrors m v \<longleftrightarrow> pv_active m = fv_active v \<and> map pa_id (pv_accounts m) = map acc_id (fv_accounts v) \<and>
     (\<forall>i. find (\<lambda>a. pa_id a = i) (pv_accounts m) = map_option sanitize (find (\<lambda>a. acc_id a = i) (fv_accounts v)))"

definition memory_fits :: "web_state \<Rightarrow> full_vault \<Rightarrow> bool" where
  "memory_fits s v \<longleftrightarrow> (if ws_isLocked s then clean s else \<exists>m. ws_vault s = Some m \<and> mirrors m v)"

definition holds_vault :: "prims \<Rightarrow> web_state \<Rightarrow> full_vault \<Rightarrow> bytes \<Rightarrow> jsval \<Rightarrow> bool" where
  "holds_vault P s v key kdf \<longleftrightarrow> sealed_full P s v key kdf \<and> cache_fits s key kdf \<and> memory_fits s v"

definition blank :: "web_state \<Rightarrow> bool" where
  "blank s \<longleftrightarrow> \<not> hasVault s \<and> ws_isLocked s \<and> clean s \<and> ws_cachedKey s = None \<and> ws_cachedKdf s = None"

definition web_ok :: "prims \<Rightarrow> web_state \<Rightarrow> bool" where
  "web_ok P s \<longleftrightarrow> blank s \<or> (\<exists>v key kdf. holds_vault P s v key kdf)"

subsection \<open>What the cache operations leave alone\<close>

lemma cache_op_fields [simp]:
  "ws_isLocked (touchCache now s) = ws_isLocked s" "ws_isLocked (cacheKey now key kdf s) = ws_isLocked s"
  "ws_isLocked (clearKeyCache s) = ws_isLocked s" "ws_isLocked (set_item k t s) = ws_isLocked s" "ws_isLocked (remove_item k s) = ws_isLocked s"
  "ws_vault (touchCache now s) = ws_vault s" "ws_vault (cacheKey now key kdf s) = ws_vault s"
  "ws_vault (clearKeyCache s) = ws_vault s" "ws_vault (set_item k t s) = ws_vault s" "ws_vault (remove_item k s) = ws_vault s"
  "ws_trust (touchCache now s) = ws_trust s" "ws_trust (cacheKey now key kdf s) = ws_trust s"
  "ws_trust (clearKeyCache s) = ws_trust s" "ws_trust (set_item k t s) = ws_trust s" "ws_trust (remove_item k s) = ws_trust s"
  "ws_storage (touchCache now s) = ws_storage s" "ws_storage (cacheKey now key kdf s) = ws_storage s"
  "ws_storage (clearKeyCache s) = ws_storage s" "ws_storage (set_item k t s) = (ws_storage s)(k \<mapsto> t)"
  "ws_storage (remove_item k s) = (ws_storage s)(k := None)"
  "ws_signingKey (touchCache now s) = ws_signingKey s" "ws_signingKey (cacheKey now key kdf s) = ws_signingKey s"
  "hasCachedKey (touchCache now s) = hasCachedKey s" "clean (touchCache now s) = clean s" "clean (cacheKey now key kdf s) = clean s"
  by (simp_all add: clean_def touchCache_def cacheKey_def clearKeyCache_def set_item_def remove_item_def hasCachedKey_def)

subsection \<open>What is stored reads back\<close>

lemma full_js_pure: "full_ok P v \<Longrightarrow> js_pure (full_js v)"
  by (auto simp: full_ok_def full_js_def full_fields_def account_js_pure)

lemma seal_pure: "js_pure kdf \<Longrightarrow> js_pure (seal P iv d key kdf)"
  by (simp add: seal_def)

lemma normalize_full: "full_ok P v \<Longrightarrow> normalizeVault P now (full_js v) = Inr v"
  by (auto simp: normalizeVault_def full_ok_def full_js_def full_fields_def array_of_def parse_accounts_js)

lemma full_active_found: "full_ok P v \<Longrightarrow> \<exists>a. full_active v = Some a"
  by (auto simp: full_ok_def full_active_def find_None_iff simp flip: not_None_eq)

lemma full_active_mem: "full_active v = Some a \<Longrightarrow> a \<in> set (fv_accounts v) \<and> fv_active v = JStr (acc_id a)"
  by (auto simp: full_active_def find_Some_iff)

lemma full_active_ok: "full_ok P v \<Longrightarrow> full_active v = Some a \<Longrightarrow> account_ok P a"
  using full_active_mem by (auto simp: full_ok_def list_all_iff)

text \<open>The blob a state holds, read.\<close>

lemma sealed_full_blob:
  assumes "sealed_full P s v key kdf"
  obtains t blob where "item ''kryptolog_vault'' s = Some t" "parse_json t = Inr blob" "vaultKdfOf blob = Inr kdf"
    "\<And>P'. aead_correct P \<Longrightarrow> decryptVaultWithKey P blob key = Inr (full_js v)"
    "\<And>k. aead_correct P \<Longrightarrow> aead_key_binding P \<Longrightarrow> length k = 32 \<Longrightarrow> k \<noteq> key \<Longrightarrow>
      decryptVaultWithKey P blob k = Inl (PlainError ''Decryption failed with cached key'')"
proof -
  obtain iv where iv: "iv \<noteq> []" "ws_storage s ''kryptolog_vault'' = Some (json_text (seal P iv (full_js v) key kdf))"
      "js_pure kdf" "full_ok P v" "length key = 32"
    using assms by (auto simp: sealed_full_def)
  let ?b = "seal P iv (full_js v) key kdf"
  have "json_text ?b \<noteq> []" by (simp add: seal_def)
  then have 1: "item ''kryptolog_vault'' s = Some (json_text ?b)" using iv(2) by (simp add: item_def)
  have 2: "parse_json (json_text ?b) = Inr ?b"
    using json_parse_text [OF seal_pure [OF iv(3)]] by (simp add: parse_json_def)
  have 3: "vaultKdfOf ?b = Inr kdf" by (simp add: vaultKdfOf_def)
  have 4: "aead_correct P \<Longrightarrow> decryptVaultWithKey P ?b key = Inr (full_js v)"
    using openSealed_seal [OF _ iv(1) full_js_pure [OF iv(4)]] by (simp add: decryptVaultWithKey_def)
  have 5: "decryptVaultWithKey P ?b k = Inl (PlainError ''Decryption failed with cached key'')"
    if "aead_correct P" "aead_key_binding P" "length k = 32" "k \<noteq> key" for k
    using that iv(1,5) by (simp add: decryptVaultWithKey_def openSealed_def aead_other_key opt_res_def)
  show thesis using that [OF 1 2 3 4 5] .
qed

lemma sealed_full_has: "sealed_full P s v key kdf \<Longrightarrow> hasVault s"
  by (erule sealed_full_blob) (simp add: hasVault_def)

subsection \<open>What memory shows\<close>

lemma sanitize_id [simp]: "pa_id (sanitize a) = acc_id a"
  by (simp add: sanitize_def)

lemma find_map_sanitize: "find (\<lambda>a. pa_id a = i) (map sanitize xs) = map_option sanitize (find (\<lambda>a. acc_id a = i) xs)"
  by (induction xs) auto

lemma mirrors_sanitize: "mirrors (sanitize_vault v) v"
  by (simp add: mirrors_def sanitize_vault_def find_map_sanitize comp_def)

lemma find_append: "find p (xs @ ys) = (case find p xs of None \<Rightarrow> find p ys | Some x \<Rightarrow> Some x)"
  by (induction xs) auto

lemma find_filter_key: "find (\<lambda>a. f a = i) (filter (\<lambda>a. f a \<noteq> j) xs) = (if i = j then None else find (\<lambda>a. f a = i) xs)"
  by (induction xs) auto

lemma filter_keys: "map f (filter (\<lambda>a. f a \<noteq> j) xs) = filter (\<lambda>i. i \<noteq> j) (map f xs)"
  by (induction xs) auto

lemma find_replace_first:
  "f b = j \<Longrightarrow> find (\<lambda>a. f a = i) (replace_first (\<lambda>a. f a = j) b xs) =
    (if i = j then map_option (\<lambda>_. b) (find (\<lambda>a. f a = i) xs) else find (\<lambda>a. f a = i) xs)"
  by (induction xs) auto

lemma map_replace_first: "f b = j \<Longrightarrow> map f (replace_first (\<lambda>a. f a = j) b xs) = map f xs"
  by (induction xs) auto

lemma find_map_put:
  "f b = j \<Longrightarrow> find (\<lambda>a. f a = i) (map (\<lambda>a. if f a = j then b else a) xs) =
    (if i = j then map_option (\<lambda>_. b) (find (\<lambda>a. f a = i) xs) else find (\<lambda>a. f a = i) xs)"
  by (induction xs) auto

lemma mirrors_add:
  "mirrors m v \<Longrightarrow> mirrors (m\<lparr>pv_accounts := pv_accounts m @ [sanitize a]\<rparr>) (v\<lparr>fv_accounts := fv_accounts v @ [a]\<rparr>)"
  by (auto simp: mirrors_def find_append split: option.splits)

lemma mirrors_active: "mirrors m v \<Longrightarrow> mirrors (m\<lparr>pv_active := x\<rparr>) (v\<lparr>fv_active := x\<rparr>)"
  by (simp add: mirrors_def)

lemma mirrors_filter:
  "mirrors m v \<Longrightarrow> mirrors (m\<lparr>pv_accounts := filter (\<lambda>a. pa_id a \<noteq> j) (pv_accounts m)\<rparr>)
     (v\<lparr>fv_accounts := filter (\<lambda>a. acc_id a \<noteq> j) (fv_accounts v)\<rparr>)"
  by (simp add: mirrors_def find_filter_key filter_keys)

lemma mirrors_put:
  assumes "mirrors m v" and "fv_active v = JStr (acc_id b)"
  shows "mirrors (put_public b m) (replace_active b v)"
proof -
  have ids: "pa_id \<circ> (\<lambda>a. if pa_id a = acc_id b then sanitize b else a) = pa_id" by (rule ext) simp
  have "find (\<lambda>a. pa_id a = i) (pv_accounts (put_public b m)) =
      map_option sanitize (find (\<lambda>a. acc_id a = i) (fv_accounts (replace_active b v)))" for i
    using assms find_replace_first [of acc_id b "acc_id b"] find_map_put [of pa_id "sanitize b" "acc_id b" i]
    by (simp add: put_public_def replace_active_def mirrors_def option.map_comp comp_def)
  then show ?thesis
    using assms map_replace_first [of acc_id b "acc_id b"] ids by (simp add: mirrors_def put_public_def replace_active_def)
qed

subsection \<open>Changes that leave the stored vault alone\<close>

text \<open>The vault itself is untouched: the same blob, memory and lock.\<close>

definition same_vault :: "web_state \<Rightarrow> web_state \<Rightarrow> bool" where
  "same_vault s t \<longleftrightarrow>
     ws_storage t ''kryptolog_vault'' = ws_storage s ''kryptolog_vault'' \<and> ws_vault t = ws_vault s \<and>
     ws_isLocked t = ws_isLocked s"

lemma same_vault_ops [simp]:
  "same_vault s s" "same_vault s (clearKeyCache s)" "same_vault s (touchCache now s)" "same_vault s (cacheKey now key kdf s)"
  "same_vault s (disableBiometrics s)" "same_vault s (s\<lparr>ws_signingKey := k\<rparr>)" "same_vault s (setCacheTTL ms s)"
  "k' \<noteq> ''kryptolog_vault'' \<Longrightarrow> same_vault s (set_item k' t s)" "k' \<noteq> ''kryptolog_vault'' \<Longrightarrow> same_vault s (remove_item k' s)"
  by (auto simp: same_vault_def clearKeyCache_def touchCache_def cacheKey_def disableBiometrics_def remove_item_def
      set_item_def setCacheTTL_def Let_def)

lemma same_vault_sealed: "same_vault s t \<Longrightarrow> sealed_full P t v key kdf = sealed_full P s v key kdf"
  by (simp add: same_vault_def sealed_full_def)

lemma same_vault_item: "same_vault s t \<Longrightarrow> item ''kryptolog_vault'' t = item ''kryptolog_vault'' s"
  by (simp add: same_vault_def item_def)

lemma cache_fits_ops [simp]:
  "cache_fits (clearKeyCache s) key kdf" "cache_fits s key kdf \<Longrightarrow> cache_fits (touchCache now s) key kdf"
  "cache_fits s key kdf \<Longrightarrow> cache_fits (cacheKey now key kdf s) key kdf"
  "cache_fits (s\<lparr>ws_signingKey := k\<rparr>) key kdf = cache_fits s key kdf"
  "cache_fits (set_item i t s) key kdf = cache_fits s key kdf" "cache_fits (remove_item i s) key kdf = cache_fits s key kdf"
  "cache_fits (s\<lparr>ws_vault := m\<rparr>) key kdf = cache_fits s key kdf" "cache_fits (s\<lparr>ws_isLocked := b\<rparr>) key kdf = cache_fits s key kdf"
  "cache_fits (s\<lparr>ws_trust := S\<rparr>) key kdf = cache_fits s key kdf"
  "cache_fits s key kdf \<Longrightarrow> cache_fits (setCacheTTL ms s) key kdf"
  by (auto simp: cache_fits_def clearKeyCache_def touchCache_def cacheKey_def set_item_def remove_item_def setCacheTTL_def Let_def)

lemma holds_same:
  assumes "holds_vault P s v key kdf" "same_vault s t" "cache_fits t key kdf" "ws_isLocked s \<Longrightarrow> clean t"
  shows "holds_vault P t v key kdf"
  using assms same_vault_sealed [OF assms(2)] by (auto simp: holds_vault_def memory_fits_def same_vault_def)

subsection \<open>Opening the full vault\<close>

text \<open>A vault opened with a password that is not needed again, or with one that is at hand.\<close>

definition can_save :: "web_state \<Rightarrow> string option \<Rightarrow> bool" where
  "can_save s password \<longleftrightarrow> hasCachedKey s \<or> (\<exists>p. password = Some p \<and> p \<noteq> [])"

lemma open_cached_sealed:
  assumes "aead_correct P" "sealed_full P s v key kdf" "cache_fits s key kdf" "hasCachedKey s"
  shows "getFullVault P now password s = (Inr v, touchCache now s)"
proof (rule sealed_full_blob [OF assms(2)])
  fix t blob
  assume a: "item ''kryptolog_vault'' s = Some t" "parse_json t = Inr blob"
    "\<And>P'. aead_correct P \<Longrightarrow> decryptVaultWithKey P blob key = Inr (full_js v)"
  have "ws_cachedKey s = Some key" using assms(3,4) by (auto simp: cache_fits_def hasCachedKey_def)
  moreover have "full_ok P v" using assms(2) by (simp add: sealed_full_def)
  ultimately have "open_cached P now blob s = Some v"
    using a(3) [OF assms(1)] assms(4) by (simp add: open_cached_def normalize_full)
  then show ?thesis using a(1,2) by (simp add: getFullVault_def stored_text_def andThen_apply)
qed

text \<open>Without a cached key: the password's own key decides.\<close>

lemma open_password_sealed:
  assumes P: "aead_correct P" and s: "sealed_full P s v key kdf" "cache_fits s key kdf" "\<not> hasCachedKey s"
    and pw: "password = Some p" "p \<noteq> []" "deriveKey P p kdf = Inr key"
  shows "getFullVault P now password s = (Inr v, cacheKey now key kdf s)"
proof (rule sealed_full_blob [OF s(1)])
  fix t blob
  assume a: "item ''kryptolog_vault'' s = Some t" "parse_json t = Inr blob" "vaultKdfOf blob = Inr kdf"
    "\<And>P'. aead_correct P \<Longrightarrow> decryptVaultWithKey P blob key = Inr (full_js v)"
  have v: "full_ok P v" using s(1) by (simp add: sealed_full_def)
  have "open_cached P now blob s = None" using s(3) by (simp add: open_cached_def)
  then show ?thesis
    using a(1-3) a(4) [OF P] s(3) pw normalize_full [OF v, of now]
    by (simp add: getFullVault_def stored_text_def andThen_apply given_def open_with_password_def)
qed

lemma argon_length: "kdf_laws P \<Longrightarrow> length (argon2id P pw salt m u p n) = n"
  unfolding kdf_laws_def by blast

lemma deriveKey_length: "kdf_laws P \<Longrightarrow> deriveKey P p kdf = Inr k \<Longrightarrow> length k = 32"
  by (auto simp: deriveKey_def deriveVaultKeyBits_def importVaultKey_def import_aes_def vault_key_bits_def argon_length
      split: if_splits)

lemma open_refused:
  assumes P: "aead_correct P" "aead_key_binding P" "kdf_laws P" and s: "sealed_full P s v key kdf" "cache_fits s key kdf" "\<not> hasCachedKey s"
    and pw: "\<And>p. password = Some p \<Longrightarrow> p \<noteq> [] \<Longrightarrow> deriveKey P p kdf \<noteq> Inr key"
  shows "\<exists>e. getFullVault P now password s = (Inl e, s)"
proof (rule sealed_full_blob [OF s(1)])
  fix t blob
  assume a: "item ''kryptolog_vault'' s = Some t" "parse_json t = Inr blob" "vaultKdfOf blob = Inr kdf"
    "\<And>k. aead_correct P \<Longrightarrow> aead_key_binding P \<Longrightarrow> length k = 32 \<Longrightarrow> k \<noteq> key \<Longrightarrow>
      decryptVaultWithKey P blob k = Inl (PlainError ''Decryption failed with cached key'')"
  have none: "open_cached P now blob s = None" using s(3) by (simp add: open_cached_def)
  show ?thesis
  proof (cases "given ''Password required'' password")
    case (Inl e)
    then show ?thesis using a(1,2) none s(3) by (simp add: getFullVault_def stored_text_def andThen_apply)
  next
    case (Inr p)
    then have p: "password = Some p" "p \<noteq> []" by (auto simp: given_def split: option.splits if_splits)
    have "\<exists>e. open_with_password P now blob p s = (Inl e, s)"
    proof (cases "deriveKey P p kdf")
      case (Inr k)
      then show ?thesis
        using a(3) a(4) [OF P(1,2) deriveKey_length [OF P(3) Inr]] pw [OF p] by (auto simp: open_with_password_def andThen_apply)
    qed (use a(3) in \<open>simp add: open_with_password_def andThen_apply\<close>)
    then show ?thesis using a(1,2) none s(3) Inr by (auto simp: getFullVault_def stored_text_def andThen_apply)
  qed
qed

text \<open>The vault is opened, or nothing has happened. After it is opened it can be saved.\<close>

lemma getFullVault_cases:
  assumes P: "aead_correct P" "aead_key_binding P" "kdf_laws P" and s: "holds_vault P s v key kdf"
  obtains (refused) e where "getFullVault P now password s = (Inl e, s)"
  | (opened) t where "getFullVault P now password s = (Inr v, t)" "holds_vault P t v key kdf" "ws_isLocked t = ws_isLocked s"
      "can_save t password" "ws_trust t = ws_trust s"
proof -
  have f: "sealed_full P s v key kdf" "cache_fits s key kdf" using s by (simp_all add: holds_vault_def)
  have c: "ws_isLocked s \<Longrightarrow> clean s" using s by (simp add: holds_vault_def memory_fits_def)
  show thesis
  proof (cases "hasCachedKey s")
    case True
    have "can_save (touchCache now s) password" using True by (simp add: can_save_def)
    then show thesis
      using opened [of "touchCache now s"] open_cached_sealed [OF P(1) f True] c holds_same [OF s, of "touchCache now s"] f(2)
      by simp
  next
    case False
    show thesis
    proof (cases "\<exists>p. password = Some p \<and> p \<noteq> [] \<and> deriveKey P p kdf = Inr key")
      case True
      then obtain p where p: "password = Some p" "p \<noteq> []" "deriveKey P p kdf = Inr key" by blast
      then show thesis
        using opened [of "cacheKey now key kdf s"] open_password_sealed [OF P(1) f False p] c
          holds_same [OF s, of "cacheKey now key kdf s"] f(2)
        by (simp add: can_save_def)
    next
      case no: False
      then show thesis using refused open_refused [OF P f False, of password] by blast
    qed
  qed
qed

subsection \<open>Saving\<close>

lemma new_kdf_pure: "js_pure (newVaultKdf salt)"
  by (simp add: newVaultKdf_def VAULT_KDF_PARAMS_def)

lemma cache_fits_none: "cache_fits s key kdf \<Longrightarrow> \<not> hasCachedKey s \<Longrightarrow> cache_fits s key' kdf'"
  by (auto simp: cache_fits_def hasCachedKey_def)

lemma save_sealed_key:
  assumes P: "kdf_laws P" and r: "strong_rnd rnd" and w: "full_ok P w"
    and s: "sealed_full P s v key kdf \<or> \<not> hasCachedKey s" "cache_fits s key kdf" "can_save s password"
  obtains t key' kdf' where "save P rnd now w password s = (Inr (), t)" "sealed_full P t w key' kdf'" "cache_fits t key' kdf'"
    "ws_vault t = ws_vault s" "ws_isLocked t = ws_isLocked s" "ws_trust t = ws_trust s" "hasCachedKey s \<Longrightarrow> hasCachedKey t"
    "key' = key \<and> kdf' = kdf \<or> (\<exists>p. password = Some p \<and> p \<noteq> [] \<and> deriveKey P p kdf' = Inr key')"
proof (cases "hasCachedKey s")
  case True
  have k: "ws_cachedKey s = Some key" "ws_cachedKdf s = Some kdf" using s(2) True by (auto simp: cache_fits_def hasCachedKey_def)
  have d: "length key = 32" "\<exists>salt. checkKdf kdf = Inr salt" "js_pure kdf" using s(1) True by (auto simp: sealed_full_def)
  let ?t = "set_item ''kryptolog_vault'' (json_text (seal P (snd rnd) (full_js w) key kdf)) (touchCache now s)"
  have "save P rnd now w password s = (Inr (), ?t)"
    using True k d(2) by (auto simp: save_def andThen_apply encryptVaultWithKey_def)
  moreover have "sealed_full P ?t w key kdf"
    using w d r by (auto simp: sealed_full_def strong_rnd_def)
  moreover have "cache_fits ?t key kdf" using s(2) by simp
  ultimately show thesis using that [of ?t key kdf] True by (simp add: hasCachedKey_def set_item_def touchCache_def)
next
  case False
  obtain p where p: "password = Some p" "p \<noteq> []" using s(3) False by (auto simp: can_save_def)
  have s16: "length (fst rnd) = 16" "snd rnd \<noteq> []" using r by (simp_all add: strong_rnd_def)
  let ?key = "new_key P rnd p" and ?kdf = "newVaultKdf (fst rnd)"
  let ?t = "set_item ''kryptolog_vault'' (json_text (seal P (snd rnd) (full_js w) ?key ?kdf)) (cacheKey now ?key ?kdf s)"
  have "save P rnd now w password s = (Inr (), ?t)"
    using False p deriveKey_new [OF P s16(1), of p] by (simp add: save_def andThen_apply given_def encryptVault_def)
  moreover have "length ?key = 32" using P by (simp add: argon_length)
  then have "sealed_full P ?t w ?key ?kdf"
    using w s16 newVaultKdf_ok [OF s16(1)] new_kdf_pure by (auto simp: sealed_full_def)
  moreover have "cache_fits ?t ?key ?kdf"
    using cache_fits_none [OF s(2) False] by simp
  ultimately show thesis
    using that [of ?t ?key ?kdf] False p deriveKey_new [OF P s16(1), of p] by simp
qed

lemma save_sealed:
  assumes P: "kdf_laws P" and r: "strong_rnd rnd" and w: "full_ok P w"
    and s: "sealed_full P s v key kdf \<or> \<not> hasCachedKey s" "cache_fits s key kdf" "can_save s password"
  obtains t key' kdf' where "save P rnd now w password s = (Inr (), t)" "sealed_full P t w key' kdf'" "cache_fits t key' kdf'"
    "ws_vault t = ws_vault s" "ws_isLocked t = ws_isLocked s" "ws_trust t = ws_trust s"
  by (rule save_sealed_key [OF P r w s, of now]) blast

end
