(* ===== verification/WebRun.thy ===== *)
theory WebRun
  imports WebMachine
begin

text \<open>
  The events of the vault service, each one operation run to its end, and the proof that every one
  of them keeps the invariant of \<open>WebMachine\<close>, whatever passwords and files it is given.
\<close>

subsection \<open>Events\<close>

datatype web_event =
    W_setup web_env string "string option"
  | W_unlock web_env string
  | W_lock
  | W_wipe
  | W_timeout int
  | W_hidden
  | W_ttl int
  | W_add web_env string "string option"
  | W_switch web_env string "string option"
  | W_delete web_env string "string option"
  | W_sign web_env string "string option"
  | W_sign_message web_env string "string option"
  | W_decrypt web_env jsval "string option"
  | W_decrypt_many web_env "jsval list" "string option"
  | W_unwrap web_env jsval "string option"
  | W_unwrap_many web_env "jsval list" "string option"
  | W_rotate web_env "string option" int
  | W_revert web_env "string option" string
  | W_destroy web_env "string option" string
  | W_export web_env "string option"
  | W_export_blob web_env "string option" "string option"
  | W_import_new web_env string "string option"
  | W_import_blob web_env string string "string option"
  | W_import web_env string "string option" "string option"
  | W_enable_bio web_env authenticator "bytes \<times> bytes" "string option"
  | W_disable_bio

fun web_exec :: "web_event \<Rightarrow> web_state \<Rightarrow> web_state" where
  "web_exec (W_setup E name pw) s = snd (web_setup E name pw s)"
| "web_exec (W_unlock E pw) s = snd (web_unlock (we_prims E) (we_now E) pw s)"
| "web_exec W_lock s = web_lock s"
| "web_exec W_wipe s = wipeVault s"
| "web_exec (W_timeout now) s = cache_timeout now s"
| "web_exec W_hidden s = clearKeyCache s"
| "web_exec (W_ttl ms) s = setCacheTTL ms s"
| "web_exec (W_add E name pw) s = snd (addAccount E name pw s)"
| "web_exec (W_switch E aid pw) s = snd (switchAccount E aid pw s)"
| "web_exec (W_delete E aid pw) s = snd (web_deleteAccount E aid pw s)"
| "web_exec (W_sign E m pw) s = snd (web_sign E m pw s)"
| "web_exec (W_sign_message E m pw) s = snd (web_signMessage E m pw s)"
| "web_exec (W_decrypt E d pw) s = snd (web_decrypt E d pw s)"
| "web_exec (W_decrypt_many E ds pw) s = snd (web_decryptMany E ds pw s)"
| "web_exec (W_unwrap E d pw) s = snd (web_unwrapSessionKey E d pw s)"
| "web_exec (W_unwrap_many E ds pw) s = snd (web_unwrapMany E ds pw s)"
| "web_exec (W_rotate E pw ts) s = snd (web_rotateEncryptionKey E pw ts s)"
| "web_exec (W_revert E pw kid) s = snd (web_revertRotation E pw kid s)"
| "web_exec (W_destroy E pw kid) s = snd (web_destroyRetired E pw kid s)"
| "web_exec (W_export E pw) s = snd (exportVault E pw s)"
| "web_exec (W_export_blob E pp pw) s = snd (exportEncryptedBlob E pp pw s)"
| "web_exec (W_import_new E t pw) s = snd (importNewVault E t pw s)"
| "web_exec (W_import_blob E t pp pw) s = snd (importEncryptedBlob E t pp pw s)"
| "web_exec (W_import E t pw pp) s = snd (web_importVault E t pw pp s)"
| "web_exec (W_enable_bio E A rnd pw) s = snd (enableBiometrics E A rnd pw s)"
| "web_exec W_disable_bio s = disableBiometrics s"

text \<open>What an event draws is good enough to use, and the key of a rotation is a new one.\<close>

definition good_draw :: "prims \<Rightarrow> web_env \<Rightarrow> bool" where
  "good_draw P E \<longleftrightarrow> we_prims E = P \<and> strong_rnd (we_save E) \<and> good_identity_draw P (we_identity E) \<and>
     good_encryption_draw P (we_encryption E)"

definition new_to :: "prims \<Rightarrow> web_env \<Rightarrow> web_state \<Rightarrow> bool" where
  "new_to P E s \<longleftrightarrow> (\<forall>v key kdf. sealed_full P s v key kdf \<longrightarrow>
     (\<forall>a\<in>set (fv_accounts v). new_kid P (we_encryption E) \<notin> set (account_kids a)))"

fun event_env :: "web_event \<Rightarrow> web_env option" where
  "event_env (W_setup E _ _) = Some E"
| "event_env (W_unlock E _) = Some E"
| "event_env (W_add E _ _) = Some E"
| "event_env (W_switch E _ _) = Some E"
| "event_env (W_delete E _ _) = Some E"
| "event_env (W_sign E _ _) = Some E"
| "event_env (W_sign_message E _ _) = Some E"
| "event_env (W_decrypt E _ _) = Some E"
| "event_env (W_decrypt_many E _ _) = Some E"
| "event_env (W_unwrap E _ _) = Some E"
| "event_env (W_unwrap_many E _ _) = Some E"
| "event_env (W_rotate E _ _) = Some E"
| "event_env (W_revert E _ _) = Some E"
| "event_env (W_destroy E _ _) = Some E"
| "event_env (W_export E _) = Some E"
| "event_env (W_export_blob E _ _) = Some E"
| "event_env (W_import_new E _ _) = Some E"
| "event_env (W_import_blob E _ _ _) = Some E"
| "event_env (W_import E _ _ _) = Some E"
| "event_env (W_enable_bio E _ _ _) = Some E"
| "event_env _ = None"

definition event_good :: "prims \<Rightarrow> web_event \<Rightarrow> web_state \<Rightarrow> bool" where
  "event_good P e s \<longleftrightarrow>
     (\<forall>E. event_env e = Some E \<longrightarrow> good_draw P E) \<and> (\<forall>E pw ts. e = W_rotate E pw ts \<longrightarrow> new_to P E s)"

definition web_laws :: "prims \<Rightarrow> bool" where
  "web_laws P \<longleftrightarrow> aead_correct P \<and> aead_key_binding P \<and> kdf_laws P \<and> signature_laws P \<and> envelope_laws P"

text \<open>The states a service can be in after starting from \<open>s\<close>.\<close>

inductive web_reach :: "prims \<Rightarrow> web_state \<Rightarrow> web_state \<Rightarrow> bool" for P s where
  start: "web_reach P s s"
| event: "web_reach P s t \<Longrightarrow> event_good P e t \<Longrightarrow> web_reach P s (web_exec e t)"

subsection \<open>The specification\<close>

text \<open>
  The service's abstract state is the full vault, or none. What an operation may do to it: nothing,
  or one of these steps. A change of an account's keys keeps its identity and every key it holds,
  the destruction of one retired key apart.
\<close>

definition key_change :: "account \<Rightarrow> account \<Rightarrow> bool" where
  "key_change a b \<longleftrightarrow> acc_id b = acc_id a \<and> acc_identity b = acc_identity a \<and>
     (set (account_keys a) \<subseteq> set (account_keys b) \<or>
      (\<exists>kid\<in>ek_kid ` set (acc_retired a). b = a\<lparr>acc_retired := filter (\<lambda>k. ek_kid k \<noteq> kid) (acc_retired a)\<rparr>))"

inductive vault_step :: "prims \<Rightarrow> full_vault option \<Rightarrow> full_vault option \<Rightarrow> bool" for P where
  stay: "vault_step P x x"
| create: "full_ok P v \<Longrightarrow> vault_step P None (Some v)"
| add: "account_ok P a \<Longrightarrow> vault_step P (Some v) (Some (v\<lparr>fv_accounts := fv_accounts v @ [a]\<rparr>))"
| switch: "\<exists>a\<in>set (fv_accounts v). acc_id a = aid \<Longrightarrow> vault_step P (Some v) (Some (v\<lparr>fv_active := JStr aid\<rparr>))"
| delete: "fv_active v \<noteq> JStr aid \<Longrightarrow>
    vault_step P (Some v) (Some (v\<lparr>fv_accounts := filter (\<lambda>a. acc_id a \<noteq> aid) (fv_accounts v)\<rparr>))"
| delete_active: "b \<in> set (fv_accounts v) \<Longrightarrow> acc_id b \<noteq> aid \<Longrightarrow> fv_active v = JStr aid \<Longrightarrow>
    vault_step P (Some v) (Some (v\<lparr>fv_active := JStr (acc_id b), fv_accounts := filter (\<lambda>a. acc_id a \<noteq> aid) (fv_accounts v)\<rparr>))"
| change: "full_active v = Some a \<Longrightarrow> account_ok P b \<Longrightarrow> key_change a b \<Longrightarrow> vault_step P (Some v) (Some (replace_active b v))"
| merge: "list_all (account_ok P) imported \<Longrightarrow>
    vault_step P (Some v) (Some (v\<lparr>fv_accounts := fold put_imported imported (fv_accounts v)\<rparr>))"
| forget: "vault_step P x None"

inductive_cases vault_step_from_vault: "vault_step P (Some v) y"

text \<open>The concrete state is a proper one, and its abstract state is one of these.\<close>

definition web_at :: "prims \<Rightarrow> (full_vault option \<Rightarrow> bool) \<Rightarrow> web_state \<Rightarrow> bool" where
  "web_at P Q s \<longleftrightarrow> (blank s \<and> Q None) \<or> (\<exists>v key kdf. holds_vault P s v key kdf \<and> Q (Some v))"

lemma web_at_mono: "web_at P Q s \<Longrightarrow> (\<And>x. Q x \<Longrightarrow> R x) \<Longrightarrow> web_at P R s"
  by (auto simp: web_at_def)

lemma web_ok_at: "web_ok P s \<longleftrightarrow> (\<exists>x. web_at P ((=) x) s)"
  by (auto simp: web_ok_def web_at_def)

subsection \<open>Operations on an open vault\<close>

lemma web_at_cases:
  assumes "web_at P Q s"
  obtains (blank) "blank s" "Q None" | (held) v key kdf where "holds_vault P s v key kdf" "Q (Some v)"
  using assms by (auto simp: web_at_def)

lemma held_at: "holds_vault P s v key kdf \<Longrightarrow> Q (Some v) \<Longrightarrow> web_at P Q s"
  by (auto simp: web_at_def)

lemma blank_at: "blank s \<Longrightarrow> Q None \<Longrightarrow> web_at P Q s"
  by (simp add: web_at_def)

lemma unchanged: "web_at P ((=) x) s \<Longrightarrow> web_at P (vault_step P x) s"
  by (auto elim: web_at_mono intro: stay)

lemma requireOpen_run: "requireOpen s = (if ws_isLocked s then Inl (PlainError ''Vault locked'') else Inr (), s)"
  by (simp add: requireOpen_def)

lemma prims_of: "good_draw P E \<Longrightarrow> we_prims E = P"
  by (simp add: good_draw_def)

lemma opened_then:
  assumes P: "web_laws P" and E: "we_prims E = P" and s: "web_at P ((=) x) s" and q: "Q x"
    and k: "\<And>v key kdf t. holds_vault P t v key kdf \<Longrightarrow> \<not> ws_isLocked t \<Longrightarrow> can_save t password \<Longrightarrow> x = Some v \<Longrightarrow>
      sealed_full P s v key kdf \<Longrightarrow> web_at P Q (snd (k v t))"
  shows "web_at P Q (snd (andThen requireOpen (\<lambda>_. andThen (getFullVault (we_prims E) now password) k) s))"
proof (cases "ws_isLocked s")
  case True
  then show ?thesis using web_at_mono [OF s, of Q] q by (simp add: requireOpen_run andThen_apply)
next
  case False
  then obtain v key kdf where h: "holds_vault P s v key kdf" "x = Some v" using s by (auto simp: web_at_def blank_def)
  have P': "aead_correct P" "aead_key_binding P" "kdf_laws P" using P by (simp_all add: web_laws_def)
  have "sealed_full P s v key kdf" using h(1) by (simp add: holds_vault_def)
  then show ?thesis
    using k [of _ v key kdf] held_at [OF h(1), of Q] q h(2) False
    by (cases rule: getFullVault_cases [OF P' h(1), of now password]) (auto simp: requireOpen_run andThen_apply E)
qed

lemma saved_then:
  assumes P: "web_laws P" and r: "strong_rnd rnd" and w: "full_ok P w"
    and s: "sealed_full P s v key kdf \<or> \<not> hasCachedKey s" "cache_fits s key kdf" "can_save s password"
    and k: "\<And>t key' kdf'. sealed_full P t w key' kdf' \<Longrightarrow> cache_fits t key' kdf' \<Longrightarrow> ws_vault t = ws_vault s \<Longrightarrow>
      ws_isLocked t = ws_isLocked s \<Longrightarrow> ws_trust t = ws_trust s \<Longrightarrow> web_at P Q (snd (k () t))"
  shows "web_at P Q (snd (andThen (save P rnd now w password) k s))"
proof -
  have "kdf_laws P" using P by (simp add: web_laws_def)
  from save_sealed [OF this r w s, of now] obtain t key' kdf' where
    "save P rnd now w password s = (Inr (), t)" "sealed_full P t w key' kdf'" "cache_fits t key' kdf'"
    "ws_vault t = ws_vault s" "ws_isLocked t = ws_isLocked s" "ws_trust t = ws_trust s" .
  then show ?thesis using k by (simp add: andThen_apply)
qed

lemma update_memory_run: "update_memory f s = (Inr (), s\<lparr>ws_vault := map_option f (ws_vault s)\<rparr>)"
  by (simp add: update_memory_def)

lemma sealed_full_memory [simp]:
  "sealed_full P (s\<lparr>ws_vault := m\<rparr>) v key kdf = sealed_full P s v key kdf"
  "sealed_full P (s\<lparr>ws_isLocked := b\<rparr>) v key kdf = sealed_full P s v key kdf"
  "sealed_full P (s\<lparr>ws_trust := S\<rparr>) v key kdf = sealed_full P s v key kdf"
  "sealed_full P (s\<lparr>ws_signingKey := k\<rparr>) v key kdf = sealed_full P s v key kdf"
  by (simp_all add: sealed_full_def)

lemma held_memory:
  "sealed_full P s v key kdf \<Longrightarrow> cache_fits s key kdf \<Longrightarrow> \<not> ws_isLocked s \<Longrightarrow>
    ws_vault s = Some m \<Longrightarrow> mirrors m v \<Longrightarrow> Q (Some v) \<Longrightarrow> web_at P Q s"
  by (auto simp: web_at_def holds_vault_def memory_fits_def)

lemma holds_facts:
  assumes "holds_vault P t v key kdf" "\<not> ws_isLocked t"
  shows "sealed_full P t v key kdf" "cache_fits t key kdf" "\<exists>m. ws_vault t = Some m \<and> mirrors m v" "full_ok P v"
  using assms by (auto simp: holds_vault_def memory_fits_def sealed_full_def)

text \<open>An operation that reads the full vault, or only asks something of it.\<close>

lemma read_only:
  assumes "web_laws P" "we_prims E = P" "web_at P ((=) x) s" "Q x" and "\<And>v t. snd (k v t) = t"
  shows "web_at P Q (snd (andThen requireOpen (\<lambda>_. andThen (getFullVault (we_prims E) now password) k) s))"
  by (rule opened_then [of _ _ x, OF assms(1-3), of Q, OF assms(4)]) (use assms(4,5) held_at in auto)

lemma lift_keeps: "snd (andThen (lift_res r) (\<lambda>a. lift_res (f a)) t) = t"
  by (cases r) (simp_all add: andThen_apply)

lemma with_active_keeps: "web_laws P \<Longrightarrow> we_prims E = P \<Longrightarrow> web_at P ((=) x) s \<Longrightarrow> Q x \<Longrightarrow>
    web_at P Q (snd (with_active_full E password missing f s))"
  unfolding with_active_full_def by (erule (3) read_only) (simp add: lift_keeps)

text \<open>An operation that saves a changed vault and shows the change.\<close>

lemma change_vault:
  assumes P: "web_laws P" and E: "good_draw P E" and s: "holds_vault P t v key kdf" "\<not> ws_isLocked t" "can_save t password"
    and w: "full_ok P w" and f: "\<And>m. mirrors m v \<Longrightarrow> mirrors (f m) w" and q: "Q (Some w)"
  shows "web_at P Q (snd (andThen (save P (we_save E) now w password) (\<lambda>_. andThen (update_memory f) (\<lambda>_. lift_res r)) t))"
proof -
  have r: "strong_rnd (we_save E)" using E by (simp add: good_draw_def)
  note h = holds_facts [OF s(1,2)]
  show ?thesis
    by (rule saved_then [OF P r w _ h(2) s(3), of v]) (use h s f q in \<open>auto simp: andThen_apply update_memory_run intro!: held_memory\<close>)
qed

lemma add_ok:
  assumes P: "web_laws P" and E: "good_draw P E" and s: "web_at P ((=) x) s"
  shows "web_at P (vault_step P x) (snd (addAccount E name password s))"
  unfolding addAccount_def
proof (rule opened_then [OF P prims_of [OF E] s stay])
  fix v key kdf t
  assume h: "holds_vault P t v key kdf" "\<not> ws_isLocked t" "can_save t password" and x: "x = Some v"
  have here: "web_at P (vault_step P x) t" using h(1) unfolding x by (rule held_at) (rule stay)
  have d: "good_identity_draw P (we_identity E)" "good_encryption_draw P (we_encryption E)" "we_prims E = P"
    using E by (simp_all add: good_draw_def)
  obtain a where a: "generateAccount P (we_identity E, we_encryption E) (we_now E) name = Inr a" "account_ok P a"
    using generate_ok [of P "(we_identity E, we_encryption E)"] P d by (auto simp: web_laws_def)
  have "full_ok P (v\<lparr>fv_accounts := fv_accounts v @ [a]\<rparr>)" using holds_facts(4) [OF h(1,2)] a(2) by (auto simp: full_ok_def)
  then have "web_at P (vault_step P x) (snd (andThen (save P (we_save E) (we_now E) (v\<lparr>fv_accounts := fv_accounts v @ [a]\<rparr>) password)
      (\<lambda>_. andThen (update_memory (\<lambda>m. m\<lparr>pv_accounts := pv_accounts m @ [sanitize a]\<rparr>)) (\<lambda>_. lift_res (Inr (sanitize a)))) t))"
    by (rule change_vault [OF P E h _ mirrors_add]) (simp_all add: x add [OF a(2)])
  then show "web_at P (vault_step P x) (snd (andThen (lift_res (generateAccount (we_prims E) (we_identity E, we_encryption E) (we_now E) name))
       (\<lambda>a. andThen (save (we_prims E) (we_save E) (we_now E) (v\<lparr>fv_accounts := fv_accounts v @ [a]\<rparr>) password)
          (\<lambda>_. andThen (update_memory (\<lambda>m. m\<lparr>pv_accounts := pv_accounts m @ [sanitize a]\<rparr>)) (\<lambda>_. ret (sanitize a)))) t))"
    using a(1) d(3) by (simp add: andThen_apply lift_res_def ret_def)
qed

lemma switch_ok:
  assumes P: "web_laws P" and E: "good_draw P E" and s: "web_at P ((=) x) s"
  shows "web_at P (vault_step P x) (snd (switchAccount E aid password s))"
  unfolding switchAccount_def
proof (rule opened_then [OF P prims_of [OF E] s stay])
  fix v key kdf t
  assume h: "holds_vault P t v key kdf" "\<not> ws_isLocked t" "can_save t password" and x: "x = Some v"
  have here: "web_at P (vault_step P x) t" using h(1) unfolding x by (rule held_at) (rule stay)
  have d: "we_prims E = P" using E by (simp add: good_draw_def)
  show "web_at P (vault_step P x) (snd (andThen (lift_res (opt_res (PlainError ''Account not found'') (find (\<lambda>a. acc_id a = aid) (fv_accounts v))))
       (\<lambda>a. andThen (save (we_prims E) (we_save E) (we_now E) (v\<lparr>fv_active := JStr aid\<rparr>) password)
          (\<lambda>_. andThen (update_memory (\<lambda>m. m\<lparr>pv_active := JStr aid\<rparr>)) (\<lambda>_. ret (sanitize a)))) t))"
  proof (cases "find (\<lambda>a. acc_id a = aid) (fv_accounts v)")
    case None
    then show ?thesis using here by (simp add: andThen_apply)
  next
    case (Some a)
    then have "full_ok P (v\<lparr>fv_active := JStr aid\<rparr>)" using holds_facts(4) [OF h(1,2)] by (auto simp: full_ok_def find_Some_iff)
    then have "web_at P (vault_step P x) (snd (andThen (save P (we_save E) (we_now E) (v\<lparr>fv_active := JStr aid\<rparr>) password)
        (\<lambda>_. andThen (update_memory (\<lambda>m. m\<lparr>pv_active := JStr aid\<rparr>)) (\<lambda>_. lift_res (Inr (sanitize a)))) t))"
      by (rule change_vault [OF P E h _ mirrors_active]) (use Some in \<open>auto simp: x find_Some_iff intro!: switch\<close>)
    then show ?thesis using Some d by (simp add: andThen_apply lift_res_def ret_def)
  qed
qed

lemma find_other: "find (\<lambda>a. acc_id a \<noteq> aid) xs = Some b \<Longrightarrow> b \<in> set xs \<and> acc_id b \<noteq> aid"
  by (auto simp: find_Some_iff)

lemma delete_at:
  assumes P: "web_laws P" and E: "good_draw P E" and s: "web_at P ((=) x) s" and same: "Q x"
    and other: "\<And>v. x = Some v \<Longrightarrow> fv_active v \<noteq> JStr aid \<Longrightarrow>
      Q (Some (v\<lparr>fv_accounts := filter (\<lambda>a. acc_id a \<noteq> aid) (fv_accounts v)\<rparr>))"
    and active: "\<And>v b. x = Some v \<Longrightarrow> fv_active v = JStr aid \<Longrightarrow> b \<in> set (fv_accounts v) \<Longrightarrow> acc_id b \<noteq> aid \<Longrightarrow>
      Q (Some (v\<lparr>fv_active := JStr (acc_id b), fv_accounts := filter (\<lambda>a. acc_id a \<noteq> aid) (fv_accounts v)\<rparr>))"
  shows "web_at P Q (snd (web_deleteAccount E aid password s))"
  unfolding web_deleteAccount_def
proof (rule opened_then [OF P prims_of [OF E] s, where Q = Q])
  show "Q x" by (rule same)
next
  fix v key kdf t
  assume h: "holds_vault P t v key kdf" "\<not> ws_isLocked t" "can_save t password" and x: "x = Some v"
  have here: "web_at P Q t" using held_at [OF h(1), of Q] same x by simp
  let ?less = "\<lambda>w. w\<lparr>fv_accounts := filter (\<lambda>a. acc_id a \<noteq> aid) (fv_accounts w)\<rparr>"
  let ?forget = "\<lambda>m. m\<lparr>pv_accounts := filter (\<lambda>a. pa_id a \<noteq> aid) (pv_accounts m)\<rparr>"
  have d: "we_prims E = P" "strong_rnd (we_save E)" using E by (simp_all add: good_draw_def)
  note f = holds_facts [OF h(1,2)]
  obtain m where m: "ws_vault t = Some m" "mirrors m v" using f(3) by blast
  have go: "web_at P Q (snd (andThen (save P (we_save E) (we_now E) (?less w) password) (\<lambda>_. update_memory ?forget) u))"
    if w: "full_ok P (?less w)" "Q (Some (?less w))" and u: "u = t\<lparr>ws_vault := Some m\<rparr>" "mirrors m w" for u w m
  proof (rule saved_then [OF P d(2) w(1), of u v key kdf])
    show "sealed_full P u v key kdf \<or> \<not> hasCachedKey u" "cache_fits u key kdf" "can_save u password"
      using f h(3) by (simp_all add: u(1) can_save_def hasCachedKey_def)
    fix z key' kdf'
    assume z: "sealed_full P z (?less w) key' kdf'" "cache_fits z key' kdf'" "ws_vault z = ws_vault u" "ws_isLocked z = ws_isLocked u"
    then show "web_at P Q (snd (update_memory ?forget z))"
      using h(2) w(2) x mirrors_filter [OF u(2), of aid]
      by (auto simp: update_memory_run u(1) intro!: held_memory [where v = "?less w"])
  qed
  have "web_at P Q (snd (andThen (hand_over aid v) (\<lambda>w. andThen (save P (we_save E) (we_now E) (?less w) password) (\<lambda>_. update_memory ?forget)) t))"
  proof (cases "fv_active v = JStr aid")
    case False
    then have "full_ok P (?less v)" using f(4) by (auto simp: full_ok_def list_all_iff)
    moreover have "t = t\<lparr>ws_vault := Some m\<rparr>" using m by simp
    ultimately show ?thesis using go [of v t m] False m other [OF x False] by (simp add: hand_over_def andThen_apply)
  next
    case True
    show ?thesis
    proof (cases "find (\<lambda>a. acc_id a \<noteq> aid) (fv_accounts v)")
      case None
      then show ?thesis using True here by (simp add: hand_over_def andThen_apply)
    next
      case (Some b)
      let ?w = "v\<lparr>fv_active := JStr (acc_id b)\<rparr>"
      have "full_ok P (?less ?w)" using Some f(4) by (auto simp: full_ok_def list_all_iff find_Some_iff in_set_conv_nth)
      then show ?thesis using go [of ?w _ "m\<lparr>pv_active := JStr (acc_id b)\<rparr>"] True Some m mirrors_active
          active [OF x True] find_other [OF Some]
        by (simp add: hand_over_def andThen_apply update_memory_run)
    qed
  qed
  then show "web_at P Q (snd (andThen (guards (1 < length (fv_accounts v)) (PlainError ''Cannot delete last account''))
      (\<lambda>_. andThen (hand_over aid v) (\<lambda>w. andThen (save (we_prims E) (we_save E) (we_now E) (?less w) password)
        (\<lambda>_. update_memory ?forget))) t))"
    using here d(1) by (simp add: guards_def andThen_apply)
qed

lemma delete_ok:
  assumes P: "web_laws P" and E: "good_draw P E" and s: "web_at P ((=) x) s"
  shows "web_at P (vault_step P x) (snd (web_deleteAccount E aid password s))"
  by (rule delete_at [OF P E s stay]) (auto intro: delete delete_active)

subsection \<open>Replacing keys\<close>

lemma replace_active_ok:
  assumes v: "full_ok P v" "full_active v = Some a" and b: "account_ok P b" "acc_id b = acc_id a"
  shows "full_ok P (replace_active b v)"
proof -
  have act: "a \<in> set (fv_accounts v)" "fv_active v = JStr (acc_id b)" using full_active_mem [OF v(2)] b(2) by simp_all
  have "list_all (account_ok P) (replace_first p b xs)" if "list_all (account_ok P) xs" for p xs
    using that set_replace_first [of p b xs] b(1) by (auto simp: list_all_iff)
  moreover have "b \<in> set (replace_first (\<lambda>c. acc_id c = acc_id b) b xs)" if "a \<in> set xs" for xs
    using that b(2) by (induction xs) auto
  ultimately show ?thesis using v(1) act by (auto simp: full_ok_def replace_active_def)
qed

lemma with_active_ok:
  assumes P: "web_laws P" and E: "good_draw P E" and s: "web_at P ((=) x) s"
    and c: "\<And>v key kdf a b r. sealed_full P s v key kdf \<Longrightarrow> full_active v = Some a \<Longrightarrow> account_ok P a \<Longrightarrow> change a = Inr (b, r) \<Longrightarrow>
      account_ok P b \<and> key_change a b"
  shows "web_at P (vault_step P x) (snd (withActiveAccount E password change s))"
  unfolding withActiveAccount_def
proof (rule opened_then [OF P prims_of [OF E] s stay])
  fix v key kdf t
  assume h: "holds_vault P t v key kdf" "\<not> ws_isLocked t" "can_save t password" and x: "x = Some v" and sv: "sealed_full P s v key kdf"
  have here: "web_at P (vault_step P x) t" using h(1) unfolding x by (rule held_at) (rule stay)
  note v = holds_facts(4) [OF h(1,2)]
  obtain a where a: "full_active v = Some a" using full_active_found [OF v] by blast
  show "web_at P (vault_step P x) (snd (andThen (lift_res (opt_res (PlainError ''Active account not found in vault'') (full_active v)))
      (\<lambda>a. andThen (lift_res (change a)) (\<lambda>(b, r). andThen (save (we_prims E) (we_save E) (we_now E) (replace_active b v) password)
         (\<lambda>_. andThen (update_memory (put_public b)) (\<lambda>_. ret r)))) t))"
  proof (cases "change a")
    case (Inl e)
    then show ?thesis using a here by (simp add: andThen_apply)
  next
    case (Inr br)
    obtain b r where br: "br = (b, r)" by (cases br)
    have b: "account_ok P b" "key_change a b" using c [OF sv a full_active_ok [OF v a]] Inr br by auto
    then have ids: "acc_id b = acc_id a" by (simp add: key_change_def)
    have act: "fv_active v = JStr (acc_id b)" using full_active_mem [OF a] ids by simp
    have "web_at P (vault_step P x) (snd (andThen (save P (we_save E) (we_now E) (replace_active b v) password)
        (\<lambda>_. andThen (update_memory (put_public b)) (\<lambda>_. lift_res (Inr r))) t))"
      by (rule change_vault [OF P E h replace_active_ok [OF v a b(1) ids] mirrors_put [OF _ act]]) (simp_all add: x change [OF a b])
    then show ?thesis using a Inr br prims_of [OF E] by (simp add: andThen_apply lift_res_def ret_def)
  qed
qed

lemma rotate_change_ok:
  assumes P: "web_laws P" and E: "good_draw P E" and a: "account_ok P a" and n: "new_kid P (we_encryption E) \<notin> set (account_kids a)"
    and r: "rotate_change E ts a = Inr (b, r)"
  shows "account_ok P b" "key_change a b" "rotateAccountEncryptionKey P (we_now E) (we_encryption E) (account_js a) ts = Inr b"
proof -
  show rot: "rotateAccountEncryptionKey P (we_now E) (we_encryption E) (account_js a) ts = Inr b"
    using r prims_of [OF E] by (auto simp: rotate_change_def Let_def)
  have "envelope_laws P" "good_encryption_draw P (we_encryption E)" using P E by (simp_all add: web_laws_def good_draw_def)
  from rotated_ok [OF this a n rot] show "account_ok P b" .
  show "key_change a b" using rotate_keeps_keys [OF a rot] by (simp add: key_change_def)
qed

lemma rotate_ok:
  assumes P: "web_laws P" and E: "good_draw P E" and s: "web_at P ((=) x) s" and n: "new_to P E s"
  shows "web_at P (vault_step P x) (snd (web_rotateEncryptionKey E password ts s))"
  unfolding web_rotateEncryptionKey_def
proof (rule with_active_ok [OF P E s])
  fix v key kdf a b r
  assume h: "sealed_full P s v key kdf" "full_active v = Some a" "account_ok P a" "rotate_change E ts a = Inr (b, r)"
  have "new_kid P (we_encryption E) \<notin> set (account_kids a)" using n h(1) full_active_mem [OF h(2)] unfolding new_to_def by blast
  then show "account_ok P b \<and> key_change a b" using rotate_change_ok [OF P E h(3) _ h(4)] by blast
qed

lemma revert_ok:
  assumes P: "web_laws P" and E: "good_draw P E" and s: "web_at P ((=) x) s"
  shows "web_at P (vault_step P x) (snd (web_revertRotation E password kid s))"
  unfolding web_revertRotation_def
proof (rule with_active_ok [OF P E s])
  fix v key kdf a b r
  assume a: "account_ok P a" and "bind_res (revertAccountEncryptionKeyRotation (we_prims E) (we_now E) (account_js a) kid (we_now E))
    (\<lambda>b. Ok (b, ())) = Inr (b, r)"
  then have b: "revertAccountEncryptionKeyRotation P (we_now E) (account_js a) kid (we_now E) = Inr b" using prims_of [OF E] by simp
  show "account_ok P b \<and> key_change a b" using revert_account_ok [OF a b] b revert_result [OF a] by (auto simp: key_change_def)
qed

lemma destroy_ok:
  assumes P: "web_laws P" and E: "good_draw P E" and s: "web_at P ((=) x) s"
  shows "web_at P (vault_step P x) (snd (web_destroyRetired E password kid s))"
  unfolding web_destroyRetired_def
proof (rule with_active_ok [OF P E s])
  fix v key kdf a b r
  assume a: "account_ok P a" and "bind_res (destroyRetiredEncryptionKey (we_prims E) (we_now E) (account_js a) kid)
    (\<lambda>b. Ok (b, ())) = Inr (b, r)"
  then have b: "destroyRetiredEncryptionKey P (we_now E) (account_js a) kid = Inr b" using prims_of [OF E] by simp
  show "account_ok P b \<and> key_change a b" using destroy_account_ok(1) [OF a b] b destroy_result [OF a] by (auto simp: key_change_def)
qed

subsection \<open>Signing messages\<close>

lemma sign_message_ok:
  assumes P: "web_laws P" and E: "we_prims E = P" and s: "web_at P ((=) x) s"
  shows "web_at P (vault_step P x) (snd (web_signMessage E body password s))"
proof (cases "ws_isLocked s \<or> ws_signingKey s \<noteq> None")
  case True
  then show ?thesis using unchanged [OF s] by (auto simp: web_signMessage_def requireOpen_run andThen_apply)
next
  case False
  let ?k = "\<lambda>v. andThen (lift_res (opt_res (PlainError ''Active account not found in vault'') (full_active v)))
    (\<lambda>a. andThen (updates (\<lambda>s. s\<lparr>ws_signingKey := Some (identity_seed a)\<rparr>)) (\<lambda>_. ret (identity_seed a)))"
  have "web_at P (vault_step P x) (snd (andThen requireOpen (\<lambda>_. andThen (getFullVault (we_prims E) (we_now E) password) ?k) s))"
  proof (rule opened_then [OF P E s stay])
    fix v key kdf t
    assume h: "holds_vault P t v key kdf" "\<not> ws_isLocked t" and x: "x = Some v"
    have "web_at P (vault_step P x) (t\<lparr>ws_signingKey := k\<rparr>)" for k
      using held_at [OF holds_same [OF h(1), of "t\<lparr>ws_signingKey := k\<rparr>"]] h holds_facts(2) [OF h] stay x by simp
    moreover have "web_at P (vault_step P x) t" using h(1) unfolding x by (rule held_at) (rule stay)
    ultimately show "web_at P (vault_step P x) (snd (?k v t))" by (cases "full_active v") (simp_all add: andThen_apply)
  qed
  then have "web_at P (vault_step P x) (snd (prime_signingKey E password s))" using False by (simp add: requireOpen_run andThen_apply prime_signingKey_def)
  then show ?thesis
    using False by (auto simp: web_signMessage_def requireOpen_run andThen_apply split: prod.splits sum.splits)
qed

subsection \<open>A new vault\<close>

lemma strong_password: "requireStrongPassword password s = (Inr (), s) \<Longrightarrow> \<exists>p. password = Some p \<and> p \<noteq> []"
  by (cases password) (auto simp: requireStrongPassword_def password_js_def vaultPasswordProblem_def VAULT_PASSWORD_MIN_LENGTH_def)

lemma strong_run: "requireStrongPassword password s = (Inr (), s) \<or> (\<exists>e. requireStrongPassword password s = (Inl e, s))"
  by (auto simp: requireStrongPassword_def split: option.splits)

lemma disable_blank: "blank s \<Longrightarrow> blank (disableBiometrics s)"
  by (auto simp: blank_def clean_def disableBiometrics_def remove_item_def hasVault_def item_def)

lemma not_blank: "web_at P ((=) x) s \<Longrightarrow> \<not> hasVault s \<Longrightarrow> blank s \<and> x = None"
  using sealed_full_has by (auto simp: web_at_def holds_vault_def)

lemma first_save:
  assumes P: "web_laws P" and r: "good_draw P E" and s: "blank s" and v: "full_ok P v" and pw: "\<exists>p. password = Some p \<and> p \<noteq> []"
    and k: "\<And>t key kdf. sealed_full P t v key kdf \<Longrightarrow> cache_fits t key kdf \<Longrightarrow> web_at P Q (snd (k () t))"
  shows "web_at P Q (snd (andThen (save P (we_save E) now v password) k s))"
proof (rule saved_then [OF P _ v, where s = s])
  show "strong_rnd (we_save E)" using r by (simp add: good_draw_def)
  show "sealed_full P s undefined [] JNull \<or> \<not> hasCachedKey s" "cache_fits s [] JNull" "can_save s password"
    using s pw by (auto simp: blank_def clean_def hasCachedKey_def cache_fits_def can_save_def)
qed (use k in blast)

lemma opened_new: "sealed_full P t v key kdf \<Longrightarrow> cache_fits t key kdf \<Longrightarrow> Q (Some v) \<Longrightarrow> web_at P Q ((put_memory v (t\<lparr>ws_trust := S\<rparr>))\<lparr>ws_isLocked := False\<rparr>)"
  using mirrors_sanitize by (auto simp: put_memory_def intro!: held_memory)

lemma opened_new': "sealed_full P t v key kdf \<Longrightarrow> cache_fits t key kdf \<Longrightarrow> Q (Some v) \<Longrightarrow> web_at P Q ((put_memory v t)\<lparr>ws_isLocked := False\<rparr>)"
  using mirrors_sanitize by (auto simp: put_memory_def intro!: held_memory)

lemma setup_ok:
  assumes P: "web_laws P" and E: "good_draw P E" and s: "web_at P ((=) x) s"
  shows "web_at P (vault_step P x) (snd (web_setup E name password s))"
proof (cases "hasVault s \<or> requireStrongPassword password s \<noteq> (Inr (), s)")
  case True
  then show ?thesis using unchanged [OF s] strong_run [of password s] by (auto simp: web_setup_def andThen_apply guards_def)
next
  case False
  then have b: "blank (disableBiometrics s)" "\<exists>p. password = Some p \<and> p \<noteq> []" "x = None"
    using not_blank [OF s] disable_blank strong_password by blast+
  have d: "good_identity_draw P (we_identity E)" "good_encryption_draw P (we_encryption E)" "we_prims E = P"
    using E by (simp_all add: good_draw_def)
  obtain a where a: "generateAccount P (we_identity E, we_encryption E) (we_now E) name = Inr a" "account_ok P a"
    using generate_ok [of P "(we_identity E, we_encryption E)"] P d by (auto simp: web_laws_def)
  let ?v = "\<lparr>fv_accounts = [a], fv_active = JStr (acc_id a)\<rparr>"
  have v: "full_ok P ?v" using a(2) by (simp add: full_ok_def)
  from first_save [OF P E b(1) v b(2), where Q = "vault_step P x" and now = "we_now E" and
      k = "\<lambda>_. andThen (updates (\<lambda>s. (put_memory ?v s)\<lparr>ws_isLocked := False\<rparr>)) (\<lambda>_. ret (sanitize a))"]
  show ?thesis
    using False a(1) d(3) opened_new' create [OF v] b(3) by (simp add: web_setup_def andThen_apply Let_def)
qed

lemma parsed_accounts_ok: "map_res (parseAccount P now) raws = Inr xs \<Longrightarrow> list_all (account_ok P) xs"
  using map_res_set [of "parseAccount P now"] parse_ok by (fastforce simp: list_all_iff)

lemma chosen_active_ok:
  assumes "list_all (account_ok P) xs" "xs \<noteq> []"
  shows "full_ok P \<lparr>fv_accounts = xs, fv_active = chosen_active wanted xs\<rparr>"
  using assms by (auto simp: full_ok_def chosen_active_def list_ex_iff split: list.splits)

lemma import_new_ok:
  assumes P: "web_laws P" and E: "good_draw P E" and s: "web_at P ((=) x) s"
  shows "web_at P (vault_step P x) (snd (importNewVault E file password s))"
proof (cases "hasVault s \<or> requireStrongPassword password s \<noteq> (Inr (), s)")
  case True
  then show ?thesis using unchanged [OF s] strong_run [of password s] by (auto simp: importNewVault_def andThen_apply guards_def)
next
  case False
  then have b: "blank (disableBiometrics s)" "\<exists>p. password = Some p \<and> p \<noteq> []" "blank s" "x = None"
    using not_blank [OF s] disable_blank strong_password by blast+
  note run = importNewVault_def andThen_apply Let_def
  show ?thesis
  proof (cases "json_parse file")
    case None
    then show ?thesis using False unchanged [OF s] by (simp add: run)
  next
    case (Some d)
    show ?thesis
    proof (cases "backup_accounts d")
      case (Inl e)
      then show ?thesis using False unchanged [OF s] Some by (simp add: run)
    next
      case (Inr raws)
      show ?thesis
      proof (cases "map_res (parseAccount P (we_now E)) raws")
        case (Inl e)
        then show ?thesis using False Some Inr blank_at [OF b(1), of "vault_step P x"] b(4) stay prims_of [OF E] by (simp add: run)
      next
        case xs: (Inr xs)
        have "raws \<noteq> []" using Inr by (auto simp: backup_accounts_def split: if_splits option.splits list.splits)
        then have "xs \<noteq> []" using map_res_length [OF xs] by auto
        then have v: "full_ok P \<lparr>fv_accounts = xs, fv_active = chosen_active (js_get d ''activeAccountId'') xs\<rparr>" (is "full_ok P ?v")
          using chosen_active_ok parsed_accounts_ok [OF xs] by blast
        let ?k = "\<lambda>_. andThen (updates (open_imported ?v d))
          (\<lambda>_. lift_res (case full_active ?v of None \<Rightarrow> Throw (JsTypeError ''account is undefined'') | Some a \<Rightarrow> Ok (sanitize a)))"
        have "web_at P (vault_step P x) (snd (?k () t))" if "sealed_full P t ?v key kdf" "cache_fits t key kdf" for t key kdf
          using opened_new [OF that, of "vault_step P x"] create [OF v] b(4) by (simp add: andThen_apply open_imported_def)
        then have "web_at P (vault_step P x) (snd (andThen (save P (we_save E) (we_now E) ?v password) ?k (disableBiometrics s)))"
          by (rule first_save [OF P E b(1) v b(2)])
        then show ?thesis
          using False Some Inr xs prims_of [OF E] by (simp add: importNewVault_def Let_def andThen_apply)
      qed
    qed
  qed
qed

lemma import_blob_ok:
  assumes P: "web_laws P" and E: "good_draw P E" and s: "web_at P ((=) x) s"
  shows "web_at P (vault_step P x) (snd (importEncryptedBlob E blob passphrase password s))"
proof (cases "hasVault s \<or> requireStrongPassword password s \<noteq> (Inr (), s)")
  case True
  then show ?thesis using unchanged [OF s] strong_run [of password s] by (auto simp: importEncryptedBlob_def andThen_apply guards_def)
next
  case False
  then show ?thesis using unchanged [OF s] import_new_ok [OF P E s]
    by (auto simp: importEncryptedBlob_def andThen_apply split: prod.splits sum.splits option.splits simp: opt_res_def)
qed

subsection \<open>Merging a backup\<close>

lemma put_imported_ok:
  assumes "list_all (account_ok P) xs" "account_ok P a"
  shows "list_all (account_ok P) (put_imported a xs)" "acc_id ` set xs \<subseteq> acc_id ` set (put_imported a xs)"
proof -
  show "list_all (account_ok P) (put_imported a xs)"
    using assms set_replace_first [of "\<lambda>b. acc_id b = acc_id a" a xs] by (auto simp: put_imported_def list_all_iff)
  have "map acc_id (replace_first (\<lambda>b. acc_id b = acc_id a) a xs) = map acc_id xs" by (rule map_replace_first) simp
  then have "acc_id ` set (replace_first (\<lambda>b. acc_id b = acc_id a) a xs) = acc_id ` set xs" by (metis list.set_map)
  then show "acc_id ` set xs \<subseteq> acc_id ` set (put_imported a xs)" by (auto simp: put_imported_def)
qed

lemma merge_raw_ok:
  "merge_raw P now rs xs = Inr ys \<Longrightarrow> list_all (account_ok P) xs \<Longrightarrow>
   list_all (account_ok P) ys \<and> acc_id ` set xs \<subseteq> acc_id ` set ys"
proof (induction rs arbitrary: xs)
  case (Cons r rs)
  then obtain a where a: "parseAccount P now r = Inr a" "merge_raw P now rs (put_imported a xs) = Inr ys" by auto
  then show ?case using Cons.IH [OF a(2)] put_imported_ok [OF Cons.prems(2) parse_ok [OF a(1)]] by blast
qed simp

lemma merge_raw_fold:
  "merge_raw P now rs xs = Inr ys \<Longrightarrow> \<exists>imported. list_all (account_ok P) imported \<and> ys = fold put_imported imported xs"
proof (induction rs arbitrary: xs)
  case Nil
  then show ?case by (intro exI [of _ "[]"]) simp
next
  case (Cons r rs)
  then obtain a where a: "parseAccount P now r = Inr a" "merge_raw P now rs (put_imported a xs) = Inr ys" by auto
  then obtain imported where "list_all (account_ok P) imported" "ys = fold put_imported imported (put_imported a xs)"
    using Cons.IH by blast
  then show ?case using parse_ok [OF a(1)] by (intro exI [of _ "a # imported"]) simp
qed

lemma merged_step: "merge_raw P now rs (fv_accounts v) = Inr ys \<Longrightarrow> vault_step P (Some v) (Some (v\<lparr>fv_accounts := ys\<rparr>))"
  using merge_raw_fold merge by blast

lemma merged_ok: "merge_raw P now rs (fv_accounts v) = Inr ys \<Longrightarrow> full_ok P v \<Longrightarrow> full_ok P (v\<lparr>fv_accounts := ys\<rparr>)"
proof -
  assume m: "merge_raw P now rs (fv_accounts v) = Inr ys" and v: "full_ok P v"
  then have *: "list_all (account_ok P) ys" "acc_id ` set (fv_accounts v) \<subseteq> acc_id ` set ys"
    using merge_raw_ok [OF m] by (auto simp: full_ok_def)
  obtain a where "a \<in> set (fv_accounts v)" "fv_active v = JStr (acc_id a)" using v by (auto simp: full_ok_def)
  then have "\<exists>b\<in>set ys. fv_active v = JStr (acc_id b)" using *(2) by auto
  then show ?thesis using *(1) by (simp add: full_ok_def)
qed

lemma catches_state: "snd (catches m (\<lambda>e. fail (f e)) s) = snd (m s)"
  by (simp add: catches_def split: prod.splits sum.splits)

lemma import_ok:
  assumes P: "web_laws P" and E: "good_draw P E" and s: "web_at P ((=) x) s"
  shows "web_at P (vault_step P x) (snd (web_importVault E file password passphrase s))"
proof (cases "ws_isLocked s")
  case True
  then show ?thesis using unchanged [OF s] by (simp add: web_importVault_def andThen_apply requireOpen_run)
next
  case False
  let ?after = "\<lambda>d raws v accounts. if raws = [] then ret 0 else
      andThen (save (we_prims E) (we_save E) (we_now E) (v\<lparr>fv_accounts := accounts\<rparr>) password) (\<lambda>_.
      andThen (updates (\<lambda>s. put_memory (v\<lparr>fv_accounts := accounts\<rparr>)
        (s\<lparr>ws_trust := importTrustStores (ws_trust s) (js_get d ''trustStore'')\<rparr>))) (\<lambda>_. ret (length raws)))"
  have go: "web_at P (vault_step P x) (snd (andThen (getFullVault (we_prims E) (we_now E) password) (\<lambda>v.
      andThen (lift_res (merge_raw (we_prims E) (we_now E) raws (fv_accounts v))) (?after d raws v)) s))" for d raws
  proof -
    have "web_at P (vault_step P x) (snd (andThen requireOpen (\<lambda>_. andThen (getFullVault (we_prims E) (we_now E) password) (\<lambda>v.
      andThen (lift_res (merge_raw (we_prims E) (we_now E) raws (fv_accounts v))) (?after d raws v))) s))"
    proof (rule opened_then [OF P prims_of [OF E] s stay])
      fix v key kdf t
      assume h: "holds_vault P t v key kdf" "\<not> ws_isLocked t" "can_save t password" and x: "x = Some v"
  have here: "web_at P (vault_step P x) t" using h(1) unfolding x by (rule held_at) (rule stay)
      note f = holds_facts [OF h(1,2)]
      show "web_at P (vault_step P x) (snd (andThen (lift_res (merge_raw (we_prims E) (we_now E) raws (fv_accounts v))) (?after d raws v) t))"
      proof (cases "merge_raw P (we_now E) raws (fv_accounts v)")
        case (Inl e)
        then show ?thesis using here prims_of [OF E] by (simp add: andThen_apply)
      next
        case (Inr ys)
        have r: "strong_rnd (we_save E)" using E by (simp add: good_draw_def)
        have "web_at P (vault_step P x) (snd (andThen (save P (we_save E) (we_now E) (v\<lparr>fv_accounts := ys\<rparr>) password) (\<lambda>_.
          andThen (updates (\<lambda>s. put_memory (v\<lparr>fv_accounts := ys\<rparr>)
            (s\<lparr>ws_trust := importTrustStores (ws_trust s) (js_get d ''trustStore'')\<rparr>))) (\<lambda>_. ret (length raws))) t))"
          by (rule saved_then [OF P r merged_ok [OF Inr f(4)] _ f(2) h(3), of v])
            (use f h(2) mirrors_sanitize merged_step [OF Inr] x in \<open>auto simp: andThen_apply put_memory_def intro!: held_memory\<close>)
        then show ?thesis using Inr here prims_of [OF E] by (simp add: andThen_apply)
      qed
    qed
    then show ?thesis using False by (simp add: andThen_apply requireOpen_run)
  qed
  have start: "snd (andThen requireOpen (\<lambda>_. m) s) = snd (m s)" for m :: "nat web"
    using False by (simp add: andThen_apply requireOpen_run)
  show ?thesis
    unfolding web_importVault_def start catches_state
  proof (cases "backup_data (we_prims E) file passphrase")
    case (Inr d)
    then show "web_at P (vault_step P x) (snd (andThen (lift_res (backup_data (we_prims E) file passphrase)) (\<lambda>d.
        andThen (lift_res (imported_list d)) (\<lambda>raws. andThen (getFullVault (we_prims E) (we_now E) password) (\<lambda>v.
          andThen (lift_res (merge_raw (we_prims E) (we_now E) raws (fv_accounts v))) (?after d raws v)))) s))"
      using go unchanged [OF s] by (cases "imported_list d") (simp_all add: andThen_apply)
  qed (use unchanged [OF s] in \<open>simp add: andThen_apply\<close>)
qed

subsection \<open>Unlocking, locking, forgetting\<close>

lemma unlock_cases:
  assumes P: "web_laws P" and h: "holds_vault P s v key kdf"
  shows "deriveKey P pw kdf = Inr key \<Longrightarrow> web_unlock P now pw s = (Inr True, (put_memory v (cacheKey now key kdf s))\<lparr>ws_isLocked := False\<rparr>)"
    and "deriveKey P pw kdf = Inr k \<Longrightarrow> k \<noteq> key \<Longrightarrow> web_unlock P now pw s = (Inr False, s)"
    and "deriveKey P pw kdf = Inl e \<Longrightarrow> snd (web_unlock P now pw s) = s"
proof -
  have "sealed_full P s v key kdf" using h by (simp add: holds_vault_def)
  moreover have L: "aead_correct P" "aead_key_binding P" "kdf_laws P" using P by (simp_all add: web_laws_def)
  moreover have "full_ok P v" using h by (simp add: holds_vault_def sealed_full_def)
  ultimately obtain t blob where b: "item ''kryptolog_vault'' s = Some t" "parse_json t = Inr blob" "vaultKdfOf blob = Inr kdf"
      "decryptVaultWithKey P blob key = Inr (full_js v)" "normalizeVault P now (full_js v) = Inr v"
      "\<And>k. length k = 32 \<Longrightarrow> k \<noteq> key \<Longrightarrow> decryptVaultWithKey P blob k = Inl (PlainError ''Decryption failed with cached key'')"
    using sealed_full_blob [of P s v key kdf] normalize_full by metis
  note run = web_unlock_def stored_text_def andThen_apply catches_def unlock_result_def
  show "deriveKey P pw kdf = Inr key \<Longrightarrow> web_unlock P now pw s = (Inr True, (put_memory v (cacheKey now key kdf s))\<lparr>ws_isLocked := False\<rparr>)"
    using b by (simp add: run)
  show "deriveKey P pw kdf = Inr k \<Longrightarrow> k \<noteq> key \<Longrightarrow> web_unlock P now pw s = (Inr False, s)"
    using b deriveKey_length [OF L(3)] by (simp add: run)
  show "deriveKey P pw kdf = Inl e \<Longrightarrow> snd (web_unlock P now pw s) = s"
    using b by (simp add: run split: js_error.splits)
qed

lemma unlock_ok:
  assumes P: "web_laws P" and s: "web_at P ((=) x) s"
  shows "web_at P (vault_step P x) (snd (web_unlock P now pw s))"
  using s
proof (cases rule: web_at_cases)
  case blank
  then show ?thesis using unchanged [OF s] by (simp add: web_unlock_def stored_text_def andThen_apply blank_def hasVault_def)
next
  case (held v key kdf)
  have f: "sealed_full P s v key kdf" "cache_fits s key kdf" using held(1) by (simp_all add: holds_vault_def)
  have "sealed_full P (cacheKey now key kdf s) v key kdf" using f(1) same_vault_sealed [OF same_vault_ops(4)] by blast
  then have "web_at P (vault_step P x) ((put_memory v (cacheKey now key kdf s))\<lparr>ws_isLocked := False\<rparr>)"
    using opened_new' f(2) held(2) stay by simp
  then show ?thesis using unlock_cases [OF P held(1), of pw] unchanged [OF s] by (cases "deriveKey P pw kdf") (metis snd_conv)+
qed

lemma lock_ok:
  assumes "web_at P Q s"
  shows "web_at P Q (web_lock s)"
  using assms
proof (cases rule: web_at_cases)
  case blank
  then have "blank (web_lock s)" by (simp add: blank_def web_lock_def clean_def clearKeyCache_def hasVault_def item_def)
  then show ?thesis using blank(2) by (rule blank_at)
next
  case (held v key kdf)
  then have "holds_vault P (web_lock s) v key kdf"
    by (auto simp: holds_vault_def sealed_full_def memory_fits_def web_lock_def clean_def clearKeyCache_def cache_fits_def)
  then show ?thesis using held(2) by (rule held_at)
qed

lemma wipe_ok: "web_at P (vault_step P x) (wipeVault s)"
  by (intro blank_at forget) (simp add: blank_def wipeVault_def clearKeyCache_def disableBiometrics_def remove_item_def hasVault_def item_def clean_def)

text \<open>What only forgets, or writes elsewhere.\<close>

lemma aside_ok:
  assumes s: "web_at P Q s" and t: "same_vault s t" "ws_cachedKey t = None \<and> ws_cachedKdf t = None \<or> ws_cachedKey t = ws_cachedKey s \<and> ws_cachedKdf t = ws_cachedKdf s"
    "ws_signingKey t = None \<or> ws_signingKey t = ws_signingKey s"
  shows "web_at P Q t"
  using s
proof (cases rule: web_at_cases)
  case blank
  then have "blank t" using t by (auto simp: blank_def clean_def same_vault_def hasVault_def item_def)
  then show ?thesis using blank(2) by (rule blank_at)
next
  case (held v key kdf)
  have "cache_fits t key kdf" using held(1) t(2) by (auto simp: holds_vault_def cache_fits_def)
  moreover have "ws_isLocked s \<Longrightarrow> clean t" using held(1) t by (auto simp: holds_vault_def memory_fits_def clean_def same_vault_def)
  ultimately show ?thesis using holds_same [OF held(1) t(1)] held(2) held_at by blast
qed

lemma forgotten_ok:
  assumes "web_at P Q s"
  shows "web_at P Q (clearKeyCache s)" "web_at P Q (disableBiometrics s)" "web_at P Q (setCacheTTL ms s)" "web_at P Q (cache_timeout now s)"
    "k \<noteq> ''kryptolog_vault'' \<Longrightarrow> web_at P Q (set_item k t s)" "k \<noteq> ''kryptolog_vault'' \<Longrightarrow> web_at P Q (remove_item k s)"
proof -
  show c: "web_at P Q (clearKeyCache s)" by (rule aside_ok [OF assms]) (simp, simp_all add: clearKeyCache_def)
  show "web_at P Q (cache_timeout now s)" using c assms by (simp add: cache_timeout_def split: option.splits)
  show "web_at P Q (disableBiometrics s)" by (rule aside_ok [OF assms]) (simp, simp_all add: disableBiometrics_def remove_item_def)
  show "web_at P Q (setCacheTTL ms s)"
    by (rule aside_ok [OF assms]) (simp, simp_all add: setCacheTTL_def Let_def clearKeyCache_def set_item_def)
  show "web_at P Q (set_item k t s)" if "k \<noteq> ''kryptolog_vault''"
    using that by (intro aside_ok [OF assms]) (simp, simp_all add: set_item_def)
  show "web_at P Q (remove_item k s)" if "k \<noteq> ''kryptolog_vault''"
    using that by (intro aside_ok [OF assms]) (simp, simp_all add: remove_item_def)
qed

lemma opening_ok:
  assumes P: "web_laws P" and E: "we_prims E = P" and s: "web_at P Q s"
  shows "web_at P Q (snd (getFullVault (we_prims E) now password s))"
  using s
proof (cases rule: web_at_cases)
  case blank
  then show ?thesis using s by (simp add: getFullVault_def stored_text_def andThen_apply blank_def hasVault_def)
next
  case (held v key kdf)
  have P': "aead_correct P" "aead_key_binding P" "kdf_laws P" using P by (simp_all add: web_laws_def)
  show ?thesis using s E held(2) held_at [of P _ v]
    by (cases rule: getFullVault_cases [OF P' held(1), of now password]) auto
qed

lemma enable_bio_ok:
  assumes P: "web_laws P" and E: "we_prims E = P" and s: "web_at P ((=) x) s"
  shows "web_at P (vault_step P x) (snd (enableBiometrics E A rnd password s))"
proof (cases "verifyPassword P password s \<and> au_supported A")
  case False
  then show ?thesis using unchanged [OF s] E by (auto simp: enableBiometrics_def andThen_apply guards_def)
next
  case True
  have "web_at P (vault_step P x) (snd (getFullVault (we_prims E) (we_now E) password s))" by (rule opening_ok [OF P E unchanged [OF s]])
  then show ?thesis using True E
    by (auto simp: enableBiometrics_def andThen_apply Let_def intro!: forgotten_ok(5,6) split: prod.splits sum.splits)
qed

subsection \<open>Every event\<close>

lemma export_ok':
  assumes P: "web_laws P" and E: "we_prims E = P" and s: "web_at P ((=) x) s"
  shows "web_at P (vault_step P x) (snd (exportVault E password s))" "web_at P (vault_step P x) (snd (exportEncryptedBlob E passphrase password s))"
proof -
  show "web_at P (vault_step P x) (snd (exportVault E password s))"
    unfolding exportVault_def by (rule read_only [OF P E s stay]) simp
  let ?k = "\<lambda>pp v s. andThen (lift_res (encryptVault (we_prims E) (we_save E) (backup_js v (ws_trust s)) pp)) (\<lambda>blob. ret (json_text blob)) s"
  have "web_at P (vault_step P x) (snd (andThen requireOpen (\<lambda>_. andThen (getFullVault (we_prims E) (we_now E) password) (?k pp)) s))" for pp
    by (rule read_only [OF P E s stay]) (simp add: andThen_apply split: prod.splits sum.splits)
  then have "\<not> ws_isLocked s \<Longrightarrow> web_at P (vault_step P x) (snd (andThen (getFullVault (we_prims E) (we_now E) password) (?k pp) s))" for pp
    by (simp add: requireOpen_run andThen_apply)
  then show "web_at P (vault_step P x) (snd (exportEncryptedBlob E passphrase password s))"
    using unchanged [OF s] strong_run [of passphrase s]
    by (cases "given ''Transfer passphrase required'' passphrase")
      (auto simp: exportEncryptedBlob_def requireOpen_run andThen_apply)
qed

lemma using_ok:
  assumes "web_laws P" "we_prims E = P" "web_at P ((=) x) s"
  shows "web_at P (vault_step P x) (snd (web_sign E m password s))" "web_at P (vault_step P x) (snd (web_decrypt E d password s))"
    "web_at P (vault_step P x) (snd (web_decryptMany E ds password s))" "web_at P (vault_step P x) (snd (web_unwrapSessionKey E d password s))"
    "web_at P (vault_step P x) (snd (web_unwrapMany E ds password s))"
  by (simp_all add: web_sign_def web_decrypt_def web_decryptMany_def web_unwrapSessionKey_def web_unwrapMany_def
      with_active_keeps [OF assms stay])

lemma web_exec_ok:
  assumes P: "web_laws P" and g: "event_good P e s" and s: "web_at P ((=) x) s"
  shows "web_at P (vault_step P x) (web_exec e s)"
proof -
  note ops = setup_ok [OF P _ s] unlock_ok [OF P s] lock_ok [OF unchanged [OF s]] wipe_ok forgotten_ok(1-4) [OF unchanged [OF s]] add_ok [OF P _ s] switch_ok [OF P _ s]
    delete_ok [OF P _ s] using_ok [OF P _ s] sign_message_ok [OF P _ s] rotate_ok [OF P _ s] revert_ok [OF P _ s] destroy_ok [OF P _ s]
    export_ok' [OF P _ s] import_new_ok [OF P _ s] import_blob_ok [OF P _ s] import_ok [OF P _ s] enable_bio_ok [OF P _ s]
  show ?thesis using g by (cases e; (simp add: event_good_def)?; (intro ops)?; (simp add: prims_of unlock_ok [OF P s])?)
qed

lemma web_reach_at:
  "web_reach P s t \<Longrightarrow> web_laws P \<Longrightarrow> web_at P ((=) x) s \<Longrightarrow> web_at P ((vault_step P)\<^sup>*\<^sup>* x) t"
proof (induction rule: web_reach.induct)
  case start
  then show ?case by (auto elim: web_at_mono)
next
  case (event t e)
  then obtain y where y: "web_at P ((=) y) t" "(vault_step P)\<^sup>*\<^sup>* x y" by (auto simp: web_at_def)
  from web_at_mono [OF web_exec_ok [OF event.prems(1) event.hyps(2) y(1)]]
  show ?case using y(2) by (meson rtranclp.rtrancl_into_rtrancl)
qed

lemma initial_at: "storage ''kryptolog_vault'' = None \<Longrightarrow> web_at P ((=) None) (web_initial storage contacts)"
  by (intro blank_at) (simp_all add: blank_def clean_def web_initial_def Let_def hasVault_def item_def)

end
