(* ===== verification/WebCustody.thy ===== *)
theory WebCustody
  imports WebRounds WebRun
begin

text \<open>
  What the client's custody operations do when the vault answers them: the vault is opened with the
  password the user types, or with the key in the cache whatever the user types.
\<close>

subsection \<open>Nothing but the vault and the world changes\<close>

definition same_screen :: "'w client \<Rightarrow> 'w client \<Rightarrow> bool" where
  "same_screen s t \<longleftrightarrow> t = s\<lparr>cl_vault := cl_vault t, cl_world := cl_world t\<rparr>"

lemma same_screen_refl [simp]: "same_screen s s"
  by (simp add: same_screen_def)

lemma same_screen_trans: "same_screen s t \<Longrightarrow> same_screen t u \<Longrightarrow> same_screen s u"
  by (cases s, cases t, cases u) (simp add: same_screen_def)

lemma same_screen_world [simp]: "same_screen s (s\<lparr>cl_world := w\<rparr>)" "same_screen s (s\<lparr>cl_vault := v\<rparr>)"
  "same_screen s (s\<lparr>cl_vault := v, cl_world := w\<rparr>)" "same_screen s (s\<lparr>cl_world := w, cl_vault := v\<rparr>)"
  by (simp_all add: same_screen_def)

lemma same_screen_fields:
  "same_screen s t \<Longrightarrow> cl_extension t = cl_extension s" "same_screen s t \<Longrightarrow> cl_biometrics t = cl_biometrics s"
  "same_screen s t \<Longrightarrow> cl_session t = cl_session s" "same_screen s t \<Longrightarrow> cl_account t = cl_account s"
  "same_screen s t \<Longrightarrow> cl_encryptionKey t = cl_encryptionKey s"
  by (cases s; cases t; simp add: same_screen_def)+

text \<open>What of the world neither a prompt nor a draw touches.\<close>

definition untouched :: "'w outside \<Rightarrow> ('w \<Rightarrow> 'x) \<Rightarrow> bool" where
  "untouched O' obs \<longleftrightarrow> (\<forall>m w. obs (snd (ou_prompt O' m w)) = obs w) \<and> (\<forall>w. obs (snd (ou_draw O' w)) = obs w)"

subsection \<open>An open vault and the password at hand\<close>

definition typed :: "'w outside \<Rightarrow> string \<Rightarrow> bool" where
  "typed O' pw \<longleftrightarrow> (\<forall>m w. fst (ou_prompt O' m w) = Ok pw)"

definition open_with :: "'w outside \<Rightarrow> full_vault \<Rightarrow> bytes \<Rightarrow> jsval \<Rightarrow> 'w client \<Rightarrow> bool" where
  "open_with O' v key kdf s \<longleftrightarrow>
     \<not> cl_extension s \<and> \<not> cl_biometrics s \<and> holds_vault (ou_prims O') (cl_vault s) v key kdf \<and> \<not> ws_isLocked (cl_vault s)"

definition custody_opens :: "'w outside \<Rightarrow> bytes \<Rightarrow> jsval \<Rightarrow> string option \<Rightarrow> 'w client \<Rightarrow> bool" where
  "custody_opens O' key kdf password s \<longleftrightarrow>
     hasCachedKey (cl_vault s) \<or> (\<exists>p. password = Some p \<and> p \<noteq> [] \<and> deriveKey (ou_prims O') p kdf = Inr key)"

lemma requestPassword_opens:
  assumes t: "typed O' pw" and s: "\<not> cl_biometrics s"
    and pw: "hasCachedKey (cl_vault s) \<or> pw \<noteq> [] \<and> deriveKey (ou_prims O') pw kdf = Inr key"
  obtains p w where "requestPassword O' m force s = (Inr p, s\<lparr>cl_world := w\<rparr>)" "custody_opens O' key kdf p (s\<lparr>cl_world := w\<rparr>)"
    "w = cl_world s \<or> w = snd (ou_prompt O' m (cl_world s))"
proof (cases "\<not> force \<and> hasCachedKey (cl_vault s)")
  case True
  then show thesis using that [of None "cl_world s"] by (simp add: requestPassword_def custody_opens_def)
next
  case False
  obtain w where w: "ou_prompt O' m (cl_world s) = (Inr pw, w)"
    using t by (metis typed_def prod.collapse)
  then have "prompt_user O' m s = (Inr (Some pw), s\<lparr>cl_world := snd (ou_prompt O' m (cl_world s))\<rparr>)"
    by (simp add: prompt_user_def map_op_def in_world_def andThen_apply)
  then show thesis
    using False s pw that [of "Some pw" "snd (ou_prompt O' m (cl_world s))"] by (auto simp: requestPassword_def custody_opens_def)
qed

lemma getFull_opens:
  assumes P: "aead_correct P" and s: "holds_vault P s v key kdf" "\<not> ws_isLocked s"
    and pw: "hasCachedKey s \<or> (\<exists>p. password = Some p \<and> p \<noteq> [] \<and> deriveKey P p kdf = Inr key)"
  obtains t where "getFullVault P now password s = (Inr v, t)" "holds_vault P t v key kdf" "ws_isLocked t = ws_isLocked s"
    "same_vault s t" "hasCachedKey s \<Longrightarrow> hasCachedKey t" "ws_signingKey t = ws_signingKey s"
proof (cases "hasCachedKey s")
  case True
  have f: "sealed_full P s v key kdf" "cache_fits s key kdf" using s by (simp_all add: holds_vault_def)
  show thesis
    using that [OF open_cached_sealed [OF P f True]] holds_same [OF s(1), of "touchCache now s"] f(2) s(2) True by simp
next
  case False
  have f: "sealed_full P s v key kdf" "cache_fits s key kdf" using s by (simp_all add: holds_vault_def)
  obtain p where p: "password = Some p" "p \<noteq> []" "deriveKey P p kdf = Inr key" using pw False by blast
  show thesis
    using that [OF open_password_sealed [OF P f False p]] holds_same [OF s(1), of "cacheKey now key kdf s"] f(2) s(2) False by simp
qed

lemma drawn_run: "\<exists>d w. drawn O' s = (Inr d, s\<lparr>cl_world := w\<rparr>) \<and> we_prims (dr_env d) = ou_prims O' \<and> w = snd (ou_draw O' (cl_world s)) \<and>
    dr_seal d = dr_seal (fst (ou_draw O' (cl_world s)))"
  by (cases "ou_draw O' (cl_world s)") (simp add: drawn_def)

text \<open>An operation on the active account, run on a vault that opens.\<close>

lemma vault_use:
  assumes P: "aead_correct (ou_prims O')" and s: "open_with O' v key kdf s" and a: "full_active v = Some a"
    and pw: "custody_opens O' key kdf password s" and obs: "untouched O' obs"
  obtains E t where "in_vault O' (\<lambda>E. with_active_full E password missing (f E)) s = (f E a, t)" "we_prims E = ou_prims O'"
    "open_with O' v key kdf t" "same_screen s t" "obs (cl_world t) = obs (cl_world s)" "same_vault (cl_vault s) (cl_vault t)"
    "hasCachedKey (cl_vault s) \<Longrightarrow> hasCachedKey (cl_vault t)" "ws_signingKey (cl_vault t) = ws_signingKey (cl_vault s)"
proof -
  obtain d w where d: "drawn O' s = (Inr d, s\<lparr>cl_world := w\<rparr>)" "we_prims (dr_env d) = ou_prims O'" "w = snd (ou_draw O' (cl_world s))"
    using drawn_run [of O' s] by blast
  have h: "holds_vault (ou_prims O') (cl_vault s) v key kdf" "\<not> ws_isLocked (cl_vault s)" using s by (simp_all add: open_with_def)
  obtain u where u: "getFullVault (ou_prims O') (we_now (dr_env d)) password (cl_vault s) = (Inr v, u)"
      "holds_vault (ou_prims O') u v key kdf" "ws_isLocked u = ws_isLocked (cl_vault s)" "same_vault (cl_vault s) u"
      "hasCachedKey (cl_vault s) \<Longrightarrow> hasCachedKey u" "ws_signingKey u = ws_signingKey (cl_vault s)"
    using getFull_opens [OF P h, of password "we_now (dr_env d)"] pw by (auto simp: custody_opens_def)
  let ?t = "s\<lparr>cl_world := w, cl_vault := u\<rparr>"
  have "in_vault O' (\<lambda>E. with_active_full E password missing (f E)) s = (f (dr_env d) a, ?t)"
    using d u(1) h(2) a by (simp add: in_vault_def on_vault_def with_active_full_def requireOpen_run andThen_apply)
  moreover have "open_with O' v key kdf ?t" using s u(2,3) by (simp add: open_with_def)
  moreover have "obs w = obs (cl_world s)" using obs d(3) by (simp add: untouched_def)
  ultimately show thesis using that [of "dr_env d" ?t] d(2) u(4-6) by simp
qed

text \<open>The same through \<open>withCustody\<close>, with what the user types.\<close>

lemma custody_use:
  assumes P: "aead_correct (ou_prims O')" and s: "open_with O' v key kdf s" and a: "full_active v = Some a"
    and t: "typed O' pw" and obs: "untouched O' obs"
    and pw: "hasCachedKey (cl_vault s) \<or> pw \<noteq> [] \<and> deriveKey (ou_prims O') pw kdf = Inr key"
  obtains E u where
    "withCustody O' viaExt (\<lambda>password. in_vault O' (\<lambda>E. with_active_full E password missing (f E))) (Some ask) force s = (f E a, u)"
    "we_prims E = ou_prims O'" "open_with O' v key kdf u" "same_screen s u" "obs (cl_world u) = obs (cl_world s)"
    "hasCachedKey (cl_vault s) \<Longrightarrow> hasCachedKey (cl_vault u)" "ws_signingKey (cl_vault u) = ws_signingKey (cl_vault s)"
proof -
  have o: "\<not> cl_extension s" "\<not> cl_biometrics s" "\<not> ws_isLocked (cl_vault s)" using s by (simp_all add: open_with_def)
  obtain p w where p: "requestPassword O' ask force s = (Inr p, s\<lparr>cl_world := w\<rparr>)" "custody_opens O' key kdf p (s\<lparr>cl_world := w\<rparr>)"
      "w = cl_world s \<or> w = snd (ou_prompt O' ask (cl_world s))"
    using requestPassword_opens [OF t o(2) pw, of ask force] by metis
  have s': "open_with O' v key kdf (s\<lparr>cl_world := w\<rparr>)" using s by (simp add: open_with_def)
  obtain E u where u: "in_vault O' (\<lambda>E. with_active_full E p missing (f E)) (s\<lparr>cl_world := w\<rparr>) = (f E a, u)" "we_prims E = ou_prims O'"
      "open_with O' v key kdf u" "same_screen (s\<lparr>cl_world := w\<rparr>) u" "obs (cl_world u) = obs w"
      "hasCachedKey (cl_vault s) \<Longrightarrow> hasCachedKey (cl_vault u)" "ws_signingKey (cl_vault u) = ws_signingKey (cl_vault s)"
    by (rule vault_use [OF P s' a p(2) obs, of missing f]) simp
  have "obs w = obs (cl_world s)" using p(3) obs by (auto simp: untouched_def)
  then show thesis
    using that [of E u] u o p(1) same_screen_trans [of s "s\<lparr>cl_world := w\<rparr>" u] by (simp add: withCustody_def andThen_apply)
qed

text \<open>Custody operations over a mapped result.\<close>

lemma custody_map:
  assumes "withCustody O' viaExt viaVault ask force s = (Inr x, t)" and "\<not> cl_extension s"
  shows "withCustody O' viaExt' (\<lambda>pw. map_op f (viaVault pw)) ask force s = (Inr (f x), t)"
  using assms by (auto simp: withCustody_def andThen_apply map_op_def split: option.splits prod.splits sum.splits if_splits)

subsection \<open>Answered requests\<close>

lemma apiFetch_ok:
  assumes "ou_fetch O' \<lparr>rq_method = verb, rq_url = url, rq_token = map_option snd (cl_session s), rq_body = body\<rparr> (cl_world s) =
      (Inr \<lparr>rs_status = 200, rs_json = Some x\<rparr>, w)" and "body = None \<or> the_str (the body) = None"
  shows "apiFetch O' verb url body s = (Inr x, s\<lparr>cl_world := w\<rparr>)"
  using assms by (auto simp: apiFetch_def apiRaw_def in_world_def andThen_apply rs_ok_def)

lemma apiRaw_run:
  assumes "ou_fetch O' \<lparr>rq_method = verb, rq_url = url, rq_token = map_option snd (cl_session s), rq_body = body\<rparr> (cl_world s) = (Inr r, w)"
    and "body = None \<or> the_str (the body) = None" and "rs_status r \<noteq> 401"
  shows "apiRaw O' verb url body s = (Inr r, s\<lparr>cl_world := w\<rparr>)"
  using assms by (auto simp: apiRaw_def in_world_def andThen_apply)

end
