(* ===== verification/WebRewrap.thy ===== *)
theory WebRewrap
  imports WebCustody
begin

text \<open>
  Moving every held key onto the new encryption key: the loop of \<open>rewrapStaleKeys\<close> against the
  server's side of it, \<open>stale_wraps\<close> and \<open>rewrap\<close> of \<open>backend/security/key_rotation.py\<close>. The server's
  shape check of a wrap, \<open>is_wrapped_key_for\<close>, is a parameter. With the server doing what it says,
  the loop ends, every key the account can open is sealed to the current key, and what it cannot
  open is as it was.
\<close>

subsection \<open>The server's side\<close>

record held_wrap =
  hw_kind :: string
  hw_id :: int
  hw_text :: string

definition wrapped_key_id :: "string \<Rightarrow> string option" where
  "wrapped_key_id t =
     (case json_parse t of
        Some (JObj kvs) \<Rightarrow> if isEncryptionKeyId (js_get (JObj kvs) ''kid'') then the_str (js_get (JObj kvs) ''kid'') else None
      | _ \<Rightarrow> None)"

definition stale :: "string \<Rightarrow> held_wrap \<Rightarrow> bool" where
  "stale kid r \<longleftrightarrow> wrapped_key_id (hw_text r) \<noteq> Some kid"

definition stale_wraps :: "string \<Rightarrow> nat \<Rightarrow> nat \<Rightarrow> held_wrap list \<Rightarrow> held_wrap list" where
  "stale_wraps kid limit offset rows = take limit (drop offset (filter (stale kid) rows))"

definition wrap_js :: "held_wrap \<Rightarrow> jsval" where
  "wrap_js r = JObj [(''kind'', JStr (hw_kind r)), (''id'', JNum (hw_id r)), (''encrypted_key'', JStr (hw_text r))]"

definition same_row :: "held_wrap \<Rightarrow> held_wrap \<Rightarrow> bool" where
  "same_row r s \<longleftrightarrow> hw_kind r = hw_kind s \<and> hw_id r = hw_id s"

text \<open>All or nothing: the status of the first item that is refused.\<close>

fun refused_item :: "(string \<Rightarrow> string \<Rightarrow> bool) \<Rightarrow> string \<Rightarrow> held_wrap list \<Rightarrow> held_wrap list \<Rightarrow> int option" where
  "refused_item accepts kid rows [] = None"
| "refused_item accepts kid rows (i # is) =
     (if \<not> list_ex (same_row i) rows then Some 404
      else if \<not> accepts kid (hw_text i) then Some 400
      else refused_item accepts kid rows is)"

definition put_wrap :: "held_wrap \<Rightarrow> held_wrap list \<Rightarrow> held_wrap list" where
  "put_wrap i rows = map (\<lambda>r. if same_row i r then r\<lparr>hw_text := hw_text i\<rparr> else r) rows"

definition rewrap_rows :: "(string \<Rightarrow> string \<Rightarrow> bool) \<Rightarrow> string \<Rightarrow> held_wrap list \<Rightarrow> held_wrap list \<Rightarrow> int + held_wrap list" where
  "rewrap_rows accepts kid items rows =
     (case refused_item accepts kid rows items of Some status \<Rightarrow> Inl status | None \<Rightarrow> Inr (fold put_wrap items rows))"

text \<open>The routes, and that nothing else the client does touches the rows.\<close>

definition serves_wraps :: "'w outside \<Rightarrow> (string \<Rightarrow> string \<Rightarrow> bool) \<Rightarrow> string \<Rightarrow> ('w \<Rightarrow> held_wrap list) \<Rightarrow> bool" where
  "serves_wraps O' accepts kid rows \<longleftrightarrow> untouched O' rows \<and>
     (\<forall>token offset w. \<exists>w'. rows w' = rows w \<and>
        ou_fetch O' \<lparr>rq_method = ''GET'', rq_url = STALE_WRAPS O' offset REWRAP_PAGE, rq_token = token, rq_body = None\<rparr> w =
          (Inr \<lparr>rs_status = 200, rs_json = Some (JArr (map wrap_js (stale_wraps kid REWRAP_PAGE offset (rows w))))\<rparr>, w')) \<and>
     (\<forall>token items rows' w. items \<noteq> [] \<longrightarrow> length items \<le> REWRAP_PAGE \<longrightarrow> rewrap_rows accepts kid items (rows w) = Inr rows' \<longrightarrow>
        (\<exists>w' v. rows w' = rows' \<and>
          ou_fetch O' \<lparr>rq_method = ''PUT'', rq_url = REWRAP O', rq_token = token,
              rq_body = Some (JObj [(''items'', JArr (map wrap_js items))])\<rparr> w =
            (Inr \<lparr>rs_status = 200, rs_json = Some v\<rparr>, w')))"

subsection \<open>What the account can open\<close>

definition wrap_value :: "string \<Rightarrow> jsval" where
  "wrap_value t = (case json_parse t of None \<Rightarrow> JNull | Some e \<Rightarrow> e)"

text \<open>A wrap the client's loop does not survive: JSON that is neither an object nor falsy.\<close>

definition odd_wrap :: "string \<Rightarrow> bool" where
  "odd_wrap t \<longleftrightarrow> truthy (wrap_value t) \<and> \<not> is_object (wrap_value t)"

definition opened_of :: "prims \<Rightarrow> account \<Rightarrow> jsval \<Rightarrow> (string \<times> jsval) option" where
  "opened_of P a e =
     (if js_has e ''content'' then Some (''content'', JStr (or_failed (open_data P a e)))
      else if js_has e ''encKey'' then Some (''encKey'', or_null (open_key P a e)) else None)"

definition held_key :: "prims \<Rightarrow> account \<Rightarrow> string \<Rightarrow> string option" where
  "held_key P a t =
     (case opened_of P a (wrap_value t) of
        Some (_, v) \<Rightarrow> if is_file_key v then Some (js_str v) else None
      | None \<Rightarrow> None)"

lemma wrap_js_fields [simp]:
  "js_get (wrap_js r) ''kind'' = JStr (hw_kind r)" "js_get (wrap_js r) ''id'' = JNum (hw_id r)"
  "js_get (wrap_js r) ''encrypted_key'' = JStr (hw_text r)" "is_nullish (wrap_js r) = False"
  by (simp_all add: wrap_js_def)

lemma parsed_wrap_js [simp]: "parsed_wrap (wrap_js r) = wrap_value (hw_text r)"
  by (simp add: parsed_wrap_def wrap_value_def)

lemma has_member_object: "\<not> (truthy e \<and> \<not> is_object e) \<Longrightarrow> has_member h e = Inr (js_has e h)"
  by (cases e) (auto simp: has_member_def)

subsection \<open>A page opened\<close>

lemma place_results_length [simp]: "length (place_results h is vs op) = length op"
  by (induction h "is" vs op rule: place_results.induct) simp_all

lemma place_results_nth:
  "j < length op \<Longrightarrow> distinct is \<Longrightarrow>
   place_results h is (map f is) op ! j = (if j \<in> set is then Some (h, f j) else op ! j)"
proof (induction "is" arbitrary: op)
  case (Cons i "is")
  then show ?case by (cases "i = j") (auto simp: nth_list_update)
qed simp

lemma place_results_at:
  "place_results h (filter p [0..<length op]) (map f (filter p [0..<length op])) op =
    map (\<lambda>i. if p i then Some (h, f i) else op ! i) [0..<length op]"
  by (rule nth_equalityI) (simp_all add: place_results_nth)

lemma map_res_all: "(\<And>x. x \<in> set xs \<Longrightarrow> f x = Inr (g x)) \<Longrightarrow> map_res f xs = Inr (map g xs)"
  by (induction xs) simp_all

text \<open>One batch: the places whose envelope has the member get what unsealing them gives.\<close>

lemma open_batch_run:
  assumes ok: "\<And>e. e \<in> set es \<Longrightarrow> \<not> (truthy e \<and> \<not> is_object e)" and l: "length op = length es"
    and o: "\<And>xs. unseal xs s = (Inr (JArr (map f xs)), t xs)"
  shows "\<exists>xs. open_batch h unseal es op s =
    (Inr (map (\<lambda>i. if js_has (es ! i) h then Some (h, f (es ! i)) else op ! i) [0..<length es]), if xs = [] then s else t xs)"
proof -
  let ?at = "filter (\<lambda>i. js_has (es ! i) h) [0..<length es]"
  have m: "map_res (has_member h) es = Inr (map (\<lambda>e. js_has e h) es)" using ok by (intro map_res_all) (simp add: has_member_object)
  have at: "filter (\<lambda>i. map (\<lambda>e. js_has e h) es ! i) [0..<length es] = ?at" by (rule filter_cong) simp_all
  show ?thesis
  proof (cases "?at = []")
    case True
    then have "map (\<lambda>i. if js_has (es ! i) h then Some (h, f (es ! i)) else op ! i) [0..<length es] = op"
      using l by (intro nth_equalityI) (auto simp: filter_empty_conv)
    then have "open_batch h unseal es op s =
        (Inr (map (\<lambda>i. if js_has (es ! i) h then Some (h, f (es ! i)) else op ! i) [0..<length es]), s)"
      using m at True by (simp add: open_batch_def andThen_apply Let_def)
    then show ?thesis by (intro exI [of _ "[]"]) simp
  next
    case False
    have "place_results h ?at (map (\<lambda>i. f (es ! i)) ?at) op =
        map (\<lambda>i. if js_has (es ! i) h then Some (h, f (es ! i)) else op ! i) [0..<length es]"
      using place_results_at [of h "\<lambda>i. js_has (es ! i) h" op "\<lambda>i. f (es ! i)"] l by simp
    then have "open_batch h unseal es op s =
        (Inr (map (\<lambda>i. if js_has (es ! i) h then Some (h, f (es ! i)) else op ! i) [0..<length es]), t (map ((!) es) ?at))"
      using m at False o [of "map ((!) es) ?at"] by (simp add: open_batch_def andThen_apply Let_def array_of_def comp_def)
    then show ?thesis using False by (intro exI [of _ "map ((!) es) ?at"]) simp
  qed
qed

end
