(* ===== verification/WebMoving.thy ===== *)
theory WebMoving
  imports WebRewrap
begin

text \<open>
  The loop of \<open>rewrapStaleKeys\<close> run against the server: it ends, every wrap the account can open is
  sealed to the current key, and the others are as they were.
\<close>

subsection \<open>The setting\<close>

definition good_seals :: "'w outside \<Rightarrow> bool" where
  "good_seals O' \<longleftrightarrow> (\<forall>w. p384_valid (ou_prims O') (fst (fst (dr_seal (fst (ou_draw O' w))))) \<and> snd (dr_seal (fst (ou_draw O' w))) \<noteq> [])"

definition current_kid :: "account \<Rightarrow> string" where
  "current_kid a = ek_kid (acc_encryption a)"

text \<open>The server takes what the client seals to the current key.\<close>

definition takes_sealed :: "prims \<Rightarrow> (string \<Rightarrow> string \<Rightarrow> bool) \<Rightarrow> account \<Rightarrow> bool" where
  "takes_sealed P accepts a \<longleftrightarrow> (\<forall>rnd m f env. payload_field f \<longrightarrow>
     kemSeal P rnd m (JStr (ek_publicKey (acc_encryption a))) f = Inr env \<longrightarrow> accepts (current_kid a) (json_text env))"

definition moving ::
  "'w outside \<Rightarrow> (string \<Rightarrow> string \<Rightarrow> bool) \<Rightarrow> ('w \<Rightarrow> held_wrap list) \<Rightarrow> string \<Rightarrow> full_vault \<Rightarrow> bytes \<Rightarrow> jsval \<Rightarrow> account \<Rightarrow> bool" where
  "moving O' accepts rows pw v key kdf a \<longleftrightarrow>
     envelope_laws (ou_prims O') \<and> serves_wraps O' accepts (current_kid a) rows \<and> takes_sealed (ou_prims O') accepts a \<and>
     good_seals O' \<and> typed O' pw \<and> pw \<noteq> [] \<and> deriveKey (ou_prims O') pw kdf = Inr key \<and>
     full_active v = Some a \<and> account_ok (ou_prims O') a"

lemma moving_facts:
  assumes "moving O' accepts rows pw v key kdf a"
  shows "envelope_laws (ou_prims O')" "serves_wraps O' accepts (current_kid a) rows" "takes_sealed (ou_prims O') accepts a"
    "good_seals O'" "typed O' pw" "pw \<noteq> []" "deriveKey (ou_prims O') pw kdf = Inr key" "full_active v = Some a"
    "account_ok (ou_prims O') a" "aead_correct (ou_prims O')" "untouched O' rows"
  using assms by (simp_all add: moving_def envelope_laws_def serves_wraps_def)

text \<open>A step of the loop leaves the vault open, the rows alone and the screen as it was.\<close>

definition step_ok :: "'w outside \<Rightarrow> ('w \<Rightarrow> held_wrap list) \<Rightarrow> full_vault \<Rightarrow> bytes \<Rightarrow> jsval \<Rightarrow> 'w client \<Rightarrow> 'w client \<Rightarrow> bool" where
  "step_ok O' rows v key kdf s t \<longleftrightarrow> open_with O' v key kdf t \<and> rows (cl_world t) = rows (cl_world s) \<and> same_screen s t"

lemma step_ok_refl: "open_with O' v key kdf s \<Longrightarrow> step_ok O' rows v key kdf s s"
  by (simp add: step_ok_def)

lemma step_ok_trans: "step_ok O' rows v key kdf s t \<Longrightarrow> step_ok O' rows v key kdf t u \<Longrightarrow> step_ok O' rows v key kdf s u"
  by (auto simp: step_ok_def intro: same_screen_trans)

lemma map_op_run: "m s = (Inr x, t) \<Longrightarrow> map_op f m s = (Inr (f x), t)"
  by (simp add: map_op_def)

lemma custody_step:
  assumes M: "moving O' accepts rows pw v key kdf a" and s: "open_with O' v key kdf s"
  obtains t where "withCustody O' viaExt (\<lambda>password. map_op g (in_vault O' (\<lambda>E. with_active_full E password missing (\<lambda>a. Inr (f (we_prims E) a)))))
      (Some ask) force s = (Inr (g (f (ou_prims O') a)), t)" "step_ok O' rows v key kdf s t"
proof -
  note m = moving_facts [OF M]
  have pw: "hasCachedKey (cl_vault s) \<or> pw \<noteq> [] \<and> deriveKey (ou_prims O') pw kdf = Inr key" using m(6,7) by simp
  have x: "\<not> cl_extension s" using s by (simp add: open_with_def)
  show thesis
  proof (rule custody_use [OF m(10) s m(8) m(5) m(11) pw, where missing = missing and f = "\<lambda>E a. Inr (f (we_prims E) a)" and
      viaExt = "fail not_ready" and ask = ask and force = force])
    fix E u
    assume u: "withCustody O' (fail not_ready) (\<lambda>password. in_vault O' (\<lambda>E. with_active_full E password missing (\<lambda>a. Inr (f (we_prims E) a))))
        (Some ask) force s = (Inr (f (we_prims E) a), u)"
      and E: "we_prims E = ou_prims O'" and o: "open_with O' v key kdf u" "same_screen s u" "rows (cl_world u) = rows (cl_world s)"
    from that [OF custody_map [OF u x, of viaExt g, unfolded E]] o show thesis by (simp add: step_ok_def)
  qed
qed

lemma unwrapMany_step:
  assumes M: "moving O' accepts rows pw v key kdf a" and s: "open_with O' v key kdf s"
  obtains t where "pqc_unwrapMany O' es s = (Inr (JArr (map (\<lambda>e. or_null (open_key (ou_prims O') a e)) es)), t)"
    "step_ok O' rows v key kdf s t"
  using custody_step [OF M s, where f = "\<lambda>P a. map (\<lambda>w. or_null (open_key P a w)) es" and g = JArr and
      missing = "''Active account not found''" and ask = "''Enter password to unlock session keys (Batch):''" and force = False and
      viaExt = "if ou_has O' ''unwrapManySessionKeys'' then ext O' ''unwrapManySessionKeys'' [JArr es]
        else map_op JArr (ext_each O' ''unwrapSessionKey'' es)"]
  unfolding pqc_unwrapMany_def web_unwrapMany_def by blast

lemma decryptMany_step:
  assumes M: "moving O' accepts rows pw v key kdf a" and s: "open_with O' v key kdf s"
  obtains t where "pqc_decryptMany O' es s = (Inr (JArr (map (\<lambda>e. JStr (or_failed (open_data (ou_prims O') a e))) es)), t)"
    "step_ok O' rows v key kdf s t"
proof (rule custody_step [OF M s, where f = "\<lambda>P a. map (\<lambda>env. or_failed (open_data P a env)) es" and g = "\<lambda>ts. JArr (map JStr ts)" and
      missing = "''Active account not found in vault''" and ask = "''Enter password to decrypt '' @ nat_str (length es) @ '' messages:''" and
      force = False and viaExt = "decryptManyViaExtension O' es"])
  fix t
  assume "withCustody O' (decryptManyViaExtension O' es)
      (\<lambda>password. map_op (\<lambda>ts. JArr (map JStr ts)) (in_vault O' (\<lambda>E. with_active_full E password ''Active account not found in vault''
         (\<lambda>a. Inr (map (\<lambda>env. or_failed (open_data (we_prims E) a env)) es)))))
      (Some (''Enter password to decrypt '' @ nat_str (length es) @ '' messages:'')) False s =
      (Inr (JArr (map JStr (map (\<lambda>env. or_failed (open_data (ou_prims O') a env)) es))), t)" "step_ok O' rows v key kdf s t"
  then show thesis using that [of t] unfolding pqc_decryptMany_def web_decryptMany_def by (simp add: comp_def)
qed

subsection \<open>Sealing a key again\<close>

lemma file_key_bytes:
  assumes "is_file_key (JStr k)"
  obtains m where "k = toHex m" "m \<noteq> []"
proof -
  have k: "length k = 64" "list_all is_lhex k" using assms by (simp_all add: is_file_key_def or_default_def Let_def)
  have "list_all is_hex k" "k \<noteq> []" "length k mod 2 = 0" using k by (auto simp: list_all_iff is_hex_def)
  then have m: "fromHex (JStr k) = Inr (hex_pairs k)" by (simp only: fromHex.simps if_False not_True_eq_False simp_thms)
  then obtain h where "JStr k = JStr h" "toHex (hex_pairs k) = to_lower h" by (auto elim: fromHex_Ok)
  then have e: "k = toHex (hex_pairs k)" using to_lower_lhex [OF k(2)] by simp
  then have "hex_pairs k \<noteq> []" using k(1) by (metis fromHex_Ok m)
  then show thesis using that e by blast
qed

lemma kem_envelope_pure: "payload_field f \<Longrightarrow> js_pure (kem_envelope P c key iv kid f m)"
  by (auto simp: kem_envelope_def payload_field_def)

lemma kem_envelope_text: "payload_field f \<Longrightarrow> wrap_value (json_text (kem_envelope P c key iv kid f m)) = kem_envelope P c key iv kid f m"
  using json_parse_text [OF kem_envelope_pure, of f P c key iv kid m] by (simp add: wrap_value_def)

lemma kem_envelope_kid:
  "payload_field f \<Longrightarrow> isEncryptionKeyId (JStr kid) \<Longrightarrow> wrapped_key_id (json_text (kem_envelope P c key iv kid f m)) = Some kid"
  using json_parse_text [OF kem_envelope_pure, of f P c key iv kid m]
  by (auto simp: wrapped_key_id_def kem_envelope_def payload_field_def)

lemma kem_envelope_has: "js_has (kem_envelope P c key iv kid f m) h \<longleftrightarrow> h \<in> {''v'', ''alg'', ''kid'', ''kem'', ''iv'', f}"
  by (auto simp: kem_envelope_def)

lemma held_key_sealed:
  assumes f: "payload_field f" and k: "is_file_key (JStr k)"
    and o: "f = ''content'' \<Longrightarrow> open_data P a (kem_envelope P c key iv kid f m) = Inr k"
      "f = ''encKey'' \<Longrightarrow> open_key P a (kem_envelope P c key iv kid f m) = Inr k"
  shows "held_key P a (json_text (kem_envelope P c key iv kid f m)) = Some k"
  using f k o kem_envelope_text [OF f, of P c key iv kid m]
  by (auto simp: held_key_def opened_of_def kem_envelope_has payload_field_def or_failed_def or_null_def)

text \<open>What the resealed envelope of a row is.\<close>

definition resealed :: "prims \<Rightarrow> (string \<Rightarrow> string \<Rightarrow> bool) \<Rightarrow> account \<Rightarrow> string \<Rightarrow> jsval \<Rightarrow> bool" where
  "resealed P accepts a k env \<longleftrightarrow> truthy env \<and> held_key P a (json_text env) = Some k \<and>
     wrapped_key_id (json_text env) = Some (current_kid a) \<and> accepts (current_kid a) (json_text env)"

lemma resealed_envelope:
  assumes f: "payload_field f" and k: "is_file_key (JStr k)" and kid: "isEncryptionKeyId (JStr (current_kid a))"
    and t: "takes_sealed P accepts a"
    and e: "kemSeal P rnd m (JStr (ek_publicKey (acc_encryption a))) f = Inr (kem_envelope P c key iv (current_kid a) f m)"
    and o: "f = ''content'' \<Longrightarrow> open_data P a (kem_envelope P c key iv (current_kid a) f m) = Inr k"
      "f = ''encKey'' \<Longrightarrow> open_key P a (kem_envelope P c key iv (current_kid a) f m) = Inr k"
  shows "resealed P accepts a k (kem_envelope P c key iv (current_kid a) f m)"
proof -
  have "accepts (current_kid a) (json_text (kem_envelope P c key iv (current_kid a) f m))"
    using t f e unfolding takes_sealed_def by blast
  moreover have "truthy (kem_envelope P c key iv (current_kid a) f m)" by (simp add: kem_envelope_def)
  ultimately show ?thesis
    unfolding resealed_def using held_key_sealed [OF f k o] kem_envelope_kid [OF f kid] by blast
qed

lemma drawn_step:
  assumes M: "moving O' accepts rows pw v key kdf a" and s: "open_with O' v key kdf s"
  obtains d t where "drawn O' s = (Inr d, t)" "step_ok O' rows v key kdf s t"
    "p384_valid (ou_prims O') (fst (fst (dr_seal d)))" "snd (dr_seal d) \<noteq> []"
proof -
  note m = moving_facts [OF M]
  obtain d w where d: "drawn O' s = (Inr d, s\<lparr>cl_world := w\<rparr>)" "w = snd (ou_draw O' (cl_world s))"
      "dr_seal d = dr_seal (fst (ou_draw O' (cl_world s)))"
    using drawn_run [of O' s] by blast
  moreover have "step_ok O' rows v key kdf s (s\<lparr>cl_world := w\<rparr>)"
    using s m(11) d(2) by (simp add: step_ok_def open_with_def untouched_def)
  moreover have "p384_valid (ou_prims O') (fst (fst (dr_seal d)))" "snd (dr_seal d) \<noteq> []"
    using m(4) d(3) by (simp_all add: good_seals_def)
  ultimately show thesis using that by blast
qed

lemma reseal_step:
  assumes M: "moving O' accepts rows pw v key kdf a" and s: "open_with O' v key kdf s"
    and k: "held_key (ou_prims O') a t = Some k"
  obtains env u where "reseal_one O' (ek_publicKey (acc_encryption a)) (opened_of (ou_prims O') a (wrap_value t)) s = (Inr env, u)"
    "step_ok O' rows v key kdf s u" "resealed (ou_prims O') accepts a k env"
proof -
  note m = moving_facts [OF M]
  let ?P = "ou_prims O'" and ?pk = "ek_publicKey (acc_encryption a)"
  obtain h where h: "opened_of ?P a (wrap_value t) = Some (h, JStr k)" "is_file_key (JStr k)" "h = ''content'' \<or> h = ''encKey''"
    using k by (auto simp: held_key_def opened_of_def or_null_def is_file_key_def or_default_def Let_def split: if_splits sum.splits)
  obtain d u where d: "drawn O' s = (Inr d, u)" "step_ok O' rows v key kdf s u"
      "p384_valid ?P (fst (fst (dr_seal d)))" "snd (dr_seal d) \<noteq> []"
    using drawn_step [OF M s] .
  have mem: "acc_encryption a \<in> set (account_keys a)" by (simp add: account_keys_def)
  have st: "\<not> cl_extension s" "\<not> ws_isLocked (cl_vault s)" using s by (simp_all add: open_with_def)
  have pk: "?pk \<noteq> []" using m(9) by (auto simp: account_ok_def key_ok_def encryptionKeyId_def fromHex.simps)
  obtain b where b: "k = toHex b" "b \<noteq> []" using file_key_bytes [OF h(2)] .
  show thesis
  proof (cases "h = ''encKey''")
    case True
    have f: "payload_field ''encKey''" by (simp add: payload_field_def)
    obtain c ky where e: "wrapSessionKey ?P (dr_seal d) (JStr k) (JStr ?pk) =
          Inr (kem_envelope ?P c ky (snd (dr_seal d)) (current_kid a) ''encKey'' b)"
        "open_key ?P a (kem_envelope ?P c ky (snd (dr_seal d)) (current_kid a) ''encKey'' b) = Inr k"
      using wrapped_opens [OF m(1) m(9) mem d(3,4) b(2)] b(1) unfolding current_kid_def by blast
    let ?env = "kem_envelope ?P c ky (snd (dr_seal d)) (current_kid a) ''encKey'' b"
    have "reseal_one O' ?pk (opened_of ?P a (wrap_value t)) s = (Inr ?env, u)"
      using h True st d(1) e(1) by (simp add: reseal_one_def pqc_wrapSessionKey_def withCustody_def andThen_apply)
    moreover have "kemSeal ?P (dr_seal d) b (JStr ?pk) ''encKey'' = Inr ?env"
      using e(1) fromHex_toHex [OF b(2)] b(1) by (simp add: wrapSessionKey_def)
    moreover have "isEncryptionKeyId (JStr (current_kid a))"
      using m(1,9) encryptionKeyId_shape by (auto simp: current_kid_def account_ok_def key_ok_def envelope_laws_def)
    ultimately have "resealed ?P accepts a k ?env"
      using resealed_envelope [OF f h(2) _ m(3)] e(2) by simp
    then show thesis using that [of ?env u] d(2) \<open>reseal_one O' _ _ s = (Inr ?env, u)\<close> by blast
  next
    case False
    then have hc: "h = ''content''" using h(3) by blast
    have f: "payload_field ''content''" by (simp add: payload_field_def)
    obtain c ky where e: "kemSeal ?P (dr_seal d) (utf8 k) (JStr ?pk) ''content'' =
          Inr (kem_envelope ?P c ky (snd (dr_seal d)) (current_kid a) ''content'' (utf8 k))"
        "encryptionSeedFor a (kem_envelope ?P c ky (snd (dr_seal d)) (current_kid a) ''content'' (utf8 k)) = Inr (ek_seed (acc_encryption a))"
        "\<And>what. kemOpen ?P (kem_envelope ?P c ky (snd (dr_seal d)) (current_kid a) ''content'' (utf8 k)) (JStr (ek_seed (acc_encryption a))) ''content'' what = Inr (utf8 k)"
        "isEncryptionKeyId (JStr (current_kid a))"
      using sealed_to_key [OF m(1) m(9) mem d(3,4) f, of "utf8 k"] unfolding current_kid_def by metis
    let ?env = "kem_envelope ?P c ky (snd (dr_seal d)) (current_kid a) ''content'' (utf8 k)"
    have "reseal_one O' ?pk (opened_of ?P a (wrap_value t)) s = (Inr ?env, u)"
      using h hc st d(1) e(1) pk by (simp add: reseal_one_def pqc_encrypt_def some_key_def Let_def andThen_apply encryptMessage_def)
    moreover have "open_data ?P a ?env = Inr k"
      using e(2,3) utf.dec_enc by (simp add: open_data_def decryptMessage_def)
    ultimately have "resealed ?P accepts a k ?env"
      using resealed_envelope [OF f h(2) e(4) m(3) e(1)] by simp
    then show thesis using that [of ?env u] d(2) \<open>reseal_one O' _ _ s = (Inr ?env, u)\<close> by blast
  qed
qed

text \<open>A page: one item for each row that opens, and the number of the others.\<close>

definition item_for :: "prims \<Rightarrow> (string \<Rightarrow> string \<Rightarrow> bool) \<Rightarrow> account \<Rightarrow> held_wrap \<Rightarrow> held_wrap \<Rightarrow> bool" where
  "item_for P accepts a r i \<longleftrightarrow> same_row i r \<and> held_key P a (hw_text i) = held_key P a (hw_text r) \<and>
     \<not> stale (current_kid a) i \<and> accepts (current_kid a) (hw_text i)"

definition readable :: "prims \<Rightarrow> account \<Rightarrow> held_wrap \<Rightarrow> bool" where
  "readable P a r \<longleftrightarrow> held_key P a (hw_text r) \<noteq> None"

lemma reseal_unreadable:
  "\<not> readable P a r \<Longrightarrow> reseal_one O' pk (opened_of P a (wrap_value (hw_text r))) s = (Inr JNull, s)"
  by (auto simp: readable_def held_key_def reseal_one_def split: option.splits if_splits)

lemma reseal_all_run:
  assumes M: "moving O' accepts rows pw v key kdf a"
  shows "open_with O' v key kdf s \<Longrightarrow>
    \<exists>items t. reseal_all O' (ek_publicKey (acc_encryption a)) (map (\<lambda>r. (wrap_js r, opened_of (ou_prims O') a (wrap_value (hw_text r)))) rs) s =
        (Inr (map wrap_js items, length (filter (\<lambda>r. \<not> readable (ou_prims O') a r) rs)), t) \<and> step_ok O' rows v key kdf s t \<and>
      list_all2 (item_for (ou_prims O') accepts a) (filter (readable (ou_prims O') a) rs) items"
proof (induction rs arbitrary: s)
  case Nil
  then show ?case using step_ok_refl by (intro exI [of _ "[]"]) simp
next
  case (Cons r rs)
  let ?P = "ou_prims O'" and ?pk = "ek_publicKey (acc_encryption a)"
  show ?case
  proof (cases "readable ?P a r")
    case False
    obtain items t where "reseal_all O' ?pk (map (\<lambda>r. (wrap_js r, opened_of ?P a (wrap_value (hw_text r)))) rs) s =
          (Inr (map wrap_js items, length (filter (\<lambda>r. \<not> readable ?P a r) rs)), t)" "step_ok O' rows v key kdf s t"
        "list_all2 (item_for ?P accepts a) (filter (readable ?P a) rs) items"
      using Cons by blast
    then show ?thesis using False
      by (intro exI [of _ items] exI [of _ t]) (simp add: andThen_apply reseal_unreadable [OF False])
  next
    case True
    then obtain k where k: "held_key ?P a (hw_text r) = Some k" by (auto simp: readable_def)
    obtain env u where e: "reseal_one O' ?pk (opened_of ?P a (wrap_value (hw_text r))) s = (Inr env, u)"
        "step_ok O' rows v key kdf s u" "resealed ?P accepts a k env"
      using reseal_step [OF M Cons.prems k] .
    obtain items t where i: "reseal_all O' ?pk (map (\<lambda>r. (wrap_js r, opened_of ?P a (wrap_value (hw_text r)))) rs) u =
          (Inr (map wrap_js items, length (filter (\<lambda>r. \<not> readable ?P a r) rs)), t)" "step_ok O' rows v key kdf u t"
        "list_all2 (item_for ?P accepts a) (filter (readable ?P a) rs) items"
      using Cons.IH [of u] e(2) by (auto simp: step_ok_def)
    let ?i = "r\<lparr>hw_text := json_text env\<rparr>"
    have "wrap_js ?i = JObj [(''kind'', js_get (wrap_js r) ''kind''), (''id'', js_get (wrap_js r) ''id''), (''encrypted_key'', JStr (json_text env))]"
      by (simp add: wrap_js_def)
    moreover have "item_for ?P accepts a r ?i" using e(3) k by (simp add: item_for_def resealed_def same_row_def stale_def)
    moreover have "truthy env" using e(3) by (simp add: resealed_def)
    ultimately show ?thesis
      using True e(1) i step_ok_trans [OF e(2) i(2)] by (intro exI [of _ "?i # items"]) (simp add: andThen_apply)
  qed
qed

end
