(* ===== verification/WebMoved.thy ===== *)
theory WebMoved
  imports WebMoving
begin

text \<open>
  The rounds of \<open>rewrapStaleKeys\<close> put together: what one page does to the server's rows, and by
  induction on the stale rows that are left, what the whole loop does.
\<close>

subsection \<open>Rows after a batch\<close>

definition row_key :: "held_wrap \<Rightarrow> string \<times> int" where
  "row_key r = (hw_kind r, hw_id r)"

lemma same_row_key: "same_row r s \<longleftrightarrow> row_key r = row_key s"
  by (simp add: same_row_def row_key_def)

lemma put_wrap_keys [simp]: "map row_key (put_wrap i rows) = map row_key rows"
  by (induction rows) (simp_all add: put_wrap_def row_key_def)

lemma row_key_text [simp]: "row_key (r\<lparr>hw_text := t\<rparr>) = row_key r"
  by (simp add: row_key_def)

definition with_items :: "held_wrap list \<Rightarrow> held_wrap \<Rightarrow> held_wrap" where
  "with_items items r = (case find (\<lambda>i. same_row i r) items of None \<Rightarrow> r | Some i \<Rightarrow> r\<lparr>hw_text := hw_text i\<rparr>)"

lemma fold_put_wrap: "distinct (map row_key items) \<Longrightarrow> fold put_wrap items rows = map (with_items items) rows"
proof (induction items arbitrary: rows)
  case Nil
  then show ?case by (simp add: with_items_def)
next
  case (Cons i items)
  have "with_items items (if same_row i r then r\<lparr>hw_text := hw_text i\<rparr> else r) = with_items (i # items) r" for r
  proof (cases "same_row i r")
    case True
    have "\<not> same_row j r" if "j \<in> set items" for j
      using imageI [OF that, of row_key] Cons.prems True by (auto simp: same_row_key)
    then have "find (\<lambda>j. same_row j r) items = None" by (simp add: find_None_iff)
    then show ?thesis using True by (simp add: with_items_def same_row_key)
  qed (simp add: with_items_def)
  then show ?case using Cons by (simp add: put_wrap_def comp_def)
qed

lemma refused_item_none:
  "(\<And>i. i \<in> set items \<Longrightarrow> accepts kid (hw_text i) \<and> (\<exists>r\<in>set rows. same_row i r)) \<Longrightarrow> refused_item accepts kid rows items = None"
  by (induction items) (auto simp: list_ex_iff)

text \<open>What the loop may do to a row.\<close>

definition moved_row :: "prims \<Rightarrow> account \<Rightarrow> held_wrap \<Rightarrow> held_wrap \<Rightarrow> bool" where
  "moved_row P a r s \<longleftrightarrow> row_key s = row_key r \<and>
     (s = r \<or> stale (current_kid a) r \<and> readable P a r \<and> \<not> stale (current_kid a) s \<and>
       held_key P a (hw_text s) = held_key P a (hw_text r))"

lemma moved_row_refl: "moved_row P a r r"
  by (simp add: moved_row_def)

lemma moved_row_trans: "moved_row P a r s \<Longrightarrow> moved_row P a s t \<Longrightarrow> moved_row P a r t"
  by (auto simp: moved_row_def)

lemma list_all2_trans_moved:
  "list_all2 (moved_row P a) xs ys \<Longrightarrow> list_all2 (moved_row P a) ys zs \<Longrightarrow> list_all2 (moved_row P a) xs zs"
  by (rule list_all2_trans [of "moved_row P a" "moved_row P a"]) (auto intro: moved_row_trans)

text \<open>The rows of a page and the items made of them.\<close>

lemma items_keys: "list_all2 (item_for P accepts a) rs items \<Longrightarrow> map row_key items = map row_key rs"
  by (induction rule: list_all2_induct) (simp_all add: item_for_def same_row_key)

lemma items_put:
  assumes items: "list_all2 (item_for P accepts a) rs items" and d: "distinct (map row_key rows)"
    and rs: "set rs \<subseteq> set rows" "\<And>r. r \<in> set rs \<Longrightarrow> stale (current_kid a) r \<and> readable P a r" "distinct (map row_key rs)"
  shows "rewrap_rows accepts (current_kid a) items rows = Inr (map (with_items items) rows)"
    and "r \<in> set rows \<Longrightarrow> moved_row P a r (with_items items r)"
    and "r \<in> set rows \<Longrightarrow> stale (current_kid a) (with_items items r) \<longleftrightarrow> stale (current_kid a) r \<and> r \<notin> set rs"
    and "r \<in> set rows \<Longrightarrow> r \<notin> set rs \<Longrightarrow> with_items items r = r"
proof -
  have keys: "map row_key items = map row_key rs" using items_keys [OF items] .
  have of_item: "\<exists>r\<in>set rs. item_for P accepts a r i" if i: "i \<in> set items" for i
    using items i by (metis list_all2_conv_all_nth in_set_conv_nth)
  have "refused_item accepts (current_kid a) rows items = None"
  proof (rule refused_item_none)
    fix i
    assume "i \<in> set items"
    then obtain r where "r \<in> set rs" "item_for P accepts a r i" using of_item by blast
    then show "accepts (current_kid a) (hw_text i) \<and> (\<exists>r\<in>set rows. same_row i r)" using rs(1) by (auto simp: item_for_def)
  qed
  then show "rewrap_rows accepts (current_kid a) items rows = Inr (map (with_items items) rows)"
    using fold_put_wrap [of items rows] rs(3) keys by (simp add: rewrap_rows_def)
  have out: "with_items items r = r" if r: "r \<in> set rows" "r \<notin> set rs" for r
  proof -
    have "\<not> same_row i r" if i: "i \<in> set items" for i
    proof
      assume "same_row i r"
      moreover obtain q where q: "q \<in> set rs" "item_for P accepts a q i" using of_item [OF i] by blast
      ultimately have "row_key q = row_key r" by (simp add: item_for_def same_row_key)
      then have "q = r" using d q(1) rs(1) r(1) by (auto simp: distinct_map inj_on_def)
      then show False using q(1) r(2) by simp
    qed
    then have "find (\<lambda>i. same_row i r) items = None" by (simp add: find_None_iff)
    then show ?thesis by (simp add: with_items_def)
  qed
  then show "r \<in> set rows \<Longrightarrow> r \<notin> set rs \<Longrightarrow> with_items items r = r" by blast
  have inside: "moved_row P a r (with_items items r) \<and> \<not> stale (current_kid a) (with_items items r)" if r: "r \<in> set rs" for r
  proof -
    have "\<exists>i\<in>set items. row_key i = row_key r" using r keys by (metis (mono_tags, lifting) image_iff list.set_map)
    then obtain i where i: "find (\<lambda>i. same_row i r) items = Some i"
      by (cases "find (\<lambda>i. same_row i r) items") (auto simp: find_None_iff same_row_key)
    then have im: "i \<in> set items" "row_key i = row_key r" by (auto simp: find_Some_iff same_row_key)
    obtain q where q: "q \<in> set rs" "item_for P accepts a q i" using of_item [OF im(1)] by blast
    then have "row_key q = row_key r" using im(2) by (simp add: item_for_def same_row_key)
    then have "q = r" using d q(1) rs(1) r by (auto simp: distinct_map inj_on_def)
    then show ?thesis using q i rs(2) [OF r] by (simp add: with_items_def moved_row_def item_for_def stale_def)
  qed
  show "moved_row P a r (with_items items r)" if "r \<in> set rows"
    using inside out [OF that] moved_row_refl by (cases "r \<in> set rs") simp_all
  show "stale (current_kid a) (with_items items r) \<longleftrightarrow> stale (current_kid a) r \<and> r \<notin> set rs" if "r \<in> set rows"
    using inside out [OF that] by (cases "r \<in> set rs") simp_all
qed

subsection \<open>One turn\<close>

lemma open_batches:
  assumes M: "moving O' accepts rows pw v key kdf a" and s: "open_with O' v key kdf s"
    and ok: "\<And>r. r \<in> set rs \<Longrightarrow> \<not> odd_wrap (hw_text r)"
  obtains t where "andThen (open_batch ''encKey'' (pqc_unwrapMany O') (map (\<lambda>r. wrap_value (hw_text r)) rs) (replicate (length rs) None))
      (\<lambda>op. open_batch ''content'' (pqc_decryptMany O') (map (\<lambda>r. wrap_value (hw_text r)) rs) op) s =
      (Inr (map (\<lambda>r. opened_of (ou_prims O') a (wrap_value (hw_text r))) rs), t)" "step_ok O' rows v key kdf s t"
proof -
  let ?P = "ou_prims O'" and ?es = "map (\<lambda>r. wrap_value (hw_text r)) rs"
  have fine: "\<not> (truthy e \<and> \<not> is_object e)" if "e \<in> set ?es" for e using that ok by (auto simp: odd_wrap_def)
  have "\<forall>xs. \<exists>t. pqc_unwrapMany O' xs s = (Inr (JArr (map (\<lambda>e. or_null (open_key ?P a e)) xs)), t) \<and> step_ok O' rows v key kdf s t"
    by (intro allI, rule unwrapMany_step [OF M s]) blast
  then obtain t1 where "\<forall>xs. pqc_unwrapMany O' xs s = (Inr (JArr (map (\<lambda>e. or_null (open_key ?P a e)) xs)), t1 xs) \<and>
      step_ok O' rows v key kdf s (t1 xs)"
    by (rule choice [THEN exE])
  then have t1: "pqc_unwrapMany O' xs s = (Inr (JArr (map (\<lambda>e. or_null (open_key ?P a e)) xs)), t1 xs) \<and>
      step_ok O' rows v key kdf s (t1 xs)" for xs by blast
  let ?op = "map (\<lambda>i. if js_has (?es ! i) ''encKey'' then Some (''encKey'', or_null (open_key ?P a (?es ! i))) else replicate (length rs) None ! i) [0..<length ?es]"
  obtain xs1 where b1: "open_batch ''encKey'' (pqc_unwrapMany O') ?es (replicate (length rs) None) s = (Inr ?op, if xs1 = [] then s else t1 xs1)"
    using open_batch_run [OF fine, where op = "replicate (length rs) None" and unseal = "pqc_unwrapMany O'" and s = s and
      f = "\<lambda>e. or_null (open_key ?P a e)" and t = t1 and h = "''encKey''" and es = ?es] t1 by auto
  let ?u = "if xs1 = [] then s else t1 xs1"
  have u: "step_ok O' rows v key kdf s ?u" using t1 step_ok_refl [OF s] by simp
  then have ou: "open_with O' v key kdf ?u" by (simp add: step_ok_def)
  have "\<forall>xs. \<exists>t. pqc_decryptMany O' xs ?u = (Inr (JArr (map (\<lambda>e. JStr (or_failed (open_data ?P a e))) xs)), t) \<and>
      step_ok O' rows v key kdf ?u t"
    by (intro allI, rule decryptMany_step [OF M ou]) blast
  then obtain t2 where "\<forall>xs. pqc_decryptMany O' xs ?u = (Inr (JArr (map (\<lambda>e. JStr (or_failed (open_data ?P a e))) xs)), t2 xs) \<and>
      step_ok O' rows v key kdf ?u (t2 xs)"
    by (rule choice [THEN exE])
  then have t2: "pqc_decryptMany O' xs ?u = (Inr (JArr (map (\<lambda>e. JStr (or_failed (open_data ?P a e))) xs)), t2 xs) \<and>
      step_ok O' rows v key kdf ?u (t2 xs)" for xs by blast
  obtain xs2 where b2: "open_batch ''content'' (pqc_decryptMany O') ?es ?op ?u =
      (Inr (map (\<lambda>i. if js_has (?es ! i) ''content'' then Some (''content'', JStr (or_failed (open_data ?P a (?es ! i)))) else ?op ! i) [0..<length ?es]),
       if xs2 = [] then ?u else t2 xs2)"
    using open_batch_run [OF fine, where op = ?op and unseal = "pqc_decryptMany O'" and s = ?u and
      f = "\<lambda>e. JStr (or_failed (open_data ?P a e))" and t = t2 and h = "''content''" and es = ?es] t2 by auto
  have "map (\<lambda>i. if js_has (?es ! i) ''content'' then Some (''content'', JStr (or_failed (open_data ?P a (?es ! i)))) else ?op ! i) [0..<length ?es] =
      map (\<lambda>r. opened_of ?P a (wrap_value (hw_text r))) rs"
    by (rule nth_equalityI) (simp_all add: opened_of_def)
  then have "andThen (open_batch ''encKey'' (pqc_unwrapMany O') ?es (replicate (length rs) None))
      (\<lambda>op. open_batch ''content'' (pqc_decryptMany O') ?es op) s =
      (Inr (map (\<lambda>r. opened_of ?P a (wrap_value (hw_text r))) rs), if xs2 = [] then ?u else t2 xs2)"
    using b1 b2 by simp
  moreover have "step_ok O' rows v key kdf s (if xs2 = [] then ?u else t2 xs2)" using u t2 step_ok_trans [OF u] by simp
  ultimately show thesis using that by blast
qed

text \<open>What a turn does, from the rows before it: the first rows that are stale are known to be unreadable.\<close>

lemma page_run:
  assumes M: "moving O' accepts rows pw v key kdf a" and s: "open_with O' v key kdf s"
    and d: "distinct (map row_key (rows (cl_world s)))"
    and page: "set pg \<subseteq> set (rows (cl_world s))" "\<And>r. r \<in> set pg \<Longrightarrow> stale (current_kid a) r \<and> \<not> odd_wrap (hw_text r)"
      "distinct (map row_key pg)" "length pg \<le> REWRAP_PAGE"
  obtains t where
    "rewrap_page O' (ek_publicKey (acc_encryption a)) (map wrap_js pg) s =
      (Inr (length pg < REWRAP_PAGE \<and> filter (readable (ou_prims O') a) pg = [], length (filter (readable (ou_prims O') a) pg),
        length (filter (\<lambda>r. \<not> readable (ou_prims O') a r) pg)), t)"
    "open_with O' v key kdf t" "same_screen s t"
    "list_all2 (moved_row (ou_prims O') a) (rows (cl_world s)) (rows (cl_world t))"
    "filter (stale (current_kid a)) (rows (cl_world t)) =
      filter (\<lambda>r. r \<notin> set (filter (readable (ou_prims O') a) pg)) (filter (stale (current_kid a)) (rows (cl_world s)))"
proof -
  let ?P = "ou_prims O'" and ?pk = "ek_publicKey (acc_encryption a)" and ?R = "rows (cl_world s)"
  let ?good = "filter (readable ?P a) pg"
  obtain t1 where b: "andThen (open_batch ''encKey'' (pqc_unwrapMany O') (map (\<lambda>r. wrap_value (hw_text r)) pg) (replicate (length pg) None))
        (\<lambda>op. open_batch ''content'' (pqc_decryptMany O') (map (\<lambda>r. wrap_value (hw_text r)) pg) op) s =
        (Inr (map (\<lambda>r. opened_of ?P a (wrap_value (hw_text r))) pg), t1)" "step_ok O' rows v key kdf s t1"
    using open_batches [OF M s, of pg] page(2) by blast
  have o1: "open_with O' v key kdf t1" using b(2) by (simp add: step_ok_def)
  obtain items t2 where i: "reseal_all O' ?pk (map (\<lambda>r. (wrap_js r, opened_of ?P a (wrap_value (hw_text r)))) pg) t1 =
        (Inr (map wrap_js items, length (filter (\<lambda>r. \<not> readable ?P a r) pg)), t2)" "step_ok O' rows v key kdf t1 t2"
      "list_all2 (item_for ?P accepts a) ?good items"
    using reseal_all_run [OF M o1, of pg] by blast
  have len: "length items = length ?good" using i(3) by (simp add: list_all2_lengthD)
  have st: "open_with O' v key kdf t2" "same_screen s t2" "rows (cl_world t2) = ?R"
    using step_ok_trans [OF b(2) i(2)] by (simp_all add: step_ok_def)
  have zip: "zip (map wrap_js pg) (map (\<lambda>r. opened_of ?P a (wrap_value (hw_text r))) pg) =
      map (\<lambda>r. (wrap_js r, opened_of ?P a (wrap_value (hw_text r)))) pg"
    by (rule nth_equalityI) simp_all
  have batches: "andThen (open_batch ''encKey'' (pqc_unwrapMany O') (map (\<lambda>r. wrap_value (hw_text r)) pg) (replicate (length pg) None))
        (\<lambda>op. andThen (open_batch ''content'' (pqc_decryptMany O') (map (\<lambda>r. wrap_value (hw_text r)) pg) op) k) s =
      k (map (\<lambda>r. opened_of ?P a (wrap_value (hw_text r))) pg) t1" for k :: "opened \<Rightarrow> ('a, bool \<times> nat \<times> nat) op"
    using b(1) by (auto simp: andThen_apply split: prod.splits sum.splits)
  have run: "rewrap_page O' ?pk (map wrap_js pg) s =
      andThen (if items = [] then ret JNull else apiFetch O' ''PUT'' (REWRAP O') (Some (JObj [(''items'', JArr (map wrap_js items))])))
        (\<lambda>_. ret (length pg < REWRAP_PAGE \<and> items = [], length items, length (filter (\<lambda>r. \<not> readable ?P a r) pg))) t2"
    using batches i(1) zip by (simp add: rewrap_page_def Let_def comp_def)
  show thesis
  proof (cases "items = []")
    case True
    then have "?good = []" using len by simp
    moreover have "list_all2 (moved_row ?P a) ?R (rows (cl_world t2))" using st(3) moved_row_refl by (simp add: list.rel_refl)
    ultimately show thesis using that [of t2] run True st by simp
  next
    case False
    have "distinct (map row_key ?good)" "set ?good \<subseteq> set ?R" using page(1,3) distinct_map_filter by auto
      note put = items_put [OF i(3) d this(2) _ this(1)]
    have g: "stale (current_kid a) r \<and> readable ?P a r" if "r \<in> set ?good" for r using that page(2) by auto
    have "length items \<le> REWRAP_PAGE" using len page(4) length_filter_le [of "readable ?P a" pg] by linarith
    then obtain w x where w: "rows w = map (with_items items) ?R"
        "ou_fetch O' \<lparr>rq_method = ''PUT'', rq_url = REWRAP O', rq_token = map_option snd (cl_session t2),
            rq_body = Some (JObj [(''items'', JArr (map wrap_js items))])\<rparr> (cl_world t2) = (Inr \<lparr>rs_status = 200, rs_json = Some x\<rparr>, w)"
      using moving_facts(2) [OF M] put(1) [OF g] False st(3) unfolding serves_wraps_def by metis
    have fetch: "apiFetch O' ''PUT'' (REWRAP O') (Some (JObj [(''items'', JArr (map wrap_js items))])) t2 = (Inr x, t2\<lparr>cl_world := w\<rparr>)"
      by (rule apiFetch_ok [OF w(2)]) simp
    let ?t = "t2\<lparr>cl_world := w\<rparr>"
    have "list_all2 (moved_row ?P a) ?R (rows (cl_world ?t))"
      using put(2) [OF g] w(1) by (simp add: list_all2_conv_all_nth)
    moreover have "filter (stale (current_kid a)) (map (with_items items) xs) =
        filter (\<lambda>r. r \<notin> set ?good) (filter (stale (current_kid a)) xs)" if "set xs \<subseteq> set ?R" for xs
      using that
    proof (induction xs)
      case (Cons r xs)
      then show ?case using put(3) [OF g, of r] put(4) [OF g, of r] by auto
    qed simp
    moreover have "open_with O' v key kdf ?t" "same_screen s ?t"
      using st same_screen_trans [OF st(2)] by (simp_all add: open_with_def)
    moreover have "?good \<noteq> []" using False len by auto
    ultimately show thesis using that [of ?t] run False fetch w(1) len by simp
  qed
qed

lemma filter_page:
  assumes "\<And>r. r \<in> set us \<or> r \<in> set ds \<Longrightarrow> r \<notin> set pg"
  shows "filter (\<lambda>r. r \<notin> set (filter q pg)) (us @ pg @ ds) = us @ filter (\<lambda>r. \<not> q r) pg @ ds"
proof -
  have "filter (\<lambda>r. r \<notin> set (filter q pg)) us = us" "filter (\<lambda>r. r \<notin> set (filter q pg)) ds = ds"
    using assms by (auto simp: filter_id_conv)
  moreover have "filter (\<lambda>r. r \<notin> set (filter q pg)) pg = filter (\<lambda>r. \<not> q r) pg" by (rule filter_cong) auto
  ultimately show ?thesis by (simp del: set_filter)
qed

lemma turn_run:
  assumes M: "moving O' accepts rows pw v key kdf a" and s: "open_with O' v key kdf s"
    and d: "distinct (map row_key (rows (cl_world s)))"
    and st: "filter (stale (current_kid a)) (rows (cl_world s)) = us @ ts" "\<forall>r\<in>set ts. \<not> odd_wrap (hw_text r)"
  obtains (over) t where "ts = []" "rewrap_turn O' (ek_publicKey (acc_encryption a)) (length us) s = (Inr (True, 0, 0), t)"
      "open_with O' v key kdf t" "same_screen s t" "rows (cl_world t) = rows (cl_world s)"
  | (page) t pg where "pg = take REWRAP_PAGE ts" "pg \<noteq> []"
      "rewrap_turn O' (ek_publicKey (acc_encryption a)) (length us) s =
        (Inr (length pg < REWRAP_PAGE \<and> filter (readable (ou_prims O') a) pg = [], length (filter (readable (ou_prims O') a) pg),
          length (filter (\<lambda>r. \<not> readable (ou_prims O') a r) pg)), t)"
      "open_with O' v key kdf t" "same_screen s t"
      "list_all2 (moved_row (ou_prims O') a) (rows (cl_world s)) (rows (cl_world t))"
      "filter (stale (current_kid a)) (rows (cl_world t)) =
        us @ filter (\<lambda>r. \<not> readable (ou_prims O') a r) pg @ drop REWRAP_PAGE ts"
proof -
  let ?R = "rows (cl_world s)" and ?pg = "take REWRAP_PAGE ts"
  have srv: "stale_wraps (current_kid a) REWRAP_PAGE (length us) ?R = ?pg" using st(1) by (simp add: stale_wraps_def)
  obtain w where w: "rows w = ?R"
      "ou_fetch O' \<lparr>rq_method = ''GET'', rq_url = STALE_WRAPS O' (length us) REWRAP_PAGE, rq_token = map_option snd (cl_session s), rq_body = None\<rparr>
        (cl_world s) = (Inr \<lparr>rs_status = 200, rs_json = Some (JArr (map wrap_js ?pg))\<rparr>, w)"
    using moving_facts(2) [OF M] srv unfolding serves_wraps_def by metis
  have fetch: "apiFetch O' ''GET'' (STALE_WRAPS O' (length us) REWRAP_PAGE) None s = (Inr (JArr (map wrap_js ?pg)), s\<lparr>cl_world := w\<rparr>)"
    by (rule apiFetch_ok [OF w(2)]) simp
  let ?s = "s\<lparr>cl_world := w\<rparr>"
  have s': "open_with O' v key kdf ?s" using s by (simp add: open_with_def)
  have pos: "REWRAP_PAGE > 0" by (simp add: REWRAP_PAGE_def)
  show thesis
  proof (cases "ts = []")
    case True
    then show thesis using over [of ?s] fetch s' w(1) by (simp add: rewrap_turn_def)
  next
    case False
    have dm: "distinct (map row_key (us @ ts))" unfolding st(1) [symmetric] by (rule distinct_map_filter [OF d])
    have dd: "distinct (us @ ts)" "set (us @ ts) \<subseteq> set ?R"
      using dm distinct_map [of row_key "us @ ts"] filter_is_subset [of _ ?R] unfolding st(1) [symmetric] by blast+
    have "distinct (map row_key ts)" using dm by simp
    then have dk: "distinct (map row_key ?pg)" by (simp flip: take_map)
    have inR: "set ?pg \<subseteq> set (rows (cl_world ?s))" using dd(2) w(1) set_take_subset [of REWRAP_PAGE ts] by auto
    have stale: "stale (current_kid a) r \<and> \<not> odd_wrap (hw_text r)" if "r \<in> set ?pg" for r
    proof -
      have "r \<in> set (us @ ts)" using in_set_takeD [OF that] by simp
      then show ?thesis using bspec [OF st(2) in_set_takeD [OF that]] unfolding st(1) [symmetric] by simp
    qed
    obtain t where t: "rewrap_page O' (ek_publicKey (acc_encryption a)) (map wrap_js ?pg) ?s =
        (Inr (length ?pg < REWRAP_PAGE \<and> filter (readable (ou_prims O') a) ?pg = [], length (filter (readable (ou_prims O') a) ?pg),
          length (filter (\<lambda>r. \<not> readable (ou_prims O') a r) ?pg)), t)"
      "open_with O' v key kdf t" "same_screen ?s t"
      "list_all2 (moved_row (ou_prims O') a) ?R (rows (cl_world t))"
      "filter (stale (current_kid a)) (rows (cl_world t)) =
        filter (\<lambda>r. r \<notin> set (filter (readable (ou_prims O') a) ?pg)) (us @ ts)"
    proof (rule page_run [OF M s' _ inR stale dk])
      show "distinct (map row_key (rows (cl_world ?s)))" using d w(1) by simp
      show "length ?pg \<le> REWRAP_PAGE" by simp
    qed (use w(1) st(1) in auto)
    have "filter (\<lambda>r. r \<notin> set (filter (readable (ou_prims O') a) ?pg)) (us @ ?pg @ drop REWRAP_PAGE ts) =
        us @ filter (\<lambda>r. \<not> readable (ou_prims O') a r) ?pg @ drop REWRAP_PAGE ts"
    proof -
      have "set ?pg \<inter> set (drop REWRAP_PAGE ts) = {}" "set us \<inter> set ts = {}"
        using set_take_disj_set_drop_if_distinct [of ts REWRAP_PAGE REWRAP_PAGE] dd(1) by auto
      then have "r \<notin> set ?pg" if "r \<in> set us \<or> r \<in> set (drop REWRAP_PAGE ts)" for r
        using that set_take_subset [of REWRAP_PAGE ts] by blast
      then show ?thesis by (rule filter_page)
    qed
    then have "filter (stale (current_kid a)) (rows (cl_world t)) =
        us @ filter (\<lambda>r. \<not> readable (ou_prims O') a r) ?pg @ drop REWRAP_PAGE ts"
      using t(5) by simp
    moreover have "?pg \<noteq> []" using False pos by simp
    moreover have "same_screen s t" using same_screen_trans [of s ?s t] t(3) by simp
    ultimately show thesis
      using page [of ?pg t] t fetch by (simp add: rewrap_turn_def)
  qed
qed


subsection \<open>The whole loop\<close>

lemma rewrap_loop:
  assumes M: "moving O' accepts rows pw v key kdf a"
  shows "open_with O' v key kdf s \<Longrightarrow> distinct (map row_key (rows (cl_world s))) \<Longrightarrow>
    filter (stale (current_kid a)) (rows (cl_world s)) = us @ ts \<Longrightarrow> \<forall>r\<in>set ts. \<not> odd_wrap (hw_text r) \<Longrightarrow>
    length ts < fuel \<Longrightarrow>
    \<exists>t. rewrapStaleKeys fuel O' (ek_publicKey (acc_encryption a)) (length us) moved s =
        Some (Ok (moved + length (filter (readable (ou_prims O') a) ts), length us + length (filter (\<lambda>r. \<not> readable (ou_prims O') a r) ts)), t) \<and>
      open_with O' v key kdf t \<and> same_screen s t \<and>
      list_all2 (moved_row (ou_prims O') a) (rows (cl_world s)) (rows (cl_world t)) \<and>
      filter (stale (current_kid a)) (rows (cl_world t)) = us @ filter (\<lambda>r. \<not> readable (ou_prims O') a r) ts"
proof (induction fuel arbitrary: s us ts moved)
  case (Suc fuel)
  let ?P = "ou_prims O'" and ?pk = "ek_publicKey (acc_encryption a)"
  show ?case
  proof (cases rule: turn_run [OF M Suc.prems(1) Suc.prems(2) Suc.prems(3) Suc.prems(4)])
    case over: (1 t)
    have "list_all2 (moved_row ?P a) (rows (cl_world s)) (rows (cl_world s))" using moved_row_refl by (simp add: list.rel_refl)
    then show ?thesis using over Suc.prems(3) by (intro exI [of _ t]) simp
  next
    case page: (2 t pg)
    let ?bad = "filter (\<lambda>r. \<not> readable ?P a r) pg" and ?rest = "drop REWRAP_PAGE ts"
    have ts: "ts = pg @ ?rest" using page(1) by simp
    show ?thesis
    proof (cases "length pg < REWRAP_PAGE \<and> filter (readable ?P a) pg = []")
      case True
      then have "length ts < REWRAP_PAGE" using page(1) by (simp add: min_def split: if_splits)
      then have "?rest = []" by simp
      then have "ts = pg" using ts by simp
      then show ?thesis using True page by (intro exI [of _ t]) simp
    next
      case False
      have k: "distinct (map row_key (rows (cl_world t)))"
      proof -
        have "map row_key (rows (cl_world t)) = map row_key (rows (cl_world s))"
          using page(6) by (auto simp: list_all2_conv_all_nth moved_row_def intro!: nth_equalityI)
        then show ?thesis using Suc.prems(2) by simp
      qed
      have l: "length ?rest < fuel" using Suc.prems(5) page(1,2) by (cases ts) (auto simp: REWRAP_PAGE_def)
      have st: "filter (stale (current_kid a)) (rows (cl_world t)) = (us @ ?bad) @ ?rest" using page(7) by simp
      have odd: "\<forall>r\<in>set ?rest. \<not> odd_wrap (hw_text r)" using Suc.prems(4) in_set_dropD by metis
      obtain u where u: "rewrapStaleKeys fuel O' ?pk (length (us @ ?bad)) (moved + length (filter (readable ?P a) pg)) t =
          Some (Ok (moved + length (filter (readable ?P a) pg) + length (filter (readable ?P a) ?rest),
            length (us @ ?bad) + length (filter (\<lambda>r. \<not> readable ?P a r) ?rest)), u)"
        "open_with O' v key kdf u" "same_screen t u" "list_all2 (moved_row ?P a) (rows (cl_world t)) (rows (cl_world u))"
        "filter (stale (current_kid a)) (rows (cl_world u)) = (us @ ?bad) @ filter (\<lambda>r. \<not> readable ?P a r) ?rest"
        using Suc.IH [OF page(4) k st odd l] by blast
      have split: "filter q ts = filter q pg @ filter q ?rest" for q using ts by (metis filter_append)
      have "rewrapStaleKeys (Suc fuel) O' ?pk (length us) moved s =
          rewrapStaleKeys fuel O' ?pk (length (us @ ?bad)) (moved + length (filter (readable ?P a) pg)) t"
        using page(3) False by simp
      then show ?thesis
        using u split same_screen_trans [OF page(5) u(3)] list_all2_trans_moved [OF page(6) u(4)]
        by (intro exI [of _ u]) (simp add: add.assoc)
    qed
  qed
qed simp

end
