(* ===== verification/WebErase.thy ===== *)
theory WebErase
  imports WebCustody
begin

text \<open>
  Erasing in rounds. A round reads up to a thousand rows of the manifest, signs a redacted form of
  each and sends them under one signed request; the server redacts them and answers whether more
  are left. The loop's outcome is decided by how many rows the manifest holds: fifty rounds of a
  thousand are enough for fifty thousand, and not for one more.
\<close>

subsection \<open>Reading a round\<close>

lemma read_round_honest:
  assumes page: "\<And>limit offset s. 0 < limit \<Longrightarrow> good s \<Longrightarrow> \<exists>t. fetchPage limit offset s = (Inr (JArr (take limit (drop offset xs))), t) \<and> good t"
  shows "good s \<Longrightarrow> rows = take (length rows) xs \<Longrightarrow> length rows \<le> REDACTION_ROUND \<Longrightarrow>
    \<exists>t. read_round fetchPage rows s = (Inr (take REDACTION_ROUND xs), t) \<and> good t"
proof (induction "REDACTION_ROUND - length rows" arbitrary: rows s rule: less_induct)
  case less
  let ?limit = "min PAGE_SIZE (REDACTION_ROUND - length rows)"
  let ?got = "take ?limit (drop (length rows) xs)"
  have split: "xs = rows @ drop (length rows) xs" using less.prems(2) by (metis append_take_drop_id)
  show ?case
  proof (cases "length rows < REDACTION_ROUND")
    case False
    then have "take REDACTION_ROUND xs = rows" using less.prems(2,3) by (metis le_antisym not_less)
    then show ?thesis using False less.prems(1) by (simp add: read_round.simps [of _ rows])
  next
    case True
    have pos: "0 < ?limit" using True by (simp add: PAGE_SIZE_def)
    obtain t where t: "fetchPage ?limit (length rows) s = (Inr (JArr ?got), t)" "good t" using page [OF pos less.prems(1)] by blast
    show ?thesis
    proof (cases "length ?got < ?limit")
      case short: True
      then have "length (drop (length rows) xs) < ?limit" unfolding length_take by linarith
      then have whole: "?got = drop (length rows) xs" "length xs \<le> REDACTION_ROUND" using less.prems(3) by auto
      then have "take REDACTION_ROUND xs = rows @ ?got" using split by simp
      then show ?thesis
        using t True short whole(1) less.prems(2) by (auto simp: read_round.simps [of _ rows] Let_def array_of_def)
    next
      case full: False
      then have l: "length ?got = ?limit" unfolding length_take by linarith
      have "rows @ ?got = take (length (rows @ ?got)) xs"
        using less.prems(2) l by (metis add.commute append_take_drop_id length_append take_add)
      moreover have "REDACTION_ROUND - length (rows @ ?got) < REDACTION_ROUND - length rows" using l pos True unfolding length_append by linarith
      moreover have "length (rows @ ?got) \<le> REDACTION_ROUND" using l True unfolding length_append by linarith
      ultimately obtain u where "read_round fetchPage (rows @ ?got) t = (Inr (take REDACTION_ROUND xs), u)" "good u"
        using less.hyps t(2) by blast
      moreover have "?got \<noteq> []" using l pos by (metis length_0_conv less_irrefl)
      ultimately show ?thesis
        using t True full by (auto simp: read_round.simps [of _ rows] Let_def array_of_def simp del: length_take)
    qed
  qed
qed

subsection \<open>The rounds\<close>

lemma erase_rounds_run:
  assumes reads: "\<And>s. good s \<Longrightarrow> \<exists>t. readRound s = (Inr (take n (left s)), t) \<and> good t \<and> left t = left s"
    and signs: "\<And>s rows. good s \<Longrightarrow> rows = take n (left s) \<Longrightarrow>
      \<exists>rs t. signAll rows s = (Inr rs, t) \<and> good t \<and> left t = left s \<and> covers rows rs"
    and submits: "\<And>s rs. good s \<Longrightarrow> covers (take n (left s)) rs \<Longrightarrow>
      \<exists>t v. submitRound rs s = (Inr (if drop n (left s) = [] then Some v else None), t) \<and> good t \<and> left t = drop n (left s)"
    and n: "0 < n"
  shows "good s \<Longrightarrow>
    if length (left s) \<le> k * n \<and> 0 < k
    then \<exists>v t. erase_rounds readRound signAll submitRound k s = (Inr v, t) \<and> good t \<and> left t = []
    else \<exists>t. erase_rounds readRound signAll submitRound k s =
        (Inl (PlainError ''Could not finish erasing: the server keeps asking for more redactions.''), t) \<and>
      good t \<and> left t = drop (k * n) (left s)"
proof (induction k arbitrary: s)
  case 0
  then show ?case by auto
next
  case (Suc k)
  obtain t where t: "readRound s = (Inr (take n (left s)), t)" "good t" "left t = left s" using reads [OF Suc.prems] by blast
  obtain rs u where u: "signAll (take n (left s)) t = (Inr rs, u)" "good u" "left u = left s" "covers (take n (left s)) rs"
    using signs [OF t(2), of "take n (left s)"] t(3) by auto
  obtain w v where w: "submitRound rs u = (Inr (if drop n (left s) = [] then Some v else None), w)" "good w" "left w = drop n (left s)"
    using submits [OF u(2), of rs] u(3,4) by auto
  have run: "erase_rounds readRound signAll submitRound (Suc k) s =
      (if drop n (left s) = [] then (Inr v, w)
       else if take n (left s) = [] then (Inl (PlainError ''Could not finish erasing: the server is holding messages this app cannot redact.''), w)
       else erase_rounds readRound signAll submitRound k w)"
    using t u w by (simp add: andThen_apply)
  show ?case
  proof (cases "drop n (left s) = []")
    case True
    then have "length (left s) \<le> Suc k * n" by simp
    then show ?thesis using True run w(2,3) by auto
  next
    case False
    then have l: "n < length (left s)" by simp
    then have ne: "take n (left s) \<noteq> []" using n by auto
    have len: "length (left w) = length (left s) - n" using w(3) by simp
    have iff: "(length (left s) \<le> Suc k * n \<and> 0 < Suc k) = (length (left w) \<le> k * n \<and> 0 < k)"
      using l len by (cases k) auto
    have dr: "drop (k * n) (left w) = drop (Suc k * n) (left s)" using w(3) by (simp add: add.commute)
    show ?thesis using Suc.IH [OF w(2)] run False ne iff dr by (simp only: if_False)
  qed
qed


subsection \<open>Signing with the open vault\<close>

text \<open>The seed kept for chat messages is the active account's, or there is none.\<close>

definition seed_fits :: "account \<Rightarrow> 'w client \<Rightarrow> bool" where
  "seed_fits a s \<longleftrightarrow> ws_signingKey (cl_vault s) = None \<or> ws_signingKey (cl_vault s) = Some (identity_seed a)"

definition signed_by :: "prims \<Rightarrow> account \<Rightarrow> string \<Rightarrow> jsval \<Rightarrow> bool" where
  "signed_by P a body sig \<longleftrightarrow>
     verifyIdentitySignature P (JStr (acc_id a)) (JStr (hp_publicKey (acc_identity a))) body sig"

lemma identity_signs:
  assumes "signature_laws P" "digest_laws P" "account_ok P a"
  obtains sig where "signMessage P body (JStr (identity_seed a)) rnd = Inr sig" "signed_by P a body (JStr sig)"
  using account_signature [OF assms, of body rnd] by (auto simp: identity_seed_def signed_by_def)

text \<open>What a client needs to sign: the vault, its password, and the active account.\<close>

definition signing_setting :: "'w outside \<Rightarrow> ('w \<Rightarrow> 'x) \<Rightarrow> string \<Rightarrow> full_vault \<Rightarrow> bytes \<Rightarrow> jsval \<Rightarrow> account \<Rightarrow> bool" where
  "signing_setting O' obs pw v key kdf a \<longleftrightarrow>
     aead_correct (ou_prims O') \<and> signature_laws (ou_prims O') \<and> digest_laws (ou_prims O') \<and> untouched O' obs \<and>
     typed O' pw \<and> pw \<noteq> [] \<and> deriveKey (ou_prims O') pw kdf = Inr key \<and> full_active v = Some a \<and> account_ok (ou_prims O') a"

lemma signing_facts:
  assumes "signing_setting O' obs pw v key kdf a"
  shows "aead_correct (ou_prims O')" "signature_laws (ou_prims O')" "digest_laws (ou_prims O')" "untouched O' obs"
    "typed O' pw" "pw \<noteq> [] \<and> deriveKey (ou_prims O') pw kdf = Inr key" "full_active v = Some a" "account_ok (ou_prims O') a"
  using assms by (simp_all add: signing_setting_def)

definition sign_step :: "'w outside \<Rightarrow> ('w \<Rightarrow> 'x) \<Rightarrow> full_vault \<Rightarrow> bytes \<Rightarrow> jsval \<Rightarrow> account \<Rightarrow> 'w client \<Rightarrow> 'w client \<Rightarrow> bool" where
  "sign_step O' obs v key kdf a s t \<longleftrightarrow>
     open_with O' v key kdf t \<and> seed_fits a t \<and> same_screen s t \<and> obs (cl_world t) = obs (cl_world s)"

lemma sign_body_run: "sign_body O' (Inr b) = (\<lambda>pw. map_op JStr (in_vault O' (\<lambda>E. web_sign E b pw)))"
  by (rule ext) (simp add: sign_body_def andThen_def lift_res_def)

text \<open>A signature asked for with the password.\<close>

lemma sign_run:
  assumes S: "signing_setting O' obs pw v key kdf a" and s: "open_with O' v key kdf s" "seed_fits a s"
  obtains sig t where "withCustody O' viaExt (sign_body O' (Inr b)) (Some ask) force s = (Inr (JStr sig), t)"
    "sign_step O' obs v key kdf a s t" "signed_by (ou_prims O') a b (JStr sig)"
proof -
  note m = signing_facts [OF S]
  have x: "\<not> cl_extension s" using s(1) by (simp add: open_with_def)
  have pw: "hasCachedKey (cl_vault s) \<or> pw \<noteq> [] \<and> deriveKey (ou_prims O') pw kdf = Inr key" using m(6) by blast
  show thesis
  proof (rule custody_use [OF m(1) s(1) m(7) m(5) m(4) pw, where missing = "''Active account not found in vault''" and
      f = "\<lambda>E a. signMessage (we_prims E) b (JStr (identity_seed a)) (we_sign E)" and viaExt = "fail not_ready" and ask = ask and force = force])
    fix E u
    assume u: "withCustody O' (fail not_ready) (\<lambda>password. in_vault O' (\<lambda>E. with_active_full E password ''Active account not found in vault''
          (\<lambda>a. signMessage (we_prims E) b (JStr (identity_seed a)) (we_sign E)))) (Some ask) force s =
          (signMessage (we_prims E) b (JStr (identity_seed a)) (we_sign E), u)"
      and E: "we_prims E = ou_prims O'" and o: "open_with O' v key kdf u" "same_screen s u" "obs (cl_world u) = obs (cl_world s)"
        "ws_signingKey (cl_vault u) = ws_signingKey (cl_vault s)"
    obtain sig where sig: "signMessage (ou_prims O') b (JStr (identity_seed a)) (we_sign E) = Inr sig" "signed_by (ou_prims O') a b (JStr sig)"
      using identity_signs [OF m(2,3,8)] .
    have "withCustody O' viaExt (sign_body O' (Inr b)) (Some ask) force s = (Inr (JStr sig), u)"
      using custody_map [OF u [unfolded E sig(1)] x, of viaExt JStr] by (simp add: sign_body_run web_sign_def)
    moreover have "sign_step O' obs v key kdf a s u" using o s(2) by (simp add: sign_step_def seed_fits_def)
    ultimately show thesis using that sig(2) by blast
  qed
qed


text \<open>A chat message's signature: with the seed that is kept, or with the password, which keeps it.\<close>

lemma message_run:
  assumes S: "signing_setting O' obs pw v key kdf a" and s: "open_with O' v key kdf s" "seed_fits a s"
  obtains sig t where "pqc_signMessage O' b s = (Inr (JStr sig), t)" "sign_step O' obs v key kdf a s t"
    "signed_by (ou_prims O') a b (JStr sig)"
proof -
  note m = signing_facts [OF S]
  have x: "\<not> cl_extension s" "\<not> cl_biometrics s" "\<not> ws_isLocked (cl_vault s)" using s(1) by (simp_all add: open_with_def)
  show thesis
  proof (cases "ws_signingKey (cl_vault s)")
    case (Some k)
    then have k: "k = identity_seed a" using s(2) by (simp add: seed_fits_def)
    obtain d w where d: "drawn O' s = (Inr d, s\<lparr>cl_world := w\<rparr>)" "we_prims (dr_env d) = ou_prims O'" "w = snd (ou_draw O' (cl_world s))"
      using drawn_run [of O' s] by blast
    obtain sig where sig: "signMessage (ou_prims O') b (JStr (identity_seed a)) (we_sign (dr_env d)) = Inr sig" "signed_by (ou_prims O') a b (JStr sig)"
      using identity_signs [OF m(2,3,8)] .
    have "pqc_signMessage O' b s = (Inr (JStr sig), s\<lparr>cl_world := w\<rparr>)"
      using x Some k d(1,2) sig(1)
      by (simp add: pqc_signMessage_def withCustody_def map_op_def in_vault_def on_vault_def web_signMessage_def requireOpen_run andThen_apply)
    moreover have "sign_step O' obs v key kdf a s (s\<lparr>cl_world := w\<rparr>)"
      using s m(4) d(3) by (simp add: sign_step_def open_with_def seed_fits_def untouched_def)
    ultimately show thesis using that sig(2) by blast
  next
    case None
    have pw: "hasCachedKey (cl_vault s) \<or> pw \<noteq> [] \<and> deriveKey (ou_prims O') pw kdf = Inr key" using m(6) by blast
    obtain p w where p: "requestPassword O' ''Enter password to enable secure messaging:'' False s = (Inr p, s\<lparr>cl_world := w\<rparr>)"
        "custody_opens O' key kdf p (s\<lparr>cl_world := w\<rparr>)" "w = cl_world s \<or> w = snd (ou_prompt O' ''Enter password to enable secure messaging:'' (cl_world s))"
      by (rule requestPassword_opens [OF m(5) x(2) pw, of "''Enter password to enable secure messaging:''" False]) blast
    let ?s = "s\<lparr>cl_world := w\<rparr>"
    obtain d w' where d: "drawn O' ?s = (Inr d, ?s\<lparr>cl_world := w'\<rparr>)" "we_prims (dr_env d) = ou_prims O'" "w' = snd (ou_draw O' w)"
      using drawn_run [of O' ?s] by auto
    have h: "holds_vault (ou_prims O') (cl_vault s) v key kdf" using s(1) by (simp add: open_with_def)
    obtain u where u: "getFullVault (ou_prims O') (we_now (dr_env d)) p (cl_vault s) = (Inr v, u)"
        "holds_vault (ou_prims O') u v key kdf" "ws_isLocked u = ws_isLocked (cl_vault s)"
      using getFull_opens [OF m(1) h x(3), of p "we_now (dr_env d)"] p(2) by (auto simp: custody_opens_def)
    obtain sig where sig: "signMessage (ou_prims O') b (JStr (identity_seed a)) (we_sign (dr_env d)) = Inr sig" "signed_by (ou_prims O') a b (JStr sig)"
      using identity_signs [OF m(2,3,8)] .
    let ?u = "u\<lparr>ws_signingKey := Some (identity_seed a)\<rparr>"
    have "holds_vault (ou_prims O') ?u v key kdf"
      using holds_same [OF u(2), of ?u] u(2,3) x(3) by (simp add: holds_vault_def)
    then have "sign_step O' obs v key kdf a s (s\<lparr>cl_world := w', cl_vault := ?u\<rparr>)"
      using x u(3) m(4) d(3) p(3) by (auto simp: sign_step_def open_with_def seed_fits_def untouched_def)
    moreover have "pqc_signMessage O' b s = (Inr (JStr sig), s\<lparr>cl_world := w', cl_vault := ?u\<rparr>)"
      using x None p(1) d(1,2) u(1) m(7) sig(1)
      by (simp add: pqc_signMessage_def withCustody_def map_op_def in_vault_def on_vault_def web_signMessage_def requireOpen_run
          prime_signingKey_def andThen_apply)
    ultimately show thesis using that sig(2) by blast
  qed
qed


subsection \<open>Erasing a conversation\<close>

text \<open>A row of the manifest that can be signed again.\<close>

definition redaction_of :: "'w outside \<Rightarrow> account \<Rightarrow> jsval \<Rightarrow> redaction \<Rightarrow> bool" where
  "redaction_of O' a row r \<longleftrightarrow> rd_key r = js_get row ''key'' \<and>
     (\<exists>body. redaction_body O' (Some (acc_id a)) row = Inr body \<and> signed_by (ou_prims O') a body (rd_signature r))"

definition row_fine :: "'w outside \<Rightarrow> account \<Rightarrow> jsval \<Rightarrow> bool" where
  "row_fine O' a row \<longleftrightarrow> \<not> is_nullish row \<and> (\<exists>k. js_get row ''key'' = JStr k) \<and> is_ok (redaction_body O' (Some (acc_id a)) row)"

lemma signRedactions_run:
  assumes S: "signing_setting O' obs pw v key kdf a"
  shows "open_with O' v key kdf s \<Longrightarrow> seed_fits a s \<Longrightarrow> cl_account s = Some (acc_id a) \<Longrightarrow> list_all (row_fine O' a) rows \<Longrightarrow>
    \<exists>rs t. signRedactions O' rows s = (Inr rs, t) \<and> sign_step O' obs v key kdf a s t \<and> list_all2 (redaction_of O' a) rows rs"
proof (induction rows arbitrary: s)
  case Nil
  then show ?case by (intro exI [of _ "[]"] exI [of _ s]) (simp add: sign_step_def)
next
  case (Cons row rows)
  obtain body where body: "redaction_body O' (Some (acc_id a)) row = Inr body" "\<not> is_nullish row"
    using Cons.prems(4) by (auto simp: row_fine_def is_ok_def split: sum.splits)
  obtain sig t where t: "pqc_signMessage O' body s = (Inr (JStr sig), t)" "sign_step O' obs v key kdf a s t"
      "signed_by (ou_prims O') a body (JStr sig)"
    using message_run [OF S Cons.prems(1,2)] .
  have t': "open_with O' v key kdf t" "seed_fits a t" "cl_account t = Some (acc_id a)"
    using t(2) Cons.prems(3) same_screen_fields(4) [of s t] by (auto simp: sign_step_def)
  obtain rs u where u: "signRedactions O' rows t = (Inr rs, u)" "sign_step O' obs v key kdf a t u" "list_all2 (redaction_of O' a) rows rs"
    using Cons.IH [OF t'] Cons.prems(4) by auto
  let ?r = "\<lparr>rd_key = js_get row ''key'', rd_signature = JStr sig\<rparr>"
  have "signRedaction O' row s = (Inr ?r, t)"
    using body Cons.prems(3) t(1) by (simp add: signRedaction_def andThen_apply)
  moreover have "redaction_of O' a row ?r" using body(1) t(3) by (auto simp: redaction_of_def)
  moreover have "sign_step O' obs v key kdf a s u" using t(2) u(2) by (auto simp: sign_step_def intro: same_screen_trans)
  ultimately show ?case using u(1,3) by (intro exI [of _ "?r # rs"] exI [of _ u]) (simp add: andThen_apply)
qed

text \<open>The server's side of it: the manifest's pages, a nonce, and a signed round, which takes the first thousand
  rows off the manifest when every signature in it verifies and it names the nonce handed out last.\<close>

definition erase_fields_of :: "'w outside \<Rightarrow> string \<Rightarrow> string \<Rightarrow> jsval \<times> jsval \<Rightarrow> string list \<Rightarrow> erase_fields" where
  "erase_fields_of O' kind conversation nd keys =
     \<lparr>ef_nonce = fst nd, ef_kind = JStr kind, ef_conversation = JStr conversation, ef_redactionKeys = keys,
      ef_origin = JStr (ou_origin O'), ef_deployment = snd nd\<rparr>"

definition serves_erase ::
  "'w outside \<Rightarrow> account \<Rightarrow> string \<Rightarrow> string \<Rightarrow> ('w \<Rightarrow> jsval list) \<Rightarrow> ('w \<Rightarrow> jsval \<times> jsval) \<Rightarrow> bool" where
  "serves_erase O' a kind conversation left nonce \<longleftrightarrow>
     (\<forall>token limit offset w. 0 < limit \<longrightarrow> (\<exists>w'. left w' = left w \<and> nonce w' = nonce w \<and>
        ou_fetch O' \<lparr>rq_method = ''GET'', rq_url = pageUrl (CONV_REDACTABLE O' kind conversation) limit offset, rq_token = token, rq_body = None\<rparr> w =
          (Inr \<lparr>rs_status = 200, rs_json = Some (JArr (take limit (drop offset (left w))))\<rparr>, w'))) \<and>
     (\<forall>w. \<exists>w'. left w' = left w \<and> is_hex_string (fst (nonce w')) \<and> isSignedIdentifier (snd (nonce w')) \<and>
        ou_fetch O' \<lparr>rq_method = ''GET'', rq_url = NONCE O' (acc_id a), rq_token = None, rq_body = None\<rparr> w =
          (Inr \<lparr>rs_status = 200, rs_json = Some (JObj [(''nonce'', fst (nonce w')), (''deployment'', snd (nonce w'))])\<rparr>, w')) \<and>
     (\<forall>token w rs keys body sig. list_all2 (redaction_of O' a) (take REDACTION_ROUND (left w)) rs \<longrightarrow> key_texts rs = Inr keys \<longrightarrow>
        conversationEraseBody (ou_prims O') (erase_fields_of O' kind conversation (nonce w) keys) = Inr body \<longrightarrow>
        signed_by (ou_prims O') a body sig \<longrightarrow>
        (\<exists>w' summary. left w' = drop REDACTION_ROUND (left w) \<and>
          ou_fetch O' \<lparr>rq_method = ''POST'', rq_url = CONV_ERASE O' kind conversation, rq_token = token,
              rq_body = Some (erase_request (erase_fields_of O' kind conversation (nonce w) keys) sig rs)\<rparr> w =
            (Inr (if left w' = [] then \<lparr>rs_status = 200, rs_json = Some summary\<rparr>
                  else \<lparr>rs_status = 409, rs_json = Some (JObj [(''status'', JStr ''redacting'')])\<rparr>), w')))"


lemma serves_page:
  "serves_erase O' a kind conversation left nonce \<Longrightarrow> 0 < limit \<Longrightarrow> \<exists>w'. left w' = left w \<and> nonce w' = nonce w \<and>
     ou_fetch O' \<lparr>rq_method = ''GET'', rq_url = pageUrl (CONV_REDACTABLE O' kind conversation) limit offset, rq_token = token, rq_body = None\<rparr> w =
       (Inr \<lparr>rs_status = 200, rs_json = Some (JArr (take limit (drop offset (left w))))\<rparr>, w')"
  by (simp add: serves_erase_def)

lemma serves_nonce:
  "serves_erase O' a kind conversation left nonce \<Longrightarrow>
     \<exists>w'. left w' = left w \<and> is_hex_string (fst (nonce w')) \<and> isSignedIdentifier (snd (nonce w')) \<and>
       ou_fetch O' \<lparr>rq_method = ''GET'', rq_url = NONCE O' (acc_id a), rq_token = None, rq_body = None\<rparr> w =
         (Inr \<lparr>rs_status = 200, rs_json = Some (JObj [(''nonce'', fst (nonce w')), (''deployment'', snd (nonce w'))])\<rparr>, w')"
  by (simp add: serves_erase_def)

lemma serves_round:
  assumes "serves_erase O' a kind conversation left nonce"
  shows "list_all2 (redaction_of O' a) (take REDACTION_ROUND (left w)) rs \<Longrightarrow> key_texts rs = Inr keys \<Longrightarrow>
     conversationEraseBody (ou_prims O') (erase_fields_of O' kind conversation (nonce w) keys) = Inr body \<Longrightarrow>
     signed_by (ou_prims O') a body sig \<Longrightarrow>
     \<exists>w' summary. left w' = drop REDACTION_ROUND (left w) \<and>
       ou_fetch O' \<lparr>rq_method = ''POST'', rq_url = CONV_ERASE O' kind conversation, rq_token = token,
           rq_body = Some (erase_request (erase_fields_of O' kind conversation (nonce w) keys) sig rs)\<rparr> w =
         (Inr (if left w' = [] then \<lparr>rs_status = 200, rs_json = Some summary\<rparr>
               else \<lparr>rs_status = 409, rs_json = Some (JObj [(''status'', JStr ''redacting'')])\<rparr>), w')"
  by (rule assms [unfolded serves_erase_def, THEN conjunct2, THEN conjunct2, rule_format])

text \<open>The state between the steps of a round.\<close>

definition erasing :: "'w outside \<Rightarrow> full_vault \<Rightarrow> bytes \<Rightarrow> jsval \<Rightarrow> account \<Rightarrow> ('w \<Rightarrow> jsval list) \<Rightarrow> 'w client \<Rightarrow> bool" where
  "erasing O' v key kdf a left s \<longleftrightarrow> open_with O' v key kdf s \<and> seed_fits a s \<and> cl_account s = Some (acc_id a) \<and>
     list_all (row_fine O' a) (left (cl_world s))"

lemma erasing_world:
  "erasing O' v key kdf a left s \<Longrightarrow> list_all (row_fine O' a) (left w) \<Longrightarrow> erasing O' v key kdf a left (s\<lparr>cl_world := w\<rparr>)"
  by (simp add: erasing_def open_with_def seed_fits_def)

lemma erasing_step:
  "erasing O' v key kdf a left s \<Longrightarrow> sign_step O' (\<lambda>w. (left w, nonce w)) v key kdf a s t \<Longrightarrow> erasing O' v key kdf a left t"
  using same_screen_fields(4) [of s t] by (simp add: erasing_def sign_step_def)

lemma key_texts_run:
  "list_all2 (redaction_of O' a) rows rs \<Longrightarrow> list_all (row_fine O' a) rows \<Longrightarrow> \<exists>keys. key_texts rs = Inr keys"
proof (induction rule: list_all2_induct)
  case (Cons row rows r rs)
  then show ?case by (auto simp: key_texts_def redaction_of_def row_fine_def)
qed (simp add: key_texts_def)

lemma erase_read:
  assumes srv: "serves_erase O' a kind conversation left nonce" and s: "erasing O' v key kdf a left s"
  shows "\<exists>t. readRedactionRound O' (CONV_REDACTABLE O' kind conversation) s = (Inr (take REDACTION_ROUND (left (cl_world s))), t) \<and>
    erasing O' v key kdf a left t \<and> left (cl_world t) = left (cl_world s)"
proof -
  let ?good = "\<lambda>t. erasing O' v key kdf a left t \<and> left (cl_world t) = left (cl_world s)"
  have "\<exists>t. read_round (\<lambda>limit offset. apiFetch O' ''GET'' (pageUrl (CONV_REDACTABLE O' kind conversation) limit offset) None) [] s =
      (Inr (take REDACTION_ROUND (left (cl_world s))), t) \<and> ?good t"
  proof (rule read_round_honest [where good = ?good])
    fix limit offset t
    assume limit: "0 < (limit :: nat)" and t: "?good t"
    obtain w where w: "left w = left (cl_world t)" "ou_fetch O' \<lparr>rq_method = ''GET'', rq_url = pageUrl (CONV_REDACTABLE O' kind conversation) limit offset,
          rq_token = map_option snd (cl_session t), rq_body = None\<rparr> (cl_world t) =
        (Inr \<lparr>rs_status = 200, rs_json = Some (JArr (take limit (drop offset (left (cl_world t)))))\<rparr>, w)"
      using serves_page [OF srv limit] by blast
    have "apiFetch O' ''GET'' (pageUrl (CONV_REDACTABLE O' kind conversation) limit offset) None t =
        (Inr (JArr (take limit (drop offset (left (cl_world t))))), t\<lparr>cl_world := w\<rparr>)"
      by (rule apiFetch_ok [OF w(2)]) simp
    moreover have "?good (t\<lparr>cl_world := w\<rparr>)" 
    proof -
      have "list_all (row_fine O' a) (left w)" using t unfolding w(1) erasing_def by blast
      with t erasing_world [of O' v key kdf a left t w] w(1) show ?thesis by simp
    qed
    ultimately show "\<exists>u. apiFetch O' ''GET'' (pageUrl (CONV_REDACTABLE O' kind conversation) limit offset) None t =
        (Inr (JArr (take limit (drop offset (left (cl_world s))))), u) \<and> ?good u"
      using t by auto
  qed (use s in simp_all)
  then show ?thesis by (simp add: readRedactionRound_def)
qed

lemma erase_submit:
  assumes S: "signing_setting O' (\<lambda>w. (left w, nonce w)) pw v key kdf a" and srv: "serves_erase O' a kind conversation left nonce"
    and target: "erase_target_ok (erase_fields_of O' kind conversation nd [])" "isCanonicalOrigin (JStr (ou_origin O'))"
    and s: "erasing O' v key kdf a left s" and rs: "list_all2 (redaction_of O' a) (take REDACTION_ROUND (left (cl_world s))) rs"
  shows "\<exists>t u. submitErase O' kind conversation rs s = (Inr (if drop REDACTION_ROUND (left (cl_world s)) = [] then Some u else None), t) \<and>
    erasing O' v key kdf a left t \<and> left (cl_world t) = drop REDACTION_ROUND (left (cl_world s))"
proof -
  have fine: "list_all (row_fine O' a) (left (cl_world s))" "cl_account s = Some (acc_id a)" using s by (simp_all add: erasing_def)
  then have part: "list_all (row_fine O' a) (take REDACTION_ROUND (left (cl_world s)))" "list_all (row_fine O' a) (drop REDACTION_ROUND (left (cl_world s)))"
    by (auto simp: list_all_iff dest: in_set_takeD in_set_dropD)
  obtain keys where keys: "key_texts rs = Inr keys" using key_texts_run [OF rs part(1)] by blast
  obtain w where w: "left w = left (cl_world s)" "is_hex_string (fst (nonce w))" "isSignedIdentifier (snd (nonce w))"
      "ou_fetch O' \<lparr>rq_method = ''GET'', rq_url = NONCE O' (acc_id a), rq_token = None, rq_body = None\<rparr> (cl_world s) =
        (Inr \<lparr>rs_status = 200, rs_json = Some (JObj [(''nonce'', fst (nonce w)), (''deployment'', snd (nonce w))])\<rparr>, w)"
    using serves_nonce [OF srv] by blast
  let ?s = "s\<lparr>cl_world := w\<rparr>" and ?f = "erase_fields_of O' kind conversation (nonce w) keys"
  have nonce: "fetch_nonce O' (acc_id a) s = (Inr (nonce w), ?s)"
    using w(4) by (simp add: fetch_nonce_def plain_fetch_def in_world_def andThen_apply json_of_def rs_ok_def)
  obtain body where body: "conversationEraseBody (ou_prims O') ?f = Inr body"
    using w(2,3) target by (simp add: conversationEraseBody_def need_body_def erase_fields_of_def erase_target_ok_def)
  have s': "open_with O' v key kdf ?s" "seed_fits a ?s" using s by (simp_all add: erasing_def open_with_def seed_fits_def)
  obtain sig t where t: "withCustody O' (ext O' ''signConversationErase'' [erase_args ?f]) (sign_body O' (Inr body))
        (Some ''Enter your vault password to confirm erasing your messages in this conversation:'') True ?s = (Inr (JStr sig), t)"
      "sign_step O' (\<lambda>w. (left w, nonce w)) v key kdf a ?s t" "signed_by (ou_prims O') a body (JStr sig)"
    by (rule sign_run [OF S s', where b = body and viaExt = "ext O' ''signConversationErase'' [erase_args ?f]" and force = True and
      ask = "''Enter your vault password to confirm erasing your messages in this conversation:''"]) blast
  have sign: "signConversationErase O' ?f ?s = (Inr (JStr sig), t)" using t(1) body by (simp add: signConversationErase_def)
  have tw: "left (cl_world t) = left (cl_world s)" "nonce (cl_world t) = nonce w" using t(2) w(1) by (simp_all add: sign_step_def)
  have et: "erasing O' v key kdf a left t" using erasing_step [OF erasing_world [OF s] t(2)] w(1) fine(1) by simp
  have rs': "list_all2 (redaction_of O' a) (take REDACTION_ROUND (left (cl_world t))) rs" using rs tw(1) by simp
  obtain w' summary where w': "left w' = drop REDACTION_ROUND (left (cl_world t))"
      "ou_fetch O' \<lparr>rq_method = ''POST'', rq_url = CONV_ERASE O' kind conversation, rq_token = map_option snd (cl_session t),
          rq_body = Some (erase_request ?f (JStr sig) rs)\<rparr> (cl_world t) =
        (Inr (if left w' = [] then \<lparr>rs_status = 200, rs_json = Some summary\<rparr>
              else \<lparr>rs_status = 409, rs_json = Some (JObj [(''status'', JStr ''redacting'')])\<rparr>), w')"
    using serves_round [OF srv rs' keys _ t(3), unfolded tw(2), OF body] by blast
  let ?r = "if left w' = [] then \<lparr>rs_status = 200, rs_json = Some summary\<rparr>
              else \<lparr>rs_status = 409, rs_json = Some (JObj [(''status'', JStr ''redacting'')])\<rparr>"
  have post: "apiRaw O' ''POST'' (CONV_ERASE O' kind conversation) (Some (erase_request ?f (JStr sig) rs)) t = (Inr ?r, t\<lparr>cl_world := w'\<rparr>)"
    by (rule apiRaw_run [OF w'(2)]) (simp_all add: erase_request_def)
  have "submitErase O' kind conversation rs s = (roundOutcome ?r rs ''Erasing'', t\<lparr>cl_world := w'\<rparr>)"
    using nonce keys sign post fine(2)
    by (simp add: submitErase_def session_address_def andThen_apply Let_def erase_fields_of_def split_beta)
  moreover have "\<exists>u. roundOutcome ?r rs ''Erasing'' = Inr (if left w' = [] then Some u else None)"
    by (simp add: roundOutcome_def rs_ok_def Let_def)
  moreover have "erasing O' v key kdf a left (t\<lparr>cl_world := w'\<rparr>)" using erasing_world [OF et] w'(1) tw(1) part(2) by simp
  ultimately show ?thesis using w'(1) tw(1) by auto
qed

lemma erase_conversation_run:
  assumes S: "signing_setting O' (\<lambda>w. (left w, nonce w)) pw v key kdf a" and srv: "serves_erase O' a kind conversation left nonce"
    and target: "erase_target_ok (erase_fields_of O' kind conversation nd [])" "isCanonicalOrigin (JStr (ou_origin O'))"
    and s: "erasing O' v key kdf a left s"
  shows "if length (left (cl_world s)) \<le> MAX_REDACTION_ROUNDS * REDACTION_ROUND
    then \<exists>summary t. eraseConversation O' kind conversation s = (Inr summary, t) \<and> left (cl_world t) = []
    else \<exists>t. eraseConversation O' kind conversation s =
        (Inl (PlainError ''Could not finish erasing: the server keeps asking for more redactions.''), t) \<and>
      left (cl_world t) = drop (MAX_REDACTION_ROUNDS * REDACTION_ROUND) (left (cl_world s))"
proof -
  note run = erase_rounds_run [where good = "erasing O' v key kdf a left" and left = "\<lambda>s. left (cl_world s)" and n = REDACTION_ROUND and
      covers = "list_all2 (redaction_of O' a)" and readRound = "readRedactionRound O' (CONV_REDACTABLE O' kind conversation)" and
      signAll = "signRedactions O'" and submitRound = "submitErase O' kind conversation" and k = MAX_REDACTION_ROUNDS and s = s]
  have "if length (left (cl_world s)) \<le> MAX_REDACTION_ROUNDS * REDACTION_ROUND \<and> 0 < MAX_REDACTION_ROUNDS
    then \<exists>v' t. eraseConversation O' kind conversation s = (Inr v', t) \<and> erasing O' v key kdf a left t \<and> left (cl_world t) = []
    else \<exists>t. eraseConversation O' kind conversation s =
        (Inl (PlainError ''Could not finish erasing: the server keeps asking for more redactions.''), t) \<and> erasing O' v key kdf a left t \<and>
      left (cl_world t) = drop (MAX_REDACTION_ROUNDS * REDACTION_ROUND) (left (cl_world s))"
    unfolding eraseConversation_def runErase_def
  proof (rule run)
    fix t
    assume t: "erasing O' v key kdf a left t"
    show "\<exists>u. readRedactionRound O' (CONV_REDACTABLE O' kind conversation) t = (Inr (take REDACTION_ROUND (left (cl_world t))), u) \<and>
        erasing O' v key kdf a left u \<and> left (cl_world u) = left (cl_world t)"
      by (rule erase_read [OF srv t])
  next
    fix t rows
    assume t: "erasing O' v key kdf a left t" "rows = take REDACTION_ROUND (left (cl_world t))"
    then have f: "open_with O' v key kdf t" "seed_fits a t" "cl_account t = Some (acc_id a)" "list_all (row_fine O' a) rows"
      by (auto simp: erasing_def list_all_iff dest: in_set_takeD)
    obtain rs u where u: "signRedactions O' rows t = (Inr rs, u)" "sign_step O' (\<lambda>w. (left w, nonce w)) v key kdf a t u"
        "list_all2 (redaction_of O' a) rows rs"
      using signRedactions_run [OF S f] by blast
    then show "\<exists>rs u. signRedactions O' rows t = (Inr rs, u) \<and> erasing O' v key kdf a left u \<and> left (cl_world u) = left (cl_world t) \<and>
        list_all2 (redaction_of O' a) rows rs"
      using erasing_step [OF t(1) u(2)] by (auto simp: sign_step_def)
  next
    fix t rs
    assume "erasing O' v key kdf a left t" "list_all2 (redaction_of O' a) (take REDACTION_ROUND (left (cl_world t))) rs"
    from erase_submit [OF S srv target this]
    show "\<exists>u v'. submitErase O' kind conversation rs t = (Inr (if drop REDACTION_ROUND (left (cl_world t)) = [] then Some v' else None), u) \<and>
        erasing O' v key kdf a left u \<and> left (cl_world u) = drop REDACTION_ROUND (left (cl_world t))" by blast
  qed (simp_all add: s REDACTION_ROUND_def)
  then show ?thesis by (auto simp: MAX_REDACTION_ROUNDS_def split: if_splits)
qed

end
