(* ===== verification/WebRotate.thy ===== *)
theory WebRotate
  imports WebCustody
begin

text \<open>
  Replacing the encryption key: the new key is saved on the device before it is published. When the
  server refuses it, the device goes back to the old one; when nobody knows whether the server took
  it, the new key stays.
\<close>

lemma with_active_run:
  assumes P: "web_laws P" and E: "we_prims E = P" "strong_rnd (we_save E)"
    and s: "holds_vault P s v key kdf" "\<not> ws_isLocked s" and a: "full_active v = Some a"
    and pw: "hasCachedKey s \<or> (\<exists>p. password = Some p \<and> p \<noteq> [] \<and> deriveKey P p kdf = Inr key)"
    and c: "change a = Inr (b, r)" "account_ok P b" "acc_id b = acc_id a"
  obtains t key' kdf' where "withActiveAccount E password change s = (Inr r, t)" "holds_vault P t (replace_active b v) key' kdf'"
    "\<not> ws_isLocked t" "hasCachedKey s \<Longrightarrow> hasCachedKey t"
    "key' = key \<and> kdf' = kdf \<or> (\<exists>p. password = Some p \<and> p \<noteq> [] \<and> deriveKey P p kdf' = Inr key')"
proof -
  have L: "aead_correct P" "kdf_laws P" using P by (simp_all add: web_laws_def)
  obtain t where t: "getFullVault P (we_now E) password s = (Inr v, t)" "holds_vault P t v key kdf" "ws_isLocked t = ws_isLocked s"
      "hasCachedKey s \<Longrightarrow> hasCachedKey t"
    using getFull_opens [OF L(1) s pw, of "we_now E"] by metis
  have h: "sealed_full P t v key kdf" "cache_fits t key kdf" "\<exists>m. ws_vault t = Some m \<and> mirrors m v" "full_ok P v"
    using holds_facts [OF t(2)] s(2) t(3) by auto
  have w: "full_ok P (replace_active b v)" by (rule replace_active_ok [OF h(4) a c(2,3)])
  have save: "can_save t password" using pw t(4) by (auto simp: can_save_def)
  obtain u key' kdf' where u: "save P (we_save E) (we_now E) (replace_active b v) password t = (Inr (), u)"
      "sealed_full P u (replace_active b v) key' kdf'" "cache_fits u key' kdf'" "ws_vault u = ws_vault t" "ws_isLocked u = ws_isLocked t"
      "hasCachedKey t \<Longrightarrow> hasCachedKey u"
      "key' = key \<and> kdf' = kdf \<or> (\<exists>p. password = Some p \<and> p \<noteq> [] \<and> deriveKey P p kdf' = Inr key')"
    by (rule save_sealed_key [OF L(2) E(2) w _ h(2) save, of v "we_now E"]) (use h(1) in blast)+
  obtain m where m: "ws_vault t = Some m" "mirrors m v" using h(3) by blast
  have act: "fv_active v = JStr (acc_id b)" using full_active_mem [OF a] c(3) by simp
  let ?z = "u\<lparr>ws_vault := Some (put_public b m)\<rparr>"
  have "withActiveAccount E password change s = (Inr r, ?z)"
    using t(1) u(1,4) m(1) s(2) a c(1) E(1)
    by (simp add: withActiveAccount_def requireOpen_run andThen_apply update_memory_run)
  moreover have "holds_vault P ?z (replace_active b v) key' kdf'"
    using u(2,3,5) t(3) s(2) mirrors_put [OF m(2) act] by (simp add: holds_vault_def memory_fits_def)
  ultimately show thesis using that [of ?z key' kdf'] u(5-7) t(3,4) s(2) by (simp add: hasCachedKey_def)
qed

lemma full_active_replaced:
  assumes "full_active v = Some a" "acc_id b = acc_id a"
  shows "full_active (replace_active b v) = Some b"
proof -
  have act: "fv_active v = JStr (acc_id b)" using full_active_mem [OF assms(1)] assms(2) by simp
  have "find (\<lambda>c. acc_id c = acc_id b) xs = Some a \<Longrightarrow>
      find (\<lambda>c. acc_id c = acc_id b) (replace_first (\<lambda>c. acc_id c = acc_id b) b xs) = Some b" for xs
    using find_replace_first [of acc_id b "acc_id b" "acc_id b" xs] by simp
  then show ?thesis using assms(1) act by (simp add: full_active_def replace_active_def)
qed

lemma replace_active_twice: "acc_id c = acc_id b \<Longrightarrow> fv_active (replace_active b v) = fv_active v"
  by (simp add: replace_active_def)

text \<open>The environment of an operation is one that is drawn.\<close>

definition drawn_env :: "'w outside \<Rightarrow> web_env \<Rightarrow> bool" where
  "drawn_env O' E \<longleftrightarrow> (\<exists>w. E = (dr_env (fst (ou_draw O' w)))\<lparr>we_prims := ou_prims O'\<rparr>)"

definition sound_draws :: "'w outside \<Rightarrow> bool" where
  "sound_draws O' \<longleftrightarrow> (\<forall>E. drawn_env O' E \<longrightarrow> good_draw (ou_prims O') E)"

text \<open>A change of the active account, asked for through custody, is one on the vault, with what the user typed.\<close>

lemma custody_change:
  assumes d: "sound_draws O'" and s: "open_with O' v key kdf s"
    and t: "typed O' pw" and pw: "pw \<noteq> []" "deriveKey (ou_prims O') pw kdf = Inr key"
  obtains E p w where
    "withCustody O' viaExt (\<lambda>password. in_vault O' (\<lambda>E. withActiveAccount E password (change E))) (Some ask) force s =
      on_vault (withActiveAccount E p (change E)) (s\<lparr>cl_world := w\<rparr>)"
    "drawn_env O' E" "we_prims E = ou_prims O'" "strong_rnd (we_save E)" "p = None \<or> p = Some pw"
    "hasCachedKey (cl_vault s) \<or> (\<exists>q. p = Some q \<and> q \<noteq> [] \<and> deriveKey (ou_prims O') q kdf = Inr key)"
proof -
  have o: "\<not> cl_extension s" "\<not> cl_biometrics s" "\<not> ws_isLocked (cl_vault s)" using s by (simp_all add: open_with_def)
  obtain p w where p: "requestPassword O' ask force s = (Inr p, s\<lparr>cl_world := w\<rparr>)" "custody_opens O' key kdf p (s\<lparr>cl_world := w\<rparr>)"
      "p = None \<or> p = Some pw"
  proof (cases "\<not> force \<and> hasCachedKey (cl_vault s)")
    case True
    then show thesis using that [of None "cl_world s"] by (simp add: requestPassword_def custody_opens_def)
  next
    case False
    obtain w where w: "ou_prompt O' ask (cl_world s) = (Inr pw, w)" using t by (metis typed_def prod.collapse)
    then have "prompt_user O' ask s = (Inr (Some pw), s\<lparr>cl_world := w\<rparr>)"
      by (simp add: prompt_user_def map_op_def in_world_def andThen_apply)
    then show thesis using that [of "Some pw" w] False o(2) pw by (auto simp: requestPassword_def custody_opens_def)
  qed
  obtain e w' where e: "drawn O' (s\<lparr>cl_world := w\<rparr>) = (Inr e, s\<lparr>cl_world := w'\<rparr>)" "drawn_env O' (dr_env e)"
  proof (cases "ou_draw O' w")
    case (Pair f w')
    then have "drawn_env O' ((dr_env f)\<lparr>we_prims := ou_prims O'\<rparr>)" unfolding drawn_env_def by (intro exI [of _ w]) simp
    then show thesis using that Pair by (simp add: drawn_def)
  qed
  have E: "we_prims (dr_env e) = ou_prims O'" "strong_rnd (we_save (dr_env e))" using d e(2) by (auto simp: sound_draws_def good_draw_def)
  show thesis
    using that [of "dr_env e" p w'] o(1,3) p e E by (simp add: withCustody_def andThen_apply in_vault_def custody_opens_def)
qed

text \<open>It goes through when the change does.\<close>

lemma change_succeeds:
  assumes P: "web_laws (ou_prims O')" and d: "sound_draws O'" and s: "open_with O' v key kdf s" and a: "full_active v = Some a"
    and t: "typed O' pw" and pw: "pw \<noteq> []" "deriveKey (ou_prims O') pw kdf = Inr key"
    and c: "\<And>E. drawn_env O' E \<Longrightarrow> \<exists>b. change E a = Inr (b, r) \<and> account_ok (ou_prims O') b \<and> acc_id b = acc_id a \<and> Q b"
  obtains b key' kdf' u where
    "withCustody O' viaExt (\<lambda>password. in_vault O' (\<lambda>E. withActiveAccount E password (change E))) (Some ask) force s = (Inr r, u)"
    "Q b" "full_active (replace_active b v) = Some b" "open_with O' (replace_active b v) key' kdf' u"
    "deriveKey (ou_prims O') pw kdf' = Inr key'" "same_screen s u"
proof (rule custody_change [OF d s t pw, of viaExt change ask force])
  fix E p w
  assume run: "withCustody O' viaExt (\<lambda>password. in_vault O' (\<lambda>E. withActiveAccount E password (change E))) (Some ask) force s =
      on_vault (withActiveAccount E p (change E)) (s\<lparr>cl_world := w\<rparr>)"
    and E: "drawn_env O' E" "we_prims E = ou_prims O'" "strong_rnd (we_save E)" and p: "p = None \<or> p = Some pw"
    and op: "hasCachedKey (cl_vault s) \<or> (\<exists>q. p = Some q \<and> q \<noteq> [] \<and> deriveKey (ou_prims O') q kdf = Inr key)"
  obtain b where b: "change E a = Inr (b, r)" "account_ok (ou_prims O') b" "acc_id b = acc_id a" "Q b" using c [OF E(1)] by blast
  have o: "\<not> ws_isLocked (cl_vault s)" "holds_vault (ou_prims O') (cl_vault s) v key kdf" using s by (simp_all add: open_with_def)
  obtain z key' kdf' where z: "withActiveAccount E p (change E) (cl_vault s) = (Inr r, z)" "holds_vault (ou_prims O') z (replace_active b v) key' kdf'"
      "\<not> ws_isLocked z" "key' = key \<and> kdf' = kdf \<or> (\<exists>q. p = Some q \<and> q \<noteq> [] \<and> deriveKey (ou_prims O') q kdf' = Inr key')"
    by (rule with_active_run [where change = "change E", OF P E(2,3) o(2,1) a op b(1-3)]) blast
  let ?u = "s\<lparr>cl_world := w, cl_vault := z\<rparr>"
  have "deriveKey (ou_prims O') pw kdf' = Inr key'" using z(4) p pw(2) by auto
  moreover have "open_with O' (replace_active b v) key' kdf' ?u" using z(2,3) s by (simp add: open_with_def)
  ultimately show thesis
    using that [of ?u b key' kdf'] run z(1) b(4) full_active_replaced [OF a b(3)] by (simp add: on_vault_def)
qed

text \<open>And when it went through, the change did.\<close>

lemma change_done:
  assumes P: "web_laws (ou_prims O')" and d: "sound_draws O'" and s: "open_with O' v key kdf s" and a: "full_active v = Some a"
    and t: "typed O' pw" and pw: "pw \<noteq> []" "deriveKey (ou_prims O') pw kdf = Inr key"
    and run: "withCustody O' viaExt (\<lambda>password. in_vault O' (\<lambda>E. withActiveAccount E password (change E))) (Some ask) force s = (Inr r, u)"
  obtains E b where "drawn_env O' E" "change E a = Inr (b, r)"
    "account_ok (ou_prims O') b \<Longrightarrow> acc_id b = acc_id a \<Longrightarrow> \<exists>key' kdf'. open_with O' (replace_active b v) key' kdf' u \<and>
      deriveKey (ou_prims O') pw kdf' = Inr key' \<and> same_screen s u"
proof (rule custody_change [OF d s t pw, of viaExt change ask force])
  fix E p w
  assume eq: "withCustody O' viaExt (\<lambda>password. in_vault O' (\<lambda>E. withActiveAccount E password (change E))) (Some ask) force s =
      on_vault (withActiveAccount E p (change E)) (s\<lparr>cl_world := w\<rparr>)"
    and E: "drawn_env O' E" "we_prims E = ou_prims O'" "strong_rnd (we_save E)" and p: "p = None \<or> p = Some pw"
    and op: "hasCachedKey (cl_vault s) \<or> (\<exists>q. p = Some q \<and> q \<noteq> [] \<and> deriveKey (ou_prims O') q kdf = Inr key)"
  let ?P = "ou_prims O'"
  have L: "aead_correct ?P" using P by (simp add: web_laws_def)
  have o: "\<not> ws_isLocked (cl_vault s)" "holds_vault ?P (cl_vault s) v key kdf" using s by (simp_all add: open_with_def)
  have go: "on_vault (withActiveAccount E p (change E)) (s\<lparr>cl_world := w\<rparr>) = (Inr r, u)" using run eq by simp
  then have fst: "fst (withActiveAccount E p (change E) (cl_vault s)) = Inr r" by (auto simp: on_vault_def split: prod.splits)
  obtain t where t: "getFullVault ?P (we_now E) p (cl_vault s) = (Inr v, t)"
    using getFull_opens [OF L o(2,1) op, of "we_now E"] by metis
  note unfold = withActiveAccount_def requireOpen_run andThen_apply update_memory_run
  have "\<exists>b. change E a = Inr (b, r)"
  proof (cases "change E a")
    case (Inl x)
    then show ?thesis using fst t o(1) a E(2) by (simp add: unfold)
  next
    case (Inr br)
    then show ?thesis using fst t o(1) a E(2) by (cases br) (auto simp: unfold split: prod.splits sum.splits)
  qed
  then obtain b where b: "change E a = Inr (b, r)" by blast
  have "\<exists>key' kdf'. open_with O' (replace_active b v) key' kdf' u \<and> deriveKey ?P pw kdf' = Inr key' \<and> same_screen s u"
    if bb: "account_ok ?P b" "acc_id b = acc_id a"
  proof -
    obtain z key' kdf' where z: "withActiveAccount E p (change E) (cl_vault s) = (Inr r, z)" "holds_vault ?P z (replace_active b v) key' kdf'"
        "\<not> ws_isLocked z" "key' = key \<and> kdf' = kdf \<or> (\<exists>q. p = Some q \<and> q \<noteq> [] \<and> deriveKey ?P q kdf' = Inr key')"
      by (rule with_active_run [where change = "change E", OF P E(2,3) o(2,1) a op b bb]) blast
    have u: "u = s\<lparr>cl_world := w, cl_vault := z\<rparr>" using go z(1) by (simp add: on_vault_def)
    have "deriveKey ?P pw kdf' = Inr key'" using z(4) p pw(2) by auto
    moreover have "open_with O' (replace_active b v) key' kdf' u" using u z(2,3) s by (simp add: open_with_def)
    ultimately show ?thesis using u by auto
  qed
  then show thesis using that [OF E(1) b] by blast
qed

subsection \<open>A refused rotation\<close>

definition fresh_kids :: "'w outside \<Rightarrow> account \<Rightarrow> bool" where
  "fresh_kids O' a \<longleftrightarrow> (\<forall>w. new_kid (ou_prims O') (we_encryption (dr_env (fst (ou_draw O' w)))) \<notin> set (account_kids a))"

definition refuses_rotation :: "'w outside \<Rightarrow> web_response \<Rightarrow> bool" where
  "refuses_rotation O' r \<longleftrightarrow> 400 \<le> rs_status r \<and> rs_status r < 500 \<and> rs_status r \<noteq> 401 \<and>
     rs_json r \<noteq> Some JNull \<and> rs_json r \<noteq> Some JUndef \<and>
     (\<forall>token body w. fst (ou_fetch O' \<lparr>rq_method = ''POST'', rq_url = ROTATE_KEY O', rq_token = token, rq_body = body\<rparr> w) = Inr r)"

lemma withCustody_map_inv:
  "withCustody O' viaExt (\<lambda>pw. map_op f (m pw)) ask force s = (Inr y, u) \<Longrightarrow> \<not> cl_extension s \<Longrightarrow>
    \<exists>x. y = f x \<and> withCustody O' (fail not_ready) m ask force s = (Inr x, u)"
  by (auto simp: withCustody_def map_op_def andThen_apply split: option.splits prod.splits sum.splits if_splits)


lemma refused_rotation:
  assumes P: "web_laws (ou_prims O')" and d: "sound_draws O'" "fresh_kids O' a" and s: "open_with O' v key kdf s"
    and a: "full_active v = Some a" and t: "typed O' pw" "pw \<noteq> []" "deriveKey (ou_prims O') pw kdf = Inr key"
    and r: "refuses_rotation O' r" and local: "rotateKeyLocally O' ts s = (Inr published, u)"
  obtains z w key' kdf' c where
    "pqc_rotateEncryptionKey n O' ts s = Some (Inl (PlainError (''The server refused the new key: '' @ rotate_refusal r)), z)"
    "open_with O' w key' kdf' z" "full_active w = Some c" "acc_encryption c = acc_encryption a"
    "set (account_keys a) \<subseteq> set (account_keys c)"
proof -
  let ?P = "ou_prims O'"
  have L: "envelope_laws ?P" using P by (simp add: web_laws_def)
  have ok: "account_ok ?P a" using full_active_ok [OF _ a] s by (auto simp: open_with_def holds_vault_def sealed_full_def)
  have x: "\<not> cl_extension s" using s by (simp add: open_with_def)
  obtain p where p: "published = published_js p" "withCustody O' (fail not_ready)
      (\<lambda>password. in_vault O' (\<lambda>E. withActiveAccount E password (rotate_change E ts)))
      (Some ''Enter your vault password to replace your encryption key:'') True s = (Inr p, u)"
    using withCustody_map_inv [OF local [unfolded rotateKeyLocally_def web_rotateEncryptionKey_def] x] by blast
  have rot: "account_ok ?P b \<and> rotateAccountEncryptionKey ?P (we_now E) (we_encryption E) (account_js a) ts = Inr b \<and>
      pb_newKid p = ek_kid (acc_encryption b)" if E: "drawn_env O' E" "rotate_change E ts a = Inr (b, p)" for E b
  proof -
    have g: "good_draw ?P E" "new_kid ?P (we_encryption E) \<notin> set (account_kids a)"
      using E(1) d by (auto simp: sound_draws_def drawn_env_def fresh_kids_def)
    show ?thesis using rotate_change_ok [OF P g(1) ok g(2) E(2)] E(2) by (auto simp: rotate_change_def Let_def)
  qed
  obtain E b key1 kdf1 where b: "drawn_env O' E" "rotate_change E ts a = Inr (b, p)" "open_with O' (replace_active b v) key1 kdf1 u"
      "deriveKey ?P pw kdf1 = Inr key1"
  proof (rule change_done [OF P d(1) s a t p(2)])
    fix E b
    assume E: "drawn_env O' E" "rotate_change E ts a = Inr (b, p)" and u: "account_ok ?P b \<Longrightarrow> acc_id b = acc_id a \<Longrightarrow>
      \<exists>key' kdf'. open_with O' (replace_active b v) key' kdf' u \<and> deriveKey ?P pw kdf' = Inr key' \<and> same_screen s u"
    have "account_ok ?P b" "acc_id b = acc_id a" using rot [OF E] rotate_keeps_keys(2) [OF ok] by blast+
    then show thesis using that [OF E] u by blast
  qed
  note bf = rot [OF b(1,2)]
  have ba: "acc_id b = acc_id a" using bf rotate_keeps_keys(2) [OF ok] by blast
  have act: "full_active (replace_active b v) = Some b" by (rule full_active_replaced [OF a ba])
  have "fst (ou_fetch O' \<lparr>rq_method = ''POST'', rq_url = ROTATE_KEY O', rq_token = map_option snd (cl_session u),
        rq_body = Some (rotate_request published ts)\<rparr> (cl_world u)) = Inr r"
    using r by (simp add: refuses_rotation_def)
  then obtain w where w: "ou_fetch O' \<lparr>rq_method = ''POST'', rq_url = ROTATE_KEY O', rq_token = map_option snd (cl_session u),
        rq_body = Some (rotate_request published ts)\<rparr> (cl_world u) = (Inr r, w)"
    by (metis prod.collapse)
  have r': "\<not> rs_ok r" "400 \<le> rs_status r" "rs_status r < 500" "rs_status r \<noteq> 401" "rs_json r \<noteq> Some JNull" "rs_json r \<noteq> Some JUndef"
    using r by (auto simp: refuses_rotation_def rs_ok_def)
  have post: "apiRaw O' ''POST'' (ROTATE_KEY O') (Some (rotate_request published ts)) u = (Inr r, u\<lparr>cl_world := w\<rparr>)"
    by (rule apiRaw_run [OF w]) (simp_all add: rotate_request_def r')
  let ?u = "u\<lparr>cl_world := w\<rparr>" and ?kid = "ek_kid (acc_encryption b)"
  have u: "open_with O' (replace_active b v) key1 kdf1 ?u" using b(3) by (simp add: open_with_def)
  let ?change = "\<lambda>E a. bind_res (revertAccountEncryptionKeyRotation (we_prims E) (we_now E) (account_js a) ?kid (we_now E)) (\<lambda>b. Ok (b, ()))"
  have rev: "\<exists>c. ?change E' b = Inr (c, ()) \<and> account_ok ?P c \<and> acc_id c = acc_id b \<and>
      (acc_encryption c = acc_encryption a \<and> set (account_keys a) \<subseteq> set (account_keys c))"
    if "drawn_env O' E'" for E'
  proof -
    have E': "we_prims E' = ?P" using that by (auto simp: drawn_env_def)
    obtain c where c: "revertAccountEncryptionKeyRotation ?P (we_now E') (account_js b) ?kid (we_now E') = Inr c"
        "acc_encryption c = acc_encryption a"
      using revert_after_rotate [OF ok] bf by blast
    have "acc_id c = acc_id b" using c(1) revert_result [of ?P b] bf by auto
    moreover have "account_ok ?P c" "set (account_keys c) = set (account_keys b)" using revert_account_ok [OF _ c(1)] bf by blast+
    moreover have "set (account_keys a) \<subseteq> set (account_keys b)" using rotate_keeps_keys(1) [OF ok] bf by blast
    ultimately show ?thesis using c E' by simp
  qed
  show thesis
  proof (rule change_succeeds [where change = ?change and r = "()" and
      Q = "\<lambda>c. acc_encryption c = acc_encryption a \<and> set (account_keys a) \<subseteq> set (account_keys c)", OF P d(1) u act t(1,2) b(4) rev])
    fix c key' kdf' z
    assume z: "withCustody O' (map_op (\<lambda>_. ()) (ext O' ''revertEncryptionKeyRotation'' [JObj [(''newKid'', JStr ?kid)]]))
        (\<lambda>password. in_vault O' (\<lambda>E. withActiveAccount E password (?change E)))
        (Some ''Enter your vault password to undo the key replacement:'') False ?u = (Inr (), z)"
      and c: "acc_encryption c = acc_encryption a \<and> set (account_keys a) \<subseteq> set (account_keys c)"
        "full_active (replace_active c (replace_active b v)) = Some c" "open_with O' (replace_active c (replace_active b v)) key' kdf' z"
    have kid: "js_get published ''newKid'' = JStr ?kid" using p(1) bf by (simp add: published_js_def)
    have "revertKeyLocally O' (js_get published ''newKid'') ?u = (Inr (), z)"
      using z kid by (simp add: revertKeyLocally_def web_revertRotation_def andThen_def lift_res_def)
    then have "publish_rotation O' published ts u = (Inl (PlainError (''The server refused the new key: '' @ rotate_refusal r)), z)"
      using post r' by (simp add: publish_rotation_def catches_def andThen_apply)
    then have "pqc_rotateEncryptionKey n O' ts s = Some (Inl (PlainError (''The server refused the new key: '' @ rotate_refusal r)), z)"
      using local by (simp add: pqc_rotateEncryptionKey_def andThen_apply)
    then show thesis using that c by blast
  qed
qed

end
