(* ===== verification/WebLogin.thy ===== *)
theory WebLogin
  imports WebErase WebRotate
begin

text \<open>
  Signing in with the local vault, and forgetting an identity: what the sign-in request carries, and
  which identities a removal can touch.
\<close>

subsection \<open>Signing in\<close>

lemma in_vault_sign:
  assumes P: "aead_correct (ou_prims O')" "signature_laws (ou_prims O')" "digest_laws (ou_prims O')"
    and s: "holds_vault (ou_prims O') (cl_vault s) v key kdf" "\<not> ws_isLocked (cl_vault s)"
    and a: "full_active v = Some a" "account_ok (ou_prims O') a"
    and pw: "pw \<noteq> []" "deriveKey (ou_prims O') pw kdf = Inr key"
  obtains sig t where "sign_body O' (Inr b) (Some pw) s = (Inr (JStr sig), t)" "signed_by (ou_prims O') a b (JStr sig)"
    "holds_vault (ou_prims O') (cl_vault t) v key kdf" "\<not> ws_isLocked (cl_vault t)" "same_screen s t"
proof -
  obtain d w where d: "drawn O' s = (Inr d, s\<lparr>cl_world := w\<rparr>)" "we_prims (dr_env d) = ou_prims O'" using drawn_run [of O' s] by blast
  obtain u where u: "getFullVault (ou_prims O') (we_now (dr_env d)) (Some pw) (cl_vault s) = (Inr v, u)"
      "holds_vault (ou_prims O') u v key kdf" "ws_isLocked u = ws_isLocked (cl_vault s)"
    using getFull_opens [OF P(1) s, of "Some pw" "we_now (dr_env d)"] pw by metis
  obtain sig where sig: "signMessage (ou_prims O') b (JStr (identity_seed a)) (we_sign (dr_env d)) = Inr sig" "signed_by (ou_prims O') a b (JStr sig)"
    using identity_signs [OF P(2,3) a(2)] .
  have "sign_body O' (Inr b) (Some pw) s = (Inr (JStr sig), s\<lparr>cl_world := w, cl_vault := u\<rparr>)"
    using d u(1) s(2) a(1) sig(1)
    by (simp add: sign_body_run map_op_def in_vault_def on_vault_def web_sign_def with_active_full_def requireOpen_run andThen_apply)
  then show thesis using that [of sig "s\<lparr>cl_world := w, cl_vault := u\<rparr>"] sig(2) u(2,3) s(2) by simp
qed

lemma active_shown:
  assumes "holds_vault P s v key kdf" "\<not> ws_isLocked s" "full_active v = Some a"
  shows "web_activeAccount s = Some (sanitize a)"
proof -
  obtain m where m: "ws_vault s = Some m" "mirrors m v" using assms(1,2) by (auto simp: holds_vault_def memory_fits_def)
  have act: "fv_active v = JStr (acc_id a)" using full_active_mem [OF assms(3)] by blast
  have "find (\<lambda>b. pa_id b = acc_id a) (pv_accounts m) = Some (sanitize a)"
    using m(2) assms(3) act by (simp add: mirrors_def full_active_def)
  then show ?thesis using m assms(2) act by (simp add: web_activeAccount_def mirrors_def)
qed

lemma account_public:
  assumes "digest_laws P" "account_ok P a"
  shows "addressOf P (JStr (hp_publicKey (acc_identity a))) = Inr (acc_id a)" "isAddress (JStr (acc_id a))"
    "is_hex_text (ek_publicKey (acc_encryption a))" "ek_publicKey (acc_encryption a) \<noteq> []"
proof -
  show a: "addressOf P (JStr (hp_publicKey (acc_identity a))) = Inr (acc_id a)" using assms(2) by (simp add: account_ok_def)
  then show "isAddress (JStr (acc_id a))" by (rule addressOf_isAddress [OF assms(1)])
  have k: "key_ok P (acc_encryption a)" using assms(2) by (simp add: account_ok_def)
  obtain pk where pk: "ek_publicKey (acc_encryption a) = toHex pk" by (rule key_ok_seed [OF k])
  obtain kid where "encryptionKeyId P (JStr (ek_publicKey (acc_encryption a))) = Inr kid" using k by (auto simp: key_ok_def)
  then show ne: "ek_publicKey (acc_encryption a) \<noteq> []" by (auto simp: encryptionKeyId_def fromHex.simps hex_error_def)
  then show "is_hex_text (ek_publicKey (acc_encryption a))" using pk toHex_lhex [of pk] by (simp add: is_hex_text_def)
qed

text \<open>What is posted, and what becomes of the answer.\<close>

lemma server_login_run:
  assumes P: "aead_correct (ou_prims O')" "signature_laws (ou_prims O')" "digest_laws (ou_prims O')"
    and s: "holds_vault (ou_prims O') (cl_vault s) v key kdf" "\<not> ws_isLocked (cl_vault s)"
    and a: "full_active v = Some a" "account_ok (ou_prims O') a"
    and pw: "pw \<noteq> []" "deriveKey (ou_prims O') pw kdf = Inr key"
    and origin: "isCanonicalOrigin (JStr (ou_origin O'))"
    and nonce: "ou_fetch O' \<lparr>rq_method = ''GET'', rq_url = NONCE O' (acc_id a), rq_token = None, rq_body = None\<rparr> (cl_world s) =
      (Inr \<lparr>rs_status = 200, rs_json = Some (JObj [(''nonce'', n), (''deployment'', d)])\<rparr>, w)" "is_hex_string n" "isSignedIdentifier d"
  obtains body sig att t where
    "loginChallengeBody \<lparr>lf_nonce = n, lf_origin = JStr (ou_origin O'), lf_deployment = d, lf_encryptionKey = JStr (ek_publicKey (acc_encryption a))\<rparr> = Inr body"
    "signed_by (ou_prims O') a body (JStr sig)"
    "verifyEncryptionKeyAttestation (ou_prims O') \<lparr>ac_address = JStr (acc_id a), ac_identityPublicKey = JStr (hp_publicKey (acc_identity a)),
       ac_encryptionPublicKey = JStr (ek_publicKey (acc_encryption a)), ac_attestation = JStr att\<rparr>"
    "same_screen s t"
    "performServerLogin O' (hp_publicKey (acc_identity a)) (ek_publicKey (acc_encryption a)) (vaultSignLogin O' (Some pw)) username invite
        (vaultAttest O' (Some pw)) s =
      andThen (plain_fetch O' ''POST'' (LOGIN O') (Some (login_request (acc_id a) (hp_publicKey (acc_identity a)) (JStr sig)
          \<lparr>lf_nonce = n, lf_origin = JStr (ou_origin O'), lf_deployment = d, lf_encryptionKey = JStr (ek_publicKey (acc_encryption a))\<rparr>
          (JStr att) username invite))) (\<lambda>r.
        if rs_ok r then andThen (lift_res (json_of r)) (\<lambda>data.
          andThen (updates (authLogin (js_get data ''user'') (js_get data ''access_token''))) (\<lambda>_. ret (js_get data ''user'')))
        else fail (login_error r)) t"
proof -
  let ?P = "ou_prims O'" and ?ek = "ek_publicKey (acc_encryption a)" and ?pk = "hp_publicKey (acc_identity a)"
  note pub = account_public [OF P(3) a(2)]
  let ?f = "\<lparr>lf_nonce = n, lf_origin = JStr (ou_origin O'), lf_deployment = d, lf_encryptionKey = JStr ?ek\<rparr>"
  let ?g = "\<lparr>af_address = JStr (acc_id a), af_encryptionPublicKey = JStr ?ek\<rparr>"
  obtain body where body: "loginChallengeBody ?f = Inr body"
    using nonce(2,3) origin pub(3) by (simp add: loginChallengeBody_def need_body_def login_key_ok_def)
  obtain abody where abody: "encryptionKeyAttestationBody ?g = Inr abody"
    using pub(2,3) by (simp add: encryptionKeyAttestationBody_def need_body_def)
  have fetched: "fetch_nonce O' (acc_id a) s = (Inr (n, d), s\<lparr>cl_world := w\<rparr>)"
    using nonce(1) by (simp add: fetch_nonce_def plain_fetch_def in_world_def andThen_apply json_of_def rs_ok_def)
  have s1: "holds_vault ?P (cl_vault (s\<lparr>cl_world := w\<rparr>)) v key kdf" "\<not> ws_isLocked (cl_vault (s\<lparr>cl_world := w\<rparr>))" using s by simp_all
  obtain sig t where t: "sign_body O' (Inr body) (Some pw) (s\<lparr>cl_world := w\<rparr>) = (Inr (JStr sig), t)" "signed_by ?P a body (JStr sig)"
      "holds_vault ?P (cl_vault t) v key kdf" "\<not> ws_isLocked (cl_vault t)" "same_screen (s\<lparr>cl_world := w\<rparr>) t"
    by (rule in_vault_sign [OF P s1 a pw, of body]) blast
  obtain att u where u: "sign_body O' (Inr abody) (Some pw) t = (Inr (JStr att), u)" "signed_by ?P a abody (JStr att)"
      "holds_vault ?P (cl_vault u) v key kdf" "\<not> ws_isLocked (cl_vault u)" "same_screen t u"
    by (rule in_vault_sign [OF P t(3,4) a pw, of abody]) blast
  have "att \<noteq> []" using u(2) by (auto simp: signed_by_def verifyIdentitySignature_def fromB64.simps split: if_splits)
  then have ver: "verifyEncryptionKeyAttestation ?P \<lparr>ac_address = JStr (acc_id a), ac_identityPublicKey = JStr ?pk,
       ac_encryptionPublicKey = JStr ?ek, ac_attestation = JStr att\<rparr>"
    using abody u(2) pub(4) by (simp add: verifyEncryptionKeyAttestation_def signed_by_def)
  have same: "same_screen s u" using same_screen_trans [OF same_screen_trans [OF _ t(5)] u(5), of s] by simp
  show thesis
    by (rule that [OF body t(2) ver same])
      (use pub(1,4) fetched t(1) u(1) body abody in \<open>simp add: performServerLogin_def vaultSignLogin_def vaultAttest_def andThen_apply Let_def\<close>)
qed


text \<open>The whole sign-in with the vault's password: the vault opens, its active account is taken on, and what
  is posted is answered.\<close>

definition posted_login :: "'w outside \<Rightarrow> account \<Rightarrow> jsval \<Rightarrow> jsval \<Rightarrow> string option \<Rightarrow> string \<Rightarrow> string \<Rightarrow> web_request" where
  "posted_login O' a n d invite sig att =
     \<lparr>rq_method = ''POST'', rq_url = LOGIN O', rq_token = None,
      rq_body = Some (login_request (acc_id a) (hp_publicKey (acc_identity a)) (JStr sig)
        \<lparr>lf_nonce = n, lf_origin = JStr (ou_origin O'), lf_deployment = d, lf_encryptionKey = JStr (ek_publicKey (acc_encryption a))\<rparr>
        (JStr att) (JStr (acc_name a)) invite)\<rparr>"

lemma login_run:
  assumes P: "web_laws (ou_prims O')"
    and s: "holds_vault (ou_prims O') (cl_vault s) v key kdf" and a: "full_active v = Some a"
    and pw: "pw \<noteq> []" "deriveKey (ou_prims O') pw kdf = Inr key" and origin: "isCanonicalOrigin (JStr (ou_origin O'))"
    and nonce: "ou_fetch O' \<lparr>rq_method = ''GET'', rq_url = NONCE O' (acc_id a), rq_token = None, rq_body = None\<rparr>
        (snd (ou_draw O' (cl_world s))) = (Inr \<lparr>rs_status = 200, rs_json = Some (JObj [(''nonce'', n), (''deployment'', d)])\<rparr>, w)"
      "is_hex_string n" "isSignedIdentifier d"
  obtains body sig att t where
    "loginChallengeBody \<lparr>lf_nonce = n, lf_origin = JStr (ou_origin O'), lf_deployment = d, lf_encryptionKey = JStr (ek_publicKey (acc_encryption a))\<rparr> = Inr body"
    "signed_by (ou_prims O') a body (JStr sig)"
    "verifyEncryptionKeyAttestation (ou_prims O') \<lparr>ac_address = JStr (acc_id a), ac_identityPublicKey = JStr (hp_publicKey (acc_identity a)),
       ac_encryptionPublicKey = JStr (ek_publicKey (acc_encryption a)), ac_attestation = JStr att\<rparr>"
    "cl_session t = cl_session s" "cl_account t = Some (acc_id a)"
    "loginLocalVault O' pw invite s = andThen (in_world (ou_fetch O' (posted_login O' a n d invite sig att))) (\<lambda>r.
        if rs_ok r then andThen (lift_res (json_of r)) (\<lambda>data.
          andThen (updates (authLogin (js_get data ''user'') (js_get data ''access_token''))) (\<lambda>_. ret (js_get data ''user'')))
        else fail (login_error r)) t"
proof -
  let ?P = "ou_prims O'" and ?w = "snd (ou_draw O' (cl_world s))"
  have L: "aead_correct ?P" "signature_laws ?P" using P by (simp_all add: web_laws_def)
  have D: "digest_laws ?P" using P by (simp add: web_laws_def envelope_laws_def)
  have ok: "account_ok ?P a" using full_active_ok [OF _ a] s by (auto simp: holds_vault_def sealed_full_def)
  obtain dr where dr: "drawn O' s = (Inr dr, s\<lparr>cl_world := ?w\<rparr>)" "we_prims (dr_env dr) = ?P" using drawn_run [of O' s] by blast
  let ?u = "(put_memory v (cacheKey (we_now (dr_env dr)) key kdf (cl_vault s)))\<lparr>ws_isLocked := False\<rparr>"
  have unlocked: "vault_unlock O' pw s = (Inr True, s\<lparr>cl_world := ?w, cl_vault := ?u\<rparr>)"
    using dr unlock_cases(1) [OF P s pw(2)] by (simp add: vault_unlock_def in_vault_def on_vault_def andThen_apply)
  have f: "sealed_full ?P (cl_vault s) v key kdf" "cache_fits (cl_vault s) key kdf" using s by (simp_all add: holds_vault_def)
  have "sealed_full ?P (cacheKey (we_now (dr_env dr)) key kdf (cl_vault s)) v key kdf" using f(1) same_vault_sealed [OF same_vault_ops(4)] by blast
  then have held: "holds_vault ?P ?u v key kdf"
    using f(2) mirrors_sanitize [of v] by (simp add: holds_vault_def memory_fits_def put_memory_def)
  have shown: "web_activeAccount ?u = Some (sanitize a)" by (rule active_shown [OF held _ a]) simp
  let ?t = "s\<lparr>cl_world := ?w, cl_vault := ?u, cl_account := Some (acc_id a), cl_identityKey := Some (hp_publicKey (acc_identity a)),
      cl_encryptionKey := Some (ek_publicKey (acc_encryption a))\<rparr>"
  have adopted: "adoptIdentity O' (hp_publicKey (acc_identity a)) (ek_publicKey (acc_encryption a)) (s\<lparr>cl_world := ?w, cl_vault := ?u\<rparr>) = (Inr (), ?t)"
    using account_public(1) [OF D ok] by (simp add: adoptIdentity_def andThen_apply)
  have t: "holds_vault ?P (cl_vault ?t) v key kdf" "\<not> ws_isLocked (cl_vault ?t)" using held by simp_all
  have nonce': "ou_fetch O' \<lparr>rq_method = ''GET'', rq_url = NONCE O' (acc_id a), rq_token = None, rq_body = None\<rparr> (cl_world ?t) =
      (Inr \<lparr>rs_status = 200, rs_json = Some (JObj [(''nonce'', n), (''deployment'', d)])\<rparr>, w)" using nonce(1) by simp
  have login: "loginLocalVault O' pw invite s = performServerLogin O' (hp_publicKey (acc_identity a)) (ek_publicKey (acc_encryption a))
      (vaultSignLogin O' (Some pw)) (JStr (acc_name a)) invite (vaultAttest O' (Some pw)) ?t"
    using unlocked shown adopted
    by (simp add: loginLocalVault_def active_now_def vault_login_def andThen_apply) (simp add: sanitize_def)
  show thesis
  proof (rule server_login_run [OF L D t(1,2) a ok pw origin nonce' nonce(2,3), where username = "JStr (acc_name a)" and invite = invite])
    fix body sig att u
    assume u: "loginChallengeBody \<lparr>lf_nonce = n, lf_origin = JStr (ou_origin O'), lf_deployment = d, lf_encryptionKey = JStr (ek_publicKey (acc_encryption a))\<rparr> = Inr body"
      "signed_by ?P a body (JStr sig)"
      "verifyEncryptionKeyAttestation ?P \<lparr>ac_address = JStr (acc_id a), ac_identityPublicKey = JStr (hp_publicKey (acc_identity a)),
         ac_encryptionPublicKey = JStr (ek_publicKey (acc_encryption a)), ac_attestation = JStr att\<rparr>"
      and same: "same_screen ?t u"
      and run: "performServerLogin O' (hp_publicKey (acc_identity a)) (ek_publicKey (acc_encryption a)) (vaultSignLogin O' (Some pw)) (JStr (acc_name a)) invite
          (vaultAttest O' (Some pw)) ?t =
        andThen (plain_fetch O' ''POST'' (LOGIN O') (Some (login_request (acc_id a) (hp_publicKey (acc_identity a)) (JStr sig)
            \<lparr>lf_nonce = n, lf_origin = JStr (ou_origin O'), lf_deployment = d, lf_encryptionKey = JStr (ek_publicKey (acc_encryption a))\<rparr>
            (JStr att) (JStr (acc_name a)) invite))) (\<lambda>r.
          if rs_ok r then andThen (lift_res (json_of r)) (\<lambda>data.
            andThen (updates (authLogin (js_get data ''user'') (js_get data ''access_token''))) (\<lambda>_. ret (js_get data ''user'')))
          else fail (login_error r)) u"
    have screen: "cl_session u = cl_session s" "cl_account u = Some (acc_id a)" using same_screen_fields [OF same] by simp_all
    show thesis by (rule that [OF u screen]) (simp only: login run plain_fetch_def posted_login_def)
  qed
qed


subsection \<open>Forgetting an identity\<close>

lemma drawn_sound:
  assumes "sound_draws O'"
  obtains d w where "drawn O' s = (Inr d, s\<lparr>cl_world := w\<rparr>)" "good_draw (ou_prims O') (dr_env d)"
proof (cases "ou_draw O' (cl_world s)")
  case (Pair d w)
  then have "drawn_env O' ((dr_env d)\<lparr>we_prims := ou_prims O'\<rparr>)" by (auto simp: drawn_env_def intro!: exI [of _ "cl_world s"])
  then show thesis using that [of "d\<lparr>dr_env := (dr_env d)\<lparr>we_prims := ou_prims O'\<rparr>\<rparr>" w] assms Pair by (simp add: drawn_def sound_draws_def)
qed

lemma in_vault_at:
  assumes "sound_draws O'" and "\<And>E. good_draw (ou_prims O') E \<Longrightarrow> web_at P Q (snd (m E (cl_vault s)))"
  shows "web_at P Q (cl_vault (snd (in_vault O' m s)))"
proof (rule drawn_sound [OF assms(1), of s])
  fix d w
  assume d: "drawn O' s = (Inr d, s\<lparr>cl_world := w\<rparr>)" "good_draw (ou_prims O') (dr_env d)"
  then show ?thesis using assms(2) [OF d(2)] by (simp add: in_vault_def on_vault_def andThen_apply split_beta)
qed

lemma requestPassword_keeps: "cl_vault (snd (requestPassword O' m force s)) = cl_vault s"
  by (auto simp: requestPassword_def prompt_user_def map_op_def in_world_def andThen_apply split: prod.splits sum.splits)

lemma adopt_active_keeps: "cl_vault (snd (adopt_active O' s)) = cl_vault s"
  by (auto simp: adopt_active_def adoptIdentity_def andThen_apply split: option.splits sum.splits prod.splits)

lemma forget_one:
  assumes P: "web_laws (ou_prims O')" and d: "sound_draws O'" and s: "web_at (ou_prims O') ((=) x) (cl_vault s)"
    and here: "vaultHoldsCurrentIdentity s" "1 < length (web_accounts (cl_vault s))" "web_activeAccount (cl_vault s) = Some p"
    and same: "Q x"
    and other: "\<And>v. x = Some v \<Longrightarrow> fv_active v \<noteq> JStr (pa_id p) \<Longrightarrow>
      Q (Some (v\<lparr>fv_accounts := filter (\<lambda>a. acc_id a \<noteq> pa_id p) (fv_accounts v)\<rparr>))"
    and active: "\<And>v b. x = Some v \<Longrightarrow> fv_active v = JStr (pa_id p) \<Longrightarrow> b \<in> set (fv_accounts v) \<Longrightarrow> acc_id b \<noteq> pa_id p \<Longrightarrow>
      Q (Some (v\<lparr>fv_active := JStr (acc_id b), fv_accounts := filter (\<lambda>a. acc_id a \<noteq> pa_id p) (fv_accounts v)\<rparr>))"
  shows "web_at (ou_prims O') Q (cl_vault (snd (forgetLocalIdentity O' password s)))"
proof -
  let ?P = "ou_prims O'"
  let ?ask = "case password of Some pw \<Rightarrow> ret (Some pw)
      | None \<Rightarrow> requestPassword O' ''Enter your vault password to remove this identity:'' False"
  let ?del = "\<lambda>pw. in_vault O' (\<lambda>E. web_deleteAccount E (pa_id p) pw)"
  obtain r t where ask: "?ask s = (r, t)" "cl_vault t = cl_vault s"
    using requestPassword_keeps [of O' _ False s] by (cases "?ask s") (auto simp: ret_def split: option.splits dest: arg_cong [where f = "\<lambda>z. cl_vault (snd z)"])
  have del: "web_at ?P Q (cl_vault (snd (?del pw t)))" for pw
    by (rule in_vault_at [OF d]) (unfold ask(2), rule delete_at [OF P _ s same other active])
  have mono: "web_at ?P Q (cl_vault s)" using web_at_mono [OF s] same by auto
  have "active_now s = (Inr p, s)" using here(3) by (simp add: active_now_def)
  then have run: "forgetLocalIdentity O' password s =
      andThen ?ask (\<lambda>pw. andThen (?del pw) (\<lambda>_. andThen (adopt_active O') (\<lambda>_. ret ''identity''))) s"
    using here(1,2) by (simp add: forgetLocalIdentity_def andThen_apply)
  show ?thesis
  proof (cases r)
    case (Inl e)
    then show ?thesis using ask mono run by (simp add: andThen_apply)
  next
    case (Inr pw)
    obtain r' u where u: "?del pw t = (r', u)" by (cases "?del pw t")
    then have "web_at ?P Q (cl_vault u)" using del [of pw] by simp
    then show ?thesis using Inr ask(1) run u adopt_active_keeps [of O' u]
      by (cases r'; cases "adopt_active O' u") (auto simp: andThen_apply split: sum.splits)
  qed
qed

end
