(* ===== verification/WebRotated.thy ===== *)
theory WebRotated
  imports WebLogin
begin

text \<open>
  A rotation on the device goes through as long as the account has room for one more retired key: the
  new key is made, and both statements about it are signed.
\<close>

lemma rotate_change_succeeds:
  assumes P: "web_laws P" and E: "good_draw P E" and a: "account_ok P a" and room: "length (acc_retired a) < MAX_RETIRED_ENCRYPTION_KEYS"
    and fresh: "new_kid P (we_encryption E) \<notin> set (account_kids a)" and ts: "isCount (JNum ts)"
  obtains b p where "rotate_change E ts a = Inr (b, p)" "account_ok P b" "acc_id b = acc_id a"
proof -
  have L: "envelope_laws P" "signature_laws P" "digest_laws P" using P by (simp_all add: web_laws_def envelope_laws_def)
  have d: "we_prims E = P" "good_encryption_draw P (we_encryption E)" using E by (simp_all add: good_draw_def)
  obtain k where k: "key_ok P k" "rotateAccountEncryptionKey P (we_now E) (we_encryption E) (account_js a) ts =
      Inr (a\<lparr>acc_encryption := k, acc_retired := retire (acc_encryption a) ts # acc_retired a\<rparr>)"
    using rotate_succeeds [OF a L(1) d(2) room] by blast
  let ?b = "a\<lparr>acc_encryption := k, acc_retired := retire (acc_encryption a) ts # acc_retired a\<rparr>"
  have b: "account_ok P ?b" by (rule rotated_ok [OF L(1) d(2) a fresh k(2)])
  note pub = account_public [OF L(3) b]
  obtain body where body: "encryptionKeyAttestationBody \<lparr>af_address = JStr (acc_id a), af_encryptionPublicKey = JStr (ek_publicKey k)\<rparr> = Inr body"
    using pub(2,3) by (simp add: encryptionKeyAttestationBody_def need_body_def)
  have kids: "isEncryptionKeyId (JStr (ek_kid (acc_encryption a)))" "isEncryptionKeyId (JStr (ek_kid k))"
    using a k(1) encryptionKeyId_shape [OF L(3)] by (auto simp: account_ok_def key_ok_def)
  have "distinct (account_kids ?b)" using b by (simp only: account_ok_def)
  then have "ek_kid (acc_encryption a) \<noteq> ek_kid k" by (auto simp: account_kids_def)
  then obtain rbody where rbody: "keyRotationBody \<lparr>rf_address = JStr (acc_id a), rf_oldKid = JStr (ek_kid (acc_encryption a)),
      rf_newKid = JStr (ek_kid k), rf_ts = JNum ts\<rparr> = Inr rbody"
    using pub(2) kids ts by (simp add: keyRotationBody_def need_body_def)
  obtain sig where sig: "signMessage P body (JStr (identity_seed a)) (we_sign E) = Inr sig" using identity_signs [OF L(2,3) a] .
  obtain rsig where rsig: "signMessage P rbody (JStr (identity_seed a)) (we_sign2 E) = Inr rsig" using identity_signs [OF L(2,3) a] .
  have "\<exists>p. rotate_change E ts a = Inr (?b, p)"
    using d(1) k(2) body rbody sig rsig by (simp add: rotate_change_def Let_def attestEncryptionKey_def signKeyRotation_def)
  then show thesis using that [of ?b] b by auto
qed

lemma rotation_goes_through:
  assumes P: "web_laws (ou_prims O')" and d: "sound_draws O'" "fresh_kids O' a" and s: "open_with O' v key kdf s"
    and a: "full_active v = Some a" and t: "typed O' pw" and pw: "pw \<noteq> []" "deriveKey (ou_prims O') pw kdf = Inr key"
    and room: "length (acc_retired a) < MAX_RETIRED_ENCRYPTION_KEYS" and ts: "isCount (JNum ts)"
  obtains published u where "rotateKeyLocally O' ts s = (Inr published, u)"
proof -
  let ?P = "ou_prims O'"
  have ok: "account_ok ?P a" using full_active_ok [OF _ a] s by (auto simp: open_with_def holds_vault_def sealed_full_def)
  have x: "\<not> cl_extension s" using s by (simp add: open_with_def)
  show thesis
  proof (rule custody_change [OF d(1) s t pw, where change = "\<lambda>E. rotate_change E ts" and viaExt = "fail not_ready" and force = True and
      ask = "''Enter your vault password to replace your encryption key:''"])
    fix E p w
    assume eq: "withCustody O' (fail not_ready) (\<lambda>password. in_vault O' (\<lambda>E. withActiveAccount E password (rotate_change E ts)))
        (Some ''Enter your vault password to replace your encryption key:'') True s =
        on_vault (withActiveAccount E p (rotate_change E ts)) (s\<lparr>cl_world := w\<rparr>)"
      and E: "drawn_env O' E" "we_prims E = ?P" "strong_rnd (we_save E)"
      and op: "hasCachedKey (cl_vault s) \<or> (\<exists>q. p = Some q \<and> q \<noteq> [] \<and> deriveKey ?P q kdf = Inr key)"
    have g: "good_draw ?P E" "new_kid ?P (we_encryption E) \<notin> set (account_kids a)"
      using E(1) d by (auto simp: sound_draws_def drawn_env_def fresh_kids_def)
    obtain b q where b: "rotate_change E ts a = Inr (b, q)" "account_ok ?P b" "acc_id b = acc_id a"
      by (rule rotate_change_succeeds [OF P g(1) ok room g(2) ts])
    have o: "holds_vault ?P (cl_vault s) v key kdf" "\<not> ws_isLocked (cl_vault s)" using s by (simp_all add: open_with_def)
    obtain z where z: "withActiveAccount E p (rotate_change E ts) (cl_vault s) = (Inr q, z)"
      by (rule with_active_run [where change = "rotate_change E ts", OF P E(2,3) o a op b])
    from eq z have "withCustody O' (fail not_ready) (\<lambda>password. in_vault O' (\<lambda>E. withActiveAccount E password (rotate_change E ts)))
        (Some ''Enter your vault password to replace your encryption key:'') True s = (Inr q, s\<lparr>cl_world := w, cl_vault := z\<rparr>)"
      by (simp add: on_vault_def)
    from custody_map [OF this x, of "ext O' ''rotateEncryptionKey'' [JObj [(''ts'', JNum ts)]]" published_js] that
    show thesis by (simp add: rotateKeyLocally_def web_rotateEncryptionKey_def)
  qed
qed

end
