(* ===== verification/WebTransfer.thy ===== *)
theory WebTransfer
  imports WebCustody
begin

text \<open>
  A vault on its way to another device, or back from an older backup: what an encrypted export holds,
  what a blank device makes of it, and what merging it does to a vault that has moved on.
\<close>

subsection \<open>What a backup holds\<close>

text \<open>The stores of pinned keys are what \<open>JSON.parse\<close> found.\<close>

definition stores_pure :: "trust_stores \<Rightarrow> bool" where
  "stores_pure S \<longleftrightarrow> js_pure (trusted_keys S) \<and> js_pure (attested_contacts S)"

lemma distinct_filter_fst: "distinct (map fst kvs) \<Longrightarrow> distinct (map fst (filter p kvs))"
  by (induction kvs) auto

lemma load_pure: "js_pure v \<Longrightarrow> js_pure (JObj (load v))"
  by (cases v) (auto simp: load_def distinct_filter_fst)

lemma stores_js_pure: "stores_pure S \<Longrightarrow> js_pure (exportTrustStores S)"
  using load_pure [of "trusted_keys S"] load_pure [of "attested_contacts S"] by (simp add: stores_pure_def exportTrustStores_def)

lemma backup_pure: "full_ok P v \<Longrightarrow> stores_pure S \<Longrightarrow> js_pure (backup_js v S)"
  using stores_js_pure [of S] by (auto simp: full_ok_def backup_js_def full_fields_def account_js_pure)

lemma backup_fields:
  "js_get (backup_js v S) ''accounts'' = JArr (map account_js (fv_accounts v))"
  "js_get (backup_js v S) ''trustStore'' = exportTrustStores S" "is_nullish (backup_js v S) = False"
  "js_get (backup_js v S) ''activeAccountId'' = fv_active v"
  by (simp_all add: backup_js_def full_fields_def)

lemma backup_raws: "full_ok P v \<Longrightarrow> backup_accounts (backup_js v S) = Inr (map account_js (fv_accounts v))"
  using plain_vault_is_not [OF backup_fields(1), of v S]
  by (auto simp: backup_accounts_def backup_fields array_of_def full_ok_def split: list.splits)

lemma chosen_kept:
  assumes "digest_laws P" and v: "full_ok P v"
  shows "chosen_active (fv_active v) (fv_accounts v) = fv_active v"
proof -
  obtain a where a: "a \<in> set (fv_accounts v)" "fv_active v = JStr (acc_id a)" "account_ok P a"
    using v by (auto simp: full_ok_def list_all_iff)
  then have "addressOf P (JStr (hp_publicKey (acc_identity a))) = Inr (acc_id a)" by (simp add: account_ok_def)
  then have "isAddress (JStr (acc_id a))" by (rule addressOf_isAddress [OF assms(1)])
  then have "acc_id a \<noteq> []" by (auto simp: ADDRESS_HEX_LENGTH_def)
  then show ?thesis using a(1,2) by (auto simp: chosen_active_def list_ex_iff)
qed

subsection \<open>Exporting\<close>

text \<open>The vault is open: by the key in the cache, or by the password that is given.\<close>

definition opened_by :: "prims \<Rightarrow> web_state \<Rightarrow> string option \<Rightarrow> bytes \<Rightarrow> jsval \<Rightarrow> bool" where
  "opened_by P s password key kdf \<longleftrightarrow>
     \<not> ws_isLocked s \<and> (hasCachedKey s \<or> (\<exists>p. password = Some p \<and> p \<noteq> [] \<and> deriveKey P p kdf = Inr key))"

lemma opened_full:
  assumes P: "web_laws P" and h: "holds_vault P s v key kdf" and o: "opened_by P s password key kdf"
  obtains t where "getFullVault P now password s = (Inr v, t)" "holds_vault P t v key kdf" "\<not> ws_isLocked t"
    "can_save t password" "ws_trust t = ws_trust s"
proof -
  have L: "aead_correct P" "aead_key_binding P" "kdf_laws P" and o': "\<not> ws_isLocked s"
    "hasCachedKey s \<or> (\<exists>p. password = Some p \<and> p \<noteq> [] \<and> deriveKey P p kdf = Inr key)"
    using P o by (simp_all add: web_laws_def opened_by_def)
  obtain t where t: "getFullVault P now password s = (Inr v, t)"
    by (rule getFull_opens [OF L(1) h o', of now])
  show thesis
    by (cases rule: getFullVault_cases [OF L h, of now password]) (use t o'(1) that in auto)
qed

lemma export_run:
  assumes P: "web_laws P" and E: "we_prims E = P" "strong_rnd (we_save E)" and h: "holds_vault P s v key kdf"
    and o: "opened_by P s password key kdf" and pp: "vaultPasswordProblem (JStr pp) = None" and S: "stores_pure (ws_trust s)"
  obtains backup blob t where "exportEncryptedBlob E (Some pp) password s = (Inr backup, t)" "json_parse backup = Some blob"
    "isEncryptedVaultBlob blob" "decryptVault P blob pp = Inr (backup_js v (ws_trust s))"
proof -
  have L: "aead_correct P" "kdf_laws P" using P by (simp_all add: web_laws_def)
  obtain t where t: "getFullVault P (we_now E) password s = (Inr v, t)" "ws_trust t = ws_trust s"
    by (rule opened_full [OF P h o, of "we_now E"])
  have v: "full_ok P v" using h by (simp add: holds_vault_def sealed_full_def)
  obtain blob where b: "encryptVault P (we_save E) (backup_js v (ws_trust s)) pp = Inr blob" "js_pure blob"
      "isEncryptedVaultBlob blob" "decryptVault P blob pp = Inr (backup_js v (ws_trust s))"
    using sealed_file [OF L E(2) backup_pure [OF v S]] by blast
  have "pp \<noteq> []" using pp by (auto simp: vaultPasswordProblem_def VAULT_PASSWORD_MIN_LENGTH_def)
  then have "exportEncryptedBlob E (Some pp) password s = (Inr (json_text blob), t)"
    using t b(1) pp o E(1)
    by (simp add: exportEncryptedBlob_def andThen_apply requireOpen_run opened_by_def given_def requireStrongPassword_def password_js_def)
  then show thesis using that [of "json_text blob" t blob] b(3,4) json_parse_text [OF b(2)] by simp
qed

subsection \<open>On a blank device\<close>

lemma import_run:
  assumes P: "web_laws P" and E: "good_draw P E" and t: "blank t" and pw: "vaultPasswordProblem (JStr pw) = None"
    and backup: "json_parse backup = Some blob" "decryptVault P blob pp = Inr (backup_js v S)"
    and v: "full_ok P v" "full_active v = Some a" and S: "stores_pure S"
  obtains u key kdf where "importEncryptedBlob E backup pp (Some pw) t = (Inr (sanitize a), u)" "holds_vault P u v key kdf"
    "\<not> ws_isLocked u" "deriveKey P pw kdf = Inr key" "ws_trust u = importTrustStores (ws_trust t) (exportTrustStores S)"
proof -
  have E': "we_prims E = P" "strong_rnd (we_save E)" and L: "kdf_laws P" and D: "digest_laws P"
    using E P by (simp_all add: good_draw_def web_laws_def envelope_laws_def)
  have eta: "\<lparr>fv_accounts = fv_accounts v, fv_active = fv_active v\<rparr> = v" by simp
  let ?t = "disableBiometrics t"
  have b: "blank ?t" "\<not> hasVault t" "\<not> hasCachedKey ?t" using disable_blank [OF t] t by (simp_all add: blank_def hasCachedKey_def)
  have ne: "pw \<noteq> []" using pw by (auto simp: vaultPasswordProblem_def VAULT_PASSWORD_MIN_LENGTH_def)
  have fits: "cache_fits ?t [] JNull" using b(1) by (simp add: blank_def cache_fits_def)
  have can: "can_save ?t (Some pw)" using ne by (simp add: can_save_def)
  obtain u key kdf where u: "save P (we_save E) (we_now E) v (Some pw) ?t = (Inr (), u)" "sealed_full P u v key kdf" "cache_fits u key kdf"
      "ws_trust u = ws_trust ?t" "deriveKey P pw kdf = Inr key"
  proof (rule save_sealed_key [OF L E'(2) v(1) _ fits can, of v "we_now E"])
    fix u key' kdf'
    assume "save P (we_save E) (we_now E) v (Some pw) ?t = (Inr (), u)" "sealed_full P u v key' kdf'" "cache_fits u key' kdf'"
      "ws_trust u = ws_trust ?t" "key' = [] \<and> kdf' = JNull \<or> (\<exists>p. Some pw = Some p \<and> p \<noteq> [] \<and> deriveKey P p kdf' = Inr key')"
    then show thesis using that by (auto simp: sealed_full_def)
  qed (use b(3) in simp)
  have parsed: "map_res (parseAccount P (we_now E)) (map account_js (fv_accounts v)) = Inr (fv_accounts v)"
    using v(1) by (intro parse_accounts_js) (simp add: full_ok_def)
  have json: "json_parse (json_text (backup_js v S)) = Some (backup_js v S)" by (rule json_parse_text [OF backup_pure [OF v(1) S]])
  let ?u = "open_imported v (backup_js v S) u"
  have "importEncryptedBlob E backup pp (Some pw) t = (Inr (sanitize a), ?u)"
    using b(2) pw backup E'(1) json backup_raws [OF v(1), of S] parsed chosen_kept [OF D v(1)] u(1) v(2)
    by (simp add: eta importEncryptedBlob_def importNewVault_def andThen_apply guards_def requireStrongPassword_def password_js_def
        backup_fields Let_def)
  moreover have "holds_vault P ?u v key kdf" "\<not> ws_isLocked ?u"
    using u(2,3) mirrors_sanitize [of v]
    by (simp_all add: open_imported_def holds_vault_def memory_fits_def put_memory_def)
  moreover have "ws_trust ?u = importTrustStores (ws_trust t) (exportTrustStores S)"
    using u(4) by (simp add: open_imported_def put_memory_def backup_fields disableBiometrics_def remove_item_def)
  ultimately show thesis using that u(5) by blast
qed

subsection \<open>Merged into a vault\<close>

lemma merge_run:
  assumes P: "web_laws P" and E: "good_draw P E" and h: "holds_vault P s w key kdf" and o: "opened_by P s password key kdf"
    and backup: "json_parse backup = Some blob" "isEncryptedVaultBlob blob" "decryptVault P blob pp = Inr (backup_js v S)" and pp: "pp \<noteq> []"
    and v: "full_ok P v"
  obtains t key' kdf' where "web_importVault E backup password (Some pp) s = (Inr (length (fv_accounts v)), t)" "\<not> ws_isLocked t"
    "holds_vault P t (w\<lparr>fv_accounts := fold put_imported (fv_accounts v) (fv_accounts w)\<rparr>) key' kdf'"
proof -
  have E': "we_prims E = P" "strong_rnd (we_save E)" and L: "kdf_laws P" using E P by (simp_all add: good_draw_def web_laws_def)
  obtain u where u: "getFullVault P (we_now E) password s = (Inr w, u)" "holds_vault P u w key kdf" "\<not> ws_isLocked u" "can_save u password"
    by (rule opened_full [OF P h o, of "we_now E"])
  let ?w = "w\<lparr>fv_accounts := fold put_imported (fv_accounts v) (fv_accounts w)\<rparr>"
  have merged: "merge_raw P (we_now E) (map account_js xs) ys = Inr (fold put_imported xs ys)" if "list_all (account_ok P) xs" for xs ys
    using that by (induction xs arbitrary: ys) (simp_all add: parse_account_js)
  have m: "merge_raw P (we_now E) (map account_js (fv_accounts v)) (fv_accounts w) = Inr (fold put_imported (fv_accounts v) (fv_accounts w))"
    using v by (intro merged) (simp add: full_ok_def)
  note f = holds_facts [OF u(2,3)]
  obtain t key' kdf' where t: "save P (we_save E) (we_now E) ?w password u = (Inr (), t)" "sealed_full P t ?w key' kdf'" "cache_fits t key' kdf'"
      "ws_isLocked t = ws_isLocked u"
    by (rule save_sealed [OF L E'(2) merged_ok [OF m f(4)] _ f(2) u(4), of w "we_now E"]) (use f(1) in blast)+
  let ?t = "put_memory ?w (t\<lparr>ws_trust := importTrustStores (ws_trust t) (exportTrustStores S)\<rparr>)"
  have ne: "fv_accounts v \<noteq> []" using v by (auto simp: full_ok_def)
  have "web_importVault E backup password (Some pp) s = (Inr (length (fv_accounts v)), ?t)"
    using backup pp E'(1) u(1) m t(1) ne o
    by (simp add: web_importVault_def andThen_apply requireOpen_run opened_by_def catches_def backup_data_def parse_json_def given_def
        imported_list_def backup_fields array_of_def)
  moreover have "holds_vault P ?t ?w key' kdf'" "\<not> ws_isLocked ?t"
    using t u(3) mirrors_sanitize [of ?w] by (simp_all add: holds_vault_def memory_fits_def put_memory_def)
  ultimately show thesis using that by blast
qed

end
