(* ===== verification/WebDemo.thy ===== *)
theory WebDemo
  imports TkDemo WebMoved WebRotated WebTransfer
begin

text \<open>
  A concrete client for the witnesses: the demonstration primitives, a vault of one account, a user who
  types its password, and a server that is a function.
\<close>

subsection \<open>A vault service\<close>

definition demo_web_env :: web_env where
  "demo_web_env = \<lparr>we_prims = demo_prims, we_now = 0, we_save = demo_rnd, we_identity = (replicate 32 1, replicate 48 1),
     we_encryption = (replicate 48 1, replicate 64 1), we_sign = ([], []), we_sign2 = ([], [])\<rparr>"

definition demo_stores :: trust_stores where
  "demo_stores = \<lparr>trusted_keys = JNull, attested_contacts = JNull\<rparr>"

definition vault_of :: "account \<Rightarrow> full_vault" where
  "vault_of a = \<lparr>fv_accounts = [a], fv_active = JStr (acc_id a)\<rparr>"

text \<open>A service that holds a vault open, with its key in the cache or without.\<close>

definition demo_service :: "full_vault \<Rightarrow> bool \<Rightarrow> web_state" where
  "demo_service v warm = (web_initial [''kryptolog_vault'' \<mapsto> json_text (seal demo_prims [1] (full_js v) demo_key demo_descriptor)] demo_stores)
     \<lparr>ws_vault := Some (sanitize_vault v), ws_isLocked := False,
      ws_cachedKey := (if warm then Some demo_key else None), ws_cachedKdf := (if warm then Some demo_descriptor else None)\<rparr>"

lemma demo_web_laws: "web_laws demo_prims"
  by (simp add: web_laws_def demo_aead demo_binding demo_kdf demo_signature demo_envelope)

lemma demo_good_draw: "good_draw demo_prims demo_web_env"
  using demo_strong by (simp add: good_draw_def demo_web_env_def good_identity_draw_def good_encryption_draw_def)
    (simp add: demo_prims_def)

lemma vault_of_ok: "account_ok demo_prims a \<Longrightarrow> full_ok demo_prims (vault_of a)"
  by (simp add: vault_of_def full_ok_def)

lemma vault_of_active [simp]: "full_active (vault_of a) = Some a"
  by (simp add: vault_of_def full_active_def)

lemma demo_held:
  assumes "account_ok demo_prims a"
  shows "holds_vault demo_prims (demo_service (vault_of a) warm) (vault_of a) demo_key demo_descriptor"
    "\<not> ws_isLocked (demo_service (vault_of a) warm)" "hasCachedKey (demo_service (vault_of a) warm) = warm"
proof -
  have "js_pure demo_descriptor" using new_kdf_pure by (simp add: demo_descriptor_def)
  then show "holds_vault demo_prims (demo_service (vault_of a) warm) (vault_of a) demo_key demo_descriptor"
    using vault_of_ok [OF assms] demo_key_length demo_kdf_ok mirrors_sanitize [of "vault_of a"]
    by (auto simp: holds_vault_def sealed_full_def cache_fits_def memory_fits_def demo_service_def web_initial_def Let_def intro!: exI [of _ "[1]"])
  show "\<not> ws_isLocked (demo_service (vault_of a) warm)" "hasCachedKey (demo_service (vault_of a) warm) = warm"
    by (simp_all add: demo_service_def hasCachedKey_def)
qed

lemma demo_derives: "deriveKey demo_prims demo_password demo_descriptor = Inr demo_key"
  using demo_password_opens demo_key_length by (simp add: deriveKey_def importVaultKey_def import_aes_def)

lemma demo_typed: "demo_password \<noteq> []"
  by (simp add: demo_password_def)

subsection \<open>An account that has replaced its key\<close>

definition demo_rotated :: account where
  "demo_rotated =
     (case rotateAccountEncryptionKey demo_prims 0 (we_encryption demo_web_env) (account_js demo_account) 0 of Inr b \<Rightarrow> b | Inl _ \<Rightarrow> demo_account)"

lemma demo_new_kid: "new_kid demo_prims (we_encryption demo_web_env) \<notin> set (account_kids demo_account)"
  using demo_fresh by (simp add: fresh_key_def demo_vault_def demo_web_env_def demo_env_def)

lemma demo_rotated:
  "account_ok demo_prims demo_rotated" "acc_id demo_rotated = acc_id demo_account" "acc_encryption demo_account \<noteq> acc_encryption demo_rotated"
  "\<exists>k\<in>set (account_keys demo_rotated). ek_publicKey k = ek_publicKey (acc_encryption demo_account) \<and>
     ek_kid k = ek_kid (acc_encryption demo_account)" "ek_kid (acc_encryption demo_account) \<noteq> current_kid demo_rotated"
proof -
  have d: "good_encryption_draw demo_prims (we_encryption demo_web_env)" using demo_good_draw by (simp add: good_draw_def)
  have room: "length (acc_retired demo_account) < MAX_RETIRED_ENCRYPTION_KEYS"
    using demo_kids by (simp add: account_kids_def MAX_RETIRED_ENCRYPTION_KEYS_def)
  obtain k where k: "rotateAccountEncryptionKey demo_prims 0 (we_encryption demo_web_env) (account_js demo_account) 0 =
      Inr (demo_account\<lparr>acc_encryption := k, acc_retired := retire (acc_encryption demo_account) 0 # acc_retired demo_account\<rparr>)"
    using rotate_succeeds [OF demo_account_ok demo_envelope d room] by blast
  then have r: "demo_rotated = demo_account\<lparr>acc_encryption := k, acc_retired := retire (acc_encryption demo_account) 0 # acc_retired demo_account\<rparr>"
    by (simp add: demo_rotated_def)
  show ok: "account_ok demo_prims demo_rotated"
    unfolding r by (rule rotated_ok [OF demo_envelope d demo_account_ok demo_new_kid k])
  show "acc_id demo_rotated = acc_id demo_account" by (simp add: r)
  have "distinct (account_kids demo_rotated)" using ok by (simp only: account_ok_def)
  then show kid: "ek_kid (acc_encryption demo_account) \<noteq> current_kid demo_rotated" by (auto simp: r account_kids_def current_kid_def)
  then show "acc_encryption demo_account \<noteq> acc_encryption demo_rotated" by (auto simp: current_kid_def)
  show "\<exists>k\<in>set (account_keys demo_rotated). ek_publicKey k = ek_publicKey (acc_encryption demo_account) \<and>
      ek_kid k = ek_kid (acc_encryption demo_account)"
    by (simp add: r account_keys_def)
qed

subsection \<open>A client\<close>

definition demo_draws :: draws where
  "demo_draws = \<lparr>dr_env = demo_web_env, dr_seal = ((replicate 48 2, []), [1]), dr_bytes = replicate 32 0\<rparr>"

definition demo_outside :: "string \<Rightarrow> (web_request \<Rightarrow> ('w, web_response) act) \<Rightarrow> 'w outside" where
  "demo_outside typing fetch =
     \<lparr>ou_prims = demo_prims, ou_base = ''https://api.example'', ou_origin = ''https://app.example'', ou_fetch = fetch,
      ou_extension = (\<lambda>_ _. fail not_ready), ou_has = (\<lambda>_. False), ou_prompt = (\<lambda>_. ret typing),
      ou_authenticator = \<lparr>au_supported = False, au_create = (\<lambda>_ _. None), au_get = (\<lambda>_ _. None)\<rparr>,
      ou_draw = (\<lambda>w. (demo_draws, w))\<rparr>"

definition demo_client :: "account \<Rightarrow> bool \<Rightarrow> 'w \<Rightarrow> 'w client" where
  "demo_client a warm w =
     \<lparr>cl_vault = demo_service (vault_of a) warm, cl_session = None, cl_account = Some (acc_id a), cl_identityKey = None,
      cl_encryptionKey = None, cl_extension = False, cl_hasLocalVault = True, cl_biometrics = False, cl_world = w\<rparr>"

lemma demo_outside_fields [simp]:
  "ou_prims (demo_outside typing fetch) = demo_prims" "ou_fetch (demo_outside typing fetch) = fetch"
  "ou_base (demo_outside typing fetch) = ''https://api.example''" "ou_origin (demo_outside typing fetch) = ''https://app.example''"
  "ou_draw (demo_outside typing fetch) = (\<lambda>w. (demo_draws, w))" "ou_prompt (demo_outside typing fetch) = (\<lambda>_. ret typing)"
  by (simp_all add: demo_outside_def)

lemma demo_client_fields [simp]:
  "cl_vault (demo_client a warm w) = demo_service (vault_of a) warm" "cl_world (demo_client a warm w) = w"
  "cl_account (demo_client a warm w) = Some (acc_id a)" "cl_session (demo_client a warm w) = None"
  by (simp_all add: demo_client_def)

lemma demo_outside_laws:
  "typed (demo_outside typing fetch) typing" "sound_draws (demo_outside typing fetch)" "good_seals (demo_outside typing fetch)"
  "untouched (demo_outside typing fetch) obs"
proof -
  show "typed (demo_outside typing fetch) typing" by (simp add: typed_def ret_def)
  have "demo_web_env\<lparr>we_prims := demo_prims\<rparr> = demo_web_env" by (simp add: demo_web_env_def)
  then show "sound_draws (demo_outside typing fetch)"
    using demo_good_draw by (simp add: sound_draws_def drawn_env_def demo_draws_def)
  show "good_seals (demo_outside typing fetch)" by (simp add: good_seals_def demo_draws_def demo_prims_def)
  show "untouched (demo_outside typing fetch) obs" by (simp add: untouched_def ret_def)
qed

lemma demo_open:
  "account_ok demo_prims a \<Longrightarrow> open_with (demo_outside typing fetch) (vault_of a) demo_key demo_descriptor (demo_client a warm w)"
  using demo_held [of a] by (simp add: open_with_def) (simp add: demo_client_def)

lemma demo_fresh_kids: "fresh_kids (demo_outside typing fetch) demo_account"
  using demo_new_kid by (simp add: fresh_kids_def demo_draws_def)

end
