(* ===== verification/WebServers.thy ===== *)
theory WebServers
  imports WebDemo
begin

text \<open>
  Servers for the witnesses, each a function of the request and of what it holds: one that keeps a
  user's wrapped keys, and one that keeps a conversation's messages. Both read the paging out of the
  request's url.
\<close>

lemma takeWhile_number: "takeWhile is_digit (nat_str n @ CHR ''&'' # xs) = nat_str n"
proof -
  have "takeWhile is_digit (nat_str n @ CHR ''&'' # xs) = nat_str n @ takeWhile is_digit (CHR ''&'' # xs)"
    using nat_str_digits [of n] by (intro takeWhile_append2) (simp add: list_all_iff)
  then show ?thesis by (simp add: is_digit_def)
qed

subsection \<open>The wrapped keys\<close>

definition wraps_prefix :: string where
  "wraps_prefix = ''https://api.example/account/encryption-key/stale-wraps?offset=''"

definition wrap_item :: "jsval \<Rightarrow> held_wrap" where
  "wrap_item v = \<lparr>hw_kind = js_str (js_get v ''kind''), hw_id = (case js_get v ''id'' of JNum n \<Rightarrow> n | _ \<Rightarrow> 0),
     hw_text = js_str (js_get v ''encrypted_key'')\<rparr>"

definition wraps_server :: "string \<Rightarrow> web_request \<Rightarrow> (held_wrap list, web_response) act" where
  "wraps_server kid r = (\<lambda>rows.
     if rq_method r = ''GET'' then
       (Ok \<lparr>rs_status = 200, rs_json = Some (JArr (map wrap_js
          (stale_wraps kid REWRAP_PAGE (nat_of_str (takeWhile is_digit (drop (length wraps_prefix) (rq_url r)))) rows)))\<rparr>, rows)
     else case js_get (the (rq_body r)) ''items'' of
         JArr items \<Rightarrow>
           (case rewrap_rows (\<lambda>_ _. True) kid (map wrap_item items) rows of
              Inl status \<Rightarrow> (Ok \<lparr>rs_status = status, rs_json = Some (JObj [])\<rparr>, rows)
            | Inr rows' \<Rightarrow> (Ok \<lparr>rs_status = 200, rs_json = Some JNull\<rparr>, rows'))
       | _ \<Rightarrow> (Ok \<lparr>rs_status = 422, rs_json = Some (JObj [])\<rparr>, rows))"

lemma wrap_item_js [simp]: "wrap_item (wrap_js r) = r"
  by (simp add: wrap_item_def wrap_js_def)

lemma wraps_server_serves:
  "serves_wraps (demo_outside typing (wraps_server kid)) (\<lambda>_ _. True) kid (\<lambda>rows. rows)"
proof -
  let ?O = "demo_outside typing (wraps_server kid)"
  have url: "drop (length wraps_prefix) (STALE_WRAPS ?O offset REWRAP_PAGE) = nat_str offset @ CHR ''&'' # ''limit='' @ nat_str REWRAP_PAGE" for offset
    by (simp add: STALE_WRAPS_def wraps_prefix_def)
  have get: "ou_fetch ?O \<lparr>rq_method = ''GET'', rq_url = STALE_WRAPS ?O offset REWRAP_PAGE, rq_token = token, rq_body = None\<rparr> rows =
      (Ok \<lparr>rs_status = 200, rs_json = Some (JArr (map wrap_js (stale_wraps kid REWRAP_PAGE offset rows)))\<rparr>, rows)" for offset token rows
    by (simp add: wraps_server_def url takeWhile_number)
  have items: "map (wrap_item \<circ> wrap_js) items = items" for items by (simp add: comp_def)
  have put: "ou_fetch ?O \<lparr>rq_method = ''PUT'', rq_url = REWRAP ?O, rq_token = token,
        rq_body = Some (JObj [(''items'', JArr (map wrap_js items))])\<rparr> rows = (Ok \<lparr>rs_status = 200, rs_json = Some JNull\<rparr>, rows')"
    if "rewrap_rows (\<lambda>_ _. True) kid items rows = Inr rows'" for token items rows rows'
    using that by (simp add: wraps_server_def items)
  show ?thesis
    unfolding serves_wraps_def using demo_outside_laws(4) get put by metis
qed

subsection \<open>A conversation's messages\<close>

text \<open>It hands out one nonce, and takes every signed round.\<close>

definition messages_prefix :: "string \<Rightarrow> string \<Rightarrow> string" where
  "messages_prefix kind conversation =
     ''https://api.example/conversations/'' @ kind @ ''/'' @ conversation @ ''/redactable-messages?limit=''"

definition messages_server :: "string \<Rightarrow> string \<Rightarrow> web_request \<Rightarrow> (jsval list, web_response) act" where
  "messages_server kind conversation r = (\<lambda>rows.
     if rq_method r = ''POST'' then
       (Ok (if drop REDACTION_ROUND rows = [] then \<lparr>rs_status = 200, rs_json = Some (JObj [])\<rparr>
            else \<lparr>rs_status = 409, rs_json = Some (JObj [(''status'', JStr ''redacting'')])\<rparr>), drop REDACTION_ROUND rows)
     else let query = drop (length (messages_prefix kind conversation)) (rq_url r);
              limit = takeWhile is_digit query;
              offset = drop (length limit + length ''&offset='') query
       in if starts_with (rq_url r) ''https://api.example/auth/'' then
            (Ok \<lparr>rs_status = 200, rs_json = Some (JObj [(''nonce'', JStr ''0a''), (''deployment'', JStr ''dep'')])\<rparr>, rows)
          else (Ok \<lparr>rs_status = 200, rs_json = Some (JArr (take (nat_of_str limit) (drop (nat_of_str offset) rows)))\<rparr>, rows))"

lemma messages_server_serves:
  assumes "CHR ''?'' \<notin> set kind" and "CHR ''?'' \<notin> set conversation"
  shows "serves_erase (demo_outside typing (messages_server kind conversation)) a kind conversation (\<lambda>rows. rows) (\<lambda>_. (JStr ''0a'', JStr ''dep''))"
proof -
  let ?O = "demo_outside typing (messages_server kind conversation)"
  have url: "pageUrl (CONV_REDACTABLE ?O kind conversation) limit offset =
      messages_prefix kind conversation @ nat_str limit @ CHR ''&'' # ''offset='' @ nat_str offset" for limit offset
    using assms by (simp add: pageUrl_def CONV_REDACTABLE_def messages_prefix_def)
  have other: "\<not> starts_with (messages_prefix kind conversation @ xs) ''https://api.example/auth/''" for xs
    by (simp add: messages_prefix_def starts_with_def)
  have page: "ou_fetch ?O \<lparr>rq_method = ''GET'', rq_url = pageUrl (CONV_REDACTABLE ?O kind conversation) limit offset, rq_token = token, rq_body = None\<rparr> rows =
      (Ok \<lparr>rs_status = 200, rs_json = Some (JArr (take limit (drop offset rows)))\<rparr>, rows)" for limit offset token rows
    unfolding url by (simp add: messages_server_def Let_def takeWhile_number other)
  have nonce: "ou_fetch ?O \<lparr>rq_method = ''GET'', rq_url = NONCE ?O (acc_id a), rq_token = None, rq_body = None\<rparr> rows =
      (Ok \<lparr>rs_status = 200, rs_json = Some (JObj [(''nonce'', JStr ''0a''), (''deployment'', JStr ''dep'')])\<rparr>, rows)" for rows
    by (simp add: messages_server_def NONCE_def starts_with_def)
  have texts: "is_hex_string (JStr ''0a'')" "isSignedIdentifier (JStr ''dep'')" by code_simp+
  have round: "ou_fetch ?O \<lparr>rq_method = ''POST'', rq_url = u, rq_token = token, rq_body = b\<rparr> rows =
      (Ok (if drop REDACTION_ROUND rows = [] then \<lparr>rs_status = 200, rs_json = Some (JObj [])\<rparr>
           else \<lparr>rs_status = 409, rs_json = Some (JObj [(''status'', JStr ''redacting'')])\<rparr>), drop REDACTION_ROUND rows)" for u token b rows
    by (simp add: messages_server_def)
  show ?thesis
    unfolding serves_erase_def fst_conv snd_conv
  proof (intro conjI allI impI)
    show "\<exists>w'. w' = w \<and> (JStr ''0a'', JStr ''dep'') = (JStr ''0a'', JStr ''dep'') \<and>
        ou_fetch ?O \<lparr>rq_method = ''GET'', rq_url = pageUrl (CONV_REDACTABLE ?O kind conversation) limit offset, rq_token = token, rq_body = None\<rparr> w =
          (Ok \<lparr>rs_status = 200, rs_json = Some (JArr (take limit (drop offset w)))\<rparr>, w')" for token limit offset w
      unfolding page by simp
    show "\<exists>w'. w' = w \<and> is_hex_string (JStr ''0a'') \<and> isSignedIdentifier (JStr ''dep'') \<and>
        ou_fetch ?O \<lparr>rq_method = ''GET'', rq_url = NONCE ?O (acc_id a), rq_token = None, rq_body = None\<rparr> w =
          (Ok \<lparr>rs_status = 200, rs_json = Some (JObj [(''nonce'', JStr ''0a''), (''deployment'', JStr ''dep'')])\<rparr>, w')" for w
      unfolding nonce using texts by blast
    show "\<exists>w' summary. w' = drop REDACTION_ROUND w \<and>
        ou_fetch ?O \<lparr>rq_method = ''POST'', rq_url = CONV_ERASE ?O kind conversation, rq_token = token, rq_body = Some b\<rparr> w =
          (Ok (if w' = [] then \<lparr>rs_status = 200, rs_json = Some summary\<rparr>
               else \<lparr>rs_status = 409, rs_json = Some (JObj [(''status'', JStr ''redacting'')])\<rparr>), w')" for w token b
      unfolding round by (intro exI [of _ "drop REDACTION_ROUND w"] exI [of _ "JObj []"]) simp
  qed
qed

subsection \<open>The vault's side of it\<close>

lemma demo_password_fits: "vaultPasswordProblem (JStr demo_password) = None"
  by code_simp

lemma demo_here: "account_ok demo_prims a \<Longrightarrow> opened_by demo_prims (demo_service (vault_of a) warm) (Some demo_password) demo_key demo_descriptor"
  using demo_derives demo_typed by (simp add: opened_by_def demo_held(2))

lemma demo_saving: "we_prims demo_web_env = demo_prims" "strong_rnd (we_save demo_web_env)"
  using demo_good_draw by (simp_all add: good_draw_def demo_web_env_def)

definition demo_deletion :: deletion_fields where
  "demo_deletion = \<lparr>df_nonce = JStr ''0a'', df_mode = JStr ''leave'', df_redactionKeys = [],
     df_origin = JStr ''https://app.example'', df_deployment = JStr ''dep''\<rparr>"

lemma demo_here_origin: "isCanonicalOrigin (JStr ''https://app.example'')"
  by code_simp

lemma demo_wrong_password: "deriveVaultKeyBits demo_prims ''wrong'' demo_descriptor \<noteq> Inr demo_key"
proof -
  have u: "utf8 ''wrong'' ! 0 = 119" "utf8 demo_password ! 0 = 97" "utf8 ''wrong'' \<noteq> []" "utf8 demo_password \<noteq> []" by code_simp+
  have "fit 32 (x @ y) ! 0 = x ! 0" if "x \<noteq> []" for x y :: bytes using that by (simp add: fit_def nth_append)
  then have "fit 32 (utf8 ''wrong'' @ y) ! 0 \<noteq> fit 32 (utf8 demo_password @ y) ! 0" for y using u by simp
  then have "fit 32 (utf8 ''wrong'' @ y) \<noteq> fit 32 (utf8 demo_password @ y)" for y by metis
  then show ?thesis by (simp add: demo_key_def demo_rnd_def demo_descriptor_def deriveBits_new demo_prims_def)
qed

subsection \<open>What the witnesses are run on\<close>

text \<open>A server that knows two answers: the nonce it hands out, and the login's.\<close>

definition demo_login_server :: "web_response \<Rightarrow> web_request \<Rightarrow> (unit, web_response) act" where
  "demo_login_server answer r =
     ret (if rq_method r = ''GET'' then \<lparr>rs_status = 200, rs_json = Some (JObj [(''nonce'', JStr ''0a''), (''deployment'', JStr ''dep'')])\<rparr> else answer)"

definition demo_wrapped :: jsval where
  "demo_wrapped = (case wrapSessionKey demo_prims (dr_seal demo_draws) (JStr (toHex (replicate 32 7)))
     (JStr (ek_publicKey (acc_encryption demo_account))) of Inr e \<Rightarrow> e | Inl _ \<Rightarrow> JNull)"

lemma demo_wrapped:
  "wrapped_key_id (json_text demo_wrapped) = Some (ek_kid (acc_encryption demo_account))"
  "held_key demo_prims demo_rotated (json_text demo_wrapped) = Some (toHex (replicate 32 7))"
  "\<not> odd_wrap (json_text demo_wrapped)"
proof -
  obtain k where k: "k \<in> set (account_keys demo_rotated)" "ek_publicKey k = ek_publicKey (acc_encryption demo_account)"
      "ek_kid k = ek_kid (acc_encryption demo_account)"
    using demo_rotated(4) by blast
  have f: "payload_field ''encKey''" by (simp add: payload_field_def)
  have fk: "is_file_key (JStr (toHex (replicate 32 7)))" by code_simp
  have r: "p384_valid demo_prims (fst (fst (dr_seal demo_draws)))" "snd (dr_seal demo_draws) \<noteq> []"
    by (simp_all add: demo_draws_def demo_prims_def)
  obtain c key where e: "wrapSessionKey demo_prims (dr_seal demo_draws) (JStr (toHex (replicate 32 7))) (JStr (ek_publicKey k)) =
        Inr (kem_envelope demo_prims c key (snd (dr_seal demo_draws)) (ek_kid k) ''encKey'' (replicate 32 7))"
      "open_key demo_prims demo_rotated (kem_envelope demo_prims c key (snd (dr_seal demo_draws)) (ek_kid k) ''encKey'' (replicate 32 7)) =
        Inr (toHex (replicate 32 7))"
    using wrapped_opens [OF demo_envelope demo_rotated(1) k(1) r, of "replicate 32 7"] by auto
  have kid: "isEncryptionKeyId (JStr (ek_kid (acc_encryption demo_account)))"
    using demo_envelope demo_account_ok encryptionKeyId_shape by (auto simp: account_ok_def key_ok_def envelope_laws_def)
  have w: "demo_wrapped = kem_envelope demo_prims c key (snd (dr_seal demo_draws)) (ek_kid k) ''encKey'' (replicate 32 7)"
    using e(1) k(2) by (simp add: demo_wrapped_def)
  show "wrapped_key_id (json_text demo_wrapped) = Some (ek_kid (acc_encryption demo_account))"
    unfolding w using kem_envelope_kid [OF f] kid k(3) by simp
  show "held_key demo_prims demo_rotated (json_text demo_wrapped) = Some (toHex (replicate 32 7))"
    unfolding w by (rule held_key_sealed [OF f fk]) (simp_all add: e(2))
  show "\<not> odd_wrap (json_text demo_wrapped)"
    unfolding w by (simp add: odd_wrap_def kem_envelope_text [OF f]) (simp add: kem_envelope_def)
qed

definition demo_rows :: "held_wrap list" where
  "demo_rows = [\<lparr>hw_kind = ''secret'', hw_id = 1, hw_text = json_text demo_wrapped\<rparr>, \<lparr>hw_kind = ''secret'', hw_id = 2, hw_text = ''not json''\<rparr>]"

lemma demo_unreadable:
  "wrapped_key_id ''not json'' = None" "held_key demo_prims a ''not json'' = None" "\<not> odd_wrap ''not json''"
proof -
  have j: "json_parse ''not json'' = None" by code_simp
  show "wrapped_key_id ''not json'' = None" "held_key demo_prims a ''not json'' = None" "\<not> odd_wrap ''not json''"
    using j by (simp_all add: wrapped_key_id_def held_key_def opened_of_def wrap_value_def odd_wrap_def)
qed

lemma demo_moving:
  "moving (demo_outside demo_password (wraps_server (current_kid demo_rotated))) (\<lambda>_ _. True) (\<lambda>rows. rows) demo_password
     (vault_of demo_rotated) demo_key demo_descriptor demo_rotated"
  using demo_typed demo_derives demo_rotated(1) demo_envelope
  by (simp add: moving_def takes_sealed_def wraps_server_serves demo_outside_laws)

definition demo_redactable :: jsval where
  "demo_redactable = JObj [(''key'', JStr ''m1''), (''conv'', JStr ''g1''), (''gid'', JStr ''g1''), (''sid'', JStr ''s1''),
     (''ts'', JNum 0), (''seq'', JNum 1), (''keys'', JNull)]"

end
