(* ===== verification/WebProperties.thy ===== *)
theory WebProperties
  imports WebServers
begin

text \<open>
  What the web client guarantees, and three things it does not: properties of the vault service and
  of the flows of \<open>context/PQCContext.jsx\<close> over it.
\<close>

section \<open>The vault service\<close>

text \<open>C2: The vault service implements its specification. From an empty browser, whatever operations run
  with whatever passwords and files, the state stands for an abstract vault reached from none by the
  specification's steps, and the next operation's effect is again one of its steps: nothing, a vault
  made, an account added, chosen, removed or changed in its keys, a backup merged, the vault forgotten.\<close>

theorem vault_service_refines:
  assumes "web_laws P" and "storage ''kryptolog_vault'' = None"
    and "web_reach P (web_initial storage contacts) s" and "event_good P e s"
  shows "\<exists>x y. (vault_step P)\<^sup>*\<^sup>* None x \<and> web_at P ((=) x) s \<and> vault_step P x y \<and> web_at P ((=) y) (web_exec e s)"
proof -
  have "web_at P ((vault_step P)\<^sup>*\<^sup>* None) s"
    using web_reach_at [OF assms(3,1) initial_at [of storage, OF assms(2)]] .
  then obtain x where x: "(vault_step P)\<^sup>*\<^sup>* None x" "web_at P ((=) x) s" by (auto simp: web_at_def)
  have "web_at P (vault_step P x) (web_exec e s)" using web_exec_ok [OF assms(1,4) x(2)] .
  then obtain y where "vault_step P x y" "web_at P ((=) y) (web_exec e s)" by (auto simp: web_at_def)
  then show ?thesis using x by blast
qed

theorem vault_service_refines_witness:
  "\<exists>x y s. s = web_exec (W_setup demo_web_env ''Alice'' (Some demo_password)) (web_initial Map.empty demo_stores) \<and>
     (vault_step demo_prims)\<^sup>*\<^sup>* None x \<and> web_at demo_prims ((=) x) s \<and> vault_step demo_prims x y \<and>
     web_at demo_prims ((=) y) (web_exec W_lock s)"
proof -
  have "web_reach demo_prims (web_initial Map.empty demo_stores)
      (web_exec (W_setup demo_web_env ''Alice'' (Some demo_password)) (web_initial Map.empty demo_stores))"
    by (rule web_reach.event [OF web_reach.start]) (simp add: event_good_def demo_good_draw)
  moreover have "event_good demo_prims W_lock s" for s by (simp add: event_good_def)
  ultimately show ?thesis using vault_service_refines [OF demo_web_laws, of Map.empty demo_stores _ W_lock] by blast
qed

section \<open>Replacing the encryption key\<close>

text \<open>C8: Provided no stale wrap is stored as a text that parses to a truthy JSON primitive (a number, say),
  moving the held keys onto the new encryption key ends and moves every key the account can open.
  Against the server that serves and replaces the wraps page by page, the loop returns with one more
  turn than there are stale wraps: every wrap the account could open now opens to the same key under
  the current encryption key, the others are as they were, and both are counted. With one such odd
  wrap the loop throws instead.\<close>

theorem rewrap_moves_every_key:
  assumes "moving O' accepts rows pw v key kdf a" and "open_with O' v key kdf s"
    and "distinct (map row_key (rows (cl_world s)))"
    and "\<forall>r\<in>set (filter (stale (current_kid a)) (rows (cl_world s))). \<not> odd_wrap (hw_text r)"
    and "length (filter (stale (current_kid a)) (rows (cl_world s))) < fuel"
  shows "\<exists>t. rewrapStaleKeys fuel O' (ek_publicKey (acc_encryption a)) 0 0 s =
      Some (Ok (length (filter (readable (ou_prims O') a) (filter (stale (current_kid a)) (rows (cl_world s)))),
        length (filter (\<lambda>r. \<not> readable (ou_prims O') a r) (filter (stale (current_kid a)) (rows (cl_world s))))), t) \<and>
    list_all2 (moved_row (ou_prims O') a) (rows (cl_world s)) (rows (cl_world t)) \<and>
    filter (stale (current_kid a)) (rows (cl_world t)) =
      filter (\<lambda>r. \<not> readable (ou_prims O') a r) (filter (stale (current_kid a)) (rows (cl_world s)))"
  using rewrap_loop [OF assms(1,2,3), of "[]" _ fuel 0] assms(4,5) by simp blast

theorem rewrap_moves_every_key_witness:
  "\<exists>t. rewrapStaleKeys 3 (demo_outside demo_password (wraps_server (current_kid demo_rotated))) (ek_publicKey (acc_encryption demo_rotated)) 0 0
      (demo_client demo_rotated False demo_rows) = Some (Ok (1, 1), t) \<and>
    list_all2 (moved_row demo_prims demo_rotated) demo_rows (cl_world t) \<and>
    filter (stale (current_kid demo_rotated)) (cl_world t) = [demo_rows ! 1]"
proof -
  let ?O = "demo_outside demo_password (wraps_server (current_kid demo_rotated))" and ?s = "demo_client demo_rotated False demo_rows"
  have stale: "filter (stale (current_kid demo_rotated)) demo_rows = demo_rows"
    using demo_wrapped(1) demo_unreadable(1) demo_rotated(5) by (simp add: demo_rows_def stale_def)
  have readable: "filter (readable demo_prims demo_rotated) demo_rows = [demo_rows ! 0]"
      "filter (\<lambda>r. \<not> readable demo_prims demo_rotated r) demo_rows = [demo_rows ! 1]"
    using demo_wrapped(2) demo_unreadable(2) by (simp_all add: demo_rows_def readable_def)
  have "distinct (map row_key (cl_world ?s))" by (simp add: demo_rows_def row_key_def)
  moreover have "\<forall>r\<in>set (filter (stale (current_kid demo_rotated)) (cl_world ?s)). \<not> odd_wrap (hw_text r)"
    using demo_wrapped(3) demo_unreadable(3) by (simp add: demo_rows_def)
  moreover have "length (filter (stale (current_kid demo_rotated)) (cl_world ?s)) < 3" by (simp add: stale) (simp add: demo_rows_def)
  ultimately show ?thesis
    using rewrap_moves_every_key [OF demo_moving demo_open [OF demo_rotated(1)], of False demo_rows 3]
    by (simp add: stale readable)
qed

text \<open>C11: A rotation the server refuses is undone. The vault asks for the password and keeps the new key before
  anything is published; when the server then answers with a refusal, the account's old encryption key is
  the current one again, every key it had is still held, and the user is told what the server said.\<close>

theorem refused_rotation_is_undone:
  assumes "web_laws (ou_prims O')" and "sound_draws O'" and "fresh_kids O' a" and "open_with O' v key kdf s"
    and "full_active v = Some a" and "typed O' pw" and "pw \<noteq> []" and "deriveKey (ou_prims O') pw kdf = Inr key"
    and "refuses_rotation O' r" and "length (acc_retired a) < MAX_RETIRED_ENCRYPTION_KEYS" and "isCount (JNum ts)"
  shows "\<exists>z w key' kdf' c. pqc_rotateEncryptionKey n O' ts s =
      Some (Inl (PlainError (''The server refused the new key: '' @ rotate_refusal r)), z) \<and>
    open_with O' w key' kdf' z \<and> full_active w = Some c \<and> acc_encryption c = acc_encryption a \<and>
    set (account_keys a) \<subseteq> set (account_keys c)"
proof (rule rotation_goes_through [OF assms(1-8,10,11)])
  fix published u
  assume "rotateKeyLocally O' ts s = (Inr published, u)"
  then show ?thesis by - (rule refused_rotation [OF assms(1-9), where n = n], blast+)
qed

theorem refused_rotation_is_undone_witness:
  "\<exists>z w key' kdf' c. pqc_rotateEncryptionKey 0 (demo_outside demo_password (\<lambda>_. ret \<lparr>rs_status = 400, rs_json = Some (JObj [])\<rparr>)) 0 (demo_client demo_account False ()) =
      Some (Inl (PlainError (''The server refused the new key: '' @ rotate_refusal \<lparr>rs_status = 400, rs_json = Some (JObj [])\<rparr>)), z) \<and>
    open_with (demo_outside demo_password (\<lambda>_. ret \<lparr>rs_status = 400, rs_json = Some (JObj [])\<rparr>)) w key' kdf' z \<and>
    full_active w = Some c \<and> acc_encryption c = acc_encryption demo_account \<and> set (account_keys demo_account) \<subseteq> set (account_keys c)"
proof -
  let ?r = "\<lparr>rs_status = 400, rs_json = Some (JObj [])\<rparr>"
  let ?O = "demo_outside demo_password (\<lambda>_. ret ?r) :: unit outside"
  have l: "web_laws (ou_prims ?O)" using demo_web_laws by simp
  have d: "deriveKey (ou_prims ?O) demo_password demo_descriptor = Inr demo_key" using demo_derives by simp
  have r: "refuses_rotation ?O ?r" by (simp add: refuses_rotation_def ret_def rs_ok_def)
  have room: "length (acc_retired demo_account) < MAX_RETIRED_ENCRYPTION_KEYS"
    using demo_kids by (simp add: account_kids_def MAX_RETIRED_ENCRYPTION_KEYS_def)
  have now: "isCount (JNum 0)" by (simp add: isCount_def max_safe_integer_def)
  from refused_rotation_is_undone [OF l demo_outside_laws(2) demo_fresh_kids demo_open [OF demo_account_ok] vault_of_active
      demo_outside_laws(1) demo_typed d r room now]
  show ?thesis .
qed

section \<open>Erasing\<close>

text \<open>C12: Erasing one's messages in a conversation ends within fifty rounds of a thousand. With a server that
  answers each signed round as it says, up to fifty thousand messages are gone when it returns; beyond
  that it stops with an error after exactly fifty thousand, and the rest is as it was.\<close>

theorem erase_ends_within_fifty_rounds:
  assumes "signing_setting O' (\<lambda>w. (left w, nonce w)) pw v key kdf a" and "serves_erase O' a kind conversation left nonce"
    and "erase_target_ok (erase_fields_of O' kind conversation nd [])" and "isCanonicalOrigin (JStr (ou_origin O'))"
    and "erasing O' v key kdf a left s"
  shows "if length (left (cl_world s)) \<le> MAX_REDACTION_ROUNDS * REDACTION_ROUND
    then \<exists>summary t. eraseConversation O' kind conversation s = (Inr summary, t) \<and> left (cl_world t) = []
    else \<exists>t. eraseConversation O' kind conversation s =
        (Inl (PlainError ''Could not finish erasing: the server keeps asking for more redactions.''), t) \<and>
      left (cl_world t) = drop (MAX_REDACTION_ROUNDS * REDACTION_ROUND) (left (cl_world s))"
  using erase_conversation_run [OF assms] .

theorem erase_ends_within_fifty_rounds_witness:
  "\<exists>summary t. eraseConversation (demo_outside demo_password (messages_server ''group'' ''g1'')) ''group'' ''g1''
     (demo_client demo_account False [demo_redactable]) = (Inr summary, t) \<and> cl_world t = []"
proof -
  let ?O = "demo_outside demo_password (messages_server ''group'' ''g1'')" and ?s = "demo_client demo_account False [demo_redactable]"
  have ids: "isSignedIdentifier (JStr ''g1'')" "isSignedIdentifier (JStr ''s1'')" by code_simp+
  have S: "signing_setting ?O (\<lambda>w. (w, (JStr ''0a'', JStr ''dep''))) demo_password (vault_of demo_account) demo_key demo_descriptor demo_account"
    using demo_typed demo_derives demo_account_ok demo_aead demo_signature demo_digest by (simp add: signing_setting_def demo_outside_laws)
  have srv: "serves_erase ?O demo_account ''group'' ''g1'' (\<lambda>w. w) (\<lambda>_. (JStr ''0a'', JStr ''dep''))"
    by (rule messages_server_serves) simp_all
  have target: "erase_target_ok (erase_fields_of ?O ''group'' ''g1'' (JStr ''0a'', JStr ''dep'') [])"
    using ids(1) by (simp add: erase_target_ok_def erase_fields_of_def del: isSignedIdentifier.simps)
  have o: "isCanonicalOrigin (JStr (ou_origin ?O))" unfolding demo_outside_fields by (rule demo_here_origin)
  have addr: "isAddress (JStr (acc_id demo_account))" using demo_account_ok addressOf_isAddress [OF demo_digest] unfolding account_ok_def by blast
  have now: "isCount (JNum 0)" "isCount (JNum 1)" by (simp_all add: isCount_def max_safe_integer_def)
  have "is_ok (redaction_body ?O (Some (acc_id demo_account)) demo_redactable)"
    using ids addr now by (simp add: redaction_body_def messageSigningBody_def demo_redactable_def need_body_def opt_js_def is_ok_def
        del: isSignedIdentifier.simps isAddress.simps)
  then have "row_fine ?O demo_account demo_redactable" by (simp add: row_fine_def) (simp add: demo_redactable_def)
  moreover have "seed_fits demo_account ?s" by (simp add: seed_fits_def demo_service_def web_initial_def)
  ultimately have e: "erasing ?O (vault_of demo_account) demo_key demo_descriptor demo_account (\<lambda>w. w) ?s"
    using demo_open [OF demo_account_ok] by (simp add: erasing_def)
  from erase_ends_within_fifty_rounds [OF S srv target o e] show ?thesis
    by (simp add: MAX_REDACTION_ROUNDS_def REDACTION_ROUND_def)
qed

section \<open>Signing in\<close>

text \<open>C13: Signing in with the vault's password posts a login that verifies, for exactly the nonce, origin,
  deployment and encryption key of this sign-in, and an attestation of the key that verifies, both by the
  active account's identity. A yes sets the session to what the server sent, and a refusal leaves the
  session as it was and says why.\<close>

theorem login_is_signed_for_here:
  fixes O' :: "'w outside"
  assumes "web_laws (ou_prims O')" and "holds_vault (ou_prims O') (cl_vault s) v key kdf" and "full_active v = Some a"
    and "pw \<noteq> []" and "deriveKey (ou_prims O') pw kdf = Inr key" and "isCanonicalOrigin (JStr (ou_origin O'))"
    and "ou_fetch O' \<lparr>rq_method = ''GET'', rq_url = NONCE O' (acc_id a), rq_token = None, rq_body = None\<rparr>
        (snd (ou_draw O' (cl_world s))) = (Inr \<lparr>rs_status = 200, rs_json = Some (JObj [(''nonce'', n), (''deployment'', d)])\<rparr>, w)"
    and "is_hex_string n" and "isSignedIdentifier d"
  shows "\<exists>body sig att (t :: 'w client).
    loginChallengeBody \<lparr>lf_nonce = n, lf_origin = JStr (ou_origin O'), lf_deployment = d,
      lf_encryptionKey = JStr (ek_publicKey (acc_encryption a))\<rparr> = Inr body \<and>
    verifyIdentitySignature (ou_prims O') (JStr (acc_id a)) (JStr (hp_publicKey (acc_identity a))) body (JStr sig) \<and>
    verifyEncryptionKeyAttestation (ou_prims O') \<lparr>ac_address = JStr (acc_id a), ac_identityPublicKey = JStr (hp_publicKey (acc_identity a)),
      ac_encryptionPublicKey = JStr (ek_publicKey (acc_encryption a)), ac_attestation = JStr att\<rparr> \<and>
    (\<forall>r z. ou_fetch O' (posted_login O' a n d invite sig att) (cl_world t) = (Inr r, z) \<longrightarrow>
      (\<forall>data. rs_ok r \<longrightarrow> rs_json r = Some data \<longrightarrow> \<not> is_nullish data \<longrightarrow>
        (\<exists>u. loginLocalVault O' pw invite s = (Inr (js_get data ''user''), u) \<and> cl_account u = Some (acc_id a) \<and>
          cl_session u = Some (js_get data ''user'', js_get data ''access_token''))) \<and>
      (\<not> rs_ok r \<longrightarrow> (\<exists>u. loginLocalVault O' pw invite s = (Inl (login_error r), u) \<and> cl_session u = cl_session s)))"
proof (rule login_run [OF assms, where invite = invite])
  fix body sig att t
  assume b: "loginChallengeBody \<lparr>lf_nonce = n, lf_origin = JStr (ou_origin O'), lf_deployment = d,
      lf_encryptionKey = JStr (ek_publicKey (acc_encryption a))\<rparr> = Inr body" "signed_by (ou_prims O') a body (JStr sig)"
    "verifyEncryptionKeyAttestation (ou_prims O') \<lparr>ac_address = JStr (acc_id a), ac_identityPublicKey = JStr (hp_publicKey (acc_identity a)),
       ac_encryptionPublicKey = JStr (ek_publicKey (acc_encryption a)), ac_attestation = JStr att\<rparr>"
    and t: "cl_session t = cl_session s" "cl_account t = Some (acc_id a)"
    and run: "loginLocalVault O' pw invite s = andThen (in_world (ou_fetch O' (posted_login O' a n d invite sig att))) (\<lambda>r.
        if rs_ok r then andThen (lift_res (json_of r)) (\<lambda>data.
          andThen (updates (authLogin (js_get data ''user'') (js_get data ''access_token''))) (\<lambda>_. ret (js_get data ''user'')))
        else fail (login_error r)) t"
  have "(\<forall>data. rs_ok r \<longrightarrow> rs_json r = Some data \<longrightarrow> \<not> is_nullish data \<longrightarrow>
        (\<exists>u. loginLocalVault O' pw invite s = (Inr (js_get data ''user''), u) \<and> cl_account u = Some (acc_id a) \<and>
          cl_session u = Some (js_get data ''user'', js_get data ''access_token''))) \<and>
      (\<not> rs_ok r \<longrightarrow> (\<exists>u. loginLocalVault O' pw invite s = (Inl (login_error r), u) \<and> cl_session u = cl_session s))"
    if "ou_fetch O' (posted_login O' a n d invite sig att) (cl_world t) = (Inr r, z)" for r z
    using that run t by (simp add: andThen_apply in_world_def json_of_def authLogin_def)
  then show ?thesis using b unfolding signed_by_def by blast
qed

theorem login_is_signed_for_here_witness:
  "\<exists>body sig att u. loginChallengeBody \<lparr>lf_nonce = JStr ''0a'', lf_origin = JStr ''https://app.example'', lf_deployment = JStr ''dep'',
      lf_encryptionKey = JStr (ek_publicKey (acc_encryption demo_account))\<rparr> = Inr body \<and>
    verifyIdentitySignature demo_prims (JStr (acc_id demo_account)) (JStr (hp_publicKey (acc_identity demo_account))) body (JStr sig) \<and>
    verifyEncryptionKeyAttestation demo_prims \<lparr>ac_address = JStr (acc_id demo_account), ac_identityPublicKey = JStr (hp_publicKey (acc_identity demo_account)),
      ac_encryptionPublicKey = JStr (ek_publicKey (acc_encryption demo_account)), ac_attestation = JStr att\<rparr> \<and>
    loginLocalVault (demo_outside demo_password (demo_login_server \<lparr>rs_status = 200, rs_json = Some (JObj [(''user'', JStr ''u''), (''access_token'', JStr ''t'')])\<rparr>))
      demo_password None (demo_client demo_account False ()) = (Inr (JStr ''u''), u) \<and>
    cl_session u = Some (JStr ''u'', JStr ''t'')"
proof -
  let ?r = "\<lparr>rs_status = 200, rs_json = Some (JObj [(''user'', JStr ''u''), (''access_token'', JStr ''t'')])\<rparr>"
  let ?O = "demo_outside demo_password (demo_login_server ?r)" and ?s = "demo_client demo_account False ()"
  have l: "web_laws (ou_prims ?O)" using demo_web_laws by simp
  have h: "holds_vault (ou_prims ?O) (cl_vault ?s) (vault_of demo_account) demo_key demo_descriptor"
    using demo_held(1) [OF demo_account_ok] by simp
  have d: "deriveKey (ou_prims ?O) demo_password demo_descriptor = Inr demo_key" using demo_derives by simp
  have o: "isCanonicalOrigin (JStr (ou_origin ?O))" unfolding demo_outside_fields by (rule demo_here_origin)
  have n: "ou_fetch ?O \<lparr>rq_method = ''GET'', rq_url = NONCE ?O (acc_id demo_account), rq_token = None, rq_body = None\<rparr> (snd (ou_draw ?O (cl_world ?s))) =
      (Inr \<lparr>rs_status = 200, rs_json = Some (JObj [(''nonce'', JStr ''0a''), (''deployment'', JStr ''dep'')])\<rparr>, ())"
    by (simp add: demo_login_server_def ret_def)
  have t: "is_hex_string (JStr ''0a'')" "isSignedIdentifier (JStr ''dep'')" by code_simp+
  from login_is_signed_for_here [OF l h vault_of_active demo_typed d o n t, of None]
  obtain body sig att and z :: "unit client" where
    b: "loginChallengeBody \<lparr>lf_nonce = JStr ''0a'', lf_origin = JStr ''https://app.example'', lf_deployment = JStr ''dep'',
      lf_encryptionKey = JStr (ek_publicKey (acc_encryption demo_account))\<rparr> = Inr body"
    "verifyIdentitySignature demo_prims (JStr (acc_id demo_account)) (JStr (hp_publicKey (acc_identity demo_account))) body (JStr sig)"
    "verifyEncryptionKeyAttestation demo_prims \<lparr>ac_address = JStr (acc_id demo_account), ac_identityPublicKey = JStr (hp_publicKey (acc_identity demo_account)),
      ac_encryptionPublicKey = JStr (ek_publicKey (acc_encryption demo_account)), ac_attestation = JStr att\<rparr>"
    and run: "\<And>r z'. ou_fetch ?O (posted_login ?O demo_account (JStr ''0a'') (JStr ''dep'') None sig att) (cl_world z) = (Inr r, z') \<Longrightarrow>
      \<forall>data. rs_ok r \<longrightarrow> rs_json r = Some data \<longrightarrow> \<not> is_nullish data \<longrightarrow>
        (\<exists>u. loginLocalVault ?O demo_password None ?s = (Inr (js_get data ''user''), u) \<and> cl_account u = Some (acc_id demo_account) \<and>
          cl_session u = Some (js_get data ''user'', js_get data ''access_token''))"
    unfolding demo_outside_fields by blast
  have "ou_fetch ?O (posted_login ?O demo_account (JStr ''0a'') (JStr ''dep'') None sig att) (cl_world z) = (Inr ?r, ())"
    by (simp add: demo_login_server_def posted_login_def ret_def)
  from run [OF this] show ?thesis using b by (simp add: rs_ok_def) blast
qed

section \<open>The password that is not looked at\<close>

text \<open>C37: With a derived key in the cache, deleting the account is confirmed by any text. The one prompt that is
  meant as the authorization takes whatever is typed, and the vault signs the deletion with the cached
  key without looking at it.\<close>

theorem any_text_confirms_a_deletion:
  assumes "web_laws (ou_prims O')" and "open_with O' v key kdf s" and "hasCachedKey (cl_vault s)"
    and "full_active v = Some a" and "typed O' pw" and "accountDeletionBody (ou_prims O') f = Inr body"
  shows "\<exists>sig t. signDeletion O' f s = (Inr (JStr sig), t) \<and>
    verifyIdentitySignature (ou_prims O') (JStr (acc_id a)) (JStr (hp_publicKey (acc_identity a))) body (JStr sig)"
proof -
  have P: "aead_correct (ou_prims O')" "signature_laws (ou_prims O')" "digest_laws (ou_prims O')"
    using assms(1) by (simp_all add: web_laws_def envelope_laws_def)
  have ok: "account_ok (ou_prims O') a"
    using full_active_ok [OF _ assms(4)] assms(2) by (auto simp: open_with_def holds_vault_def sealed_full_def)
  have x: "\<not> cl_extension s" using assms(2) by (simp add: open_with_def)
  have pw: "hasCachedKey (cl_vault s) \<or> pw \<noteq> [] \<and> deriveKey (ou_prims O') pw kdf = Inr key" using assms(3) by blast
  show ?thesis
  proof (rule custody_use [OF P(1) assms(2,4,5) _ pw, where missing = "''Active account not found in vault''" and
      f = "\<lambda>E a. signMessage (we_prims E) body (JStr (identity_seed a)) (we_sign E)" and viaExt = "fail not_ready" and obs = "\<lambda>_. ()" and
      force = True and ask = "''Enter your vault password to confirm deleting this account:''"])
    fix E u
    assume u: "withCustody O' (fail not_ready) (\<lambda>password. in_vault O' (\<lambda>E. with_active_full E password ''Active account not found in vault''
          (\<lambda>a. signMessage (we_prims E) body (JStr (identity_seed a)) (we_sign E))))
          (Some ''Enter your vault password to confirm deleting this account:'') True s =
          (signMessage (we_prims E) body (JStr (identity_seed a)) (we_sign E), u)" and E: "we_prims E = ou_prims O'"
    obtain sig where sig: "signMessage (ou_prims O') body (JStr (identity_seed a)) (we_sign E) = Inr sig" "signed_by (ou_prims O') a body (JStr sig)"
      using identity_signs [OF P(2,3) ok] .
    have "signDeletion O' f s = (Inr (JStr sig), u)"
      using custody_map [OF u [unfolded E sig(1)] x, of "ext O' ''signAccountDeletion'' [deletion_args f]" JStr] assms(6)
      by (simp add: signDeletion_def sign_body_run web_sign_def)
    then show ?thesis using sig(2) unfolding signed_by_def by blast
  qed (simp add: untouched_def)
qed

theorem any_text_confirms_a_deletion_witness:
  "deriveKey demo_prims ''wrong'' demo_descriptor \<noteq> Inr demo_key \<and>
     (\<exists>body sig t. accountDeletionBody demo_prims demo_deletion = Inr body \<and>
        signDeletion (demo_outside ''wrong'' (\<lambda>_. fail not_ready)) demo_deletion (demo_client demo_account True ()) = (Inr (JStr sig), t) \<and>
        verifyIdentitySignature demo_prims (JStr (acc_id demo_account)) (JStr (hp_publicKey (acc_identity demo_account))) body (JStr sig))"
proof -
  let ?O = "demo_outside ''wrong'' (\<lambda>_. fail not_ready) :: unit outside"
  have l: "web_laws (ou_prims ?O)" using demo_web_laws by simp
  have c: "hasCachedKey (cl_vault (demo_client demo_account True ()))" using demo_held(3) [OF demo_account_ok] by simp
  have "is_hex_string (JStr ''0a'')" "isSignedIdentifier (JStr ''dep'')" by code_simp+
  then obtain body where b: "accountDeletionBody (ou_prims ?O) demo_deletion = Inr body"
    using demo_here_origin by (simp add: accountDeletionBody_def demo_deletion_def need_body_def del: is_hex_string.simps isSignedIdentifier.simps isCanonicalOrigin.simps)
  have "deriveKey demo_prims ''wrong'' demo_descriptor \<noteq> Inr demo_key"
    using demo_wrong_password by (auto simp: deriveKey_def importVaultKey_def import_aes_def bind_res_def split: sum.splits if_splits)
  then show ?thesis
    using any_text_confirms_a_deletion [OF l demo_open [OF demo_account_ok] c vault_of_active demo_outside_laws(1) b] b by auto
qed

section \<open>Forgetting an identity\<close>

text \<open>C23: Forgetting this device's identity touches no other. It removes nothing unless the open vault's active
  account is the identity of this session; then that account alone goes, and the vault is wiped only
  when it holds no other.\<close>

theorem forgetting_touches_one_identity:
  assumes "web_laws (ou_prims O')" and "sound_draws O'" and "web_at (ou_prims O') ((=) x) (cl_vault s)"
  shows "web_at (ou_prims O') (\<lambda>y. y = x \<or> (\<exists>v a i. x = Some v \<and> full_active v = Some a \<and> cl_account s = Some i \<and>
      to_lower i = to_lower (acc_id a) \<and>
      (y = None \<and> length (fv_accounts v) = 1 \<or>
       (\<exists>b\<in>set (fv_accounts v). acc_id b \<noteq> acc_id a \<and>
          y = Some (v\<lparr>fv_active := JStr (acc_id b), fv_accounts := filter (\<lambda>c. acc_id c \<noteq> acc_id a) (fv_accounts v)\<rparr>)))))
    (cl_vault (snd (forgetLocalIdentity O' password s)))"
proof (cases "vaultHoldsCurrentIdentity s")
  case False
  then show ?thesis using web_at_mono [OF assms(3)] by (simp add: forgetLocalIdentity_def)
next
  case True
  let ?P = "ou_prims O'"
  obtain p where p: "web_activeAccount (cl_vault s) = Some p" "to_lower (pa_id p) \<noteq> []"
      "to_lower (pa_id p) = (case cl_account s of None \<Rightarrow> [] | Some a \<Rightarrow> to_lower a)"
    using True by (auto simp: vaultHoldsCurrentIdentity_def Let_def split: option.splits)
  then obtain i where i: "cl_account s = Some i" "to_lower i = to_lower (pa_id p)" by (auto split: option.splits)
  have open': "\<not> ws_isLocked (cl_vault s)" "ws_vault (cl_vault s) \<noteq> None"
    using p(1) by (auto simp: web_activeAccount_def split: option.splits if_splits)
  then obtain v key kdf where h: "holds_vault ?P (cl_vault s) v key kdf" "x = Some v"
    using assms(3) by (auto simp: web_at_def blank_def)
  obtain a where a: "full_active v = Some a" using full_active_found holds_facts(4) [OF h(1) open'(1)] by blast
  then have pa: "pa_id p = acc_id a" using active_shown [OF h(1) open'(1) a] p(1) by simp
  have act: "fv_active v = JStr (acc_id a)" using full_active_mem [OF a] by simp
  have len: "length (web_accounts (cl_vault s)) = length (fv_accounts v)"
    using holds_facts(3) [OF h(1) open'(1)] open'(1) by (auto simp: web_accounts_def mirrors_def dest: arg_cong [where f = length])
  show ?thesis
  proof (cases "1 < length (fv_accounts v)")
    case False
    then have "length (fv_accounts v) = 1" using full_active_mem [OF a] by (cases "fv_accounts v") auto
    moreover have "blank (wipeVault (cl_vault s))"
      by (simp add: blank_def wipeVault_def clearKeyCache_def disableBiometrics_def remove_item_def hasVault_def item_def clean_def)
    ultimately show ?thesis
      using True False len a i pa h(2) by (auto simp: forgetLocalIdentity_def web_at_def)
  next
    case many: True
    show ?thesis
    proof (rule forget_one [OF assms True _ p(1)])
      show "1 < length (web_accounts (cl_vault s))" using many len by simp
    qed (use a i pa h(2) act in auto)
  qed
qed

theorem forgetting_touches_one_identity_witness:
  "web_at demo_prims (\<lambda>y. y = Some (vault_of demo_account) \<or> (\<exists>v a i. Some (vault_of demo_account) = Some v \<and> full_active v = Some a \<and>
      Some (acc_id demo_account) = Some i \<and> to_lower i = to_lower (acc_id a) \<and>
      (y = None \<and> length (fv_accounts v) = 1 \<or>
       (\<exists>b\<in>set (fv_accounts v). acc_id b \<noteq> acc_id a \<and>
          y = Some (v\<lparr>fv_active := JStr (acc_id b), fv_accounts := filter (\<lambda>c. acc_id c \<noteq> acc_id a) (fv_accounts v)\<rparr>)))))
    (cl_vault (snd (forgetLocalIdentity (demo_outside demo_password (\<lambda>_. fail not_ready)) None (demo_client demo_account True ()))))"
proof -
  let ?O = "demo_outside demo_password (\<lambda>_. fail not_ready) :: unit outside" and ?s = "demo_client demo_account True ()"
  have l: "web_laws (ou_prims ?O)" using demo_web_laws by simp
  have "web_at (ou_prims ?O) ((=) (Some (vault_of demo_account))) (cl_vault ?s)"
    using demo_held(1) [OF demo_account_ok, of True] by (auto simp: web_at_def)
  from forgetting_touches_one_identity [OF l demo_outside_laws(2) this] show ?thesis by simp
qed

section \<open>A wrap that is no envelope\<close>

lemma has_member_odd: "truthy e \<and> \<not> is_object e \<Longrightarrow> has_member h e = Inl (JsTypeError ''Cannot use 'in' operator'')"
  by (simp add: has_member_def)

lemma members_odd:
  "\<exists>e\<in>set es. truthy e \<and> \<not> is_object e \<Longrightarrow> map_res (has_member h) es = Inl (JsTypeError ''Cannot use 'in' operator'')"
proof (induction es)
  case (Cons e es)
  show ?case
  proof (cases "truthy e \<and> \<not> is_object e")
    case True
    then show ?thesis by (simp add: has_member_odd)
  next
    case False
    then have "\<exists>e\<in>set es. truthy e \<and> \<not> is_object e" using Cons.prems False by auto
    then show ?thesis using Cons.IH has_member_object [OF False, of h] by simp
  qed
qed simp

text \<open>C38: One stored wrap that is JSON but no envelope stops the whole re-wrap. With such a wrap among the first
  hundred stale ones, the loop throws before anything is opened or resealed: no key moves, and trying
  again meets the same wrap.\<close>

theorem one_odd_wrap_stops_the_rewrap:
  assumes "serves_wraps O' accepts kid rows"
    and "r \<in> set (take REWRAP_PAGE (filter (stale kid) (rows (cl_world s))))" and "odd_wrap (hw_text r)"
  shows "\<exists>t. rewrapStaleKeys (Suc n) O' publicKey 0 0 s = Some (Throw (JsTypeError ''Cannot use 'in' operator''), t) \<and>
    rows (cl_world t) = rows (cl_world s)"
proof -
  let ?pg = "take REWRAP_PAGE (filter (stale kid) (rows (cl_world s)))"
  have page: "stale_wraps kid REWRAP_PAGE 0 (rows (cl_world s)) = ?pg" by (simp add: stale_wraps_def)
  obtain w where w: "rows w = rows (cl_world s)"
      "ou_fetch O' \<lparr>rq_method = ''GET'', rq_url = STALE_WRAPS O' 0 REWRAP_PAGE, rq_token = map_option snd (cl_session s), rq_body = None\<rparr>
        (cl_world s) = (Inr \<lparr>rs_status = 200, rs_json = Some (JArr (map wrap_js ?pg))\<rparr>, w)"
    using assms(1) page unfolding serves_wraps_def by metis
  have fetch: "apiFetch O' ''GET'' (STALE_WRAPS O' 0 REWRAP_PAGE) None s = (Inr (JArr (map wrap_js ?pg)), s\<lparr>cl_world := w\<rparr>)"
    by (rule apiFetch_ok [OF w(2)]) simp
  have ne: "?pg \<noteq> []" using assms(2) by (cases "?pg") auto
  have "\<exists>e\<in>set (map parsed_wrap (map wrap_js ?pg)). truthy e \<and> \<not> is_object e"
    using assms(2,3) by (auto simp: odd_wrap_def)
  then have "open_batch ''encKey'' (pqc_unwrapMany O') (map parsed_wrap (map wrap_js ?pg)) op (s\<lparr>cl_world := w\<rparr>) =
      (Inl (JsTypeError ''Cannot use 'in' operator''), s\<lparr>cl_world := w\<rparr>)" for op
    by (simp add: open_batch_def members_odd andThen_apply del: map_map)
  then have "rewrap_page O' publicKey (map wrap_js ?pg) (s\<lparr>cl_world := w\<rparr>) =
      (Inl (JsTypeError ''Cannot use 'in' operator''), s\<lparr>cl_world := w\<rparr>)"
    by (simp add: rewrap_page_def Let_def andThen_apply del: map_map)
  then have "rewrap_turn O' publicKey 0 s = (Inl (JsTypeError ''Cannot use 'in' operator''), s\<lparr>cl_world := w\<rparr>)"
    using fetch ne by (simp add: rewrap_turn_def andThen_apply)
  then show ?thesis using w(1) by simp
qed

theorem one_odd_wrap_stops_the_rewrap_witness:
  "wrapped_key_id ''5'' = None \<and>
   (\<exists>t. rewrapStaleKeys 3 (demo_outside demo_password (wraps_server ''kid'')) ''key'' 0 0
        (demo_client demo_rotated False (\<lparr>hw_kind = ''secret'', hw_id = 3, hw_text = ''5''\<rparr> # demo_rows)) =
      Some (Throw (JsTypeError ''Cannot use 'in' operator''), t) \<and>
    cl_world t = \<lparr>hw_kind = ''secret'', hw_id = 3, hw_text = ''5''\<rparr> # demo_rows)"
proof -
  let ?r = "\<lparr>hw_kind = ''secret'', hw_id = 3, hw_text = ''5''\<rparr>"
  have j: "json_parse ''5'' = Some (JNum 5)" by code_simp
  have odd: "odd_wrap (hw_text ?r)" "wrapped_key_id ''5'' = None" using j by (simp_all add: odd_wrap_def wrap_value_def wrapped_key_id_def)
  then have "?r \<in> set (take REWRAP_PAGE (filter (stale ''kid'') (cl_world (demo_client demo_rotated False (?r # demo_rows)))))"
    by (simp add: stale_def REWRAP_PAGE_def)
  from one_odd_wrap_stops_the_rewrap [OF wraps_server_serves this odd(1), of 2 demo_password "''key''"] show ?thesis
    using odd(2) by (simp add: numeral_3_eq_3 numeral_2_eq_2 del: rewrapStaleKeys.simps)
qed

section \<open>Backups and transfers\<close>

text \<open>C16: A vault moved to another device arrives whole. An encrypted export of an open vault, received by a
  blank device with its passphrase, makes exactly that vault there, open and under the new password, with
  the pinned contacts brought along; the account shown is the active one.\<close>

theorem transferred_vault_is_the_same:
  assumes "web_laws P" and "we_prims E = P" and "strong_rnd (we_save E)" and "good_draw P E'"
    and "holds_vault P s v key kdf" and "opened_by P s password key kdf" and "full_active v = Some a" and "stores_pure (ws_trust s)"
    and "vaultPasswordProblem (JStr pp) = None" and "vaultPasswordProblem (JStr pw) = None" and "blank t"
  shows "\<exists>blob s' u key' kdf'. exportEncryptedBlob E (Some pp) password s = (Inr blob, s') \<and>
    importEncryptedBlob E' blob pp (Some pw) t = (Inr (sanitize a), u) \<and>
    holds_vault P u v key' kdf' \<and> \<not> ws_isLocked u \<and> deriveKey P pw kdf' = Inr key' \<and>
    ws_trust u = importTrustStores (ws_trust t) (exportTrustStores (ws_trust s))"
proof (rule export_run [OF assms(1-3,5,6,9,8)])
  fix blob sealed s'
  assume x: "exportEncryptedBlob E (Some pp) password s = (Inr blob, s')" "json_parse blob = Some sealed"
    "decryptVault P sealed pp = Inr (backup_js v (ws_trust s))"
  have v: "full_ok P v" using assms(5) by (simp add: holds_vault_def sealed_full_def)
  show ?thesis
    by (rule import_run [OF assms(1,4,11,10) x(2,3) v assms(7,8)]) (use x(1) in blast)
qed

theorem transferred_vault_is_the_same_witness:
  "\<exists>blob s' u key' kdf'. exportEncryptedBlob demo_web_env (Some demo_password) (Some demo_password) (demo_service (vault_of demo_account) False) = (Inr blob, s') \<and>
     importEncryptedBlob demo_web_env blob demo_password (Some demo_password) (web_initial Map.empty demo_stores) = (Inr (sanitize demo_account), u) \<and>
     holds_vault demo_prims u (vault_of demo_account) key' kdf' \<and> \<not> ws_isLocked u"
proof -
  have "stores_pure (ws_trust (demo_service (vault_of demo_account) False))"
    by (simp add: stores_pure_def demo_service_def web_initial_def demo_stores_def)
  moreover have "blank (web_initial Map.empty demo_stores)"
    by (simp add: blank_def web_initial_def clean_def hasVault_def item_def)
  ultimately show ?thesis
    using transferred_vault_is_the_same [OF demo_web_laws demo_saving demo_good_draw demo_held(1) [OF demo_account_ok] demo_here [OF demo_account_ok]
      vault_of_active _ demo_password_fits demo_password_fits, of False "web_initial Map.empty demo_stores"] by blast
qed

text \<open>C39: Importing an older backup takes an account's keys back to what they were. A backup made while the vault
  held one account, imported into a vault where that account has gone on, replaces the account as a
  whole: the encryption keys made since the backup are gone, the current one included.\<close>

theorem old_backup_rolls_back_keys:
  assumes "web_laws P" and "we_prims E = P" and "strong_rnd (we_save E)" and "good_draw P E'"
    and "holds_vault P s v key kdf" and "opened_by P s password key kdf" and "stores_pure (ws_trust s)"
    and "vaultPasswordProblem (JStr pp) = None" and "fv_accounts v = [old]"
    and "holds_vault P t w key' kdf'" and "opened_by P t password' key' kdf'" and "full_active w = Some new" and "acc_id new = acc_id old"
  shows "\<exists>blob s' u w' key'' kdf''. exportEncryptedBlob E (Some pp) password s = (Inr blob, s') \<and>
    web_importVault E' blob password' (Some pp) t = (Inr 1, u) \<and> holds_vault P u w' key'' kdf'' \<and> full_active w' = Some old"
proof (rule export_run [OF assms(1-3,5,6,8,7)])
  fix blob sealed s'
  assume x: "exportEncryptedBlob E (Some pp) password s = (Inr blob, s')" "json_parse blob = Some sealed" "isEncryptedVaultBlob sealed"
    "decryptVault P sealed pp = Inr (backup_js v (ws_trust s))"
  have v: "full_ok P v" using assms(5) by (simp add: holds_vault_def sealed_full_def)
  have pp: "pp \<noteq> []" using assms(8) by (auto simp: vaultPasswordProblem_def VAULT_PASSWORD_MIN_LENGTH_def)
  have act: "fv_active w = JStr (acc_id old)" "new \<in> set (fv_accounts w)" using full_active_mem [OF assms(12)] assms(13) by simp_all
  have found: "find (\<lambda>a. acc_id a = acc_id old) (fv_accounts w) = Some new" using assms(12) act(1) by (simp add: full_active_def)
  have "list_ex (\<lambda>b. acc_id b = acc_id old) (fv_accounts w)" using act(2) assms(13) by (auto simp: list_ex_iff)
  then have "full_active (w\<lparr>fv_accounts := put_imported old (fv_accounts w)\<rparr>) = Some old"
    using find_replace_first [of acc_id old "acc_id old" "acc_id old" "fv_accounts w"] act(1) found by (simp add: full_active_def put_imported_def)
  then show ?thesis
    using x(1) assms(9) by - (rule merge_run [OF assms(1,4,10,11) x(2-4) pp v], simp, blast)
qed

theorem old_backup_rolls_back_keys_witness:
  "\<exists>blob s' u w' key'' kdf''. exportEncryptedBlob demo_web_env (Some demo_password) (Some demo_password) (demo_service (vault_of demo_account) False) = (Inr blob, s') \<and>
     web_importVault demo_web_env blob (Some demo_password) (Some demo_password) (demo_service (vault_of demo_rotated) False) = (Inr 1, u) \<and>
     holds_vault demo_prims u w' key'' kdf'' \<and> full_active w' = Some demo_account \<and> acc_encryption demo_account \<noteq> acc_encryption demo_rotated"
proof -
  have "stores_pure (ws_trust (demo_service (vault_of demo_account) False))"
    by (simp add: stores_pure_def demo_service_def web_initial_def demo_stores_def)
  moreover have "fv_accounts (vault_of demo_account) = [demo_account]" by (simp add: vault_of_def)
  ultimately show ?thesis
    using old_backup_rolls_back_keys [OF demo_web_laws demo_saving demo_good_draw demo_held(1) [OF demo_account_ok] demo_here [OF demo_account_ok]
      _ demo_password_fits _ demo_held(1) [OF demo_rotated(1)] demo_here [OF demo_rotated(1)] vault_of_active demo_rotated(2), of False] demo_rotated(3) by blast
qed

end
