(* ===== verification/WebChunks.thy ===== *)
theory WebChunks
  imports WebCustody
begin

text \<open>
  Files of the web client: \<open>utils/fileChunks.js\<close> and \<open>utils/secretPayload.js\<close>. A file goes to the
  server in encrypted chunks of 512 KB, each sealed to its place, and its description goes into the
  secret. A file is its name, its type and its bytes; reading it always succeeds. The text of a
  refused response, which only a message quotes, is a parameter. Progress reports are left out.
\<close>

subsection \<open>Chunks of a file\<close>

definition CHUNK_SIZE :: nat where
  "CHUNK_SIZE = 512 * 1024"

record local_file =
  fi_name :: string
  fi_type :: string
  fi_bytes :: bytes

definition fi_size :: "local_file \<Rightarrow> nat" where
  "fi_size f = length (fi_bytes f)"

definition chunkCount :: "nat \<Rightarrow> nat" where
  "chunkCount n = (n + CHUNK_SIZE - 1) div CHUNK_SIZE"

definition chunk_of :: "bytes \<Rightarrow> nat \<Rightarrow> bytes" where
  "chunk_of bs i = slice (i * CHUNK_SIZE) (min (i * CHUNK_SIZE + CHUNK_SIZE) (length bs)) bs"

subsection \<open>Uploading\<close>

definition CHUNKS_UPLOAD :: "'w outside \<Rightarrow> string" where
  "CHUNKS_UPLOAD O' = ou_base O' @ ''/secrets/chunks''"

definition CHUNK :: "'w outside \<Rightarrow> jsval \<Rightarrow> jsval \<Rightarrow> string" where
  "CHUNK O' secretId index = ou_base O' @ ''/secrets/'' @ js_str secretId @ ''/chunks/'' @ js_str index"

definition chunk_request :: "jsval \<Rightarrow> int \<Rightarrow> jsval \<Rightarrow> jsval \<Rightarrow> jsval" where
  "chunk_request secretId index iv ciphertext = JObj
     [(''secret_id'', secretId), (''chunk_index'', JNum index), (''iv'', iv), (''encrypted_data'', ciphertext)]"

definition upload_chunk ::
  "'w outside \<Rightarrow> (web_response \<Rightarrow> string) \<Rightarrow> string \<Rightarrow> jsval \<Rightarrow> jsval \<Rightarrow> nat \<Rightarrow> bytes \<Rightarrow> ('w, unit) op" where
  "upload_chunk O' body_text which secretId fileKey index chunkData =
     andThen (drawn O') (\<lambda>d.
     andThen (lift_res (encryptChunk (ou_prims O') (snd (dr_seal d)) chunkData fileKey
       (JStr (chunkAad secretId (JNum (int index)))))) (\<lambda>e.
     andThen (apiRaw O' ''POST'' (CHUNKS_UPLOAD O')
       (Some (chunk_request secretId (int index) (js_get e ''iv'') (js_get e ''ciphertext'')))) (\<lambda>res.
       if rs_ok res then ret ()
       else fail (PlainError (''Chunk '' @ nat_str index @ '' upload failed'' @ which @ '': '' @ body_text res)))))"

text \<open>The chunks from \<open>i\<close> on, at their place in the secret's index space.\<close>

fun upload_chunks ::
  "'w outside \<Rightarrow> (web_response \<Rightarrow> string) \<Rightarrow> string \<Rightarrow> jsval \<Rightarrow> jsval \<Rightarrow> nat \<Rightarrow> bytes \<Rightarrow> nat \<Rightarrow> nat \<Rightarrow> ('w, unit) op" where
  "upload_chunks O' body_text which secretId fileKey offset bs 0 i = ret ()"
| "upload_chunks O' body_text which secretId fileKey offset bs (Suc n) i =
     andThen (upload_chunk O' body_text which secretId fileKey (offset + i) (chunk_of bs i)) (\<lambda>_.
       upload_chunks O' body_text which secretId fileKey offset bs n (Suc i))"

definition uploadChunkedFile ::
  "'w outside \<Rightarrow> (web_response \<Rightarrow> string) \<Rightarrow> local_file \<Rightarrow> jsval \<Rightarrow> jsval \<Rightarrow> ('w, jsval) op" where
  "uploadChunkedFile O' body_text f secretId fileKey =
     (let totalChunks = chunkCount (fi_size f)
      in andThen (upload_chunks O' body_text [] secretId fileKey 0 (fi_bytes f) totalChunks 0) (\<lambda>_.
         ret (JObj [(''totalChunks'', JNum (int totalChunks)), (''totalSize'', JNum (int (fi_size f))),
                    (''chunkSize'', JNum (int CHUNK_SIZE))])))"

definition mime_of :: "local_file \<Rightarrow> string" where
  "mime_of f = (if fi_type f = [] then ''application/octet-stream'' else fi_type f)"

definition file_meta :: "local_file \<Rightarrow> nat \<Rightarrow> (string \<times> jsval) list" where
  "file_meta f chunkOffset =
     [(''file_name'', JStr (fi_name f)), (''mime_type'', JStr (mime_of f)), (''total_chunks'', JNum (int (chunkCount (fi_size f)))),
      (''total_size'', JNum (int (fi_size f))), (''chunk_offset'', JNum (int chunkOffset))]"

fun upload_files ::
  "'w outside \<Rightarrow> (web_response \<Rightarrow> string) \<Rightarrow> jsval \<Rightarrow> jsval \<Rightarrow> nat \<Rightarrow> local_file list \<Rightarrow> ('w, jsval list) op" where
  "upload_files O' body_text secretId fileKey offset [] = ret []"
| "upload_files O' body_text secretId fileKey offset (f # fs) =
     andThen (upload_chunks O' body_text ('' ('' @ fi_name f @ '')'') secretId fileKey offset (fi_bytes f) (chunkCount (fi_size f)) 0) (\<lambda>_.
     andThen (upload_files O' body_text secretId fileKey (offset + chunkCount (fi_size f)) fs) (\<lambda>metas.
       ret (JObj (file_meta f offset) # metas)))"

definition uploadMultipleChunkedFiles ::
  "'w outside \<Rightarrow> (web_response \<Rightarrow> string) \<Rightarrow> local_file list \<Rightarrow> jsval \<Rightarrow> jsval \<Rightarrow> ('w, jsval) op" where
  "uploadMultipleChunkedFiles O' body_text fs secretId fileKey =
     andThen (upload_files O' body_text secretId fileKey 0 fs) (\<lambda>metas.
       ret (JObj [(''files'', JArr metas), (''total_chunks'', JNum (int (sum_list (map (\<lambda>f. chunkCount (fi_size f)) fs)))),
                  (''chunk_size'', JNum (int CHUNK_SIZE))]))"

subsection \<open>Downloading\<close>

text \<open>The bound of a loop and an index as JavaScript reads them; a text as a number is outside the model.\<close>

fun loop_bound :: "jsval \<Rightarrow> nat res" where
  "loop_bound (JNum n) = Ok (nat n)"
| "loop_bound (JBool b) = Ok (if b then 1 else 0)"
| "loop_bound JUndef = Ok 0"
| "loop_bound JNull = Ok 0"
| "loop_bound JNaN = Ok 0"
| "loop_bound _ = Throw OutOfModel"

fun index_plus :: "jsval \<Rightarrow> nat \<Rightarrow> jsval" where
  "index_plus (JNum c) i = JNum (c + int i)"
| "index_plus JNull i = JNum (int i)"
| "index_plus (JBool b) i = JNum ((if b then 1 else 0) + int i)"
| "index_plus JUndef i = JNaN"
| "index_plus JNaN i = JNaN"
| "index_plus v i = JStr (js_str v @ nat_str i)"

record blob =
  bl_bytes :: bytes
  bl_type :: jsval

definition download_chunk :: "'w outside \<Rightarrow> jsval \<Rightarrow> jsval \<Rightarrow> jsval \<Rightarrow> ('w, bytes) op" where
  "download_chunk O' secretId fileKey index =
     andThen (apiRaw O' ''GET'' (CHUNK O' secretId index) None) (\<lambda>res.
     andThen (guards (rs_ok res) (PlainError (''Chunk '' @ js_str index @ '' download failed: '' @ int_str (rs_status res)))) (\<lambda>_.
     andThen (lift_res (json_of res)) (\<lambda>chunkData.
       lift_res (decryptChunk (ou_prims O') (js_get chunkData ''iv'') (js_get chunkData ''encrypted_data'') fileKey
         (JStr (chunkAad secretId index))))))"

fun download_chunks :: "'w outside \<Rightarrow> jsval \<Rightarrow> jsval \<Rightarrow> (nat \<Rightarrow> jsval) \<Rightarrow> nat \<Rightarrow> nat \<Rightarrow> ('w, bytes) op" where
  "download_chunks O' secretId fileKey at 0 i = ret []"
| "download_chunks O' secretId fileKey at (Suc n) i =
     andThen (download_chunk O' secretId fileKey (at i)) (\<lambda>bs.
     andThen (download_chunks O' secretId fileKey at n (Suc i)) (\<lambda>rest. ret (bs @ rest)))"

definition to_blob :: "jsval \<Rightarrow> bytes \<Rightarrow> blob" where
  "to_blob mimeType bs =
     \<lparr>bl_bytes = bs, bl_type = (if truthy mimeType then mimeType else JStr ''application/octet-stream'')\<rparr>"

definition downloadChunkedFile :: "'w outside \<Rightarrow> jsval \<Rightarrow> jsval \<Rightarrow> jsval \<Rightarrow> jsval \<Rightarrow> ('w, blob) op" where
  "downloadChunkedFile O' secretId fileKey totalChunks mimeType =
     andThen (lift_res (loop_bound totalChunks)) (\<lambda>n.
       map_op (to_blob mimeType) (download_chunks O' secretId fileKey (\<lambda>i. JNum (int i)) n 0))"

definition downloadFileByRange :: "'w outside \<Rightarrow> jsval \<Rightarrow> jsval \<Rightarrow> jsval \<Rightarrow> jsval \<Rightarrow> jsval \<Rightarrow> ('w, blob) op" where
  "downloadFileByRange O' secretId fileKey chunkOffset totalChunks mimeType =
     andThen (lift_res (loop_bound totalChunks)) (\<lambda>n.
       map_op (to_blob mimeType) (download_chunks O' secretId fileKey (index_plus chunkOffset) n 0))"

subsection \<open>The description of the files\<close>

definition hash_js :: "prims \<Rightarrow> bool \<Rightarrow> local_file \<Rightarrow> jsval" where
  "hash_js P hash f = (if hash then JStr (sha384HexOfFile P (fi_bytes f)) else JNull)"

definition single_meta :: "prims \<Rightarrow> bool \<Rightarrow> local_file \<Rightarrow> jsval" where
  "single_meta P hash f = JObj
     [(''file_name'', JStr (fi_name f)), (''mime_type'', JStr (mime_of f)), (''total_chunks'', JNum (int (chunkCount (fi_size f)))),
      (''total_size'', JNum (int (fi_size f))), (''chunk_size'', JNum (int CHUNK_SIZE)), (''file_hash'', hash_js P hash f)]"

fun files_meta :: "prims \<Rightarrow> bool \<Rightarrow> nat \<Rightarrow> local_file list \<Rightarrow> jsval list" where
  "files_meta P hash chunkOffset [] = []"
| "files_meta P hash chunkOffset (f # fs) =
     JObj (file_meta f chunkOffset @ [(''file_hash'', hash_js P hash f)]) # files_meta P hash (chunkOffset + chunkCount (fi_size f)) fs"

definition buildFileMetadata :: "prims \<Rightarrow> bool \<Rightarrow> local_file list \<Rightarrow> string" where
  "buildFileMetadata P hash fs =
     json_text (case fs of
         [f] \<Rightarrow> single_meta P hash f
       | _ \<Rightarrow> JObj [(''files'', JArr (files_meta P hash 0 fs)),
                    (''total_chunks'', JNum (int (sum_list (map (\<lambda>f. chunkCount (fi_size f)) fs)))),
                    (''chunk_size'', JNum (int CHUNK_SIZE))])"

end
