(* ===== verification/WebFiles.thy ===== *)
theory WebFiles
  imports WebChunks
begin

text \<open>
  What an upload leaves on the server and what a download brings back: the chunks of a file cover it,
  every chunk opens at its place, and a range of places gives the file they came from.
\<close>

subsection \<open>The chunks cover the file\<close>

lemma chunk_of_take: "chunk_of bs i = take CHUNK_SIZE (drop (i * CHUNK_SIZE) bs)"
proof -
  have "take (length bs - i * CHUNK_SIZE) (drop (i * CHUNK_SIZE) bs) = drop (i * CHUNK_SIZE) bs" by simp
  then show ?thesis by (cases "i * CHUNK_SIZE + CHUNK_SIZE \<le> length bs") (simp_all add: chunk_of_def slice_def)
qed

lemma chunks_take: "concat (map (chunk_of bs) [0..<n]) = take (n * CHUNK_SIZE) bs"
proof (induction n)
  case (Suc n)
  have "take (Suc n * CHUNK_SIZE) bs = take (n * CHUNK_SIZE) bs @ take CHUNK_SIZE (drop (n * CHUNK_SIZE) bs)"
    by (simp only: mult_Suc add.commute [of CHUNK_SIZE] take_add)
  then show ?case using Suc by (simp add: chunk_of_take)
qed simp

lemma chunks_cover: "concat (map (chunk_of bs) [0..<chunkCount (length bs)]) = bs"
proof -
  have "0 < CHUNK_SIZE" by (simp add: CHUNK_SIZE_def)
  then have "length bs \<le> chunkCount (length bs) * CHUNK_SIZE"
    unfolding chunkCount_def using div_mult_mod_eq [of "length bs + CHUNK_SIZE - 1" CHUNK_SIZE] mod_less_divisor [of CHUNK_SIZE "length bs + CHUNK_SIZE - 1"]
    by linarith
  then show ?thesis unfolding chunks_take by simp
qed

subsection \<open>A server that keeps chunks\<close>

type_synonym chunk_store = "string \<times> string \<Rightarrow> (jsval \<times> jsval) option"

definition serves_chunks :: "'w outside \<Rightarrow> ('w \<Rightarrow> chunk_store) \<Rightarrow> bool" where
  "serves_chunks O' store \<longleftrightarrow> untouched O' store \<and>
     (\<forall>token sid i iv c w. \<exists>w' v. store w' = (store w)((js_str sid, int_str i) \<mapsto> (iv, c)) \<and>
        ou_fetch O' \<lparr>rq_method = ''POST'', rq_url = CHUNKS_UPLOAD O', rq_token = token, rq_body = Some (chunk_request sid i iv c)\<rparr> w =
          (Inr \<lparr>rs_status = 200, rs_json = Some v\<rparr>, w')) \<and>
     (\<forall>token sid i iv c w. store w (js_str sid, js_str i) = Some (iv, c) \<longrightarrow> (\<exists>w'. store w' = store w \<and>
        ou_fetch O' \<lparr>rq_method = ''GET'', rq_url = CHUNK O' sid i, rq_token = token, rq_body = None\<rparr> w =
          (Inr \<lparr>rs_status = 200, rs_json = Some (JObj [(''iv'', iv), (''encrypted_data'', c)])\<rparr>, w')))"

text \<open>The chunk kept at a place opens there to these bytes.\<close>

definition holds_chunk :: "prims \<Rightarrow> chunk_store \<Rightarrow> jsval \<Rightarrow> bytes \<Rightarrow> nat \<Rightarrow> bytes \<Rightarrow> bool" where
  "holds_chunk P store sid key i bs \<longleftrightarrow> (\<exists>iv c. store (js_str sid, int_str (int i)) = Some (iv, c) \<and>
     decryptChunk P iv c (JStr (toHex key)) (JStr (chunkAad sid (JNum (int i)))) = Inr bs)"

definition draws_iv :: "'w outside \<Rightarrow> bool" where
  "draws_iv O' \<longleftrightarrow> (\<forall>w. snd (dr_seal (fst (ou_draw O' w))) \<noteq> [])"

lemma upload_chunk_run:
  assumes P: "aead_correct (ou_prims O')" and key: "aes_key_ok key" and srv: "serves_chunks O' store" and iv: "draws_iv O'"
  shows "\<exists>w. upload_chunk O' body_text which sid (JStr (toHex key)) i bs s = (Inr (), s\<lparr>cl_world := w\<rparr>) \<and>
    holds_chunk (ou_prims O') (store w) sid key i bs \<and>
    (\<forall>x. x \<noteq> (js_str sid, int_str (int i)) \<longrightarrow> store w x = store (cl_world s) x)"
proof -
  let ?P = "ou_prims O'" and ?aad = "JStr (chunkAad sid (JNum (int i)))"
  obtain d w where d: "drawn O' s = (Inr d, s\<lparr>cl_world := w\<rparr>)" "w = snd (ou_draw O' (cl_world s))" "dr_seal d = dr_seal (fst (ou_draw O' (cl_world s)))"
    using drawn_run [of O' s] by blast
  have n: "snd (dr_seal d) \<noteq> []" using iv d(3) by (simp add: draws_iv_def)
  have sw: "store w = store (cl_world s)" using srv d(2) by (simp add: serves_chunks_def untouched_def)
  obtain e where e: "encryptChunk ?P (snd (dr_seal d)) bs (JStr (toHex key)) ?aad = Inr e"
      "decryptChunk ?P (js_get e ''iv'') (js_get e ''ciphertext'') (JStr (toHex key)) ?aad = Inr bs"
    using chunk_roundtrip [OF P key n] by blast
  obtain w' v where w': "store w' = (store w)((js_str sid, int_str (int i)) \<mapsto> (js_get e ''iv'', js_get e ''ciphertext''))"
      "ou_fetch O' \<lparr>rq_method = ''POST'', rq_url = CHUNKS_UPLOAD O', rq_token = map_option snd (cl_session s),
          rq_body = Some (chunk_request sid (int i) (js_get e ''iv'') (js_get e ''ciphertext''))\<rparr> w = (Inr \<lparr>rs_status = 200, rs_json = Some v\<rparr>, w')"
    using srv unfolding serves_chunks_def by metis
  have "apiRaw O' ''POST'' (CHUNKS_UPLOAD O') (Some (chunk_request sid (int i) (js_get e ''iv'') (js_get e ''ciphertext''))) (s\<lparr>cl_world := w\<rparr>) =
      (Inr \<lparr>rs_status = 200, rs_json = Some v\<rparr>, s\<lparr>cl_world := w\<rparr>\<lparr>cl_world := w'\<rparr>)"
    by (rule apiRaw_run) (use w'(2) in \<open>simp_all add: chunk_request_def\<close>)
  then have "upload_chunk O' body_text which sid (JStr (toHex key)) i bs s = (Inr (), s\<lparr>cl_world := w'\<rparr>)"
    using d(1) e(1) by (simp add: upload_chunk_def andThen_apply rs_ok_def)
  then show ?thesis using w'(1) e(2) sw by (auto simp: holds_chunk_def)
qed

text \<open>A run of chunks, and what it leaves alone.\<close>

lemma upload_chunks_run:
  assumes P: "aead_correct (ou_prims O')" "aes_key_ok key" "serves_chunks O' store" "draws_iv O'"
  shows "\<exists>w. upload_chunks O' body_text which sid (JStr (toHex key)) offset bs n i s = (Inr (), s\<lparr>cl_world := w\<rparr>) \<and>
    (\<forall>j<n. holds_chunk (ou_prims O') (store w) sid key (offset + i + j) (chunk_of bs (i + j))) \<and>
    (\<forall>k. k < offset + i \<or> offset + i + n \<le> k \<longrightarrow>
      store w (js_str sid, int_str (int k)) = store (cl_world s) (js_str sid, int_str (int k)))"
proof (induction n arbitrary: i s)
  case 0
  then show ?case by (intro exI [of _ "cl_world s"]) simp
next
  case (Suc n)
  obtain w where w: "upload_chunk O' body_text which sid (JStr (toHex key)) (offset + i) (chunk_of bs i) s = (Inr (), s\<lparr>cl_world := w\<rparr>)"
      "holds_chunk (ou_prims O') (store w) sid key (offset + i) (chunk_of bs i)"
      "\<And>x. x \<noteq> (js_str sid, int_str (int (offset + i))) \<Longrightarrow> store w x = store (cl_world s) x"
    using upload_chunk_run [OF P, of body_text which sid "offset + i" "chunk_of bs i" s] by blast
  obtain u where u: "upload_chunks O' body_text which sid (JStr (toHex key)) offset bs n (Suc i) (s\<lparr>cl_world := w\<rparr>) =
        (Inr (), s\<lparr>cl_world := w\<rparr>\<lparr>cl_world := u\<rparr>)"
      "\<And>j. j < n \<Longrightarrow> holds_chunk (ou_prims O') (store u) sid key (offset + Suc i + j) (chunk_of bs (Suc i + j))"
      "\<And>k. k < offset + Suc i \<or> offset + Suc i + n \<le> k \<Longrightarrow> store u (js_str sid, int_str (int k)) = store w (js_str sid, int_str (int k))"
    using Suc.IH [of "Suc i" "s\<lparr>cl_world := w\<rparr>"] by auto
  have "holds_chunk (ou_prims O') (store u) sid key (offset + i + j) (chunk_of bs (i + j))" if "j < Suc n" for j
  proof (cases j)
    case 0
    then show ?thesis using w(2) u(3) [of "offset + i"] by (simp add: holds_chunk_def)
  next
    case (Suc j')
    then show ?thesis using u(2) [of j'] that by simp
  qed
  moreover have "store u (js_str sid, int_str (int k)) = store (cl_world s) (js_str sid, int_str (int k))"
    if "k < offset + i \<or> offset + i + Suc n \<le> k" for k
    using u(3) [of k] w(3) that by auto
  ultimately show ?case using w(1) u(1) by (intro exI [of _ u]) (simp add: andThen_apply)
qed

subsection \<open>Downloading\<close>

lemma download_chunks_run:
  assumes srv: "serves_chunks O' store"
  shows "(\<And>j. j < n \<Longrightarrow> at (i + j) = JNum (int (offset + i + j)) \<and> holds_chunk (ou_prims O') (store (cl_world s)) sid key (offset + i + j) (f (i + j))) \<Longrightarrow>
    \<exists>w. download_chunks O' sid (JStr (toHex key)) at n i s = (Inr (concat (map f [i..<i + n])), s\<lparr>cl_world := w\<rparr>) \<and> store w = store (cl_world s)"
proof (induction n arbitrary: i s)
  case 0
  then show ?case by (intro exI [of _ "cl_world s"]) simp
next
  case (Suc n)
  let ?k = "JNum (int (offset + i))"
  have at: "at i = ?k" using Suc.prems [of 0] by simp
  obtain iv c where c: "store (cl_world s) (js_str sid, js_str ?k) = Some (iv, c)"
      "decryptChunk (ou_prims O') iv c (JStr (toHex key)) (JStr (chunkAad sid ?k)) = Inr (f i)"
    using Suc.prems [of 0] by (auto simp: holds_chunk_def)
  obtain w where w: "store w = store (cl_world s)"
      "ou_fetch O' \<lparr>rq_method = ''GET'', rq_url = CHUNK O' sid ?k, rq_token = map_option snd (cl_session s), rq_body = None\<rparr> (cl_world s) =
        (Inr \<lparr>rs_status = 200, rs_json = Some (JObj [(''iv'', iv), (''encrypted_data'', c)])\<rparr>, w)"
    using srv c(1) unfolding serves_chunks_def by metis
  have "apiRaw O' ''GET'' (CHUNK O' sid ?k) None s = (Inr \<lparr>rs_status = 200, rs_json = Some (JObj [(''iv'', iv), (''encrypted_data'', c)])\<rparr>, s\<lparr>cl_world := w\<rparr>)"
    by (rule apiRaw_run [OF w(2)]) simp_all
  then have one: "download_chunk O' sid (JStr (toHex key)) ?k s = (Inr (f i), s\<lparr>cl_world := w\<rparr>)"
    using c(2) by (simp add: download_chunk_def andThen_apply rs_ok_def json_of_def)
  have "\<And>j. j < n \<Longrightarrow> at (Suc i + j) = JNum (int (offset + Suc i + j)) \<and>
      holds_chunk (ou_prims O') (store (cl_world (s\<lparr>cl_world := w\<rparr>))) sid key (offset + Suc i + j) (f (Suc i + j))"
    using Suc.prems w(1) by (metis Suc_less_eq add_Suc_shift add_Suc_right add_Suc client.select_convs(9) client.surjective client.update_convs(9))
  then obtain u where "download_chunks O' sid (JStr (toHex key)) at n (Suc i) (s\<lparr>cl_world := w\<rparr>) =
      (Inr (concat (map f [Suc i..<Suc i + n])), s\<lparr>cl_world := w\<rparr>\<lparr>cl_world := u\<rparr>)" "store u = store w"
    using Suc.IH [of "Suc i" "s\<lparr>cl_world := w\<rparr>"] by auto
  then show ?case using one at w(1) by (intro exI [of _ u]) (simp add: andThen_apply upt_conv_Cons del: upt_Suc)
qed

subsection \<open>Many files in one index space\<close>

definition chunks_in :: "local_file \<Rightarrow> nat" where
  "chunks_in f = chunkCount (fi_size f)"

definition file_offset :: "local_file list \<Rightarrow> nat \<Rightarrow> nat" where
  "file_offset fs k = sum_list (map chunks_in (take k fs))"

lemma file_offset_simps [simp]: "file_offset fs 0 = 0" "file_offset (f # fs) (Suc k) = chunks_in f + file_offset fs k"
  by (simp_all add: file_offset_def)

text \<open>Every chunk of a file is at its place.\<close>

definition holds_file :: "prims \<Rightarrow> chunk_store \<Rightarrow> jsval \<Rightarrow> bytes \<Rightarrow> nat \<Rightarrow> local_file \<Rightarrow> bool" where
  "holds_file P store sid key offset f \<longleftrightarrow>
     (\<forall>j<chunks_in f. holds_chunk P store sid key (offset + j) (chunk_of (fi_bytes f) j))"

lemma upload_files_run:
  assumes P: "aead_correct (ou_prims O')" "aes_key_ok key" "serves_chunks O' store" "draws_iv O'"
  shows "\<exists>w metas. upload_files O' body_text sid (JStr (toHex key)) offset fs s = (Inr metas, s\<lparr>cl_world := w\<rparr>) \<and>
    (\<forall>k<length fs. holds_file (ou_prims O') (store w) sid key (offset + file_offset fs k) (fs ! k)) \<and>
    (\<forall>i<offset. store w (js_str sid, int_str (int i)) = store (cl_world s) (js_str sid, int_str (int i)))"
proof (induction fs arbitrary: offset s)
  case Nil
  then show ?case by (intro exI [of _ "cl_world s"] exI [of _ "[]"]) simp
next
  case (Cons f fs)
  let ?n = "chunks_in f"
  obtain w where w: "upload_chunks O' body_text ('' ('' @ fi_name f @ '')'') sid (JStr (toHex key)) offset (fi_bytes f) ?n 0 s = (Inr (), s\<lparr>cl_world := w\<rparr>)"
      "\<And>j. j < ?n \<Longrightarrow> holds_chunk (ou_prims O') (store w) sid key (offset + j) (chunk_of (fi_bytes f) j)"
      "\<And>k. k < offset \<Longrightarrow> store w (js_str sid, int_str (int k)) = store (cl_world s) (js_str sid, int_str (int k))"
    using upload_chunks_run [OF P, of body_text "'' ('' @ fi_name f @ '')''" sid offset "fi_bytes f" ?n 0 s] by auto
  obtain u metas where u: "upload_files O' body_text sid (JStr (toHex key)) (offset + ?n) fs (s\<lparr>cl_world := w\<rparr>) =
        (Inr metas, s\<lparr>cl_world := w\<rparr>\<lparr>cl_world := u\<rparr>)"
      "\<And>k. k < length fs \<Longrightarrow> holds_file (ou_prims O') (store u) sid key (offset + ?n + file_offset fs k) (fs ! k)"
      "\<And>i. i < offset + ?n \<Longrightarrow> store u (js_str sid, int_str (int i)) = store w (js_str sid, int_str (int i))"
    using Cons.IH [of "offset + ?n" "s\<lparr>cl_world := w\<rparr>"] by auto
  have "holds_file (ou_prims O') (store u) sid key offset f"
    unfolding holds_file_def holds_chunk_def
  proof (intro allI impI)
    fix j
    assume j: "j < ?n"
    then have "store u (js_str sid, int_str (int (offset + j))) = store w (js_str sid, int_str (int (offset + j)))" by (intro u(3)) simp
    then show "\<exists>iv c. store u (js_str sid, int_str (int (offset + j))) = Some (iv, c) \<and>
        decryptChunk (ou_prims O') iv c (JStr (toHex key)) (JStr (chunkAad sid (JNum (int (offset + j))))) = Inr (chunk_of (fi_bytes f) j)"
      using w(2) [OF j] by (simp only: holds_chunk_def)
  qed
  then have "holds_file (ou_prims O') (store u) sid key (offset + file_offset (f # fs) k) ((f # fs) ! k)" if "k < length (f # fs)" for k
    using u(2) [of "k - 1"] that by (cases k) (simp_all add: add.assoc)
  moreover have "\<forall>i<offset. store u (js_str sid, int_str (int i)) = store (cl_world s) (js_str sid, int_str (int i))"
    using u(3) w(3) by simp
  ultimately show ?case
    using w(1) u(1) by (intro exI [of _ u] exI [of _ "JObj (file_meta f offset) # metas"]) (simp add: andThen_apply chunks_in_def)
qed

lemma download_file_run:
  assumes srv: "serves_chunks O' store" and h: "holds_file (ou_prims O') (store (cl_world s)) sid key offset f"
  shows "\<exists>w. downloadFileByRange O' sid (JStr (toHex key)) (JNum (int offset)) (JNum (int (chunks_in f))) (JStr (mime_of f)) s =
    (Inr \<lparr>bl_bytes = fi_bytes f, bl_type = JStr (mime_of f)\<rparr>, s\<lparr>cl_world := w\<rparr>) \<and> store w = store (cl_world s)"
proof -
  have "index_plus (JNum (int offset)) (0 + j) = JNum (int (offset + 0 + j)) \<and>
      holds_chunk (ou_prims O') (store (cl_world s)) sid key (offset + 0 + j) (chunk_of (fi_bytes f) (0 + j))" if "j < chunks_in f" for j
    using h that by (simp add: holds_file_def)
  then obtain w where w: "download_chunks O' sid (JStr (toHex key)) (index_plus (JNum (int offset))) (chunks_in f) 0 s =
      (Inr (concat (map (chunk_of (fi_bytes f)) [0..<chunks_in f])), s\<lparr>cl_world := w\<rparr>)" "store w = store (cl_world s)"
    using download_chunks_run [OF srv, where at = "index_plus (JNum (int offset))" and n = "chunks_in f" and i = 0 and f = "chunk_of (fi_bytes f)"
      and offset = offset and s = s and sid = sid and key = key] by auto
  have "mime_of f \<noteq> []" by (simp add: mime_of_def)
  then show ?thesis
    using w chunks_cover [of "fi_bytes f"]
    by (intro exI [of _ w]) (simp add: downloadFileByRange_def map_op_def andThen_apply to_blob_def chunks_in_def fi_size_def)
qed

text \<open>A single file is read from the start of the index space.\<close>

lemma download_single: "downloadChunkedFile O' sid key n mime = downloadFileByRange O' sid key (JNum 0) n mime"
proof -
  have "index_plus (JNum 0) = (\<lambda>i. JNum (int i))" by (rule ext) simp
  then show ?thesis by (simp add: downloadChunkedFile_def downloadFileByRange_def)
qed

lemma upload_single_run:
  assumes P: "aead_correct (ou_prims O')" "aes_key_ok key" "serves_chunks O' store" "draws_iv O'"
  shows "\<exists>w r. uploadChunkedFile O' body_text f sid (JStr (toHex key)) s = (Inr r, s\<lparr>cl_world := w\<rparr>) \<and>
    holds_file (ou_prims O') (store w) sid key 0 f"
  using upload_chunks_run [OF P, of body_text "[]" sid 0 "fi_bytes f" "chunks_in f" 0 s]
  by (auto simp: uploadChunkedFile_def andThen_apply holds_file_def chunks_in_def Let_def)

subsection \<open>The description\<close>

lemma files_meta_length [simp]: "length (files_meta P hash offset fs) = length fs"
  by (induction fs arbitrary: offset) simp_all

lemma files_meta_nth:
  "k < length fs \<Longrightarrow> files_meta P hash offset fs ! k =
     JObj (file_meta (fs ! k) (offset + file_offset fs k) @ [(''file_hash'', hash_js P hash (fs ! k))])"
proof (induction fs arbitrary: offset k)
  case (Cons f fs)
  then show ?case by (cases k) (simp_all add: chunks_in_def add.assoc)
qed simp

lemma files_meta_pure: "list_all js_pure (files_meta P hash offset fs)"
  by (induction fs arbitrary: offset) (simp_all add: file_meta_def hash_js_def)

lemma buildFileMetadata_many:
  assumes "length fs \<noteq> 1"
  shows "\<exists>m. json_parse (buildFileMetadata P hash fs) = Some m \<and> js_get m ''files'' = JArr (files_meta P hash 0 fs)"
proof -
  let ?m = "JObj [(''files'', JArr (files_meta P hash 0 fs)),
    (''total_chunks'', JNum (int (sum_list (map (\<lambda>f. chunkCount (fi_size f)) fs)))), (''chunk_size'', JNum (int CHUNK_SIZE))]"
  have "js_pure ?m" using files_meta_pure by (auto simp: list_all_iff)
  moreover have "buildFileMetadata P hash fs = json_text ?m"
    using assms by (simp only: buildFileMetadata_def) (auto split: list.splits)
  ultimately show ?thesis using json_parse_text [of ?m] by (intro exI [of _ ?m]) simp
qed

lemma buildFileMetadata_one: "json_parse (buildFileMetadata P hash [f]) = Some (single_meta P hash f)"
  using json_parse_text [of "single_meta P hash f"] by (simp add: buildFileMetadata_def single_meta_def hash_js_def)

end
