(* ===== verification/WebContent.thy ===== *)
theory WebContent
  imports WebCustody MsgRoundtrip
begin

text \<open>
  Reading a decrypted secret and naming things: \<open>utils/secretContent.js\<close>, \<open>utils/titles.js\<close> and
  \<open>context/messenger/useGroupNames.js\<close>. The placeholder of a title that cannot be read is spelled
  without its emoji. A \<open>catch\<close> lets pass what is outside the model. The cache of name keys that the
  hook keeps in a ref is an argument and part of the result.
\<close>

subsection \<open>Catching\<close>

definition recovered :: "'a \<Rightarrow> 'a res \<Rightarrow> 'a res" where
  "recovered d r = (case r of Inl e \<Rightarrow> if e = OutOfModel then Throw e else Ok d | Inr x \<Rightarrow> Ok x)"

definition tries :: "('s, 'a) act \<Rightarrow> (js_error \<Rightarrow> ('s, 'a) act) \<Rightarrow> ('s, 'a) act" where
  "tries m h = catches m (\<lambda>e. if e = OutOfModel then fail e else h e)"

lemma recovered_simps [simp]: "recovered d (Inr x) = Inr x" "e \<noteq> OutOfModel \<Longrightarrow> recovered d (Inl e) = Inr d"
  by (simp_all add: recovered_def)

lemma tries_ok: "m s = (Inr x, t) \<Longrightarrow> tries m h s = (Inr x, t)"
  by (simp add: tries_def catches_def)

subsection \<open>Signed documents\<close>

text \<open>The address is the one the document's own key has.\<close>

definition verifySignedDocument :: "prims \<Rightarrow> jsval \<Rightarrow> bool \<times> string option" where
  "verifySignedDocument P doc =
     (case addressOf P (js_get doc ''signerPublicKey'') of
        Inl _ \<Rightarrow> (False, None)
      | Inr a \<Rightarrow>
          (verifyIdentitySignature P (JStr a) (js_get doc ''signerPublicKey'')
             (domainSeparate CTX_CONTENT (js_str (js_get doc ''content''))) (js_get doc ''signature''), Some a))"

record unwrapped =
  un_content :: jsval
  un_isSignedDoc :: bool
  un_signedPayload :: jsval

definition file_descriptor :: "jsval \<Rightarrow> jsval \<Rightarrow> jsval" where
  "file_descriptor url m = JObj
     [(''type'', JStr ''file''), (''name'', js_get m ''file_name''), (''mime'', js_get m ''mime_type''),
      (''content'', url), (''size'', js_get m ''total_size'')]"

definition unwrapSignedDocument :: "jsval \<Rightarrow> unwrapped" where
  "unwrapSignedDocument decrypted =
     (let plain = \<lparr>un_content = decrypted, un_isSignedDoc = False, un_signedPayload = JNull\<rparr>
      in if \<not> truthy decrypted then plain
         else case json_parse (js_str decrypted) of
             None \<Rightarrow> plain
           | Some parsed \<Rightarrow>
               if \<not> truthy parsed \<or> \<not> truthy (js_get parsed ''signature'') \<or> \<not> truthy (js_get parsed ''signerPublicKey'') \<or>
                  \<not> truthy (js_get parsed ''content'') then plain
               else \<lparr>un_content =
                   (if array_of (js_get parsed ''fileUrls'') \<noteq> None then
                      JStr (json_text (JObj [(''type'', JStr ''files''), (''items'', js_get parsed ''fileUrls'')]))
                    else if truthy (js_get parsed ''fileUrl'') \<and> truthy (js_get parsed ''fileMeta'') then
                      JStr (json_text (file_descriptor (js_get parsed ''fileUrl'') (js_get parsed ''fileMeta'')))
                    else js_get parsed ''content''),
                 un_isSignedDoc = True, un_signedPayload = parsed\<rparr>)"

definition isLocalBlobUrl :: "string \<Rightarrow> jsval \<Rightarrow> bool" where
  "isLocalBlobUrl origin url =
     (case url of JStr u \<Rightarrow> starts_with u (''blob:'' @ origin @ ''/'') | _ \<Rightarrow> False)"

text \<open>Whether there are many, and the files.\<close>

definition readFileDescriptor :: "string \<Rightarrow> jsval \<Rightarrow> (bool \<times> jsval list) option" where
  "readFileDescriptor origin content =
     (if \<not> truthy content then None
      else case json_parse (js_str content) of
          None \<Rightarrow> None
        | Some parsed \<Rightarrow>
            if js_get parsed ''type'' = JStr ''files'' \<and> array_of (js_get parsed ''items'') \<noteq> None then
              (let items = the (array_of (js_get parsed ''items''))
               in if list_all (\<lambda>f. isLocalBlobUrl origin (js_get f ''content'')) items then Some (True, items) else None)
            else if js_get parsed ''type'' = JStr ''file'' \<and> isLocalBlobUrl origin (js_get parsed ''content'') then
              Some (False, [JObj [(''name'', js_get parsed ''name''), (''mime'', js_get parsed ''mime''),
                (''content'', js_get parsed ''content''), (''size'', js_get parsed ''size'')]])
            else None)"

subsection \<open>Titles\<close>

definition SECRET_MARKER :: string where
  "SECRET_MARKER = ''encv1:''"

definition GROUP_MARKER :: string where
  "GROUP_MARKER = ''encg1:''"

definition LOCKED_TITLE :: string where
  "LOCKED_TITLE = ''Encrypted''"

definition isEncryptedTitle :: "jsval \<Rightarrow> bool" where
  "isEncryptedTitle name =
     (case name of JStr t \<Rightarrow> starts_with t SECRET_MARKER \<or> starts_with t GROUP_MARKER | _ \<Rightarrow> False)"

definition encryptSecretTitle :: "prims \<Rightarrow> bytes \<Rightarrow> string \<Rightarrow> jsval \<Rightarrow> string res" where
  "encryptSecretTitle P iv name fileKey =
     bind_res (encryptSymmetric P iv name fileKey) (\<lambda>e. Ok (SECRET_MARKER @ json_text e))"

text \<open>What follows the marker of a name that has one; \<open>Ok None\<close> for a name without.\<close>

definition marked :: "string \<Rightarrow> jsval \<Rightarrow> string option res" where
  "marked marker name =
     (case name of
        JStr t \<Rightarrow> Ok (if starts_with t marker then Some (drop (length marker) t) else None)
      | v \<Rightarrow> if truthy v then Throw (JsTypeError ''name.startsWith is not a function'') else Ok None)"

definition name_or_empty :: "jsval \<Rightarrow> jsval" where
  "name_or_empty v = (if is_nullish v then JStr [] else v)"

definition decryptSecretTitle :: "prims \<Rightarrow> jsval \<Rightarrow> jsval \<Rightarrow> jsval res" where
  "decryptSecretTitle P name fileKey =
     bind_res (marked SECRET_MARKER name) (\<lambda>m. case m of
         None \<Rightarrow> Ok (name_or_empty name)
       | Some t \<Rightarrow>
           if \<not> truthy fileKey then Ok JNull
           else recovered JNull (bind_res (parse_json t) (\<lambda>e. map_sum id JStr (decryptSymmetric P e fileKey))))"

subsection \<open>Names of groups\<close>

record name_target =
  nt_address :: string
  nt_key :: jsval

fun name_keys :: "'w outside \<Rightarrow> jsval \<Rightarrow> name_target list \<Rightarrow> (string \<times> jsval) list \<Rightarrow> ('w, (string \<times> jsval) list) op" where
  "name_keys O' nameKey [] keys = ret keys"
| "name_keys O' nameKey (m # ms) keys =
     (if \<not> truthy (nt_key m) then name_keys O' nameKey ms keys
      else andThen (drawn O') (\<lambda>d.
           andThen (lift_res (wrapSessionKey (ou_prims O') (dr_seal d) nameKey (nt_key m))) (\<lambda>w.
             name_keys O' nameKey ms (obj_put (to_lower (nt_address m)) w keys))))"

definition encryptGroupName :: "'w outside \<Rightarrow> string \<Rightarrow> name_target list \<Rightarrow> ('w, string) op" where
  "encryptGroupName O' name members =
     andThen (drawn O') (\<lambda>d.
       let nameKey = JStr (generateSessionKey (dr_bytes d))
       in andThen (drawn O') (\<lambda>d.
          andThen (lift_res (encryptWithSessionKey (ou_prims O') (snd (dr_seal d)) name nameKey)) (\<lambda>ct.
          andThen (name_keys O' nameKey members []) (\<lambda>keys.
            ret (GROUP_MARKER @ json_text (JObj [(''ct'', ct), (''keys'', JObj keys)]))))))"

definition group_blob :: "string \<Rightarrow> jsval res" where
  "group_blob t =
     bind_res (parse_json t) (\<lambda>b. if is_nullish b then Throw (JsTypeError ''Cannot destructure property'') else Ok b)"

definition groupNameWrapFor :: "jsval \<Rightarrow> string \<Rightarrow> jsval res" where
  "groupNameWrapFor name myAddress =
     bind_res (marked GROUP_MARKER name) (\<lambda>m. case m of
         None \<Rightarrow> Ok JNull
       | Some t \<Rightarrow> recovered JNull (bind_res (group_blob t) (\<lambda>b.
           let w = js_get (js_get b ''keys'') (to_lower myAddress) in Ok (if truthy w then w else JNull))))"

definition decryptGroupName :: "prims \<Rightarrow> jsval \<Rightarrow> jsval \<Rightarrow> jsval res" where
  "decryptGroupName P name nameKey =
     bind_res (marked GROUP_MARKER name) (\<lambda>m. case m of
         None \<Rightarrow> Ok (name_or_empty name)
       | Some t \<Rightarrow>
           if \<not> truthy nameKey then Ok JNull
           else recovered JNull (bind_res (group_blob t) (\<lambda>b. map_sum id JStr (decryptWithSessionKey P (js_get b ''ct'') nameKey))))"

subsection \<open>The group names of the messenger\<close>

type_synonym name_cache = "(string \<times> jsval) list"

definition or_locked :: "jsval \<Rightarrow> jsval" where
  "or_locked v = (if is_nullish v then JStr LOCKED_TITLE else v)"

definition first_of :: "jsval \<Rightarrow> jsval res" where
  "first_of v = (case v of
      JArr [] \<Rightarrow> Ok JUndef
    | JArr (x # xs) \<Rightarrow> Ok x
    | _ \<Rightarrow> Throw OutOfModel)"

definition resolveChannelName :: "'w outside \<Rightarrow> string \<Rightarrow> jsval \<Rightarrow> name_cache \<Rightarrow> ('w, jsval \<times> name_cache) op" where
  "resolveChannelName O' myAddress channel cache =
     (let name = js_get channel ''name''
      in if \<not> isEncryptedTitle name then ret (name_or_empty name, cache)
         else andThen (lift_res (groupNameWrapFor name myAddress)) (\<lambda>wrap.
           if wrap = JNull then ret (JStr LOCKED_TITLE, cache)
           else andThen (case map_of cache (json_text wrap) of
               Some key \<Rightarrow> ret (key, cache)
             | None \<Rightarrow>
                 andThen (tries (andThen (pqc_unwrapMany O' [wrap]) (\<lambda>r. andThen (lift_res (first_of r)) (\<lambda>k. ret (if truthy k then k else JNull))))
                   (\<lambda>_. ret JNull)) (\<lambda>key. ret (key, obj_put (json_text wrap) key cache))) (\<lambda>(key, cache).
             andThen (lift_res (decryptGroupName (ou_prims O') name key)) (\<lambda>plain. ret (or_locked plain, cache)))))"

text \<open>Names whose key is not in the cache are unwrapped in one batch first.\<close>

definition pending_wraps :: "string \<Rightarrow> name_cache \<Rightarrow> jsval list \<Rightarrow> jsval list res" where
  "pending_wraps myAddress cache groups =
     bind_res (map_res (\<lambda>g. let name = js_get (js_get g ''channel'') ''name''
         in if isEncryptedTitle name then groupNameWrapFor name myAddress else Ok JNull) groups) (\<lambda>wraps.
       Ok (filter (\<lambda>w. w \<noteq> JNull \<and> map_of cache (json_text w) = None) wraps))"

fun cache_keys :: "jsval list \<Rightarrow> jsval list \<Rightarrow> name_cache \<Rightarrow> name_cache" where
  "cache_keys (w # ws) ks cache =
     cache_keys ws (tl ks) (obj_put (json_text w) (case ks of k # _ \<Rightarrow> if truthy k then k else JNull | [] \<Rightarrow> JNull) cache)"
| "cache_keys [] ks cache = cache"

definition warm_names :: "'w outside \<Rightarrow> string \<Rightarrow> jsval list \<Rightarrow> name_cache \<Rightarrow> ('w, name_cache) op" where
  "warm_names O' myAddress groups cache =
     andThen (lift_res (pending_wraps myAddress cache groups)) (\<lambda>pending.
       if pending = [] then ret cache
       else tries (andThen (pqc_unwrapMany O' pending) (\<lambda>r.
              andThen (lift_res (opt_res OutOfModel (array_of r))) (\<lambda>ks. ret (cache_keys pending ks cache))))
            (\<lambda>_. ret (cache_keys pending [] cache)))"

fun resolve_each :: "'w outside \<Rightarrow> string \<Rightarrow> jsval list \<Rightarrow> name_cache \<Rightarrow> ('w, jsval list \<times> name_cache) op" where
  "resolve_each O' myAddress [] cache = ret ([], cache)"
| "resolve_each O' myAddress (g # gs) cache =
     andThen (resolveChannelName O' myAddress (js_get g ''channel'') cache) (\<lambda>(name, cache).
     andThen (resolve_each O' myAddress gs cache) (\<lambda>(names, cache). ret (name # names, cache)))"

text \<open>The names shown, group by group, and the cache.\<close>

definition resolveGroupNames :: "'w outside \<Rightarrow> string \<Rightarrow> jsval list \<Rightarrow> name_cache \<Rightarrow> ('w, jsval list \<times> name_cache) op" where
  "resolveGroupNames O' myAddress groups cache =
     andThen (warm_names O' myAddress groups cache) (resolve_each O' myAddress groups)"

definition gate_recipient :: "'w outside \<Rightarrow> contact \<Rightarrow> ('w, unit) op" where
  "gate_recipient O' c =
     andThen (drawn O') (\<lambda>d s.
       case assertSafeRecipient (ou_prims O') (ws_trust (cl_vault s)) (we_now (dr_env d)) c of
         (S, r) \<Rightarrow> (map_sum id (\<lambda>_. ()) r, s\<lparr>cl_vault := (cl_vault s)\<lparr>ws_trust := S\<rparr>\<rparr>))"

text \<open>A member is a contact with an address; the user is not gated.\<close>

fun name_targets :: "'w outside \<Rightarrow> string \<Rightarrow> contact list \<Rightarrow> ('w, name_target list) op" where
  "name_targets O' me [] = ret []"
| "name_targets O' me (m # ms) =
     andThen (lift_res (opt_res (JsTypeError ''Cannot read properties of undefined'') (ct_address m))) (\<lambda>a.
       if to_lower a = to_lower me then name_targets O' me ms
       else andThen (gate_recipient O' m) (\<lambda>_.
            andThen (name_targets O' me ms) (\<lambda>ts. ret (\<lparr>nt_address = a, nt_key = ct_encryptionKey m\<rparr> # ts))))"

definition buildGroupNameBlob :: "'w outside \<Rightarrow> string \<Rightarrow> jsval \<Rightarrow> jsval \<Rightarrow> string \<Rightarrow> contact list \<Rightarrow> ('w, string) op" where
  "buildGroupNameBlob O' myAddress userKey ownEncryptionKey plainName members =
     andThen (name_targets O' myAddress members) (\<lambda>targets.
       encryptGroupName O' plainName
         (\<lparr>nt_address = myAddress, nt_key = (if truthy userKey then userKey else ownEncryptionKey)\<rparr> # targets))"

end
