(* ===== verification/WebMultisig.thy ===== *)
theory WebMultisig
  imports WebFiles WebContent
begin

text \<open>
  Multi-signature workflows: \<open>components/multisig/\<close> (decryptWorkflow, signWorkflow, proof) and the
  creation of \<open>MultisigCreateModal.jsx\<close>. A workflow is the JSON the server sends. A blob URL made of
  downloaded chunks is the blob; saving the proof is its JSON and the name of the file. The text of a
  date is given. What a screen catches and shows is the operation's error.
\<close>

subsection \<open>Rows\<close>

definition rows_of :: "string \<Rightarrow> jsval \<Rightarrow> jsval list res" where
  "rows_of what v = opt_res (JsTypeError (what @ '' is not a function'')) (array_of v)"

text \<open>\<open>rows.find(r => r.field === x)\<close>.\<close>

fun find_row :: "string \<Rightarrow> jsval \<Rightarrow> jsval list \<Rightarrow> jsval res" where
  "find_row field x [] = Ok JUndef"
| "find_row field x (r # rs) =
     (if is_nullish r then Throw (JsTypeError ''Cannot read properties of null'')
      else if strict_eq (js_get r field) x then Ok r else find_row field x rs)"

subsection \<open>Opening a workflow's secret\<close>

record role =
  ro_owner :: bool
  ro_signer :: bool
  ro_recipient :: bool

definition key_of_row :: "string \<Rightarrow> jsval \<Rightarrow> jsval \<Rightarrow> jsval res" where
  "key_of_row what address rows =
     bind_res (rows_of what rows) (\<lambda>rs.
     bind_res (find_row ''user_address'' address rs) (\<lambda>r.
       Ok (if truthy r then js_get r ''encrypted_key'' else JNull)))"

definition resolveMyEncryptedKey :: "jsval \<Rightarrow> jsval \<Rightarrow> role \<Rightarrow> jsval res" where
  "resolveMyEncryptedKey wk address role =
     (if ro_owner role then
        Ok (if truthy (js_get wk ''owner_encrypted_key'') then js_get wk ''owner_encrypted_key''
            else if truthy (js_get wk ''secret'') \<and> truthy (js_get (js_get wk ''secret'') ''encrypted_key'')
            then js_get (js_get wk ''secret'') ''encrypted_key'' else JNull)
      else if ro_signer role then key_of_row ''workflow.signers.find'' address (js_get wk ''signers'')
      else if ro_recipient role \<and> js_get wk ''status'' = JStr ''completed'' then
        key_of_row ''workflow.recipients.find'' address (js_get wk ''recipients'')
      else Ok JNull)"

text \<open>The content and the file key.\<close>

definition decryptWorkflowSecret :: "'w outside \<Rightarrow> jsval \<Rightarrow> jsval \<Rightarrow> role \<Rightarrow> ('w, string \<times> jsval) op" where
  "decryptWorkflowSecret O' wk address role =
     andThen (guards (js_get wk ''secret_id'' \<noteq> JUndef) (PlainError ''Invalid workflow data: missing secret ID'')) (\<lambda>_.
     andThen (lift_res (resolveMyEncryptedKey wk address role)) (\<lambda>myKey.
     andThen (guards (truthy myKey) (PlainError ''Access denied: no key found for your user.'')) (\<lambda>_.
     let blob = js_get (js_get wk ''secret'') ''encrypted_data''
     in andThen (guards (truthy blob) (PlainError ''Secret content not found in workflow.'')) (\<lambda>_.
        andThen (lift_res (parse_json (js_str myKey))) (\<lambda>env.
        andThen (pqc_decrypt O' env) (\<lambda>fileKey.
        andThen (lift_res (parse_json (js_str blob))) (\<lambda>encData.
        andThen (lift_res (decryptSymmetric (ou_prims O') encData fileKey)) (\<lambda>content.
          ret (content, fileKey)))))))))"

datatype doc_status = Unsigned_doc | Failed_doc | Verified_doc | Mismatch_doc

record shown_file =
  sf_name :: jsval
  sf_mime :: jsval
  sf_content :: blob
  sf_size :: jsval

datatype shown = Shown jsval | Shown_files "shown_file list" | Shown_file shown_file

record interpreted =
  ip_status :: doc_status
  ip_matchesOwner :: bool
  ip_signer :: "string option"
  ip_signature :: jsval
  ip_signedContent :: jsval
  ip_raw :: string
  ip_content :: shown

definition shown_of :: "jsval \<Rightarrow> blob \<Rightarrow> shown_file" where
  "shown_of m b = \<lparr>sf_name = js_get m ''file_name'', sf_mime = js_get m ''mime_type'', sf_content = b, sf_size = js_get m ''total_size''\<rparr>"

fun download_all :: "'w outside \<Rightarrow> jsval \<Rightarrow> jsval \<Rightarrow> jsval list \<Rightarrow> ('w, shown_file list) op" where
  "download_all O' secretId fileKey [] = ret []"
| "download_all O' secretId fileKey (m # ms) =
     andThen (guards (\<not> is_nullish m) (JsTypeError ''Cannot read properties of null'')) (\<lambda>_.
     andThen (downloadFileByRange O' secretId fileKey (js_get m ''chunk_offset'') (js_get m ''total_chunks'') (js_get m ''mime_type'')) (\<lambda>b.
     andThen (download_all O' secretId fileKey ms) (\<lambda>rest. ret (shown_of m b # rest))))"

definition inner_content :: "'w outside \<Rightarrow> jsval \<Rightarrow> jsval \<Rightarrow> jsval \<Rightarrow> ('w, shown) op" where
  "inner_content O' secretId fileKey content =
     andThen (lift_res (parse_json (js_str content))) (\<lambda>inner.
     andThen (guards (\<not> is_nullish inner) (JsTypeError ''Cannot read properties of null'')) (\<lambda>_.
       case array_of (js_get inner ''files'') of
         Some ms \<Rightarrow> tries (map_op Shown_files (download_all O' secretId fileKey ms)) (\<lambda>_. ret (Shown inner))
       | None \<Rightarrow>
           if truthy (js_get inner ''total_chunks'') \<and> truthy (js_get inner ''file_name'') then
             tries (map_op (\<lambda>b. Shown_file (shown_of inner b))
                 (downloadChunkedFile O' secretId fileKey (js_get inner ''total_chunks'') (js_get inner ''mime_type'')))
               (\<lambda>_. ret (Shown inner))
           else ret (Shown inner)))"

definition lower_or_empty :: "jsval \<Rightarrow> string res" where
  "lower_or_empty v =
     (if \<not> truthy v then Ok []
      else opt_res (JsTypeError ''toLowerCase is not a function'') (map_option to_lower (the_str v)))"

definition is_signed_wrapper :: "jsval \<Rightarrow> bool" where
  "is_signed_wrapper parsed \<longleftrightarrow>
     truthy parsed \<and> truthy (js_get parsed ''signature'') \<and> truthy (js_get parsed ''signerPublicKey'')"

definition interpretDecryptedContent :: "'w outside \<Rightarrow> string \<Rightarrow> jsval \<Rightarrow> jsval \<Rightarrow> ('w, interpreted) op" where
  "interpretDecryptedContent O' contentString fileKey wk =
     (let parsed = (case json_parse contentString of None \<Rightarrow> JUndef | Some v \<Rightarrow> v)
      in if \<not> is_signed_wrapper parsed then
           ret \<lparr>ip_status = Unsigned_doc, ip_matchesOwner = False, ip_signer = None, ip_signature = JNull, ip_signedContent = JNull,
                ip_raw = contentString, ip_content = Shown (if truthy parsed then parsed else JStr contentString)\<rparr>
         else case verifySignedDocument (ou_prims O') parsed of (valid, signer) \<Rightarrow>
           andThen (lift_res (lower_or_empty (js_get wk ''owner_address''))) (\<lambda>owner.
           let holds = owner \<noteq> [] \<and> signer = Some owner
           in andThen (tries (inner_content O' (js_get wk ''secret_id'') fileKey (js_get parsed ''content''))
                  (\<lambda>_. ret (Shown (js_get parsed ''content'')))) (\<lambda>content.
              ret \<lparr>ip_status = (if \<not> valid then Failed_doc else if holds then Verified_doc else Mismatch_doc),
                   ip_matchesOwner = holds, ip_signer = signer, ip_signature = js_get parsed ''signature'',
                   ip_signedContent = js_get parsed ''content'', ip_raw = contentString, ip_content = content\<rparr>)))"

subsection \<open>Approving a workflow\<close>

definition SHARED_WITH :: "'w outside \<Rightarrow> string" where
  "SHARED_WITH O' = ou_base O' @ ''/secrets/shared-with-me''"

definition SIGN :: "'w outside \<Rightarrow> jsval \<Rightarrow> string" where
  "SIGN O' wid = ou_base O' @ ''/multisig/workflow/'' @ js_str wid @ ''/sign''"

definition fetch_list :: "'w outside \<Rightarrow> string \<Rightarrow> ('w, jsval list) op" where
  "fetch_list O' url = fetchAllPages (\<lambda>limit offset. apiFetch O' ''GET'' (pageUrl url limit offset) None) PAGE_SIZE"

definition shared_key :: "'w outside \<Rightarrow> jsval \<Rightarrow> ('w, jsval) op" where
  "shared_key O' wk =
     tries (andThen (fetch_list O' (SHARED_WITH O')) (\<lambda>shared.
       andThen (lift_res (find_row ''secret_id'' (js_get wk ''secret_id'') shared)) (\<lambda>share.
         ret (if truthy share then js_get share ''encrypted_key'' else JNull))))
     (\<lambda>_. ret JNull)"

definition signing_key :: "'w outside \<Rightarrow> jsval \<Rightarrow> jsval \<Rightarrow> ('w, jsval) op" where
  "signing_key O' wk address =
     andThen (lift_res (rows_of ''workflow.signers.find'' (js_get wk ''signers''))) (\<lambda>signers.
     andThen (lift_res (find_row ''user_address'' address signers)) (\<lambda>mine.
       if truthy mine \<and> truthy (js_get mine ''encrypted_key'') then ret (js_get mine ''encrypted_key'') else shared_key O' wk))"

definition open_file_key :: "'w outside \<Rightarrow> jsval \<Rightarrow> ('w, jsval) op" where
  "open_file_key O' encryptedKey =
     tries (andThen (lift_res (parse_json (js_str encryptedKey))) (\<lambda>env.
       andThen (pqc_decrypt O' env) (\<lambda>k.
         ret (case json_parse (js_str k) of Some (JStr t) \<Rightarrow> JStr t | _ \<Rightarrow> k))))
     (\<lambda>_. fail (PlainError ''Failed to decrypt your access key''))"

definition signed_count :: "jsval list \<Rightarrow> nat res" where
  "signed_count signers =
     bind_res (map_res (\<lambda>s. if is_nullish s then Throw (JsTypeError ''Cannot read properties of null'')
         else Ok (truthy (js_get s ''has_signed''))) signers) (\<lambda>bs. Ok (length (filter (\<lambda>b. b) bs)))"

definition quorum_of :: "jsval \<Rightarrow> nat \<Rightarrow> int res" where
  "quorum_of threshold n =
     (if \<not> truthy threshold then Ok (int n) else opt_res OutOfModel (the_int threshold))"

definition some_rows :: "jsval \<Rightarrow> jsval list res" where
  "some_rows v = (case v of JArr rs \<Rightarrow> Ok rs | JStr t \<Rightarrow> if t = [] then Ok [] else Throw OutOfModel | _ \<Rightarrow> Ok [])"

text \<open>\<open>{ ...user, address }\<close> as the gate reads it.\<close>

definition contact_js :: "jsval \<Rightarrow> jsval \<Rightarrow> contact res" where
  "contact_js user address =
     bind_res (if is_nullish address then Ok None else bind_res (opt_res OutOfModel (the_str address)) (\<lambda>a. Ok (Some a))) (\<lambda>a.
       Ok \<lparr>ct_address = a, ct_username = (if truthy (js_get user ''username'') then js_str (js_get user ''username'') else []),
           ct_encryptionKey = js_get user ''encryption_public_key'', ct_attestation = js_get user ''encryption_key_attestation'',
           ct_identityKey = js_get user ''identity_public_key''\<rparr>)"

definition secureEncrypt :: "'w outside \<Rightarrow> jsval \<Rightarrow> jsval \<Rightarrow> ('w, jsval) op" where
  "secureEncrypt O' content publicKey =
     andThen (lift_res (opt_res OutOfModel (the_str content))) (\<lambda>c.
     andThen (lift_res (if truthy publicKey then bind_res (opt_res OutOfModel (the_str publicKey)) (\<lambda>k. Ok (Some k)) else Ok None)) (\<lambda>k.
       map_op (\<lambda>e. JStr (json_text e)) (pqc_encrypt O' c k)))"

definition release_one :: "'w outside \<Rightarrow> jsval \<Rightarrow> jsval \<Rightarrow> ('w, jsval) op" where
  "release_one O' fileKey r =
     catches (andThen (lift_res (contact_js (js_get r ''user'') (js_get r ''user_address''))) (\<lambda>c.
       andThen (gate_recipient O' c) (\<lambda>_. secureEncrypt O' fileKey (js_get (js_get r ''user'') ''encryption_public_key''))))
     (\<lambda>e. if e = OutOfModel then fail e
          else fail (PlainError (''Failed to encrypt for recipient '' @
            js_str (if truthy (js_get (js_get r ''user'') ''username'') then js_get (js_get r ''user'') ''username'' else js_get r ''user_address'') @
            '': '' @ err_msg e)))"

fun release_keys :: "'w outside \<Rightarrow> jsval \<Rightarrow> jsval list \<Rightarrow> (string \<times> jsval) list \<Rightarrow> ('w, (string \<times> jsval) list) op" where
  "release_keys O' fileKey [] keys = ret keys"
| "release_keys O' fileKey (r # rs) keys =
     andThen (guards (\<not> is_nullish r) (JsTypeError ''Cannot read properties of null'')) (\<lambda>_.
       if \<not> truthy (js_get (js_get r ''user'') ''encryption_public_key'') then release_keys O' fileKey rs keys
       else andThen (release_one O' fileKey r) (\<lambda>k.
            release_keys O' fileKey rs (obj_put (js_str (js_get r ''user_address'')) k keys)))"

definition completes :: "jsval \<Rightarrow> bool res" where
  "completes wk =
     bind_res (rows_of ''workflow.signers.filter'' (js_get wk ''signers'')) (\<lambda>signers.
     bind_res (signed_count signers) (\<lambda>signed.
     bind_res (quorum_of (js_get wk ''threshold'') (length signers)) (\<lambda>quorum.
       Ok (quorum \<le> int signed + 1))))"

definition signMultisigWorkflow :: "'w outside \<Rightarrow> jsval \<Rightarrow> jsval \<Rightarrow> ('w, jsval) op" where
  "signMultisigWorkflow O' wk address =
     andThen (signing_key O' wk address) (\<lambda>encryptedKey.
     andThen (guards (truthy encryptedKey) (PlainError ''Access denied: No key found for signing'')) (\<lambda>_.
     andThen (open_file_key O' encryptedKey) (\<lambda>fileKey.
     let blob = js_get (js_get wk ''secret'') ''encrypted_data''
     in andThen (guards (truthy blob) (PlainError ''Secret content not found to sign.'')) (\<lambda>_.
        andThen (lift_res (parse_json (js_str blob))) (\<lambda>encData.
        andThen (lift_res (decryptSymmetric (ou_prims O') encData fileKey)) (\<lambda>_.
        andThen (signApproval O' (js_get wk ''id'') (js_get wk ''secret_id'') (sha384Hex (ou_prims O') (js_str blob))) (\<lambda>signature.
        andThen (lift_res (completes wk)) (\<lambda>completing.
        andThen (if completing then lift_res (some_rows (js_get wk ''recipients'')) else ret []) (\<lambda>recipients.
        andThen (if recipients = [] then ret JNull else map_op JObj (release_keys O' fileKey recipients [])) (\<lambda>keys.
          apiFetch O' ''POST'' (SIGN O' (js_get wk ''id''))
            (Some (JObj [(''signature'', signature), (''recipient_keys'', keys)]))))))))))))"

subsection \<open>Creating a workflow\<close>

text \<open>The form of \<open>MultisigCreateModal\<close>: a text, or files.\<close>

record workflow_form =
  fm_name :: string
  fm_content :: "string + local_file list"
  fm_signers :: "contact list"
  fm_recipients :: "contact list"
  fm_threshold :: nat

definition form_complete :: "workflow_form \<Rightarrow> bool" where
  "form_complete f \<longleftrightarrow> fm_name f \<noteq> [] \<and> fm_signers f \<noteq> [] \<and>
     (case fm_content f of Inl text' \<Rightarrow> text' \<noteq> [] | Inr fs \<Rightarrow> fs \<noteq> [])"

definition MULTISIG_CREATE :: "'w outside \<Rightarrow> string" where
  "MULTISIG_CREATE O' = ou_base O' @ ''/multisig/workflow''"

definition address_js :: "contact \<Rightarrow> jsval" where
  "address_js c = (case ct_address c of None \<Rightarrow> JUndef | Some a \<Rightarrow> JStr a)"

text \<open>The file key for each contact that has an encryption key, past the attestation gate.\<close>

fun wrap_each :: "'w outside \<Rightarrow> jsval \<Rightarrow> contact list \<Rightarrow> (string \<times> jsval) list \<Rightarrow> ('w, (string \<times> jsval) list) op" where
  "wrap_each O' fileKey [] keys = ret keys"
| "wrap_each O' fileKey (c # cs) keys =
     (if \<not> truthy (ct_encryptionKey c) then wrap_each O' fileKey cs keys
      else andThen (gate_recipient O' c) (\<lambda>_.
           andThen (secureEncrypt O' fileKey (ct_encryptionKey c)) (\<lambda>k.
             wrap_each O' fileKey cs (obj_put (js_str (address_js c)) k keys))))"

definition signed_payload :: "'w outside \<Rightarrow> string \<Rightarrow> ('w, string) op" where
  "signed_payload O' rawContent =
     andThen (pqc_sign O' (domainSeparate CTX_CONTENT rawContent)) (\<lambda>signature.
     andThen (reads cl_identityKey) (\<lambda>key.
       ret (json_text (JObj [(''content'', JStr rawContent), (''signature'', signature), (''signerPublicKey'', opt_js key)]))))"

definition sealed_text :: "'w outside \<Rightarrow> string \<Rightarrow> jsval \<Rightarrow> ('w, string) op" where
  "sealed_text O' content fileKey =
     andThen (drawn O') (\<lambda>d. map_op json_text (lift_res (encryptSymmetric (ou_prims O') (snd (dr_seal d)) content fileKey)))"

definition sealed_title :: "'w outside \<Rightarrow> string \<Rightarrow> jsval \<Rightarrow> ('w, string) op" where
  "sealed_title O' name fileKey =
     andThen (drawn O') (\<lambda>d. lift_res (encryptSecretTitle (ou_prims O') (snd (dr_seal d)) name fileKey))"

definition fresh_file_key :: "'w outside \<Rightarrow> ('w, jsval) op" where
  "fresh_file_key O' = andThen (drawn O') (\<lambda>d. ret (JStr (generateSymmetricKey (dr_bytes d))))"

definition upload_selected ::
  "'w outside \<Rightarrow> (web_response \<Rightarrow> string) \<Rightarrow> local_file list \<Rightarrow> jsval \<Rightarrow> jsval \<Rightarrow> ('w, jsval) op" where
  "upload_selected O' body_text fs secretId fileKey =
     (case fs of
        [] \<Rightarrow> ret JUndef
      | [f] \<Rightarrow> uploadChunkedFile O' body_text f secretId fileKey
      | _ \<Rightarrow> uploadMultipleChunkedFiles O' body_text fs secretId fileKey)"

definition workflow_request ::
  "workflow_form \<Rightarrow> string \<Rightarrow> string \<Rightarrow> jsval \<Rightarrow> (string \<times> jsval) list \<Rightarrow> (string \<times> jsval) list \<Rightarrow> jsval" where
  "workflow_request f title encryptedData keyForMe signerKeys recipientKeys = JObj
     [(''name'', JStr (fm_name f)),
      (''secret_data'', JObj
        [(''name'', JStr title), (''type'', JStr ''signed_document''), (''encrypted_data'', JStr encryptedData), (''encrypted_key'', keyForMe)]),
      (''signers'', JArr (map address_js (fm_signers f))), (''recipients'', JArr (map address_js (fm_recipients f))),
      (''signer_keys'', JObj signerKeys), (''recipient_keys'', JObj recipientKeys),
      (''threshold'', JNum (int (min (max (fm_threshold f) 1) (length (fm_signers f)))))]"

definition raw_content :: "prims \<Rightarrow> workflow_form \<Rightarrow> string" where
  "raw_content P f = (case fm_content f of Inl text' \<Rightarrow> text' | Inr fs \<Rightarrow> buildFileMetadata P True fs)"

definition createWorkflow :: "'w outside \<Rightarrow> (web_response \<Rightarrow> string) \<Rightarrow> workflow_form \<Rightarrow> ('w, jsval) op" where
  "createWorkflow O' body_text f =
     andThen (guards (form_complete f) (PlainError ''Please complete all fields. You must add at least one signer.'')) (\<lambda>_.
     andThen (\<lambda>s. guards (some_key (cl_account s) \<noteq> None) (PlainError ''You must be logged in to create a multisig workflow.'') s) (\<lambda>_.
     andThen (signed_payload O' (raw_content (ou_prims O') f)) (\<lambda>payload.
     andThen (fresh_file_key O') (\<lambda>fileKey.
     andThen (sealed_text O' payload fileKey) (\<lambda>encryptedData.
     andThen (\<lambda>s. secureEncrypt O' fileKey (opt_js (cl_encryptionKey s)) s) (\<lambda>keyForMe.
     andThen (wrap_each O' fileKey (fm_signers f) []) (\<lambda>signerKeys.
     andThen (wrap_each O' fileKey (fm_recipients f) []) (\<lambda>recipientKeys.
     andThen (sealed_title O' (fm_name f) fileKey) (\<lambda>title.
     andThen (apiFetch O' ''POST'' (MULTISIG_CREATE O')
       (Some (workflow_request f title encryptedData keyForMe signerKeys recipientKeys))) (\<lambda>created.
     andThen (case fm_content f of
         Inl _ \<Rightarrow> ret JUndef
       | Inr fs \<Rightarrow>
           if is_nullish created then fail (JsTypeError ''Cannot read properties of null'')
           else upload_selected O' body_text fs (js_get created ''secret_id'') fileKey) (\<lambda>_.
       ret created)))))))))))"

end
