(* ===== verification/WebSecrets.thy ===== *)
theory WebSecrets
  imports WebMultisig
begin

text \<open>
  The secrets of the dashboard: \<open>hooks/useSecrets.js\<close>, and the sharing dialog over it
  (\<open>components/dashboard/ShareModal.jsx\<close>). What the hook keeps (the two lists, what is shown
  decrypted, the cache of file keys) is a record around the client. The url the browser makes for a
  blob is a parameter; progress reports and timers of the progress bar are left out.
\<close>

subsection \<open>The state of the hook\<close>

record 'w secrets_page =
  sp_client :: "'w client"
  sp_secrets :: "jsval list"
  sp_shared :: "jsval list"
  sp_loading :: bool
  sp_decrypted :: "(string \<times> jsval) list"
  sp_keys :: "(string \<times> jsval) list"

type_synonym ('w, 'a) page_op = "('w secrets_page, 'a) act"

definition on_client :: "('w, 'a) op \<Rightarrow> ('w, 'a) page_op" where
  "on_client m = (\<lambda>p. case m (sp_client p) of (r, c) \<Rightarrow> (r, p\<lparr>sp_client := c\<rparr>))"

definition learn_key :: "jsval \<Rightarrow> jsval \<Rightarrow> ('w, unit) page_op" where
  "learn_key blob key = updates (\<lambda>p. p\<lparr>sp_keys := obj_put (js_str blob) key (sp_keys p)\<rparr>)"

subsection \<open>Titles of the lists\<close>

text \<open>\<open>getName\<close> of the two lists: the title of a grant is on its secret.\<close>

definition title_of :: "bool \<Rightarrow> jsval \<Rightarrow> jsval" where
  "title_of shared it = (if shared then js_get (js_get it ''secret'') ''name'' else js_get it ''name'')"

definition pending_blobs :: "bool \<Rightarrow> (string \<times> jsval) list \<Rightarrow> jsval list \<Rightarrow> jsval list res" where
  "pending_blobs shared keys its =
     bind_res (map_res (\<lambda>it. if is_nullish it then Throw (JsTypeError ''Cannot read properties of null'') else Ok it) its) (\<lambda>its.
       Ok (map (\<lambda>it. js_get it ''encrypted_key'') (filter (\<lambda>it. isEncryptedTitle (title_of shared it) \<and>
         truthy (js_get it ''encrypted_key'') \<and> map_of keys (js_str (js_get it ''encrypted_key'')) = None) its)))"

definition usable_key :: "jsval \<Rightarrow> jsval" where
  "usable_key k = (if truthy k \<and> \<not> starts_with (js_str k) ''Error'' then k else JNull)"

fun store_keys :: "jsval list \<Rightarrow> jsval list \<Rightarrow> (string \<times> jsval) list \<Rightarrow> (string \<times> jsval) list" where
  "store_keys (b # bs) ks keys =
     store_keys bs (tl ks) (obj_put (js_str b) (case ks of k # _ \<Rightarrow> usable_key k | [] \<Rightarrow> JNull) keys)"
| "store_keys [] ks keys = keys"

definition learn_pending :: "'w outside \<Rightarrow> jsval list \<Rightarrow> ('w, unit) page_op" where
  "learn_pending O' pending =
     (if pending = [] then ret ()
      else tries (andThen (lift_res (map_res (\<lambda>b. parse_json (js_str b)) pending)) (\<lambda>envs.
           andThen (on_client (pqc_decryptMany O' envs)) (\<lambda>r.
           andThen (lift_res (opt_res OutOfModel (array_of r))) (\<lambda>ks.
             updates (\<lambda>p. p\<lparr>sp_keys := store_keys pending ks (sp_keys p)\<rparr>)))))
         (\<lambda>_. updates (\<lambda>p. p\<lparr>sp_keys := store_keys pending [] (sp_keys p)\<rparr>)))"

definition with_member :: "jsval \<Rightarrow> string \<Rightarrow> jsval \<Rightarrow> jsval res" where
  "with_member v k x = (case v of JObj kvs \<Rightarrow> Ok (JObj (obj_put k x kvs)) | _ \<Rightarrow> Throw OutOfModel)"

definition titled :: "prims \<Rightarrow> (string \<times> jsval) list \<Rightarrow> bool \<Rightarrow> jsval \<Rightarrow> jsval res" where
  "titled P keys shared it =
     (let name = title_of shared it
      in if \<not> isEncryptedTitle name then with_member it ''display_name'' name
         else bind_res (case map_of keys (js_str (js_get it ''encrypted_key'')) of
                None \<Rightarrow> Ok JNull
              | Some key \<Rightarrow> if truthy key then decryptSecretTitle P name key else Ok JNull) (\<lambda>plain.
              with_member it ''display_name'' (or_locked plain)))"

definition resolveTitles :: "'w outside \<Rightarrow> bool \<Rightarrow> jsval list \<Rightarrow> ('w, jsval list) page_op" where
  "resolveTitles O' shared its =
     andThen (\<lambda>p. lift_res (pending_blobs shared (sp_keys p) its) p) (\<lambda>pending.
     andThen (learn_pending O' pending) (\<lambda>_.
       (\<lambda>p. lift_res (map_res (titled (ou_prims O') (sp_keys p) shared) its) p)))"

definition SECRETS :: "'w outside \<Rightarrow> string" where
  "SECRETS O' = ou_base O' @ ''/secrets''"

definition fetchSecrets :: "'w outside \<Rightarrow> ('w, unit) page_op" where
  "fetchSecrets O' =
     andThen (tries (andThen (on_client (fetch_list O' (SECRETS O'))) (\<lambda>data.
       andThen (resolveTitles O' False data) (\<lambda>rows. updates (\<lambda>p. p\<lparr>sp_secrets := rows\<rparr>)))) (\<lambda>_. ret ())) (\<lambda>_.
       updates (\<lambda>p. p\<lparr>sp_loading := False\<rparr>))"

definition fetchSharedSecrets :: "'w outside \<Rightarrow> ('w, unit) page_op" where
  "fetchSharedSecrets O' =
     tries (andThen (on_client (fetch_list O' (SHARED_WITH O'))) (\<lambda>data.
       andThen (resolveTitles O' True data) (\<lambda>rows. updates (\<lambda>p. p\<lparr>sp_shared := rows\<rparr>)))) (\<lambda>_. ret ())"

subsection \<open>Opening a secret\<close>

definition secureDecrypt :: "'w outside \<Rightarrow> jsval \<Rightarrow> ('w, jsval) op" where
  "secureDecrypt O' encrypted = andThen (lift_res (parse_json (js_str encrypted))) (pqc_decrypt O')"

text \<open>\<open>x > 0\<close> on numbers and booleans.\<close>

definition positive :: "jsval \<Rightarrow> bool res" where
  "positive v = (case v of JNum n \<Rightarrow> Ok (0 < n) | JBool b \<Rightarrow> Ok b | _ \<Rightarrow> Throw OutOfModel)"

definition shown_js :: "(blob \<Rightarrow> string) \<Rightarrow> shown_file \<Rightarrow> jsval" where
  "shown_js url f = JObj
     [(''name'', sf_name f), (''mime'', sf_mime f), (''content'', JStr (url (sf_content f))), (''size'', sf_size f)]"

text \<open>The description of chunked files: the document itself, or what a signed document wraps. \<open>None\<close>
  for anything else.\<close>

definition files_result :: "(blob \<Rightarrow> string) \<Rightarrow> jsval option \<Rightarrow> jsval \<Rightarrow> shown_file list \<Rightarrow> string res" where
  "files_result url outer m fs =
     (let items = JArr (map (shown_js url) fs)
      in case outer of
          Some d \<Rightarrow> bind_res (with_member d ''fileUrls'' items) (\<lambda>d. bind_res (with_member d ''fileMeta'' m) (\<lambda>d. Ok (json_text d)))
        | None \<Rightarrow> Ok (json_text (JObj [(''type'', JStr ''files''), (''items'', items), (''chunked'', JBool True)])))"

definition file_result :: "(blob \<Rightarrow> string) \<Rightarrow> jsval option \<Rightarrow> jsval \<Rightarrow> blob \<Rightarrow> string res" where
  "file_result url outer m b =
     (case outer of
        Some d \<Rightarrow> bind_res (with_member d ''fileUrl'' (JStr (url b))) (\<lambda>d. bind_res (with_member d ''fileMeta'' m) (\<lambda>d. Ok (json_text d)))
      | None \<Rightarrow> Ok (json_text (JObj
          [(''type'', JStr ''file''), (''name'', js_get m ''file_name''), (''mime'', js_get m ''mime_type''), (''content'', JStr (url b)),
           (''chunked'', JBool True), (''size'', js_get m ''total_size'')])))"

definition not_null :: "jsval \<Rightarrow> unit res" where
  "not_null v = need (\<not> is_nullish v) (JsTypeError ''Cannot read properties of null'')"

definition chunked_result :: "(blob \<Rightarrow> string) \<Rightarrow> 'w outside \<Rightarrow> jsval \<Rightarrow> jsval \<Rightarrow> string \<Rightarrow> ('w, string option) op" where
  "chunked_result url O' secretId fileKey decrypted =
     tries (andThen (lift_res (parse_json decrypted)) (\<lambda>d.
       andThen (lift_res (not_null d)) (\<lambda>_.
       let signed = truthy (js_get d ''signature'') \<and> truthy (js_get d ''signerPublicKey'') \<and> truthy (js_get d ''content'');
           outer = (if signed then Some d else None)
       in andThen (if signed then lift_res (parse_json (js_str (js_get d ''content''))) else ret d) (\<lambda>m.
          andThen (lift_res (not_null m)) (\<lambda>_.
            case array_of (js_get m ''files'') of
              Some ms \<Rightarrow> andThen (download_all O' secretId fileKey ms) (\<lambda>fs. map_op Some (lift_res (files_result url outer m fs)))
            | None \<Rightarrow>
                if \<not> truthy (js_get m ''total_chunks'') then ret None
                else andThen (lift_res (positive (js_get m ''total_chunks''))) (\<lambda>pos.
                  if \<not> pos \<or> \<not> truthy (js_get m ''file_name'') then ret None
                  else andThen (downloadChunkedFile O' secretId fileKey (js_get m ''total_chunks'') (js_get m ''mime_type'')) (\<lambda>b.
                    map_op Some (lift_res (file_result url outer m b)))))))))
     (\<lambda>_. ret None)"

text \<open>\<open>atob\<close> in full: white space is dropped, padding is optional, odd lengths are refused.\<close>

definition atob_any :: "string \<Rightarrow> bytes option" where
  "atob_any s =
     (let t = filter (\<lambda>c. \<not> is_ws c) s;
          t = (if length t mod 4 = 0 then unpadded t else t)
      in if length t mod 4 = 1 \<or> \<not> list_all is_b64 t then None else Some (b64_bytes t))"

text \<open>A file kept as a data url, from before chunks.\<close>

definition legacy_blob :: "string \<Rightarrow> blob option" where
  "legacy_blob c =
     (let head = takeWhile (\<lambda>x. x \<noteq> CHR '','') c;
          tail = (if CHR '','' \<in> set c then takeWhile (\<lambda>x. x \<noteq> CHR '','') (drop (length head + 1) c) else ''undefined'')
      in map_option (\<lambda>bs. \<lparr>bl_bytes = bs,
             bl_type = JStr (takeWhile (\<lambda>x. x \<noteq> CHR '';'') (takeWhile (\<lambda>x. x \<noteq> CHR '':'') (drop 5 head)))\<rparr>)
           (atob_any tail))"

definition legacy_result :: "(blob \<Rightarrow> string) \<Rightarrow> string \<Rightarrow> string option" where
  "legacy_result url decrypted =
     (case json_parse decrypted of
        Some (JObj kvs) \<Rightarrow>
          (case (map_of kvs ''type'', map_of kvs ''content'') of
             (Some (JStr ty), Some (JStr c)) \<Rightarrow>
               if ty = ''file'' \<and> starts_with c ''data:'' then
                 map_option (\<lambda>b. json_text (JObj (obj_put ''chunked'' (JBool False) (obj_put ''content'' (JStr (url b)) kvs)))) (legacy_blob c)
               else None
           | _ \<Rightarrow> None)
      | _ \<Rightarrow> None)"

definition shown_under :: "jsval \<Rightarrow> bool \<Rightarrow> string" where
  "shown_under row shared = (if shared then ''shared_'' @ js_str (js_get row ''id'') else js_str (js_get row ''id''))"

definition show_secret :: "jsval \<Rightarrow> bool \<Rightarrow> string \<Rightarrow> ('w, string) page_op" where
  "show_secret row shared result =
     andThen (updates (\<lambda>p. p\<lparr>sp_decrypted := obj_put (shown_under row shared) (JStr result) (sp_decrypted p)\<rparr>)) (\<lambda>_. ret result)"

definition SECRET :: "'w outside \<Rightarrow> jsval \<Rightarrow> string" where
  "SECRET O' sid = ou_base O' @ ''/secrets/'' @ js_str sid"

definition open_secret :: "(blob \<Rightarrow> string) \<Rightarrow> 'w outside \<Rightarrow> jsval \<Rightarrow> bool \<Rightarrow> ('w, string) page_op" where
  "open_secret url O' row shared =
     andThen (lift_res (not_null row)) (\<lambda>_.
     let blob = js_get row ''encrypted_key''
     in andThen (guards (truthy blob) (PlainError ''Missing encryption key. Legacy secrets are not supported.'')) (\<lambda>_.
        andThen (on_client (secureDecrypt O' blob)) (\<lambda>fileKey.
        andThen (learn_key blob fileKey) (\<lambda>_.
        andThen (if shared then lift_res (not_null (js_get row ''secret'')) else ret ()) (\<lambda>_.
        let secretId = (if shared then js_get (js_get row ''secret'') ''id'' else js_get row ''id'')
        in andThen (on_client (apiFetch O' ''GET'' (SECRET O' secretId) None)) (\<lambda>found.
           andThen (lift_res (not_null found)) (\<lambda>_.
           andThen (lift_res (parse_json (js_str (js_get found ''encrypted_data'')))) (\<lambda>enc.
           andThen (lift_res (decryptSymmetric (ou_prims O') enc fileKey)) (\<lambda>decrypted.
           andThen (on_client (chunked_result url O' secretId fileKey decrypted)) (\<lambda>r.
             show_secret row shared (case r of
                 Some t \<Rightarrow> t
               | None \<Rightarrow> (case legacy_result url decrypted of Some t \<Rightarrow> t | None \<Rightarrow> decrypted))))))))))))"

definition web_handleDecrypt :: "(blob \<Rightarrow> string) \<Rightarrow> 'w outside \<Rightarrow> jsval \<Rightarrow> bool \<Rightarrow> ('w, string) page_op" where
  "web_handleDecrypt url O' row shared =
     tries (open_secret url O' row shared) (\<lambda>e. fail (PlainError (''Decryption failed: '' @ err_msg e)))"

definition handleLock :: "jsval \<Rightarrow> bool \<Rightarrow> 'w secrets_page \<Rightarrow> 'w secrets_page" where
  "handleLock row shared p = p\<lparr>sp_decrypted := obj_del (shown_under row shared) (sp_decrypted p)\<rparr>"

subsection \<open>Making, sharing and removing secrets\<close>

definition secret_request :: "string \<Rightarrow> string \<Rightarrow> string \<Rightarrow> jsval \<Rightarrow> jsval" where
  "secret_request title type' encryptedData encryptedKey = JObj
     [(''name'', JStr title), (''type'', JStr type'), (''encrypted_data'', JStr encryptedData), (''encrypted_key'', encryptedKey)]"

definition createSecret ::
  "'w outside \<Rightarrow> (web_response \<Rightarrow> string) \<Rightarrow> jsval \<Rightarrow> string \<Rightarrow> string \<Rightarrow> string \<Rightarrow> bool \<Rightarrow> local_file list \<Rightarrow> ('w, bool) page_op" where
  "createSecret O' body_text encryptionPublicKey name type' rawContent isSigned fs =
     andThen (on_client (fresh_file_key O')) (\<lambda>fileKey.
     let payload = (if fs = [] then rawContent else buildFileMetadata (ou_prims O') isSigned fs)
     in andThen (if isSigned then on_client (signed_payload O' payload) else ret payload) (\<lambda>payload.
        andThen (on_client (sealed_text O' payload fileKey)) (\<lambda>encryptedData.
        andThen (on_client (secureEncrypt O' fileKey encryptionPublicKey)) (\<lambda>keyForMe.
        andThen (learn_key keyForMe fileKey) (\<lambda>_.
        andThen (on_client (sealed_title O' name fileKey)) (\<lambda>title.
        andThen (on_client (apiFetch O' ''POST'' (SECRETS O')
          (Some (secret_request title (if isSigned then ''signed_document'' else type') encryptedData keyForMe)))) (\<lambda>created.
        andThen (if fs = [] then ret ()
          else andThen (lift_res (not_null created)) (\<lambda>_.
               andThen (on_client (upload_selected O' body_text fs (js_get created ''id'') fileKey)) (\<lambda>_. ret ()))) (\<lambda>_.
        andThen (fetchSecrets O') (\<lambda>_. ret True)))))))))"

definition rowsWithout :: "jsval \<Rightarrow> jsval list \<Rightarrow> jsval list" where
  "rowsWithout rid rows = filter (\<lambda>r. \<not> strict_eq (js_get r ''id'') rid) rows"

definition deleteSecret :: "'w outside \<Rightarrow> jsval \<Rightarrow> ('w, bool) page_op" where
  "deleteSecret O' sid =
     andThen (on_client (apiRaw O' ''DELETE'' (SECRET O' sid) None)) (\<lambda>res.
     andThen (if rs_ok res then updates (\<lambda>p. p\<lparr>sp_secrets := rowsWithout sid (sp_secrets p)\<rparr>) else ret ()) (\<lambda>_.
       ret (rs_ok res)))"

definition SHARE :: "'w outside \<Rightarrow> string" where
  "SHARE O' = ou_base O' @ ''/secrets/share''"

text \<open>A key that is a text needs 60 characters; any other truthy value has no length to compare.\<close>

definition long_enough :: "jsval \<Rightarrow> bool" where
  "long_enough key \<longleftrightarrow> truthy key \<and> (case key of JStr k \<Rightarrow> 60 \<le> length k | _ \<Rightarrow> True)"

definition share_request :: "jsval \<Rightarrow> jsval \<Rightarrow> jsval \<Rightarrow> int \<Rightarrow> jsval" where
  "share_request secretId address key expiry = JObj
     [(''secret_id'', secretId), (''grantee_address'', address), (''encrypted_key'', key),
      (''expires_in'', if 0 < expiry then JNum expiry else JNull)]"

definition shareSecret :: "'w outside \<Rightarrow> jsval \<Rightarrow> jsval \<Rightarrow> jsval \<Rightarrow> jsval \<Rightarrow> int \<Rightarrow> ('w, bool) page_op" where
  "shareSecret O' secretId originalEncryptedKey recipientAddress recipientPublicKey expiry =
     andThen (on_client (secureDecrypt O' originalEncryptedKey)) (\<lambda>fileKey.
     andThen (guards (long_enough recipientPublicKey) (PlainError ''Recipient has no post-quantum encryption key.'')) (\<lambda>_.
     andThen (on_client (secureEncrypt O' fileKey recipientPublicKey)) (\<lambda>key.
     andThen (on_client (apiRaw O' ''POST'' (SHARE O') (Some (share_request secretId recipientAddress key expiry)))) (\<lambda>res.
       ret (rs_ok res)))))"

definition revokeGrant :: "'w outside \<Rightarrow> jsval \<Rightarrow> bool \<Rightarrow> ('w, bool) page_op" where
  "revokeGrant O' grantId isSharedView =
     andThen (on_client (apiRaw O' ''DELETE'' (SHARE O' @ ''/'' @ js_str grantId) None)) (\<lambda>res.
     andThen (if rs_ok res \<and> isSharedView then updates (\<lambda>p. p\<lparr>sp_shared := rowsWithout grantId (sp_shared p)\<rparr>) else ret ()) (\<lambda>_.
       ret (rs_ok res)))"

subsection \<open>The sharing dialog\<close>

text \<open>The recipient picked, and the two verdicts on its key: the pin is looked up as the recipient is
  picked, the attestation is verified beside and stored when it is done.\<close>

record share_dialog =
  sd_recipient :: "contact option"
  sd_keyStatus :: key_state
  sd_attStatus :: attestation
  sd_expiry :: int

definition fresh_dialog :: share_dialog where
  "fresh_dialog = \<lparr>sd_recipient = None, sd_keyStatus = Unchanged, sd_attStatus = Unattested, sd_expiry = 0\<rparr>"

definition pick_recipient :: "trust_stores \<Rightarrow> contact option \<Rightarrow> share_dialog \<Rightarrow> share_dialog" where
  "pick_recipient S c d = d\<lparr>sd_recipient := c, sd_keyStatus :=
     (case c of None \<Rightarrow> Unchanged | Some c \<Rightarrow> checkContactKey S (ct_address c) (ct_encryptionKey c))\<rparr>"

definition verdict_arrives :: "prims \<Rightarrow> int \<Rightarrow> trust_stores \<Rightarrow> share_dialog \<Rightarrow> trust_stores \<times> share_dialog" where
  "verdict_arrives P now S d =
     (case sd_recipient d of
        None \<Rightarrow> (S, d)
      | Some c \<Rightarrow> (case attestationVerdict P S now c of (S', v) \<Rightarrow> (S', d\<lparr>sd_attStatus := v\<rparr>)))"

text \<open>Closing the dialog forgets the recipient and the pin's verdict.\<close>

definition close_dialog :: "share_dialog \<Rightarrow> share_dialog" where
  "close_dialog d = d\<lparr>sd_recipient := None, sd_keyStatus := Unchanged\<rparr>"

datatype share_outcome = Nothing_to_share | Share_blocked string | Share_declined | Share_done | Share_failed string

definition handleShare :: "'w outside \<Rightarrow> bool \<Rightarrow> jsval \<Rightarrow> share_dialog \<Rightarrow> ('w, share_dialog \<times> share_outcome) page_op" where
  "handleShare O' proceed secret d =
     (case sd_recipient d of
        None \<Rightarrow> ret (d, Nothing_to_share)
      | Some c \<Rightarrow>
          if \<not> truthy secret then ret (d, Nothing_to_share)
          else if sd_attStatus d = Invalid then ret (d, Share_blocked ''This recipient's encryption key failed verification against their identity.'')
          else if sd_attStatus d = Downgraded then ret (d, Share_blocked ''This recipient was previously verified, but their key is now served with no attestation.'')
          else if sd_keyStatus d = Changed \<and> \<not> proceed then ret (d, Share_declined)
          else tries (andThen (shareSecret O' (js_get secret ''id'') (js_get secret ''encrypted_key'') (address_js c) (ct_encryptionKey c) (sd_expiry d)) (\<lambda>ok.
              if ok then andThen (on_client (andThen (drawn O') (\<lambda>dr. updates (\<lambda>s. s\<lparr>cl_vault := (cl_vault s)\<lparr>ws_trust :=
                     trustContactKey (ws_trust (cl_vault s)) (we_now (dr_env dr)) (ct_address c) (ct_encryptionKey c)\<rparr>\<rparr>)))) (\<lambda>_.
                     ret (d\<lparr>sd_keyStatus := Unchanged\<rparr>, Share_done))
              else ret (d, Share_failed ''Share failed. Please try again.'')))
            (\<lambda>e. ret (d, Share_failed (if err_msg e = [] then ''Share failed.'' else err_msg e))))"

end
