(* ===== verification/JsonPretty.thy ===== *)
theory JsonPretty
  imports WebBackup
begin

text \<open>
  The indented text of \<open>JSON.stringify(v, null, 2)\<close> reads back as the value: plain backups and
  exported proofs are written in it.
\<close>

subsection \<open>White space between tokens\<close>

abbreviation ws_text :: "string \<Rightarrow> bool" where
  "ws_text w \<equiv> list_all is_ws w"

lemma skip_ws_append: "ws_text w \<Longrightarrow> skip_ws (w @ s) = skip_ws s"
  by (induction w) (simp_all add: skip_ws_def)

lemma expect_append: "ws_text w \<Longrightarrow> expect c (w @ s) = expect c s"
  by (simp add: expect_def skip_ws_append)

lemma p_val_append: "ws_text w \<Longrightarrow> p_val n (w @ s) = p_val n s"
  by (cases n) (simp_all add: skip_ws_append)

lemma p_arr_append: "ws_text w \<Longrightarrow> p_arr n (w @ s) = p_arr n s"
  by (cases n) (simp_all add: p_val_append)

lemma p_obj_append: "ws_text w \<Longrightarrow> p_obj n (w @ s) = p_obj n s"
  by (cases n) (simp_all add: expect_append)

lemma pad_ws: "ws_text (nl # replicate k CHR '' '')"
  by (simp add: is_ws_def list_all_iff)

lemma tail_ok_ws: "ws_text w \<Longrightarrow> tail_ok r \<Longrightarrow> tail_ok (w @ r)"
  by (cases w) (auto simp: tail_ok_def)

subsection \<open>Values\<close>

lemma pretty_head: "\<exists>c cs. json_pretty d v = c # cs \<and> starts_value c"
proof (cases v)
  case (JNum i)
  then show ?thesis using int_str_head [of i] is_digit_starts_value by (force simp: starts_value_def is_ws_def)
qed (auto simp: starts_value_def is_ws_def json_quote_def Let_def)

lemma expect_pretty: "c \<in> {CHR '']'', CHR ''}'', CHR '',''} \<Longrightarrow> expect c (json_pretty d v @ r) = None"
  using pretty_head [of d v] by (auto simp: expect_def skip_ws_def starts_value_def)

definition member_pretty :: "nat \<Rightarrow> string \<times> jsval \<Rightarrow> string" where
  "member_pretty d = (\<lambda>(k, v). json_quote k @ '': '' @ json_pretty d v)"

text \<open>One round of nesting.\<close>

lemma p_arr_pretty:
  assumes val: "\<And>v r. js_pure v \<Longrightarrow> size v < n \<Longrightarrow> tail_ok r \<Longrightarrow> p_val n (json_pretty d v @ r) = Some (v, r)"
    and arr: "\<And>vs. vs \<noteq> [] \<Longrightarrow> \<forall>v\<in>set vs. js_pure v \<and> size v + length vs < n \<Longrightarrow>
      p_arr n (join (CHR '','' # pad) (map (json_pretty d) vs) @ stop @ CHR '']'' # r) = Some (vs, r)"
    and ws: "ws_text pad" "ws_text stop"
    and vs: "vs \<noteq> []" "\<forall>v\<in>set vs. js_pure v \<and> size v + length vs < Suc n"
  shows "p_arr (Suc n) (join (CHR '','' # pad) (map (json_pretty d) vs) @ stop @ CHR '']'' # r) = Some (vs, r)"
proof (cases vs)
  case (Cons v us)
  with vs(2) have v: "js_pure v" "size v < n" by auto
  show ?thesis
  proof (cases "us = []")
    case True
    then show ?thesis
      using val [OF v tail_ok_ws [OF ws(2)], of "CHR '']'' # r"] Cons ws(2) by (simp add: expect_append)
  next
    case False
    have "\<forall>w\<in>set us. js_pure w \<and> size w + length us < n" using vs(2) Cons by auto
    then show ?thesis
      using val [OF v, of "CHR '','' # pad @ join (CHR '','' # pad) (map (json_pretty d) us) @ stop @ CHR '']'' # r"]
        arr [OF False] Cons False ws(1) by (simp add: join_Cons p_arr_append)
  qed
qed (use vs in simp)

lemma p_obj_pretty:
  assumes val: "\<And>v r. js_pure v \<Longrightarrow> size v < n \<Longrightarrow> tail_ok r \<Longrightarrow> p_val n (json_pretty d v @ r) = Some (v, r)"
    and obj: "\<And>kvs. kvs \<noteq> [] \<Longrightarrow> \<forall>(k, v)\<in>set kvs. js_pure v \<and> size v + length kvs < n \<Longrightarrow>
      p_obj n (join (CHR '','' # pad) (map (member_pretty d) kvs) @ stop @ CHR ''}'' # r) = Some (kvs, r)"
    and ws: "ws_text pad" "ws_text stop"
    and kvs: "kvs \<noteq> []" "\<forall>(k, v)\<in>set kvs. js_pure v \<and> size v + length kvs < Suc n"
  shows "p_obj (Suc n) (join (CHR '','' # pad) (map (member_pretty d) kvs) @ stop @ CHR ''}'' # r) = Some (kvs, r)"
proof (cases kvs)
  case (Cons kv ms)
  obtain k v where kv: "kv = (k, v)" by (cases kv)
  with Cons kvs(2) have v: "js_pure v" "size v < n" by auto
  have sp: "p_val n (CHR '' '' # s) = p_val n s" for s using p_val_append [of "'' ''" n s] by (simp add: is_ws_def)
  show ?thesis
  proof (cases "ms = []")
    case True
    then show ?thesis
      using val [OF v tail_ok_ws [OF ws(2)], of "CHR ''}'' # r"] Cons kv ws(2)
      by (simp add: member_pretty_def json_quote_def p_str_quote sp expect_append)
  next
    case False
    have "\<forall>(k, v)\<in>set ms. js_pure v \<and> size v + length ms < n" using kvs(2) Cons by auto
    then show ?thesis
      using val [OF v, of "CHR '','' # pad @ join (CHR '','' # pad) (map (member_pretty d) ms) @ stop @ CHR ''}'' # r"]
        obj [OF False] Cons kv False ws(1)
      by (simp add: join_Cons member_pretty_def json_quote_def p_str_quote sp p_obj_append)
  qed
qed (use kvs in simp)

lemma pretty_obj:
  "js_pure (JObj kvs) \<Longrightarrow> kvs \<noteq> [] \<Longrightarrow> json_pretty d (JObj kvs) =
     CHR ''{'' # (nl # replicate (2 * Suc d) CHR '' '') @ join (CHR '','' # nl # replicate (2 * Suc d) CHR '' '') (map (member_pretty (Suc d)) kvs) @
       (nl # replicate (2 * d) CHR '' '') @ ''}''"
proof -
  assume p: "js_pure (JObj kvs)" and n: "kvs \<noteq> []"
  have "filter (\<lambda>(k, v). v \<noteq> JUndef) kvs = kvs" using p by (auto intro!: filter_True dest: pure_not_undef)
  then show ?thesis using n by (simp add: member_pretty_def Let_def)
qed

lemma p_val_open_arr:
  "p_val (Suc n) (CHR ''['' # s) = (case expect (CHR '']'') s of
     Some r \<Rightarrow> Some (JArr [], r) | None \<Rightarrow> map_option (\<lambda>(vs, r). (JArr vs, r)) (p_arr n s))"
  by (simp add: skip_ws_def is_ws_def not_word_start)

lemma p_val_open_obj:
  "p_val (Suc n) (CHR ''{'' # s) = (case expect (CHR ''}'') s of
     Some r \<Rightarrow> Some (JObj [], r) | None \<Rightarrow> map_option (\<lambda>(kvs, r). (JObj (obj_of_list kvs), r)) (p_obj n s))"
  by (simp add: skip_ws_def is_ws_def not_word_start)

lemma p_val_pretty:
  "(js_pure v \<longrightarrow> size v < n \<longrightarrow> tail_ok r \<longrightarrow> p_val n (json_pretty d v @ r) = Some (v, r)) \<and>
   (ws_text pad \<longrightarrow> ws_text stop \<longrightarrow> vs \<noteq> [] \<longrightarrow> (\<forall>v\<in>set vs. js_pure v \<and> size v + length vs < n) \<longrightarrow>
      p_arr n (join (CHR '','' # pad) (map (json_pretty d) vs) @ stop @ CHR '']'' # r) = Some (vs, r)) \<and>
   (ws_text pad \<longrightarrow> ws_text stop \<longrightarrow> kvs \<noteq> [] \<longrightarrow> (\<forall>(k, v)\<in>set kvs. js_pure v \<and> size v + length kvs < n) \<longrightarrow>
      p_obj n (join (CHR '','' # pad) (map (member_pretty d) kvs) @ stop @ CHR ''}'' # r) = Some (kvs, r))"
proof (induction n arbitrary: v r d vs kvs pad stop)
  case 0
  show ?case by (cases vs; cases kvs) auto
next
  case (Suc n)
  note IHv = Suc.IH [THEN conjunct1, rule_format]
  note IHa = Suc.IH [THEN conjunct2, THEN conjunct1, rule_format]
  note IHo = Suc.IH [THEN conjunct2, THEN conjunct2, rule_format]
  let ?pad = "nl # replicate (2 * Suc d) CHR '' ''" and ?stop = "nl # replicate (2 * d) CHR '' ''"
  have val: "p_val (Suc n) (json_pretty d v @ r) = Some (v, r)"
    if v: "js_pure v" "size v < Suc n" "tail_ok r"
  proof (cases v)
    case (JArr ws)
    show ?thesis
    proof (cases "ws = []")
      case True
      then show ?thesis using JArr by (simp add: p_val_open_arr del: p_val.simps)
    next
      case False
      have "p_arr n (join (CHR '','' # ?pad) (map (json_pretty (Suc d)) ws) @ ?stop @ CHR '']'' # r) = Some (ws, r)"
        using False v JArr size_arr_bound [of _ ws] by (intro IHa pad_ws) (auto, fastforce)
      then have a: "p_arr n (?pad @ join (CHR '','' # ?pad) (map (json_pretty (Suc d)) ws) @ ?stop @ CHR '']'' # r) = Some (ws, r)"
        by (simp only: p_arr_append [OF pad_ws])
      obtain u us where u: "ws = u # us" using False by (cases ws) auto
      have "expect (CHR '']'') (?pad @ join (CHR '','' # ?pad) (map (json_pretty (Suc d)) ws) @ ?stop @ CHR '']'' # r) = None"
        unfolding expect_append [OF pad_ws] u list.map join_Cons by (simp add: expect_pretty)
      then show ?thesis using a JArr False by (simp add: p_val_open_arr Let_def del: p_val.simps)
    qed
  next
    case (JObj ms)
    show ?thesis
    proof (cases "ms = []")
      case True
      then show ?thesis using JObj by (simp add: p_val_open_obj del: p_val.simps)
    next
      case False
      have "p_obj n (join (CHR '','' # ?pad) (map (member_pretty (Suc d)) ms) @ ?stop @ CHR ''}'' # r) = Some (ms, r)"
        using False v JObj size_obj_bound [of _ _ ms] by (intro IHo pad_ws) (auto, fastforce)
      then have a: "p_obj n (?pad @ join (CHR '','' # ?pad) (map (member_pretty (Suc d)) ms) @ ?stop @ CHR ''}'' # r) = Some (ms, r)"
        by (simp only: p_obj_append [OF pad_ws])
      obtain u us where u: "ms = u # us" using False by (cases ms) auto
      have e: "expect (CHR ''}'') (?pad @ join (CHR '','' # ?pad) (map (member_pretty (Suc d)) ms) @ ?stop @ CHR ''}'' # r) = None"
        unfolding expect_append [OF pad_ws] u list.map join_Cons by (cases u) (simp add: member_pretty_def json_quote_def)
      have "obj_of_list ms = ms" using v(1) JObj by (simp add: obj_of_list_distinct)
      moreover have "json_pretty d v = CHR ''{'' # ?pad @ join (CHR '','' # ?pad) (map (member_pretty (Suc d)) ms) @ ?stop @ ''}''"
        using pretty_obj [of ms d] v(1) JObj False by blast
      ultimately show ?thesis using a e JObj by (simp add: p_val_open_obj del: p_val.simps)
    qed
  qed (use v p_val_text [of v "Suc n" r "[]" "[]"] in simp_all)
  show ?case
  proof (intro conjI impI)
    show "p_arr (Suc n) (join (CHR '','' # pad) (map (json_pretty d) vs) @ stop @ CHR '']'' # r) = Some (vs, r)"
      if "ws_text pad" "ws_text stop" "vs \<noteq> []" "\<forall>v\<in>set vs. js_pure v \<and> size v + length vs < Suc n"
      by (rule p_arr_pretty [OF IHv _ that], assumption+) (rule Suc.IH [THEN conjunct2, THEN conjunct1, THEN mp, THEN mp, THEN mp, THEN mp, OF that(1,2)])
    show "p_obj (Suc n) (join (CHR '','' # pad) (map (member_pretty d) kvs) @ stop @ CHR ''}'' # r) = Some (kvs, r)"
      if "ws_text pad" "ws_text stop" "kvs \<noteq> []" "\<forall>(k, v)\<in>set kvs. js_pure v \<and> size v + length kvs < Suc n"
      by (rule p_obj_pretty [OF IHv _ that], assumption+) (rule Suc.IH [THEN conjunct2, THEN conjunct2, THEN mp, THEN mp, THEN mp, THEN mp, OF that(1,2)])
  qed (rule val)
qed

subsection \<open>The whole text\<close>

lemma length_join_sep: "length (join (CHR '','' # pad) xs) \<ge> length (join '','' xs)"
  by (induction xs) (auto simp: join_Cons)

lemma json_pretty_size: "js_pure v \<Longrightarrow> size v < length (json_pretty d v)"
proof (induction v arbitrary: d)
  case (JNum i)
  then show ?case using int_str_head [of i] by auto
next
  case (JArr vs)
  then show ?case
    using length_join_ge [of vs size "json_pretty (Suc d)"] length_join_sep [of "map (json_pretty (Suc d)) vs" "nl # replicate (2 * Suc d) CHR '' ''"]
    by (cases "vs = []") (auto simp: Let_def)
next
  case (JObj kvs)
  have "size_prod (\<lambda>_. 0) size kv < length (member_pretty (Suc d) kv)" if "kv \<in> set kvs" for kv
  proof -
    obtain k v where kv: "kv = (k, v)" by (cases kv)
    then have "size v < length (json_pretty (Suc d) v)" using JObj that by fastforce
    then show ?thesis using kv by (simp add: member_pretty_def json_quote_def)
  qed
  then show ?case
    using length_join_ge [of kvs "size_prod (\<lambda>_. 0) size" "member_pretty (Suc d)"] pretty_obj [OF JObj.prems, of d]
      length_join_sep [of "map (member_pretty (Suc d)) kvs" "nl # replicate (2 * Suc d) CHR '' ''"]
    by (cases "kvs = []") auto
qed (simp_all add: json_quote_def)

theorem json_parse_pretty: "js_pure v \<Longrightarrow> json_parse (json_pretty d v) = Some v"
proof -
  assume v: "js_pure v"
  have "p_val (Suc (length (json_pretty d v))) (json_pretty d v @ []) = Some (v, [])"
    using json_pretty_size [OF v, of d] by (intro p_val_pretty [THEN conjunct1, rule_format, OF v]) simp_all
  then show ?thesis by (simp add: json_parse_def skip_ws_def)
qed

end
