(* ===== verification/WebProof.thy ===== *)
theory WebProof
  imports WebMultisig JsonPretty
begin

text \<open>
  \<open>components/multisig/proof.js\<close>: the offline proof of a finished workflow, and its audit. The date
  of the export is given; saving the file is its text and its name.
\<close>

definition PROOF_VERSION :: string where
  "PROOF_VERSION = ''3.0''"

definition PROOF_ALGORITHM :: string where
  "PROOF_ALGORITHM = SIGNATURE_ALG"

definition or_null_js :: "jsval \<Rightarrow> jsval" where
  "or_null_js v = (if truthy v then v else JNull)"

subsection \<open>Exporting\<close>

definition proof_entry :: "jsval \<Rightarrow> jsval \<Rightarrow> jsval \<Rightarrow> jsval \<Rightarrow> string \<Rightarrow> jsval" where
  "proof_entry address user signature signedAt role = JObj
     [(''address'', address), (''identity_public_key'', or_null_js (js_get user ''identity_public_key'')),
      (''username'', or_null_js (js_get user ''username'')), (''signature'', signature), (''signed_at'', signedAt),
      (''algorithm'', JStr PROOF_ALGORITHM), (''role'', JStr role)]"

fun signer_entries :: "jsval list \<Rightarrow> jsval list res" where
  "signer_entries [] = Ok []"
| "signer_entries (s # ss) =
     (if is_nullish s then Throw (JsTypeError ''Cannot read properties of null'')
      else bind_res (signer_entries ss) (\<lambda>es.
        Ok (if truthy (js_get s ''has_signed'') \<and> truthy (js_get s ''signature'')
            then proof_entry (js_get s ''user_address'') (js_get s ''user'') (js_get s ''signature'') (js_get s ''signed_at'') ''signer'' # es
            else es)))"

definition multisig_proof :: "prims \<Rightarrow> string \<Rightarrow> jsval \<Rightarrow> jsval list \<Rightarrow> jsval \<Rightarrow> jsval" where
  "multisig_proof P exportedAt wk entries content =
     (let blob = js_get (js_get wk ''secret'') ''encrypted_data''
      in JObj
        [(''type'', JStr ''kryptolog_multisig_proof''), (''version'', JStr PROOF_VERSION), (''exported_at'', JStr exportedAt),
         (''workflow'', JObj
           [(''id'', js_get wk ''id''), (''name'', js_get wk ''name''), (''status'', js_get wk ''status''),
            (''created_at'', js_get wk ''created_at''), (''secret_id'', js_get wk ''secret_id'')]),
         (''document'', JObj
           [(''content'', content),
            (''ciphertext_sha384'', if truthy blob then JStr (sha384Hex P (js_str blob)) else JNull)]),
         (''signatures'', JArr entries)])"

definition file_char :: "char \<Rightarrow> char" where
  "file_char c = (if is_lower c \<or> is_upper c \<or> is_digit c \<or> c = CHR ''_'' \<or> c = CHR ''-'' then c else CHR ''_'')"

text \<open>The text of the file and its name.\<close>

definition downloadMultisigProof ::
  "prims \<Rightarrow> string \<Rightarrow> jsval \<Rightarrow> jsval \<Rightarrow> jsval \<Rightarrow> string \<Rightarrow> doc_status \<Rightarrow> (string \<times> string) res" where
  "downloadMultisigProof P exportedAt wk creatorSignature creatorSignedContent rawDecryptedContent status =
     (if truthy creatorSignature \<and> status \<noteq> Verified_doc then Throw (PlainError
        (''Refusing to export a proof: the creator's signature does not verify against this workflow's owner. '' @
         ''Exporting it would attribute the document to someone the signature does not name.''))
      else
        bind_res (opt_res (JsTypeError ''workflow.signers is not iterable'') (array_of (js_get wk ''signers''))) (\<lambda>signers.
        bind_res (signer_entries signers) (\<lambda>es.
        let entries = (if truthy creatorSignature
              then proof_entry (js_get wk ''owner_address'') (js_get wk ''owner'') creatorSignature (js_get wk ''created_at'') ''creator'' # es
              else es);
            content = (if truthy creatorSignedContent then creatorSignedContent else JStr rawDecryptedContent)
        in bind_res (opt_res (JsTypeError ''workflow.name.replace is not a function'') (the_str (js_get wk ''name''))) (\<lambda>name.
             Ok (json_pretty 0 (multisig_proof P exportedAt wk entries content), map file_char name @ ''.kryptolog-proof.json'')))))"

subsection \<open>Auditing\<close>

definition assertProofVersion :: "jsval \<Rightarrow> unit res" where
  "assertProofVersion p =
     (let version = js_get p ''version''
      in need (starts_with (if is_nullish version then [] else js_str version) ''3.'')
        (FormatError (''This proof was made by an older Kryptolog version (format '' @
          (if is_nullish version then ''unknown'' else js_str version) @ '') and cannot be verified by this one.'')))"

record audited =
  au_publicKey :: jsval
  au_algorithm :: jsval
  au_valid :: bool
  au_username :: jsval
  au_role :: jsval
  au_signedAt :: jsval

definition audit_entry :: "prims \<Rightarrow> string \<Rightarrow> string option \<Rightarrow> jsval \<Rightarrow> audited res" where
  "audit_entry P creatorBody approvalBody entry =
     (let message = (if js_get entry ''role'' = JStr ''signer'' then approvalBody else Some creatorBody)
      in bind_res (case message of
            Some m \<Rightarrow>
              if js_get entry ''algorithm'' = JStr PROOF_ALGORITHM then
                bind_res (lower_or_empty (js_get entry ''address'')) (\<lambda>a.
                  Ok (verifyIdentitySignature P (JStr a) (js_get entry ''identity_public_key'') m (js_get entry ''signature'')))
              else Ok False
          | None \<Rightarrow> Ok False) (\<lambda>valid.
         Ok \<lparr>au_publicKey = js_get entry ''address'', au_algorithm = js_get entry ''algorithm'', au_valid = valid,
             au_username = or_null_js (js_get entry ''username''), au_role = js_get entry ''role'', au_signedAt = js_get entry ''signed_at''\<rparr>))"

definition verifyMultisigProofSignatures :: "prims \<Rightarrow> jsval \<Rightarrow> audited list res" where
  "verifyMultisigProofSignatures P p =
     (if is_nullish p then Throw (JsTypeError ''Cannot read properties of null'')
      else let document = js_get p ''document''; workflow = js_get p ''workflow'';
               creatorBody = domainSeparate CTX_CONTENT (js_str (js_get document ''content''));
               digest = js_get document ''ciphertext_sha384''
        in bind_res (assertProofVersion p) (\<lambda>_.
           let approvalBody = (if is_nullish digest then None
                 else Some (multisigApprovalMessage (js_str (js_get workflow ''id'')) (js_str (js_get workflow ''secret_id'')) (js_str digest)))
           in bind_res (if \<not> truthy (js_get p ''signatures'') then Ok []
                else opt_res (JsTypeError ''signatures is not iterable'') (array_of (js_get p ''signatures''))) (\<lambda>entries.
              map_res (\<lambda>e. if is_nullish e then Throw (JsTypeError ''Cannot read properties of null'')
                else audit_entry P creatorBody approvalBody e) entries)))"

end
