(* ===== verification/WebWork.thy ===== *)
theory WebWork
  imports WebProof
begin

text \<open>
  Facts about workflows: what an exported proof holds and how its audit reads it, and what the creator
  of a workflow seals, which every signer opens.
\<close>

subsection \<open>Values out of JSON\<close>

lemma js_get_pure: "js_pure v \<Longrightarrow> js_get v k = JUndef \<or> js_pure (js_get v k)"
  by (cases v) (auto split: option.splits dest: map_of_SomeD)

lemma or_null_pure: "js_pure v \<Longrightarrow> js_pure (or_null_js (js_get v k))"
  using js_get_pure [of v k] by (auto simp: or_null_js_def)

lemma js_get_undef [simp]: "js_get JUndef k = JUndef"
  by simp

lemma or_null_user: "js_pure s \<Longrightarrow> js_pure (or_null_js (js_get (js_get s u) k))"
  using js_get_pure [of s u] or_null_pure [of "js_get s u" k] by (auto simp: or_null_js_def)

lemma fromB64_text: "fromB64 v = Inr bs \<Longrightarrow> \<exists>t. v = JStr t"
  by (cases v) (simp_all add: fromB64.simps)

lemma verified_texts:
  assumes "verifyIdentitySignature P a v msg sig"
  shows "isAddressOf P a v" "\<exists>t. sig = JStr t" "\<exists>t. v = JStr t" "truthy sig" "truthy v"
proof -
  obtain s bs where x: "isAddressOf P a v" "fromB64 sig = Inr s" "v = JStr (toHex bs)" "length bs = 2049"
    using assms unfolding verifyIdentitySignature_iff by blast
  then obtain t where t: "sig = JStr t" using fromB64_text by blast
  show "isAddressOf P a v" "\<exists>t. sig = JStr t" "\<exists>t. v = JStr t" using x(1,3) t by simp_all
  show "truthy sig" using x(2) t by (auto simp: fromB64.simps)
  show "truthy v" using x(3,4) by auto
qed

subsection \<open>The proof's entries\<close>

definition signed_signers :: "jsval list \<Rightarrow> jsval list" where
  "signed_signers ss = filter (\<lambda>s. truthy (js_get s ''has_signed'') \<and> truthy (js_get s ''signature'')) ss"

definition signer_entry :: "jsval \<Rightarrow> jsval" where
  "signer_entry s = proof_entry (js_get s ''user_address'') (js_get s ''user'') (js_get s ''signature'') (js_get s ''signed_at'') ''signer''"

lemma signer_entries_run: "list_all (\<lambda>s. \<not> is_nullish s) ss \<Longrightarrow> signer_entries ss = Inr (map signer_entry (signed_signers ss))"
  by (induction ss) (simp_all add: signed_signers_def signer_entry_def)

lemma proof_entry_fields [simp]:
  "js_get (proof_entry a u g d r) ''address'' = a" "js_get (proof_entry a u g d r) ''role'' = JStr r"
  "js_get (proof_entry a u g d r) ''identity_public_key'' = or_null_js (js_get u ''identity_public_key'')"
  "js_get (proof_entry a u g d r) ''signature'' = g" "js_get (proof_entry a u g d r) ''algorithm'' = JStr PROOF_ALGORITHM"
  "is_nullish (proof_entry a u g d r) = False"
  by (simp_all add: proof_entry_def)

lemma proof_entry_pure:
  "js_pure a \<Longrightarrow> js_pure g \<Longrightarrow> js_pure d \<Longrightarrow> js_pure (or_null_js (js_get u ''identity_public_key'')) \<Longrightarrow>
   js_pure (or_null_js (js_get u ''username'')) \<Longrightarrow> js_pure (proof_entry a u g d r)"
  by (simp add: proof_entry_def)

text \<open>A workflow as the server sends it, with the members a proof copies.\<close>

definition workflow_whole :: "jsval \<Rightarrow> string \<Rightarrow> jsval list \<Rightarrow> bool" where
  "workflow_whole wk name signers \<longleftrightarrow> js_pure wk \<and> js_get wk ''name'' = JStr name \<and> js_get wk ''signers'' = JArr signers \<and>
     (\<forall>k\<in>{''id'', ''status'', ''created_at'', ''secret_id'', ''owner_address''}. js_get wk k \<noteq> JUndef) \<and>
     truthy (js_get (js_get wk ''secret'') ''encrypted_data'') \<and>
     list_all (\<lambda>s. \<not> is_nullish s \<and> js_get s ''user_address'' \<noteq> JUndef \<and> js_get s ''signed_at'' \<noteq> JUndef) signers"

definition approval_text :: "prims \<Rightarrow> jsval \<Rightarrow> string" where
  "approval_text P wk = multisigApprovalMessage (js_str (js_get wk ''id'')) (js_str (js_get wk ''secret_id''))
     (sha384Hex P (js_str (js_get (js_get wk ''secret'') ''encrypted_data'')))"

lemma signer_entry_pure:
  "js_pure s \<Longrightarrow> js_get s ''user_address'' \<noteq> JUndef \<Longrightarrow> js_get s ''signed_at'' \<noteq> JUndef \<Longrightarrow> truthy (js_get s ''signature'') \<Longrightarrow>
   js_pure (signer_entry s)"
  unfolding signer_entry_def using js_get_pure [of s "''user_address''"] js_get_pure [of s "''signed_at''"] js_get_pure [of s "''signature''"] or_null_user [of s]
  by (intro proof_entry_pure) auto

lemma whole_signers_pure: "workflow_whole wk name signers \<Longrightarrow> s \<in> set signers \<Longrightarrow> js_pure s"
  using js_get_pure [of wk "''signers''"] by (auto simp: workflow_whole_def)

lemma proof_pure:
  assumes "js_pure (js_get wk ''id'')" "js_pure (js_get wk ''name'')" "js_pure (js_get wk ''status'')" "js_pure (js_get wk ''created_at'')"
    "js_pure (js_get wk ''secret_id'')" and "\<forall>e\<in>set es. js_pure e"
  shows "js_pure (multisig_proof P date wk es (JStr content))"
  using assms by (simp add: multisig_proof_def Let_def)

lemma exported_proof:
  assumes wk: "workflow_whole wk name signers" and g: "js_pure g" "truthy g" and c: "content \<noteq> []"
  shows "\<exists>text' file' p. downloadMultisigProof P date wk g (JStr content) raw Verified_doc = Inr (text', file') \<and> json_parse text' = Some p \<and>
    \<not> is_nullish p \<and> assertProofVersion p = Inr () \<and>
    js_get (js_get p ''document'') ''content'' = JStr content \<and>
    js_get (js_get p ''document'') ''ciphertext_sha384'' = JStr (sha384Hex P (js_str (js_get (js_get wk ''secret'') ''encrypted_data''))) \<and>
    js_get (js_get p ''workflow'') ''id'' = js_get wk ''id'' \<and> js_get (js_get p ''workflow'') ''secret_id'' = js_get wk ''secret_id'' \<and>
    js_get p ''signatures'' = JArr (proof_entry (js_get wk ''owner_address'') (js_get wk ''owner'') g (js_get wk ''created_at'') ''creator'' #
      map signer_entry (signed_signers signers))"
proof -
  let ?es = "proof_entry (js_get wk ''owner_address'') (js_get wk ''owner'') g (js_get wk ''created_at'') ''creator'' # map signer_entry (signed_signers signers)"
  let ?p = "multisig_proof P date wk ?es (JStr content)"
  have w: "js_pure wk" "js_get wk ''name'' = JStr name" "js_get wk ''signers'' = JArr signers"
      "\<And>k. k \<in> {''id'', ''status'', ''created_at'', ''secret_id'', ''owner_address''} \<Longrightarrow> js_pure (js_get wk k)"
      "truthy (js_get (js_get wk ''secret'') ''encrypted_data'')" "list_all (\<lambda>s. \<not> is_nullish s) signers"
  proof -
    show "js_pure wk" "js_get wk ''name'' = JStr name" "js_get wk ''signers'' = JArr signers" "truthy (js_get (js_get wk ''secret'') ''encrypted_data'')"
      using wk by (simp_all add: workflow_whole_def)
    show "list_all (\<lambda>s. \<not> is_nullish s) signers" using wk by (simp add: workflow_whole_def list_all_iff)
    show "js_pure (js_get wk k)" if k: "k \<in> {''id'', ''status'', ''created_at'', ''secret_id'', ''owner_address''}" for k
    proof -
      have "js_pure wk" "js_get wk k \<noteq> JUndef" using wk bspec [OF _ k] unfolding workflow_whole_def by blast+
      then show ?thesis using js_get_pure by blast
    qed
  qed
  have "js_pure (signer_entry s)" if "s \<in> set (signed_signers signers)" for s
  proof -
    have s: "s \<in> set signers" "truthy (js_get s ''signature'')" using that by (simp_all add: signed_signers_def)
    have "js_get s ''user_address'' \<noteq> JUndef" "js_get s ''signed_at'' \<noteq> JUndef"
      using wk s(1) by (simp_all add: workflow_whole_def list_all_iff)
    then show ?thesis using signer_entry_pure [OF whole_signers_pure [OF wk s(1)]] s(2) by blast
  qed
  moreover have "js_pure (proof_entry (js_get wk ''owner_address'') (js_get wk ''owner'') g (js_get wk ''created_at'') ''creator'')"
    using w(1,4) g(1) or_null_user by (intro proof_entry_pure) auto
  ultimately have "\<forall>e\<in>set ?es. js_pure e" by auto
  then have "js_pure ?p" using w(2) w(4) [of "''id''"] w(4) [of "''status''"] w(4) [of "''created_at''"] w(4) [of "''secret_id''"]
    by (intro proof_pure) simp_all
  then have parse: "json_parse (json_pretty 0 ?p) = Some ?p" by (rule json_parse_pretty)
  have fields: "\<not> is_nullish ?p" "assertProofVersion ?p = Inr ()" "js_get (js_get ?p ''document'') ''content'' = JStr content"
    "js_get (js_get ?p ''document'') ''ciphertext_sha384'' = JStr (sha384Hex P (js_str (js_get (js_get wk ''secret'') ''encrypted_data'')))"
    "js_get (js_get ?p ''workflow'') ''id'' = js_get wk ''id''" "js_get (js_get ?p ''workflow'') ''secret_id'' = js_get wk ''secret_id''"
    "js_get ?p ''signatures'' = JArr ?es"
    using w(5) by (simp_all add: multisig_proof_def Let_def assertProofVersion_def PROOF_VERSION_def starts_with_def need_def)
  have run: "downloadMultisigProof P date wk g (JStr content) raw Verified_doc = Inr (json_pretty 0 ?p, map file_char name @ ''.kryptolog-proof.json'')"
    using w(2,3) g(2) c signer_entries_run [OF w(6)] by (simp add: downloadMultisigProof_def array_of_def)
  show ?thesis
    by (intro exI [of _ "json_pretty 0 ?p"] exI [of _ "map file_char name @ ''.kryptolog-proof.json''"] exI [of _ ?p] conjI run parse fields)
qed

text \<open>An entry whose key signed its body passes.\<close>

lemma audit_entry_valid:
  assumes "verifyIdentitySignature P (JStr (to_lower a)) (js_get u ''identity_public_key'') m g"
    and "m = (if r = ''signer'' then approval else creator)"
  shows "\<exists>x. audit_entry P creator (Some approval) (proof_entry (JStr a) u g d r) = Inr x \<and> au_valid x"
proof -
  have k: "or_null_js (js_get u ''identity_public_key'') = js_get u ''identity_public_key''"
    using verified_texts(5) [OF assms(1)] by (simp add: or_null_js_def)
  have a: "lower_or_empty (JStr a) = Inr (to_lower a)" by (simp add: lower_or_empty_def to_lower_def)
  show ?thesis using assms by (auto simp: audit_entry_def k a Let_def)
qed

lemma audited_proof:
  assumes p: "\<not> is_nullish p" "assertProofVersion p = Inr ()" "js_get (js_get p ''document'') ''content'' = JStr content"
      "js_get (js_get p ''document'') ''ciphertext_sha384'' = JStr digest" "js_get p ''signatures'' = JArr es"
    and es: "\<And>e. e \<in> set es \<Longrightarrow> \<not> is_nullish e \<and> (\<exists>x. audit_entry P (domainSeparate CTX_CONTENT content)
      (Some (multisigApprovalMessage (js_str (js_get (js_get p ''workflow'') ''id'')) (js_str (js_get (js_get p ''workflow'') ''secret_id'')) digest)) e =
      Inr x \<and> au_valid x)"
  shows "\<exists>rs. verifyMultisigProofSignatures P p = Inr rs \<and> length rs = length es \<and> list_all au_valid rs"
proof -
  let ?f = "\<lambda>e. if is_nullish e then Throw (JsTypeError ''Cannot read properties of null'')
      else audit_entry P (domainSeparate CTX_CONTENT content)
        (Some (multisigApprovalMessage (js_str (js_get (js_get p ''workflow'') ''id'')) (js_str (js_get (js_get p ''workflow'') ''secret_id'')) digest)) e"
  have "\<exists>rs. map_res ?f es = Inr rs \<and> length rs = length es \<and> list_all au_valid rs"
    using es
  proof (induction es)
    case (Cons e es)
    obtain x where x: "?f e = Inr x" "au_valid x" using Cons.prems [of e] by auto
    obtain rs where "map_res ?f es = Inr rs" "length rs = length es" "list_all au_valid rs" using Cons by fastforce
    then show ?case using x by (intro exI [of _ "x # rs"]) simp
  qed simp
  then show ?thesis using p by (simp add: verifyMultisigProofSignatures_def Let_def array_of_def cong: if_cong)
qed

end
