(* ===== verification/WebSharing.thy ===== *)
theory WebSharing
  imports WebSecrets WebMoved WebErase WebWork
begin

text \<open>
  What the owner of a secret stores and shares, and who reads it: every step of making and sharing a
  secret run against a server that keeps what it is sent.
\<close>

subsection \<open>The setting\<close>

definition draws_keys :: "'w outside \<Rightarrow> bool" where
  "draws_keys O' \<longleftrightarrow> (\<forall>w. length (dr_bytes (fst (ou_draw O' w))) = 32)"

definition sharing_setting :: "'w outside \<Rightarrow> ('w \<Rightarrow> 'x) \<Rightarrow> string \<Rightarrow> full_vault \<Rightarrow> bytes \<Rightarrow> jsval \<Rightarrow> account \<Rightarrow> bool" where
  "sharing_setting O' obs pw v key kdf a \<longleftrightarrow>
     signing_setting O' obs pw v key kdf a \<and> envelope_laws (ou_prims O') \<and> good_seals O' \<and> draws_keys O'"

lemma sharing_facts:
  assumes "sharing_setting O' obs pw v key kdf a"
  shows "signing_setting O' obs pw v key kdf a" "envelope_laws (ou_prims O')" "good_seals O'" "draws_keys O'"
    "aead_correct (ou_prims O')" "untouched O' obs" "typed O' pw" "pw \<noteq> [] \<and> deriveKey (ou_prims O') pw kdf = Inr key"
    "full_active v = Some a" "account_ok (ou_prims O') a"
  using assms signing_facts [of O' obs pw v key kdf a] by (simp_all add: sharing_setting_def)

definition at_hand :: "'w outside \<Rightarrow> full_vault \<Rightarrow> bytes \<Rightarrow> jsval \<Rightarrow> account \<Rightarrow> 'w client \<Rightarrow> bool" where
  "at_hand O' v key kdf a s \<longleftrightarrow> open_with O' v key kdf s \<and> seed_fits a s"

lemma step_ready: "sign_step O' obs v key kdf a s t \<Longrightarrow> at_hand O' v key kdf a t"
  by (simp add: sign_step_def at_hand_def)

lemma step_trans:
  "sign_step O' obs v key kdf a s t \<Longrightarrow> sign_step O' obs v key kdf a t u \<Longrightarrow> sign_step O' obs v key kdf a s u"
  by (auto simp: sign_step_def intro: same_screen_trans)

lemma step_refl: "at_hand O' v key kdf a s \<Longrightarrow> sign_step O' obs v key kdf a s s"
  by (simp add: sign_step_def at_hand_def)

lemma step_world:
  "at_hand O' v key kdf a s \<Longrightarrow> obs w = obs (cl_world s) \<Longrightarrow> sign_step O' obs v key kdf a s (s\<lparr>cl_world := w\<rparr>)"
  by (simp add: sign_step_def at_hand_def open_with_def seed_fits_def)

lemma step_obs: "sign_step O' obs v key kdf a s t \<Longrightarrow> obs (cl_world t) = obs (cl_world s)"
  by (simp add: sign_step_def)

lemma step_identity: "sign_step O' obs v key kdf a s t \<Longrightarrow> cl_identityKey t = cl_identityKey s \<and> cl_session t = cl_session s"
  by (cases s; cases t) (simp add: sign_step_def same_screen_def)

lemma draw_step:
  assumes S: "sharing_setting O' obs pw v key kdf a" and r: "at_hand O' v key kdf a s"
  obtains d t where "drawn O' s = (Inr d, t)" "sign_step O' obs v key kdf a s t" "p384_valid (ou_prims O') (fst (fst (dr_seal d)))"
    "snd (dr_seal d) \<noteq> []" "length (dr_bytes d) = 32"
proof -
  note m = sharing_facts [OF S]
  obtain d w where d: "ou_draw O' (cl_world s) = (d, w)" by fastforce
  have "obs w = obs (cl_world s)" using m(6) d by (metis untouched_def snd_conv)
  then have "sign_step O' obs v key kdf a s (s\<lparr>cl_world := w\<rparr>)" using step_world [OF r] by blast
  moreover have "p384_valid (ou_prims O') (fst (fst (dr_seal d)))" "snd (dr_seal d) \<noteq> []" "length (dr_bytes d) = 32"
    using m(3,4) d by (metis good_seals_def draws_keys_def fst_conv)+
  ultimately show thesis using that d by (simp add: drawn_def)
qed

subsection \<open>Sealing\<close>

text \<open>A stored text opens under the file key; a stored key opens for an account.\<close>

definition opens_text :: "prims \<Rightarrow> bytes \<Rightarrow> string \<Rightarrow> string \<Rightarrow> bool" where
  "opens_text P k data content \<longleftrightarrow> (\<exists>env. json_parse data = Some env \<and> decryptSymmetric P env (JStr (toHex k)) = Inr content)"

definition opens_key :: "prims \<Rightarrow> account \<Rightarrow> string \<Rightarrow> bytes \<Rightarrow> bool" where
  "opens_key P a blob k \<longleftrightarrow> (\<exists>env. json_parse blob = Some env \<and> open_data P a env = Inr (toHex k))"

lemma parsed_nonempty: "json_parse t = Some v \<Longrightarrow> t \<noteq> []"
proof -
  have "json_parse [] = None" by code_simp
  then show "json_parse t = Some v \<Longrightarrow> t \<noteq> []" by auto
qed

lemma symmetric_text:
  assumes "aead_correct P" and "aes_key_ok k" and "iv \<noteq> []"
  obtains env where "encryptSymmetric P iv content (JStr (toHex k)) = Inr env" "opens_text P k (json_text env) content"
proof -
  obtain env where e: "encryptSymmetric P iv content (JStr (toHex k)) = Inr env" "decryptSymmetric P env (JStr (toHex k)) = Inr content"
    using aead_roundtrip [OF assms, of "''ciphertext''" content] by (auto simp: aead_field_def encryptSymmetric_def decryptSymmetric_def)
  have "js_pure env"
    using e(1) by (auto simp: encryptSymmetric_def aeadEncrypt_def Let_def obj_of_list_distinct)
  then show thesis using that e json_parse_text by (auto simp: opens_text_def)
qed

lemma fresh_file_key_step:
  assumes S: "sharing_setting O' obs pw v key kdf a" and r: "at_hand O' v key kdf a s"
  obtains k t where "fresh_file_key O' s = (Inr (JStr (toHex k)), t)" "sign_step O' obs v key kdf a s t" "aes_key_ok k" "k \<noteq> []"
proof -
  obtain d t where d: "drawn O' s = (Inr d, t)" "sign_step O' obs v key kdf a s t" "length (dr_bytes d) = 32" using draw_step [OF S r] .
  have "fresh_file_key O' s = (Inr (JStr (toHex (dr_bytes d))), t)"
    using d(1) by (simp add: fresh_file_key_def andThen_apply generateSymmetricKey_def generateSessionKey_def)
  then show thesis using that d(2,3) by (fastforce simp: aes_key_ok_def)
qed

lemma sealed_text_step:
  assumes S: "sharing_setting O' obs pw v key kdf a" and r: "at_hand O' v key kdf a s" and k: "aes_key_ok k"
  obtains data t where "sealed_text O' content (JStr (toHex k)) s = (Inr data, t)" "sign_step O' obs v key kdf a s t"
    "opens_text (ou_prims O') k data content"
proof -
  note m = sharing_facts [OF S]
  obtain d t where d: "drawn O' s = (Inr d, t)" "sign_step O' obs v key kdf a s t" "snd (dr_seal d) \<noteq> []" using draw_step [OF S r] .
  obtain env where e: "encryptSymmetric (ou_prims O') (snd (dr_seal d)) content (JStr (toHex k)) = Inr env"
      "opens_text (ou_prims O') k (json_text env) content"
    using symmetric_text [OF m(5) k d(3)] .
  have "sealed_text O' content (JStr (toHex k)) s = (Inr (json_text env), t)"
    using d(1) e(1) by (simp add: sealed_text_def andThen_apply map_op_def)
  then show thesis using that d(2) e(2) by blast
qed

lemma sealed_title_step:
  assumes S: "sharing_setting O' obs pw v key kdf a" and r: "at_hand O' v key kdf a s" and k: "aes_key_ok k"
  obtains data t where "sealed_title O' name (JStr (toHex k)) s = (Inr (SECRET_MARKER @ data), t)" "sign_step O' obs v key kdf a s t"
    "opens_text (ou_prims O') k data name"
proof -
  note m = sharing_facts [OF S]
  obtain d t where d: "drawn O' s = (Inr d, t)" "sign_step O' obs v key kdf a s t" "snd (dr_seal d) \<noteq> []" using draw_step [OF S r] .
  obtain env where e: "encryptSymmetric (ou_prims O') (snd (dr_seal d)) name (JStr (toHex k)) = Inr env"
      "opens_text (ou_prims O') k (json_text env) name"
    using symmetric_text [OF m(5) k d(3)] .
  have "sealed_title O' name (JStr (toHex k)) s = (Inr (SECRET_MARKER @ json_text env), t)"
    using d(1) e(1) by (simp add: sealed_title_def encryptSecretTitle_def andThen_apply)
  then show thesis using that d(2) e(2) by blast
qed

lemma held_key_ok:
  assumes "account_ok P a" and "k \<in> set (account_keys a)"
  shows "key_ok P k"
  using assms by (auto simp: account_ok_def account_keys_def list_all_iff key_ok_def enc_key.defs)

lemma public_key_long:
  assumes P: "envelope_laws P" and k: "key_ok P k"
  shows "length (ek_publicKey k) = 2562"
proof -
  obtain s pk where pk: "catkdfPublicKey P (Some s) = Inr pk" "ek_publicKey k = toHex pk"
    using k by (auto simp: key_ok_def encryptionPublicKeyOf_def)
  then show ?thesis using catkdf_public_length [OF _ pk(1)] P by (simp add: envelope_laws_def)
qed

lemma secureEncrypt_step:
  assumes S: "sharing_setting O' obs pw v key kdf a" and r: "at_hand O' v key kdf a s"
    and b: "account_ok (ou_prims O') b" "q \<in> set (account_keys b)"
  obtains blob t where "secureEncrypt O' (JStr (toHex k)) (JStr (ek_publicKey q)) s = (Inr (JStr blob), t)" "sign_step O' obs v key kdf a s t"
    "opens_key (ou_prims O') b blob k"
proof -
  note m = sharing_facts [OF S]
  let ?P = "ou_prims O'"
  obtain d t where d: "drawn O' s = (Inr d, t)" "sign_step O' obs v key kdf a s t" "p384_valid ?P (fst (fst (dr_seal d)))" "snd (dr_seal d) \<noteq> []"
    using draw_step [OF S r] .
  have f: "payload_field ''content''" by (simp add: payload_field_def)
  obtain c ky where e: "kemSeal ?P (dr_seal d) (utf8 (toHex k)) (JStr (ek_publicKey q)) ''content'' =
        Inr (kem_envelope ?P c ky (snd (dr_seal d)) (ek_kid q) ''content'' (utf8 (toHex k)))"
      "encryptionSeedFor b (kem_envelope ?P c ky (snd (dr_seal d)) (ek_kid q) ''content'' (utf8 (toHex k))) = Inr (ek_seed q)"
      "\<And>what. kemOpen ?P (kem_envelope ?P c ky (snd (dr_seal d)) (ek_kid q) ''content'' (utf8 (toHex k))) (JStr (ek_seed q)) ''content'' what = Inr (utf8 (toHex k))"
    using sealed_to_key [OF m(2) b d(3,4) f, of "utf8 (toHex k)"] by metis
  let ?env = "kem_envelope ?P c ky (snd (dr_seal d)) (ek_kid q) ''content'' (utf8 (toHex k))"
  have ne: "ek_publicKey q \<noteq> []" using public_key_long [OF m(2) held_key_ok [OF b]] by auto
  have x: "\<not> cl_extension s" using r by (simp add: at_hand_def open_with_def)
  have "secureEncrypt O' (JStr (toHex k)) (JStr (ek_publicKey q)) s = (Inr (JStr (json_text ?env)), t)"
    using d(1) e(1) ne x
    by (simp add: secureEncrypt_def pqc_encrypt_def some_key_def andThen_apply map_op_def encryptMessage_def Let_def)
  moreover have "opens_key ?P b (json_text ?env) k"
    using json_parse_text [OF kem_envelope_pure [OF f]] e(2,3) utf.dec_enc by (auto simp: opens_key_def open_data_def decryptMessage_def)
  ultimately show thesis using that d(2) by blast
qed

lemma secureDecrypt_step:
  assumes S: "sharing_setting O' obs pw v key kdf a" and r: "at_hand O' v key kdf a s" and o: "opens_key (ou_prims O') a blob k"
  obtains t where "secureDecrypt O' (JStr blob) s = (Inr (JStr (toHex k)), t)" "sign_step O' obs v key kdf a s t"
proof -
  note m = sharing_facts [OF S]
  obtain env where env: "json_parse blob = Some env" "open_data (ou_prims O') a env = Inr (toHex k)" using o by (auto simp: opens_key_def)
  have s: "open_with O' v key kdf s" "\<not> cl_extension s" "seed_fits a s" using r by (simp_all add: at_hand_def open_with_def)
  have pw: "hasCachedKey (cl_vault s) \<or> pw \<noteq> [] \<and> deriveKey (ou_prims O') pw kdf = Inr key" using m(8) by blast
  show thesis
  proof (rule custody_use [OF m(5) s(1) m(9,7,6) pw, where missing = "''Active account not found in vault''" and
      f = "\<lambda>E a. open_data (we_prims E) a env" and viaExt = "fail not_ready" and ask = "''Enter password to decrypt data:''" and force = False])
    fix E u
    assume u: "withCustody O' (fail not_ready) (\<lambda>password. in_vault O' (\<lambda>E. with_active_full E password ''Active account not found in vault''
          (\<lambda>a. open_data (we_prims E) a env))) (Some ''Enter password to decrypt data:'') False s = (open_data (we_prims E) a env, u)"
      and E: "we_prims E = ou_prims O'" and w: "open_with O' v key kdf u" "same_screen s u" "obs (cl_world u) = obs (cl_world s)"
        "ws_signingKey (cl_vault u) = ws_signingKey (cl_vault s)"
    have "pqc_decrypt O' env s = (Inr (JStr (toHex k)), u)"
      using custody_map [OF u [unfolded E env(2)] s(2), of "ext O' ''decrypt'' [env]" JStr] by (simp add: pqc_decrypt_def web_decrypt_def)
    then have "secureDecrypt O' (JStr blob) s = (Inr (JStr (toHex k)), u)"
      using env(1) by (simp add: secureDecrypt_def andThen_apply parse_json_def)
    then show thesis using that w s(3) by (simp add: sign_step_def seed_fits_def)
  qed
qed


lemma signed_payload_step:
  assumes S: "sharing_setting O' obs pw v key kdf a" and r: "at_hand O' v key kdf a s"
    and i: "cl_identityKey s = Some (hp_publicKey (acc_identity a))"
  obtains g t where "signed_payload O' content s =
      (Inr (json_text (JObj [(''content'', JStr content), (''signature'', JStr g), (''signerPublicKey'', JStr (hp_publicKey (acc_identity a)))])), t)"
    "sign_step O' obs v key kdf a s t" "signed_by (ou_prims O') a (domainSeparate CTX_CONTENT content) (JStr g)"
proof -
  note m = sharing_facts [OF S]
  have s: "open_with O' v key kdf s" "seed_fits a s" using r by (simp_all add: at_hand_def)
  obtain g t where g: "withCustody O' (ext O' ''sign'' [JStr (domainSeparate CTX_CONTENT content)]) (sign_body O' (Inr (domainSeparate CTX_CONTENT content)))
        (Some ''Enter password to sign document:'') False s = (Inr (JStr g), t)"
      "sign_step O' obs v key kdf a s t" "signed_by (ou_prims O') a (domainSeparate CTX_CONTENT content) (JStr g)"
    using sign_run [OF m(1) s] .
  have "pqc_sign O' (domainSeparate CTX_CONTENT content) s = (Inr (JStr g), t)"
    using g(1) by (simp add: pqc_sign_def sign_body_run)
  then have "signed_payload O' content s =
      (Inr (json_text (JObj [(''content'', JStr content), (''signature'', JStr g), (''signerPublicKey'', JStr (hp_publicKey (acc_identity a)))])), t)"
    using step_identity [OF g(2)] i by (simp add: signed_payload_def andThen_apply opt_js_def del: json_text.simps)
  then show thesis using that g(2,3) by blast
qed

subsection \<open>A server that keeps secrets\<close>

text \<open>
  What the server holds: the posted request of every secret, by id, and the posted shares. A row of
  its list is an object with a title and a key; the title is in the alphabet the model represents.
\<close>

definition listed_row :: "prims \<Rightarrow> jsval \<Rightarrow> bool" where
  "listed_row P x \<longleftrightarrow> (\<exists>kvs n k. x = JObj kvs \<and> js_get x ''name'' = JStr n \<and> js_get x ''encrypted_key'' = JStr k \<and>
     (\<forall>t e fk. n = SECRET_MARKER @ t \<longrightarrow> json_parse t = Some e \<longrightarrow> decryptSymmetric P e fk \<noteq> Inl OutOfModel))"

type_synonym kept_secrets = "(string \<Rightarrow> jsval option) \<times> jsval list"

definition serves_secrets :: "'w outside \<Rightarrow> ('w \<Rightarrow> kept_secrets) \<Rightarrow> bool" where
  "serves_secrets O' kept \<longleftrightarrow> untouched O' kept \<and>
     (\<forall>token b w. \<exists>i v w'. kept w' = ((fst (kept w))(js_str i \<mapsto> b), snd (kept w)) \<and> js_get v ''id'' = i \<and>
        ou_fetch O' \<lparr>rq_method = ''POST'', rq_url = SECRETS O', rq_token = token, rq_body = Some b\<rparr> w = (Inr \<lparr>rs_status = 200, rs_json = Some v\<rparr>, w')) \<and>
     (\<forall>token sid b w. fst (kept w) (js_str sid) = Some b \<longrightarrow> (\<exists>v w'. kept w' = kept w \<and> \<not> is_nullish v \<and>
        js_get v ''encrypted_data'' = js_get b ''encrypted_data'' \<and>
        ou_fetch O' \<lparr>rq_method = ''GET'', rq_url = SECRET O' sid, rq_token = token, rq_body = None\<rparr> w = (Inr \<lparr>rs_status = 200, rs_json = Some v\<rparr>, w'))) \<and>
     (\<forall>token limit offset w. \<exists>xs w'. kept w' = kept w \<and> list_all (listed_row (ou_prims O')) xs \<and>
        ou_fetch O' \<lparr>rq_method = ''GET'', rq_url = pageUrl (SECRETS O') limit offset, rq_token = token, rq_body = None\<rparr> w =
          (Inr \<lparr>rs_status = 200, rs_json = Some (JArr xs)\<rparr>, w')) \<and>
     (\<forall>token b w. \<exists>v w'. kept w' = (fst (kept w), b # snd (kept w)) \<and>
        ou_fetch O' \<lparr>rq_method = ''POST'', rq_url = SHARE O', rq_token = token, rq_body = Some b\<rparr> w = (Inr \<lparr>rs_status = 200, rs_json = Some v\<rparr>, w'))"

lemma serves_create:
  assumes "serves_secrets O' kept"
  obtains i v w' where "kept w' = ((fst (kept w))(js_str i \<mapsto> b), snd (kept w))" "js_get v ''id'' = i"
    "ou_fetch O' \<lparr>rq_method = ''POST'', rq_url = SECRETS O', rq_token = token, rq_body = Some b\<rparr> w = (Inr \<lparr>rs_status = 200, rs_json = Some v\<rparr>, w')"
  using assms unfolding serves_secrets_def by blast

lemma serves_get:
  assumes "serves_secrets O' kept" and "fst (kept w) (js_str sid) = Some b"
  obtains v w' where "kept w' = kept w" "\<not> is_nullish v" "js_get v ''encrypted_data'' = js_get b ''encrypted_data''"
    "ou_fetch O' \<lparr>rq_method = ''GET'', rq_url = SECRET O' sid, rq_token = token, rq_body = None\<rparr> w = (Inr \<lparr>rs_status = 200, rs_json = Some v\<rparr>, w')"
  using assms unfolding serves_secrets_def by blast

lemma serves_share:
  assumes "serves_secrets O' kept"
  obtains v w' where "kept w' = (fst (kept w), b # snd (kept w))"
    "ou_fetch O' \<lparr>rq_method = ''POST'', rq_url = SHARE O', rq_token = token, rq_body = Some b\<rparr> w = (Inr \<lparr>rs_status = 200, rs_json = Some v\<rparr>, w')"
  using assms unfolding serves_secrets_def by blast

subsection \<open>The list after a change\<close>

lemma pages_step:
  assumes srv: "serves_secrets O' kept" and r: "at_hand O' v key kdf a s" and f: "list_all (listed_row (ou_prims O')) found"
  shows "\<exists>xs t. fetch_pages (\<lambda>limit offset. apiFetch O' ''GET'' (pageUrl (SECRETS O') limit offset) None) n m page found s = (Inr xs, t) \<and>
    list_all (listed_row (ou_prims O')) xs \<and> sign_step O' kept v key kdf a s t"
  using r f
proof (induction m arbitrary: page found s)
  case 0
  then show ?case using step_refl by (auto intro!: exI [of _ found] exI [of _ s])
next
  case (Suc m)
  obtain xs w where w: "kept w = kept (cl_world s)" "list_all (listed_row (ou_prims O')) xs"
      "ou_fetch O' \<lparr>rq_method = ''GET'', rq_url = pageUrl (SECRETS O') n (page * n), rq_token = map_option snd (cl_session s), rq_body = None\<rparr> (cl_world s) =
        (Inr \<lparr>rs_status = 200, rs_json = Some (JArr xs)\<rparr>, w)"
    using srv unfolding serves_secrets_def by metis
  let ?t = "s\<lparr>cl_world := w\<rparr>"
  have get: "apiFetch O' ''GET'' (pageUrl (SECRETS O') n (page * n)) None s = (Inr (JArr xs), ?t)"
    by (rule apiFetch_ok [OF w(3)]) simp
  have st: "sign_step O' kept v key kdf a s ?t" using step_world [OF Suc.prems(1) w(1)] .
  have all: "list_all (listed_row (ou_prims O')) (found @ xs)" using Suc.prems(2) w(2) by simp
  show ?case
  proof (cases "length xs < n")
    case True
    then show ?thesis using get st all by (auto simp: andThen_apply array_of_def)
  next
    case False
    obtain ys u where "fetch_pages (\<lambda>limit offset. apiFetch O' ''GET'' (pageUrl (SECRETS O') limit offset) None) n m (Suc page) (found @ xs) ?t = (Inr ys, u)"
        "list_all (listed_row (ou_prims O')) ys" "sign_step O' kept v key kdf a ?t u"
      using Suc.IH [OF step_ready [OF st] all] by blast
    then show ?thesis using get False step_trans [OF st] by (auto simp: andThen_apply array_of_def)
  qed
qed

lemma decryptMany_ready:
  assumes S: "sharing_setting O' obs pw v key kdf a" and r: "at_hand O' v key kdf a s"
  obtains ts t where "pqc_decryptMany O' es s = (Inr (JArr ts), t)" "sign_step O' obs v key kdf a s t"
proof -
  note m = sharing_facts [OF S]
  have s: "open_with O' v key kdf s" "\<not> cl_extension s" "seed_fits a s" using r by (simp_all add: at_hand_def open_with_def)
  have pw: "hasCachedKey (cl_vault s) \<or> pw \<noteq> [] \<and> deriveKey (ou_prims O') pw kdf = Inr key" using m(8) by blast
  let ?ask = "''Enter password to decrypt '' @ nat_str (length es) @ '' messages:''"
  let ?f = "\<lambda>E a. Inr (map (\<lambda>env. or_failed (open_data (we_prims E) a env)) es)"
  show thesis
  proof (rule custody_use [OF m(5) s(1) m(9,7,6) pw, where missing = "''Active account not found in vault''" and
      f = ?f and viaExt = "fail not_ready" and ask = ?ask and force = False])
    fix E u
    assume u: "withCustody O' (fail not_ready) (\<lambda>password. in_vault O' (\<lambda>E. with_active_full E password ''Active account not found in vault''
          (?f E))) (Some ?ask) False s = (?f E a, u)"
      and w: "open_with O' v key kdf u" "same_screen s u" "obs (cl_world u) = obs (cl_world s)"
        "ws_signingKey (cl_vault u) = ws_signingKey (cl_vault s)"
    have "\<exists>ts. pqc_decryptMany O' es s = (Inr (JArr ts), u)"
      using custody_map [OF u s(2), of "decryptManyViaExtension O' es" "\<lambda>ts. JArr (map JStr ts)"]
      unfolding pqc_decryptMany_def web_decryptMany_def by blast
    then show thesis using that w s(3) by (auto simp: sign_step_def seed_fits_def)
  qed
qed


lemma titled_ok: "listed_row P x \<Longrightarrow> \<exists>y. titled P keys False x = Inr y"
proof -
  assume "listed_row P x"
  then obtain kvs n k where x: "x = JObj kvs" "js_get x ''name'' = JStr n" "js_get x ''encrypted_key'' = JStr k"
    and ok: "\<And>t e fk. n = SECRET_MARKER @ t \<Longrightarrow> json_parse t = Some e \<Longrightarrow> decryptSymmetric P e fk \<noteq> Inl OutOfModel"
    by (auto simp: listed_row_def)
  have "\<exists>z. recovered JNull (bind_res (parse_json t) (\<lambda>e. map_sum id JStr (decryptSymmetric P e fk))) = Inr z"
    if t: "n = SECRET_MARKER @ t" for t fk
  proof (cases "json_parse t")
    case (Some e)
    then show ?thesis using ok [OF t Some, of fk]
      by (cases "decryptSymmetric P e fk") (auto simp: recovered_def parse_json_def)
  qed (simp add: parse_json_def)
  then have "\<exists>z. decryptSecretTitle P (JStr n) fk = Inr z" for fk
    by (auto simp: decryptSecretTitle_def marked_def starts_with_iff)
  then have "\<exists>z. (case map_of keys k of None \<Rightarrow> Inr JNull | Some fk \<Rightarrow> if truthy fk then decryptSecretTitle P (JStr n) fk else Inr JNull) = Inr z"
    by (auto split: option.splits)
  then obtain z where "(case map_of keys k of None \<Rightarrow> Inr JNull | Some fk \<Rightarrow> if truthy fk then decryptSecretTitle P (JStr n) fk else Inr JNull) = Inr z"
    by blast
  then show ?thesis using x by (simp add: titled_def title_of_def with_member_def Let_def)
qed

lemma map_res_ok: "(\<And>x. x \<in> set xs \<Longrightarrow> \<exists>y. f x = Inr y) \<Longrightarrow> \<exists>ys. map_res f xs = Inr ys"
proof (induction xs)
  case (Cons x xs)
  obtain y ys where "f x = Inr y" "map_res f xs = Inr ys" using Cons by (metis list.set_intros)
  then show ?case by simp
qed simp

text \<open>A step of the page: the client moves on, what is shown decrypted stays.\<close>

definition page_step ::
  "'w outside \<Rightarrow> ('w \<Rightarrow> 'x) \<Rightarrow> full_vault \<Rightarrow> bytes \<Rightarrow> jsval \<Rightarrow> account \<Rightarrow> 'w secrets_page \<Rightarrow> 'w secrets_page \<Rightarrow> bool" where
  "page_step O' obs v key kdf a p q \<longleftrightarrow>
     sign_step O' obs v key kdf a (sp_client p) (sp_client q) \<and> sp_decrypted q = sp_decrypted p"

lemma on_client_run: "m (sp_client p) = (Inr x, c) \<Longrightarrow> on_client m p = (Inr x, p\<lparr>sp_client := c\<rparr>)"
  by (simp add: on_client_def)

lemma learn_pending_step:
  assumes S: "sharing_setting O' obs pw v key kdf a" and r: "at_hand O' v key kdf a (sp_client p)"
  obtains q where "learn_pending O' pending p = (Inr (), q)" "page_step O' obs v key kdf a p q"
proof (cases "pending = []")
  case True
  then show thesis using that [of p] step_refl [OF r, where obs = obs] by (simp add: learn_pending_def page_step_def)
next
  case ne: False
  have err: "e = SyntaxError" if "map_res (\<lambda>b. parse_json (js_str b)) bs = Inl e" for bs e
    using that
  proof (induction bs)
    case (Cons b bs)
    then show ?case
      by (cases "json_parse (js_str b)"; cases "map_res (\<lambda>b. parse_json (js_str b)) bs") (auto simp: parse_json_def)
  qed simp
  show thesis
  proof (cases "map_res (\<lambda>b. parse_json (js_str b)) pending")
    case (Inl e)
    then have "learn_pending O' pending p = (Inr (), p\<lparr>sp_keys := store_keys pending [] (sp_keys p)\<rparr>)"
      using err [OF Inl] ne by (simp add: learn_pending_def tries_def catches_def andThen_apply updates_def)
    then show thesis using that step_refl [OF r, where obs = obs] by (simp add: page_step_def)
  next
    case (Inr es)
    obtain ts c where c: "pqc_decryptMany O' es (sp_client p) = (Inr (JArr ts), c)" "sign_step O' obs v key kdf a (sp_client p) c"
      using decryptMany_ready [OF S r] .
    have "on_client (pqc_decryptMany O' es) p = (Inr (JArr ts), p\<lparr>sp_client := c\<rparr>)" using c(1) by (rule on_client_run)
    then have "learn_pending O' pending p = (Inr (), p\<lparr>sp_client := c, sp_keys := store_keys pending ts (sp_keys p)\<rparr>)"
      using Inr ne
      by (simp add: learn_pending_def tries_def catches_def andThen_apply updates_def array_of_def)
    then show thesis using that c(2) by (simp add: page_step_def)
  qed
qed

lemma fetchSecrets_step:
  assumes S: "sharing_setting O' kept pw v key kdf a" and srv: "serves_secrets O' kept" and r: "at_hand O' v key kdf a (sp_client p)"
  obtains q where "fetchSecrets O' p = (Inr (), q)" "page_step O' kept v key kdf a p q"
proof -
  obtain xs c where c: "fetch_list O' (SECRETS O') (sp_client p) = (Inr xs, c)" "list_all (listed_row (ou_prims O')) xs"
      "sign_step O' kept v key kdf a (sp_client p) c"
    using pages_step [OF srv r, of "[]" PAGE_SIZE MAX_PAGES 0] by (auto simp: fetch_list_def fetchAllPages_def)
  let ?p = "p\<lparr>sp_client := c\<rparr>"
  have "\<exists>ys. map_res (\<lambda>it. if is_nullish it then Throw (JsTypeError ''Cannot read properties of null'') else Ok it) xs = Inr ys"
    using c(2) by (intro map_res_ok) (auto simp: list_all_iff listed_row_def)
  then obtain pending where pend: "pending_blobs False (sp_keys p) xs = Inr pending" by (auto simp: pending_blobs_def)
  obtain q where q: "learn_pending O' pending ?p = (Inr (), q)" "page_step O' kept v key kdf a ?p q"
    using learn_pending_step [OF S, of ?p pending] step_ready [OF c(3)] by auto
  obtain rows where rows: "map_res (titled (ou_prims O') (sp_keys q) False) xs = Inr rows"
    using map_res_ok [of xs "titled (ou_prims O') (sp_keys q) False"] titled_ok c(2) by (auto simp: list_all_iff)
  have "on_client (fetch_list O' (SECRETS O')) p = (Inr xs, ?p)" using c(1) by (rule on_client_run)
  then have "fetchSecrets O' p = (Inr (), q\<lparr>sp_secrets := rows, sp_loading := False\<rparr>)"
    using pend q(1) rows
    by (simp add: fetchSecrets_def resolveTitles_def tries_def catches_def andThen_apply updates_def)
  moreover have "page_step O' kept v key kdf a p (q\<lparr>sp_secrets := rows, sp_loading := False\<rparr>)"
    using q(2) step_trans [OF c(3)] by (simp add: page_step_def)
  ultimately show thesis using that by blast
qed


subsection \<open>Making, sharing, opening\<close>

text \<open>What the server keeps of a secret: sealed to the owner, under one file key.\<close>

definition holds_secret :: "prims \<Rightarrow> account \<Rightarrow> kept_secrets \<Rightarrow> jsval \<Rightarrow> bytes \<Rightarrow> string \<Rightarrow> string \<Rightarrow> string \<Rightarrow> bool" where
  "holds_secret P a kept sid k blob name payload \<longleftrightarrow> (\<exists>b title data. fst kept (js_str sid) = Some b \<and>
     js_get b ''name'' = JStr (SECRET_MARKER @ title) \<and> js_get b ''encrypted_data'' = JStr data \<and> js_get b ''encrypted_key'' = JStr blob \<and>
     opens_text P k title name \<and> opens_text P k data payload \<and> opens_key P a blob k)"

text \<open>The payload of a document that is signed, or not.\<close>

definition payload_of :: "prims \<Rightarrow> account \<Rightarrow> bool \<Rightarrow> string \<Rightarrow> string \<Rightarrow> bool" where
  "payload_of P a isSigned content payload \<longleftrightarrow>
     (if isSigned then \<exists>g. payload = json_text (JObj [(''content'', JStr content), (''signature'', JStr g), (''signerPublicKey'', JStr (hp_publicKey (acc_identity a)))]) \<and>
        signed_by P a (domainSeparate CTX_CONTENT content) (JStr g)
      else payload = content)"

lemma payload_step:
  assumes S: "sharing_setting O' obs pw v key kdf a" and r: "at_hand O' v key kdf a (sp_client p)"
    and i: "isSigned \<Longrightarrow> cl_identityKey (sp_client p) = Some (hp_publicKey (acc_identity a))"
  obtains payload q where "(if isSigned then on_client (signed_payload O' content) else ret content) p = (Inr payload, q)"
    "page_step O' obs v key kdf a p q" "payload_of (ou_prims O') a isSigned content payload"
proof (cases isSigned)
  case True
  obtain g c where g: "signed_payload O' content (sp_client p) =
      (Inr (json_text (JObj [(''content'', JStr content), (''signature'', JStr g), (''signerPublicKey'', JStr (hp_publicKey (acc_identity a)))])), c)"
    "sign_step O' obs v key kdf a (sp_client p) c" "signed_by (ou_prims O') a (domainSeparate CTX_CONTENT content) (JStr g)"
    using signed_payload_step [OF S r i [OF True]] .
  show thesis
    using that [OF _ _ iffD2 [OF payload_of_def]] on_client_run [of "signed_payload O' content", OF g(1)] g(2,3) True
    by (simp add: page_step_def del: json_text.simps) blast
next
  case False
  then show thesis using that [of content p] step_refl [OF r, where obs = obs] by (simp add: page_step_def payload_of_def)
qed

lemma page_client: "sign_step O' obs v key kdf a (sp_client p) c \<Longrightarrow> page_step O' obs v key kdf a p (p\<lparr>sp_client := c\<rparr>)"
  by (simp add: page_step_def)

lemma page_trans: "page_step O' obs v key kdf a p q \<Longrightarrow> page_step O' obs v key kdf a q r \<Longrightarrow> page_step O' obs v key kdf a p r"
  by (auto simp: page_step_def intro: step_trans)

lemma page_ready: "page_step O' obs v key kdf a p q \<Longrightarrow> at_hand O' v key kdf a (sp_client q)"
  by (auto simp: page_step_def intro: step_ready)

lemma page_learn: "page_step O' obs v key kdf a p q \<Longrightarrow> page_step O' obs v key kdf a p (q\<lparr>sp_keys := ks\<rparr>)"
  by (simp add: page_step_def)

lemma create_run:
  assumes S: "sharing_setting O' kept pw v key kdf a" and srv: "serves_secrets O' kept" and r: "at_hand O' v key kdf a (sp_client p)"
    and i: "isSigned \<Longrightarrow> cl_identityKey (sp_client p) = Some (hp_publicKey (acc_identity a))" and q: "own \<in> set (account_keys a)"
  obtains p' sid k blob payload where "createSecret O' body_text (JStr (ek_publicKey own)) name type' content isSigned [] p = (Inr True, p')"
    "at_hand O' v key kdf a (sp_client p')" "payload_of (ou_prims O') a isSigned content payload"
    "holds_secret (ou_prims O') a (kept (cl_world (sp_client p'))) sid k blob name payload" "sp_decrypted p' = sp_decrypted p"
proof -
  let ?P = "ou_prims O'"
  note m = sharing_facts [OF S]
  obtain k c1 where c1: "fresh_file_key O' (sp_client p) = (Inr (JStr (toHex k)), c1)" "sign_step O' kept v key kdf a (sp_client p) c1" "aes_key_ok k"
    using fresh_file_key_step [OF S r] .
  let ?p1 = "p\<lparr>sp_client := c1\<rparr>"
  note s1 = page_client [OF c1(2)]
  have i1: "isSigned \<Longrightarrow> cl_identityKey (sp_client ?p1) = Some (hp_publicKey (acc_identity a))" using i step_identity [OF c1(2)] by simp
  obtain payload p2 where p2: "(if isSigned then on_client (signed_payload O' content) else ret content) ?p1 = (Inr payload, p2)"
      "page_step O' kept v key kdf a ?p1 p2" "payload_of ?P a isSigned content payload"
    using payload_step [OF S page_ready [OF s1] i1] .
  obtain data c3 where c3: "sealed_text O' payload (JStr (toHex k)) (sp_client p2) = (Inr data, c3)" "sign_step O' kept v key kdf a (sp_client p2) c3"
      "opens_text ?P k data payload"
    using sealed_text_step [OF S page_ready [OF p2(2)] c1(3)] .
  let ?p3 = "p2\<lparr>sp_client := c3\<rparr>"
  note s3 = page_client [OF c3(2)]
  obtain blob c4 where c4: "secureEncrypt O' (JStr (toHex k)) (JStr (ek_publicKey own)) (sp_client ?p3) = (Inr (JStr blob), c4)"
      "sign_step O' kept v key kdf a (sp_client ?p3) c4" "opens_key ?P a blob k"
    using secureEncrypt_step [OF S page_ready [OF s3] m(10) q] .
  let ?p4 = "?p3\<lparr>sp_client := c4, sp_keys := obj_put blob (JStr (toHex k)) (sp_keys p2)\<rparr>"
  note s4 = page_client [OF c4(2)]
  have s4': "page_step O' kept v key kdf a ?p3 ?p4" using page_learn [OF s4] by simp
  obtain title c5 where c5: "sealed_title O' name (JStr (toHex k)) (sp_client ?p4) = (Inr (SECRET_MARKER @ title), c5)"
      "sign_step O' kept v key kdf a (sp_client ?p4) c5" "opens_text ?P k title name"
    using sealed_title_step [OF S page_ready [OF s4'] c1(3)] .
  let ?p5 = "?p4\<lparr>sp_client := c5\<rparr>"
  note s5 = page_client [OF c5(2)]
  let ?b = "secret_request (SECRET_MARKER @ title) (if isSigned then ''signed_document'' else type') data (JStr blob)"
  obtain sid x w where w: "kept w = ((fst (kept (cl_world c5)))(js_str sid \<mapsto> ?b), snd (kept (cl_world c5)))" "js_get x ''id'' = sid"
      "ou_fetch O' \<lparr>rq_method = ''POST'', rq_url = SECRETS O', rq_token = map_option snd (cl_session c5), rq_body = Some ?b\<rparr> (cl_world c5) =
        (Inr \<lparr>rs_status = 200, rs_json = Some x\<rparr>, w)"
    using serves_create [OF srv] .
  let ?c6 = "c5\<lparr>cl_world := w\<rparr>"
  have post: "apiFetch O' ''POST'' (SECRETS O') (Some ?b) c5 = (Inr x, ?c6)"
    by (rule apiFetch_ok [OF w(3)]) (simp add: secret_request_def)
  let ?p6 = "?p5\<lparr>sp_client := ?c6\<rparr>"
  have "at_hand O' v key kdf a (sp_client ?p5)" using page_ready [OF s5] .
  then have r6: "at_hand O' v key kdf a (sp_client ?p6)" by (simp add: at_hand_def open_with_def seed_fits_def)
  obtain p7 where p7: "fetchSecrets O' ?p6 = (Inr (), p7)" "page_step O' kept v key kdf a ?p6 p7"
    using fetchSecrets_step [OF S srv r6] .
  have o1: "on_client (fresh_file_key O') p = (Inr (JStr (toHex k)), ?p1)" using c1(1) by (simp add: on_client_def)
  have o3: "on_client (sealed_text O' payload (JStr (toHex k))) p2 = (Inr data, ?p3)" using c3(1) by (simp add: on_client_def)
  have o4: "on_client (secureEncrypt O' (JStr (toHex k)) (JStr (ek_publicKey own))) ?p3 = (Inr (JStr blob), ?p3\<lparr>sp_client := c4\<rparr>)"
    using c4(1) by (simp add: on_client_def)
  have o5: "on_client (sealed_title O' name (JStr (toHex k))) ?p4 = (Inr (SECRET_MARKER @ title), ?p5)" using c5(1) by (simp add: on_client_def)
  have post': "on_client (apiFetch O' ''POST'' (SECRETS O') (Some ?b)) ?p5 = (Inr x, ?p6)"
    using post by (simp add: on_client_def)
  have "createSecret O' body_text (JStr (ek_publicKey own)) name type' content isSigned [] p = (Inr True, p7)"
    using o1 p2(1) o3 o4 o5 post' p7(1)
    by (simp add: createSecret_def andThen_apply learn_key_def updates_def Let_def)
  moreover have "holds_secret ?P a (kept (cl_world (sp_client p7))) sid k blob name payload"
    using p7(2) w(1) c3(3) c4(3) c5(3)
    by (auto simp: holds_secret_def page_step_def sign_step_def secret_request_def)
  moreover have "sp_decrypted p7 = sp_decrypted p"
    using p7(2) p2(2) by (simp add: page_step_def)
  ultimately show thesis using that page_ready [OF p7(2)] p2(3) by blast
qed

lemma share_run:
  assumes S: "sharing_setting O' kept pw v key kdf a" and srv: "serves_secrets O' kept" and r: "at_hand O' v key kdf a (sp_client p)"
    and o: "opens_key (ou_prims O') a blob k" and b: "account_ok (ou_prims O') b" "q \<in> set (account_keys b)"
  obtains p' g blob' where "shareSecret O' sid (JStr blob) address (JStr (ek_publicKey q)) expiry p = (Inr True, p')"
    "at_hand O' v key kdf a (sp_client p')" "kept (cl_world (sp_client p')) = (fst (kept (cl_world (sp_client p))), g # snd (kept (cl_world (sp_client p))))"
    "js_get g ''secret_id'' = sid" "js_get g ''grantee_address'' = address" "js_get g ''encrypted_key'' = JStr blob'" "opens_key (ou_prims O') b blob' k"
proof -
  let ?P = "ou_prims O'"
  note m = sharing_facts [OF S]
  obtain c1 where c1: "secureDecrypt O' (JStr blob) (sp_client p) = (Inr (JStr (toHex k)), c1)" "sign_step O' kept v key kdf a (sp_client p) c1"
    using secureDecrypt_step [OF S r o] .
  obtain blob' c2 where c2: "secureEncrypt O' (JStr (toHex k)) (JStr (ek_publicKey q)) c1 = (Inr (JStr blob'), c2)"
      "sign_step O' kept v key kdf a c1 c2" "opens_key ?P b blob' k"
    using secureEncrypt_step [OF S step_ready [OF c1(2)] b] .
  let ?g = "share_request sid address (JStr blob') expiry"
  obtain x w where w: "kept w = (fst (kept (cl_world c2)), ?g # snd (kept (cl_world c2)))"
      "ou_fetch O' \<lparr>rq_method = ''POST'', rq_url = SHARE O', rq_token = map_option snd (cl_session c2), rq_body = Some ?g\<rparr> (cl_world c2) =
        (Inr \<lparr>rs_status = 200, rs_json = Some x\<rparr>, w)"
    using serves_share [OF srv] .
  have post: "apiRaw O' ''POST'' (SHARE O') (Some ?g) c2 = (Inr \<lparr>rs_status = 200, rs_json = Some x\<rparr>, c2\<lparr>cl_world := w\<rparr>)"
    by (rule apiRaw_run [OF w(2)]) (simp_all add: share_request_def)
  have long: "long_enough (JStr (ek_publicKey q))" using public_key_long [OF m(2) held_key_ok [OF b]] by (auto simp: long_enough_def)
  have k: "kept (cl_world c2) = kept (cl_world (sp_client p))" using step_obs [OF c1(2)] step_obs [OF c2(2)] by simp
  have "shareSecret O' sid (JStr blob) address (JStr (ek_publicKey q)) expiry p = (Inr True, p\<lparr>sp_client := c2\<lparr>cl_world := w\<rparr>\<rparr>)"
    using c1(1) c2(1) post long by (simp add: shareSecret_def on_client_def andThen_apply rs_ok_def)
  moreover have "at_hand O' v key kdf a (c2\<lparr>cl_world := w\<rparr>)" using step_ready [OF c2(2)] by (simp add: at_hand_def open_with_def seed_fits_def)
  ultimately show thesis using that [of "p\<lparr>sp_client := c2\<lparr>cl_world := w\<rparr>\<rparr>" ?g blob'] w(1) k c2(3) by (simp add: share_request_def)
qed


text \<open>What the payload of a plain text is to the reader: shown as it is, and unwrapped to the text.\<close>

lemma signed_text_parses:
  "json_parse (json_text (JObj [(''content'', JStr c), (''signature'', JStr g), (''signerPublicKey'', JStr pk)])) =
     Some (JObj [(''content'', JStr c), (''signature'', JStr g), (''signerPublicKey'', JStr pk)])"
  by (rule json_parse_text) simp

lemma payload_shape:
  assumes "payload_of P a isSigned content payload" and "json_parse content = None" and "content \<noteq> []"
  obtains (plain) "\<not> isSigned" "payload = content" "json_parse payload = None"
    | (signed) g where "isSigned" "json_parse payload = Some (JObj [(''content'', JStr content), (''signature'', JStr g), (''signerPublicKey'', JStr (hp_publicKey (acc_identity a)))])"
      "signed_by P a (domainSeparate CTX_CONTENT content) (JStr g)" "truthy (JStr g)" "truthy (JStr (hp_publicKey (acc_identity a)))"
proof (cases isSigned)
  case True
  then obtain g where g: "payload = json_text (JObj [(''content'', JStr content), (''signature'', JStr g), (''signerPublicKey'', JStr (hp_publicKey (acc_identity a)))])"
      "signed_by P a (domainSeparate CTX_CONTENT content) (JStr g)" using assms(1) by (auto simp: payload_of_def simp del: json_text.simps)
  then show thesis using signed [OF True] signed_text_parses verified_texts(4,5) [OF g(2) [unfolded signed_by_def]] by metis
next
  case False
  then show thesis using plain assms by (simp add: payload_of_def)
qed

lemma plain_payload:
  assumes "payload_of P a isSigned content payload" and "json_parse content = None" and "content \<noteq> []"
  shows "chunked_result url O' sid fk payload s = (Inr None, s)" and "legacy_result url payload = None"
  using assms
  by (cases rule: payload_shape [consumes 3];
      simp add: chunked_result_def legacy_result_def tries_def catches_def andThen_apply parse_json_def not_null_def Let_def)+

lemma payload_reads:
  assumes p: "payload_of P a isSigned content payload" "json_parse content = None" "content \<noteq> []"
  shows "un_content (unwrapSignedDocument (JStr payload)) = JStr content"
    and "un_isSignedDoc (unwrapSignedDocument (JStr payload)) = isSigned"
    and "isSigned \<Longrightarrow> verifySignedDocument P (un_signedPayload (unwrapSignedDocument (JStr payload))) = (True, Some (acc_id a))"
proof -
  have "un_content (unwrapSignedDocument (JStr payload)) = JStr content \<and> un_isSignedDoc (unwrapSignedDocument (JStr payload)) = isSigned \<and>
      (isSigned \<longrightarrow> verifySignedDocument P (un_signedPayload (unwrapSignedDocument (JStr payload))) = (True, Some (acc_id a)))"
    using p
  proof (cases rule: payload_shape [consumes 3])
    case plain
    then show ?thesis using p(3) by (simp add: unwrapSignedDocument_def Let_def)
  next
    case (signed g)
    have "addressOf P (JStr (hp_publicKey (acc_identity a))) = Inr (acc_id a)"
      using verified_texts(1) [OF signed(3) [unfolded signed_by_def]] by (simp add: isAddressOf_iff)
    moreover have "payload \<noteq> []" using parsed_nonempty [OF signed(2)] .
    ultimately show ?thesis
      using signed p(3) by (simp add: unwrapSignedDocument_def verifySignedDocument_def signed_by_def array_of_def Let_def)
  qed
  then show "un_content (unwrapSignedDocument (JStr payload)) = JStr content" "un_isSignedDoc (unwrapSignedDocument (JStr payload)) = isSigned"
    "isSigned \<Longrightarrow> verifySignedDocument P (un_signedPayload (unwrapSignedDocument (JStr payload))) = (True, Some (acc_id a))" by blast+
qed

lemma open_run:
  assumes S: "sharing_setting O' kept pw v key kdf a" and srv: "serves_secrets O' kept" and r: "at_hand O' v key kdf a (sp_client p)"
    and o: "opens_key (ou_prims O') a blob k" and b: "fst (kept (cl_world (sp_client p))) (js_str sid) = Some b"
      "js_get b ''encrypted_data'' = JStr data" "opens_text (ou_prims O') k data payload"
    and row: "\<not> is_nullish row" "js_get row ''encrypted_key'' = JStr blob"
      "shared \<Longrightarrow> \<not> is_nullish (js_get row ''secret'')" "(if shared then js_get (js_get row ''secret'') ''id'' else js_get row ''id'') = sid"
    and c: "\<And>s. chunked_result url O' sid (JStr (toHex k)) payload s = (Inr None, s)" "legacy_result url payload = None"
  obtains p' where "web_handleDecrypt url O' row shared p = (Inr payload, p')" "at_hand O' v key kdf a (sp_client p')"
    "sp_decrypted p' = obj_put (shown_under row shared) (JStr payload) (sp_decrypted p)" "map_of (sp_keys p') blob = Some (JStr (toHex k))"
    "kept (cl_world (sp_client p')) = kept (cl_world (sp_client p))"
proof -
  obtain c1 where c1: "secureDecrypt O' (JStr blob) (sp_client p) = (Inr (JStr (toHex k)), c1)" "sign_step O' kept v key kdf a (sp_client p) c1"
    using secureDecrypt_step [OF S r o] .
  have b1: "fst (kept (cl_world c1)) (js_str sid) = Some b" using b(1) step_obs [OF c1(2)] by simp
  obtain x w where w: "kept w = kept (cl_world c1)" "\<not> is_nullish x" "js_get x ''encrypted_data'' = js_get b ''encrypted_data''"
      "ou_fetch O' \<lparr>rq_method = ''GET'', rq_url = SECRET O' sid, rq_token = map_option snd (cl_session c1), rq_body = None\<rparr> (cl_world c1) =
        (Inr \<lparr>rs_status = 200, rs_json = Some x\<rparr>, w)"
    using serves_get [OF srv b1] .
  have get: "apiFetch O' ''GET'' (SECRET O' sid) None c1 = (Inr x, c1\<lparr>cl_world := w\<rparr>)" by (rule apiFetch_ok [OF w(4)]) simp
  obtain env where env: "json_parse data = Some env" "decryptSymmetric (ou_prims O') env (JStr (toHex k)) = Inr payload"
    using b(3) by (auto simp: opens_text_def)
  have ne: "blob \<noteq> []" using o parsed_nonempty by (auto simp: opens_key_def)
  let ?q = "p\<lparr>sp_client := c1\<lparr>cl_world := w\<rparr>, sp_keys := obj_put blob (JStr (toHex k)) (sp_keys p),
      sp_decrypted := obj_put (shown_under row shared) (JStr payload) (sp_decrypted p)\<rparr>"
  have "open_secret url O' row shared p = (Inr payload, ?q)"
    using c1(1) get env w(2,3) b(2) row c ne
    by (simp add: open_secret_def not_null_def learn_key_def show_secret_def on_client_def andThen_apply updates_def parse_json_def Let_def)
  then have "web_handleDecrypt url O' row shared p = (Inr payload, ?q)" by (simp add: web_handleDecrypt_def tries_def catches_def)
  moreover have "at_hand O' v key kdf a (c1\<lparr>cl_world := w\<rparr>)" using step_ready [OF c1(2)] by (simp add: at_hand_def open_with_def seed_fits_def)
  ultimately show thesis using that [of ?q] w(1) step_obs [OF c1(2)] by simp
qed

text \<open>The key of a secret also opens its title.\<close>

lemma title_reads:
  assumes "opens_text P k title name"
  shows "decryptSecretTitle P (JStr (SECRET_MARKER @ title)) (JStr (toHex k)) = Inr (JStr name)"
proof -
  obtain env where env: "json_parse title = Some env" "decryptSymmetric P env (JStr (toHex k)) = Inr name"
    using assms by (auto simp: opens_text_def)
  then have "toHex k \<noteq> []" by (auto simp: decryptSymmetric_def aeadDecrypt_def importAesKey_def fromHex.simps)
  then show ?thesis using env by (simp add: decryptSecretTitle_def marked_def parse_json_def)
qed

end
