(* ===== verification/WebWorkProperties.thy ===== *)
theory WebWorkProperties
  imports WebSharing WebDemo
begin

text \<open>
  What the client's files, workflows and secrets guarantee: files come back as they were sent, the proof
  a verified workflow exports passes its audit, and a shared secret reaches its reader; and that the
  sharing dialog can run ahead of its own check.
\<close>

subsection \<open>Files\<close>

text \<open>C15: Files uploaded in chunks come back byte for byte. The description that goes into the secret
  parses, and downloading the range it gives for a file (or, for a single file, its number of chunks)
  brings back exactly that file under its type, whichever file is asked for.\<close>

theorem files_come_back:
  assumes "aead_correct (ou_prims O')" and "aes_key_ok key" and "serves_chunks O' store" and "draws_iv O'" and "k < length fs"
  shows "\<exists>m w w' r. json_parse (buildFileMetadata P hash fs) = Some m \<and>
    upload_selected O' body_text fs sid (JStr (toHex key)) s = (Inr r, s\<lparr>cl_world := w\<rparr>) \<and>
    (case js_get m ''files'' of
       JArr ms \<Rightarrow> length ms = length fs \<and> js_get (ms ! k) ''file_name'' = JStr (fi_name (fs ! k)) \<and>
         downloadFileByRange O' sid (JStr (toHex key)) (js_get (ms ! k) ''chunk_offset'') (js_get (ms ! k) ''total_chunks'')
           (js_get (ms ! k) ''mime_type'') (s\<lparr>cl_world := w\<rparr>) =
         (Inr \<lparr>bl_bytes = fi_bytes (fs ! k), bl_type = JStr (mime_of (fs ! k))\<rparr>, s\<lparr>cl_world := w'\<rparr>)
     | _ \<Rightarrow> length fs = 1 \<and> js_get m ''file_name'' = JStr (fi_name (fs ! k)) \<and>
         downloadChunkedFile O' sid (JStr (toHex key)) (js_get m ''total_chunks'') (js_get m ''mime_type'') (s\<lparr>cl_world := w\<rparr>) =
         (Inr \<lparr>bl_bytes = fi_bytes (fs ! k), bl_type = JStr (mime_of (fs ! k))\<rparr>, s\<lparr>cl_world := w'\<rparr>))"
proof (cases "length fs = 1")
  case True
  then obtain f where f: "fs = [f]" by (metis One_nat_def length_0_conv length_Suc_conv)
  obtain w r where w: "uploadChunkedFile O' body_text f sid (JStr (toHex key)) s = (Inr r, s\<lparr>cl_world := w\<rparr>)"
      "holds_file (ou_prims O') (store w) sid key 0 f"
    using upload_single_run [OF assms(1-4)] by metis
  obtain w' where "downloadChunkedFile O' sid (JStr (toHex key)) (JNum (int (chunks_in f))) (JStr (mime_of f)) (s\<lparr>cl_world := w\<rparr>) =
      (Inr \<lparr>bl_bytes = fi_bytes f, bl_type = JStr (mime_of f)\<rparr>, s\<lparr>cl_world := w'\<rparr>)"
    using download_file_run [OF assms(3), of "s\<lparr>cl_world := w\<rparr>" sid key 0 f] w(2) by (auto simp: download_single)
  then show ?thesis
    using w(1) assms(5) buildFileMetadata_one [of P hash f]
    by (intro exI [of _ "single_meta P hash f"] exI [of _ w] exI [of _ w'] exI [of _ r])
      (simp add: f upload_selected_def single_meta_def chunks_in_def)
next
  case False
  obtain m where m: "json_parse (buildFileMetadata P hash fs) = Some m" "js_get m ''files'' = JArr (files_meta P hash 0 fs)"
    using buildFileMetadata_many [OF False] by blast
  obtain w metas where w: "upload_files O' body_text sid (JStr (toHex key)) 0 fs s = (Inr metas, s\<lparr>cl_world := w\<rparr>)"
      "holds_file (ou_prims O') (store w) sid key (file_offset fs k) (fs ! k)"
    using upload_files_run [OF assms(1-4), of body_text sid 0 fs s] assms(5) by auto
  have up: "\<exists>r. upload_selected O' body_text fs sid (JStr (toHex key)) s = (Inr r, s\<lparr>cl_world := w\<rparr>)"
    using w(1) False assms(5) by (auto simp: upload_selected_def uploadMultipleChunkedFiles_def andThen_apply split: list.split)
  obtain w' where "downloadFileByRange O' sid (JStr (toHex key)) (JNum (int (file_offset fs k))) (JNum (int (chunks_in (fs ! k))))
      (JStr (mime_of (fs ! k))) (s\<lparr>cl_world := w\<rparr>) =
      (Inr \<lparr>bl_bytes = fi_bytes (fs ! k), bl_type = JStr (mime_of (fs ! k))\<rparr>, s\<lparr>cl_world := w'\<rparr>)"
    using download_file_run [OF assms(3), of "s\<lparr>cl_world := w\<rparr>" sid key "file_offset fs k" "fs ! k"] w(2) by auto
  then show ?thesis
    using m up files_meta_nth [OF assms(5), of P hash 0] by (auto simp: file_meta_def chunks_in_def)
qed

text \<open>A server that keeps every chunk under the url it is read at.\<close>

definition chunk_url :: "string \<Rightarrow> string \<Rightarrow> string" where
  "chunk_url sid i = ''https://api.example/secrets/'' @ sid @ ''/chunks/'' @ i"

definition chunk_server :: "web_request \<Rightarrow> (string \<Rightarrow> (jsval \<times> jsval) option, web_response) act" where
  "chunk_server r = (\<lambda>kept.
     if rq_method r = ''POST'' then
       (let b = the (rq_body r) in
        (Ok \<lparr>rs_status = 200, rs_json = Some JNull\<rparr>,
         kept(chunk_url (js_str (js_get b ''secret_id'')) (js_str (js_get b ''chunk_index'')) \<mapsto> (js_get b ''iv'', js_get b ''encrypted_data''))))
     else case kept (rq_url r) of
         Some (iv, c) \<Rightarrow> (Ok \<lparr>rs_status = 200, rs_json = Some (JObj [(''iv'', iv), (''encrypted_data'', c)])\<rparr>, kept)
       | None \<Rightarrow> (Ok \<lparr>rs_status = 404, rs_json = None\<rparr>, kept))"

definition kept_chunks :: "(string \<Rightarrow> (jsval \<times> jsval) option) \<Rightarrow> chunk_store" where
  "kept_chunks kept = (\<lambda>(sid, i). if CHR ''/'' \<in> set i then None else kept (chunk_url sid i))"

lemma chunk_url_inj:
  assumes "CHR ''/'' \<notin> set i" and "CHR ''/'' \<notin> set j"
  shows "chunk_url a i = chunk_url b j \<longleftrightarrow> a = b \<and> i = j"
proof -
  have r: "rev (x @ ''/chunks/'' @ y) = rev y @ CHR ''/'' # rev ''/chunks'' @ rev x" for x y :: string by simp
  have "a @ ''/chunks/'' @ i = b @ ''/chunks/'' @ j \<longleftrightarrow> rev (a @ ''/chunks/'' @ i) = rev (b @ ''/chunks/'' @ j)" by (simp only: rev_is_rev_conv)
  also have "\<dots> \<longleftrightarrow> a = b \<and> i = j"
    unfolding r using assms by (auto simp: sep_split)
  finally show ?thesis by (simp add: chunk_url_def)
qed

lemma int_str_no_slash: "CHR ''/'' \<notin> set (int_str i)"
proof -
  have "CHR ''/'' \<notin> set (nat_str n)" for n
    using nat_str_digits [of n] by (auto simp: list_all_iff is_digit_def)
  then show ?thesis by (simp add: int_str_def)
qed

lemma chunk_server_serves: "serves_chunks (demo_outside typing chunk_server) kept_chunks"
proof -
  let ?O = "demo_outside typing chunk_server"
  have post: "\<exists>w' v. kept_chunks w' = (kept_chunks w)((js_str sid, int_str i) \<mapsto> (iv, c)) \<and>
      ou_fetch ?O \<lparr>rq_method = ''POST'', rq_url = CHUNKS_UPLOAD ?O, rq_token = token, rq_body = Some (chunk_request sid i iv c)\<rparr> w =
        (Inr \<lparr>rs_status = 200, rs_json = Some v\<rparr>, w')" for token sid i iv c w
  proof (intro exI conjI)
    show "kept_chunks (w(chunk_url (js_str sid) (int_str i) \<mapsto> (iv, c))) = (kept_chunks w)((js_str sid, int_str i) \<mapsto> (iv, c))"
      using int_str_no_slash by (auto simp: kept_chunks_def fun_eq_iff chunk_url_inj)
    show "ou_fetch ?O \<lparr>rq_method = ''POST'', rq_url = CHUNKS_UPLOAD ?O, rq_token = token, rq_body = Some (chunk_request sid i iv c)\<rparr> w =
        (Inr \<lparr>rs_status = 200, rs_json = Some JNull\<rparr>, w(chunk_url (js_str sid) (int_str i) \<mapsto> (iv, c)))"
      by (simp add: chunk_server_def chunk_request_def)
  qed
  have get: "ou_fetch ?O \<lparr>rq_method = ''GET'', rq_url = CHUNK ?O sid i, rq_token = token, rq_body = None\<rparr> w =
      (Inr \<lparr>rs_status = 200, rs_json = Some (JObj [(''iv'', iv), (''encrypted_data'', c)])\<rparr>, w)"
    if "kept_chunks w (js_str sid, js_str i) = Some (iv, c)" for token sid i iv c w
    using that by (simp add: chunk_server_def kept_chunks_def CHUNK_def chunk_url_def split: if_splits)
  show ?thesis
    unfolding serves_chunks_def using demo_outside_laws(4) post get by metis
qed

lemma demo_draws_iv: "draws_iv (demo_outside typing fetch)"
  by (simp add: draws_iv_def) (simp add: WebDemo.demo_draws_def)

definition demo_file :: "string \<Rightarrow> bytes \<Rightarrow> local_file" where
  "demo_file name bs = \<lparr>fi_name = name, fi_type = [], fi_bytes = bs\<rparr>"

theorem files_come_back_witness:
  "\<exists>m w w' r. json_parse (buildFileMetadata demo_prims False [demo_file ''a'' [1, 2], demo_file ''b'' [3]]) = Some m \<and>
     upload_selected (demo_outside demo_password chunk_server) (\<lambda>_. []) [demo_file ''a'' [1, 2], demo_file ''b'' [3]] (JNum 7)
       (JStr (toHex (replicate 32 0))) (demo_client demo_account True Map.empty) =
       (Inr r, (demo_client demo_account True Map.empty)\<lparr>cl_world := w\<rparr>) \<and>
     (case js_get m ''files'' of
       JArr ms \<Rightarrow> downloadFileByRange (demo_outside demo_password chunk_server) (JNum 7) (JStr (toHex (replicate 32 0)))
           (js_get (ms ! 1) ''chunk_offset'') (js_get (ms ! 1) ''total_chunks'') (js_get (ms ! 1) ''mime_type'')
           ((demo_client demo_account True Map.empty)\<lparr>cl_world := w\<rparr>) =
         (Inr \<lparr>bl_bytes = [3], bl_type = JStr ''application/octet-stream''\<rparr>, (demo_client demo_account True Map.empty)\<lparr>cl_world := w'\<rparr>)
     | _ \<Rightarrow> False)"
proof -
  let ?O = "demo_outside demo_password chunk_server" and ?fs = "[demo_file ''a'' [1, 2], demo_file ''b'' [3]]"
  have P: "aead_correct (ou_prims ?O)" using demo_aead by simp
  have key: "aes_key_ok (replicate 32 0)" by (simp add: aes_key_ok_def)
  have k: "1 < length ?fs" by simp
  show ?thesis
    using files_come_back [OF P key chunk_server_serves demo_draws_iv k, of demo_prims False "\<lambda>_. []" "JNum 7" "demo_client demo_account True Map.empty"]
    by (fastforce simp: demo_file_def mime_of_def split: jsval.splits)
qed

subsection \<open>Proofs\<close>


lemma verified_interpretation:
  assumes "interpretDecryptedContent O' text' fileKey wk s = (Inr r, t)" and "ip_status r = Verified_doc"
    and oa: "js_get wk ''owner_address'' = JStr oa"
  shows "\<exists>d. json_parse text' = Some d \<and> verifyIdentitySignature (ou_prims O') (JStr (to_lower oa)) (js_get d ''signerPublicKey'')
    (domainSeparate CTX_CONTENT (js_str (ip_signedContent r))) (ip_signature r)"
proof -
  define parsed where "parsed = (case json_parse text' of None \<Rightarrow> JUndef | Some v \<Rightarrow> v)"
  obtain valid signer where v: "verifySignedDocument (ou_prims O') parsed = (valid, signer)" by fastforce
  have low: "lower_or_empty (JStr oa) = Inr (to_lower oa)" by (simp add: lower_or_empty_def to_lower_def)
  have w: "is_signed_wrapper parsed"
    using assms(1,2) by (auto simp: interpretDecryptedContent_def ret_def parsed_def [symmetric] Let_def split: if_splits)
  obtain c where r: "r = \<lparr>ip_status = (if \<not> valid then Failed_doc else if to_lower oa \<noteq> [] \<and> signer = Some (to_lower oa) then Verified_doc else Mismatch_doc),
      ip_matchesOwner = to_lower oa \<noteq> [] \<and> signer = Some (to_lower oa), ip_signer = signer, ip_signature = js_get parsed ''signature'',
      ip_signedContent = js_get parsed ''content'', ip_raw = text', ip_content = c\<rparr>"
    using assms(1) w v
    by (auto simp: interpretDecryptedContent_def parsed_def [symmetric] oa low andThen_apply ret_def Let_def split: sum.splits prod.splits)
  then have "valid" "signer = Some (to_lower oa)" using assms(2) by (auto split: if_splits)
  then have "verifyIdentitySignature (ou_prims O') (JStr (to_lower oa)) (js_get parsed ''signerPublicKey'')
      (domainSeparate CTX_CONTENT (js_str (ip_signedContent r))) (ip_signature r)"
    using v r by (auto simp: verifySignedDocument_def split: sum.splits)
  moreover have "json_parse text' = Some parsed"
    using w by (cases "json_parse text'") (auto simp: parsed_def is_signed_wrapper_def)
  ultimately show ?thesis by blast
qed

text \<open>C14: The proof exported for a verified workflow passes its audit. When the creator's signature in
  the opened document verifies against the workflow's owner, the server names for the owner and for
  every signer who signed a key of their address, and each approval is signed by that key over the
  stored ciphertext, the export goes through, its text parses, and the audit finds every signature
  in it valid: the creator's and one for each signer. The only way out: the signer key the document
  names and the key the server names for the owner are two different keys of the owner's address,
  whose digests collide.\<close>

theorem exported_proof_audits_clean:
  assumes "interpretDecryptedContent O' text' fileKey wk s = (Inr r, t)" and "ip_status r = Verified_doc"
    and "ip_signedContent r = JStr c" and "c \<noteq> []"
    and "workflow_whole wk name signers" and "js_get wk ''owner_address'' = JStr oa"
    and "isAddressOf (ou_prims O') (JStr (to_lower oa)) (js_get (js_get wk ''owner'') ''identity_public_key'')"
    and "\<And>x. x \<in> set (signed_signers signers) \<Longrightarrow> \<exists>a. js_get x ''user_address'' = JStr a \<and>
      verifyIdentitySignature (ou_prims O') (JStr (to_lower a)) (js_get (js_get x ''user'') ''identity_public_key'')
        (approval_text (ou_prims O') wk) (js_get x ''signature'')"
  shows "(\<exists>out file' p rs. downloadMultisigProof (ou_prims O') date wk (ip_signature r) (ip_signedContent r) (ip_raw r) (ip_status r) = Inr (out, file') \<and>
      json_parse out = Some p \<and> verifyMultisigProofSignatures (ou_prims O') p = Inr rs \<and>
      length rs = Suc (length (signed_signers signers)) \<and> list_all au_valid rs) \<or>
    (\<exists>d. json_parse text' = Some d \<and>
       key_collision (ou_prims O') (js_get d ''signerPublicKey'') (js_get (js_get wk ''owner'') ''identity_public_key''))"
proof -
  let ?P = "ou_prims O'" and ?k = "js_get (js_get wk ''owner'') ''identity_public_key''" and ?ap = "approval_text (ou_prims O') wk"
  let ?es = "proof_entry (js_get wk ''owner_address'') (js_get wk ''owner'') (ip_signature r) (js_get wk ''created_at'') ''creator'' #
      map signer_entry (signed_signers signers)"
  obtain d where d: "json_parse text' = Some d"
    and v: "verifyIdentitySignature ?P (JStr (to_lower oa)) (js_get d ''signerPublicKey'') (domainSeparate CTX_CONTENT c) (ip_signature r)"
    using verified_interpretation [OF assms(1,2,6)] assms(3) by auto
  show ?thesis
  proof (cases "js_get d ''signerPublicKey'' = ?k")
    case False
    then show ?thesis using address_binds_key [OF verified_texts(1) [OF v] assms(7)] d by blast
  next
    case True
    have g: "js_pure (ip_signature r)" "truthy (ip_signature r)" using verified_texts(2,4) [OF v] by auto
    obtain out file' p where p: "downloadMultisigProof ?P date wk (ip_signature r) (JStr c) (ip_raw r) Verified_doc = Inr (out, file')"
        "json_parse out = Some p" "\<not> is_nullish p" "assertProofVersion p = Inr ()" "js_get (js_get p ''document'') ''content'' = JStr c"
        "js_get (js_get p ''document'') ''ciphertext_sha384'' = JStr (sha384Hex ?P (js_str (js_get (js_get wk ''secret'') ''encrypted_data'')))"
        "js_get (js_get p ''workflow'') ''id'' = js_get wk ''id''" "js_get (js_get p ''workflow'') ''secret_id'' = js_get wk ''secret_id''"
        "js_get p ''signatures'' = JArr ?es"
      using exported_proof [OF assms(5) g assms(4)] by metis
    have body: "multisigApprovalMessage (js_str (js_get (js_get p ''workflow'') ''id'')) (js_str (js_get (js_get p ''workflow'') ''secret_id''))
        (sha384Hex ?P (js_str (js_get (js_get wk ''secret'') ''encrypted_data''))) = ?ap"
      by (simp only: approval_text_def p(7,8))
    have "\<not> is_nullish e \<and> (\<exists>x. audit_entry ?P (domainSeparate CTX_CONTENT c) (Some ?ap) e = Inr x \<and> au_valid x)" if e: "e \<in> set ?es" for e
    proof (cases "e = hd ?es")
      case True
      then show ?thesis
        using audit_entry_valid [of ?P oa "js_get wk ''owner''" "domainSeparate CTX_CONTENT c" "ip_signature r" "''creator''" ?ap "domainSeparate CTX_CONTENT c"]
          v \<open>js_get d ''signerPublicKey'' = ?k\<close> by (simp add: assms(6))
    next
      case False
      then obtain x where x: "x \<in> set (signed_signers signers)" "e = signer_entry x" using e by auto
      obtain a where a: "js_get x ''user_address'' = JStr a" "verifyIdentitySignature ?P (JStr (to_lower a))
          (js_get (js_get x ''user'') ''identity_public_key'') ?ap (js_get x ''signature'')" using assms(8) [OF x(1)] by blast
      show ?thesis
        using audit_entry_valid [OF a(2), of "''signer''" ?ap] x(2) a(1) by (simp add: signer_entry_def)
    qed
    then obtain rs where "verifyMultisigProofSignatures ?P p = Inr rs" "length rs = length ?es" "list_all au_valid rs"
      using audited_proof [OF p(3-6,9), of ?P] body by metis
    then show ?thesis using p(1,2) assms(2,3) by auto
  qed
qed


text \<open>A workflow whose owner is its one signer.\<close>

definition demo_workflow :: "string \<Rightarrow> jsval \<Rightarrow> string \<Rightarrow> jsval" where
  "demo_workflow a key approval = JObj
     [(''id'', JNum 1), (''name'', JStr ''Deal''), (''status'', JStr ''completed''), (''created_at'', JStr ''2026''), (''secret_id'', JNum 2),
      (''owner_address'', JStr a), (''owner'', JObj [(''identity_public_key'', key)]), (''secret'', JObj [(''encrypted_data'', JStr ''{}'')]),
      (''signers'', JArr [JObj [(''user_address'', JStr a), (''user'', JObj [(''identity_public_key'', key)]), (''has_signed'', JBool True),
         (''signature'', JStr approval), (''signed_at'', JStr ''2026'')]])]"

lemma demo_content_plain: "json_parse ''hello'' = None"
  by code_simp

lemma demo_numbers: "int_str 1 = ''1''" "int_str 2 = ''2''"
  by code_simp+

lemma demo_inner: "inner_content O' sid k (JStr ''hello'') = (\<lambda>s. (Inl SyntaxError, s))"
  by (rule ext) (simp add: inner_content_def andThen_apply parse_json_def demo_content_plain)

lemma demo_interpreted:
  assumes "json_parse raw = Some (JObj [(''content'', JStr ''hello''), (''signature'', JStr g), (''signerPublicKey'', key)])"
    and "verifyIdentitySignature demo_prims (JStr a) key (domainSeparate CTX_CONTENT ''hello'') (JStr g)" and "to_lower a = a" "a \<noteq> []"
  shows "\<exists>r. interpretDecryptedContent (demo_outside typing fetch) raw fileKey (demo_workflow a key h) s = (Inr r, s) \<and>
    ip_status r = Verified_doc \<and> ip_signedContent r = JStr ''hello'' \<and> ip_signature r = JStr g"
proof -
  have "truthy (JStr g)" "truthy key" using verified_texts(4,5) [OF assms(2)] by auto
  moreover have "addressOf demo_prims key = Inr a" using verified_texts(1) [OF assms(2)] by (simp add: isAddressOf_iff)
  moreover have "lower_or_empty (JStr a) = Inr a" using assms(3) by (simp add: lower_or_empty_def)
  ultimately show ?thesis
    using assms(1,2,4) by (simp add: interpretDecryptedContent_def is_signed_wrapper_def verifySignedDocument_def demo_workflow_def
      demo_inner andThen_apply ret_def tries_def catches_def Let_def)
qed

theorem exported_proof_audits_clean_witness:
  "\<exists>a key g h raw wk r out file' p rs.
     interpretDecryptedContent (demo_outside demo_password chunk_server) raw JNull wk (demo_client demo_account True Map.empty) =
       (Inr r, demo_client demo_account True Map.empty) \<and> ip_status r = Verified_doc \<and> wk = demo_workflow a key h \<and> ip_signature r = JStr g \<and>
     downloadMultisigProof demo_prims ''2026'' wk (ip_signature r) (ip_signedContent r) (ip_raw r) (ip_status r) = Inr (out, file') \<and>
     json_parse out = Some p \<and> verifyMultisigProofSignatures demo_prims p = Inr rs \<and> length rs = 2 \<and> list_all au_valid rs"
proof -
  let ?O = "demo_outside demo_password chunk_server" and ?s = "demo_client demo_account True Map.empty"
  obtain pk a where own: "own_identity demo_prims (replicate 80 0) pk a"
    using own_identity_exists [OF demo_signature, of "replicate 80 0"] by (auto simp: composite_usable_def demo_prims_def)
  let ?key = "JStr (toHex pk)" and ?ap = "multisigApprovalMessage ''1'' ''2'' (sha384Hex demo_prims ''{}'')"
  obtain g where g: "verifyIdentitySignature demo_prims (JStr a) ?key (domainSeparate CTX_CONTENT ''hello'') (JStr g)"
    using own_signature_verifies [OF demo_signature demo_digest own, of "domainSeparate CTX_CONTENT ''hello''" "([], [])"] by blast
  obtain h where h: "verifyIdentitySignature demo_prims (JStr a) ?key ?ap (JStr h)"
    using own_signature_verifies [OF demo_signature demo_digest own, of ?ap "([], [])"] by blast
  have isa: "isAddress (JStr a)" using own_isAddress [OF demo_digest own] .
  have low: "to_lower a = a" using address_lower [OF isa] .
  have a: "a \<noteq> []" using isa by (auto simp: ADDRESS_HEX_LENGTH_def)
  have th: "truthy (JStr h)" using verified_texts(4) [OF h] .
  let ?v = "JObj [(''content'', JStr ''hello''), (''signature'', JStr g), (''signerPublicKey'', ?key)]"
  have "js_pure ?v" by simp
  then have raw: "json_parse (json_text ?v) = Some ?v" by (rule json_parse_text)
  obtain r where r: "interpretDecryptedContent ?O (json_text ?v) JNull (demo_workflow a ?key h) ?s = (Inr r, ?s)" "ip_status r = Verified_doc" "ip_signedContent r = JStr ''hello''" "ip_signature r = JStr g"
    using demo_interpreted [OF raw g low a] by blast
  have wk: "workflow_whole (demo_workflow a ?key h) ''Deal'' [JObj [(''user_address'', JStr a), (''user'', JObj [(''identity_public_key'', ?key)]),
      (''has_signed'', JBool True), (''signature'', JStr h), (''signed_at'', JStr ''2026'')]]"
    by (simp add: workflow_whole_def demo_workflow_def)
  have fields: "js_get (demo_workflow a ?key h) ''owner_address'' = JStr a"
      "js_get (js_get (demo_workflow a ?key h) ''owner'') ''identity_public_key'' = ?key"
      "approval_text demo_prims (demo_workflow a ?key h) = ?ap"
    by (simp_all add: demo_workflow_def approval_text_def demo_numbers)
  have owner: "isAddressOf (ou_prims ?O) (JStr (to_lower a)) (js_get (js_get (demo_workflow a ?key h) ''owner'') ''identity_public_key'')"
    using verified_texts(1) [OF g] low by (simp add: fields)
  have none: "\<not> key_collision demo_prims ?key ?key" by (auto simp: key_collision_def sha384_collision_def toHex_inj)
  have "\<exists>out file' p rs. downloadMultisigProof demo_prims ''2026'' (demo_workflow a ?key h) (ip_signature r) (ip_signedContent r) (ip_raw r) (ip_status r) = Inr (out, file') \<and>
      json_parse out = Some p \<and> verifyMultisigProofSignatures demo_prims p = Inr rs \<and> length rs = 2 \<and> list_all au_valid rs"
    using exported_proof_audits_clean [OF r(1-3) _ wk fields(1) owner, of "''2026''"] h th none raw
    by (simp add: signed_signers_def fields low numeral_2_eq_2)
  then show ?thesis using r by metis
qed


subsection \<open>Secrets\<close>

text \<open>C6: A shared secret reaches its reader. The owner makes a secret of a plain text, signed or not, and
  shares it with any key, current or retired, of another account; the owner and the reader, each with
  only their own vault, both open what the server keeps, and read the same: the text, whether it is a
  signed document, and if so a signature that verifies as the owner's. The key the reader learned
  opens the title.\<close>

theorem shared_secret_reaches_its_reader:
  assumes "sharing_setting O1 kept pw1 v1 key1 kdf1 a" and "sharing_setting O2 kept pw2 v2 key2 kdf2 b" and "ou_prims O2 = ou_prims O1"
    and "serves_secrets O1 kept" and "serves_secrets O2 kept"
    and "at_hand O1 v1 key1 kdf1 a (sp_client p)" and "at_hand O2 v2 key2 kdf2 b (sp_client q)"
    and "cl_identityKey (sp_client p) = Some (hp_publicKey (acc_identity a))"
    and "own \<in> set (account_keys a)" and "theirs \<in> set (account_keys b)" and "json_parse content = None" and "content \<noteq> []"
  shows "\<exists>p1 p2 p3 q1 sid row g shown.
    createSecret O1 body_text (JStr (ek_publicKey own)) name type' content isSigned [] p = (Inr True, p1) \<and>
    fst (kept (cl_world (sp_client p1))) (js_str sid) = Some row \<and>
    shareSecret O1 sid (js_get row ''encrypted_key'') address (JStr (ek_publicKey theirs)) expiry p1 = (Inr True, p2) \<and>
    snd (kept (cl_world (sp_client p2))) = g # snd (kept (cl_world (sp_client p1))) \<and>
    web_handleDecrypt url O1 (JObj [(''id'', sid), (''encrypted_key'', js_get row ''encrypted_key'')]) False p2 = (Inr shown, p3) \<and>
    web_handleDecrypt url O2 (JObj [(''id'', gid), (''encrypted_key'', js_get g ''encrypted_key''), (''secret'', JObj [(''id'', js_get g ''secret_id'')])]) True
      (q\<lparr>sp_client := (sp_client q)\<lparr>cl_world := cl_world (sp_client p3)\<rparr>\<rparr>) = (Inr shown, q1) \<and>
    un_content (unwrapSignedDocument (JStr shown)) = JStr content \<and>
    un_isSignedDoc (unwrapSignedDocument (JStr shown)) = isSigned \<and>
    (isSigned \<longrightarrow> verifySignedDocument (ou_prims O2) (un_signedPayload (unwrapSignedDocument (JStr shown))) = (True, Some (acc_id a))) \<and>
    decryptSecretTitle (ou_prims O2) (js_get row ''name'') (the (map_of (sp_keys q1) (js_str (js_get g ''encrypted_key'')))) = Inr (JStr name)"
proof -
  let ?P = "ou_prims O1"
  have i: "isSigned \<Longrightarrow> cl_identityKey (sp_client p) = Some (hp_publicKey (acc_identity a))" using assms(8) .
  obtain p1 sid k blob payload where c: "createSecret O1 body_text (JStr (ek_publicKey own)) name type' content isSigned [] p = (Inr True, p1)"
      "at_hand O1 v1 key1 kdf1 a (sp_client p1)" "payload_of ?P a isSigned content payload"
      "holds_secret ?P a (kept (cl_world (sp_client p1))) sid k blob name payload"
    using create_run [OF assms(1,4,6) i assms(9)] by metis
  obtain row title data where h: "fst (kept (cl_world (sp_client p1))) (js_str sid) = Some row" "js_get row ''name'' = JStr (SECRET_MARKER @ title)"
      "js_get row ''encrypted_data'' = JStr data" "js_get row ''encrypted_key'' = JStr blob" "opens_text ?P k title name"
      "opens_text ?P k data payload" "opens_key ?P a blob k"
    using c(4) by (auto simp: holds_secret_def)
  have b: "account_ok ?P b" using sharing_facts(10) [OF assms(2)] assms(3) by simp
  obtain p2 g blob' where sh: "shareSecret O1 sid (JStr blob) address (JStr (ek_publicKey theirs)) expiry p1 = (Inr True, p2)"
      "at_hand O1 v1 key1 kdf1 a (sp_client p2)" "kept (cl_world (sp_client p2)) = (fst (kept (cl_world (sp_client p1))), g # snd (kept (cl_world (sp_client p1))))"
      "js_get g ''secret_id'' = sid" "js_get g ''encrypted_key'' = JStr blob'" "opens_key ?P b blob' k"
    using share_run [OF assms(1,4) c(2) h(7) b assms(10)] by metis
  note quiet = plain_payload [OF c(3) assms(11,12)]
  have h2: "fst (kept (cl_world (sp_client p2))) (js_str sid) = Some row" using h(1) sh(3) by simp
  let ?mine = "JObj [(''id'', sid), (''encrypted_key'', JStr blob)]"
  obtain p3 where p3: "web_handleDecrypt url O1 ?mine False p2 = (Inr payload, p3)"
      "kept (cl_world (sp_client p3)) = kept (cl_world (sp_client p2))"
    by (rule open_run [OF assms(1,4) sh(2) h(7) h2 h(3,6), where row = ?mine and shared = False and url = url]) (auto simp: quiet intro: that)
  let ?q = "q\<lparr>sp_client := (sp_client q)\<lparr>cl_world := cl_world (sp_client p3)\<rparr>\<rparr>"
  let ?theirs = "JObj [(''id'', gid), (''encrypted_key'', JStr blob'), (''secret'', JObj [(''id'', sid)])]"
  have rq: "at_hand O2 v2 key2 kdf2 b (sp_client ?q)" using assms(7) by (simp add: at_hand_def open_with_def seed_fits_def)
  have h3: "fst (kept (cl_world (sp_client ?q))) (js_str sid) = Some row" using h2 p3(2) by simp
  have o: "opens_key (ou_prims O2) b blob' k" "opens_text (ou_prims O2) k data payload" using sh(6) h(6) assms(3) by simp_all
  obtain q1 where q1: "web_handleDecrypt url O2 ?theirs True ?q = (Inr payload, q1)" "map_of (sp_keys q1) blob' = Some (JStr (toHex k))"
    by (rule open_run [OF assms(2,5) rq o(1) h3 h(3) o(2), where row = ?theirs and shared = True and url = url]) (auto simp: quiet intro: that)
  show ?thesis
    using c(1) h(1,2,4) sh(1,3,4,5) p3(1) q1 payload_reads [OF c(3) assms(11,12)] title_reads [OF h(5)] assms(3)
    by (intro exI [of _ p1] exI [of _ p2] exI [of _ p3] exI [of _ q1] exI [of _ sid] exI [of _ row] exI [of _ g] exI [of _ payload]) simp
qed

text \<open>A server that numbers the secrets it is sent, keeps the shares, and lists nothing.\<close>

definition secrets_prefix :: string where
  "secrets_prefix = ''https://api.example/secrets/''"

definition secrets_server :: "web_request \<Rightarrow> (kept_secrets \<times> nat, web_response) act" where
  "secrets_server r = (\<lambda>((rows, grants), n).
     if rq_method r = ''POST'' then
       (if rq_url r = ''https://api.example/secrets''
        then (Ok \<lparr>rs_status = 200, rs_json = Some (JObj [(''id'', JNum (int n))])\<rparr>, ((rows(int_str (int n) := rq_body r), grants), Suc n))
        else (Ok \<lparr>rs_status = 200, rs_json = Some JNull\<rparr>, ((rows, the (rq_body r) # grants), n)))
     else if starts_with (rq_url r) secrets_prefix then
       (case rows (drop (length secrets_prefix) (rq_url r)) of
          Some b \<Rightarrow> (Ok \<lparr>rs_status = 200, rs_json = Some (JObj [(''encrypted_data'', js_get b ''encrypted_data'')])\<rparr>, ((rows, grants), n))
        | None \<Rightarrow> (Ok \<lparr>rs_status = 404, rs_json = None\<rparr>, ((rows, grants), n)))
     else (Ok \<lparr>rs_status = 200, rs_json = Some (JArr [])\<rparr>, ((rows, grants), n)))"

lemma secrets_server_serves: "serves_secrets (demo_outside typing secrets_server) fst"
proof -
  let ?O = "demo_outside typing secrets_server"
  have create: "ou_fetch ?O \<lparr>rq_method = ''POST'', rq_url = SECRETS ?O, rq_token = token, rq_body = Some b\<rparr> ((rows, grants), n) =
      (Inr \<lparr>rs_status = 200, rs_json = Some (JObj [(''id'', JNum (int n))])\<rparr>, ((rows(js_str (JNum (int n)) \<mapsto> b), grants), Suc n))"
    for token b rows grants n by (simp add: secrets_server_def SECRETS_def)
  have get: "ou_fetch ?O \<lparr>rq_method = ''GET'', rq_url = SECRET ?O sid, rq_token = token, rq_body = None\<rparr> ((rows, grants), n) =
      (Inr \<lparr>rs_status = 200, rs_json = Some (JObj [(''encrypted_data'', js_get b ''encrypted_data'')])\<rparr>, ((rows, grants), n))"
    if "rows (js_str sid) = Some b" for token sid b rows grants n
    using that by (simp add: secrets_server_def SECRET_def secrets_prefix_def starts_with_def)
  have list: "ou_fetch ?O \<lparr>rq_method = ''GET'', rq_url = pageUrl (SECRETS ?O) limit offset, rq_token = token, rq_body = None\<rparr> ((rows, grants), n) =
      (Inr \<lparr>rs_status = 200, rs_json = Some (JArr [])\<rparr>, ((rows, grants), n))" for token limit offset rows grants n
    by (simp add: secrets_server_def SECRETS_def pageUrl_def secrets_prefix_def starts_with_def)
  have share: "ou_fetch ?O \<lparr>rq_method = ''POST'', rq_url = SHARE ?O, rq_token = token, rq_body = Some b\<rparr> ((rows, grants), n) =
      (Inr \<lparr>rs_status = 200, rs_json = Some JNull\<rparr>, ((rows, b # grants), n))" for token b rows grants n
    by (simp add: secrets_server_def SHARE_def)
  show ?thesis
    unfolding serves_secrets_def
  proof (intro conjI allI impI)
    show "untouched ?O fst" by (rule demo_outside_laws(4))
  next
    fix token b and w :: "kept_secrets \<times> nat"
    obtain rows grants n where w: "w = ((rows, grants), n)" by (metis prod.collapse)
    show "\<exists>i v w'. fst w' = ((fst (fst w))(js_str i \<mapsto> b), snd (fst w)) \<and> js_get v ''id'' = i \<and>
        ou_fetch ?O \<lparr>rq_method = ''POST'', rq_url = SECRETS ?O, rq_token = token, rq_body = Some b\<rparr> w = (Inr \<lparr>rs_status = 200, rs_json = Some v\<rparr>, w')"
      unfolding w create by (intro exI [of _ "JNum (int n)"] exI [of _ "JObj [(''id'', JNum (int n))]"]
        exI [of _ "((rows(js_str (JNum (int n)) \<mapsto> b), grants), Suc n)"]) simp
    show "\<exists>v w'. fst w' = (fst (fst w), b # snd (fst w)) \<and>
        ou_fetch ?O \<lparr>rq_method = ''POST'', rq_url = SHARE ?O, rq_token = token, rq_body = Some b\<rparr> w = (Inr \<lparr>rs_status = 200, rs_json = Some v\<rparr>, w')"
      unfolding w share by simp
  next
    fix token sid b and w :: "kept_secrets \<times> nat"
    assume "fst (fst w) (js_str sid) = Some b"
    moreover obtain rows grants n where w: "w = ((rows, grants), n)" by (metis prod.collapse)
    ultimately have r: "rows (js_str sid) = Some b" by simp
    show "\<exists>v w'. fst w' = fst w \<and> \<not> is_nullish v \<and> js_get v ''encrypted_data'' = js_get b ''encrypted_data'' \<and>
        ou_fetch ?O \<lparr>rq_method = ''GET'', rq_url = SECRET ?O sid, rq_token = token, rq_body = None\<rparr> w = (Inr \<lparr>rs_status = 200, rs_json = Some v\<rparr>, w')"
      unfolding w get [of rows sid b, OF r] by (intro exI [of _ "JObj [(''encrypted_data'', js_get b ''encrypted_data'')]"] exI [of _ "((rows, grants), n)"]) simp
  next
    fix token limit offset and w :: "kept_secrets \<times> nat"
    obtain rows grants n where w: "w = ((rows, grants), n)" by (metis prod.collapse)
    show "\<exists>xs w'. fst w' = fst w \<and> list_all (listed_row (ou_prims ?O)) xs \<and>
        ou_fetch ?O \<lparr>rq_method = ''GET'', rq_url = pageUrl (SECRETS ?O) limit offset, rq_token = token, rq_body = None\<rparr> w =
          (Inr \<lparr>rs_status = 200, rs_json = Some (JArr xs)\<rparr>, w')"
      unfolding w list by simp
  qed
qed

definition demo_hook :: "account \<Rightarrow> (kept_secrets \<times> nat) secrets_page" where
  "demo_hook a = \<lparr>sp_client = (demo_client a False ((Map.empty, []), 1))\<lparr>cl_identityKey := Some (hp_publicKey (acc_identity a))\<rparr>,
     sp_secrets = [], sp_shared = [], sp_loading = True, sp_decrypted = [], sp_keys = []\<rparr>"

lemma demo_sharing:
  assumes "account_ok demo_prims a"
  shows "sharing_setting (demo_outside demo_password fetch) obs demo_password (vault_of a) demo_key demo_descriptor a"
  using assms demo_typed demo_derives demo_aead demo_signature demo_digest demo_envelope
  by (simp add: sharing_setting_def signing_setting_def draws_keys_def demo_outside_laws) (simp add: WebDemo.demo_draws_def)

lemma demo_hook_ready:
  assumes "account_ok demo_prims a"
  shows "at_hand (demo_outside demo_password fetch) (vault_of a) demo_key demo_descriptor a (sp_client (demo_hook a))"
  using demo_open [OF assms, of demo_password fetch False "((Map.empty, []), 1)"]
  by (simp add: at_hand_def demo_hook_def open_with_def seed_fits_def demo_service_def web_initial_def)

theorem shared_secret_reaches_its_reader_witness:
  "\<exists>p1 p2 p3 q1 sid row g shown.
    createSecret (demo_outside demo_password secrets_server) (\<lambda>_. []) (JStr (ek_publicKey (acc_encryption demo_account))) ''Plans'' ''standard'' ''hello'' True []
      (demo_hook demo_account) = (Inr True, p1) \<and>
    fst (fst (cl_world (sp_client p1))) (js_str sid) = Some row \<and>
    shareSecret (demo_outside demo_password secrets_server) sid (js_get row ''encrypted_key'') (JStr ''b'')
      (JStr (ek_publicKey (acc_encryption demo_rotated))) 0 p1 = (Inr True, p2) \<and>
    snd (fst (cl_world (sp_client p2))) = g # snd (fst (cl_world (sp_client p1))) \<and>
    web_handleDecrypt (\<lambda>_. []) (demo_outside demo_password secrets_server) (JObj [(''id'', sid), (''encrypted_key'', js_get row ''encrypted_key'')]) False p2 =
      (Inr shown, p3) \<and>
    web_handleDecrypt (\<lambda>_. []) (demo_outside demo_password secrets_server)
      (JObj [(''id'', JNum 3), (''encrypted_key'', js_get g ''encrypted_key''), (''secret'', JObj [(''id'', js_get g ''secret_id'')])]) True
      ((demo_hook demo_rotated)\<lparr>sp_client := (sp_client (demo_hook demo_rotated))\<lparr>cl_world := cl_world (sp_client p3)\<rparr>\<rparr>) = (Inr shown, q1) \<and>
    un_content (unwrapSignedDocument (JStr shown)) = JStr ''hello'' \<and> un_isSignedDoc (unwrapSignedDocument (JStr shown)) \<and>
    verifySignedDocument demo_prims (un_signedPayload (unwrapSignedDocument (JStr shown))) = (True, Some (acc_id demo_account)) \<and>
    decryptSecretTitle demo_prims (js_get row ''name'') (the (map_of (sp_keys q1) (js_str (js_get g ''encrypted_key'')))) = Inr (JStr ''Plans'')"
proof -
  let ?O = "demo_outside demo_password secrets_server"
  have P: "ou_prims ?O = ou_prims ?O" ..
  have i: "cl_identityKey (sp_client (demo_hook demo_account)) = Some (hp_publicKey (acc_identity demo_account))" by (simp add: demo_hook_def)
  have own: "acc_encryption x \<in> set (account_keys x)" for x by (simp add: account_keys_def)
  have plain: "json_parse ''hello'' = None" "''hello'' \<noteq> []" by code_simp+
  show ?thesis
    using shared_secret_reaches_its_reader [OF demo_sharing [OF demo_account_ok] demo_sharing [OF demo_rotated(1)] P
      secrets_server_serves secrets_server_serves demo_hook_ready [OF demo_account_ok] demo_hook_ready [OF demo_rotated(1)] i own own plain,
      of "\<lambda>_. []" "''Plans''" "''standard''" True "JStr ''b''" 0 "\<lambda>_. []" "JNum 3"]
    by (simp only: demo_outside_fields simp_thms)
qed


text \<open>C40: The sharing dialog does not wait for its own check of the recipient. Picking a recipient whose key
  fails its attestation leaves the last verdict in place until the check is done; a share confirmed in
  that time goes through, and the server's key opens the secret. Once the verdict is in, the same share
  is blocked.\<close>

theorem share_before_the_verdict:
  assumes "sharing_setting O' kept pw v key kdf a" and "serves_secrets O' kept" and "at_hand O' v key kdf a (sp_client p)"
    and "opens_key (ou_prims O') a blob k" and "account_ok (ou_prims O') b" and "theirs \<in> set (account_keys b)"
    and "ct_encryptionKey c = JStr (ek_publicKey theirs)" and "attestationStatus (ou_prims O') c = Invalid"
    and "checkContactKey (ws_trust (cl_vault (sp_client p))) (ct_address c) (ct_encryptionKey c) \<noteq> Changed"
    and "sd_attStatus d = Verified \<or> sd_attStatus d = Unattested"
  shows "(\<exists>d' p' g blob'. handleShare O' False (JObj [(''id'', sid), (''encrypted_key'', JStr blob)])
        (pick_recipient (ws_trust (cl_vault (sp_client p))) (Some c) d) p = (Inr (d', Share_done), p') \<and>
      snd (kept (cl_world (sp_client p'))) = g # snd (kept (cl_world (sp_client p))) \<and>
      js_get g ''encrypted_key'' = JStr blob' \<and> opens_key (ou_prims O') b blob' k) \<and>
    (\<exists>d' m. handleShare O' proceed (JObj [(''id'', sid), (''encrypted_key'', JStr blob)])
        (snd (verdict_arrives (ou_prims O') now (ws_trust (cl_vault (sp_client p)))
          (pick_recipient (ws_trust (cl_vault (sp_client p))) (Some c) d))) p = (Inr (d', Share_blocked m), p))"
proof (rule conjI)
  let ?S = "ws_trust (cl_vault (sp_client p))" and ?row = "JObj [(''id'', sid), (''encrypted_key'', JStr blob)]"
  obtain p' g blob' where sh: "shareSecret O' sid (JStr blob) (address_js c) (JStr (ek_publicKey theirs)) (sd_expiry d) p = (Inr True, p')"
      "at_hand O' v key kdf a (sp_client p')" "kept (cl_world (sp_client p')) = (fst (kept (cl_world (sp_client p))), g # snd (kept (cl_world (sp_client p))))"
      "js_get g ''encrypted_key'' = JStr blob'" "opens_key (ou_prims O') b blob' k"
    using share_run [OF assms(1-6)] by metis
  obtain dr c1 where dr: "drawn O' (sp_client p') = (Inr dr, c1)" "kept (cl_world c1) = kept (cl_world (sp_client p'))"
    using draw_step [OF assms(1) sh(2)] step_obs by metis
  let ?t = "trustContactKey (ws_trust (cl_vault c1)) (we_now (dr_env dr)) (ct_address c) (ct_encryptionKey c)"
  have "handleShare O' False ?row (pick_recipient ?S (Some c) d) p =
      (Inr ((pick_recipient ?S (Some c) d)\<lparr>sd_keyStatus := Unchanged\<rparr>, Share_done),
       p'\<lparr>sp_client := c1\<lparr>cl_vault := (cl_vault c1)\<lparr>ws_trust := ?t\<rparr>\<rparr>\<rparr>)"
    using sh(1) dr(1) assms(7,9,10)
    by (auto simp: handleShare_def pick_recipient_def tries_def catches_def andThen_apply on_client_def updates_def)
  then show "\<exists>d' p' g blob'. handleShare O' False ?row (pick_recipient ?S (Some c) d) p = (Inr (d', Share_done), p') \<and>
      snd (kept (cl_world (sp_client p'))) = g # snd (kept (cl_world (sp_client p))) \<and>
      js_get g ''encrypted_key'' = JStr blob' \<and> opens_key (ou_prims O') b blob' k"
    using sh(3-5) dr(2) by (intro exI conjI) (assumption | simp)+
  have "snd (attestationVerdict (ou_prims O') ?S now c) = Invalid" using assms(8) by (simp add: attestationVerdict_def Let_def)
  then show "\<exists>d' m. handleShare O' proceed ?row (snd (verdict_arrives (ou_prims O') now ?S (pick_recipient ?S (Some c) d))) p =
      (Inr (d', Share_blocked m), p)"
    by (auto simp: handleShare_def verdict_arrives_def pick_recipient_def ret_def case_prod_unfold)
qed


definition mallory :: contact where
  "mallory = \<lparr>ct_address = Some ''mallory'', ct_username = [], ct_encryptionKey = JStr (ek_publicKey (acc_encryption demo_rotated)),
     ct_attestation = JStr ''x'', ct_identityKey = JStr ''y''\<rparr>"

lemma mallory_invalid: "attestationStatus demo_prims mallory = Invalid"
proof -
  have "ek_publicKey (acc_encryption demo_rotated) \<noteq> []"
    using public_key_long [OF demo_envelope held_key_ok [OF demo_rotated(1), of "acc_encryption demo_rotated"]] by (auto simp: account_keys_def)
  moreover have "\<not> verifyIdentitySignature demo_prims a (JStr ''y'') m g" for a m g
    using identity_key_toHex by (auto simp: verifyIdentitySignature_iff isAddressOf_iff addressOf_def)
  ultimately show ?thesis
    by (auto simp: attestationStatus_def mallory_def verifyEncryptionKeyAttestation_def split: sum.splits)
qed

theorem share_before_the_verdict_witness:
  "\<exists>blob k d' p' g blob'. handleShare (demo_outside demo_password secrets_server) False (JObj [(''id'', JNum 1), (''encrypted_key'', JStr blob)])
        (pick_recipient (ws_trust (cl_vault (sp_client (demo_hook demo_account)))) (Some mallory) fresh_dialog) (demo_hook demo_account) =
        (Inr (d', Share_done), p') \<and>
      attestationStatus demo_prims mallory = Invalid \<and> js_get g ''encrypted_key'' = JStr blob' \<and> opens_key demo_prims demo_rotated blob' k"
proof -
  let ?O = "demo_outside demo_password secrets_server" and ?p = "demo_hook demo_account"
  have own: "acc_encryption x \<in> set (account_keys x)" for x by (simp add: account_keys_def)
  have P: "ou_prims ?O = demo_prims" by simp
  have ok: "account_ok (ou_prims ?O) x" if "account_ok demo_prims x" for x using that by simp
  have S: "sharing_setting ?O fst demo_password (vault_of demo_account) demo_key demo_descriptor demo_account" by (rule demo_sharing [OF demo_account_ok])
  have r: "at_hand ?O (vault_of demo_account) demo_key demo_descriptor demo_account (sp_client ?p)" by (rule demo_hook_ready [OF demo_account_ok])
  obtain blob where o: "opens_key (ou_prims ?O) demo_account blob (replicate 32 0)"
    using secureEncrypt_step [OF S r ok [OF demo_account_ok] own, of "replicate 32 0"] by metis
  have key: "ct_encryptionKey mallory = JStr (ek_publicKey (acc_encryption demo_rotated))" by (simp add: mallory_def)
  have inv: "attestationStatus (ou_prims ?O) mallory = Invalid" using mallory_invalid by simp
  have trust: "ws_trust (cl_vault (sp_client ?p)) = demo_stores" by (simp add: demo_hook_def demo_service_def web_initial_def)
  have new: "checkContactKey (ws_trust (cl_vault (sp_client ?p))) (ct_address mallory) (ct_encryptionKey mallory) \<noteq> Changed"
    unfolding trust by (simp add: checkContactKey_def demo_stores_def record_of_def load_def)
  have d: "sd_attStatus fresh_dialog = Verified \<or> sd_attStatus fresh_dialog = Unattested" by (simp add: fresh_dialog_def)
  show ?thesis
    using share_before_the_verdict [OF S secrets_server_serves r o ok [OF demo_rotated(1)] own key inv new d, of "JNum 1" True 0] inv
    unfolding P by blast
qed

end
