(* ===== verification/Spec2Isabelle.thy ===== *)
theory Spec2Isabelle
  imports TkProperties MsgProperties WebProperties WebWorkProperties
begin

text \<open>
  Verification of Kryptolog: a zero-knowledge vault and messenger. The server keeps ciphertexts, wrapped
  keys and signed statements; every secret is made, sealed, signed and checked on the clients. What is
  modelled here is the JavaScript that does this: the cryptographic core
  (\<open>packages/crypto-core/src\<close>), the background worker of the TrustKeys browser extension
  (\<open>trustkeys/src/background\<close>), and the web client's vault service, login, messenger, files, secrets
  and multi-signature workflows (\<open>frontend/src\<close>). Each definition has the name of the function it
  translates, and each theory opens with the files it translates.

  \<^bold>\<open>How the parts interact.\<close> The core builds the bytes: encodings, hybrid keys and signatures, envelopes,
  signed bodies, vaults, accounts. The extension holds a vault of accounts in a worker. Web pages send
  it messages; what needs the user becomes a request on a queue, and the approval of a request runs the
  cryptographic callback on the active account. The web client has two custodians of the private keys,
  the extension and its own vault service, and does the same flows over either: it logs in with a signed
  challenge, sends messages under session keys wrapped for each member, moves wrapped keys when an
  encryption key is rotated, and erases in signed rounds. Secrets and files are sealed under a file key
  that is wrapped for the owner, for each grantee, and for the signers and recipients of a workflow.

  \<^bold>\<open>Theories.\<close>

  \<^item> Ground: \<open>Prelude\<close> (errors, results, characters, lines), \<open>Acts\<close> (operations on a state that may throw),
    \<open>JsValues\<close>, \<open>Json\<close>, \<open>JsonPretty\<close> (JavaScript values, \<open>JSON.stringify\<close> and \<open>JSON.parse\<close> with their round
    trips), \<open>Primitives\<close> (the cryptographic libraries as a record of functions, with the laws assumed of
    them and a demonstration instance that satisfies all the laws), \<open>Interfaces\<close> (the locales).
  \<^item> crypto-core: \<open>Encoding\<close>, \<open>Base64\<close>, \<open>Canonical\<close> (\<open>encoding.js\<close>), \<open>Composite\<close>, \<open>Kem\<close>, \<open>Pqc\<close>, \<open>Identity\<close>,
    \<open>Bodies\<close>, \<open>SignedBodies\<close>, \<open>Signing\<close> (\<open>signing.js\<close>), \<open>Aead\<close>, \<open>Vault\<close>, \<open>Account\<close>, \<open>AccountOpen\<close>.
  \<^item> Extension: \<open>TkState\<close> (\<open>state.js\<close>), \<open>TkApprovals\<close> (\<open>approvals.js\<close>), \<open>TkVault\<close> (\<open>session.js\<close>, \<open>auth.js\<close>),
    \<open>TkAccounts\<close>, \<open>TkConnect\<close>, \<open>TkCrypto\<close>, \<open>TkRotation\<close> (the handlers), \<open>TkDispatch\<close> (\<open>index.js\<close> and the
    content script); then \<open>TkPages\<close>, \<open>TkInvariant\<close>, \<open>TkAnswers\<close>, \<open>TkHistory\<close>, \<open>TkSigning\<close> (what pages can
    do, the invariant, who is answered, what stays readable, what is signed without a window), \<open>TkDemo\<close> and \<open>TkProperties\<close>.
  \<^item> Messenger: \<open>MsgScope\<close>, \<open>MsgFresh\<close>, \<open>TrustStore\<close>, \<open>MsgSessions\<close>, \<open>MsgSend\<close>, with the lemmas in
    \<open>MsgRoundtrip\<close> and \<open>MsgClaims\<close>, \<open>MsgDemo\<close> and \<open>MsgProperties\<close>.
  \<^item> Web vault and login: \<open>WebVault\<close>, \<open>WebBackup\<close> (the service), \<open>WebMachine\<close>, \<open>WebRun\<close> (its abstract machine
    and the refinement), \<open>WebClient\<close> (requests, paging, custody), \<open>WebFlows\<close>, \<open>WebRounds\<close> (the flows of
    \<open>PQCContext.jsx\<close>), \<open>WebRewrap\<close> (the server's half of re-wrapping, from \<open>backend/security\<close>), and their
    lemmas in \<open>WebCustody\<close>, \<open>WebMoving\<close>, \<open>WebMoved\<close>, \<open>WebRotate\<close>, \<open>WebRotated\<close>, \<open>WebErase\<close>, \<open>WebLogin\<close>,
    \<open>WebTransfer\<close>, \<open>WebDemo\<close>, \<open>WebServers\<close>, \<open>WebProperties\<close>.
  \<^item> Content: \<open>WebChunks\<close> (files), \<open>WebContent\<close> (signed documents, titles, names of groups), \<open>WebMultisig\<close>,
    \<open>WebProof\<close> (workflows and their proofs), \<open>WebSecrets\<close> (secrets and the sharing dialog), with the
    lemmas in \<open>WebFiles\<close>, \<open>WebWork\<close>, \<open>WebSharing\<close>, and \<open>WebWorkProperties\<close>.

  \<^bold>\<open>Interfaces.\<close> Codecs, signature and KEM suites, signed bodies and machines with an invariant are
  locales, interpreted on the model's own definitions: UTF-8, hex and base64 (a canonical codec), the
  composite signature, the hybrid KEM, every builder of a signed body, the approval queue, the whole
  extension, the trust store, and the open page of the messenger.

  \<^bold>\<open>What the lemmas show.\<close> The core: what is encoded, sealed or signed decodes, opens and verifies; a signed
  body commits to its fields up to an explicit SHA-384 collision; \<open>parseAccount\<close> and the accepted chains
  of rotations are sound. The extension: an invariant of every run, what a page can and cannot do, and
  that every request is answered once. The messenger: where session keys come from, what a replay
  meets, who a key is sealed to, and the round trip from sender to reader. The web vault: a refinement of
  an abstract vault, termination of the loops that talk to the server, and what survives refusals,
  transfers and backups. Content: files, secrets and proofs come back as they were made. The properties
  that say what the code fails to do are stated the same way, with the input that shows it.

  \<^bold>\<open>Modelling choices.\<close> Text is Latin-1: a JavaScript string is a HOL string, UTF-8 is written out, and bytes
  outside Latin-1 end in the error \<open>OutOfModel\<close>; the same mark stands for coercions the model does not
  represent. Most handlers that model a \<open>catch\<close> take it like any other failure (only those of \<open>WebContent\<close>
  pass it on), so on an input outside the domain a result says nothing about the code. Dashes and emoji in messages are spelled plainly. Numbers
  are integers (\<open>Date.parse\<close> is an integer or a failure). Objects are association lists in insertion
  order. \<open>throw\<close> is the left of a sum, and what was written before it stays written. Randomness, time,
  the network, the extension's page API, the password prompt, the confirmation of a dialog and the
  authenticator are arguments; a hypothesis about them says what the documented service does (a server
  that keeps what it is sent, a user who types the password), and a witness gives one that does. Each
  operation is handled to its end before the next, except where the queue of approvals is split at its
  \<open>await\<close>; \<open>Promise.all\<close> is sequential; there is one tab; storage keeps what it is given.

  \<^bold>\<open>Bounds and fuel.\<close> The JSON parser has the length of the text as fuel, enough since every step reads a
  character. Paging stops after 500 pages as the code does. Erasing stops after 50 rounds of 1000 rows as
  the code does. Only the re-wrapping loop has fuel of its own: one turn more than there are stale
  wraps, and the theorem on it shows that it ends within them.

  \<^bold>\<open>Not modelled.\<close> The server (Python) beyond the two functions of re-wrapping; React rendering, dialogs and
  their local state beyond the handlers named above; the websocket, notifications, themes and lists that
  show what the server answers; the extension's popup and its injected page script; build files, tests
  and scripts. The third-party cryptography is a parameter with its laws. They are left out because they
  render, transport or store what the modelled code made and checks again, because they are another
  language, or because the browser's event loop would have to be modelled with them; so nothing here
  says what the server enforces, nor what a screen shows while an operation is under way.
\<close>

section \<open>Signatures and identities\<close>

text \<open>A signature made with an identity's seed verifies as that identity: for every usable
  seed, signing never fails and the verifier accepts the signature under the seed's own public
  key and the address that key hashes to.\<close>

theorem own_signature_accepted:
  assumes "signature_laws P" and "digest_laws P" and "own_identity P sk pk a"
  shows "\<exists>sig. signMessage P msg (JStr (toHex sk)) rnd = Inr sig \<and>
    verifyIdentitySignature P (JStr a) (JStr (toHex pk)) msg (JStr sig)"
  using own_signature_verifies [OF assms] .

lemma demo_composite_usable: "composite_usable demo_prims (replicate 80 0)"
  by (simp add: composite_usable_def demo_prims_def)

theorem own_signature_accepted_witness:
  "\<exists>pk a sig. own_identity demo_prims (replicate 80 0) pk a \<and>
     signMessage demo_prims ''hello'' (JStr (toHex (replicate 80 0))) ([], []) = Inr sig \<and>
     verifyIdentitySignature demo_prims (JStr a) (JStr (toHex pk)) ''hello'' (JStr sig)"
proof -
  obtain pk a where "own_identity demo_prims (replicate 80 0) pk a"
    using own_identity_exists [OF demo_signature demo_composite_usable] by blast
  then show ?thesis
    using own_signature_accepted [OF demo_signature demo_digest, of "replicate 80 0" pk a "''hello''" "([], [])"]
    by blast
qed

text \<open>C19: A signature is accepted only when both halves verify, over the message's own bytes,
  under a key that hashes to the claimed address; and whenever they do, with the sizes of the
  suite and an uncompressed point, it is accepted.\<close>

theorem accepted_iff_both_halves:
  "verifyIdentitySignature P a v msg sig \<longleftrightarrow>
     isAddressOf P a v \<and>
     (\<exists>s pk x. fromB64 sig = Inr s \<and> v = JStr (toHex pk) \<and>
        3317 \<le> length s \<and> length s \<le> 3413 \<and> length pk = 2049 \<and> drop 1952 pk ! 0 = 4 \<and>
        mldsa65P384Message P (Some (utf8 msg)) (Some []) = Inr x \<and>
        mldsa_verify P (take 3309 s) x (take 1952 pk) p384_label = Some True \<and>
        p384_verify P (drop 3309 s) x (drop 1952 pk) = Some True)"
  unfolding verifyIdentitySignature_iff composite_verify_iff by blast

text \<open>An address names one key: two keys accepted for one address are equal, or the two keys
  are an explicit SHA-384 collision.\<close>

theorem address_names_one_key:
  assumes "isAddressOf P a v" and "isAddressOf P a w"
  shows "v = w \<or> key_collision P v w"
  using address_binds_key [OF assms] .

theorem address_names_one_key_witness:
  "\<exists>v a. isAddressOf demo_prims a v \<and> (v = v \<or> key_collision demo_prims v v)"
proof -
  obtain pk a where "own_identity demo_prims (replicate 80 0) pk a"
    using own_identity_exists [OF demo_signature demo_composite_usable] by blast
  then have "isAddressOf demo_prims (JStr a) (JStr (toHex pk))"
    using isAddressOf_addressOf [OF demo_digest] by (simp add: own_identity_def)
  then show ?thesis using address_names_one_key by blast
qed

section \<open>Encryption to an account\<close>

text \<open>C21: What is sealed to any encryption key of an account, current or retired, the account opens
  again. Under any other key id, be it that of another key the account holds, neither the account
  nor any other opens it.\<close>

theorem sealed_to_account_opens:
  assumes "envelope_laws P" and "aead_binding P" and "aead_key_binding P" and "account_ok P a" and "k \<in> set (account_keys a)"
    and "p384_valid P (fst (fst rnd))" and "snd rnd \<noteq> []"
  shows "\<exists>env. encryptMessage P rnd m (JStr (ek_publicKey k)) = Inr env \<and> open_data P a env = Inr m \<and>
    (\<forall>kid b. kid \<noteq> ek_kid k \<longrightarrow> (\<exists>e. open_data P b (with_kid kid env) = Inl e))"
  using sealed_opens [OF assms] .

theorem sealed_to_account_opens_witness:
  "\<exists>env old. old \<in> set (account_keys demo_rotated) \<and> ek_kid old \<noteq> ek_kid (acc_encryption demo_rotated) \<and>
     encryptMessage demo_prims ((replicate 48 2, []), [1]) ''hello'' (JStr (ek_publicKey (acc_encryption demo_rotated))) = Inr env \<and>
     open_data demo_prims demo_rotated env = Inr ''hello'' \<and>
     (\<exists>e. open_data demo_prims demo_rotated (with_kid (ek_kid old) env) = Inl e)"
proof -
  obtain old where old: "old \<in> set (account_keys demo_rotated)" "ek_kid old \<noteq> ek_kid (acc_encryption demo_rotated)"
    using demo_rotated(4,5) by (auto simp: current_kid_def)
  have "acc_encryption demo_rotated \<in> set (account_keys demo_rotated)" by (simp add: account_keys_def)
  moreover have "p384_valid demo_prims (replicate 48 2)" by (simp add: demo_prims_def)
  ultimately obtain env where
    "encryptMessage demo_prims ((replicate 48 2, []), [1]) ''hello'' (JStr (ek_publicKey (acc_encryption demo_rotated))) = Inr env"
    "open_data demo_prims demo_rotated env = Inr ''hello''" "\<exists>e. open_data demo_prims demo_rotated (with_kid (ek_kid old) env) = Inl e"
    using sealed_to_account_opens [OF demo_envelope demo_binding demo_rotated(1), of "acc_encryption demo_rotated"
        "((replicate 48 2, []), [1])" "''hello''"] old(2) by auto
  then show ?thesis using old by blast
qed

section \<open>Vaults\<close>

text \<open>C28: A vault encrypted under a password decrypts under it to the same value, and under a
  password that derives another key not at all.\<close>

theorem vault_opens_only_with_its_password:
  assumes "aead_correct P" and "aead_key_binding P" and "kdf_laws P" and "length (fst rnd) = 16" and "snd rnd \<noteq> []" and "js_pure d"
  shows "\<exists>blob. encryptVault P rnd d pw = Inr blob \<and> decryptVault P blob pw = Inr d \<and>
    (\<forall>pw'. argon2id P (utf8 pw') (fst rnd) 47104 1 1 32 \<noteq> argon2id P (utf8 pw) (fst rnd) 47104 1 1 32 \<longrightarrow>
       decryptVault P blob pw' = Inl (PlainError ''Incorrect password or corrupted data''))"
  using vault_roundtrip [OF assms(1,3-6), of pw] vault_wrong_password [OF assms(1-5)] by metis

theorem vault_opens_only_with_its_password_witness:
  "\<exists>blob. encryptVault demo_prims demo_rnd (JStr ''secret'') demo_password = Inr blob \<and>
     decryptVault demo_prims blob demo_password = Inr (JStr ''secret'') \<and>
     decryptVault demo_prims blob ''another'' = Inl (PlainError ''Incorrect password or corrupted data'')"
  using vault_opens_only_with_its_password [OF demo_aead demo_binding(2) demo_kdf, of demo_rnd "JStr ''secret''" demo_password]
    demo_other_key(2) by (auto simp: demo_rnd_def demo_key_def)

text \<open>Whatever descriptor a stored vault carries, the password derivation runs only with a
  salt of sixteen bytes or more and with memory, passes and lanes within the code's bounds.\<close>

theorem derivation_within_bounds:
  assumes "deriveVaultKeyBits P pw kdf = Inr k"
  shows "\<exists>salt m t p. k = argon2id P (utf8 pw) salt m t p 32 \<and> fromB64 (js_get kdf ''salt'') = Inr salt \<and> 16 \<le> length salt \<and>
    8 * 1024 \<le> m \<and> m \<le> 1024 * 1024 \<and> 1 \<le> t \<and> t \<le> 16 \<and> 1 \<le> p \<and> p \<le> 4"
proof -
  obtain salt where s: "checkKdf kdf = Inr salt" using assms by (auto simp: deriveVaultKeyBits_def vault_key_bits_def)
  then show ?thesis
    using assms checkKdf_ok [OF s] by (auto simp: deriveVaultKeyBits_def vault_key_bits_def)
qed

theorem derivation_within_bounds_witness:
  "\<exists>salt m. demo_key = argon2id demo_prims (utf8 demo_password) salt m 1 1 32 \<and> 16 \<le> length salt"
  using derivation_within_bounds [OF demo_password_opens] by (auto simp: demo_prims_def)

text \<open>The password rule, said without its loops: at least twelve characters, five different
  ones, not a common password, and not a run of characters by steps of zero or one.\<close>

theorem password_rule:
  "vaultPasswordProblem (JStr pw) = None \<longleftrightarrow>
     12 \<le> length pw \<and> 5 \<le> card (set pw) \<and> to_lower pw \<notin> set COMMON \<and> (\<nexists>d. \<bar>d\<bar> \<le> 1 \<and> steps_by d (to_lower pw))"
  by (rule password_accepted_iff)

section \<open>Signed statements\<close>

text \<open>A message's signed body commits to the message: two messages of one body agree in sender,
  conversation, group, session, time and sequence, in the ciphertext, and in the wrapped keys unless
  these are an explicit SHA-384 collision.\<close>

theorem message_body_commits:
  assumes "messageSigningBody P m = Inr b" and "messageSigningBody P n = Inr b"
  shows "mf_from m = mf_from n \<and> mf_conv m = mf_conv n \<and> or_empty (mf_gid m) = or_empty (mf_gid n) \<and>
    mf_sid m = mf_sid n \<and> mf_ts m = mf_ts n \<and> mf_seq m = mf_seq n \<and>
    same_keys P (mf_keys m) (mf_keys n) \<and> same_ct (mf_ct m) (mf_ct n)"
  using messageSigningBody_commits [OF assms] unfolding same_message_def .

definition demo_message :: "jsval \<Rightarrow> message_fields" where
  "demo_message gid = \<lparr>mf_from = JStr (replicate 96 (CHR ''a'')), mf_conv = JStr (replicate 96 (CHR ''b'')), mf_sid = JStr ''s1'',
     mf_ct = JStr ''c'', mf_gid = gid, mf_keys = JNull, mf_ts = JNum 1, mf_seq = JNum 2\<rparr>"

theorem message_body_commits_witness:
  "\<exists>b. messageSigningBody demo_prims (demo_message JNull) = Inr b \<and> messageSigningBody demo_prims (demo_message (JStr [])) = Inr b \<and>
     or_empty (mf_gid (demo_message JNull)) = or_empty (mf_gid (demo_message (JStr [])))"
proof -
  have c: "message_checks (demo_message JNull)" "message_checks (demo_message (JStr []))"
    by code_simp+
  obtain b where b: "messageSigningBody demo_prims (demo_message JNull) = Inr b"
      "messageSigningBody demo_prims (demo_message (JStr [])) = Inr b"
    using c by (simp add: messageSigningBody_ok) (simp add: message_lines_def demo_message_def or_empty_def)
  then show ?thesis using message_body_commits [OF b] by blast
qed

text \<open>Two signing contexts never share a body: what is signed in one can be presented in no
  other.\<close>

theorem contexts_never_share_a_body:
  assumes "c \<in> set SIGNING_CONTEXT" and "d \<in> set SIGNING_CONTEXT" and "c \<noteq> d"
  shows "domainSeparate c a \<noteq> domainSeparate d b"
  using contexts_disjoint [OF assms] .

theorem contexts_never_share_a_body_witness:
  "domainSeparate CTX_LOGIN ''nonce=1'' \<noteq> domainSeparate CTX_MESSAGE ''nonce=1''"
  using contexts_never_share_a_body [of CTX_LOGIN CTX_MESSAGE "''nonce=1''" "''nonce=1''"] by (simp add: SIGNING_CONTEXT_def ctx_defs)

section \<open>Stored data\<close>

text \<open>C33: Base64 has one spelling per value: a text decodes to bytes exactly when it is their own
  encoding, and never to none.\<close>

theorem base64_one_spelling:
  "fromB64 v = Inr bs \<longleftrightarrow> bs \<noteq> [] \<and> v = JStr (toB64 bs)"
  by (rule b64.dec_iff)

text \<open>C32: A file chunk opens only at its own place: presented under another upload's id or another
  index, under its very key, it is refused.\<close>

theorem chunk_opens_only_in_place:
  assumes "aead_correct P" and "aead_binding P" and "aes_key_ok key" and "iv \<noteq> []"
    and "nl \<notin> set (js_str s)" and "nl \<notin> set (js_str s')"
  shows "\<exists>c. encryptChunk P iv m (JStr (toHex key)) (JStr (chunkAad s i)) = Inr c \<and>
    decryptChunk P (js_get c ''iv'') (js_get c ''ciphertext'') (JStr (toHex key)) (JStr (chunkAad s' i')) =
      (if js_str s = js_str s' \<and> js_str i = js_str i' then Inr m else Inl OperationError)"
proof -
  obtain c where c: "encryptChunk P iv m (JStr (toHex key)) (JStr (chunkAad s i)) = Inr c"
      "decryptChunk P (js_get c ''iv'') (js_get c ''ciphertext'') (JStr (toHex key)) (JStr (chunkAad s i)) = Inr m"
    using chunk_roundtrip [OF assms(1,3,4)] by blast
  have "js_str s = js_str s' \<Longrightarrow> js_str i = js_str i' \<Longrightarrow> chunkAad s i = chunkAad s' i'" by (simp add: chunkAad_def)
  then show ?thesis using c chunk_misplaced [OF assms(1-6) _ c(1)] by auto
qed

theorem chunk_opens_only_in_place_witness:
  "\<exists>c. encryptChunk demo_prims [1] [7] (JStr (toHex (replicate 32 0))) (JStr (chunkAad (JStr ''f'') (JNum 0))) = Inr c \<and>
     decryptChunk demo_prims (js_get c ''iv'') (js_get c ''ciphertext'') (JStr (toHex (replicate 32 0))) (JStr (chunkAad (JStr ''f'') (JNum 1))) =
       Inl OperationError"
  using chunk_opens_only_in_place [OF demo_aead demo_binding(1), of "replicate 32 0" "[1]" "JStr ''f''" "JStr ''f''" "[7]" "JNum 0" "JNum 1"]
  by (simp add: aes_key_ok_def)

text \<open>C29: What \<open>parseAccount\<close> accepts is sound: every public key, id and key id is the one its seeds
  derive, no key appears twice, and accepting its own output again changes nothing.\<close>

theorem parsed_account_sound:
  assumes "parseAccount P now v = Inr a"
  shows "identityPublicKeyOf P (JStr (hp_seed (acc_identity a))) = Inr (hp_publicKey (acc_identity a)) \<and>
    addressOf P (JStr (hp_publicKey (acc_identity a))) = Inr (acc_id a) \<and>
    (\<forall>k\<in>set (account_keys a). encryptionPublicKeyOf P (JStr (ek_seed k)) = Inr (ek_publicKey k) \<and>
       encryptionKeyId P (JStr (ek_publicKey k)) = Inr (ek_kid k)) \<and>
    distinct (map ek_kid (account_keys a)) \<and> length (acc_retired a) \<le> 32 \<and>
    parseAccount P now' (account_js a) = Inr a"
proof -
  have a: "account_ok P a" by (rule parse_ok [OF assms])
  then have "\<forall>k\<in>set (account_keys a). key_ok P k" by (auto simp: account_ok_def account_keys_def list_all_iff)
  then show ?thesis
    using a parse_account_js [OF a] by (simp add: account_ok_def key_ok_def kids_of_keys MAX_RETIRED_ENCRYPTION_KEYS_def)
qed

theorem parsed_account_sound_witness:
  "parseAccount demo_prims 0 (account_js demo_account) = Inr demo_account \<and>
   addressOf demo_prims (JStr (hp_publicKey (acc_identity demo_account))) = Inr (acc_id demo_account)"
  using parsed_account_sound [OF parse_account_js [OF demo_account_ok, of 0]] parse_account_js [OF demo_account_ok, of 0] by blast

text \<open>C31: A chain of key rotations the client accepts leads from the one key id to the other, each
  step a distinct rotation of the list given, verified as that address's own.\<close>

theorem accepted_chain_is_verified:
  assumes "rotationChain P a v (JArr rs) fromKid toKid = Inr (Some chain)"
  shows "linked P a v fromKid chain toKid \<and> (\<forall>r\<in>set chain. r \<in> set rs \<and> verifyKeyRotation P a v r) \<and>
    distinct chain \<and> length chain \<le> length rs"
proof -
  have w: "rotation_walk P a v rs fromKid toKid [] = Some chain"
    using assms by (auto simp: rotationChain_def rotation_records_def split: if_splits)
  have "linked P a v k c l \<Longrightarrow> \<forall>r\<in>set c. verifyKeyRotation P a v r" for k c l
    by (induction P a v k c l rule: linked.induct) auto
  then show ?thesis using rotation_walk_linked [OF w] rotation_chain_length [OF w] by auto
qed

theorem accepted_chain_is_verified_witness:
  "\<exists>a v r chain. rotationChain demo_prims a v (JArr [r]) (toHex (replicate 16 0)) (toHex (replicate 16 1)) = Inr (Some chain) \<and>
     chain = [r] \<and> verifyKeyRotation demo_prims a v r"
proof -
  let ?k = "toHex (replicate 16 0)" and ?l = "toHex (replicate 16 1)"
  obtain sk pk where o: "own_identity demo_prims sk pk (acc_id demo_account)"
    using account_identity [OF demo_account_ok] by blast
  have kids: "isEncryptionKeyId (JStr ?k)" "isEncryptionKeyId (JStr ?l)" "?k \<noteq> ?l"
    by (simp_all add: toHex_lhex toHex_inj KEY_ID_HEX_LENGTH_def)
  obtain sig where r: "verifyKeyRotation demo_prims (JStr (acc_id demo_account)) (JStr (toHex pk))
      (JObj [(''old_kid'', JStr ?k), (''new_kid'', JStr ?l), (''alg'', JStr KEM_ALG), (''ts'', JNum 0), (''signature'', JStr sig)])"
    using own_rotation_verifies [OF demo_signature demo_digest o kids, of 0] by (auto simp: max_safe_integer_def)
  let ?r = "JObj [(''old_kid'', JStr ?k), (''new_kid'', JStr ?l), (''alg'', JStr KEM_ALG), (''ts'', JNum 0), (''signature'', JStr sig)]"
  let ?a = "JStr (acc_id demo_account)" and ?v = "JStr (toHex pk)"
  have b: "by_old [?r] ?k = Some ?r" by (simp add: by_old_def)
  have c: "rotationChain demo_prims ?a ?v (JArr [?r]) ?k ?l = Inr (Some [?r])"
    using kids(3) r b by (simp add: rotationChain_def rotation_records_def rotation_walk.simps)
  then show ?thesis using accepted_chain_is_verified [OF c] by auto
qed

end
